(* ===== verification/App_Prelude.thy ===== *)
theory App_Prelude
  imports Main "HOL-Library.Word"
begin

text \<open>
  What every component of the development shares: the widths of the C integers the firmware
  uses, bytes of a C string read as numbers, the collections of rewrite rules the component
  proofs name, and small facts on lists and words.

  C values are modelled as follows.  \<open>uint8_t\<close>, \<open>uint32_t\<close> and \<open>uint64_t\<close> are words of
  that width, so their arithmetic wraps as it does in C.  \<open>size_t\<close> values are natural
  numbers: they count bytes or entries of buffers whose sizes the code bounds (4096 source
  bytes, 131072 blob bytes) far below the 32 bits of \<open>size_t\<close> on the target.  A \<open>char\<close> is
  an HOL \<open>char\<close> (one byte), and a C string is the list of its bytes before the NUL.
\<close>

unbundle bit_operations_syntax

type_synonym u8 = "8 word"
type_synonym u32 = "32 word"
type_synonym u64 = "64 word"

text \<open>The byte of a character, as the C code compares and subtracts it.\<close>

abbreviation byte :: "char \<Rightarrow> nat" where
  "byte c \<equiv> of_char c"

text \<open>
  Collections: \<open>limit_defs\<close> holds the numeric limits of the firmware, \<open>hist_simps\<close> the
  rules that evaluate operations which log to an event history.
\<close>

named_theorems limit_defs
named_theorems hist_simps

section \<open>Characters\<close>

lemma byte_less_256 [simp]: "byte c < 256"
  by simp

lemma byte_inject [simp]: "byte c = byte d \<longleftrightarrow> c = d"
  by (metis char_of_char)

lemma byte_eq_literal: "byte c = n \<Longrightarrow> c = char_of n"
  by auto

section \<open>Lists\<close>

lemma takeWhile_length_less:
  "length (takeWhile P xs) < length xs \<Longrightarrow> \<not> P (xs ! length (takeWhile P xs))"
  by (rule nth_length_takeWhile)

lemma nth_less_takeWhile:
  "i < length (takeWhile P xs) \<Longrightarrow> P (xs ! i)"
  by (metis nth_mem set_takeWhileD takeWhile_nth)

lemma list_all_nth_less: "list_all P xs \<Longrightarrow> i < length xs \<Longrightarrow> P (xs ! i)"
  by (simp add: list_all_length)

text \<open>A fold that keeps a property at every step keeps it to the end.\<close>

lemma fold_invariant:
  assumes "I s" and "\<And>x s. x \<in> set xs \<Longrightarrow> I s \<Longrightarrow> I (f x s)"
  shows "I (fold f xs s)"
  using assms by (induction xs arbitrary: s) auto

lemma distinct_snoc_iff [simp]: "distinct (xs @ [x]) \<longleftrightarrow> distinct xs \<and> x \<notin> set xs"
  by auto

section \<open>Words\<close>

text \<open>The C idiom \<open>UINT32_MAX - left < right\<close> says exactly that the sum overflows.\<close>

lemma word_add_overflow_iff:
  fixes a b :: "'a :: len word"
  shows "(- 1) - a < b \<longleftrightarrow> 2 ^ LENGTH('a) \<le> unat a + unat b"
proof -
  have m: "unat (- 1 :: 'a word) = 2 ^ LENGTH('a) - 1"
    by (simp add: unsigned_minus_1_eq_mask mask_eq_exp_minus_1)
  have "unat ((- 1) - a) = unat (- 1 :: 'a word) - unat a"
    by (rule unat_sub) simp
  then have "unat ((- 1) - a) = 2 ^ LENGTH('a) - 1 - unat a"
    by (simp add: m)
  moreover have "unat a < 2 ^ LENGTH('a)"
    by (rule unsigned_less)
  ultimately show ?thesis
    by (simp only: word_less_nat_alt) linarith
qed

lemma xor_cancel_right [simp]:
  fixes a b c :: "'a :: len word"
  shows "a XOR c = b XOR c \<longleftrightarrow> a = b"
proof
  assume "a XOR c = b XOR c"
  then have "(a XOR c) XOR c = (b XOR c) XOR c" by simp
  then show "a = b" by (simp add: xor.assoc)
qed simp

text \<open>Widening a byte keeps its value, so it loses nothing.\<close>

lemma unat_widen_u8 [simp]: "unat (ucast b :: u32) = unat b" for b :: u8
proof -
  have "unat b < 2 ^ 8"
    using unsigned_less [of b] by simp
  then have "unat b < 2 ^ 32" by simp
  then show ?thesis
    by (simp add: unsigned_ucast_eq take_bit_nat_eq_self)
qed

lemma widen_u8_inject [simp]: "(ucast b :: u32) = ucast b' \<longleftrightarrow> b = b'" for b b' :: u8
  by (metis unat_widen_u8 word_unat_eq_iff)

lemma unat_add_no_overflow:
  fixes a b :: "'a :: len word"
  assumes "unat a + unat b < 2 ^ LENGTH('a)"
  shows "unat (a + b) = unat a + unat b"
  using assms by (simp add: unat_word_ariths)

end
