(* ===== verification/App_Error.thy ===== *)
theory App_Error
  imports App_Prelude
begin

text \<open>
  The error vocabulary of the firmware (\<open>macro_model/include/app_error.h\<close>,
  \<open>macro_model/app_error.c\<close>), the structured result of operations with a commit point
  (\<open>support/include/app_operation_result.h\<close>) and the shared health vocabulary
  (\<open>support/include/subsystem_health.h\<close>).  Every fallible function of the C code returns
  \<open>app_error_code_t\<close>; the models return the constructor of the same name.
\<close>

section \<open>Error codes\<close>

datatype app_error =
    APP_ERROR_NONE
  | APP_ERROR_INVALID_ARGUMENT
  | APP_ERROR_NOT_FOUND
  | APP_ERROR_CONFLICT
  | APP_ERROR_STORAGE_UNAVAILABLE
  | APP_ERROR_STORAGE_FULL
  | APP_ERROR_STORAGE_CORRUPT
  | APP_ERROR_MACRO_SYNTAX
  | APP_ERROR_MACRO_LIMIT
  | APP_ERROR_USB_NOT_READY
  | APP_ERROR_EXECUTOR_BUSY
  | APP_ERROR_EXECUTION_CANCELLED
  | APP_ERROR_AUTH_REQUIRED
  | APP_ERROR_AUTH_FAILED
  | APP_ERROR_RATE_LIMITED
  | APP_ERROR_TIMEOUT
  | APP_ERROR_IO
  | APP_ERROR_INTERNAL
  | APP_ERROR_AUTH_STATE_INCOMPLETE
  | APP_ERROR_RESET_RECOVERY_REQUIRED
  | APP_ERROR_RESET_SETTINGS_INCOMPLETE
  | APP_ERROR_COMMIT_UNCERTAIN

fun app_error_code_string :: "app_error \<Rightarrow> string" where
  "app_error_code_string APP_ERROR_NONE = ''none''"
| "app_error_code_string APP_ERROR_INVALID_ARGUMENT = ''invalid_argument''"
| "app_error_code_string APP_ERROR_NOT_FOUND = ''not_found''"
| "app_error_code_string APP_ERROR_CONFLICT = ''conflict''"
| "app_error_code_string APP_ERROR_STORAGE_UNAVAILABLE = ''storage_unavailable''"
| "app_error_code_string APP_ERROR_STORAGE_FULL = ''storage_full''"
| "app_error_code_string APP_ERROR_STORAGE_CORRUPT = ''storage_corrupt''"
| "app_error_code_string APP_ERROR_MACRO_SYNTAX = ''macro_syntax''"
| "app_error_code_string APP_ERROR_MACRO_LIMIT = ''macro_limit''"
| "app_error_code_string APP_ERROR_USB_NOT_READY = ''usb_not_ready''"
| "app_error_code_string APP_ERROR_EXECUTOR_BUSY = ''executor_busy''"
| "app_error_code_string APP_ERROR_EXECUTION_CANCELLED = ''execution_cancelled''"
| "app_error_code_string APP_ERROR_AUTH_REQUIRED = ''auth_required''"
| "app_error_code_string APP_ERROR_AUTH_FAILED = ''auth_failed''"
| "app_error_code_string APP_ERROR_AUTH_STATE_INCOMPLETE = ''auth_state_incomplete''"
| "app_error_code_string APP_ERROR_RESET_RECOVERY_REQUIRED = ''reset_recovery_required''"
| "app_error_code_string APP_ERROR_RESET_SETTINGS_INCOMPLETE = ''reset_settings_incomplete''"
| "app_error_code_string APP_ERROR_COMMIT_UNCERTAIN = ''commit_uncertain''"
| "app_error_code_string APP_ERROR_RATE_LIMITED = ''rate_limited''"
| "app_error_code_string APP_ERROR_TIMEOUT = ''timeout''"
| "app_error_code_string APP_ERROR_IO = ''io''"
| "app_error_code_string APP_ERROR_INTERNAL = ''internal''"

definition app_error_is_object_fault :: "app_error \<Rightarrow> bool" where
  "app_error_is_object_fault e =
     (case e of
        APP_ERROR_STORAGE_CORRUPT \<Rightarrow> True
      | APP_ERROR_MACRO_SYNTAX \<Rightarrow> True
      | APP_ERROR_MACRO_LIMIT \<Rightarrow> True
      | APP_ERROR_INVALID_ARGUMENT \<Rightarrow> True
      | APP_ERROR_NOT_FOUND \<Rightarrow> True
      | _ \<Rightarrow> False)"

text \<open>
  The wire strings are pairwise different, so a client can tell every error code apart.
\<close>

lemma app_error_code_string_inj: "app_error_code_string a = app_error_code_string b \<Longrightarrow> a = b"
  by (cases a; cases b) simp_all

section \<open>Operation results\<close>

datatype commit_state =
    APP_OPERATION_COMMIT_NOT_APPLICABLE
  | APP_OPERATION_NOT_COMMITTED
  | APP_OPERATION_COMMITTED
  | APP_OPERATION_COMMIT_UNCERTAIN

record operation_result =
  or_primary_error :: app_error
  or_cleanup_error :: app_error
  or_cleanup_incomplete :: bool
  or_commit_state :: commit_state

definition app_operation_success :: operation_result where
  "app_operation_success =
     \<lparr>or_primary_error = APP_ERROR_NONE, or_cleanup_error = APP_ERROR_NONE,
      or_cleanup_incomplete = False, or_commit_state = APP_OPERATION_COMMIT_NOT_APPLICABLE\<rparr>"

definition app_operation_result_ok :: "operation_result \<Rightarrow> bool" where
  "app_operation_result_ok r \<longleftrightarrow>
     or_primary_error r = APP_ERROR_NONE \<and> or_cleanup_error r = APP_ERROR_NONE \<and>
     \<not> or_cleanup_incomplete r \<and> or_commit_state r \<noteq> APP_OPERATION_NOT_COMMITTED \<and>
     or_commit_state r \<noteq> APP_OPERATION_COMMIT_UNCERTAIN"

definition app_operation_record_primary ::
  "operation_result \<Rightarrow> app_error \<Rightarrow> operation_result" where
  "app_operation_record_primary r e =
     (if e \<noteq> APP_ERROR_NONE \<and> or_primary_error r = APP_ERROR_NONE
      then r\<lparr>or_primary_error := e\<rparr> else r)"

definition app_operation_record_cleanup ::
  "operation_result \<Rightarrow> app_error \<Rightarrow> operation_result" where
  "app_operation_record_cleanup r e =
     (if e \<noteq> APP_ERROR_NONE
      then (if or_cleanup_error r = APP_ERROR_NONE then r\<lparr>or_cleanup_error := e\<rparr> else r)
             \<lparr>or_cleanup_incomplete := True\<rparr>
      else r)"

definition app_operation_result_error :: "operation_result \<Rightarrow> app_error" where
  "app_operation_result_error r =
     (if or_primary_error r \<noteq> APP_ERROR_NONE then or_primary_error r else or_cleanup_error r)"

lemmas operation_result_defs =
  app_operation_success_def app_operation_result_ok_def app_operation_record_primary_def
  app_operation_record_cleanup_def app_operation_result_error_def

text \<open>An error recorded on either side is never lost by the single-error mapping.\<close>

lemma recorded_primary_reported:
  "e \<noteq> APP_ERROR_NONE \<Longrightarrow>
   app_operation_result_error (app_operation_record_primary r e) \<noteq> APP_ERROR_NONE"
  by (simp add: operation_result_defs)

lemma recorded_cleanup_reported:
  "e \<noteq> APP_ERROR_NONE \<Longrightarrow>
   app_operation_result_error (app_operation_record_cleanup r e) \<noteq> APP_ERROR_NONE"
  by (simp add: operation_result_defs)

lemma ok_reports_none:
  "app_operation_result_ok r \<Longrightarrow> app_operation_result_error r = APP_ERROR_NONE"
  by (simp add: operation_result_defs)

section \<open>Health states\<close>

datatype subsystem_health_state =
    SUBSYSTEM_HEALTH_HEALTHY
  | SUBSYSTEM_HEALTH_DEGRADED
  | SUBSYSTEM_HEALTH_UNAVAILABLE
  | SUBSYSTEM_HEALTH_RECOVERING
  | SUBSYSTEM_HEALTH_FAILED

fun subsystem_health_state_string :: "subsystem_health_state \<Rightarrow> string" where
  "subsystem_health_state_string SUBSYSTEM_HEALTH_HEALTHY = ''healthy''"
| "subsystem_health_state_string SUBSYSTEM_HEALTH_DEGRADED = ''degraded''"
| "subsystem_health_state_string SUBSYSTEM_HEALTH_UNAVAILABLE = ''unavailable''"
| "subsystem_health_state_string SUBSYSTEM_HEALTH_RECOVERING = ''recovering''"
| "subsystem_health_state_string SUBSYSTEM_HEALTH_FAILED = ''failed''"

end
