(* ===== verification/Macro_Keymap.thy ===== *)
theory Macro_Keymap
  imports App_Error
begin

text \<open>
  The US keyboard map of the macro compiler: \<open>macro_parser/macro_keymap_us.c\<close> (printable
  characters, named keys, modifiers) and \<open>macro_parser/macro_keymap_us_v2.c\<close> (the names a
  \<open>{...}\<close> directive accepts).  A lookup that fails in C returns \<open>false\<close>; here it is \<open>None\<close>.
\<close>

section \<open>HID codes\<close>

record hid_key =
  hk_modifiers :: u8
  hk_usage :: u8

abbreviation MOD_LEFT_CTRL :: u8 where "MOD_LEFT_CTRL \<equiv> 0x01"
abbreviation MOD_LEFT_SHIFT :: u8 where "MOD_LEFT_SHIFT \<equiv> 0x02"
abbreviation MOD_LEFT_ALT :: u8 where "MOD_LEFT_ALT \<equiv> 0x04"
abbreviation MOD_LEFT_GUI :: u8 where "MOD_LEFT_GUI \<equiv> 0x08"
abbreviation KEY_A :: u8 where "KEY_A \<equiv> 0x04"
abbreviation KEY_1 :: u8 where "KEY_1 \<equiv> 0x1e"
abbreviation KEY_2 :: u8 where "KEY_2 \<equiv> 0x1f"
abbreviation KEY_3 :: u8 where "KEY_3 \<equiv> 0x20"
abbreviation KEY_4 :: u8 where "KEY_4 \<equiv> 0x21"
abbreviation KEY_5 :: u8 where "KEY_5 \<equiv> 0x22"
abbreviation KEY_6 :: u8 where "KEY_6 \<equiv> 0x23"
abbreviation KEY_7 :: u8 where "KEY_7 \<equiv> 0x24"
abbreviation KEY_8 :: u8 where "KEY_8 \<equiv> 0x25"
abbreviation KEY_9 :: u8 where "KEY_9 \<equiv> 0x26"
abbreviation KEY_0 :: u8 where "KEY_0 \<equiv> 0x27"
abbreviation KEY_ENTER :: u8 where "KEY_ENTER \<equiv> 0x28"
abbreviation KEY_ESCAPE :: u8 where "KEY_ESCAPE \<equiv> 0x29"
abbreviation KEY_BACKSPACE :: u8 where "KEY_BACKSPACE \<equiv> 0x2a"
abbreviation KEY_TAB :: u8 where "KEY_TAB \<equiv> 0x2b"
abbreviation KEY_SPACE :: u8 where "KEY_SPACE \<equiv> 0x2c"
abbreviation KEY_MINUS :: u8 where "KEY_MINUS \<equiv> 0x2d"
abbreviation KEY_EQUAL :: u8 where "KEY_EQUAL \<equiv> 0x2e"
abbreviation KEY_LEFT_BRACE :: u8 where "KEY_LEFT_BRACE \<equiv> 0x2f"
abbreviation KEY_RIGHT_BRACE :: u8 where "KEY_RIGHT_BRACE \<equiv> 0x30"
abbreviation KEY_BACKSLASH :: u8 where "KEY_BACKSLASH \<equiv> 0x31"
abbreviation KEY_SEMICOLON :: u8 where "KEY_SEMICOLON \<equiv> 0x33"
abbreviation KEY_APOSTROPHE :: u8 where "KEY_APOSTROPHE \<equiv> 0x34"
abbreviation KEY_GRAVE :: u8 where "KEY_GRAVE \<equiv> 0x35"
abbreviation KEY_COMMA :: u8 where "KEY_COMMA \<equiv> 0x36"
abbreviation KEY_PERIOD :: u8 where "KEY_PERIOD \<equiv> 0x37"
abbreviation KEY_SLASH :: u8 where "KEY_SLASH \<equiv> 0x38"
abbreviation KEY_F1 :: u8 where "KEY_F1 \<equiv> 0x3a"
abbreviation KEY_INSERT :: u8 where "KEY_INSERT \<equiv> 0x49"
abbreviation KEY_HOME :: u8 where "KEY_HOME \<equiv> 0x4a"
abbreviation KEY_PAGE_UP :: u8 where "KEY_PAGE_UP \<equiv> 0x4b"
abbreviation KEY_DELETE :: u8 where "KEY_DELETE \<equiv> 0x4c"
abbreviation KEY_END :: u8 where "KEY_END \<equiv> 0x4d"
abbreviation KEY_PAGE_DOWN :: u8 where "KEY_PAGE_DOWN \<equiv> 0x4e"
abbreviation KEY_RIGHT :: u8 where "KEY_RIGHT \<equiv> 0x4f"
abbreviation KEY_LEFT :: u8 where "KEY_LEFT \<equiv> 0x50"
abbreviation KEY_DOWN :: u8 where "KEY_DOWN \<equiv> 0x51"
abbreviation KEY_UP :: u8 where "KEY_UP \<equiv> 0x52"

section \<open>Printable characters\<close>

text \<open>The \<open>switch\<close> of \<open>macro_keymap_us_printable\<close>, one entry per case.\<close>

definition printable_switch :: "(char \<times> u8 \<times> u8) list" where
  "printable_switch =
    [(CHR '' '', 0, KEY_SPACE),
     (CHR ''-'', 0, KEY_MINUS), (CHR ''_'', MOD_LEFT_SHIFT, KEY_MINUS),
     (CHR ''='', 0, KEY_EQUAL), (CHR ''+'', MOD_LEFT_SHIFT, KEY_EQUAL),
     (CHR ''['', 0, KEY_LEFT_BRACE), (CHR ''{'', MOD_LEFT_SHIFT, KEY_LEFT_BRACE),
     (CHR '']'', 0, KEY_RIGHT_BRACE), (CHR ''}'', MOD_LEFT_SHIFT, KEY_RIGHT_BRACE),
     (CHR 0x5C, 0, KEY_BACKSLASH), (CHR ''|'', MOD_LEFT_SHIFT, KEY_BACKSLASH),
     (CHR '';'', 0, KEY_SEMICOLON), (CHR '':'', MOD_LEFT_SHIFT, KEY_SEMICOLON),
     (CHR 0x27, 0, KEY_APOSTROPHE), (CHR 0x22, MOD_LEFT_SHIFT, KEY_APOSTROPHE),
     (CHR 0x60, 0, KEY_GRAVE), (CHR ''~'', MOD_LEFT_SHIFT, KEY_GRAVE),
     (CHR '','', 0, KEY_COMMA), (CHR ''<'', MOD_LEFT_SHIFT, KEY_COMMA),
     (CHR ''.'', 0, KEY_PERIOD), (CHR ''>'', MOD_LEFT_SHIFT, KEY_PERIOD),
     (CHR ''/'', 0, KEY_SLASH), (CHR ''?'', MOD_LEFT_SHIFT, KEY_SLASH),
     (CHR ''!'', MOD_LEFT_SHIFT, KEY_1), (CHR ''@'', MOD_LEFT_SHIFT, KEY_2),
     (CHR ''#'', MOD_LEFT_SHIFT, KEY_3), (CHR ''$'', MOD_LEFT_SHIFT, KEY_4),
     (CHR ''%'', MOD_LEFT_SHIFT, KEY_5), (CHR ''^'', MOD_LEFT_SHIFT, KEY_6),
     (CHR ''&'', MOD_LEFT_SHIFT, KEY_7), (CHR ''*'', MOD_LEFT_SHIFT, KEY_8),
     (CHR ''('', MOD_LEFT_SHIFT, KEY_9), (CHR '')'', MOD_LEFT_SHIFT, KEY_0)]"

definition macro_keymap_us_printable :: "char \<Rightarrow> hid_key option" where
  "macro_keymap_us_printable c =
     (if byte c \<ge> byte CHR ''a'' \<and> byte c \<le> byte CHR ''z'' then
        Some \<lparr>hk_modifiers = 0, hk_usage = KEY_A + word_of_nat (byte c - byte CHR ''a'')\<rparr>
      else if byte c \<ge> byte CHR ''A'' \<and> byte c \<le> byte CHR ''Z'' then
        Some \<lparr>hk_modifiers = MOD_LEFT_SHIFT,
              hk_usage = KEY_A + word_of_nat (byte c - byte CHR ''A'')\<rparr>
      else if byte c \<ge> byte CHR ''1'' \<and> byte c \<le> byte CHR ''9'' then
        Some \<lparr>hk_modifiers = 0, hk_usage = KEY_1 + word_of_nat (byte c - byte CHR ''1'')\<rparr>
      else if c = CHR ''0'' then Some \<lparr>hk_modifiers = 0, hk_usage = KEY_0\<rparr>
      else map_option (\<lambda>(m, u). \<lparr>hk_modifiers = m, hk_usage = u\<rparr>) (map_of printable_switch c))"

section \<open>Named keys, modifiers, directives\<close>

definition named_keys :: "(string \<times> u8) list" where
  "named_keys =
    [(''ENTER'', KEY_ENTER), (''TAB'', KEY_TAB), (''ESC'', KEY_ESCAPE),
     (''BACKSPACE'', KEY_BACKSPACE), (''DELETE'', KEY_DELETE), (''INSERT'', KEY_INSERT),
     (''HOME'', KEY_HOME), (''END'', KEY_END), (''PAGEUP'', KEY_PAGE_UP),
     (''PAGEDOWN'', KEY_PAGE_DOWN), (''UP'', KEY_UP), (''DOWN'', KEY_DOWN),
     (''LEFT'', KEY_LEFT), (''RIGHT'', KEY_RIGHT), (''SPACE'', KEY_SPACE), (''F1'', KEY_F1),
     (''F2'', KEY_F1 + 1), (''F3'', KEY_F1 + 2), (''F4'', KEY_F1 + 3), (''F5'', KEY_F1 + 4),
     (''F6'', KEY_F1 + 5), (''F7'', KEY_F1 + 6), (''F8'', KEY_F1 + 7), (''F9'', KEY_F1 + 8),
     (''F10'', KEY_F1 + 9), (''F11'', KEY_F1 + 10), (''F12'', KEY_F1 + 11)]"

definition macro_keymap_us_named :: "string \<Rightarrow> hid_key option" where
  "macro_keymap_us_named name =
     (case map_of named_keys name of
        Some usage \<Rightarrow> Some \<lparr>hk_modifiers = 0, hk_usage = usage\<rparr>
      | None \<Rightarrow> (if length name = 1 then macro_keymap_us_printable (hd name) else None))"

definition macro_keymap_us_modifier :: "string \<Rightarrow> u8 option" where
  "macro_keymap_us_modifier name =
     (if name = ''CTRL'' then Some MOD_LEFT_CTRL
      else if name = ''SHIFT'' then Some MOD_LEFT_SHIFT
      else if name = ''ALT'' then Some MOD_LEFT_ALT
      else if name = ''GUI'' then Some MOD_LEFT_GUI
      else None)"

definition is_uppercase_decimal_token :: "string \<Rightarrow> bool" where
  "is_uppercase_decimal_token name \<longleftrightarrow>
     name \<noteq> [] \<and>
     list_all (\<lambda>c. byte c \<ge> byte CHR ''A'' \<and> byte c \<le> byte CHR ''Z'' \<or>
                   byte c \<ge> byte CHR ''0'' \<and> byte c \<le> byte CHR ''9'') name"

definition macro_keymap_us_v2_named_directive :: "string \<Rightarrow> hid_key option" where
  "macro_keymap_us_v2_named_directive name =
     (case macro_keymap_us_modifier name of
        Some modifier \<Rightarrow> Some \<lparr>hk_modifiers = modifier, hk_usage = 0\<rparr>
      | None \<Rightarrow>
          (if length name > 1 \<and> is_uppercase_decimal_token name
           then macro_keymap_us_named name else None))"

section \<open>Every character, by evaluation\<close>

text \<open>A statement on every character is a check of 256 cases.\<close>

lemma all_char_iff: "(\<forall>c. P c) \<longleftrightarrow> list_all P (map char_of [0..<256::nat])"
proof
  assume "list_all P (map char_of [0..<256::nat])"
  then have all: "\<forall>n < 256. P (char_of (n::nat))"
    by (simp add: list_all_iff)
  show "\<forall>c. P c"
  proof
    fix c
    have "P (char_of (byte c))" using all byte_less_256 by blast
    then show "P c" by simp
  qed
qed (simp add: list_all_iff)

definition printable_char :: "char \<Rightarrow> bool" where
  "printable_char c \<longleftrightarrow> 0x20 \<le> byte c \<and> byte c \<le> 0x7e"

definition printable_chars :: "char list" where
  "printable_chars = map char_of [0x20..<0x7f::nat]"

lemma set_printable_chars: "set printable_chars = {c. printable_char c}"
proof -
  have "c \<in> char_of ` {0x20..<0x7f::nat} \<longleftrightarrow> printable_char c" for c
  proof
    assume "printable_char c"
    then have "c = char_of (byte c)" "byte c \<in> {0x20..<0x7f}"
      by (auto simp: printable_char_def)
    then show "c \<in> char_of ` {0x20..<0x7f::nat}" by blast
  qed (auto simp: printable_char_def of_char_of take_bit_nat_eq_self)
  then show ?thesis
    by (simp only: printable_chars_def set_map set_upt set_eq_iff mem_Collect_eq) blast
qed

lemma printable_all: "(\<forall>c. printable_char c \<longrightarrow> P c) \<longleftrightarrow> list_all P printable_chars"
  using set_printable_chars by (auto simp: list_all_iff)

section \<open>The host side\<close>

text \<open>
  What a host with the US layout types for one key of a boot report: the specification the
  map is checked against.  It is written from the layout, by rows of the keyboard, and not
  from the table above.
\<close>

definition us_plain_row :: "nat \<Rightarrow> char option" where
  "us_plain_row u =
     (if 0x04 \<le> u \<and> u \<le> 0x1d then Some (char_of (97 + (u - 0x04)))
      else if 0x1e \<le> u \<and> u \<le> 0x27 then Some (''1234567890'' ! (u - 0x1e))
      else if u = 0x28 then Some (CHR 0x0A)
      else if u = 0x2b then Some (CHR 0x09)
      else if u = 0x2c then Some (CHR '' '')
      else if 0x2d \<le> u \<and> u \<le> 0x30 then Some (''-=[]'' ! (u - 0x2d))
      else if u = 0x31 then Some (CHR 0x5C)
      else if 0x33 \<le> u \<and> u \<le> 0x38
        then Some ([CHR '';'', CHR 0x27, CHR 0x60, CHR '','', CHR ''.'', CHR ''/''] ! (u - 0x33))
      else None)"

definition us_shift_row :: "nat \<Rightarrow> char option" where
  "us_shift_row u =
     (if 0x04 \<le> u \<and> u \<le> 0x1d then Some (char_of (65 + (u - 0x04)))
      else if 0x1e \<le> u \<and> u \<le> 0x27 then Some (''!@#$%^&*()'' ! (u - 0x1e))
      else if 0x2d \<le> u \<and> u \<le> 0x31 then Some (''_+{}|'' ! (u - 0x2d))
      else if 0x33 \<le> u \<and> u \<le> 0x38
        then Some ([CHR '':'', CHR 0x22, CHR ''~'', CHR ''<'', CHR ''>'', CHR ''?''] ! (u - 0x33))
      else None)"

definition us_host_char :: "hid_key \<Rightarrow> char option" where
  "us_host_char k =
     (if hk_modifiers k = 0 then us_plain_row (unat (hk_usage k))
      else if hk_modifiers k = MOD_LEFT_SHIFT then us_shift_row (unat (hk_usage k))
      else None)"

section \<open>What the map guarantees\<close>

lemma printable_typed: "printable_char c \<Longrightarrow> Option.bind (macro_keymap_us_printable c) us_host_char = Some c"
proof -
  have "list_all (\<lambda>c. Option.bind (macro_keymap_us_printable c) us_host_char = Some c) printable_chars"
    by code_simp
  then show "printable_char c \<Longrightarrow> Option.bind (macro_keymap_us_printable c) us_host_char = Some c"
    unfolding printable_all [symmetric] by blast
qed

lemma printable_switch_keys: "map_of printable_switch c = Some x \<Longrightarrow> printable_char c"
proof -
  have "list_all (\<lambda>(c, x). printable_char c) printable_switch"
    by code_simp
  moreover assume "map_of printable_switch c = Some x"
  ultimately show ?thesis
    by (auto simp: list_all_iff dest: map_of_SomeD)
qed

lemma printable_mapped_iff: "macro_keymap_us_printable c \<noteq> None \<longleftrightarrow> printable_char c"
proof
  assume "macro_keymap_us_printable c \<noteq> None"
  then show "printable_char c"
    using printable_switch_keys [of c]
    by (auto simp: macro_keymap_us_printable_def printable_char_def split: if_splits)
next
  assume "printable_char c"
  then show "macro_keymap_us_printable c \<noteq> None"
    using printable_typed [of c] by (cases "macro_keymap_us_printable c") simp_all
qed

text \<open>No two characters share a key, so what the host reads back is unambiguous.\<close>

lemma printable_inj:
  assumes "macro_keymap_us_printable c = Some k" "macro_keymap_us_printable d = Some k"
  shows "c = d"
  using printable_typed [of c] printable_typed [of d] assms
    printable_mapped_iff [of c] printable_mapped_iff [of d]
  by simp

definition printable_key_ok :: "hid_key \<Rightarrow> bool" where
  "printable_key_ok k \<longleftrightarrow>
     (hk_modifiers k = 0 \<or> hk_modifiers k = MOD_LEFT_SHIFT) \<and>
     KEY_A \<le> hk_usage k \<and> hk_usage k \<le> KEY_SLASH \<and>
     hk_usage k \<noteq> KEY_ENTER \<and> hk_usage k \<noteq> KEY_TAB"

lemma printable_key:
  assumes "macro_keymap_us_printable c = Some k"
  shows "printable_key_ok k"
proof -
  have "list_all (\<lambda>c. case macro_keymap_us_printable c of None \<Rightarrow> False | Some k \<Rightarrow> printable_key_ok k)
    printable_chars"
    by code_simp
  moreover have "printable_char c"
    using assms printable_mapped_iff [of c] by simp
  ultimately show ?thesis
    unfolding printable_all [symmetric] using assms by (auto split: option.splits)
qed

lemma named_keys_usage: "map_of named_keys name = Some u \<Longrightarrow> KEY_ENTER \<le> u"
proof -
  have "list_all (\<lambda>(n, u). KEY_ENTER \<le> u) named_keys"
    by code_simp
  moreover assume "map_of named_keys name = Some u"
  ultimately show ?thesis
    by (auto simp: list_all_iff dest: map_of_SomeD)
qed

text \<open>A directive names a key or exactly one modifier, never the empty report.\<close>

lemma named_directive_key:
  assumes "macro_keymap_us_v2_named_directive name = Some k"
  shows "(hk_usage k = 0 \<and> hk_modifiers k \<in> {MOD_LEFT_CTRL, MOD_LEFT_SHIFT, MOD_LEFT_ALT, MOD_LEFT_GUI})
    \<or> (hk_usage k \<noteq> 0 \<and> hk_modifiers k = 0)"
proof (cases "macro_keymap_us_modifier name")
  case None
  with assms have "length name > 1" and named: "macro_keymap_us_named name = Some k"
    by (auto simp: macro_keymap_us_v2_named_directive_def split: if_splits)
  then obtain u where "map_of named_keys name = Some u" "k = \<lparr>hk_modifiers = 0, hk_usage = u\<rparr>"
    by (auto simp: macro_keymap_us_named_def split: option.splits if_splits)
  with named_keys_usage show ?thesis by fastforce
next
  case (Some m)
  then have "m \<in> {MOD_LEFT_CTRL, MOD_LEFT_SHIFT, MOD_LEFT_ALT, MOD_LEFT_GUI}"
    by (auto simp: macro_keymap_us_modifier_def split: if_splits)
  with Some assms show ?thesis
    by (auto simp: macro_keymap_us_v2_named_directive_def)
qed

end
