(* ===== verification/Macro_Parser.thy ===== *)
theory Macro_Parser
  imports Macro_Keymap
begin

text \<open>
  The macro compiler \<open>macro_parser/macro_parser_v2.c\<close>: source text to a plan of key, chord
  and delay actions.  Each \<open>v2_\<close> function of the file is one definition; the token parsers
  return \<open>Inl\<close> the filled-in error report (what \<open>v2_fail\<close> writes) or \<open>Inr\<close> the action with
  the number of bytes consumed.  An action's \<open>usages\<close> list holds the first \<open>usage_count\<close>
  entries of the C array; the rest of the array is zero and unread.
\<close>

section \<open>Data\<close>

definition APP_V2_MACRO_SOURCE_MAX_BYTES :: nat where
  [limit_defs]: "APP_V2_MACRO_SOURCE_MAX_BYTES = 4096"

definition APP_V2_COMPILED_ACTIONS_MAX :: nat where
  [limit_defs]: "APP_V2_COMPILED_ACTIONS_MAX = 4096"

definition APP_V2_DELAY_DIRECTIVE_MAX_MS :: u32 where
  [limit_defs]: "APP_V2_DELAY_DIRECTIVE_MAX_MS = 10000"

definition APP_V2_KEY_PRESS_MAX_MS :: u32 where
  [limit_defs]: "APP_V2_KEY_PRESS_MAX_MS = 10000"

definition APP_V2_INTER_KEY_MAX_MS :: u32 where
  [limit_defs]: "APP_V2_INTER_KEY_MAX_MS = 10000"

definition APP_V2_ESTIMATED_DURATION_MAX_MS :: u32 where
  [limit_defs]: "APP_V2_ESTIMATED_DURATION_MAX_MS = 300000"

definition MACRO_ACTION_USAGES_MAX :: nat where
  [limit_defs]: "MACRO_ACTION_USAGES_MAX = 6"

definition V2_DIRECTIVE_BUFFER_BYTES :: nat where
  [limit_defs]: "V2_DIRECTIVE_BUFFER_BYTES = 64"

definition MACRO_PARSE_MESSAGE_BYTES :: nat where
  [limit_defs]: "MACRO_PARSE_MESSAGE_BYTES = 96"

datatype action_type = MACRO_ACTION_KEY | MACRO_ACTION_CHORD | MACRO_ACTION_DELAY

record macro_action =
  ma_type :: action_type
  ma_modifiers :: u8
  ma_usages :: "u8 list"
  ma_delay_ms :: u32

text \<open>A cleared plan (\<open>actions == NULL\<close>, \<open>action_count == 0\<close>) is the plan of no action.\<close>

record macro_plan =
  mp_actions :: "macro_action list"
  mp_estimated_duration_ms :: u32

record compile_options =
  co_key_press_ms :: u32
  co_inter_key_ms :: u32

record parse_error =
  pe_code :: app_error
  pe_byte_offset :: nat
  pe_line :: nat
  pe_column :: nat
  pe_message :: string

definition v2_cleared_plan :: macro_plan where
  "v2_cleared_plan = \<lparr>mp_actions = [], mp_estimated_duration_ms = 0\<rparr>"

section \<open>Errors and positions\<close>

definition v2_locate_step :: "nat \<times> nat \<Rightarrow> char \<Rightarrow> nat \<times> nat" where
  "v2_locate_step pos c =
     (case pos of (line, column) \<Rightarrow>
        if c = CHR 0x0A then (line + 1, 1) else (line, column + 1))"

definition v2_locate :: "string \<Rightarrow> nat \<Rightarrow> nat \<times> nat" where
  "v2_locate source offset = foldl v2_locate_step (1, 1) (take offset source)"

definition v2_fail :: "string \<Rightarrow> nat \<Rightarrow> string \<Rightarrow> app_error \<Rightarrow> parse_error + 'a" where
  "v2_fail source offset message code =
     (case v2_locate source offset of (line, column) \<Rightarrow>
        Inl \<lparr>pe_code = code, pe_byte_offset = offset, pe_line = line, pe_column = column,
             pe_message = take (MACRO_PARSE_MESSAGE_BYTES - 1) message\<rparr>)"

section \<open>Appending an action\<close>

definition v2_safe_add_u32 :: "u32 \<Rightarrow> u32 \<Rightarrow> u32 option" where
  "v2_safe_add_u32 left right = (if (- 1) - left < right then None else Some (left + right))"

definition v2_append_action ::
  "macro_plan \<Rightarrow> macro_action \<Rightarrow> compile_options \<Rightarrow> string \<Rightarrow> nat \<Rightarrow> parse_error + macro_plan" where
  "v2_append_action plan action options source offset =
     (if APP_V2_COMPILED_ACTIONS_MAX \<le> length (mp_actions plan)
      then v2_fail source offset ''action limit exceeded'' APP_ERROR_MACRO_LIMIT
      else case (if ma_type action = MACRO_ACTION_DELAY then Some (ma_delay_ms action)
                 else v2_safe_add_u32 (co_key_press_ms options) (co_inter_key_ms options)) of
        None \<Rightarrow> v2_fail source offset ''action duration overflow'' APP_ERROR_MACRO_LIMIT
      | Some action_duration \<Rightarrow>
          (case v2_safe_add_u32 (mp_estimated_duration_ms plan) action_duration of
             None \<Rightarrow>
               v2_fail source offset ''estimated duration limit exceeded'' APP_ERROR_MACRO_LIMIT
           | Some total_duration \<Rightarrow>
               if total_duration > APP_V2_ESTIMATED_DURATION_MAX_MS
               then v2_fail source offset ''estimated duration limit exceeded''
                      APP_ERROR_MACRO_LIMIT
               else Inr \<lparr>mp_actions = mp_actions plan @ [action],
                         mp_estimated_duration_ms = total_duration\<rparr>))"

section \<open>Directives\<close>

definition v2_directive_has_invalid_character :: "string \<Rightarrow> bool" where
  "v2_directive_has_invalid_character text \<longleftrightarrow>
     list_ex (\<lambda>c. byte c \<le> 0x20 \<or> byte c \<ge> 0x7f \<or> c = CHR ''{'' \<or> c = CHR ''}'') text"

definition v2_key_action :: "hid_key \<Rightarrow> macro_action" where
  "v2_key_action key =
     \<lparr>ma_type = MACRO_ACTION_KEY, ma_modifiers = hk_modifiers key,
      ma_usages = (if hk_usage key \<noteq> 0 then [hk_usage key] else []), ma_delay_ms = 0\<rparr>"

text \<open>The digit loop of \<open>v2_parse_delay\<close>, with its overflow test.\<close>

fun v2_delay_digits :: "u32 \<Rightarrow> string \<Rightarrow> app_error + u32" where
  "v2_delay_digits value [] = Inr value"
| "v2_delay_digits value (c # cs) =
     (if byte c < byte CHR ''0'' \<or> byte c > byte CHR ''9'' then Inl APP_ERROR_MACRO_SYNTAX
      else
        let digit = word_of_nat (byte c - byte CHR ''0'')
        in if value > ((- 1) - digit) div 10 then Inl APP_ERROR_MACRO_LIMIT
           else v2_delay_digits (value * 10 + digit) cs)"

definition v2_parse_delay :: "string \<Rightarrow> app_error + macro_action" where
  "v2_parse_delay directive =
     (if length directive \<le> 6 \<or> take 6 directive \<noteq> ''DELAY:'' then Inl APP_ERROR_MACRO_SYNTAX
      else case v2_delay_digits 0 (drop 6 directive) of
        Inl e \<Rightarrow> Inl e
      | Inr value \<Rightarrow>
          if value = 0 \<or> value > APP_V2_DELAY_DIRECTIVE_MAX_MS then Inl APP_ERROR_MACRO_LIMIT
          else Inr \<lparr>ma_type = MACRO_ACTION_DELAY, ma_modifiers = 0, ma_usages = [],
                    ma_delay_ms = value\<rparr>)"

definition v2_parse_directive ::
  "string \<Rightarrow> nat \<Rightarrow> string \<Rightarrow> parse_error + macro_action" where
  "v2_parse_directive source offset directive =
     (if length directive = 0 \<or> V2_DIRECTIVE_BUFFER_BYTES \<le> length directive \<or>
         v2_directive_has_invalid_character directive
      then v2_fail source offset ''invalid directive'' APP_ERROR_MACRO_SYNTAX
      else if take 6 directive = ''DELAY:'' then
        (case v2_parse_delay directive of
           Inl e \<Rightarrow>
             if e = APP_ERROR_MACRO_LIMIT
             then v2_fail source offset ''delay is outside the allowed range'' e
             else v2_fail source offset ''invalid delay directive'' e
         | Inr action \<Rightarrow> Inr action)
      else
        (case macro_keymap_us_v2_named_directive directive of
           None \<Rightarrow> v2_fail source offset ''unknown key directive'' APP_ERROR_MACRO_SYNTAX
         | Some key \<Rightarrow> Inr (v2_key_action key)))"

section \<open>Braces, printables, plain tokens\<close>

text \<open>
  The doubled-delimiter test of the four delimiter parsers, and the literal key the
  escape stands for.
\<close>

definition v2_doubled :: "string \<Rightarrow> nat \<Rightarrow> char \<Rightarrow> bool" where
  "v2_doubled source offset c \<longleftrightarrow> offset + 1 < length source \<and> source ! (offset + 1) = c"

definition v2_literal :: "string \<Rightarrow> nat \<Rightarrow> char \<Rightarrow> nat \<Rightarrow> parse_error + macro_action \<times> nat" where
  "v2_literal source offset c consumed =
     (case macro_keymap_us_printable c of
        None \<Rightarrow>
          v2_fail source offset ''source contains unsupported character'' APP_ERROR_MACRO_SYNTAX
      | Some key \<Rightarrow> Inr (v2_key_action key, consumed))"

definition v2_parse_open_brace :: "string \<Rightarrow> nat \<Rightarrow> parse_error + macro_action \<times> nat" where
  "v2_parse_open_brace source offset =
     (if v2_doubled source offset (CHR ''{'') then v2_literal source offset (CHR ''{'') 2
      else
        let body = takeWhile (\<lambda>c. c \<noteq> CHR ''}'') (drop (offset + 1) source);
            closing = offset + 1 + length body
        in if length source \<le> closing
           then v2_fail source offset ''unmatched opening brace'' APP_ERROR_MACRO_SYNTAX
           else (case v2_parse_directive source offset body of
                   Inl e \<Rightarrow> Inl e
                 | Inr action \<Rightarrow> Inr (action, closing + 1 - offset)))"

definition v2_parse_close_brace :: "string \<Rightarrow> nat \<Rightarrow> parse_error + macro_action \<times> nat" where
  "v2_parse_close_brace source offset =
     (if v2_doubled source offset (CHR ''}'') then v2_literal source offset (CHR ''}'') 2
      else v2_fail source offset ''unmatched closing brace'' APP_ERROR_MACRO_SYNTAX)"

definition v2_parse_printable :: "string \<Rightarrow> nat \<Rightarrow> parse_error + macro_action \<times> nat" where
  "v2_parse_printable source offset = v2_literal source offset (source ! offset) 1"

definition v2_parse_non_bracket_token ::
  "string \<Rightarrow> nat \<Rightarrow> parse_error + macro_action \<times> nat" where
  "v2_parse_non_bracket_token source offset =
     (let c = source ! offset
      in if byte c \<ge> 0x80 \<or> byte c = 0
         then v2_fail source offset ''source contains unsupported character''
                APP_ERROR_MACRO_SYNTAX
         else if c = CHR 0x0D then
           (if length source \<le> offset + 1 \<or> source ! (offset + 1) \<noteq> CHR 0x0A
            then v2_fail source offset ''carriage return must be followed by line feed''
                   APP_ERROR_MACRO_SYNTAX
            else Inr (v2_key_action \<lparr>hk_modifiers = 0, hk_usage = KEY_ENTER\<rparr>, 2))
         else if c = CHR 0x0A then
           Inr (v2_key_action \<lparr>hk_modifiers = 0, hk_usage = KEY_ENTER\<rparr>, 1)
         else if c = CHR 0x09 then
           Inr (v2_key_action \<lparr>hk_modifiers = 0, hk_usage = KEY_TAB\<rparr>, 1)
         else if c = CHR ''{'' then v2_parse_open_brace source offset
         else if c = CHR ''}'' then v2_parse_close_brace source offset
         else if byte c < 0x20 \<or> byte c > 0x7e
         then v2_fail source offset ''source contains unsupported character''
                APP_ERROR_MACRO_SYNTAX
         else v2_parse_printable source offset)"

section \<open>Simultaneous-key groups\<close>

record group_accumulator =
  ga_modifiers :: u8
  ga_usages :: "u8 list"

datatype group_step = V2_GROUP_STEP_CONTINUE nat | V2_GROUP_STEP_DONE

text \<open>The loop of \<open>v2_merge_group_member\<close> over the member's usages.\<close>

fun v2_merge_usages ::
  "u8 list \<Rightarrow> u8 list \<Rightarrow> string \<Rightarrow> nat \<Rightarrow> parse_error + u8 list" where
  "v2_merge_usages usages [] source offset = Inr usages"
| "v2_merge_usages usages (u # us) source offset =
     (if u \<in> set usages
      then v2_fail source offset ''duplicate key in a simultaneous-key group''
             APP_ERROR_MACRO_SYNTAX
      else if MACRO_ACTION_USAGES_MAX \<le> length usages
      then v2_fail source offset ''simultaneous-key group exceeds the 6-key limit''
             APP_ERROR_MACRO_LIMIT
      else v2_merge_usages (usages @ [u]) us source offset)"

definition v2_merge_group_member ::
  "group_accumulator \<Rightarrow> u8 \<Rightarrow> u8 list \<Rightarrow> string \<Rightarrow> nat \<Rightarrow> parse_error + group_accumulator" where
  "v2_merge_group_member acc modifiers usages source offset =
     (if ga_modifiers acc AND modifiers \<noteq> 0
      then v2_fail source offset ''duplicate modifier in a simultaneous-key group''
             APP_ERROR_MACRO_SYNTAX
      else case v2_merge_usages (ga_usages acc) usages source offset of
        Inl e \<Rightarrow> Inl e
      | Inr us \<Rightarrow> Inr \<lparr>ga_modifiers = ga_modifiers acc OR modifiers, ga_usages = us\<rparr>)"

definition v2_merge_literal_bracket ::
  "char \<Rightarrow> group_accumulator \<Rightarrow> string \<Rightarrow> nat \<Rightarrow> parse_error + group_accumulator" where
  "v2_merge_literal_bracket bracket acc source offset =
     (case macro_keymap_us_printable bracket of
        None \<Rightarrow>
          v2_fail source offset ''source contains unsupported character'' APP_ERROR_MACRO_SYNTAX
      | Some key \<Rightarrow>
          let literal = v2_key_action key
          in v2_merge_group_member acc (ma_modifiers literal) (ma_usages literal) source offset)"

text \<open>A merge that succeeded, with the bytes it took.\<close>

definition v2_continue ::
  "parse_error + group_accumulator \<Rightarrow> nat \<Rightarrow> parse_error + group_accumulator \<times> group_step" where
  "v2_continue merged consumed =
     (case merged of Inl e \<Rightarrow> Inl e | Inr acc \<Rightarrow> Inr (acc, V2_GROUP_STEP_CONTINUE consumed))"

definition v2_scan_group_step ::
  "string \<Rightarrow> nat \<Rightarrow> nat \<Rightarrow> group_accumulator \<Rightarrow> parse_error + group_accumulator \<times> group_step" where
  "v2_scan_group_step source bracket_offset offset acc =
     (let doubled = v2_doubled source offset (source ! offset)
      in if source ! offset = CHR '']'' then
           (if doubled then v2_continue (v2_merge_literal_bracket (CHR '']'') acc source offset) 2
            else if ga_usages acc = [] \<and> ga_modifiers acc = 0
            then v2_fail source bracket_offset ''empty simultaneous-key group''
                   APP_ERROR_MACRO_SYNTAX
            else Inr (acc, V2_GROUP_STEP_DONE))
         else if source ! offset = CHR ''['' then
           (if \<not> doubled
            then v2_fail source offset ''simultaneous-key groups do not nest''
                   APP_ERROR_MACRO_SYNTAX
            else v2_continue (v2_merge_literal_bracket (CHR ''['') acc source offset) 2)
         else case v2_parse_non_bracket_token source offset of
           Inl e \<Rightarrow> Inl e
         | Inr (member, consumed) \<Rightarrow>
             if ma_type member = MACRO_ACTION_DELAY
             then v2_fail source offset
                    ''a delay is not permitted inside a simultaneous-key group''
                    APP_ERROR_MACRO_SYNTAX
             else v2_continue
                    (v2_merge_group_member acc (ma_modifiers member) (ma_usages member)
                       source offset)
                    consumed)"

section \<open>Progress of one token\<close>

text \<open>
  Every token parser that succeeds consumes at least one byte and stays inside the source.
  The two scanning loops terminate because of this, so it comes before them.
\<close>

lemma v2_fail_not_Inr [simp]: "v2_fail source offset message code \<noteq> Inr x"
  by (simp add: v2_fail_def split: prod.split)

lemma v2_fail_not_Inr' [simp]: "Inr x \<noteq> v2_fail source offset message code"
  by (simp add: v2_fail_def split: prod.split)

lemma v2_literal_Inr:
  "v2_literal source offset c consumed = Inr r \<longleftrightarrow>
     (\<exists>key. macro_keymap_us_printable c = Some key \<and> r = (v2_key_action key, consumed))"
  by (auto simp: v2_literal_def split: option.splits)

lemma v2_open_brace_progress:
  assumes "v2_parse_open_brace source offset = Inr (action, n)"
  shows "0 < n \<and> offset + n \<le> length source"
  using assms
  by (auto simp: v2_parse_open_brace_def Let_def v2_literal_Inr v2_doubled_def
      split: if_splits sum.splits)

lemma v2_close_brace_progress:
  assumes "v2_parse_close_brace source offset = Inr (action, n)"
  shows "0 < n \<and> offset + n \<le> length source"
  using assms
  by (auto simp: v2_parse_close_brace_def v2_literal_Inr v2_doubled_def split: if_splits)

lemma v2_non_bracket_progress:
  assumes "v2_parse_non_bracket_token source offset = Inr (action, n)" "offset < length source"
  shows "0 < n \<and> offset + n \<le> length source"
  using assms v2_open_brace_progress v2_close_brace_progress
  by (auto simp: v2_parse_non_bracket_token_def Let_def v2_parse_printable_def v2_literal_Inr
      split: if_splits)

lemma v2_scan_group_step_progress:
  assumes "v2_scan_group_step source bracket_offset offset acc = Inr (acc', V2_GROUP_STEP_CONTINUE n)"
    and "offset < length source"
  shows "0 < n \<and> offset + n \<le> length source"
proof -
  have two: "offset + 2 \<le> length source" if "v2_doubled source offset c" for c
    using that by (simp add: v2_doubled_def)
  show ?thesis
    using assms two v2_non_bracket_progress [of source offset]
    by (auto simp: v2_scan_group_step_def v2_continue_def Let_def
        split: if_splits sum.splits prod.splits)
qed

section \<open>Groups, tokens, the compiler\<close>

function v2_scan_group_loop ::
  "string \<Rightarrow> nat \<Rightarrow> nat \<Rightarrow> group_accumulator \<Rightarrow> parse_error + group_accumulator \<times> nat" where
  "v2_scan_group_loop source bracket_offset offset acc =
     (if length source \<le> offset
      then v2_fail source bracket_offset ''unmatched opening bracket'' APP_ERROR_MACRO_SYNTAX
      else case v2_scan_group_step source bracket_offset offset acc of
        Inl e \<Rightarrow> Inl e
      | Inr (acc', V2_GROUP_STEP_DONE) \<Rightarrow> Inr (acc', offset + 1)
      | Inr (acc', V2_GROUP_STEP_CONTINUE n) \<Rightarrow>
          v2_scan_group_loop source bracket_offset (offset + n) acc')"
  by pat_completeness auto
termination
  by (relation "measure (\<lambda>(source, bracket_offset, offset, acc). length source - offset)")
    (auto dest!: v2_scan_group_step_progress)

declare v2_scan_group_loop.simps [simp del]

definition v2_scan_group_content :: "string \<Rightarrow> nat \<Rightarrow> parse_error + group_accumulator \<times> nat" where
  "v2_scan_group_content source bracket_offset =
     v2_scan_group_loop source bracket_offset (bracket_offset + 1)
       \<lparr>ga_modifiers = 0, ga_usages = []\<rparr>"

definition v2_parse_open_bracket :: "string \<Rightarrow> nat \<Rightarrow> parse_error + macro_action \<times> nat" where
  "v2_parse_open_bracket source offset =
     (if v2_doubled source offset (CHR ''['') then v2_literal source offset (CHR ''['') 2
      else case v2_scan_group_content source offset of
        Inl e \<Rightarrow> Inl e
      | Inr (acc, group_end) \<Rightarrow>
          Inr (\<lparr>ma_type = MACRO_ACTION_CHORD, ma_modifiers = ga_modifiers acc,
                ma_usages = ga_usages acc, ma_delay_ms = 0\<rparr>, group_end - offset))"

definition v2_parse_close_bracket :: "string \<Rightarrow> nat \<Rightarrow> parse_error + macro_action \<times> nat" where
  "v2_parse_close_bracket source offset =
     (if v2_doubled source offset (CHR '']'') then v2_literal source offset (CHR '']'') 2
      else v2_fail source offset ''unmatched closing bracket'' APP_ERROR_MACRO_SYNTAX)"

definition v2_parse_next_token :: "string \<Rightarrow> nat \<Rightarrow> parse_error + macro_action \<times> nat" where
  "v2_parse_next_token source offset =
     (if source ! offset = CHR ''['' then v2_parse_open_bracket source offset
      else if source ! offset = CHR '']'' then v2_parse_close_bracket source offset
      else v2_parse_non_bracket_token source offset)"

lemma v2_scan_group_loop_progress:
  "v2_scan_group_loop source bracket_offset offset acc = Inr (acc', group_end) \<Longrightarrow>
   offset < group_end \<and> group_end \<le> length source"
proof (induction source bracket_offset offset acc rule: v2_scan_group_loop.induct)
  case (1 source bracket_offset offset acc)
  show ?case
    using "1.prems" "1.IH" v2_scan_group_step_progress [of source bracket_offset offset acc]
    by (subst (asm) v2_scan_group_loop.simps)
      (fastforce split: if_splits sum.splits prod.splits group_step.splits)
qed

lemma v2_open_bracket_progress:
  assumes "v2_parse_open_bracket source offset = Inr (action, n)" "offset < length source"
  shows "0 < n \<and> offset + n \<le> length source"
  using assms
  by (auto simp: v2_parse_open_bracket_def v2_scan_group_content_def v2_literal_Inr v2_doubled_def
      dest!: v2_scan_group_loop_progress split: if_splits sum.splits prod.splits)

lemma v2_close_bracket_progress:
  assumes "v2_parse_close_bracket source offset = Inr (action, n)"
  shows "0 < n \<and> offset + n \<le> length source"
  using assms
  by (auto simp: v2_parse_close_bracket_def v2_literal_Inr v2_doubled_def split: if_splits)

lemma v2_next_token_progress:
  assumes "v2_parse_next_token source offset = Inr (action, n)" "offset < length source"
  shows "0 < n \<and> offset + n \<le> length source"
  using assms v2_open_bracket_progress v2_close_bracket_progress v2_non_bracket_progress
  by (auto simp: v2_parse_next_token_def split: if_splits)

text \<open>The main loop of \<open>macro_compile_v2\<close>.\<close>

function v2_compile_loop ::
  "string \<Rightarrow> compile_options \<Rightarrow> nat \<Rightarrow> macro_plan \<Rightarrow> parse_error + macro_plan" where
  "v2_compile_loop source options offset working =
     (if length source \<le> offset then Inr working
      else case v2_parse_next_token source offset of
        Inl e \<Rightarrow> Inl e
      | Inr (action, consumed) \<Rightarrow>
          (case v2_append_action working action options source offset of
             Inl e \<Rightarrow> Inl e
           | Inr working' \<Rightarrow> v2_compile_loop source options (offset + consumed) working'))"
  by pat_completeness auto
termination
  by (relation "measure (\<lambda>(source, options, offset, working). length source - offset)")
    (auto dest!: v2_next_token_progress)

declare v2_compile_loop.simps [simp del]

record compile_result =
  cr_code :: app_error
  cr_plan :: macro_plan
  cr_error :: "parse_error option"

definition v2_default_options :: compile_options where
  "v2_default_options = \<lparr>co_key_press_ms = 8, co_inter_key_ms = 15\<rparr>"

definition v2_finish :: "parse_error + macro_plan \<Rightarrow> compile_result" where
  "v2_finish r =
     (case r of
        Inl e \<Rightarrow> \<lparr>cr_code = pe_code e, cr_plan = v2_cleared_plan, cr_error = Some e\<rparr>
      | Inr p \<Rightarrow> \<lparr>cr_code = APP_ERROR_NONE, cr_plan = p, cr_error = None\<rparr>)"

text \<open>
  \<open>source\<close> is \<open>None\<close> for a null pointer, and otherwise the memory it points to, of which the
  first \<open>source_length\<close> bytes are the source; \<open>alloc_ok\<close> is whether the one \<open>calloc\<close>
  succeeds (the final shrinking \<open>realloc\<close> may fail without effect).
\<close>

definition macro_compile_v2 ::
  "string option \<Rightarrow> nat \<Rightarrow> compile_options option \<Rightarrow> bool \<Rightarrow> compile_result" where
  "macro_compile_v2 source source_length options alloc_ok =
     (let effective = (case options of None \<Rightarrow> v2_default_options | Some opts \<Rightarrow> opts);
          text = take source_length (case source of None \<Rightarrow> [] | Some s \<Rightarrow> s)
      in if source = None \<and> source_length \<noteq> 0
         then \<lparr>cr_code = APP_ERROR_INVALID_ARGUMENT, cr_plan = v2_cleared_plan, cr_error = None\<rparr>
         else if co_key_press_ms effective > APP_V2_KEY_PRESS_MAX_MS \<or>
                 co_inter_key_ms effective > APP_V2_INTER_KEY_MAX_MS
         then v2_finish (v2_fail text 0 ''invalid macro timing'' APP_ERROR_INVALID_ARGUMENT)
         else if source_length > APP_V2_MACRO_SOURCE_MAX_BYTES
         then v2_finish
                (v2_fail text 0 ''macro source exceeds the byte limit'' APP_ERROR_MACRO_LIMIT)
         else if source_length = 0
         then \<lparr>cr_code = APP_ERROR_NONE, cr_plan = v2_cleared_plan, cr_error = None\<rparr>
         else if \<not> alloc_ok
         then \<lparr>cr_code = APP_ERROR_INTERNAL, cr_plan = v2_cleared_plan, cr_error = None\<rparr>
         else v2_finish (v2_compile_loop text effective 0 v2_cleared_plan))"

definition macro_plan_v2_free :: "macro_plan \<Rightarrow> macro_plan" where
  "macro_plan_v2_free plan = plan\<lparr>mp_actions := [], mp_estimated_duration_ms := 0\<rparr>"

end
