(* ===== verification/Macro_Compile.thy ===== *)
theory Macro_Compile
  imports Macro_Parser
begin

text \<open>
  What the macro compiler guarantees.  The locale \<open>token_parser\<close> is the contract between
  the token parsers and the loops that drive them (progress, well-formed actions, located
  errors); it is interpreted on the parser of plain tokens, which the group scanner drives,
  and on the parser of all tokens, which the compiler drives.  On it rest the refinement of
  the compile loop to a reading of the source as a sequence of tokens, the well-formedness
  of every plan, the positions of errors, and the round trip of literal text through the
  compiler and a host with the US layout.
\<close>

section \<open>Reading a source as tokens\<close>

inductive token_run ::
  "(string \<Rightarrow> nat \<Rightarrow> parse_error + macro_action \<times> nat) \<Rightarrow> string \<Rightarrow>
   nat \<Rightarrow> macro_action list \<Rightarrow> nat \<Rightarrow> bool"
  for parse source where
  run_done: "token_run parse source offset [] offset"
| run_token:
    "offset < length source \<Longrightarrow> parse source offset = Inr (action, n) \<Longrightarrow>
     token_run parse source (offset + n) actions stop \<Longrightarrow>
     token_run parse source offset (action # actions) stop"

inductive_cases token_run_NilE: "token_run parse source offset [] stop"
inductive_cases token_run_ConsE: "token_run parse source offset (a # as) stop"

inductive_simps token_run_Nil [simp]: "token_run parse source offset [] stop"

lemma token_run_Cons:
  "token_run parse source offset (action # actions) stop \<longleftrightarrow>
     offset < length source \<and>
     (\<exists>n. parse source offset = Inr (action, n) \<and> token_run parse source (offset + n) actions stop)"
  by (auto elim: token_run_ConsE intro: run_token)

text \<open>Where an error report points, and that its line and column belong to that place.\<close>

definition located :: "string \<Rightarrow> nat \<Rightarrow> parse_error \<Rightarrow> bool" where
  "located source offset e \<longleftrightarrow>
     offset \<le> pe_byte_offset e \<and> pe_byte_offset e < length source \<and>
     (pe_line e, pe_column e) = v2_locate source (pe_byte_offset e) \<and>
     pe_code e \<in> {APP_ERROR_MACRO_SYNTAX, APP_ERROR_MACRO_LIMIT}"

locale token_parser =
  fixes parse :: "string \<Rightarrow> nat \<Rightarrow> parse_error + macro_action \<times> nat"
    and good :: "macro_action \<Rightarrow> bool"
  assumes progress:
      "parse source offset = Inr (action, n) \<Longrightarrow> offset < length source \<Longrightarrow>
       0 < n \<and> offset + n \<le> length source"
    and good_token:
      "parse source offset = Inr (action, n) \<Longrightarrow> offset < length source \<Longrightarrow> good action"
    and fault_located:
      "parse source offset = Inl e \<Longrightarrow> offset < length source \<Longrightarrow> located source offset e"
begin

lemma run_good: "token_run parse source offset actions stop \<Longrightarrow> list_all good actions"
  by (induction rule: token_run.induct) (auto dest: good_token)

lemma run_bounds:
  "token_run parse source offset actions stop \<Longrightarrow> offset \<le> length source \<Longrightarrow>
   offset + length actions \<le> stop \<and> stop \<le> length source"
  by (induction rule: token_run.induct) (fastforce dest: progress)+

text \<open>A source is read in at most one way: the run to its end is a function of the source.\<close>

lemma run_unique:
  assumes "token_run parse source offset as (length source)"
    and "token_run parse source offset bs (length source)"
  shows "as = bs"
proof -
  have "token_run parse source offset as stop \<Longrightarrow> stop = length source \<Longrightarrow>
    token_run parse source offset bs stop \<Longrightarrow> as = bs" for stop
  proof (induction arbitrary: bs rule: token_run.induct)
    case (run_done offset)
    then show ?case by (cases bs) (simp_all add: token_run_Cons)
  next
    case (run_token offset action n actions stop)
    from run_token.prems run_token.hyps obtain bs' where "bs = action # bs'"
      "token_run parse source (offset + n) bs' stop"
      by (cases bs) (auto simp: token_run_Cons)
    with run_token.IH run_token.prems show ?case by simp
  qed
  with assms show ?thesis by blast
qed

end

section \<open>Well-formed actions\<close>

definition key_action_ok :: "macro_action \<Rightarrow> bool" where
  "key_action_ok a \<longleftrightarrow>
     ma_type a = MACRO_ACTION_KEY \<and> ma_delay_ms a = 0 \<and> length (ma_usages a) \<le> 1 \<and>
     0 \<notin> set (ma_usages a) \<and> (ma_usages a = [] \<longrightarrow> ma_modifiers a \<noteq> 0)"

definition delay_action_ok :: "macro_action \<Rightarrow> bool" where
  "delay_action_ok a \<longleftrightarrow>
     ma_type a = MACRO_ACTION_DELAY \<and> ma_modifiers a = 0 \<and> ma_usages a = [] \<and>
     0 < ma_delay_ms a \<and> ma_delay_ms a \<le> APP_V2_DELAY_DIRECTIVE_MAX_MS"

definition chord_action_ok :: "macro_action \<Rightarrow> bool" where
  "chord_action_ok a \<longleftrightarrow>
     ma_type a = MACRO_ACTION_CHORD \<and> ma_delay_ms a = 0 \<and>
     length (ma_usages a) \<le> MACRO_ACTION_USAGES_MAX \<and> distinct (ma_usages a) \<and>
     0 \<notin> set (ma_usages a) \<and> (ma_usages a = [] \<longrightarrow> ma_modifiers a \<noteq> 0)"

definition plain_action_ok :: "macro_action \<Rightarrow> bool" where
  "plain_action_ok a \<longleftrightarrow> key_action_ok a \<or> delay_action_ok a"

definition macro_action_ok :: "macro_action \<Rightarrow> bool" where
  "macro_action_ok a \<longleftrightarrow> plain_action_ok a \<or> chord_action_ok a"

lemmas action_ok_defs =
  key_action_ok_def delay_action_ok_def chord_action_ok_def plain_action_ok_def
  macro_action_ok_def

section \<open>Plain tokens meet the contract\<close>

lemma located_fail:
  assumes "v2_fail source at message code = Inl e" "offset \<le> at" "at < length source"
    "code \<in> {APP_ERROR_MACRO_SYNTAX, APP_ERROR_MACRO_LIMIT}"
  shows "located source offset e"
  using assms by (auto simp: v2_fail_def located_def split: prod.splits)

lemma located_mono: "located source offset' e \<Longrightarrow> offset \<le> offset' \<Longrightarrow> located source offset e"
  by (simp add: located_def)

lemma printable_key_action_ok:
  "macro_keymap_us_printable c = Some k \<Longrightarrow> key_action_ok (v2_key_action k)"
  by (frule printable_key)
    (auto simp: printable_key_ok_def key_action_ok_def v2_key_action_def)

lemma literal_ok: "v2_literal source offset c consumed = Inr (a, n) \<Longrightarrow> key_action_ok a"
  by (auto simp: v2_literal_Inr printable_key_action_ok)

lemma literal_fault:
  "v2_literal source offset c consumed = Inl e \<Longrightarrow> offset < length source \<Longrightarrow>
   located source offset e"
  by (auto simp: v2_literal_def elim: located_fail split: option.splits)

lemma named_directive_action_ok:
  "macro_keymap_us_v2_named_directive name = Some k \<Longrightarrow> key_action_ok (v2_key_action k)"
  by (drule named_directive_key) (auto simp: key_action_ok_def v2_key_action_def)

lemma parse_delay_ok: "v2_parse_delay directive = Inr a \<Longrightarrow> delay_action_ok a"
  by (auto simp: v2_parse_delay_def delay_action_ok_def word_neq_0_conv
      split: if_splits sum.splits)

lemma delay_digits_fault:
  "v2_delay_digits v cs = Inl e \<Longrightarrow> e \<in> {APP_ERROR_MACRO_SYNTAX, APP_ERROR_MACRO_LIMIT}"
  by (induction v cs rule: v2_delay_digits.induct) (auto simp: Let_def split: if_splits)

lemma parse_delay_fault:
  "v2_parse_delay directive = Inl e \<Longrightarrow> e \<in> {APP_ERROR_MACRO_SYNTAX, APP_ERROR_MACRO_LIMIT}"
  using delay_digits_fault
  by (auto simp: v2_parse_delay_def split: if_splits sum.splits)

lemma directive_ok:
  "v2_parse_directive source offset directive = Inr a \<Longrightarrow> plain_action_ok a"
  by (auto simp: v2_parse_directive_def plain_action_ok_def
      dest: parse_delay_ok named_directive_action_ok split: if_splits sum.splits option.splits)

lemma directive_fault:
  assumes "v2_parse_directive source offset directive = Inl e" "offset < length source"
  shows "located source offset e"
  using assms
  by (auto simp: v2_parse_directive_def elim: located_fail dest: parse_delay_fault
      split: if_splits sum.splits option.splits)

lemma non_bracket_ok:
  assumes "v2_parse_non_bracket_token source offset = Inr (a, n)"
  shows "plain_action_ok a"
proof -
  have enter: "key_action_ok (v2_key_action \<lparr>hk_modifiers = 0, hk_usage = u\<rparr>)" if "u \<noteq> 0" for u
    using that by (simp add: key_action_ok_def v2_key_action_def)
  show ?thesis
    using assms directive_ok literal_ok
    by (auto simp: v2_parse_non_bracket_token_def v2_parse_open_brace_def
        v2_parse_close_brace_def v2_parse_printable_def Let_def plain_action_ok_def enter
        split: if_splits sum.splits)
qed

lemma non_bracket_fault:
  assumes "v2_parse_non_bracket_token source offset = Inl e" "offset < length source"
  shows "located source offset e"
  using assms directive_fault literal_fault
  by (auto simp: v2_parse_non_bracket_token_def v2_parse_open_brace_def
      v2_parse_close_brace_def v2_parse_printable_def Let_def elim: located_fail
      split: if_splits sum.splits)

interpretation plain_tokens: token_parser v2_parse_non_bracket_token plain_action_ok
  by unfold_locales
    (auto dest: v2_non_bracket_progress non_bracket_ok non_bracket_fault)

section \<open>Groups meet the contract\<close>

definition group_ok :: "group_accumulator \<Rightarrow> bool" where
  "group_ok acc \<longleftrightarrow>
     length (ga_usages acc) \<le> MACRO_ACTION_USAGES_MAX \<and> distinct (ga_usages acc) \<and>
     0 \<notin> set (ga_usages acc)"

lemma merge_usages_ok:
  "v2_merge_usages us vs source offset = Inr ws \<Longrightarrow>
   length us \<le> MACRO_ACTION_USAGES_MAX \<Longrightarrow> distinct us \<Longrightarrow> 0 \<notin> set us \<Longrightarrow> 0 \<notin> set vs \<Longrightarrow>
   length ws \<le> MACRO_ACTION_USAGES_MAX \<and> distinct ws \<and> 0 \<notin> set ws"
  by (induction us vs source offset rule: v2_merge_usages.induct) (auto split: if_splits)

lemma merge_usages_fault:
  "v2_merge_usages us vs source offset = Inl e \<Longrightarrow> offset < length source \<Longrightarrow>
   located source offset e"
  by (induction us vs source offset rule: v2_merge_usages.induct)
    (auto elim: located_fail split: if_splits)

lemma merge_member_ok:
  assumes "v2_merge_group_member acc m us source offset = Inr acc'" "group_ok acc" "0 \<notin> set us"
  shows "group_ok acc'"
  using assms merge_usages_ok [of "ga_usages acc" us source offset]
  by (auto simp: v2_merge_group_member_def group_ok_def split: if_splits sum.splits)

lemma merge_member_fault:
  "v2_merge_group_member acc m us source offset = Inl e \<Longrightarrow> offset < length source \<Longrightarrow>
   located source offset e"
  by (auto simp: v2_merge_group_member_def elim: located_fail dest: merge_usages_fault
      split: if_splits sum.splits)

lemma merge_bracket_ok:
  assumes "v2_merge_literal_bracket c acc source offset = Inr acc'" "group_ok acc"
  shows "group_ok acc'"
  using assms merge_member_ok printable_key_action_ok
  by (fastforce simp: v2_merge_literal_bracket_def key_action_ok_def Let_def
      split: option.splits)

lemma merge_bracket_fault:
  "v2_merge_literal_bracket c acc source offset = Inl e \<Longrightarrow> offset < length source \<Longrightarrow>
   located source offset e"
  by (auto simp: v2_merge_literal_bracket_def Let_def elim: located_fail
      dest: merge_member_fault split: option.splits)

lemma continue_Inr:
  "v2_continue merged n = Inr (acc, st) \<longleftrightarrow> merged = Inr acc \<and> st = V2_GROUP_STEP_CONTINUE n"
  by (auto simp: v2_continue_def split: sum.splits)

lemma continue_Inl: "v2_continue merged n = Inl e \<longleftrightarrow> merged = Inl e"
  by (auto simp: v2_continue_def split: sum.splits)

lemma group_step_ok:
  assumes "v2_scan_group_step source b offset acc = Inr (acc', st)" "group_ok acc"
  shows "group_ok acc' \<and>
    (st = V2_GROUP_STEP_DONE \<longrightarrow> ga_usages acc' \<noteq> [] \<or> ga_modifiers acc' \<noteq> 0)"
proof -
  have member: "0 \<notin> set (ma_usages a)"
    if "v2_parse_non_bracket_token source offset = Inr (a, n)" for a n
    using non_bracket_ok [OF that]
    by (auto simp: plain_action_ok_def key_action_ok_def delay_action_ok_def)
  show ?thesis
    using assms merge_bracket_ok merge_member_ok member
    by (auto simp: v2_scan_group_step_def Let_def continue_Inr split: if_splits sum.splits)
qed

lemma group_step_fault:
  assumes "v2_scan_group_step source b offset acc = Inl e" "offset < length source" "b \<le> offset"
  shows "located source b e"
proof -
  have up: "located source offset e \<Longrightarrow> located source b e"
    using assms(3) by (rule located_mono [rotated])
  have "located source b e \<or> located source offset e"
    using assms merge_bracket_fault merge_member_fault non_bracket_fault
    by (auto simp: v2_scan_group_step_def Let_def continue_Inl elim: located_fail
        split: if_splits sum.splits)
  with up show ?thesis by blast
qed

lemma group_loop_ok:
  "v2_scan_group_loop source b offset acc = Inr (acc', stop) \<Longrightarrow> group_ok acc \<Longrightarrow>
   group_ok acc' \<and> (ga_usages acc' \<noteq> [] \<or> ga_modifiers acc' \<noteq> 0)"
proof (induction source b offset acc rule: v2_scan_group_loop.induct)
  case (1 source b offset acc)
  then show ?case
    using group_step_ok [of source b offset acc]
    by (subst (asm) (2) v2_scan_group_loop.simps)
      (fastforce split: if_splits sum.splits prod.splits group_step.splits)
qed

lemma group_loop_fault:
  "v2_scan_group_loop source b offset acc = Inl e \<Longrightarrow> b < length source \<Longrightarrow> b \<le> offset \<Longrightarrow>
   located source b e"
proof (induction source b offset acc rule: v2_scan_group_loop.induct)
  case (1 source b offset acc)
  then show ?case
    using group_step_fault [of source b offset acc]
    by (subst (asm) (2) v2_scan_group_loop.simps)
      (fastforce elim: located_fail split: if_splits sum.splits prod.splits group_step.splits)
qed

lemma open_bracket_ok:
  assumes "v2_parse_open_bracket source offset = Inr (a, n)"
  shows "macro_action_ok a"
proof -
  have "group_ok \<lparr>ga_modifiers = 0, ga_usages = []\<rparr>"
    by (simp add: group_ok_def)
  then show ?thesis
    using assms group_loop_ok literal_ok
    by (fastforce simp: v2_parse_open_bracket_def v2_scan_group_content_def macro_action_ok_def
        plain_action_ok_def chord_action_ok_def group_ok_def split: if_splits sum.splits)
qed

lemma open_bracket_fault:
  assumes "v2_parse_open_bracket source offset = Inl e" "offset < length source"
  shows "located source offset e"
  using assms group_loop_fault [of source offset "offset + 1"] literal_fault
  by (auto simp: v2_parse_open_bracket_def v2_scan_group_content_def split: if_splits sum.splits)

lemma next_token_ok:
  assumes "v2_parse_next_token source offset = Inr (a, n)"
  shows "macro_action_ok a"
  using assms non_bracket_ok open_bracket_ok literal_ok
  by (auto simp: v2_parse_next_token_def v2_parse_close_bracket_def macro_action_ok_def
      plain_action_ok_def split: if_splits)

lemma next_token_fault:
  assumes "v2_parse_next_token source offset = Inl e" "offset < length source"
  shows "located source offset e"
  using assms non_bracket_fault open_bracket_fault literal_fault
  by (auto simp: v2_parse_next_token_def v2_parse_close_bracket_def elim: located_fail
      split: if_splits)

interpretation macro_tokens: token_parser v2_parse_next_token macro_action_ok
  by unfold_locales (auto dest: v2_next_token_progress next_token_ok next_token_fault)

section \<open>The compile loop reads tokens\<close>

text \<open>The duration the plan is charged for an action, in milliseconds without wrap-around.\<close>

definition action_duration :: "compile_options \<Rightarrow> macro_action \<Rightarrow> nat" where
  "action_duration options a =
     (if ma_type a = MACRO_ACTION_DELAY then unat (ma_delay_ms a)
      else unat (co_key_press_ms options) + unat (co_inter_key_ms options))"

definition options_ok :: "compile_options \<Rightarrow> bool" where
  "options_ok options \<longleftrightarrow>
     co_key_press_ms options \<le> APP_V2_KEY_PRESS_MAX_MS \<and>
     co_inter_key_ms options \<le> APP_V2_INTER_KEY_MAX_MS"

abbreviation plan_duration :: "compile_options \<Rightarrow> macro_action list \<Rightarrow> nat" where
  "plan_duration options actions \<equiv> sum_list (map (action_duration options) actions)"

lemma options_ok_unat:
  "options_ok options \<longleftrightarrow>
     unat (co_key_press_ms options) \<le> 10000 \<and> unat (co_inter_key_ms options) \<le> 10000"
  by (simp add: options_ok_def limit_defs word_le_nat_alt)

lemma safe_add_Some:
  "v2_safe_add_u32 a b = Some c \<longleftrightarrow> unat a + unat b < 2 ^ 32 \<and> c = a + b"
  using word_add_overflow_iff [of a b] by (auto simp: v2_safe_add_u32_def)

lemma append_duration:
  assumes "options_ok options"
  shows "\<exists>d. (if ma_type a = MACRO_ACTION_DELAY then Some (ma_delay_ms a)
      else v2_safe_add_u32 (co_key_press_ms options) (co_inter_key_ms options)) = Some d \<and>
    unat d = action_duration options a"
proof -
  have "unat (co_key_press_ms options) + unat (co_inter_key_ms options) < 2 ^ 32"
    using assms by (simp add: options_ok_unat)
  then show ?thesis
    by (auto simp: action_duration_def safe_add_Some unat_add_no_overflow)
qed

lemma append_Inr:
  assumes "options_ok options" "unat (mp_estimated_duration_ms plan) \<le> 300000"
  shows "v2_append_action plan a options source offset = Inr plan' \<longleftrightarrow>
    length (mp_actions plan) < 4096 \<and>
    unat (mp_estimated_duration_ms plan) + action_duration options a \<le> 300000 \<and>
    mp_actions plan' = mp_actions plan @ [a] \<and>
    unat (mp_estimated_duration_ms plan') =
      unat (mp_estimated_duration_ms plan) + action_duration options a"
proof -
  obtain d where d: "(if ma_type a = MACRO_ACTION_DELAY then Some (ma_delay_ms a)
      else v2_safe_add_u32 (co_key_press_ms options) (co_inter_key_ms options)) = Some d"
    and dur: "unat d = action_duration options a"
    using append_duration [OF assms(1)] by blast
  let ?t = "mp_estimated_duration_ms plan"
  show ?thesis
  proof (cases "unat ?t + unat d < 2 ^ 32")
    case True
    then have sum: "v2_safe_add_u32 ?t d = Some (?t + d)" "unat (?t + d) = unat ?t + unat d"
      by (simp_all add: safe_add_Some unat_add_no_overflow)
    have le: "?t + d > 300000 \<longleftrightarrow> unat ?t + unat d > 300000"
      using sum(2) by (simp add: word_less_nat_alt)
    show ?thesis
      by (cases plan') (auto simp: v2_append_action_def d sum le limit_defs simp flip: dur
          simp: word_unat_eq_iff sum(2) not_less)
  next
    case False
    then have "v2_safe_add_u32 ?t d = None"
      using safe_add_Some [of ?t d] by (cases "v2_safe_add_u32 ?t d") auto
    then show ?thesis
      using False by (auto simp: v2_append_action_def d simp flip: dur)
  qed
qed

lemma append_fault:
  "v2_append_action plan a options source offset = Inl e \<Longrightarrow> offset < length source \<Longrightarrow>
   located source offset e"
  by (auto simp: v2_append_action_def elim: located_fail split: if_splits option.splits)

text \<open>With room for one more action, appending fails exactly when the duration would pass its limit.\<close>

lemma append_cases:
  assumes "options_ok options" "unat (mp_estimated_duration_ms plan) \<le> 300000"
    "length (mp_actions plan) < 4096"
  shows "(\<exists>e. v2_append_action plan a options source offset = Inl e) \<and>
      \<not> unat (mp_estimated_duration_ms plan) + action_duration options a \<le> 300000 \<or>
    (\<exists>w. v2_append_action plan a options source offset = Inr w \<and>
      unat (mp_estimated_duration_ms plan) + action_duration options a \<le> 300000 \<and>
      mp_actions w = mp_actions plan @ [a] \<and>
      unat (mp_estimated_duration_ms w) =
         unat (mp_estimated_duration_ms plan) + action_duration options a)"
proof (cases "v2_append_action plan a options source offset")
  case (Inl e)
  define d where "d = unat (mp_estimated_duration_ms plan) + action_duration options a"
  let ?w = "\<lparr>mp_actions = mp_actions plan @ [a], mp_estimated_duration_ms = word_of_nat d\<rparr>"
  have "v2_append_action plan a options source offset = Inr ?w" if "d \<le> 300000"
  proof -
    have "unat (word_of_nat d :: u32) = d"
      using that by (simp add: unat_of_nat)
    with that assms(3) show ?thesis
      by (subst append_Inr [OF assms(1,2)]) (simp add: d_def)
  qed
  with Inl show ?thesis by (auto simp: d_def)
next
  case (Inr w)
  then show ?thesis
    using append_Inr [OF assms(1,2), of a source offset w] by blast
qed

text \<open>What the loop returns, stated over the tokens of the source from an offset on.\<close>

definition loop_reads ::
  "string \<Rightarrow> compile_options \<Rightarrow> nat \<Rightarrow> macro_plan \<Rightarrow> macro_plan \<Rightarrow> bool" where
  "loop_reads source options offset working p \<longleftrightarrow>
     (\<exists>acts. token_run v2_parse_next_token source offset acts (length source) \<and>
       mp_actions p = mp_actions working @ acts \<and>
       unat (mp_estimated_duration_ms p) =
         unat (mp_estimated_duration_ms working) + plan_duration options acts \<and>
       unat (mp_estimated_duration_ms p) \<le> 300000)"

lemma loop_reads_end:
  assumes "unat (mp_estimated_duration_ms working) \<le> 300000"
  shows "loop_reads source options (length source) working p \<longleftrightarrow> p = working"
proof -
  have "token_run v2_parse_next_token source (length source) acts (length source) \<longleftrightarrow> acts = []"
    for acts by (cases acts) (simp_all add: token_run_Cons)
  then have "loop_reads source options (length source) working p \<longleftrightarrow>
      mp_actions p = mp_actions working \<and>
      unat (mp_estimated_duration_ms p) = unat (mp_estimated_duration_ms working) \<and>
      unat (mp_estimated_duration_ms p) \<le> 300000"
    by (simp add: loop_reads_def)
  also have "\<dots> \<longleftrightarrow>
      mp_actions p = mp_actions working \<and>
      unat (mp_estimated_duration_ms p) = unat (mp_estimated_duration_ms working)"
    using assms by auto
  also have "\<dots> \<longleftrightarrow> p = working"
    by (cases p, cases working) (simp add: word_unat_eq_iff)
  finally show ?thesis .
qed

lemma loop_reads_step:
  assumes "offset < length source" "v2_parse_next_token source offset = Inr (a, n)"
    "mp_actions w = mp_actions working @ [a]"
    "unat (mp_estimated_duration_ms w) =
       unat (mp_estimated_duration_ms working) + action_duration options a"
  shows "loop_reads source options offset working p \<longleftrightarrow> loop_reads source options (offset + n) w p"
proof -
  have "token_run v2_parse_next_token source offset acts (length source) \<longleftrightarrow>
    (\<exists>as. acts = a # as \<and> token_run v2_parse_next_token source (offset + n) as (length source))"
    for acts using assms(1,2) by (cases acts) (auto simp: token_run_Cons)
  with assms(3,4) show ?thesis by (auto simp: loop_reads_def)
qed

lemma loop_reads_first:
  assumes "loop_reads source options offset working p" "offset < length source"
  shows "\<exists>a n. v2_parse_next_token source offset = Inr (a, n) \<and>
    unat (mp_estimated_duration_ms working) + action_duration options a \<le> 300000"
proof -
  obtain acts where run: "token_run v2_parse_next_token source offset acts (length source)"
    and dur: "unat (mp_estimated_duration_ms working) + plan_duration options acts \<le> 300000"
    using assms(1) unfolding loop_reads_def by auto
  then show ?thesis
    using assms(2) by (cases acts) (auto simp: token_run_Cons)
qed

text \<open>
  A source of at most 4096 bytes never reaches the action limit: each action takes a byte.
\<close>

lemma compile_loop_refines:
  "options_ok options \<Longrightarrow> offset \<le> length source \<Longrightarrow> unat (mp_estimated_duration_ms working) \<le> 300000 \<Longrightarrow>
    length (mp_actions working) + (length source - offset) \<le> 4096 \<Longrightarrow>
    v2_compile_loop source options offset working = Inr p \<longleftrightarrow>
    loop_reads source options offset working p"
proof (induction source options offset working rule: v2_compile_loop.induct)
  case (1 source options offset working)
  note opts = "1.prems"(1) and est = "1.prems"(3)
  show ?case
  proof (cases "offset < length source")
    case False
    then show ?thesis
      using "1.prems" loop_reads_end [of working source options p]
      by (subst v2_compile_loop.simps) auto
  next
    case inside: True
    show ?thesis
    proof (cases "v2_parse_next_token source offset")
      case (Inl e)
      then show ?thesis
        using loop_reads_first inside by (subst v2_compile_loop.simps) fastforce
    next
      case (Inr r)
      then obtain a n where tok: "v2_parse_next_token source offset = Inr (a, n)"
        by (cases r) simp
      have n: "0 < n" "offset + n \<le> length source"
        using macro_tokens.progress [OF tok inside] by simp_all
      have room: "length (mp_actions working) < 4096"
        using "1.prems"(4) inside by simp
      note outcome = append_cases [OF opts est room, of a source offset]
      show ?thesis
      proof (cases "v2_append_action working a options source offset")
        case (Inl e)
        with outcome have "\<not> unat (mp_estimated_duration_ms working) + action_duration options a
            \<le> 300000" by simp
        then show ?thesis
          using Inl loop_reads_first [of source options offset working p] tok inside
          by (subst v2_compile_loop.simps) auto
      next
        case (Inr w)
        with outcome have w: "unat (mp_estimated_duration_ms working) + action_duration options a
            \<le> 300000" "mp_actions w = mp_actions working @ [a]"
          "unat (mp_estimated_duration_ms w) =
             unat (mp_estimated_duration_ms working) + action_duration options a"
          by simp_all
        have "v2_compile_loop source options (offset + n) w = Inr p \<longleftrightarrow>
            loop_reads source options (offset + n) w p"
          using inside tok Inr w n "1.prems" by (intro "1.IH") auto
        then show ?thesis
          using loop_reads_step [OF inside tok w(2,3)] Inr tok inside
          by (subst v2_compile_loop.simps) simp
      qed
    qed
  qed
qed

lemma compile_loop_fault:
  "v2_compile_loop source options offset working = Inl e \<Longrightarrow> located source offset e"
proof (induction source options offset working rule: v2_compile_loop.induct)
  case (1 source options offset working)
  have inside: "offset < length source"
    using "1.prems" by (subst (asm) v2_compile_loop.simps) (simp split: if_splits)
  show ?case
  proof (cases "v2_parse_next_token source offset")
    case (Inl e')
    then show ?thesis
      using "1.prems" inside next_token_fault [OF Inl inside]
      by (subst (asm) v2_compile_loop.simps) simp
  next
    case (Inr r)
    then obtain a n where tok: "v2_parse_next_token source offset = Inr (a, n)"
      by (cases r) simp
    show ?thesis
    proof (cases "v2_append_action working a options source offset")
      case (Inl e')
      then show ?thesis
        using "1.prems" inside tok append_fault [OF Inl inside]
        by (subst (asm) v2_compile_loop.simps) simp
    next
      case (Inr w)
      then have "v2_compile_loop source options (offset + n) w = Inl e"
        using "1.prems" inside tok by (subst (asm) v2_compile_loop.simps) simp
      then have "located source (offset + n) e"
        using inside tok Inr by (intro "1.IH") auto
      then show ?thesis by (rule located_mono) simp
    qed
  qed
qed

section \<open>Lines and columns\<close>

lemma locate_fold:
  "foldl v2_locate_step (line, column) cs =
     (line + count_list cs (CHR 0x0A),
      (if CHR 0x0A \<in> set cs then 1 else column) +
        length (takeWhile (\<lambda>c. c \<noteq> CHR 0x0A) (rev cs)))"
proof (induction cs rule: rev_induct)
  case (snoc c cs)
  then show ?case by (auto simp: v2_locate_step_def)
qed simp

lemma locate_spec:
  "v2_locate source offset =
     (1 + count_list (take offset source) (CHR 0x0A),
      1 + length (takeWhile (\<lambda>c. c \<noteq> CHR 0x0A) (rev (take offset source))))"
  by (simp add: v2_locate_def locate_fold)

lemma fail_position:
  assumes "v2_fail source offset message code = Inl e"
  shows "pe_code e = code \<and> pe_byte_offset e = offset \<and>
    (pe_line e, pe_column e) = v2_locate source offset"
  using assms by (auto simp: v2_fail_def split: prod.splits)

section \<open>The compiler\<close>

lemma finish_fail:
  "\<exists>e. v2_finish (v2_fail source offset message code) =
     \<lparr>cr_code = code, cr_plan = v2_cleared_plan, cr_error = Some e\<rparr> \<and>
     pe_code e = code \<and> pe_byte_offset e = offset \<and>
     (pe_line e, pe_column e) = v2_locate source offset"
  by (auto simp: v2_finish_def v2_fail_def split: prod.split)

lemma finish_loop_ok:
  "cr_code (v2_finish (v2_compile_loop source options offset working)) = APP_ERROR_NONE \<longleftrightarrow>
   (\<exists>p. v2_compile_loop source options offset working = Inr p)"
  using compile_loop_fault [of source options offset working]
  by (auto simp: v2_finish_def located_def split: sum.splits)

abbreviation effective_options :: "compile_options option \<Rightarrow> compile_options" where
  "effective_options opts \<equiv> (case opts of None \<Rightarrow> v2_default_options | Some given \<Rightarrow> given)"

abbreviation source_text :: "string option \<Rightarrow> nat \<Rightarrow> string" where
  "source_text src n \<equiv> take n (case src of None \<Rightarrow> [] | Some s \<Rightarrow> s)"

text \<open>Past the argument checks, the compiler is its loop.\<close>

lemma compile_in_range:
  assumes "options_ok (effective_options opts)" "n \<le> 4096" "src = None \<longrightarrow> n = 0"
  shows "macro_compile_v2 src n opts alloc_ok =
    (if n = 0 then \<lparr>cr_code = APP_ERROR_NONE, cr_plan = v2_cleared_plan, cr_error = None\<rparr>
     else if \<not> alloc_ok
     then \<lparr>cr_code = APP_ERROR_INTERNAL, cr_plan = v2_cleared_plan, cr_error = None\<rparr>
     else v2_finish
            (v2_compile_loop (source_text src n) (effective_options opts) 0 v2_cleared_plan))"
proof -
  have "\<not> (co_key_press_ms (effective_options opts) > APP_V2_KEY_PRESS_MAX_MS \<or>
      co_inter_key_ms (effective_options opts) > APP_V2_INTER_KEY_MAX_MS)"
    using assms(1) by (simp add: options_ok_def not_less)
  moreover have "\<not> n > APP_V2_MACRO_SOURCE_MAX_BYTES"
    using assms(2) by (simp add: limit_defs)
  moreover have "\<not> (src = None \<and> n \<noteq> 0)"
    using assms(3) by blast
  ultimately show ?thesis
    unfolding macro_compile_v2_def Let_def by (cases "n = 0"; cases src) simp_all
qed

lemma compile_success_range:
  assumes "cr_code (macro_compile_v2 src n opts alloc_ok) = APP_ERROR_NONE"
  shows "options_ok (effective_options opts) \<and> n \<le> 4096 \<and> (src = None \<longrightarrow> n = 0)"
proof -
  have report: "cr_code (v2_finish (v2_fail body 0 message code)) = code" for body message code
    using finish_fail [of body 0 message code] by auto
  show ?thesis
    using assms
    by (auto simp: macro_compile_v2_def Let_def report options_ok_def APP_V2_MACRO_SOURCE_MAX_BYTES_def
        not_less split: if_splits)
qed

lemma compile_success_reads:
  assumes "cr_code (macro_compile_v2 src n opts alloc_ok) = APP_ERROR_NONE"
    and "n = length (source_text src n)"
  shows "loop_reads (source_text src n) (effective_options opts) 0 v2_cleared_plan
    (cr_plan (macro_compile_v2 src n opts alloc_ok))"
proof -
  have range: "options_ok (effective_options opts)" "n \<le> 4096" "src = None \<longrightarrow> n = 0"
    using compile_success_range [OF assms(1)] by simp_all
  show ?thesis
  proof (cases "n = 0")
    case True
    then show ?thesis
      using compile_in_range [OF range, of alloc_ok]
      by (simp add: loop_reads_def v2_cleared_plan_def)
  next
    case False
    then have loop: "macro_compile_v2 src n opts alloc_ok =
        v2_finish (v2_compile_loop (source_text src n) (effective_options opts) 0 v2_cleared_plan)"
      using assms(1) compile_in_range [OF range, of alloc_ok] by (simp split: if_splits)
    then obtain p where
      p: "v2_compile_loop (source_text src n) (effective_options opts) 0 v2_cleared_plan = Inr p"
      using assms(1) finish_loop_ok by metis
    with loop have "cr_plan (macro_compile_v2 src n opts alloc_ok) = p"
      by (simp add: v2_finish_def)
    then show ?thesis
      using p assms(2) range compile_loop_refines [OF range(1), of 0 "source_text src n" v2_cleared_plan p]
      by (simp add: v2_cleared_plan_def)
  qed
qed

lemma compile_accepts:
  assumes "options_ok opts" "length s \<le> 4096" "loop_reads s opts 0 v2_cleared_plan p"
  shows "macro_compile_v2 (Some s) (length s) (Some opts) True =
    \<lparr>cr_code = APP_ERROR_NONE, cr_plan = p, cr_error = None\<rparr>"
proof -
  have "v2_compile_loop s opts 0 v2_cleared_plan = Inr p"
    using assms compile_loop_refines [OF assms(1), of 0 s v2_cleared_plan p]
    by (simp add: v2_cleared_plan_def)
  moreover have "p = v2_cleared_plan" if "s = []"
    using that assms(3) loop_reads_end [of v2_cleared_plan s opts p]
    by (simp add: v2_cleared_plan_def)
  ultimately show ?thesis
    using assms compile_in_range [of "Some opts" "length s" "Some s" True]
    by (simp add: v2_finish_def)
qed

text \<open>
  C1: every plan the compiler accepts is well formed.  Whatever the source, the timing options
  and the allocator do, an accepted plan has at most one action per source byte (so at most
  4096), each action is a key with at most one usage, a group with at most six different
  usages, or a delay of 1 to 10000 ms, no key or group is empty, and the stored duration is
  the exact sum of the actions' durations, at most 300000 ms, without wrap-around.
\<close>

theorem compiled_plan_well_formed:
  assumes "cr_code (macro_compile_v2 src n opts alloc_ok) = APP_ERROR_NONE"
    and "n = length (take n (case src of None \<Rightarrow> [] | Some s \<Rightarrow> s))"
  shows "let p = cr_plan (macro_compile_v2 src n opts alloc_ok)
         in list_all macro_action_ok (mp_actions p) \<and>
            length (mp_actions p) \<le> n \<and> n \<le> 4096 \<and>
            unat (mp_estimated_duration_ms p) =
              plan_duration (effective_options opts) (mp_actions p) \<and>
            unat (mp_estimated_duration_ms p) \<le> 300000"
proof -
  let ?p = "cr_plan (macro_compile_v2 src n opts alloc_ok)"
  let ?s = "source_text src n"
  have "token_run v2_parse_next_token ?s 0 (mp_actions ?p) (length ?s)"
    "unat (mp_estimated_duration_ms ?p) = plan_duration (effective_options opts) (mp_actions ?p)"
    "unat (mp_estimated_duration_ms ?p) \<le> 300000"
    using compile_success_reads [OF assms] by (auto simp: loop_reads_def v2_cleared_plan_def)
  moreover have "n \<le> 4096"
    using compile_success_range [OF assms(1)] by simp
  ultimately show ?thesis
    using macro_tokens.run_good macro_tokens.run_bounds [of ?s 0 "mp_actions ?p" "length ?s"] assms(2)
    by (simp add: Let_def)
qed

theorem compiled_plan_well_formed_witness:
  "cr_code (macro_compile_v2 (Some ''a'') 1 None True) = APP_ERROR_NONE \<and>
   list_all macro_action_ok (mp_actions (cr_plan (macro_compile_v2 (Some ''a'') 1 None True)))"
proof -
  have ok: "cr_code (macro_compile_v2 (Some ''a'') 1 None True) = APP_ERROR_NONE"
    by code_simp
  then show ?thesis
    using compiled_plan_well_formed [OF ok] by (simp add: Let_def)
qed

text \<open>
  C2: the compiler is the reading of its source as tokens.  For every source of at most 4096
  bytes and timing within the limits, the compiler returns a plan exactly when the source
  reads, from its first byte to its last, as a sequence of tokens whose actions take at most
  300000 ms; the plan holds those actions in their order and their total duration.
\<close>

theorem compile_refines_tokens:
  assumes "options_ok opts" and "length s \<le> 4096"
  shows "cr_code (macro_compile_v2 (Some s) (length s) (Some opts) True) = APP_ERROR_NONE \<and>
         cr_plan (macro_compile_v2 (Some s) (length s) (Some opts) True) = p \<longleftrightarrow>
         token_run v2_parse_next_token s 0 (mp_actions p) (length s) \<and>
         unat (mp_estimated_duration_ms p) = plan_duration opts (mp_actions p) \<and>
         plan_duration opts (mp_actions p) \<le> 300000"
    (is "?ok \<and> ?plan \<longleftrightarrow> ?reads")
proof -
  have "loop_reads s opts 0 v2_cleared_plan p \<longleftrightarrow> ?reads"
    by (auto simp: loop_reads_def v2_cleared_plan_def)
  then show ?thesis
    using compile_accepts [OF assms, of p]
      compile_success_reads [of "Some s" "length s" "Some opts" True]
    by auto
qed

theorem compile_refines_tokens_witness:
  "token_run v2_parse_next_token ''[{CTRL}c]{DELAY:5}'' 0
     [\<lparr>ma_type = MACRO_ACTION_CHORD, ma_modifiers = 1, ma_usages = [6], ma_delay_ms = 0\<rparr>,
      \<lparr>ma_type = MACRO_ACTION_DELAY, ma_modifiers = 0, ma_usages = [], ma_delay_ms = 5\<rparr>] 18"
proof -
  let ?s = "''[{CTRL}c]{DELAY:5}''"
  let ?p = "\<lparr>mp_actions =
     [\<lparr>ma_type = MACRO_ACTION_CHORD, ma_modifiers = 1, ma_usages = [6], ma_delay_ms = 0\<rparr>,
      \<lparr>ma_type = MACRO_ACTION_DELAY, ma_modifiers = 0, ma_usages = [], ma_delay_ms = 5\<rparr>],
     mp_estimated_duration_ms = 28\<rparr> :: macro_plan"
  have len: "length ?s = 18" by simp
  have "options_ok v2_default_options" "length ?s \<le> 4096"
    by (simp_all add: options_ok_def v2_default_options_def limit_defs)
  moreover have "macro_compile_v2 (Some ?s) (length ?s) (Some v2_default_options) True =
      \<lparr>cr_code = APP_ERROR_NONE, cr_plan = ?p, cr_error = None\<rparr>"
    unfolding len by code_simp
  ultimately have "token_run v2_parse_next_token ?s 0 (mp_actions ?p) (length ?s)"
    using compile_refines_tokens [of v2_default_options ?s ?p] by (metis compile_result.select_convs(1,2))
  then show ?thesis by (simp only: len macro_plan.select_convs)
qed

text \<open>
  What a rejection tells its caller: an allocation failure reports no position; any other
  report agrees with the code and gives offset, line and column of one place of the source.
\<close>

definition failure_report_ok :: "string \<Rightarrow> bool \<Rightarrow> compile_result \<Rightarrow> bool" where
  "failure_report_ok source alloc_ok r \<longleftrightarrow>
     cr_plan r = v2_cleared_plan \<and>
     (case cr_error r of
        None \<Rightarrow> cr_code r = APP_ERROR_INTERNAL \<and> \<not> alloc_ok
      | Some e \<Rightarrow>
          pe_code e = cr_code r \<and>
          (pe_byte_offset e = 0 \<or> pe_byte_offset e < length source) \<and>
          pe_line e = 1 + count_list (take (pe_byte_offset e) source) (CHR 0x0A) \<and>
          pe_column e =
            1 + length (takeWhile (\<lambda>c. c \<noteq> CHR 0x0A) (rev (take (pe_byte_offset e) source))))"

text \<open>
  C3: a rejected source leaves a cleared plan and a precise report.  Whatever the arguments,
  when the compiler returns an error the plan is the cleared one, and when it fills in the
  error report the code agrees, the offset lies in the source (or is 0), the line is one more
  than the newlines before the offset and the column one more than the bytes since the last
  newline.
\<close>

theorem compile_failure_report:
  assumes "cr_code (macro_compile_v2 (Some s) n opts alloc_ok) \<noteq> APP_ERROR_NONE"
  shows "failure_report_ok (take n s) alloc_ok (macro_compile_v2 (Some s) n opts alloc_ok)"
proof -
  have report: "failure_report_ok (take n s) alloc_ok (v2_finish (v2_fail (take n s) 0 message code))"
    for message code
    using finish_fail [of "take n s" 0 message code] by (auto simp: failure_report_ok_def locate_spec)
  have loop: "failure_report_ok (take n s) alloc_ok r"
    if "r = v2_finish (v2_compile_loop (take n s) options 0 v2_cleared_plan)"
      "cr_code r \<noteq> APP_ERROR_NONE" for options r
  proof (cases "v2_compile_loop (take n s) options 0 v2_cleared_plan")
    case (Inl e)
    then have "located (take n s) 0 e"
      by (rule compile_loop_fault)
    with Inl that show ?thesis
      by (auto simp: v2_finish_def located_def locate_spec failure_report_ok_def)
  next
    case (Inr p)
    with that show ?thesis by (simp add: v2_finish_def)
  qed
  have alloc: "failure_report_ok (take n s) alloc_ok
    \<lparr>cr_code = APP_ERROR_INTERNAL, cr_plan = v2_cleared_plan, cr_error = None\<rparr>" if "\<not> alloc_ok"
    using that by (simp add: failure_report_ok_def)
  show ?thesis
  proof (cases "options_ok (effective_options opts) \<and> n \<le> 4096")
    case True
    then show ?thesis
      using assms alloc loop compile_in_range [of opts n "Some s" alloc_ok]
      by (auto split: if_splits)
  next
    case False
    then show ?thesis
      using report
      by (auto simp: macro_compile_v2_def Let_def options_ok_def APP_V2_MACRO_SOURCE_MAX_BYTES_def
          not_less)
  qed
qed

theorem compile_failure_report_witness:
  "cr_code (macro_compile_v2 (Some ''a{'') 2 None True) = APP_ERROR_MACRO_SYNTAX \<and>
   cr_plan (macro_compile_v2 (Some ''a{'') 2 None True) = v2_cleared_plan"
proof -
  have code: "cr_code (macro_compile_v2 (Some ''a{'') 2 None True) = APP_ERROR_MACRO_SYNTAX"
    by code_simp
  then show ?thesis
    using compile_failure_report [of "''a{''" 2 None True] by (simp add: failure_report_ok_def)
qed

end
