(* ===== verification/Macro_Roundtrip.thy ===== *)
theory Macro_Roundtrip
  imports Macro_Compile
begin

text \<open>
  The round trip of literal text: escaping a text for the macro language (each brace and
  bracket doubled), compiling it, and letting a host with the US layout type the plan gives
  the text back, character by character.
\<close>

section \<open>Escaping and typing\<close>

definition typeable :: "char \<Rightarrow> bool" where
  "typeable c \<longleftrightarrow> printable_char c \<or> c = CHR 0x0A \<or> c = CHR 0x09"

definition macro_escape_char :: "char \<Rightarrow> string" where
  "macro_escape_char c = (if c \<in> set ''{}[]'' then [c, c] else [c])"

abbreviation macro_escape :: "string \<Rightarrow> string" where
  "macro_escape t \<equiv> concat (map macro_escape_char t)"

text \<open>What the host types for one action: a single key, no more and no less.\<close>

definition host_types :: "macro_action \<Rightarrow> char option" where
  "host_types a =
     (if ma_type a = MACRO_ACTION_KEY then
        (case ma_usages a of
           [u] \<Rightarrow> us_host_char \<lparr>hk_modifiers = ma_modifiers a, hk_usage = u\<rparr>
         | _ \<Rightarrow> None)
      else None)"

definition literal_action :: "char \<Rightarrow> macro_action" where
  "literal_action c =
     v2_key_action
       (if c = CHR 0x0A then \<lparr>hk_modifiers = 0, hk_usage = KEY_ENTER\<rparr>
        else if c = CHR 0x09 then \<lparr>hk_modifiers = 0, hk_usage = KEY_TAB\<rparr>
        else the (macro_keymap_us_printable c))"

lemma host_types_literal:
  assumes "typeable c"
  shows "host_types (literal_action c) = Some c"
proof (cases "printable_char c")
  case True
  then obtain k where k: "macro_keymap_us_printable c = Some k" "us_host_char k = Some c"
    using printable_typed [OF True] by (cases "macro_keymap_us_printable c") auto
  then have "hk_usage k \<noteq> 0"
    using printable_key [OF k(1)] by (auto simp: printable_key_ok_def)
  moreover have "c \<noteq> CHR 0x0A" "c \<noteq> CHR 0x09"
    using True by (auto simp: printable_char_def)
  ultimately show ?thesis
    using k by (cases k) (simp add: host_types_def literal_action_def v2_key_action_def)
next
  case False
  with assms show ?thesis
    by (auto simp: typeable_def host_types_def literal_action_def v2_key_action_def
        us_host_char_def us_plain_row_def)
qed

lemma literal_action_duration:
  "action_duration opts (literal_action c) =
     unat (co_key_press_ms opts) + unat (co_inter_key_ms opts)"
  by (simp add: action_duration_def literal_action_def v2_key_action_def)

section \<open>One escaped character is one token\<close>

lemma nth_after [simp]: "(pre @ c # rest) ! length pre = c"
  by simp

lemma doubled_after: "v2_doubled (pre @ c # d # rest) (length pre) e \<longleftrightarrow> d = e"
  by (simp add: v2_doubled_def nth_append)

lemma literal_token:
  assumes "printable_char c"
  shows "v2_literal source offset c n = Inr (v2_key_action (the (macro_keymap_us_printable c)), n)"
  using printable_mapped_iff [of c] assms by (auto simp: v2_literal_Inr)

lemma delimiter_token:
  assumes "c \<in> set ''{}[]''"
  shows "v2_parse_next_token (pre @ c # c # rest) (length pre) = Inr (literal_action c, 2)"
proof -
  have lit: "v2_literal source offset c n = Inr (literal_action c, n)" for source offset n
    using assms literal_token [of c] by (auto simp: printable_char_def literal_action_def)
  have "c = CHR ''{'' \<or> c = CHR ''}'' \<or> c = CHR ''['' \<or> c = CHR '']''"
    using assms by auto
  then show ?thesis
    using lit
    by (elim disjE)
      (simp_all add: v2_parse_next_token_def v2_parse_open_bracket_def v2_parse_close_bracket_def
        v2_parse_non_bracket_token_def v2_parse_open_brace_def v2_parse_close_brace_def
        doubled_after)
qed

lemma plain_token:
  assumes "typeable c" "c \<notin> set ''{}[]''"
  shows "v2_parse_next_token (pre @ c # rest) (length pre) = Inr (literal_action c, 1)"
proof (cases "printable_char c")
  case True
  then have "c \<noteq> CHR 0x0A" "c \<noteq> CHR 0x09" "c \<noteq> CHR 0x0D" "byte c < 0x80" "byte c \<noteq> 0"
    "\<not> byte c < 0x20" "\<not> byte c > 0x7e"
    by (auto simp: printable_char_def)
  with True assms(2) show ?thesis
    by (simp add: v2_parse_next_token_def v2_parse_non_bracket_token_def v2_parse_printable_def
        Let_def literal_action_def literal_token)
next
  case False
  with assms show ?thesis
    by (auto simp: typeable_def v2_parse_next_token_def v2_parse_non_bracket_token_def Let_def
        literal_action_def)
qed

lemma escaped_token:
  assumes "typeable c"
  shows "v2_parse_next_token (pre @ macro_escape_char c @ rest) (length pre) =
    Inr (literal_action c, length (macro_escape_char c))"
  using assms delimiter_token [of c pre rest] plain_token [of c pre rest]
  by (cases "c \<in> set ''{}[]''") (simp_all add: macro_escape_char_def)

lemma escaped_run:
  assumes "\<forall>c \<in> set t. typeable c"
  shows "token_run v2_parse_next_token (pre @ macro_escape t) (length pre)
    (map literal_action t) (length (pre @ macro_escape t))"
  using assms
proof (induction t arbitrary: pre)
  case (Cons c t)
  have "macro_escape_char c \<noteq> []"
    by (simp add: macro_escape_char_def)
  moreover have "v2_parse_next_token (pre @ macro_escape (c # t)) (length pre) =
      Inr (literal_action c, length (macro_escape_char c))"
    using escaped_token [of c pre "macro_escape t"] Cons.prems by simp
  moreover have "token_run v2_parse_next_token ((pre @ macro_escape_char c) @ macro_escape t)
      (length (pre @ macro_escape_char c)) (map literal_action t)
      (length ((pre @ macro_escape_char c) @ macro_escape t))"
    using Cons.IH [of "pre @ macro_escape_char c"] Cons.prems by simp
  ultimately show ?case
    by (simp add: token_run_Cons)
qed simp

lemma literal_compile:
  assumes "\<forall>c \<in> set t. typeable c" "options_ok opts" "length (macro_escape t) \<le> 4096"
    and "length t * (unat (co_key_press_ms opts) + unat (co_inter_key_ms opts)) \<le> 300000"
  obtains p where
    "macro_compile_v2 (Some (macro_escape t)) (length (macro_escape t)) (Some opts) True =
      \<lparr>cr_code = APP_ERROR_NONE, cr_plan = p, cr_error = None\<rparr>"
    "mp_actions p = map literal_action t" "unat (mp_estimated_duration_ms p) \<le> 300000"
proof -
  let ?acts = "map literal_action t"
  have dur: "plan_duration opts ?acts =
      length t * (unat (co_key_press_ms opts) + unat (co_inter_key_ms opts))"
    by (induction t) (simp_all add: literal_action_duration)
  define p where "p = \<lparr>mp_actions = ?acts,
    mp_estimated_duration_ms = word_of_nat (plan_duration opts ?acts)\<rparr>"
  have "unat (mp_estimated_duration_ms p) = plan_duration opts ?acts"
    using assms(4) by (simp only: p_def macro_plan.select_convs dur unat_of_nat) simp
  then have "loop_reads (macro_escape t) opts 0 v2_cleared_plan p"
    using escaped_run [OF assms(1), of "[]"] assms(4) dur
    by (auto simp: loop_reads_def v2_cleared_plan_def p_def)
  then have "macro_compile_v2 (Some (macro_escape t)) (length (macro_escape t)) (Some opts) True =
      \<lparr>cr_code = APP_ERROR_NONE, cr_plan = p, cr_error = None\<rparr>"
    using compile_accepts assms(2,3) by blast
  moreover have "unat (mp_estimated_duration_ms p) \<le> 300000"
    using \<open>unat (mp_estimated_duration_ms p) = plan_duration opts ?acts\<close> assms(4) dur by simp
  ultimately show thesis
    using that [of p] by (simp add: p_def)
qed

text \<open>
  C4: what is written is what is typed.  Any text of printable ASCII, newlines and tabs,
  escaped for the macro language, compiles (while it fits the source and duration limits)
  to a plan that a host with the US layout reads back as exactly that text, one action per
  character and in order.
\<close>

theorem literal_text_round_trip:
  assumes "\<forall>c \<in> set t. typeable c" "options_ok opts" "length (macro_escape t) \<le> 4096"
    and "length t * (unat (co_key_press_ms opts) + unat (co_inter_key_ms opts)) \<le> 300000"
  shows "cr_code (macro_compile_v2 (Some (macro_escape t)) (length (macro_escape t)) (Some opts) True)
      = APP_ERROR_NONE \<and>
    map host_types (mp_actions (cr_plan
      (macro_compile_v2 (Some (macro_escape t)) (length (macro_escape t)) (Some opts) True)))
      = map Some t"
proof -
  obtain p where
    "macro_compile_v2 (Some (macro_escape t)) (length (macro_escape t)) (Some opts) True =
      \<lparr>cr_code = APP_ERROR_NONE, cr_plan = p, cr_error = None\<rparr>"
    "mp_actions p = map literal_action t"
    using assms by (rule literal_compile)
  then show ?thesis
    using assms(1) by (simp add: host_types_literal)
qed

theorem literal_text_round_trip_witness:
  "map host_types (mp_actions (cr_plan
     (macro_compile_v2 (Some (macro_escape ''a{B]'')) (length (macro_escape ''a{B]''))
       (Some v2_default_options) True))) = map Some ''a{B]''"
proof -
  have "\<forall>c \<in> set ''a{B]''. typeable c" "options_ok v2_default_options"
    "length (macro_escape ''a{B]'') \<le> 4096"
    "length ''a{B]'' * (unat (co_key_press_ms v2_default_options)
       + unat (co_inter_key_ms v2_default_options)) \<le> 300000"
    by (simp_all add: typeable_def printable_char_def options_ok_def v2_default_options_def
        limit_defs macro_escape_char_def)
  then show ?thesis
    using literal_text_round_trip by blast
qed

end
