(* ===== verification/App_Crc32.thy ===== *)
theory App_Crc32
  imports App_Prelude
begin

text \<open>
  The checksum of \<open>support/app_crc32.c\<close>: a table of 256 words built on first use and kept
  in static storage, and a byte-at-a-time update.  The static table and its ready flag are
  the record \<open>crc32_state\<close>; the operations take and return it.  The reference is the
  bit-serial register: eight shift-and-feedback steps per byte.
\<close>

section \<open>The code\<close>

definition CRC32_POLYNOMIAL :: u32 where
  "CRC32_POLYNOMIAL = 0xEDB88320"

definition APP_CRC32_INITIAL :: u32 where
  "APP_CRC32_INITIAL = - 1"

record crc32_state =
  crc32_table :: "u32 list"
  crc32_table_ready :: bool

text \<open>One round of the inner loop of \<open>build_table\<close>, and the eight rounds of one entry.\<close>

definition crc32_round :: "u32 \<Rightarrow> u32" where
  "crc32_round v =
     (if v AND 1 \<noteq> 0 then drop_bit 1 v XOR CRC32_POLYNOMIAL else drop_bit 1 v)"

definition crc32_entry :: "u32 \<Rightarrow> u32" where
  "crc32_entry v = (crc32_round ^^ 8) v"

definition build_table :: "crc32_state \<Rightarrow> crc32_state" where
  "build_table st =
     st\<lparr>crc32_table := map (\<lambda>i. crc32_entry (word_of_nat i)) [0..<256],
        crc32_table_ready := True\<rparr>"

definition crc32_step :: "u32 list \<Rightarrow> u32 \<Rightarrow> u8 \<Rightarrow> u32" where
  "crc32_step table crc b =
     table ! unat ((crc XOR ucast b) AND 0xFF) XOR drop_bit 8 crc"

text \<open>\<open>None\<close> stands for a null data pointer.\<close>

definition app_crc32_update ::
  "crc32_state \<Rightarrow> u32 \<Rightarrow> u8 list option \<Rightarrow> u32 \<times> crc32_state" where
  "app_crc32_update st crc data =
     (case data of
        None \<Rightarrow> (crc, st)
      | Some bytes \<Rightarrow>
          let st1 = (if crc32_table_ready st then st else build_table st)
          in (foldl (crc32_step (crc32_table st1)) crc bytes, st1))"

definition app_crc32_finish :: "u32 \<Rightarrow> u32" where
  "app_crc32_finish crc = crc XOR (- 1)"

definition app_crc32 :: "crc32_state \<Rightarrow> u8 list option \<Rightarrow> u32 \<times> crc32_state" where
  "app_crc32 st data =
     (case data of
        None \<Rightarrow> (0, st)
      | Some bytes \<Rightarrow>
          (case app_crc32_update st APP_CRC32_INITIAL (Some bytes) of
             (crc, st1) \<Rightarrow> (app_crc32_finish crc, st1)))"

text \<open>The static storage as the C program starts with it, and what every call keeps.\<close>

definition crc32_initial_state :: crc32_state where
  "crc32_initial_state = \<lparr>crc32_table = replicate 256 0, crc32_table_ready = False\<rparr>"

definition crc32_ok :: "crc32_state \<Rightarrow> bool" where
  "crc32_ok st \<longleftrightarrow>
     (crc32_table_ready st \<longrightarrow>
        crc32_table st = map (\<lambda>i. crc32_entry (word_of_nat i)) [0..<256])"

section \<open>The reference\<close>

definition crc32_serial_byte :: "u32 \<Rightarrow> u8 \<Rightarrow> u32" where
  "crc32_serial_byte crc b = (crc32_round ^^ 8) (crc XOR ucast b)"

definition crc32_serial :: "u8 list \<Rightarrow> u32" where
  "crc32_serial bytes = foldl crc32_serial_byte (- 1) bytes XOR (- 1)"

section \<open>The round is linear and invertible\<close>

lemma crc32_round_alt:
  "crc32_round v = drop_bit 1 v XOR (if odd v then CRC32_POLYNOMIAL else 0)"
  by (simp add: crc32_round_def and_one_eq odd_iff_mod_2_eq_one)

lemma odd_xor_word: "odd (a XOR b) \<longleftrightarrow> odd a \<noteq> odd b" for a b :: u32
  by (simp add: even_xor_iff)

lemma crc32_round_xor: "crc32_round (a XOR b) = crc32_round a XOR crc32_round b"
  by (simp add: crc32_round_alt odd_xor_word drop_bit_xor ac_simps)

lemma crc32_rounds_xor:
  "(crc32_round ^^ n) (a XOR b) = (crc32_round ^^ n) a XOR (crc32_round ^^ n) b"
  by (induction n) (simp_all add: crc32_round_xor)

lemma crc32_rounds_high:
  assumes "\<And>i. i < n \<Longrightarrow> \<not> bit v i"
  shows "(crc32_round ^^ n) v = drop_bit n v"
  using assms
proof (induction n)
  case (Suc n)
  then have "\<not> bit v n" by simp
  then have "even (drop_bit n v)"
    by (simp add: bit_iff_odd_drop_bit)
  with Suc show ?case
    by (simp add: crc32_round_alt)
qed simp

lemma crc32_round_top: "bit (crc32_round v) 31 \<longleftrightarrow> odd v"
  by (auto simp: crc32_round_alt bit_simps CRC32_POLYNOMIAL_def dest: bit_imp_le_length)

lemma crc32_round_inj: "crc32_round a = crc32_round b \<longleftrightarrow> a = b"
proof
  assume eq: "crc32_round a = crc32_round b"
  then have odd: "odd a = odd b"
    by (metis crc32_round_top)
  with eq have "drop_bit 1 a = drop_bit 1 b"
    by (simp add: crc32_round_alt)
  then have "bit a (Suc m) = bit b (Suc m)" for m
    by (metis One_nat_def bit_drop_bit_eq comp_apply plus_1_eq_Suc)
  moreover have "bit a 0 = bit b 0"
    using odd by (simp add: bit_0)
  ultimately show "a = b"
    by (intro bit_word_eqI) (metis not0_implies_Suc)
qed simp

lemma crc32_rounds_inj: "(crc32_round ^^ n) a = (crc32_round ^^ n) b \<longleftrightarrow> a = b"
  by (induction n) (simp_all add: crc32_round_inj)

section \<open>Table and bit-serial register agree\<close>

lemma byte_mask: "(0xFF :: u32) = mask 8"
  by (simp add: mask_eq_exp_minus_1)

lemma crc32_split_byte: "(v AND mask 8) XOR (v AND NOT (mask 8)) = v" for v :: u32
  by (rule bit_word_eqI) (auto simp: bit_simps)

lemma not_byte_low_bit: "i < 8 \<Longrightarrow> \<not> bit (v AND NOT (mask 8)) i" for v :: u32
  by (simp add: bit_simps)

lemma drop_byte_mask: "drop_bit 8 ((c XOR ucast b) AND NOT (mask 8)) = drop_bit 8 c"
  for c :: u32 and b :: u8
  by (rule bit_word_eqI) (auto simp: bit_simps dest: bit_imp_le_length)

lemma low_byte_bound: "unat (v AND 0xFF) < 256" for v :: u32
proof -
  have "v AND 0xFF \<le> 0xFF" by (rule word_and_le1)
  then show ?thesis by (simp add: word_le_nat_alt)
qed

lemma crc32_step_serial:
  assumes "table = map (\<lambda>i. crc32_entry (word_of_nat i)) [0..<256]"
  shows "crc32_step table crc b = crc32_serial_byte crc b"
proof -
  let ?v = "crc XOR ucast b :: u32"
  have "crc32_serial_byte crc b =
      (crc32_round ^^ 8) ((?v AND mask 8) XOR (?v AND NOT (mask 8)))"
    by (simp only: crc32_serial_byte_def crc32_split_byte)
  also have "\<dots> = crc32_entry (?v AND mask 8) XOR (crc32_round ^^ 8) (?v AND NOT (mask 8))"
    by (simp only: crc32_rounds_xor crc32_entry_def)
  also have "(crc32_round ^^ 8) (?v AND NOT (mask 8)) = drop_bit 8 crc"
    using crc32_rounds_high [of 8 "?v AND NOT (mask 8)", OF not_byte_low_bit]
    by (simp only: drop_byte_mask)
  also have "crc32_entry (?v AND mask 8) = table ! unat (?v AND 0xFF)"
    using assms low_byte_bound [of ?v] by (simp add: byte_mask)
  finally show ?thesis by (simp add: crc32_step_def)
qed

lemma crc32_ok_initial: "crc32_ok crc32_initial_state"
  by (simp add: crc32_ok_def crc32_initial_state_def)

lemma crc32_ok_update: "crc32_ok st \<Longrightarrow> crc32_ok (snd (app_crc32_update st crc data))"
  by (auto simp: app_crc32_update_def crc32_ok_def build_table_def Let_def split: option.split)

lemma crc32_update_serial:
  assumes "crc32_ok st"
  shows "fst (app_crc32_update st crc (Some bytes)) = foldl crc32_serial_byte crc bytes"
proof -
  have "crc32_step (crc32_table (if crc32_table_ready st then st else build_table st)) =
    crc32_serial_byte"
    using assms by (intro ext) (simp add: crc32_ok_def build_table_def crc32_step_serial)
  then show ?thesis by (simp add: app_crc32_update_def Let_def)
qed

lemma crc32_serial_byte_inj: "crc32_serial_byte c b = crc32_serial_byte d b \<longleftrightarrow> c = d"
  unfolding crc32_serial_byte_def crc32_rounds_inj by (rule xor_cancel_right)

lemma crc32_fold_inj:
  "foldl crc32_serial_byte c bytes = foldl crc32_serial_byte d bytes \<longleftrightarrow> c = d"
  by (induction bytes arbitrary: c d) (simp_all add: crc32_serial_byte_inj)

text \<open>Two different bytes drive the register to two different values.\<close>

lemma crc32_serial_byte_differs:
  assumes "b \<noteq> b'"
  shows "crc32_serial_byte c b \<noteq> crc32_serial_byte c b'"
proof
  assume "crc32_serial_byte c b = crc32_serial_byte c b'"
  then have "ucast b XOR c = (ucast b' XOR c :: u32)"
    by (simp add: crc32_serial_byte_def crc32_rounds_inj xor.commute)
  then have "(ucast b :: u32) = ucast b'"
    by (simp only: xor_cancel_right)
  then have "b = b'"
    by (rule widen_u8_inject [THEN iffD1])
  with assms show False by simp
qed

text \<open>
  C5: the table-driven checksum is the bit-serial one, from the initial static storage and
  after any number of earlier calls, and it leaves the static table fit for the next call.
\<close>

theorem crc32_table_is_serial:
  assumes "crc32_ok st"
  shows "fst (app_crc32 st (Some bytes)) = crc32_serial bytes \<and>
         crc32_ok (snd (app_crc32 st (Some bytes)))"
proof -
  obtain crc st1 where upd: "app_crc32_update st APP_CRC32_INITIAL (Some bytes) = (crc, st1)"
    by fastforce
  with assms have "crc = foldl crc32_serial_byte (- 1) bytes" "crc32_ok st1"
    using crc32_update_serial [of st APP_CRC32_INITIAL bytes]
      crc32_ok_update [of st APP_CRC32_INITIAL "Some bytes"]
    by (simp_all add: APP_CRC32_INITIAL_def)
  with upd show ?thesis
    by (simp add: app_crc32_def app_crc32_finish_def crc32_serial_def)
qed

theorem crc32_table_is_serial_witness:
  "crc32_ok crc32_initial_state \<and>
   fst (app_crc32 crc32_initial_state (Some [0x31, 0x32])) = crc32_serial [0x31, 0x32]"
  using crc32_table_is_serial [OF crc32_ok_initial, of "[0x31, 0x32]"] crc32_ok_initial by simp

end
