(* ===== verification/Subsystem_Health.thy ===== *)
theory Subsystem_Health
  imports App_Error
begin

text \<open>
  The health recorders of the subsystems: \<open>usb_keyboard/usb_health.c\<close>,
  \<open>auth/auth_health.c\<close>, \<open>storage/storage_health.c\<close>, \<open>macro_executor/executor_health.c\<close>,
  \<open>web_server/http_health.c\<close> and \<open>support/app_lifecycle_health.c\<close>.  Each module owns one
  static \<open>g_state\<close> struct; the operations take it and return it updated.  The critical
  sections around the updates make each operation one atomic step, which is what a
  function on the state is.  The locale \<open>health_monitor\<close> is the contract the diagnostics
  rely on; every module is an interpretation of it.
\<close>

section \<open>State and events\<close>

record health_state =
  hs_primary_error :: app_error
  hs_cleanup_error :: app_error
  hs_cleanup_incomplete :: bool

record health_view =
  hv_state :: subsystem_health_state
  hv_primary_error :: app_error
  hv_cleanup_error :: app_error
  hv_cleanup_incomplete :: bool

datatype health_event = Primary_Event app_error | Cleanup_Event app_error bool

text \<open>The specification side: the first error that is not \<open>APP_ERROR_NONE\<close>.\<close>

fun first_error :: "app_error list \<Rightarrow> app_error" where
  "first_error [] = APP_ERROR_NONE"
| "first_error (e # es) = (if e \<noteq> APP_ERROR_NONE then e else first_error es)"

fun primary_errors :: "health_event list \<Rightarrow> app_error list" where
  "primary_errors [] = []"
| "primary_errors (Primary_Event e # evs) = e # primary_errors evs"
| "primary_errors (Cleanup_Event e b # evs) = primary_errors evs"

fun cleanup_errors :: "health_event list \<Rightarrow> app_error list" where
  "cleanup_errors [] = []"
| "cleanup_errors (Primary_Event e # evs) = cleanup_errors evs"
| "cleanup_errors (Cleanup_Event e b # evs) = e # cleanup_errors evs"

fun benign_event :: "health_event \<Rightarrow> bool" where
  "benign_event (Primary_Event e) \<longleftrightarrow> e = APP_ERROR_NONE"
| "benign_event (Cleanup_Event e b) \<longleftrightarrow> e = APP_ERROR_NONE \<and> \<not> b"

fun health_apply ::
  "(app_error \<Rightarrow> 's \<Rightarrow> 's) \<Rightarrow> (app_error \<Rightarrow> bool \<Rightarrow> 's \<Rightarrow> 's) \<Rightarrow> health_event \<Rightarrow> 's \<Rightarrow> 's" where
  "health_apply rp rc (Primary_Event e) s = rp e s"
| "health_apply rp rc (Cleanup_Event e b) s = rc e b s"

section \<open>The contract\<close>

locale health_monitor =
  fixes reset :: 's
    and record_primary :: "app_error \<Rightarrow> 's \<Rightarrow> 's"
    and record_cleanup :: "app_error \<Rightarrow> bool \<Rightarrow> 's \<Rightarrow> 's"
    and state_of :: "'s \<Rightarrow> subsystem_health_state"
    and primary_of :: "'s \<Rightarrow> app_error"
    and cleanup_of :: "'s \<Rightarrow> app_error"
    and incomplete_of :: "'s \<Rightarrow> bool"
  assumes primary_reset: "primary_of reset = APP_ERROR_NONE"
    and cleanup_reset: "cleanup_of reset = APP_ERROR_NONE"
    and incomplete_reset: "\<not> incomplete_of reset"
    and primary_primary:
      "primary_of (record_primary e s) =
         (if primary_of s \<noteq> APP_ERROR_NONE then primary_of s else e)"
    and cleanup_primary: "cleanup_of (record_primary e s) = cleanup_of s"
    and incomplete_primary: "incomplete_of (record_primary e s) = incomplete_of s"
    and primary_cleanup: "primary_of (record_cleanup e b s) = primary_of s"
    and cleanup_cleanup:
      "cleanup_of (record_cleanup e b s) =
         (if cleanup_of s \<noteq> APP_ERROR_NONE then cleanup_of s else e)"
    and incomplete_cleanup:
      "incomplete_of (record_cleanup e b s) \<longleftrightarrow> incomplete_of s \<or> b"
    and fault_failed:
      "primary_of s \<noteq> APP_ERROR_NONE \<or> cleanup_of s \<noteq> APP_ERROR_NONE \<or> incomplete_of s \<Longrightarrow>
       state_of s = SUBSYSTEM_HEALTH_FAILED"
begin

lemmas laws =
  primary_reset cleanup_reset incomplete_reset primary_primary cleanup_primary
  incomplete_primary primary_cleanup cleanup_cleanup incomplete_cleanup

lemma primary_run:
  "primary_of (fold (health_apply record_primary record_cleanup) evs s) =
     (if primary_of s \<noteq> APP_ERROR_NONE then primary_of s else first_error (primary_errors evs))"
proof (induction evs arbitrary: s)
  case (Cons ev evs)
  then show ?case by (cases ev) (simp_all add: laws)
qed simp

lemma cleanup_run:
  "cleanup_of (fold (health_apply record_primary record_cleanup) evs s) =
     (if cleanup_of s \<noteq> APP_ERROR_NONE then cleanup_of s else first_error (cleanup_errors evs))"
proof (induction evs arbitrary: s)
  case (Cons ev evs)
  then show ?case by (cases ev) (simp_all add: laws)
qed simp

lemma incomplete_run:
  "incomplete_of (fold (health_apply record_primary record_cleanup) evs s) \<longleftrightarrow>
     incomplete_of s \<or> (\<exists>e. Cleanup_Event e True \<in> set evs)"
proof (induction evs arbitrary: s)
  case (Cons ev evs)
  then show ?case by (cases ev) (auto simp: laws)
qed simp

lemma first_error_none: "first_error es = APP_ERROR_NONE \<longleftrightarrow> (\<forall>e \<in> set es. e = APP_ERROR_NONE)"
  by (induction es) auto

lemma benign_iff:
  "(\<forall>ev \<in> set evs. benign_event ev) \<longleftrightarrow>
     first_error (primary_errors evs) = APP_ERROR_NONE \<and>
     first_error (cleanup_errors evs) = APP_ERROR_NONE \<and>
     (\<nexists>e. Cleanup_Event e True \<in> set evs)"
proof (induction evs)
  case (Cons ev evs)
  then show ?case by (cases ev) auto
qed simp

text \<open>A subsystem that recorded any fault reports \<open>FAILED\<close>, whatever came later.\<close>

lemma fault_sticks:
  assumes "ev \<in> set evs" "\<not> benign_event ev"
  shows "state_of (fold (health_apply record_primary record_cleanup) evs s) = SUBSYSTEM_HEALTH_FAILED"
proof (rule fault_failed)
  from assms have "\<not> (\<forall>ev \<in> set evs. benign_event ev)" by blast
  then show "primary_of (fold (health_apply record_primary record_cleanup) evs s) \<noteq> APP_ERROR_NONE \<or>
    cleanup_of (fold (health_apply record_primary record_cleanup) evs s) \<noteq> APP_ERROR_NONE \<or>
    incomplete_of (fold (health_apply record_primary record_cleanup) evs s)"
    unfolding benign_iff by (auto simp: primary_run cleanup_run incomplete_run)
qed

end

text \<open>The four modules that keep no further state are healthy exactly when nothing was recorded.\<close>

locale quiet_health_monitor = health_monitor +
  assumes no_fault_healthy:
    "primary_of s = APP_ERROR_NONE \<Longrightarrow> cleanup_of s = APP_ERROR_NONE \<Longrightarrow> \<not> incomplete_of s \<Longrightarrow>
     state_of s = SUBSYSTEM_HEALTH_HEALTHY"
begin

lemma healthy_iff_benign:
  "state_of (fold (health_apply record_primary record_cleanup) evs reset) = SUBSYSTEM_HEALTH_HEALTHY \<longleftrightarrow>
     (\<forall>ev \<in> set evs. benign_event ev)"
proof
  assume "\<forall>ev \<in> set evs. benign_event ev"
  then show "state_of (fold (health_apply record_primary record_cleanup) evs reset) =
    SUBSYSTEM_HEALTH_HEALTHY"
    unfolding benign_iff
    by (intro no_fault_healthy) (simp_all add: primary_run cleanup_run incomplete_run laws)
next
  assume "state_of (fold (health_apply record_primary record_cleanup) evs reset) =
    SUBSYSTEM_HEALTH_HEALTHY"
  then show "\<forall>ev \<in> set evs. benign_event ev"
    using fault_sticks [of _ evs reset] by force
qed

end

section \<open>USB\<close>

definition usb_health_reset :: health_state where
  "usb_health_reset =
     \<lparr>hs_primary_error = APP_ERROR_NONE, hs_cleanup_error = APP_ERROR_NONE,
      hs_cleanup_incomplete = False\<rparr>"

definition usb_health_record_primary :: "app_error \<Rightarrow> health_state \<Rightarrow> health_state" where
  "usb_health_record_primary e s =
     (if e \<noteq> APP_ERROR_NONE \<and> hs_primary_error s = APP_ERROR_NONE
      then s\<lparr>hs_primary_error := e\<rparr> else s)"

definition usb_health_record_cleanup ::
  "app_error \<Rightarrow> bool \<Rightarrow> health_state \<Rightarrow> health_state" where
  "usb_health_record_cleanup e incomplete s =
     (let s1 = (if e \<noteq> APP_ERROR_NONE \<and> hs_cleanup_error s = APP_ERROR_NONE
                then s\<lparr>hs_cleanup_error := e\<rparr> else s)
      in s1\<lparr>hs_cleanup_incomplete := hs_cleanup_incomplete s1 \<or> incomplete\<rparr>)"

definition usb_health_snapshot :: "health_state \<Rightarrow> health_view" where
  "usb_health_snapshot s =
     \<lparr>hv_state =
        (if hs_cleanup_incomplete s \<or> hs_cleanup_error s \<noteq> APP_ERROR_NONE \<or>
            hs_primary_error s \<noteq> APP_ERROR_NONE
         then SUBSYSTEM_HEALTH_FAILED else SUBSYSTEM_HEALTH_HEALTHY),
      hv_primary_error = hs_primary_error s,
      hv_cleanup_error = hs_cleanup_error s,
      hv_cleanup_incomplete = hs_cleanup_incomplete s\<rparr>"

lemmas usb_health_defs =
  usb_health_reset_def usb_health_record_primary_def usb_health_record_cleanup_def
  usb_health_snapshot_def

interpretation usb_monitor: quiet_health_monitor usb_health_reset usb_health_record_primary
  usb_health_record_cleanup
  "\<lambda>s. hv_state (usb_health_snapshot s)"
  "\<lambda>s. hv_primary_error (usb_health_snapshot s)"
  "\<lambda>s. hv_cleanup_error (usb_health_snapshot s)"
  "\<lambda>s. hv_cleanup_incomplete (usb_health_snapshot s)"
  by unfold_locales (auto simp: usb_health_defs Let_def split: if_splits)

section \<open>Authentication\<close>

definition auth_health_reset :: health_state where
  "auth_health_reset =
     \<lparr>hs_primary_error = APP_ERROR_NONE, hs_cleanup_error = APP_ERROR_NONE,
      hs_cleanup_incomplete = False\<rparr>"

definition auth_health_record_primary :: "app_error \<Rightarrow> health_state \<Rightarrow> health_state" where
  "auth_health_record_primary e s =
     (if e \<noteq> APP_ERROR_NONE \<and> hs_primary_error s = APP_ERROR_NONE
      then s\<lparr>hs_primary_error := e\<rparr> else s)"

definition auth_health_record_cleanup ::
  "app_error \<Rightarrow> bool \<Rightarrow> health_state \<Rightarrow> health_state" where
  "auth_health_record_cleanup e incomplete s =
     (let s1 = (if e \<noteq> APP_ERROR_NONE \<and> hs_cleanup_error s = APP_ERROR_NONE
                then s\<lparr>hs_cleanup_error := e\<rparr> else s)
      in s1\<lparr>hs_cleanup_incomplete := hs_cleanup_incomplete s1 \<or> incomplete\<rparr>)"

definition auth_health_snapshot :: "health_state \<Rightarrow> health_view" where
  "auth_health_snapshot s =
     \<lparr>hv_state =
        (if hs_cleanup_incomplete s \<or> hs_cleanup_error s \<noteq> APP_ERROR_NONE \<or>
            hs_primary_error s \<noteq> APP_ERROR_NONE
         then SUBSYSTEM_HEALTH_FAILED else SUBSYSTEM_HEALTH_HEALTHY),
      hv_primary_error = hs_primary_error s,
      hv_cleanup_error = hs_cleanup_error s,
      hv_cleanup_incomplete = hs_cleanup_incomplete s\<rparr>"

lemmas auth_health_defs =
  auth_health_reset_def auth_health_record_primary_def auth_health_record_cleanup_def
  auth_health_snapshot_def

interpretation auth_monitor: quiet_health_monitor auth_health_reset auth_health_record_primary
  auth_health_record_cleanup
  "\<lambda>s. hv_state (auth_health_snapshot s)"
  "\<lambda>s. hv_primary_error (auth_health_snapshot s)"
  "\<lambda>s. hv_cleanup_error (auth_health_snapshot s)"
  "\<lambda>s. hv_cleanup_incomplete (auth_health_snapshot s)"
  by unfold_locales (auto simp: auth_health_defs Let_def split: if_splits)

section \<open>Storage\<close>

definition storage_health_reset :: health_state where
  "storage_health_reset =
     \<lparr>hs_primary_error = APP_ERROR_NONE, hs_cleanup_error = APP_ERROR_NONE,
      hs_cleanup_incomplete = False\<rparr>"

definition storage_health_record_primary :: "app_error \<Rightarrow> health_state \<Rightarrow> health_state" where
  "storage_health_record_primary e s =
     (if e \<noteq> APP_ERROR_NONE \<and> hs_primary_error s = APP_ERROR_NONE
      then s\<lparr>hs_primary_error := e\<rparr> else s)"

definition storage_health_record_cleanup ::
  "app_error \<Rightarrow> bool \<Rightarrow> health_state \<Rightarrow> health_state" where
  "storage_health_record_cleanup e incomplete s =
     (let s1 = (if e \<noteq> APP_ERROR_NONE \<and> hs_cleanup_error s = APP_ERROR_NONE
                then s\<lparr>hs_cleanup_error := e\<rparr> else s)
      in s1\<lparr>hs_cleanup_incomplete := hs_cleanup_incomplete s1 \<or> incomplete\<rparr>)"

definition storage_health_snapshot :: "health_state \<Rightarrow> health_view" where
  "storage_health_snapshot s =
     \<lparr>hv_state =
        (if hs_cleanup_incomplete s \<or> hs_cleanup_error s \<noteq> APP_ERROR_NONE \<or>
            hs_primary_error s \<noteq> APP_ERROR_NONE
         then SUBSYSTEM_HEALTH_FAILED else SUBSYSTEM_HEALTH_HEALTHY),
      hv_primary_error = hs_primary_error s,
      hv_cleanup_error = hs_cleanup_error s,
      hv_cleanup_incomplete = hs_cleanup_incomplete s\<rparr>"

lemmas storage_health_defs =
  storage_health_reset_def storage_health_record_primary_def storage_health_record_cleanup_def
  storage_health_snapshot_def

interpretation storage_monitor: quiet_health_monitor storage_health_reset storage_health_record_primary
  storage_health_record_cleanup
  "\<lambda>s. hv_state (storage_health_snapshot s)"
  "\<lambda>s. hv_primary_error (storage_health_snapshot s)"
  "\<lambda>s. hv_cleanup_error (storage_health_snapshot s)"
  "\<lambda>s. hv_cleanup_incomplete (storage_health_snapshot s)"
  by unfold_locales (auto simp: storage_health_defs Let_def split: if_splits)

section \<open>Executor\<close>

definition executor_health_reset :: health_state where
  "executor_health_reset =
     \<lparr>hs_primary_error = APP_ERROR_NONE, hs_cleanup_error = APP_ERROR_NONE,
      hs_cleanup_incomplete = False\<rparr>"

definition executor_health_record_primary :: "app_error \<Rightarrow> health_state \<Rightarrow> health_state" where
  "executor_health_record_primary e s =
     (if e \<noteq> APP_ERROR_NONE \<and> hs_primary_error s = APP_ERROR_NONE
      then s\<lparr>hs_primary_error := e\<rparr> else s)"

definition executor_health_record_cleanup ::
  "app_error \<Rightarrow> bool \<Rightarrow> health_state \<Rightarrow> health_state" where
  "executor_health_record_cleanup e incomplete s =
     (let s1 = (if e \<noteq> APP_ERROR_NONE \<and> hs_cleanup_error s = APP_ERROR_NONE
                then s\<lparr>hs_cleanup_error := e\<rparr> else s)
      in s1\<lparr>hs_cleanup_incomplete := hs_cleanup_incomplete s1 \<or> incomplete\<rparr>)"

definition executor_health_snapshot :: "health_state \<Rightarrow> health_view" where
  "executor_health_snapshot s =
     \<lparr>hv_state =
        (if hs_cleanup_incomplete s \<or> hs_cleanup_error s \<noteq> APP_ERROR_NONE \<or>
            hs_primary_error s \<noteq> APP_ERROR_NONE
         then SUBSYSTEM_HEALTH_FAILED else SUBSYSTEM_HEALTH_HEALTHY),
      hv_primary_error = hs_primary_error s,
      hv_cleanup_error = hs_cleanup_error s,
      hv_cleanup_incomplete = hs_cleanup_incomplete s\<rparr>"

lemmas executor_health_defs =
  executor_health_reset_def executor_health_record_primary_def executor_health_record_cleanup_def
  executor_health_snapshot_def

interpretation executor_monitor: quiet_health_monitor executor_health_reset executor_health_record_primary
  executor_health_record_cleanup
  "\<lambda>s. hv_state (executor_health_snapshot s)"
  "\<lambda>s. hv_primary_error (executor_health_snapshot s)"
  "\<lambda>s. hv_cleanup_error (executor_health_snapshot s)"
  "\<lambda>s. hv_cleanup_incomplete (executor_health_snapshot s)"
  by unfold_locales (auto simp: executor_health_defs Let_def split: if_splits)

section \<open>HTTP\<close>

text \<open>\<open>http_health.c\<close> also latches the first asynchronous failure with its stage.\<close>

datatype http_async_failure_stage =
    HTTP_ASYNC_FAILURE_NONE
  | HTTP_ASYNC_FAILURE_WORKER_START
  | HTTP_ASYNC_FAILURE_WORKER_RUN
  | HTTP_ASYNC_FAILURE_WORKER_STOP
  | HTTP_ASYNC_FAILURE_QUEUE
  | HTTP_ASYNC_FAILURE_COMPLETION

record http_health_state = health_state +
  hs_async_failure_stage :: http_async_failure_stage
  hs_async_error :: app_error

record http_health_view = health_view +
  hv_async_failure_stage :: http_async_failure_stage
  hv_async_error :: app_error

definition async_failure_stage_valid :: "http_async_failure_stage \<Rightarrow> bool" where
  "async_failure_stage_valid stage \<longleftrightarrow> stage \<noteq> HTTP_ASYNC_FAILURE_NONE"

definition http_health_reset :: http_health_state where
  "http_health_reset =
     \<lparr>hs_primary_error = APP_ERROR_NONE, hs_cleanup_error = APP_ERROR_NONE,
      hs_cleanup_incomplete = False, hs_async_failure_stage = HTTP_ASYNC_FAILURE_NONE,
      hs_async_error = APP_ERROR_NONE\<rparr>"

definition http_health_record_primary ::
  "app_error \<Rightarrow> http_health_state \<Rightarrow> http_health_state" where
  "http_health_record_primary e s =
     (if e \<noteq> APP_ERROR_NONE \<and> hs_primary_error s = APP_ERROR_NONE
      then s\<lparr>hs_primary_error := e\<rparr> else s)"

definition http_health_record_cleanup ::
  "app_error \<Rightarrow> bool \<Rightarrow> http_health_state \<Rightarrow> http_health_state" where
  "http_health_record_cleanup e incomplete s =
     (let s1 = (if e \<noteq> APP_ERROR_NONE \<and> hs_cleanup_error s = APP_ERROR_NONE
                then s\<lparr>hs_cleanup_error := e\<rparr> else s)
      in s1\<lparr>hs_cleanup_incomplete := hs_cleanup_incomplete s1 \<or> incomplete\<rparr>)"

definition http_health_record_async_failure ::
  "http_async_failure_stage \<Rightarrow> app_error \<Rightarrow> http_health_state \<Rightarrow> http_health_state" where
  "http_health_record_async_failure stage e s =
     (if \<not> async_failure_stage_valid stage \<or> e = APP_ERROR_NONE then s
      else if hs_async_failure_stage s = HTTP_ASYNC_FAILURE_NONE
      then s\<lparr>hs_async_failure_stage := stage, hs_async_error := e\<rparr>
      else s)"

definition http_health_snapshot :: "http_health_state \<Rightarrow> http_health_view" where
  "http_health_snapshot s =
     \<lparr>hv_state =
        (if hs_cleanup_incomplete s \<or> hs_cleanup_error s \<noteq> APP_ERROR_NONE \<or>
            hs_primary_error s \<noteq> APP_ERROR_NONE \<or>
            hs_async_failure_stage s \<noteq> HTTP_ASYNC_FAILURE_NONE \<or>
            hs_async_error s \<noteq> APP_ERROR_NONE
         then SUBSYSTEM_HEALTH_FAILED else SUBSYSTEM_HEALTH_HEALTHY),
      hv_primary_error = hs_primary_error s,
      hv_cleanup_error = hs_cleanup_error s,
      hv_cleanup_incomplete = hs_cleanup_incomplete s,
      hv_async_failure_stage = hs_async_failure_stage s,
      hv_async_error = hs_async_error s\<rparr>"

lemmas http_health_defs =
  http_health_reset_def http_health_record_primary_def http_health_record_cleanup_def
  http_health_snapshot_def

interpretation http_monitor: health_monitor http_health_reset http_health_record_primary
  http_health_record_cleanup
  "\<lambda>s. hv_state (http_health_snapshot s)"
  "\<lambda>s. hv_primary_error (http_health_snapshot s)"
  "\<lambda>s. hv_cleanup_error (http_health_snapshot s)"
  "\<lambda>s. hv_cleanup_incomplete (http_health_snapshot s)"
  by unfold_locales (auto simp: http_health_defs Let_def split: if_splits)

text \<open>The first asynchronous failure wins; later ones, and invalid reports, change nothing.\<close>

lemma http_async_first_wins:
  assumes "hs_async_failure_stage s \<noteq> HTTP_ASYNC_FAILURE_NONE"
  shows "http_health_record_async_failure stage e s = s"
  using assms by (simp add: http_health_record_async_failure_def)

section \<open>Application lifecycle\<close>

record lifecycle_health_state = health_state +
  hs_degraded :: bool

definition app_lifecycle_health_reset :: lifecycle_health_state where
  "app_lifecycle_health_reset =
     \<lparr>hs_primary_error = APP_ERROR_NONE, hs_cleanup_error = APP_ERROR_NONE,
      hs_cleanup_incomplete = False, hs_degraded = False\<rparr>"

definition app_lifecycle_health_record_stage_failure ::
  "app_error \<Rightarrow> lifecycle_health_state \<Rightarrow> lifecycle_health_state" where
  "app_lifecycle_health_record_stage_failure e s =
     (if e \<noteq> APP_ERROR_NONE \<and> hs_primary_error s = APP_ERROR_NONE
      then s\<lparr>hs_primary_error := e\<rparr> else s)"

definition app_lifecycle_health_record_degraded ::
  "lifecycle_health_state \<Rightarrow> lifecycle_health_state" where
  "app_lifecycle_health_record_degraded s = s\<lparr>hs_degraded := True\<rparr>"

definition app_lifecycle_health_record_cleanup_failed ::
  "app_error \<Rightarrow> bool \<Rightarrow> lifecycle_health_state \<Rightarrow> lifecycle_health_state" where
  "app_lifecycle_health_record_cleanup_failed e incomplete s =
     (let s1 = (if e \<noteq> APP_ERROR_NONE \<and> hs_cleanup_error s = APP_ERROR_NONE
                then s\<lparr>hs_cleanup_error := e\<rparr> else s)
      in s1\<lparr>hs_cleanup_incomplete := hs_cleanup_incomplete s1 \<or> incomplete\<rparr>)"

definition app_lifecycle_health_snapshot :: "lifecycle_health_state \<Rightarrow> health_view" where
  "app_lifecycle_health_snapshot s =
     \<lparr>hv_state =
        (if hs_cleanup_incomplete s \<or> hs_cleanup_error s \<noteq> APP_ERROR_NONE \<or>
            hs_primary_error s \<noteq> APP_ERROR_NONE
         then SUBSYSTEM_HEALTH_FAILED
         else if hs_degraded s then SUBSYSTEM_HEALTH_DEGRADED
         else SUBSYSTEM_HEALTH_HEALTHY),
      hv_primary_error = hs_primary_error s,
      hv_cleanup_error = hs_cleanup_error s,
      hv_cleanup_incomplete = hs_cleanup_incomplete s\<rparr>"

lemmas lifecycle_health_defs =
  app_lifecycle_health_reset_def app_lifecycle_health_record_stage_failure_def
  app_lifecycle_health_record_cleanup_failed_def app_lifecycle_health_snapshot_def

interpretation lifecycle_monitor: health_monitor app_lifecycle_health_reset
  app_lifecycle_health_record_stage_failure app_lifecycle_health_record_cleanup_failed
  "\<lambda>s. hv_state (app_lifecycle_health_snapshot s)"
  "\<lambda>s. hv_primary_error (app_lifecycle_health_snapshot s)"
  "\<lambda>s. hv_cleanup_error (app_lifecycle_health_snapshot s)"
  "\<lambda>s. hv_cleanup_incomplete (app_lifecycle_health_snapshot s)"
  by unfold_locales (auto simp: lifecycle_health_defs Let_def split: if_splits)

section \<open>The executor's shutdown latch\<close>

record executor_shutdown_state =
  shutting_down :: bool
  stop_unconfirmed :: bool

definition executor_shutdown_state_reset ::
  "executor_shutdown_state \<Rightarrow> executor_shutdown_state" where
  "executor_shutdown_state_reset st = st\<lparr>shutting_down := False, stop_unconfirmed := False\<rparr>"

definition executor_shutdown_state_begin ::
  "executor_shutdown_state \<Rightarrow> executor_shutdown_state" where
  "executor_shutdown_state_begin st = st\<lparr>shutting_down := True\<rparr>"

definition executor_shutdown_state_complete ::
  "executor_shutdown_state \<Rightarrow> bool \<Rightarrow> executor_shutdown_state" where
  "executor_shutdown_state_complete st worker_stopped =
     (if worker_stopped then st\<lparr>shutting_down := False, stop_unconfirmed := False\<rparr>
      else st\<lparr>shutting_down := True, stop_unconfirmed := True\<rparr>)"

definition executor_shutdown_state_accepts_submissions :: "executor_shutdown_state \<Rightarrow> bool" where
  "executor_shutdown_state_accepts_submissions st \<longleftrightarrow> \<not> shutting_down st"

definition executor_shutdown_state_fault_latched :: "executor_shutdown_state \<Rightarrow> bool" where
  "executor_shutdown_state_fault_latched st \<longleftrightarrow> stop_unconfirmed st"

end
