(* ===== verification/App_Uuid.thy ===== *)
theory App_Uuid
  imports App_Error
begin

text \<open>
  Version-4 UUIDs as \<open>macro_model/app_uuid.c\<close> checks, parses and generates them.  A string
  argument is \<open>None\<close> for a null pointer.  The random source of \<open>app_uuid_generate\<close>
  (\<open>esp_fill_random\<close>, or the read loop on \<open>/dev/urandom\<close> of the host build) is the
  parameter \<open>random\<close>: \<open>Some\<close> the sixteen bytes, or \<open>None\<close> where the host loop fails.
\<close>

definition APP_UUID_STRING_LENGTH :: nat where
  [limit_defs]: "APP_UUID_STRING_LENGTH = 36"

definition is_lower_hex :: "char \<Rightarrow> bool" where
  "is_lower_hex c \<longleftrightarrow>
     byte c \<ge> byte CHR ''0'' \<and> byte c \<le> byte CHR ''9'' \<or>
     byte c \<ge> byte CHR ''a'' \<and> byte c \<le> byte CHR ''f''"

definition hyphen_positions :: "nat list" where
  "hyphen_positions = [8, 13, 18, 23]"

text \<open>The scanning loop of \<open>app_uuid_is_valid_string\<close>.\<close>

fun uuid_scan :: "nat \<Rightarrow> nat \<Rightarrow> string \<Rightarrow> bool" where
  "uuid_scan index hyphen_index [] = True"
| "uuid_scan index hyphen_index (c # cs) =
     (if hyphen_index < length hyphen_positions \<and> index = hyphen_positions ! hyphen_index
      then (if c \<noteq> CHR ''-'' then False else uuid_scan (index + 1) (hyphen_index + 1) cs)
      else if \<not> is_lower_hex c then False
      else uuid_scan (index + 1) hyphen_index cs)"

definition app_uuid_is_valid_string :: "string option \<Rightarrow> bool" where
  "app_uuid_is_valid_string input =
     (case input of
        None \<Rightarrow> False
      | Some s \<Rightarrow>
          if length s \<noteq> APP_UUID_STRING_LENGTH then False
          else if \<not> uuid_scan 0 0 s then False
          else s ! 14 = CHR ''4'' \<and> s ! 19 \<in> set ''89ab'')"

definition app_uuid_parse :: "string option \<Rightarrow> app_error + string" where
  "app_uuid_parse input =
     (if \<not> app_uuid_is_valid_string input then Inl APP_ERROR_INVALID_ARGUMENT
      else Inr (the input))"

text \<open>\<open>%02x\<close> of one byte.\<close>

definition hex_digit :: "nat \<Rightarrow> char" where
  "hex_digit n = ''0123456789abcdef'' ! n"

definition hex_byte :: "u8 \<Rightarrow> string" where
  "hex_byte b = [hex_digit (unat (drop_bit 4 b)), hex_digit (unat (b AND 0x0f))]"

abbreviation hex_bytes :: "u8 list \<Rightarrow> string" where
  "hex_bytes bs \<equiv> concat (map hex_byte bs)"

text \<open>The format string of the final \<open>snprintf\<close>.\<close>

definition uuid_format :: "u8 list \<Rightarrow> string" where
  "uuid_format bytes =
     hex_bytes (take 4 bytes) @ ''-'' @ hex_bytes (take 2 (drop 4 bytes)) @ ''-'' @
     hex_bytes (take 2 (drop 6 bytes)) @ ''-'' @ hex_bytes (take 2 (drop 8 bytes)) @ ''-'' @
     hex_bytes (take 6 (drop 10 bytes))"

definition app_uuid_generate :: "u8 list option \<Rightarrow> app_error + string" where
  "app_uuid_generate random =
     (case random of
        None \<Rightarrow> Inl APP_ERROR_INTERNAL
      | Some bytes0 \<Rightarrow>
          let bytes1 = bytes0[6 := (bytes0 ! 6 AND 0x0f) OR 0x40];
              bytes = bytes1[8 := (bytes1 ! 8 AND 0x3f) OR 0x80];
              s = uuid_format bytes
          in if length s \<noteq> APP_UUID_STRING_LENGTH then Inl APP_ERROR_INTERNAL else Inr s)"

definition app_uuid_equal :: "string option \<Rightarrow> string option \<Rightarrow> bool" where
  "app_uuid_equal left right \<longleftrightarrow> left \<noteq> None \<and> right \<noteq> None \<and> left = right"

section \<open>Hexadecimal digits\<close>

lemma nibble_bound: "unat (drop_bit 4 b) < 16" "unat (b AND 0x0f) < 16" for b :: u8
proof -
  have "b AND 0x0f \<le> 0x0f" by (rule word_and_le1)
  then show "unat (b AND 0x0f) < 16" by (simp add: word_le_nat_alt)
  have "unat (drop_bit 4 b) = unat b div 16"
    by (simp add: drop_bit_eq_div unat_div)
  moreover have "unat b < 2 ^ 8"
    using unsigned_less [of b] by simp
  ultimately show "unat (drop_bit 4 b) < 16" by (simp add: div_less_iff_less_mult)
qed

lemma is_lower_hex_digit: "n < 16 \<Longrightarrow> is_lower_hex (hex_digit n)"
proof -
  have "list_all (\<lambda>n. is_lower_hex (hex_digit n)) [0..<16]"
    by code_simp
  then show "n < 16 \<Longrightarrow> is_lower_hex (hex_digit n)"
    by (simp add: list_all_iff)
qed

lemma hex_digit_inj: "m < 16 \<Longrightarrow> n < 16 \<Longrightarrow> hex_digit m = hex_digit n \<Longrightarrow> m = n"
proof -
  have "distinct ''0123456789abcdef''" by code_simp
  then show "m < 16 \<Longrightarrow> n < 16 \<Longrightarrow> hex_digit m = hex_digit n \<Longrightarrow> m = n"
    by (simp add: hex_digit_def nth_eq_iff_index_eq)
qed

lemma length_hex_byte [simp]: "length (hex_byte b) = 2"
  by (simp add: hex_byte_def)

lemma length_hex_bytes [simp]: "length (hex_bytes bs) = 2 * length bs"
  by (induction bs) simp_all

lemma hex_byte_lower: "list_all is_lower_hex (hex_byte b)"
  by (simp add: hex_byte_def is_lower_hex_digit nibble_bound)

lemma hex_bytes_lower: "list_all is_lower_hex (hex_bytes bs)"
  by (induction bs) (simp_all add: hex_byte_lower)

lemma hex_byte_inj: "hex_byte a = hex_byte b \<Longrightarrow> a = b"
proof -
  assume "hex_byte a = hex_byte b"
  then have "drop_bit 4 a = drop_bit 4 b" "a AND 0x0f = b AND 0x0f"
    using hex_digit_inj [OF nibble_bound(1) nibble_bound(1), of a b]
      hex_digit_inj [OF nibble_bound(2) nibble_bound(2), of a b]
    by (simp_all add: hex_byte_def word_unat_eq_iff)
  moreover have "v = push_bit 4 (drop_bit 4 v) OR (v AND 0x0f)" for v :: u8
  proof -
    have m: "(0x0f :: u8) = mask 4" by (simp add: mask_eq_exp_minus_1)
    show ?thesis unfolding m by (rule bit_word_eqI) (auto simp: bit_simps)
  qed
  ultimately show "a = b" by metis
qed

lemma hex_bytes_inj: "length as = length bs \<Longrightarrow> hex_bytes as = hex_bytes bs \<Longrightarrow> as = bs"
proof (induction as bs rule: list_induct2)
  case (Cons a as b bs)
  then show ?case
    by (auto simp: hex_byte_def intro: hex_byte_inj)
qed simp

section \<open>Generated identifiers\<close>

lemma version_digit: "hex_digit (unat (drop_bit 4 ((b AND 0x0f) OR 0x40))) = CHR ''4''" for b :: u8
proof -
  have "(0x0f :: u8) = mask 4" "(0x40 :: u8) = push_bit 4 4"
    by (simp_all add: mask_eq_exp_minus_1)
  moreover have "drop_bit 4 ((b AND mask 4) OR push_bit 4 4) = (4 :: u8)"
    by (rule bit_word_eqI) (auto simp: bit_simps dest: bit_imp_le_length)
  ultimately show ?thesis by (simp add: hex_digit_def)
qed

lemma variant_digit: "hex_digit (unat (drop_bit 4 ((b AND 0x3f) OR 0x80))) \<in> set ''89ab''" for b :: u8
proof -
  have "(0x3f :: u8) = mask 6" "(0x80 :: u8) = push_bit 4 8"
    by (simp_all add: mask_eq_exp_minus_1)
  moreover have "drop_bit 4 ((b AND mask 6) OR push_bit 4 8) =
      (8 :: u8) OR (drop_bit 4 b AND mask 2)"
    by (rule bit_word_eqI) (auto simp: bit_simps dest: bit_imp_le_length)
  moreover have "(drop_bit 4 b AND mask 2 :: u8) \<in> {0, 1, 2, 3}"
  proof -
    have "drop_bit 4 b AND mask 2 \<le> (mask 2 :: u8)" by (rule word_and_le1)
    then have "unat (drop_bit 4 b AND mask 2 :: u8) \<le> 3"
      by (simp add: word_le_nat_alt mask_eq_exp_minus_1)
    then have "unat (drop_bit 4 b AND mask 2 :: u8) \<in> {0, 1, 2, 3}" by auto
    then show ?thesis by (auto simp: word_unat_eq_iff)
  qed
  ultimately show ?thesis by (auto simp: hex_digit_def)
qed

lemma sixteen_bytes:
  assumes "length bs = 16"
  obtains a b c d e f g h i j k l m n p q where
    "bs = [a, b, c, d, e, f, g, h, i, j, k, l, m, n, p, q]"
  using assms by (auto simp: numeral_eq_Suc length_Suc_conv)

lemma uuid_format_valid:
  assumes "length bs = 16" "hex_digit (unat (drop_bit 4 (bs ! 6))) = CHR ''4''"
    "hex_digit (unat (drop_bit 4 (bs ! 8))) \<in> set ''89ab''"
  shows "length (uuid_format bs) = 36 \<and> app_uuid_is_valid_string (Some (uuid_format bs))"
proof -
  obtain a b c d e f g h i j k l m n p q where
    bs: "bs = [a, b, c, d, e, f, g, h, i, j, k, l, m, n, p, q]"
    using assms(1) by (rule sixteen_bytes)
  have hex: "is_lower_hex (hex_digit (unat (drop_bit 4 x)))"
    "is_lower_hex (hex_digit (unat (x AND 15)))" for x :: u8
    by (simp_all add: is_lower_hex_digit nibble_bound)
  have four: "is_lower_hex (CHR ''4'')"
    by (simp add: is_lower_hex_def)
  have digits: "hex_digit (unat (drop_bit 4 g)) = CHR ''4''"
    "hex_digit (unat (drop_bit 4 i)) \<in> set ''89ab''"
    using assms(2,3) by (simp_all add: bs)
  have "uuid_scan 0 0 (uuid_format bs)"
    by (simp add: bs uuid_format_def hex_byte_def hex four digits(1) hyphen_positions_def)
  moreover have "uuid_format bs ! 14 = CHR ''4''" "uuid_format bs ! 19 \<in> set ''89ab''"
    using digits by (simp_all add: bs uuid_format_def hex_byte_def)
  moreover have "length (uuid_format bs) = 36"
    by (simp add: bs uuid_format_def hex_byte_def)
  ultimately show ?thesis
    by (simp add: app_uuid_is_valid_string_def APP_UUID_STRING_LENGTH_def)
qed

text \<open>
  whatever sixteen bytes the random source delivers, the generated identifier is a valid
  version-4 UUID string: the generator succeeds and its own validator and parser accept the
  result.
\<close>

theorem generated_uuid_valid:
  assumes "length bytes = 16"
  shows "\<exists>u. app_uuid_generate (Some bytes) = Inr u \<and> app_uuid_is_valid_string (Some u) \<and>
    app_uuid_parse (Some u) = Inr u"
proof -
  let ?bs = "bytes[6 := (bytes ! 6 AND 0x0f) OR 0x40, 8 := (bytes ! 8 AND 0x3f) OR 0x80]"
  have "length (uuid_format ?bs) = 36 \<and> app_uuid_is_valid_string (Some (uuid_format ?bs))"
    using assms version_digit [of "bytes ! 6"] variant_digit [of "bytes ! 8"]
    by (intro uuid_format_valid) simp_all
  then show ?thesis
    by (simp add: app_uuid_generate_def APP_UUID_STRING_LENGTH_def app_uuid_parse_def)
qed

theorem generated_uuid_valid_witness:
  "\<exists>u. app_uuid_generate (Some (replicate 16 255)) = Inr u \<and> app_uuid_is_valid_string (Some u)"
  using generated_uuid_valid [of "replicate 16 255"] by auto

end
