(* ===== verification/Macro_Executor.thy ===== *)
theory Macro_Executor
  imports Macro_Compile App_Uuid Subsystem_Health
begin

text \<open>
  The execution engine of \<open>macro_executor/macro_executor_engine.c\<close>, with the operations table
  of \<open>macro_executor_ops.h\<close> as the parameter \<open>ops\<close>.  The platform behind that table (mutex,
  queue, clock, USB stack) is code the engine only calls: each of its answers is a function of
  the chronological list of everything the engine has asked so far, the ghost field
  \<open>en_events\<close>, so that no determinism beyond the actual history is assumed.

  Another task may run \<open>macro_executor_engine_cancel\<close> or \<open>_confirm\<close> whenever the engine
  does not hold the lock.  Their effect on the engine is one critical section under that lock,
  so it suffices to run the sections of the calls that arrived since (\<open>op_external\<close>) when
  the worker acquires the lock.
\<close>

section \<open>Data\<close>

definition CANCELLATION_SLICE_MS :: u32 where
  [limit_defs]: "CANCELLATION_SLICE_MS = 10"

definition APP_V2_SERIAL_CONFIRMATION_TIMEOUT_SECONDS :: u32 where
  [limit_defs]: "APP_V2_SERIAL_CONFIRMATION_TIMEOUT_SECONDS = 60"

definition CONFIRMATION_TIMEOUT_MS :: u32 where
  [limit_defs]: "CONFIRMATION_TIMEOUT_MS = APP_V2_SERIAL_CONFIRMATION_TIMEOUT_SECONDS * 1000"

definition APP_V2_EXECUTOR_ABSOLUTE_DEADLINE_MS :: u32 where
  [limit_defs]: "APP_V2_EXECUTOR_ABSOLUTE_DEADLINE_MS = 310000"

definition APP_COMPILED_ACTION_MAX :: nat where
  [limit_defs]: "APP_COMPILED_ACTION_MAX = 4096"

definition APP_DELAY_MAX_MS :: u32 where
  [limit_defs]: "APP_DELAY_MAX_MS = 10000"

definition APP_ESTIMATED_DURATION_MAX_MS :: u32 where
  [limit_defs]: "APP_ESTIMATED_DURATION_MAX_MS = 300000"

definition CURRENT_ACTION_NONE :: string where
  "CURRENT_ACTION_NONE = ''none''"

datatype execution_state =
    EXECUTION_IDLE
  | EXECUTION_AWAITING_CONFIRMATION
  | EXECUTION_RUNNING
  | EXECUTION_COMPLETED
  | EXECUTION_CANCELLED
  | EXECUTION_FAILED
  | EXECUTION_TIMED_OUT

text \<open>A plan whose \<open>actions\<close> pointer is null is the plan with no action.\<close>

record execution_request =
  rq_execution_id :: string
  rq_set_id :: string
  rq_macro_id :: string
  rq_macro_revision :: u32
  rq_key_press_ms :: u32
  rq_inter_key_ms :: u32
  rq_plan :: macro_plan
  rq_accepted_ms :: u32
  rq_require_confirmation :: bool

record execution_status =
  xs_state :: execution_state
  xs_error :: app_error
  xs_release_error :: app_error
  xs_execution_id :: string
  xs_set_id :: string
  xs_macro_id :: string
  xs_macro_revision :: u32
  xs_action_index :: nat
  xs_action_count :: nat
  xs_available :: bool
  xs_cancellation_requested :: bool
  xs_accepted_ms :: u32
  xs_started_ms :: u32
  xs_completed_ms :: u32
  xs_current_action :: string

datatype external_call = Cancel_Call | Confirm_Call

text \<open>One call of the operations table with its arguments and answer.\<close>

datatype exec_event =
    Lock_Event bool
  | Unlock_Event bool
  | External_Event external_call app_error
  | Queue_Send_Event execution_request bool
  | Notify_Event
  | Now_Event u32
  | Wait_Event u32 app_error
  | Usb_Ready_Event bool
  | Press_Event u8 "u8 list" app_error
  | Release_All_Event app_error
  | Record_Release_Failure_Event app_error
  | Plan_Free_Event

record executor_ops =
  op_lock :: "exec_event list \<Rightarrow> bool"
  op_unlock :: "exec_event list \<Rightarrow> bool"
  op_queue_send :: "exec_event list \<Rightarrow> execution_request \<Rightarrow> bool"
  op_now_ms :: "exec_event list \<Rightarrow> u32"
  op_wait_ms :: "exec_event list \<Rightarrow> u32 \<Rightarrow> app_error"
  op_usb_ready :: "exec_event list \<Rightarrow> bool"
  op_usb_press :: "exec_event list \<Rightarrow> u8 \<Rightarrow> u8 list \<Rightarrow> app_error"
  op_usb_release_all :: "exec_event list \<Rightarrow> app_error"
  op_external :: "exec_event list \<Rightarrow> external_call list"

record executor_engine =
  en_status :: execution_status
  en_busy :: bool
  en_cancellation_requested :: bool
  en_confirmed_requested :: bool
  en_unavailable :: bool
  en_release_fault_error :: app_error
  en_deadline :: u32
  en_events :: "exec_event list"

fun action_type_string :: "action_type \<Rightarrow> string" where
  "action_type_string MACRO_ACTION_KEY = ''key''"
| "action_type_string MACRO_ACTION_CHORD = ''chord''"
| "action_type_string MACRO_ACTION_DELAY = ''delay''"

section \<open>Calls of the operations table\<close>

definition en_log :: "exec_event \<Rightarrow> executor_engine \<Rightarrow> executor_engine" where
  "en_log ev en = en\<lparr>en_events := en_events en @ [ev]\<rparr>"

text \<open>The sections of \<open>cancel\<close> and \<open>confirm\<close> between lock and unlock.\<close>

definition cancel_section :: "executor_engine \<Rightarrow> app_error \<times> executor_engine" where
  "cancel_section en =
     (if \<not> en_busy en then (APP_ERROR_NOT_FOUND, en)
      else if en_cancellation_requested en then (APP_ERROR_CONFLICT, en)
      else (APP_ERROR_NONE, en\<lparr>en_cancellation_requested := True\<rparr>))"

definition confirm_section :: "executor_engine \<Rightarrow> app_error \<times> executor_engine" where
  "confirm_section en =
     (if \<not> en_busy en \<or> xs_state (en_status en) \<noteq> EXECUTION_AWAITING_CONFIRMATION
      then (APP_ERROR_NOT_FOUND, en)
      else if en_confirmed_requested en then (APP_ERROR_CONFLICT, en)
      else (APP_ERROR_NONE, en\<lparr>en_confirmed_requested := True\<rparr>))"

fun external_section :: "external_call \<Rightarrow> executor_engine \<Rightarrow> app_error \<times> executor_engine" where
  "external_section Cancel_Call en = cancel_section en"
| "external_section Confirm_Call en = confirm_section en"

text \<open>
  Calls of other tasks run in the lock they find free. The log keeps the answer of the section; a
  caller whose own unlock failed gets an internal error instead, with the same change made.
\<close>

definition apply_external :: "external_call \<Rightarrow> executor_engine \<Rightarrow> executor_engine" where
  "apply_external x en =
     (if en_unavailable en then en
      else case external_section x en of (answer, en) \<Rightarrow> en_log (External_Event x answer) en)"

definition lock_engine :: "executor_ops \<Rightarrow> executor_engine \<Rightarrow> app_error \<times> executor_engine" where
  "lock_engine ops en =
     (if op_lock ops (en_events en)
      then (APP_ERROR_NONE,
            fold apply_external (op_external ops (en_events en)) (en_log (Lock_Event True) en))
      else (APP_ERROR_INTERNAL, en_log (Lock_Event False) en))"

definition unlock_engine :: "executor_ops \<Rightarrow> executor_engine \<Rightarrow> app_error \<times> executor_engine" where
  "unlock_engine ops en =
     (let ok = op_unlock ops (en_events en)
      in (if ok then APP_ERROR_NONE else APP_ERROR_INTERNAL, en_log (Unlock_Event ok) en))"

definition call_now_ms :: "executor_ops \<Rightarrow> executor_engine \<Rightarrow> u32 \<times> executor_engine" where
  "call_now_ms ops en =
     (let now = op_now_ms ops (en_events en) in (now, en_log (Now_Event now) en))"

definition call_wait_ms ::
  "executor_ops \<Rightarrow> u32 \<Rightarrow> executor_engine \<Rightarrow> app_error \<times> executor_engine" where
  "call_wait_ms ops ms en =
     (let e = op_wait_ms ops (en_events en) ms in (e, en_log (Wait_Event ms e) en))"

definition call_usb_ready :: "executor_ops \<Rightarrow> executor_engine \<Rightarrow> bool \<times> executor_engine" where
  "call_usb_ready ops en =
     (let ready = op_usb_ready ops (en_events en) in (ready, en_log (Usb_Ready_Event ready) en))"

definition call_usb_press ::
  "executor_ops \<Rightarrow> u8 \<Rightarrow> u8 list \<Rightarrow> executor_engine \<Rightarrow> app_error \<times> executor_engine" where
  "call_usb_press ops modifiers usages en =
     (let e = op_usb_press ops (en_events en) modifiers usages
      in (e, en_log (Press_Event modifiers usages e) en))"

definition call_usb_release_all ::
  "executor_ops \<Rightarrow> executor_engine \<Rightarrow> app_error \<times> executor_engine" where
  "call_usb_release_all ops en =
     (let e = op_usb_release_all ops (en_events en) in (e, en_log (Release_All_Event e) en))"

definition call_queue_send ::
  "executor_ops \<Rightarrow> execution_request \<Rightarrow> executor_engine \<Rightarrow> bool \<times> executor_engine" where
  "call_queue_send ops request en =
     (let ok = op_queue_send ops (en_events en) request
      in (ok, en_log (Queue_Send_Event request ok) en))"

lemmas op_call_defs =
  unlock_engine_def call_now_ms_def call_wait_ms_def call_usb_ready_def call_usb_press_def
  call_usb_release_all_def call_queue_send_def Let_def

section \<open>Locked reads and writes\<close>

text \<open>\<open>status\<close> is the caller's local copy, which the C code passes by pointer.\<close>

definition record_release_failure ::
  "app_error \<Rightarrow> execution_status \<times> executor_engine \<Rightarrow> execution_status \<times> executor_engine" where
  "record_release_failure release_error p =
     (case p of (status, en) \<Rightarrow>
        if release_error = APP_ERROR_NONE then (status, en)
        else
          ((if xs_release_error status = APP_ERROR_NONE
            then status\<lparr>xs_release_error := release_error\<rparr> else status),
           en_log (Record_Release_Failure_Event release_error)
             (en\<lparr>en_release_fault_error :=
                   (if en_release_fault_error en = APP_ERROR_NONE then release_error
                    else en_release_fault_error en),
                 en_unavailable := True\<rparr>)))"

definition publish_status ::
  "executor_ops \<Rightarrow> execution_status \<Rightarrow> executor_engine \<Rightarrow> app_error \<times> executor_engine" where
  "publish_status ops status en =
     (case lock_engine ops en of (result, en) \<Rightarrow>
        if result \<noteq> APP_ERROR_NONE then (result, en)
        else unlock_engine ops (en\<lparr>en_status := status\<rparr>))"

definition read_cancellation ::
  "executor_ops \<Rightarrow> executor_engine \<Rightarrow> app_error \<times> bool \<times> executor_engine" where
  "read_cancellation ops en =
     (case lock_engine ops en of (result, en) \<Rightarrow>
        if result \<noteq> APP_ERROR_NONE then (result, False, en)
        else
          let cancelled = en_cancellation_requested en
          in case unlock_engine ops en of (result, en) \<Rightarrow>
            (result, (if result \<noteq> APP_ERROR_NONE then True else cancelled), en))"

definition read_confirmation ::
  "executor_ops \<Rightarrow> executor_engine \<Rightarrow> app_error \<times> bool \<times> executor_engine" where
  "read_confirmation ops en =
     (case lock_engine ops en of (result, en) \<Rightarrow>
        if result \<noteq> APP_ERROR_NONE then (result, False, en)
        else
          let confirmed = en_confirmed_requested en
          in case unlock_engine ops en of (result, en) \<Rightarrow>
            (result, (if result \<noteq> APP_ERROR_NONE then False else confirmed), en))"

definition reset_terminal_flags ::
  "executor_ops \<Rightarrow> executor_engine \<Rightarrow> app_error \<times> executor_engine" where
  "reset_terminal_flags ops en =
     (case lock_engine ops en of (result, en) \<Rightarrow>
        if result \<noteq> APP_ERROR_NONE then (result, en)
        else unlock_engine ops
          (en\<lparr>en_busy := False, en_cancellation_requested := False,
              en_confirmed_requested := False\<rparr>))"

definition deadline_expired :: "u32 \<Rightarrow> u32 \<Rightarrow> bool" where
  "deadline_expired now deadline \<longleftrightarrow> sint (now - deadline) \<ge> 0"

definition validate_request :: "execution_request \<Rightarrow> app_error" where
  "validate_request request =
     (if length (mp_actions (rq_plan request)) = 0 \<or>
         length (mp_actions (rq_plan request)) > APP_COMPILED_ACTION_MAX \<or>
         mp_estimated_duration_ms (rq_plan request) > APP_ESTIMATED_DURATION_MAX_MS \<or>
         rq_key_press_ms request > APP_DELAY_MAX_MS \<or>
         rq_inter_key_ms request > APP_DELAY_MAX_MS \<or>
         \<not> app_uuid_is_valid_string (Some (rq_execution_id request)) \<or>
         \<not> app_uuid_is_valid_string (Some (rq_set_id request)) \<or>
         \<not> app_uuid_is_valid_string (Some (rq_macro_id request)) \<or>
         rq_macro_revision request = 0
      then APP_ERROR_INVALID_ARGUMENT else APP_ERROR_NONE)"

section \<open>Waiting\<close>

lemma slice_bounds:
  "r > 0 \<Longrightarrow> s = (if r > CANCELLATION_SLICE_MS then CANCELLATION_SLICE_MS else r) \<Longrightarrow>
   unat (r - s) + unat s = unat r \<and> 0 < unat s \<and> unat s \<le> 10" for r s :: u32
  by (auto simp: limit_defs unat_sub word_less_nat_alt word_le_nat_alt)

function cancellable_delay ::
  "executor_ops \<Rightarrow> u32 \<Rightarrow> executor_engine \<Rightarrow> app_error \<times> executor_engine" where
  "cancellable_delay ops remaining en =
     (if remaining > 0 then
        case read_cancellation ops en of (result, cancelled, en) \<Rightarrow>
          if result \<noteq> APP_ERROR_NONE then (result, en)
          else if cancelled then (APP_ERROR_EXECUTION_CANCELLED, en)
          else case call_now_ms ops en of (now, en) \<Rightarrow>
            if deadline_expired now (en_deadline en) then (APP_ERROR_TIMEOUT, en)
            else
              let slice = (if remaining > CANCELLATION_SLICE_MS then CANCELLATION_SLICE_MS
                           else remaining)
              in case call_wait_ms ops slice en of (result, en) \<Rightarrow>
                if result \<noteq> APP_ERROR_NONE then (result, en)
                else cancellable_delay ops (remaining - slice) en
      else (APP_ERROR_NONE, en))"
  by pat_completeness simp

termination
proof (relation "measure (\<lambda>(ops, remaining, en). unat remaining)")
  fix ops remaining en x y xa ya yb xb yc xc xd yd
  assume "0 < (remaining :: u32)"
    "xc = (if CANCELLATION_SLICE_MS < remaining then CANCELLATION_SLICE_MS else remaining)"
  then show "((ops, remaining - xc, yd), ops, remaining, en)
      \<in> measure (\<lambda>(ops, remaining, en). unat remaining)"
    using slice_bounds [of remaining xc] by simp
qed simp

declare cancellable_delay.simps [simp del]

partial_function (option) await_confirmation_loop ::
  "executor_ops \<Rightarrow> u32 \<Rightarrow> executor_engine \<Rightarrow> (app_error \<times> executor_engine) option" where
  "await_confirmation_loop ops deadline en =
     (case read_cancellation ops en of (result, cancelled, en) \<Rightarrow>
        if result \<noteq> APP_ERROR_NONE then Some (result, en)
        else if cancelled then Some (APP_ERROR_EXECUTION_CANCELLED, en)
        else case read_confirmation ops en of (result, confirmed, en) \<Rightarrow>
          if result \<noteq> APP_ERROR_NONE then Some (result, en)
          else if confirmed then Some (APP_ERROR_NONE, en)
          else case call_now_ms ops en of (now, en) \<Rightarrow>
            if deadline_expired now deadline then Some (APP_ERROR_TIMEOUT, en)
            else case call_wait_ms ops CANCELLATION_SLICE_MS en of (result, en) \<Rightarrow>
              if result \<noteq> APP_ERROR_NONE then Some (result, en)
              else await_confirmation_loop ops deadline en)"

declare await_confirmation_loop.simps [code]

definition await_confirmation ::
  "executor_ops \<Rightarrow> executor_engine \<Rightarrow> (app_error \<times> executor_engine) option" where
  "await_confirmation ops en =
     (case call_now_ms ops en of (now, en) \<Rightarrow>
        await_confirmation_loop ops (now + CONFIRMATION_TIMEOUT_MS) en)"

section \<open>Terminal states\<close>

text \<open>The tail that \<open>finish_execution\<close> and \<open>finish_submission_failure\<close> share.\<close>

definition publish_and_reset ::
  "executor_ops \<Rightarrow> execution_status \<Rightarrow> executor_engine \<Rightarrow>
   app_error \<times> app_error \<times> executor_engine" where
  "publish_and_reset ops status en =
     (case publish_status ops status en of (publish_result, en) \<Rightarrow>
        case reset_terminal_flags ops en of (reset_result, en) \<Rightarrow>
          (publish_result, reset_result,
           if publish_result \<noteq> APP_ERROR_NONE \<or> reset_result \<noteq> APP_ERROR_NONE
           then en\<lparr>en_unavailable := True\<rparr> else en))"

definition finish_execution ::
  "executor_ops \<Rightarrow> executor_engine \<Rightarrow> execution_status \<Rightarrow> execution_state \<Rightarrow> app_error \<Rightarrow>
   app_error \<times> executor_engine" where
  "finish_execution ops en status state primary_error =
     (case call_usb_release_all ops en of (release_result, en) \<Rightarrow>
      case record_release_failure release_result (status, en) of (status, en) \<Rightarrow>
      let status = status\<lparr>xs_state := state, xs_error := primary_error,
                          xs_available := \<not> en_unavailable en\<rparr>
      in case call_now_ms ops en of (now, en) \<Rightarrow>
      case publish_and_reset ops
          (status\<lparr>xs_completed_ms := now, xs_current_action := CURRENT_ACTION_NONE\<rparr>) en of
        (publish_result, reset_result, en) \<Rightarrow>
          (if publish_result \<noteq> APP_ERROR_NONE then publish_result else reset_result, en))"

text \<open>\<open>None\<close>: keep going (the C function returns true); \<open>Some r\<close>: return \<open>r\<close>.\<close>

definition publish_step ::
  "executor_ops \<Rightarrow> executor_engine \<Rightarrow> execution_status \<Rightarrow> app_error option \<times> executor_engine" where
  "publish_step ops en status =
     (case publish_status ops status en of (result, en) \<Rightarrow>
        if result = APP_ERROR_NONE then (None, en)
        else case finish_execution ops (en_log Plan_Free_Event en) status EXECUTION_FAILED result of
          (finish_result, en) \<Rightarrow>
            (Some (if finish_result \<noteq> APP_ERROR_NONE then finish_result else result), en))"

definition finish_submission_failure ::
  "executor_ops \<Rightarrow> executor_engine \<Rightarrow> execution_request \<Rightarrow> app_error \<Rightarrow>
   app_error \<times> executor_engine" where
  "finish_submission_failure ops en request primary_error =
     (case call_now_ms ops en of (now, en) \<Rightarrow>
      let status =
        \<lparr>xs_state = EXECUTION_FAILED, xs_error = primary_error,
         xs_release_error = APP_ERROR_NONE, xs_execution_id = rq_execution_id request,
         xs_set_id = rq_set_id request, xs_macro_id = rq_macro_id request,
         xs_macro_revision = rq_macro_revision request, xs_action_index = 0,
         xs_action_count = length (mp_actions (rq_plan request)), xs_available = True,
         xs_cancellation_requested = False, xs_accepted_ms = rq_accepted_ms request,
         xs_started_ms = 0, xs_completed_ms = now, xs_current_action = CURRENT_ACTION_NONE\<rparr>
      in case call_usb_release_all ops en of (release_result, en) \<Rightarrow>
      case record_release_failure release_result (status, en) of (status, en) \<Rightarrow>
      case publish_and_reset ops (status\<lparr>xs_available := \<not> en_unavailable en\<rparr>) en of
        (publish_result, reset_result, en) \<Rightarrow> (primary_error, en))"

section \<open>The engine interface\<close>

text \<open>\<open>memset\<close> followed by the initial assignments.\<close>

definition macro_executor_engine_init :: executor_engine where
  "macro_executor_engine_init =
     \<lparr>en_status =
        \<lparr>xs_state = EXECUTION_IDLE, xs_error = APP_ERROR_NONE, xs_release_error = APP_ERROR_NONE,
         xs_execution_id = [], xs_set_id = [], xs_macro_id = [], xs_macro_revision = 0,
         xs_action_index = 0, xs_action_count = 0, xs_available = True,
         xs_cancellation_requested = False, xs_accepted_ms = 0, xs_started_ms = 0,
         xs_completed_ms = 0, xs_current_action = CURRENT_ACTION_NONE\<rparr>,
      en_busy = False, en_cancellation_requested = False, en_confirmed_requested = False,
      en_unavailable = False, en_release_fault_error = APP_ERROR_NONE, en_deadline = 0,
      en_events = []\<rparr>"

definition macro_executor_engine_submit ::
  "executor_ops \<Rightarrow> executor_engine \<Rightarrow> execution_request \<Rightarrow>
   app_error \<times> execution_request \<times> executor_engine" where
  "macro_executor_engine_submit ops en request =
     (if en_unavailable en then (APP_ERROR_INTERNAL, request, en)
      else if validate_request request \<noteq> APP_ERROR_NONE
      then (validate_request request, request, en)
      else case call_now_ms ops en of (now, en) \<Rightarrow>
      let request = request\<lparr>rq_accepted_ms := now\<rparr> in
      case call_usb_ready ops en of (ready, en) \<Rightarrow>
        if \<not> ready then (APP_ERROR_USB_NOT_READY, request, en)
        else case lock_engine ops en of (result, en) \<Rightarrow>
        if result \<noteq> APP_ERROR_NONE then (result, request, en)
        else if en_busy en
        then case unlock_engine ops en of (unlocked, en) \<Rightarrow>
          (if unlocked = APP_ERROR_NONE then APP_ERROR_EXECUTOR_BUSY else APP_ERROR_INTERNAL,
           request, en)
        else case unlock_engine ops
            (en\<lparr>en_busy := True, en_cancellation_requested := False,
                en_confirmed_requested := False\<rparr>) of (result, en) \<Rightarrow>
        if result \<noteq> APP_ERROR_NONE
        then case finish_submission_failure ops en request result of (e, en) \<Rightarrow> (e, request, en)
        else case call_queue_send ops request en of (sent, en) \<Rightarrow>
        if \<not> sent
        then case finish_submission_failure ops en request APP_ERROR_INTERNAL of
          (e, en) \<Rightarrow> (e, request, en)
        else (APP_ERROR_NONE, request\<lparr>rq_plan := v2_cleared_plan\<rparr>, en))"

text \<open>\<open>cancel\<close> and \<open>confirm\<close> are the same code around their critical section.\<close>

definition run_section ::
  "executor_ops \<Rightarrow> external_call \<Rightarrow> executor_engine \<Rightarrow> app_error \<times> executor_engine" where
  "run_section ops x en =
     (if en_unavailable en then (APP_ERROR_INTERNAL, en)
      else case lock_engine ops en of (result, en) \<Rightarrow>
      if result \<noteq> APP_ERROR_NONE then (result, en)
      else case external_section x en of (answer, en) \<Rightarrow>
      case unlock_engine ops en of (result, en) \<Rightarrow>
        if answer \<noteq> APP_ERROR_NONE
        then (if result = APP_ERROR_NONE then answer else APP_ERROR_INTERNAL, en)
        else if result \<noteq> APP_ERROR_NONE then (result, en)
        else (APP_ERROR_NONE, en_log Notify_Event en))"

definition macro_executor_engine_cancel ::
  "executor_ops \<Rightarrow> executor_engine \<Rightarrow> app_error \<times> executor_engine" where
  "macro_executor_engine_cancel ops en = run_section ops Cancel_Call en"

definition macro_executor_engine_confirm ::
  "executor_ops \<Rightarrow> executor_engine \<Rightarrow> app_error \<times> executor_engine" where
  "macro_executor_engine_confirm ops en = run_section ops Confirm_Call en"

definition macro_executor_engine_get_status ::
  "executor_ops \<Rightarrow> executor_engine \<Rightarrow> execution_status \<times> executor_engine" where
  "macro_executor_engine_get_status ops en =
     (let release_fault = en_release_fault_error en;
          failed =
            (en_status macro_executor_engine_init)
              \<lparr>xs_state := EXECUTION_FAILED, xs_error := APP_ERROR_INTERNAL,
               xs_available := \<not> en_unavailable en, xs_release_error := release_fault\<rparr>
      in case lock_engine ops en of (result, en) \<Rightarrow>
        if result \<noteq> APP_ERROR_NONE then (failed, en)
        else
          let st = (en_status en)\<lparr>xs_available := \<not> en_unavailable en\<rparr>;
              st = (if xs_release_error st = APP_ERROR_NONE
                    then st\<lparr>xs_release_error := release_fault\<rparr> else st);
              st = st\<lparr>xs_cancellation_requested := en_cancellation_requested en\<rparr>
          in case unlock_engine ops en of (result, en) \<Rightarrow>
            (if result \<noteq> APP_ERROR_NONE
             then st\<lparr>xs_state := EXECUTION_FAILED, xs_error := APP_ERROR_INTERNAL\<rparr> else st, en))"

section \<open>Executing a plan\<close>

definition execute_action ::
  "executor_ops \<Rightarrow> macro_action \<Rightarrow> u32 \<Rightarrow> u32 \<Rightarrow> execution_status \<times> executor_engine \<Rightarrow>
   app_error \<times> execution_status \<times> executor_engine" where
  "execute_action ops action key_press_ms inter_key_ms p =
     (case p of (status, en) \<Rightarrow>
      if ma_type action = MACRO_ACTION_DELAY
      then case cancellable_delay ops (ma_delay_ms action) en of (result, en) \<Rightarrow>
        (result, status, en)
      else
        case call_usb_press ops (ma_modifiers action) (ma_usages action) en of (result, en) \<Rightarrow>
        case (if result = APP_ERROR_NONE then cancellable_delay ops key_press_ms en
              else (result, en)) of (result, en) \<Rightarrow>
        case call_usb_release_all ops en of (release_result, en) \<Rightarrow>
        case record_release_failure release_result (status, en) of (status, en) \<Rightarrow>
        let result = (if result = APP_ERROR_NONE then release_result else result)
        in case (if result = APP_ERROR_NONE then cancellable_delay ops inter_key_ms en
                 else (result, en)) of (result, en) \<Rightarrow>
          (result, status, en))"

text \<open>The action loop of \<open>macro_executor_engine_execute\<close>, from the action at \<open>index\<close> on.\<close>

fun execute_actions ::
  "executor_ops \<Rightarrow> execution_request \<Rightarrow> nat \<Rightarrow> macro_action list \<Rightarrow>
   execution_status \<times> executor_engine \<Rightarrow> app_error \<times> execution_status \<times> executor_engine" where
  "execute_actions ops request index [] p = (APP_ERROR_NONE, p)"
| "execute_actions ops request index (action # actions) (status, en) =
     (let status = status\<lparr>xs_action_index := index,
                          xs_current_action := action_type_string (ma_type action)\<rparr>
      in case publish_status ops status en of (result, en) \<Rightarrow>
        if result \<noteq> APP_ERROR_NONE then (result, status, en)
        else case read_cancellation ops en of (result, cancelled, en) \<Rightarrow>
        if result \<noteq> APP_ERROR_NONE then (result, status, en)
        else if cancelled then (APP_ERROR_EXECUTION_CANCELLED, status, en)
        else case call_now_ms ops en of (now, en) \<Rightarrow>
        if deadline_expired now (en_deadline en) then (APP_ERROR_TIMEOUT, status, en)
        else case execute_action ops action (rq_key_press_ms request) (rq_inter_key_ms request)
            (status, en) of (result, status, en) \<Rightarrow>
        if result \<noteq> APP_ERROR_NONE then (result, status, en)
        else execute_actions ops request (index + 1) actions (status, en))"

definition terminal_state :: "app_error \<Rightarrow> execution_state" where
  "terminal_state result =
     (if result = APP_ERROR_NONE then EXECUTION_COMPLETED
      else if result = APP_ERROR_EXECUTION_CANCELLED then EXECUTION_CANCELLED
      else if result = APP_ERROR_TIMEOUT then EXECUTION_TIMED_OUT
      else EXECUTION_FAILED)"

text \<open>
  The confirmation phase; \<open>None\<close> in the answer means that execution proceeds.  Its mapping of
  an unsuccessful wait to a terminal state is the one above without the first case.
\<close>

definition run_confirmation_phase ::
  "executor_ops \<Rightarrow> execution_status \<times> executor_engine \<Rightarrow>
   (app_error option \<times> execution_status \<times> executor_engine) option" where
  "run_confirmation_phase ops p =
     (case p of (status, en) \<Rightarrow>
      case await_confirmation ops en of
        None \<Rightarrow> None
      | Some (confirm_result, en) \<Rightarrow>
          if confirm_result = APP_ERROR_NONE
          then let status = status\<lparr>xs_state := EXECUTION_RUNNING\<rparr>
               in case publish_step ops en status of (out, en) \<Rightarrow> Some (out, status, en)
          else case finish_execution ops (en_log Plan_Free_Event en) status
              (terminal_state confirm_result) confirm_result of
            (finish_result, en) \<Rightarrow>
              Some (Some (if finish_result = APP_ERROR_NONE then confirm_result
                          else finish_result), status, en))"

definition initial_status :: "execution_request \<Rightarrow> execution_status" where
  "initial_status request =
     \<lparr>xs_state = (if rq_require_confirmation request then EXECUTION_AWAITING_CONFIRMATION
                  else EXECUTION_RUNNING),
      xs_error = APP_ERROR_NONE, xs_release_error = APP_ERROR_NONE,
      xs_execution_id = rq_execution_id request, xs_set_id = rq_set_id request,
      xs_macro_id = rq_macro_id request, xs_macro_revision = rq_macro_revision request,
      xs_action_index = 0, xs_action_count = length (mp_actions (rq_plan request)),
      xs_available = True, xs_cancellation_requested = False,
      xs_accepted_ms = rq_accepted_ms request, xs_started_ms = 0, xs_completed_ms = 0,
      xs_current_action = CURRENT_ACTION_NONE\<rparr>"

text \<open>From the moment no confirmation is pending: the watchdog, the loop and the clean-up.\<close>

definition execute_plan ::
  "executor_ops \<Rightarrow> execution_request \<Rightarrow> execution_status \<times> executor_engine \<Rightarrow>
   app_error \<times> executor_engine" where
  "execute_plan ops request p =
     (case p of (status, en) \<Rightarrow>
      case call_now_ms ops en of (started, en) \<Rightarrow>
      case execute_actions ops request 0 (mp_actions (rq_plan request))
          (status\<lparr>xs_started_ms := started\<rparr>,
           en\<lparr>en_deadline := started + APP_V2_EXECUTOR_ABSOLUTE_DEADLINE_MS\<rparr>) of
        (result, status, en) \<Rightarrow>
      case finish_execution ops (en_log Plan_Free_Event en) status (terminal_state result) result of
        (finish_result, en) \<Rightarrow>
          (if finish_result = APP_ERROR_NONE then result else finish_result, en))"

definition macro_executor_engine_execute ::
  "executor_ops \<Rightarrow> executor_engine \<Rightarrow> execution_request \<Rightarrow>
   (app_error \<times> executor_engine) option" where
  "macro_executor_engine_execute ops en request =
     (if validate_request request \<noteq> APP_ERROR_NONE then Some (APP_ERROR_INVALID_ARGUMENT, en)
      else
        let status = initial_status request
        in case publish_step ops en status of
          (Some r, en) \<Rightarrow> Some (r, en)
        | (None, en) \<Rightarrow>
            if \<not> rq_require_confirmation request
            then Some (execute_plan ops request (status, en))
            else case run_confirmation_phase ops (status, en) of
              None \<Rightarrow> None
            | Some (Some r, status, en) \<Rightarrow> Some (r, en)
            | Some (None, status, en) \<Rightarrow> Some (execute_plan ops request (status, en)))"

end
