(* ===== verification/Executor_Safety.thy ===== *)
theory Executor_Safety
  imports Macro_Executor
begin

text \<open>
  What the execution engine guarantees, whatever the platform behind its operations table
  answers.  The locale \<open>quiet_frame\<close> is the contract of a relation between engine states that
  every operation without an HID report respects; \<open>engine_frame\<close> extends it to press and
  release.  Each is instantiated with the relations the safety properties need, so that a
  property of a whole execution is a law about its single steps.
\<close>

section \<open>Reports sent to the host\<close>

fun is_hid :: "exec_event \<Rightarrow> bool" where
  "is_hid (Press_Event modifiers usages e) = True"
| "is_hid (Release_All_Event e) = True"
| "is_hid _ = False"

fun is_internal :: "exec_event \<Rightarrow> bool" where
  "is_internal (Press_Event modifiers usages e) = False"
| "is_internal (Release_All_Event e) = False"
| "is_internal (External_Event x answer) = False"
| "is_internal (Record_Release_Failure_Event e) = False"
| "is_internal _ = True"

abbreviation hid_trace :: "executor_engine \<Rightarrow> exec_event list" where
  "hid_trace en \<equiv> filter is_hid (en_events en)"

lemma internal_not_hid: "is_internal ev \<Longrightarrow> \<not> is_hid ev"
  by (cases ev) simp_all

lemma en_log_simps [simp]:
  "en_events (en_log ev en) = en_events en @ [ev]"
  "en_status (en_log ev en) = en_status en"
  "en_busy (en_log ev en) = en_busy en"
  "en_cancellation_requested (en_log ev en) = en_cancellation_requested en"
  "en_confirmed_requested (en_log ev en) = en_confirmed_requested en"
  "en_unavailable (en_log ev en) = en_unavailable en"
  "en_release_fault_error (en_log ev en) = en_release_fault_error en"
  "en_deadline (en_log ev en) = en_deadline en"
  by (simp_all add: en_log_def)

section \<open>Induction over the waiting loops\<close>

definition delay_slice :: "u32 \<Rightarrow> u32" where
  "delay_slice remaining =
     (if remaining > CANCELLATION_SLICE_MS then CANCELLATION_SLICE_MS else remaining)"

lemma delay_slice: "r > 0 \<Longrightarrow> unat (r - delay_slice r) + unat (delay_slice r) = unat r \<and>
    0 < unat (delay_slice r) \<and> unat (delay_slice r) \<le> 10"
  by (rule slice_bounds) (simp_all add: delay_slice_def)

lemma delay_induct [consumes 1, case_names elapsed fault cancelled expired wait_fault waited]:
  assumes "cancellable_delay ops remaining en = (r, en')"
    and "\<And>en. P 0 en APP_ERROR_NONE en"
    and "\<And>remaining en r c a. remaining > 0 \<Longrightarrow> read_cancellation ops en = (r, c, a) \<Longrightarrow>
      r \<noteq> APP_ERROR_NONE \<Longrightarrow> P remaining en r a"
    and "\<And>remaining en a. remaining > 0 \<Longrightarrow>
      read_cancellation ops en = (APP_ERROR_NONE, True, a) \<Longrightarrow>
      P remaining en APP_ERROR_EXECUTION_CANCELLED a"
    and "\<And>remaining en a t b. remaining > 0 \<Longrightarrow>
      read_cancellation ops en = (APP_ERROR_NONE, False, a) \<Longrightarrow> call_now_ms ops a = (t, b) \<Longrightarrow>
      deadline_expired t (en_deadline b) \<Longrightarrow> P remaining en APP_ERROR_TIMEOUT b"
    and "\<And>remaining en a t b r c. remaining > 0 \<Longrightarrow>
      read_cancellation ops en = (APP_ERROR_NONE, False, a) \<Longrightarrow> call_now_ms ops a = (t, b) \<Longrightarrow>
      \<not> deadline_expired t (en_deadline b) \<Longrightarrow>
      call_wait_ms ops (delay_slice remaining) b = (r, c) \<Longrightarrow> r \<noteq> APP_ERROR_NONE \<Longrightarrow>
      P remaining en r c"
    and "\<And>remaining en a t b c r en'. remaining > 0 \<Longrightarrow>
      read_cancellation ops en = (APP_ERROR_NONE, False, a) \<Longrightarrow> call_now_ms ops a = (t, b) \<Longrightarrow>
      \<not> deadline_expired t (en_deadline b) \<Longrightarrow>
      call_wait_ms ops (delay_slice remaining) b = (APP_ERROR_NONE, c) \<Longrightarrow>
      cancellable_delay ops (remaining - delay_slice remaining) c = (r, en') \<Longrightarrow>
      P (remaining - delay_slice remaining) c r en' \<Longrightarrow> P remaining en r en'"
  shows "P remaining en r en'"
  using assms(1)
proof (induction remaining arbitrary: en r en' rule: measure_induct_rule [where f = unat])
  case (less remaining)
  note step = less.prems [unfolded cancellable_delay.simps [of ops remaining en]]
  show ?case
  proof (cases "remaining > 0")
    case True
    then have "unat (remaining - delay_slice remaining) < unat remaining"
      using delay_slice [of remaining] by linarith
    from less.IH [OF this] show ?thesis
      using True step assms(3-)
      by (fastforce simp: Let_def delay_slice_def [symmetric] split: prod.splits if_splits)
  next
    case False
    then have "remaining = 0" by (simp add: word_gt_0)
    then show ?thesis
      using step assms(2) by simp
  qed
qed

lemma await_induct [consumes 1, case_names fault cancelled fault2 confirmed expired wait_fault waited]:
  assumes "await_confirmation_loop ops deadline en = Some (r, en')"
    and "\<And>en r c a. read_cancellation ops en = (r, c, a) \<Longrightarrow> r \<noteq> APP_ERROR_NONE \<Longrightarrow> P en r a"
    and "\<And>en a. read_cancellation ops en = (APP_ERROR_NONE, True, a) \<Longrightarrow>
      P en APP_ERROR_EXECUTION_CANCELLED a"
    and "\<And>en a r c b. read_cancellation ops en = (APP_ERROR_NONE, False, a) \<Longrightarrow>
      read_confirmation ops a = (r, c, b) \<Longrightarrow> r \<noteq> APP_ERROR_NONE \<Longrightarrow> P en r b"
    and "\<And>en a b. read_cancellation ops en = (APP_ERROR_NONE, False, a) \<Longrightarrow>
      read_confirmation ops a = (APP_ERROR_NONE, True, b) \<Longrightarrow> P en APP_ERROR_NONE b"
    and "\<And>en a b t c. read_cancellation ops en = (APP_ERROR_NONE, False, a) \<Longrightarrow>
      read_confirmation ops a = (APP_ERROR_NONE, False, b) \<Longrightarrow> call_now_ms ops b = (t, c) \<Longrightarrow>
      deadline_expired t deadline \<Longrightarrow> P en APP_ERROR_TIMEOUT c"
    and "\<And>en a b t c r d. read_cancellation ops en = (APP_ERROR_NONE, False, a) \<Longrightarrow>
      read_confirmation ops a = (APP_ERROR_NONE, False, b) \<Longrightarrow> call_now_ms ops b = (t, c) \<Longrightarrow>
      call_wait_ms ops CANCELLATION_SLICE_MS c = (r, d) \<Longrightarrow> r \<noteq> APP_ERROR_NONE \<Longrightarrow> P en r d"
    and "\<And>en a b t c d r en'. read_cancellation ops en = (APP_ERROR_NONE, False, a) \<Longrightarrow>
      read_confirmation ops a = (APP_ERROR_NONE, False, b) \<Longrightarrow> call_now_ms ops b = (t, c) \<Longrightarrow>
      call_wait_ms ops CANCELLATION_SLICE_MS c = (APP_ERROR_NONE, d) \<Longrightarrow> P d r en' \<Longrightarrow> P en r en'"
  shows "P en r en'"
proof -
  have "ops' = ops \<longrightarrow> deadline' = deadline \<longrightarrow> (\<forall>r en'. y = (r, en') \<longrightarrow> P en r en')"
    if "await_confirmation_loop ops' deadline' en = Some y" for ops' deadline' en y
    using that
  proof (induction rule: await_confirmation_loop.raw_induct [rotated, consumes 1, case_names step])
    case (step loop ops' deadline' en y)
    show ?case
    proof (intro impI allI)
      fix r en'
      assume eq: "ops' = ops" "deadline' = deadline" "y = (r, en')"
      obtain r1 c1 a where rd: "read_cancellation ops en = (r1, c1, a)"
        by (metis prod.exhaust)
      obtain r2 c2 b where cf: "read_confirmation ops a = (r2, c2, b)"
        by (metis prod.exhaust)
      obtain t c where nw: "call_now_ms ops b = (t, c)"
        by (metis prod.exhaust)
      obtain r3 d where wt: "call_wait_ms ops CANCELLATION_SLICE_MS c = (r3, d)"
        by (metis prod.exhaust)
      note body = step(2) [unfolded eq rd cf nw wt prod.case]
      consider "r1 \<noteq> APP_ERROR_NONE" | "r1 = APP_ERROR_NONE" c1
        | "r1 = APP_ERROR_NONE" "\<not> c1" "r2 \<noteq> APP_ERROR_NONE"
        | "r1 = APP_ERROR_NONE" "\<not> c1" "r2 = APP_ERROR_NONE" c2
        | "r1 = APP_ERROR_NONE" "\<not> c1" "r2 = APP_ERROR_NONE" "\<not> c2" "deadline_expired t deadline"
        | "r1 = APP_ERROR_NONE" "\<not> c1" "r2 = APP_ERROR_NONE" "\<not> c2"
          "\<not> deadline_expired t deadline" "r3 \<noteq> APP_ERROR_NONE"
        | "r1 = APP_ERROR_NONE" "\<not> c1" "r2 = APP_ERROR_NONE" "\<not> c2"
          "\<not> deadline_expired t deadline" "r3 = APP_ERROR_NONE"
        by blast
      then show "P en r en'"
      proof cases
        case 7
        then have "P d r en'"
          using body step(1) by auto
        then show ?thesis
          using 7 rd cf nw wt assms(8) by simp
      qed (use body eq rd cf nw wt assms(2-7) [of en] in auto)
    qed
  qed
  then show ?thesis
    using assms(1) by blast
qed

section \<open>Frames of the operations without a report\<close>

locale quiet_frame =
  fixes R :: "executor_engine \<Rightarrow> executor_engine \<Rightarrow> bool"
  assumes refl: "R en en"
    and trans: "R a b \<Longrightarrow> R b c \<Longrightarrow> R a c"
    and internal: "is_internal ev \<Longrightarrow> R en (en_log ev en)"
    and external: "R en (apply_external x en)"
    and status: "R en (en\<lparr>en_status := st\<rparr>)"
    and reset: "R en (en\<lparr>en_busy := False, en_cancellation_requested := False,
      en_confirmed_requested := False\<rparr>)"
    and latch: "R en (en\<lparr>en_unavailable := True\<rparr>)"
begin

lemma externals: "R en (fold apply_external xs en)"
  by (induction xs arbitrary: en) (auto intro: refl trans [OF external])

lemma lock: "lock_engine ops en = (r, en') \<Longrightarrow> R en en'"
  using internal [of "Lock_Event True" en] internal [of "Lock_Event False" en] externals
  by (auto simp: lock_engine_def intro: trans split: if_splits)

lemma unlock: "unlock_engine ops en = (r, en') \<Longrightarrow> R en en'"
  by (auto simp: op_call_defs intro: internal)

lemma now: "call_now_ms ops en = (t, en') \<Longrightarrow> R en en'"
  by (auto simp: op_call_defs intro: internal)

lemma wait: "call_wait_ms ops ms en = (r, en') \<Longrightarrow> R en en'"
  by (auto simp: op_call_defs intro: internal)

lemma publish: "publish_status ops st en = (r, en') \<Longrightarrow> R en en'"
  by (auto simp: publish_status_def split: prod.splits if_splits
      dest!: lock unlock intro: trans [OF _ trans [OF status]])

lemma read_cancellation: "read_cancellation ops en = (r, c, en') \<Longrightarrow> R en en'"
  by (auto simp: read_cancellation_def Let_def split: prod.splits if_splits
      dest!: lock unlock intro: trans)

lemma read_confirmation: "read_confirmation ops en = (r, c, en') \<Longrightarrow> R en en'"
  by (auto simp: read_confirmation_def Let_def split: prod.splits if_splits
      dest!: lock unlock intro: trans)

lemma reset_flags: "reset_terminal_flags ops en = (r, en') \<Longrightarrow> R en en'"
  by (auto simp: reset_terminal_flags_def split: prod.splits if_splits
      dest!: lock unlock intro: trans [OF _ trans [OF reset]])

lemma publish_and_reset: "publish_and_reset ops st en = (p, r, en') \<Longrightarrow> R en en'"
  by (auto simp: publish_and_reset_def split: prod.splits if_splits
      dest!: publish reset_flags intro: trans [OF _ trans [OF _ latch]] trans)

lemma delay: "cancellable_delay ops remaining en = (r, en') \<Longrightarrow> R en en'"
  by (induction rule: delay_induct)
    (blast intro: refl trans dest: read_cancellation now wait)+

lemma await_loop: "await_confirmation_loop ops deadline en = Some (r, en') \<Longrightarrow> R en en'"
  by (induction rule: await_induct)
    (blast intro: trans dest: read_cancellation read_confirmation now wait)+

lemma await: "await_confirmation ops en = Some (r, en') \<Longrightarrow> R en en'"
  by (auto simp: await_confirmation_def split: prod.splits dest!: now await_loop intro: trans)

end

section \<open>Frames of a whole execution\<close>

locale engine_frame = quiet_frame +
  assumes press: "R en (en_log (Press_Event modifiers usages e) en)"
    and release: "record_release_failure e (st, en_log (Release_All_Event e) en) = (st', en') \<Longrightarrow>
      R en en'"
    and deadline: "R en (en\<lparr>en_deadline := d\<rparr>)"
    and claim: "R en (en\<lparr>en_busy := True, en_cancellation_requested := False,
      en_confirmed_requested := False\<rparr>)"
begin

lemma usb_release:
  "call_usb_release_all ops en = (e, a) \<Longrightarrow> record_release_failure e (st, a) = (st', b) \<Longrightarrow> R en b"
  by (auto simp: op_call_defs intro: release)

lemma usb_press: "call_usb_press ops modifiers usages en = (e, a) \<Longrightarrow> R en a"
  by (auto simp: op_call_defs intro: press)

lemma finish: "finish_execution ops en st state e = (r, en') \<Longrightarrow> R en en'"
  by (auto simp: finish_execution_def Let_def split: prod.splits
      dest!: usb_release now publish_and_reset intro: trans)

lemma finish_freed:
  "finish_execution ops (en_log Plan_Free_Event en) st state e = (r, en') \<Longrightarrow> R en en'"
  by (rule trans [OF internal finish]) simp_all

lemma finish_submission: "finish_submission_failure ops en request e = (r, en') \<Longrightarrow> R en en'"
  by (auto simp: finish_submission_failure_def Let_def split: prod.splits
      dest!: usb_release now publish_and_reset intro: trans)

lemma step: "publish_step ops en st = (r, en') \<Longrightarrow> R en en'"
  by (auto simp: publish_step_def split: prod.splits if_splits
      dest!: publish finish_freed intro: trans)

lemma action:
  assumes "execute_action ops action press_ms gap_ms (st, en) = (r, st', en')"
  shows "R en en'"
proof (cases "ma_type action = MACRO_ACTION_DELAY")
  case True
  then show ?thesis
    using assms by (auto simp: execute_action_def split: prod.splits dest: delay)
next
  case False
  obtain r1 a where p: "call_usb_press ops (ma_modifiers action) (ma_usages action) en = (r1, a)"
    by (metis prod.exhaust)
  obtain r2 b where d:
    "(if r1 = APP_ERROR_NONE then cancellable_delay ops press_ms a else (r1, a)) = (r2, b)"
    by (metis prod.exhaust)
  obtain e c where rl: "call_usb_release_all ops b = (e, c)"
    by (metis prod.exhaust)
  obtain st2 f where rc: "record_release_failure e (st, c) = (st2, f)"
    by (metis prod.exhaust)
  have "R en a" "R a b" "R b f"
    using usb_press [OF p] d delay refl usb_release [OF rl rc] by (auto split: if_splits)
  then have "R en f"
    by (blast intro: trans)
  moreover have "R f en'"
    using assms False p d rl rc refl
    by (auto simp: execute_action_def Let_def split: prod.splits if_splits dest: delay)
  ultimately show ?thesis
    by (rule trans)
qed

lemma actions: "execute_actions ops request index as (st, en) = (r, st', en') \<Longrightarrow> R en en'"
proof (induction ops request index as "(st, en)" arbitrary: st en rule: execute_actions.induct)
  case (2 ops request index a as st en)
  obtain r1 e1 where p: "publish_status ops (st\<lparr>xs_action_index := index,
      xs_current_action := action_type_string (ma_type a)\<rparr>) en = (r1, e1)"
    by (metis prod.exhaust)
  obtain r2 c e2 where rd: "read_cancellation ops e1 = (r2, c, e2)"
    by (metis prod.exhaust)
  obtain t e3 where nw: "call_now_ms ops e2 = (t, e3)"
    by (metis prod.exhaust)
  obtain r4 st4 e4 where ac: "execute_action ops a (rq_key_press_ms request)
      (rq_inter_key_ms request) (st\<lparr>xs_action_index := index,
      xs_current_action := action_type_string (ma_type a)\<rparr>, e3) = (r4, st4, e4)"
    by (metis prod.exhaust)
  have R: "R en e1" "R e1 e2" "R e2 e3" "R e3 e4"
    using publish [OF p] read_cancellation [OF rd] now [OF nw] action [OF ac] .
  then have mid: "R en e2" "R en e3" "R en e4"
    by (blast intro: trans)+
  show ?case
    using 2 p rd nw ac R(1) mid
    by (auto simp: Let_def split: if_splits intro: trans [OF mid(3)])
qed (simp add: refl)

lemma armed_actions:
  "execute_actions ops request index as (st, en\<lparr>en_deadline := d\<rparr>) = (r, st', en') \<Longrightarrow> R en en'"
  by (rule trans [OF deadline actions])

lemma plan: "execute_plan ops request (st, en) = (r, en') \<Longrightarrow> R en en'"
  by (auto simp: execute_plan_def split: prod.splits dest!: now armed_actions finish_freed
      intro: trans)

lemma confirmation:
  "run_confirmation_phase ops (st, en) = Some (out, st', en') \<Longrightarrow> R en en'"
  by (auto simp: run_confirmation_phase_def Let_def split: prod.splits option.splits if_splits
      dest!: await step finish_freed intro: trans)

lemma execute: "macro_executor_engine_execute ops en request = Some (r, en') \<Longrightarrow> R en en'"
  by (auto simp: macro_executor_engine_execute_def Let_def refl
      split: prod.splits option.splits if_splits
      dest!: step plan confirmation intro: trans)

lemma submit:
  assumes "macro_executor_engine_submit ops en request = (r, request', en')"
  shows "R en en'"
proof -
  have ready: "call_usb_ready ops a = (x, b) \<Longrightarrow> R a b" for a b x
    by (auto simp: op_call_defs intro: internal)
  have send: "call_queue_send ops rq a = (x, b) \<Longrightarrow> R a b" for a b x rq
    by (auto simp: op_call_defs intro: internal)
  obtain t a where nw: "call_now_ms ops en = (t, a)"
    by (metis prod.exhaust)
  obtain x b where rd: "call_usb_ready ops a = (x, b)"
    by (metis prod.exhaust)
  obtain l c where lk: "lock_engine ops b = (l, c)"
    by (metis prod.exhaust)
  let ?claimed = "c\<lparr>en_busy := True, en_cancellation_requested := False,
      en_confirmed_requested := False\<rparr>"
  obtain u d where ul: "unlock_engine ops ?claimed = (u, d)"
    by (metis prod.exhaust)
  obtain u' d' where ul': "unlock_engine ops c = (u', d')"
    by (metis prod.exhaust)
  have R: "R en a" "R a b" "R b c" "R c ?claimed" "R ?claimed d" "R c d'"
    using now [OF nw] ready [OF rd] lock [OF lk] claim unlock [OF ul] unlock [OF ul'] .
  then have "R en b" "R en c" "R en d" "R en d'"
    by (blast intro: trans)+
  then show ?thesis
    using assms nw rd lk ul ul' refl R
    by (auto simp: macro_executor_engine_submit_def Let_def split: if_splits prod.splits
        dest!: send finish_submission intro: trans)
qed

end

text \<open>Operations without a report leave the trace of reports alone.\<close>

lemma external_section_keeps:
  "external_section x en = (answer, en') \<Longrightarrow>
   en_events en' = en_events en \<and> en_unavailable en' = en_unavailable en \<and>
   en_release_fault_error en' = en_release_fault_error en \<and> en_status en' = en_status en \<and>
   en_busy en' = en_busy en"
  by (cases x) (auto simp: cancel_section_def confirm_section_def split: if_splits)

interpretation hid_quiet: quiet_frame "\<lambda>a b. hid_trace b = hid_trace a"
  by unfold_locales (auto simp: apply_external_def internal_not_hid split: prod.splits dest: external_section_keeps)

text \<open>A recorded confirmation comes from a call of \<open>macro_executor_engine_confirm\<close>.\<close>

definition confirmation_from :: "executor_engine \<Rightarrow> executor_engine \<Rightarrow> bool" where
  "confirmation_from a b \<longleftrightarrow>
     (\<exists>evs. en_events b = en_events a @ evs \<and>
        (en_confirmed_requested b \<longrightarrow>
         en_confirmed_requested a \<or> External_Event Confirm_Call APP_ERROR_NONE \<in> set evs))"

lemma external_section_confirms:
  "external_section x en = (answer, en') \<Longrightarrow>
   en_events en' = en_events en \<and>
   (en_confirmed_requested en' \<longrightarrow>
    en_confirmed_requested en \<or> x = Confirm_Call \<and> answer = APP_ERROR_NONE)"
  by (cases x) (auto simp: cancel_section_def confirm_section_def split: if_splits)

interpretation confirm_quiet: quiet_frame confirmation_from
  by unfold_locales
    (auto simp: confirmation_from_def apply_external_def split: prod.splits
      dest!: external_section_confirms)

text \<open>Nothing is ever forgotten: availability is only lost, and the history only grows.\<close>

interpretation availability: engine_frame "\<lambda>a b. en_unavailable a \<longrightarrow> en_unavailable b"
  by unfold_locales
    (auto simp: apply_external_def record_release_failure_def split: if_splits prod.splits
      dest: external_section_keeps)

text \<open>A failed release-all is latched in the engine.\<close>

definition release_fault_latched :: "executor_engine \<Rightarrow> bool" where
  "release_fault_latched en \<longleftrightarrow>
     (\<forall>e. Release_All_Event e \<in> set (en_events en) \<longrightarrow> e \<noteq> APP_ERROR_NONE \<longrightarrow>
        en_unavailable en \<and> en_release_fault_error en \<noteq> APP_ERROR_NONE)"

interpretation release_latch: engine_frame "\<lambda>a b. release_fault_latched a \<longrightarrow> release_fault_latched b"
  by unfold_locales
    (auto simp: release_fault_latched_def apply_external_def record_release_failure_def
      split: if_splits prod.splits dest: external_section_keeps)

section \<open>What a plan types\<close>

fun keystrokes :: "macro_action list \<Rightarrow> exec_event list" where
  "keystrokes [] = []"
| "keystrokes (a # as) =
     (if ma_type a = MACRO_ACTION_DELAY then []
      else [Press_Event (ma_modifiers a) (ma_usages a) APP_ERROR_NONE,
            Release_All_Event APP_ERROR_NONE]) @ keystrokes as"

text \<open>
  \<open>typed_run actions trace e\<close>: the loop over \<open>actions\<close> sent the reports \<open>trace\<close> and ended with
  \<open>e\<close>.  Every press is followed by a release-all before anything else is sent, and a fault
  leaves the rest of the actions untyped.
\<close>

inductive typed_run :: "macro_action list \<Rightarrow> exec_event list \<Rightarrow> app_error \<Rightarrow> bool" where
  run_done: "typed_run [] [] APP_ERROR_NONE"
| run_stop: "e \<noteq> APP_ERROR_NONE \<Longrightarrow> typed_run as [] e"
| run_delay: "ma_type a = MACRO_ACTION_DELAY \<Longrightarrow> typed_run as t e \<Longrightarrow> typed_run (a # as) t e"
| run_key: "ma_type a \<noteq> MACRO_ACTION_DELAY \<Longrightarrow> typed_run as t e \<Longrightarrow>
    typed_run (a # as)
      ([Press_Event (ma_modifiers a) (ma_usages a) APP_ERROR_NONE,
        Release_All_Event APP_ERROR_NONE] @ t) e"
| run_key_stop: "ma_type a \<noteq> MACRO_ACTION_DELAY \<Longrightarrow> e \<noteq> APP_ERROR_NONE \<Longrightarrow>
    typed_run (a # as)
      [Press_Event (ma_modifiers a) (ma_usages a) pressed, Release_All_Event released] e"

inductive_cases typed_run_okE: "typed_run as t APP_ERROR_NONE"

lemma typed_run_complete: "typed_run as t e \<Longrightarrow> e = APP_ERROR_NONE \<Longrightarrow> t = keystrokes as"
  by (induction rule: typed_run.induct) simp_all

lemma action_trace:
  assumes "execute_action ops a press_ms gap_ms (st, en) = (r, st', en')"
  shows "if ma_type a = MACRO_ACTION_DELAY then hid_trace en' = hid_trace en
    else \<exists>p q. hid_trace en' = hid_trace en @
        [Press_Event (ma_modifiers a) (ma_usages a) p, Release_All_Event q] \<and>
      (r = APP_ERROR_NONE \<longrightarrow> p = APP_ERROR_NONE \<and> q = APP_ERROR_NONE)"
proof (cases "ma_type a = MACRO_ACTION_DELAY")
  case True
  then show ?thesis
    using assms by (auto simp: execute_action_def split: prod.splits dest: hid_quiet.delay)
next
  case False
  obtain p b where pr: "call_usb_press ops (ma_modifiers a) (ma_usages a) en = (p, b)"
    by (metis prod.exhaust)
  obtain r2 c where d:
    "(if p = APP_ERROR_NONE then cancellable_delay ops press_ms b else (p, b)) = (r2, c)"
    by (metis prod.exhaust)
  obtain q f where rl: "call_usb_release_all ops c = (q, f)"
    by (metis prod.exhaust)
  obtain st2 g where rc: "record_release_failure q (st, f) = (st2, g)"
    by (metis prod.exhaust)
  have "hid_trace b = hid_trace en @ [Press_Event (ma_modifiers a) (ma_usages a) p]"
    using pr by (auto simp: op_call_defs)
  moreover have "hid_trace c = hid_trace b" "r2 = APP_ERROR_NONE \<longrightarrow> p = APP_ERROR_NONE"
    using d by (auto split: if_splits dest: hid_quiet.delay)
  moreover have "hid_trace g = hid_trace c @ [Release_All_Event q]"
    using rl rc by (auto simp: op_call_defs record_release_failure_def split: if_splits)
  moreover have "hid_trace en' = hid_trace g"
    "r = APP_ERROR_NONE \<longrightarrow> r2 = APP_ERROR_NONE \<and> q = APP_ERROR_NONE"
    using assms False pr d rl rc
    by (auto simp: execute_action_def Let_def split: prod.splits if_splits dest: hid_quiet.delay)
  ultimately show ?thesis
    using False by simp
qed

lemma actions_trace:
  "execute_actions ops request index as (st, en) = (r, st', en') \<Longrightarrow>
   \<exists>t. hid_trace en' = hid_trace en @ t \<and> typed_run as t r"
proof (induction ops request index as "(st, en)" arbitrary: st en rule: execute_actions.induct)
  case (2 ops request index a as st en)
  let ?st = "st\<lparr>xs_action_index := index,
      xs_current_action := action_type_string (ma_type a)\<rparr>"
  obtain r1 e1 where p: "publish_status ops ?st en = (r1, e1)"
    by (metis prod.exhaust)
  obtain r2 c e2 where rd: "read_cancellation ops e1 = (r2, c, e2)"
    by (metis prod.exhaust)
  obtain t e3 where nw: "call_now_ms ops e2 = (t, e3)"
    by (metis prod.exhaust)
  obtain r4 st4 e4 where ac: "execute_action ops a (rq_key_press_ms request)
      (rq_inter_key_ms request) (?st, e3) = (r4, st4, e4)"
    by (metis prod.exhaust)
  note quiet = hid_quiet.publish [OF p] hid_quiet.read_cancellation [OF rd] hid_quiet.now [OF nw]
  have stop: ?case if "hid_trace en' = hid_trace en" "r \<noteq> APP_ERROR_NONE"
    using that run_stop by auto
  consider "r1 \<noteq> APP_ERROR_NONE" | "r1 = APP_ERROR_NONE" "r2 \<noteq> APP_ERROR_NONE \<or> c"
    | "r1 = APP_ERROR_NONE" "r2 = APP_ERROR_NONE" "\<not> c" "deadline_expired t (en_deadline e3)"
    | (act) "r1 = APP_ERROR_NONE" "r2 = APP_ERROR_NONE" "\<not> c" "\<not> deadline_expired t (en_deadline e3)"
    by blast
  then show ?case
  proof cases
    case act
    show ?thesis
    proof (cases "r4 = APP_ERROR_NONE")
      case True
      then have "execute_actions ops request (index + 1) as (st4, e4) = (r, st', en')"
        using 2(2) p rd nw ac act by simp
      moreover from this obtain t' where "hid_trace en' = hid_trace e4 @ t'" "typed_run as t' r"
        using 2(1) p rd nw ac act True by fastforce
      ultimately show ?thesis
        using action_trace [OF ac] quiet True run_delay [of a as t' r] run_key [of a as t' r]
        by (auto split: if_splits)
    next
      case False
      then have "r = r4" "en' = e4"
        using 2(2) p rd nw ac act by simp_all
      then show ?thesis
        using action_trace [OF ac] quiet False run_stop [of r "a # as"] run_key_stop [of a r as]
        by (auto split: if_splits)
    qed
  qed (use 2(2) p rd nw quiet stop in \<open>auto simp: Let_def split: if_splits\<close>)
qed (auto intro: run_done)

section \<open>Terminal states\<close>

lemma externals_keep [simp]:
  "en_status (fold apply_external xs en) = en_status en"
  "en_busy (fold apply_external xs en) = en_busy en"
  "en_unavailable (fold apply_external xs en) = en_unavailable en"
  "en_release_fault_error (fold apply_external xs en) = en_release_fault_error en"
  by (induction xs arbitrary: en;
      auto simp: apply_external_def split: prod.splits dest: external_section_keeps)+

lemma lock_result: "lock_engine ops en = (r, a) \<Longrightarrow> r = APP_ERROR_NONE \<or> r = APP_ERROR_INTERNAL"
  by (auto simp: lock_engine_def split: if_splits)

lemma unlock_result: "unlock_engine ops en = (r, a) \<Longrightarrow> r = APP_ERROR_NONE \<or> r = APP_ERROR_INTERNAL"
  by (auto simp: op_call_defs split: if_splits)

lemma lock_keeps:
  "lock_engine ops en = (r, a) \<Longrightarrow> en_status a = en_status en \<and> en_busy a = en_busy en \<and>
    en_unavailable a = en_unavailable en"
  by (auto simp: lock_engine_def split: if_splits)

lemma unlock_keeps:
  "unlock_engine ops en = (r, a) \<Longrightarrow> en_status a = en_status en \<and> en_busy a = en_busy en \<and>
    en_unavailable a = en_unavailable en \<and>
    en_cancellation_requested a = en_cancellation_requested en \<and>
    en_confirmed_requested a = en_confirmed_requested en"
  by (auto simp: op_call_defs)

lemma publish_result:
  "publish_status ops st en = (r, a) \<Longrightarrow> r = APP_ERROR_NONE \<or> r = APP_ERROR_INTERNAL"
  by (auto simp: publish_status_def split: prod.splits if_splits dest: lock_result unlock_result)

lemma publish_keeps: "publish_status ops st en = (r, a) \<Longrightarrow> en_unavailable a = en_unavailable en"
  by (auto simp: publish_status_def split: prod.splits if_splits dest!: lock_keeps unlock_keeps)

lemma publish_and_reset_result:
  assumes "publish_and_reset ops st en = (p, r, b)"
  shows "(p \<noteq> APP_ERROR_NONE \<or> r \<noteq> APP_ERROR_NONE \<longrightarrow> en_unavailable b) \<and>
    (\<not> en_unavailable b \<longrightarrow> en_status b = st \<and> \<not> en_busy b \<and> \<not> en_cancellation_requested b \<and>
      \<not> en_confirmed_requested b)"
proof -
  obtain a where pub: "publish_status ops st en = (p, a)"
    using assms by (auto simp: publish_and_reset_def split: prod.splits)
  obtain a' where rst: "reset_terminal_flags ops a = (r, a')"
    using assms pub by (auto simp: publish_and_reset_def split: prod.splits)
  have "p = APP_ERROR_NONE \<longrightarrow> en_status a = st"
    using pub by (auto simp: publish_status_def split: prod.splits if_splits dest: unlock_keeps)
  moreover have "r = APP_ERROR_NONE \<longrightarrow> en_status a' = en_status a \<and> \<not> en_busy a' \<and>
      \<not> en_cancellation_requested a' \<and> \<not> en_confirmed_requested a'"
    using rst
    by (auto simp: reset_terminal_flags_def split: prod.splits if_splits
        dest!: unlock_keeps lock_keeps)
  moreover have "b = (if p \<noteq> APP_ERROR_NONE \<or> r \<noteq> APP_ERROR_NONE
      then a'\<lparr>en_unavailable := True\<rparr> else a')"
    using assms pub rst by (auto simp: publish_and_reset_def)
  ultimately show ?thesis by auto
qed

text \<open>The engine is at rest after an execution that ended in \<open>state\<close> with \<open>e\<close>.\<close>

definition settled :: "executor_engine \<Rightarrow> execution_state \<Rightarrow> app_error \<Rightarrow> bool" where
  "settled en state e \<longleftrightarrow>
     \<not> en_busy en \<and> \<not> en_cancellation_requested en \<and> \<not> en_confirmed_requested en \<and>
     xs_state (en_status en) = state \<and> xs_error (en_status en) = e \<and>
     xs_current_action (en_status en) = CURRENT_ACTION_NONE"

lemma finish_result:
  assumes "finish_execution ops en st state e = (r, en')"
  shows "\<exists>q. hid_trace en' = hid_trace en @ [Release_All_Event q] \<and>
    (q \<noteq> APP_ERROR_NONE \<or> r \<noteq> APP_ERROR_NONE \<longrightarrow> en_unavailable en') \<and>
    (\<not> en_unavailable en' \<longrightarrow> settled en' state e)"
proof -
  obtain q a where rl: "call_usb_release_all ops en = (q, a)"
    by (metis prod.exhaust)
  obtain st2 b where rc: "record_release_failure q (st, a) = (st2, b)"
    by (metis prod.exhaust)
  obtain t c where nw: "call_now_ms ops b = (t, c)"
    by (metis prod.exhaust)
  let ?st = "st2\<lparr>xs_state := state, xs_error := e, xs_available := \<not> en_unavailable b,
      xs_completed_ms := t, xs_current_action := CURRENT_ACTION_NONE\<rparr>"
  obtain p s where pr: "publish_and_reset ops ?st c = (p, s, en')"
    and r: "r = (if p \<noteq> APP_ERROR_NONE then p else s)"
    using assms rl rc nw by (auto simp: finish_execution_def Let_def split: prod.splits)
  have "hid_trace b = hid_trace en @ [Release_All_Event q]"
    "q \<noteq> APP_ERROR_NONE \<longrightarrow> en_unavailable b"
    using rl rc by (auto simp: op_call_defs record_release_failure_def split: if_splits)
  moreover have "hid_trace en' = hid_trace b" "en_unavailable b \<longrightarrow> en_unavailable en'"
    using hid_quiet.now [OF nw] hid_quiet.publish_and_reset [OF pr]
      availability.now [OF nw] availability.publish_and_reset [OF pr] by auto
  moreover have "\<not> en_unavailable en' \<longrightarrow> settled en' state e"
    "r \<noteq> APP_ERROR_NONE \<longrightarrow> en_unavailable en'"
    using publish_and_reset_result [OF pr] r by (auto simp: settled_def)
  ultimately show ?thesis by auto
qed

text \<open>
  The outcome of a phase of an execution that started with \<open>actions\<close> to type: what was sent,
  and the state the engine is left in.
\<close>

definition execution_outcome ::
  "macro_action list \<Rightarrow> executor_engine \<Rightarrow> app_error \<Rightarrow> executor_engine \<Rightarrow> bool" where
  "execution_outcome actions en r en' \<longleftrightarrow>
     (\<exists>t e q. hid_trace en' = hid_trace en @ t @ [Release_All_Event q] \<and> typed_run actions t e \<and>
        (r = APP_ERROR_NONE \<longrightarrow> t = keystrokes actions) \<and>
        (q \<noteq> APP_ERROR_NONE \<longrightarrow> en_unavailable en') \<and>
        (\<not> en_unavailable en' \<longrightarrow> r = e \<and> settled en' (terminal_state r) r))"

lemma outcome_after:
  "hid_trace a = hid_trace en \<Longrightarrow> execution_outcome actions a r en' \<Longrightarrow>
   execution_outcome actions en r en'"
  by (simp add: execution_outcome_def)

lemma finish_outcome:
  assumes "finish_execution ops (en_log Plan_Free_Event b) st (terminal_state e) e = (r, en')"
    "hid_trace b = hid_trace en @ t" "typed_run actions t e"
  shows "execution_outcome actions en (if r = APP_ERROR_NONE then e else r) en'"
proof -
  obtain q where "hid_trace en' = hid_trace en @ t @ [Release_All_Event q]"
    "q \<noteq> APP_ERROR_NONE \<or> r \<noteq> APP_ERROR_NONE \<longrightarrow> en_unavailable en'"
    "\<not> en_unavailable en' \<longrightarrow> settled en' (terminal_state e) e"
    using finish_result [OF assms(1)] assms(2) by auto
  then show ?thesis
    unfolding execution_outcome_def using assms(3) typed_run_complete
    by (intro exI [of _ t] exI [of _ e] exI [of _ q]) auto
qed

lemma publish_step_result:
  assumes "publish_step ops en st = (out, en')"
  shows "case out of None \<Rightarrow> hid_trace en' = hid_trace en
    | Some r \<Rightarrow> r \<noteq> APP_ERROR_NONE \<and> execution_outcome actions en r en'"
proof -
  obtain p a where p: "publish_status ops st en = (p, a)"
    by (metis prod.exhaust)
  show ?thesis
  proof (cases "p = APP_ERROR_NONE")
    case True
    then show ?thesis
      using assms p hid_quiet.publish [OF p] by (auto simp: publish_step_def)
  next
    case False
    then have "terminal_state p = EXECUTION_FAILED"
      using publish_result [OF p] by (auto simp: terminal_state_def)
    then obtain r where f: "finish_execution ops (en_log Plan_Free_Event a) st (terminal_state p) p
        = (r, en')" and out: "out = Some (if r = APP_ERROR_NONE then p else r)"
      using assms p False by (auto simp: publish_step_def split: prod.splits)
    have "execution_outcome actions en (if r = APP_ERROR_NONE then p else r) en'"
      using finish_outcome [OF f, of en "[]"] hid_quiet.publish [OF p] run_stop [OF False] by simp
    then show ?thesis
      using False out by simp
  qed
qed

lemma execute_plan_outcome:
  assumes "execute_plan ops request (st, en) = (r, en')"
  shows "execution_outcome (mp_actions (rq_plan request)) en r en'"
proof -
  obtain t a where nw: "call_now_ms ops en = (t, a)"
    by (metis prod.exhaust)
  let ?a = "a\<lparr>en_deadline := t + APP_V2_EXECUTOR_ABSOLUTE_DEADLINE_MS\<rparr>"
  obtain e st' b where act: "execute_actions ops request 0 (mp_actions (rq_plan request))
      (st\<lparr>xs_started_ms := t\<rparr>, ?a) = (e, st', b)"
    by (metis prod.exhaust)
  obtain f where f: "finish_execution ops (en_log Plan_Free_Event b) st' (terminal_state e) e
      = (f, en')" and r: "r = (if f = APP_ERROR_NONE then e else f)"
    using assms nw act by (auto simp: execute_plan_def split: prod.splits)
  show ?thesis
    using actions_trace [OF act] hid_quiet.now [OF nw] finish_outcome [OF f] by (auto simp: r)
qed

lemma confirmation_outcome:
  assumes "run_confirmation_phase ops (st, en) = Some (out, st', en')"
  shows "case out of None \<Rightarrow> hid_trace en' = hid_trace en
    | Some r \<Rightarrow> r \<noteq> APP_ERROR_NONE \<and> execution_outcome actions en r en'"
proof -
  obtain c a where aw: "await_confirmation ops en = Some (c, a)"
    using assms by (auto simp: run_confirmation_phase_def split: option.splits)
  have a: "hid_trace a = hid_trace en"
    by (rule hid_quiet.await [OF aw])
  then have same: "execution_outcome actions a = execution_outcome actions en"
    by (auto simp: execution_outcome_def fun_eq_iff)
  show ?thesis
  proof (cases "c = APP_ERROR_NONE")
    case True
    then obtain st2 where "publish_step ops a st2 = (out, en')"
      using assms aw by (auto simp: run_confirmation_phase_def Let_def split: prod.splits)
    from publish_step_result [OF this, of actions] a same show ?thesis by (auto split: option.splits)
  next
    case False
    then obtain r where f: "finish_execution ops (en_log Plan_Free_Event a) st (terminal_state c) c
        = (r, en')" and out: "out = Some (if r = APP_ERROR_NONE then c else r)"
      using assms aw by (auto simp: run_confirmation_phase_def split: prod.splits)
    then show ?thesis
      using finish_outcome [OF f, of en "[]"] a run_stop [OF False] False by simp
  qed
qed

lemma execute_cases:
  assumes "macro_executor_engine_execute ops en request = Some (r, en')"
    "validate_request request = APP_ERROR_NONE"
  obtains "publish_step ops en (initial_status request) = (Some r, en')"
  | a where "publish_step ops en (initial_status request) = (None, a)"
    "\<not> rq_require_confirmation request"
    "execute_plan ops request (initial_status request, a) = (r, en')"
  | a st where "publish_step ops en (initial_status request) = (None, a)"
    "rq_require_confirmation request"
    "run_confirmation_phase ops (initial_status request, a) = Some (Some r, st, en')"
  | a st b where "publish_step ops en (initial_status request) = (None, a)"
    "rq_require_confirmation request"
    "run_confirmation_phase ops (initial_status request, a) = Some (None, st, b)"
    "execute_plan ops request (st, b) = (r, en')"
  using assms
  by (auto simp: macro_executor_engine_execute_def Let_def
      split: prod.splits option.splits if_splits)

lemma execute_outcome:
  assumes "macro_executor_engine_execute ops en request = Some (r, en')"
    "validate_request request = APP_ERROR_NONE"
  shows "execution_outcome (mp_actions (rq_plan request)) en r en'"
  using assms
proof (cases rule: execute_cases)
  case 1
  from publish_step_result [OF this] show ?thesis by simp
next
  case (2 a)
  from publish_step_result [OF this(1)] execute_plan_outcome [OF this(3)] show ?thesis
    by (simp add: execution_outcome_def)
next
  case (3 a st)
  from publish_step_result [OF this(1)]
    confirmation_outcome [OF this(3), of "mp_actions (rq_plan request)"] show ?thesis
    by (auto intro: outcome_after)
next
  case (4 a st b)
  from publish_step_result [OF this(1)] confirmation_outcome [OF this(3)]
    execute_plan_outcome [OF this(4)] show ?thesis
    by (simp add: execution_outcome_def)
qed

section \<open>Safety of an execution\<close>

text \<open>
  C6: an execution of a valid request types the compiled actions in order, each press directly
  followed by a release of all keys, and ends with one more release of all keys; it reports
  success only if every action was typed.  Unless the engine latched itself unavailable, it is
  then at rest: the request slot is free, no cancellation or confirmation is pending, the last
  release succeeded and the published state is the one of the returned code.
\<close>

theorem execution_types_the_plan:
  assumes "macro_executor_engine_execute ops en request = Some (r, en')"
    and "validate_request request = APP_ERROR_NONE"
  shows "\<exists>t e q. hid_trace en' = hid_trace en @ t @ [Release_All_Event q] \<and>
      typed_run (mp_actions (rq_plan request)) t e \<and>
      (r = APP_ERROR_NONE \<longrightarrow> t = keystrokes (mp_actions (rq_plan request))) \<and>
      (en_unavailable en' \<or>
       q = APP_ERROR_NONE \<and> r = e \<and> settled en' (terminal_state r) r)"
  using execute_outcome [OF assms] unfolding execution_outcome_def by blast

text \<open>A platform that always answers well, on which the concrete instances run.\<close>

definition good_ops :: executor_ops where
  "good_ops =
     \<lparr>op_lock = (\<lambda>_. True), op_unlock = (\<lambda>_. True), op_queue_send = (\<lambda>_ _. True),
      op_now_ms = (\<lambda>h. of_nat (10 * length h)), op_wait_ms = (\<lambda>_ _. APP_ERROR_NONE),
      op_usb_ready = (\<lambda>_. True), op_usb_press = (\<lambda>_ _ _. APP_ERROR_NONE),
      op_usb_release_all = (\<lambda>_. APP_ERROR_NONE), op_external = (\<lambda>_. [])\<rparr>"

definition sample_request :: execution_request where
  "sample_request =
     (let u = ''00000000-0000-4000-8000-000000000000'' in
      \<lparr>rq_execution_id = u, rq_set_id = u, rq_macro_id = u, rq_macro_revision = 1,
       rq_key_press_ms = 8, rq_inter_key_ms = 15,
       rq_plan = \<lparr>mp_actions =
         [\<lparr>ma_type = MACRO_ACTION_KEY, ma_modifiers = 2, ma_usages = [4], ma_delay_ms = 0\<rparr>],
         mp_estimated_duration_ms = 23\<rparr>,
       rq_accepted_ms = 0, rq_require_confirmation = False\<rparr>)"

lemma sample_request_valid: "validate_request sample_request = APP_ERROR_NONE"
  by code_simp

lemma sample_execution: "\<exists>r en'. macro_executor_engine_execute good_ops
    macro_executor_engine_init sample_request = Some (r, en')"
proof -
  have "\<not> rq_require_confirmation sample_request"
    by (simp add: sample_request_def Let_def)
  then show ?thesis
    using sample_request_valid
    by (auto simp: macro_executor_engine_execute_def Let_def split: prod.splits option.splits)
qed

theorem execution_types_the_plan_witness:
  "\<exists>r en' t e q. macro_executor_engine_execute good_ops macro_executor_engine_init sample_request
      = Some (r, en') \<and>
    hid_trace en' = hid_trace macro_executor_engine_init @ t @ [Release_All_Event q] \<and>
    typed_run (mp_actions (rq_plan sample_request)) t e"
  using sample_execution execution_types_the_plan [OF _ sample_request_valid] by metis

end
