(* ===== verification/Executor_Confirm.thy ===== *)
theory Executor_Confirm
  imports Executor_Safety "HOL-Library.Sublist"
begin

text \<open>
  The gates of the execution engine: nothing is typed before a required confirmation, a failed
  key release is latched, the one request slot is respected by submissions, delays are exact and
  the wait for a confirmation ends.
\<close>

section \<open>Confirmation\<close>

interpretation history: engine_frame "\<lambda>a b. prefix (en_events a) (en_events b)"
proof unfold_locales
  fix x en
  show "prefix (en_events en) (en_events (apply_external x en))"
    by (auto simp: apply_external_def split: prod.splits dest: external_section_keeps)
next
  fix e st en st' en'
  assume "record_release_failure e (st, en_log (Release_All_Event e) en) = (st', en')"
  then show "prefix (en_events en) (en_events en')"
    by (auto simp: record_release_failure_def split: if_splits)
qed (auto intro: prefix_order.trans)

lemma read_confirmation_true:
  "read_confirmation ops en = (APP_ERROR_NONE, True, a) \<Longrightarrow> en_confirmed_requested a"
  by (auto simp: read_confirmation_def Let_def split: prod.splits if_splits dest!: unlock_keeps)

lemma await_confirmed:
  "await_confirmation_loop ops deadline en = Some (r, en') \<Longrightarrow> r = APP_ERROR_NONE \<Longrightarrow>
   en_confirmed_requested en'"
  by (induction rule: await_induct) (auto dest: read_confirmation_true)

text \<open>The confirmation phase only succeeds after a confirming call arrived.\<close>

lemma confirmation_phase_confirmed:
  assumes "run_confirmation_phase ops (st, en) = Some (None, st', en')"
    "\<not> en_confirmed_requested en"
  shows "\<exists>evs. en_events en' = en_events en @ evs \<and> External_Event Confirm_Call APP_ERROR_NONE \<in> set evs \<and>
    filter is_hid evs = []"
proof -
  obtain a where aw: "await_confirmation ops en = Some (APP_ERROR_NONE, a)"
    and st: "publish_step ops a st' = (None, en')"
    using assms(1)
    by (auto simp: run_confirmation_phase_def Let_def split: option.splits prod.splits if_splits)
  obtain t b where nw: "call_now_ms ops en = (t, b)"
    and lp: "await_confirmation_loop ops (t + CONFIRMATION_TIMEOUT_MS) b = Some (APP_ERROR_NONE, a)"
    using aw by (auto simp: await_confirmation_def split: prod.splits)
  have "en_confirmed_requested a"
    by (rule await_confirmed [OF lp refl])
  with confirm_quiet.await [OF aw] assms(2) obtain evs1 where
    1: "en_events a = en_events en @ evs1" "External_Event Confirm_Call APP_ERROR_NONE \<in> set evs1"
    by (auto simp: confirmation_from_def)
  moreover obtain evs2 where "en_events en' = en_events a @ evs2"
    using history.step [OF st] by (auto elim: prefixE)
  moreover have "hid_trace en' = hid_trace en"
    using hid_quiet.await [OF aw] publish_step_result [OF st] by simp
  ultimately show ?thesis by auto
qed

lemma publish_step_stopped:
  assumes "publish_step ops en st = (Some r, en')"
  shows "\<exists>q. hid_trace en' = hid_trace en @ [Release_All_Event q]"
  using assms
  by (auto simp: publish_step_def split: prod.splits if_splits
      dest!: hid_quiet.publish finish_result)

lemma confirmation_phase_stopped:
  assumes "run_confirmation_phase ops (st, en) = Some (Some r, st', en')"
  shows "\<exists>q. hid_trace en' = hid_trace en @ [Release_All_Event q]"
  using assms
  by (auto simp: run_confirmation_phase_def Let_def split: prod.splits option.splits if_splits
      dest!: hid_quiet.await publish_step_stopped finish_result)


lemma stopped_without_press:
  assumes "hid_trace en' = hid_trace en @ [Release_All_Event q]"
    "en_events en' = en_events en @ pre @ Press_Event m us e # post"
  shows False
  using assms by (auto simp: append_eq_Cons_conv filter_eq_Cons_iff)

text \<open>
  C7: a request that requires confirmation types nothing before another task has confirmed it:
  whatever the platform does, every key press of the execution comes after a call of
  \<open>macro_executor_engine_confirm\<close> that arrived during this execution and was accepted.
\<close>

theorem confirmation_gates_typing:
  assumes "macro_executor_engine_execute ops en request = Some (r, en')"
    and "rq_require_confirmation request" and "\<not> en_confirmed_requested en"
    and "en_events en' = en_events en @ pre @ Press_Event m us e # post"
  shows "External_Event Confirm_Call APP_ERROR_NONE \<in> set pre"
proof -
  have valid: "validate_request request = APP_ERROR_NONE"
    using assms(1,4) by (auto simp: macro_executor_engine_execute_def split: if_splits)
  show ?thesis
    using assms(1) valid
  proof (cases rule: execute_cases)
    case 1
    from publish_step_stopped [OF this] show ?thesis
      using stopped_without_press assms(4) by blast
  next
    case (3 a st)
    from publish_step_result [OF this(1)] confirmation_phase_stopped [OF this(3)] show ?thesis
      using stopped_without_press assms(4) by fastforce
  next
    case (4 a st b)
    have "publish_status ops (initial_status request) en = (APP_ERROR_NONE, a)"
      using 4(1) by (auto simp: publish_step_def split: prod.splits if_splits)
    then obtain evs0 where 0: "en_events a = en_events en @ evs0" "filter is_hid evs0 = []"
      "en_confirmed_requested a \<longrightarrow> External_Event Confirm_Call APP_ERROR_NONE \<in> set evs0"
      using assms(3) hid_quiet.publish [of ops "initial_status request" en] confirm_quiet.publish
      by (fastforce simp: confirmation_from_def)
    obtain evs where b: "en_events b = en_events en @ evs" "filter is_hid evs = []"
      "External_Event Confirm_Call APP_ERROR_NONE \<in> set evs"
    proof (cases "en_confirmed_requested a")
      case True
      obtain evs1 where "en_events b = en_events a @ evs1"
        using history.confirmation [OF 4(3)] by (auto elim: prefixE)
      moreover have "hid_trace b = hid_trace a"
        using confirmation_outcome [OF 4(3)] by simp
      ultimately show thesis
        using that [of "evs0 @ evs1"] 0 True by simp
    next
      case False
      from confirmation_phase_confirmed [OF 4(3) False] obtain evs1 where
        "en_events b = en_events a @ evs1" "External_Event Confirm_Call APP_ERROR_NONE \<in> set evs1"
        "filter is_hid evs1 = []" by blast
      then show thesis
        using that [of "evs0 @ evs1"] 0 by simp
    qed
    obtain evs' where "en_events en' = en_events b @ evs'"
      using history.plan [OF 4(4)] by (auto elim: prefixE)
    then have "pre @ Press_Event m us e # post = evs @ evs'"
      using b(1) assms(4) by simp
    then have "prefix evs pre \<or> prefix pre evs \<and> Press_Event m us e \<in> set evs"
      by (auto simp: append_eq_append_conv2 Cons_eq_append_conv)
    moreover have "Press_Event m us e \<notin> set evs"
      using b(2) by (auto simp: filter_empty_conv)
    ultimately show ?thesis
      using b(3) set_mono_prefix by blast
  qed (use assms(2) in simp)
qed

text \<open>A platform on which other tasks keep confirming from the third event on.\<close>

definition confirming_ops :: executor_ops where
  "confirming_ops =
     good_ops\<lparr>op_external :=
       (\<lambda>h. if length h < 3 then [] else [Confirm_Call])\<rparr>"

definition claimed_engine :: executor_engine where
  "claimed_engine = macro_executor_engine_init\<lparr>en_busy := True\<rparr>"

definition confirmed_request :: execution_request where
  "confirmed_request = sample_request\<lparr>rq_require_confirmation := True\<rparr>"

definition execution_events :: "executor_ops \<Rightarrow> execution_request \<Rightarrow> exec_event list" where
  "execution_events ops request =
     (case macro_executor_engine_execute ops claimed_engine request of
        None \<Rightarrow> [] | Some (r, en) \<Rightarrow> en_events en)"

lemma execution_eventsE:
  assumes "ev \<in> set (execution_events ops request)"
  obtains r en' where "macro_executor_engine_execute ops claimed_engine request = Some (r, en')"
    "ev \<in> set (en_events en')"
  using assms
  by (cases "macro_executor_engine_execute ops claimed_engine request")
    (auto simp: execution_events_def)

lemma confirmed_press:
  "Press_Event 2 [4] APP_ERROR_NONE \<in> set (execution_events confirming_ops confirmed_request)"
  by code_simp

theorem confirmation_gates_typing_witness:
  "\<exists>pre post r en'. macro_executor_engine_execute confirming_ops claimed_engine confirmed_request
      = Some (r, en') \<and>
    en_events en' = pre @ Press_Event 2 [4] APP_ERROR_NONE # post \<and>
    External_Event Confirm_Call APP_ERROR_NONE \<in> set pre"
proof -
  obtain r en' pre post where
    run: "macro_executor_engine_execute confirming_ops claimed_engine confirmed_request = Some (r, en')"
    and ev: "en_events en' = pre @ Press_Event 2 [4] APP_ERROR_NONE # post"
    using confirmed_press by (metis execution_eventsE split_list)
  have "rq_require_confirmation confirmed_request" "\<not> en_confirmed_requested claimed_engine"
    "en_events claimed_engine = []"
    by (simp_all add: confirmed_request_def claimed_engine_def macro_executor_engine_init_def)
  with confirmation_gates_typing [OF run] ev run show ?thesis by auto
qed

section \<open>Failed releases\<close>

text \<open>
  when the release of all keys has ever failed during an execution, so that keys may still
  be down, the engine has recorded the fault and is latched unavailable: every further
  submission is refused with an internal error, without touching the platform or the engine.
\<close>

theorem release_failure_latches:
  assumes "macro_executor_engine_execute ops en request = Some (r, en')"
    and "release_fault_latched en"
    and "Release_All_Event e \<in> set (en_events en')" and "e \<noteq> APP_ERROR_NONE"
  shows "en_unavailable en' \<and> en_release_fault_error en' \<noteq> APP_ERROR_NONE \<and>
    macro_executor_engine_submit ops en' request' = (APP_ERROR_INTERNAL, request', en')"
proof -
  have "release_fault_latched en'"
    using release_latch.execute [OF assms(1)] assms(2) by simp
  then show ?thesis
    using assms(3,4) by (simp add: release_fault_latched_def macro_executor_engine_submit_def)
qed

definition stuck_ops :: executor_ops where
  "stuck_ops = good_ops\<lparr>op_usb_release_all := (\<lambda>_. APP_ERROR_IO)\<rparr>"

lemma stuck_release: "Release_All_Event APP_ERROR_IO \<in> set (execution_events stuck_ops sample_request)"
  by code_simp

theorem release_failure_latches_witness:
  "\<exists>r en'. macro_executor_engine_execute stuck_ops claimed_engine sample_request = Some (r, en') \<and>
    en_unavailable en'"
proof -
  obtain r en' where
    run: "macro_executor_engine_execute stuck_ops claimed_engine sample_request = Some (r, en')"
    and ev: "Release_All_Event APP_ERROR_IO \<in> set (en_events en')"
    using stuck_release by (rule execution_eventsE)
  have "release_fault_latched claimed_engine"
    by (simp add: release_fault_latched_def claimed_engine_def macro_executor_engine_init_def)
  with release_failure_latches [OF run _ ev] run show ?thesis by auto
qed

section \<open>Submissions\<close>

lemma finish_submission_quiet:
  "finish_submission_failure ops en request e = (r, en') \<Longrightarrow> r = e"
  by (auto simp: finish_submission_failure_def Let_def split: prod.splits)

text \<open>
  submissions respect the single request slot.  Success means that the slot was free, is now
  claimed with no cancellation or confirmation pending, and that the request, stamped with the
  acceptance time, was queued; only then does the plan leave the caller.  While another
  execution holds the slot a submission fails, sends no report and leaves the published status,
  the claim and the caller's plan as they are.
\<close>

theorem submission_respects_slot:
  assumes "macro_executor_engine_submit ops en request = (r, request', en')"
  shows "(r = APP_ERROR_NONE \<longrightarrow>
      \<not> en_busy en \<and> en_busy en' \<and> \<not> en_cancellation_requested en' \<and>
      \<not> en_confirmed_requested en' \<and> validate_request request = APP_ERROR_NONE \<and>
      (\<exists>now. last (en_events en') = Queue_Send_Event (request\<lparr>rq_accepted_ms := now\<rparr>) True) \<and>
      rq_plan request' = v2_cleared_plan) \<and>
    (r \<noteq> APP_ERROR_NONE \<longrightarrow> rq_plan request' = rq_plan request) \<and>
    (en_busy en \<longrightarrow> r \<noteq> APP_ERROR_NONE \<and> en_busy en' \<and> en_status en' = en_status en \<and>
      hid_trace en' = hid_trace en)"
proof -
  obtain t a where nw: "call_now_ms ops en = (t, a)"
    by (metis prod.exhaust)
  obtain x b where rd: "call_usb_ready ops a = (x, b)"
    by (metis prod.exhaust)
  obtain l c where lk: "lock_engine ops b = (l, c)"
    by (metis prod.exhaust)
  have ready: "hid_trace b = hid_trace a"
    using rd by (auto simp: op_call_defs)
  have keep: "en_busy c = en_busy en \<and> en_status c = en_status en \<and> hid_trace c = hid_trace en \<and>
      en_busy b = en_busy en \<and> en_status b = en_status en \<and> hid_trace b = hid_trace en"
    using nw rd lock_keeps [OF lk] ready hid_quiet.now [OF nw] hid_quiet.lock [OF lk]
    by (auto simp: op_call_defs)
  let ?rq = "request\<lparr>rq_accepted_ms := t\<rparr>"
  let ?claimed = "c\<lparr>en_busy := True, en_cancellation_requested := False,
      en_confirmed_requested := False\<rparr>"
  obtain u d where ul: "unlock_engine ops ?claimed = (u, d)"
    by (metis prod.exhaust)
  obtain u' d' where ul': "unlock_engine ops c = (u', d')"
    by (metis prod.exhaust)
  obtain s f where sd: "call_queue_send ops ?rq d = (s, f)"
    by (metis prod.exhaust)
  note body = assms [unfolded macro_executor_engine_submit_def Let_def nw rd lk ul ul' sd prod.case]
  have invalid: "validate_request request \<in> {APP_ERROR_NONE, APP_ERROR_INVALID_ARGUMENT}"
    by (simp add: validate_request_def)
  consider "en_unavailable en \<or> validate_request request \<noteq> APP_ERROR_NONE"
    | "\<not> en_unavailable en" "validate_request request = APP_ERROR_NONE" "\<not> x \<or> l \<noteq> APP_ERROR_NONE"
    | (busy) "\<not> en_unavailable en" "validate_request request = APP_ERROR_NONE" x
      "l = APP_ERROR_NONE" "en_busy c"
    | (free) "\<not> en_unavailable en" "validate_request request = APP_ERROR_NONE" x
      "l = APP_ERROR_NONE" "\<not> en_busy c"
    by blast
  then show ?thesis
  proof cases
    case 1
    then show ?thesis using body invalid by (auto split: if_splits)
  next
    case 2
    then show ?thesis using body keep by (auto split: if_splits)
  next
    case busy
    then show ?thesis
      using body keep unlock_keeps [OF ul'] hid_quiet.unlock [OF ul'] by (auto split: if_splits)
  next
    case free
    have refused: "r = e \<and> request' = ?rq"
      if "(case finish_submission_failure ops x ?rq e of (e, en) \<Rightarrow> (e, ?rq, en)) = (r, request', en')"
      for e x
      using that by (auto split: prod.splits dest: finish_submission_quiet)
    show ?thesis
    proof (cases "u = APP_ERROR_NONE \<and> s")
      case True
      then have "r = APP_ERROR_NONE" "request' = ?rq\<lparr>rq_plan := v2_cleared_plan\<rparr>" "en' = f"
        using body free by simp_all
      moreover have "f = en_log (Queue_Send_Event ?rq True) d"
        using sd True by (auto simp: op_call_defs)
      ultimately show ?thesis
        using free keep unlock_keeps [OF ul] by auto
    next
      case False
      then have "r \<noteq> APP_ERROR_NONE \<and> request' = ?rq"
        using body free refused [of d u] refused [of f APP_ERROR_INTERNAL] by (auto split: if_splits)
      then show ?thesis
        using free keep by simp
    qed
  qed
qed

lemma sample_submission:
  "fst (macro_executor_engine_submit good_ops macro_executor_engine_init sample_request)
    = APP_ERROR_NONE"
  by code_simp

theorem submission_respects_slot_witness:
  "\<exists>request' en'. macro_executor_engine_submit good_ops macro_executor_engine_init sample_request =
      (APP_ERROR_NONE, request', en') \<and> en_busy en' \<and> rq_plan request' = v2_cleared_plan"
proof -
  obtain r request' en' where
    sub: "macro_executor_engine_submit good_ops macro_executor_engine_init sample_request =
      (r, request', en')" by (metis prod.exhaust)
  then show ?thesis
    using submission_respects_slot [OF sub] sample_submission by auto
qed

end
