(* ===== verification/Executor_Timing.thy ===== *)
theory Executor_Timing
  imports Executor_Confirm
begin

text \<open>
  Time in the execution engine: cancellable delays wait exactly as long as asked in short
  slices, and under the clock of the platform, whose waits a notification may cut short, the wait
  for a confirmation ends, so every execution ends; without a confirmation it ends by timing out.
\<close>

section \<open>Delays\<close>

fun waits :: "exec_event list \<Rightarrow> nat list" where
  "waits [] = []"
| "waits (Wait_Event ms e # evs) = unat ms # waits evs"
| "waits (ev # evs) = waits evs"

lemma waits_append [simp]: "waits (xs @ ys) = waits xs @ waits ys"
  by (induction xs rule: waits.induct) simp_all

text \<open>The operations around a wait append events that contain no wait.\<close>

definition no_wait :: "executor_engine \<Rightarrow> executor_engine \<Rightarrow> bool" where
  "no_wait a b \<longleftrightarrow> (\<exists>evs. en_events b = en_events a @ evs \<and> waits evs = [])"

lemma no_wait_refl: "no_wait a a"
  by (simp add: no_wait_def)

lemma no_wait_trans: "no_wait a b \<Longrightarrow> no_wait b c \<Longrightarrow> no_wait a c"
  by (auto simp: no_wait_def)

lemma external_no_wait: "no_wait en (apply_external x en)"
  by (auto simp: no_wait_def apply_external_def split: prod.splits dest!: external_section_keeps)

lemma externals_no_wait: "no_wait en (fold apply_external xs en)"
  by (induction xs arbitrary: en) (auto intro: no_wait_refl no_wait_trans [OF external_no_wait])

lemma log_no_wait: "waits [ev] = [] \<Longrightarrow> no_wait en (en_log ev en)"
  by (simp add: no_wait_def)

lemma lock_no_wait: "lock_engine ops en = (r, a) \<Longrightarrow> no_wait en a"
  using no_wait_trans [OF log_no_wait externals_no_wait, of "Lock_Event True" en]
  by (auto simp: lock_engine_def log_no_wait split: if_splits)

lemma unlock_no_wait: "unlock_engine ops en = (r, a) \<Longrightarrow> no_wait en a"
  by (auto simp: op_call_defs log_no_wait)

lemma now_no_wait: "call_now_ms ops en = (t, a) \<Longrightarrow> no_wait en a"
  by (auto simp: op_call_defs log_no_wait)

lemma read_no_wait: "read_cancellation ops en = (r, c, a) \<Longrightarrow> no_wait en a"
  by (auto simp: read_cancellation_def Let_def split: prod.splits if_splits
      dest!: lock_no_wait unlock_no_wait intro: no_wait_trans)

lemma read_confirmation_no_wait: "read_confirmation ops en = (r, c, a) \<Longrightarrow> no_wait en a"
  by (auto simp: read_confirmation_def Let_def split: prod.splits if_splits
      dest!: lock_no_wait unlock_no_wait intro: no_wait_trans)

lemma wait_events: "call_wait_ms ops ms en = (r, a) \<Longrightarrow> en_events a = en_events en @ [Wait_Event ms r]"
  by (auto simp: op_call_defs)

lemma delay_waits:
  assumes "cancellable_delay ops ms en = (r, en')"
  shows "\<exists>evs. en_events en' = en_events en @ evs \<and>
    (\<forall>w \<in> set (waits evs). 0 < w \<and> w \<le> 10) \<and> sum_list (waits evs) \<le> unat ms \<and>
    (r = APP_ERROR_NONE \<longrightarrow> sum_list (waits evs) = unat ms)"
  using assms
proof (induction rule: delay_induct)
  case (elapsed en)
  then show ?case by simp
next
  case (fault remaining en r c a)
  then show ?case
    using read_no_wait by (fastforce simp: no_wait_def)
next
  case (cancelled remaining en a)
  then show ?case
    using read_no_wait by (fastforce simp: no_wait_def)
next
  case (expired remaining en a t b)
  then show ?case
    using no_wait_trans [OF read_no_wait now_no_wait] by (fastforce simp: no_wait_def)
next
  case (wait_fault remaining en a t b r c)
  moreover have "no_wait en b"
    using wait_fault by (blast intro: no_wait_trans [OF read_no_wait now_no_wait])
  ultimately show ?case
    using wait_events [OF wait_fault(5)] delay_slice [of remaining] by (auto simp: no_wait_def)
next
  case (waited remaining en a t b c r en')
  moreover have "no_wait en b"
    using waited by (blast intro: no_wait_trans [OF read_no_wait now_no_wait])
  ultimately show ?case
    using wait_events [OF waited(5)] delay_slice [of remaining] by (fastforce simp: no_wait_def)
qed

lemma cancellation_kept:
  "en_cancellation_requested en \<Longrightarrow> en_cancellation_requested (apply_external x en)"
  by (cases x) (auto simp: apply_external_def cancel_section_def confirm_section_def)

text \<open>
  a delay that ends without an error has waited exactly the requested time; an interrupted
  one has waited no longer than that.  It waits in slices of 1 to 10 ms, each after a look at
  the cancellation flag and the deadline, sends no report, and a cancellation that is already
  pending ends it before any wait.
\<close>

theorem delay_is_exact_and_cancellable:
  assumes "cancellable_delay ops ms en = (r, en')"
  shows "hid_trace en' = hid_trace en \<and>
    (\<exists>evs. en_events en' = en_events en @ evs \<and>
      (\<forall>w \<in> set (waits evs). 0 < w \<and> w \<le> 10) \<and> sum_list (waits evs) \<le> unat ms \<and>
      (r = APP_ERROR_NONE \<longrightarrow> sum_list (waits evs) = unat ms) \<and>
      (en_cancellation_requested en \<and> ms > 0 \<longrightarrow>
        waits evs = [] \<and> r \<noteq> APP_ERROR_NONE))"
proof -
  have kept: "en_cancellation_requested (fold apply_external xs a)"
    if "en_cancellation_requested a" for xs a
    using that by (induction xs arbitrary: a) (simp_all add: cancellation_kept)
  have seen: "r1 \<noteq> APP_ERROR_NONE \<or> c" if "read_cancellation ops en = (r1, c, a)"
    "en_cancellation_requested en" for r1 c a
    using that kept [of "en_log (Lock_Event True) en"]
    by (auto simp: read_cancellation_def lock_engine_def Let_def split: prod.splits if_splits)
  obtain r1 c a where rd: "read_cancellation ops en = (r1, c, a)"
    by (metis prod.exhaust)
  have "no_wait en en' \<and> r \<noteq> APP_ERROR_NONE" if "en_cancellation_requested en" "ms > 0"
    using seen [OF rd that(1)] that(2) assms rd read_no_wait [OF rd]
    by (auto simp: cancellable_delay.simps [of ops ms en] split: if_splits)
  then show ?thesis
    using delay_waits [OF assms] hid_quiet.delay [OF assms] by (auto simp: no_wait_def)
qed

theorem delay_is_exact_and_cancellable_witness:
  "\<exists>r en' evs. cancellable_delay good_ops 25 (claimed_engine\<lparr>en_deadline := 1000\<rparr>) = (r, en') \<and>
    r = APP_ERROR_NONE \<and> en_events en' = evs \<and> sum_list (waits evs) = 25"
proof -
  obtain r en' where
    run: "cancellable_delay good_ops 25 (claimed_engine\<lparr>en_deadline := 1000\<rparr>) = (r, en')"
    by (metis prod.exhaust)
  have "fst (cancellable_delay good_ops 25 (claimed_engine\<lparr>en_deadline := 1000\<rparr>)) = APP_ERROR_NONE"
    by code_simp
  then show ?thesis
    using delay_is_exact_and_cancellable [OF run] run
    by (auto simp: claimed_engine_def macro_executor_engine_init_def)
qed

section \<open>The clock\<close>

lemma deadline_expired_nat:
  assumes "now < deadline + 2 ^ 31" and "deadline \<le> now + 2 ^ 31"
  shows "deadline_expired (of_nat now) (of_nat deadline) \<longleftrightarrow> deadline \<le> now"
proof -
  have diff: "(of_nat now - of_nat deadline :: u32) = of_int (int now - int deadline)"
    by simp
  have "sint (of_int k :: u32) = k" if "- (2 ^ 31) \<le> k" "k < 2 ^ 31" for k
    using that by (simp add: signed_of_int signed_take_bit_int_eq_self)
  from this [of "int now - int deadline"] have "sint (of_nat now - of_nat deadline :: u32) = int now - int deadline"
    unfolding diff using assms by simp
  then show ?thesis
    unfolding deadline_expired_def by simp
qed

text \<open>
  C8: the deadline comparison on the wrapping 32-bit millisecond counter is exact: for any two
  instants less than \<open>2 ^ 31\<close> ms apart on the unbounded time line, the deadline counts as
  expired precisely if it has been reached, even when the counter wrapped in between.
\<close>

theorem deadline_survives_wrap:
  assumes "now < deadline + 2 ^ 31" and "deadline \<le> now + 2 ^ 31"
  shows "deadline_expired (of_nat now) (of_nat deadline) \<longleftrightarrow> deadline \<le> now"
  using assms by (rule deadline_expired_nat)

theorem deadline_survives_wrap_witness:
  "deadline_expired (of_nat (2 ^ 32 + 5)) (of_nat (2 ^ 32 - 10)) \<and>
   \<not> deadline_expired (of_nat (2 ^ 32 - 11)) (of_nat (2 ^ 32 - 10))"
  using deadline_survives_wrap [of "2 ^ 32 + 5" "2 ^ 32 - 10"]
    deadline_survives_wrap [of "2 ^ 32 - 11" "2 ^ 32 - 10"] by simp

text \<open>
  The adapter of the platform (\<open>macro_executor.c\<close>) reads the tick counter and waits with
  \<open>ulTaskNotifyTake\<close>: a wait is rounded down to whole ticks, and a notification that is pending or
  arrives ends it early, with the same answer.  Notifications are given by the calls of cancel and
  confirm that succeed, and each one ends at most one wait.  \<open>cut_short\<close> is a slice that ended
  before its ticks were over, \<open>woken\<close> counts them, and \<open>answered\<close> the calls that succeeded.
\<close>

definition TICK_BOUND :: nat where
  [limit_defs]: "TICK_BOUND = 1000000"

fun cut_short :: "(exec_event list \<Rightarrow> nat) \<Rightarrow> nat \<Rightarrow> exec_event list \<Rightarrow> exec_event \<Rightarrow> bool" where
  "cut_short c period h (Wait_Event ms e) \<longleftrightarrow> e = APP_ERROR_NONE \<and> ms \<le> CANCELLATION_SLICE_MS \<and>
     c (h @ [Wait_Event ms e]) < c h + unat ms div period * period"
| "cut_short c period h ev \<longleftrightarrow> False"

definition woken :: "(exec_event list \<Rightarrow> nat) \<Rightarrow> nat \<Rightarrow> exec_event list \<Rightarrow> nat" where
  "woken c period h = length (filter (\<lambda>i. cut_short c period (take i h) (h ! i)) [0..<length h])"

fun answered :: "exec_event list \<Rightarrow> nat" where
  "answered [] = 0"
| "answered (External_Event x e # evs) = (if e = APP_ERROR_NONE then 1 else 0) + answered evs"
| "answered (ev # evs) = answered evs"

lemma answered_append [simp]: "answered (xs @ ys) = answered xs + answered ys"
  by (induction xs rule: answered.induct) simp_all

lemma woken_snoc: "woken c period (h @ [ev]) = woken c period h + (if cut_short c period h ev then 1 else 0)"
proof -
  have "filter (\<lambda>i. cut_short c period (take i (h @ [ev])) ((h @ [ev]) ! i)) [0..<length h] =
      filter (\<lambda>i. cut_short c period (take i h) (h ! i)) [0..<length h]"
    by (intro filter_cong) (simp_all add: nth_append)
  then show ?thesis by (simp add: woken_def)
qed

lemma woken_mono: "woken c period h \<le> woken c period (h @ evs)"
  by (induction evs rule: rev_induct) (simp_all add: woken_snoc flip: append_assoc)

text \<open>
  The counter is the low 32 bits of a time line \<open>c\<close> in ms that never goes back and on which a single
  operation of the worker takes at most \<open>TICK_BOUND\<close> ms; a tick is at most 10 ms.  Waits are cut
  short no more often than calls of cancel and confirm succeed, but for some notifications from
  before the history and calls that succeeded and are not in it yet.
\<close>

definition steady_clock :: "executor_ops \<Rightarrow> (exec_event list \<Rightarrow> nat) \<Rightarrow> bool" where
  "steady_clock ops c \<longleftrightarrow>
     (\<forall>h. op_now_ms ops h = of_nat (c h)) \<and>
     (\<forall>h ev. c h \<le> c (h @ [ev]) \<and> c (h @ [ev]) \<le> c h + TICK_BOUND) \<and>
     (\<forall>h x answer. c (h @ [External_Event x answer]) = c h) \<and>
     (\<exists>period K. 1 \<le> period \<and> period \<le> 10 \<and> (\<forall>h. woken c period h \<le> K + answered h))"

definition ticks :: "(exec_event list \<Rightarrow> nat) \<Rightarrow> executor_engine \<Rightarrow> executor_engine \<Rightarrow> nat \<Rightarrow> bool" where
  "ticks c a b k \<longleftrightarrow> c (en_events a) \<le> c (en_events b) \<and> c (en_events b) \<le> c (en_events a) + k"

lemma ticks_trans: "ticks c a b k \<Longrightarrow> ticks c b d l \<Longrightarrow> ticks c a d (k + l)"
  by (simp add: ticks_def)

lemma ticks_log: "steady_clock ops c \<Longrightarrow> ticks c en (en_log ev en) TICK_BOUND"
  by (simp add: ticks_def steady_clock_def)

lemma ticks_externals: "steady_clock ops c \<Longrightarrow> ticks c en (fold apply_external xs en) 0"
proof (induction xs arbitrary: en)
  case (Cons x xs)
  have "c (en_events (apply_external x en)) = c (en_events en)"
    using Cons.prems
    by (auto simp: apply_external_def steady_clock_def split: prod.splits
        dest!: external_section_keeps)
  then show ?case
    using Cons.IH [OF Cons.prems, of "apply_external x en"] by (simp add: ticks_def)
qed (simp add: ticks_def)

lemma ticks_lock: "steady_clock ops c \<Longrightarrow> lock_engine ops en = (r, a) \<Longrightarrow> ticks c en a TICK_BOUND"
  using ticks_trans [OF ticks_log [of ops c en "Lock_Event True"] ticks_externals [of ops c]]
  by (auto simp: lock_engine_def intro: ticks_log split: if_splits)

lemma ticks_unlock: "steady_clock ops c \<Longrightarrow> unlock_engine ops en = (r, a) \<Longrightarrow> ticks c en a TICK_BOUND"
  by (auto simp: op_call_defs intro: ticks_log)

lemma ticks_weaken: "ticks c a b k \<Longrightarrow> k \<le> l \<Longrightarrow> ticks c a b l"
  by (simp add: ticks_def)

lemma ticks_read_cancellation:
  assumes "steady_clock ops c" "read_cancellation ops en = (r, x, a)"
  shows "ticks c en a (2 * TICK_BOUND)"
proof -
  obtain l b where lk: "lock_engine ops en = (l, b)"
    by (metis prod.exhaust)
  obtain u d where ul: "unlock_engine ops b = (u, d)"
    by (metis prod.exhaust)
  have "a = b \<or> a = d"
    using assms(2) lk ul by (auto simp: read_cancellation_def Let_def split: if_splits)
  then show ?thesis
    using ticks_lock [OF assms(1) lk] ticks_unlock [OF assms(1) ul] by (auto simp: ticks_def)
qed

lemma ticks_read_confirmation:
  assumes "steady_clock ops c" "read_confirmation ops en = (r, x, a)"
  shows "ticks c en a (2 * TICK_BOUND)"
proof -
  obtain l b where lk: "lock_engine ops en = (l, b)"
    by (metis prod.exhaust)
  obtain u d where ul: "unlock_engine ops b = (u, d)"
    by (metis prod.exhaust)
  have "a = b \<or> a = d"
    using assms(2) lk ul by (auto simp: read_confirmation_def Let_def split: if_splits)
  then show ?thesis
    using ticks_lock [OF assms(1) lk] ticks_unlock [OF assms(1) ul] by (auto simp: ticks_def)
qed

text \<open>
  What the calls of the other tasks can still do: each of them succeeds at most once while the
  flags are not reset, so \<open>spare\<close> does not change in the loop.
\<close>

definition spare :: "executor_engine \<Rightarrow> nat" where
  "spare en = answered (en_events en) + (if en_cancellation_requested en then 0 else 1) +
     (if en_confirmed_requested en then 0 else 1)"

lemma spare_external: "spare (apply_external x en) = spare en"
  by (cases x) (auto simp: spare_def apply_external_def cancel_section_def confirm_section_def)

lemma spare_externals: "spare (fold apply_external xs en) = spare en"
  by (induction xs arbitrary: en) (simp_all add: spare_external)

lemma spare_log: "answered [ev] = 0 \<Longrightarrow> spare (en_log ev en) = spare en"
  by (simp add: spare_def)

lemma spare_lock: "lock_engine ops en = (r, a) \<Longrightarrow> spare a = spare en"
  by (auto simp: lock_engine_def spare_externals spare_log split: if_splits)

lemma spare_unlock: "unlock_engine ops en = (r, a) \<Longrightarrow> spare a = spare en"
  by (auto simp: op_call_defs spare_log)

lemma spare_read:
  "read_cancellation ops en = (r, x, a) \<Longrightarrow> spare a = spare en"
  "read_confirmation ops en = (r, x, a) \<Longrightarrow> spare a = spare en"
  by (auto simp: read_cancellation_def read_confirmation_def Let_def split: prod.splits if_splits
      dest!: spare_lock spare_unlock)

lemma read_extends:
  "read_cancellation ops en = (r, x, a) \<Longrightarrow> prefix (en_events en) (en_events a)"
  "read_confirmation ops en = (r, x, a) \<Longrightarrow> prefix (en_events en) (en_events a)"
  using read_no_wait read_confirmation_no_wait by (fastforce simp: no_wait_def prefix_def)+

text \<open>
  The loop ends: each round that waits brings the clock a tick closer to the deadline, or its
  wait was cut short, which happens at most \<open>K + spare en\<close> times.
\<close>

lemma await_loop_ends:
  assumes "steady_clock ops c" "c (en_events en) \<le> D + 2 * TICK_BOUND"
    "D \<le> c (en_events en) + 2 ^ 31"
  shows "\<exists>r en'. await_confirmation_loop ops (of_nat D) en = Some (r, en') \<and>
    (r = APP_ERROR_TIMEOUT \<longrightarrow> op_wait_ms ops = (\<lambda>_ _. APP_ERROR_NONE) \<longrightarrow> D \<le> c (en_events en'))"
proof -
  obtain period K where period: "1 \<le> period" "period \<le> 10" and K: "\<And>h. woken c period h \<le> K + answered h"
    using assms(1) by (auto simp: steady_clock_def)
  have tick: "c h \<le> c (h @ [ev])" "c (h @ [ev]) \<le> c h + TICK_BOUND" for h ev
    using assms(1) by (simp_all add: steady_clock_def)
  have slice: "0 < 10 div period * period" using period by (simp add: div_greater_zero_iff)
  show ?thesis
    using assms(2,3)
  proof (induction "(K + spare en - woken c period (en_events en)) + (D - c (en_events en))"
      arbitrary: en rule: less_induct)
    case less
    obtain r1 x1 a where rd: "read_cancellation ops en = (r1, x1, a)"
      by (metis prod.exhaust)
    obtain r2 x2 b where cf: "read_confirmation ops a = (r2, x2, b)"
      by (metis prod.exhaust)
    obtain t f where nw: "call_now_ms ops b = (t, f)"
      by (metis prod.exhaust)
    obtain r3 d where wt: "call_wait_ms ops CANCELLATION_SLICE_MS f = (r3, d)"
      by (metis prod.exhaust)
    have t: "t = of_nat (c (en_events b))" and f: "f = en_log (Now_Event t) b"
      using nw assms(1) by (auto simp: op_call_defs steady_clock_def)
    have b: "c (en_events en) \<le> c (en_events b)" "c (en_events b) \<le> D + 6 * TICK_BOUND"
      using ticks_trans [OF ticks_read_cancellation [OF assms(1) rd]
          ticks_read_confirmation [OF assms(1) cf]] less.prems by (auto simp: ticks_def)
    have now: "deadline_expired t (of_nat D) \<longleftrightarrow> D \<le> c (en_events b)"
      unfolding t using b less.prems
      by (intro deadline_expired_nat) (simp_all add: TICK_BOUND_def)
    note step = await_confirmation_loop.simps [of ops "of_nat D" en, unfolded rd cf nw wt prod.case]
    show ?case
    proof (cases "r1 = APP_ERROR_NONE \<and> \<not> x1 \<and> r2 = APP_ERROR_NONE \<and> \<not> x2 \<and>
        \<not> deadline_expired t (of_nat D) \<and> r3 = APP_ERROR_NONE")
      case True
      let ?w = "Wait_Event 10 APP_ERROR_NONE" and ?h = "en_events b @ [Now_Event t]"
      have dev: "en_events d = ?h @ [?w]"
        using wt f True by (auto simp: op_call_defs CANCELLATION_SLICE_MS_def)
      have "spare d = spare f" using wt by (auto simp: op_call_defs spare_log)
      then have spare: "spare d = spare en"
        using f spare_read(1) [OF rd] spare_read(2) [OF cf] by (simp add: spare_log)
      obtain evs where "en_events b = en_events en @ evs"
        using prefix_order.trans [OF read_extends(1) [OF rd] read_extends(2) [OF cf]] by (auto elim: prefixE)
      then have grows: "woken c period (en_events en) \<le> woken c period ?h"
        using woken_mono [of c period "en_events en" "evs @ [Now_Event t]"] by simp
      have within: "woken c period (en_events d) \<le> K + spare d"
        using K [of "en_events d"] by (simp add: spare_def)
      note n = tick [of "en_events b" "Now_Event t"] tick [of ?h ?w]
      have before: "c (en_events b) < D" using True now by simp
      have "(K + spare d - woken c period (en_events d)) + (D - c (en_events d)) <
          (K + spare en - woken c period (en_events en)) + (D - c (en_events en))"
      proof (cases "cut_short c period ?h ?w")
        case True
        then have "woken c period (en_events d) = woken c period ?h + 1"
          unfolding dev by (subst woken_snoc) simp
        then show ?thesis using grows within spare n b by (simp add: dev)
      next
        case False
        then have "c ?h + 10 div period * period \<le> c (en_events d)"
          by (simp add: dev CANCELLATION_SLICE_MS_def)
        moreover have "woken c period (en_events d) = woken c period ?h"
          unfolding dev using False by (subst woken_snoc) simp
        ultimately show ?thesis using grows slice spare n b before by linarith
      qed
      moreover have "c (en_events d) \<le> D + 2 * TICK_BOUND" "D \<le> c (en_events d) + 2 ^ 31"
        using b n before less.prems by (simp_all add: dev)
      ultimately show ?thesis
        using less.hyps [of d] True step by simp
    next
      case False
      have "c (en_events b) \<le> c (en_events f)"
        using f assms(1) by (simp add: steady_clock_def)
      moreover have "r1 \<noteq> APP_ERROR_TIMEOUT" "r2 \<noteq> APP_ERROR_TIMEOUT"
        using rd cf
        by (auto simp: read_cancellation_def read_confirmation_def Let_def split: prod.splits if_splits
            dest!: lock_result unlock_result)
      moreover have "r3 = APP_ERROR_NONE" if "op_wait_ms ops = (\<lambda>_ _. APP_ERROR_NONE)"
        using wt that by (auto simp: op_call_defs)
      ultimately show ?thesis
        using False now step by auto
    qed
  qed
qed

section \<open>Every execution ends\<close>

lemma await_ends:
  assumes "steady_clock ops c"
  shows "\<exists>r en'. await_confirmation ops en = Some (r, en') \<and>
    (r = APP_ERROR_TIMEOUT \<longrightarrow> op_wait_ms ops = (\<lambda>_ _. APP_ERROR_NONE) \<longrightarrow>
     c (en_events en) + 60000 \<le> c (en_events en'))"
proof -
  let ?D = "c (en_events en) + 60000"
  obtain t a where nw: "call_now_ms ops en = (t, a)"
    by (metis prod.exhaust)
  have t: "t = of_nat (c (en_events en))" and a: "a = en_log (Now_Event t) en"
    using nw assms(1) by (auto simp: op_call_defs steady_clock_def)
  have dl: "t + CONFIRMATION_TIMEOUT_MS = of_nat ?D"
    by (simp add: t CONFIRMATION_TIMEOUT_MS_def APP_V2_SERIAL_CONFIRMATION_TIMEOUT_SECONDS_def)
  have "c (en_events en) \<le> c (en_events a)" "c (en_events a) \<le> c (en_events en) + TICK_BOUND"
    using ticks_log [OF assms, of en "Now_Event t"] by (simp_all add: a ticks_def)
  then show ?thesis
    using await_loop_ends [OF assms, of a ?D] nw
    by (simp add: await_confirmation_def dl)
qed

text \<open>
  C9: every execution ends: under a steady clock, one that advances
  tick by tick and whose waits last whole ticks (short ones none) unless a notification, of which
  there are finitely many, cuts them short, \<open>macro_executor_engine_execute\<close> returns for
  every request, engine state and behaviour of the other operations, also when it has to wait
  for a confirmation that never comes and although the wait for it is an unbounded loop whose
  waits may be cut short by notifications.
\<close>

theorem execution_returns:
  assumes "steady_clock ops c"
  shows "\<exists>r en'. macro_executor_engine_execute ops en request = Some (r, en')"
proof -
  have "\<exists>p. run_confirmation_phase ops (st, a) = Some p" for st a
    using await_ends [OF assms, of a]
    by (auto simp: run_confirmation_phase_def Let_def split: prod.splits)
  then show ?thesis
    by (auto simp: macro_executor_engine_execute_def Let_def split: prod.splits option.splits)
      (metis option.distinct(1))
qed

text \<open>
  The platform of the witnesses ticks every ten milliseconds.  A notification is pending when it
  starts, so its first wait ends at once; every operation but a wait takes a tick.
\<close>

fun good_time :: "bool \<Rightarrow> exec_event list \<Rightarrow> nat" where
  "good_time notified [] = 0"
| "good_time notified (Wait_Event ms e # evs) =
     (if notified \<or> TICK_BOUND < unat ms then 0 else unat ms div 10 * 10) + good_time False evs"
| "good_time notified (External_Event x e # evs) = good_time notified evs"
| "good_time notified (ev # evs) = 10 + good_time notified evs"

abbreviation good_clock :: "exec_event list \<Rightarrow> nat" where
  "good_clock \<equiv> good_time True"

definition clocked_ops :: executor_ops where
  "clocked_ops = good_ops\<lparr>op_now_ms := (\<lambda>h. of_nat (good_clock h))\<rparr>"

lemma good_time_append:
  "good_time notified (h @ evs) = good_time notified h + good_time (notified \<and> waits h = []) evs"
  by (induction notified h rule: good_time.induct) simp_all

lemma good_time_event: "good_time notified [ev] \<le> TICK_BOUND"
  by (cases ev) (auto simp: TICK_BOUND_def intro: order.trans [OF div_times_less_eq_dividend])

lemma good_clock_woken: "woken good_clock 10 h \<le> (if waits h = [] then 0 else 1)"
proof (induction h rule: rev_induct)
  case (snoc ev h)
  then show ?case
    by (cases ev) (auto simp: woken_snoc good_time_append CANCELLATION_SLICE_MS_def TICK_BOUND_def
        word_le_nat_alt split: if_splits)
qed (simp add: woken_def)

lemma good_clock_steady: "op_now_ms ops = op_now_ms clocked_ops \<Longrightarrow> steady_clock ops good_clock"
proof -
  have "woken good_clock 10 h \<le> 1 + answered h" for h
    using good_clock_woken [of h] by (simp split: if_splits)
  then have "\<exists>period K. 1 \<le> period \<and> period \<le> 10 \<and> (\<forall>h. woken good_clock period h \<le> K + answered h)"
    by (intro exI [of _ 10] exI [of _ 1]) simp
  then show "op_now_ms ops = op_now_ms clocked_ops \<Longrightarrow> steady_clock ops good_clock"
    by (simp add: steady_clock_def clocked_ops_def good_time_append good_time_event)
qed

text \<open>Somebody confirms during the second wait.\<close>

definition interrupted_ops :: executor_ops where
  "interrupted_ops = clocked_ops\<lparr>op_external := (\<lambda>h. if length (waits h) = 2 then [Confirm_Call] else [])\<rparr>"

theorem execution_returns_witness:
  "\<exists>r en'. macro_executor_engine_execute interrupted_ops claimed_engine confirmed_request = Some (r, en')"
  by (rule execution_returns [OF good_clock_steady]) (simp add: interrupted_ops_def)

section \<open>Expiry\<close>

text \<open>A platform without faults on which no other task calls the engine.\<close>

definition undisturbed :: "executor_ops \<Rightarrow> bool" where
  "undisturbed ops \<longleftrightarrow>
     op_lock ops = (\<lambda>_. True) \<and> op_unlock ops = (\<lambda>_. True) \<and> op_external ops = (\<lambda>_. []) \<and>
     op_wait_ms ops = (\<lambda>_ _. APP_ERROR_NONE) \<and> op_usb_release_all ops = (\<lambda>_. APP_ERROR_NONE)"

lemma undisturbed_lock:
  "undisturbed ops \<Longrightarrow> lock_engine ops en = (APP_ERROR_NONE, en_log (Lock_Event True) en)"
  "undisturbed ops \<Longrightarrow> unlock_engine ops en = (APP_ERROR_NONE, en_log (Unlock_Event True) en)"
  by (simp_all add: undisturbed_def lock_engine_def op_call_defs)

lemma undisturbed_read:
  "undisturbed ops \<Longrightarrow> read_cancellation ops en =
    (APP_ERROR_NONE, en_cancellation_requested en,
     en_log (Unlock_Event True) (en_log (Lock_Event True) en))"
  "undisturbed ops \<Longrightarrow> read_confirmation ops en =
    (APP_ERROR_NONE, en_confirmed_requested en,
     en_log (Unlock_Event True) (en_log (Lock_Event True) en))"
  by (simp_all add: read_cancellation_def read_confirmation_def undisturbed_lock)

lemma undisturbed_wait: "undisturbed ops \<Longrightarrow> op_wait_ms ops h ms = APP_ERROR_NONE"
  by (simp add: undisturbed_def)

text \<open>Only the deadline ends an undisturbed wait.\<close>

lemma undisturbed_await:
  "await_confirmation_loop ops deadline en = Some (r, en') \<Longrightarrow> undisturbed ops \<Longrightarrow>
   \<not> en_cancellation_requested en \<and> \<not> en_confirmed_requested en \<and> \<not> en_unavailable en \<Longrightarrow>
   r = APP_ERROR_TIMEOUT \<and> \<not> en_unavailable en'"
  by (induction rule: await_induct)
    (auto simp: undisturbed_read op_call_defs undisturbed_wait)

lemma undisturbed_finish:
  assumes "undisturbed ops" "\<not> en_unavailable en"
    "finish_execution ops en st state e = (r, en')"
  shows "r = APP_ERROR_NONE \<and> \<not> en_unavailable en' \<and>
    prefix (en_events en) (en_events en')"
  using assms history.finish [OF assms(3)]
  by (auto simp: finish_execution_def publish_and_reset_def publish_status_def Let_def
      reset_terminal_flags_def undisturbed_lock op_call_defs record_release_failure_def
      undisturbed_def)

text \<open>
  C10: a request that requires confirmation and is left alone times out.  With a fault-free
  platform, a steady clock and no call of another task, its execution ends not before the 60
  seconds are over, with the timeout error and the published state timed out, having sent
  nothing but one release of all keys.
\<close>

theorem unconfirmed_request_times_out:
  assumes "steady_clock ops c" and "undisturbed ops"
    and "validate_request request = APP_ERROR_NONE" and "rq_require_confirmation request"
    and "\<not> en_cancellation_requested en" and "\<not> en_confirmed_requested en"
    and "\<not> en_unavailable en"
  shows "\<exists>en'. macro_executor_engine_execute ops en request = Some (APP_ERROR_TIMEOUT, en') \<and>
    settled en' EXECUTION_TIMED_OUT APP_ERROR_TIMEOUT \<and>
    hid_trace en' = hid_trace en @ [Release_All_Event APP_ERROR_NONE] \<and>
    c (en_events en) + 60000 \<le> c (en_events en')"
proof -
  let ?st = "initial_status request"
  obtain r0 a where pub: "publish_status ops ?st en = (r0, a)"
    by (metis prod.exhaust)
  then have a: "r0 = APP_ERROR_NONE" "\<not> en_cancellation_requested a" "\<not> en_confirmed_requested a"
    "\<not> en_unavailable a"
    using assms(2,5-7) by (auto simp: publish_status_def undisturbed_lock)
  obtain r b where aw: "await_confirmation ops a = Some (r, b)"
    and late: "r = APP_ERROR_TIMEOUT \<longrightarrow> c (en_events a) + 60000 \<le> c (en_events b)"
    using await_ends [OF assms(1), of a] assms(2) by (auto simp: undisturbed_def)
  have b: "r = APP_ERROR_TIMEOUT \<and> \<not> en_unavailable b"
    using aw a assms(2)
    by (auto simp: await_confirmation_def op_call_defs dest!: undisturbed_await)
  obtain f en' where fin: "finish_execution ops (en_log Plan_Free_Event b) ?st
      EXECUTION_TIMED_OUT APP_ERROR_TIMEOUT = (f, en')"
    by (metis prod.exhaust)
  have f: "f = APP_ERROR_NONE" "\<not> en_unavailable en'" "prefix (en_events b) (en_events en')"
    using undisturbed_finish [OF assms(2) _ fin] b by (auto dest: append_prefixD)
  have run: "macro_executor_engine_execute ops en request = Some (APP_ERROR_TIMEOUT, en')"
    using assms(3,4) pub a(1) aw b fin f(1)
    by (simp add: macro_executor_engine_execute_def publish_step_def run_confirmation_phase_def
        terminal_state_def)
  have mono: "c h \<le> c (h @ evs)" for h evs
    using assms(1) by (induction evs rule: rev_induct) (auto simp: steady_clock_def intro: le_trans simp flip: append_assoc)
  have "c (en_events en) \<le> c (en_events a)" "c (en_events b) \<le> c (en_events en')"
    using history.publish [OF pub] f(3) mono by (auto elim!: prefixE)
  moreover have "settled en' EXECUTION_TIMED_OUT APP_ERROR_TIMEOUT"
    "hid_trace en' = hid_trace en @ [Release_All_Event APP_ERROR_NONE]"
    using finish_result [OF fin] f hid_quiet.await [OF aw] hid_quiet.publish [OF pub] by auto
  ultimately show ?thesis
    using run late b by (intro exI [of _ en']) auto
qed

lemma confirmed_request_valid: "validate_request confirmed_request = APP_ERROR_NONE"
  by code_simp

theorem unconfirmed_request_times_out_witness:
  "\<exists>en'. macro_executor_engine_execute clocked_ops claimed_engine confirmed_request
      = Some (APP_ERROR_TIMEOUT, en') \<and> good_clock (en_events en') \<ge> 60000"
proof -
  have "undisturbed clocked_ops"
    by (simp add: undisturbed_def clocked_ops_def good_ops_def)
  moreover have "\<not> en_cancellation_requested claimed_engine \<and> \<not> en_confirmed_requested claimed_engine
      \<and> \<not> en_unavailable claimed_engine \<and> rq_require_confirmation confirmed_request"
    by (simp add: claimed_engine_def macro_executor_engine_init_def confirmed_request_def)
  ultimately show ?thesis
    using unconfirmed_request_times_out [OF good_clock_steady [OF refl] _ confirmed_request_valid,
        of claimed_engine] by auto
qed

end
