(* ===== verification/Usb_Keyboard.thy ===== *)
theory Usb_Keyboard
  imports Macro_Executor
begin

text \<open>
  The USB keyboard of \<open>usb_keyboard/usb_keyboard_state.c\<close> and the press and release entry points
  of \<open>usb_keyboard.c\<close>.  The TinyUSB stack behind \<open>usb_keyboard_ops_t\<close> is the parameter
  \<open>kops\<close>; as in the execution engine its answers are functions of the history \<open>kb_events\<close>.
  Attach, detach, suspend and resume callbacks run in the USB task at any time; the keyboard
  reads its shared state only through \<open>state_get\<close>, so those that arrived since
  (\<open>kop_callbacks\<close>) are run at each such read.
\<close>

section \<open>Data\<close>

definition USB_KEYBOARD_KEYCODE_COUNT :: nat where
  [limit_defs]: "USB_KEYBOARD_KEYCODE_COUNT = 6"

definition USB_KEYBOARD_READY_TIMEOUT_MS :: u32 where
  [limit_defs]: "USB_KEYBOARD_READY_TIMEOUT_MS = 100"

datatype usb_state =
    USB_KEYBOARD_UNINITIALIZED
  | USB_KEYBOARD_DISCONNECTED
  | USB_KEYBOARD_ENUMERATING
  | USB_KEYBOARD_READY
  | USB_KEYBOARD_SUSPENDED
  | USB_KEYBOARD_ERROR

record usb_key =
  uk_modifiers :: u8
  uk_usages :: "u8 list"
  uk_usage_count :: nat

datatype usb_callback = Mount_Callback | Unmount_Callback | Suspend_Callback | Resume_Callback

datatype kb_event =
    Driver_Install_Event app_error
  | Driver_Uninstall_Event app_error
  | Callback_Event usb_callback
  | Kb_Now_Event u32
  | Kb_Delay_Event u32
  | Mounted_Event bool
  | Suspended_Event bool
  | Hid_Ready_Event bool
  | Report_Event u8 "u8 list" bool

record usb_ops =
  kop_driver_install :: "kb_event list \<Rightarrow> app_error"
  kop_driver_uninstall :: "kb_event list \<Rightarrow> app_error"
  kop_now_ms :: "kb_event list \<Rightarrow> u32"
  kop_mounted :: "kb_event list \<Rightarrow> bool"
  kop_suspended :: "kb_event list \<Rightarrow> bool"
  kop_hid_ready :: "kb_event list \<Rightarrow> bool"
  kop_send_keyboard_report :: "kb_event list \<Rightarrow> u8 \<Rightarrow> u8 list \<Rightarrow> bool"
  kop_callbacks :: "kb_event list \<Rightarrow> usb_callback list"

record keyboard =
  kb_state :: usb_state
  kb_events :: "kb_event list"

definition kb_log :: "kb_event \<Rightarrow> keyboard \<Rightarrow> keyboard" where
  "kb_log ev kb = kb\<lparr>kb_events := kb_events kb @ [ev]\<rparr>"

definition kb_mounted :: "usb_ops \<Rightarrow> keyboard \<Rightarrow> bool \<times> keyboard" where
  "kb_mounted kops kb =
     (let b = kop_mounted kops (kb_events kb) in (b, kb_log (Mounted_Event b) kb))"

definition kb_suspended :: "usb_ops \<Rightarrow> keyboard \<Rightarrow> bool \<times> keyboard" where
  "kb_suspended kops kb =
     (let b = kop_suspended kops (kb_events kb) in (b, kb_log (Suspended_Event b) kb))"

definition kb_hid_ready :: "usb_ops \<Rightarrow> keyboard \<Rightarrow> bool \<times> keyboard" where
  "kb_hid_ready kops kb =
     (let b = kop_hid_ready kops (kb_events kb) in (b, kb_log (Hid_Ready_Event b) kb))"

definition kb_now_ms :: "usb_ops \<Rightarrow> keyboard \<Rightarrow> u32 \<times> keyboard" where
  "kb_now_ms kops kb =
     (let t = kop_now_ms kops (kb_events kb) in (t, kb_log (Kb_Now_Event t) kb))"

definition kb_send_report :: "usb_ops \<Rightarrow> u8 \<Rightarrow> u8 list \<Rightarrow> keyboard \<Rightarrow> bool \<times> keyboard" where
  "kb_send_report kops modifiers keycodes kb =
     (let ok = kop_send_keyboard_report kops (kb_events kb) modifiers keycodes
      in (ok, kb_log (Report_Event modifiers keycodes ok) kb))"

section \<open>Callbacks\<close>

definition usb_keyboard_state_mount :: "keyboard \<Rightarrow> keyboard" where
  "usb_keyboard_state_mount kb = kb\<lparr>kb_state := USB_KEYBOARD_READY\<rparr>"

definition usb_keyboard_state_unmount :: "keyboard \<Rightarrow> keyboard" where
  "usb_keyboard_state_unmount kb = kb\<lparr>kb_state := USB_KEYBOARD_DISCONNECTED\<rparr>"

definition usb_keyboard_state_suspend :: "keyboard \<Rightarrow> keyboard" where
  "usb_keyboard_state_suspend kb = kb\<lparr>kb_state := USB_KEYBOARD_SUSPENDED\<rparr>"

definition usb_keyboard_state_resume :: "usb_ops \<Rightarrow> keyboard \<Rightarrow> keyboard" where
  "usb_keyboard_state_resume kops kb =
     (case kb_mounted kops kb of (mounted, kb) \<Rightarrow>
        kb\<lparr>kb_state := (if mounted then USB_KEYBOARD_READY else USB_KEYBOARD_DISCONNECTED)\<rparr>)"

text \<open>\<open>usb_event_handler\<close>, \<open>tud_suspend_cb\<close> and \<open>tud_resume_cb\<close>.\<close>

fun run_callback :: "usb_ops \<Rightarrow> usb_callback \<Rightarrow> keyboard \<Rightarrow> keyboard" where
  "run_callback kops Mount_Callback kb = usb_keyboard_state_mount kb"
| "run_callback kops Unmount_Callback kb = usb_keyboard_state_unmount kb"
| "run_callback kops Suspend_Callback kb = usb_keyboard_state_suspend kb"
| "run_callback kops Resume_Callback kb = usb_keyboard_state_resume kops kb"

definition usb_callback_step :: "usb_ops \<Rightarrow> usb_callback \<Rightarrow> keyboard \<Rightarrow> keyboard" where
  "usb_callback_step kops x kb = run_callback kops x (kb_log (Callback_Event x) kb)"

definition kb_state_get :: "usb_ops \<Rightarrow> keyboard \<Rightarrow> usb_state \<times> keyboard" where
  "kb_state_get kops kb =
     (let kb = fold (usb_callback_step kops) (kop_callbacks kops (kb_events kb)) kb
      in (kb_state kb, kb))"

section \<open>Operations\<close>

text \<open>The loop of \<open>wait_until_ready\<close>.\<close>

partial_function (option) ready_loop ::
  "usb_ops \<Rightarrow> u32 \<Rightarrow> keyboard \<Rightarrow> (app_error \<times> keyboard) option" where
  "ready_loop kops deadline kb =
     (case kb_hid_ready kops kb of (ready, kb) \<Rightarrow>
        if ready then Some (APP_ERROR_NONE, kb)
        else case kb_state_get kops kb of (st, kb) \<Rightarrow>
          if st \<noteq> USB_KEYBOARD_READY then Some (APP_ERROR_USB_NOT_READY, kb)
          else case kb_now_ms kops kb of (now, kb) \<Rightarrow>
            if sint (now - deadline) \<ge> 0 then Some (APP_ERROR_TIMEOUT, kb)
            else ready_loop kops deadline (kb_log (Kb_Delay_Event 1) kb))"

declare ready_loop.simps [code]

definition wait_until_ready :: "usb_ops \<Rightarrow> keyboard \<Rightarrow> (app_error \<times> keyboard) option" where
  "wait_until_ready kops kb =
     (case kb_now_ms kops kb of (now, kb) \<Rightarrow>
        ready_loop kops (now + USB_KEYBOARD_READY_TIMEOUT_MS) kb)"

definition usb_keyboard_state_init :: "usb_ops \<Rightarrow> keyboard \<Rightarrow> app_error \<times> keyboard" where
  "usb_keyboard_state_init kops kb =
     (case kb_state_get kops kb of (st, kb) \<Rightarrow>
        if st \<noteq> USB_KEYBOARD_UNINITIALIZED then (APP_ERROR_CONFLICT, kb)
        else
          let kb = kb\<lparr>kb_state := USB_KEYBOARD_ENUMERATING\<rparr>;
              result = kop_driver_install kops (kb_events kb);
              kb = kb_log (Driver_Install_Event result) kb
          in if result \<noteq> APP_ERROR_NONE then (result, kb\<lparr>kb_state := USB_KEYBOARD_ERROR\<rparr>)
             else case kb_mounted kops kb of (mounted, kb) \<Rightarrow>
               if \<not> mounted then (APP_ERROR_NONE, kb\<lparr>kb_state := USB_KEYBOARD_DISCONNECTED\<rparr>)
               else case kb_suspended kops kb of (suspended, kb) \<Rightarrow>
                 (APP_ERROR_NONE,
                  kb\<lparr>kb_state := (if suspended then USB_KEYBOARD_SUSPENDED
                                  else USB_KEYBOARD_READY)\<rparr>))"

definition usb_keyboard_state_deinit :: "usb_ops \<Rightarrow> keyboard \<Rightarrow> app_error \<times> keyboard" where
  "usb_keyboard_state_deinit kops kb =
     (case kb_state_get kops kb of (st, kb) \<Rightarrow>
        if st = USB_KEYBOARD_UNINITIALIZED then (APP_ERROR_NONE, kb)
        else
          let result = kop_driver_uninstall kops (kb_events kb);
              kb = kb_log (Driver_Uninstall_Event result) kb
          in if result \<noteq> APP_ERROR_NONE then (result, kb\<lparr>kb_state := USB_KEYBOARD_ERROR\<rparr>)
             else (APP_ERROR_NONE, kb\<lparr>kb_state := USB_KEYBOARD_UNINITIALIZED\<rparr>))"

text \<open>The guards and the wait that press and release share.\<close>

definition ready_to_send :: "usb_ops \<Rightarrow> keyboard \<Rightarrow> (app_error \<times> keyboard) option" where
  "ready_to_send kops kb =
     (case kb_state_get kops kb of (st, kb) \<Rightarrow>
        if st \<noteq> USB_KEYBOARD_READY then Some (APP_ERROR_USB_NOT_READY, kb)
        else case kb_mounted kops kb of (mounted, kb) \<Rightarrow>
          if \<not> mounted then Some (APP_ERROR_USB_NOT_READY, kb)
          else case kb_suspended kops kb of (suspended, kb) \<Rightarrow>
            if suspended then Some (APP_ERROR_USB_NOT_READY, kb)
            else wait_until_ready kops kb)"

definition keycodes_of :: "u8 list \<Rightarrow> u8 list" where
  "keycodes_of usages = usages @ replicate (USB_KEYBOARD_KEYCODE_COUNT - length usages) 0"

definition usb_keyboard_state_press ::
  "usb_ops \<Rightarrow> usb_key \<Rightarrow> keyboard \<Rightarrow> (app_error \<times> keyboard) option" where
  "usb_keyboard_state_press kops key kb =
     (if uk_modifiers key = 0 \<and> uk_usage_count key = 0 \<or>
         uk_usage_count key > USB_KEYBOARD_KEYCODE_COUNT
      then Some (APP_ERROR_INVALID_ARGUMENT, kb)
      else case ready_to_send kops kb of
        None \<Rightarrow> None
      | Some (ready, kb) \<Rightarrow>
          if ready \<noteq> APP_ERROR_NONE then Some (ready, kb)
          else case kb_send_report kops (uk_modifiers key)
              (keycodes_of (take (uk_usage_count key) (uk_usages key))) kb of
            (ok, kb) \<Rightarrow> Some (if ok then APP_ERROR_NONE else APP_ERROR_IO, kb))"

definition usb_keyboard_state_release_all ::
  "usb_ops \<Rightarrow> keyboard \<Rightarrow> (app_error \<times> keyboard) option" where
  "usb_keyboard_state_release_all kops kb =
     (case ready_to_send kops kb of
        None \<Rightarrow> None
      | Some (ready, kb) \<Rightarrow>
          if ready \<noteq> APP_ERROR_NONE then Some (ready, kb)
          else case kb_send_report kops 0 (replicate 6 0) kb of
            (ok, kb) \<Rightarrow> Some (if ok then APP_ERROR_NONE else APP_ERROR_IO, kb))"

text \<open>\<open>usage_count\<close> is the length of \<open>usages\<close>, as in every call of the firmware.\<close>

definition usb_keyboard_press ::
  "usb_ops \<Rightarrow> u8 \<Rightarrow> u8 list \<Rightarrow> keyboard \<Rightarrow> (app_error \<times> keyboard) option" where
  "usb_keyboard_press kops modifiers usages kb =
     (let bounded_count = (if length usages > USB_KEYBOARD_KEYCODE_COUNT
                           then USB_KEYBOARD_KEYCODE_COUNT else length usages)
      in usb_keyboard_state_press kops
           \<lparr>uk_modifiers = modifiers, uk_usages = keycodes_of (take bounded_count usages),
            uk_usage_count = bounded_count\<rparr> kb)"

end
