(* ===== verification/Usb_Typing.thy ===== *)
theory Usb_Typing
  imports Usb_Keyboard Executor_Timing Macro_Roundtrip
begin

text \<open>
  What reaches the host.  The locale \<open>hid_keyboard\<close> is the contract between the execution
  engine and the keyboard it drives: an accepted press or release adds exactly its boot report,
  a refused one adds none, and callbacks of the USB task add none.  The keyboard component
  meets it, so the reports of a whole execution are those of its plan, and a host with the US
  layout reads back the text the plan was compiled from.
\<close>

section \<open>Reports the host accepted\<close>

fun event_report :: "kb_event \<Rightarrow> (u8 \<times> u8 list) list" where
  "event_report (Report_Event modifiers keycodes True) = [(modifiers, keycodes)]"
| "event_report _ = []"

definition kb_reports :: "keyboard \<Rightarrow> (u8 \<times> u8 list) list" where
  "kb_reports kb = concat (map event_report (kb_events kb))"

definition no_keys :: "u8 list" where
  "no_keys = replicate 6 0"

fun hid_report :: "exec_event \<Rightarrow> (u8 \<times> u8 list) list" where
  "hid_report (Press_Event modifiers usages APP_ERROR_NONE) = [(modifiers, keycodes_of usages)]"
| "hid_report (Release_All_Event APP_ERROR_NONE) = [(0, no_keys)]"
| "hid_report _ = []"

fun fits_report :: "exec_event \<Rightarrow> bool" where
  "fits_report (Press_Event modifiers usages e) = (length usages \<le> 6)"
| "fits_report _ = True"

text \<open>
  \<open>drives press release env s trace s'\<close>: the calls of \<open>trace\<close>, with the answers recorded in
  it, take a keyboard from \<open>s\<close> to \<open>s'\<close>, its environment acting in between.
\<close>

inductive drives ::
  "(u8 \<Rightarrow> u8 list \<Rightarrow> 's \<Rightarrow> (app_error \<times> 's) option) \<Rightarrow> ('s \<Rightarrow> (app_error \<times> 's) option) \<Rightarrow>
   ('s \<Rightarrow> 's \<Rightarrow> bool) \<Rightarrow> 's \<Rightarrow> exec_event list \<Rightarrow> 's \<Rightarrow> bool"
  for press release env where
  drives_Nil: "drives press release env s [] s"
| drives_env: "env s s1 \<Longrightarrow> drives press release env s1 t s2 \<Longrightarrow> drives press release env s t s2"
| drives_press: "press modifiers usages s = Some (e, s1) \<Longrightarrow>
    drives press release env s1 t s2 \<Longrightarrow>
    drives press release env s (Press_Event modifiers usages e # t) s2"
| drives_release: "release s = Some (e, s1) \<Longrightarrow> drives press release env s1 t s2 \<Longrightarrow>
    drives press release env s (Release_All_Event e # t) s2"

locale hid_keyboard =
  fixes press :: "u8 \<Rightarrow> u8 list \<Rightarrow> 's \<Rightarrow> (app_error \<times> 's) option"
    and release :: "'s \<Rightarrow> (app_error \<times> 's) option"
    and env :: "'s \<Rightarrow> 's \<Rightarrow> bool"
    and reports :: "'s \<Rightarrow> (u8 \<times> u8 list) list"
  assumes press: "press modifiers usages s = Some (e, s') \<Longrightarrow> length usages \<le> 6 \<Longrightarrow>
      reports s' = reports s @ hid_report (Press_Event modifiers usages e)"
    and release: "release s = Some (e, s') \<Longrightarrow>
      reports s' = reports s @ hid_report (Release_All_Event e)"
    and env: "env s s' \<Longrightarrow> reports s' = reports s"
begin

lemma driven_reports:
  "drives press release env s t s' \<Longrightarrow> list_all fits_report t \<Longrightarrow>
   reports s' = reports s @ concat (map hid_report t)"
  by (induction rule: drives.induct) (auto simp: press release env)

end

section \<open>The keyboard meets the contract\<close>

lemma kb_log_reports [simp]: "kb_reports (kb_log ev kb) = kb_reports kb @ event_report ev"
  by (simp add: kb_reports_def kb_log_def)

lemma kb_reports_state [simp]: "kb_reports (kb\<lparr>kb_state := st\<rparr>) = kb_reports kb"
  by (simp add: kb_reports_def)

lemmas kb_call_defs =
  kb_mounted_def kb_suspended_def kb_hid_ready_def kb_now_ms_def kb_send_report_def Let_def

lemma callback_reports [simp]: "kb_reports (usb_callback_step kops x kb) = kb_reports kb"
  by (cases x) (simp_all add: usb_callback_step_def usb_keyboard_state_mount_def
      usb_keyboard_state_unmount_def usb_keyboard_state_suspend_def usb_keyboard_state_resume_def
      kb_call_defs)

lemma state_get_reports: "kb_state_get kops kb = (st, kb') \<Longrightarrow> kb_reports kb' = kb_reports kb"
proof -
  have "kb_reports (fold (usb_callback_step kops) xs kb) = kb_reports kb" for xs
    by (induction xs arbitrary: kb) simp_all
  then show "kb_state_get kops kb = (st, kb') \<Longrightarrow> kb_reports kb' = kb_reports kb"
    by (auto simp: kb_state_get_def Let_def)
qed

lemma ready_loop_reports:
  "ready_loop kops deadline kb = Some (r, kb') \<Longrightarrow> kb_reports kb' = kb_reports kb"
proof -
  have "\<forall>r kb'. y = (r, kb') \<longrightarrow> kb_reports kb' = kb_reports kb"
    if "ready_loop kops deadline kb = Some y" for kops deadline kb y
    using that
  proof (induction rule: ready_loop.raw_induct [rotated, consumes 1, case_names step])
    case (step loop kops deadline kb y)
    show ?case
    proof (intro allI impI)
      fix r kb'
      assume y: "y = (r, kb')"
      obtain b a where rd: "kb_hid_ready kops kb = (b, a)"
        by (metis prod.exhaust)
      obtain st c where sg: "kb_state_get kops a = (st, c)"
        by (metis prod.exhaust)
      obtain t d where nw: "kb_now_ms kops c = (t, d)"
        by (metis prod.exhaust)
      have same: "kb_reports a = kb_reports kb" "kb_reports c = kb_reports a"
        "kb_reports d = kb_reports c"
        using rd nw state_get_reports [OF sg] by (auto simp: kb_call_defs)
      show "kb_reports kb' = kb_reports kb"
        using step(2) [unfolded rd sg nw prod.case] step(1) same y by (auto split: if_splits)
    qed
  qed
  then show "ready_loop kops deadline kb = Some (r, kb') \<Longrightarrow> kb_reports kb' = kb_reports kb"
    by blast
qed

lemma ready_to_send_reports:
  "ready_to_send kops kb = Some (r, kb') \<Longrightarrow> kb_reports kb' = kb_reports kb"
  by (auto simp: ready_to_send_def wait_until_ready_def kb_call_defs split: prod.splits if_splits
      dest!: state_get_reports ready_loop_reports)

lemma hid_report_failed: "e \<noteq> APP_ERROR_NONE \<Longrightarrow> hid_report (Press_Event m us e) = []"
  "e \<noteq> APP_ERROR_NONE \<Longrightarrow> hid_report (Release_All_Event e) = []"
  by (cases e; simp)+

lemma press_reports:
  assumes "usb_keyboard_press kops m us kb = Some (e, kb')" "length us \<le> 6"
  shows "kb_reports kb' = kb_reports kb @ hid_report (Press_Event m us e)"
proof -
  have us: "take (length us) (keycodes_of us) = us"
    by (simp add: keycodes_of_def)
  show ?thesis
    using assms us
    by (auto simp: usb_keyboard_press_def usb_keyboard_state_press_def Let_def
        USB_KEYBOARD_KEYCODE_COUNT_def kb_send_report_def hid_report_failed
        split: if_splits option.splits prod.splits dest!: ready_to_send_reports)
qed

lemma release_reports:
  assumes "usb_keyboard_state_release_all kops kb = Some (e, kb')"
  shows "kb_reports kb' = kb_reports kb @ hid_report (Release_All_Event e)"
  using assms
  by (auto simp: usb_keyboard_state_release_all_def kb_send_report_def Let_def hid_report_failed
      no_keys_def split: if_splits option.splits prod.splits dest!: ready_to_send_reports)

definition kb_env :: "usb_ops \<Rightarrow> keyboard \<Rightarrow> keyboard \<Rightarrow> bool" where
  "kb_env kops kb kb' \<longleftrightarrow> (\<exists>x. kb' = usb_callback_step kops x kb)"

interpretation usb: hid_keyboard "usb_keyboard_press kops" "usb_keyboard_state_release_all kops"
  "kb_env kops" kb_reports for kops
  by unfold_locales (auto simp: kb_env_def press_reports release_reports)

section \<open>The reports of a whole execution\<close>

definition action_reports :: "macro_action \<Rightarrow> (u8 \<times> u8 list) list" where
  "action_reports a =
     (if ma_type a = MACRO_ACTION_DELAY then []
      else [(ma_modifiers a, keycodes_of (ma_usages a)), (0, no_keys)])"

lemma keystroke_reports: "concat (map hid_report (keystrokes as)) = concat (map action_reports as)"
  by (induction as) (simp_all add: action_reports_def)

lemma typed_run_fits:
  "typed_run as t e \<Longrightarrow> \<forall>a \<in> set as. length (ma_usages a) \<le> 6 \<Longrightarrow> list_all fits_report t"
  by (induction rule: typed_run.induct) simp_all

lemma execution_reports:
  assumes "macro_executor_engine_execute ops en request = Some (APP_ERROR_NONE, en')"
    and "\<not> en_unavailable en'" and "validate_request request = APP_ERROR_NONE"
    and "\<forall>a \<in> set (mp_actions (rq_plan request)). length (ma_usages a) \<le> 6"
    and "hid_trace en' = hid_trace en @ trace"
    and "drives (usb_keyboard_press kops) (usb_keyboard_state_release_all kops) (kb_env kops)
      kb trace kb'"
  shows "kb_reports kb' =
    kb_reports kb @ concat (map action_reports (mp_actions (rq_plan request))) @ [(0, no_keys)]"
proof -
  let ?as = "mp_actions (rq_plan request)"
  obtain t e q where run: "hid_trace en' = hid_trace en @ t @ [Release_All_Event q]"
    "typed_run ?as t e" "t = keystrokes ?as" "q = APP_ERROR_NONE"
    using execute_outcome [OF assms(1,3)] assms(2) unfolding execution_outcome_def by blast
  then have trace: "trace = t @ [Release_All_Event APP_ERROR_NONE]"
    using assms(5) by simp
  then have "list_all fits_report trace"
    using typed_run_fits [OF run(2) assms(4)] by simp
  from usb.driven_reports [OF assms(6) this] show ?thesis
    by (simp add: trace run(3) keystroke_reports)
qed

text \<open>
  the USB keyboard puts on the wire exactly what the plan says.  Whenever an execution
  succeeds, with the keyboard answering its press and release calls as recorded and USB
  callbacks arriving at any moment in between, the boot reports the host accepts are, for every
  key or group of the plan in order, one report with its modifiers and usages and one report
  with no key down, and a final report with no key down.
\<close>

theorem host_receives_the_plan:
  assumes "macro_executor_engine_execute ops en request = Some (APP_ERROR_NONE, en')"
    and "\<not> en_unavailable en'" and "validate_request request = APP_ERROR_NONE"
    and "\<forall>a \<in> set (mp_actions (rq_plan request)). length (ma_usages a) \<le> 6"
    and "hid_trace en' = hid_trace en @ trace"
    and "drives (usb_keyboard_press kops) (usb_keyboard_state_release_all kops) (kb_env kops)
      kb trace kb'"
  shows "kb_reports kb' =
    kb_reports kb @ concat (map action_reports (mp_actions (rq_plan request))) @ [(0, no_keys)]"
  using assms by (rule execution_reports)

section \<open>What the host reads\<close>

text \<open>
  A boot-protocol host compares each report with the previous one and reads a character for
  every key that is newly down.
\<close>

fun host_reads :: "u8 list \<Rightarrow> (u8 \<times> u8 list) list \<Rightarrow> char option list" where
  "host_reads down [] = []"
| "host_reads down ((modifiers, keycodes) # rs) =
     map (\<lambda>u. us_host_char \<lparr>hk_modifiers = modifiers, hk_usage = u\<rparr>)
       (filter (\<lambda>u. u \<noteq> 0 \<and> u \<notin> set down) keycodes) @ host_reads keycodes rs"

lemma literal_reports:
  assumes "typeable c"
  shows "\<exists>m u. u \<noteq> 0 \<and> action_reports (literal_action c) = [(m, keycodes_of [u]), (0, no_keys)] \<and>
    us_host_char \<lparr>hk_modifiers = m, hk_usage = u\<rparr> = Some c"
proof -
  have h: "host_types (literal_action c) = Some c"
    by (rule host_types_literal [OF assms])
  then obtain u where "ma_usages (literal_action c) = [u]" "ma_type (literal_action c) = MACRO_ACTION_KEY"
    "us_host_char \<lparr>hk_modifiers = ma_modifiers (literal_action c), hk_usage = u\<rparr> = Some c"
    by (auto simp: host_types_def split: if_splits list.splits)
  moreover from this have "u \<noteq> 0"
    by (auto simp: literal_action_def v2_key_action_def split: if_splits)
  ultimately show ?thesis
    by (intro exI [of _ "ma_modifiers (literal_action c)"] exI [of _ u])
      (simp add: action_reports_def)
qed

lemma host_reads_literals:
  assumes "\<forall>c \<in> set t. typeable c"
  shows "host_reads no_keys (concat (map (\<lambda>c. action_reports (literal_action c)) t) @ [(0, no_keys)])
    = map Some t"
  using assms
proof (induction t)
  case (Cons c t)
  obtain m u where u: "u \<noteq> 0" "action_reports (literal_action c) = [(m, keycodes_of [u]), (0, no_keys)]"
    "us_host_char \<lparr>hk_modifiers = m, hk_usage = u\<rparr> = Some c"
    using literal_reports [of c] Cons.prems by auto
  have "filter (\<lambda>v. v \<noteq> 0 \<and> v \<notin> set no_keys) (keycodes_of [u]) = [u]"
    "filter (\<lambda>v. v \<noteq> 0 \<and> v \<notin> set ks) no_keys = []" for ks
    using u(1) by (simp_all add: no_keys_def keycodes_of_def USB_KEYBOARD_KEYCODE_COUNT_def)
  then show ?case
    using Cons u by simp
qed (simp add: no_keys_def)

lemma literal_usages: "length (ma_usages (literal_action c)) \<le> 6"
  by (simp add: literal_action_def v2_key_action_def)

text \<open>
  C11: text in, text out.  Compile any printable text (with newlines and tabs, escaped for the
  macro language), execute the plan on the engine and let the USB keyboard send the reports:
  if the execution succeeds, a host with the US layout that had no key down reads exactly that
  text, repeated letters included.
\<close>

theorem typed_text_reaches_the_host:
  assumes "\<forall>c \<in> set t. typeable c" and "options_ok opts" and "length (macro_escape t) \<le> 4096"
    and "length t * (unat (co_key_press_ms opts) + unat (co_inter_key_ms opts)) \<le> 300000"
    and "rq_plan request = cr_plan
      (macro_compile_v2 (Some (macro_escape t)) (length (macro_escape t)) (Some opts) True)"
    and "macro_executor_engine_execute ops en request = Some (APP_ERROR_NONE, en')"
    and "\<not> en_unavailable en'" and "validate_request request = APP_ERROR_NONE"
    and "hid_trace en' = hid_trace en @ trace"
    and "drives (usb_keyboard_press kops) (usb_keyboard_state_release_all kops) (kb_env kops)
      kb trace kb'"
  shows "\<exists>sent. kb_reports kb' = kb_reports kb @ sent \<and> host_reads no_keys sent = map Some t"
proof -
  obtain p where "cr_plan (macro_compile_v2 (Some (macro_escape t)) (length (macro_escape t))
      (Some opts) True) = p" and p: "mp_actions p = map literal_action t"
    using literal_compile [OF assms(1-4)] by (metis compile_result.select_convs(2))
  then have acts: "mp_actions (rq_plan request) = map literal_action t"
    using assms(5) by simp
  then have "kb_reports kb' =
      kb_reports kb @ concat (map action_reports (map literal_action t)) @ [(0, no_keys)]"
    using execution_reports [OF assms(6-8) _ assms(9,10)] literal_usages by auto
  then show ?thesis
    using host_reads_literals [OF assms(1)] by (auto simp: comp_def)
qed

section \<open>A concrete run\<close>

definition good_kops :: usb_ops where
  "good_kops =
     \<lparr>kop_driver_install = (\<lambda>_. APP_ERROR_NONE), kop_driver_uninstall = (\<lambda>_. APP_ERROR_NONE),
      kop_now_ms = (\<lambda>h. of_nat (length h)), kop_mounted = (\<lambda>_. True),
      kop_suspended = (\<lambda>_. False), kop_hid_ready = (\<lambda>_. True),
      kop_send_keyboard_report = (\<lambda>_ _ _. True), kop_callbacks = (\<lambda>_. [])\<rparr>"

definition ready_keyboard :: keyboard where
  "ready_keyboard = \<lparr>kb_state = USB_KEYBOARD_READY, kb_events = []\<rparr>"

lemma good_ready_to_send:
  "kb_state kb = USB_KEYBOARD_READY \<Longrightarrow>
   \<exists>kb'. ready_to_send good_kops kb = Some (APP_ERROR_NONE, kb') \<and> kb_state kb' = USB_KEYBOARD_READY"
  by (simp add: ready_to_send_def wait_until_ready_def kb_state_get_def kb_call_defs
      good_kops_def ready_loop.simps kb_log_def)

lemma good_press:
  assumes "kb_state kb = USB_KEYBOARD_READY"
  shows "\<exists>kb'. usb_keyboard_press good_kops 0 [u] kb = Some (APP_ERROR_NONE, kb') \<and>
    kb_state kb' = USB_KEYBOARD_READY"
  using good_ready_to_send [OF assms]
  by (auto simp: usb_keyboard_press_def usb_keyboard_state_press_def kb_send_report_def Let_def
      USB_KEYBOARD_KEYCODE_COUNT_def good_kops_def kb_log_def)

lemma good_release:
  assumes "kb_state kb = USB_KEYBOARD_READY"
  shows "\<exists>kb'. usb_keyboard_state_release_all good_kops kb = Some (APP_ERROR_NONE, kb') \<and>
    kb_state kb' = USB_KEYBOARD_READY"
  using good_ready_to_send [OF assms]
  by (auto simp: usb_keyboard_state_release_all_def kb_send_report_def Let_def good_kops_def
      kb_log_def)

lemma sample_drive:
  "\<exists>kb'. drives (usb_keyboard_press good_kops) (usb_keyboard_state_release_all good_kops)
    (kb_env good_kops) ready_keyboard
    [Press_Event 0 [4] APP_ERROR_NONE, Release_All_Event APP_ERROR_NONE,
     Release_All_Event APP_ERROR_NONE] kb'"
proof -
  have "kb_state ready_keyboard = USB_KEYBOARD_READY"
    by (simp add: ready_keyboard_def)
  then show ?thesis
    using good_press [of ready_keyboard 4] good_release
    by (metis drives_Nil drives_press drives_release)
qed

definition letter_request :: execution_request where
  "letter_request = sample_request\<lparr>rq_plan := \<lparr>mp_actions =
     [\<lparr>ma_type = MACRO_ACTION_KEY, ma_modifiers = 0, ma_usages = [4], ma_delay_ms = 0\<rparr>],
     mp_estimated_duration_ms = 23\<rparr>\<rparr>"

lemma letter_plan:
  "cr_plan (macro_compile_v2 (Some ''a'') 1 (Some v2_default_options) True) = rq_plan letter_request"
  by code_simp

lemma letter_request_valid: "validate_request letter_request = APP_ERROR_NONE"
  by code_simp

lemma letter_execution:
  "(case macro_executor_engine_execute good_ops claimed_engine letter_request of
      None \<Rightarrow> False
    | Some (r, en) \<Rightarrow> r = APP_ERROR_NONE \<and> \<not> en_unavailable en \<and>
        hid_trace en = [Press_Event 0 [4] APP_ERROR_NONE, Release_All_Event APP_ERROR_NONE,
          Release_All_Event APP_ERROR_NONE])"
  by code_simp

lemma letter_run:
  obtains en' where
    "macro_executor_engine_execute good_ops claimed_engine letter_request = Some (APP_ERROR_NONE, en')"
    "\<not> en_unavailable en'"
    "hid_trace en' = hid_trace claimed_engine @
      [Press_Event 0 [4] APP_ERROR_NONE, Release_All_Event APP_ERROR_NONE,
       Release_All_Event APP_ERROR_NONE]"
  using letter_execution
  by (cases "macro_executor_engine_execute good_ops claimed_engine letter_request")
    (auto simp: claimed_engine_def macro_executor_engine_init_def)

theorem host_receives_the_plan_witness:
  "\<exists>kb'. kb_reports kb' = kb_reports ready_keyboard @
    concat (map action_reports (mp_actions (rq_plan letter_request))) @ [(0, no_keys)]"
proof -
  have "\<forall>a \<in> set (mp_actions (rq_plan letter_request)). length (ma_usages a) \<le> 6"
    by code_simp
  then show ?thesis
    using host_receives_the_plan [OF _ _ letter_request_valid] sample_drive letter_run by metis
qed

theorem typed_text_reaches_the_host_witness:
  "\<exists>kb' sent. kb_reports kb' = kb_reports ready_keyboard @ sent \<and>
    host_reads no_keys sent = map Some ''a''"
proof -
  have 1: "\<forall>c \<in> set ''a''. typeable c" "options_ok v2_default_options"
    "length (macro_escape ''a'') \<le> 4096"
    "length ''a'' * (unat (co_key_press_ms v2_default_options)
      + unat (co_inter_key_ms v2_default_options)) \<le> 300000"
    by (simp_all add: typeable_def printable_char_def options_ok_def v2_default_options_def
        limit_defs macro_escape_char_def)
  have 2: "rq_plan letter_request = cr_plan (macro_compile_v2 (Some (macro_escape ''a''))
      (length (macro_escape ''a'')) (Some v2_default_options) True)"
    using letter_plan by (simp add: macro_escape_char_def)
  obtain en' where 3:
    "macro_executor_engine_execute good_ops claimed_engine letter_request = Some (APP_ERROR_NONE, en')"
    "\<not> en_unavailable en'"
    "hid_trace en' = hid_trace claimed_engine @
      [Press_Event 0 [4] APP_ERROR_NONE, Release_All_Event APP_ERROR_NONE,
       Release_All_Event APP_ERROR_NONE]"
    by (rule letter_run)
  obtain kb' where "drives (usb_keyboard_press good_kops) (usb_keyboard_state_release_all good_kops)
    (kb_env good_kops) ready_keyboard
    [Press_Event 0 [4] APP_ERROR_NONE, Release_All_Event APP_ERROR_NONE,
     Release_All_Event APP_ERROR_NONE] kb'"
    using sample_drive by (rule exE)
  from typed_text_reaches_the_host [OF 1 2 3(1,2) letter_request_valid 3(3) this] show ?thesis
    by (rule exI)
qed

section \<open>Guards and termination of the keyboard\<close>

text \<open>What the platform documents of its clock, as for the execution engine.\<close>

definition kb_steady_clock :: "usb_ops \<Rightarrow> (kb_event list \<Rightarrow> nat) \<Rightarrow> bool" where
  "kb_steady_clock kops c \<longleftrightarrow>
     (\<forall>h. kop_now_ms kops h = of_nat (c h)) \<and>
     (\<forall>h ev. c h \<le> c (h @ [ev]) \<and> c (h @ [ev]) \<le> c h + TICK_BOUND) \<and>
     (\<forall>h ms. c h < c (h @ [Kb_Delay_Event ms])) \<and>
     (\<forall>kb. c (kb_events kb) \<le> c (kb_events (snd (kb_state_get kops kb))) \<and>
        c (kb_events (snd (kb_state_get kops kb))) \<le> c (kb_events kb) + TICK_BOUND)"

lemma ready_loop_ends:
  assumes "kb_steady_clock kops c" "c (kb_events kb) \<le> D + 2 * TICK_BOUND"
    "D \<le> c (kb_events kb) + 2 ^ 31"
  shows "\<exists>p. ready_loop kops (of_nat D) kb = Some p"
  using assms(2,3)
proof (induction "D - c (kb_events kb)" arbitrary: kb rule: less_induct)
  case less
  obtain r a where rd: "kb_hid_ready kops kb = (r, a)"
    by (metis prod.exhaust)
  obtain st b where sg: "kb_state_get kops a = (st, b)"
    by (metis prod.exhaust)
  obtain t d where nw: "kb_now_ms kops b = (t, d)"
    by (metis prod.exhaust)
  have tick: "c h \<le> c (h @ [ev])" "c (h @ [ev]) \<le> c h + TICK_BOUND" for h ev
    using assms(1) by (simp_all add: kb_steady_clock_def)
  have t: "t = of_nat (c (kb_events b))" and d: "kb_events d = kb_events b @ [Kb_Now_Event t]"
    and a: "kb_events a = kb_events kb @ [Hid_Ready_Event r]"
    using nw rd assms(1) by (auto simp: kb_call_defs kb_log_def kb_steady_clock_def)
  have "c (kb_events a) \<le> c (kb_events b)" "c (kb_events b) \<le> c (kb_events a) + TICK_BOUND"
    using assms(1) sg by (metis kb_steady_clock_def snd_conv)+
  then have b: "c (kb_events kb) \<le> c (kb_events b)"
    "c (kb_events b) \<le> c (kb_events kb) + 2 * TICK_BOUND"
    using tick [of "kb_events kb" "Hid_Ready_Event r"] unfolding a by linarith+
  have now: "deadline_expired t (of_nat D) \<longleftrightarrow> D \<le> c (kb_events b)"
    unfolding t using b less.prems by (intro deadline_expired_nat) (simp_all add: TICK_BOUND_def)
  let ?kb = "kb_log (Kb_Delay_Event 1) d"
  have ev: "kb_events ?kb = kb_events d @ [Kb_Delay_Event 1]"
    by (simp add: kb_log_def)
  have adv: "c (kb_events d) < c (kb_events ?kb)" "c (kb_events ?kb) \<le> c (kb_events d) + TICK_BOUND"
    unfolding ev using assms(1) by (simp_all add: kb_steady_clock_def)
  have "\<exists>p. ready_loop kops (of_nat D) ?kb = Some p" if "\<not> deadline_expired t (of_nat D)"
    using that now b adv tick [of "kb_events b" "Kb_Now_Event t"] less.prems
    unfolding d [symmetric] by (intro less.hyps) linarith+
  then show ?case
    using rd sg nw
    by (subst ready_loop.simps) (auto simp: deadline_expired_def)
qed

lemma ready_to_send_ends:
  assumes "kb_steady_clock kops c"
  shows "\<exists>p. ready_to_send kops kb = Some p"
proof -
  have "\<exists>p. wait_until_ready kops a = Some p" for a
  proof -
    obtain t b where nw: "kb_now_ms kops a = (t, b)"
      by (metis prod.exhaust)
    have t: "t = of_nat (c (kb_events a))" and b: "kb_events b = kb_events a @ [Kb_Now_Event t]"
      using nw assms by (auto simp: kb_call_defs kb_log_def kb_steady_clock_def)
    have "t + USB_KEYBOARD_READY_TIMEOUT_MS = of_nat (c (kb_events a) + 100)"
      by (simp add: t USB_KEYBOARD_READY_TIMEOUT_MS_def)
    moreover have "c (kb_events a) \<le> c (kb_events b)" "c (kb_events b) \<le> c (kb_events a) + TICK_BOUND"
      unfolding b using assms by (simp_all add: kb_steady_clock_def)
    ultimately show ?thesis
      using ready_loop_ends [OF assms, of b "c (kb_events a) + 100"] nw
      by (simp add: wait_until_ready_def)
  qed
  then show ?thesis
    by (auto simp: ready_to_send_def split: prod.splits)
qed

text \<open>
  the keyboard never blocks its caller: under a clock that advances with every delay, the
  press and release calls return for every state of the keyboard and whatever the USB stack
  answers, although the wait for the endpoint is a polling loop.
\<close>

theorem keyboard_calls_return:
  assumes "kb_steady_clock kops c"
  shows "(\<exists>e kb'. usb_keyboard_press kops m us kb = Some (e, kb')) \<and>
    (\<exists>e kb'. usb_keyboard_state_release_all kops kb = Some (e, kb'))"
  using ready_to_send_ends [OF assms, of kb]
  by (auto simp: usb_keyboard_press_def usb_keyboard_state_press_def Let_def
      usb_keyboard_state_release_all_def split: prod.splits)

theorem keyboard_calls_return_witness:
  "\<exists>e kb'. usb_keyboard_state_release_all good_kops ready_keyboard = Some (e, kb')"
proof -
  have "kb_steady_clock good_kops length"
    by (auto simp: kb_steady_clock_def good_kops_def TICK_BOUND_def kb_state_get_def)
  then show ?thesis
    using keyboard_calls_return [of good_kops length] by blast
qed

end
