(* ===== verification/Auth_Core.thy ===== *)
theory Auth_Core
  imports App_Uuid
begin

text \<open>
  Authentication: \<open>auth/auth_core_common.c\<close>, \<open>auth_core_password.c\<close>, \<open>auth_core_session.c\<close> and
  \<open>auth_core_rate_limit.c\<close>.  Every entry point is one critical section under the core's mutex.
  The platform behind \<open>auth_ops_t\<close> is the parameter \<open>env\<close>: for one call, whether the mutex
  was taken and given back, the microsecond clock it read and the random bytes of each attempt
  (\<open>None\<close> where the source fails).  The key derivation is the parameter \<open>derive\<close>, as the code
  hands it to PBKDF2.  A null pointer argument other than a string has no model.
\<close>

section \<open>Data\<close>

definition APP_SESSION_TABLE_MAX :: nat where
  [limit_defs]: "APP_SESSION_TABLE_MAX = 8"

definition APP_SESSION_TOKEN_BYTES :: nat where
  [limit_defs]: "APP_SESSION_TOKEN_BYTES = 32"

definition AUTH_RATE_LIMIT_SOURCE_MAX :: nat where
  [limit_defs]: "AUTH_RATE_LIMIT_SOURCE_MAX = 8"

definition AUTH_RATE_LIMIT_FAILURE_MAX :: nat where
  [limit_defs]: "AUTH_RATE_LIMIT_FAILURE_MAX = 5"

definition AUTH_SALT_BYTES :: nat where
  [limit_defs]: "AUTH_SALT_BYTES = 16"

definition AUTH_HASH_BYTES :: nat where
  [limit_defs]: "AUTH_HASH_BYTES = 32"

definition AUTH_PBKDF2_ITERATIONS :: u32 where
  [limit_defs]: "AUTH_PBKDF2_ITERATIONS = 5500"

definition AUTH_PASSWORD_MIN_BYTES :: nat where
  [limit_defs]: "AUTH_PASSWORD_MIN_BYTES = 12"

definition AUTH_PASSWORD_MAX_BYTES :: nat where
  [limit_defs]: "AUTH_PASSWORD_MAX_BYTES = 128"

definition AUTH_TOKEN_HEX_BYTES :: nat where
  [limit_defs]: "AUTH_TOKEN_HEX_BYTES = APP_SESSION_TOKEN_BYTES * 2 + 1"

definition AUTH_CORE_SESSION_IDLE_US :: u64 where
  [limit_defs]: "AUTH_CORE_SESSION_IDLE_US = 86400 * 1000000"

definition AUTH_CORE_SESSION_ABSOLUTE_US :: u64 where
  [limit_defs]: "AUTH_CORE_SESSION_ABSOLUTE_US = 604800 * 1000000"

definition AUTH_CORE_FAILURE_WINDOW_US :: u64 where
  [limit_defs]: "AUTH_CORE_FAILURE_WINDOW_US = 60 * 1000000"

definition AUTH_CORE_LOCKOUT_US :: u64 where
  [limit_defs]: "AUTH_CORE_LOCKOUT_US = 300 * 1000000"

definition AUTH_CORE_TOKEN_GENERATION_ATTEMPTS :: nat where
  [limit_defs]: "AUTH_CORE_TOKEN_GENERATION_ATTEMPTS = 4"

definition MICROSECONDS_PER_SECOND :: u64 where
  [limit_defs]: "MICROSECONDS_PER_SECOND = 1000000"

record password_record =
  pr_salt :: "u8 list"
  pr_hash :: "u8 list"
  pr_iterations :: u32

text \<open>The token is the C string in the array, the empty one where the array is zero.\<close>

record session_view =
  sv_session_token :: string
  sv_expires_at_us :: u64
  sv_absolute_expires_at_us :: u64

record session_entry =
  se_active :: bool
  se_view :: session_view
  se_last_used_us :: u64

record rate_limit_entry =
  rl_active :: bool
  rl_source_ipv4 :: u32
  rl_failures_us :: "u64 list"
  rl_failure_count :: nat
  rl_lockout_until_us :: u64
  rl_last_used_us :: u64

record auth_core =
  ac_sessions :: "session_entry list"
  ac_rate_limits :: "rate_limit_entry list"
  ac_last_now_us :: u64
  ac_clock_initialized :: bool

record auth_env =
  ae_lock :: bool
  ae_unlock :: bool
  ae_now_us :: u64
  ae_random :: "nat \<Rightarrow> u8 list option"

text \<open>What \<open>memset\<close> to zero makes of an entry.\<close>

definition zero_view :: session_view where
  "zero_view = \<lparr>sv_session_token = [], sv_expires_at_us = 0, sv_absolute_expires_at_us = 0\<rparr>"

definition zero_session :: session_entry where
  "zero_session = \<lparr>se_active = False, se_view = zero_view, se_last_used_us = 0\<rparr>"

definition zero_rate_limit :: rate_limit_entry where
  "zero_rate_limit =
     \<lparr>rl_active = False, rl_source_ipv4 = 0,
      rl_failures_us = replicate AUTH_RATE_LIMIT_FAILURE_MAX 0, rl_failure_count = 0,
      rl_lockout_until_us = 0, rl_last_used_us = 0\<rparr>"

definition auth_core_init :: auth_core where
  "auth_core_init =
     \<lparr>ac_sessions = replicate APP_SESSION_TABLE_MAX zero_session,
      ac_rate_limits = replicate AUTH_RATE_LIMIT_SOURCE_MAX zero_rate_limit,
      ac_last_now_us = 0, ac_clock_initialized = False\<rparr>"

section \<open>Common parts\<close>

definition auth_core_constant_time_equal :: "u8 list \<Rightarrow> u8 list \<Rightarrow> nat \<Rightarrow> bool" where
  "auth_core_constant_time_equal left right n =
     (foldl (\<lambda>difference index. difference OR (left ! index XOR right ! index)) 0 [0..<n] = 0)"

text \<open>The bytes of a token array: its string, zero-filled.\<close>

definition token_array :: "string \<Rightarrow> u8 list" where
  "token_array token =
     map (\<lambda>c. word_of_nat (byte c)) token @ replicate (AUTH_TOKEN_HEX_BYTES - length token) 0"

definition auth_core_valid_hex_token :: "string option \<Rightarrow> bool" where
  "auth_core_valid_hex_token token =
     (case token of
        None \<Rightarrow> False
      | Some s \<Rightarrow> length s = AUTH_TOKEN_HEX_BYTES - 1 \<and> list_all is_lower_hex s)"

definition auth_core_read_now :: "auth_env \<Rightarrow> auth_core \<Rightarrow> app_error \<times> u64 \<times> auth_core" where
  "auth_core_read_now env core =
     (let now = ae_now_us env
      in if ac_clock_initialized core \<and> now < ac_last_now_us core then (APP_ERROR_INTERNAL, 0, core)
         else (APP_ERROR_NONE, now, core\<lparr>ac_last_now_us := now, ac_clock_initialized := True\<rparr>))"

definition random_hex :: "u8 list option \<Rightarrow> app_error + string" where
  "random_hex bytes =
     (case bytes of None \<Rightarrow> Inl APP_ERROR_INTERNAL | Some bs \<Rightarrow> Inr (hex_bytes bs))"

definition token_matches :: "session_entry \<Rightarrow> string \<Rightarrow> bool" where
  "token_matches entry token =
     auth_core_constant_time_equal (token_array (sv_session_token (se_view entry)))
       (token_array token) (AUTH_TOKEN_HEX_BYTES - 1)"

definition token_exists :: "session_entry list \<Rightarrow> string \<Rightarrow> bool" where
  "token_exists sessions token = list_ex (\<lambda>e. se_active e \<and> token_matches e token) sessions"

text \<open>The attempts of \<open>auth_core_generate_session_tokens\<close>; the list holds those left.\<close>

fun token_attempts :: "auth_env \<Rightarrow> session_entry list \<Rightarrow> nat list \<Rightarrow> app_error + string" where
  "token_attempts env sessions [] = Inl APP_ERROR_INTERNAL"
| "token_attempts env sessions (attempt # attempts) =
     (case random_hex (ae_random env attempt) of
        Inl e \<Rightarrow> Inl e
      | Inr token \<Rightarrow>
          if \<not> token_exists sessions token then Inr token
          else token_attempts env sessions attempts)"

definition auth_core_generate_session_tokens ::
  "auth_env \<Rightarrow> session_entry list \<Rightarrow> app_error + string" where
  "auth_core_generate_session_tokens env sessions =
     token_attempts env sessions [0..<AUTH_CORE_TOKEN_GENERATION_ATTEMPTS]"

section \<open>Passwords\<close>

definition auth_core_password_create ::
  "(string \<Rightarrow> u8 list \<Rightarrow> u32 \<Rightarrow> u8 list option) \<Rightarrow> u8 list option \<Rightarrow> string option \<Rightarrow>
   app_error + password_record" where
  "auth_core_password_create derive random_salt password =
     (case password of
        None \<Rightarrow> Inl APP_ERROR_INVALID_ARGUMENT
      | Some pw \<Rightarrow>
          if length pw < AUTH_PASSWORD_MIN_BYTES \<or> length pw > AUTH_PASSWORD_MAX_BYTES \<or>
             CHR 0x00 \<in> set pw
          then Inl APP_ERROR_INVALID_ARGUMENT
          else case random_salt of
            None \<Rightarrow> Inl APP_ERROR_INTERNAL
          | Some salt \<Rightarrow>
              (case derive pw salt AUTH_PBKDF2_ITERATIONS of
                 None \<Rightarrow> Inl APP_ERROR_INTERNAL
               | Some hash \<Rightarrow>
                   Inr \<lparr>pr_salt = salt, pr_hash = hash, pr_iterations = AUTH_PBKDF2_ITERATIONS\<rparr>))"

definition auth_core_password_verify ::
  "(string \<Rightarrow> u8 list \<Rightarrow> u32 \<Rightarrow> u8 list option) \<Rightarrow> string option \<Rightarrow> password_record \<Rightarrow>
   app_error + bool" where
  "auth_core_password_verify derive password record =
     (case password of
        None \<Rightarrow> Inl APP_ERROR_INVALID_ARGUMENT
      | Some pw \<Rightarrow>
          if length pw < AUTH_PASSWORD_MIN_BYTES \<or> length pw > AUTH_PASSWORD_MAX_BYTES \<or>
             pr_iterations record < AUTH_PBKDF2_ITERATIONS \<or> CHR 0x00 \<in> set pw
          then Inl APP_ERROR_INVALID_ARGUMENT
          else case derive pw (pr_salt record) (pr_iterations record) of
            None \<Rightarrow> Inl APP_ERROR_INTERNAL
          | Some derived \<Rightarrow>
              Inr (auth_core_constant_time_equal derived (pr_hash record) AUTH_HASH_BYTES))"

section \<open>Sessions\<close>

definition session_expired :: "session_entry \<Rightarrow> u64 \<Rightarrow> bool" where
  "session_expired entry now \<longleftrightarrow>
     sv_expires_at_us (se_view entry) \<le> now \<or> sv_absolute_expires_at_us (se_view entry) \<le> now"

definition purge_expired_sessions :: "session_entry list \<Rightarrow> u64 \<Rightarrow> session_entry list" where
  "purge_expired_sessions sessions now =
     map (\<lambda>e. if se_active e \<and> session_expired e now then zero_session else e) sessions"

text \<open>The loop of \<open>select_session_slot\<close> from slot \<open>index\<close> on, with the slot used least recently.\<close>

fun select_slot_loop :: "nat \<Rightarrow> (nat \<times> u64) option \<Rightarrow> session_entry list \<Rightarrow> nat option" where
  "select_slot_loop index lru [] = map_option fst lru"
| "select_slot_loop index lru (entry # entries) =
     (if \<not> se_active entry then Some index
      else select_slot_loop (index + 1)
        (case lru of
           None \<Rightarrow> Some (index, se_last_used_us entry)
         | Some (i, used) \<Rightarrow>
             if se_last_used_us entry < used then Some (index, se_last_used_us entry) else lru)
        entries)"

definition select_session_slot :: "session_entry list \<Rightarrow> nat option" where
  "select_session_slot sessions = select_slot_loop 0 None sessions"

definition idle_expiry :: "u64 \<Rightarrow> u64 \<Rightarrow> u64" where
  "idle_expiry now absolute =
     (let idle = now + AUTH_CORE_SESSION_IDLE_US in if idle < absolute then idle else absolute)"

definition initialize_session_lifetimes ::
  "session_entry \<Rightarrow> u64 \<Rightarrow> app_error + session_entry" where
  "initialize_session_lifetimes entry now =
     (if (- 1) - now < AUTH_CORE_SESSION_ABSOLUTE_US \<or> (- 1) - now < AUTH_CORE_SESSION_IDLE_US
      then Inl APP_ERROR_INTERNAL
      else
        let absolute = now + AUTH_CORE_SESSION_ABSOLUTE_US
        in Inr (entry\<lparr>se_view := (se_view entry)
                        \<lparr>sv_absolute_expires_at_us := absolute,
                         sv_expires_at_us := idle_expiry now absolute\<rparr>,
                      se_last_used_us := now\<rparr>))"

text \<open>The part of \<open>auth_core_session_create\<close> between lock and unlock.\<close>

definition session_create_section ::
  "auth_env \<Rightarrow> auth_core \<Rightarrow> app_error + session_view \<times> auth_core" where
  "session_create_section env core =
     (case auth_core_read_now env core of (result, now, core) \<Rightarrow>
        if result \<noteq> APP_ERROR_NONE then Inl result
        else
          let sessions = purge_expired_sessions (ac_sessions core) now
          in case select_session_slot sessions of
            None \<Rightarrow> Inl APP_ERROR_INTERNAL
          | Some slot \<Rightarrow>
              (let sessions = sessions[slot := zero_session]
               in case auth_core_generate_session_tokens env sessions of
                 Inl e \<Rightarrow> Inl e
               | Inr token \<Rightarrow>
                   (case initialize_session_lifetimes
                       (zero_session\<lparr>se_view := zero_view\<lparr>sv_session_token := token\<rparr>\<rparr>) now of
                      Inl e \<Rightarrow> Inl e
                    | Inr entry \<Rightarrow>
                        Inr (se_view entry,
                             core\<lparr>ac_sessions := sessions[slot := entry\<lparr>se_active := True\<rparr>]\<rparr>))))"

definition auth_core_session_create ::
  "auth_env \<Rightarrow> auth_core \<Rightarrow> (app_error + session_view) \<times> auth_core" where
  "auth_core_session_create env core =
     (if \<not> ae_lock env then (Inl APP_ERROR_INTERNAL, core)
      else
        let (result, changed) =
          (case session_create_section env core of
             Inl e \<Rightarrow> (Inl e, core) | Inr (view, core') \<Rightarrow> (Inr view, core'))
        in if \<not> ae_unlock env then (Inl APP_ERROR_INTERNAL, core) else (result, changed))"

definition refresh_session :: "session_entry \<Rightarrow> u64 \<Rightarrow> app_error \<times> session_entry" where
  "refresh_session entry now =
     (if (- 1) - now < AUTH_CORE_SESSION_IDLE_US then (APP_ERROR_INTERNAL, entry)
      else (APP_ERROR_NONE,
            entry\<lparr>se_view := (se_view entry)
                    \<lparr>sv_expires_at_us :=
                       idle_expiry now (sv_absolute_expires_at_us (se_view entry))\<rparr>,
                  se_last_used_us := now\<rparr>))"

fun find_and_refresh_session ::
  "session_entry list \<Rightarrow> u64 \<Rightarrow> string \<Rightarrow> app_error \<times> session_entry list" where
  "find_and_refresh_session [] now token = (APP_ERROR_AUTH_REQUIRED, [])"
| "find_and_refresh_session (entry # entries) now token =
     (if \<not> se_active entry
      then (case find_and_refresh_session entries now token of (r, es) \<Rightarrow> (r, entry # es))
      else if session_expired entry now
      then (case find_and_refresh_session entries now token of (r, es) \<Rightarrow> (r, zero_session # es))
      else if token_matches entry token
      then (case refresh_session entry now of (r, e) \<Rightarrow> (r, e # entries))
      else (case find_and_refresh_session entries now token of (r, es) \<Rightarrow> (r, entry # es)))"

definition auth_core_session_validate ::
  "auth_env \<Rightarrow> auth_core \<Rightarrow> string option \<Rightarrow> app_error \<times> auth_core" where
  "auth_core_session_validate env core session_token =
     (if \<not> auth_core_valid_hex_token session_token then (APP_ERROR_AUTH_REQUIRED, core)
      else if \<not> ae_lock env then (APP_ERROR_INTERNAL, core)
      else
        let (result, changed) =
          (case auth_core_read_now env core of (result, now, core) \<Rightarrow>
             if result \<noteq> APP_ERROR_NONE then (result, core)
             else case find_and_refresh_session (ac_sessions core) now (the session_token) of
               (result, sessions) \<Rightarrow> (result, core\<lparr>ac_sessions := sessions\<rparr>))
        in if \<not> ae_unlock env then (APP_ERROR_INTERNAL, core) else (result, changed))"

definition find_session_remaining ::
  "session_entry list \<Rightarrow> u64 \<Rightarrow> string \<Rightarrow> app_error + u32 \<times> u32" where
  "find_session_remaining sessions now token =
     (case find (\<lambda>e. se_active e \<and> \<not> session_expired e now \<and> token_matches e token) sessions of
        None \<Rightarrow> Inl APP_ERROR_AUTH_REQUIRED
      | Some e \<Rightarrow>
          let idle = (if sv_expires_at_us (se_view e) > now
                      then sv_expires_at_us (se_view e) - now else 0);
              absolute = (if sv_absolute_expires_at_us (se_view e) > now
                          then sv_absolute_expires_at_us (se_view e) - now else 0)
          in Inr (ucast (idle div 1000000), ucast (absolute div 1000000)))"

definition auth_core_session_remaining ::
  "auth_env \<Rightarrow> auth_core \<Rightarrow> string option \<Rightarrow> (app_error + u32 \<times> u32) \<times> auth_core" where
  "auth_core_session_remaining env core session_token =
     (if \<not> auth_core_valid_hex_token session_token then (Inl APP_ERROR_INVALID_ARGUMENT, core)
      else if \<not> ae_lock env then (Inl APP_ERROR_INTERNAL, core)
      else case auth_core_read_now env core of (result, now, core) \<Rightarrow>
        let remaining = (if result \<noteq> APP_ERROR_NONE then Inl result
                         else find_session_remaining (ac_sessions core) now (the session_token))
        in (if \<not> ae_unlock env then Inl APP_ERROR_INTERNAL else remaining, core))"

fun logout_loop :: "session_entry list \<Rightarrow> string \<Rightarrow> app_error \<times> session_entry list" where
  "logout_loop [] token = (APP_ERROR_NOT_FOUND, [])"
| "logout_loop (entry # entries) token =
     (if se_active entry \<and> token_matches entry token then (APP_ERROR_NONE, zero_session # entries)
      else case logout_loop entries token of (r, es) \<Rightarrow> (r, entry # es))"

definition auth_core_session_logout ::
  "auth_env \<Rightarrow> auth_core \<Rightarrow> string option \<Rightarrow> app_error \<times> auth_core" where
  "auth_core_session_logout env core session_token =
     (if \<not> auth_core_valid_hex_token session_token then (APP_ERROR_INVALID_ARGUMENT, core)
      else if \<not> ae_lock env then (APP_ERROR_INTERNAL, core)
      else case logout_loop (ac_sessions core) (the session_token) of (result, sessions) \<Rightarrow>
        if \<not> ae_unlock env then (APP_ERROR_INTERNAL, core)
        else (result, core\<lparr>ac_sessions := sessions\<rparr>))"

definition auth_core_session_logout_all :: "auth_env \<Rightarrow> auth_core \<Rightarrow> app_error \<times> auth_core" where
  "auth_core_session_logout_all env core =
     (if \<not> ae_lock env then (APP_ERROR_INTERNAL, core)
      else (if ae_unlock env then APP_ERROR_NONE else APP_ERROR_INTERNAL,
            core\<lparr>ac_sessions := replicate APP_SESSION_TABLE_MAX zero_session\<rparr>))"

end
