(* ===== verification/Auth_Rate_Limit.thy ===== *)
theory Auth_Rate_Limit
  imports Auth_Core
begin

text \<open>
  The login rate limiter of \<open>auth/auth_core_rate_limit.c\<close>: a table of eight sources, each with
  the instants of its last failures; five failures within a minute lock the source out for five
  minutes.
\<close>

section \<open>Entries\<close>

definition retry_seconds :: "u64 \<Rightarrow> u32" where
  "retry_seconds remaining_us =
     ucast ((remaining_us + MICROSECONDS_PER_SECOND - 1) div MICROSECONDS_PER_SECOND)"

definition fresh_entry :: "u32 \<Rightarrow> u64 \<Rightarrow> rate_limit_entry" where
  "fresh_entry source now =
     zero_rate_limit\<lparr>rl_active := True, rl_source_ipv4 := source, rl_last_used_us := now\<rparr>"

definition clear_expired_lockout :: "rate_limit_entry \<Rightarrow> u64 \<Rightarrow> rate_limit_entry" where
  "clear_expired_lockout entry now =
     (if rl_lockout_until_us entry \<noteq> 0 \<and> rl_lockout_until_us entry \<le> now
      then fresh_entry (rl_source_ipv4 entry) now else entry)"

text \<open>The failures \<open>prune_failures\<close> keeps, in order.\<close>

definition recent_failures :: "rate_limit_entry \<Rightarrow> u64 \<Rightarrow> u64 list" where
  "recent_failures entry now =
     filter (\<lambda>f. now - f < AUTH_CORE_FAILURE_WINDOW_US)
       (take (rl_failure_count entry) (rl_failures_us entry))"

definition prune_failures :: "rate_limit_entry \<Rightarrow> u64 \<Rightarrow> rate_limit_entry" where
  "prune_failures entry now =
     (if \<not> rl_active entry then entry
      else
        let entry = clear_expired_lockout entry now
        in if rl_lockout_until_us entry > now then entry\<lparr>rl_last_used_us := now\<rparr>
           else
             let kept = recent_failures entry now
             in entry\<lparr>rl_failures_us := kept @ replicate (AUTH_RATE_LIMIT_FAILURE_MAX - length kept) 0,
                      rl_failure_count := length kept, rl_last_used_us := now\<rparr>)"

fun find_entry_loop :: "nat \<Rightarrow> u32 \<Rightarrow> rate_limit_entry list \<Rightarrow> nat option" where
  "find_entry_loop index source [] = None"
| "find_entry_loop index source (e # es) =
     (if rl_active e \<and> rl_source_ipv4 e = source then Some index
      else find_entry_loop (index + 1) source es)"

definition find_entry :: "rate_limit_entry list \<Rightarrow> u32 \<Rightarrow> nat option" where
  "find_entry entries source = find_entry_loop 0 source entries"

text \<open>
  The loop of \<open>allocate_entry\<close>: \<open>Inl i\<close> the free slot it returned with, or \<open>Inr\<close> the least
  recent unlocked one after the last slot, with the entries as pruned on the way.
\<close>

fun allocate_loop ::
  "u64 \<Rightarrow> nat \<Rightarrow> (nat \<times> u64) option \<Rightarrow> rate_limit_entry list \<Rightarrow>
   (nat + (nat \<times> u64) option) \<times> rate_limit_entry list" where
  "allocate_loop now index lru [] = (Inr lru, [])"
| "allocate_loop now index lru (entry # entries) =
     (if \<not> rl_active entry then (Inl index, entry # entries)
      else
        let entry = prune_failures entry now;
            lru = (if rl_lockout_until_us entry > now then lru
                   else case lru of
                     None \<Rightarrow> Some (index, rl_last_used_us entry)
                   | Some (i, used) \<Rightarrow>
                       if rl_last_used_us entry < used then Some (index, rl_last_used_us entry)
                       else lru)
        in case allocate_loop now (index + 1) lru entries of
          (choice, es) \<Rightarrow> (choice, entry # es))"

definition allocate_entry ::
  "rate_limit_entry list \<Rightarrow> u32 \<Rightarrow> u64 \<Rightarrow> nat option \<times> rate_limit_entry list" where
  "allocate_entry entries source now =
     (case allocate_loop now 0 None entries of
        (Inl i, es) \<Rightarrow> (Some i, es[i := fresh_entry source now])
      | (Inr None, es) \<Rightarrow> (None, es)
      | (Inr (Some (i, used)), es) \<Rightarrow> (Some i, es[i := fresh_entry source now]))"

section \<open>Operations\<close>

definition auth_core_login_attempt_allowed ::
  "auth_env \<Rightarrow> auth_core \<Rightarrow> u32 \<Rightarrow> app_error \<times> u32 \<times> auth_core" where
  "auth_core_login_attempt_allowed env core source =
     (if \<not> ae_lock env then (APP_ERROR_INTERNAL, 0, core)
      else
        let (result, retry, changed) =
          (case auth_core_read_now env core of (result, now, core) \<Rightarrow>
             if result \<noteq> APP_ERROR_NONE then (result, 0, core)
             else case find_entry (ac_rate_limits core) source of
               None \<Rightarrow> (APP_ERROR_NONE, 0, core)
             | Some i \<Rightarrow>
                 let entry = prune_failures (ac_rate_limits core ! i) now;
                     core = core\<lparr>ac_rate_limits := (ac_rate_limits core)[i := entry]\<rparr>
                 in if rl_lockout_until_us entry > now
                    then (APP_ERROR_RATE_LIMITED, retry_seconds (rl_lockout_until_us entry - now), core)
                    else (APP_ERROR_NONE, 0, core))
        in if \<not> ae_unlock env then (APP_ERROR_INTERNAL, 0, core) else (result, retry, changed))"

text \<open>Counting a failure in the entry of its source.\<close>

definition count_failure :: "rate_limit_entry \<Rightarrow> u64 \<Rightarrow> app_error \<times> rate_limit_entry" where
  "count_failure entry now =
     (if rl_lockout_until_us entry > now then (APP_ERROR_RATE_LIMITED, entry)
      else if rl_failure_count entry \<ge> AUTH_RATE_LIMIT_FAILURE_MAX then (APP_ERROR_INTERNAL, entry)
      else
        let entry = entry\<lparr>rl_failures_us := (rl_failures_us entry)[rl_failure_count entry := now],
                          rl_failure_count := rl_failure_count entry + 1, rl_last_used_us := now\<rparr>
        in if rl_failure_count entry = AUTH_RATE_LIMIT_FAILURE_MAX
           then (if (- 1) - now < AUTH_CORE_LOCKOUT_US then (APP_ERROR_INTERNAL, entry)
                 else (APP_ERROR_NONE, entry\<lparr>rl_lockout_until_us := now + AUTH_CORE_LOCKOUT_US\<rparr>))
           else (APP_ERROR_NONE, entry))"

definition auth_core_login_record_failure ::
  "auth_env \<Rightarrow> auth_core \<Rightarrow> u32 \<Rightarrow> app_error \<times> auth_core" where
  "auth_core_login_record_failure env core source =
     (if \<not> ae_lock env then (APP_ERROR_INTERNAL, core)
      else
        let (result, changed) =
          (case auth_core_read_now env core of (result, now, core) \<Rightarrow>
             if result \<noteq> APP_ERROR_NONE then (result, core)
             else case (case find_entry (ac_rate_limits core) source of
                 None \<Rightarrow> allocate_entry (ac_rate_limits core) source now
               | Some i \<Rightarrow>
                   (Some i, (ac_rate_limits core)[i := prune_failures (ac_rate_limits core ! i) now]))
               of (None, entries) \<Rightarrow> (APP_ERROR_RATE_LIMITED, core\<lparr>ac_rate_limits := entries\<rparr>)
             | (Some i, entries) \<Rightarrow>
                 (case count_failure (entries ! i) now of (result, entry) \<Rightarrow>
                    (result, core\<lparr>ac_rate_limits := entries[i := entry]\<rparr>)))
        in if \<not> ae_unlock env then (APP_ERROR_INTERNAL, core) else (result, changed))"

definition auth_core_login_record_success ::
  "auth_env \<Rightarrow> auth_core \<Rightarrow> u32 \<Rightarrow> app_error \<times> auth_core" where
  "auth_core_login_record_success env core source =
     (if \<not> ae_lock env then (APP_ERROR_INTERNAL, core)
      else if \<not> ae_unlock env then (APP_ERROR_INTERNAL, core)
      else case find_entry (ac_rate_limits core) source of
        None \<Rightarrow> (APP_ERROR_NONE, core)
      | Some i \<Rightarrow>
          (APP_ERROR_NONE,
           core\<lparr>ac_rate_limits := (ac_rate_limits core)[i := zero_rate_limit]\<rparr>))"

end
