(* ===== verification/Auth_Sessions.thy ===== *)
theory Auth_Sessions
  imports Auth_Rate_Limit
begin

text \<open>
  What the session table promises.  The abstract view of the table is the map \<open>live\<close> from
  session tokens to their idle and absolute expiry, at an instant; every operation is shown to
  be the corresponding operation of that map.  The locale \<open>locked_operation\<close> is the contract of
  a critical section (nothing happens without the lock, and a failed unlock rolls back); all
  entry points but one meet it.
\<close>

section \<open>Constant-time comparison\<close>

lemma or_fold_zero:
  "foldl (\<lambda>d i. d OR f i) (a :: u8) is = 0 \<longleftrightarrow> a = 0 \<and> (\<forall>i \<in> set is. f i = 0)"
proof (induction "is" arbitrary: a)
  case (Cons i "is")
  have "a OR f i = 0 \<longleftrightarrow> a = 0 \<and> f i = 0"
    by (rule or_eq_0_iff)
  then show ?case
    using Cons.IH [of "a OR f i"] by auto
qed simp

lemma xor_zero_iff: "a XOR b = 0 \<longleftrightarrow> a = b" for a b :: u8
  using xor_cancel_right [of a b b] by simp

lemma constant_time_equal_iff:
  "auth_core_constant_time_equal left right n \<longleftrightarrow> (\<forall>i < n. left ! i = right ! i)"
  by (simp add: auth_core_constant_time_equal_def or_fold_zero atLeast0LessThan
      xor_zero_iff Ball_def)

text \<open>
  the comparison without early exit that checks session tokens and password hashes is
  equality of the compared bytes: it accepts exactly the right secret.
\<close>

theorem constant_time_equal_is_equality:
  assumes "n \<le> length left" and "n \<le> length right"
  shows "auth_core_constant_time_equal left right n \<longleftrightarrow> take n left = take n right"
  unfolding constant_time_equal_iff
proof
  assume "\<forall>i < n. left ! i = right ! i"
  then show "take n left = take n right"
    using assms by (intro nth_equalityI) simp_all
next
  assume "take n left = take n right"
  then show "\<forall>i < n. left ! i = right ! i"
    by (metis nth_take)
qed

theorem constant_time_equal_is_equality_witness:
  "auth_core_constant_time_equal [1, 2, 3] [1, 2, 4] 2 \<and>
   \<not> auth_core_constant_time_equal [1, 2, 3] [1, 2, 4] 3"
  using constant_time_equal_is_equality [of 2 "[1, 2, 3]" "[1, 2, 4]"]
    constant_time_equal_is_equality [of 3 "[1, 2, 3]" "[1, 2, 4]"] by simp

abbreviation token_of :: "session_entry \<Rightarrow> string" where
  "token_of e \<equiv> sv_session_token (se_view e)"

lemma byte_word_inject: "(word_of_nat (byte c) :: u8) = word_of_nat (byte d) \<longleftrightarrow> c = d"
proof -
  have "unat (word_of_nat (byte x) :: u8) = byte x" for x
    using byte_less_256 [of x] by (simp add: unat_of_nat)
  then show ?thesis
    by (metis byte_inject)
qed

lemma token_matches_iff:
  assumes "length (token_of e) = 64" "length token = 64"
  shows "token_matches e token \<longleftrightarrow> token_of e = token"
proof -
  have "token_matches e token \<longleftrightarrow> (\<forall>i < 64. token_of e ! i = token ! i)"
    using assms
    by (simp add: token_matches_def constant_time_equal_iff token_array_def nth_append
        AUTH_TOKEN_HEX_BYTES_def APP_SESSION_TOKEN_BYTES_def byte_word_inject)
  also have "\<dots> \<longleftrightarrow> token_of e = token"
    using assms by (auto intro: nth_equalityI)
  finally show ?thesis .
qed

section \<open>The table as a map\<close>

definition alive :: "u64 \<Rightarrow> u64 \<times> u64 \<Rightarrow> (u64 \<times> u64) option" where
  "alive now lifetime = (if fst lifetime \<le> now \<or> snd lifetime \<le> now then None else Some lifetime)"

fun live :: "session_entry list \<Rightarrow> u64 \<Rightarrow> string \<Rightarrow> (u64 \<times> u64) option" where
  "live [] now token = None"
| "live (e # es) now token =
     (if se_active e \<and> \<not> session_expired e now \<and> token_of e = token
      then Some (sv_expires_at_us (se_view e), sv_absolute_expires_at_us (se_view e))
      else live es now token)"

definition tokens :: "session_entry list \<Rightarrow> string list" where
  "tokens es = map token_of (filter se_active es)"

lemma tokens_simps [simp]:
  "tokens [] = []"
  "tokens (e # es) = (if se_active e then token_of e # tokens es else tokens es)"
  by (simp_all add: tokens_def)

lemma tokens_append [simp]: "tokens (xs @ ys) = tokens xs @ tokens ys"
  by (simp add: tokens_def)

lemma live_unknown: "token \<notin> set (tokens es) \<Longrightarrow> live es now token = None"
  by (induction es) (auto split: if_splits)

lemma zero_session_simps [simp]: "\<not> se_active zero_session" "token_of zero_session = []"
  by (simp_all add: zero_session_def zero_view_def)

lemma expired_later: "session_expired e now \<Longrightarrow> now \<le> later \<Longrightarrow> session_expired e later"
  by (auto simp: session_expired_def)

text \<open>A session entry as every operation keeps it.\<close>

definition entry_ok :: "session_entry \<Rightarrow> bool" where
  "entry_ok e \<longleftrightarrow> (se_active e \<longrightarrow>
     length (token_of e) = 64 \<and> list_all is_lower_hex (token_of e) \<and>
     sv_expires_at_us (se_view e) \<le> sv_absolute_expires_at_us (se_view e) \<and>
     unat (sv_expires_at_us (se_view e)) \<le> unat (se_last_used_us e) + unat AUTH_CORE_SESSION_IDLE_US)"

definition sessions_ok :: "session_entry list \<Rightarrow> bool" where
  "sessions_ok es \<longleftrightarrow>
     length es = APP_SESSION_TABLE_MAX \<and> list_all entry_ok es \<and> distinct (tokens es)"

lemma entry_ok_zero [simp]: "entry_ok zero_session"
  by (simp add: entry_ok_def)

section \<open>Validating a session\<close>

lemma room_for_idle:
  "\<not> (- 1) - now < AUTH_CORE_SESSION_IDLE_US \<Longrightarrow>
   unat (now + AUTH_CORE_SESSION_IDLE_US) = unat now + unat AUTH_CORE_SESSION_IDLE_US" for now :: u64
  using word_add_overflow_iff [of now AUTH_CORE_SESSION_IDLE_US]
  by (intro unat_add_no_overflow) simp

lemma idle_expiry_bounds:
  assumes "\<not> (- 1) - now < AUTH_CORE_SESSION_IDLE_US"
  shows "idle_expiry now a \<le> a \<and> unat (idle_expiry now a) \<le> unat now + unat AUTH_CORE_SESSION_IDLE_US"
  using room_for_idle [OF assms]
  by (auto simp: idle_expiry_def Let_def word_le_nat_alt word_less_nat_alt)

lemma refresh_list:
  assumes "find_and_refresh_session es now token = (r, es')" "list_all entry_ok es"
    "distinct (tokens es)" "length token = 64" "\<not> (- 1) - now < AUTH_CORE_SESSION_IDLE_US"
  shows "list_all entry_ok es' \<and> distinct (tokens es') \<and> set (tokens es') \<subseteq> set (tokens es) \<and>
    length es' = length es \<and>
    r = (if live es now token = None then APP_ERROR_AUTH_REQUIRED else APP_ERROR_NONE) \<and>
    (now \<le> later \<longrightarrow> live es' later =
      (case live es now token of
         None \<Rightarrow> live es later
       | Some (x, a) \<Rightarrow> (live es later)(token := alive later (idle_expiry now a, a))))"
  using assms
proof (induction es arbitrary: r es')
  case (Cons e es)
  obtain r' rest where rec: "find_and_refresh_session es now token = (r', rest)"
    by (metis prod.exhaust)
  have tail: "list_all entry_ok es" "distinct (tokens es)"
    using Cons.prems by (auto split: if_splits)
  note IH = Cons.IH [OF rec tail Cons.prems(4,5)]
  show ?case
  proof (cases "se_active e")
    case inactive: False
    then have "r = r' \<and> es' = e # rest"
      using Cons.prems(1) rec by simp
    then show ?thesis
      using IH inactive Cons.prems(2) by (auto split: option.splits)
  next
    case active: True
    show ?thesis
    proof (cases "session_expired e now")
      case True
      then have "r = r' \<and> es' = zero_session # rest"
        using Cons.prems(1) rec active by simp
      moreover have "session_expired e later" if "now \<le> later"
        using expired_later [OF True that] .
      ultimately show ?thesis
        using IH active True Cons.prems(2,3) by (auto split: option.splits)
    next
      case alive: False
      have len: "length (token_of e) = 64"
        using Cons.prems(2) active by (simp add: entry_ok_def)
      show ?thesis
      proof (cases "token_of e = token")
        case True
        then have hit: "r = APP_ERROR_NONE" "es' = e\<lparr>se_view := (se_view e)
            \<lparr>sv_expires_at_us := idle_expiry now (sv_absolute_expires_at_us (se_view e))\<rparr>,
            se_last_used_us := now\<rparr> # es"
          using Cons.prems(1,4,5) active alive token_matches_iff [OF len]
          by (auto simp: refresh_session_def)
        have fresh: "live es t token = None" for t
          using Cons.prems(3) active True by (intro live_unknown) simp
        have "live es' later = (live (e # es) later)
            (token := alive later (idle_expiry now (sv_absolute_expires_at_us (se_view e)),
              sv_absolute_expires_at_us (se_view e)))"
          using hit(2) True fresh active by (auto simp: fun_eq_iff alive_def session_expired_def)
        then show ?thesis
          using hit active alive True Cons.prems(2,3)
            idle_expiry_bounds [OF Cons.prems(5)]
          by (auto simp: entry_ok_def)
      next
        case False
        then have "r = r' \<and> es' = e # rest"
          using Cons.prems(1,4) active alive token_matches_iff [OF len] rec by simp
        then show ?thesis
          using IH active alive False Cons.prems(2,3)
          by (auto simp: fun_eq_iff split: option.splits)
      qed
    qed
  qed
qed simp

text \<open>The platform hands out the 32 random bytes it is asked for, and its clock does not go back.\<close>

definition env_ok :: "auth_env \<Rightarrow> bool" where
  "env_ok env \<longleftrightarrow> (\<forall>n bs. ae_random env n = Some bs \<longrightarrow> length bs = APP_SESSION_TOKEN_BYTES)"

definition clock_ok :: "auth_env \<Rightarrow> auth_core \<Rightarrow> bool" where
  "clock_ok env core \<longleftrightarrow> \<not> (ac_clock_initialized core \<and> ae_now_us env < ac_last_now_us core)"

text \<open>
  C12: validating a session accepts a token exactly when it names a session whose idle and
  absolute expiry both lie in the future, and then extends only that session's idle expiry, to
  24 hours from now but never beyond its unchanged absolute expiry.  Every other session, and
  every session when the token is refused, keeps its lifetime at all later instants.
\<close>

theorem session_validation_refines:
  assumes "sessions_ok (ac_sessions core)" and "auth_core_valid_hex_token (Some token)"
    and "ae_lock env" and "ae_unlock env" and "clock_ok env core"
    and "\<not> (- 1) - ae_now_us env < AUTH_CORE_SESSION_IDLE_US" and "ae_now_us env \<le> later"
    and "auth_core_session_validate env core (Some token) = (r, core')"
  shows "case live (ac_sessions core) (ae_now_us env) token of
      None \<Rightarrow> r = APP_ERROR_AUTH_REQUIRED \<and>
        live (ac_sessions core') later = live (ac_sessions core) later
    | Some (x, a) \<Rightarrow> r = APP_ERROR_NONE \<and>
        live (ac_sessions core') later =
          (live (ac_sessions core) later)
            (token := alive later (idle_expiry (ae_now_us env) a, a))"
proof -
  obtain r' es where fr:
    "find_and_refresh_session (ac_sessions core) (ae_now_us env) token = (r', es)"
    by (metis prod.exhaust)
  have "r' = r" "ac_sessions core' = es"
    using assms fr
    by (auto simp: auth_core_session_validate_def auth_core_read_now_def clock_ok_def Let_def)
  moreover have "length token = 64"
    using assms(2) by (simp add: auth_core_valid_hex_token_def limit_defs)
  ultimately show ?thesis
    using refresh_list [OF fr _ _ _ assms(6), of later] assms(1,7)
    by (auto simp: sessions_ok_def split: option.splits)
qed

section \<open>Logging out\<close>

lemma logout_list:
  assumes "logout_loop es token = (r, es')" "list_all entry_ok es" "distinct (tokens es)"
    "length token = 64"
  shows "list_all entry_ok es' \<and> distinct (tokens es') \<and> set (tokens es') \<subseteq> set (tokens es) \<and>
    length es' = length es \<and> live es' now = (live es now)(token := None) \<and>
    r = (if token \<in> set (tokens es) then APP_ERROR_NONE else APP_ERROR_NOT_FOUND)"
  using assms
proof (induction es arbitrary: r es')
  case (Cons e es)
  obtain r' rest where rec: "logout_loop es token = (r', rest)"
    by (metis prod.exhaust)
  have tail: "list_all entry_ok es" "distinct (tokens es)"
    using Cons.prems by (auto split: if_splits)
  note IH = Cons.IH [OF rec tail Cons.prems(4)]
  show ?case
  proof (cases "se_active e \<and> token_of e = token")
    case True
    then have "length (token_of e) = 64"
      using Cons.prems(2) by (simp add: entry_ok_def)
    then have "r = APP_ERROR_NONE" "es' = zero_session # es"
      using Cons.prems(1,4) True token_matches_iff by auto
    moreover have "live es now token = None"
      using Cons.prems(3) True by (intro live_unknown) simp
    ultimately show ?thesis
      using True tail by (auto simp: fun_eq_iff)
  next
    case False
    then have "\<not> (se_active e \<and> token_matches e token)"
      using Cons.prems(2,4) token_matches_iff [of e token] by (auto simp: entry_ok_def)
    then have "r = r'" "es' = e # rest"
      using Cons.prems(1) rec by auto
    then show ?thesis
      using IH False Cons.prems(2,3) by (auto simp: fun_eq_iff)
  qed
qed (simp add: fun_eq_iff)

text \<open>
  logging out removes exactly the session of the token, at every instant, and nothing
  brings it back: from then on the token is refused, while all other sessions keep their
  lifetimes.  A token without an active session is reported as not found.
\<close>

theorem logout_refines:
  assumes "sessions_ok (ac_sessions core)" and "auth_core_valid_hex_token (Some token)"
    and "ae_lock env" and "ae_unlock env"
    and "auth_core_session_logout env core (Some token) = (r, core')"
  shows "live (ac_sessions core') now = (live (ac_sessions core) now)(token := None) \<and>
    r = (if token \<in> set (tokens (ac_sessions core)) then APP_ERROR_NONE else APP_ERROR_NOT_FOUND) \<and>
    fst (auth_core_session_validate env' core' (Some token)) \<noteq> APP_ERROR_NONE"
proof -
  obtain r' es where lo: "logout_loop (ac_sessions core) token = (r', es)"
    by (metis prod.exhaust)
  have core': "r' = r" "core' = core\<lparr>ac_sessions := es\<rparr>"
    using assms lo by (auto simp: auth_core_session_logout_def)
  have len: "length token = 64"
    using assms(2) by (simp add: auth_core_valid_hex_token_def limit_defs)
  have ok: "list_all entry_ok (ac_sessions core)" "distinct (tokens (ac_sessions core))"
    using assms(1) by (simp_all add: sessions_ok_def)
  note list = logout_list [OF lo ok len]
  have "fst (find_and_refresh_session es t token) \<noteq> APP_ERROR_NONE" for t
  proof -
    have unmatched: "fst (find_and_refresh_session es t token) \<noteq> APP_ERROR_NONE"
      if "\<forall>e \<in> set es. se_active e \<longrightarrow> session_expired e t \<or> \<not> token_matches e token" for es
      using that by (induction es) (auto split: prod.splits)
    have dead: "live es t token = None"
      using list [of t] by simp
    have "\<not> token_matches e token" if "e \<in> set es" "se_active e" "\<not> session_expired e t" for e
    proof -
      have "length (token_of e) = 64"
        using list that by (auto simp: list_all_iff entry_ok_def)
      moreover have "token_of e \<noteq> token"
        using dead that by (induction es) (auto split: if_splits)
      ultimately show ?thesis
        using token_matches_iff len by blast
    qed
    then show ?thesis
      by (intro unmatched) blast
  qed
  then have "find_and_refresh_session es t token \<noteq> (APP_ERROR_NONE, x)" for t x
    by (metis fst_conv)
  then have "fst (auth_core_session_validate env' core' (Some token)) \<noteq> APP_ERROR_NONE"
    unfolding core'(2)
    by (auto simp: auth_core_session_validate_def auth_core_read_now_def Let_def split: prod.splits)
  then show ?thesis
    using list core' by simp
qed

section \<open>Creating a session\<close>

lemma select_slot_spec:
  assumes "select_slot_loop (length pre) lru es = result" "\<forall>e \<in> set pre. se_active e"
    "case lru of None \<Rightarrow> pre = []
     | Some (j, u) \<Rightarrow> j < length pre \<and> u = se_last_used_us (pre ! j) \<and>
         (\<forall>e \<in> set pre. u \<le> se_last_used_us e)"
  shows "case result of None \<Rightarrow> pre @ es = []
    | Some i \<Rightarrow> i < length (pre @ es) \<and>
        (se_active ((pre @ es) ! i) \<longrightarrow>
           (\<forall>e \<in> set (pre @ es). se_active e \<and> se_last_used_us ((pre @ es) ! i) \<le> se_last_used_us e))"
  using assms
proof (induction es arbitrary: pre lru)
  case Nil
  then show ?case
    by (auto split: option.splits)
next
  case (Cons e es)
  show ?case
  proof (cases "se_active e")
    case False
    then show ?thesis
      using Cons.prems(1) by auto
  next
    case True
    obtain lru' where lru': "select_slot_loop (length (pre @ [e])) lru' es = result"
      "case lru' of None \<Rightarrow> pre @ [e] = []
       | Some (j, u) \<Rightarrow> j < length (pre @ [e]) \<and> u = se_last_used_us ((pre @ [e]) ! j) \<and>
           (\<forall>x \<in> set (pre @ [e]). u \<le> se_last_used_us x)"
    proof (cases lru)
      case None
      then show thesis
        using that [of "Some (length pre, se_last_used_us e)"] Cons.prems True by simp
    next
      case (Some p)
      obtain j u where p: "p = (j, u)" by (metis prod.exhaust)
      show thesis
      proof (cases "se_last_used_us e < u")
        case less: True
        then have "\<forall>x \<in> set (pre @ [e]). se_last_used_us e \<le> se_last_used_us x"
          using Cons.prems(3) Some p by (auto intro: less_imp_le less_le_trans)
        then show thesis
          using that [of "Some (length pre, se_last_used_us e)"] Cons.prems(1) True Some p less
          by simp
      next
        case False
        then show thesis
          using that [of lru] Cons.prems True Some p by (auto simp: nth_append)
      qed
    qed
    from Cons.IH [OF lru'(1) _ lru'(2)] Cons.prems(2) True show ?thesis
      by (auto split: option.splits)
  qed
qed

lemma select_session_slot_spec:
  assumes "select_session_slot es = Some i"
  shows "i < length es \<and> (se_active (es ! i) \<longrightarrow>
    (\<forall>e \<in> set es. se_active e \<and> se_last_used_us (es ! i) \<le> se_last_used_us e))"
  using select_slot_spec [of "[]" None es "Some i"] assms by (simp add: select_session_slot_def)

lemma purge_spec:
  assumes "list_all entry_ok es" "distinct (tokens es)"
  shows "list_all entry_ok (purge_expired_sessions es now) \<and>
    distinct (tokens (purge_expired_sessions es now)) \<and>
    set (tokens (purge_expired_sessions es now)) \<subseteq> set (tokens es) \<and>
    length (purge_expired_sessions es now) = length es \<and>
    (now \<le> later \<longrightarrow> live (purge_expired_sessions es now) later = live es later)"
  using assms
proof (induction es)
  case (Cons e es)
  have "session_expired e later" if "session_expired e now" "now \<le> later"
    using expired_later that .
  then show ?case
    using Cons by (auto simp: purge_expired_sessions_def fun_eq_iff split: if_splits)
qed (simp add: purge_expired_sessions_def)

lemma tokens_update:
  assumes "i < length es"
  shows "tokens (es[i := e]) = tokens (take i es) @ tokens [e] @ tokens (drop (Suc i) es)"
  by (metis assms tokens_append upd_conv_take_nth_drop append_Cons append_Nil)

lemma tokens_split:
  assumes "i < length es"
  shows "tokens es = tokens (take i es) @ tokens [es ! i] @ tokens (drop (Suc i) es)"
  by (metis assms tokens_update list_update_id)

lemma live_update_other:
  assumes "i < length es" "se_active e \<longrightarrow> token_of e \<noteq> t" "se_active (es ! i) \<longrightarrow> token_of (es ! i) \<noteq> t"
  shows "live (es[i := e]) now t = live es now t"
  using assms
proof (induction es arbitrary: i)
  case (Cons x es)
  then show ?case
    by (cases i) auto
qed simp

lemma live_update_hit:
  assumes "i < length es" "se_active e" "token_of e \<notin> set (tokens es)"
  shows "live (es[i := e]) now (token_of e) =
    alive now (sv_expires_at_us (se_view e), sv_absolute_expires_at_us (se_view e))"
  using assms
proof (induction es arbitrary: i)
  case (Cons x es)
  then show ?case
    using live_unknown by (cases i) (auto simp: alive_def session_expired_def split: if_splits)
qed simp

lemma live_zero_slot:
  assumes "i < length es" "distinct (tokens es)"
  shows "live (es[i := zero_session]) now t =
    (if se_active (es ! i) \<and> token_of (es ! i) = t then None else live es now t)"
proof (cases "se_active (es ! i) \<and> token_of (es ! i) = t")
  case True
  then have "t \<notin> set (tokens (es[i := zero_session]))"
    using assms(2) tokens_split [OF assms(1)] by (simp add: tokens_update [OF assms(1)])
  then show ?thesis
    using True by (simp add: live_unknown)
next
  case False
  then show ?thesis
    using live_update_other [OF assms(1), of zero_session t] by auto
qed

lemma token_attempts_fresh:
  assumes "token_attempts env es attempts = Inr token" "env_ok env" "list_all entry_ok es"
  shows "length token = 64 \<and> list_all is_lower_hex token \<and> token \<notin> set (tokens es)"
  using assms
proof (induction attempts)
  case (Cons a attempts)
  show ?case
  proof (cases "ae_random env a")
    case None
    then show ?thesis
      using Cons.prems by (simp add: random_hex_def)
  next
    case (Some bs)
    then have len: "length (hex_bytes bs) = 64"
      using Cons.prems(2) by (auto simp: env_ok_def APP_SESSION_TOKEN_BYTES_def)
    show ?thesis
    proof (cases "token_exists es (hex_bytes bs)")
      case True
      then show ?thesis
        using Cons Some by (simp add: random_hex_def)
    next
      case False
      then have "hex_bytes bs \<notin> set (tokens es)"
        using Cons.prems(3) len token_matches_iff
        by (auto simp: token_exists_def list_ex_iff tokens_def list_all_iff entry_ok_def)
      then show ?thesis
        using Cons.prems(1) Some False len hex_bytes_lower [of bs] by (auto simp: random_hex_def)
    qed
  qed
qed simp

lemma new_lifetimes:
  assumes "initialize_session_lifetimes e now = Inr e'"
  shows "token_of e' = token_of e \<and> se_last_used_us e' = now \<and>
    unat (sv_expires_at_us (se_view e')) = unat now + unat AUTH_CORE_SESSION_IDLE_US \<and>
    unat (sv_absolute_expires_at_us (se_view e')) = unat now + unat AUTH_CORE_SESSION_ABSOLUTE_US"
proof -
  have room: "\<not> (- 1) - now < AUTH_CORE_SESSION_ABSOLUTE_US" "\<not> (- 1) - now < AUTH_CORE_SESSION_IDLE_US"
    and e': "e' = e\<lparr>se_view := (se_view e)
      \<lparr>sv_absolute_expires_at_us := now + AUTH_CORE_SESSION_ABSOLUTE_US,
       sv_expires_at_us := idle_expiry now (now + AUTH_CORE_SESSION_ABSOLUTE_US)\<rparr>,
      se_last_used_us := now\<rparr>"
    using assms by (auto simp: initialize_session_lifetimes_def Let_def split: if_splits)
  have abs: "unat (now + AUTH_CORE_SESSION_ABSOLUTE_US) =
      unat now + unat AUTH_CORE_SESSION_ABSOLUTE_US"
    using word_add_overflow_iff [of now AUTH_CORE_SESSION_ABSOLUTE_US] room(1)
    by (intro unat_add_no_overflow) simp
  have "unat AUTH_CORE_SESSION_IDLE_US < unat AUTH_CORE_SESSION_ABSOLUTE_US"
    by (simp add: limit_defs)
  then have "now + AUTH_CORE_SESSION_IDLE_US < now + AUTH_CORE_SESSION_ABSOLUTE_US"
    using abs room_for_idle [OF room(2)] by (simp add: word_less_nat_alt)
  then show ?thesis
    using abs room_for_idle [OF room(2)] by (simp add: e' idle_expiry_def)
qed

lemma create_section:
  assumes "session_create_section env core = Inr (view, core')" "sessions_ok (ac_sessions core)"
    "env_ok env"
  obtains i e where "i < length (ac_sessions core)" "se_active e" "se_view e = view"
    "length (token_of e) = 64" "list_all is_lower_hex (token_of e)"
    "ac_rate_limits core' = ac_rate_limits core"
    "\<not> (ac_clock_initialized core \<and> ae_now_us env < ac_last_now_us core)"
    "ac_last_now_us core' = ae_now_us env" "ac_clock_initialized core'"
    "unat (sv_expires_at_us view) = unat (ae_now_us env) + unat AUTH_CORE_SESSION_IDLE_US"
    "unat (sv_absolute_expires_at_us view) = unat (ae_now_us env) + unat AUTH_CORE_SESSION_ABSOLUTE_US"
    "se_last_used_us e = ae_now_us env"
    "select_session_slot (purge_expired_sessions (ac_sessions core) (ae_now_us env)) = Some i"
    "token_of e \<notin> set (tokens ((purge_expired_sessions (ac_sessions core) (ae_now_us env))
       [i := zero_session]))"
    "ac_sessions core' = (purge_expired_sessions (ac_sessions core) (ae_now_us env))[i := e]"
proof -
  let ?now = "ae_now_us env"
  let ?ss = "purge_expired_sessions (ac_sessions core) ?now"
  have ok: "list_all entry_ok (ac_sessions core)" "distinct (tokens (ac_sessions core))"
    using assms(2) by (simp_all add: sessions_ok_def)
  obtain i token e where
    cl: "\<not> (ac_clock_initialized core \<and> ?now < ac_last_now_us core)"
    and sl: "select_session_slot ?ss = Some i"
    and tk: "auth_core_generate_session_tokens env (?ss[i := zero_session]) = Inr token"
    and li: "initialize_session_lifetimes
        (zero_session\<lparr>se_view := zero_view\<lparr>sv_session_token := token\<rparr>\<rparr>) ?now = Inr e"
    and out: "view = se_view e" "core' = core\<lparr>ac_last_now_us := ?now, ac_clock_initialized := True,
      ac_sessions := ?ss[i := e\<lparr>se_active := True\<rparr>]\<rparr>"
    using assms(1)
    by (auto simp: session_create_section_def auth_core_read_now_def Let_def
        split: if_splits option.splits sum.splits)
  have "list_all entry_ok (?ss[i := zero_session])"
    using purge_spec [OF ok, of ?now] by (simp add: list_all_iff) (metis entry_ok_zero set_update_subset_insert insertE subsetD)
  then have "length token = 64 \<and> list_all is_lower_hex token \<and>
      token \<notin> set (tokens (?ss[i := zero_session]))"
    using token_attempts_fresh [OF tk [unfolded auth_core_generate_session_tokens_def] assms(3)]
    by blast
  moreover have "i < length (ac_sessions core)"
    using select_session_slot_spec [OF sl] purge_spec [OF ok, of ?now] by simp
  ultimately show thesis
    using that [of i "e\<lparr>se_active := True\<rparr>"] cl sl out new_lifetimes [OF li] by simp
qed

lemma create_keeps_ok:
  assumes "session_create_section env core = Inr (view, core')" "sessions_ok (ac_sessions core)"
    "env_ok env"
  shows "sessions_ok (ac_sessions core')"
  using assms
proof (rule create_section)
  fix i e
  let ?ss = "purge_expired_sessions (ac_sessions core) (ae_now_us env)"
  assume i: "i < length (ac_sessions core)" "se_active e" "se_view e = view"
    and tok: "length (token_of e) = 64" "list_all is_lower_hex (token_of e)"
    and times: "unat (sv_expires_at_us view) = unat (ae_now_us env) + unat AUTH_CORE_SESSION_IDLE_US"
      "unat (sv_absolute_expires_at_us view) = unat (ae_now_us env) + unat AUTH_CORE_SESSION_ABSOLUTE_US"
      "se_last_used_us e = ae_now_us env"
    and fresh: "token_of e \<notin> set (tokens (?ss[i := zero_session]))"
    and core': "ac_sessions core' = ?ss[i := e]"
  have ok: "list_all entry_ok (ac_sessions core)" "distinct (tokens (ac_sessions core))"
    using assms(2) by (simp_all add: sessions_ok_def)
  note purge = purge_spec [OF ok, of "ae_now_us env"]
  then have len: "i < length ?ss"
    using i(1) by simp
  have "distinct (tokens (take i ?ss) @ tokens [?ss ! i] @ tokens (drop (Suc i) ?ss))"
    using purge tokens_split [OF len] by metis
  then have "distinct (tokens (?ss[i := e]))"
    using fresh i(2) by (auto simp: tokens_update [OF len] split: if_splits)
  moreover have "entry_ok e"
    using i tok times by (simp add: entry_ok_def word_le_nat_alt limit_defs)
  then have "list_all entry_ok (?ss[i := e])"
    using purge by (simp add: list_all_iff) (metis set_update_subset_insert insertE subsetD)
  ultimately show "sessions_ok (ac_sessions core')"
    using purge assms(2) by (simp add: core' sessions_ok_def)
qed

text \<open>
  logging in opens exactly one session.  Its token is 64 random hexadecimal digits that no
  other active session has; it is live from now on for 24 idle hours and at most 7 days.  No
  live session is lost unless the table is full of live ones, and then only the one used least
  recently; every other session keeps its lifetime.
\<close>

theorem session_creation_refines:
  assumes "sessions_ok (ac_sessions core)" and "env_ok env" and "ae_now_us env \<le> later"
    and "auth_core_session_create env core = (Inr view, core')"
  shows "sessions_ok (ac_sessions core') \<and>
    unat (sv_expires_at_us view) = unat (ae_now_us env) + unat AUTH_CORE_SESSION_IDLE_US \<and>
    unat (sv_absolute_expires_at_us view) =
      unat (ae_now_us env) + unat AUTH_CORE_SESSION_ABSOLUTE_US \<and>
    live (ac_sessions core') later (sv_session_token view) =
      alive later (sv_expires_at_us view, sv_absolute_expires_at_us view) \<and>
    (\<exists>i < length (ac_sessions core). \<forall>t. t \<noteq> sv_session_token view \<longrightarrow>
      live (ac_sessions core') later t = live (ac_sessions core) later t \<or>
      token_of (ac_sessions core ! i) = t \<and>
      (\<forall>e \<in> set (ac_sessions core). se_active e \<and> \<not> session_expired e (ae_now_us env) \<and>
         se_last_used_us (ac_sessions core ! i) \<le> se_last_used_us e))"
proof -
  have sec: "session_create_section env core = Inr (view, core')"
    using assms(4)
    by (auto simp: auth_core_session_create_def split: if_splits sum.splits prod.splits)
  show ?thesis
    using sec assms(1,2)
  proof (rule create_section)
    fix i e
    let ?now = "ae_now_us env"
    let ?ss = "purge_expired_sessions (ac_sessions core) ?now"
    assume i: "i < length (ac_sessions core)" "se_active e" "se_view e = view"
      and times: "unat (sv_expires_at_us view) = unat ?now + unat AUTH_CORE_SESSION_IDLE_US"
        "unat (sv_absolute_expires_at_us view) = unat ?now + unat AUTH_CORE_SESSION_ABSOLUTE_US"
      and sl: "select_session_slot ?ss = Some i"
      and fresh: "token_of e \<notin> set (tokens (?ss[i := zero_session]))"
      and core': "ac_sessions core' = ?ss[i := e]"
    have ok: "list_all entry_ok (ac_sessions core)" "distinct (tokens (ac_sessions core))"
      using assms(1) by (simp_all add: sessions_ok_def)
    note purge = purge_spec [OF ok, of ?now later]
    have len: "i < length ?ss" "i < length (?ss[i := zero_session])"
      using i(1) purge by simp_all
    have upd: "?ss[i := e] = (?ss[i := zero_session])[i := e]"
      by simp
    have new: "live (ac_sessions core') later (sv_session_token view) =
        alive later (sv_expires_at_us view, sv_absolute_expires_at_us view)"
      using live_update_hit [OF len(2) i(2) fresh] i(3) by (simp add: core')
    have old: "live (ac_sessions core') later t = live (ac_sessions core) later t \<or>
        token_of (ac_sessions core ! i) = t \<and>
        (\<forall>e \<in> set (ac_sessions core). se_active e \<and> \<not> session_expired e ?now \<and>
           se_last_used_us (ac_sessions core ! i) \<le> se_last_used_us e)"
      if t: "t \<noteq> sv_session_token view" for t
    proof -
      have "live (ac_sessions core') later t = live (?ss[i := zero_session]) later t"
        using live_update_other [OF len(2), of e t later] t i(3) len(1) by (simp add: core')
      also have "\<dots> = (if se_active (?ss ! i) \<and> token_of (?ss ! i) = t then None
          else live (ac_sessions core) later t)"
        using live_zero_slot [OF len(1)] purge assms(3) by simp
      finally have cases: "live (ac_sessions core') later t = live (ac_sessions core) later t \<or>
          se_active (?ss ! i) \<and> token_of (?ss ! i) = t" by (simp split: if_splits)
      moreover have "token_of (ac_sessions core ! i) = t \<and>
        (\<forall>e \<in> set (ac_sessions core). se_active e \<and> \<not> session_expired e ?now \<and>
           se_last_used_us (ac_sessions core ! i) \<le> se_last_used_us e)"
        if act: "se_active (?ss ! i)" "token_of (?ss ! i) = t"
      proof -
        have all: "\<forall>e \<in> set ?ss. se_active e \<and> se_last_used_us (?ss ! i) \<le> se_last_used_us e"
          using select_session_slot_spec [OF sl] act(1) by blast
        have "se_active (ac_sessions core ! k) \<and> \<not> session_expired (ac_sessions core ! k) ?now \<and>
            ?ss ! k = ac_sessions core ! k" if "k < length (ac_sessions core)" for k
        proof -
          have "se_active (?ss ! k)"
            using all that purge by (metis nth_mem)
          then show ?thesis
            using that by (auto simp: purge_expired_sessions_def split: if_splits)
        qed
        then have "?ss = ac_sessions core" "\<forall>e \<in> set (ac_sessions core). se_active e \<and>
            \<not> session_expired e ?now"
          using purge by (auto intro: nth_equalityI simp: in_set_conv_nth)
        then show ?thesis
          using all act by simp
      qed
      ultimately show ?thesis by blast
    qed
    show ?thesis
      using create_keeps_ok [OF sec assms(1,2)] times new old i(1) by blast
  qed
qed

end
