(* ===== verification/Auth_Lockout.thy ===== *)
theory Auth_Lockout
  imports Auth_Sessions
begin

text \<open>
  What the login rate limiter promises: the well-formedness of its table, which failures lock a
  source out and for how long, and which entry gives way to a new source.
\<close>

section \<open>The table\<close>

definition rate_entry_ok :: "rate_limit_entry \<Rightarrow> bool" where
  "rate_entry_ok e \<longleftrightarrow>
     length (rl_failures_us e) = AUTH_RATE_LIMIT_FAILURE_MAX \<and>
     rl_failure_count e \<le> AUTH_RATE_LIMIT_FAILURE_MAX"

definition sources :: "rate_limit_entry list \<Rightarrow> u32 list" where
  "sources es = map rl_source_ipv4 (filter rl_active es)"

lemma sources_simps [simp]:
  "sources [] = []"
  "sources (e # es) = (if rl_active e then rl_source_ipv4 e # sources es else sources es)"
  by (simp_all add: sources_def)

definition rate_limits_ok :: "rate_limit_entry list \<Rightarrow> bool" where
  "rate_limits_ok es \<longleftrightarrow>
     length es = AUTH_RATE_LIMIT_SOURCE_MAX \<and> list_all rate_entry_ok es \<and> distinct (sources es)"

lemma fresh_entry_simps [simp]:
  "rl_active (fresh_entry source now)" "rl_source_ipv4 (fresh_entry source now) = source"
  "rl_failure_count (fresh_entry source now) = 0" "rl_lockout_until_us (fresh_entry source now) = 0"
  "length (rl_failures_us (fresh_entry source now)) = AUTH_RATE_LIMIT_FAILURE_MAX"
  "rl_last_used_us (fresh_entry source now) = now"
  by (simp_all add: fresh_entry_def zero_rate_limit_def)

lemma fresh_ok [simp]: "rate_entry_ok (fresh_entry source now)"
  by (simp add: rate_entry_ok_def)

lemma zero_rate_limit_ok [simp]: "rate_entry_ok zero_rate_limit" "\<not> rl_active zero_rate_limit"
  by (simp_all add: rate_entry_ok_def zero_rate_limit_def)

lemma recent_length:
  "rl_failure_count e \<le> AUTH_RATE_LIMIT_FAILURE_MAX \<Longrightarrow>
   length (recent_failures e now) \<le> AUTH_RATE_LIMIT_FAILURE_MAX"
  unfolding recent_failures_def by (rule order.trans [OF length_filter_le]) simp

lemma clear_keeps [simp]:
  "rl_active e \<Longrightarrow> rl_active (clear_expired_lockout e now)"
  "rl_source_ipv4 (clear_expired_lockout e now) = rl_source_ipv4 e"
  "rate_entry_ok e \<Longrightarrow> rate_entry_ok (clear_expired_lockout e now)"
  by (simp_all add: clear_expired_lockout_def)

lemma prune_keeps [simp]:
  "rl_active (prune_failures e now) = rl_active e"
  "rl_source_ipv4 (prune_failures e now) = rl_source_ipv4 e"
  by (simp_all add: prune_failures_def Let_def)

lemma prune_ok: "rate_entry_ok e \<Longrightarrow> rate_entry_ok (prune_failures e now)"
  using recent_length [of "clear_expired_lockout e now" now] clear_keeps(3) [of e now]
  by (auto simp: prune_failures_def Let_def rate_entry_ok_def)

lemma prune_last_used: "rl_active e \<Longrightarrow> rl_last_used_us (prune_failures e now) = now"
  by (simp add: prune_failures_def Let_def)

lemma find_entry_loop_spec:
  "case find_entry_loop index source es of
     None \<Rightarrow> source \<notin> set (sources es)
   | Some i \<Rightarrow> index \<le> i \<and> i < index + length es \<and> rl_active (es ! (i - index)) \<and>
       rl_source_ipv4 (es ! (i - index)) = source"
proof (induction es arbitrary: index)
  case (Cons e es)
  show ?case
    using Cons [of "Suc index"] by (auto split: option.splits simp: Suc_le_eq nth_Cons')
qed simp

lemma find_entry_Some:
  "find_entry es source = Some i \<Longrightarrow>
   i < length es \<and> rl_active (es ! i) \<and> rl_source_ipv4 (es ! i) = source"
  using find_entry_loop_spec [where index = 0 and source = source and es = es] by (simp add: find_entry_def)

lemma find_entry_None: "find_entry es source = None \<longleftrightarrow> source \<notin> set (sources es)"
proof
  show "find_entry es source = None \<Longrightarrow> source \<notin> set (sources es)"
    using find_entry_loop_spec [where index = 0 and source = source and es = es] by (simp add: find_entry_def)
  have "source \<in> set (sources es)" if "find_entry es source = Some i" for i
    using find_entry_Some [OF that] by (auto simp: sources_def)
  then show "source \<notin> set (sources es) \<Longrightarrow> find_entry es source = None"
    by (cases "find_entry es source") auto
qed

lemma sources_update:
  assumes "i < length es"
  shows "sources (es[i := e]) = sources (take i es) @ sources [e] @ sources (drop (Suc i) es)"
  using assms by (simp add: sources_def upd_conv_take_nth_drop)

lemma sources_split:
  assumes "i < length es"
  shows "sources es = sources (take i es) @ sources [es ! i] @ sources (drop (Suc i) es)"
  by (metis assms list_update_id sources_update)

lemma sources_same:
  assumes "i < length es" "rl_active e = rl_active (es ! i)" "rl_source_ipv4 e = rl_source_ipv4 (es ! i)"
  shows "sources (es[i := e]) = sources es"
proof -
  have "sources [e] = sources [es ! i]"
    using assms(2,3) by simp
  then show ?thesis
    using sources_update [OF assms(1), of e] sources_split [OF assms(1)] by metis
qed

lemma find_entry_unique:
  assumes "distinct (sources es)" "i < length es" "rl_active (es ! i)" "rl_source_ipv4 (es ! i) = source"
  shows "find_entry es source = Some i"
proof (cases "find_entry es source")
  case None
  then show ?thesis
    using assms(3,4) nth_mem [OF assms(2)] by (auto simp: find_entry_None sources_def)
next
  case (Some j)
  note j = find_entry_Some [OF Some]
  have "i = j"
  proof (rule ccontr)
    assume "i \<noteq> j"
    define mine where "mine e \<longleftrightarrow> rl_active e \<and> rl_source_ipv4 e = source" for e :: rate_limit_entry
    have split: "es = take i es @ es ! i # drop (Suc i) es"
      using assms(2) by (rule id_take_nth_drop)
    have "\<exists>e \<in> set (take i es) \<union> set (drop (Suc i) es). mine e"
    proof (cases "j < i")
      case True
      then have "take i es ! j = es ! j" "j < length (take i es)"
        using assms(2) by simp_all
      then show ?thesis
        using j nth_mem mine_def by (metis UnCI)
    next
      case False
      then have "drop (Suc i) es ! (j - Suc i) = es ! j" "j - Suc i < length (drop (Suc i) es)"
        using j \<open>i \<noteq> j\<close> by (simp_all add: diff_less_mono)
      then show ?thesis
        using j nth_mem mine_def by (metis UnCI)
    qed
    then have "source \<in> set (sources (take i es)) \<union> set (sources (drop (Suc i) es))"
      by (auto simp: mine_def sources_def)
    moreover have "distinct (sources (take i es) @ source # sources (drop (Suc i) es))"
      using assms(1,3,4) by (subst (asm) split) (simp add: sources_def)
    ultimately show False
      by auto
  qed
  then show ?thesis using Some by simp
qed

section \<open>Making room for a source\<close>

lemma allocate_loop_spec:
  assumes "allocate_loop now index lru es = (choice, es')"
  shows "length es' = length es \<and> sources es' = sources es \<and>
    (list_all rate_entry_ok es \<longrightarrow> list_all rate_entry_ok es')"
  using assms
proof (induction es arbitrary: index lru choice es')
  case (Cons e es)
  then show ?case
    by (fastforce simp: Let_def prune_ok split: if_splits prod.splits)
qed simp

text \<open>Which slot the loop chooses, given that the caller only offers entries that were pruned now.\<close>

definition unlocked_at :: "u64 \<Rightarrow> rate_limit_entry \<Rightarrow> bool" where
  "unlocked_at now e \<longleftrightarrow> \<not> rl_lockout_until_us (prune_failures e now) > now"

fun first_index :: "('a \<Rightarrow> bool) \<Rightarrow> nat \<Rightarrow> 'a list \<Rightarrow> nat option" where
  "first_index P index [] = None"
| "first_index P index (x # xs) = (if P x then Some index else first_index P (index + 1) xs)"

lemma allocate_loop_choice:
  assumes "list_all rl_active es" "case lru of None \<Rightarrow> True | Some (i, used) \<Rightarrow> used = now"
  shows "fst (allocate_loop now index lru es) =
    Inr (case lru of
      Some p \<Rightarrow> Some p
    | None \<Rightarrow> map_option (\<lambda>i. (i, now)) (first_index (unlocked_at now) index es))"
  using assms
proof (induction es arbitrary: index lru)
  case (Cons e es)
  have pruned: "rl_last_used_us (prune_failures e now) = now"
    using Cons.prems(1) by (simp add: prune_last_used)
  let ?lru = "if rl_lockout_until_us (prune_failures e now) > now then lru
    else case lru of None \<Rightarrow> Some (index, now) | Some (i, used) \<Rightarrow> lru"
  have "fst (allocate_loop now index lru (e # es)) = fst (allocate_loop now (index + 1) ?lru es)"
    using Cons.prems pruned by (auto simp: Let_def split: prod.splits option.splits)
  also have "\<dots> = Inr (case ?lru of Some p \<Rightarrow> Some p
      | None \<Rightarrow> map_option (\<lambda>i. (i, now)) (first_index (unlocked_at now) (index + 1) es))"
    using Cons.prems by (intro Cons.IH) (auto split: option.splits)
  finally show ?case
    by (auto simp: unlocked_at_def split: option.splits)
qed (auto split: option.splits)

lemma allocate_spec:
  assumes "allocate_entry es source now = (Some i, es')" "list_all rate_entry_ok es"
    "distinct (sources es)" "source \<notin> set (sources es)"
  shows "i < length es \<and> es' ! i = fresh_entry source now \<and> list_all rate_entry_ok es' \<and>
    distinct (sources es') \<and> length es' = length es"
proof -
  have range: "case allocate_loop now index lru es of
      (Inl i, es') \<Rightarrow> index \<le> i \<and> i < index + length es
    | (Inr None, es') \<Rightarrow> True
    | (Inr (Some (i, used)), es') \<Rightarrow> lru = Some (i, used) \<or> index \<le> i \<and> i < index + length es"
    for index lru and es :: "rate_limit_entry list"
  proof (induction es arbitrary: index lru)
    case (Cons e es)
    let ?e = "prune_failures e now"
    let ?lru = "if rl_lockout_until_us ?e > now then lru
      else case lru of None \<Rightarrow> Some (index, rl_last_used_us ?e)
        | Some (i, used) \<Rightarrow> if rl_last_used_us ?e < used then Some (index, rl_last_used_us ?e) else lru"
    show ?case
      using Cons [where index = "index + 1" and lru = ?lru]
      by (auto simp: Let_def split: prod.splits sum.splits option.splits if_splits)
  qed (auto split: option.splits)
  obtain choice es1 where loop: "allocate_loop now 0 None es = (choice, es1)"
    by (metis prod.exhaust)
  note spec = allocate_loop_spec [OF loop]
  have i: "i < length es" and es': "es' = es1[i := fresh_entry source now]"
    using assms(1) range [where index = 0 and lru = None and es = es] loop
    by (auto simp: allocate_entry_def split: sum.splits option.splits prod.splits)
  have "distinct (sources (take i es1) @ sources [es1 ! i] @ sources (drop (Suc i) es1))"
    "source \<notin> set (sources (take i es1) @ sources [es1 ! i] @ sources (drop (Suc i) es1))"
    using assms(3,4) spec sources_split [of i es1] i by simp_all
  then have "distinct (sources es')"
    using i spec by (auto simp: es' sources_update split: if_splits)
  moreover have "list_all rate_entry_ok es'"
    using spec assms(2) unfolding es' by (simp add: list_all_iff)
      (metis fresh_ok set_update_subset_insert insertE subsetD)
  ultimately show ?thesis
    using i spec by (simp add: es')
qed

text \<open>
  C25: when every slot of the rate limiter is in use, the source that gives way to a new one is
  the one in the first slot that is not locked out, whatever the slots' last use was: the
  pruning on the way stamps every slot with the current time before the slots are compared.
\<close>

theorem full_table_evicts_first_unlocked:
  assumes "list_all rl_active es"
  shows "fst (allocate_entry es source now) = first_index (unlocked_at now) 0 es"
  using allocate_loop_choice [OF assms, where lru = None and now = now and index = 0]
  by (cases "first_index (unlocked_at now) 0 es")
    (auto simp: allocate_entry_def split: prod.splits)

definition busy_entry :: "u64 \<Rightarrow> rate_limit_entry" where
  "busy_entry used = (fresh_entry 1 used)"

theorem full_table_evicts_first_unlocked_witness:
  "fst (allocate_entry [busy_entry 900, busy_entry 100] 7 1000) = Some 0"
  using full_table_evicts_first_unlocked [of "[busy_entry 900, busy_entry 100]" 7 1000]
  by (simp add: busy_entry_def unlocked_at_def prune_failures_def clear_expired_lockout_def Let_def)

section \<open>Recording failures\<close>

definition entry_of :: "auth_core \<Rightarrow> u32 \<Rightarrow> rate_limit_entry option" where
  "entry_of core source =
     map_option (\<lambda>i. ac_rate_limits core ! i) (find_entry (ac_rate_limits core) source)"

lemma entry_of_update:
  assumes "rate_limits_ok (ac_rate_limits core)" "i < length es" "rl_active e"
    "rl_source_ipv4 e = source" "rl_active (es ! i)" "rl_source_ipv4 (es ! i) = source"
    "distinct (sources es)"
  shows "entry_of (core\<lparr>ac_rate_limits := es[i := e]\<rparr>) source = Some e"
proof -
  have "distinct (sources (es[i := e]))"
    using assms sources_same [of i es e] by simp
  then have "find_entry (es[i := e]) source = Some i"
    using assms by (intro find_entry_unique) simp_all
  then show ?thesis
    using assms(2) by (simp add: entry_of_def)
qed

lemma count_failure_spec:
  assumes "count_failure e now = (r, e')" "rate_entry_ok e"
  shows "rl_active e' = rl_active e \<and> rl_source_ipv4 e' = rl_source_ipv4 e \<and> rate_entry_ok e' \<and>
    (r = APP_ERROR_NONE \<longrightarrow> rl_failure_count e < AUTH_RATE_LIMIT_FAILURE_MAX \<and>
      rl_failure_count e' = rl_failure_count e + 1 \<and>
      rl_failures_us e' = (rl_failures_us e)[rl_failure_count e := now] \<and>
      (rl_failure_count e' = AUTH_RATE_LIMIT_FAILURE_MAX \<longrightarrow>
         rl_lockout_until_us e' = now + AUTH_CORE_LOCKOUT_US \<and>
         unat (now + AUTH_CORE_LOCKOUT_US) = unat now + unat AUTH_CORE_LOCKOUT_US))"
proof -
  have "unat (now + AUTH_CORE_LOCKOUT_US) = unat now + unat AUTH_CORE_LOCKOUT_US"
    if "\<not> (- 1) - now < AUTH_CORE_LOCKOUT_US"
    using word_add_overflow_iff [of now AUTH_CORE_LOCKOUT_US] that
    by (intro unat_add_no_overflow) simp
  then show ?thesis
    using assms by (auto simp: count_failure_def rate_entry_ok_def Let_def split: if_splits)
qed

text \<open>The outcome of recording a failure, seen from the table and from the entry of the source.\<close>

lemma record_failure_spec:
  assumes "auth_core_login_record_failure env core source = (r, core')"
    "rate_limits_ok (ac_rate_limits core)"
  shows "rate_limits_ok (ac_rate_limits core') \<and> ac_sessions core' = ac_sessions core \<and>
    (r = APP_ERROR_NONE \<longrightarrow>
      ae_lock env \<and> ae_unlock env \<and> ac_last_now_us core' = ae_now_us env \<and>
      ac_clock_initialized core' \<and>
      (ac_clock_initialized core \<longrightarrow> ac_last_now_us core \<le> ae_now_us env) \<and>
      (\<exists>e'. count_failure
          (case entry_of core source of
             None \<Rightarrow> fresh_entry source (ae_now_us env)
           | Some e \<Rightarrow> prune_failures e (ae_now_us env)) (ae_now_us env) = (APP_ERROR_NONE, e') \<and>
        entry_of core' source = Some e'))"
proof (cases "ae_lock env \<and> ae_unlock env \<and>
    \<not> (ac_clock_initialized core \<and> ae_now_us env < ac_last_now_us core)")
  case False
  then show ?thesis
    using assms by (auto simp: auth_core_login_record_failure_def auth_core_read_now_def Let_def
        split: prod.splits if_splits)
next
  case True
  let ?now = "ae_now_us env"
  let ?es = "ac_rate_limits core"
  have ok: "list_all rate_entry_ok ?es" "distinct (sources ?es)" "length ?es = AUTH_RATE_LIMIT_SOURCE_MAX"
    using assms(2) by (simp_all add: rate_limits_ok_def)
  define core1 where "core1 = core\<lparr>ac_last_now_us := ?now, ac_clock_initialized := True\<rparr>"
  define choice where "choice = (case find_entry ?es source of
      None \<Rightarrow> allocate_entry ?es source ?now
    | Some i \<Rightarrow> (Some i, ?es[i := prune_failures (?es ! i) ?now]))"
  have body: "(r, core') = (case choice of
      (None, entries) \<Rightarrow> (APP_ERROR_RATE_LIMITED, core1\<lparr>ac_rate_limits := entries\<rparr>)
    | (Some i, entries) \<Rightarrow>
        (case count_failure (entries ! i) ?now of (result, entry) \<Rightarrow>
          (result, core1\<lparr>ac_rate_limits := entries[i := entry]\<rparr>)))"
    using assms(1) True
    by (simp add: auth_core_login_record_failure_def auth_core_read_now_def Let_def choice_def
        core1_def split: prod.splits option.splits)
  show ?thesis
  proof (cases choice)
    case (Pair slot entries)
    show ?thesis
    proof (cases slot)
      case None
      then have "find_entry ?es source = None" "allocate_entry ?es source ?now = (None, entries)"
        using Pair by (auto simp: choice_def split: option.splits)
      then have "rate_limits_ok entries"
        using allocate_loop_spec [where now = ?now and index = 0 and lru = None and es = ?es] ok
        by (auto simp: allocate_entry_def rate_limits_ok_def split: prod.splits sum.splits option.splits)
      then show ?thesis
        using body Pair None by (simp add: core1_def)
    next
      case (Some i)
      have at: "i < length entries \<and> list_all rate_entry_ok entries \<and> distinct (sources entries) \<and>
          length entries = AUTH_RATE_LIMIT_SOURCE_MAX \<and> rl_active (entries ! i) \<and>
          rl_source_ipv4 (entries ! i) = source \<and>
          entries ! i = (case entry_of core source of
             None \<Rightarrow> fresh_entry source ?now | Some e \<Rightarrow> prune_failures e ?now)"
      proof (cases "find_entry ?es source")
        case None
        then have "allocate_entry ?es source ?now = (Some i, entries)"
          using Pair Some by (simp add: choice_def)
        moreover have "entry_of core source = None"
          using None by (simp add: entry_of_def)
        ultimately show ?thesis
          using allocate_spec [OF _ ok(1,2)] None ok by (auto simp: find_entry_None)
      next
        case (Some j)
        then have j: "j = i" "entries = ?es[i := prune_failures (?es ! i) ?now]"
          using Pair \<open>slot = Some i\<close> by (auto simp: choice_def)
        note fe = find_entry_Some [OF Some]
        have "list_all rate_entry_ok entries"
          using ok(1) fe unfolding j(2) by (simp add: list_all_length nth_list_update prune_ok j(1))
        then show ?thesis
          using fe ok Some sources_same [of i ?es "prune_failures (?es ! i) ?now"]
          by (simp add: j entry_of_def)
      qed
      obtain r' e' where cf: "count_failure (entries ! i) ?now = (r', e')"
        by (metis prod.exhaust)
      have "rate_entry_ok (entries ! i)"
        using at by (metis list_all_length)
      note cnt = count_failure_spec [OF cf this]
      have core': "r = r'" "core' = core1\<lparr>ac_rate_limits := entries[i := e']\<rparr>"
        using body Pair Some cf by simp_all
      have at1: "i < length entries" "rl_active (entries ! i)" "rl_source_ipv4 (entries ! i) = source"
        "list_all rate_entry_ok entries" "distinct (sources entries)"
        "length entries = AUTH_RATE_LIMIT_SOURCE_MAX"
        using at by blast+
      have e': "rl_active e'" "rl_source_ipv4 e' = source" "rate_entry_ok e'"
        using cnt at1 by simp_all
      have ok': "rate_limits_ok (entries[i := e'])"
        using at1 e' sources_same [of i entries e']
        by (simp add: rate_limits_ok_def list_all_length nth_list_update)
      moreover have "find_entry (entries[i := e']) source = Some i"
        using ok' e' at1 by (intro find_entry_unique) (simp_all add: rate_limits_ok_def)
      then have "entry_of core' source = Some e'"
        using at1 by (simp add: entry_of_def core'(2))
      moreover have "count_failure (case entry_of core source of
            None \<Rightarrow> fresh_entry source ?now | Some e \<Rightarrow> prune_failures e ?now) ?now = (r, e')"
        using at cf core'(1) by simp
      moreover have "ac_last_now_us core' = ?now" "ac_clock_initialized core'"
        "ac_sessions core' = ac_sessions core" "ac_rate_limits core' = entries[i := e']"
        by (simp_all add: core'(2) core1_def)
      ultimately show ?thesis
        using True by auto
    qed
  qed
qed

section \<open>Lockout\<close>

text \<open>The failures of an entry between two instants.\<close>

definition failures_in :: "rate_limit_entry \<Rightarrow> u64 \<Rightarrow> u64 \<Rightarrow> u64 list" where
  "failures_in e t0 t1 = filter (\<lambda>f. t0 \<le> f \<and> f \<le> t1) (take (rl_failure_count e) (rl_failures_us e))"

text \<open>Failures of the last minute survive the pruning of an entry that is not locked out.\<close>

lemma prune_keeps_window:
  assumes "rl_active e" "rate_entry_ok e" "t1 \<le> now" "now - t0 < AUTH_CORE_FAILURE_WINDOW_US" "t0 \<le> t1"
    "rl_lockout_until_us e = 0"
  shows "failures_in (prune_failures e now) t0 t1 = failures_in e t0 t1"
proof -
  have in_window: "now - f < AUTH_CORE_FAILURE_WINDOW_US" if "t0 \<le> f" "f \<le> t1" for f
  proof -
    have "unat (now - f) = unat now - unat f" "unat (now - t0) = unat now - unat t0"
      using that assms(3,5) by (intro unat_sub; auto)+
    moreover have "unat t0 \<le> unat f"
      using that(1) by (simp add: word_le_nat_alt)
    ultimately show ?thesis
      using assms(4) by (simp add: word_less_nat_alt)
  qed
  have len: "length (recent_failures e now) \<le> AUTH_RATE_LIMIT_FAILURE_MAX"
    using assms(2) by (intro recent_length) (simp add: rate_entry_ok_def)
  have "take (rl_failure_count (prune_failures e now)) (rl_failures_us (prune_failures e now)) =
      recent_failures e now"
    using assms(1,6) len by (simp add: prune_failures_def clear_expired_lockout_def Let_def)
  then show ?thesis
    using in_window
    by (auto simp: failures_in_def recent_failures_def conj_commute intro: filter_cong)
qed

lemma prune_unlocked:
  assumes "\<not> rl_lockout_until_us (prune_failures e now) > now" "rl_active e"
  shows "rl_lockout_until_us (prune_failures e now) = 0"
proof (cases "rl_lockout_until_us e = 0 \<or> rl_lockout_until_us e \<le> now")
  case True
  then show ?thesis
    using assms(2) by (auto simp: prune_failures_def clear_expired_lockout_def Let_def)
next
  case False
  then have "rl_lockout_until_us (prune_failures e now) = rl_lockout_until_us e"
    using assms(2) by (simp add: prune_failures_def clear_expired_lockout_def Let_def)
  then show ?thesis
    using False assms(1) by (simp add: not_le)
qed

lemma entry_of_ok:
  "rate_limits_ok (ac_rate_limits core) \<Longrightarrow> entry_of core source = Some e \<Longrightarrow>
   rate_entry_ok e \<and> rl_active e \<and> rl_source_ipv4 e = source"
  using find_entry_Some [of "ac_rate_limits core" source]
  by (auto simp: entry_of_def rate_limits_ok_def list_all_length)

lemma failures_in_append:
  assumes "rl_failure_count e < AUTH_RATE_LIMIT_FAILURE_MAX" "rate_entry_ok e" "t0 \<le> now" "t1 \<le> now"
  shows "length (failures_in e t0 t1) + 1 \<le>
    length (failures_in (e\<lparr>rl_failures_us := (rl_failures_us e)[rl_failure_count e := now],
      rl_failure_count := rl_failure_count e + 1\<rparr>) t0 now)"
proof -
  have "take (rl_failure_count e + 1) ((rl_failures_us e)[rl_failure_count e := now]) =
      take (rl_failure_count e) (rl_failures_us e) @ [now]"
    using assms(1,2) by (simp add: rate_entry_ok_def take_Suc_conv_app_nth)
  moreover have "length (filter (\<lambda>f. t0 \<le> f \<and> f \<le> t1) xs) \<le> length (filter (\<lambda>f. t0 \<le> f \<and> f \<le> now) xs)"
    for xs
    using assms(4) by (induction xs) auto
  ultimately show ?thesis
    using assms(3) by (simp add: failures_in_def)
qed

lemma prune_locked:
  "rl_active e \<Longrightarrow> rl_lockout_until_us e > now \<Longrightarrow>
   rl_lockout_until_us (prune_failures e now) = rl_lockout_until_us e"
  by (auto simp: prune_failures_def clear_expired_lockout_def Let_def)

lemma prune_released:
  "rl_active e \<Longrightarrow> \<not> rl_lockout_until_us e > now \<Longrightarrow> rl_lockout_until_us (prune_failures e now) = 0"
  by (auto simp: prune_failures_def clear_expired_lockout_def Let_def not_less)

lemma attempt_result:
  assumes "ae_lock env" "ae_unlock env" "clock_ok env core" "rate_limits_ok (ac_rate_limits core)"
  shows "case entry_of core source of
      None \<Rightarrow> fst (auth_core_login_attempt_allowed env core source) = APP_ERROR_NONE
    | Some e \<Rightarrow>
        if rl_lockout_until_us e > ae_now_us env
        then \<exists>core'. auth_core_login_attempt_allowed env core source =
          (APP_ERROR_RATE_LIMITED, retry_seconds (rl_lockout_until_us e - ae_now_us env), core')
        else fst (auth_core_login_attempt_allowed env core source) = APP_ERROR_NONE"
proof -
  have "prune_failures e (ae_now_us env) =
      prune_failures (ac_rate_limits core ! i) (ae_now_us env) \<and> rl_active e"
    if "find_entry (ac_rate_limits core) source = Some i" "entry_of core source = Some e" for i e
    using that find_entry_Some [OF that(1)] by (simp add: entry_of_def)
  then show ?thesis
    using assms prune_locked prune_released
    by (auto simp: auth_core_login_attempt_allowed_def auth_core_read_now_def clock_ok_def Let_def
        entry_of_def split: option.splits)
qed

lemma retry_seconds_ceiling:
  assumes "unat d \<le> unat AUTH_CORE_LOCKOUT_US"
  shows "unat (retry_seconds d) = (unat d + 999999) div 1000000"
proof -
  have d: "unat d \<le> 300000000"
    using assms by (simp add: limit_defs)
  have "retry_seconds d = ucast ((d + 999999) div 1000000)"
    by (simp add: retry_seconds_def MICROSECONDS_PER_SECOND_def add.commute)
  moreover have "unat (d + 999999) = unat d + 999999"
    using d by (subst unat_add_no_overflow) simp_all
  ultimately have "unat (retry_seconds d) = take_bit 32 ((unat d + 999999) div 1000000)"
    by (simp add: unsigned_ucast_eq unat_div)
  moreover have "(unat d + 999999) div 1000000 < 2 ^ 32"
    using d by (simp add: div_less_iff_less_mult)
  ultimately show ?thesis
    by (simp add: take_bit_nat_eq_self)
qed

definition env_at :: "u64 \<Rightarrow> auth_env" where
  "env_at now = \<lparr>ae_lock = True, ae_unlock = True, ae_now_us = now,
     ae_random = (\<lambda>n. Some (replicate 32 (word_of_nat n)))\<rparr>"

end
