(* ===== verification/Auth_Lifecycle.thy ===== *)
theory Auth_Lifecycle
  imports Auth_Lockout
begin

text \<open>
  The authentication core as a state machine: every sequence of its operations, with any
  platform behaviour, keeps its tables well formed, a call that could not take or give back the
  mutex changes nothing, and passwords verify exactly against their own record.
\<close>

section \<open>Critical sections\<close>

definition core_ok :: "auth_core \<Rightarrow> bool" where
  "core_ok core \<longleftrightarrow> sessions_ok (ac_sessions core) \<and> rate_limits_ok (ac_rate_limits core)"

locale locked_operation =
  fixes run :: "auth_env \<Rightarrow> auth_core \<Rightarrow> 'r \<times> auth_core"
  assumes unlocked: "\<not> ae_lock env \<Longrightarrow> snd (run env core) = core"
    and rolled_back: "ae_lock env \<Longrightarrow> \<not> ae_unlock env \<Longrightarrow> snd (run env core) = core"
    and keeps: "env_ok env \<Longrightarrow> core_ok core \<Longrightarrow> core_ok (snd (run env core))"
begin

lemma faulty_mutex_neutral: "\<not> (ae_lock env \<and> ae_unlock env) \<Longrightarrow> snd (run env core) = core"
  using unlocked rolled_back by blast

lemma keeps_all: "list_all env_ok envs \<Longrightarrow> core_ok core \<Longrightarrow>
    core_ok (fold (\<lambda>env core. snd (run env core)) envs core)"
  by (induction envs arbitrary: core) (simp_all add: keeps)

end

lemma read_now_keeps:
  "auth_core_read_now env core = (r, now, core') \<Longrightarrow>
   ac_sessions core' = ac_sessions core \<and> ac_rate_limits core' = ac_rate_limits core"
  by (auto simp: auth_core_read_now_def Let_def split: if_splits)

interpretation create: locked_operation auth_core_session_create
proof unfold_locales
  fix env core
  assume "env_ok env" "core_ok core"
  moreover have "ac_rate_limits core' = ac_rate_limits core"
    if "session_create_section env core = Inr (view, core')" for view core'
    using that
    by (auto simp: session_create_section_def auth_core_read_now_def Let_def
        split: if_splits option.splits sum.splits)
  ultimately show "core_ok (snd (auth_core_session_create env core))"
    using create_keeps_ok [of env core]
    by (auto simp: auth_core_session_create_def core_ok_def split: sum.splits prod.splits)
qed (auto simp: auth_core_session_create_def split: sum.splits prod.splits)

lemma find_and_refresh_ok:
  assumes "find_and_refresh_session es now token = (r, es')" "list_all entry_ok es"
    "distinct (tokens es)"
  shows "list_all entry_ok es' \<and> distinct (tokens es') \<and> set (tokens es') \<subseteq> set (tokens es) \<and>
    length es' = length es"
  using assms
proof (induction es arbitrary: r es')
  case (Cons e es)
  obtain r' rest where rec: "find_and_refresh_session es now token = (r', rest)"
    by (metis prod.exhaust)
  have tail: "list_all entry_ok es" "distinct (tokens es)"
    using Cons.prems by (auto split: if_splits)
  have refreshed: "entry_ok e' \<and> se_active e' = se_active e \<and> token_of e' = token_of e"
    if "refresh_session e now = (q, e')" for q e'
    using that Cons.prems(2) idle_expiry_bounds [of now]
    by (auto simp: refresh_session_def entry_ok_def split: if_splits)
  show ?case
    using Cons.prems Cons.IH [OF rec tail] rec tail
    by (auto split: if_splits prod.splits dest!: refreshed)
qed simp

interpretation validate: locked_operation "\<lambda>env core. auth_core_session_validate env core token" for token
proof unfold_locales
  fix env core
  assume "env_ok env" "core_ok core"
  then show "core_ok (snd (auth_core_session_validate env core token))"
    using find_and_refresh_ok
    by (auto simp: auth_core_session_validate_def core_ok_def sessions_ok_def Let_def
        split: prod.splits dest!: read_now_keeps)
qed (auto simp: auth_core_session_validate_def Let_def split: prod.splits)

interpretation logout: locked_operation "\<lambda>env core. auth_core_session_logout env core token" for token
proof unfold_locales
  fix env core
  assume "env_ok env" "core_ok core"
  moreover have "length (the token) = 64" if "auth_core_valid_hex_token token"
    using that by (auto simp: auth_core_valid_hex_token_def limit_defs split: option.splits)
  ultimately show "core_ok (snd (auth_core_session_logout env core token))"
    using logout_list [of "ac_sessions core" "the token"]
    by (auto simp: auth_core_session_logout_def core_ok_def sessions_ok_def split: prod.splits)
qed (auto simp: auth_core_session_logout_def split: prod.splits)

lemma rate_limits_update:
  assumes "rate_limits_ok es" "i < length es" "rate_entry_ok e"
    "rl_active e \<longrightarrow> rl_active (es ! i) \<and> rl_source_ipv4 e = rl_source_ipv4 (es ! i)"
  shows "rate_limits_ok (es[i := e])"
proof -
  have "distinct (sources (take i es) @ sources [es ! i] @ sources (drop (Suc i) es))"
    using assms(1) sources_split [OF assms(2)] by (metis rate_limits_ok_def)
  then have "distinct (sources (es[i := e]))"
    using assms(4) by (auto simp: sources_update [OF assms(2)] split: if_splits)
  then show ?thesis
    using assms(1-3) by (simp add: rate_limits_ok_def list_all_length nth_list_update)
qed

interpretation attempt: locked_operation
  "\<lambda>env core. case auth_core_login_attempt_allowed env core source of (r, retry, core) \<Rightarrow> ((r, retry), core)"
  for source
proof unfold_locales
  fix env core
  assume ok: "core_ok core"
  have "rate_limits_ok ((ac_rate_limits core)[i := prune_failures (ac_rate_limits core ! i) now])"
    if "find_entry (ac_rate_limits core) source = Some i" for i now
    using that ok find_entry_Some [OF that]
    by (intro rate_limits_update) (auto simp: core_ok_def rate_limits_ok_def list_all_length prune_ok)
  then show "core_ok (snd (case auth_core_login_attempt_allowed env core source of
      (r, retry, core) \<Rightarrow> ((r, retry), core)))"
    using ok
    by (auto simp: auth_core_login_attempt_allowed_def core_ok_def Let_def
        split: prod.splits option.splits dest!: read_now_keeps)
qed (auto simp: auth_core_login_attempt_allowed_def Let_def split: prod.splits)

interpretation failure: locked_operation
  "\<lambda>env core. auth_core_login_record_failure env core source" for source
proof unfold_locales
  fix env core
  assume ok: "core_ok core"
  obtain r core' where run: "auth_core_login_record_failure env core source = (r, core')"
    by (metis prod.exhaust)
  have "rate_limits_ok (ac_rate_limits core')" "ac_sessions core' = ac_sessions core"
    using record_failure_spec [OF run] ok unfolding core_ok_def by blast+
  then show "core_ok (snd (auth_core_login_record_failure env core source))"
    using run ok by (simp add: core_ok_def)
qed (simp_all add: auth_core_login_record_failure_def Let_def case_prod_beta)

interpretation success: locked_operation
  "\<lambda>env core. auth_core_login_record_success env core source" for source
proof unfold_locales
  fix env core
  assume "core_ok core"
  then show "core_ok (snd (auth_core_login_record_success env core source))"
    using find_entry_Some
    by (auto simp: auth_core_login_record_success_def core_ok_def split: option.splits
        intro!: rate_limits_update)
qed (auto simp: auth_core_login_record_success_def)

section \<open>Reachable states\<close>

inductive auth_step :: "auth_core \<Rightarrow> auth_core \<Rightarrow> bool" where
  step_create: "env_ok env \<Longrightarrow> auth_step core (snd (auth_core_session_create env core))"
| step_validate: "env_ok env \<Longrightarrow> auth_step core (snd (auth_core_session_validate env core token))"
| step_remaining: "env_ok env \<Longrightarrow> auth_step core (snd (auth_core_session_remaining env core token))"
| step_logout: "env_ok env \<Longrightarrow> auth_step core (snd (auth_core_session_logout env core token))"
| step_logout_all: "env_ok env \<Longrightarrow> auth_step core (snd (auth_core_session_logout_all env core))"
| step_attempt: "env_ok env \<Longrightarrow>
    auth_step core (snd (snd (auth_core_login_attempt_allowed env core source)))"
| step_failure: "env_ok env \<Longrightarrow>
    auth_step core (snd (auth_core_login_record_failure env core source))"
| step_success: "env_ok env \<Longrightarrow>
    auth_step core (snd (auth_core_login_record_success env core source))"

inductive_cases auth_stepE: "auth_step core core'"

lemma empty_table_ok: "sessions_ok (replicate APP_SESSION_TABLE_MAX zero_session)"
  by (simp add: sessions_ok_def tokens_def list_all_iff)

lemma auth_step_ok: "auth_step core core' \<Longrightarrow> core_ok core \<Longrightarrow> core_ok core'"
proof (induction rule: auth_step.induct)
  case (step_remaining env core token)
  then show ?case
    by (auto simp: auth_core_session_remaining_def core_ok_def Let_def split: prod.splits
        dest!: read_now_keeps)
next
  case (step_logout_all env core)
  then show ?case
    using empty_table_ok by (simp add: auth_core_session_logout_all_def core_ok_def)
next
  case (step_attempt env core source)
  then show ?case
    using attempt.keeps [of env core source] by (simp split: prod.splits)
qed (simp_all add: create.keeps validate.keeps logout.keeps failure.keeps success.keeps)

lemma init_ok: "core_ok auth_core_init"
  using empty_table_ok
  by (simp add: core_ok_def auth_core_init_def rate_limits_ok_def sources_def list_all_iff)

text \<open>
  C14: in every reachable state of the authentication core the session table has its eight slots,
  every active session has a well-formed token that no other active session shares and an idle
  expiry that is neither beyond its absolute expiry nor more than 24 hours after its last use,
  and the rate limiter has its eight slots, each with at most five failures, and no source in
  two of them.
\<close>

theorem auth_reachable_well_formed:
  assumes "auth_step\<^sup>*\<^sup>* auth_core_init core"
  shows "sessions_ok (ac_sessions core) \<and> rate_limits_ok (ac_rate_limits core)"
proof -
  have "core_ok core"
    using assms by (induction rule: rtranclp_induct) (auto simp: init_ok auth_step_ok)
  then show ?thesis
    by (simp add: core_ok_def)
qed

lemma env_at_ok: "env_ok (env_at now)"
  by (simp add: env_ok_def env_at_def APP_SESSION_TOKEN_BYTES_def)

theorem auth_reachable_well_formed_witness:
  "sessions_ok (ac_sessions (snd (auth_core_session_create (env_at 1) auth_core_init)))"
proof -
  have "auth_step\<^sup>*\<^sup>* auth_core_init (snd (auth_core_session_create (env_at 1) auth_core_init))"
    by (intro r_into_rtranclp step_create env_at_ok)
  from auth_reachable_well_formed [OF this] show ?thesis ..
qed

text \<open>
  a login, validation, logout or rate-limit call whose mutex could not be taken, or not be
  given back, is without effect: sessions, failures and clock are as before the call.
\<close>

theorem faulty_mutex_changes_nothing:
  assumes "\<not> (ae_lock env \<and> ae_unlock env)"
  shows "snd (auth_core_session_create env core) = core \<and>
    snd (auth_core_session_validate env core token) = core \<and>
    snd (auth_core_session_logout env core token) = core \<and>
    snd (snd (auth_core_login_attempt_allowed env core source)) = core \<and>
    snd (auth_core_login_record_failure env core source) = core \<and>
    snd (auth_core_login_record_success env core source) = core"
  using create.faulty_mutex_neutral [OF assms] validate.faulty_mutex_neutral [OF assms]
    logout.faulty_mutex_neutral [OF assms] attempt.faulty_mutex_neutral [OF assms, where source = source and core = core]
    failure.faulty_mutex_neutral [OF assms] success.faulty_mutex_neutral [OF assms]
  by (simp split: prod.splits)

theorem faulty_mutex_changes_nothing_witness:
  "snd (auth_core_session_create ((env_at 1)\<lparr>ae_unlock := False\<rparr>) auth_core_init) = auth_core_init"
  using faulty_mutex_changes_nothing [of "(env_at 1)\<lparr>ae_unlock := False\<rparr>" auth_core_init] by simp

section \<open>Passwords\<close>

text \<open>
  a stored password verifies, and nothing else does: the record made from a password accepts
  a candidate of valid form exactly if the key derivation maps it to the stored hash under the
  record's own salt and iteration count, so in particular the password itself.
\<close>

theorem password_round_trip:
  assumes "auth_core_password_create derive salt (Some pw) = Inr record"
    and "\<And>p s n h. derive p s n = Some h \<Longrightarrow> length h = AUTH_HASH_BYTES"
    and "AUTH_PASSWORD_MIN_BYTES \<le> length candidate" and "length candidate \<le> AUTH_PASSWORD_MAX_BYTES"
    and "CHR 0x00 \<notin> set candidate" and "derive candidate (pr_salt record) (pr_iterations record) = Some h"
  shows "auth_core_password_verify derive (Some candidate) record =
      Inr (derive candidate (pr_salt record) (pr_iterations record) =
           derive pw (pr_salt record) (pr_iterations record)) \<and>
    auth_core_password_verify derive (Some pw) record = Inr True"
proof -
  have made: "derive pw (pr_salt record) (pr_iterations record) = Some (pr_hash record)"
    "pr_iterations record = AUTH_PBKDF2_ITERATIONS" "AUTH_PASSWORD_MIN_BYTES \<le> length pw"
    "length pw \<le> AUTH_PASSWORD_MAX_BYTES" "CHR 0x00 \<notin> set pw"
    using assms(1) by (auto simp: auth_core_password_create_def split: if_splits option.splits)
  have lens: "length h = AUTH_HASH_BYTES" "length (pr_hash record) = AUTH_HASH_BYTES"
    using assms(2) [OF assms(6)] assms(2) [OF made(1)] .
  have "auth_core_constant_time_equal x (pr_hash record) AUTH_HASH_BYTES \<longleftrightarrow> x = pr_hash record"
    if "length x = AUTH_HASH_BYTES" for x
    using that lens(2) by (auto simp: constant_time_equal_iff intro: nth_equalityI)
  then show ?thesis
    using made assms(3-6) lens by (simp add: auth_core_password_verify_def not_less)
qed

definition sample_derive :: "string \<Rightarrow> u8 list \<Rightarrow> u32 \<Rightarrow> u8 list option" where
  "sample_derive pw salt n = Some (replicate 32 (word_of_nat (length pw)))"

theorem password_round_trip_witness:
  "auth_core_password_verify sample_derive (Some ''wrong password'')
     \<lparr>pr_salt = replicate 16 1, pr_hash = replicate 32 12, pr_iterations = 5500\<rparr> = Inr False"
proof -
  let ?r = "\<lparr>pr_salt = replicate 16 1, pr_hash = replicate 32 12, pr_iterations = 5500\<rparr>"
  have 1: "auth_core_password_create sample_derive (Some (replicate 16 1)) (Some ''123456789012'') = Inr ?r"
    by (simp add: auth_core_password_create_def sample_derive_def limit_defs)
  have 2: "sample_derive p s n = Some h \<Longrightarrow> length h = AUTH_HASH_BYTES" for p s n h
    by (auto simp: sample_derive_def AUTH_HASH_BYTES_def)
  show ?thesis
    using password_round_trip [OF 1 2, where candidate = "''wrong password''" and h = "replicate 32 14"]
    by (simp add: sample_derive_def limit_defs)
qed

section \<open>Concrete sessions\<close>

definition logged_in :: auth_core where
  "logged_in = snd (auth_core_session_create (env_at 1) auth_core_init)"

lemma sample_login:
  "fst (auth_core_session_create (env_at 1) auth_core_init) =
    Inr \<lparr>sv_session_token = replicate 64 (CHR ''0''), sv_expires_at_us = 86400000001,
      sv_absolute_expires_at_us = 604800000001\<rparr>"
  by code_simp

lemma logged_in_ok: "sessions_ok (ac_sessions logged_in)"
  using create.keeps [OF env_at_ok init_ok] by (simp add: core_ok_def logged_in_def)

theorem session_creation_refines_witness:
  "live (ac_sessions logged_in) 2 (replicate 64 (CHR ''0'')) = Some (86400000001, 604800000001)"
proof -
  have "auth_core_session_create (env_at 1) auth_core_init =
    (Inr \<lparr>sv_session_token = replicate 64 (CHR ''0''), sv_expires_at_us = 86400000001,
      sv_absolute_expires_at_us = 604800000001\<rparr>, logged_in)"
    using sample_login unfolding logged_in_def by (metis prod.collapse)
  from session_creation_refines [OF _ env_at_ok _ this, of 2] init_ok show ?thesis
    by (simp add: core_ok_def env_at_def alive_def)
qed

lemma zero_token_valid: "auth_core_valid_hex_token (Some (replicate 64 (CHR ''0'')))"
  by code_simp

lemma sample_live: "live (ac_sessions logged_in) 2 (replicate 64 (CHR ''0'')) \<noteq> None"
  by code_simp

theorem session_validation_refines_witness:
  "fst (auth_core_session_validate (env_at 2) logged_in (Some (replicate 64 (CHR ''0'')))) =
    APP_ERROR_NONE"
proof -
  obtain r core' where run: "auth_core_session_validate (env_at 2) logged_in
      (Some (replicate 64 (CHR ''0''))) = (r, core')"
    by (metis prod.exhaust)
  have clock: "clock_ok (env_at 2) logged_in"
    by code_simp
  have "ae_lock (env_at 2)" "ae_unlock (env_at 2)" "ae_now_us (env_at 2) = 2"
    "\<not> (- 1) - (2 :: u64) < AUTH_CORE_SESSION_IDLE_US"
    by (simp_all add: env_at_def AUTH_CORE_SESSION_IDLE_US_def)
  with session_validation_refines [OF logged_in_ok zero_token_valid _ _ clock _ _ run, of 2] run
    sample_live
  show ?thesis
    by (auto split: option.splits)
qed

theorem logout_refines_witness:
  "live (ac_sessions (snd (auth_core_session_logout (env_at 2) logged_in
     (Some (replicate 64 (CHR ''0'')))))) 3 (replicate 64 (CHR ''0'')) = None"
proof -
  obtain r core' where run: "auth_core_session_logout (env_at 2) logged_in
      (Some (replicate 64 (CHR ''0''))) = (r, core')"
    by (metis prod.exhaust)
  have "ae_lock (env_at 2)" "ae_unlock (env_at 2)"
    by (simp_all add: env_at_def)
  with logout_refines [OF logged_in_ok zero_token_valid _ _ run, of 3] run show ?thesis
    by simp
qed

end
