(* ===== verification/Auth_Throttle.thy ===== *)
theory Auth_Throttle
  imports Auth_Lifecycle
begin

text \<open>
  The login rate limiter over whole histories: calls of all entry points of the authentication
  core in any order, under any clock and any mutex answers.  Failures of a source add up across
  the attempts, sessions and successes of others that come between them, and a lockout survives
  everything but a recorded success of its own source.
\<close>

section \<open>Histories of calls\<close>

datatype auth_call =
    Session_Create | Session_Validate "string option" | Session_Remaining "string option"
  | Session_Logout "string option" | Session_Logout_All
  | Login_Attempt u32 | Login_Failure u32 | Login_Success u32

fun auth_call_step :: "auth_env \<times> auth_call \<Rightarrow> auth_core \<Rightarrow> app_error \<times> auth_core" where
  "auth_call_step (env, Session_Create) core =
     (case auth_core_session_create env core of
        (Inl r, core) \<Rightarrow> (r, core) | (Inr view, core) \<Rightarrow> (APP_ERROR_NONE, core))"
| "auth_call_step (env, Session_Validate token) core = auth_core_session_validate env core token"
| "auth_call_step (env, Session_Remaining token) core =
     (case auth_core_session_remaining env core token of
        (Inl r, core) \<Rightarrow> (r, core) | (Inr remaining, core) \<Rightarrow> (APP_ERROR_NONE, core))"
| "auth_call_step (env, Session_Logout token) core = auth_core_session_logout env core token"
| "auth_call_step (env, Session_Logout_All) core = auth_core_session_logout_all env core"
| "auth_call_step (env, Login_Attempt source) core =
     (case auth_core_login_attempt_allowed env core source of (r, retry, core) \<Rightarrow> (r, core))"
| "auth_call_step (env, Login_Failure source) core = auth_core_login_record_failure env core source"
| "auth_call_step (env, Login_Success source) core = auth_core_login_record_success env core source"

fun auth_run :: "(auth_env \<times> auth_call) list \<Rightarrow> auth_core \<Rightarrow> app_error list \<times> auth_core" where
  "auth_run [] core = ([], core)"
| "auth_run (call # calls) core =
     (case auth_call_step call core of (r, core) \<Rightarrow>
        case auth_run calls core of (rs, core) \<Rightarrow> (r # rs, core))"

section \<open>What a call leaves alone\<close>

text \<open>The clock of the core only goes forward, to the instant the call read.\<close>

definition clock_moved :: "auth_env \<Rightarrow> auth_core \<Rightarrow> auth_core \<Rightarrow> bool" where
  "clock_moved env core core' \<longleftrightarrow>
     ac_last_now_us core' = ac_last_now_us core \<and>
       ac_clock_initialized core' = ac_clock_initialized core \<or>
     ac_last_now_us core' = ae_now_us env \<and> ac_clock_initialized core' \<and>
       (ac_clock_initialized core \<longrightarrow> ac_last_now_us core \<le> ae_now_us env)"

lemma clock_moved_same [simp]: "clock_moved env core core"
  by (simp add: clock_moved_def)

lemma clock_moved_tables [simp]:
  "clock_moved env core (core'\<lparr>ac_rate_limits := es\<rparr>) = clock_moved env core core'"
  "clock_moved env core (core'\<lparr>ac_sessions := ss\<rparr>) = clock_moved env core core'"
  by (simp_all add: clock_moved_def)

lemma read_now_moves:
  "auth_core_read_now env core = (r, now, core') \<Longrightarrow>
   clock_moved env core core' \<and> ac_rate_limits core' = ac_rate_limits core \<and>
   (r = APP_ERROR_NONE \<longrightarrow> now = ae_now_us env) \<and> (r \<noteq> APP_ERROR_NONE \<longrightarrow> core' = core)"
  by (auto simp: auth_core_read_now_def clock_moved_def Let_def split: if_splits)

lemma session_calls_quiet:
  assumes "auth_call_step (env, call) core = (r, core')"
    "call \<in> {Session_Create, Session_Validate token, Session_Remaining token, Session_Logout token,
       Session_Logout_All}"
  shows "ac_rate_limits core' = ac_rate_limits core \<and> clock_moved env core core'"
proof -
  have section_quiet: "ac_rate_limits core' = ac_rate_limits core \<and> clock_moved env core core'"
    if "session_create_section env core = Inr (view, core')" for view core'
    using that
    by (auto simp: session_create_section_def auth_core_read_now_def Let_def clock_moved_def
        split: if_splits option.splits sum.splits)
  show ?thesis
    using assms section_quiet
    by (auto simp: auth_core_session_create_def auth_core_session_validate_def
        auth_core_session_remaining_def auth_core_session_logout_def auth_core_session_logout_all_def
        Let_def split: if_splits prod.splits sum.splits dest!: read_now_moves)
qed

text \<open>
  How one call of the core may change the table: not at all, by pruning the slot of the source it
  attempts for, by clearing the slot of the source that succeeded, or by recording a failure.
\<close>

lemma call_table:
  assumes "auth_call_step (env, call) core = (r, core')"
  shows "case call of
      Login_Failure source \<Rightarrow> auth_core_login_record_failure env core source = (r, core')
    | Login_Attempt source \<Rightarrow> clock_moved env core core' \<and>
        (ac_rate_limits core' = ac_rate_limits core \<or>
         ac_last_now_us core' = ae_now_us env \<and>
         (\<exists>i. find_entry (ac_rate_limits core) source = Some i \<and> ac_rate_limits core' =
           (ac_rate_limits core)[i := prune_failures (ac_rate_limits core ! i) (ae_now_us env)]))
    | Login_Success source \<Rightarrow> clock_moved env core core' \<and>
        (ac_rate_limits core' = ac_rate_limits core \<or>
         (\<exists>i. find_entry (ac_rate_limits core) source = Some i \<and>
           ac_rate_limits core' = (ac_rate_limits core)[i := zero_rate_limit]))
    | _ \<Rightarrow> clock_moved env core core' \<and> ac_rate_limits core' = ac_rate_limits core"
proof (cases call)
  case (Login_Attempt source)
  then show ?thesis
    using assms
    by (auto simp: auth_core_login_attempt_allowed_def auth_core_read_now_def Let_def clock_moved_def
        split: if_splits option.splits)
next
  case (Login_Success source)
  then show ?thesis
    using assms by (auto simp: auth_core_login_record_success_def split: if_splits option.splits)
qed (use assms session_calls_quiet [OF assms] in auto)

lemma prune_slot_ok:
  assumes "rate_limits_ok es" "find_entry es source = Some i"
  shows "rate_limits_ok (es[i := prune_failures (es ! i) now])"
    "rate_limits_ok (es[i := zero_rate_limit])"
proof -
  note at = find_entry_Some [OF assms(2)]
  have "rate_entry_ok (es ! i)"
    using assms(1) at by (simp add: rate_limits_ok_def list_all_length)
  then show "rate_limits_ok (es[i := prune_failures (es ! i) now])"
    "rate_limits_ok (es[i := zero_rate_limit])"
    using at by (intro rate_limits_update [OF assms(1)]; simp add: prune_ok)+
qed

lemma call_keeps_table_ok:
  assumes "auth_call_step (env, call) core = (r, core')" "rate_limits_ok (ac_rate_limits core)"
  shows "rate_limits_ok (ac_rate_limits core')"
  using call_table [OF assms(1)] record_failure_spec [of env core _ r core'] prune_slot_ok [OF assms(2)] assms(2)
  by (auto split: auth_call.splits)

lemma entry_at:
  assumes "rate_limits_ok (ac_rate_limits core)" "k < length (ac_rate_limits core)"
    "rl_active (ac_rate_limits core ! k)" "rl_source_ipv4 (ac_rate_limits core ! k) = source"
  shows "entry_of core source = Some (ac_rate_limits core ! k)"
  using assms find_entry_unique [of "ac_rate_limits core" k source]
  by (simp add: entry_of_def rate_limits_ok_def)

lemma entry_other_slot:
  assumes "entry_of core source = Some e" "find_entry (ac_rate_limits core) s = Some i" "s \<noteq> source"
    "ac_rate_limits core' = (ac_rate_limits core)[i := e']" "rate_limits_ok (ac_rate_limits core')"
  shows "entry_of core' source = Some e"
proof -
  obtain k where k: "find_entry (ac_rate_limits core) source = Some k" "e = ac_rate_limits core ! k"
    using assms(1) by (auto simp: entry_of_def)
  have "i \<noteq> k"
    using find_entry_Some [OF k(1)] find_entry_Some [OF assms(2)] assms(3) by auto
  then have "ac_rate_limits core' ! k = e"
    using assms(4) k(2) by simp
  then show ?thesis
    using find_entry_Some [OF k(1)] k(2) assms(4) entry_at [OF assms(5), of k source] by simp
qed

lemma entry_same_slot:
  assumes "entry_of core source = Some e" "find_entry (ac_rate_limits core) source = Some i"
    "ac_rate_limits core' = (ac_rate_limits core)[i := prune_failures (ac_rate_limits core ! i) now]"
    "rate_limits_ok (ac_rate_limits core')"
  shows "entry_of core' source = Some (prune_failures e now)"
  using find_entry_Some [OF assms(2)] assms entry_at [of core' i source]
  by (auto simp: entry_of_def)

section \<open>Failures add up\<close>

text \<open>
  At least \<open>n\<close> failures of the source between \<open>t0\<close> and the last one at \<open>t1\<close>, with the lockout
  counted from \<open>t1\<close> as soon as the slot is full.
\<close>

definition failed_since :: "u32 \<Rightarrow> u64 \<Rightarrow> u64 \<Rightarrow> nat \<Rightarrow> auth_core \<Rightarrow> bool" where
  "failed_since source t0 t1 n core \<longleftrightarrow>
     rate_limits_ok (ac_rate_limits core) \<and> ac_clock_initialized core \<and>
     t0 \<le> t1 \<and> t1 \<le> ac_last_now_us core \<and>
     (\<exists>e. entry_of core source = Some e \<and> n \<le> length (failures_in e t0 t1) \<and>
        (rl_failure_count e < AUTH_RATE_LIMIT_FAILURE_MAX \<and> rl_lockout_until_us e = 0 \<or>
         rl_failure_count e = AUTH_RATE_LIMIT_FAILURE_MAX \<and>
         unat (rl_lockout_until_us e) = unat t1 + unat AUTH_CORE_LOCKOUT_US))"

lemma failed_since_counted:
  assumes "auth_core_login_record_failure env core source = (APP_ERROR_NONE, core')"
    "rate_limits_ok (ac_rate_limits core)"
    "e = (case entry_of core source of None \<Rightarrow> fresh_entry source (ae_now_us env)
      | Some e \<Rightarrow> prune_failures e (ae_now_us env))"
    "t0 \<le> ae_now_us env" "t1 \<le> ae_now_us env" "n \<le> length (failures_in e t0 t1)"
  shows "failed_since source t0 (ae_now_us env) (n + 1) core'"
proof -
  let ?now = "ae_now_us env"
  obtain e' where cf: "count_failure e ?now = (APP_ERROR_NONE, e')" and eo: "entry_of core' source = Some e'"
    and core': "rate_limits_ok (ac_rate_limits core')" "ac_last_now_us core' = ?now"
      "ac_clock_initialized core'"
    using record_failure_spec [OF assms(1,2)] assms(3) by auto
  have ok: "rate_entry_ok e \<and> rl_active e"
    using assms(2,3) entry_of_ok [of core source] prune_ok by (auto split: option.splits)
  note cnt = count_failure_spec [OF cf]
  have count: "rl_failure_count e < AUTH_RATE_LIMIT_FAILURE_MAX"
    "rl_failure_count e' = rl_failure_count e + 1"
    "rl_failures_us e' = (rl_failures_us e)[rl_failure_count e := ?now]"
    using cnt ok by simp_all
  have "\<not> rl_lockout_until_us e > ?now"
    using cf by (auto simp: count_failure_def split: if_splits)
  then have "rl_lockout_until_us e = 0"
    using assms(2,3) entry_of_ok [of core source] prune_unlocked by (auto split: option.splits)
  then have "rl_failure_count e' \<noteq> AUTH_RATE_LIMIT_FAILURE_MAX \<longrightarrow> rl_lockout_until_us e' = 0"
    using cf by (auto simp: count_failure_def Let_def split: if_splits)
  moreover have "rate_entry_ok e'"
    using cnt ok by simp
  moreover have "length (failures_in e t0 t1) + 1 \<le> length (failures_in e' t0 ?now)"
    using failures_in_append [OF count(1) _ assms(4,5)] ok count by (simp add: failures_in_def)
  moreover have "rl_failure_count e' = AUTH_RATE_LIMIT_FAILURE_MAX \<longrightarrow>
      unat (rl_lockout_until_us e') = unat ?now + unat AUTH_CORE_LOCKOUT_US"
    using cnt ok by simp
  moreover have "rl_failure_count e' \<le> AUTH_RATE_LIMIT_FAILURE_MAX"
    using cnt ok by (simp add: rate_entry_ok_def)
  ultimately have "n + 1 \<le> length (failures_in e' t0 ?now)"
    "rl_failure_count e' < AUTH_RATE_LIMIT_FAILURE_MAX \<and> rl_lockout_until_us e' = 0 \<or>
     rl_failure_count e' = AUTH_RATE_LIMIT_FAILURE_MAX \<and>
     unat (rl_lockout_until_us e') = unat ?now + unat AUTH_CORE_LOCKOUT_US"
    using assms(6) by linarith+
  then show ?thesis
    using eo core' assms(4) unfolding failed_since_def by simp
qed

lemma failed_since_first:
  assumes "auth_core_login_record_failure env core source = (APP_ERROR_NONE, core')"
    "rate_limits_ok (ac_rate_limits core)"
  shows "failed_since source (ae_now_us env) (ae_now_us env) 1 core'"
  using failed_since_counted [OF assms refl, of "ae_now_us env" "ae_now_us env" 0] by simp

lemma window_inside_lockout:
  assumes "t0 \<le> t1" "t1 \<le> now" "now - t0 < AUTH_CORE_FAILURE_WINDOW_US"
    "unat (t :: u64) = unat t1 + unat AUTH_CORE_LOCKOUT_US"
  shows "now < t"
proof -
  have "unat (now - t0) = unat now - unat t0"
    using assms(1,2) by (intro unat_sub) auto
  moreover have "unat t0 \<le> unat t1" "unat t1 \<le> unat now"
    using assms(1,2) by (simp_all add: word_le_nat_alt)
  ultimately show ?thesis
    using assms(3,4) by (simp add: word_less_nat_alt limit_defs)
qed

lemma failed_since_next:
  assumes "failed_since source t0 t1 n core"
    "auth_core_login_record_failure env core source = (APP_ERROR_NONE, core')"
    "ae_now_us env - t0 < AUTH_CORE_FAILURE_WINDOW_US"
  shows "failed_since source t0 (ae_now_us env) (n + 1) core'"
proof -
  let ?now = "ae_now_us env"
  obtain e where e: "entry_of core source = Some e" "n \<le> length (failures_in e t0 t1)"
    "rl_lockout_until_us e = 0 \<or> unat (rl_lockout_until_us e) = unat t1 + unat AUTH_CORE_LOCKOUT_US"
    and core: "rate_limits_ok (ac_rate_limits core)" "ac_clock_initialized core" "t0 \<le> t1"
      "t1 \<le> ac_last_now_us core"
    using assms(1) by (auto simp: failed_since_def)
  obtain e' where cf: "count_failure (prune_failures e ?now) ?now = (APP_ERROR_NONE, e')"
    and mono: "t1 \<le> ?now"
    using record_failure_spec [OF assms(2) core(1)] core(2,4) e(1) by auto
  note ok = entry_of_ok [OF core(1) e(1)]
  have "\<not> rl_lockout_until_us e > ?now"
    using cf ok prune_locked [of e ?now] by (auto simp: count_failure_def)
  then have "rl_lockout_until_us e = 0"
    using e(3) window_inside_lockout [OF core(3) mono assms(3)] by blast
  then have "failures_in (prune_failures e ?now) t0 t1 = failures_in e t0 t1"
    using ok mono assms(3) core(3) by (intro prune_keeps_window) simp_all
  then show ?thesis
    using failed_since_counted [OF assms(2) core(1) refl, of t0 t1 n] e(1,2) core(3) mono by auto
qed

lemma prune_count:
  "rl_active e \<Longrightarrow> rl_lockout_until_us e = 0 \<Longrightarrow> rl_failure_count (prune_failures e now) \<le> rl_failure_count e"
  by (simp add: prune_failures_def clear_expired_lockout_def recent_failures_def Let_def
      order.trans [OF length_filter_le])

text \<open>Calls that are no failure of anybody, and no success of the source, change nothing of that.\<close>

lemma failed_since_kept:
  assumes "failed_since source t0 t1 n core" "auth_call_step (env, call) core = (r, core')"
    "\<nexists>s. call = Login_Failure s" "call \<noteq> Login_Success source"
    "ae_now_us env - t0 < AUTH_CORE_FAILURE_WINDOW_US"
  shows "failed_since source t0 t1 n core'"
proof -
  let ?now = "ae_now_us env"
  obtain e where core: "rate_limits_ok (ac_rate_limits core)" "ac_clock_initialized core" "t0 \<le> t1"
      "t1 \<le> ac_last_now_us core" "entry_of core source = Some e" "n \<le> length (failures_in e t0 t1)"
    and disj: "rl_failure_count e < AUTH_RATE_LIMIT_FAILURE_MAX \<and> rl_lockout_until_us e = 0 \<or>
      rl_failure_count e = AUTH_RATE_LIMIT_FAILURE_MAX \<and>
      unat (rl_lockout_until_us e) = unat t1 + unat AUTH_CORE_LOCKOUT_US"
    using assms(1) by (auto simp: failed_since_def)
  note table = call_table [OF assms(2)] and ok' = call_keeps_table_ok [OF assms(2) core(1)]
  have clock: "clock_moved env core core'"
    using table assms(3) by (cases call) auto
  then have clock': "ac_clock_initialized core'" "t1 \<le> ac_last_now_us core'"
    using core(2,4) by (auto simp: clock_moved_def)
  have "entry_of core' source = Some e \<or>
      entry_of core' source = Some (prune_failures e ?now) \<and> t1 \<le> ?now"
  proof (cases "ac_rate_limits core' = ac_rate_limits core")
    case True
    then show ?thesis
      using core(5) by (simp add: entry_of_def)
  next
    case False
    show ?thesis
    proof (cases call)
      case (Login_Attempt s)
      then obtain i where i: "find_entry (ac_rate_limits core) s = Some i" "ac_rate_limits core' =
          (ac_rate_limits core)[i := prune_failures (ac_rate_limits core ! i) ?now]"
        "ac_last_now_us core' = ?now"
        using table False by auto
      then show ?thesis
        using entry_other_slot [OF core(5) i(1) _ i(2) ok'] entry_same_slot [OF core(5) _ i(2) ok'] clock'
        by (cases "s = source") auto
    next
      case (Login_Success s)
      then show ?thesis
        using table False assms(4) entry_other_slot [OF core(5) _ _ _ ok'] by fastforce
    qed (use table False assms(3) in auto)
  qed
  moreover have "n \<le> length (failures_in (prune_failures e ?now) t0 t1) \<and>
      (rl_failure_count (prune_failures e ?now) < AUTH_RATE_LIMIT_FAILURE_MAX \<and>
         rl_lockout_until_us (prune_failures e ?now) = 0 \<or>
       rl_failure_count (prune_failures e ?now) = AUTH_RATE_LIMIT_FAILURE_MAX \<and>
       unat (rl_lockout_until_us (prune_failures e ?now)) = unat t1 + unat AUTH_CORE_LOCKOUT_US)"
    if mono: "t1 \<le> ?now"
  proof (cases "rl_lockout_until_us e = 0")
    case True
    note ok = entry_of_ok [OF core(1,5)]
    have "rl_failure_count e < AUTH_RATE_LIMIT_FAILURE_MAX"
      using disj True by (auto simp: limit_defs)
    then show ?thesis
      using True ok mono core(3,6) assms(5) prune_keeps_window [of e t1 ?now t0] prune_count [of e ?now]
        prune_released [of e ?now]
      by auto
  next
    case False
    then have "rl_lockout_until_us e > ?now"
      using disj window_inside_lockout [OF core(3) mono assms(5)] by blast
    then show ?thesis
      using entry_of_ok [OF core(1,5)] core(6) disj False
      by (auto simp: prune_failures_def clear_expired_lockout_def Let_def failures_in_def)
  qed
  ultimately show ?thesis
    using clock' ok' core(3,6) disj by (auto simp: failed_since_def)
qed

text \<open>The failures of a source among some calls, as their environments.\<close>

definition failures_of :: "u32 \<Rightarrow> (auth_env \<times> auth_call) list \<Rightarrow> auth_env list" where
  "failures_of source calls = map fst (filter (\<lambda>c. snd c = Login_Failure source) calls)"

lemma failures_of_simps [simp]:
  "failures_of source [] = []"
  "failures_of source ((env, call) # calls) =
     (if call = Login_Failure source then env # failures_of source calls else failures_of source calls)"
  by (simp_all add: failures_of_def)

lemma failed_since_run:
  assumes "auth_run calls core = (rs, core')" "failed_since source t0 t1 n core"
    "\<forall>(env, call) \<in> set calls. ae_now_us env - t0 < AUTH_CORE_FAILURE_WINDOW_US \<and>
       call \<noteq> Login_Success source \<and> (\<forall>s. call = Login_Failure s \<longrightarrow> s = source)"
    "\<forall>((env, call), r) \<in> set (zip calls rs). call = Login_Failure source \<longrightarrow> r = APP_ERROR_NONE"
  shows "failed_since source t0 (last (t1 # map ae_now_us (failures_of source calls)))
    (n + length (failures_of source calls)) core'"
  using assms
proof (induction calls arbitrary: core rs t1 n)
  case (Cons c calls)
  obtain env call where c: "c = (env, call)"
    by (cases c)
  obtain r core1 where r: "auth_call_step (env, call) core = (r, core1)"
    by (metis prod.exhaust)
  obtain rs1 where rs: "auth_run calls core1 = (rs1, core')" "rs = r # rs1"
    using Cons.prems(1) r c by (auto split: prod.splits)
  show ?case
  proof (cases "call = Login_Failure source")
    case True
    then have "failed_since source t0 (ae_now_us env) (n + 1) core1"
      using failed_since_next [OF Cons.prems(2)] r Cons.prems(3,4) rs(2) c by simp
    from Cons.IH [OF rs(1) this] show ?thesis
      using Cons.prems(3,4) rs(2) c True by simp
  next
    case False
    then have "failed_since source t0 t1 n core1"
      using failed_since_kept [OF Cons.prems(2) r] Cons.prems(3) c by auto
    from Cons.IH [OF rs(1) this] show ?thesis
      using Cons.prems(3,4) rs(2) c False by simp
  qed
qed simp

section \<open>A lockout stays\<close>

definition locked_until :: "u32 \<Rightarrow> u64 \<Rightarrow> rate_limit_entry list \<Rightarrow> bool" where
  "locked_until source t es \<longleftrightarrow>
     (\<exists>k < length es. rl_active (es ! k) \<and> rl_source_ipv4 (es ! k) = source \<and>
        rl_lockout_until_us (es ! k) = t)"

lemma locked_until_update:
  assumes "locked_until source t es" "i < length es"
    "rl_active (es ! i) \<and> rl_source_ipv4 (es ! i) = source \<and> rl_lockout_until_us (es ! i) = t \<longrightarrow>
     rl_active e \<and> rl_source_ipv4 e = source \<and> rl_lockout_until_us e = t"
  shows "locked_until source t (es[i := e])"
proof -
  obtain k where "k < length es" "rl_active (es ! k)" "rl_source_ipv4 (es ! k) = source"
    "rl_lockout_until_us (es ! k) = t"
    using assms(1) by (auto simp: locked_until_def)
  then show ?thesis
    unfolding locked_until_def using assms(2,3) by (intro exI [of _ k]) (cases "k = i"; simp)
qed

lemma locked_until_pruned:
  "locked_until source t es \<Longrightarrow> i < length es \<Longrightarrow> now < t \<Longrightarrow>
   locked_until source t (es[i := prune_failures (es ! i) now])"
  by (rule locked_until_update) (simp_all add: prune_locked)

text \<open>Making room prunes slots, and never gives away one that is locked out.\<close>

lemma allocate_loop_locked:
  assumes "allocate_loop now index lru es = (choice, es')"
  shows "length es' = length es \<and>
    (\<forall>k < length es. es' ! k = es ! k \<or> es' ! k = prune_failures (es ! k) now) \<and>
    (case choice of
       Inl i \<Rightarrow> index \<le> i \<and> i < index + length es \<and> \<not> rl_active (es ! (i - index))
     | Inr None \<Rightarrow> True
     | Inr (Some (i, used)) \<Rightarrow> lru = Some (i, used) \<or>
         index \<le> i \<and> i < index + length es \<and>
         \<not> rl_lockout_until_us (prune_failures (es ! (i - index)) now) > now)"
  using assms
proof (induction es arbitrary: index lru choice es')
  case (Cons e es)
  show ?case
  proof (cases "rl_active e")
    case False
    then show ?thesis using Cons.prems by (auto split: sum.splits)
  next
    case True
    let ?e = "prune_failures e now"
    define lru' where "lru' = (if rl_lockout_until_us ?e > now then lru
      else case lru of None \<Rightarrow> Some (index, rl_last_used_us ?e)
        | Some (i, used) \<Rightarrow> if rl_last_used_us ?e < used then Some (index, rl_last_used_us ?e) else lru)"
    obtain rest where rest: "allocate_loop now (index + 1) lru' es = (choice, rest)" "es' = ?e # rest"
      using Cons.prems True by (auto simp: Let_def lru'_def split: prod.splits)
    have lru': "lru' = lru \<or> (\<exists>used. lru' = Some (index, used)) \<and> \<not> rl_lockout_until_us ?e > now"
      by (auto simp: lru'_def split: option.splits)
    have entries: "\<forall>k < length (e # es). es' ! k = (e # es) ! k \<or> es' ! k = prune_failures ((e # es) ! k) now"
      using Cons.IH [OF rest(1)] rest(2) by (auto simp: nth_Cons')
    show ?thesis
      using Cons.IH [OF rest(1)] rest(2) lru' entries
      by (auto simp: nth_Cons' split: sum.splits option.splits)
  qed
qed (auto split: option.splits)

lemma allocate_entry_locked:
  assumes "allocate_entry es source' now = (slot, es')" "locked_until source t es" "now < t"
  shows "locked_until source t es'"
proof -
  obtain choice es1 where loop: "allocate_loop now 0 None es = (choice, es1)"
    by (metis prod.exhaust)
  note spec = allocate_loop_locked [OF loop]
  obtain k where k: "k < length es" "rl_active (es ! k)" "rl_source_ipv4 (es ! k) = source"
    "rl_lockout_until_us (es ! k) = t"
    using assms(2) by (auto simp: locked_until_def)
  have here: "rl_active (es1 ! k) \<and> rl_source_ipv4 (es1 ! k) = source \<and> rl_lockout_until_us (es1 ! k) = t"
  proof -
    have "es1 ! k = es ! k \<or> es1 ! k = prune_failures (es ! k) now"
      using spec k(1) by blast
    then show ?thesis
      using k(2-4) assms(3) prune_locked [of "es ! k" now] by auto
  qed
  have other: "i \<noteq> k" if "slot = Some i" for i
    using that spec loop assms(1,3) k prune_locked [of "es ! k" now]
    by (auto simp: allocate_entry_def split: sum.splits option.splits)
  have "es' = es1 \<or> (\<exists>i. slot = Some i \<and> es' = es1[i := fresh_entry source' now])"
    using assms(1) loop by (auto simp: allocate_entry_def split: sum.splits option.splits)
  then show ?thesis
    unfolding locked_until_def using here other k(1) spec by (intro exI [of _ k]) auto
qed

lemma count_failure_locked:
  "count_failure e now = (r, e') \<Longrightarrow>
   rl_active e' = rl_active e \<and> rl_source_ipv4 e' = rl_source_ipv4 e \<and>
   (rl_lockout_until_us e > now \<longrightarrow> e' = e)"
  by (auto simp: count_failure_def Let_def split: if_splits)

lemma record_failure_locked:
  assumes "auth_core_login_record_failure env core source' = (r, core')"
    "locked_until source t (ac_rate_limits core)" "ae_now_us env < t"
  shows "locked_until source t (ac_rate_limits core') \<and> clock_moved env core core'"
proof -
  let ?es = "ac_rate_limits core" and ?now = "ae_now_us env"
  define choice where "choice = (case find_entry ?es source' of
      None \<Rightarrow> allocate_entry ?es source' ?now
    | Some i \<Rightarrow> (Some i, ?es[i := prune_failures (?es ! i) ?now]))"
  obtain slot entries where choice: "choice = (slot, entries)"
    by (cases choice)
  have locked: "locked_until source t entries"
    using assms(2,3) choice locked_until_pruned allocate_entry_locked find_entry_Some
    by (auto simp: choice_def split: option.splits)
  have "locked_until source t (entries[i := e'])"
    if "count_failure (entries ! i) ?now = (q, e')" for i q e'
  proof (cases "i < length entries")
    case True
    then show ?thesis
      using count_failure_locked [OF that] assms(3) by (intro locked_until_update [OF locked]) auto
  qed (use locked in \<open>simp add: list_update_beyond not_less\<close>)
  note counted = this
  show ?thesis
  proof (cases "ae_lock env \<and> ae_unlock env \<and>
      \<not> (ac_clock_initialized core \<and> ?now < ac_last_now_us core)")
    case False
    then have "core' = core"
      using assms(1) by (auto simp: auth_core_login_record_failure_def auth_core_read_now_def Let_def
          split: prod.splits if_splits)
    then show ?thesis using assms(2) by simp
  next
    case True
    define core1 where "core1 = core\<lparr>ac_last_now_us := ?now, ac_clock_initialized := True\<rparr>"
    have "(r, core') = (case choice of
        (None, entries) \<Rightarrow> (APP_ERROR_RATE_LIMITED, core1\<lparr>ac_rate_limits := entries\<rparr>)
      | (Some i, entries) \<Rightarrow>
          (case count_failure (entries ! i) ?now of (result, entry) \<Rightarrow>
            (result, core1\<lparr>ac_rate_limits := entries[i := entry]\<rparr>)))"
      using assms(1) True
      by (simp add: auth_core_login_record_failure_def auth_core_read_now_def Let_def choice_def
          core1_def split: prod.splits option.splits)
    then have "locked_until source t (ac_rate_limits core')"
      "ac_last_now_us core' = ?now \<and> ac_clock_initialized core'"
      using choice locked counted by (auto simp: core1_def split: option.splits prod.splits)
    then show ?thesis
      using True by (auto simp: clock_moved_def)
  qed
qed

lemma call_keeps_lock:
  assumes "auth_call_step (env, call) core = (r, core')" "locked_until source t (ac_rate_limits core)"
    "ae_now_us env < t" "call \<noteq> Login_Success source"
  shows "locked_until source t (ac_rate_limits core') \<and> clock_moved env core core'"
proof (cases call)
  case (Login_Success s)
  have "locked_until source t ((ac_rate_limits core)[i := zero_rate_limit])"
    if "find_entry (ac_rate_limits core) s = Some i" for i
    using find_entry_Some [OF that] assms(4) Login_Success
    by (intro locked_until_update [OF assms(2)]) auto
  then show ?thesis
    using call_table [OF assms(1)] Login_Success assms(2) by auto
next
  case (Login_Failure s)
  then show ?thesis
    using record_failure_locked assms by simp
next
  case (Login_Attempt s)
  then show ?thesis
    using call_table [OF assms(1)] assms(2,3) locked_until_pruned find_entry_Some by auto
qed (use call_table [OF assms(1)] assms(2) in simp_all)

lemma run_keeps_lock:
  assumes "auth_run calls core = (rs, core')" "rate_limits_ok (ac_rate_limits core)"
    "locked_until source t (ac_rate_limits core)" "ac_clock_initialized core"
    "\<forall>(env, call) \<in> set calls. ae_now_us env < t \<and> call \<noteq> Login_Success source"
  shows "rate_limits_ok (ac_rate_limits core') \<and> locked_until source t (ac_rate_limits core') \<and>
    ac_clock_initialized core' \<and> ac_last_now_us core \<le> ac_last_now_us core'"
  using assms
proof (induction calls arbitrary: core rs)
  case (Cons c calls)
  obtain env call where c: "c = (env, call)"
    by (cases c)
  obtain r core1 where r: "auth_call_step (env, call) core = (r, core1)"
    by (metis prod.exhaust)
  obtain rs1 where rs: "auth_run calls core1 = (rs1, core')"
    using Cons.prems(1) r c by (auto split: prod.splits)
  have "locked_until source t (ac_rate_limits core1) \<and> clock_moved env core core1"
    using call_keeps_lock [OF r Cons.prems(3)] Cons.prems(5) c by simp
  moreover from this have "ac_clock_initialized core1 \<and> ac_last_now_us core \<le> ac_last_now_us core1"
    using Cons.prems(4) by (auto simp: clock_moved_def)
  ultimately show ?case
    using Cons.IH [OF rs call_keeps_table_ok [OF r Cons.prems(2)]] Cons.prems(5) c
    by (auto intro: order.trans)
qed simp

section \<open>Throttling\<close>

lemma five_failures_locked:
  assumes "rate_limits_ok (ac_rate_limits core)" "auth_run prior core = (rs, core')"
    "prior \<noteq> []" "snd (hd prior) = Login_Failure source"
    "length (failures_of source prior) = AUTH_RATE_LIMIT_FAILURE_MAX"
    "\<forall>((env, call), r) \<in> set (zip prior rs). call = Login_Failure source \<longrightarrow> r = APP_ERROR_NONE"
    "\<forall>(env, call) \<in> set prior. ae_now_us env - ae_now_us (fst (hd prior)) < AUTH_CORE_FAILURE_WINDOW_US \<and>
       call \<noteq> Login_Success source \<and> (\<forall>s. call = Login_Failure s \<longrightarrow> s = source)"
    "fifth = ae_now_us (last (failures_of source prior))"
  shows "rate_limits_ok (ac_rate_limits core') \<and> ac_clock_initialized core' \<and>
    fifth \<le> ac_last_now_us core' \<and>
    (\<exists>t. locked_until source t (ac_rate_limits core') \<and> unat t = unat fifth + 300000000)"
proof -
  obtain env calls where prior: "prior = (env, Login_Failure source) # calls"
    using assms(3,4) by (cases prior) auto
  obtain r core1 where r: "auth_core_login_record_failure env core source = (r, core1)"
    by (metis prod.exhaust)
  obtain rs1 where rs: "auth_run calls core1 = (rs1, core')" "rs = r # rs1"
    using assms(2) r prior by (auto split: prod.splits)
  have "failed_since source (ae_now_us env) (ae_now_us env) 1 core1"
    using failed_since_first [OF _ assms(1)] r assms(6) rs(2) prior by simp
  then have "failed_since source (ae_now_us env)
      (last (ae_now_us env # map ae_now_us (failures_of source calls)))
      (1 + length (failures_of source calls)) core'"
    by (rule failed_since_run [OF rs(1)]) (use assms(6,7) prior rs(2) in simp_all)
  moreover have "last (ae_now_us env # map ae_now_us (failures_of source calls)) = fifth"
    using assms(8) prior by (simp add: last_map)
  moreover have "1 + length (failures_of source calls) = AUTH_RATE_LIMIT_FAILURE_MAX"
    using assms(5) prior by simp
  ultimately have five: "failed_since source (ae_now_us env) fifth AUTH_RATE_LIMIT_FAILURE_MAX core'"
    by simp
  then obtain e where e: "entry_of core' source = Some e"
    "AUTH_RATE_LIMIT_FAILURE_MAX \<le> length (failures_in e (ae_now_us env) fifth)"
    and disj: "rl_failure_count e < AUTH_RATE_LIMIT_FAILURE_MAX \<or>
      unat (rl_lockout_until_us e) = unat fifth + unat AUTH_CORE_LOCKOUT_US"
    by (auto simp: failed_since_def)
  have "length (failures_in e (ae_now_us env) fifth) \<le> rl_failure_count e"
    unfolding failures_in_def by (rule order.trans [OF length_filter_le]) simp
  then have lock: "unat (rl_lockout_until_us e) = unat fifth + 300000000"
    using e(2) disj by (simp add: limit_defs)
  obtain k where "find_entry (ac_rate_limits core') source = Some k" "e = ac_rate_limits core' ! k"
    using e(1) by (auto simp: entry_of_def)
  then have "locked_until source (rl_lockout_until_us e) (ac_rate_limits core')"
    using find_entry_Some by (auto simp: locked_until_def)
  then show ?thesis
    using five lock by (auto simp: failed_since_def)
qed

text \<open>
  C13: brute force is throttled.  Take any well-formed state of the core and a history in which
  five failures of one source are recorded within a minute, with any attempts, sessions and
  successes of other sources between them (failures of other sources excepted: with a full table
  they can evict the slot).  Then, whatever calls of any source follow, refused attempts and
  further failures of the same source and failures that fill the table included, short of a
  recorded success of the source, every attempt of the source within five minutes of the fifth
  failure is refused with the number of seconds left (rounded up, so never zero and never more
  than 300) as the time to wait, and one after the five minutes is allowed again.
\<close>

theorem five_failures_lock_out:
  assumes "rate_limits_ok (ac_rate_limits core)"
    and "auth_run prior core = (rs, core1)" and "prior \<noteq> []" and "snd (hd prior) = Login_Failure source"
    and "length (failures_of source prior) = 5"
    and "\<forall>((env, call), r) \<in> set (zip prior rs). call = Login_Failure source \<longrightarrow> r = APP_ERROR_NONE"
    and "\<forall>(env, call) \<in> set prior. ae_now_us env - ae_now_us (fst (hd prior)) < AUTH_CORE_FAILURE_WINDOW_US \<and>
       call \<noteq> Login_Success source \<and> (\<forall>s. call = Login_Failure s \<longrightarrow> s = source)"
    and "fifth = ae_now_us (last (failures_of source prior))"
    and "auth_run later core1 = (rs', core2)"
    and "\<forall>(env, call) \<in> set later. unat (ae_now_us env) < unat fifth + 300000000 \<and>
       call \<noteq> Login_Success source"
    and "ae_lock env" and "ae_unlock env" and "clock_ok env core2"
  shows "let elapsed = unat (ae_now_us env) - unat fifth in
    fifth \<le> ae_now_us env \<and>
    (if elapsed < 300000000
     then \<exists>retry core3. auth_core_login_attempt_allowed env core2 source =
         (APP_ERROR_RATE_LIMITED, retry, core3) \<and>
       unat retry = (300000000 - elapsed + 999999) div 1000000 \<and> 0 < unat retry \<and> unat retry \<le> 300
     else fst (auth_core_login_attempt_allowed env core2 source) = APP_ERROR_NONE)"
proof -
  have "length (failures_of source prior) = AUTH_RATE_LIMIT_FAILURE_MAX"
    using assms(5) by (simp add: limit_defs)
  note five = five_failures_locked [OF assms(1-4) this assms(6-8)]
  then obtain t where t: "locked_until source t (ac_rate_limits core1)" "unat t = unat fifth + 300000000"
    by blast
  have "\<forall>(env, call) \<in> set later. ae_now_us env < t \<and> call \<noteq> Login_Success source"
    using assms(10) t(2) by (auto simp: word_less_nat_alt)
  then have kept: "rate_limits_ok (ac_rate_limits core2)" "locked_until source t (ac_rate_limits core2)"
    "ac_clock_initialized core2" "ac_last_now_us core1 \<le> ac_last_now_us core2"
    using run_keeps_lock [OF assms(9) _ t(1)] five by auto
  then obtain e where e: "entry_of core2 source = Some e" "rl_lockout_until_us e = t"
    using entry_at [OF kept(1)] by (auto simp: locked_until_def)
  have mono: "fifth \<le> ae_now_us env"
    using five kept(3,4) assms(13) by (auto simp: clock_ok_def intro: order.trans)
  then have le: "unat fifth \<le> unat (ae_now_us env)"
    by (simp add: word_le_nat_alt)
  note answer = attempt_result [OF assms(11-13) kept(1), of source]
  show ?thesis
  proof (cases "t > ae_now_us env")
    case True
    let ?d = "t - ae_now_us env"
    have "unat ?d = unat t - unat (ae_now_us env)"
      using True by (intro unat_sub) simp
    then have d: "unat ?d = 300000000 - (unat (ae_now_us env) - unat fifth)"
      "unat (ae_now_us env) - unat fifth < 300000000"
      using t(2) le True by (simp_all add: word_less_nat_alt)
    have "unat (retry_seconds ?d) = (unat ?d + 999999) div 1000000"
      by (rule retry_seconds_ceiling) (simp add: d AUTH_CORE_LOCKOUT_US_def)
    then show ?thesis
      using answer e True d mono by (auto simp: Let_def)
  next
    case False
    then have "\<not> unat (ae_now_us env) - unat fifth < 300000000"
      using t(2) le by (simp add: word_less_nat_alt)
    then show ?thesis
      using answer e False mono by (simp add: Let_def)
  qed
qed

text \<open>
  A login of source 7 goes wrong five times, each attempt asked for first and one session
  validated on the way; then it is refused twice, and eight other sources fill the table.
\<close>

definition sample_attack :: "(auth_env \<times> auth_call) list" where
  "sample_attack =
     [(env_at 1, Login_Failure 7), (env_at 2, Login_Attempt 7), (env_at 2, Login_Failure 7),
      (env_at 3, Session_Create), (env_at 3, Login_Attempt 7), (env_at 3, Login_Failure 7),
      (env_at 4, Login_Attempt 9), (env_at 4, Login_Attempt 7), (env_at 4, Login_Failure 7),
      (env_at 5, Login_Attempt 7), (env_at 5, Login_Failure 7)]"

definition sample_siege :: "(auth_env \<times> auth_call) list" where
  "sample_siege =
     [(env_at 6, Login_Attempt 7), (env_at 7, Login_Failure 7), (env_at 8, Login_Attempt 7)] @
     map (\<lambda>s. (env_at 9, Login_Failure s)) [11, 12, 13, 14, 15, 16, 17, 18]"

lemma sample_attack_recorded:
  "list_all (\<lambda>r. r = APP_ERROR_NONE) (fst (auth_run sample_attack auth_core_init))"
  by code_simp

lemma sample_attack_clock: "ac_last_now_us (snd (auth_run (sample_attack @ sample_siege) auth_core_init)) = 9"
  by code_simp

lemma auth_run_append:
  "snd (auth_run (xs @ ys) core) = snd (auth_run ys (snd (auth_run xs core)))"
  by (induction xs arbitrary: core) (auto split: prod.splits, metis snd_conv)

theorem five_failures_lock_out_witness:
  "\<exists>retry core3. auth_core_login_attempt_allowed (env_at 10)
      (snd (auth_run (sample_attack @ sample_siege) auth_core_init)) 7 =
      (APP_ERROR_RATE_LIMITED, retry, core3) \<and> unat retry = 300"
proof -
  obtain rs core1 where prior: "auth_run sample_attack auth_core_init = (rs, core1)"
    by fastforce
  obtain rs' core2 where later: "auth_run sample_siege core1 = (rs', core2)"
    by fastforce
  have core2: "core2 = snd (auth_run (sample_attack @ sample_siege) auth_core_init)"
    using prior later by (simp add: auth_run_append)
  have ok: "rate_limits_ok (ac_rate_limits auth_core_init)"
    using init_ok by (simp add: core_ok_def)
  have answers: "\<forall>((env, call), r) \<in> set (zip sample_attack rs). call = Login_Failure 7 \<longrightarrow> r = APP_ERROR_NONE"
    using sample_attack_recorded prior by (auto simp: list_all_iff dest: set_zip_rightD)
  have clock: "clock_ok (env_at 10) core2"
    using sample_attack_clock by (simp add: clock_ok_def core2 env_at_def)
  have last: "ae_now_us (last (failures_of 7 sample_attack)) = 5"
    by (simp add: sample_attack_def env_at_def)
  have quiet: "\<forall>(env, call) \<in> set sample_attack.
      ae_now_us env - ae_now_us (fst (hd sample_attack)) < AUTH_CORE_FAILURE_WINDOW_US \<and>
      call \<noteq> Login_Success 7 \<and> (\<forall>s. call = Login_Failure s \<longrightarrow> s = 7)"
    by (simp add: sample_attack_def env_at_def AUTH_CORE_FAILURE_WINDOW_US_def)
  have siege: "\<forall>(env, call) \<in> set sample_siege.
      unat (ae_now_us env) < unat (5 :: u64) + 300000000 \<and> call \<noteq> Login_Success 7"
    by (simp add: sample_siege_def env_at_def)
  have "sample_attack \<noteq> []" "snd (hd sample_attack) = Login_Failure 7"
    "length (failures_of 7 sample_attack) = 5"
    by (simp_all add: sample_attack_def)
  from five_failures_lock_out [OF ok prior this answers quiet last [symmetric] later siege _ _ clock]
  show ?thesis
    unfolding core2 [symmetric] by (auto simp: env_at_def Let_def)
qed

end
