(* ===== verification/C_Text.thy ===== *)
theory C_Text
  imports App_Prelude
begin

text \<open>
  The text formatting of the C library the firmware uses: decimal numbers as \<open>snprintf\<close>
  prints them (\<open>%u\<close>, and zero padded as \<open>%020\<close>), the reading of a digit string, and the
  check every caller of \<open>snprintf\<close> makes that the text fitted its buffer.
\<close>

section \<open>Decimal digits\<close>

definition is_digit :: "char \<Rightarrow> bool" where
  "is_digit c \<longleftrightarrow> 48 \<le> byte c \<and> byte c \<le> 57"

abbreviation digit_value :: "char \<Rightarrow> nat" where
  "digit_value c \<equiv> byte c - 48"

definition digit_char :: "nat \<Rightarrow> char" where
  "digit_char d = char_of (48 + d)"

lemma digit_char_value [simp]: "d < 10 \<Longrightarrow> digit_value (digit_char d) = d"
  by (simp add: digit_char_def)

lemma digit_char_is_digit [simp]: "d < 10 \<Longrightarrow> is_digit (digit_char d)"
  by (simp add: digit_char_def is_digit_def)

lemma digit_char_of_value [simp]: "is_digit c \<Longrightarrow> digit_char (digit_value c) = c"
  by (simp add: digit_char_def is_digit_def)

lemma digit_value_less: "is_digit c \<Longrightarrow> digit_value c < 10"
  unfolding is_digit_def by linarith

lemma digit_value_inject: "is_digit c \<Longrightarrow> is_digit d \<Longrightarrow> digit_value c = digit_value d \<longleftrightarrow> c = d"
  by (metis digit_char_of_value)

text \<open>The number a digit string continues, read from the left.\<close>

definition read_decimal :: "nat \<Rightarrow> string \<Rightarrow> nat" where
  "read_decimal v cs = foldl (\<lambda>n c. 10 * n + digit_value c) v cs"

lemma read_decimal_simps [simp]:
  "read_decimal v [] = v"
  "read_decimal v (c # cs) = read_decimal (10 * v + digit_value c) cs"
  "read_decimal v (cs @ ds) = read_decimal (read_decimal v cs) ds"
  by (simp_all add: read_decimal_def)

lemma read_decimal_grows: "v \<le> read_decimal v cs"
proof (induction cs arbitrary: v)
  case (Cons c cs)
  have "v \<le> 10 * v + digit_value c" by simp
  also have "\<dots> \<le> read_decimal (10 * v + digit_value c) cs" by (rule Cons.IH)
  finally show ?case by simp
qed simp

lemma read_decimal_zeros [simp]: "read_decimal 0 (replicate n CHR ''0'') = 0"
  by (induction n) simp_all

lemma shifted_digit_inject:
  "a < 10 \<Longrightarrow> b < 10 \<Longrightarrow> 10 * v + a = 10 * w + b \<longleftrightarrow> v = w \<and> a = b" for a b v w :: nat
  by (cases v w rule: linorder_cases) linarith+

lemma read_decimal_inject:
  assumes "length cs = length ds" and "list_all is_digit cs" and "list_all is_digit ds"
    and "read_decimal v cs = read_decimal w ds"
  shows "v = w \<and> cs = ds"
  using assms
proof (induction cs ds arbitrary: v w rule: list_induct2)
  case (Cons c cs d ds)
  then have "10 * v + digit_value c = 10 * w + digit_value d \<and> cs = ds" by simp
  moreover have "digit_value c < 10" "digit_value d < 10"
    using Cons.prems by (simp_all add: digit_value_less)
  ultimately have "v = w \<and> digit_value c = digit_value d \<and> cs = ds"
    using shifted_digit_inject by blast
  then show ?case using Cons.prems by (simp add: digit_value_inject)
qed simp

section \<open>Printing\<close>

fun decimal :: "nat \<Rightarrow> string" where
  "decimal n = (if n < 10 then [digit_char n] else decimal (n div 10) @ [digit_char (n mod 10)])"

declare decimal.simps [simp del]

definition zero_padded :: "nat \<Rightarrow> string \<Rightarrow> string" where
  "zero_padded width s = replicate (width - length s) CHR ''0'' @ s"

lemma decimal_digits: "list_all is_digit (decimal n)"
  by (induction n rule: decimal.induct) (subst decimal.simps, simp)

lemma read_decimal_decimal [simp]: "read_decimal 0 (decimal n) = n"
proof (induction n rule: decimal.induct)
  case (1 n)
  then show ?case by (subst decimal.simps) (cases "n < 10", simp_all)
qed

lemma decimal_length: "n < 10 ^ Suc k \<Longrightarrow> length (decimal n) \<le> Suc k"
proof (induction k arbitrary: n)
  case 0
  then show ?case by (simp add: decimal.simps)
next
  case (Suc k)
  show ?case
  proof (cases "n < 10")
    case False
    have "n div 10 < 10 ^ Suc k"
      using Suc.prems by (simp add: less_mult_imp_div_less)
    from Suc.IH [OF this] False show ?thesis by (simp add: decimal.simps [of n])
  qed (simp add: decimal.simps)
qed

lemma decimal_inject [simp]: "decimal m = decimal n \<longleftrightarrow> m = n"
  by (metis read_decimal_decimal)

lemma zero_padded_length [simp]: "length s \<le> w \<Longrightarrow> length (zero_padded w s) = w"
  by (simp add: zero_padded_def)

lemma zero_padded_digits [simp]:
  "list_all is_digit s \<Longrightarrow> list_all is_digit (zero_padded w s)"
proof -
  have "list_all is_digit (replicate n CHR ''0'')" for n
    by (induction n) (simp_all add: is_digit_def)
  then show "list_all is_digit s \<Longrightarrow> ?thesis" by (simp add: zero_padded_def)
qed

lemma read_decimal_padded [simp]: "read_decimal 0 (zero_padded w s) = read_decimal 0 s"
  by (simp add: zero_padded_def)

text \<open>
  \<open>snprintf\<close> into a buffer of \<open>cap\<close> bytes, with the usual check of its result: the text
  when it fits together with its NUL, nothing otherwise.
\<close>

definition fitted :: "nat \<Rightarrow> string \<Rightarrow> string option" where
  "fitted cap s = (if length s < cap then Some s else None)"

lemma fitted_Some_iff [simp]: "fitted cap s = Some t \<longleftrightarrow> length s < cap \<and> t = s"
  by (auto simp: fitted_def)

lemma fitted_None_iff [simp]: "fitted cap s = None \<longleftrightarrow> cap \<le> length s"
  by (auto simp: fitted_def)

end
