(* ===== verification/Storage_Names.thy ===== *)
theory Storage_Names
  imports C_Text App_Error
begin

text \<open>
  The names of repository blobs and their identifiers: \<open>storage_blob_parse_filename\<close>,
  \<open>storage_blob_format_filename\<close> and \<open>storage_blob_derive_next_id\<close> of
  \<open>storage/storage_blob_core.c\<close>, and \<open>storage_blob_parse_temporary_filename\<close> of
  \<open>storage/storage_blob_recovery.c\<close>.  A blob is the file of twenty digits and \<open>.gz\<close>; the
  staged upload of a blob is the same name and \<open>.tmp\<close>.  The locale \<open>name_codec\<close> is what the
  scan and the recovery rely on: a name stands for one identifier and an identifier has one
  name.  Both kinds of names are interpretations of it.
\<close>

section \<open>Parsing and printing\<close>

definition STORAGE_BLOB_ID_DIGITS :: nat where
  [limit_defs]: "STORAGE_BLOB_ID_DIGITS = 20"

definition STORAGE_BLOB_FILENAME_LENGTH :: nat where
  [limit_defs]: "STORAGE_BLOB_FILENAME_LENGTH = STORAGE_BLOB_ID_DIGITS + 3"

definition STORAGE_BLOB_FILENAME_CAPACITY :: nat where
  [limit_defs]: "STORAGE_BLOB_FILENAME_CAPACITY = STORAGE_BLOB_FILENAME_LENGTH + 1"

definition STORAGE_BLOB_TEMP_FILENAME_LENGTH :: nat where
  [limit_defs]: "STORAGE_BLOB_TEMP_FILENAME_LENGTH = STORAGE_BLOB_ID_DIGITS + 7"

text \<open>The loop over the digits, with its guard against overflow of \<open>uint64_t\<close>.\<close>

fun blob_id_digits :: "string \<Rightarrow> u64 \<Rightarrow> u64 option" where
  "blob_id_digits [] v = Some v"
| "blob_id_digits (c # cs) v =
     (if byte c < 48 \<or> 57 < byte c then None
      else let digit = (of_nat (byte c - 48) :: u64)
           in if ((- 1) - digit) div 10 < v then None
              else blob_id_digits cs (v * 10 + digit))"

definition storage_blob_parse_filename :: "string \<Rightarrow> u64 option" where
  "storage_blob_parse_filename name =
     (if length name \<noteq> STORAGE_BLOB_FILENAME_LENGTH \<or>
         drop STORAGE_BLOB_ID_DIGITS name \<noteq> ''.gz'' then None
      else case blob_id_digits (take STORAGE_BLOB_ID_DIGITS name) 0 of
             None \<Rightarrow> None
           | Some v \<Rightarrow> if v = 0 then None else Some v)"

definition storage_blob_parse_temporary_filename :: "string \<Rightarrow> u64 option" where
  "storage_blob_parse_temporary_filename name =
     (if length name \<noteq> STORAGE_BLOB_TEMP_FILENAME_LENGTH \<or>
         drop STORAGE_BLOB_ID_DIGITS name \<noteq> ''.gz.tmp'' then None
      else case blob_id_digits (take STORAGE_BLOB_ID_DIGITS name) 0 of
             None \<Rightarrow> None
           | Some v \<Rightarrow> if v = 0 then None else Some v)"

definition storage_blob_format_filename :: "u64 \<Rightarrow> nat \<Rightarrow> app_error + string" where
  "storage_blob_format_filename blob_id name_size =
     (if blob_id = 0 \<or> name_size < STORAGE_BLOB_FILENAME_CAPACITY
      then Inl APP_ERROR_INVALID_ARGUMENT
      else let written = zero_padded STORAGE_BLOB_ID_DIGITS (decimal (unat blob_id)) @ ''.gz''
           in if length written \<noteq> STORAGE_BLOB_FILENAME_LENGTH then Inl APP_ERROR_INTERNAL
              else Inr written)"

definition storage_blob_derive_next_id ::
  "u64 \<Rightarrow> bool \<Rightarrow> u64 \<Rightarrow> app_error + u64" where
  "storage_blob_derive_next_id persisted_next_id has_max_id max_id =
     (if has_max_id \<and> max_id = 0 then Inl APP_ERROR_INVALID_ARGUMENT
      else let next_id = (if persisted_next_id = 0 then 1 else persisted_next_id)
           in if has_max_id
              then if max_id = - 1 then Inl APP_ERROR_STORAGE_FULL
                   else let scanned_next_id = max_id + 1
                        in Inr (if next_id < scanned_next_id then scanned_next_id else next_id)
              else Inr next_id)"

section \<open>The digit loop\<close>

lemma u64_div_unat: "unat ((a :: u64) div b) = unat a div unat b"
  by (simp add: unat_div)

text \<open>The guard of the loop holds exactly when the next value does not fit.\<close>

lemma digit_overflow_guard:
  fixes v d :: u64
  assumes "unat d < 10"
  shows "((- 1) - d) div 10 < v \<longleftrightarrow> 2 ^ 64 \<le> 10 * unat v + unat d"
proof -
  have m: "unat (- 1 :: u64) = 2 ^ 64 - 1"
    by (simp add: unsigned_minus_1_eq_mask mask_eq_exp_minus_1)
  have "unat ((- 1) - d) = unat (- 1 :: u64) - unat d" by (rule unat_sub) simp
  then have "unat (((- 1) - d) div 10) = (2 ^ 64 - 1 - unat d) div 10"
    by (simp add: u64_div_unat m)
  moreover have "(2 ^ 64 - 1 - unat d) div 10 < unat v \<longleftrightarrow> 2 ^ 64 \<le> 10 * unat v + unat d"
    using assms by (simp add: div_less_iff_less_mult) linarith
  ultimately show ?thesis by (simp add: word_less_nat_alt)
qed

lemma digit_word:
  assumes "is_digit c" shows "unat (of_nat (digit_value c) :: u64) = digit_value c"
  using digit_value_less [OF assms] by (simp add: unat_of_nat)

lemma blob_id_digits_spec:
  "blob_id_digits cs v =
     (if list_all is_digit cs \<and> read_decimal (unat v) cs < 2 ^ 64
      then Some (of_nat (read_decimal (unat v) cs)) else None)"
proof (induction cs arbitrary: v)
  case Nil
  have "unat v < 2 ^ 64" using unsigned_less [of v] by simp
  then show ?case by simp
next
  case (Cons c cs)
  show ?case
  proof (cases "is_digit c")
    case False
    then show ?thesis by (auto simp: is_digit_def)
  next
    case True
    let ?d = "of_nat (digit_value c) :: u64"
    let ?n = "10 * unat v + digit_value c"
    have d: "unat ?d = digit_value c" "unat ?d < 10"
      using digit_word [OF True] digit_value_less [OF True] by simp_all
    have range: "\<not> (byte c < 48 \<or> 57 < byte c)" using True by (auto simp: is_digit_def)
    show ?thesis
    proof (cases "2 ^ 64 \<le> ?n")
      case overflow: True
      then have "2 ^ 64 \<le> read_decimal ?n cs"
        using read_decimal_grows [of ?n cs] by linarith
      with overflow range True d digit_overflow_guard [OF d(2), of v] show ?thesis
        by (simp add: Let_def)
    next
      case False
      have "unat (v * 10 + ?d) = ?n"
      proof -
        have "unat (v * 10) = unat v * 10"
          using False by (simp add: unat_word_ariths)
        then show ?thesis using False d by (simp add: unat_word_ariths)
      qed
      with False range True d digit_overflow_guard [OF d(2), of v] Cons.IH [of "v * 10 + ?d"]
      show ?thesis by (simp add: Let_def)
    qed
  qed
qed

lemma blob_id_digits_Some_iff:
  "blob_id_digits cs 0 = Some r \<longleftrightarrow> list_all is_digit cs \<and> read_decimal 0 cs = unat r"
proof -
  have "unat r < 2 ^ 64" using unsigned_less [of r] by simp
  then show ?thesis
    by (auto simp: blob_id_digits_spec unat_of_nat split: if_splits)
qed

section \<open>Names and identifiers\<close>

text \<open>
  The contract of a family of names: parsing accepts exactly the printed names of the
  identifiers that are not zero.
\<close>

locale name_codec =
  fixes parse :: "string \<Rightarrow> u64 option"
    and name_of :: "u64 \<Rightarrow> string"
  assumes parse_name: "x \<noteq> 0 \<Longrightarrow> parse (name_of x) = Some x"
    and name_parse: "parse s = Some x \<Longrightarrow> s = name_of x"
    and parse_nonzero: "parse s = Some x \<Longrightarrow> x \<noteq> 0"
begin

lemma parse_Some_iff: "parse s = Some x \<longleftrightarrow> x \<noteq> 0 \<and> s = name_of x"
  using parse_name name_parse parse_nonzero by blast

lemma name_inject: "x \<noteq> 0 \<Longrightarrow> y \<noteq> 0 \<Longrightarrow> name_of x = name_of y \<longleftrightarrow> x = y"
  by (metis option.inject parse_name)

lemma parse_inject: "parse s = Some x \<Longrightarrow> parse t = Some x \<Longrightarrow> s = t"
  by (metis name_parse)

text \<open>Different names of the family have different identifiers.\<close>

lemma parsed_distinct:
  assumes "distinct names"
  shows "distinct (List.map_filter parse names)"
  using assms
proof (induction names)
  case (Cons s names)
  have "x \<notin> set (List.map_filter parse names)" if "parse s = Some x" for x
    using Cons.prems parse_inject [OF that] by (auto simp: List.map_filter_def)
  with Cons show ?case by (auto simp: List.map_filter_simps split: option.splits)
qed (simp add: List.map_filter_simps)

end

definition blob_name :: "u64 \<Rightarrow> string" where
  "blob_name x = zero_padded STORAGE_BLOB_ID_DIGITS (decimal (unat x)) @ ''.gz''"

definition temporary_name :: "u64 \<Rightarrow> string" where
  "temporary_name x = zero_padded STORAGE_BLOB_ID_DIGITS (decimal (unat x)) @ ''.gz.tmp''"

lemma id_digits_length [simp]:
  "length (zero_padded STORAGE_BLOB_ID_DIGITS (decimal (unat x))) = STORAGE_BLOB_ID_DIGITS"
  for x :: u64
proof -
  have "unat x < 2 ^ 64" using unsigned_less [of x] by simp
  then have "unat x < 10 ^ Suc 19" by simp
  from decimal_length [OF this] show ?thesis by (simp add: STORAGE_BLOB_ID_DIGITS_def)
qed

lemma id_digits_read:
  "blob_id_digits (zero_padded STORAGE_BLOB_ID_DIGITS (decimal (unat x))) 0 = Some x"
  by (simp add: blob_id_digits_Some_iff decimal_digits)

lemma id_digits_unique:
  assumes "length cs = STORAGE_BLOB_ID_DIGITS" and "blob_id_digits cs 0 = Some x"
  shows "cs = zero_padded STORAGE_BLOB_ID_DIGITS (decimal (unat x))"
proof -
  have "list_all is_digit cs" "read_decimal 0 cs = unat x"
    using assms(2) by (simp_all add: blob_id_digits_Some_iff)
  then show ?thesis
    using assms(1) read_decimal_inject
      [of cs "zero_padded STORAGE_BLOB_ID_DIGITS (decimal (unat x))" 0 0]
    by (simp add: decimal_digits)
qed

lemma suffix_name_unique:
  assumes "length name = STORAGE_BLOB_ID_DIGITS + length ext"
    and "drop STORAGE_BLOB_ID_DIGITS name = ext"
    and "blob_id_digits (take STORAGE_BLOB_ID_DIGITS name) 0 = Some x"
  shows "name = zero_padded STORAGE_BLOB_ID_DIGITS (decimal (unat x)) @ ext"
  by (metis add_diff_cancel_left' append_take_drop_id assms id_digits_unique length_append
      length_drop add_right_cancel)

lemma parse_filename_unfold:
  "storage_blob_parse_filename name = Some x \<longleftrightarrow>
     length name = STORAGE_BLOB_ID_DIGITS + length ''.gz'' \<and>
     drop STORAGE_BLOB_ID_DIGITS name = ''.gz'' \<and>
     blob_id_digits (take STORAGE_BLOB_ID_DIGITS name) 0 = Some x \<and> x \<noteq> 0"
  by (auto simp: storage_blob_parse_filename_def STORAGE_BLOB_FILENAME_LENGTH_def
      split: option.splits)

lemma parse_temporary_filename_unfold:
  "storage_blob_parse_temporary_filename name = Some x \<longleftrightarrow>
     length name = STORAGE_BLOB_ID_DIGITS + length ''.gz.tmp'' \<and>
     drop STORAGE_BLOB_ID_DIGITS name = ''.gz.tmp'' \<and>
     blob_id_digits (take STORAGE_BLOB_ID_DIGITS name) 0 = Some x \<and> x \<noteq> 0"
  by (auto simp: storage_blob_parse_temporary_filename_def STORAGE_BLOB_TEMP_FILENAME_LENGTH_def
      split: option.splits)

interpretation blob_codec: name_codec storage_blob_parse_filename blob_name
proof unfold_locales
  fix x :: u64 assume "x \<noteq> 0"
  then show "storage_blob_parse_filename (blob_name x) = Some x"
    by (simp add: parse_filename_unfold blob_name_def id_digits_read)
next
  fix s x assume "storage_blob_parse_filename s = Some x"
  then show "s = blob_name x"
    unfolding parse_filename_unfold blob_name_def using suffix_name_unique by blast
qed (simp add: parse_filename_unfold)

interpretation temporary_codec: name_codec storage_blob_parse_temporary_filename temporary_name
proof unfold_locales
  fix x :: u64 assume "x \<noteq> 0"
  then show "storage_blob_parse_temporary_filename (temporary_name x) = Some x"
    by (simp add: parse_temporary_filename_unfold temporary_name_def id_digits_read)
next
  fix s x assume "storage_blob_parse_temporary_filename s = Some x"
  then show "s = temporary_name x"
    unfolding parse_temporary_filename_unfold temporary_name_def using suffix_name_unique by blast
qed (simp add: parse_temporary_filename_unfold)

text \<open>The staged name of an upload is the final name and \<open>.tmp\<close>; no name is of both kinds.\<close>

lemma temporary_name_blob_name: "temporary_name x = blob_name x @ ''.tmp''"
  by (simp add: temporary_name_def blob_name_def)

lemma blob_name_length [simp]: "length (blob_name x) = STORAGE_BLOB_FILENAME_LENGTH"
  by (simp add: blob_name_def STORAGE_BLOB_FILENAME_LENGTH_def)

lemma temporary_not_blob:
  "storage_blob_parse_temporary_filename s = Some x \<Longrightarrow> storage_blob_parse_filename s = None"
  by (simp add: parse_temporary_filename_unfold storage_blob_parse_filename_def
      STORAGE_BLOB_FILENAME_LENGTH_def)

lemma format_filename_ok:
  "x \<noteq> 0 \<Longrightarrow> STORAGE_BLOB_FILENAME_CAPACITY \<le> cap \<Longrightarrow>
   storage_blob_format_filename x cap = Inr (blob_name x)"
  by (simp add: storage_blob_format_filename_def blob_name_def STORAGE_BLOB_FILENAME_LENGTH_def)

lemma format_filename_Inr_iff:
  "storage_blob_format_filename x cap = Inr s \<longleftrightarrow>
     x \<noteq> 0 \<and> STORAGE_BLOB_FILENAME_CAPACITY \<le> cap \<and> s = blob_name x"
  by (auto simp: storage_blob_format_filename_def blob_name_def STORAGE_BLOB_FILENAME_LENGTH_def)

text \<open>
  blob names and identifiers correspond one to one.  Every identifier except zero prints,
  into any buffer of at least 24 bytes, to a name of 23 bytes that parses back to it; and
  every name the parser accepts is the printed name of the identifier it returns, so no
  second spelling (a missing zero, an identifier beyond 64 bits) is a blob.
\<close>

theorem blob_filename_round_trip:
  "(\<forall>x cap. x \<noteq> 0 \<and> STORAGE_BLOB_FILENAME_CAPACITY \<le> cap \<longrightarrow>
      (\<exists>name. storage_blob_format_filename x cap = Inr name \<and>
              length name = STORAGE_BLOB_FILENAME_LENGTH \<and>
              storage_blob_parse_filename name = Some x \<and>
              storage_blob_parse_temporary_filename (name @ ''.tmp'') = Some x)) \<and>
   (\<forall>name x. storage_blob_parse_filename name = Some x \<longrightarrow>
      storage_blob_format_filename x STORAGE_BLOB_FILENAME_CAPACITY = Inr name)"
  by (auto simp: format_filename_ok format_filename_Inr_iff blob_codec.parse_Some_iff
      temporary_codec.parse_Some_iff temporary_name_blob_name)

lemma blob_filename_round_trip_witness:
  "storage_blob_format_filename 42 24 = Inr ''00000000000000000042.gz'' \<and>
   storage_blob_parse_filename ''00000000000000000042.gz'' = Some 42"
proof -
  have w: "(42 :: u64) \<noteq> 0 \<and> STORAGE_BLOB_FILENAME_CAPACITY \<le> 24" by (simp add: limit_defs)
  have f: "storage_blob_format_filename 42 24 = Inr ''00000000000000000042.gz''"
    by code_simp
  from blob_filename_round_trip [THEN conjunct1, rule_format, OF w]
  obtain name where "storage_blob_format_filename 42 24 = Inr name"
      "storage_blob_parse_filename name = Some 42" by blast
  with f show ?thesis by simp
qed

section \<open>The next identifier\<close>

lemma u64_succ_unat: "m \<noteq> - 1 \<Longrightarrow> unat (m + 1) = unat m + 1" for m :: u64
  by (metis Suc_eq_plus1 add.commute add_eq_0_iff unatSuc)

lemma next_id_without_max:
  "storage_blob_derive_next_id persisted False m = Inr (if persisted = 0 then 1 else persisted)"
  by (simp add: storage_blob_derive_next_id_def)

lemma next_id_with_max:
  "storage_blob_derive_next_id persisted True m =
     (if m = 0 then Inl APP_ERROR_INVALID_ARGUMENT
      else if m = - 1 then Inl APP_ERROR_STORAGE_FULL
      else Inr (if persisted < m + 1 then m + 1 else persisted))"
proof -
  have "(1 :: u64) < m + 1 \<or> m = 0 \<or> m = - 1"
    by (cases "m = - 1") (auto simp: word_less_nat_alt u64_succ_unat unat_gt_0)
  moreover have "0 < m + 1 \<or> m = - 1"
    by (cases "m = - 1") (simp_all add: word_less_nat_alt u64_succ_unat)
  ultimately show ?thesis by (auto simp: storage_blob_derive_next_id_def)
qed

lemma next_id_above:
  assumes "storage_blob_derive_next_id persisted has_max m = Inr n"
  shows "n \<noteq> 0" and "persisted \<le> n" and "has_max \<Longrightarrow> m < n"
proof -
  have less: "m < m + 1" if "m \<noteq> - 1"
    using that by (simp add: word_less_nat_alt u64_succ_unat)
  show "persisted \<le> n"
    using assms by (cases has_max)
      (auto simp: next_id_without_max next_id_with_max split: if_splits)
  show m: "m < n" if has_max
    using assms that less
    by (auto simp: next_id_with_max not_less split: if_splits intro: less_le_trans)
  show "n \<noteq> 0"
  proof (cases has_max)
    case True
    then show ?thesis using m word_not_simps(1) by fastforce
  qed (use assms in \<open>auto simp: next_id_without_max split: if_splits\<close>)
qed

end
