(* ===== verification/Storage_Fs.thy ===== *)
theory Storage_Fs
  imports Storage_Names
begin

text \<open>
  The file-system interface of \<open>storage/storage_fs_ops.h\<close> and what the storage components
  share: the operations record with which every core routine is called, the paths it builds
  and the mapping of \<open>errno\<close>.  The operations themselves are the C library and LittleFS,
  code outside the repository: a field of \<open>fs_ops\<close> takes the world and returns its result
  with the world after the call.  A C function that reports failure by a negative result and
  \<open>errno\<close> returns \<open>Inl\<close> of the error number, or \<open>Some\<close> of it where success carries no
  value.  The second half of the theory states what those calls document: \<open>fs_view\<close> is the
  observable file system, \<open>fs_trace\<close> the sequence of file systems the calls pass through, and
  \<open>posix_fs\<close> says how each call may change it.
\<close>

section \<open>The operations table\<close>

datatype errno = ENOENT | EEXIST | ENOSPC | EINTR | EINVAL | ENOTSUP | EIO | EOTHER nat

datatype open_mode = O_RDONLY | O_WRONLY_CREAT_TRUNC

datatype dir_read = Dir_Error errno | Dir_End | Dir_Name string

record file_stat =
  st_is_reg :: bool
  st_is_dir :: bool
  st_size :: int

record 'w fs_ops =
  op_open_file :: "string \<Rightarrow> open_mode \<Rightarrow> 'w \<Rightarrow> (errno + nat) \<times> 'w"
  op_read_file :: "nat \<Rightarrow> nat \<Rightarrow> 'w \<Rightarrow> (errno + u8 list) \<times> 'w"
  op_write_file :: "nat \<Rightarrow> u8 list \<Rightarrow> 'w \<Rightarrow> (errno + nat) \<times> 'w"
  op_sync_file :: "nat \<Rightarrow> 'w \<Rightarrow> errno option \<times> 'w"
  op_close_file :: "nat \<Rightarrow> 'w \<Rightarrow> errno option \<times> 'w"
  op_stat_path :: "string \<Rightarrow> 'w \<Rightarrow> (errno + file_stat) \<times> 'w"
  op_rename_path :: "string \<Rightarrow> string \<Rightarrow> 'w \<Rightarrow> errno option \<times> 'w"
  op_unlink_path :: "string \<Rightarrow> 'w \<Rightarrow> errno option \<times> 'w"
  op_make_directory :: "string \<Rightarrow> 'w \<Rightarrow> errno option \<times> 'w"
  op_open_directory :: "string \<Rightarrow> 'w \<Rightarrow> nat option \<times> 'w"
  op_read_directory :: "nat \<Rightarrow> nat \<Rightarrow> 'w \<Rightarrow> dir_read \<times> 'w"
  op_close_directory :: "nat \<Rightarrow> 'w \<Rightarrow> errno option \<times> 'w"

definition SIZE_MAX :: nat where
  [limit_defs]: "SIZE_MAX = 4294967295"

definition STORAGE_FS_ENTRY_NAME_MAX :: nat where
  [limit_defs]: "STORAGE_FS_ENTRY_NAME_MAX = 256"

text \<open>The directory entries every listing skips, and the path of an entry.\<close>

definition is_dot_entry :: "string \<Rightarrow> bool" where
  "is_dot_entry name \<longleftrightarrow> name = ''.'' \<or> name = ''..''"

definition join_path :: "string \<Rightarrow> string \<Rightarrow> app_error + string" where
  "join_path directory_path name =
     (case fitted (STORAGE_FS_ENTRY_NAME_MAX * 2) (directory_path @ ''/'' @ name) of
        None \<Rightarrow> Inl APP_ERROR_STORAGE_CORRUPT
      | Some path \<Rightarrow> Inr path)"

definition map_io_error :: "errno \<Rightarrow> app_error" where
  "map_io_error e = (if e = ENOSPC then APP_ERROR_STORAGE_FULL else APP_ERROR_IO)"

lemma map_io_error_not_none [simp]: "map_io_error e \<noteq> APP_ERROR_NONE"
  by (simp add: map_io_error_def)

lemma join_path_Inr_iff:
  "join_path d n = Inr p \<longleftrightarrow>
     p = d @ ''/'' @ n \<and> length d + length n + 1 < STORAGE_FS_ENTRY_NAME_MAX * 2"
  by (auto simp: join_path_def fitted_def)

lemma join_path_Inl_not_none: "join_path d n = Inl e \<Longrightarrow> e \<noteq> APP_ERROR_NONE"
  by (auto simp: join_path_def split: option.splits)

section \<open>What the calls document\<close>

datatype fs_node = Regular "u8 list" | Directory | Other_Node

text \<open>
  The observable file system: the nodes by path, the names an open directory stream has still
  to return, and for every open file its path, the mode it was opened with and the position
  of the next read.
\<close>

record fs_view =
  fv_node :: "string \<Rightarrow> fs_node option"
  fv_listing :: "nat \<Rightarrow> string list"
  fv_open :: "nat \<Rightarrow> (string \<times> open_mode \<times> nat) option"

abbreviation fs_now :: "('w \<Rightarrow> fs_view list) \<Rightarrow> 'w \<Rightarrow> fs_view" where
  "fs_now tr w \<equiv> hd (tr w)"

text \<open>One call: the trace grows by the file system after it.\<close>

definition fs_moves ::
  "('w \<Rightarrow> fs_view list) \<Rightarrow> 'w \<Rightarrow> 'w \<Rightarrow> (fs_view \<Rightarrow> fs_view \<Rightarrow> bool) \<Rightarrow> bool" where
  "fs_moves tr w w' R \<longleftrightarrow> (\<exists>v. tr w' = v # tr w \<and> R (fs_now tr w) v)"

text \<open>Only the node of one path may change.\<close>

definition only_path :: "string \<Rightarrow> fs_view \<Rightarrow> fs_view \<Rightarrow> bool" where
  "only_path p v v' \<longleftrightarrow>
     (\<forall>q. q \<noteq> p \<longrightarrow> fv_node v' q = fv_node v q) \<and> fv_listing v' = fv_listing v"

definition stat_of :: "fs_node \<Rightarrow> file_stat \<Rightarrow> bool" where
  "stat_of node st \<longleftrightarrow>
     (case node of
        Regular bs \<Rightarrow> st_is_reg st \<and> \<not> st_is_dir st \<and> st_size st = int (length bs)
      | Directory \<Rightarrow> \<not> st_is_reg st \<and> st_is_dir st
      | Other_Node \<Rightarrow> \<not> st_is_reg st \<and> \<not> st_is_dir st)"

definition stat_law :: "(string \<Rightarrow> 'w \<Rightarrow> (errno + file_stat) \<times> 'w) \<Rightarrow> ('w \<Rightarrow> fs_view list) \<Rightarrow> bool"
  where
  "stat_law f tr \<longleftrightarrow>
     (\<forall>p w r w'. f p w = (r, w') \<longrightarrow>
        fs_moves tr w w' (\<lambda>v v'. v' = v \<and>
          (case r of
             Inr st \<Rightarrow> (\<exists>node. fv_node v p = Some node \<and> stat_of node st)
           | Inl e \<Rightarrow> e = ENOENT \<longrightarrow> fv_node v p = None)))"

definition unlink_law :: "(string \<Rightarrow> 'w \<Rightarrow> errno option \<times> 'w) \<Rightarrow> ('w \<Rightarrow> fs_view list) \<Rightarrow> bool"
  where
  "unlink_law f tr \<longleftrightarrow>
     (\<forall>p w r w'. f p w = (r, w') \<longrightarrow>
        fs_moves tr w w' (\<lambda>v v'.
          (case r of
             None \<Rightarrow> v' = v\<lparr>fv_node := (fv_node v)(p := None)\<rparr>
           | Some e \<Rightarrow> v' = v \<and> (e = ENOENT \<longrightarrow> fv_node v p = None))))"

text \<open>\<open>rename\<close> replaces its destination in one step.\<close>

definition rename_law ::
  "(string \<Rightarrow> string \<Rightarrow> 'w \<Rightarrow> errno option \<times> 'w) \<Rightarrow> ('w \<Rightarrow> fs_view list) \<Rightarrow> bool" where
  "rename_law f tr \<longleftrightarrow>
     (\<forall>p q w r w'. f p q w = (r, w') \<longrightarrow>
        fs_moves tr w w' (\<lambda>v v'.
          (case r of
             None \<Rightarrow> v' = v\<lparr>fv_node := (fv_node v)(p := None, q := fv_node v p)\<rparr>
           | Some e \<Rightarrow> v' = v)))"

definition directory_laws :: "'w fs_ops \<Rightarrow> ('w \<Rightarrow> fs_view list) \<Rightarrow> bool" where
  "directory_laws ops tr \<longleftrightarrow>
     (\<forall>p w r w'. op_open_directory ops p w = (r, w') \<longrightarrow>
        fs_moves tr w w' (\<lambda>v v'. fv_node v' = fv_node v \<and> fv_open v' = fv_open v \<and>
          (\<forall>d. r = Some d \<longrightarrow> distinct (fv_listing v' d) \<and>
             (\<forall>n. \<not> is_dot_entry n \<longrightarrow>
                (n \<in> set (fv_listing v' d) \<longleftrightarrow> CHR ''/'' \<notin> set n \<and> n \<noteq> [] \<and>
                   fv_node v (p @ ''/'' @ n) \<noteq> None))))) \<and>
     (\<forall>d n w r w'. op_read_directory ops d n w = (r, w') \<longrightarrow>
        fs_moves tr w w' (\<lambda>v v'. fv_node v' = fv_node v \<and> fv_open v' = fv_open v \<and>
          (case r of
             Dir_Name s \<Rightarrow> fv_listing v d = s # fv_listing v' d
           | Dir_End \<Rightarrow> fv_listing v d = [] \<and> fv_listing v' d = []
           | Dir_Error e \<Rightarrow> True))) \<and>
     (\<forall>d w r w'. op_close_directory ops d w = (r, w') \<longrightarrow>
        fs_moves tr w w' (\<lambda>v v'. fv_node v' = fv_node v \<and> fv_open v' = fv_open v)) \<and>
     (\<forall>p w r w'. op_make_directory ops p w = (r, w') \<longrightarrow>
        fs_moves tr w w' (\<lambda>v v'. fv_open v' = fv_open v \<and>
          (case r of
             None \<Rightarrow> fv_node v' = (fv_node v)(p := Some Directory)
           | Some e \<Rightarrow> fv_node v' = fv_node v \<and> (e = EEXIST \<longrightarrow> fv_node v p \<noteq> None))))"

text \<open>
  Nothing is assumed of the bytes a write leaves in its file: the flash may lose them without
  an error, which is why the code reads its files back.
\<close>

definition file_laws :: "'w fs_ops \<Rightarrow> ('w \<Rightarrow> fs_view list) \<Rightarrow> bool" where
  "file_laws ops tr \<longleftrightarrow>
     (\<forall>p m w r w'. op_open_file ops p m w = (r, w') \<longrightarrow>
        fs_moves tr w w' (\<lambda>v v'.
          (case m of
             O_RDONLY \<Rightarrow> fv_node v' = fv_node v \<and> fv_listing v' = fv_listing v
           | O_WRONLY_CREAT_TRUNC \<Rightarrow> only_path p v v' \<and>
               (\<forall>d. r = Inr d \<longrightarrow> fv_node v' p = Some (Regular []))) \<and>
          (case r of Inr d \<Rightarrow> fv_open v' d = Some (p, m, 0) | Inl e \<Rightarrow> True))) \<and>
     (\<forall>d n w r w'. op_read_file ops d n w = (r, w') \<longrightarrow>
        fs_moves tr w w' (\<lambda>v v'. fv_node v' = fv_node v \<and> fv_listing v' = fv_listing v \<and>
          (case r of
             Inr bs \<Rightarrow> (\<forall>p pos file. fv_open v d = Some (p, O_RDONLY, pos) \<longrightarrow>
                 fv_node v p = Some (Regular file) \<longrightarrow>
                   bs = take (length bs) (drop pos file) \<and> length bs \<le> n \<and>
                   (bs = [] \<longrightarrow> n = 0 \<or> length file \<le> pos) \<and>
                   fv_open v' d = Some (p, O_RDONLY, pos + length bs))
           | Inl e \<Rightarrow> fv_open v' = fv_open v))) \<and>
     (\<forall>d bs w r w'. op_write_file ops d bs w = (r, w') \<longrightarrow>
        fs_moves tr w w' (\<lambda>v v'. fv_open v' = fv_open v \<and>
          (\<forall>p pos. fv_open v d = Some (p, O_WRONLY_CREAT_TRUNC, pos) \<longrightarrow> only_path p v v' \<and>
             ((\<exists>file. fv_node v p = Some (Regular file)) \<longrightarrow>
              (\<exists>file. fv_node v' p = Some (Regular file)))))) \<and>
     (\<forall>d w r w'. op_sync_file ops d w = (r, w') \<longrightarrow> fs_moves tr w w' (\<lambda>v v'. v' = v)) \<and>
     (\<forall>d w r w'. op_close_file ops d w = (r, w') \<longrightarrow>
        fs_moves tr w w' (\<lambda>v v'. fv_node v' = fv_node v \<and> fv_listing v' = fv_listing v))"

definition posix_fs :: "'w fs_ops \<Rightarrow> ('w \<Rightarrow> fs_view list) \<Rightarrow> bool" where
  "posix_fs ops tr \<longleftrightarrow>
     stat_law (op_stat_path ops) tr \<and> unlink_law (op_unlink_path ops) tr \<and>
     rename_law (op_rename_path ops) tr \<and> directory_laws ops tr \<and> file_laws ops tr"

section \<open>Using the laws\<close>

lemma fs_moves_now: "fs_moves tr w w' R \<Longrightarrow> R (fs_now tr w) (fs_now tr w')"
  by (auto simp: fs_moves_def)

lemma fs_moves_trace: "fs_moves tr w w' R \<Longrightarrow> tr w' = fs_now tr w' # tr w"
  by (auto simp: fs_moves_def)

lemma posix_fs_parts:
  assumes "posix_fs ops tr"
  shows "stat_law (op_stat_path ops) tr" "unlink_law (op_unlink_path ops) tr"
    "rename_law (op_rename_path ops) tr" "directory_laws ops tr" "file_laws ops tr"
  using assms by (simp_all add: posix_fs_def)

lemma stat_lawD:
  assumes "stat_law f tr" and "f p w = (r, w')"
  shows "fs_now tr w' = fs_now tr w"
    and "r = Inr st \<Longrightarrow> \<exists>node. fv_node (fs_now tr w) p = Some node \<and> stat_of node st"
    and "r = Inl ENOENT \<Longrightarrow> fv_node (fs_now tr w) p = None"
    and "tr w' = fs_now tr w' # tr w"
proof -
  have m: "fs_moves tr w w' (\<lambda>v v'. v' = v \<and>
      (case r of
         Inr st \<Rightarrow> (\<exists>node. fv_node v p = Some node \<and> stat_of node st)
       | Inl e \<Rightarrow> e = ENOENT \<longrightarrow> fv_node v p = None))"
    using assms by (simp add: stat_law_def)
  note now = fs_moves_now [OF m]
  show "fs_now tr w' = fs_now tr w" using now by simp
  show "r = Inr st \<Longrightarrow> \<exists>node. fv_node (fs_now tr w) p = Some node \<and> stat_of node st"
    using now by simp
  show "r = Inl ENOENT \<Longrightarrow> fv_node (fs_now tr w) p = None" using now by simp
  show "tr w' = fs_now tr w' # tr w" by (rule fs_moves_trace [OF m])
qed

lemma unlink_lawD:
  assumes "unlink_law f tr" and "f p w = (r, w')"
  shows "r = None \<Longrightarrow>
      fs_now tr w' = (fs_now tr w)\<lparr>fv_node := (fv_node (fs_now tr w))(p := None)\<rparr>"
    and "r \<noteq> None \<Longrightarrow> fs_now tr w' = fs_now tr w"
    and "r = Some ENOENT \<Longrightarrow> fv_node (fs_now tr w) p = None"
    and "tr w' = fs_now tr w' # tr w"
proof -
  have m: "fs_moves tr w w' (\<lambda>v v'.
      (case r of
         None \<Rightarrow> v' = v\<lparr>fv_node := (fv_node v)(p := None)\<rparr>
       | Some e \<Rightarrow> v' = v \<and> (e = ENOENT \<longrightarrow> fv_node v p = None)))"
    using assms by (simp add: unlink_law_def)
  note now = fs_moves_now [OF m]
  show "r = None \<Longrightarrow>
      fs_now tr w' = (fs_now tr w)\<lparr>fv_node := (fv_node (fs_now tr w))(p := None)\<rparr>"
    using now by simp
  show "r \<noteq> None \<Longrightarrow> fs_now tr w' = fs_now tr w" using now by auto
  show "r = Some ENOENT \<Longrightarrow> fv_node (fs_now tr w) p = None" using now by simp
  show "tr w' = fs_now tr w' # tr w" by (rule fs_moves_trace [OF m])
qed

lemma rename_lawD:
  assumes "rename_law f tr" and "f p q w = (r, w')"
  shows "r = None \<Longrightarrow> fs_now tr w' = (fs_now tr w)
      \<lparr>fv_node := (fv_node (fs_now tr w))(p := None, q := fv_node (fs_now tr w) p)\<rparr>"
    and "r \<noteq> None \<Longrightarrow> fs_now tr w' = fs_now tr w"
    and "tr w' = fs_now tr w' # tr w"
proof -
  have m: "fs_moves tr w w' (\<lambda>v v'.
      (case r of
         None \<Rightarrow> v' = v\<lparr>fv_node := (fv_node v)(p := None, q := fv_node v p)\<rparr>
       | Some e \<Rightarrow> v' = v))"
    using assms by (simp add: rename_law_def)
  note now = fs_moves_now [OF m]
  show "r = None \<Longrightarrow> fs_now tr w' = (fs_now tr w)
      \<lparr>fv_node := (fv_node (fs_now tr w))(p := None, q := fv_node (fs_now tr w) p)\<rparr>"
    using now by simp
  show "r \<noteq> None \<Longrightarrow> fs_now tr w' = fs_now tr w" using now by auto
  show "tr w' = fs_now tr w' # tr w" by (rule fs_moves_trace [OF m])
qed

text \<open>The names of a directory, as the scan sees them.\<close>

definition names_of :: "(string \<Rightarrow> fs_node option) \<Rightarrow> string \<Rightarrow> string set" where
  "names_of nodes dir =
     {n. \<not> is_dot_entry n \<and> CHR ''/'' \<notin> set n \<and> n \<noteq> [] \<and> nodes (dir @ ''/'' @ n) \<noteq> None}"

lemma open_directoryD:
  assumes "directory_laws ops tr" and "op_open_directory ops p w = (r, w')"
  shows "fv_node (fs_now tr w') = fv_node (fs_now tr w)"
    and "r = Some d \<Longrightarrow> distinct (fv_listing (fs_now tr w') d)"
    and "r = Some d \<Longrightarrow>
      {n \<in> set (fv_listing (fs_now tr w') d). \<not> is_dot_entry n} = names_of (fv_node (fs_now tr w)) p"
proof -
  have "fs_moves tr w w' (\<lambda>v v'. fv_node v' = fv_node v \<and> fv_open v' = fv_open v \<and>
      (\<forall>d. r = Some d \<longrightarrow> distinct (fv_listing v' d) \<and>
         (\<forall>n. \<not> is_dot_entry n \<longrightarrow>
            (n \<in> set (fv_listing v' d) \<longleftrightarrow> CHR ''/'' \<notin> set n \<and> n \<noteq> [] \<and>
               fv_node v (p @ ''/'' @ n) \<noteq> None))))"
    using assms unfolding directory_laws_def by blast
  note now = fs_moves_now [OF this]
  show "fv_node (fs_now tr w') = fv_node (fs_now tr w)" using now by simp
  show "r = Some d \<Longrightarrow> distinct (fv_listing (fs_now tr w') d)" using now by simp
  show "r = Some d \<Longrightarrow>
      {n \<in> set (fv_listing (fs_now tr w') d). \<not> is_dot_entry n} = names_of (fv_node (fs_now tr w)) p"
    using now by (auto simp: names_of_def)
qed

lemma read_directoryD:
  assumes "directory_laws ops tr" and "op_read_directory ops d n w = (r, w')"
  shows "fv_node (fs_now tr w') = fv_node (fs_now tr w)"
    and "r = Dir_Name s \<Longrightarrow> fv_listing (fs_now tr w) d = s # fv_listing (fs_now tr w') d"
    and "r = Dir_End \<Longrightarrow> fv_listing (fs_now tr w) d = []"
proof -
  have "fs_moves tr w w' (\<lambda>v v'. fv_node v' = fv_node v \<and> fv_open v' = fv_open v \<and>
      (case r of
         Dir_Name s \<Rightarrow> fv_listing v d = s # fv_listing v' d
       | Dir_End \<Rightarrow> fv_listing v d = [] \<and> fv_listing v' d = []
       | Dir_Error e \<Rightarrow> True))"
    using assms unfolding directory_laws_def by blast
  note now = fs_moves_now [OF this]
  show "fv_node (fs_now tr w') = fv_node (fs_now tr w)" using now by simp
  show "r = Dir_Name s \<Longrightarrow> fv_listing (fs_now tr w) d = s # fv_listing (fs_now tr w') d"
    using now by simp
  show "r = Dir_End \<Longrightarrow> fv_listing (fs_now tr w) d = []" using now by simp
qed

lemma close_directoryD:
  assumes "directory_laws ops tr" and "op_close_directory ops d w = (r, w')"
  shows "fv_node (fs_now tr w') = fv_node (fs_now tr w)"
proof -
  have "fs_moves tr w w' (\<lambda>v v'. fv_node v' = fv_node v \<and> fv_open v' = fv_open v)"
    using assms unfolding directory_laws_def by blast
  from fs_moves_now [OF this] show ?thesis by simp
qed

text \<open>Open files.\<close>

lemma open_fileD:
  assumes "file_laws ops tr" and "op_open_file ops p m w = (r, w')"
  shows "m = O_RDONLY \<Longrightarrow> fv_node (fs_now tr w') = fv_node (fs_now tr w)"
    and "m = O_WRONLY_CREAT_TRUNC \<Longrightarrow> only_path p (fs_now tr w) (fs_now tr w')"
    and "m = O_WRONLY_CREAT_TRUNC \<Longrightarrow> r = Inr d \<Longrightarrow> fv_node (fs_now tr w') p = Some (Regular [])"
    and "r = Inr d \<Longrightarrow> fv_open (fs_now tr w') d = Some (p, m, 0)"
    and "tr w' = fs_now tr w' # tr w"
proof -
  have m: "fs_moves tr w w' (\<lambda>v v'.
      (case m of
         O_RDONLY \<Rightarrow> fv_node v' = fv_node v \<and> fv_listing v' = fv_listing v
       | O_WRONLY_CREAT_TRUNC \<Rightarrow> only_path p v v' \<and>
           (\<forall>d. r = Inr d \<longrightarrow> fv_node v' p = Some (Regular []))) \<and>
      (case r of Inr d \<Rightarrow> fv_open v' d = Some (p, m, 0) | Inl e \<Rightarrow> True))"
    using assms by (simp add: file_laws_def)
  note now = fs_moves_now [OF m]
  show "m = O_RDONLY \<Longrightarrow> fv_node (fs_now tr w') = fv_node (fs_now tr w)" using now by simp
  show "m = O_WRONLY_CREAT_TRUNC \<Longrightarrow> only_path p (fs_now tr w) (fs_now tr w')" using now by simp
  show "m = O_WRONLY_CREAT_TRUNC \<Longrightarrow> r = Inr d \<Longrightarrow> fv_node (fs_now tr w') p = Some (Regular [])"
    using now by simp
  show "r = Inr d \<Longrightarrow> fv_open (fs_now tr w') d = Some (p, m, 0)" using now by simp
  show "tr w' = fs_now tr w' # tr w" by (rule fs_moves_trace [OF m])
qed

lemma read_fileD:
  assumes "file_laws ops tr" and "op_read_file ops d n w = (r, w')"
  shows "fv_node (fs_now tr w') = fv_node (fs_now tr w)"
    and "r = Inl e \<Longrightarrow> fv_open (fs_now tr w') = fv_open (fs_now tr w)"
    and "r = Inr bs \<Longrightarrow> fv_open (fs_now tr w) d = Some (p, O_RDONLY, pos) \<Longrightarrow>
      fv_node (fs_now tr w) p = Some (Regular file) \<Longrightarrow>
      bs = take (length bs) (drop pos file) \<and> length bs \<le> n \<and>
      (bs = [] \<longrightarrow> n = 0 \<or> length file \<le> pos) \<and>
      fv_open (fs_now tr w') d = Some (p, O_RDONLY, pos + length bs)"
    and "tr w' = fs_now tr w' # tr w"
proof -
  have m: "fs_moves tr w w' (\<lambda>v v'. fv_node v' = fv_node v \<and> fv_listing v' = fv_listing v \<and>
      (case r of
         Inr bs \<Rightarrow> (\<forall>p pos file. fv_open v d = Some (p, O_RDONLY, pos) \<longrightarrow>
             fv_node v p = Some (Regular file) \<longrightarrow>
               bs = take (length bs) (drop pos file) \<and> length bs \<le> n \<and>
               (bs = [] \<longrightarrow> n = 0 \<or> length file \<le> pos) \<and>
               fv_open v' d = Some (p, O_RDONLY, pos + length bs))
       | Inl e \<Rightarrow> fv_open v' = fv_open v))"
    using assms by (simp add: file_laws_def)
  note now = fs_moves_now [OF m]
  show "fv_node (fs_now tr w') = fv_node (fs_now tr w)" using now by simp
  show "r = Inl e \<Longrightarrow> fv_open (fs_now tr w') = fv_open (fs_now tr w)" using now by simp
  show "r = Inr bs \<Longrightarrow> fv_open (fs_now tr w) d = Some (p, O_RDONLY, pos) \<Longrightarrow>
      fv_node (fs_now tr w) p = Some (Regular file) \<Longrightarrow>
      bs = take (length bs) (drop pos file) \<and> length bs \<le> n \<and>
      (bs = [] \<longrightarrow> n = 0 \<or> length file \<le> pos) \<and>
      fv_open (fs_now tr w') d = Some (p, O_RDONLY, pos + length bs)"
    using now by simp
  show "tr w' = fs_now tr w' # tr w" by (rule fs_moves_trace [OF m])
qed

lemma write_fileD:
  assumes "file_laws ops tr" and "op_write_file ops d bs w = (r, w')"
    and "fv_open (fs_now tr w) d = Some (p, O_WRONLY_CREAT_TRUNC, pos)"
  shows "only_path p (fs_now tr w) (fs_now tr w')"
    and "fv_open (fs_now tr w') = fv_open (fs_now tr w)"
    and "\<exists>file. fv_node (fs_now tr w) p = Some (Regular file) \<Longrightarrow>
      \<exists>file. fv_node (fs_now tr w') p = Some (Regular file)"
    and "tr w' = fs_now tr w' # tr w"
proof -
  have m: "fs_moves tr w w' (\<lambda>v v'. fv_open v' = fv_open v \<and>
      (\<forall>p pos. fv_open v d = Some (p, O_WRONLY_CREAT_TRUNC, pos) \<longrightarrow> only_path p v v' \<and>
         ((\<exists>file. fv_node v p = Some (Regular file)) \<longrightarrow>
          (\<exists>file. fv_node v' p = Some (Regular file)))))"
    using assms(1,2) by (simp add: file_laws_def)
  note now = fs_moves_now [OF m]
  show "only_path p (fs_now tr w) (fs_now tr w')" using now assms(3) by blast
  show "fv_open (fs_now tr w') = fv_open (fs_now tr w)" using now by blast
  show "\<exists>file. fv_node (fs_now tr w) p = Some (Regular file) \<Longrightarrow>
      \<exists>file. fv_node (fs_now tr w') p = Some (Regular file)"
    using now assms(3) by blast
  show "tr w' = fs_now tr w' # tr w" by (rule fs_moves_trace [OF m])
qed

lemma sync_fileD:
  assumes "file_laws ops tr" and "op_sync_file ops d w = (r, w')"
  shows "fs_now tr w' = fs_now tr w" and "tr w' = fs_now tr w' # tr w"
proof -
  have m: "fs_moves tr w w' (\<lambda>v v'. v' = v)"
    using assms by (simp add: file_laws_def)
  show "fs_now tr w' = fs_now tr w" by (rule fs_moves_now [OF m])
  show "tr w' = fs_now tr w' # tr w" by (rule fs_moves_trace [OF m])
qed

lemma close_fileD:
  assumes "file_laws ops tr" and "op_close_file ops d w = (r, w')"
  shows "fv_node (fs_now tr w') = fv_node (fs_now tr w)" and "tr w' = fs_now tr w' # tr w"
proof -
  have m: "fs_moves tr w w' (\<lambda>v v'. fv_node v' = fv_node v \<and> fv_listing v' = fv_listing v)"
    using assms by (simp add: file_laws_def)
  show "fv_node (fs_now tr w') = fv_node (fs_now tr w)" using fs_moves_now [OF m] by blast
  show "tr w' = fs_now tr w' # tr w" by (rule fs_moves_trace [OF m])
qed

section \<open>Runs of several calls\<close>

text \<open>
  From \<open>w\<close> to \<open>w'\<close> the file system passes only through states that satisfy \<open>P\<close>, and the
  last of them is such a state.
\<close>

definition within :: "('w \<Rightarrow> fs_view list) \<Rightarrow> 'w \<Rightarrow> 'w \<Rightarrow> (fs_view \<Rightarrow> bool) \<Rightarrow> bool" where
  "within tr w w' P \<longleftrightarrow>
     (\<exists>vs. tr w' = vs @ tr w \<and> (\<forall>v \<in> set vs. P v)) \<and> P (fs_now tr w')"

lemma within_refl: "P (fs_now tr w) \<Longrightarrow> within tr w w P"
  by (simp add: within_def)

lemma within_last: "within tr w w' P \<Longrightarrow> P (fs_now tr w')"
  by (simp add: within_def)

lemma within_step: "tr w' = fs_now tr w' # tr w \<Longrightarrow> P (fs_now tr w') \<Longrightarrow> within tr w w' P"
  unfolding within_def by (intro conjI exI [of _ "[fs_now tr w']"]) simp_all

lemma within_trans: "within tr w w1 P \<Longrightarrow> within tr w1 w2 P \<Longrightarrow> within tr w w2 P"
  unfolding within_def by (metis append.assoc set_append Un_iff)

lemma within_mono: "within tr w w' P \<Longrightarrow> (\<And>v. P v \<Longrightarrow> Q v) \<Longrightarrow> within tr w w' Q"
  unfolding within_def by blast

text \<open>The nodes of all paths but one are those of \<open>N\<close>.\<close>

definition off_path :: "string \<Rightarrow> (string \<Rightarrow> fs_node option) \<Rightarrow> fs_view \<Rightarrow> bool" where
  "off_path p N v \<longleftrightarrow> (\<forall>q. q \<noteq> p \<longrightarrow> fv_node v q = N q)"

definition has_nodes :: "(string \<Rightarrow> fs_node option) \<Rightarrow> fs_view \<Rightarrow> bool" where
  "has_nodes N v \<longleftrightarrow> fv_node v = N"

lemma off_path_only: "off_path p N v \<Longrightarrow> only_path p v v' \<Longrightarrow> off_path p N v'"
  by (simp add: off_path_def only_path_def)

lemma off_path_same: "off_path p N v \<Longrightarrow> fv_node v' = fv_node v \<Longrightarrow> off_path p N v'"
  by (simp add: off_path_def)

end
