(* ===== verification/Storage_Scan.thy ===== *)
theory Storage_Scan
  imports Storage_Fs "HOL-Library.Multiset"
begin

text \<open>
  The scan of the repository directory (\<open>storage/storage_blob_core.c\<close>): the directory is
  prepared, every entry is classified, the blobs are collected in a growing array, sorted
  newest first and shown to an observer, and the next identifier is derived.  The array grows
  by \<open>realloc\<close>; whether the allocation of so many entries succeeds is the parameter
  \<open>realloc_ok\<close>.  The observer's callbacks take and return its context and the world.  The loop
  over the directory stream is a partial function: a stream that never ends is the value
  \<open>None\<close>.
\<close>

section \<open>State\<close>

record blob_entry =
  be_id :: u64
  be_stored_bytes :: nat

record scan_summary =
  ss_valid_count :: nat
  ss_invalid_name_count :: nat
  ss_temporary_file_count :: nat
  ss_has_max_id :: bool
  ss_max_id :: u64
  ss_next_id :: u64

record ('c, 'w) scan_observer =
  visit_entry :: "(blob_entry \<Rightarrow> 'c \<times> 'w \<Rightarrow> app_error \<times> 'c \<times> 'w) option"
  visit_invalid_name :: "(string \<Rightarrow> 'c \<times> 'w \<Rightarrow> app_error \<times> 'c \<times> 'w) option"
  visit_temporary_file :: "(string \<Rightarrow> 'c \<times> 'w \<Rightarrow> app_error \<times> 'c \<times> 'w) option"

record 'c scan_context =
  sc_entries :: "blob_entry list"
  sc_capacity :: nat
  sc_summary :: scan_summary
  sc_observed :: 'c

definition scan_summary_zero :: scan_summary where
  "scan_summary_zero =
     \<lparr>ss_valid_count = 0, ss_invalid_name_count = 0, ss_temporary_file_count = 0,
      ss_has_max_id = False, ss_max_id = 0, ss_next_id = 0\<rparr>"

section \<open>The directory\<close>

definition storage_blob_prepare_directory_with_ops ::
  "'w fs_ops \<Rightarrow> string \<Rightarrow> 'w \<Rightarrow> app_error \<times> 'w" where
  "storage_blob_prepare_directory_with_ops ops directory_path w =
     (if directory_path = [] then (APP_ERROR_INVALID_ARGUMENT, w)
      else case op_stat_path ops directory_path w of
        (Inr metadata, w) \<Rightarrow>
          (if st_is_dir metadata then APP_ERROR_NONE else APP_ERROR_STORAGE_CORRUPT, w)
      | (Inl e, w) \<Rightarrow>
          if e \<noteq> ENOENT then (APP_ERROR_IO, w)
          else (case op_make_directory ops directory_path w of
              (None, w) \<Rightarrow> (APP_ERROR_NONE, w)
            | (Some e, w) \<Rightarrow>
                if e \<noteq> EEXIST then (APP_ERROR_IO, w)
                else (case op_stat_path ops directory_path w of
                    (Inl e, w) \<Rightarrow> (APP_ERROR_IO, w)
                  | (Inr metadata, w) \<Rightarrow>
                      (if st_is_dir metadata then APP_ERROR_NONE
                       else APP_ERROR_STORAGE_CORRUPT, w))))"

section \<open>The observer\<close>

definition notify_invalid_name ::
  "('c, 'w) scan_observer option \<Rightarrow> string \<Rightarrow> 'c \<times> 'w \<Rightarrow> app_error \<times> 'c \<times> 'w" where
  "notify_invalid_name observer name cw =
     (case Option.bind observer visit_invalid_name of
        None \<Rightarrow> (APP_ERROR_NONE, cw) | Some visit \<Rightarrow> visit name cw)"

definition notify_temporary_file ::
  "('c, 'w) scan_observer option \<Rightarrow> string \<Rightarrow> 'c \<times> 'w \<Rightarrow> app_error \<times> 'c \<times> 'w" where
  "notify_temporary_file observer name cw =
     (case Option.bind observer visit_temporary_file of
        None \<Rightarrow> (APP_ERROR_NONE, cw) | Some visit \<Rightarrow> visit name cw)"

definition notify_entry ::
  "('c, 'w) scan_observer option \<Rightarrow> blob_entry \<Rightarrow> 'c \<times> 'w \<Rightarrow> app_error \<times> 'c \<times> 'w" where
  "notify_entry observer entry cw =
     (case Option.bind observer visit_entry of
        None \<Rightarrow> (APP_ERROR_NONE, cw) | Some visit \<Rightarrow> visit entry cw)"

section \<open>The entries\<close>

definition ENTRY_BYTES :: nat where
  [limit_defs]: "ENTRY_BYTES = 16"

definition append_entry ::
  "(nat \<Rightarrow> bool) \<Rightarrow> blob_entry \<Rightarrow> 'c scan_context \<Rightarrow> app_error \<times> 'c scan_context" where
  "append_entry realloc_ok entry context =
     (let append = (\<lambda>context. (APP_ERROR_NONE,
                      context\<lparr>sc_entries := sc_entries context @ [entry]\<rparr>))
      in if length (sc_entries context) = sc_capacity context
         then if sc_capacity context \<noteq> 0 \<and> SIZE_MAX div 2 < sc_capacity context
              then (APP_ERROR_INTERNAL, context)
              else let new_capacity = (if sc_capacity context \<noteq> 0 then sc_capacity context * 2 else 8)
                   in if SIZE_MAX div ENTRY_BYTES < new_capacity \<or> \<not> realloc_ok new_capacity
                      then (APP_ERROR_INTERNAL, context)
                      else append (context\<lparr>sc_capacity := new_capacity\<rparr>)
         else append context)"

text \<open>The insertion of one candidate, from the right, and the loop over the candidates.\<close>

fun shift_entries :: "blob_entry list \<Rightarrow> nat \<Rightarrow> blob_entry \<Rightarrow> blob_entry list" where
  "shift_entries entries 0 candidate = entries[0 := candidate]"
| "shift_entries entries (Suc destination) candidate =
     (if be_id (entries ! destination) < be_id candidate
      then shift_entries (entries[Suc destination := entries ! destination]) destination candidate
      else entries[Suc destination := candidate])"

definition storage_blob_sort_newest_first :: "blob_entry list \<Rightarrow> blob_entry list" where
  "storage_blob_sort_newest_first entries =
     (if length entries < 2 then entries
      else fold (\<lambda>index entries. shift_entries entries index (entries ! index))
             [1 ..< length entries] entries)"

section \<open>The scan\<close>

definition count_invalid_name ::
  "('c, 'w) scan_observer option \<Rightarrow> string \<Rightarrow> 'c scan_context \<Rightarrow> 'w \<Rightarrow>
     app_error \<times> 'c scan_context \<times> 'w" where
  "count_invalid_name observer name context w =
     (let context = context\<lparr>sc_summary :=
            (sc_summary context)\<lparr>ss_invalid_name_count :=
               ss_invalid_name_count (sc_summary context) + 1\<rparr>\<rparr>;
          (e, c, w) = notify_invalid_name observer name (sc_observed context, w)
      in (e, context\<lparr>sc_observed := c\<rparr>, w))"

definition process_temporary ::
  "'w fs_ops \<Rightarrow> string \<Rightarrow> ('c, 'w) scan_observer option \<Rightarrow> string \<Rightarrow> 'c scan_context \<Rightarrow> 'w \<Rightarrow>
     app_error \<times> 'c scan_context \<times> 'w" where
  "process_temporary ops directory_path observer name context w =
     (case join_path directory_path name of
        Inl e \<Rightarrow> (e, context, w)
      | Inr path \<Rightarrow>
          (case op_stat_path ops path w of
             (Inl e, w) \<Rightarrow> (APP_ERROR_IO, context, w)
           | (Inr metadata, w) \<Rightarrow>
               if st_is_reg metadata
               then let context = context\<lparr>sc_summary :=
                          (sc_summary context)\<lparr>ss_temporary_file_count :=
                             ss_temporary_file_count (sc_summary context) + 1\<rparr>\<rparr>;
                        (e, c, w) = notify_temporary_file observer name (sc_observed context, w)
                    in (e, context\<lparr>sc_observed := c\<rparr>, w)
               else count_invalid_name observer name context w))"

definition count_entry ::
  "(nat \<Rightarrow> bool) \<Rightarrow> u64 \<Rightarrow> nat \<Rightarrow> 'c scan_context \<Rightarrow> app_error \<times> 'c scan_context" where
  "count_entry realloc_ok blob_id stored_bytes context =
     (case append_entry realloc_ok \<lparr>be_id = blob_id, be_stored_bytes = stored_bytes\<rparr> context of
        (e, context) \<Rightarrow>
          if e \<noteq> APP_ERROR_NONE then (e, context)
          else let s = sc_summary context
               in (APP_ERROR_NONE,
                   if \<not> ss_has_max_id s \<or> ss_max_id s < blob_id
                   then context\<lparr>sc_summary := s\<lparr>ss_has_max_id := True, ss_max_id := blob_id\<rparr>\<rparr>
                   else context))"

definition process_directory_entry ::
  "'w fs_ops \<Rightarrow> (nat \<Rightarrow> bool) \<Rightarrow> string \<Rightarrow> ('c, 'w) scan_observer option \<Rightarrow> string \<Rightarrow>
     'c scan_context \<Rightarrow> 'w \<Rightarrow> app_error \<times> 'c scan_context \<times> 'w" where
  "process_directory_entry ops realloc_ok directory_path observer name context w =
     (case storage_blob_parse_filename name of
        None \<Rightarrow>
          (case storage_blob_parse_temporary_filename name of
             Some temporary_id \<Rightarrow> process_temporary ops directory_path observer name context w
           | None \<Rightarrow> count_invalid_name observer name context w)
      | Some blob_id \<Rightarrow>
          (case join_path directory_path name of
             Inl e \<Rightarrow> (e, context, w)
           | Inr path \<Rightarrow>
               (case op_stat_path ops path w of
                  (Inl e, w) \<Rightarrow> (APP_ERROR_IO, context, w)
                | (Inr metadata, w) \<Rightarrow>
                    if \<not> st_is_reg metadata \<or> st_size metadata < 0 \<or>
                       int SIZE_MAX < st_size metadata
                    then count_invalid_name observer name context w
                    else let (e, context) =
                               count_entry realloc_ok blob_id (nat (st_size metadata)) context
                         in (e, context, w))))"

partial_function (option) scan_directory_entries ::
  "'w fs_ops \<Rightarrow> (nat \<Rightarrow> bool) \<Rightarrow> string \<Rightarrow> ('c, 'w) scan_observer option \<Rightarrow> nat \<Rightarrow>
     'c scan_context \<Rightarrow> 'w \<Rightarrow> (app_error \<times> 'c scan_context \<times> 'w) option" where
  "scan_directory_entries ops realloc_ok directory_path observer directory context w =
     (case op_read_directory ops directory STORAGE_FS_ENTRY_NAME_MAX w of
        (Dir_Error e, w) \<Rightarrow> Some (APP_ERROR_IO, context, w)
      | (Dir_End, w) \<Rightarrow> Some (APP_ERROR_NONE, context, w)
      | (Dir_Name name, w) \<Rightarrow>
          if is_dot_entry name
          then scan_directory_entries ops realloc_ok directory_path observer directory context w
          else (case process_directory_entry ops realloc_ok directory_path observer name context w of
              (e, context, w) \<Rightarrow>
                if e \<noteq> APP_ERROR_NONE then Some (e, context, w)
                else scan_directory_entries ops realloc_ok directory_path observer directory
                       context w))"

declare scan_directory_entries.simps [code]

fun notify_entries ::
  "('c, 'w) scan_observer option \<Rightarrow> blob_entry list \<Rightarrow> 'c \<times> 'w \<Rightarrow> app_error \<times> 'c \<times> 'w" where
  "notify_entries observer [] cw = (APP_ERROR_NONE, cw)"
| "notify_entries observer (entry # entries) cw =
     (case notify_entry observer entry cw of
        (e, cw) \<Rightarrow> if e \<noteq> APP_ERROR_NONE then (e, cw) else notify_entries observer entries cw)"

definition notify_entries_newest_first ::
  "('c, 'w) scan_observer option \<Rightarrow> blob_entry list \<Rightarrow> 'c \<times> 'w \<Rightarrow> app_error \<times> 'c \<times> 'w" where
  "notify_entries_newest_first observer entries cw =
     notify_entries observer (storage_blob_sort_newest_first entries) cw"

definition storage_blob_scan_with_ops ::
  "'w fs_ops \<Rightarrow> (nat \<Rightarrow> bool) \<Rightarrow> string \<Rightarrow> u64 \<Rightarrow> ('c, 'w) scan_observer option \<Rightarrow> 'c \<Rightarrow> 'w \<Rightarrow>
     (app_error \<times> scan_summary \<times> 'c \<times> 'w) option" where
  "storage_blob_scan_with_ops ops realloc_ok directory_path persisted_next_id observer c w =
     (if directory_path = [] then Some (APP_ERROR_INVALID_ARGUMENT, scan_summary_zero, c, w)
      else case op_open_directory ops directory_path w of
        (None, w) \<Rightarrow> Some (APP_ERROR_IO, scan_summary_zero, c, w)
      | (Some directory, w) \<Rightarrow>
          (case scan_directory_entries ops realloc_ok directory_path observer directory
                  \<lparr>sc_entries = [], sc_capacity = 0, sc_summary = scan_summary_zero,
                   sc_observed = c\<rparr> w of
             None \<Rightarrow> None
           | Some (result, context, w) \<Rightarrow>
               (case op_close_directory ops directory w of
                  (closed, w) \<Rightarrow>
                    let result = (if closed \<noteq> None \<and> result = APP_ERROR_NONE
                                  then APP_ERROR_IO else result);
                        s = (sc_summary context)\<lparr>ss_valid_count := length (sc_entries context)\<rparr>
                    in Some (
                      if result \<noteq> APP_ERROR_NONE then (result, s, sc_observed context, w)
                      else case storage_blob_derive_next_id persisted_next_id (ss_has_max_id s)
                                  (ss_max_id s) of
                        Inl e \<Rightarrow> (e, s, sc_observed context, w)
                      | Inr next_id \<Rightarrow>
                          let (e, c, w) = notify_entries_newest_first observer
                                            (sc_entries context) (sc_observed context, w)
                          in (e, s\<lparr>ss_next_id := next_id\<rparr>, c, w)))))"

section \<open>Sorting\<close>

text \<open>The specification: insertion into a list that is sorted newest first.\<close>

fun insert_newest_first :: "blob_entry \<Rightarrow> blob_entry list \<Rightarrow> blob_entry list" where
  "insert_newest_first c [] = [c]"
| "insert_newest_first c (e # es) =
     (if be_id e < be_id c then c # e # es else e # insert_newest_first c es)"

definition newest_first :: "blob_entry list \<Rightarrow> bool" where
  "newest_first es \<longleftrightarrow> sorted_wrt (\<lambda>a b. be_id b \<le> be_id a) es"

lemma insert_mset [simp]: "mset (insert_newest_first c es) = add_mset c (mset es)"
  by (induction es) auto

lemma insert_set [simp]: "set (insert_newest_first c es) = insert c (set es)"
  by (induction es) auto

lemma insert_sorted: "newest_first es \<Longrightarrow> newest_first (insert_newest_first c es)"
  by (induction es) (auto simp: newest_first_def)

lemma insert_snoc_less:
  "newest_first (es @ [e]) \<Longrightarrow> be_id e < be_id c \<Longrightarrow>
     insert_newest_first c (es @ [e]) = insert_newest_first c es @ [e]"
  by (induction es) (auto simp: newest_first_def)

lemma insert_snoc_ge:
  "newest_first (es @ [e]) \<Longrightarrow> \<not> be_id e < be_id c \<Longrightarrow>
     insert_newest_first c (es @ [e]) = es @ [e, c]"
  by (induction es) (auto simp: newest_first_def)

lemma shift_entries_insert:
  "newest_first pre \<Longrightarrow>
     shift_entries (pre @ x # post) (length pre) c = insert_newest_first c pre @ post"
proof (induction pre arbitrary: x post rule: rev_induct)
  case (snoc e pre)
  have pre: "newest_first pre" using snoc.prems by (simp add: newest_first_def sorted_wrt_append)
  show ?case
  proof (cases "be_id e < be_id c")
    case True
    have "shift_entries ((pre @ [e]) @ x # post) (length (pre @ [e])) c =
          shift_entries (pre @ e # e # post) (length pre) c"
      using True by (simp add: list_update_append nth_append)
    also have "\<dots> = insert_newest_first c pre @ e # post" by (rule snoc.IH [OF pre])
    also have "\<dots> = insert_newest_first c (pre @ [e]) @ post"
      using insert_snoc_less [OF snoc.prems True] by simp
    finally show ?thesis .
  next
    case False
    then show ?thesis using insert_snoc_ge [OF snoc.prems False]
      by (simp add: list_update_append nth_append)
  qed
qed simp

text \<open>The loop invariant: after \<open>n\<close> rounds the first \<open>n\<close> entries are sorted.\<close>

lemma sort_rounds:
  assumes "1 \<le> n" and "n \<le> length es"
  shows "\<exists>pre. fold (\<lambda>i es. shift_entries es i (es ! i)) [1 ..< n] es = pre @ drop n es \<and>
           length pre = n \<and> newest_first pre \<and> mset pre = mset (take n es)"
  using assms
proof (induction n rule: dec_induct)
  case base
  then obtain e es' where "es = e # es'" by (cases es) auto
  then show ?case by (auto simp: newest_first_def intro!: exI [of _ "[e]"])
next
  case (step n)
  then obtain pre where pre:
    "fold (\<lambda>i es. shift_entries es i (es ! i)) [1 ..< n] es = pre @ drop n es"
    "length pre = n" "newest_first pre" "mset pre = mset (take n es)" by auto
  have d: "drop n es = es ! n # drop (Suc n) es"
    using step.prems by (simp add: Cons_nth_drop_Suc)
  have "shift_entries (pre @ drop n es) n ((pre @ drop n es) ! n) =
        insert_newest_first (es ! n) pre @ drop (Suc n) es"
    unfolding d using shift_entries_insert [OF pre(3), of "es ! n" "drop (Suc n) es" "es ! n"] pre(2)
    by (simp add: nth_append)
  moreover have "length (insert_newest_first (es ! n) pre) = Suc n"
    by (metis insert_mset pre(2) size_add_mset size_mset)
  moreover have "mset (insert_newest_first (es ! n) pre) = mset (take (Suc n) es)"
    using step.prems pre(4) by (simp add: take_Suc_conv_app_nth)
  ultimately show ?case
    using pre step.hyps insert_sorted [OF pre(3)] by (auto simp: upt_Suc_append)
qed

lemma sort_newest_first:
  "newest_first (storage_blob_sort_newest_first es) \<and>
   mset (storage_blob_sort_newest_first es) = mset es"
proof (cases "length es < 2")
  case True
  then have "newest_first es" by (cases es; cases "tl es") (auto simp: newest_first_def)
  with True show ?thesis by (simp add: storage_blob_sort_newest_first_def)
next
  case False
  then show ?thesis using sort_rounds [of "length es" es]
    by (auto simp: storage_blob_sort_newest_first_def)
qed

section \<open>What the scan finds\<close>

text \<open>The blob a directory entry is, if it is one.\<close>

definition blob_at :: "(string \<Rightarrow> fs_node option) \<Rightarrow> string \<Rightarrow> string \<Rightarrow> blob_entry option" where
  "blob_at nodes dir name =
     (case storage_blob_parse_filename name of
        None \<Rightarrow> None
      | Some x \<Rightarrow>
          (case nodes (dir @ ''/'' @ name) of
             Some (Regular bs) \<Rightarrow>
               if length bs \<le> SIZE_MAX then Some \<lparr>be_id = x, be_stored_bytes = length bs\<rparr> else None
           | _ \<Rightarrow> None))"

lemma blob_at_dot [simp]: "is_dot_entry name \<Longrightarrow> blob_at nodes dir name = None"
  by (auto simp: is_dot_entry_def blob_at_def storage_blob_parse_filename_def
      STORAGE_BLOB_FILENAME_LENGTH_def)

lemma blob_at_id: "blob_at nodes dir name = Some e \<Longrightarrow>
    storage_blob_parse_filename name = Some (be_id e)"
  by (auto simp: blob_at_def split: option.splits fs_node.splits if_splits)

text \<open>Callbacks that leave the files and the open listings alone.\<close>

definition quiet_callback ::
  "('w \<Rightarrow> fs_view list) \<Rightarrow> ('a \<Rightarrow> 'c \<times> 'w \<Rightarrow> app_error \<times> 'c \<times> 'w) option \<Rightarrow> bool" where
  "quiet_callback tr f \<longleftrightarrow>
     (\<forall>visit x c w e c' w'. f = Some visit \<longrightarrow> visit x (c, w) = (e, c', w') \<longrightarrow>
        fs_now tr w' = fs_now tr w)"

definition quiet_observer ::
  "('w \<Rightarrow> fs_view list) \<Rightarrow> ('c, 'w) scan_observer option \<Rightarrow> bool" where
  "quiet_observer tr observer \<longleftrightarrow>
     quiet_callback tr (Option.bind observer visit_invalid_name) \<and>
     quiet_callback tr (Option.bind observer visit_temporary_file)"

lemma notify_invalid_name_quiet:
  "quiet_observer tr observer \<Longrightarrow> notify_invalid_name observer name (c, w) = (e, c', w') \<Longrightarrow>
     fs_now tr w' = fs_now tr w"
  by (auto simp: quiet_observer_def quiet_callback_def notify_invalid_name_def
      split: option.splits)

lemma notify_temporary_file_quiet:
  "quiet_observer tr observer \<Longrightarrow> notify_temporary_file observer name (c, w) = (e, c', w') \<Longrightarrow>
     fs_now tr w' = fs_now tr w"
  by (auto simp: quiet_observer_def quiet_callback_def notify_temporary_file_def
      split: option.splits)

definition unchanged_entries ::
  "('w \<Rightarrow> fs_view list) \<Rightarrow> 'c scan_context \<Rightarrow> 'w \<Rightarrow> 'c scan_context \<Rightarrow> 'w \<Rightarrow> bool" where
  "unchanged_entries tr context w context' w' \<longleftrightarrow>
     fs_now tr w' = fs_now tr w \<and> sc_entries context' = sc_entries context \<and>
     ss_has_max_id (sc_summary context') = ss_has_max_id (sc_summary context) \<and>
     ss_max_id (sc_summary context') = ss_max_id (sc_summary context)"

lemma unchanged_entries_from:
  "fs_now tr w1 = fs_now tr w \<Longrightarrow> unchanged_entries tr context w1 context' w' \<Longrightarrow>
     unchanged_entries tr context w context' w'"
  by (simp add: unchanged_entries_def)

lemma count_invalid_name_step:
  assumes "quiet_observer tr observer"
    and "count_invalid_name observer name context w = (e, context', w')"
  shows "unchanged_entries tr context w context' w'"
  using assms
  by (auto simp: count_invalid_name_def unchanged_entries_def Let_def dest: notify_invalid_name_quiet
      split: prod.splits)

lemma process_temporary_step:
  assumes "posix_fs ops tr" and "quiet_observer tr observer"
    and "process_temporary ops dir observer name context w = (e, context', w')"
  shows "unchanged_entries tr context w context' w'"
proof (cases "join_path dir name")
  case (Inl x)
  then show ?thesis using assms(3) by (simp add: process_temporary_def unchanged_entries_def)
next
  case (Inr path)
  obtain r w1 where st: "op_stat_path ops path w = (r, w1)" by fastforce
  have same: "fs_now tr w1 = fs_now tr w"
    by (rule stat_lawD(1) [OF posix_fs_parts(1) [OF assms(1)] st])
  show ?thesis
  proof (cases r)
    case (Inl x)
    then show ?thesis using assms(3) Inr st same
      by (simp add: process_temporary_def unchanged_entries_def)
  next
    case r: (Inr metadata)
    show ?thesis
    proof (cases "st_is_reg metadata")
      case True
      then show ?thesis using assms(2,3) Inr st same r
        by (auto simp: process_temporary_def unchanged_entries_def Let_def dest: notify_temporary_file_quiet
            split: prod.splits)
    next
      case False
      then show ?thesis
        using assms(3) Inr st same r count_invalid_name_step [OF assms(2)]
        by (auto simp: process_temporary_def intro: unchanged_entries_from)
    qed
  qed
qed

text \<open>The largest identifier of the entries collected so far.\<close>

definition max_ok :: "'c scan_context \<Rightarrow> bool" where
  "max_ok context \<longleftrightarrow>
     (ss_has_max_id (sc_summary context) \<longleftrightarrow> sc_entries context \<noteq> []) \<and>
     (\<forall>e \<in> set (sc_entries context). be_id e \<le> ss_max_id (sc_summary context))"

text \<open>
  One processed name: the files stay, and an entry is appended exactly when the name is a blob.
\<close>

definition entry_processed ::
  "('w \<Rightarrow> fs_view list) \<Rightarrow> string \<Rightarrow> string \<Rightarrow> 'c scan_context \<Rightarrow> 'w \<Rightarrow> app_error \<Rightarrow>
     'c scan_context \<Rightarrow> 'w \<Rightarrow> bool" where
  "entry_processed tr dir name context w e context' w' \<longleftrightarrow>
     fs_now tr w' = fs_now tr w \<and>
     (e = APP_ERROR_NONE \<longrightarrow> max_ok context \<longrightarrow> max_ok context' \<and>
        sc_entries context' = sc_entries context @
          (case blob_at (fv_node (fs_now tr w)) dir name of None \<Rightarrow> [] | Some entry \<Rightarrow> [entry]))"

lemma unchanged_entries_processed:
  "unchanged_entries tr context w context' w' \<Longrightarrow>
   blob_at (fv_node (fs_now tr w)) dir name = None \<Longrightarrow>
   entry_processed tr dir name context w e context' w'"
  by (simp add: unchanged_entries_def entry_processed_def max_ok_def)

lemma failed_processed:
  "fs_now tr w' = fs_now tr w \<Longrightarrow> e \<noteq> APP_ERROR_NONE \<Longrightarrow>
   entry_processed tr dir name context w e context' w'"
  by (simp add: entry_processed_def)

lemma append_entry_step:
  "append_entry realloc_ok entry context = (e, context') \<Longrightarrow>
     sc_summary context' = sc_summary context \<and>
     sc_entries context' =
       (if e = APP_ERROR_NONE then sc_entries context @ [entry] else sc_entries context)"
  by (auto simp: append_entry_def Let_def split: if_splits)

lemma count_entry_step:
  assumes "count_entry realloc_ok x n context = (e, context')" and "e = APP_ERROR_NONE"
    and "max_ok context"
  shows "sc_entries context' = sc_entries context @ [\<lparr>be_id = x, be_stored_bytes = n\<rparr>] \<and>
    max_ok context'"
proof -
  obtain e1 context1 where a:
    "append_entry realloc_ok \<lparr>be_id = x, be_stored_bytes = n\<rparr> context = (e1, context1)"
    by fastforce
  show ?thesis
    using append_entry_step [OF a] assms a
    by (auto simp: count_entry_def max_ok_def Let_def not_less split: if_splits)
       (meson less_imp_le order_trans)
qed

text \<open>A blob name whose path could be examined.\<close>

lemma process_found:
  assumes fs: "posix_fs ops tr" and quiet: "quiet_observer tr observer"
    and run: "process_directory_entry ops realloc_ok dir observer name context w = (e, context', w')"
    and x: "storage_blob_parse_filename name = Some x"
    and join: "join_path dir name = Inr path"
    and st: "op_stat_path ops path w = (r, w1)" and r: "r = Inr metadata"
  shows "entry_processed tr dir name context w e context' w'"
proof -
  note stat = stat_lawD [OF posix_fs_parts(1) [OF fs] st]
  have path: "path = dir @ ''/'' @ name" using join by (simp add: join_path_Inr_iff)
  obtain node where node: "fv_node (fs_now tr w) path = Some node" "stat_of node metadata"
    using stat(2) [OF r] by blast
  show ?thesis
  proof (cases "\<not> st_is_reg metadata \<or> st_size metadata < 0 \<or> int SIZE_MAX < st_size metadata")
    case bad: True
    have "blob_at (fv_node (fs_now tr w)) dir name = None"
      using bad node path x by (cases node) (auto simp: blob_at_def stat_of_def)
    moreover have "count_invalid_name observer name context w1 = (e, context', w')"
      using run x join st r bad by (simp add: process_directory_entry_def)
    ultimately show ?thesis
      by (intro unchanged_entries_processed
          unchanged_entries_from [where tr = tr and w = w, OF stat(1)]
          count_invalid_name_step [OF quiet])
  next
    case good: False
    obtain bs where bs: "node = Regular bs" "st_size metadata = int (length bs)"
      using good node by (cases node) (auto simp: stat_of_def)
    have at: "blob_at (fv_node (fs_now tr w)) dir name =
        Some \<lparr>be_id = x, be_stored_bytes = length bs\<rparr>"
      using good bs node path x by (simp add: blob_at_def)
    have count: "count_entry realloc_ok x (length bs) context = (e, context')" and "w' = w1"
      using run x join st r good bs
      by (auto simp: process_directory_entry_def Let_def split: prod.splits)
    then show ?thesis
      using at stat(1) count_entry_step [OF count] by (simp add: entry_processed_def)
  qed
qed

lemma process_directory_entry_step:
  assumes fs: "posix_fs ops tr" and quiet: "quiet_observer tr observer"
    and run: "process_directory_entry ops realloc_ok dir observer name context w = (e, context', w')"
  shows "entry_processed tr dir name context w e context' w'"
proof (cases "storage_blob_parse_filename name")
  case None
  then have "blob_at (fv_node (fs_now tr w)) dir name = None" by (simp add: blob_at_def)
  moreover have "unchanged_entries tr context w context' w'"
    using run None count_invalid_name_step [OF quiet] process_temporary_step [OF fs quiet]
    by (cases "storage_blob_parse_temporary_filename name")
       (simp_all add: process_directory_entry_def)
  ultimately show ?thesis by (rule unchanged_entries_processed [rotated])
next
  case (Some x)
  show ?thesis
  proof (cases "join_path dir name")
    case (Inl err)
    then show ?thesis using run Some join_path_Inl_not_none [OF Inl]
      by (simp add: process_directory_entry_def failed_processed)
  next
    case path: (Inr path)
    obtain r w1 where st: "op_stat_path ops path w = (r, w1)" by fastforce
    note stat = stat_lawD [OF posix_fs_parts(1) [OF fs] st]
    show ?thesis
    proof (cases r)
      case (Inl err)
      then show ?thesis using run Some path st stat(1)
        by (simp add: process_directory_entry_def failed_processed)
    next
      case (Inr metadata)
      then show ?thesis
        using process_found [OF fs quiet _ Some path st Inr] run by simp
    qed
  qed
qed

text \<open>An observer without callbacks for names keeps its context during the listing.\<close>

definition silent_names :: "('c, 'w) scan_observer option \<Rightarrow> bool" where
  "silent_names observer \<longleftrightarrow>
     Option.bind observer visit_invalid_name = None \<and>
     Option.bind observer visit_temporary_file = None"

lemma silent_quiet: "silent_names observer \<Longrightarrow> quiet_observer tr observer"
  by (simp add: silent_names_def quiet_observer_def quiet_callback_def)

lemma silent_processed:
  assumes "silent_names observer"
    and "process_directory_entry ops realloc_ok dir observer name ctx w = (e, ctx', w')"
  shows "sc_observed ctx' = sc_observed ctx"
  using assms
  by (auto simp: process_directory_entry_def process_temporary_def count_invalid_name_def
      notify_invalid_name_def notify_temporary_file_def count_entry_def append_entry_def
      silent_names_def Let_def split: option.splits sum.splits prod.splits if_splits)

text \<open>
  The loop over the stream ends, because every name it reads shortens the listing, and it
  collects the blobs in the order of the listing.
\<close>

definition blobs_of_listing ::
  "(string \<Rightarrow> fs_node option) \<Rightarrow> string \<Rightarrow> string list \<Rightarrow> blob_entry list" where
  "blobs_of_listing nodes dir names = List.map_filter (blob_at nodes dir) names"

lemma blobs_of_listing_simps [simp]:
  "blobs_of_listing nodes dir [] = []"
  "blobs_of_listing nodes dir (n # ns) =
     (case blob_at nodes dir n of None \<Rightarrow> [] | Some e \<Rightarrow> [e]) @ blobs_of_listing nodes dir ns"
  by (simp_all add: blobs_of_listing_def List.map_filter_simps split: option.split)

lemma scan_loop:
  assumes fs: "posix_fs ops tr" and quiet: "quiet_observer tr observer"
  shows "\<exists>e ctx' w'.
    scan_directory_entries ops realloc_ok dir observer d ctx w = Some (e, ctx', w') \<and>
    fv_node (fs_now tr w') = fv_node (fs_now tr w) \<and>
    (silent_names observer \<longrightarrow> sc_observed ctx' = sc_observed ctx) \<and>
    (e = APP_ERROR_NONE \<longrightarrow> max_ok ctx \<longrightarrow> max_ok ctx' \<and>
       sc_entries ctx' = sc_entries ctx @
         blobs_of_listing (fv_node (fs_now tr w)) dir (fv_listing (fs_now tr w) d))"
proof (induction "fv_listing (fs_now tr w) d" arbitrary: ctx w)
  case Nil
  obtain r w1 where rd: "op_read_directory ops d STORAGE_FS_ENTRY_NAME_MAX w = (r, w1)"
    by fastforce
  note read = read_directoryD [OF posix_fs_parts(4) [OF fs] rd]
  have "scan_directory_entries ops realloc_ok dir observer d ctx w =
      Some (if r = Dir_End then APP_ERROR_NONE else APP_ERROR_IO, ctx, w1)"
    using rd read(2) Nil by (subst scan_directory_entries.simps) (cases r, auto)
  then show ?case using read(1) Nil by auto
next
  case (Cons name names)
  obtain r w1 where rd: "op_read_directory ops d STORAGE_FS_ENTRY_NAME_MAX w = (r, w1)"
    by fastforce
  note read = read_directoryD [OF posix_fs_parts(4) [OF fs] rd]
  show ?case
  proof (cases r)
    case (Dir_Error x)
    then show ?thesis using rd read(1) by (subst scan_directory_entries.simps) auto
  next
    case Dir_End
    then show ?thesis using read(3) Cons.hyps(2) by auto
  next
    case (Dir_Name s)
    then have s: "s = name" "names = fv_listing (fs_now tr w1) d"
      using read(2) Cons.hyps(2) by auto
    show ?thesis
    proof (cases "is_dot_entry name")
      case True
      then show ?thesis
        using Cons.hyps(1) [OF s(2), of ctx] Cons.hyps(2) rd Dir_Name s read(1)
        by (subst scan_directory_entries.simps) (simp flip: Cons.hyps(2))
    next
      case False
      obtain e2 ctx2 w2 where p:
        "process_directory_entry ops realloc_ok dir observer name ctx w1 = (e2, ctx2, w2)"
        by (metis prod.exhaust)
      note step = process_directory_entry_step [OF fs quiet p, unfolded entry_processed_def]
      note silent = silent_processed [OF _ p]
      have loop: "scan_directory_entries ops realloc_ok dir observer d ctx w =
          (if e2 \<noteq> APP_ERROR_NONE then Some (e2, ctx2, w2)
           else scan_directory_entries ops realloc_ok dir observer d ctx2 w2)"
        using rd Dir_Name s False p by (subst scan_directory_entries.simps) simp
      show ?thesis
      proof (cases "e2 = APP_ERROR_NONE")
        case ok: True
        have "names = fv_listing (fs_now tr w2) d" using s step by simp
        from Cons.hyps(1) [OF this, of ctx2] show ?thesis
          using loop ok step silent read(1) s by (auto simp flip: Cons.hyps(2))
      qed (use loop step silent read(1) in auto)
    qed
  qed
qed

end
