(* ===== verification/Storage_Sample.thy ===== *)
theory Storage_Sample
  imports Storage_Fs
begin

text \<open>
  A small executable file system that satisfies \<open>posix_fs\<close>, so that the laws assumed of the
  C library are known to be consistent and the storage properties can be applied to concrete
  directories.  It is no part of the firmware: the witnesses run the models on it.
\<close>

record disk =
  dk_files :: "(string \<times> fs_node) list"
  dk_listing :: "string list"
  dk_fd :: "(string \<times> open_mode \<times> nat) option"

type_synonym disk_world = "disk \<times> disk list"

definition disk_of :: "(string \<times> fs_node) list \<Rightarrow> disk_world" where
  "disk_of files = (\<lparr>dk_files = files, dk_listing = [], dk_fd = None\<rparr>, [])"

definition disk_view :: "disk \<Rightarrow> fs_view" where
  "disk_view d = \<lparr>fv_node = map_of (dk_files d), fv_listing = (\<lambda>_. dk_listing d),
                  fv_open = (\<lambda>_. dk_fd d)\<rparr>"

definition disk_trace :: "disk_world \<Rightarrow> fs_view list" where
  "disk_trace w = map disk_view (fst w # snd w)"

definition disk_step :: "'r \<Rightarrow> disk \<Rightarrow> disk_world \<Rightarrow> 'r \<times> disk_world" where
  "disk_step r d' w = (r, (d', fst w # snd w))"

definition disk_remove :: "string \<Rightarrow> (string \<times> fs_node) list \<Rightarrow> (string \<times> fs_node) list" where
  "disk_remove p files = filter (\<lambda>(q, _). q \<noteq> p) files"

definition disk_put :: "string \<Rightarrow> fs_node \<Rightarrow> disk \<Rightarrow> disk" where
  "disk_put p node d = d\<lparr>dk_files := (p, node) # disk_remove p (dk_files d)\<rparr>"

definition disk_stat :: "fs_node \<Rightarrow> file_stat" where
  "disk_stat node =
     (case node of
        Regular bs \<Rightarrow> \<lparr>st_is_reg = True, st_is_dir = False, st_size = int (length bs)\<rparr>
      | Directory \<Rightarrow> \<lparr>st_is_reg = False, st_is_dir = True, st_size = 0\<rparr>
      | Other_Node \<Rightarrow> \<lparr>st_is_reg = False, st_is_dir = False, st_size = 0\<rparr>)"

definition disk_names :: "string \<Rightarrow> (string \<times> fs_node) list \<Rightarrow> string list" where
  "disk_names p files = remdups
     (map (\<lambda>(q, _). drop (length p + 1) q)
       (filter (\<lambda>(q, _). take (length p + 1) q = p @ ''/'' \<and> CHR ''/'' \<notin> set (drop (length p + 1) q)
                  \<and> length p + 1 < length q) files))"

definition disk_ops :: "disk_world fs_ops" where
  "disk_ops = \<lparr>
     op_open_file = (\<lambda>p m w. case m of
         O_RDONLY \<Rightarrow>
           (case map_of (dk_files (fst w)) p of
              Some (Regular bs) \<Rightarrow> disk_step (Inr 3) ((fst w)\<lparr>dk_fd := Some (p, m, 0)\<rparr>) w
            | _ \<Rightarrow> disk_step (Inl ENOENT) (fst w) w)
       | O_WRONLY_CREAT_TRUNC \<Rightarrow>
           disk_step (Inr 3) ((disk_put p (Regular []) (fst w))\<lparr>dk_fd := Some (p, m, 0)\<rparr>) w),
     op_read_file = (\<lambda>d n w. case dk_fd (fst w) of
         Some (p, O_RDONLY, pos) \<Rightarrow>
           (case map_of (dk_files (fst w)) p of
              Some (Regular bs) \<Rightarrow>
                (let data = take n (drop pos bs)
                 in disk_step (Inr data)
                      ((fst w)\<lparr>dk_fd := Some (p, O_RDONLY, pos + length data)\<rparr>) w)
            | _ \<Rightarrow> disk_step (Inl EIO) (fst w) w)
       | _ \<Rightarrow> disk_step (Inl EIO) (fst w) w),
     op_write_file = (\<lambda>d data w. case dk_fd (fst w) of
         Some (p, O_WRONLY_CREAT_TRUNC, pos) \<Rightarrow>
           (case map_of (dk_files (fst w)) p of
              Some (Regular bs) \<Rightarrow>
                disk_step (Inr (length data)) (disk_put p (Regular (bs @ data)) (fst w)) w
            | _ \<Rightarrow> disk_step (Inl EIO) (fst w) w)
       | _ \<Rightarrow> disk_step (Inl EIO) (fst w) w),
     op_sync_file = (\<lambda>d w. disk_step None (fst w) w),
     op_close_file = (\<lambda>d w. disk_step None ((fst w)\<lparr>dk_fd := None\<rparr>) w),
     op_stat_path = (\<lambda>p w. case map_of (dk_files (fst w)) p of
         None \<Rightarrow> disk_step (Inl ENOENT) (fst w) w
       | Some node \<Rightarrow> disk_step (Inr (disk_stat node)) (fst w) w),
     op_rename_path = (\<lambda>p q w. case map_of (dk_files (fst w)) p of
         None \<Rightarrow> disk_step (Some ENOENT) (fst w) w
       | Some node \<Rightarrow> disk_step None
           (disk_put q node ((fst w)\<lparr>dk_files := disk_remove p (dk_files (fst w))\<rparr>)) w),
     op_unlink_path = (\<lambda>p w. case map_of (dk_files (fst w)) p of
         None \<Rightarrow> disk_step (Some ENOENT) (fst w) w
       | Some node \<Rightarrow>
           disk_step None ((fst w)\<lparr>dk_files := disk_remove p (dk_files (fst w))\<rparr>) w),
     op_make_directory = (\<lambda>p w. case map_of (dk_files (fst w)) p of
         None \<Rightarrow> disk_step None (disk_put p Directory (fst w)) w
       | Some node \<Rightarrow> disk_step (Some EEXIST) (fst w) w),
     op_open_directory = (\<lambda>p w.
         disk_step (Some 0) ((fst w)\<lparr>dk_listing := disk_names p (dk_files (fst w))\<rparr>) w),
     op_read_directory = (\<lambda>d n w. case dk_listing (fst w) of
         [] \<Rightarrow> disk_step Dir_End (fst w) w
       | s # ss \<Rightarrow> disk_step (Dir_Name s) ((fst w)\<lparr>dk_listing := ss\<rparr>) w),
     op_close_directory = (\<lambda>d w. disk_step None (fst w) w)\<rparr>"

text \<open>The rules that run a model on the sample file system.\<close>

lemmas disk_eval = disk_ops_def disk_step_def disk_of_def disk_put_def disk_remove_def
  disk_names_def disk_stat_def

lemma disk_remove_map [simp]: "map_of (disk_remove p files) = (map_of files)(p := None)"
  by (induction files) (auto simp: disk_remove_def)

lemma disk_view_simps [simp]:
  "fv_node (disk_view d) = map_of (dk_files d)"
  "fv_listing (disk_view d) = (\<lambda>_. dk_listing d)"
  "fv_open (disk_view d) = (\<lambda>_. dk_fd d)"
  by (simp_all add: disk_view_def)

lemma disk_moves [simp]:
  "fs_moves disk_trace w (d', fst w # snd w) R \<longleftrightarrow> R (disk_view (fst w)) (disk_view d')"
  by (auto simp: fs_moves_def disk_trace_def)

lemma disk_moves_pair [simp]:
  "fs_moves disk_trace (d, ds) (d', d # ds) R \<longleftrightarrow> R (disk_view d) (disk_view d')"
  using disk_moves [of "(d, ds)"] by simp

lemma disk_names_set:
  "n \<in> set (disk_names p files) \<longleftrightarrow>
     CHR ''/'' \<notin> set n \<and> n \<noteq> [] \<and> map_of files (p @ ''/'' @ n) \<noteq> None"
proof
  assume "n \<in> set (disk_names p files)"
  then obtain q node where q: "(q, node) \<in> set files" "take (length p + 1) q = p @ ''/''"
      "CHR ''/'' \<notin> set (drop (length p + 1) q)" "length p + 1 < length q"
      "n = drop (length p + 1) q"
    by (auto simp: disk_names_def)
  have "q = p @ ''/'' @ n" using q(2,5) by (metis append.assoc append_take_drop_id)
  then have "p @ ''/'' @ n \<in> fst ` set files" using q(1) by force
  then have "map_of files (p @ ''/'' @ n) \<noteq> None" by (simp add: map_of_eq_None_iff)
  then show "CHR ''/'' \<notin> set n \<and> n \<noteq> [] \<and> map_of files (p @ ''/'' @ n) \<noteq> None"
    using q by simp
next
  assume n: "CHR ''/'' \<notin> set n \<and> n \<noteq> [] \<and> map_of files (p @ ''/'' @ n) \<noteq> None"
  then obtain node where "(p @ ''/'' @ n, node) \<in> set files" by (meson map_of_SomeD not_None_eq)
  then show "n \<in> set (disk_names p files)"
    using n by (force simp: disk_names_def image_iff)
qed

lemma disk_directory_laws: "directory_laws disk_ops disk_trace"
  unfolding directory_laws_def
proof (intro conjI allI impI)
  fix p w r w' assume "op_open_directory disk_ops p w = (r, w')"
  then show "fs_moves disk_trace w w' (\<lambda>v v'. fv_node v' = fv_node v \<and> fv_open v' = fv_open v \<and>
      (\<forall>d. r = Some d \<longrightarrow> distinct (fv_listing v' d) \<and>
         (\<forall>n. \<not> is_dot_entry n \<longrightarrow>
            (n \<in> set (fv_listing v' d) \<longleftrightarrow> CHR ''/'' \<notin> set n \<and> n \<noteq> [] \<and>
               fv_node v (p @ ''/'' @ n) \<noteq> None))))"
    by (auto simp: disk_ops_def disk_step_def disk_names_set) (simp add: disk_names_def)
qed (auto simp: disk_ops_def disk_step_def disk_put_def fun_upd_def split: list.splits option.splits)

lemma disk_file_laws: "file_laws disk_ops disk_trace"
  unfolding file_laws_def
proof (intro conjI allI impI)
  fix p m w r w' assume "op_open_file disk_ops p m w = (r, w')"
  then show "fs_moves disk_trace w w' (\<lambda>v v'.
      (case m of
         O_RDONLY \<Rightarrow> fv_node v' = fv_node v \<and> fv_listing v' = fv_listing v
       | O_WRONLY_CREAT_TRUNC \<Rightarrow> only_path p v v' \<and>
           (\<forall>d. r = Inr d \<longrightarrow> fv_node v' p = Some (Regular []))) \<and>
      (case r of Inr d \<Rightarrow> fv_open v' d = Some (p, m, 0) | Inl e \<Rightarrow> True))"
    by (auto simp: disk_ops_def disk_step_def disk_put_def only_path_def
        split: open_mode.splits option.splits fs_node.splits)
next
  fix d n w r w' assume "op_read_file disk_ops d n w = (r, w')"
  then show "fs_moves disk_trace w w' (\<lambda>v v'. fv_node v' = fv_node v \<and> fv_listing v' = fv_listing v \<and>
      (case r of
         Inr bs \<Rightarrow> (\<forall>p pos file. fv_open v d = Some (p, O_RDONLY, pos) \<longrightarrow>
             fv_node v p = Some (Regular file) \<longrightarrow>
               bs = take (length bs) (drop pos file) \<and> length bs \<le> n \<and>
               (bs = [] \<longrightarrow> n = 0 \<or> length file \<le> pos) \<and>
               fv_open v' d = Some (p, O_RDONLY, pos + length bs))
       | Inl e \<Rightarrow> fv_open v' = fv_open v))"
    by (auto simp: disk_ops_def disk_step_def Let_def min_def
        split: open_mode.splits option.splits fs_node.splits)
next
  fix d bs w r w' assume "op_write_file disk_ops d bs w = (r, w')"
  then show "fs_moves disk_trace w w' (\<lambda>v v'. fv_open v' = fv_open v \<and>
      (\<forall>p pos. fv_open v d = Some (p, O_WRONLY_CREAT_TRUNC, pos) \<longrightarrow> only_path p v v' \<and>
         ((\<exists>file. fv_node v p = Some (Regular file)) \<longrightarrow>
          (\<exists>file. fv_node v' p = Some (Regular file)))))"
    by (auto simp: disk_ops_def disk_step_def disk_put_def only_path_def
        split: open_mode.splits option.splits fs_node.splits)
qed (auto simp: disk_ops_def disk_step_def)

lemma disk_stat_of: "stat_of node (disk_stat node)"
  by (cases node) (simp_all add: stat_of_def disk_stat_def)

theorem disk_posix: "posix_fs disk_ops disk_trace"
  unfolding posix_fs_def
proof (intro conjI disk_directory_laws disk_file_laws)
  show "stat_law (op_stat_path disk_ops) disk_trace"
    unfolding stat_law_def
    by (auto simp: disk_ops_def disk_step_def disk_stat_of split: option.splits)
  show "unlink_law (op_unlink_path disk_ops) disk_trace"
    unfolding unlink_law_def
    by (auto simp: disk_ops_def disk_step_def disk_view_def split: option.splits)
  show "rename_law (op_rename_path disk_ops) disk_trace"
    unfolding rename_law_def
    by (auto simp: disk_ops_def disk_step_def disk_view_def disk_put_def split: option.splits)
qed

end
