(* ===== verification/Storage_Repository.thy ===== *)
theory Storage_Repository
  imports Storage_Scan Storage_Sample
begin

text \<open>
  The repository of blobs as a whole: what a scan of the directory establishes, the recovery
  of interrupted uploads (\<open>storage/storage_blob_recovery.c\<close>), reading and deleting blobs
  (\<open>storage/storage_blob_access_core.c\<close>) and the module state of \<open>storage/storage_blob.c\<close>.
\<close>

section \<open>What a scan establishes\<close>

text \<open>The blobs of a directory, on the side of the file system.\<close>

definition is_blob :: "(string \<Rightarrow> fs_node option) \<Rightarrow> string \<Rightarrow> blob_entry \<Rightarrow> bool" where
  "is_blob nodes dir e \<longleftrightarrow>
     be_id e \<noteq> 0 \<and> be_stored_bytes e \<le> SIZE_MAX \<and>
     (\<exists>bs. nodes (dir @ ''/'' @ blob_name (be_id e)) = Some (Regular bs) \<and>
           length bs = be_stored_bytes e)"

lemma blob_at_iff:
  "blob_at nodes dir name = Some e \<longleftrightarrow> name = blob_name (be_id e) \<and> is_blob nodes dir e"
  by (cases e)
     (auto simp: blob_at_def is_blob_def blob_codec.parse_name blob_codec.name_inject
      dest!: blob_codec.parse_Some_iff [THEN iffD1] split: option.splits fs_node.splits)

lemma blob_name_no_slash: "CHR ''/'' \<notin> set (blob_name x)"
proof -
  have "list_all is_digit (zero_padded STORAGE_BLOB_ID_DIGITS (decimal (unat x)))"
    by (simp add: decimal_digits)
  then have "CHR ''/'' \<notin> set (zero_padded STORAGE_BLOB_ID_DIGITS (decimal (unat x)))"
    by (auto simp: list_all_iff is_digit_def)
  then show ?thesis by (simp add: blob_name_def)
qed

lemma blob_name_in_names_of:
  assumes "is_blob nodes dir e" shows "blob_name (be_id e) \<in> names_of nodes dir"
proof -
  have "length n = 23 \<Longrightarrow> \<not> is_dot_entry n \<and> n \<noteq> []" for n
    by (auto simp: is_dot_entry_def)
  moreover have "length (blob_name (be_id e)) = 23" by (simp add: limit_defs)
  ultimately have "\<not> is_dot_entry (blob_name (be_id e))" "blob_name (be_id e) \<noteq> []"
    by blast+
  then show ?thesis using assms blob_name_no_slash by (auto simp: names_of_def is_blob_def)
qed

lemma blobs_of_listing_set:
  assumes "{n \<in> set names. \<not> is_dot_entry n} = names_of nodes dir"
  shows "set (blobs_of_listing nodes dir names) = {e. is_blob nodes dir e}"
proof -
  have "e \<in> set (blobs_of_listing nodes dir names) \<longleftrightarrow>
        (\<exists>n \<in> set names. blob_at nodes dir n = Some e)" for e
    by (auto simp: blobs_of_listing_def map_filter_def image_iff)
  moreover have "(\<exists>n \<in> set names. blob_at nodes dir n = Some e) \<longleftrightarrow> is_blob nodes dir e" for e
    using assms blob_name_in_names_of [of nodes dir e] by (auto simp: blob_at_iff)
  ultimately show ?thesis by auto
qed

lemma blobs_of_listing_ids:
  "distinct names \<Longrightarrow> distinct (map be_id (blobs_of_listing nodes dir names))"
proof (induction names)
  case (Cons n ns)
  have "be_id e \<notin> be_id ` set (blobs_of_listing nodes dir ns)"
    if "blob_at nodes dir n = Some e" for e
  proof
    assume "be_id e \<in> be_id ` set (blobs_of_listing nodes dir ns)"
    then obtain e' m where "be_id e' = be_id e" "m \<in> set ns" "blob_at nodes dir m = Some e'"
      by (auto simp: blobs_of_listing_def map_filter_def)
    then show False using that Cons.prems by (auto simp: blob_at_iff)
  qed
  then show ?case using Cons by (auto split: option.split)
qed simp

text \<open>
  The result of a successful scan: the entries shown to the observer, in order, and the summary.
\<close>

definition scan_complete ::
  "('w \<Rightarrow> fs_view list) \<Rightarrow> string \<Rightarrow> u64 \<Rightarrow> ('c, 'w) scan_observer option \<Rightarrow> 'c \<Rightarrow> 'w \<Rightarrow>
     scan_summary \<Rightarrow> app_error \<times> 'c \<times> 'w \<Rightarrow> bool" where
  "scan_complete tr dir persisted observer c w s result \<longleftrightarrow>
     (\<exists>order c1 w1. newest_first order \<and> distinct (map be_id order) \<and>
        set order = {e. is_blob (fv_node (fs_now tr w)) dir e} \<and>
        ss_valid_count s = length order \<and>
        fv_node (fs_now tr w1) = fv_node (fs_now tr w) \<and>
        notify_entries observer order (c1, w1) = result \<and>
        (silent_names observer \<longrightarrow> c1 = c) \<and>
        (\<forall>e \<in> set order. be_id e < ss_next_id s) \<and>
        persisted \<le> ss_next_id s \<and> ss_next_id s \<noteq> 0)"

lemma max_ok_initial:
  "max_ok \<lparr>sc_entries = [], sc_capacity = n, sc_summary = scan_summary_zero, sc_observed = c\<rparr>"
  by (simp add: max_ok_def scan_summary_zero_def)

lemma scan_finish:
  assumes ctx: "max_ok ctx" and ents: "sc_entries ctx = blobs_of_listing nodes dir names"
    and names: "{n \<in> set names. \<not> is_dot_entry n} = names_of nodes dir" "distinct names"
    and next_id: "storage_blob_derive_next_id persisted (ss_has_max_id (sc_summary ctx))
           (ss_max_id (sc_summary ctx)) = Inr n"
    and w: "nodes = fv_node (fs_now tr w)" "fv_node (fs_now tr w1) = nodes"
    and done_: "notify_entries_newest_first observer (sc_entries ctx) (c1, w1) = result"
    and s: "ss_valid_count s = length (sc_entries ctx)" "ss_next_id s = n"
    and c: "silent_names observer \<Longrightarrow> c1 = c"
  shows "scan_complete tr dir persisted observer c w s result"
proof -
  let ?order = "storage_blob_sort_newest_first (sc_entries ctx)"
  have sorted: "newest_first ?order" "mset ?order = mset (sc_entries ctx)"
    using sort_newest_first by blast+
  have set: "set ?order = {e. is_blob nodes dir e}"
    using blobs_of_listing_set [OF names(1)] sorted(2) ents by (metis set_mset_mset)
  have "mset (map be_id ?order) = mset (map be_id (sc_entries ctx))"
    using sorted(2) by simp
  then have dist: "distinct (map be_id ?order)"
    using blobs_of_listing_ids [OF names(2)] ents by (metis mset_eq_imp_distinct_iff)
  have len: "length ?order = length (sc_entries ctx)"
    using sorted(2) by (metis size_mset)
  have "be_id e < n" if "e \<in> set ?order" for e
  proof -
    have e: "e \<in> set (sc_entries ctx)" using that sorted(2) by (metis set_mset_mset)
    then have "ss_has_max_id (sc_summary ctx)" "be_id e \<le> ss_max_id (sc_summary ctx)"
      using ctx by (auto simp: max_ok_def)
    then show ?thesis using next_id_above(3) [OF next_id] by (metis order_le_less_trans)
  qed
  then show ?thesis
    unfolding scan_complete_def
    using sorted(1) dist set len w done_ s c next_id_above(1,2) [OF next_id]
    by (intro exI [of _ ?order] exI [of _ c1] exI [of _ w1])
       (simp add: notify_entries_newest_first_def)
qed

text \<open>A scan either shows the blobs to the observer or fails with the files untouched.\<close>

lemma scan_outcome:
  assumes fs: "posix_fs ops tr" and quiet: "quiet_observer tr observer"
  shows "\<exists>e s c' w'.
    storage_blob_scan_with_ops ops realloc_ok dir persisted observer c w = Some (e, s, c', w') \<and>
    (scan_complete tr dir persisted observer c w s (e, c', w') \<or>
     e \<noteq> APP_ERROR_NONE \<and> fv_node (fs_now tr w') = fv_node (fs_now tr w))"
proof (cases "dir = []")
  case True
  then show ?thesis by (simp add: storage_blob_scan_with_ops_def)
next
  case dir: False
  obtain r w1 where op: "op_open_directory ops dir w = (r, w1)" by fastforce
  note opened = open_directoryD [OF posix_fs_parts(4) [OF fs] op]
  show ?thesis
  proof (cases r)
    case None
    then show ?thesis using dir op opened(1) by (simp add: storage_blob_scan_with_ops_def)
  next
    case (Some d)
    let ?ctx0 = "\<lparr>sc_entries = [], sc_capacity = 0, sc_summary = scan_summary_zero,
                  sc_observed = c\<rparr>"
    obtain e1 ctx w2 where loop:
      "scan_directory_entries ops realloc_ok dir observer d ?ctx0 w1 = Some (e1, ctx, w2)"
      "fv_node (fs_now tr w2) = fv_node (fs_now tr w1)"
      "silent_names observer \<longrightarrow> sc_observed ctx = c"
      "e1 = APP_ERROR_NONE \<longrightarrow> max_ok ctx \<and> sc_entries ctx =
         blobs_of_listing (fv_node (fs_now tr w1)) dir (fv_listing (fs_now tr w1) d)"
      using scan_loop [OF fs quiet, of realloc_ok dir d ?ctx0 w1]
      by (auto simp: max_ok_initial)
    obtain closed w3 where cl: "op_close_directory ops d w2 = (closed, w3)" by fastforce
    note closedD = close_directoryD [OF posix_fs_parts(4) [OF fs] cl]
    let ?s = "(sc_summary ctx)\<lparr>ss_valid_count := length (sc_entries ctx)\<rparr>"
    let ?n = "storage_blob_derive_next_id persisted (ss_has_max_id (sc_summary ctx))
                (ss_max_id (sc_summary ctx))"
    show ?thesis
    proof (cases "e1 = APP_ERROR_NONE \<and> closed = None \<and> (\<exists>n. ?n = Inr n)")
      case True
      then obtain n where n: "?n = Inr n" by blast
      obtain e3 c3 w4 where nt:
        "notify_entries_newest_first observer (sc_entries ctx) (sc_observed ctx, w3) = (e3, c3, w4)"
        by (metis prod.exhaust)
      have "scan_complete tr dir persisted observer c w (?s\<lparr>ss_next_id := n\<rparr>) (e3, c3, w4)"
        using True loop opened Some closedD n nt
        by (intro scan_finish [where ctx = ctx and names = "fv_listing (fs_now tr w1) d" and
              nodes = "fv_node (fs_now tr w1)" and n = n and ?c1.0 = "sc_observed ctx" and
              ?w1.0 = w3]) auto
      then show ?thesis
        using True dir op Some loop(1) cl n nt
        by (simp add: storage_blob_scan_with_ops_def Let_def)
    next
      case False
      then show ?thesis
        using dir op Some loop(1,2) cl closedD opened(1)
        by (cases ?n) (auto simp: storage_blob_scan_with_ops_def Let_def next_id_with_max
            next_id_without_max storage_blob_derive_next_id_def split: if_splits)
    qed
  qed
qed

text \<open>
  C15: a scan of the repository always returns, and a scan that reports success has found
  exactly the blobs of the directory: the regular files whose name is a blob name.  The
  observer sees each of them once, newest first, and the next identifier is larger than that
  of every blob and not smaller than the persisted counter, so an upload never reuses one.
\<close>

theorem scan_finds_every_blob:
  assumes "posix_fs ops tr" and "quiet_observer tr observer"
  shows "\<exists>e s c' w'.
    storage_blob_scan_with_ops ops realloc_ok dir persisted observer c w = Some (e, s, c', w') \<and>
    (e = APP_ERROR_NONE \<longrightarrow> scan_complete tr dir persisted observer c w s (e, c', w'))"
  using scan_outcome [OF assms, of realloc_ok dir persisted c w] by blast

definition sample_repository :: disk_world where
  "sample_repository = disk_of
     [(''/r/00000000000000000002.gz'', Regular [1, 2, 3]),
      (''/r/00000000000000000007.gz'', Regular [4]),
      (''/r/00000000000000000008.gz.tmp'', Regular []),
      (''/r/notes'', Regular [9]), (''/r'', Directory)]"

abbreviation no_observer :: "(unit, disk_world) scan_observer option" where
  "no_observer \<equiv> None"

lemma quiet_no_observer: "quiet_observer tr None"
  by (simp add: quiet_observer_def quiet_callback_def)

lemmas scan_eval = storage_blob_scan_with_ops_def scan_directory_entries.simps
  process_directory_entry_def storage_blob_parse_filename_def
  storage_blob_parse_temporary_filename_def limit_defs is_dot_entry_def join_path_def fitted_def
  count_entry_def append_entry_def scan_summary_zero_def Let_def count_invalid_name_def
  process_temporary_def notify_invalid_name_def notify_temporary_file_def
  storage_blob_derive_next_id_def notify_entries_newest_first_def notify_entry_def
  storage_blob_sort_newest_first_def upt_rec

lemma scan_finds_every_blob_witness:
  "\<exists>s w'. storage_blob_scan_with_ops disk_ops (\<lambda>n. n \<le> 64) ''/r'' 5 no_observer ()
            sample_repository = Some (APP_ERROR_NONE, s, (), w') \<and>
          scan_complete disk_trace ''/r'' 5 no_observer () sample_repository s
            (APP_ERROR_NONE, (), w') \<and>
          ss_valid_count s = 2 \<and> ss_temporary_file_count s = 1 \<and> ss_next_id s = 8"
proof -
  have run: "map_option (\<lambda>(e, s, _). (e, ss_valid_count s, ss_temporary_file_count s, ss_next_id s))
      (storage_blob_scan_with_ops disk_ops (\<lambda>n. n \<le> 64) ''/r'' 5 no_observer ()
         sample_repository) = Some (APP_ERROR_NONE, 2, 1, 8)"
    by (simp add: scan_eval disk_eval sample_repository_def)
  show ?thesis
    using scan_finds_every_blob [OF disk_posix quiet_no_observer,
        of "\<lambda>n. n \<le> 64" "''/r''" 5 "()" sample_repository] run
    by auto
qed

section \<open>Recovery of interrupted uploads\<close>

partial_function (option) recover_loop ::
  "'w fs_ops \<Rightarrow> string \<Rightarrow> nat \<Rightarrow> nat \<Rightarrow> 'w \<Rightarrow> (app_error \<times> nat \<times> 'w) option" where
  "recover_loop ops directory_path directory removed w =
     (case op_read_directory ops directory STORAGE_FS_ENTRY_NAME_MAX w of
        (Dir_Error e, w) \<Rightarrow> Some (APP_ERROR_IO, removed, w)
      | (Dir_End, w) \<Rightarrow> Some (APP_ERROR_NONE, removed, w)
      | (Dir_Name name, w) \<Rightarrow>
          if is_dot_entry name \<or> storage_blob_parse_temporary_filename name = None
          then recover_loop ops directory_path directory removed w
          else (case join_path directory_path name of
              Inl e \<Rightarrow> Some (e, removed, w)
            | Inr path \<Rightarrow>
                (case op_stat_path ops path w of
                   (Inl e, w) \<Rightarrow> Some (APP_ERROR_IO, removed, w)
                 | (Inr metadata, w) \<Rightarrow>
                     if \<not> st_is_reg metadata
                     then recover_loop ops directory_path directory removed w
                     else (case op_unlink_path ops path w of
                         (Some e, w) \<Rightarrow> Some (APP_ERROR_IO, removed, w)
                       | (None, w) \<Rightarrow>
                           recover_loop ops directory_path directory (removed + 1) w))))"

declare recover_loop.simps [code]

definition storage_blob_recover_with_ops ::
  "'w fs_ops \<Rightarrow> string \<Rightarrow> 'w \<Rightarrow> (app_error \<times> nat \<times> 'w) option" where
  "storage_blob_recover_with_ops ops directory_path w =
     (if directory_path = [] then Some (APP_ERROR_INVALID_ARGUMENT, 0, w)
      else case op_open_directory ops directory_path w of
        (None, w) \<Rightarrow> Some (APP_ERROR_IO, 0, w)
      | (Some directory, w) \<Rightarrow>
          (case recover_loop ops directory_path directory 0 w of
             None \<Rightarrow> None
           | Some (result, removed, w) \<Rightarrow>
               (case op_close_directory ops directory w of
                  (closed, w) \<Rightarrow>
                    Some (if closed \<noteq> None \<and> result = APP_ERROR_NONE then APP_ERROR_IO else result,
                          removed, w))))"

text \<open>The staged uploads of a directory.\<close>

definition is_staged :: "(string \<Rightarrow> fs_node option) \<Rightarrow> string \<Rightarrow> string \<Rightarrow> bool" where
  "is_staged nodes dir name \<longleftrightarrow>
     storage_blob_parse_temporary_filename name \<noteq> None \<and>
     (\<exists>bs. nodes (dir @ ''/'' @ name) = Some (Regular bs))"

definition staged_paths :: "(string \<Rightarrow> fs_node option) \<Rightarrow> string \<Rightarrow> string set" where
  "staged_paths nodes dir = {dir @ ''/'' @ name | name. is_staged nodes dir name}"

text \<open>
  The loop removes staged uploads and nothing else; when it reports success it has removed
  those of the rest of the listing.
\<close>

definition recovered ::
  "(string \<Rightarrow> fs_node option) \<Rightarrow> string \<Rightarrow> string list \<Rightarrow> app_error \<Rightarrow>
     (string \<Rightarrow> fs_node option) \<Rightarrow> bool" where
  "recovered nodes dir names e nodes' \<longleftrightarrow>
     (\<forall>p. nodes' p = nodes p \<or>
        nodes' p = None \<and> (\<exists>n \<in> set names. p = dir @ ''/'' @ n \<and> is_staged nodes dir n)) \<and>
     (e = APP_ERROR_NONE \<longrightarrow>
        (\<forall>n \<in> set names. is_staged nodes dir n \<longrightarrow> nodes' (dir @ ''/'' @ n) = None))"

lemma recovered_skip:
  "recovered nodes dir names e nodes' \<Longrightarrow> \<not> is_staged nodes dir name \<Longrightarrow>
     recovered nodes dir (name # names) e nodes'"
  by (auto simp: recovered_def)

lemma recovered_stop: "e \<noteq> APP_ERROR_NONE \<Longrightarrow> recovered nodes dir names e nodes"
  by (simp add: recovered_def)

lemma recovered_remove:
  assumes rec: "recovered (nodes(dir @ ''/'' @ name := None)) dir names e nodes'"
    and staged: "is_staged nodes dir name"
  shows "recovered nodes dir (name # names) e nodes'"
proof -
  let ?p = "dir @ ''/'' @ name"
  have sub: "is_staged (nodes(?p := None)) dir n \<longleftrightarrow> n \<noteq> name \<and> is_staged nodes dir n" for n
    by (auto simp: is_staged_def)
  have gone: "nodes' ?p = None"
    using rec unfolding recovered_def by (metis fun_upd_same)
  have "nodes' p = nodes p \<or>
      nodes' p = None \<and> (\<exists>n \<in> set (name # names). p = dir @ ''/'' @ n \<and> is_staged nodes dir n)" for p
  proof (cases "p = ?p")
    case True
    then show ?thesis using gone staged by auto
  next
    case False
    then show ?thesis using rec unfolding recovered_def sub by (metis fun_upd_other list.set_intros(2))
  qed
  moreover have "nodes' (dir @ ''/'' @ n) = None"
    if "e = APP_ERROR_NONE" "n \<in> set (name # names)" "is_staged nodes dir n" for n
    using rec gone that unfolding recovered_def sub by (cases "n = name") auto
  ultimately show ?thesis unfolding recovered_def by blast
qed

lemma dot_not_temporary: "is_dot_entry n \<Longrightarrow> storage_blob_parse_temporary_filename n = None"
  by (auto simp: is_dot_entry_def storage_blob_parse_temporary_filename_def
      STORAGE_BLOB_TEMP_FILENAME_LENGTH_def)

lemma dot_not_staged: "is_dot_entry n \<Longrightarrow> \<not> is_staged nodes dir n"
  by (simp add: is_staged_def dot_not_temporary)

lemma recover_loop_step:
  assumes fs: "posix_fs ops tr"
    and rd: "op_read_directory ops d STORAGE_FS_ENTRY_NAME_MAX w = (Dir_Name name, w1)"
    and name: "\<not> is_dot_entry name" "storage_blob_parse_temporary_filename name \<noteq> None"
  shows "(\<exists>e w'. recover_loop ops dir d removed w = Some (e, removed, w') \<and> e \<noteq> APP_ERROR_NONE \<and>
           fs_now tr w' = fs_now tr w1) \<or>
    (\<exists>w'. recover_loop ops dir d removed w = recover_loop ops dir d removed w' \<and>
           \<not> is_staged (fv_node (fs_now tr w1)) dir name \<and> fs_now tr w' = fs_now tr w1) \<or>
    (\<exists>w'. recover_loop ops dir d removed w = recover_loop ops dir d (removed + 1) w' \<and>
           is_staged (fv_node (fs_now tr w1)) dir name \<and>
           fs_now tr w' = (fs_now tr w1)\<lparr>fv_node :=
             (fv_node (fs_now tr w1))(dir @ ''/'' @ name := None)\<rparr>)"
proof (cases "join_path dir name")
  case (Inl e)
  then show ?thesis using rd name join_path_Inl_not_none [OF Inl]
    by (subst (1) recover_loop.simps) auto
next
  case (Inr path)
  then have path: "path = dir @ ''/'' @ name" by (simp add: join_path_Inr_iff)
  obtain r w2 where st: "op_stat_path ops path w1 = (r, w2)" by fastforce
  note stat = stat_lawD [OF posix_fs_parts(1) [OF fs] st]
  show ?thesis
  proof (cases r)
    case (Inl e)
    then show ?thesis using rd name Inr st stat(1)
      by (subst (1) recover_loop.simps) auto
  next
    case r: (Inr metadata)
    obtain node where node: "fv_node (fs_now tr w1) path = Some node" "stat_of node metadata"
      using stat(2) [OF r] by blast
    show ?thesis
    proof (cases "st_is_reg metadata")
      case False
      then have "\<not> is_staged (fv_node (fs_now tr w1)) dir name"
        using node path by (auto simp: is_staged_def stat_of_def)
      then show ?thesis using rd name Inr st r False stat(1)
        by (subst (1) recover_loop.simps) auto
    next
      case True
      then have staged: "is_staged (fv_node (fs_now tr w1)) dir name"
        using node path name by (cases node) (auto simp: is_staged_def stat_of_def)
      obtain u w3 where ul: "op_unlink_path ops path w2 = (u, w3)" by fastforce
      note unlink = unlink_lawD [OF posix_fs_parts(2) [OF fs] ul]
      show ?thesis
      proof (cases u)
        case None
        then show ?thesis using rd name Inr st r True ul staged unlink(1) stat(1) path
          by (subst (1) recover_loop.simps) auto
      next
        case (Some e)
        then have "fs_now tr w3 = fs_now tr w1" using unlink(2) stat(1) by simp
        then show ?thesis using rd name Inr st r True ul Some
          by (subst (1) recover_loop.simps) auto
      qed
    qed
  qed
qed

lemma recover_loop_spec:
  assumes fs: "posix_fs ops tr"
  shows "\<exists>e n w'. recover_loop ops dir d removed w = Some (e, n, w') \<and>
    recovered (fv_node (fs_now tr w)) dir (fv_listing (fs_now tr w) d) e (fv_node (fs_now tr w'))"
proof (induction "fv_listing (fs_now tr w) d" arbitrary: removed w)
  case Nil
  obtain r w1 where rd: "op_read_directory ops d STORAGE_FS_ENTRY_NAME_MAX w = (r, w1)"
    by fastforce
  note read = read_directoryD [OF posix_fs_parts(4) [OF fs] rd]
  have "recover_loop ops dir d removed w =
      Some (if r = Dir_End then APP_ERROR_NONE else APP_ERROR_IO, removed, w1)"
    using rd read(2) Nil by (subst recover_loop.simps) (cases r, auto)
  then show ?case using read(1) Nil by (auto simp: recovered_def)
next
  case (Cons name names)
  obtain r w1 where rd: "op_read_directory ops d STORAGE_FS_ENTRY_NAME_MAX w = (r, w1)"
    by fastforce
  note read = read_directoryD [OF posix_fs_parts(4) [OF fs] rd]
  show ?case
  proof (cases r)
    case (Dir_Error x)
    then show ?thesis using rd read(1) by (subst recover_loop.simps) (auto simp: recovered_stop)
  next
    case Dir_End
    then show ?thesis using read(3) Cons.hyps(2) by auto
  next
    case (Dir_Name s)
    then have s: "s = name" "names = fv_listing (fs_now tr w1) d"
      using read(2) Cons.hyps(2) by auto
    note rd' = rd [unfolded Dir_Name s(1)]
    consider (skip) w' where
        "recover_loop ops dir d removed w = recover_loop ops dir d removed w'"
        "\<not> is_staged (fv_node (fs_now tr w1)) dir name" "fs_now tr w' = fs_now tr w1"
      | (stop) e w' where
        "recover_loop ops dir d removed w = Some (e, removed, w')" "e \<noteq> APP_ERROR_NONE"
        "fs_now tr w' = fs_now tr w1"
      | (remove) w' where
        "recover_loop ops dir d removed w = recover_loop ops dir d (removed + 1) w'"
        "is_staged (fv_node (fs_now tr w1)) dir name"
        "fs_now tr w' = (fs_now tr w1)\<lparr>fv_node :=
           (fv_node (fs_now tr w1))(dir @ ''/'' @ name := None)\<rparr>"
    proof (cases "is_dot_entry name \<or> storage_blob_parse_temporary_filename name = None")
      case True
      then have "recover_loop ops dir d removed w = recover_loop ops dir d removed w1"
        using rd' by (subst recover_loop.simps) simp
      moreover have "\<not> is_staged (fv_node (fs_now tr w1)) dir name"
        using True dot_not_temporary by (auto simp: is_staged_def)
      ultimately show thesis using that(1) by blast
    next
      case False
      then show thesis using recover_loop_step [OF fs rd', of dir removed] that by blast
    qed
    then show ?thesis
    proof cases
      case skip
      then show ?thesis using Cons.hyps(1) [of w' removed] s read(1)
        by (auto simp: recovered_skip simp flip: Cons.hyps(2))
    next
      case stop
      then show ?thesis using read(1) by (auto simp: recovered_stop)
    next
      case remove
      have "names = fv_listing (fs_now tr w') d" using s remove(3) by simp
      from Cons.hyps(1) [OF this, of "removed + 1"] show ?thesis
        using remove read(1) s by (auto simp flip: Cons.hyps(2) intro!: recovered_remove)
    qed
  qed
qed

lemma staged_in_names_of:
  assumes "is_staged nodes dir n" shows "n \<in> names_of nodes dir"
proof -
  obtain x where n: "n = temporary_name x"
    using assms temporary_codec.name_parse by (auto simp: is_staged_def)
  have "CHR ''/'' \<notin> set n" using blob_name_no_slash by (simp add: n temporary_name_blob_name)
  moreover have "n \<noteq> []" by (simp add: n temporary_name_def)
  ultimately show ?thesis
    using assms dot_not_staged [of n] by (auto simp: names_of_def is_staged_def)
qed

text \<open>
  the recovery at startup always returns.  It removes no file except staged uploads, so
  every blob survives it, and when it reports success no staged upload of the directory is
  left.
\<close>

theorem recovery_removes_only_staged:
  assumes fs: "posix_fs ops tr" and dir: "dir \<noteq> []"
  shows "\<exists>e n w'. storage_blob_recover_with_ops ops dir w = Some (e, n, w') \<and>
    (\<forall>p. fv_node (fs_now tr w') p = fv_node (fs_now tr w) p \<or>
         p \<in> staged_paths (fv_node (fs_now tr w)) dir \<and> fv_node (fs_now tr w') p = None) \<and>
    is_blob (fv_node (fs_now tr w')) dir = is_blob (fv_node (fs_now tr w)) dir \<and>
    (e = APP_ERROR_NONE \<longrightarrow> staged_paths (fv_node (fs_now tr w')) dir = {})"
proof -
  let ?nodes = "fv_node (fs_now tr w)"
  have kept_blobs: "is_blob nodes' dir = is_blob ?nodes dir"
    if "\<forall>p. nodes' p = ?nodes p \<or> p \<in> staged_paths ?nodes dir \<and> nodes' p = None" for nodes'
  proof -
    have "dir @ ''/'' @ blob_name x \<notin> staged_paths ?nodes dir" if "x \<noteq> 0" for x
      using that temporary_not_blob blob_codec.parse_name
      by (fastforce simp: staged_paths_def is_staged_def)
    then show ?thesis using that by (intro ext) (metis is_blob_def)
  qed
  obtain r w1 where op: "op_open_directory ops dir w = (r, w1)" by fastforce
  note opened = open_directoryD [OF posix_fs_parts(4) [OF fs] op]
  show ?thesis
  proof (cases r)
    case None
    then show ?thesis using dir op opened(1) by (simp add: storage_blob_recover_with_ops_def)
  next
    case (Some d)
    obtain e n w2 where loop: "recover_loop ops dir d 0 w1 = Some (e, n, w2)"
      "recovered (fv_node (fs_now tr w1)) dir (fv_listing (fs_now tr w1) d) e (fv_node (fs_now tr w2))"
      using recover_loop_spec [OF fs] by blast
    obtain closed w3 where cl: "op_close_directory ops d w2 = (closed, w3)" by fastforce
    have same: "fv_node (fs_now tr w3) = fv_node (fs_now tr w2)"
      by (rule close_directoryD [OF posix_fs_parts(4) [OF fs] cl])
    note rec = loop(2) [unfolded opened(1), folded same]
    have only: "\<forall>p. fv_node (fs_now tr w3) p = ?nodes p \<or>
        p \<in> staged_paths ?nodes dir \<and> fv_node (fs_now tr w3) p = None"
      using rec unfolding recovered_def staged_paths_def by blast
    have "staged_paths (fv_node (fs_now tr w3)) dir = {}" if "e = APP_ERROR_NONE"
    proof -
      have "\<not> is_staged (fv_node (fs_now tr w3)) dir m" for m
      proof
        assume m: "is_staged (fv_node (fs_now tr w3)) dir m"
        then have "is_staged ?nodes dir m" using only unfolding is_staged_def by (metis option.simps(3))
        moreover from this have "m \<in> set (fv_listing (fs_now tr w1) d)"
          using opened(3) [OF Some] staged_in_names_of by blast
        ultimately have "fv_node (fs_now tr w3) (dir @ ''/'' @ m) = None"
          using rec that unfolding recovered_def by blast
        then show False using m by (simp add: is_staged_def)
      qed
      then show ?thesis by (simp add: staged_paths_def)
    qed
    then show ?thesis
      using dir op Some loop(1) cl only kept_blobs [OF only]
      by (auto simp: storage_blob_recover_with_ops_def)
  qed
qed

lemma recovery_removes_only_staged_witness:
  "\<exists>w'. storage_blob_recover_with_ops disk_ops ''/r'' sample_repository =
          Some (APP_ERROR_NONE, 1, w') \<and>
        staged_paths (fv_node (fs_now disk_trace w')) ''/r'' = {}"
proof -
  have run: "map_option (\<lambda>(e, n, _). (e, n))
      (storage_blob_recover_with_ops disk_ops ''/r'' sample_repository) =
    Some (APP_ERROR_NONE, 1)"
    by (simp add: storage_blob_recover_with_ops_def recover_loop.simps scan_eval disk_eval
        sample_repository_def)
  show ?thesis
    using recovery_removes_only_staged [OF disk_posix, of "''/r''" sample_repository] run by auto
qed

end
