(* ===== verification/Storage_Access.thy ===== *)
theory Storage_Access
  imports Storage_Repository
begin

text \<open>
  Reading and deleting blobs (\<open>storage/storage_blob_access_core.c\<close>), and the module state of
  the repository (\<open>storage/storage_blob.c\<close>, the startup sequence of
  \<open>storage/storage_mount_topology.c\<close>).  The persisted counter (NVS) and the synchronisation of
  the parent directory are parameters: \<open>read_persisted\<close> and \<open>sync_parent\<close>.
\<close>

section \<open>Paths and metadata\<close>

definition path_error :: "errno \<Rightarrow> app_error" where
  "path_error e = (if e = ENOENT then APP_ERROR_NOT_FOUND else APP_ERROR_IO)"

definition build_blob_path :: "string \<Rightarrow> u64 \<Rightarrow> app_error + string" where
  "build_blob_path directory_path blob_id =
     (if directory_path = [] \<or> blob_id = 0 then Inl APP_ERROR_INVALID_ARGUMENT
      else case storage_blob_format_filename blob_id STORAGE_BLOB_FILENAME_CAPACITY of
        Inl e \<Rightarrow> Inl e
      | Inr filename \<Rightarrow>
          (case fitted (STORAGE_FS_ENTRY_NAME_MAX * 2) (directory_path @ ''/'' @ filename) of
             None \<Rightarrow> Inl APP_ERROR_INVALID_ARGUMENT
           | Some path \<Rightarrow> Inr path))"

definition stat_regular_blob :: "'w fs_ops \<Rightarrow> string \<Rightarrow> 'w \<Rightarrow> (app_error + nat) \<times> 'w" where
  "stat_regular_blob ops path w =
     (case op_stat_path ops path w of
        (Inl e, w) \<Rightarrow> (Inl (path_error e), w)
      | (Inr metadata, w) \<Rightarrow>
          (if \<not> st_is_reg metadata \<or> st_size metadata < 0 \<or> int SIZE_MAX < st_size metadata
           then Inl APP_ERROR_STORAGE_CORRUPT
           else Inr (nat (st_size metadata)), w))"

section \<open>Reading\<close>

record blob_reader =
  rd_descriptor :: int
  rd_has_operations :: bool
  rd_stored_bytes :: nat
  rd_bytes_read :: nat
  rd_active :: bool

definition blob_reader_none :: blob_reader where
  "blob_reader_none = \<lparr>rd_descriptor = - 1, rd_has_operations = False, rd_stored_bytes = 0,
     rd_bytes_read = 0, rd_active = False\<rparr>"

definition storage_blob_reader_open_with_ops ::
  "'w fs_ops \<Rightarrow> string \<Rightarrow> u64 \<Rightarrow> 'w \<Rightarrow> app_error \<times> blob_reader \<times> 'w" where
  "storage_blob_reader_open_with_ops ops directory_path blob_id w =
     (case build_blob_path directory_path blob_id of
        Inl e \<Rightarrow> (e, blob_reader_none, w)
      | Inr path \<Rightarrow>
          (case stat_regular_blob ops path w of
             (Inl e, w) \<Rightarrow> (e, blob_reader_none, w)
           | (Inr stored_bytes, w) \<Rightarrow>
               (case op_open_file ops path O_RDONLY w of
                  (Inl e, w) \<Rightarrow> (path_error e, blob_reader_none, w)
                | (Inr descriptor, w) \<Rightarrow>
                    (APP_ERROR_NONE,
                     \<lparr>rd_descriptor = int descriptor, rd_has_operations = True,
                      rd_stored_bytes = stored_bytes, rd_bytes_read = 0, rd_active = True\<rparr>, w))))"

text \<open>The result of a read: the error, the bytes put into the buffer and the end-of-file flag.\<close>

definition storage_blob_reader_read_with_ops ::
  "'w fs_ops \<Rightarrow> blob_reader \<Rightarrow> nat \<Rightarrow> 'w \<Rightarrow> (app_error \<times> u8 list \<times> bool) \<times> blob_reader \<times> 'w" where
  "storage_blob_reader_read_with_ops ops reader buffer_size w =
     (if buffer_size = 0 \<or> \<not> rd_active reader \<or> rd_descriptor reader < 0 \<or>
         \<not> rd_has_operations reader \<or> rd_stored_bytes reader < rd_bytes_read reader
      then ((APP_ERROR_INVALID_ARGUMENT, [], False), reader, w)
      else if rd_bytes_read reader = rd_stored_bytes reader
      then ((APP_ERROR_NONE, [], True), reader, w)
      else let requested = min (rd_stored_bytes reader - rd_bytes_read reader) buffer_size
           in (case op_read_file ops (nat (rd_descriptor reader)) requested w of
                 (Inl e, w) \<Rightarrow> ((APP_ERROR_IO, [], False), reader, w)
               | (Inr data, w) \<Rightarrow>
                   if data = [] \<or> requested < length data
                   then ((APP_ERROR_STORAGE_CORRUPT, [], False), reader, w)
                   else let reader = reader\<lparr>rd_bytes_read := rd_bytes_read reader + length data\<rparr>
                        in ((APP_ERROR_NONE, data,
                             rd_bytes_read reader = rd_stored_bytes reader), reader, w)))"

definition storage_blob_reader_close_with_ops ::
  "'w fs_ops \<Rightarrow> blob_reader \<Rightarrow> 'w \<Rightarrow> app_error \<times> blob_reader \<times> 'w" where
  "storage_blob_reader_close_with_ops ops reader w =
     (if \<not> rd_active reader \<or> rd_descriptor reader < 0 \<or> \<not> rd_has_operations reader
      then (APP_ERROR_INVALID_ARGUMENT, reader, w)
      else (case op_close_file ops (nat (rd_descriptor reader)) w of
          (closed, w) \<Rightarrow>
            (if closed = None then APP_ERROR_NONE else APP_ERROR_IO,
             reader\<lparr>rd_descriptor := - 1, rd_has_operations := False, rd_active := False\<rparr>, w)))"

section \<open>Deleting\<close>

definition storage_blob_delete_with_ops ::
  "'w fs_ops \<Rightarrow> string \<Rightarrow> u64 \<Rightarrow> 'w \<Rightarrow> app_error \<times> 'w" where
  "storage_blob_delete_with_ops ops directory_path blob_id w =
     (case build_blob_path directory_path blob_id of
        Inl e \<Rightarrow> (e, w)
      | Inr path \<Rightarrow>
          (case stat_regular_blob ops path w of
             (Inl e, w) \<Rightarrow> (e, w)
           | (Inr stored_bytes, w) \<Rightarrow>
               (case op_unlink_path ops path w of
                  (Some e, w) \<Rightarrow> (path_error e, w)
                | (None, w) \<Rightarrow> (APP_ERROR_NONE, w))))"

record delete_all_state =
  da_first_error :: app_error
  da_deleted_count :: nat

definition delete_all_visit_entry ::
  "'w fs_ops \<Rightarrow> string \<Rightarrow> blob_entry \<Rightarrow> delete_all_state \<times> 'w \<Rightarrow>
     app_error \<times> delete_all_state \<times> 'w" where
  "delete_all_visit_entry ops directory_path entry sw =
     (case sw of (st, w) \<Rightarrow>
        (case storage_blob_delete_with_ops ops directory_path (be_id entry) w of
           (result, w) \<Rightarrow>
             (APP_ERROR_NONE,
              if result = APP_ERROR_NONE
              then st\<lparr>da_deleted_count := da_deleted_count st + 1\<rparr>
              else if da_first_error st = APP_ERROR_NONE then st\<lparr>da_first_error := result\<rparr>
              else st, w)))"

definition delete_all_observer :: "'w fs_ops \<Rightarrow> string \<Rightarrow> (delete_all_state, 'w) scan_observer" where
  "delete_all_observer ops directory_path =
     \<lparr>visit_entry = Some (delete_all_visit_entry ops directory_path),
      visit_invalid_name = None, visit_temporary_file = None\<rparr>"

definition storage_blob_delete_all_with_ops ::
  "'w fs_ops \<Rightarrow> (nat \<Rightarrow> bool) \<Rightarrow> string \<Rightarrow> 'w \<Rightarrow> (app_error \<times> nat \<times> 'w) option" where
  "storage_blob_delete_all_with_ops ops realloc_ok directory_path w =
     (case storage_blob_scan_with_ops ops realloc_ok directory_path 0
             (Some (delete_all_observer ops directory_path))
             \<lparr>da_first_error = APP_ERROR_NONE, da_deleted_count = 0\<rparr> w of
        None \<Rightarrow> None
      | Some (scan_result, summary, st, w) \<Rightarrow>
          Some (if scan_result \<noteq> APP_ERROR_NONE then scan_result else da_first_error st,
                da_deleted_count st, w))"

section \<open>The module state\<close>

definition STORAGE_BLOB_DIRECTORY :: string where
  "STORAGE_BLOB_DIRECTORY = ''/data/repository''"

definition STORAGE_BLOB_DIAGNOSTIC_INVALID_NAME_MAX :: nat where
  [limit_defs]: "STORAGE_BLOB_DIAGNOSTIC_INVALID_NAME_MAX = 8"

definition STORAGE_BLOB_DIAGNOSTIC_NAME_CAPACITY :: nat where
  [limit_defs]: "STORAGE_BLOB_DIAGNOSTIC_NAME_CAPACITY = 256"

text \<open>The reported names stand for the two arrays and their counts.\<close>

record blob_diagnostics =
  dg_summary :: scan_summary
  dg_invalid_names :: "string list"
  dg_invalid_names_truncated :: bool
  dg_temporary_files :: "string list"
  dg_temporary_files_truncated :: bool

definition capture_temporary_file ::
  "string \<Rightarrow> blob_diagnostics \<times> 'w \<Rightarrow> app_error \<times> blob_diagnostics \<times> 'w" where
  "capture_temporary_file name dw =
     (case dw of (diagnostics, w) \<Rightarrow>
        if STORAGE_BLOB_DIAGNOSTIC_INVALID_NAME_MAX \<le> length (dg_temporary_files diagnostics)
        then (APP_ERROR_NONE, diagnostics\<lparr>dg_temporary_files_truncated := True\<rparr>, w)
        else if STORAGE_BLOB_DIAGNOSTIC_NAME_CAPACITY \<le> length name
        then (APP_ERROR_STORAGE_CORRUPT, diagnostics, w)
        else (APP_ERROR_NONE,
              diagnostics\<lparr>dg_temporary_files := dg_temporary_files diagnostics @ [name]\<rparr>, w))"

definition capture_invalid_name ::
  "string \<Rightarrow> blob_diagnostics \<times> 'w \<Rightarrow> app_error \<times> blob_diagnostics \<times> 'w" where
  "capture_invalid_name name dw =
     (case dw of (diagnostics, w) \<Rightarrow>
        if STORAGE_BLOB_DIAGNOSTIC_INVALID_NAME_MAX \<le> length (dg_invalid_names diagnostics)
        then (APP_ERROR_NONE, diagnostics\<lparr>dg_invalid_names_truncated := True\<rparr>, w)
        else if STORAGE_BLOB_DIAGNOSTIC_NAME_CAPACITY \<le> length name
        then (APP_ERROR_STORAGE_CORRUPT, diagnostics, w)
        else (APP_ERROR_NONE,
              diagnostics\<lparr>dg_invalid_names := dg_invalid_names diagnostics @ [name]\<rparr>, w))"

definition storage_blob_scan_startup ::
  "'w fs_ops \<Rightarrow> (nat \<Rightarrow> bool) \<Rightarrow> u64 \<Rightarrow> 'w \<Rightarrow> (app_error \<times> scan_summary \<times> 'w) option" where
  "storage_blob_scan_startup ops realloc_ok persisted_next_id w =
     (case storage_blob_scan_with_ops ops realloc_ok STORAGE_BLOB_DIRECTORY persisted_next_id
             (None :: (unit, 'w) scan_observer option) () w of
        None \<Rightarrow> None
      | Some (result, summary, _, w) \<Rightarrow>
          if result \<noteq> APP_ERROR_NONE then Some (result, scan_summary_zero, w)
          else Some (APP_ERROR_NONE, summary, w))"

text \<open>Listing: the error, the summary for the caller, the new module state.\<close>

definition storage_blob_list ::
  "'w fs_ops \<Rightarrow> (nat \<Rightarrow> bool) \<Rightarrow> ('c, 'w) scan_observer option \<Rightarrow> scan_summary \<Rightarrow> 'c \<Rightarrow> 'w \<Rightarrow>
     (app_error \<times> scan_summary \<times> scan_summary \<times> 'c \<times> 'w) option" where
  "storage_blob_list ops realloc_ok observer scan_state c w =
     (case storage_blob_scan_with_ops ops realloc_ok STORAGE_BLOB_DIRECTORY
             (ss_next_id scan_state) observer c w of
        None \<Rightarrow> None
      | Some (result, summary, c, w) \<Rightarrow>
          if result \<noteq> APP_ERROR_NONE then Some (result, scan_summary_zero, scan_state, c, w)
          else Some (APP_ERROR_NONE, summary, summary, c, w))"

definition storage_blob_collect_diagnostics ::
  "'w fs_ops \<Rightarrow> (nat \<Rightarrow> bool) \<Rightarrow> scan_summary \<Rightarrow> 'w \<Rightarrow>
     (app_error \<times> blob_diagnostics \<times> 'w) option" where
  "storage_blob_collect_diagnostics ops realloc_ok scan_state w =
     (let diagnostics = \<lparr>dg_summary = scan_summary_zero, dg_invalid_names = [],
            dg_invalid_names_truncated = False, dg_temporary_files = [],
            dg_temporary_files_truncated = False\<rparr>;
          observer = \<lparr>visit_entry = None, visit_invalid_name = Some capture_invalid_name,
            visit_temporary_file = Some capture_temporary_file\<rparr>
      in case storage_blob_scan_with_ops ops realloc_ok STORAGE_BLOB_DIRECTORY
                (ss_next_id scan_state) (Some observer) diagnostics w of
           None \<Rightarrow> None
         | Some (result, summary, diagnostics, w) \<Rightarrow>
             Some (result, diagnostics\<lparr>dg_summary := summary\<rparr>, w))"

definition storage_blob_record_committed_entry :: "blob_entry \<Rightarrow> scan_summary \<Rightarrow> scan_summary" where
  "storage_blob_record_committed_entry entry scan_state =
     (if be_id entry = 0 \<or> be_id entry = - 1 then scan_state
      else let s = scan_state\<lparr>ss_valid_count := ss_valid_count scan_state + 1\<rparr>;
               s = (if \<not> ss_has_max_id s \<or> ss_max_id s < be_id entry
                    then s\<lparr>ss_has_max_id := True, ss_max_id := be_id entry\<rparr> else s)
           in s\<lparr>ss_next_id := be_id entry + 1\<rparr>)"

definition storage_blob_record_deleted_entry :: "scan_summary \<Rightarrow> scan_summary" where
  "storage_blob_record_deleted_entry scan_state =
     (if 0 < ss_valid_count scan_state
      then scan_state\<lparr>ss_valid_count := ss_valid_count scan_state - 1\<rparr> else scan_state)"

definition storage_blob_delete_all ::
  "'w fs_ops \<Rightarrow> (string \<Rightarrow> 'w \<Rightarrow> errno option \<times> 'w) \<Rightarrow> (nat \<Rightarrow> bool) \<Rightarrow> scan_summary \<Rightarrow> 'w \<Rightarrow>
     (app_error \<times> nat \<times> scan_summary \<times> 'w) option" where
  "storage_blob_delete_all ops sync_parent realloc_ok scan_state w =
     (case storage_blob_delete_all_with_ops ops realloc_ok STORAGE_BLOB_DIRECTORY w of
        None \<Rightarrow> None
      | Some (result, deleted_count, w) \<Rightarrow>
          let scan_state = (storage_blob_record_deleted_entry ^^ deleted_count) scan_state
          in if 0 < deleted_count
             then (case sync_parent (STORAGE_BLOB_DIRECTORY @ ''/.'') w of
                 (synced, w) \<Rightarrow>
                   Some (if synced \<noteq> None \<and> result = APP_ERROR_NONE then APP_ERROR_IO else result,
                         deleted_count, scan_state, w))
             else Some (result, deleted_count, scan_state, w))"

definition storage_blob_recover_startup ::
  "'w fs_ops \<Rightarrow> (string \<Rightarrow> 'w \<Rightarrow> errno option \<times> 'w) \<Rightarrow> 'w \<Rightarrow> (app_error \<times> 'w) option" where
  "storage_blob_recover_startup ops sync_parent w =
     (case storage_blob_recover_with_ops ops STORAGE_BLOB_DIRECTORY w of
        None \<Rightarrow> None
      | Some (result, removed, w) \<Rightarrow>
          if result \<noteq> APP_ERROR_NONE then Some (result, w)
          else if 0 < removed
          then (case sync_parent (STORAGE_BLOB_DIRECTORY @ ''/.'') w of
              (synced, w) \<Rightarrow> Some (if synced \<noteq> None then APP_ERROR_IO else APP_ERROR_NONE, w))
          else Some (APP_ERROR_NONE, w))"

definition storage_prepare_directories ::
  "'w fs_ops \<Rightarrow> (string \<Rightarrow> 'w \<Rightarrow> errno option \<times> 'w) \<Rightarrow> ('w \<Rightarrow> (app_error + u64) \<times> 'w) \<Rightarrow>
     (nat \<Rightarrow> bool) \<Rightarrow> scan_summary \<Rightarrow> 'w \<Rightarrow> (app_error \<times> scan_summary \<times> 'w) option" where
  "storage_prepare_directories ops sync_parent read_persisted realloc_ok scan_state w =
     (case storage_blob_prepare_directory_with_ops ops STORAGE_BLOB_DIRECTORY w of
        (prepared, w) \<Rightarrow>
          if prepared \<noteq> APP_ERROR_NONE then Some (prepared, scan_state, w)
          else (case storage_blob_recover_startup ops sync_parent w of
              None \<Rightarrow> None
            | Some (recovery_result, w) \<Rightarrow>
                if recovery_result \<noteq> APP_ERROR_NONE then Some (recovery_result, scan_state, w)
                else (case read_persisted w of
                    (Inl counter_result, w) \<Rightarrow> Some (counter_result, scan_state, w)
                  | (Inr persisted_next_id, w) \<Rightarrow>
                      storage_blob_scan_startup ops realloc_ok persisted_next_id w)))"

section \<open>Reading delivers the blob\<close>

text \<open>
  A reader of the file at \<open>path\<close>: its descriptor is open for reading at the position it has
  counted, and it expects the length of the file.
\<close>

definition reader_of ::
  "('w \<Rightarrow> fs_view list) \<Rightarrow> string \<Rightarrow> u8 list \<Rightarrow> blob_reader \<Rightarrow> 'w \<Rightarrow> bool" where
  "reader_of tr path file reader w \<longleftrightarrow>
     rd_active reader \<and> 0 \<le> rd_descriptor reader \<and> rd_has_operations reader \<and>
     rd_stored_bytes reader = length file \<and> rd_bytes_read reader \<le> length file \<and>
     fv_node (fs_now tr w) path = Some (Regular file) \<and>
     fv_open (fs_now tr w) (nat (rd_descriptor reader)) =
       Some (path, O_RDONLY, rd_bytes_read reader)"

lemma build_blob_path_Inr_iff:
  "build_blob_path dir x = Inr path \<longleftrightarrow>
     dir \<noteq> [] \<and> x \<noteq> 0 \<and> path = dir @ ''/'' @ blob_name x \<and>
     length path < STORAGE_FS_ENTRY_NAME_MAX * 2"
  by (auto simp: build_blob_path_def fitted_def format_filename_ok)

lemma path_error_not_none [simp]: "path_error e \<noteq> APP_ERROR_NONE"
  by (simp add: path_error_def)

lemma stat_regular_blobD:
  assumes "posix_fs ops tr" and "stat_regular_blob ops path w = (r, w')"
  shows "fs_now tr w' = fs_now tr w"
    and "r = Inr n \<Longrightarrow>
      \<exists>file. fv_node (fs_now tr w) path = Some (Regular file) \<and> n = length file"
    and "r = Inl e \<Longrightarrow> e \<noteq> APP_ERROR_NONE"
    and "r = Inl e \<Longrightarrow> fv_node (fs_now tr w) path = Some (Regular file) \<Longrightarrow>
      length file \<le> SIZE_MAX \<Longrightarrow> e = APP_ERROR_IO"
proof -
  obtain s w1 where st: "op_stat_path ops path w = (s, w1)" by fastforce
  note stat = stat_lawD [OF posix_fs_parts(1) [OF assms(1)] st]
  have w': "w' = w1" using assms(2) st by (auto simp: stat_regular_blob_def split: sum.splits)
  show "fs_now tr w' = fs_now tr w" using stat(1) w' by simp
  show "r = Inl e \<Longrightarrow> e \<noteq> APP_ERROR_NONE"
    using assms(2) st by (auto simp: stat_regular_blob_def split: sum.splits if_splits)
  show "\<exists>file. fv_node (fs_now tr w) path = Some (Regular file) \<and> n = length file" if r: "r = Inr n"
  proof -
    obtain metadata where md: "s = Inr metadata" "st_is_reg metadata" "n = nat (st_size metadata)"
      using assms(2) st r by (auto simp: stat_regular_blob_def split: sum.splits if_splits)
    obtain node where "fv_node (fs_now tr w) path = Some node" "stat_of node metadata"
      using stat(2) [OF md(1)] by blast
    then show ?thesis using md by (cases node) (auto simp: stat_of_def)
  qed
  show "e = APP_ERROR_IO"
    if "r = Inl e" "fv_node (fs_now tr w) path = Some (Regular file)" "length file \<le> SIZE_MAX"
  proof (cases s)
    case (Inl er)
    then have "er \<noteq> ENOENT" using stat(3) that(2) by auto
    then show ?thesis using assms(2) st that(1) Inl
      by (auto simp: stat_regular_blob_def path_error_def)
  next
    case (Inr metadata)
    then have "stat_of (Regular file) metadata" using stat(2) that(2) by fastforce
    then show ?thesis using assms(2) st that Inr
      by (auto simp: stat_regular_blob_def stat_of_def)
  qed
qed

lemma reader_openD:
  assumes fs: "posix_fs ops tr"
    and "storage_blob_reader_open_with_ops ops dir x w = (APP_ERROR_NONE, reader, w')"
  shows "\<exists>file. fv_node (fs_now tr w) (dir @ ''/'' @ blob_name x) = Some (Regular file) \<and>
    rd_bytes_read reader = 0 \<and> reader_of tr (dir @ ''/'' @ blob_name x) file reader w'"
proof -
  obtain path where path: "build_blob_path dir x = Inr path"
    using assms(2) format_filename_Inr_iff
    by (auto simp: storage_blob_reader_open_with_ops_def build_blob_path_def
        storage_blob_format_filename_def split: sum.splits if_splits option.splits)
  obtain s w1 where st: "stat_regular_blob ops path w = (s, w1)" by fastforce
  note stat = stat_regular_blobD [OF fs st]
  obtain n where n: "s = Inr n" using assms(2) path st stat(3)
    by (auto simp: storage_blob_reader_open_with_ops_def split: sum.splits)
  obtain r w2 where op: "op_open_file ops path O_RDONLY w1 = (r, w2)" by fastforce
  note opened = open_fileD [OF posix_fs_parts(5) [OF fs] op]
  obtain d where d: "r = Inr d" using assms(2) path st n op
    by (auto simp: storage_blob_reader_open_with_ops_def split: sum.splits)
  have reader: "reader = \<lparr>rd_descriptor = int d, rd_has_operations = True, rd_stored_bytes = n,
      rd_bytes_read = 0, rd_active = True\<rparr>" and w': "w' = w2"
    using assms(2) path st n op d by (simp_all add: storage_blob_reader_open_with_ops_def)
  obtain content where "fv_node (fs_now tr w) path = Some (Regular content)" "n = length content"
    using stat(2) [OF n] by blast
  then show ?thesis
    using path stat(1) opened(1,4) d reader w'
    by (auto simp: build_blob_path_Inr_iff reader_of_def)
qed

text \<open>One read: the next bytes of the file, at least one while some are left, or an error.\<close>

lemma reader_readD:
  assumes fs: "posix_fs ops tr" and reader: "reader_of tr path file reader w" and "0 < n"
    and run: "storage_blob_reader_read_with_ops ops reader n w = ((e, data, eof), reader', w')"
  shows "fv_node (fs_now tr w') = fv_node (fs_now tr w)"
    and "e \<noteq> APP_ERROR_NONE \<Longrightarrow> data = [] \<and> \<not> eof \<and> reader' = reader"
    and "e = APP_ERROR_NONE \<Longrightarrow>
      reader_of tr path file reader' w' \<and> length data \<le> n \<and>
      data = take (length data) (drop (rd_bytes_read reader) file) \<and>
      rd_bytes_read reader' = rd_bytes_read reader + length data \<and>
      (eof \<longleftrightarrow> rd_bytes_read reader' = length file) \<and>
      (data = [] \<longrightarrow> rd_bytes_read reader = length file)"
proof -
  note r = reader [unfolded reader_of_def]
  let ?pos = "rd_bytes_read reader" and ?req = "min (length file - rd_bytes_read reader) n"
  have "fv_node (fs_now tr w') = fv_node (fs_now tr w) \<and>
    (e \<noteq> APP_ERROR_NONE \<longrightarrow> data = [] \<and> \<not> eof \<and> reader' = reader) \<and>
    (e = APP_ERROR_NONE \<longrightarrow>
      reader_of tr path file reader' w' \<and> length data \<le> n \<and>
      data = take (length data) (drop (rd_bytes_read reader) file) \<and>
      rd_bytes_read reader' = rd_bytes_read reader + length data \<and>
      (eof \<longleftrightarrow> rd_bytes_read reader' = length file) \<and>
      (data = [] \<longrightarrow> rd_bytes_read reader = length file))"
  proof (cases "?pos = length file")
    case True
    then show ?thesis using run r assms(3) reader
      by (simp add: storage_blob_reader_read_with_ops_def)
  next
    case False
    obtain s w1 where rd: "op_read_file ops (nat (rd_descriptor reader)) ?req w = (s, w1)"
      by fastforce
    note read = read_fileD [OF posix_fs_parts(5) [OF fs] rd]
    show ?thesis
    proof (cases s)
      case (Inl x)
      then show ?thesis using run r assms(3) False rd read(1)
        by (simp add: storage_blob_reader_read_with_ops_def)
    next
      case (Inr bs)
      note bs = read(3) [OF Inr]
      have bs: "bs = take (length bs) (drop ?pos file)" "length bs \<le> ?req"
        "fv_open (fs_now tr w1) (nat (rd_descriptor reader)) = Some (path, O_RDONLY, ?pos + length bs)"
        using bs r by blast+
      show ?thesis
      proof (cases "bs = []")
        case True
        then show ?thesis using run r assms(3) False rd Inr read(1)
          by (simp add: storage_blob_reader_read_with_ops_def)
      next
        case ne: False
        have "?pos + length bs \<le> length file" using bs(2) r by linarith
        then show ?thesis using run r assms(3) False rd Inr read(1) bs ne
          by (auto simp: storage_blob_reader_read_with_ops_def reader_of_def Let_def)
      qed
    qed
  qed
  then show "fv_node (fs_now tr w') = fv_node (fs_now tr w)"
    and "e \<noteq> APP_ERROR_NONE \<Longrightarrow> data = [] \<and> \<not> eof \<and> reader' = reader"
    and "e = APP_ERROR_NONE \<Longrightarrow>
      reader_of tr path file reader' w' \<and> length data \<le> n \<and>
      data = take (length data) (drop (rd_bytes_read reader) file) \<and>
      rd_bytes_read reader' = rd_bytes_read reader + length data \<and>
      (eof \<longleftrightarrow> rd_bytes_read reader' = length file) \<and>
      (data = [] \<longrightarrow> rd_bytes_read reader = length file)"
    by blast+
qed

text \<open>
  A client reading with buffers of the given sizes until the first error: what it received,
  and whether every read succeeded.
\<close>

fun read_blob_with ::
  "'w fs_ops \<Rightarrow> nat list \<Rightarrow> blob_reader \<Rightarrow> 'w \<Rightarrow> bool \<times> u8 list \<times> blob_reader \<times> 'w" where
  "read_blob_with ops [] reader w = (True, [], reader, w)"
| "read_blob_with ops (n # ns) reader w =
     (case storage_blob_reader_read_with_ops ops reader n w of
        ((e, data, eof), reader, w) \<Rightarrow>
          if e \<noteq> APP_ERROR_NONE then (False, data, reader, w)
          else (case read_blob_with ops ns reader w of
              (ok, rest, reader, w) \<Rightarrow> (ok, data @ rest, reader, w)))"

lemma read_blob_with_spec:
  assumes "posix_fs ops tr" and "reader_of tr path file reader w" and "\<forall>n \<in> set ns. 0 < n"
    and "read_blob_with ops ns reader w = (ok, data, reader', w')"
  shows "\<exists>k. data = take k (drop (rd_bytes_read reader) file) \<and>
    (ok \<longrightarrow> length file \<le> rd_bytes_read reader + length ns \<longrightarrow>
       data = drop (rd_bytes_read reader) file)"
  using assms(2-)
proof (induction ns arbitrary: reader w ok data)
  case Nil
  then show ?case by (auto intro: exI [of _ 0])
next
  case (Cons n ns)
  obtain e d eof r1 w1 where rd:
    "storage_blob_reader_read_with_ops ops reader n w = ((e, d, eof), r1, w1)"
    by (metis prod.exhaust)
  note step = reader_readD [OF assms(1) Cons.prems(1) _ rd]
  have n: "0 < n" using Cons.prems(2) by simp
  show ?case
  proof (cases "e = APP_ERROR_NONE")
    case False
    then show ?thesis using step(2) [OF n] Cons.prems(3) rd by (auto intro: exI [of _ 0])
  next
    case True
    note s = step(3) [OF n True]
    obtain ok2 rest r2 w2 where rec: "read_blob_with ops ns r1 w1 = (ok2, rest, r2, w2)"
      by (metis prod.exhaust)
    have out: "ok = ok2" "data = d @ rest" "reader' = r2" "w' = w2"
      using Cons.prems(3) rd rec True by simp_all
    have "\<exists>k. rest = take k (drop (rd_bytes_read r1) file) \<and>
        (ok2 \<longrightarrow> length file \<le> rd_bytes_read r1 + length ns \<longrightarrow>
           rest = drop (rd_bytes_read r1) file)"
      by (rule Cons.IH) (use s Cons.prems(2) rec out in auto)
    then obtain k where k: "rest = take k (drop (rd_bytes_read r1) file)"
      "ok2 \<longrightarrow> length file \<le> rd_bytes_read r1 + length ns \<longrightarrow> rest = drop (rd_bytes_read r1) file"
      by blast
    let ?rest = "drop (rd_bytes_read reader) file"
    have d: "d = take (length d) ?rest" using s by blast
    have drop: "drop (rd_bytes_read r1) file = drop (length d) ?rest"
      using s by (simp add: add.commute)
    have "data = take (length d + k) ?rest"
      using d k(1) out(2) drop by (metis take_add)
    moreover have "data = ?rest" if "ok" "length file \<le> rd_bytes_read reader + length (n # ns)"
    proof (cases "d = []")
      case True
      then have "rd_bytes_read reader = length file" using s by blast
      then show ?thesis using True k(1) out(2) s by simp
    next
      case False
      then have "length file \<le> rd_bytes_read r1 + length ns"
        using that(2) s by (cases d) auto
      then have "rest = drop (length d) ?rest" using k(2) that(1) out(1) drop by simp
      then show ?thesis using d out(2) by (metis append_take_drop_id)
    qed
    ultimately show ?thesis by blast
  qed
qed

text \<open>
  opening a blob and reading it with buffers of any positive sizes delivers the bytes of
  the file in order, whatever short reads the file system makes: what has been received is
  always a prefix of the file, and after as many successful reads as the file has bytes it is
  the whole file.
\<close>

theorem reader_delivers_the_blob:
  assumes fs: "posix_fs ops tr"
    and opened: "storage_blob_reader_open_with_ops ops dir x w = (APP_ERROR_NONE, reader, w1)"
    and sizes: "\<forall>n \<in> set ns. 0 < n"
  shows "\<exists>file. fv_node (fs_now tr w) (dir @ ''/'' @ blob_name x) = Some (Regular file) \<and>
    (case read_blob_with ops ns reader w1 of
       (ok, data, _) \<Rightarrow> (\<exists>k. data = take k file) \<and>
          (ok \<longrightarrow> length file \<le> length ns \<longrightarrow> data = file))"
proof -
  obtain content where f:
    "fv_node (fs_now tr w) (dir @ ''/'' @ blob_name x) = Some (Regular content)"
    "rd_bytes_read reader = 0" "reader_of tr (dir @ ''/'' @ blob_name x) content reader w1"
    using reader_openD [OF fs opened] by blast
  show ?thesis
    using f read_blob_with_spec [OF fs f(3) sizes]
    by (auto split: prod.split)
qed

lemma sample_blob_name: "blob_name 2 = ''00000000000000000002.gz''"
  by code_simp

lemma sample_blob_path: "build_blob_path ''/r'' 2 = Inr ''/r/00000000000000000002.gz''"
  by (simp add: build_blob_path_Inr_iff sample_blob_name limit_defs)

lemma reader_delivers_the_blob_witness:
  "\<exists>reader w1. storage_blob_reader_open_with_ops disk_ops ''/r'' 2 sample_repository =
       (APP_ERROR_NONE, reader, w1) \<and>
     fst (snd (read_blob_with disk_ops [2, 2, 2] reader w1)) = [1, 2, 3]"
proof -
  obtain reader w1 where run:
    "storage_blob_reader_open_with_ops disk_ops ''/r'' 2 sample_repository =
       (APP_ERROR_NONE, reader, w1)"
    and ok: "fst (read_blob_with disk_ops [2, 2, 2] reader w1)"
    by (simp add: storage_blob_reader_open_with_ops_def sample_blob_path stat_regular_blob_def
        limit_defs disk_eval sample_repository_def storage_blob_reader_read_with_ops_def Let_def)
  show ?thesis
    using reader_delivers_the_blob [OF disk_posix run, of "[2, 2, 2]"] run ok
    by (auto simp: sample_repository_def disk_trace_def disk_of_def sample_blob_name
        split: prod.splits)
qed

section \<open>Deleting everything\<close>

abbreviation blob_path :: "string \<Rightarrow> u64 \<Rightarrow> string" where
  "blob_path dir x \<equiv> dir @ ''/'' @ blob_name x"

lemma deleteD:
  assumes fs: "posix_fs ops tr" and run: "storage_blob_delete_with_ops ops dir x w = (e, w')"
  shows "e = APP_ERROR_NONE \<Longrightarrow>
      (\<exists>content. fv_node (fs_now tr w) (blob_path dir x) = Some (Regular content)) \<and>
      fv_node (fs_now tr w') = (fv_node (fs_now tr w))(blob_path dir x := None)"
    and "e \<noteq> APP_ERROR_NONE \<Longrightarrow> fv_node (fs_now tr w') = fv_node (fs_now tr w)"
proof -
  have "(e = APP_ERROR_NONE \<longrightarrow>
      (\<exists>content. fv_node (fs_now tr w) (blob_path dir x) = Some (Regular content)) \<and>
      fv_node (fs_now tr w') = (fv_node (fs_now tr w))(blob_path dir x := None)) \<and>
    (e \<noteq> APP_ERROR_NONE \<longrightarrow> fv_node (fs_now tr w') = fv_node (fs_now tr w))"
  proof (cases "build_blob_path dir x")
    case (Inl err)
    then have "err \<noteq> APP_ERROR_NONE"
      by (auto simp: build_blob_path_def storage_blob_format_filename_def split: if_splits
          option.splits sum.splits)
    then show ?thesis using run Inl by (simp add: storage_blob_delete_with_ops_def)
  next
    case path: (Inr path)
    obtain s w1 where st: "stat_regular_blob ops path w = (s, w1)" by fastforce
    note stat = stat_regular_blobD [OF fs st]
    show ?thesis
    proof (cases s)
      case (Inl err)
      then show ?thesis using run path st stat(1,3)
        by (simp add: storage_blob_delete_with_ops_def)
    next
      case (Inr n)
      obtain u w2 where ul: "op_unlink_path ops path w1 = (u, w2)" by fastforce
      note unlink = unlink_lawD [OF posix_fs_parts(2) [OF fs] ul]
      show ?thesis using run path st stat(1) stat(2) [OF Inr] Inr ul unlink(1,2)
        by (cases u) (auto simp: storage_blob_delete_with_ops_def build_blob_path_Inr_iff)
    qed
  qed
  then show "e = APP_ERROR_NONE \<Longrightarrow>
      (\<exists>content. fv_node (fs_now tr w) (blob_path dir x) = Some (Regular content)) \<and>
      fv_node (fs_now tr w') = (fv_node (fs_now tr w))(blob_path dir x := None)"
    and "e \<noteq> APP_ERROR_NONE \<Longrightarrow> fv_node (fs_now tr w') = fv_node (fs_now tr w)"
    by blast+
qed

text \<open>The files after some blobs are gone.\<close>

definition without_blobs ::
  "(string \<Rightarrow> fs_node option) \<Rightarrow> string \<Rightarrow> blob_entry list \<Rightarrow> string \<Rightarrow> fs_node option" where
  "without_blobs nodes dir gone p = (if \<exists>e \<in> set gone. p = blob_path dir (be_id e) then None else nodes p)"

lemma without_blobs_Nil [simp]: "without_blobs nodes dir [] = nodes"
  by (rule ext) (simp add: without_blobs_def)

lemma without_blobs_upd:
  "without_blobs (nodes(blob_path dir (be_id e) := None)) dir gone =
     without_blobs nodes dir (e # gone)"
  by (rule ext) (simp add: without_blobs_def)

lemma delete_all_entries:
  assumes fs: "posix_fs ops tr" and "distinct order"
    and "notify_entries (Some (delete_all_observer ops dir)) order (st, w) = (e, st', w')"
  shows "e = APP_ERROR_NONE \<and> (\<exists>gone. distinct gone \<and> set gone \<subseteq> set order \<and>
    fv_node (fs_now tr w') = without_blobs (fv_node (fs_now tr w)) dir gone \<and>
    da_deleted_count st' = da_deleted_count st + length gone \<and>
    (da_first_error st' = APP_ERROR_NONE \<longleftrightarrow>
       da_first_error st = APP_ERROR_NONE \<and> set gone = set order))"
  using assms(2,3)
proof (induction order arbitrary: st w)
  case Nil
  then show ?case by (auto intro!: exI [of _ "[]"])
next
  case (Cons entry order)
  obtain r w1 where del: "storage_blob_delete_with_ops ops dir (be_id entry) w = (r, w1)"
    by fastforce
  note deleted = deleteD [OF fs del]
  define st1 where "st1 = (if r = APP_ERROR_NONE
      then st\<lparr>da_deleted_count := da_deleted_count st + 1\<rparr>
      else if da_first_error st = APP_ERROR_NONE then st\<lparr>da_first_error := r\<rparr> else st)"
  have "notify_entries (Some (delete_all_observer ops dir)) order (st1, w1) = (e, st', w')"
    using Cons.prems(2) del
    by (simp add: notify_entry_def delete_all_observer_def delete_all_visit_entry_def st1_def)
  from Cons.IH [OF _ this] Cons.prems(1) obtain gone where gone: "e = APP_ERROR_NONE"
    "distinct gone" "set gone \<subseteq> set order"
    "fv_node (fs_now tr w') = without_blobs (fv_node (fs_now tr w1)) dir gone"
    "da_deleted_count st' = da_deleted_count st1 + length gone"
    "da_first_error st' = APP_ERROR_NONE \<longleftrightarrow>
       da_first_error st1 = APP_ERROR_NONE \<and> set gone = set order" by auto
  show ?case
  proof (cases "r = APP_ERROR_NONE")
    case True
    have "set (entry # gone) = set (entry # order) \<longleftrightarrow> set gone = set order"
      using Cons.prems(1) gone(3) by auto
    moreover have "fv_node (fs_now tr w') =
        without_blobs (fv_node (fs_now tr w)) dir (entry # gone)"
      using gone(4) deleted(1) True without_blobs_upd by metis
    moreover have "da_deleted_count st1 = da_deleted_count st + 1"
      "da_first_error st1 = da_first_error st"
      using True by (simp_all add: st1_def)
    moreover have "distinct (entry # gone)" "set (entry # gone) \<subseteq> set (entry # order)"
      using gone(2,3) Cons.prems(1) by auto
    ultimately show ?thesis
      using gone(1,5,6) by (intro conjI exI [of _ "entry # gone"]) simp_all
  next
    case False
    then have "da_first_error st1 \<noteq> APP_ERROR_NONE" by (simp add: st1_def)
    moreover have "set gone \<noteq> set (entry # order)" using Cons.prems(1) gone(3) by auto
    ultimately show ?thesis
      using False gone deleted(2)
      by (intro conjI exI [of _ gone]) (auto simp: st1_def)
  qed
qed

lemma delete_all_silent: "silent_names (Some (delete_all_observer ops dir))"
  by (simp add: silent_names_def delete_all_observer_def)

text \<open>
  erasing the repository (the factory reset) always returns.  It removes blobs and no other
  file, one that resists deletion does not keep the others, the reported number is that of the
  blobs removed, and when it reports success no blob of the directory is left.
\<close>

theorem delete_all_erases_the_blobs:
  assumes fs: "posix_fs ops tr"
  shows "\<exists>e n w'. storage_blob_delete_all_with_ops ops realloc_ok dir w = Some (e, n, w') \<and>
    (\<exists>gone. distinct gone \<and> (\<forall>entry \<in> set gone. is_blob (fv_node (fs_now tr w)) dir entry) \<and>
       fv_node (fs_now tr w') = without_blobs (fv_node (fs_now tr w)) dir gone \<and>
       (e = APP_ERROR_NONE \<longrightarrow> n = length gone \<and>
          (\<forall>entry. \<not> is_blob (fv_node (fs_now tr w')) dir entry)))"
proof -
  let ?nodes = "fv_node (fs_now tr w)"
  let ?st = "\<lparr>da_first_error = APP_ERROR_NONE, da_deleted_count = 0\<rparr>"
  obtain e s st' w' where scan:
    "storage_blob_scan_with_ops ops realloc_ok dir 0 (Some (delete_all_observer ops dir)) ?st w =
       Some (e, s, st', w')"
    "scan_complete tr dir 0 (Some (delete_all_observer ops dir)) ?st w s (e, st', w') \<or>
     e \<noteq> APP_ERROR_NONE \<and> fv_node (fs_now tr w') = ?nodes"
    using scan_outcome [OF fs silent_quiet [OF delete_all_silent]] by metis
  show ?thesis
  proof (cases "scan_complete tr dir 0 (Some (delete_all_observer ops dir)) ?st w s (e, st', w')")
    case False
    then have "e \<noteq> APP_ERROR_NONE" "fv_node (fs_now tr w') = ?nodes" using scan(2) by auto
    then show ?thesis using scan(1)
      by (auto simp: storage_blob_delete_all_with_ops_def intro!: exI [of _ "[]"])
  next
    case True
    then obtain order c1 w1 where order: "distinct (map be_id order)"
      "set order = {e. is_blob ?nodes dir e}" "fv_node (fs_now tr w1) = ?nodes"
      "notify_entries (Some (delete_all_observer ops dir)) order (c1, w1) = (e, st', w')"
      "c1 = ?st"
      unfolding scan_complete_def using delete_all_silent by blast
    note shown = order(4) [unfolded order(5)]
    obtain gone where gone: "e = APP_ERROR_NONE" "distinct gone" "set gone \<subseteq> set order"
      "fv_node (fs_now tr w') = without_blobs ?nodes dir gone"
      "da_deleted_count st' = length gone"
      "da_first_error st' = APP_ERROR_NONE \<longleftrightarrow> set gone = set order"
      using delete_all_entries [OF fs _ shown] order(1,3) by (auto simp: distinct_map)
    have "\<not> is_blob (fv_node (fs_now tr w')) dir entry" if "set gone = set order" for entry
    proof
      assume left: "is_blob (fv_node (fs_now tr w')) dir entry"
      then have node: "fv_node (fs_now tr w') (blob_path dir (be_id entry)) \<noteq> None"
        by (auto simp: is_blob_def)
      then have "is_blob ?nodes dir entry"
        using left gone(4) by (auto simp: is_blob_def without_blobs_def split: if_splits)
      then have "entry \<in> set gone" using that order(2) by blast
      then have "fv_node (fs_now tr w') (blob_path dir (be_id entry)) = None"
        unfolding gone(4) without_blobs_def by auto
      with node show False by simp
    qed
    then show ?thesis
      using scan(1) gone order(2)
      by (intro exI conjI) (auto simp: storage_blob_delete_all_with_ops_def)
  qed
qed

lemma delete_all_erases_the_blobs_witness:
  "\<exists>w'. storage_blob_delete_all_with_ops disk_ops (\<lambda>n. n \<le> 64) ''/r'' sample_repository =
          Some (APP_ERROR_NONE, 2, w') \<and>
        (\<forall>entry. \<not> is_blob (fv_node (fs_now disk_trace w')) ''/r'' entry)"
proof -
  have names: "blob_name 7 = ''00000000000000000007.gz''" by code_simp
  have path: "build_blob_path ''/r'' 7 = Inr ''/r/00000000000000000007.gz''"
    by (simp add: build_blob_path_Inr_iff names limit_defs)
  have run: "map_option (\<lambda>(e, n, _). (e, n))
      (storage_blob_delete_all_with_ops disk_ops (\<lambda>n. n \<le> 64) ''/r'' sample_repository) =
    Some (APP_ERROR_NONE, 2)"
    by (simp add: storage_blob_delete_all_with_ops_def delete_all_observer_def
        delete_all_visit_entry_def storage_blob_delete_with_ops_def stat_regular_blob_def
        path sample_blob_path scan_eval disk_eval sample_repository_def)
  show ?thesis
    using delete_all_erases_the_blobs [OF disk_posix, of "\<lambda>n. n \<le> 64" "''/r''" sample_repository]
      run by auto
qed

end
