(* ===== verification/Storage_Atomic.thy ===== *)
theory Storage_Atomic
  imports Storage_Sample
begin

text \<open>
  The atomic replacement of a file (\<open>storage/storage_atomic.c\<close>): the new bytes are written to
  the path with \<open>.tmp\<close>, synchronised, closed, reopened and compared, and then renamed over the
  target.  The two loops repeat a call interrupted by a signal, so they are partial functions.
  The theorem says what the comment in the code says: at every moment the target holds its
  complete old or its complete new content, whatever fails, and the reported commit state is
  true; it needs nothing of the bytes a write stores, because the code reads them back.
\<close>

section \<open>The steps\<close>

definition APP_PATH_MAX_BYTES :: nat where
  [limit_defs]: "APP_PATH_MAX_BYTES = 256"

definition operation_primary_error :: "app_error \<Rightarrow> operation_result" where
  "operation_primary_error e = app_operation_record_primary app_operation_success e"

definition operation_primary_error_with_commit ::
  "app_error \<Rightarrow> commit_state \<Rightarrow> operation_result" where
  "operation_primary_error_with_commit e commit =
     (operation_primary_error e)\<lparr>or_commit_state := commit\<rparr>"

partial_function (option) write_all ::
  "'w fs_ops \<Rightarrow> nat \<Rightarrow> u8 list \<Rightarrow> 'w \<Rightarrow> (app_error \<times> 'w) option" where
  "write_all ops descriptor data w =
     (if data = [] then Some (APP_ERROR_NONE, w)
      else case op_write_file ops descriptor data w of
        (Inl e, w) \<Rightarrow> if e = EINTR then write_all ops descriptor data w
                      else Some (map_io_error e, w)
      | (Inr count, w) \<Rightarrow>
          if count = 0 \<or> length data < count then Some (APP_ERROR_IO, w)
          else write_all ops descriptor (drop count data) w)"

partial_function (option) verify_loop ::
  "'w fs_ops \<Rightarrow> nat \<Rightarrow> u8 list \<Rightarrow> 'w \<Rightarrow> (app_error \<times> 'w) option" where
  "verify_loop ops descriptor expected w =
     (if expected = [] then Some (APP_ERROR_NONE, w)
      else let requested = (if length expected < 256 then length expected else 256)
           in (case op_read_file ops descriptor requested w of
             (Inl e, w) \<Rightarrow> if e = EINTR then verify_loop ops descriptor expected w
                           else Some (map_io_error e, w)
           | (Inr buffer, w) \<Rightarrow>
               if buffer = [] \<or> requested < length buffer then Some (APP_ERROR_IO, w)
               else if buffer \<noteq> take (length buffer) expected then Some (APP_ERROR_IO, w)
               else verify_loop ops descriptor (drop (length buffer) expected) w))"

declare write_all.simps [code] verify_loop.simps [code]

definition verify_end :: "'w fs_ops \<Rightarrow> nat \<Rightarrow> 'w \<Rightarrow> app_error \<times> 'w" where
  "verify_end ops descriptor w =
     (case op_read_file ops descriptor 1 w of
        (Inl e, w) \<Rightarrow> (map_io_error e, w)
      | (Inr extra, w) \<Rightarrow> (if extra \<noteq> [] then APP_ERROR_IO else APP_ERROR_NONE, w))"

definition verify_file ::
  "'w fs_ops \<Rightarrow> string \<Rightarrow> u8 list \<Rightarrow> 'w \<Rightarrow> (app_error \<times> 'w) option" where
  "verify_file ops path expected w =
     (case op_open_file ops path O_RDONLY w of
        (Inl e, w) \<Rightarrow> Some (map_io_error e, w)
      | (Inr descriptor, w) \<Rightarrow>
          (case verify_loop ops descriptor expected w of
             None \<Rightarrow> None
           | Some (result, w) \<Rightarrow>
               let (result, w) = (if result = APP_ERROR_NONE then verify_end ops descriptor w
                                  else (result, w))
               in (case op_close_file ops descriptor w of
                     (Some e, w) \<Rightarrow>
                       Some (if result = APP_ERROR_NONE then map_io_error e else result, w)
                   | (None, w) \<Rightarrow> Some (result, w))))"

definition cleanup_path :: "'w fs_ops \<Rightarrow> string \<Rightarrow> 'w \<Rightarrow> app_error \<times> 'w" where
  "cleanup_path ops path w =
     (case op_unlink_path ops path w of
        (None, w) \<Rightarrow> (APP_ERROR_NONE, w)
      | (Some e, w) \<Rightarrow> (if e = ENOENT then APP_ERROR_NONE else map_io_error e, w))"

definition sync_parent ::
  "(string \<Rightarrow> 'w \<Rightarrow> errno option \<times> 'w) \<Rightarrow> string \<Rightarrow> 'w \<Rightarrow> app_error \<times> 'w" where
  "sync_parent sync_parent_path path w =
     (case sync_parent_path path w of
        (None, w) \<Rightarrow> (APP_ERROR_NONE, w)
      | (Some e, w) \<Rightarrow> (map_io_error e, w))"

definition temporary_path_for :: "string \<Rightarrow> app_error + string" where
  "temporary_path_for path =
     (case fitted APP_PATH_MAX_BYTES (path @ ''.tmp'') of
        None \<Rightarrow> Inl APP_ERROR_INVALID_ARGUMENT | Some temporary \<Rightarrow> Inr temporary)"

definition sync_staged :: "'w fs_ops \<Rightarrow> bool \<Rightarrow> nat \<Rightarrow> 'w \<Rightarrow> app_error \<times> 'w" where
  "sync_staged ops sync_required descriptor w =
     (case op_sync_file ops descriptor w of
        (None, w) \<Rightarrow> (APP_ERROR_NONE, w)
      | (Some e, w) \<Rightarrow>
          (if sync_required \<or> e \<noteq> EINVAL \<and> e \<noteq> ENOTSUP then map_io_error e
           else APP_ERROR_NONE, w))"

definition close_staged :: "'w fs_ops \<Rightarrow> nat \<Rightarrow> app_error \<Rightarrow> 'w \<Rightarrow> app_error \<times> 'w" where
  "close_staged ops descriptor primary_error w =
     (case op_close_file ops descriptor w of
        (None, w) \<Rightarrow> (primary_error, w)
      | (Some e, w) \<Rightarrow>
          (if primary_error = APP_ERROR_NONE then map_io_error e else primary_error, w))"

definition stage_temporary_file ::
  "'w fs_ops \<Rightarrow> string \<Rightarrow> u8 list \<Rightarrow> bool \<Rightarrow> 'w \<Rightarrow> (operation_result \<times> 'w) option" where
  "stage_temporary_file ops temporary data sync_required w =
     (case op_open_file ops temporary O_WRONLY_CREAT_TRUNC w of
        (Inl e, w) \<Rightarrow> Some (operation_primary_error (map_io_error e), w)
      | (Inr descriptor, w) \<Rightarrow>
          (case write_all ops descriptor data w of
             None \<Rightarrow> None
           | Some (e, w) \<Rightarrow>
               let (e, w) = (if e = APP_ERROR_NONE then sync_staged ops sync_required descriptor w
                             else (e, w));
                   (e, w) = close_staged ops descriptor e w
               in (case (if e = APP_ERROR_NONE then verify_file ops temporary data w
                         else Some (e, w)) of
                     None \<Rightarrow> None
                   | Some (e, w) \<Rightarrow>
                       if e \<noteq> APP_ERROR_NONE
                       then (case cleanup_path ops temporary w of (cleanup, w) \<Rightarrow>
                           Some (app_operation_record_cleanup (operation_primary_error e) cleanup, w))
                       else Some (app_operation_success, w))))"

definition activate_staged ::
  "'w fs_ops \<Rightarrow> (string \<Rightarrow> 'w \<Rightarrow> errno option \<times> 'w) \<Rightarrow> string \<Rightarrow> string \<Rightarrow> 'w \<Rightarrow>
     operation_result \<times> 'w" where
  "activate_staged ops sync_parent_path temporary path w =
     (case op_rename_path ops temporary path w of
        (Some e, w) \<Rightarrow>
          (case cleanup_path ops temporary w of (cleanup, w) \<Rightarrow>
             ((app_operation_record_cleanup (operation_primary_error (map_io_error e)) cleanup)
                \<lparr>or_commit_state := APP_OPERATION_NOT_COMMITTED\<rparr>, w))
      | (None, w) \<Rightarrow>
          (case sync_parent sync_parent_path path w of (e, w) \<Rightarrow>
             if e \<noteq> APP_ERROR_NONE
             then (operation_primary_error_with_commit e APP_OPERATION_COMMIT_UNCERTAIN, w)
             else (app_operation_success\<lparr>or_commit_state := APP_OPERATION_COMMITTED\<rparr>, w)))"

definition storage_atomic_write_with_ops_and_parent_sync_result ::
  "string \<Rightarrow> u8 list \<Rightarrow> bool \<Rightarrow> 'w fs_ops \<Rightarrow> (string \<Rightarrow> 'w \<Rightarrow> errno option \<times> 'w) \<Rightarrow> 'w \<Rightarrow>
     (operation_result \<times> 'w) option" where
  "storage_atomic_write_with_ops_and_parent_sync_result path data sync_required ops
       sync_parent_path w =
     (if APP_PATH_MAX_BYTES \<le> length path
      then Some (operation_primary_error_with_commit APP_ERROR_INVALID_ARGUMENT
                   APP_OPERATION_NOT_COMMITTED, w)
      else case temporary_path_for path of
        Inl e \<Rightarrow> Some (operation_primary_error_with_commit e APP_OPERATION_NOT_COMMITTED, w)
      | Inr temporary \<Rightarrow>
          (case stage_temporary_file ops temporary data sync_required w of
             None \<Rightarrow> None
           | Some (result, w) \<Rightarrow>
               if \<not> app_operation_result_ok result
               then Some (result\<lparr>or_commit_state := APP_OPERATION_NOT_COMMITTED\<rparr>, w)
               else Some (activate_staged ops sync_parent_path temporary path w)))"

definition storage_atomic_write_with_ops_and_parent_sync ::
  "string \<Rightarrow> u8 list \<Rightarrow> bool \<Rightarrow> 'w fs_ops \<Rightarrow> (string \<Rightarrow> 'w \<Rightarrow> errno option \<times> 'w) \<Rightarrow> 'w \<Rightarrow>
     (app_error \<times> 'w) option" where
  "storage_atomic_write_with_ops_and_parent_sync path data sync_required ops sync_parent_path w =
     map_option (\<lambda>(r, w). (app_operation_result_error r, w))
       (storage_atomic_write_with_ops_and_parent_sync_result path data sync_required ops
          sync_parent_path w)"

section \<open>The loops\<close>

lemma fs_file: "posix_fs ops tr \<Longrightarrow> file_laws ops tr"
  by (rule posix_fs_parts(5))

text \<open>Writing stays within the staged file.\<close>

lemma write_all_confined:
  assumes fs: "posix_fs ops tr" and run: "write_all ops d data w = Some y"
  shows "fv_open (fs_now tr w) d = Some (p, O_WRONLY_CREAT_TRUNC, pos) \<longrightarrow>
    off_path p N (fs_now tr w) \<longrightarrow> (\<exists>file. fv_node (fs_now tr w) p = Some (Regular file)) \<longrightarrow>
    within tr w (snd y) (off_path p N) \<and>
    (\<exists>file. fv_node (fs_now tr (snd y)) p = Some (Regular file))"
  using run fs
proof (induction rule: write_all.raw_induct [rotated, consumes 1, case_names step])
  case (step loop ops d data w y)
  let ?goal = "within tr w (snd y) (off_path p N) \<and>
    (\<exists>file. fv_node (fs_now tr (snd y)) p = Some (Regular file))"
  show ?case
  proof (intro impI)
    assume op: "fv_open (fs_now tr w) d = Some (p, O_WRONLY_CREAT_TRUNC, pos)"
      and off: "off_path p N (fs_now tr w)"
      and reg: "\<exists>file. fv_node (fs_now tr w) p = Some (Regular file)"
    obtain r w1 where wr: "op_write_file ops d data w = (r, w1)" by fastforce
    note wrote = write_fileD [OF fs_file [OF step(3)] wr op]
    have one: "within tr w w1 (off_path p N)"
      by (intro within_step [where tr = tr] wrote(4) off_path_only [OF off wrote(1)])
    have rest: ?goal if "loop ops d data' w1 = Some y" for data'
      using step(1) [OF that step(3)] op wrote(2) wrote(3) [OF reg] one within_last [OF one]
      by (auto intro: within_trans [where tr = tr, OF one])
    show ?goal
      using step(2) wr one within_refl [where tr = tr and P = "off_path p N", OF off] reg
        wrote(3) [OF reg] rest
      by (auto split: if_splits sum.splits)
  qed
qed

text \<open>Reading back changes no file, and succeeds only on the expected bytes.\<close>

lemma verify_loop_reads:
  assumes fs: "posix_fs ops tr" and run: "verify_loop ops d expected w = Some y"
    and N: "N p = Some (Regular content)"
  shows "\<forall>pos. fv_open (fs_now tr w) d = Some (p, O_RDONLY, pos) \<longrightarrow> has_nodes N (fs_now tr w) \<longrightarrow>
    within tr w (snd y) (has_nodes N) \<and>
    (fst y = APP_ERROR_NONE \<longrightarrow> expected = take (length expected) (drop pos content) \<and>
       fv_open (fs_now tr (snd y)) d = Some (p, O_RDONLY, pos + length expected))"
  using run fs
proof (induction rule: verify_loop.raw_induct [rotated, consumes 1, case_names step])
  case (step loop ops d expected w y)
  show ?case
  proof (intro allI impI)
    fix pos
    assume op: "fv_open (fs_now tr w) d = Some (p, O_RDONLY, pos)"
      and nodes: "has_nodes N (fs_now tr w)"
    let ?goal = "within tr w (snd y) (has_nodes N) \<and>
      (fst y = APP_ERROR_NONE \<longrightarrow> expected = take (length expected) (drop pos content) \<and>
         fv_open (fs_now tr (snd y)) d = Some (p, O_RDONLY, pos + length expected))"
    let ?req = "if length expected < 256 then length expected else 256"
    obtain r w1 where rd: "op_read_file ops d ?req w = (r, w1)" by fastforce
    note read = read_fileD [OF fs_file [OF step(3)] rd]
    have nodes1: "has_nodes N (fs_now tr w1)" using read(1) nodes by (simp add: has_nodes_def)
    have one: "within tr w w1 (has_nodes N)"
      by (rule within_step [where tr = tr and P = "has_nodes N", OF read(4) nodes1])
    have rest: "within tr w (snd y) (has_nodes N) \<and>
        (fst y = APP_ERROR_NONE \<longrightarrow> exp' = take (length exp') (drop pos' content) \<and>
           fv_open (fs_now tr (snd y)) d = Some (p, O_RDONLY, pos' + length exp'))"
      if "loop ops d exp' w1 = Some y" "fv_open (fs_now tr w1) d = Some (p, O_RDONLY, pos')"
      for exp' pos'
      using step(1) [OF that(1) step(3)] that(2) nodes1
      by (auto intro: within_trans [where tr = tr, OF one])
    consider (empty) "expected = []" | (err) e where "r = Inl e" "expected \<noteq> []"
      | (data) bs where "r = Inr bs" "expected \<noteq> []" by (cases r) auto
    then show ?goal
    proof cases
      case empty
      then show ?thesis using step(2) op within_refl [where tr = tr and P = "has_nodes N", OF nodes]
        by auto
    next
      case err
      then show ?thesis
        using step(2) rd one rest [of expected pos] op read(2) [OF err(1)]
        by (auto simp: Let_def split: if_splits)
    next
      case data
      have "fv_node (fs_now tr w) p = Some (Regular content)"
        using nodes N by (simp add: has_nodes_def)
      note bs = read(3) [OF data(1) op this]
      show ?thesis
      proof (cases "bs = [] \<or> ?req < length bs \<or> bs \<noteq> take (length bs) expected")
        case True
        then show ?thesis using step(2) rd one data by (auto simp: Let_def split: if_splits)
      next
        case False
        then have "loop ops d (drop (length bs) expected) w1 = Some y"
          using step(2) rd data by (auto simp: Let_def)
        from rest [OF this, of "pos + length bs"] bs
        have r: "within tr w (snd y) (has_nodes N)"
          "fst y = APP_ERROR_NONE \<longrightarrow>
             drop (length bs) expected =
               take (length expected - length bs) (drop (pos + length bs) content) \<and>
             fv_open (fs_now tr (snd y)) d =
               Some (p, O_RDONLY, pos + length bs + (length expected - length bs))"
          by auto
        have len: "length bs \<le> length expected" using False by (auto split: if_splits)
        have "expected = take (length expected) (drop pos content)"
          if "drop (length bs) expected =
            take (length expected - length bs) (drop (pos + length bs) content)"
        proof -
          have "expected = bs @ drop (length bs) expected"
            using False by (metis append_take_drop_id)
          also have "\<dots> = take (length bs) (drop pos content) @
              take (length expected - length bs) (drop (length bs) (drop pos content))"
            using bs that by (metis add.commute drop_drop)
          also have "\<dots> = take (length expected) (drop pos content)"
            using len by (metis le_add_diff_inverse take_add)
          finally show ?thesis .
        qed
        then show ?thesis using r len by auto
      qed
    qed
  qed
qed

lemma verify_end_reads:
  assumes fs: "posix_fs ops tr" and run: "verify_end ops d w = (e, w')"
    and N: "N p = Some (Regular content)" and nodes: "has_nodes N (fs_now tr w)"
  shows "within tr w w' (has_nodes N)"
    and "e = APP_ERROR_NONE \<Longrightarrow> fv_open (fs_now tr w) d = Some (p, O_RDONLY, pos) \<Longrightarrow>
      length content \<le> pos"
proof -
  obtain x w4 where rd: "op_read_file ops d 1 w = (x, w4)" by fastforce
  note read = read_fileD [OF fs_file [OF fs] rd]
  have w': "w' = w4" using run rd by (auto simp: verify_end_def split: sum.splits)
  show "within tr w w' (has_nodes N)"
    unfolding w' using read(1) nodes
    by (intro within_step [where tr = tr] read(4)) (simp add: has_nodes_def)
  have node: "fv_node (fs_now tr w) p = Some (Regular content)"
    using nodes N by (simp add: has_nodes_def)
  assume "e = APP_ERROR_NONE" and op: "fv_open (fs_now tr w) d = Some (p, O_RDONLY, pos)"
  then have x: "x = Inr []"
    using run rd by (auto simp: verify_end_def split: sum.splits if_splits)
  from read(3) [OF x op node] show "length content \<le> pos" by simp
qed

lemma verify_file_reads:
  assumes fs: "posix_fs ops tr" and run: "verify_file ops p expected w = Some (e, w')"
    and N: "N p = Some (Regular content)" and nodes: "has_nodes N (fs_now tr w)"
  shows "within tr w w' (has_nodes N) \<and> (e = APP_ERROR_NONE \<longrightarrow> content = expected)"
proof -
  obtain r w1 where op: "op_open_file ops p O_RDONLY w = (r, w1)" by fastforce
  note opened = open_fileD [OF fs_file [OF fs] op]
  have one: "within tr w w1 (has_nodes N)"
    using nodes opened(1) by (intro within_step [where tr = tr] opened(5)) (simp add: has_nodes_def)
  show ?thesis
  proof (cases r)
    case (Inl x)
    then show ?thesis using run op one by (auto simp: verify_file_def)
  next
    case (Inr d)
    obtain e1 w2 where loop: "verify_loop ops d expected w1 = Some (e1, w2)"
      using run op Inr by (auto simp: verify_file_def split: option.splits)
    note reads = verify_loop_reads [where N = N and p = p, OF fs loop N, rule_format,
        OF opened(4) [OF Inr] within_last [OF one], simplified fst_conv snd_conv]
    note two = reads [THEN conjunct1]
    obtain e2 w3 where last: "verify_end ops d w2 = (e2, w3)" by fastforce
    note ended = verify_end_reads [where N = N and p = p, OF fs last N within_last [OF two]]
    have content: "content = expected" if "e1 = APP_ERROR_NONE" "e2 = APP_ERROR_NONE"
    proof -
      have "expected = take (length expected) content"
        and "fv_open (fs_now tr w2) d = Some (p, O_RDONLY, length expected)"
        using reads that(1) by simp_all
      with ended(2) [OF that(2)] show ?thesis by simp
    qed
    define e3 w5 where "e3 = (if e1 = APP_ERROR_NONE then e2 else e1)"
      and "w5 = (if e1 = APP_ERROR_NONE then w3 else w2)"
    obtain c w6 where cl: "op_close_file ops d w5 = (c, w6)" by fastforce
    note closed = close_fileD [OF fs_file [OF fs] cl]
    have "within tr w w2 (has_nodes N)" by (rule within_trans [OF one two])
    then have three: "within tr w w5 (has_nodes N)"
      using within_trans [OF _ ended(1)] by (simp add: w5_def)
    have "within tr w5 w6 (has_nodes N)"
      using closed(1) within_last [OF three]
      by (intro within_step [where tr = tr] closed(2)) (simp add: has_nodes_def)
    with three have four: "within tr w w6 (has_nodes N)" by (rule within_trans)
    have "w' = w6 \<and> e = (if c = None \<or> e3 \<noteq> APP_ERROR_NONE then e3 else map_io_error (the c))"
      using run op Inr loop last cl
      by (auto simp: verify_file_def e3_def w5_def split: option.splits if_splits)
    then show ?thesis using four content by (auto simp: e3_def split: if_splits)
  qed
qed

section \<open>Staging and activation\<close>

lemma cleanup_path_confined:
  assumes fs: "posix_fs ops tr" and run: "cleanup_path ops p w = (e, w')"
    and off: "off_path p N (fs_now tr w)"
  shows "within tr w w' (off_path p N)"
proof -
  obtain u w1 where ul: "op_unlink_path ops p w = (u, w1)" by fastforce
  note unlink = unlink_lawD [OF posix_fs_parts(2) [OF fs] ul]
  have "off_path p N (fs_now tr w1)"
    using unlink(1,2) off by (cases u) (auto simp: off_path_def)
  moreover have "w' = w1" using run ul by (auto simp: cleanup_path_def split: option.splits)
  ultimately show ?thesis using within_step [where tr = tr and P = "off_path p N", OF unlink(4)] by simp
qed

lemma sync_staged_same:
  assumes fs: "posix_fs ops tr" and run: "sync_staged ops required d w = (e, w')"
  shows "fs_now tr w' = fs_now tr w" and "tr w' = fs_now tr w' # tr w"
proof -
  obtain u w1 where sy: "op_sync_file ops d w = (u, w1)" by fastforce
  have "w' = w1" using run sy by (auto simp: sync_staged_def split: option.splits)
  then show "fs_now tr w' = fs_now tr w" and "tr w' = fs_now tr w' # tr w"
    using sync_fileD [OF fs_file [OF fs] sy] by simp_all
qed

lemma close_staged_same:
  assumes fs: "posix_fs ops tr" and run: "close_staged ops d e1 w = (e, w')"
  shows "fv_node (fs_now tr w') = fv_node (fs_now tr w)" and "tr w' = fs_now tr w' # tr w"
    and "e = APP_ERROR_NONE \<Longrightarrow> e1 = APP_ERROR_NONE"
proof -
  obtain u w1 where cl: "op_close_file ops d w = (u, w1)" by fastforce
  have "w' = w1" using run cl by (auto simp: close_staged_def split: option.splits)
  then show "fv_node (fs_now tr w') = fv_node (fs_now tr w)" and "tr w' = fs_now tr w' # tr w"
    using close_fileD [OF fs_file [OF fs] cl] by simp_all
  show "e = APP_ERROR_NONE \<Longrightarrow> e1 = APP_ERROR_NONE"
    using run cl by (auto simp: close_staged_def split: option.splits if_splits)
qed

text \<open>The result of staging when its file operations ended with the error \<open>e\<close>.\<close>

lemma staged_result_ok:
  "e \<noteq> APP_ERROR_NONE \<Longrightarrow>
     \<not> app_operation_result_ok (app_operation_record_cleanup (operation_primary_error e) c)"
  "e \<noteq> APP_ERROR_NONE \<Longrightarrow> \<not> app_operation_result_ok (operation_primary_error e)"
  by (simp_all add: operation_primary_error_def operation_result_defs)

lemma stage_confined:
  assumes fs: "posix_fs ops tr"
    and run: "stage_temporary_file ops p data required w = Some (res, w')"
    and off: "off_path p N (fs_now tr w)"
  shows "within tr w w' (off_path p N) \<and>
    (app_operation_result_ok res \<longrightarrow> fv_node (fs_now tr w') p = Some (Regular data))"
proof -
  obtain r w1 where op: "op_open_file ops p O_WRONLY_CREAT_TRUNC w = (r, w1)" by fastforce
  note opened = open_fileD [OF fs_file [OF fs] op]
  have one: "within tr w w1 (off_path p N)"
    using off_path_only [OF off opened(2)] by (intro within_step [where tr = tr] opened(5)) simp
  show ?thesis
  proof (cases r)
    case (Inl x)
    then show ?thesis using run op one
      by (auto simp: stage_temporary_file_def staged_result_ok)
  next
    case (Inr d)
    obtain e2 w2 where wr: "write_all ops d data w1 = Some (e2, w2)"
      using run op Inr by (auto simp: stage_temporary_file_def split: option.splits)
    have written: "within tr w1 w2 (off_path p N)"
      "\<exists>file. fv_node (fs_now tr w2) p = Some (Regular file)"
      using write_all_confined [where N = N and p = p and pos = 0, OF fs wr]
        opened(3) [OF _ Inr] opened(4) [OF Inr] within_last [OF one] by auto
    obtain e3 w3 where sy:
      "(if e2 = APP_ERROR_NONE then sync_staged ops required d w2 else (e2, w2)) = (e3, w3)"
      by fastforce
    have synced: "within tr w2 w3 (off_path p N)" "fv_node (fs_now tr w3) = fv_node (fs_now tr w2)"
      using sy sync_staged_same [OF fs] within_last [OF written(1)]
      by (auto split: if_splits intro!: within_step [where tr = tr] within_refl [where tr = tr])
    obtain e4 w4 where cl: "close_staged ops d e3 w3 = (e4, w4)" by fastforce
    note closed = close_staged_same [OF fs cl]
    have four: "within tr w3 w4 (off_path p N)"
      using off_path_same [OF within_last [OF synced(1)] closed(1)]
      by (intro within_step [where tr = tr] closed(2))
    obtain e5 w5 where ve:
      "(if e4 = APP_ERROR_NONE then verify_file ops p data w4 else Some (e4, w4)) = Some (e5, w5)"
      using run op Inr wr sy cl
      by (auto simp: stage_temporary_file_def split: option.splits if_splits prod.splits)
    obtain content where content: "fv_node (fs_now tr w4) p = Some (Regular content)"
      using written(2) synced(2) closed(1) by auto
    have verified: "within tr w4 w5 (has_nodes (fv_node (fs_now tr w4))) \<and>
        (e5 = APP_ERROR_NONE \<longrightarrow> content = data)"
    proof (cases "e4 = APP_ERROR_NONE")
      case True
      then show ?thesis using ve verify_file_reads [where N = "fv_node (fs_now tr w4)" and p = p,
            OF fs _ content] by (simp add: has_nodes_def)
    qed (use ve in \<open>auto simp: has_nodes_def intro: within_refl [where tr = tr]\<close>)
    have five: "within tr w4 w5 (off_path p N)"
      using within_last [OF four]
      by (intro within_mono [where tr = tr, OF verified [THEN conjunct1]])
         (simp add: has_nodes_def off_path_def)
    have all: "within tr w w5 (off_path p N)"
      using one written(1) synced(1) four five
      by (intro within_trans [where tr = tr, OF one] within_trans [where tr = tr, OF written(1)]
          within_trans [where tr = tr, OF synced(1)] within_trans [where tr = tr, OF four]) simp
    show ?thesis
    proof (cases "e5 = APP_ERROR_NONE")
      case True
      have "res = app_operation_success \<and> w' = w5"
        using run op Inr wr sy cl ve True by (simp add: stage_temporary_file_def)
      moreover have "fv_node (fs_now tr w5) p = Some (Regular data)"
        using verified True content within_last [OF verified [THEN conjunct1]]
        by (simp add: has_nodes_def)
      ultimately show ?thesis using all by simp
    next
      case False
      obtain c w6 where cu: "cleanup_path ops p w5 = (c, w6)" by fastforce
      have "res = app_operation_record_cleanup (operation_primary_error e5) c \<and> w' = w6"
        using run op Inr wr sy cl ve False cu by (simp add: stage_temporary_file_def)
      then show ?thesis
        using within_trans [OF all cleanup_path_confined [OF fs cu within_last [OF all]]]
          staged_result_ok(1) [OF False] by simp
    qed
  qed
qed

text \<open>Synchronising the parent directory changes no file.\<close>

definition parent_sync_law ::
  "(string \<Rightarrow> 'w \<Rightarrow> errno option \<times> 'w) \<Rightarrow> ('w \<Rightarrow> fs_view list) \<Rightarrow> bool" where
  "parent_sync_law f tr \<longleftrightarrow>
     (\<forall>p w r w'. f p w = (r, w') \<longrightarrow> fs_moves tr w w' (\<lambda>v v'. fv_node v' = fv_node v))"

lemma parent_sync_lawD:
  assumes "parent_sync_law f tr" and "f p w = (r, w')"
  shows "fv_node (fs_now tr w') = fv_node (fs_now tr w)" and "tr w' = fs_now tr w' # tr w"
proof -
  have m: "fs_moves tr w w' (\<lambda>v v'. fv_node v' = fv_node v)"
    using assms by (simp add: parent_sync_law_def)
  show "fv_node (fs_now tr w') = fv_node (fs_now tr w)" by (rule fs_moves_now [OF m])
  show "tr w' = fs_now tr w' # tr w" by (rule fs_moves_trace [OF m])
qed

text \<open>
  The states a replacement may pass through: the target holds its old or its new content, and
  only the target and the staged file differ from before.
\<close>

definition replacing ::
  "string \<Rightarrow> u8 list \<Rightarrow> (string \<Rightarrow> fs_node option) \<Rightarrow> fs_view \<Rightarrow> bool" where
  "replacing path data N v \<longleftrightarrow>
     (fv_node v path = N path \<or> fv_node v path = Some (Regular data)) \<and>
     (\<forall>q. q \<noteq> path \<longrightarrow> q \<noteq> path @ ''.tmp'' \<longrightarrow> fv_node v q = N q)"

text \<open>The content of the target the commit state of the result promises.\<close>

definition commit_honest ::
  "string \<Rightarrow> u8 list \<Rightarrow> (string \<Rightarrow> fs_node option) \<Rightarrow> operation_result \<Rightarrow> fs_view \<Rightarrow> bool" where
  "commit_honest path data N r v \<longleftrightarrow>
     (case or_commit_state r of
        APP_OPERATION_COMMITTED \<Rightarrow>
          fv_node v path = Some (Regular data) \<and> app_operation_result_error r = APP_ERROR_NONE
      | APP_OPERATION_COMMIT_UNCERTAIN \<Rightarrow>
          fv_node v path = Some (Regular data) \<and> app_operation_result_error r \<noteq> APP_ERROR_NONE
      | APP_OPERATION_NOT_COMMITTED \<Rightarrow>
          fv_node v path = N path \<and> app_operation_result_error r \<noteq> APP_ERROR_NONE
      | APP_OPERATION_COMMIT_NOT_APPLICABLE \<Rightarrow> False)"

lemma off_path_replacing: "off_path (path @ ''.tmp'') N v \<Longrightarrow> replacing path data N v"
  by (simp add: off_path_def replacing_def)

lemma record_primary_error: "app_operation_result_error (operation_primary_error e) = e"
  by (simp add: operation_primary_error_def operation_result_defs)

lemma failed_cleanup_error:
  "e \<noteq> APP_ERROR_NONE \<Longrightarrow>
   app_operation_result_error (app_operation_record_cleanup (operation_primary_error e) c) = e"
  by (simp add: operation_primary_error_def operation_result_defs)

lemma failed_result_error:
  assumes "e \<noteq> APP_ERROR_NONE"
  shows "app_operation_result_error
    ((app_operation_record_cleanup (operation_primary_error e) c)\<lparr>or_commit_state := s\<rparr>) \<noteq> APP_ERROR_NONE"
  using assms by (simp add: operation_primary_error_def operation_result_defs)

lemma activate_honest:
  assumes fs: "posix_fs ops tr" and sync: "parent_sync_law sync tr"
    and off: "off_path (path @ ''.tmp'') N (fs_now tr w)"
    and staged: "fv_node (fs_now tr w) (path @ ''.tmp'') = Some (Regular data)"
    and run: "activate_staged ops sync (path @ ''.tmp'') path w = (res, w')"
  shows "within tr w w' (replacing path data N) \<and> commit_honest path data N res (fs_now tr w')"
proof -
  obtain r w1 where rn: "op_rename_path ops (path @ ''.tmp'') path w = (r, w1)" by fastforce
  note renamed = rename_lawD [OF posix_fs_parts(3) [OF fs] rn]
  show ?thesis
  proof (cases r)
    case None
    obtain e w2 where sy: "sync (path) w1 = (e, w2)" by fastforce
    note synced = parent_sync_lawD [OF sync sy]
    have node: "fv_node (fs_now tr w1) path = Some (Regular data)" "replacing path data N (fs_now tr w1)"
      using renamed(1) [OF None] off staged by (auto simp: off_path_def replacing_def)
    have "within tr w w1 (replacing path data N)"
      by (intro within_step [where tr = tr] renamed(3) node(2))
    moreover have "within tr w1 w2 (replacing path data N)"
      using node(2) synced(1) by (intro within_step [where tr = tr] synced(2)) (simp add: replacing_def)
    ultimately have "within tr w w2 (replacing path data N)" by (rule within_trans)
    moreover have "w' = w2" and "res = (case e of
        None \<Rightarrow> app_operation_success\<lparr>or_commit_state := APP_OPERATION_COMMITTED\<rparr>
      | Some x \<Rightarrow> operation_primary_error_with_commit (map_io_error x) APP_OPERATION_COMMIT_UNCERTAIN)"
      using run rn None sy by (auto simp: activate_staged_def sync_parent_def split: option.splits)
    ultimately show ?thesis
      using node(1) synced(1)
      by (auto simp: commit_honest_def operation_primary_error_with_commit_def
          operation_primary_error_def operation_result_defs split: option.splits)
  next
    case (Some e)
    have off1: "off_path (path @ ''.tmp'') N (fs_now tr w1)" using renamed(2) Some off by simp
    obtain c w2 where cu: "cleanup_path ops (path @ ''.tmp'') w1 = (c, w2)" by fastforce
    have res: "w' = w2" "res = (app_operation_record_cleanup
        (operation_primary_error (map_io_error e)) c)\<lparr>or_commit_state := APP_OPERATION_NOT_COMMITTED\<rparr>"
      using run rn Some cu by (simp_all add: activate_staged_def)
    have both: "within tr w w2 (off_path (path @ ''.tmp'') N)"
      by (rule within_trans [OF within_step [where tr = tr and P = "off_path (path @ ''.tmp'') N",
            OF renamed(3) off1] cleanup_path_confined [OF fs cu off1]])
    from within_last [OF both] have "fv_node (fs_now tr w2) path = N path"
      by (simp add: off_path_def)
    then show ?thesis
      using res within_mono [where tr = tr and Q = "replacing path data N", OF both]
        off_path_replacing failed_result_error [of "map_io_error e"]
      by (simp add: commit_honest_def)
  qed
qed

lemma success_ok: "app_operation_result_ok app_operation_success"
  by (simp add: operation_result_defs)

lemma stage_fails:
  assumes "stage_temporary_file ops p data required w = Some (r, w')"
    and "\<not> app_operation_result_ok r"
  shows "app_operation_result_error r \<noteq> APP_ERROR_NONE"
proof -
  have "\<exists>e c. e \<noteq> APP_ERROR_NONE \<and>
      (r = operation_primary_error e \<or> r = app_operation_record_cleanup (operation_primary_error e) c)"
    using assms success_ok unfolding stage_temporary_file_def Let_def
    by (auto split: sum.splits option.splits prod.splits if_splits dest: map_io_error_not_none [THEN notE])
  then show ?thesis using failed_cleanup_error record_primary_error by auto
qed

text \<open>
  C16: an atomic write replaces its target in one step, whatever the file system does to the
  bytes written and whichever call fails.  Every state the file system passes through has the
  old or the complete new content at the target and, outside the target and its \<open>.tmp\<close>
  companion, the old files; and the commit state it reports is honest: committed and uncertain
  mean the new content is in place, not committed means the old one is.
\<close>

theorem atomic_write_old_or_new:
  assumes fs: "posix_fs ops tr" and sync: "parent_sync_law sync tr"
    and run: "storage_atomic_write_with_ops_and_parent_sync_result path data required ops sync w =
      Some (res, w')"
  shows "within tr w w' (replacing path data (fv_node (fs_now tr w))) \<and>
    commit_honest path data (fv_node (fs_now tr w)) res (fs_now tr w')"
proof (cases "length path + 4 < APP_PATH_MAX_BYTES")
  case False
  then have "w' = w \<and> res = operation_primary_error_with_commit APP_ERROR_INVALID_ARGUMENT
      APP_OPERATION_NOT_COMMITTED"
    using run by (auto simp: storage_atomic_write_with_ops_and_parent_sync_result_def
        temporary_path_for_def fitted_def split: if_splits)
  then show ?thesis
    by (simp add: within_def replacing_def commit_honest_def operation_primary_error_with_commit_def
        operation_primary_error_def operation_result_defs)
next
  case True
  let ?N = "fv_node (fs_now tr w)" and ?tmp = "path @ ''.tmp''"
  have tmp: "temporary_path_for path = Inr ?tmp" "\<not> APP_PATH_MAX_BYTES \<le> length path"
    using True by (simp_all add: temporary_path_for_def fitted_def)
  obtain r1 w1 where st: "stage_temporary_file ops ?tmp data required w = Some (r1, w1)"
    using run tmp by (auto simp: storage_atomic_write_with_ops_and_parent_sync_result_def
        split: option.splits)
  have staged: "within tr w w1 (off_path ?tmp ?N)"
    "app_operation_result_ok r1 \<Longrightarrow> fv_node (fs_now tr w1) ?tmp = Some (Regular data)"
    using stage_confined [where N = ?N, OF fs st] by (simp_all add: off_path_def)
  note off = within_last [OF staged(1)]
  have replacing: "within tr w w1 (replacing path data ?N)"
    by (rule within_mono [OF staged(1)]) (rule off_path_replacing)
  show ?thesis
  proof (cases "app_operation_result_ok r1")
    case True
    then have "activate_staged ops sync ?tmp path w1 = (res, w')"
      using run tmp st by (simp add: storage_atomic_write_with_ops_and_parent_sync_result_def)
    from activate_honest [OF fs sync off staged(2) [OF True] this] show ?thesis
      using within_trans [OF replacing] by blast
  next
    case False
    then have res: "res = r1\<lparr>or_commit_state := APP_OPERATION_NOT_COMMITTED\<rparr>" "w' = w1"
      using run tmp st by (simp_all add: storage_atomic_write_with_ops_and_parent_sync_result_def)
    have "app_operation_result_error r1 \<noteq> APP_ERROR_NONE"
      using stage_fails [OF st False] .
    then show ?thesis
      using res off replacing
      by (simp add: commit_honest_def off_path_def app_operation_result_error_def split: if_splits)
  qed
qed

definition disk_sync :: "string \<Rightarrow> disk_world \<Rightarrow> errno option \<times> disk_world" where
  "disk_sync p w = disk_step None (fst w) w"

lemma disk_sync_law: "parent_sync_law disk_sync disk_trace"
  by (auto simp: parent_sync_law_def disk_sync_def disk_step_def)

lemma atomic_write_old_or_new_witness:
  "\<exists>res w'. storage_atomic_write_with_ops_and_parent_sync_result ''/s'' [7, 8] True disk_ops
       disk_sync (disk_of [(''/s'', Regular [1])]) = Some (res, w') \<and>
     or_commit_state res = APP_OPERATION_COMMITTED \<and>
     fv_node (fs_now disk_trace w') ''/s'' = Some (Regular [7, 8])"
proof -
  obtain res w' where run: "storage_atomic_write_with_ops_and_parent_sync_result ''/s'' [7, 8] True
      disk_ops disk_sync (disk_of [(''/s'', Regular [1])]) = Some (res, w')"
    and ok: "or_commit_state res = APP_OPERATION_COMMITTED"
    by (simp add: storage_atomic_write_with_ops_and_parent_sync_result_def temporary_path_for_def
        stage_temporary_file_def write_all.simps verify_file_def verify_loop.simps verify_end_def
        sync_staged_def close_staged_def activate_staged_def sync_parent_def disk_sync_def
        disk_eval limit_defs fitted_def operation_result_defs)
  from atomic_write_old_or_new [OF disk_posix disk_sync_law run]
  show ?thesis using run ok by (auto simp: commit_honest_def)
qed

section \<open>Returning\<close>

text \<open>No call is interrupted by a signal.\<close>

definition uninterrupted :: "'w fs_ops \<Rightarrow> bool" where
  "uninterrupted ops \<longleftrightarrow>
     (\<forall>d bs w. fst (op_write_file ops d bs w) \<noteq> Inl EINTR) \<and>
     (\<forall>d n w. fst (op_read_file ops d n w) \<noteq> Inl EINTR)"

lemma write_all_returns: "uninterrupted ops \<Longrightarrow> \<exists>y. write_all ops d data w = Some y"
proof (induction "length data" arbitrary: data w rule: less_induct)
  case less
  show ?case
  proof (cases "data = []")
    case True
    then show ?thesis by (simp add: write_all.simps)
  next
    case False
    obtain r w1 where wr: "op_write_file ops d data w = (r, w1)" by fastforce
    then have "r \<noteq> Inl EINTR" using less.prems by (metis fst_conv uninterrupted_def)
    then show ?thesis
      using less.hyps [of "drop (projr r) data" w1] less.prems False wr
      by (subst write_all.simps) (cases r, auto)
  qed
qed

lemma verify_loop_returns: "uninterrupted ops \<Longrightarrow> \<exists>y. verify_loop ops d expected w = Some y"
proof (induction "length expected" arbitrary: expected w rule: less_induct)
  case less
  show ?case
  proof (cases "expected = []")
    case True
    then show ?thesis by (simp add: verify_loop.simps)
  next
    case False
    let ?req = "if length expected < 256 then length expected else 256"
    obtain r w1 where rd: "op_read_file ops d ?req w = (r, w1)" by fastforce
    then have "r \<noteq> Inl EINTR" using less.prems by (metis fst_conv uninterrupted_def)
    then show ?thesis
      using less.hyps [of "drop (length (projr r)) expected" w1] less.prems False rd
      by (subst verify_loop.simps) (cases r, auto simp: Let_def)
  qed
qed

text \<open>
  an atomic write returns when no call is interrupted by a signal: the writing loop and the
  reading loop make progress with every call, however short the transfers.
\<close>

theorem atomic_write_returns:
  assumes "uninterrupted ops"
  shows "\<exists>res w'. storage_atomic_write_with_ops_and_parent_sync_result path data required ops sync w =
    Some (res, w')"
proof -
  have loop: "verify_loop ops d expected w \<noteq> None" for d expected w
    using verify_loop_returns [OF assms] by (metis option.distinct(1))
  have verify: "verify_file ops p data w \<noteq> None" for p w
    using loop by (auto simp: verify_file_def Let_def split: sum.split prod.split option.split)
      (metis option.distinct(1))+
  have "stage_temporary_file ops p data required w \<noteq> None" for p w
  proof -
    obtain r w1 where op: "op_open_file ops p O_WRONLY_CREAT_TRUNC w = (r, w1)" by fastforce
    show ?thesis
    proof (cases r)
      case (Inr d)
      obtain e2 w2 where wr: "write_all ops d data w1 = Some (e2, w2)"
        using write_all_returns [OF assms] by fastforce
      obtain e3 w3 where sy:
        "(if e2 = APP_ERROR_NONE then sync_staged ops required d w2 else (e2, w2)) = (e3, w3)"
        by fastforce
      obtain e4 w4 where cl: "close_staged ops d e3 w3 = (e4, w4)" by fastforce
      obtain e5 w5 where
        "(if e4 = APP_ERROR_NONE then verify_file ops p data w4 else Some (e4, w4)) = Some (e5, w5)"
        using verify [of p w4] by (cases "e4 = APP_ERROR_NONE") auto
      then show ?thesis
        using op Inr wr sy cl by (simp add: stage_temporary_file_def split: prod.split)
    qed (simp add: stage_temporary_file_def op)
  qed
  then show ?thesis
    by (auto simp: storage_atomic_write_with_ops_and_parent_sync_result_def
        split: sum.split option.split prod.split)
       (metis option.distinct(1) surj_pair)+
qed

lemma disk_uninterrupted: "uninterrupted disk_ops"
  by (auto simp: uninterrupted_def disk_ops_def disk_step_def Let_def
      split: option.splits open_mode.splits fs_node.splits)

lemma atomic_write_returns_witness:
  "\<exists>res w'. storage_atomic_write_with_ops_and_parent_sync_result ''/s'' [7, 8] False disk_ops
     disk_sync (disk_of []) = Some (res, w')"
  by (rule atomic_write_returns [OF disk_uninterrupted])

end
