(* ===== verification/Storage_Upload.thy ===== *)
theory Storage_Upload
  imports Storage_Access Storage_Atomic
begin

text \<open>
  The upload of a blob (\<open>storage/storage_blob_upload_core.c\<close>, \<open>storage/storage_blob_upload.c\<close>):
  the bytes are staged in the file \<open>.gz.tmp\<close> through a buffered stream; the commit flushes,
  synchronises and closes it, persists the next identifier, renames the file to its final name
  and synchronises the directory.  The stream and the persisted counter are the C library and
  NVS: \<open>st_buffer\<close> and \<open>st_counter\<close> read them off the world, and \<open>upload_fs\<close> says what the calls
  document about them.
\<close>

section \<open>State\<close>

record 'w upload_ops =
  up_open_temporary :: "string \<Rightarrow> 'w \<Rightarrow> (errno + nat) \<times> 'w"
  up_write_stream :: "nat \<Rightarrow> u8 list \<Rightarrow> 'w \<Rightarrow> (nat \<times> errno option) \<times> 'w"
  up_flush_stream :: "nat \<Rightarrow> 'w \<Rightarrow> errno option \<times> 'w"
  up_sync_stream :: "nat \<Rightarrow> 'w \<Rightarrow> errno option \<times> 'w"
  up_close_stream :: "nat \<Rightarrow> 'w \<Rightarrow> errno option \<times> 'w"
  up_stat_path :: "string \<Rightarrow> 'w \<Rightarrow> (errno + file_stat) \<times> 'w"
  up_rename_path :: "string \<Rightarrow> string \<Rightarrow> 'w \<Rightarrow> errno option \<times> 'w"
  up_unlink_path :: "string \<Rightarrow> 'w \<Rightarrow> errno option \<times> 'w"
  up_sync_parent :: "string \<Rightarrow> 'w \<Rightarrow> errno option \<times> 'w"
  up_persist_next_id :: "u64 \<Rightarrow> 'w \<Rightarrow> app_error \<times> 'w"

record blob_upload =
  bu_stream :: "nat option"
  bu_has_operations :: bool
  bu_id :: u64
  bu_expected_bytes :: nat
  bu_stored_bytes :: nat
  bu_active :: bool
  bu_final_path_owned :: bool
  bu_committed :: bool
  bu_temporary_path :: string
  bu_final_path :: string

definition blob_upload_zero :: blob_upload where
  "blob_upload_zero = \<lparr>bu_stream = None, bu_has_operations = False, bu_id = 0,
     bu_expected_bytes = 0, bu_stored_bytes = 0, bu_active = False, bu_final_path_owned = False,
     bu_committed = False, bu_temporary_path = [], bu_final_path = []\<rparr>"

definition blob_entry_zero :: blob_entry where
  "blob_entry_zero = \<lparr>be_id = 0, be_stored_bytes = 0\<rparr>"

definition STORAGE_BLOB_UPLOAD_PATH_CAPACITY :: nat where
  [limit_defs]: "STORAGE_BLOB_UPLOAD_PATH_CAPACITY = 64"

definition APP_V2_BLOB_MAX_BYTES :: nat where
  [limit_defs]: "APP_V2_BLOB_MAX_BYTES = 131072"

section \<open>Beginning and writing\<close>

definition primary_error :: "app_error \<Rightarrow> commit_state \<Rightarrow> operation_result" where
  "primary_error e commit =
     (app_operation_record_primary app_operation_success e)\<lparr>or_commit_state := commit\<rparr>"

definition build_upload_paths :: "string \<Rightarrow> u64 \<Rightarrow> app_error + string \<times> string" where
  "build_upload_paths directory_path blob_id =
     (case storage_blob_format_filename blob_id STORAGE_BLOB_FILENAME_CAPACITY of
        Inl e \<Rightarrow> Inl e
      | Inr filename \<Rightarrow>
          (case fitted STORAGE_BLOB_UPLOAD_PATH_CAPACITY (directory_path @ ''/'' @ filename) of
             None \<Rightarrow> Inl APP_ERROR_INVALID_ARGUMENT
           | Some final_path \<Rightarrow>
               (case fitted STORAGE_BLOB_UPLOAD_PATH_CAPACITY (final_path @ ''.tmp'') of
                  None \<Rightarrow> Inl APP_ERROR_INVALID_ARGUMENT
                | Some temporary_path \<Rightarrow> Inr (final_path, temporary_path))))"

definition require_path_absent :: "'w upload_ops \<Rightarrow> string \<Rightarrow> 'w \<Rightarrow> app_error \<times> 'w" where
  "require_path_absent ops path w =
     (case up_stat_path ops path w of
        (Inr metadata, w) \<Rightarrow> (APP_ERROR_CONFLICT, w)
      | (Inl e, w) \<Rightarrow> (if e = ENOENT then APP_ERROR_NONE else map_io_error e, w))"

definition unlink_path_if_present :: "'w upload_ops \<Rightarrow> string \<Rightarrow> 'w \<Rightarrow> app_error \<times> 'w" where
  "unlink_path_if_present ops path w =
     (case up_unlink_path ops path w of
        (None, w) \<Rightarrow> (APP_ERROR_NONE, w)
      | (Some e, w) \<Rightarrow> (if e = ENOENT then APP_ERROR_NONE else map_io_error e, w))"

definition cleanup_failure ::
  "'w upload_ops \<Rightarrow> string \<Rightarrow> app_error \<Rightarrow> 'w \<Rightarrow> operation_result \<times> 'w" where
  "cleanup_failure ops temporary_path primary w =
     (case unlink_path_if_present ops temporary_path w of (cleanup, w) \<Rightarrow>
        (app_operation_record_cleanup (primary_error primary APP_OPERATION_NOT_COMMITTED) cleanup, w))"

definition storage_blob_upload_begin_with_ops ::
  "string \<Rightarrow> u64 \<Rightarrow> nat \<Rightarrow> nat \<Rightarrow> 'w upload_ops \<Rightarrow> 'w \<Rightarrow> app_error \<times> blob_upload \<times> 'w" where
  "storage_blob_upload_begin_with_ops directory_path blob_id expected_bytes maximum_bytes ops w =
     (if directory_path = [] \<or> blob_id = 0 \<or> expected_bytes = 0 \<or> maximum_bytes < expected_bytes \<or>
         maximum_bytes = 0
      then (APP_ERROR_INVALID_ARGUMENT, blob_upload_zero, w)
      else if blob_id = - 1 then (APP_ERROR_STORAGE_FULL, blob_upload_zero, w)
      else case build_upload_paths directory_path blob_id of
        Inl e \<Rightarrow> (e, blob_upload_zero, w)
      | Inr (final_path, temporary_path) \<Rightarrow>
          (case require_path_absent ops final_path w of (result, w) \<Rightarrow>
             if result \<noteq> APP_ERROR_NONE then (result, blob_upload_zero, w)
             else case require_path_absent ops temporary_path w of (result, w) \<Rightarrow>
               if result \<noteq> APP_ERROR_NONE then (result, blob_upload_zero, w)
               else case up_open_temporary ops temporary_path w of
                 (Inl e, w) \<Rightarrow> (map_io_error e, blob_upload_zero, w)
               | (Inr stream, w) \<Rightarrow>
                   (APP_ERROR_NONE,
                    \<lparr>bu_stream = Some stream, bu_has_operations = True, bu_id = blob_id,
                     bu_expected_bytes = expected_bytes, bu_stored_bytes = 0, bu_active = True,
                     bu_final_path_owned = False, bu_committed = False,
                     bu_temporary_path = temporary_path, bu_final_path = final_path\<rparr>, w)))"

definition storage_blob_upload_write_with_ops ::
  "'w upload_ops \<Rightarrow> blob_upload \<Rightarrow> u8 list \<Rightarrow> 'w \<Rightarrow> app_error \<times> blob_upload \<times> 'w" where
  "storage_blob_upload_write_with_ops ops upload data w =
     (case bu_stream upload of
        None \<Rightarrow> (APP_ERROR_INVALID_ARGUMENT, upload, w)
      | Some stream \<Rightarrow>
          if data = [] \<or> \<not> bu_active upload \<or> bu_committed upload \<or> \<not> bu_has_operations upload \<or>
             bu_expected_bytes upload < bu_stored_bytes upload \<or>
             bu_expected_bytes upload - bu_stored_bytes upload < length data
          then (APP_ERROR_INVALID_ARGUMENT, upload, w)
          else (case up_write_stream ops stream data w of
              ((written, error), w) \<Rightarrow>
                if written \<noteq> length data
                then (map_io_error (case error of None \<Rightarrow> EIO | Some e \<Rightarrow> e), upload, w)
                else (APP_ERROR_NONE,
                      upload\<lparr>bu_stored_bytes := bu_stored_bytes upload + written\<rparr>, w)))"

section \<open>Committing and aborting\<close>

definition close_staged_stream ::
  "'w upload_ops \<Rightarrow> nat \<Rightarrow> 'w \<Rightarrow> app_error \<times> 'w" where
  "close_staged_stream ops stream w =
     (case up_flush_stream ops stream w of (flushed, w) \<Rightarrow>
        let result = (case flushed of None \<Rightarrow> APP_ERROR_NONE | Some e \<Rightarrow> map_io_error e);
            (result, w) = (if result = APP_ERROR_NONE
                           then (case up_sync_stream ops stream w of
                               (None, w) \<Rightarrow> (APP_ERROR_NONE, w)
                             | (Some e, w) \<Rightarrow> (map_io_error e, w))
                           else (result, w))
        in (case up_close_stream ops stream w of
              (None, w) \<Rightarrow> (result, w)
            | (Some e, w) \<Rightarrow> (if result = APP_ERROR_NONE then map_io_error e else result, w)))"

definition activate_upload ::
  "'w upload_ops \<Rightarrow> blob_upload \<Rightarrow> 'w \<Rightarrow> operation_result \<times> blob_entry \<times> blob_upload \<times> 'w" where
  "activate_upload ops upload w =
     (case up_rename_path ops (bu_temporary_path upload) (bu_final_path upload) w of
        (Some e, w) \<Rightarrow>
          (case cleanup_failure ops (bu_temporary_path upload) (map_io_error e) w of
             (r, w) \<Rightarrow> (r, blob_entry_zero, upload, w))
      | (None, w) \<Rightarrow>
          let upload = upload\<lparr>bu_final_path_owned := True\<rparr>
          in (case up_sync_parent ops (bu_final_path upload) w of
                (Some e, w) \<Rightarrow>
                  (primary_error (map_io_error e) APP_OPERATION_COMMIT_UNCERTAIN, blob_entry_zero,
                   upload, w)
              | (None, w) \<Rightarrow>
                  (app_operation_success\<lparr>or_commit_state := APP_OPERATION_COMMITTED\<rparr>,
                   \<lparr>be_id = bu_id upload, be_stored_bytes = bu_stored_bytes upload\<rparr>,
                   upload\<lparr>bu_committed := True\<rparr>, w)))"

definition storage_blob_upload_commit_with_ops_result ::
  "'w upload_ops \<Rightarrow> blob_upload \<Rightarrow> 'w \<Rightarrow> operation_result \<times> blob_entry \<times> blob_upload \<times> 'w" where
  "storage_blob_upload_commit_with_ops_result ops upload w =
     (if bu_stream upload = None \<or> \<not> bu_active upload \<or> bu_committed upload \<or>
         \<not> bu_has_operations upload \<or> bu_stored_bytes upload \<noteq> bu_expected_bytes upload
      then (primary_error APP_ERROR_INVALID_ARGUMENT APP_OPERATION_NOT_COMMITTED, blob_entry_zero,
            upload, w)
      else if bu_id upload = - 1
      then (primary_error APP_ERROR_STORAGE_FULL APP_OPERATION_NOT_COMMITTED, blob_entry_zero,
            upload, w)
      else let failed = (\<lambda>e upload w.
                 case cleanup_failure ops (bu_temporary_path upload) e w of
                   (r, w) \<Rightarrow> (r, blob_entry_zero, upload, w))
           in (case close_staged_stream ops (the (bu_stream upload)) w of (result, w) \<Rightarrow>
             let upload = upload\<lparr>bu_stream := None, bu_active := False\<rparr>
             in if result \<noteq> APP_ERROR_NONE then failed result upload w
                else case require_path_absent ops (bu_final_path upload) w of (result, w) \<Rightarrow>
                  if result \<noteq> APP_ERROR_NONE then failed result upload w
                  else case up_persist_next_id ops (bu_id upload + 1) w of (result, w) \<Rightarrow>
                    if result \<noteq> APP_ERROR_NONE then failed result upload w
                    else activate_upload ops upload w))"

definition storage_blob_upload_commit_with_ops ::
  "'w upload_ops \<Rightarrow> blob_upload \<Rightarrow> 'w \<Rightarrow> app_error \<times> blob_entry \<times> blob_upload \<times> 'w" where
  "storage_blob_upload_commit_with_ops ops upload w =
     (case storage_blob_upload_commit_with_ops_result ops upload w of
        (r, out) \<Rightarrow> (app_operation_result_error r, out))"

definition storage_blob_upload_abort_with_ops_result ::
  "'w upload_ops \<Rightarrow> blob_upload \<Rightarrow> 'w \<Rightarrow> operation_result \<times> blob_upload \<times> 'w" where
  "storage_blob_upload_abort_with_ops_result ops upload w =
     (if \<not> bu_has_operations upload
      then (primary_error APP_ERROR_INVALID_ARGUMENT APP_OPERATION_COMMIT_NOT_APPLICABLE, upload, w)
      else if bu_committed upload \<or> bu_final_path_owned upload
      then (app_operation_success, upload, w)
      else let (result, upload, w) =
                 (case bu_stream upload of
                    Some stream \<Rightarrow>
                      if bu_active upload
                      then (case up_close_stream ops stream w of (closed, w) \<Rightarrow>
                          (case closed of
                             None \<Rightarrow> app_operation_success
                           | Some e \<Rightarrow>
                               app_operation_record_primary app_operation_success (map_io_error e),
                           upload\<lparr>bu_stream := None, bu_active := False\<rparr>, w))
                      else (app_operation_success, upload, w)
                  | None \<Rightarrow> (app_operation_success, upload, w))
           in (case unlink_path_if_present ops (bu_temporary_path upload) w of (cleanup, w) \<Rightarrow>
                (if cleanup \<noteq> APP_ERROR_NONE
                 then if or_primary_error result = APP_ERROR_NONE
                      then app_operation_record_primary result cleanup
                      else app_operation_record_cleanup result cleanup
                 else result, upload, w)))"

definition storage_blob_upload_abort_with_ops ::
  "'w upload_ops \<Rightarrow> blob_upload \<Rightarrow> 'w \<Rightarrow> app_error \<times> blob_upload \<times> 'w" where
  "storage_blob_upload_abort_with_ops ops upload w =
     (case storage_blob_upload_abort_with_ops_result ops upload w of
        (r, out) \<Rightarrow> (app_operation_result_error r, out))"

section \<open>The module entry points\<close>

definition storage_blob_upload_begin ::
  "'w upload_ops \<Rightarrow> scan_summary \<Rightarrow> nat \<Rightarrow> 'w \<Rightarrow> app_error \<times> blob_upload \<times> 'w" where
  "storage_blob_upload_begin ops scan_state expected_bytes w =
     storage_blob_upload_begin_with_ops STORAGE_BLOB_DIRECTORY (ss_next_id scan_state)
       expected_bytes APP_V2_BLOB_MAX_BYTES ops w"

definition storage_blob_upload_commit_result ::
  "'w upload_ops \<Rightarrow> blob_upload \<Rightarrow> scan_summary \<Rightarrow> 'w \<Rightarrow>
     operation_result \<times> blob_entry \<times> blob_upload \<times> scan_summary \<times> 'w" where
  "storage_blob_upload_commit_result ops upload scan_state w =
     (case storage_blob_upload_commit_with_ops_result ops upload w of
        (detailed, entry, upload', w) \<Rightarrow>
          (detailed, entry, upload',
           if \<not> bu_committed upload \<and> bu_committed upload'
           then storage_blob_record_committed_entry
                  \<lparr>be_id = bu_id upload', be_stored_bytes = bu_stored_bytes upload'\<rparr> scan_state
           else scan_state, w))"

definition storage_blob_upload_commit ::
  "'w upload_ops \<Rightarrow> blob_upload \<Rightarrow> scan_summary \<Rightarrow> 'w \<Rightarrow>
     app_error \<times> blob_entry \<times> blob_upload \<times> scan_summary \<times> 'w" where
  "storage_blob_upload_commit ops upload scan_state w =
     (case storage_blob_upload_commit_result ops upload scan_state w of
        (detailed, out) \<Rightarrow>
          (if or_commit_state detailed = APP_OPERATION_COMMIT_UNCERTAIN
           then APP_ERROR_COMMIT_UNCERTAIN else app_operation_result_error detailed, out))"

section \<open>What the calls document\<close>

definition stream_laws ::
  "'w upload_ops \<Rightarrow> ('w \<Rightarrow> fs_view list) \<Rightarrow> ('w \<Rightarrow> nat \<Rightarrow> (string \<times> u8 list) option) \<Rightarrow> bool" where
  "stream_laws ops tr st_buffer \<longleftrightarrow>
     (\<forall>p w r w'. up_open_temporary ops p w = (r, w') \<longrightarrow>
        fs_moves tr w w' (\<lambda>v v'. only_path p v v') \<and>
        (\<forall>h. r = Inr h \<longrightarrow> st_buffer w' h = Some (p, []))) \<and>
     (\<forall>h data w n e w' p bs. up_write_stream ops h data w = ((n, e), w') \<longrightarrow>
        st_buffer w h = Some (p, bs) \<longrightarrow>
        fs_moves tr w w' (\<lambda>v v'. only_path p v v') \<and>
        (\<exists>bs'. st_buffer w' h = Some (p, bs') \<and> (n = length data \<longrightarrow> bs' = bs @ data))) \<and>
     (\<forall>h w r w' p bs. up_flush_stream ops h w = (r, w') \<longrightarrow> st_buffer w h = Some (p, bs) \<longrightarrow>
        fs_moves tr w w' (\<lambda>v v'. only_path p v v' \<and>
          (r = None \<longrightarrow> fv_node v' p = Some (Regular bs))) \<and>
        st_buffer w' h = Some (p, bs)) \<and>
     (\<forall>h w r w'. up_sync_stream ops h w = (r, w') \<longrightarrow>
        fs_moves tr w w' (\<lambda>v v'. v' = v) \<and> st_buffer w' = st_buffer w) \<and>
     (\<forall>h w r w' p bs. up_close_stream ops h w = (r, w') \<longrightarrow> st_buffer w h = Some (p, bs) \<longrightarrow>
        fs_moves tr w w' (\<lambda>v v'. only_path p v v' \<and>
          (fv_node v p = Some (Regular bs) \<longrightarrow> fv_node v' p = fv_node v p)))"

definition counter_laws :: "'w upload_ops \<Rightarrow> ('w \<Rightarrow> fs_view list) \<Rightarrow> ('w \<Rightarrow> u64) \<Rightarrow> bool" where
  "counter_laws ops tr st_counter \<longleftrightarrow>
     (\<forall>n w e w'. up_persist_next_id ops n w = (e, w') \<longrightarrow>
        fs_moves tr w w' (\<lambda>v v'. fv_node v' = fv_node v) \<and>
        (e = APP_ERROR_NONE \<longrightarrow> st_counter w' = n)) \<and>
     (\<forall>p q w r w'. up_rename_path ops p q w = (r, w') \<longrightarrow> st_counter w' = st_counter w) \<and>
     (\<forall>p w r w'. up_sync_parent ops p w = (r, w') \<longrightarrow> st_counter w' = st_counter w)"

definition upload_fs ::
  "'w upload_ops \<Rightarrow> ('w \<Rightarrow> fs_view list) \<Rightarrow> ('w \<Rightarrow> nat \<Rightarrow> (string \<times> u8 list) option) \<Rightarrow>
     ('w \<Rightarrow> u64) \<Rightarrow> bool" where
  "upload_fs ops tr st_buffer st_counter \<longleftrightarrow>
     stat_law (up_stat_path ops) tr \<and> unlink_law (up_unlink_path ops) tr \<and>
     rename_law (up_rename_path ops) tr \<and> parent_sync_law (up_sync_parent ops) tr \<and>
     stream_laws ops tr st_buffer \<and> counter_laws ops tr st_counter"

lemma upload_fs_parts:
  assumes "upload_fs ops tr buf ctr"
  shows "stat_law (up_stat_path ops) tr" "unlink_law (up_unlink_path ops) tr"
    "rename_law (up_rename_path ops) tr" "parent_sync_law (up_sync_parent ops) tr"
    "stream_laws ops tr buf" "counter_laws ops tr ctr"
  using assms by (simp_all add: upload_fs_def)

lemma moves_off_path:
  assumes "fs_moves tr w w' (\<lambda>v v'. only_path p v v' \<and> Q v v')" and "off_path p N (fs_now tr w)"
  shows "within tr w w' (off_path p N)" and "Q (fs_now tr w) (fs_now tr w')"
proof -
  note now = fs_moves_now [OF assms(1)]
  show "within tr w w' (off_path p N)"
    using off_path_only [OF assms(2)] now
    by (intro within_step [where tr = tr] fs_moves_trace [OF assms(1)]) blast
  show "Q (fs_now tr w) (fs_now tr w')" using now by blast
qed

lemma open_temporaryD:
  assumes "upload_fs ops tr buf ctr" and "up_open_temporary ops p w = (r, w')"
    and "off_path p N (fs_now tr w)"
  shows "within tr w w' (off_path p N)" and "r = Inr h \<Longrightarrow> buf w' h = Some (p, [])"
proof -
  have law: "fs_moves tr w w' (\<lambda>v v'. only_path p v v') \<and>
      (\<forall>h. r = Inr h \<longrightarrow> buf w' h = Some (p, []))"
    using upload_fs_parts(5) [OF assms(1)] assms(2) by (simp add: stream_laws_def)
  then have "fs_moves tr w w' (\<lambda>v v'. only_path p v v' \<and> True)" by simp
  from moves_off_path(1) [OF this assms(3)] show "within tr w w' (off_path p N)" .
  show "r = Inr h \<Longrightarrow> buf w' h = Some (p, [])" using law by simp
qed

lemma write_streamD:
  assumes "upload_fs ops tr buf ctr" and "up_write_stream ops h data w = ((n, e), w')"
    and "buf w h = Some (p, bs)" and "off_path p N (fs_now tr w)"
  shows "within tr w w' (off_path p N)"
    and "\<exists>bs'. buf w' h = Some (p, bs') \<and> (n = length data \<longrightarrow> bs' = bs @ data)"
proof -
  have law: "fs_moves tr w w' (\<lambda>v v'. only_path p v v') \<and>
      (\<exists>bs'. buf w' h = Some (p, bs') \<and> (n = length data \<longrightarrow> bs' = bs @ data))"
    using upload_fs_parts(5) [OF assms(1)] assms(2,3) by (simp add: stream_laws_def)
  then have "fs_moves tr w w' (\<lambda>v v'. only_path p v v' \<and> True)" by simp
  from moves_off_path(1) [OF this assms(4)] show "within tr w w' (off_path p N)" .
  show "\<exists>bs'. buf w' h = Some (p, bs') \<and> (n = length data \<longrightarrow> bs' = bs @ data)"
    using law by simp
qed

lemma flush_streamD:
  assumes "upload_fs ops tr buf ctr" and "up_flush_stream ops h w = (r, w')"
    and "buf w h = Some (p, bs)" and "off_path p N (fs_now tr w)"
  shows "within tr w w' (off_path p N)" and "buf w' h = Some (p, bs)"
    and "r = None \<Longrightarrow> fv_node (fs_now tr w') p = Some (Regular bs)"
proof -
  have law: "fs_moves tr w w' (\<lambda>v v'. only_path p v v' \<and>
      (r = None \<longrightarrow> fv_node v' p = Some (Regular bs)))" and b: "buf w' h = Some (p, bs)"
    using upload_fs_parts(5) [OF assms(1)] assms(2,3) by (simp_all add: stream_laws_def)
  note off = moves_off_path [OF law assms(4)]
  show "within tr w w' (off_path p N)" by (rule off(1))
  show "buf w' h = Some (p, bs)" by (rule b)
  show "r = None \<Longrightarrow> fv_node (fs_now tr w') p = Some (Regular bs)" using off(2) by blast
qed

lemma sync_streamD:
  assumes "upload_fs ops tr buf ctr" and "up_sync_stream ops h w = (r, w')"
    and "P (fs_now tr w)"
  shows "within tr w w' P" and "buf w' = buf w" and "fs_now tr w' = fs_now tr w"
proof -
  have law: "fs_moves tr w w' (\<lambda>v v'. v' = v)" and b: "buf w' = buf w"
    using upload_fs_parts(5) [OF assms(1)] assms(2) by (simp_all add: stream_laws_def)
  have now: "fs_now tr w' = fs_now tr w" by (rule fs_moves_now [OF law])
  show "within tr w w' P"
    using now assms(3) by (intro within_step [where tr = tr] fs_moves_trace [OF law]) simp
  show "buf w' = buf w" by (rule b)
  show "fs_now tr w' = fs_now tr w" by (rule now)
qed

lemma close_streamD:
  assumes "upload_fs ops tr buf ctr" and "up_close_stream ops h w = (r, w')"
    and "buf w h = Some (p, bs)" and "off_path p N (fs_now tr w)"
  shows "within tr w w' (off_path p N)"
    and "fv_node (fs_now tr w) p = Some (Regular bs) \<Longrightarrow>
      fv_node (fs_now tr w') p = Some (Regular bs)"
proof -
  have law: "fs_moves tr w w' (\<lambda>v v'. only_path p v v' \<and>
      (fv_node v p = Some (Regular bs) \<longrightarrow> fv_node v' p = fv_node v p))"
    using upload_fs_parts(5) [OF assms(1)] assms(2,3) by (simp add: stream_laws_def)
  note off = moves_off_path [OF law assms(4)]
  show "within tr w w' (off_path p N)" by (rule off(1))
  show "fv_node (fs_now tr w) p = Some (Regular bs) \<Longrightarrow>
      fv_node (fs_now tr w') p = Some (Regular bs)" using off(2) by simp
qed

lemma require_path_absentD:
  assumes "upload_fs ops tr buf ctr" and "require_path_absent ops p w = (e, w')"
    and "P (fs_now tr w)"
  shows "within tr w w' P" and "fs_now tr w' = fs_now tr w"
    and "e = APP_ERROR_NONE \<Longrightarrow> fv_node (fs_now tr w) p = None"
proof -
  obtain r w1 where st: "up_stat_path ops p w = (r, w1)" by fastforce
  note stat = stat_lawD [OF upload_fs_parts(1) [OF assms(1)] st]
  have w': "w' = w1" using assms(2) st by (auto simp: require_path_absent_def split: sum.splits)
  show "within tr w w' P"
    unfolding w' using stat(1) assms(3) by (intro within_step [where tr = tr] stat(4)) simp
  show "fs_now tr w' = fs_now tr w" using w' stat(1) by simp
  show "e = APP_ERROR_NONE \<Longrightarrow> fv_node (fs_now tr w) p = None"
    using assms(2) st stat(3)
    by (auto simp: require_path_absent_def split: sum.splits if_splits)
qed

lemma unlink_if_presentD:
  assumes "upload_fs ops tr buf ctr" and "unlink_path_if_present ops p w = (e, w')"
    and "off_path p N (fs_now tr w)"
  shows "within tr w w' (off_path p N)"
    and "e = APP_ERROR_NONE \<Longrightarrow> fv_node (fs_now tr w') p = None"
proof -
  obtain u w1 where ul: "up_unlink_path ops p w = (u, w1)" by fastforce
  note unlink = unlink_lawD [OF upload_fs_parts(2) [OF assms(1)] ul]
  have w': "w' = w1" using assms(2) ul by (auto simp: unlink_path_if_present_def split: option.splits)
  show "within tr w w' (off_path p N)"
    unfolding w' using unlink(1,2) assms(3)
    by (intro within_step [where tr = tr] unlink(4)) (cases u, auto simp: off_path_def)
  show "e = APP_ERROR_NONE \<Longrightarrow> fv_node (fs_now tr w') p = None"
    using assms(2) ul unlink(1,2,3)
    by (auto simp: unlink_path_if_present_def split: option.splits if_splits)
qed

section \<open>An upload in progress\<close>

text \<open>
  The files are those from before the upload except the staged file; the stream holds the
  bytes received so far.
\<close>

definition uploading ::
  "('w \<Rightarrow> fs_view list) \<Rightarrow> ('w \<Rightarrow> nat \<Rightarrow> (string \<times> u8 list) option) \<Rightarrow>
     (string \<Rightarrow> fs_node option) \<Rightarrow> u8 list \<Rightarrow> blob_upload \<Rightarrow> 'w \<Rightarrow> bool" where
  "uploading tr buf N content u w \<longleftrightarrow>
     bu_active u \<and> bu_has_operations u \<and> \<not> bu_committed u \<and> \<not> bu_final_path_owned u \<and>
     bu_temporary_path u = bu_final_path u @ ''.tmp'' \<and>
     bu_stored_bytes u = length content \<and> length content \<le> bu_expected_bytes u \<and>
     (\<exists>h. bu_stream u = Some h \<and> buf w h = Some (bu_temporary_path u, content)) \<and>
     off_path (bu_temporary_path u) N (fs_now tr w)"

lemma build_upload_paths_Inr:
  "build_upload_paths dir x = Inr (f, t) \<Longrightarrow> f = blob_path dir x \<and> t = f @ ''.tmp''"
  by (auto simp: build_upload_paths_def format_filename_Inr_iff split: sum.splits option.splits)

lemma build_upload_paths_Inl: "build_upload_paths dir x = Inl e \<Longrightarrow> e \<noteq> APP_ERROR_NONE"
  by (auto simp: build_upload_paths_def storage_blob_format_filename_def
      split: sum.splits option.splits if_splits)

lemma upload_beginD:
  assumes fs: "upload_fs ops tr buf ctr"
    and run: "storage_blob_upload_begin_with_ops dir x expected maximum ops w =
      (APP_ERROR_NONE, u, w')"
  shows "bu_id u = x" and "bu_final_path u = blob_path dir x" and "bu_expected_bytes u = expected"
    and "uploading tr buf (fv_node (fs_now tr w)) [] u w'"
    and "within tr w w' (off_path (blob_path dir x @ ''.tmp'') (fv_node (fs_now tr w)))"
    and "fv_node (fs_now tr w) (blob_path dir x) = None" and "x \<noteq> - 1"
proof -
  let ?N = "fv_node (fs_now tr w)" and ?f = "blob_path dir x"
  let ?P = "off_path (?f @ ''.tmp'') ?N"
  obtain f t where paths: "build_upload_paths dir x = Inr (f, t)"
    using run build_upload_paths_Inl
    by (fastforce simp: storage_blob_upload_begin_with_ops_def split: if_splits sum.splits)
  have ft: "f = ?f" "t = ?f @ ''.tmp''" using build_upload_paths_Inr [OF paths] by simp_all
  obtain e1 w1 where r1: "require_path_absent ops f w = (e1, w1)" by fastforce
  obtain e2 w2 where r2: "require_path_absent ops t w1 = (e2, w2)" by fastforce
  obtain r w3 where op: "up_open_temporary ops t w2 = (r, w3)" by fastforce
  have start: "?P (fs_now tr w)" by (simp add: off_path_def)
  note one = require_path_absentD [where P = ?P, OF fs r1 start]
  note two = require_path_absentD [where P = ?P, OF fs r2 within_last [OF one(1)]]
  have off2: "off_path t ?N (fs_now tr w2)" using within_last [OF two(1)] ft by simp
  note three = open_temporaryD [OF fs op off2]
  have good: "e1 = APP_ERROR_NONE" "e2 = APP_ERROR_NONE" "x \<noteq> - 1" "\<exists>h. r = Inr h"
    using run paths r1 r2 op
    by (auto simp: storage_blob_upload_begin_with_ops_def split: if_splits sum.splits)
  obtain h where h: "r = Inr h" using good(4) by blast
  have u: "u = \<lparr>bu_stream = Some h, bu_has_operations = True, bu_id = x,
      bu_expected_bytes = expected, bu_stored_bytes = 0, bu_active = True,
      bu_final_path_owned = False, bu_committed = False,
      bu_temporary_path = t, bu_final_path = f\<rparr>" and w': "w' = w3"
    using run paths r1 r2 op good(1,2) h
    by (auto simp: storage_blob_upload_begin_with_ops_def split: if_splits)
  show "bu_id u = x" "bu_final_path u = ?f" "bu_expected_bytes u = expected"
    using u ft by simp_all
  show "x \<noteq> - 1" by (rule good(3))
  show "fv_node (fs_now tr w) ?f = None" using one(3) [OF good(1)] ft by simp
  show "within tr w w' ?P"
    using within_trans [OF within_trans [OF one(1) two(1)]] three(1) w' ft by blast
  show "uploading tr buf ?N [] u w'"
    using u ft three(2) [OF h] within_last [OF three(1)] w' by (simp add: uploading_def)
qed

lemma upload_writeD:
  assumes fs: "upload_fs ops tr buf ctr" and up: "uploading tr buf N content u w"
    and run: "storage_blob_upload_write_with_ops ops u data w = (e, u', w')"
  shows "within tr w w' (off_path (bu_temporary_path u) N)"
    and "e = APP_ERROR_NONE \<Longrightarrow> uploading tr buf N (content @ data) u' w' \<and>
      bu_id u' = bu_id u \<and> bu_final_path u' = bu_final_path u \<and>
      bu_expected_bytes u' = bu_expected_bytes u"
proof -
  obtain h where h: "bu_stream u = Some h" "buf w h = Some (bu_temporary_path u, content)"
    using up by (auto simp: uploading_def)
  have off: "off_path (bu_temporary_path u) N (fs_now tr w)" using up unfolding uploading_def by blast
  have "within tr w w' (off_path (bu_temporary_path u) N) \<and>
    (e = APP_ERROR_NONE \<longrightarrow> uploading tr buf N (content @ data) u' w' \<and>
      bu_id u' = bu_id u \<and> bu_final_path u' = bu_final_path u \<and>
      bu_expected_bytes u' = bu_expected_bytes u)"
  proof (cases "data = [] \<or> bu_expected_bytes u - bu_stored_bytes u < length data")
    case True
    then have "e = APP_ERROR_INVALID_ARGUMENT \<and> u' = u \<and> w' = w"
      using run h up by (auto simp: storage_blob_upload_write_with_ops_def)
    then show ?thesis using within_refl [of "off_path (bu_temporary_path u) N" tr, OF off] by simp
  next
    case False
    obtain n er w1 where wr: "up_write_stream ops h data w = ((n, er), w1)"
      by (metis prod.exhaust)
    note wrote = write_streamD [OF fs wr h(2) off]
    have out: "w' = w1" "e = APP_ERROR_NONE \<longleftrightarrow> n = length data"
      "n = length data \<Longrightarrow> u' = u\<lparr>bu_stored_bytes := bu_stored_bytes u + n\<rparr>"
      using run h up False wr
      by (auto simp: storage_blob_upload_write_with_ops_def uploading_def split: if_splits)
    then show ?thesis
      using wrote within_last [OF wrote(1)] up h False by (auto simp: uploading_def)
  qed
  then show "within tr w w' (off_path (bu_temporary_path u) N)"
    and "e = APP_ERROR_NONE \<Longrightarrow> uploading tr buf N (content @ data) u' w' \<and>
      bu_id u' = bu_id u \<and> bu_final_path u' = bu_final_path u \<and>
      bu_expected_bytes u' = bu_expected_bytes u"
    by blast+
qed

text \<open>A client that writes the chunks of a body one by one.\<close>

fun upload_chunks ::
  "'w upload_ops \<Rightarrow> u8 list list \<Rightarrow> blob_upload \<Rightarrow> 'w \<Rightarrow> bool \<times> blob_upload \<times> 'w" where
  "upload_chunks ops [] u w = (True, u, w)"
| "upload_chunks ops (data # chunks) u w =
     (case storage_blob_upload_write_with_ops ops u data w of (e, u, w) \<Rightarrow>
        if e \<noteq> APP_ERROR_NONE then (False, u, w) else upload_chunks ops chunks u w)"

lemma upload_chunksD:
  assumes fs: "upload_fs ops tr buf ctr"
  shows "uploading tr buf N content u w \<Longrightarrow> upload_chunks ops chunks u w = (True, u', w') \<Longrightarrow>
    within tr w w' (off_path (bu_temporary_path u) N) \<and>
    uploading tr buf N (content @ concat chunks) u' w' \<and>
    bu_id u' = bu_id u \<and> bu_final_path u' = bu_final_path u \<and>
    bu_expected_bytes u' = bu_expected_bytes u"
proof (induction chunks arbitrary: content u w)
  case Nil
  then show ?case by (auto simp: uploading_def intro: within_refl [where tr = tr])
next
  case (Cons data chunks)
  obtain e u1 w1 where wr: "storage_blob_upload_write_with_ops ops u data w = (e, u1, w1)"
    by (metis prod.exhaust)
  note wrote = upload_writeD [OF fs Cons.prems(1) wr]
  have e: "e = APP_ERROR_NONE" and rest: "upload_chunks ops chunks u1 w1 = (True, u', w')"
    using Cons.prems(2) wr by (auto split: if_splits)
  note step = wrote(2) [OF e]
  note IH = Cons.IH [OF step [THEN conjunct1] rest]
  have same: "bu_temporary_path u1 = bu_temporary_path u"
    using step Cons.prems(1) by (simp add: uploading_def)
  show ?case
    using within_trans [OF wrote(1) IH [THEN conjunct1, unfolded same]] IH step by simp
qed

section \<open>The commit\<close>

lemma primary_error_honest:
  "e \<noteq> APP_ERROR_NONE \<Longrightarrow>
   or_commit_state (app_operation_record_cleanup (primary_error e APP_OPERATION_NOT_COMMITTED) c)
     = APP_OPERATION_NOT_COMMITTED"
  "e \<noteq> APP_ERROR_NONE \<Longrightarrow>
   app_operation_result_error
     (app_operation_record_cleanup (primary_error e APP_OPERATION_NOT_COMMITTED) c) = e"
  "app_operation_result_error (primary_error e s) = e"
  "or_commit_state (primary_error e s) = s"
  by (simp_all add: primary_error_def operation_result_defs)

text \<open>Every failure before the rename leaves the final path as it was.\<close>

lemma failed_commit:
  assumes fs: "upload_fs ops tr buf ctr" and "e \<noteq> APP_ERROR_NONE"
    and within: "within tr w w1 (off_path (f @ ''.tmp'') N)"
    and run: "cleanup_failure ops (f @ ''.tmp'') e w1 = (res, w')"
  shows "within tr w w' (replacing f data N) \<and> commit_honest f data N res (fs_now tr w') \<and>
    or_commit_state res = APP_OPERATION_NOT_COMMITTED"
proof -
  obtain c w2 where ul: "unlink_path_if_present ops (f @ ''.tmp'') w1 = (c, w2)" by fastforce
  have all: "within tr w w2 (off_path (f @ ''.tmp'') N)"
    by (rule within_trans [OF within unlink_if_presentD(1) [OF fs ul within_last [OF within]]])
  have out: "w' = w2"
    "res = app_operation_record_cleanup (primary_error e APP_OPERATION_NOT_COMMITTED) c"
    using run ul by (simp_all add: cleanup_failure_def)
  have "within tr w w2 (replacing f data N)"
    by (rule within_mono [OF all]) (rule off_path_replacing)
  moreover have "fv_node (fs_now tr w2) f = N f"
    using within_last [OF all] by (simp add: off_path_def)
  ultimately show ?thesis
    using assms(2) out by (simp add: commit_honest_def primary_error_honest)
qed

lemma close_stagedD:
  assumes fs: "upload_fs ops tr buf ctr" and run: "close_staged_stream ops h w = (e, w')"
    and h: "buf w h = Some (p, bs)" and off: "off_path p N (fs_now tr w)"
  shows "within tr w w' (off_path p N)"
    and "e = APP_ERROR_NONE \<Longrightarrow> fv_node (fs_now tr w') p = Some (Regular bs)"
proof -
  obtain r1 w1 where fl: "up_flush_stream ops h w = (r1, w1)" by fastforce
  note flushed = flush_streamD [OF fs fl h off]
  obtain r2 w2 where sy: "up_sync_stream ops h w1 = (r2, w2)" by fastforce
  note synced = sync_streamD [where P = "off_path p N", OF fs sy within_last [OF flushed(1)]]
  define w3 where "w3 = (if r1 = None then w2 else w1)"
  have three: "within tr w w3 (off_path p N)" "buf w3 h = Some (p, bs)"
    "r1 = None \<Longrightarrow> fv_node (fs_now tr w3) p = Some (Regular bs)"
    using flushed within_trans [OF flushed(1) synced(1)] synced(2,3) by (simp_all add: w3_def)
  obtain r4 w4 where cl: "up_close_stream ops h w3 = (r4, w4)" by fastforce
  note closed = close_streamD [OF fs cl three(2) within_last [OF three(1)]]
  have w': "w' = w4" and e: "e = APP_ERROR_NONE \<Longrightarrow> r1 = None"
    using run fl sy cl
    by (auto simp: close_staged_stream_def w3_def Let_def split: option.splits if_splits)
  show "within tr w w' (off_path p N)" unfolding w' by (rule within_trans [OF three(1) closed(1)])
  show "fv_node (fs_now tr w') p = Some (Regular bs)" if "e = APP_ERROR_NONE"
    unfolding w' using closed(2) three(3) e [OF that] by blast
qed

lemma activate_uploadD:
  assumes fs: "upload_fs ops tr buf ctr"
    and tmp: "bu_temporary_path u = bu_final_path u @ ''.tmp''"
    and off: "off_path (bu_temporary_path u) N (fs_now tr w)"
    and staged: "fv_node (fs_now tr w) (bu_temporary_path u) = Some (Regular data)"
    and run: "activate_upload ops u w = (res, entry, u', w')"
  shows "within tr w w' (replacing (bu_final_path u) data N) \<and>
    commit_honest (bu_final_path u) data N res (fs_now tr w') \<and>
    (or_commit_state res \<noteq> APP_OPERATION_NOT_COMMITTED \<longrightarrow>
       ctr w' = ctr w \<and> bu_final_path_owned u') \<and>
    (or_commit_state res = APP_OPERATION_COMMITTED \<longrightarrow>
       entry = \<lparr>be_id = bu_id u, be_stored_bytes = bu_stored_bytes u\<rparr> \<and> bu_committed u') \<and>
    (or_commit_state res = APP_OPERATION_NOT_COMMITTED \<longrightarrow> u' = u)"
proof -
  let ?f = "bu_final_path u"
  note off = off [unfolded tmp] and staged = staged [unfolded tmp]
  obtain r w1 where rn: "up_rename_path ops (?f @ ''.tmp'') ?f w = (r, w1)" by fastforce
  note renamed = rename_lawD [OF upload_fs_parts(3) [OF fs] rn]
  have kept: "ctr w1 = ctr w"
    using upload_fs_parts(6) [OF fs] rn unfolding counter_laws_def by blast
  show ?thesis
  proof (cases r)
    case (Some e)
    have "off_path (?f @ ''.tmp'') N (fs_now tr w1)" using renamed(2) Some off by simp
    then have "within tr w w1 (off_path (?f @ ''.tmp'') N)"
      by (intro within_step [where tr = tr] renamed(3))
    note failed = failed_commit [OF fs map_io_error_not_none this]
    obtain res' w2 where cu: "cleanup_failure ops (?f @ ''.tmp'') (map_io_error e) w1 = (res', w2)"
      by fastforce
    have "res = res' \<and> w' = w2 \<and> u' = u" using run rn Some cu tmp by (simp add: activate_upload_def)
    then show ?thesis using failed [OF cu] by simp
  next
    case None
    have node: "fv_node (fs_now tr w1) ?f = Some (Regular data)" "replacing ?f data N (fs_now tr w1)"
      using renamed(1) [OF None] off staged by (auto simp: off_path_def replacing_def)
    obtain e w2 where sy: "up_sync_parent ops ?f w1 = (e, w2)" by fastforce
    note synced = parent_sync_lawD [OF upload_fs_parts(4) [OF fs] sy]
    have kept2: "ctr w2 = ctr w"
      using kept upload_fs_parts(6) [OF fs] sy unfolding counter_laws_def by metis
    have one: "within tr w w1 (replacing ?f data N)"
      by (intro within_step [where tr = tr] renamed(3) node(2))
    have two: "within tr w1 w2 (replacing ?f data N)"
      using node(2) synced(1)
      by (intro within_step [where tr = tr] synced(2)) (simp add: replacing_def)
    have out: "w' = w2" "bu_final_path_owned u'"
      "res = (case e of None \<Rightarrow> app_operation_success\<lparr>or_commit_state := APP_OPERATION_COMMITTED\<rparr>
        | Some x \<Rightarrow> primary_error (map_io_error x) APP_OPERATION_COMMIT_UNCERTAIN)"
      "e = None \<Longrightarrow> entry = \<lparr>be_id = bu_id u, be_stored_bytes = bu_stored_bytes u\<rparr> \<and> bu_committed u'"
      using run rn None sy tmp by (auto simp: activate_upload_def Let_def split: option.splits)
    have "commit_honest ?f data N res (fs_now tr w2)"
      using out(3) node(1) synced(1)
      by (cases e) (simp_all add: commit_honest_def primary_error_def operation_result_defs)
    then show ?thesis
      using within_trans [OF one two] out kept2
      by (cases e) (simp_all add: primary_error_honest)
  qed
qed

lemma commit_outcome:
  assumes fs: "upload_fs ops tr buf ctr" and up: "uploading tr buf N data u w"
    and run: "storage_blob_upload_commit_with_ops_result ops u w = (res, entry, u', w')"
  shows "within tr w w' (replacing (bu_final_path u) data N) \<and>
    commit_honest (bu_final_path u) data N res (fs_now tr w') \<and>
    (or_commit_state res \<noteq> APP_OPERATION_NOT_COMMITTED \<longrightarrow>
       N (bu_final_path u) = None \<and> length data = bu_expected_bytes u \<and>
       ctr w' = bu_id u + 1 \<and> bu_final_path_owned u') \<and>
    (or_commit_state res = APP_OPERATION_COMMITTED \<longrightarrow>
       entry = \<lparr>be_id = bu_id u, be_stored_bytes = length data\<rparr> \<and> bu_committed u')"
proof -
  let ?f = "bu_final_path u" and ?t = "bu_temporary_path u"
  obtain h where h: "bu_stream u = Some h" "buf w h = Some (?t, data)"
    using up by (auto simp: uploading_def)
  have off: "off_path ?t N (fs_now tr w)" and tmp: "?t = ?f @ ''.tmp''"
    and stored: "bu_stored_bytes u = length data"
    using up unfolding uploading_def by blast+
  show ?thesis
  proof (cases "length data \<noteq> bu_expected_bytes u \<or> bu_id u = - 1")
    case True
    then obtain e where e: "e \<noteq> APP_ERROR_NONE" "res = primary_error e APP_OPERATION_NOT_COMMITTED"
      "w' = w"
      using run h stored up
      by (auto simp: storage_blob_upload_commit_with_ops_result_def uploading_def split: if_splits)
    have "within tr w w (replacing ?f data N)"
      using off_path_replacing off tmp by (intro within_refl [where tr = tr]) simp
    then show ?thesis
      using e off tmp by (simp add: commit_honest_def primary_error_honest off_path_def)
  next
    case False
    obtain e1 w1 where cl: "close_staged_stream ops h w = (e1, w1)" by fastforce
    note closed = close_stagedD [OF fs cl h(2) off]
    obtain e2 w2 where ab: "require_path_absent ops ?f w1 = (e2, w2)" by fastforce
    note absent = require_path_absentD [where P = "off_path ?t N", OF fs ab within_last [OF closed(1)]]
    obtain e3 w3 where pe: "up_persist_next_id ops (bu_id u + 1) w2 = (e3, w3)" by fastforce
    have persisted: "fs_moves tr w2 w3 (\<lambda>v v'. fv_node v' = fv_node v)"
      "e3 = APP_ERROR_NONE \<Longrightarrow> ctr w3 = bu_id u + 1"
      using upload_fs_parts(6) [OF fs] pe unfolding counter_laws_def by blast+
    have two: "within tr w w2 (off_path ?t N)" by (rule within_trans [OF closed(1) absent(1)])
    have "within tr w2 w3 (off_path ?t N)"
      using off_path_same [OF within_last [OF two] fs_moves_now [OF persisted(1)]]
      by (intro within_step [where tr = tr] fs_moves_trace [OF persisted(1)])
    then have three: "within tr w w3 (off_path ?t N)" by (rule within_trans [OF two])
    let ?u = "u\<lparr>bu_stream := None, bu_active := False\<rparr>"
    note body = run [unfolded storage_blob_upload_commit_with_ops_result_def Let_def h option.sel]
    have guard: "\<not> (bu_stream u = None \<or> \<not> bu_active u \<or> bu_committed u \<or> \<not> bu_has_operations u \<or>
        bu_stored_bytes u \<noteq> bu_expected_bytes u)" "bu_id u \<noteq> - 1"
      using False up h stored by (auto simp: uploading_def)
    consider (fail) e wf where "e \<noteq> APP_ERROR_NONE" "within tr w wf (off_path ?t N)"
        "cleanup_failure ops ?t e wf = (res, w')"
      | (go) "e1 = APP_ERROR_NONE" "e2 = APP_ERROR_NONE" "e3 = APP_ERROR_NONE"
        "activate_upload ops ?u w3 = (res, entry, u', w')"
      using run guard h cl ab pe closed(1) two three
      by (auto simp: storage_blob_upload_commit_with_ops_result_def Let_def
          split: if_splits prod.splits)
    then show ?thesis
    proof cases
      case fail
      note failed_commit [where data = data, OF fs fail(1) fail(2,3) [unfolded tmp]]
      then show ?thesis by simp
    next
      case go
      have node: "fv_node (fs_now tr w3) (bu_temporary_path ?u) = Some (Regular data)"
        using closed(2) [OF go(1)] absent(2) fs_moves_now [OF persisted(1)] by simp
      have "N ?f = None"
        using absent(3) [OF go(2)] within_last [OF closed(1)] tmp by (simp add: off_path_def)
      moreover have "within tr w w3 (replacing ?f data N)"
        by (rule within_mono [OF three]) (simp add: tmp off_path_replacing)
      moreover note activate_uploadD [where N = N and ops = ops and u = ?u, OF fs _ _ node go(4)]
      ultimately show ?thesis
        using tmp within_last [OF three] persisted(2) [OF go(3)] False stored
          within_trans [where tr = tr and w = w and P = "replacing ?f data N"]
        by simp
    qed
  qed
qed

section \<open>Aborting\<close>

lemma abort_keeps_activated:
  "bu_has_operations u \<Longrightarrow> bu_committed u \<or> bu_final_path_owned u \<Longrightarrow>
   storage_blob_upload_abort_with_ops_result ops u w = (app_operation_success, u, w)"
  by (auto simp: storage_blob_upload_abort_with_ops_result_def)

lemma abort_restores:
  assumes fs: "upload_fs ops tr buf ctr" and up: "uploading tr buf N data u w"
    and run: "storage_blob_upload_abort_with_ops_result ops u w = (res, u', w')"
  shows "within tr w w' (off_path (bu_temporary_path u) N) \<and>
    (app_operation_result_error res = APP_ERROR_NONE \<longrightarrow>
       fv_node (fs_now tr w') (bu_temporary_path u) = None)"
proof -
  let ?t = "bu_temporary_path u"
  obtain h where h: "bu_stream u = Some h" "buf w h = Some (?t, data)"
    using up by (auto simp: uploading_def)
  have off: "off_path ?t N (fs_now tr w)" using up unfolding uploading_def by blast
  obtain c w1 where cl: "up_close_stream ops h w = (c, w1)" by fastforce
  note closed = close_streamD [OF fs cl h(2) off]
  obtain e w2 where ul: "unlink_path_if_present ops ?t w1 = (e, w2)" by fastforce
  note unlinked = unlink_if_presentD [OF fs ul within_last [OF closed(1)]]
  have out: "w' = w2" "app_operation_result_error res = APP_ERROR_NONE \<Longrightarrow> e = APP_ERROR_NONE"
    using run up h(1) cl ul
    by (auto simp: storage_blob_upload_abort_with_ops_result_def uploading_def Let_def
        operation_result_defs split: option.splits if_splits)
  then show ?thesis using within_trans [OF closed(1) unlinked(1)] unlinked(2) by simp
qed

lemma commit_has_operations:
  assumes "storage_blob_upload_commit_with_ops_result ops u w = (res, entry, u', w')"
  shows "bu_has_operations u' = bu_has_operations u"
  using assms
  by (auto simp: storage_blob_upload_commit_with_ops_result_def activate_upload_def Let_def
      split: if_splits prod.splits option.splits)

text \<open>
  C17: an upload appears under its final name completely or not at all.  Through beginning,
  writing the chunks and committing, every state of the file system has at the final path what
  was there before or the whole body, and differs from before only there and at the staged
  file; the commit state is honest; nothing is activated over an existing file, or short of the
  announced length, or before the counter is past its identifier; and an abort after the
  activation, also when the commit is uncertain, removes nothing.
\<close>

theorem upload_is_atomic:
  assumes fs: "upload_fs ops tr buf ctr"
    and begun: "storage_blob_upload_begin_with_ops dir x expected maximum ops w =
      (APP_ERROR_NONE, u, w1)"
    and written: "upload_chunks ops chunks u w1 = (True, u2, w2)"
    and commit: "storage_blob_upload_commit_with_ops_result ops u2 w2 = (res, entry, u3, w3)"
  shows "within tr w w3 (replacing (blob_path dir x) (concat chunks) (fv_node (fs_now tr w))) \<and>
    commit_honest (blob_path dir x) (concat chunks) (fv_node (fs_now tr w)) res (fs_now tr w3) \<and>
    fv_node (fs_now tr w) (blob_path dir x) = None \<and>
    (or_commit_state res \<noteq> APP_OPERATION_NOT_COMMITTED \<longrightarrow>
       length (concat chunks) = expected \<and> ctr w3 = x + 1 \<and>
       storage_blob_upload_abort_with_ops_result ops u3 w3 = (app_operation_success, u3, w3)) \<and>
    (or_commit_state res = APP_OPERATION_COMMITTED \<longrightarrow>
       entry = \<lparr>be_id = x, be_stored_bytes = expected\<rparr>)"
proof -
  let ?N = "fv_node (fs_now tr w)" and ?f = "blob_path dir x" and ?data = "concat chunks"
  note b = upload_beginD [OF fs begun]
  have chunks: "within tr w1 w2 (off_path (bu_temporary_path u) ?N)"
    "uploading tr buf ?N ?data u2 w2" "bu_id u2 = x" "bu_final_path u2 = ?f"
    "bu_expected_bytes u2 = expected"
    using upload_chunksD [OF fs b(4) written] b(1,2,3) by simp_all
  have tmp: "bu_temporary_path u = ?f @ ''.tmp''" using b(2,4) by (simp add: uploading_def)
  have ops: "bu_has_operations u3"
    using commit_has_operations [OF commit] chunks(2) by (simp add: uploading_def)
  have "within tr w w2 (off_path (?f @ ''.tmp'') ?N)"
    using within_trans [OF b(5)] chunks(1) tmp by simp
  then have before: "within tr w w2 (replacing ?f ?data ?N)"
    by (rule within_mono) (rule off_path_replacing)
  note outcome = commit_outcome [OF fs chunks(2) commit, unfolded chunks(3-5)]
  show ?thesis
    using within_trans [OF before] outcome b(6) abort_keeps_activated [OF ops] by auto
qed

text \<open>A disk with one buffered stream and a counter satisfies the laws.\<close>

record upload_disk =
  ud_disk :: disk_world
  ud_buffer :: "(string \<times> u8 list) option"
  ud_counter :: u64

definition on_disk :: "('r \<times> disk_world) \<Rightarrow> upload_disk \<Rightarrow> 'r \<times> upload_disk" where
  "on_disk rd w = (fst rd, w\<lparr>ud_disk := snd rd\<rparr>)"

definition disk_upload_ops :: "upload_disk upload_ops" where
  "disk_upload_ops = \<lparr>
     up_open_temporary = (\<lambda>p w. case on_disk (disk_step (Inr 0)
         (disk_put p (Regular []) (fst (ud_disk w))) (ud_disk w)) w of
         (r, w) \<Rightarrow> (r, w\<lparr>ud_buffer := Some (p, [])\<rparr>)),
     up_write_stream = (\<lambda>h data w. case on_disk (disk_step (length data, None)
         (fst (ud_disk w)) (ud_disk w)) w of
         (r, w) \<Rightarrow> (r, w\<lparr>ud_buffer := map_option (\<lambda>(p, bs). (p, bs @ data)) (ud_buffer w)\<rparr>)),
     up_flush_stream = (\<lambda>h w. case ud_buffer w of
         Some (p, bs) \<Rightarrow> on_disk (disk_step None (disk_put p (Regular bs) (fst (ud_disk w)))
           (ud_disk w)) w
       | None \<Rightarrow> on_disk (disk_step (Some EIO) (fst (ud_disk w)) (ud_disk w)) w),
     up_sync_stream = (\<lambda>h w. on_disk (disk_step None (fst (ud_disk w)) (ud_disk w)) w),
     up_close_stream = (\<lambda>h w. case on_disk (disk_step None (fst (ud_disk w)) (ud_disk w)) w of
         (r, w) \<Rightarrow> (r, w\<lparr>ud_buffer := None\<rparr>)),
     up_stat_path = (\<lambda>p w. on_disk (op_stat_path disk_ops p (ud_disk w)) w),
     up_rename_path = (\<lambda>p q w. on_disk (op_rename_path disk_ops p q (ud_disk w)) w),
     up_unlink_path = (\<lambda>p w. on_disk (op_unlink_path disk_ops p (ud_disk w)) w),
     up_sync_parent = (\<lambda>p w. on_disk (disk_sync p (ud_disk w)) w),
     up_persist_next_id = (\<lambda>n w. case on_disk (disk_step APP_ERROR_NONE (fst (ud_disk w))
         (ud_disk w)) w of (r, w) \<Rightarrow> (r, w\<lparr>ud_counter := n\<rparr>))\<rparr>"

lemma on_disk_moves [simp]:
  "fs_moves (\<lambda>w. disk_trace (ud_disk w)) w (w\<lparr>ud_disk := d\<rparr>) R \<longleftrightarrow> fs_moves disk_trace (ud_disk w) d R"
  "fs_moves (\<lambda>w. disk_trace (ud_disk w)) w (w\<lparr>ud_disk := d, ud_buffer := b\<rparr>) R \<longleftrightarrow>
     fs_moves disk_trace (ud_disk w) d R"
  "fs_moves (\<lambda>w. disk_trace (ud_disk w)) w (w\<lparr>ud_disk := d, ud_counter := c\<rparr>) R \<longleftrightarrow>
     fs_moves disk_trace (ud_disk w) d R"
  by (simp_all add: fs_moves_def)

lemma on_disk_split: "on_disk rd w = (r, w') \<Longrightarrow> \<exists>d. rd = (r, d) \<and> w' = w\<lparr>ud_disk := d\<rparr>"
  by (cases rd) (auto simp: on_disk_def)

lemma disk_upload_fs:
  "upload_fs disk_upload_ops (\<lambda>w. disk_trace (ud_disk w)) (\<lambda>w h. ud_buffer w) ud_counter"
  unfolding upload_fs_def
proof (intro conjI)
  show "stat_law (up_stat_path disk_upload_ops) (\<lambda>w. disk_trace (ud_disk w))"
    unfolding stat_law_def
  proof (intro allI impI)
    fix p w r w' assume "up_stat_path disk_upload_ops p w = (r, w')"
    with on_disk_split obtain d where "op_stat_path disk_ops p (ud_disk w) = (r, d)"
      "w' = w\<lparr>ud_disk := d\<rparr>" unfolding disk_upload_ops_def by fastforce
    then show "fs_moves (\<lambda>w. disk_trace (ud_disk w)) w w' (\<lambda>v v'. v' = v \<and>
        (case r of
           Inr st \<Rightarrow> (\<exists>node. fv_node v p = Some node \<and> stat_of node st)
         | Inl e \<Rightarrow> e = ENOENT \<longrightarrow> fv_node v p = None))"
      using posix_fs_parts(1) [OF disk_posix] by (simp add: stat_law_def del: split_paired_All)
  qed
  show "unlink_law (up_unlink_path disk_upload_ops) (\<lambda>w. disk_trace (ud_disk w))"
    unfolding unlink_law_def
  proof (intro allI impI)
    fix p w r w' assume "up_unlink_path disk_upload_ops p w = (r, w')"
    with on_disk_split obtain d where "op_unlink_path disk_ops p (ud_disk w) = (r, d)"
      "w' = w\<lparr>ud_disk := d\<rparr>" unfolding disk_upload_ops_def by fastforce
    then show "fs_moves (\<lambda>w. disk_trace (ud_disk w)) w w' (\<lambda>v v'.
        (case r of
           None \<Rightarrow> v' = v\<lparr>fv_node := (fv_node v)(p := None)\<rparr>
         | Some e \<Rightarrow> v' = v \<and> (e = ENOENT \<longrightarrow> fv_node v p = None)))"
      using posix_fs_parts(2) [OF disk_posix] by (simp add: unlink_law_def del: split_paired_All)
  qed
  show "rename_law (up_rename_path disk_upload_ops) (\<lambda>w. disk_trace (ud_disk w))"
    unfolding rename_law_def
  proof (intro allI impI)
    fix p q w r w' assume "up_rename_path disk_upload_ops p q w = (r, w')"
    with on_disk_split obtain d where "op_rename_path disk_ops p q (ud_disk w) = (r, d)"
      "w' = w\<lparr>ud_disk := d\<rparr>" unfolding disk_upload_ops_def by fastforce
    then show "fs_moves (\<lambda>w. disk_trace (ud_disk w)) w w' (\<lambda>v v'.
        (case r of
           None \<Rightarrow> v' = v\<lparr>fv_node := (fv_node v)(p := None, q := fv_node v p)\<rparr>
         | Some e \<Rightarrow> v' = v))"
      using posix_fs_parts(3) [OF disk_posix] by (simp add: rename_law_def del: split_paired_All)
  qed
  show "parent_sync_law (up_sync_parent disk_upload_ops) (\<lambda>w. disk_trace (ud_disk w))"
    by (auto simp: parent_sync_law_def disk_upload_ops_def on_disk_def disk_sync_def disk_step_def)
  show "stream_laws disk_upload_ops (\<lambda>w. disk_trace (ud_disk w)) (\<lambda>w h. ud_buffer w)"
    by (auto simp: stream_laws_def disk_upload_ops_def on_disk_def disk_step_def only_path_def
        disk_put_def)
  show "counter_laws disk_upload_ops (\<lambda>w. disk_trace (ud_disk w)) ud_counter"
    by (auto simp: counter_laws_def disk_upload_ops_def on_disk_def disk_step_def)
qed

lemma upload_is_atomic_witness:
  "\<exists>u w1 u2 w2 res entry u3 w3.
     storage_blob_upload_begin_with_ops ''/r'' 2 3 131072 disk_upload_ops
       \<lparr>ud_disk = disk_of [], ud_buffer = None, ud_counter = 0\<rparr> = (APP_ERROR_NONE, u, w1) \<and>
     upload_chunks disk_upload_ops [[5, 6], [7]] u w1 = (True, u2, w2) \<and>
     storage_blob_upload_commit_with_ops_result disk_upload_ops u2 w2 = (res, entry, u3, w3) \<and>
     or_commit_state res = APP_OPERATION_COMMITTED \<and>
     fv_node (fs_now disk_trace (ud_disk w3)) ''/r/00000000000000000002.gz'' = Some (Regular [5, 6, 7]) \<and>
     ud_counter w3 = 3"
proof -
  let ?w = "\<lparr>ud_disk = disk_of [], ud_buffer = None, ud_counter = 0\<rparr>"
  have paths: "build_upload_paths ''/r'' 2 =
      Inr (''/r/00000000000000000002.gz'', ''/r/00000000000000000002.gz.tmp'')"
    using sample_blob_name
    by (simp add: build_upload_paths_def format_filename_ok fitted_def limit_defs)
  obtain u w1 u2 w2 res entry u3 w3 where run:
    "storage_blob_upload_begin_with_ops ''/r'' 2 3 131072 disk_upload_ops ?w =
       (APP_ERROR_NONE, u, w1)"
    "upload_chunks disk_upload_ops [[5, 6], [7]] u w1 = (True, u2, w2)"
    "storage_blob_upload_commit_with_ops_result disk_upload_ops u2 w2 = (res, entry, u3, w3)"
    "or_commit_state res = APP_OPERATION_COMMITTED"
    by (simp add: storage_blob_upload_begin_with_ops_def paths require_path_absent_def
        disk_upload_ops_def on_disk_def disk_eval storage_blob_upload_write_with_ops_def
        storage_blob_upload_commit_with_ops_result_def close_staged_stream_def disk_sync_def
        activate_upload_def Let_def disk_trace_def)
  from upload_is_atomic [OF disk_upload_fs run(1-3)] run(4) show ?thesis
    using run sample_blob_name by (intro exI conjI) (auto simp: commit_honest_def)
qed

end
