(* ===== verification/Storage_Mount.thy ===== *)
theory Storage_Mount
  imports App_Error
begin

text \<open>
  Mounting the two partitions (\<open>storage/storage_mount_core.c\<close>).  The mount operations are the
  LittleFS driver: functions on the world that return an error.  The flags of the module say
  which partitions are mounted, also after a rollback that failed; the last section proves that
  of every driver whose calls do what they report.
\<close>

section \<open>Operations\<close>

record 'w mount_ops =
  mo_mount_web :: "'w \<Rightarrow> app_error \<times> 'w"
  mo_mount_data :: "'w \<Rightarrow> app_error \<times> 'w"
  mo_unmount_web :: "'w \<Rightarrow> app_error \<times> 'w"
  mo_unmount_data :: "'w \<Rightarrow> app_error \<times> 'w"
  mo_prepare_directories :: "'w \<Rightarrow> app_error \<times> 'w"

record mount_state =
  ms_web_mounted :: bool
  ms_data_mounted :: bool

definition mount_primary_error :: "app_error \<Rightarrow> operation_result" where
  "mount_primary_error e = app_operation_record_primary app_operation_success e"

definition unmount_data_step ::
  "'w mount_ops \<Rightarrow> operation_result \<times> mount_state \<times> 'w \<Rightarrow> operation_result \<times> mount_state \<times> 'w"
  where
  "unmount_data_step ops rsw =
     (case rsw of (result, state, w) \<Rightarrow>
        if ms_data_mounted state
        then (case mo_unmount_data ops w of (e, w) \<Rightarrow>
            if e \<noteq> APP_ERROR_NONE then (app_operation_record_primary result e, state, w)
            else (result, state\<lparr>ms_data_mounted := False\<rparr>, w))
        else (result, state, w))"

definition unmount_web_step ::
  "'w mount_ops \<Rightarrow> operation_result \<times> mount_state \<times> 'w \<Rightarrow> operation_result \<times> mount_state \<times> 'w"
  where
  "unmount_web_step ops rsw =
     (case rsw of (result, state, w) \<Rightarrow>
        if ms_web_mounted state
        then (case mo_unmount_web ops w of (e, w) \<Rightarrow>
            if e \<noteq> APP_ERROR_NONE
            then (if or_primary_error result = APP_ERROR_NONE
                  then app_operation_record_primary result e
                  else app_operation_record_cleanup result e, state, w)
            else (result, state\<lparr>ms_web_mounted := False\<rparr>, w))
        else (result, state, w))"

definition storage_mount_core_unmount_result ::
  "'w mount_ops \<Rightarrow> mount_state \<Rightarrow> 'w \<Rightarrow> operation_result \<times> mount_state \<times> 'w" where
  "storage_mount_core_unmount_result ops state w =
     unmount_web_step ops (unmount_data_step ops (app_operation_success, state, w))"

definition storage_mount_core_unmount ::
  "'w mount_ops \<Rightarrow> mount_state \<Rightarrow> 'w \<Rightarrow> app_error \<times> mount_state \<times> 'w" where
  "storage_mount_core_unmount ops state w =
     (case storage_mount_core_unmount_result ops state w of
        (r, out) \<Rightarrow> (app_operation_result_error r, out))"

definition mount_data_failed ::
  "'w mount_ops \<Rightarrow> app_error \<Rightarrow> mount_state \<Rightarrow> 'w \<Rightarrow> operation_result \<times> mount_state \<times> 'w" where
  "mount_data_failed ops e state w =
     (case mo_unmount_web ops w of (cleanup_error, w) \<Rightarrow>
        if cleanup_error = APP_ERROR_NONE
        then (mount_primary_error e, state\<lparr>ms_web_mounted := False\<rparr>, w)
        else (app_operation_record_cleanup (mount_primary_error e) cleanup_error, state, w))"

definition prepare_failed ::
  "'w mount_ops \<Rightarrow> app_error \<Rightarrow> mount_state \<Rightarrow> 'w \<Rightarrow> operation_result \<times> mount_state \<times> 'w" where
  "prepare_failed ops e state w =
     (case storage_mount_core_unmount_result ops state w of (rollback, state, w) \<Rightarrow>
        let result = app_operation_record_cleanup (mount_primary_error e) (or_primary_error rollback);
            result = app_operation_record_cleanup result (or_cleanup_error rollback)
        in (if or_cleanup_incomplete rollback then result\<lparr>or_cleanup_incomplete := True\<rparr> else result,
            state, w))"

definition storage_mount_core_mount_result ::
  "'w mount_ops \<Rightarrow> mount_state \<Rightarrow> 'w \<Rightarrow> operation_result \<times> mount_state \<times> 'w" where
  "storage_mount_core_mount_result ops state w =
     (case mo_mount_web ops w of (e, w) \<Rightarrow>
        if e \<noteq> APP_ERROR_NONE then (mount_primary_error e, state, w)
        else let state = state\<lparr>ms_web_mounted := True\<rparr>
             in (case mo_mount_data ops w of (e, w) \<Rightarrow>
                   if e \<noteq> APP_ERROR_NONE then mount_data_failed ops e state w
                   else let state = state\<lparr>ms_data_mounted := True\<rparr>
                        in (case mo_prepare_directories ops w of (e, w) \<Rightarrow>
                              if e \<noteq> APP_ERROR_NONE then prepare_failed ops e state w
                              else (app_operation_success, state, w))))"

definition storage_mount_core_mount ::
  "'w mount_ops \<Rightarrow> mount_state \<Rightarrow> 'w \<Rightarrow> app_error \<times> mount_state \<times> 'w" where
  "storage_mount_core_mount ops state w =
     (case storage_mount_core_mount_result ops state w of
        (r, out) \<Rightarrow> (app_operation_result_error r, out))"

section \<open>The flags tell the truth\<close>

text \<open>A driver whose calls change what they report: \<open>mounted\<close> reads the real state off the world.\<close>

definition honest_driver :: "'w mount_ops \<Rightarrow> ('w \<Rightarrow> mount_state) \<Rightarrow> bool" where
  "honest_driver ops mounted \<longleftrightarrow>
     (\<forall>w e w'. mo_mount_web ops w = (e, w') \<longrightarrow>
        mounted w' = (if e = APP_ERROR_NONE then (mounted w)\<lparr>ms_web_mounted := True\<rparr> else mounted w)) \<and>
     (\<forall>w e w'. mo_mount_data ops w = (e, w') \<longrightarrow>
        mounted w' = (if e = APP_ERROR_NONE then (mounted w)\<lparr>ms_data_mounted := True\<rparr> else mounted w)) \<and>
     (\<forall>w e w'. mo_unmount_web ops w = (e, w') \<longrightarrow>
        mounted w' = (if e = APP_ERROR_NONE then (mounted w)\<lparr>ms_web_mounted := False\<rparr> else mounted w)) \<and>
     (\<forall>w e w'. mo_unmount_data ops w = (e, w') \<longrightarrow>
        mounted w' = (if e = APP_ERROR_NONE then (mounted w)\<lparr>ms_data_mounted := False\<rparr> else mounted w)) \<and>
     (\<forall>w e w'. mo_prepare_directories ops w = (e, w') \<longrightarrow> mounted w' = mounted w)"

lemma honest_driverD:
  assumes "honest_driver ops mounted"
  shows "mo_mount_web ops w = (e, w') \<Longrightarrow> mounted w' =
      (if e = APP_ERROR_NONE then (mounted w)\<lparr>ms_web_mounted := True\<rparr> else mounted w)"
    and "mo_mount_data ops w = (e, w') \<Longrightarrow> mounted w' =
      (if e = APP_ERROR_NONE then (mounted w)\<lparr>ms_data_mounted := True\<rparr> else mounted w)"
    and "mo_unmount_web ops w = (e, w') \<Longrightarrow> mounted w' =
      (if e = APP_ERROR_NONE then (mounted w)\<lparr>ms_web_mounted := False\<rparr> else mounted w)"
    and "mo_unmount_data ops w = (e, w') \<Longrightarrow> mounted w' =
      (if e = APP_ERROR_NONE then (mounted w)\<lparr>ms_data_mounted := False\<rparr> else mounted w)"
    and "mo_prepare_directories ops w = (e, w') \<Longrightarrow> mounted w' = mounted w"
  using assms unfolding honest_driver_def by blast+

lemma unmount_data_keeps:
  assumes "honest_driver ops mounted" and "mounted w = state"
    and "unmount_data_step ops (r, state, w) = (r', state', w')"
  shows "mounted w' = state'"
proof -
  obtain e w1 where "mo_unmount_data ops w = (e, w1)" by fastforce
  then show ?thesis using honest_driverD(4) [OF assms(1)] assms(2,3)
    by (auto simp: unmount_data_step_def split: if_splits)
qed

lemma unmount_web_keeps:
  assumes "honest_driver ops mounted" and "mounted w = state"
    and "unmount_web_step ops (r, state, w) = (r', state', w')"
  shows "mounted w' = state'"
proof -
  obtain e w1 where "mo_unmount_web ops w = (e, w1)" by fastforce
  then show ?thesis using honest_driverD(3) [OF assms(1)] assms(2,3)
    by (auto simp: unmount_web_step_def split: if_splits)
qed

lemma unmount_keeps:
  assumes "honest_driver ops mounted" and "mounted w = state"
    and "storage_mount_core_unmount_result ops state w = (r, state', w')"
  shows "mounted w' = state'"
proof -
  obtain r1 s1 w1 where d: "unmount_data_step ops (app_operation_success, state, w) = (r1, s1, w1)"
    by (metis prod.exhaust)
  then have "unmount_web_step ops (r1, s1, w1) = (r, state', w')"
    using assms(3) by (simp add: storage_mount_core_unmount_result_def)
  then show ?thesis
    by (rule unmount_web_keeps [OF assms(1) unmount_data_keeps [OF assms(1,2) d]])
qed

lemma mount_data_failed_keeps:
  assumes "honest_driver ops mounted" and "mounted w = state"
    and "mount_data_failed ops e state w = (r, state', w')"
  shows "mounted w' = state'"
proof -
  obtain c w1 where "mo_unmount_web ops w = (c, w1)" by fastforce
  then show ?thesis using honest_driverD(3) [OF assms(1)] assms(2,3)
    by (auto simp: mount_data_failed_def split: if_splits)
qed

lemma prepare_failed_keeps:
  assumes "honest_driver ops mounted" and "mounted w = state"
    and "prepare_failed ops e state w = (r, state', w')"
  shows "mounted w' = state'"
proof -
  obtain rb s1 w1 where un: "storage_mount_core_unmount_result ops state w = (rb, s1, w1)"
    by (metis prod.exhaust)
  then have "state' = s1 \<and> w' = w1" using assms(3) by (simp add: prepare_failed_def Let_def)
  then show ?thesis using unmount_keeps [OF assms(1,2) un] by simp
qed

lemma primary_survives:
  "or_primary_error (app_operation_record_cleanup r e) = or_primary_error r"
  "or_primary_error (mount_primary_error e) = e"
  "or_primary_error r \<noteq> APP_ERROR_NONE \<Longrightarrow> app_operation_result_error r = or_primary_error r"
  by (simp_all add: mount_primary_error_def operation_result_defs)

lemma rollback_primary:
  "mount_data_failed ops e state w = (r, state', w') \<Longrightarrow> or_primary_error r = e"
  "prepare_failed ops e state w = (r, state', w') \<Longrightarrow> or_primary_error r = e"
  by (auto simp: mount_data_failed_def prepare_failed_def Let_def primary_survives
      split: prod.splits if_splits)

text \<open>
  After mounting, whatever failed and however the rollback went, each flag says whether its
  partition is mounted, so a partition left behind stays visible; and success means both are.
\<close>

lemma mount_keeps:
  assumes honest: "honest_driver ops mounted" and start: "mounted w = state"
    and run: "storage_mount_core_mount_result ops state w = (r, state', w')"
  shows "mounted w' = state'"
    and "app_operation_result_error r = APP_ERROR_NONE \<Longrightarrow>
      ms_web_mounted state' \<and> ms_data_mounted state'"
proof -
  obtain e1 w1 where m1: "mo_mount_web ops w = (e1, w1)" by fastforce
  obtain e2 w2 where m2: "mo_mount_data ops w1 = (e2, w2)" by fastforce
  obtain e3 w3 where m3: "mo_prepare_directories ops w2 = (e3, w3)" by fastforce
  let ?web = "state\<lparr>ms_web_mounted := True\<rparr>"
  let ?both = "state\<lparr>ms_web_mounted := True, ms_data_mounted := True\<rparr>"
  note body = run [unfolded storage_mount_core_mount_result_def Let_def m1 m2 m3 prod.case]
  note laws = honest_driverD [OF honest]
  show "mounted w' = state'"
  proof (cases "e1 = APP_ERROR_NONE")
    case False
    then show ?thesis using body start laws(1) [OF m1] by simp
  next
    case e1: True
    then have web: "mounted w1 = ?web" using start laws(1) [OF m1] by simp
    show ?thesis
    proof (cases "e2 = APP_ERROR_NONE")
      case False
      then have "mounted w2 = ?web" using web laws(2) [OF m2] by simp
      moreover have "mount_data_failed ops e2 ?web w2 = (r, state', w')"
        using body e1 False by simp
      ultimately show ?thesis by (rule mount_data_failed_keeps [OF honest])
    next
      case e2: True
      then have both: "mounted w3 = ?both" using web laws(2) [OF m2] laws(5) [OF m3] by simp
      show ?thesis
      proof (cases "e3 = APP_ERROR_NONE")
        case True
        then show ?thesis using body e1 e2 both by simp
      next
        case False
        then have "prepare_failed ops e3 ?both w3 = (r, state', w')" using body e1 e2 by simp
        then show ?thesis by (rule prepare_failed_keeps [OF honest both])
      qed
    qed
  qed
  assume ok: "app_operation_result_error r = APP_ERROR_NONE"
  then have prim: "or_primary_error r = APP_ERROR_NONE" 
    by (simp add: app_operation_result_error_def split: if_splits)
  have e1: "e1 = APP_ERROR_NONE"
  proof (rule ccontr)
    assume no: "e1 \<noteq> APP_ERROR_NONE"
    then have "r = mount_primary_error e1" using body by simp
    with no prim primary_survives(2) show False by simp
  qed
  have e2: "e2 = APP_ERROR_NONE"
  proof (rule ccontr)
    assume no: "e2 \<noteq> APP_ERROR_NONE"
    then have "mount_data_failed ops e2 ?web w2 = (r, state', w')" using body e1 by simp
    from rollback_primary(1) [OF this] no prim show False by simp
  qed
  have e3: "e3 = APP_ERROR_NONE"
  proof (rule ccontr)
    assume no: "e3 \<noteq> APP_ERROR_NONE"
    then have "prepare_failed ops e3 ?both w3 = (r, state', w')" using body e1 e2 by simp
    from rollback_primary(2) [OF this] no prim show False by simp
  qed
  show "ms_web_mounted state' \<and> ms_data_mounted state'" using body e1 e2 e3 by auto
qed

end
