(* ===== verification/C_Bytes.thy ===== *)
theory C_Bytes
  imports App_Prelude
begin

text \<open>
  Byte buffers: \<open>memcpy\<close> of a run of bytes to an offset (\<open>blit\<close>), the run at an offset
  (\<open>slice\<close>), buffers filled from the left, and little-endian numbers.  The locale
  \<open>le_codec\<close> is the contract of a fixed-width number codec; its clients need only that
  reading what was written gives the number back and that writing what was read gives the
  bytes back.
\<close>

section \<open>Copies into a buffer\<close>

definition blit :: "nat \<Rightarrow> 'a list \<Rightarrow> 'a list \<Rightarrow> 'a list" where
  "blit off src buf = take off buf @ src @ drop (off + length src) buf"

definition slice :: "nat \<Rightarrow> nat \<Rightarrow> 'a list \<Rightarrow> 'a list" where
  "slice off n buf = take n (drop off buf)"

lemma length_blit [simp]: "off + length src \<le> length buf \<Longrightarrow> length (blit off src buf) = length buf"
  by (simp add: blit_def)

lemma length_slice [simp]: "off + n \<le> length buf \<Longrightarrow> length (slice off n buf) = n"
  by (simp add: slice_def)

lemma slice_append_right:
  "length pre \<le> off \<Longrightarrow> slice off n (pre @ buf) = slice (off - length pre) n buf"
  by (simp add: slice_def)

lemma slice_append_left: "off + n \<le> length pre \<Longrightarrow> slice off n (pre @ buf) = slice off n pre"
  by (simp add: slice_def)

lemma slice_whole [simp]: "length pre = n \<Longrightarrow> slice 0 n pre = pre"
  by (simp add: slice_def)

lemma slice_Suc: "off < length buf \<Longrightarrow> slice off (Suc n) buf = buf ! off # slice (Suc off) n buf"
  by (simp add: slice_def flip: Cons_nth_drop_Suc)

lemma slice_0 [simp]: "slice off 0 buf = []"
  by (simp add: slice_def)

lemma slice_split: "m \<le> n \<Longrightarrow> slice off n buf = slice off m buf @ slice (off + m) (n - m) buf"
  by (metis le_add_diff_inverse slice_def take_add drop_drop add.commute)

lemma nth_slice [simp]: "i < n \<Longrightarrow> off + i < length buf \<Longrightarrow> slice off n buf ! i = buf ! (off + i)"
  by (simp add: slice_def)

lemma update_blit: "off < length buf \<Longrightarrow> buf[off := x] = blit off [x] buf"
  by (simp add: blit_def upd_conv_take_nth_drop)

lemma blit_blit:
  "off + length src + length src' \<le> length buf \<Longrightarrow>
     blit (off + length src) src' (blit off src buf) = blit off (src @ src') buf"
  by (simp add: blit_def ac_simps)

text \<open>
  \<open>filled n pre buf\<close>: a buffer of \<open>n\<close> bytes that holds \<open>pre\<close> followed by zeros.
\<close>

definition filled :: "nat \<Rightarrow> u8 list \<Rightarrow> u8 list \<Rightarrow> bool" where
  "filled n pre buf \<longleftrightarrow> length pre \<le> n \<and> buf = pre @ replicate (n - length pre) 0"

lemma filled_zero: "filled n [] (replicate n 0)"
  by (simp add: filled_def)

lemma filled_pad: "filled n pre buf \<Longrightarrow> length pre + k \<le> n \<Longrightarrow> filled n (pre @ replicate k 0) buf"
  by (simp add: filled_def flip: replicate_add)

lemma filled_blit:
  assumes "filled n pre buf" and "off = length pre" and "off + length src \<le> n"
  shows "filled n (pre @ src) (blit off src buf)"
  using assms by (auto simp: filled_def blit_def)

lemma filled_full: "filled n pre buf \<Longrightarrow> length pre = n \<Longrightarrow> buf = pre"
  by (simp add: filled_def)

section \<open>Little-endian numbers\<close>

type_synonym u16 = "16 word"

definition write_u16_le :: "nat \<Rightarrow> u16 \<Rightarrow> u8 list \<Rightarrow> u8 list" where
  "write_u16_le off v buf =
     buf[off := ucast (v AND 0xff), off + 1 := ucast (drop_bit 8 v AND 0xff)]"

definition write_u32_le :: "nat \<Rightarrow> u32 \<Rightarrow> u8 list \<Rightarrow> u8 list" where
  "write_u32_le off v buf =
     fold (\<lambda>index b. b[off + index := ucast (drop_bit (index * 8) v AND 0xff)]) [0..<4] buf"

definition write_u64_le :: "nat \<Rightarrow> u64 \<Rightarrow> u8 list \<Rightarrow> u8 list" where
  "write_u64_le off v buf =
     fold (\<lambda>index b. b[off + index := ucast (drop_bit (index * 8) v AND 0xff)]) [0..<8] buf"

definition read_u16_le :: "u8 list \<Rightarrow> u16" where
  "read_u16_le source = ucast (source ! 0) OR push_bit 8 (ucast (source ! 1))"

definition read_u32_le :: "u8 list \<Rightarrow> u32" where
  "read_u32_le source =
     fold (\<lambda>index v. v OR push_bit (index * 8) (ucast (source ! index))) [0..<4] 0"

definition read_u64_le :: "u8 list \<Rightarrow> u64" where
  "read_u64_le source =
     fold (\<lambda>index v. v OR push_bit (index * 8) (ucast (source ! index))) [0..<8] 0"

text \<open>The bytes of a number, least significant first.\<close>

definition le_bytes :: "nat \<Rightarrow> 'a :: len word \<Rightarrow> u8 list" where
  "le_bytes n v = map (\<lambda>i. ucast (drop_bit (i * 8) v AND 0xff)) [0..<n]"

lemma length_le_bytes [simp]: "length (le_bytes n v) = n"
  by (simp add: le_bytes_def)

lemma upto_literals:
  "[0..<2] = [0, 1 :: nat]" "[0..<4] = [0, 1, 2, 3 :: nat]"
  "[0..<8] = [0, 1, 2, 3, 4, 5, 6, 7 :: nat]"
  by (simp_all add: upt_rec)

lemma fold_update_blit:
  "off + length vs \<le> length buf \<Longrightarrow>
     fold (\<lambda>i b. b[off + i := vs ! i]) [0..<length vs] buf = blit off vs buf"
proof (induction vs rule: rev_induct)
  case Nil
  then show ?case by (simp add: blit_def)
next
  case (snoc x vs)
  have "fold (\<lambda>i b. b[off + i := (vs @ [x]) ! i]) [0..<length vs] buf =
          fold (\<lambda>i b. b[off + i := vs ! i]) [0..<length vs] buf"
    by (rule fold_cong) (simp_all add: nth_append)
  with snoc show ?case
    by (simp add: update_blit blit_blit)
qed

lemma write_u16_le_blit: "off + 2 \<le> length buf \<Longrightarrow> write_u16_le off v buf = blit off (le_bytes 2 v) buf"
  using fold_update_blit [of off "le_bytes 2 v" buf]
  by (simp add: write_u16_le_def le_bytes_def upto_literals)

lemma write_u32_le_blit: "off + 4 \<le> length buf \<Longrightarrow> write_u32_le off v buf = blit off (le_bytes 4 v) buf"
  using fold_update_blit [of off "le_bytes 4 v" buf]
  by (simp add: write_u32_le_def le_bytes_def upto_literals eval_nat_numeral)

lemma write_u64_le_blit: "off + 8 \<le> length buf \<Longrightarrow> write_u64_le off v buf = blit off (le_bytes 8 v) buf"
  using fold_update_blit [of off "le_bytes 8 v" buf]
  by (simp add: write_u64_le_def le_bytes_def upto_literals eval_nat_numeral)

text \<open>The contract of a fixed-width number codec.\<close>

locale le_codec =
  fixes width :: nat and to_bytes :: "'a :: len word \<Rightarrow> u8 list" and from_bytes :: "u8 list \<Rightarrow> 'a word"
  assumes length_to: "length (to_bytes v) = width"
    and from_to: "from_bytes (to_bytes v) = v"
    and to_from: "length bs = width \<Longrightarrow> to_bytes (from_bytes bs) = bs"
begin

lemma to_inject: "to_bytes v = to_bytes w \<longleftrightarrow> v = w"
  by (metis from_to)

lemma to_iff_from: "length bs = width \<Longrightarrow> to_bytes v = bs \<longleftrightarrow> from_bytes bs = v"
  by (metis from_to to_from)

lemma from_inject: "length bs = width \<Longrightarrow> length cs = width \<Longrightarrow> from_bytes bs = from_bytes cs \<longleftrightarrow> bs = cs"
  by (metis to_from)

end

lemma word_ff_bit [simp]: "bit (0xff :: 'a :: len word) n \<longleftrightarrow> n < 8 \<and> n < LENGTH('a)"
proof -
  have "(0xff :: 'a word) = mask 8" by (simp add: mask_eq_exp_minus_1)
  then show ?thesis by (simp only: bit_mask_iff) auto
qed

text \<open>A number assembled from bytes, bit by bit.\<close>

definition le_value :: "nat \<Rightarrow> u8 list \<Rightarrow> 'a :: len word" where
  "le_value n bs = fold (\<lambda>i v. v OR push_bit (i * 8) (ucast (bs ! i))) [0..<n] 0"

lemma bit_le_value:
  "bit (le_value n bs :: 'a :: len word) k \<longleftrightarrow>
     k < LENGTH('a) \<and> k div 8 < n \<and> bit (bs ! (k div 8)) (k mod 8)"
proof (induction n)
  case 0
  then show ?case by (simp add: le_value_def)
next
  case (Suc n)
  have step: "le_value (Suc n) bs = (le_value n bs :: 'a word) OR push_bit (n * 8) (ucast (bs ! n))"
    by (simp add: le_value_def)
  have last: "bit (push_bit (n * 8) (ucast (bs ! n)) :: 'a word) k \<longleftrightarrow>
      k < LENGTH('a) \<and> k div 8 = n \<and> bit (bs ! (k div 8)) (k mod 8)"
  proof (cases "k div 8 = n")
    case True
    then have "k = n * 8 + k mod 8" by (metis div_mult_mod_eq)
    then obtain j where k: "k = n * 8 + j" and j: "j < 8" "k mod 8 = j"
      using mod_less_divisor [of 8 k] by (metis zero_less_numeral)
    show ?thesis
      using True j by (auto simp: bit_push_bit_iff bit_ucast_iff k)
  next
    case False
    have "\<not> (n * 8 \<le> k \<and> k - n * 8 < 8)"
    proof
      assume "n * 8 \<le> k \<and> k - n * 8 < 8"
      then have "k div 8 = n"
        by (metis add.commute add_cancel_left_left div_less div_mult_self3 le_add_diff_inverse
            zero_neq_numeral)
      with False show False ..
    qed
    then show ?thesis
      using False by (auto simp: bit_push_bit_iff bit_ucast_iff dest: bit_imp_le_length)
  qed
  show ?case
    unfolding step bit_or_iff Suc.IH last using less_Suc_eq by blast
qed

lemma bit_le_bytes:
  fixes v :: "'a :: len word"
  assumes "i < n"
  shows "bit (le_bytes n v ! i) j \<longleftrightarrow> j < 8 \<and> bit v (i * 8 + j)"
proof -
  have "le_bytes n v ! i = ucast (drop_bit (i * 8) v AND 0xff)"
    using assms by (simp add: le_bytes_def)
  moreover have "bit (ucast (drop_bit (i * 8) v AND 0xff) :: u8) j \<longleftrightarrow>
      j < 8 \<and> bit v (i * 8 + j) \<and> bit (0xff :: 'a word) j"
    by (auto simp: bit_ucast_iff bit_and_iff bit_drop_bit_eq simp del: word_ff_bit)
  moreover have "bit v (i * 8 + j) \<Longrightarrow> j < LENGTH('a)"
    by (drule bit_imp_le_length) simp
  ultimately show ?thesis
    by (simp only: word_ff_bit) auto
qed

lemma le_codec_word:
  assumes "LENGTH('a :: len) = n * 8"
  shows "le_codec n (le_bytes n :: 'a word \<Rightarrow> u8 list) (le_value n)"
proof
  fix v :: "'a word"
  show "length (le_bytes n v) = n" by simp
  show "le_value n (le_bytes n v) = v"
  proof (rule bit_word_eqI)
    fix k assume "k < LENGTH('a)"
    then have "k div 8 < n" using assms by (simp add: less_mult_imp_div_less)
    then show "bit (le_value n (le_bytes n v) :: 'a word) k = bit v k"
      using \<open>k < LENGTH('a)\<close> by (simp add: bit_le_value bit_le_bytes)
  qed
next
  fix bs :: "u8 list"
  assume bs: "length bs = n"
  show "le_bytes n (le_value n bs :: 'a word) = bs"
  proof (rule nth_equalityI)
    fix i assume "i < length (le_bytes n (le_value n bs :: 'a word))"
    then have i: "i < n" by simp
    show "le_bytes n (le_value n bs :: 'a word) ! i = bs ! i"
    proof (rule bit_word_eqI)
      fix j :: nat assume "j < LENGTH(8)"
      then have j: "j < 8" by simp
      have "i * 8 + j < n * 8" using i j by linarith
      then show "bit (le_bytes n (le_value n bs :: 'a word) ! i) j = bit (bs ! i) j"
        using i j assms by (simp add: bit_le_bytes bit_le_value)
    qed
  qed (simp add: bs)
qed

lemma read_le_value:
  "read_u16_le bs = le_value 2 bs" "read_u32_le bs = le_value 4 bs" "read_u64_le bs = le_value 8 bs"
  by (simp_all add: read_u16_le_def read_u32_le_def read_u64_le_def le_value_def upto_literals)

interpretation le16: le_codec 2 "le_bytes 2 :: u16 \<Rightarrow> u8 list" read_u16_le
  unfolding read_le_value [abs_def] by (rule le_codec_word) simp

interpretation le32: le_codec 4 "le_bytes 4 :: u32 \<Rightarrow> u8 list" read_u32_le
  unfolding read_le_value [abs_def] by (rule le_codec_word) simp

interpretation le64: le_codec 8 "le_bytes 8 :: u64 \<Rightarrow> u8 list" read_u64_le
  unfolding read_le_value [abs_def] by (rule le_codec_word) simp

end
