(* ===== verification/Settings_Codec.thy ===== *)
theory Settings_Codec
  imports C_Bytes App_Error "HOL-Library.Monad_Syntax"
begin

text \<open>
  The stored device settings of \<open>app_contracts_v2/device_settings_v2.c\<close>: validation, the
  344-byte record the settings are kept in, and the reset of everything but the credentials.

  A text field is a \<open>char\<close> array of fixed size, modelled as the list of its bytes, the NUL
  and what follows it included; \<open>settings_sized\<close> states the sizes of the arrays.  A pointer
  argument is \<open>None\<close> for a null pointer.  The helpers that are only called on arrays of the
  structure have no null case.  A buffer argument carries its length.
\<close>

section \<open>Data\<close>

definition APP_V2_SETTINGS_MAGIC :: u32 where
  "APP_V2_SETTINGS_MAGIC = 0x324b4d45"
definition APP_V2_SETTINGS_RECORD_VERSION :: u16 where
  "APP_V2_SETTINGS_RECORD_VERSION = 1"
definition APP_V2_SETTINGS_RECORD_BYTES :: nat where
  [limit_defs]: "APP_V2_SETTINGS_RECORD_BYTES = 344"
definition APP_V2_CREDENTIAL_VERSION :: u16 where
  "APP_V2_CREDENTIAL_VERSION = 1"
definition APP_V2_PASSWORD_ALGORITHM_VERSION :: u16 where
  "APP_V2_PASSWORD_ALGORITHM_VERSION = 1"
definition APP_V2_PASSWORD_SALT_BYTES :: nat where
  [limit_defs]: "APP_V2_PASSWORD_SALT_BYTES = 16"
definition APP_V2_PASSWORD_VERIFIER_BYTES :: nat where
  [limit_defs]: "APP_V2_PASSWORD_VERIFIER_BYTES = 32"
definition APP_V2_DEVICE_NAME_MAX_BYTES :: nat where
  [limit_defs]: "APP_V2_DEVICE_NAME_MAX_BYTES = 32"
definition APP_V2_WIFI_SSID_MAX_BYTES :: nat where
  [limit_defs]: "APP_V2_WIFI_SSID_MAX_BYTES = 32"
definition APP_V2_WIFI_PASSPHRASE_MIN_BYTES :: nat where
  [limit_defs]: "APP_V2_WIFI_PASSPHRASE_MIN_BYTES = 8"
definition APP_V2_WIFI_PASSPHRASE_MAX_BYTES :: nat where
  [limit_defs]: "APP_V2_WIFI_PASSPHRASE_MAX_BYTES = 63"
definition APP_V2_UUID_TEXT_BYTES :: nat where
  [limit_defs]: "APP_V2_UUID_TEXT_BYTES = 36"
definition APP_V2_UUID_BUFFER_BYTES :: nat where
  [limit_defs]: "APP_V2_UUID_BUFFER_BYTES = 37"
definition APP_V2_SNAPSHOT_RETENTION_TARGET_MAX :: nat where
  [limit_defs]: "APP_V2_SNAPSHOT_RETENTION_TARGET_MAX = 100"
definition DEFAULT_SNAPSHOT_RETENTION_TARGET :: u8 where
  "DEFAULT_SNAPSHOT_RETENTION_TARGET = 5"

datatype settings_result =
    APP_V2_SETTINGS_OK
  | APP_V2_SETTINGS_INVALID_ARGUMENT
  | APP_V2_SETTINGS_INVALID_LENGTH
  | APP_V2_SETTINGS_CORRUPT
  | APP_V2_SETTINGS_UNSUPPORTED_VERSION

record device_settings =
  provisioned :: bool
  credential_version :: u16
  password_algorithm_version :: u16
  password_iterations :: u32
  password_salt :: "u8 list"
  password_verifier :: "u8 list"
  next_blob_id :: u64
  snapshot_retention_target :: u8
  require_serial_confirmation :: bool
  station_configured :: bool
  last_selected_package_id :: "u8 list"
  device_name :: "u8 list"
  ap_ssid :: "u8 list"
  ap_passphrase :: "u8 list"
  station_ssid :: "u8 list"
  station_passphrase :: "u8 list"

definition settings_sized :: "device_settings \<Rightarrow> bool" where
  "settings_sized s \<longleftrightarrow>
     length (password_salt s) = 16 \<and> length (password_verifier s) = 32 \<and>
     length (last_selected_package_id s) = 37 \<and> length (device_name s) = 33 \<and>
     length (ap_ssid s) = 33 \<and> length (ap_passphrase s) = 64 \<and>
     length (station_ssid s) = 33 \<and> length (station_passphrase s) = 64"

text \<open>The bytes of a string literal, and the structure after \<open>memset\<close> with zero.\<close>

definition ascii :: "string \<Rightarrow> u8 list" where
  "ascii s = map of_char s"

abbreviation zeros :: "nat \<Rightarrow> u8 list" where
  "zeros n \<equiv> replicate n 0"

definition zero_settings :: device_settings where
  "zero_settings =
     \<lparr>provisioned = False, credential_version = 0, password_algorithm_version = 0,
      password_iterations = 0, password_salt = zeros 16, password_verifier = zeros 32,
      next_blob_id = 0, snapshot_retention_target = 0, require_serial_confirmation = False,
      station_configured = False, last_selected_package_id = zeros 37, device_name = zeros 33,
      ap_ssid = zeros 33, ap_passphrase = zeros 64, station_ssid = zeros 33,
      station_passphrase = zeros 64\<rparr>"

section \<open>Text\<close>

fun bytes_are_zero :: "u8 list \<Rightarrow> bool" where
  "bytes_are_zero [] = True"
| "bytes_are_zero (b # bs) = (if b \<noteq> 0 then False else bytes_are_zero bs)"

fun bounded_length :: "u8 list \<Rightarrow> nat \<Rightarrow> nat option" where
  "bounded_length text 0 = None"
| "bounded_length [] (Suc capacity) = None"
| "bounded_length (c # text) (Suc capacity) =
     (if c = 0 then Some 0 else map_option Suc (bounded_length text capacity))"

text \<open>The continuation bytes of one character: the loop over \<open>offset\<close>.\<close>

fun utf8_continuations :: "u32 \<Rightarrow> u8 list \<Rightarrow> u32 option" where
  "utf8_continuations code_point [] = Some code_point"
| "utf8_continuations code_point (continuation # rest) =
     (if continuation AND 0xc0 \<noteq> 0x80 then None
      else utf8_continuations (push_bit 6 code_point OR ucast (continuation AND 0x3f)) rest)"

text \<open>The leading byte: the initial code point, the continuation count and the minimum.\<close>

definition utf8_lead :: "u8 \<Rightarrow> (u32 \<times> nat \<times> u32) option" where
  "utf8_lead lead =
     (if 0xc2 \<le> lead \<and> lead \<le> 0xdf then Some (ucast (lead AND 0x1f), 1, 0x80)
      else if 0xe0 \<le> lead \<and> lead \<le> 0xef then Some (ucast (lead AND 0x0f), 2, 0x800)
      else if 0xf0 \<le> lead \<and> lead \<le> 0xf4 then Some (ucast (lead AND 0x07), 3, 0x10000)
      else None)"

fun valid_utf8 :: "u8 list \<Rightarrow> bool" where
  "valid_utf8 [] = True"
| "valid_utf8 (lead # rest) =
     (if lead \<le> 0x7f then valid_utf8 rest
      else case utf8_lead lead of
        None \<Rightarrow> False
      | Some (initial, continuation_count, minimum) \<Rightarrow>
          if length rest < continuation_count then False
          else case utf8_continuations initial (take continuation_count rest) of
            None \<Rightarrow> False
          | Some code_point \<Rightarrow>
              if code_point < minimum \<or> 0x10ffff < code_point \<or>
                 0xd800 \<le> code_point \<and> code_point \<le> 0xdfff
              then False
              else valid_utf8 (drop continuation_count rest))"

definition valid_text :: "u8 list \<Rightarrow> nat \<Rightarrow> nat \<Rightarrow> nat \<Rightarrow> bool" where
  "valid_text txt capacity minimum maximum =
     (case bounded_length txt capacity of
        None \<Rightarrow> False
      | Some len \<Rightarrow> minimum \<le> len \<and> len \<le> maximum \<and> valid_utf8 (take len txt))"

text \<open>The loop of \<open>valid_uuid_or_empty\<close> over the 36 characters.\<close>

fun uuid_characters :: "nat \<Rightarrow> u8 list \<Rightarrow> bool" where
  "uuid_characters index [] = True"
| "uuid_characters index (c # cs) =
     (if index = 8 \<or> index = 13 \<or> index = 18 \<or> index = 23
      then (if c \<noteq> 0x2d then False else uuid_characters (index + 1) cs)
      else if \<not> (0x30 \<le> c \<and> c \<le> 0x39) \<and> \<not> (0x61 \<le> c \<and> c \<le> 0x66) then False
      else uuid_characters (index + 1) cs)"

definition valid_uuid_or_empty :: "u8 list \<Rightarrow> bool" where
  "valid_uuid_or_empty uuid =
     (case bounded_length uuid APP_V2_UUID_BUFFER_BYTES of
        None \<Rightarrow> False
      | Some len \<Rightarrow>
          if len = 0 then True
          else if len \<noteq> APP_V2_UUID_TEXT_BYTES then False
          else if \<not> uuid_characters 0 (take APP_V2_UUID_TEXT_BYTES uuid) then False
          else uuid ! 14 = 0x34 \<and>
               (uuid ! 19 = 0x38 \<or> uuid ! 19 = 0x39 \<or> uuid ! 19 = 0x61 \<or> uuid ! 19 = 0x62))"

section \<open>Validation\<close>

definition credential_bytes_present :: "device_settings \<Rightarrow> bool" where
  "credential_bytes_present s \<longleftrightarrow>
     password_iterations s \<noteq> 0 \<and> \<not> bytes_are_zero (password_salt s) \<and>
     \<not> bytes_are_zero (password_verifier s)"

definition credential_bytes_absent :: "device_settings \<Rightarrow> bool" where
  "credential_bytes_absent s \<longleftrightarrow>
     password_iterations s = 0 \<and> bytes_are_zero (password_salt s) \<and>
     bytes_are_zero (password_verifier s)"

definition station_passphrase_valid :: "device_settings \<Rightarrow> bool" where
  "station_passphrase_valid s =
     (case bounded_length (station_passphrase s) 64 of
        None \<Rightarrow> False
      | Some len \<Rightarrow>
          if len = 0 then True
          else APP_V2_WIFI_PASSPHRASE_MIN_BYTES \<le> len \<and>
               len \<le> APP_V2_WIFI_PASSPHRASE_MAX_BYTES \<and>
               valid_utf8 (take len (station_passphrase s)))"

definition station_fields_valid :: "device_settings \<Rightarrow> bool" where
  "station_fields_valid s =
     (if station_configured s
      then valid_text (station_ssid s) 33 1 APP_V2_WIFI_SSID_MAX_BYTES \<and>
           station_passphrase_valid s
      else valid_text (station_ssid s) 33 0 0 \<and> valid_text (station_passphrase s) 64 0 0)"

definition app_v2_device_settings_validate :: "device_settings option \<Rightarrow> settings_result" where
  "app_v2_device_settings_validate settings =
     (case settings of
        None \<Rightarrow> APP_V2_SETTINGS_INVALID_ARGUMENT
      | Some s \<Rightarrow>
          if credential_version s \<noteq> APP_V2_CREDENTIAL_VERSION \<or>
             password_algorithm_version s \<noteq> APP_V2_PASSWORD_ALGORITHM_VERSION \<or>
             unat (snapshot_retention_target s) > APP_V2_SNAPSHOT_RETENTION_TARGET_MAX \<or>
             \<not> valid_uuid_or_empty (last_selected_package_id s) \<or>
             \<not> valid_text (device_name s) 33 1 APP_V2_DEVICE_NAME_MAX_BYTES
          then APP_V2_SETTINGS_CORRUPT
          else if \<not> provisioned s then
            if \<not> credential_bytes_absent s \<or> \<not> valid_text (ap_ssid s) 33 0 0 \<or>
               \<not> valid_text (ap_passphrase s) 64 0 0 \<or> \<not> station_fields_valid s
            then APP_V2_SETTINGS_CORRUPT
            else APP_V2_SETTINGS_OK
          else if \<not> credential_bytes_present s \<or>
                  \<not> valid_text (ap_ssid s) 33 1 APP_V2_WIFI_SSID_MAX_BYTES \<or>
                  \<not> valid_text (ap_passphrase s) 64
                       APP_V2_WIFI_PASSPHRASE_MIN_BYTES APP_V2_WIFI_PASSPHRASE_MAX_BYTES
          then APP_V2_SETTINGS_CORRUPT
          else if \<not> station_fields_valid s then APP_V2_SETTINGS_CORRUPT
          else APP_V2_SETTINGS_OK)"

definition app_v2_device_settings_init_unprovisioned :: device_settings where
  "app_v2_device_settings_init_unprovisioned =
     zero_settings
       \<lparr>credential_version := APP_V2_CREDENTIAL_VERSION,
        password_algorithm_version := APP_V2_PASSWORD_ALGORITHM_VERSION,
        snapshot_retention_target := DEFAULT_SNAPSHOT_RETENTION_TARGET,
        device_name := blit 0 (ascii ''ESP32 Macro Keyboard'' @ [0]) (device_name zero_settings)\<rparr>"

section \<open>The stored record\<close>

definition copy_record_text :: "u8 list \<Rightarrow> nat \<Rightarrow> u8 list option" where
  "copy_record_text source destination_length =
     (case bounded_length source (length source) of
        None \<Rightarrow> None
      | Some terminator \<Rightarrow>
          if destination_length \<le> terminator \<or> \<not> valid_utf8 (take terminator source) \<or>
             \<not> bytes_are_zero (drop (terminator + 1) source)
          then None
          else Some (blit 0 (take terminator source) (zeros destination_length)))"

definition write_record_text :: "nat \<Rightarrow> nat \<Rightarrow> u8 list \<Rightarrow> u8 list \<Rightarrow> u8 list" where
  "write_record_text off destination_length txt buf =
     (let len = (case bounded_length txt destination_length of None \<Rightarrow> 0 | Some len \<Rightarrow> len)
      in blit off (take len txt) buf)"

definition flag_byte :: "bool \<Rightarrow> u8" where
  "flag_byte b = (if b then 1 else 0)"

text \<open>The writes of \<open>app_v2_device_settings_encode\<close> after its checks, in its order.\<close>

definition encode_fields :: "device_settings \<Rightarrow> u8 list" where
  "encode_fields s =
     (let r = zeros APP_V2_SETTINGS_RECORD_BYTES;
          r = write_u32_le 0 APP_V2_SETTINGS_MAGIC r;
          r = write_u16_le 4 APP_V2_SETTINGS_RECORD_VERSION r;
          r = write_u16_le 6 (of_nat APP_V2_SETTINGS_RECORD_BYTES) r;
          r = write_u16_le 8 (credential_version s) r;
          r = write_u16_le 10 (password_algorithm_version s) r;
          r = write_u32_le 12 (password_iterations s) r;
          r = blit 16 (take APP_V2_PASSWORD_SALT_BYTES (password_salt s)) r;
          r = blit 32 (take APP_V2_PASSWORD_VERIFIER_BYTES (password_verifier s)) r;
          r = write_u64_le 64 (next_blob_id s) r;
          r = r[73 := snapshot_retention_target s];
          r = r[75 := flag_byte (require_serial_confirmation s)];
          r = r[76 := flag_byte (provisioned s)];
          r = r[77 := flag_byte (station_configured s)];
          r = write_record_text 80 37 (last_selected_package_id s) r;
          r = write_record_text 117 33 (device_name s) r;
          r = write_record_text 150 33 (ap_ssid s) r;
          r = write_record_text 183 64 (ap_passphrase s) r;
          r = write_record_text 247 33 (station_ssid s) r;
          r = write_record_text 280 64 (station_passphrase s) r
      in r)"

definition app_v2_device_settings_encode ::
    "device_settings option \<Rightarrow> u8 list option \<Rightarrow> settings_result + u8 list" where
  "app_v2_device_settings_encode settings buf =
     (case (settings, buf) of
        (Some s, Some b) \<Rightarrow>
          if length b \<noteq> APP_V2_SETTINGS_RECORD_BYTES then Inl APP_V2_SETTINGS_INVALID_LENGTH
          else (let validation = app_v2_device_settings_validate settings
                in if validation \<noteq> APP_V2_SETTINGS_OK then Inl validation
                   else Inr (encode_fields s))
      | _ \<Rightarrow> Inl APP_V2_SETTINGS_INVALID_ARGUMENT)"

text \<open>The reads of \<open>app_v2_device_settings_decode\<close>: the fixed fields, then the texts.\<close>

definition decode_numbers :: "u8 list \<Rightarrow> device_settings" where
  "decode_numbers r =
     zero_settings
       \<lparr>credential_version := APP_V2_CREDENTIAL_VERSION,
        password_algorithm_version := APP_V2_PASSWORD_ALGORITHM_VERSION,
        password_iterations := read_u32_le (drop 12 r),
        password_salt := slice 16 APP_V2_PASSWORD_SALT_BYTES r,
        password_verifier := slice 32 APP_V2_PASSWORD_VERIFIER_BYTES r,
        next_blob_id := read_u64_le (drop 64 r),
        snapshot_retention_target := r ! 73,
        require_serial_confirmation := r ! 75 \<noteq> 0,
        provisioned := r ! 76 \<noteq> 0,
        station_configured := r ! 77 \<noteq> 0\<rparr>"

definition decode_texts :: "u8 list \<Rightarrow> device_settings \<Rightarrow> device_settings option" where
  "decode_texts r decoded =
     do {
       package \<leftarrow> copy_record_text (slice 80 37 r) 37;
       name \<leftarrow> copy_record_text (slice 117 33 r) 33;
       ap \<leftarrow> copy_record_text (slice 150 33 r) 33;
       ap_pass \<leftarrow> copy_record_text (slice 183 64 r) 64;
       station \<leftarrow> copy_record_text (slice 247 33 r) 33;
       station_pass \<leftarrow> copy_record_text (slice 280 64 r) 64;
       Some (decoded
         \<lparr>last_selected_package_id := package, device_name := name, ap_ssid := ap,
          ap_passphrase := ap_pass, station_ssid := station,
          station_passphrase := station_pass\<rparr>)
     }"

definition app_v2_device_settings_decode ::
    "u8 list option \<Rightarrow> settings_result + device_settings" where
  "app_v2_device_settings_decode buf =
     (case buf of
        None \<Rightarrow> Inl APP_V2_SETTINGS_INVALID_ARGUMENT
      | Some r \<Rightarrow>
          if length r \<noteq> APP_V2_SETTINGS_RECORD_BYTES then Inl APP_V2_SETTINGS_INVALID_LENGTH
          else if read_u32_le r \<noteq> APP_V2_SETTINGS_MAGIC then Inl APP_V2_SETTINGS_CORRUPT
          else if read_u16_le (drop 4 r) \<noteq> APP_V2_SETTINGS_RECORD_VERSION
          then Inl APP_V2_SETTINGS_UNSUPPORTED_VERSION
          else if read_u16_le (drop 6 r) \<noteq> of_nat APP_V2_SETTINGS_RECORD_BYTES
          then Inl APP_V2_SETTINGS_CORRUPT
          else if read_u16_le (drop 8 r) \<noteq> APP_V2_CREDENTIAL_VERSION \<or>
                  read_u16_le (drop 10 r) \<noteq> APP_V2_PASSWORD_ALGORITHM_VERSION
          then Inl APP_V2_SETTINGS_UNSUPPORTED_VERSION
          else if \<not> bytes_are_zero (slice 78 2 r) \<or> 1 < r ! 72 \<or>
                  APP_V2_SNAPSHOT_RETENTION_TARGET_MAX < unat (r ! 73) \<or> 1 < r ! 74 \<or>
                  1 < r ! 75 \<or> 1 < r ! 76 \<or> 1 < r ! 77
          then Inl APP_V2_SETTINGS_CORRUPT
          else case decode_texts r (decode_numbers r) of
            None \<Rightarrow> Inl APP_V2_SETTINGS_CORRUPT
          | Some decoded \<Rightarrow>
              (let validation = app_v2_device_settings_validate (Some decoded)
               in if validation \<noteq> APP_V2_SETTINGS_OK then Inl validation else Inr decoded))"

text \<open>\<open>reset_noncredential\<close>: the result, and the settings after the call.\<close>

definition app_v2_device_settings_reset_noncredential ::
    "device_settings option \<Rightarrow> settings_result \<times> device_settings option" where
  "app_v2_device_settings_reset_noncredential settings =
     (let validation = app_v2_device_settings_validate settings
      in case settings of
        None \<Rightarrow> (validation, None)
      | Some s \<Rightarrow>
          if validation \<noteq> APP_V2_SETTINGS_OK \<or> \<not> provisioned s
          then (if validation = APP_V2_SETTINGS_OK then APP_V2_SETTINGS_INVALID_ARGUMENT
                else validation, settings)
          else (let s' = s
                  \<lparr>device_name := blit 0 (ascii ''ESP32 Macro Keyboard'' @ [0]) (zeros 33),
                   require_serial_confirmation := False,
                   snapshot_retention_target := DEFAULT_SNAPSHOT_RETENTION_TARGET,
                   last_selected_package_id := zeros 37,
                   station_configured := False,
                   station_ssid := zeros 33,
                   station_passphrase := zeros 64\<rparr>
                in (app_v2_device_settings_validate (Some s'), Some s')))"

end
