(* ===== verification/Settings_Record.thy ===== *)
theory Settings_Record
  imports Settings_Codec
begin

text \<open>
  Correctness of the settings record: the layout \<open>encode\<close> writes, that \<open>decode\<close> reads it
  back, that \<open>decode\<close> accepts nothing but records of valid settings, and that every operation
  keeps the sizes and the validity of the structure.
\<close>

section \<open>Text fields\<close>

definition c_text :: "u8 list \<Rightarrow> u8 list" where
  "c_text buf = takeWhile (\<lambda>c. c \<noteq> 0) buf"

definition padded :: "nat \<Rightarrow> u8 list \<Rightarrow> u8 list" where
  "padded n t = t @ zeros (n - length t)"

lemma length_padded [simp]: "length t \<le> n \<Longrightarrow> length (padded n t) = n"
  by (simp add: padded_def)

lemma c_text_no_nul [simp]: "0 \<notin> set (c_text buf)"
  unfolding c_text_def using set_takeWhileD by fastforce

lemma c_text_length: "length (c_text buf) \<le> length buf"
  by (simp add: c_text_def length_takeWhile_le)

lemma c_text_take: "take (length (c_text buf)) buf = c_text buf"
  unfolding c_text_def by (metis takeWhile_eq_take)

lemma c_text_padded: "0 \<notin> set t \<Longrightarrow> length t < n \<Longrightarrow> c_text (padded n t) = t"
  by (auto simp: c_text_def padded_def takeWhile_append)

lemma c_text_c_text [simp]: "c_text (c_text buf) = c_text buf"
  using c_text_no_nul [of buf] by (auto simp: c_text_def takeWhile_eq_all_conv dest: set_takeWhileD)

lemma bounded_length_eq:
  "bounded_length buf cap =
     (if length (c_text buf) < cap \<and> length (c_text buf) < length buf
      then Some (length (c_text buf)) else None)"
  by (induction buf cap rule: bounded_length.induct) (auto simp: c_text_def)

lemma bounded_length_padded [simp]:
  "0 \<notin> set t \<Longrightarrow> length t < n \<Longrightarrow> bounded_length (padded n t) n = Some (length t)"
  by (simp add: bounded_length_eq c_text_padded)

lemma bytes_are_zero_iff: "bytes_are_zero bs \<longleftrightarrow> bs = zeros (length bs)"
  by (induction bs) auto

lemma zeros_are_zero [simp]: "bytes_are_zero (zeros n)"
  by (simp add: bytes_are_zero_iff)

lemma valid_utf8_ascii: "\<forall>c \<in> set bs. c \<le> 0x7f \<Longrightarrow> valid_utf8 bs"
  by (induction bs) auto

text \<open>A field of the record is accepted exactly when it is a padded text, and is then copied whole.\<close>

lemma copy_record_text_padded:
  "0 \<notin> set t \<Longrightarrow> length t < n \<Longrightarrow> valid_utf8 t \<Longrightarrow> copy_record_text (padded n t) n = Some (padded n t)"
  by (simp add: copy_record_text_def) (simp add: padded_def blit_def)

lemma copy_record_text_SomeD:
  assumes "copy_record_text src n = Some dst" and "length src = n"
  shows "dst = src" and "src = padded n (c_text src)" and "length (c_text src) < n"
    and "valid_utf8 (c_text src)"
proof -
  let ?t = "c_text src"
  from assms have len: "length ?t < n" and u: "valid_utf8 ?t"
    and z: "bytes_are_zero (drop (length ?t + 1) src)"
    and d: "dst = blit 0 ?t (zeros n)"
    by (auto simp: copy_record_text_def bounded_length_eq c_text_take split: if_splits)
  have nul: "src ! length ?t = 0"
    using len assms(2) nth_length_takeWhile [of "\<lambda>c. c \<noteq> 0" src] by (simp add: c_text_def)
  have "src = take (length ?t) src @ src ! length ?t # drop (length ?t + 1) src"
    using len assms(2) by (simp add: id_take_nth_drop)
  also have "\<dots> = ?t @ 0 # zeros (n - length ?t - 1)"
    using z assms(2) nul by (simp add: c_text_take bytes_are_zero_iff)
  also have "\<dots> = padded n ?t"
    using len by (simp add: padded_def flip: replicate_Suc)
  finally show s: "src = padded n ?t" .
  show "dst = src"
    by (subst s) (use d len in \<open>simp add: padded_def blit_def\<close>)
  show "length ?t < n" and "valid_utf8 ?t"
    by (rule len, rule u)
qed

section \<open>Canonical settings\<close>

text \<open>The structure with the bytes behind every text cleared.\<close>

definition canonical :: "device_settings \<Rightarrow> device_settings" where
  "canonical s = s
     \<lparr>last_selected_package_id := padded 37 (c_text (last_selected_package_id s)),
      device_name := padded 33 (c_text (device_name s)),
      ap_ssid := padded 33 (c_text (ap_ssid s)),
      ap_passphrase := padded 64 (c_text (ap_passphrase s)),
      station_ssid := padded 33 (c_text (station_ssid s)),
      station_passphrase := padded 64 (c_text (station_passphrase s))\<rparr>"

text \<open>What validation gives: every text ends inside its field and is UTF-8.\<close>

definition text_field :: "nat \<Rightarrow> u8 list \<Rightarrow> bool" where
  "text_field n buf \<longleftrightarrow> length buf = n \<and> length (c_text buf) < n \<and> valid_utf8 (c_text buf)"

definition texts_terminated :: "device_settings \<Rightarrow> bool" where
  "texts_terminated s \<longleftrightarrow>
     text_field 37 (last_selected_package_id s) \<and> text_field 33 (device_name s) \<and>
     text_field 33 (ap_ssid s) \<and> text_field 64 (ap_passphrase s) \<and>
     text_field 33 (station_ssid s) \<and> text_field 64 (station_passphrase s)"

lemma valid_text_field:
  "length buf = n \<Longrightarrow> valid_text buf n lo hi \<Longrightarrow> text_field n buf"
  by (auto simp: valid_text_def text_field_def bounded_length_eq c_text_take split: if_splits)

lemma uuid_characters_ascii: "uuid_characters i cs \<Longrightarrow> \<forall>c \<in> set cs. c \<le> 0x7f"
proof (induction i cs rule: uuid_characters.induct)
  case (2 index c cs)
  then have "c = 0x2d \<or> c \<le> 0x39 \<or> c \<le> 0x66" and "\<forall>c \<in> set cs. c \<le> 0x7f"
    by (auto split: if_splits)
  then show ?case by (auto simp: word_le_nat_alt)
qed simp

lemma uuid_field: "length buf = 37 \<Longrightarrow> valid_uuid_or_empty buf \<Longrightarrow> text_field 37 buf"
  using c_text_take [of buf]
  by (auto simp: valid_uuid_or_empty_def text_field_def bounded_length_eq limit_defs
      split: if_splits dest!: uuid_characters_ascii valid_utf8_ascii)

lemma station_fields:
  assumes "length (station_ssid s) = 33" "length (station_passphrase s) = 64"
    and "station_fields_valid s"
  shows "text_field 33 (station_ssid s)" "text_field 64 (station_passphrase s)"
  using assms
  by (auto simp: station_fields_valid_def station_passphrase_valid_def valid_text_def text_field_def
      bounded_length_eq c_text_take split: if_splits)

lemma valid_texts_terminated:
  assumes "settings_sized s" and "app_v2_device_settings_validate (Some s) = APP_V2_SETTINGS_OK"
  shows "texts_terminated s"
  using assms station_fields [of s]
  by (auto simp: app_v2_device_settings_validate_def settings_sized_def texts_terminated_def
      uuid_field valid_text_field split: if_splits)

section \<open>Validation does not see what follows a text\<close>

lemma nth_padded_c_text: "i < length (c_text buf) \<Longrightarrow> padded n (c_text buf) ! i = buf ! i"
  by (simp add: padded_def nth_append c_text_def takeWhile_nth)

lemma text_fieldD:
  assumes "text_field n buf"
  shows "bounded_length buf n = Some (length (c_text buf))"
    and "bounded_length (padded n (c_text buf)) n = Some (length (c_text buf))"
    and "take (length (c_text buf)) (padded n (c_text buf)) = c_text buf"
    and "valid_utf8 (c_text buf)"
  using assms by (simp_all add: text_field_def bounded_length_eq c_text_padded) (simp add: padded_def)

lemma valid_text_canonical:
  "text_field n buf \<Longrightarrow> valid_text (padded n (c_text buf)) n lo hi = valid_text buf n lo hi"
  by (simp add: valid_text_def text_fieldD c_text_take)

lemma valid_uuid_canonical:
  assumes "text_field 37 buf"
  shows "valid_uuid_or_empty (padded 37 (c_text buf)) = valid_uuid_or_empty buf"
proof (cases "length (c_text buf) = 36")
  case True
  then have "take 36 (padded 37 (c_text buf)) = take 36 buf"
    using text_fieldD(3) [OF assms] c_text_take [of buf] by simp
  with True assms show ?thesis
    by (simp add: valid_uuid_or_empty_def text_fieldD nth_padded_c_text limit_defs)
qed (use assms in \<open>simp add: valid_uuid_or_empty_def text_fieldD limit_defs\<close>)

lemma station_canonical:
  "texts_terminated s \<Longrightarrow> station_fields_valid (canonical s) = station_fields_valid s"
  by (simp add: station_fields_valid_def canonical_def texts_terminated_def valid_text_canonical
      station_passphrase_valid_def text_fieldD c_text_take)

lemma validate_canonical:
  assumes "texts_terminated s"
  shows "app_v2_device_settings_validate (Some (canonical s)) = app_v2_device_settings_validate (Some s)"
proof -
  have same: "credential_version (canonical s) = credential_version s"
    "password_algorithm_version (canonical s) = password_algorithm_version s"
    "snapshot_retention_target (canonical s) = snapshot_retention_target s"
    "provisioned (canonical s) = provisioned s"
    "credential_bytes_absent (canonical s) = credential_bytes_absent s"
    "credential_bytes_present (canonical s) = credential_bytes_present s"
    by (simp_all add: canonical_def credential_bytes_absent_def credential_bytes_present_def)
  have texts: "valid_uuid_or_empty (last_selected_package_id (canonical s)) =
      valid_uuid_or_empty (last_selected_package_id s)"
    "valid_text (device_name (canonical s)) 33 lo hi = valid_text (device_name s) 33 lo hi"
    "valid_text (ap_ssid (canonical s)) 33 lo hi = valid_text (ap_ssid s) 33 lo hi"
    "valid_text (ap_passphrase (canonical s)) 64 lo hi = valid_text (ap_passphrase s) 64 lo hi"
    for lo hi
    using assms
    by (simp_all add: texts_terminated_def canonical_def valid_text_canonical valid_uuid_canonical)
  show ?thesis
    unfolding app_v2_device_settings_validate_def option.case same texts station_canonical [OF assms] ..
qed

section \<open>The layout of the record\<close>

definition field_texts :: "device_settings \<Rightarrow> u8 list" where
  "field_texts s =
     padded 37 (c_text (last_selected_package_id s)) @ padded 33 (c_text (device_name s)) @
     padded 33 (c_text (ap_ssid s)) @ padded 64 (c_text (ap_passphrase s)) @
     padded 33 (c_text (station_ssid s)) @ padded 64 (c_text (station_passphrase s))"

definition field_numbers :: "device_settings \<Rightarrow> u8 list" where
  "field_numbers s =
     le_bytes 4 APP_V2_SETTINGS_MAGIC @ le_bytes 2 APP_V2_SETTINGS_RECORD_VERSION @
     le_bytes 2 (of_nat APP_V2_SETTINGS_RECORD_BYTES :: u16) @ le_bytes 2 (credential_version s) @
     le_bytes 2 (password_algorithm_version s) @ le_bytes 4 (password_iterations s) @
     password_salt s @ password_verifier s @ le_bytes 8 (next_blob_id s) @
     [0, snapshot_retention_target s, 0, flag_byte (require_serial_confirmation s),
      flag_byte (provisioned s), flag_byte (station_configured s), 0, 0]"

lemma filled_write_u16: "filled n pre buf \<Longrightarrow> off = length pre \<Longrightarrow> off + 2 \<le> n \<Longrightarrow>
    filled n (pre @ le_bytes 2 v) (write_u16_le off v buf)"
  by (subst write_u16_le_blit) (simp_all add: filled_def filled_blit [unfolded filled_def] blit_def)

lemma filled_write_u32: "filled n pre buf \<Longrightarrow> off = length pre \<Longrightarrow> off + 4 \<le> n \<Longrightarrow>
    filled n (pre @ le_bytes 4 v) (write_u32_le off v buf)"
  by (subst write_u32_le_blit) (simp_all add: filled_def filled_blit [unfolded filled_def] blit_def)

lemma filled_write_u64: "filled n pre buf \<Longrightarrow> off = length pre \<Longrightarrow> off + 8 \<le> n \<Longrightarrow>
    filled n (pre @ le_bytes 8 v) (write_u64_le off v buf)"
  by (subst write_u64_le_blit) (simp_all add: filled_def filled_blit [unfolded filled_def] blit_def)

lemma filled_update: "filled n pre buf \<Longrightarrow> off = length pre + k \<Longrightarrow> off < n \<Longrightarrow>
    filled n (pre @ zeros k @ [x]) (buf[off := x])"
  using filled_blit [OF filled_pad [of n pre buf k], of off "[x]"]
  by (simp add: update_blit filled_def)

lemma filled_write_text:
  assumes "filled n pre buf" and "off = length pre" and "off + cap \<le> n" and "text_field cap txt"
  shows "filled n (pre @ padded cap (c_text txt)) (write_record_text off cap txt buf)"
proof -
  let ?t = "c_text txt"
  have len: "length ?t < cap" "bounded_length txt cap = Some (length ?t)"
    using assms(4) by (simp_all add: text_field_def bounded_length_eq)
  have "filled n (pre @ ?t) (blit off ?t buf)"
    by (rule filled_blit [OF assms(1)]) (use assms len in auto)
  then have "filled n ((pre @ ?t) @ zeros (cap - length ?t)) (blit off ?t buf)"
    by (rule filled_pad) (use assms len in auto)
  then show ?thesis
    using len by (simp add: write_record_text_def c_text_take padded_def)
qed

lemma encode_numbers:
  assumes "settings_sized s"
  shows "filled 344 (field_numbers s)
    ((write_u64_le 64 (next_blob_id s)
       (blit 32 (take 32 (password_verifier s)) (blit 16 (take 16 (password_salt s))
         (write_u32_le 12 (password_iterations s)
           (write_u16_le 10 (password_algorithm_version s) (write_u16_le 8 (credential_version s)
             (write_u16_le 6 (of_nat 344) (write_u16_le 4 APP_V2_SETTINGS_RECORD_VERSION
               (write_u32_le 0 APP_V2_SETTINGS_MAGIC (zeros 344))))))))))
     [73 := snapshot_retention_target s, 75 := flag_byte (require_serial_confirmation s),
      76 := flag_byte (provisioned s), 77 := flag_byte (station_configured s)])"
proof -
  have sizes: "length (password_salt s) = 16" "length (password_verifier s) = 32"
    using assms by (simp_all add: settings_sized_def)
  note f = filled_zero [of 344]
  note f = filled_write_u32 [OF f, of 0 APP_V2_SETTINGS_MAGIC, simplified]
  note f = filled_write_u16 [OF f, of 4 APP_V2_SETTINGS_RECORD_VERSION, simplified]
  note f = filled_write_u16 [OF f, of 6 "of_nat 344", simplified]
  note f = filled_write_u16 [OF f, of 8 "credential_version s", simplified]
  note f = filled_write_u16 [OF f, of 10 "password_algorithm_version s", simplified]
  note f = filled_write_u32 [OF f, of 12 "password_iterations s", simplified]
  note f = filled_blit [OF f, of 16 "take 16 (password_salt s)", simplified sizes, simplified]
  note f = filled_blit [OF f, of 32 "take 32 (password_verifier s)", simplified sizes, simplified]
  note f = filled_write_u64 [OF f, of 64 "next_blob_id s", simplified sizes, simplified]
  note f = filled_update [OF f, of 73 1 "snapshot_retention_target s", simplified sizes, simplified]
  note f = filled_update [OF f, of 75 1 "flag_byte (require_serial_confirmation s)",
      simplified sizes, simplified]
  note f = filled_update [OF f, of 76 0 "flag_byte (provisioned s)", simplified sizes, simplified]
  note f = filled_update [OF f, of 77 0 "flag_byte (station_configured s)", simplified sizes, simplified]
  show ?thesis
    using filled_pad [OF f, of 2] sizes by (simp add: field_numbers_def numeral_2_eq_2 limit_defs)
qed

lemma length_field_numbers [simp]: "settings_sized s \<Longrightarrow> length (field_numbers s) = 80"
  by (simp add: field_numbers_def settings_sized_def)

lemma encode_layout:
  assumes "settings_sized s" and "texts_terminated s"
  shows "encode_fields s = field_numbers s @ field_texts s"
proof -
  note t = assms(2) [unfolded texts_terminated_def]
  have len: "length (padded n (c_text buf)) = n" if "text_field n buf" for n buf
    using that by (simp add: text_field_def)
  show ?thesis
    unfolding encode_fields_def Let_def
    by (rule filled_full [of 344], unfold limit_defs field_texts_def append_assoc [symmetric])
       ((intro filled_write_text encode_numbers; use assms t in \<open>simp add: len\<close>)+,
         use assms t in \<open>simp add: len\<close>)
qed

section \<open>Reading the layout back\<close>

lemma read_le_take [simp]:
  "read_u16_le (take 2 bs) = read_u16_le bs" "read_u32_le (take 4 bs) = read_u32_le bs"
  "read_u64_le (take 8 bs) = read_u64_le bs"
  by (simp_all add: read_u16_le_def read_u32_le_def read_u64_le_def upto_literals)

lemma read_le_append [simp]:
  "read_u16_le (le_bytes 2 v @ bs) = v" "read_u32_le (le_bytes 4 w @ bs) = w"
  "read_u64_le (le_bytes 8 x @ bs) = x"
  using read_le_take(1) [of "le_bytes 2 v @ bs"] read_le_take(2) [of "le_bytes 4 w @ bs"]
    read_le_take(3) [of "le_bytes 8 x @ bs"]
  by (simp_all add: le16.from_to le32.from_to le64.from_to)

lemma flag_byte_simps [simp]: "flag_byte b \<noteq> 0 \<longleftrightarrow> b" "\<not> 1 < flag_byte b"
  by (simp_all add: flag_byte_def)

lemma flag_byte_of: "\<not> 1 < x \<Longrightarrow> flag_byte (x \<noteq> 0) = x" for x :: u8
proof -
  assume "\<not> 1 < x"
  then have "unat x \<le> 1" by (simp add: word_less_nat_alt)
  then have "unat x = 0 \<or> unat x = unat (1 :: u8)" by auto
  then show ?thesis by (auto simp: flag_byte_def word_unat_eq_iff)
qed

lemma decode_numbers_layout:
  assumes "settings_sized s" and "length rest = 264"
    and "credential_version s = APP_V2_CREDENTIAL_VERSION"
    and "password_algorithm_version s = APP_V2_PASSWORD_ALGORITHM_VERSION"
  defines "r \<equiv> field_numbers s @ rest"
  shows "decode_numbers r = s
    \<lparr>last_selected_package_id := zeros 37, device_name := zeros 33, ap_ssid := zeros 33,
     ap_passphrase := zeros 64, station_ssid := zeros 33, station_passphrase := zeros 64\<rparr>"
    and "read_u32_le r = APP_V2_SETTINGS_MAGIC"
    and "read_u16_le (drop 4 r) = APP_V2_SETTINGS_RECORD_VERSION"
    and "read_u16_le (drop 6 r) = of_nat APP_V2_SETTINGS_RECORD_BYTES"
    and "read_u16_le (drop 8 r) = APP_V2_CREDENTIAL_VERSION"
    and "read_u16_le (drop 10 r) = APP_V2_PASSWORD_ALGORITHM_VERSION"
    and "slice 78 2 r = [0, 0]" and "r ! 72 = 0" and "r ! 73 = snapshot_retention_target s"
    and "r ! 74 = 0" and "r ! 75 = flag_byte (require_serial_confirmation s)"
    and "r ! 76 = flag_byte (provisioned s)" and "r ! 77 = flag_byte (station_configured s)"
proof -
  note sizes = assms(1) [unfolded settings_sized_def]
  note at = r_def field_numbers_def slice_append_right slice_append_left sizes
  show "read_u32_le r = APP_V2_SETTINGS_MAGIC"
    by (simp add: at)
  show "read_u16_le (drop 4 r) = APP_V2_SETTINGS_RECORD_VERSION"
    "read_u16_le (drop 6 r) = of_nat APP_V2_SETTINGS_RECORD_BYTES"
    "read_u16_le (drop 8 r) = APP_V2_CREDENTIAL_VERSION"
    "read_u16_le (drop 10 r) = APP_V2_PASSWORD_ALGORITHM_VERSION"
    using assms(3,4) by (simp_all add: at)
  show bytes: "slice 78 2 r = [0, 0]" "r ! 72 = 0" "r ! 73 = snapshot_retention_target s"
    "r ! 74 = 0" "r ! 75 = flag_byte (require_serial_confirmation s)"
    "r ! 76 = flag_byte (provisioned s)" "r ! 77 = flag_byte (station_configured s)"
    by (simp_all add: at nth_append slice_def)
  have nums: "read_u32_le (drop 12 r) = password_iterations s" "read_u64_le (drop 64 r) = next_blob_id s"
    "slice 16 16 r = password_salt s" "slice 32 32 r = password_verifier s"
    by (simp_all add: at)
  show "decode_numbers r = s
    \<lparr>last_selected_package_id := zeros 37, device_name := zeros 33, ap_ssid := zeros 33,
     ap_passphrase := zeros 64, station_ssid := zeros 33, station_passphrase := zeros 64\<rparr>"
    using assms(3,4) by (simp add: decode_numbers_def zero_settings_def nums bytes limit_defs)
qed

lemma decode_texts_layout:
  assumes "length pre = 80" and "texts_terminated s"
  shows "decode_texts (pre @ field_texts s) d = Some (d
    \<lparr>last_selected_package_id := padded 37 (c_text (last_selected_package_id s)),
     device_name := padded 33 (c_text (device_name s)), ap_ssid := padded 33 (c_text (ap_ssid s)),
     ap_passphrase := padded 64 (c_text (ap_passphrase s)),
     station_ssid := padded 33 (c_text (station_ssid s)),
     station_passphrase := padded 64 (c_text (station_passphrase s))\<rparr>)"
proof -
  note t = assms(2) [unfolded texts_terminated_def text_field_def]
  show ?thesis
    by (simp add: decode_texts_def field_texts_def slice_append_right slice_append_left assms(1) t
        less_imp_le copy_record_text_padded)
qed

lemma decode_layout:
  assumes "settings_sized s" and "app_v2_device_settings_validate (Some s) = APP_V2_SETTINGS_OK"
  shows "app_v2_device_settings_decode (Some (field_numbers s @ field_texts s)) = Inr (canonical s)"
proof -
  note t = valid_texts_terminated [OF assms]
  have v: "credential_version s = APP_V2_CREDENTIAL_VERSION"
    "password_algorithm_version s = APP_V2_PASSWORD_ALGORITHM_VERSION"
    "\<not> APP_V2_SNAPSHOT_RETENTION_TARGET_MAX < unat (snapshot_retention_target s)"
    using assms(2) by (simp_all add: app_v2_device_settings_validate_def split: if_splits)
  have len: "length (field_texts s) = 264"
    using t by (simp add: field_texts_def texts_terminated_def text_field_def)
  define r where "r = field_numbers s @ field_texts s"
  have r: "length r = APP_V2_SETTINGS_RECORD_BYTES"
    by (simp add: r_def len assms(1) limit_defs)
  note n = decode_numbers_layout [OF assms(1) len v(1,2), folded r_def]
  have u: "decode_texts r (decode_numbers r) = Some (canonical s)"
    unfolding n(1) unfolding r_def decode_texts_layout [OF length_field_numbers [OF assms(1)] t]
    by (simp add: canonical_def)
  have ok: "app_v2_device_settings_validate (Some (canonical s)) = APP_V2_SETTINGS_OK"
    by (simp add: validate_canonical [OF t] assms(2))
  have flags: "\<not> 1 < flag_byte b" for b by simp
  show ?thesis
    unfolding r_def [symmetric] app_v2_device_settings_decode_def option.case u
    by (simp add: n(2-) r v ok flags del: One_nat_def)
qed

section \<open>What the decoder accepts\<close>

lemma decode_textsD:
  assumes "decode_texts r d = Some s" and "length r = 344"
  shows "s = d
      \<lparr>last_selected_package_id := slice 80 37 r, device_name := slice 117 33 r,
       ap_ssid := slice 150 33 r, ap_passphrase := slice 183 64 r,
       station_ssid := slice 247 33 r, station_passphrase := slice 280 64 r\<rparr>" (is ?s)
    and "field_texts s = drop 80 r"
    and "canonical s = s"
proof -
  obtain a b c d e f where copies: "copy_record_text (slice 80 37 r) 37 = Some a"
    "copy_record_text (slice 117 33 r) 33 = Some b" "copy_record_text (slice 150 33 r) 33 = Some c"
    "copy_record_text (slice 183 64 r) 64 = Some d" "copy_record_text (slice 247 33 r) 33 = Some e"
    "copy_record_text (slice 280 64 r) 64 = Some f"
    using assms(1) by (auto simp: decode_texts_def bind_eq_Some_conv)
  have p: "x = slice off n r \<and> padded n (c_text (slice off n r)) = slice off n r"
    if "copy_record_text (slice off n r) n = Some x" "off + n \<le> 344" for off n x
    using copy_record_text_SomeD(1,2) [OF that(1)] that(2) assms(2) by simp
  note p = copies [THEN p, simplified]
  show s: ?s
    using assms(1) by (simp add: decode_texts_def copies p)
  have "drop 80 r = slice 80 264 r"
    using assms(2) by (simp add: slice_def)
  also have "\<dots> = slice 80 37 r @ slice 117 33 r @ slice 150 33 r @ slice 183 64 r @
      slice 247 33 r @ slice 280 64 r"
    using slice_split [of 37 264 80 r] slice_split [of 33 227 117 r] slice_split [of 33 194 150 r]
      slice_split [of 64 161 183 r] slice_split [of 33 97 247 r] by simp
  finally show "field_texts s = drop 80 r"
    by (simp add: field_texts_def s p)
  show "canonical s = s"
    by (simp add: canonical_def s p)
qed

lemma record_head:
  assumes "length r = 344" and "r ! 78 = 0" and "r ! 79 = 0"
  shows "take 72 r @ [0, r ! 73, 0, r ! 75, r ! 76, r ! 77, 0, 0] @ drop 80 r = r[72 := 0, 74 := 0]"
proof (rule nth_equalityI)
  fix i
  assume "i < length (take 72 r @ [0, r ! 73, 0, r ! 75, r ! 76, r ! 77, 0, 0] @ drop 80 r)"
  then have "i < 72 \<or> i \<in> {72, 73, 74, 75, 76, 77, 78, 79} \<or> 80 \<le> i \<and> i < 344"
    using assms(1) by auto
  then show "(take 72 r @ [0, r ! 73, 0, r ! 75, r ! 76, r ! 77, 0, 0] @ drop 80 r) ! i =
      r[72 := 0, 74 := 0] ! i"
    using assms by (elim disjE) (auto simp: nth_append nth_Cons')
qed (simp add: assms)

lemma decoded_canonical:
  assumes "app_v2_device_settings_decode (Some r) = Inr s"
  shows "canonical s = s"
proof -
  have "length r = 344" "decode_texts r (decode_numbers r) = Some s"
    using assms by (simp_all add: app_v2_device_settings_decode_def limit_defs Let_def
        split: if_splits option.splits)
  then show ?thesis
    using decode_textsD(3) by blast
qed

lemma decode_accepts:
  assumes "app_v2_device_settings_decode (Some r) = Inr s"
  shows "length r = 344" and "app_v2_device_settings_validate (Some s) = APP_V2_SETTINGS_OK"
    and "settings_sized s" and "field_numbers s @ field_texts s = r[72 := 0, 74 := 0]"
proof -
  have len: "length r = 344" and dec: "decode_texts r (decode_numbers r) = Some s"
    and ok: "app_v2_device_settings_validate (Some s) = APP_V2_SETTINGS_OK"
    and head: "read_u32_le r = APP_V2_SETTINGS_MAGIC" "read_u16_le (drop 4 r) = APP_V2_SETTINGS_RECORD_VERSION"
      "read_u16_le (drop 6 r) = of_nat APP_V2_SETTINGS_RECORD_BYTES"
      "read_u16_le (drop 8 r) = APP_V2_CREDENTIAL_VERSION"
      "read_u16_le (drop 10 r) = APP_V2_PASSWORD_ALGORITHM_VERSION"
    and flags: "\<not> 1 < r ! 75" "\<not> 1 < r ! 76" "\<not> 1 < r ! 77"
    and res: "slice 78 2 r = [0, 0]"
    using assms
    by (simp_all add: app_v2_device_settings_decode_def limit_defs Let_def bytes_are_zero_iff numeral_2_eq_2
        split: if_splits option.splits)
  note s = decode_textsD [OF dec len]
  show "length r = 344" "app_v2_device_settings_validate (Some s) = APP_V2_SETTINGS_OK"
    by (rule len, rule ok)
  show "settings_sized s"
    by (simp add: s(1) settings_sized_def decode_numbers_def zero_settings_def len limit_defs)
  have mag: "le_bytes 4 APP_V2_SETTINGS_MAGIC = slice 0 4 r"
    "le_bytes 2 APP_V2_SETTINGS_RECORD_VERSION = slice 4 2 r"
    "le_bytes 2 (of_nat APP_V2_SETTINGS_RECORD_BYTES :: u16) = slice 6 2 r"
    "le_bytes 2 APP_V2_CREDENTIAL_VERSION = slice 8 2 r"
    "le_bytes 2 APP_V2_PASSWORD_ALGORITHM_VERSION = slice 10 2 r"
    using head len by (simp_all add: le16.to_iff_from le32.to_iff_from slice_def)
  have nums: "le_bytes 4 (read_u32_le (drop 12 r)) = slice 12 4 r"
    "le_bytes 8 (read_u64_le (drop 64 r)) = slice 64 8 r"
    using len by (simp_all add: le32.to_iff_from le64.to_iff_from slice_def)
  have pieces: "field_numbers s = slice 0 4 r @ slice 4 2 r @ slice 6 2 r @ slice 8 2 r @ slice 10 2 r @
      slice 12 4 r @ slice 16 16 r @ slice 32 32 r @ slice 64 8 r @
      [0, r ! 73, 0, r ! 75, r ! 76, r ! 77, 0, 0]"
    using flags by (simp add: field_numbers_def s(1) decode_numbers_def zero_settings_def mag nums
        flag_byte_of APP_V2_PASSWORD_SALT_BYTES_def APP_V2_PASSWORD_VERIFIER_BYTES_def)
  have "slice 0 72 r = slice 0 4 r @ slice 4 2 r @ slice 6 2 r @ slice 8 2 r @ slice 10 2 r @
      slice 12 4 r @ slice 16 16 r @ slice 32 32 r @ slice 64 8 r"
    using slice_split [of 4 72 0 r] slice_split [of 2 68 4 r] slice_split [of 2 66 6 r]
      slice_split [of 2 64 8 r] slice_split [of 2 62 10 r] slice_split [of 4 60 12 r]
      slice_split [of 16 56 16 r] slice_split [of 32 40 32 r] by simp
  then have "field_numbers s = take 72 r @ [0, r ! 73, 0, r ! 75, r ! 76, r ! 77, 0, 0]"
    by (simp add: pieces slice_def)
  moreover have "r ! 78 = 0" "r ! 79 = 0"
    using nth_slice [of 0 2 78 r] nth_slice [of 1 2 78 r] res len by simp_all
  ultimately have "field_numbers s @ drop 80 r = r[72 := 0, 74 := 0]"
    using record_head [OF len] by simp
  then show "field_numbers s @ field_texts s = r[72 := 0, 74 := 0]"
    by (simp add: s(2))
qed

section \<open>Properties of the record\<close>

lemma valid_text_padded:
  "0 \<notin> set t \<Longrightarrow> length t < n \<Longrightarrow>
     valid_text (padded n t) n lo hi \<longleftrightarrow> lo \<le> length t \<and> length t \<le> hi \<and> valid_utf8 t"
  by (simp add: valid_text_def) (simp add: padded_def)

lemma valid_uuid_empty [simp]: "valid_uuid_or_empty (zeros 37)"
  using bounded_length_padded [of "[]" 37] by (simp add: valid_uuid_or_empty_def limit_defs padded_def)

lemma valid_text_empty: "0 < n \<Longrightarrow> valid_text (zeros n) n lo hi \<longleftrightarrow> lo = 0"
  using valid_text_padded [of "[]" n lo hi] by (simp add: padded_def)

abbreviation default_name :: "u8 list" where
  "default_name \<equiv> ascii ''ESP32 Macro Keyboard''"

lemma default_name_field: "blit 0 (default_name @ [0]) (zeros 33) = padded 33 default_name"
  by (simp add: blit_def padded_def ascii_def flip: replicate_Suc)

lemma unat_of_char [simp]: "unat (of_char c :: u8) = byte c"
proof -
  have "(of_char c :: u8) = of_nat (byte c)" by (simp only: of_nat_of_char)
  then show ?thesis
    by (simp only: unsigned_of_nat) (simp add: take_bit_nat_eq_self)
qed

lemma ascii_utf8: "\<forall>c \<in> set cs. byte c < 128 \<Longrightarrow> valid_utf8 (ascii cs)"
  by (rule valid_utf8_ascii) (auto simp: ascii_def word_le_nat_alt dest: bspec)

lemma default_name_text: "0 \<notin> set default_name" "length default_name = 20" "valid_utf8 default_name"
  by (simp_all add: ascii_utf8) (simp_all add: ascii_def)

text \<open>The factory settings, and the settings of a provisioned device, are valid.\<close>

lemma unprovisioned_sized: "settings_sized app_v2_device_settings_init_unprovisioned"
  by (simp add: app_v2_device_settings_init_unprovisioned_def zero_settings_def settings_sized_def
      blit_def ascii_def)

lemma unprovisioned_valid:
  "app_v2_device_settings_validate (Some app_v2_device_settings_init_unprovisioned) = APP_V2_SETTINGS_OK"
  by (simp add: app_v2_device_settings_validate_def app_v2_device_settings_init_unprovisioned_def
      zero_settings_def default_name_field valid_text_padded default_name_text valid_text_empty
      credential_bytes_absent_def station_fields_valid_def limit_defs DEFAULT_SNAPSHOT_RETENTION_TARGET_def)

definition sample_settings :: device_settings where
  "sample_settings = app_v2_device_settings_init_unprovisioned
     \<lparr>provisioned := True, password_iterations := 1000, password_salt := replicate 16 7,
      password_verifier := replicate 32 9, next_blob_id := 258,
      ap_ssid := padded 33 (ascii ''Keys''), ap_passphrase := padded 64 (ascii ''long enough'')\<rparr>"

lemma sample_sized: "settings_sized sample_settings"
  using unprovisioned_sized by (simp add: sample_settings_def settings_sized_def ascii_def)

lemma sample_valid: "app_v2_device_settings_validate (Some sample_settings) = APP_V2_SETTINGS_OK"
proof -
  have "0 \<notin> set (ascii ''Keys'')" "0 \<notin> set (ascii ''long enough'')"
    "valid_utf8 (ascii ''Keys'')" "valid_utf8 (ascii ''long enough'')"
    by (simp_all add: ascii_utf8) (simp_all add: ascii_def)
  moreover have "length (ascii ''Keys'') = 4" "length (ascii ''long enough'') = 11"
    by (simp_all add: ascii_def)
  moreover have "\<not> bytes_are_zero (replicate 16 7)" "\<not> bytes_are_zero (replicate 32 9)"
    by (simp_all add: bytes_are_zero_iff)
  ultimately show ?thesis
    by (simp add: app_v2_device_settings_validate_def app_v2_device_settings_init_unprovisioned_def
        sample_settings_def zero_settings_def default_name_field valid_text_padded default_name_text
        valid_text_empty credential_bytes_present_def station_fields_valid_def limit_defs
        DEFAULT_SNAPSHOT_RETENTION_TARGET_def)
qed

lemma encode_valid:
  assumes "settings_sized s" and "app_v2_device_settings_validate (Some s) = APP_V2_SETTINGS_OK"
    and "length b = 344"
  shows "app_v2_device_settings_encode (Some s) (Some b) = Inr (field_numbers s @ field_texts s)"
  using assms encode_layout [OF assms(1) valid_texts_terminated [OF assms(1,2)]]
  by (simp add: app_v2_device_settings_encode_def limit_defs)

lemma length_layout:
  "settings_sized s \<Longrightarrow> texts_terminated s \<Longrightarrow> length (field_numbers s @ field_texts s) = 344"
  by (simp add: field_texts_def texts_terminated_def text_field_def)

text \<open>
  C18: Writing valid settings into a record and reading the record back gives the settings
  again, with only the bytes behind the end of each text cleared.
\<close>
theorem settings_record_round_trip:
  assumes "settings_sized s" and "app_v2_device_settings_validate (Some s) = APP_V2_SETTINGS_OK"
    and "length b = 344"
  shows "\<exists>out. app_v2_device_settings_encode (Some s) (Some b) = Inr out \<and> length out = 344 \<and>
      app_v2_device_settings_decode (Some out) = Inr (canonical s)"
  using encode_valid [OF assms] decode_layout [OF assms(1,2)]
    length_layout [OF assms(1) valid_texts_terminated [OF assms(1,2)]] by blast

lemma settings_record_round_trip_witness:
  "\<exists>out. app_v2_device_settings_encode (Some sample_settings) (Some (zeros 344)) = Inr out \<and>
      length out = 344 \<and> app_v2_device_settings_decode (Some out) = Inr (canonical sample_settings)"
  by (rule settings_record_round_trip [OF sample_sized sample_valid]) simp

text \<open>
  C19: Whatever record the decoder accepts, the structure it fills is well typed and valid:
  every array has its size, every text ends inside its array, is UTF-8 and is followed by
  zeros only, and the structure passes validation.  Writing it back gives the record itself
  with only the two reserved bytes of removed preferences cleared, so no other byte of the
  record is ignored.
\<close>
theorem decoded_settings_well_typed:
  assumes "app_v2_device_settings_decode (Some r) = Inr s" and "length b = 344"
  shows "settings_sized s \<and> texts_terminated s \<and> canonical s = s \<and>
      app_v2_device_settings_validate (Some s) = APP_V2_SETTINGS_OK \<and>
      app_v2_device_settings_encode (Some s) (Some b) = Inr (r[72 := 0, 74 := 0])"
proof -
  note acc = decode_accepts [OF assms(1)]
  have "canonical s = s"
    using decoded_canonical [OF assms(1)] .
  then show ?thesis
    using acc valid_texts_terminated [OF acc(3,2)] encode_valid [OF acc(3,2) assms(2)] by simp
qed

lemma decoded_settings_well_typed_witness:
  "settings_sized (canonical sample_settings) \<and> texts_terminated (canonical sample_settings) \<and>
     canonical (canonical sample_settings) = canonical sample_settings \<and>
     app_v2_device_settings_validate (Some (canonical sample_settings)) = APP_V2_SETTINGS_OK \<and>
     app_v2_device_settings_encode (Some (canonical sample_settings)) (Some (zeros 344)) =
       Inr ((field_numbers sample_settings @ field_texts sample_settings)[72 := 0, 74 := 0])"
  by (rule decoded_settings_well_typed [OF decode_layout [OF sample_sized sample_valid]]) simp

end
