(* ===== verification/Settings_Core.thy ===== *)
theory Settings_Core
  imports Settings_Record
begin

text \<open>
  The settings cache of \<open>device_settings/device_settings_core.c\<close>: the settings are loaded
  once from the stored record and written through on every change.  The record store behind it
  is a pair of operations on a state \<open>'s\<close>; the locale \<open>settings_store\<close> is what they promise.

  \<open>secure_zero\<close> and \<open>memset\<close> of local copies leave no trace in the model, whose local values
  end with the call; on the cached settings they give \<open>zero_settings\<close>.  The operations kept in
  the core are \<open>None\<close> when the core is zeroed.
\<close>

record 's settings_core_ops =
  op_read_record :: "nat \<Rightarrow> 's \<Rightarrow> app_error \<times> u8 list \<times> nat \<times> 's"
  op_replace_record_atomic :: "u8 list \<Rightarrow> 's \<Rightarrow> app_error \<times> 's"

record 's settings_core =
  core_ops :: "'s settings_core_ops option"
  core_current :: device_settings
  core_loaded :: bool
  core_record_present :: bool

definition zero_core :: "'s settings_core" where
  "zero_core = \<lparr>core_ops = None, core_current = zero_settings, core_loaded = False,
     core_record_present = False\<rparr>"

fun map_decode_result :: "settings_result \<Rightarrow> app_error" where
  "map_decode_result APP_V2_SETTINGS_OK = APP_ERROR_NONE"
| "map_decode_result APP_V2_SETTINGS_INVALID_ARGUMENT = APP_ERROR_INVALID_ARGUMENT"
| "map_decode_result APP_V2_SETTINGS_INVALID_LENGTH = APP_ERROR_STORAGE_CORRUPT"
| "map_decode_result APP_V2_SETTINGS_CORRUPT = APP_ERROR_STORAGE_CORRUPT"
| "map_decode_result APP_V2_SETTINGS_UNSUPPORTED_VERSION = APP_ERROR_STORAGE_CORRUPT"

fun map_candidate_result :: "settings_result \<Rightarrow> app_error" where
  "map_candidate_result APP_V2_SETTINGS_OK = APP_ERROR_NONE"
| "map_candidate_result APP_V2_SETTINGS_INVALID_ARGUMENT = APP_ERROR_INVALID_ARGUMENT"
| "map_candidate_result APP_V2_SETTINGS_CORRUPT = APP_ERROR_INVALID_ARGUMENT"
| "map_candidate_result APP_V2_SETTINGS_INVALID_LENGTH = APP_ERROR_INTERNAL"
| "map_candidate_result APP_V2_SETTINGS_UNSUPPORTED_VERSION = APP_ERROR_INTERNAL"

definition invalidate_loaded_state :: "'s settings_core \<Rightarrow> 's settings_core" where
  "invalidate_loaded_state core =
     core\<lparr>core_current := zero_settings, core_loaded := False, core_record_present := False\<rparr>"

definition encode_settings :: "device_settings \<Rightarrow> app_error + u8 list" where
  "encode_settings s =
     (case app_v2_device_settings_encode (Some s) (Some (zeros APP_V2_SETTINGS_RECORD_BYTES)) of
        Inl e \<Rightarrow> Inl (map_candidate_result e)
      | Inr r \<Rightarrow> Inr r)"

text \<open>The source is a C string: its bytes, the terminating NUL implied.\<close>

definition copy_bounded_text :: "u8 list \<Rightarrow> nat \<Rightarrow> u8 list option" where
  "copy_bounded_text source capacity =
     (if capacity = 0 then None
      else let len = min capacity (length (c_text source))
           in if len = capacity then None
              else Some (blit 0 (take len source) (zeros capacity)))"

definition device_settings_core_init ::
    "'s settings_core_ops option \<Rightarrow> 's settings_core \<Rightarrow> app_error \<times> 's settings_core" where
  "device_settings_core_init operations core =
     (case operations of
        None \<Rightarrow> (APP_ERROR_INVALID_ARGUMENT, core)
      | Some ops \<Rightarrow> (APP_ERROR_NONE, zero_core\<lparr>core_ops := Some ops\<rparr>))"

definition device_settings_core_load ::
    "'s settings_core \<Rightarrow> 's \<Rightarrow> (app_error + device_settings) \<times> 's settings_core \<times> 's" where
  "device_settings_core_load core s =
     (case core_ops core of
        None \<Rightarrow> (Inl APP_ERROR_INVALID_ARGUMENT, core, s)
      | Some ops \<Rightarrow>
          if core_loaded core then (Inr (core_current core), core, s)
          else (case op_read_record ops APP_V2_SETTINGS_RECORD_BYTES s of
            (read_result, r, record_length, s') \<Rightarrow>
              if read_result = APP_ERROR_NOT_FOUND then
                (let core' = core\<lparr>core_current := app_v2_device_settings_init_unprovisioned,
                                  core_loaded := True, core_record_present := False\<rparr>
                 in (Inr (core_current core'), core', s'))
              else if read_result \<noteq> APP_ERROR_NONE then (Inl read_result, core, s')
              else if record_length \<noteq> APP_V2_SETTINGS_RECORD_BYTES
              then (Inl APP_ERROR_STORAGE_CORRUPT, core, s')
              else (case app_v2_device_settings_decode (Some r) of
                Inl e \<Rightarrow> (Inl (map_decode_result e), core, s')
              | Inr decoded \<Rightarrow>
                  (let core' = core\<lparr>core_current := decoded, core_loaded := True,
                                    core_record_present := True\<rparr>
                   in (Inr (core_current core'), core', s')))))"

text \<open>
  \<open>replace\<close> gives its result, the value of \<open>out_changed\<close>, the core and the store.
\<close>

definition device_settings_core_replace ::
    "'s settings_core \<Rightarrow> device_settings \<Rightarrow> 's \<Rightarrow> app_error \<times> bool \<times> 's settings_core \<times> 's" where
  "device_settings_core_replace core settings s =
     (case core_ops core of
        None \<Rightarrow> (APP_ERROR_INVALID_ARGUMENT, False, core, s)
      | Some ops \<Rightarrow>
          (case device_settings_core_load core s of
             (Inl e, core, s) \<Rightarrow> (e, False, core, s)
           | (Inr _, core, s) \<Rightarrow>
               (case encode_settings (core_current core) of
                  Inl e \<Rightarrow> (e, False, core, s)
                | Inr current_record \<Rightarrow>
                    (case encode_settings settings of
                       Inl e \<Rightarrow> (e, False, core, s)
                     | Inr candidate_record \<Rightarrow>
                         if current_record = candidate_record
                         then (APP_ERROR_NONE, False, core, s)
                         else (case op_replace_record_atomic ops candidate_record s of
                           (result, s) \<Rightarrow>
                             if result \<noteq> APP_ERROR_NONE
                             then (result, False,
                                   if result = APP_ERROR_COMMIT_UNCERTAIN
                                   then invalidate_loaded_state core else core, s)
                             else (APP_ERROR_NONE, True,
                                   core\<lparr>core_current := settings,
                                        core_record_present := True\<rparr>, s))))))"

definition device_settings_core_set_station ::
    "'s settings_core \<Rightarrow> u8 list option \<Rightarrow> u8 list option \<Rightarrow> 's \<Rightarrow>
     app_error \<times> bool \<times> 's settings_core \<times> 's" where
  "device_settings_core_set_station core ssid passphrase s =
     (case (core_ops core, ssid, passphrase) of
        (Some ops, Some ssid, Some passphrase) \<Rightarrow>
          (case device_settings_core_load core s of
             (Inl e, core, s) \<Rightarrow> (e, False, core, s)
           | (Inr candidate, core, s) \<Rightarrow>
               (case (copy_bounded_text ssid 33, copy_bounded_text passphrase 64) of
                  (Some ssid_text, Some passphrase_text) \<Rightarrow>
                    device_settings_core_replace core
                      (candidate\<lparr>station_ssid := ssid_text, station_passphrase := passphrase_text,
                                 station_configured := True\<rparr>) s
                | _ \<Rightarrow> (APP_ERROR_INVALID_ARGUMENT, False, core, s)))
      | _ \<Rightarrow> (APP_ERROR_INVALID_ARGUMENT, False, core, s))"

definition device_settings_core_set_access_point_passphrase ::
    "'s settings_core \<Rightarrow> u8 list option \<Rightarrow> 's \<Rightarrow> app_error \<times> bool \<times> 's settings_core \<times> 's" where
  "device_settings_core_set_access_point_passphrase core passphrase s =
     (case (core_ops core, passphrase) of
        (Some ops, Some passphrase) \<Rightarrow>
          (let passphrase_length = length (c_text passphrase)
           in if passphrase_length < APP_V2_WIFI_PASSPHRASE_MIN_BYTES \<or>
                 APP_V2_WIFI_PASSPHRASE_MAX_BYTES < passphrase_length
              then (APP_ERROR_INVALID_ARGUMENT, False, core, s)
              else (case device_settings_core_load core s of
                (Inl e, core, s) \<Rightarrow> (e, False, core, s)
              | (Inr candidate, core, s) \<Rightarrow>
                  (case copy_bounded_text passphrase 64 of
                     None \<Rightarrow> (APP_ERROR_INVALID_ARGUMENT, False, core, s)
                   | Some passphrase_text \<Rightarrow>
                       device_settings_core_replace core
                         (candidate\<lparr>ap_passphrase := passphrase_text\<rparr>) s)))
      | _ \<Rightarrow> (APP_ERROR_INVALID_ARGUMENT, False, core, s))"

text \<open>
  The two resets also fill \<open>out_settings\<close>: the cached settings on success, zeros otherwise.
  \<open>out_changed\<close> keeps the caller's value when the load or the reset itself fails.  Where the
  core is not initialized the code leaves the outputs alone; its only caller has cleared them,
  and the model gives the cleared values.
\<close>

definition reset_output :: "app_error \<Rightarrow> 's settings_core \<Rightarrow> device_settings" where
  "reset_output result core = (if result = APP_ERROR_NONE then core_current core else zero_settings)"

definition device_settings_core_reset_noncredential ::
    "'s settings_core \<Rightarrow> bool \<Rightarrow> 's \<Rightarrow> app_error \<times> device_settings \<times> bool \<times> 's settings_core \<times> 's" where
  "device_settings_core_reset_noncredential core changed s =
     (case core_ops core of
        None \<Rightarrow> (APP_ERROR_INVALID_ARGUMENT, zero_settings, changed, core, s)
      | Some ops \<Rightarrow>
          (case device_settings_core_load core s of
             (Inl e, core, s) \<Rightarrow> (e, reset_output e core, changed, core, s)
           | (Inr candidate, core, s) \<Rightarrow>
               (case app_v2_device_settings_reset_noncredential (Some candidate) of
                  (reset_result, candidate') \<Rightarrow>
                    (let result = map_candidate_result reset_result
                     in if result \<noteq> APP_ERROR_NONE
                        then (result, reset_output result core, changed, core, s)
                        else (case device_settings_core_replace core (the candidate') s of
                          (result, changed, core, s) \<Rightarrow>
                            (result, reset_output result core, changed, core, s))))))"

definition device_settings_core_factory_reset ::
    "'s settings_core \<Rightarrow> 's \<Rightarrow> app_error \<times> device_settings \<times> bool \<times> 's settings_core \<times> 's" where
  "device_settings_core_factory_reset core s =
     (case core_ops core of
        None \<Rightarrow> (APP_ERROR_INVALID_ARGUMENT, zero_settings, False, core, s)
      | Some ops \<Rightarrow>
          (case device_settings_core_replace core app_v2_device_settings_init_unprovisioned s of
             (result, changed, core, s) \<Rightarrow> (result, reset_output result core, changed, core, s)))"

definition device_settings_core_deinit :: "'s settings_core \<Rightarrow> 's settings_core" where
  "device_settings_core_deinit core = zero_core"

section \<open>The store behind the cache\<close>

text \<open>
  \<open>stored s\<close> is the record a fresh read would find, \<open>ready s\<close> what the store keeps of its own
  state between calls.
\<close>

lemma decode_not_ok: "app_v2_device_settings_decode b \<noteq> Inl APP_V2_SETTINGS_OK"
  by (auto simp: app_v2_device_settings_decode_def Let_def split: option.splits if_splits)

lemma map_decode_none: "map_decode_result e = APP_ERROR_NONE \<longleftrightarrow> e = APP_V2_SETTINGS_OK"
  by (cases e) auto

lemma map_candidate_none: "map_candidate_result e = APP_ERROR_NONE \<longleftrightarrow> e = APP_V2_SETTINGS_OK"
  by (cases e) auto

lemma load_error:
  "device_settings_core_load core s = (Inl e, core', s') \<Longrightarrow> e \<noteq> APP_ERROR_NONE"
  by (auto simp: device_settings_core_load_def Let_def map_decode_none decode_not_ok
      split: option.splits if_splits prod.splits sum.splits)

lemma encode_error: "encode_settings x = Inl e \<Longrightarrow> e \<noteq> APP_ERROR_NONE"
  by (auto simp: encode_settings_def app_v2_device_settings_encode_def Let_def map_candidate_none
      limit_defs split: sum.splits if_splits)

lemma encode_settings_Inr:
  assumes "encode_settings x = Inr r" and "settings_sized x"
  shows "app_v2_device_settings_validate (Some x) = APP_V2_SETTINGS_OK \<and> length r = 344 \<and>
    app_v2_device_settings_decode (Some r) = Inr (canonical x)"
proof -
  have v: "app_v2_device_settings_validate (Some x) = APP_V2_SETTINGS_OK"
    using assms(1) by (simp add: encode_settings_def app_v2_device_settings_encode_def Let_def
        split: sum.splits if_splits)
  have "r = field_numbers x @ field_texts x"
    using assms(1) encode_valid [OF assms(2) v] by (simp add: encode_settings_def limit_defs)
  then show ?thesis
    using v decode_layout [OF assms(2) v] length_layout [OF assms(2) valid_texts_terminated [OF assms(2) v]]
    by simp
qed

text \<open>The ways a replacement can end.\<close>

lemma replace_cases:
  assumes "device_settings_core_replace core x s = (e, changed, core', s')"
  obtains (load_failed) "device_settings_core_load core s = (Inl e, core', s')" "\<not> changed" "e \<noteq> APP_ERROR_NONE"
  | (uninitialized) "core_ops core = None" "e = APP_ERROR_INVALID_ARGUMENT" "\<not> changed" "core' = core" "s' = s"
  | (rejected) y where "device_settings_core_load core s = (Inr y, core', s')" "\<not> changed" "e \<noteq> APP_ERROR_NONE"
      "encode_settings (core_current core') = Inl e \<or> encode_settings x = Inl e"
  | (same) y r where "device_settings_core_load core s = (Inr y, core', s')" "\<not> changed" "e = APP_ERROR_NONE"
      "encode_settings (core_current core') = Inr r" "encode_settings x = Inr r"
  | (written) y ops r core1 s1 where "core_ops core = Some ops"
      "device_settings_core_load core s = (Inr y, core1, s1)"
      "encode_settings x = Inr r" "op_replace_record_atomic ops r s1 = (e, s')"
      "changed = (e = APP_ERROR_NONE)"
      "core' = (if e = APP_ERROR_NONE then core1\<lparr>core_current := x, core_record_present := True\<rparr>
        else if e = APP_ERROR_COMMIT_UNCERTAIN then invalidate_loaded_state core1 else core1)"
proof (cases "core_ops core")
  case None
  then show ?thesis
    by (rule uninitialized) (use assms None in \<open>auto simp: device_settings_core_replace_def\<close>)
next
  case (Some ops)
  obtain out core1 s1 where load: "device_settings_core_load core s = (out, core1, s1)"
    by (cases "device_settings_core_load core s") auto
  note def = assms [unfolded device_settings_core_replace_def Some option.case load prod.case]
  show ?thesis
  proof (cases out)
    case (Inl e')
    then show ?thesis
      by (intro load_failed) (use def load load_error [of core s e'] in auto)
  next
    case (Inr y)
    note def = def [unfolded Inr sum.case] and load = load [unfolded Inr]
    show ?thesis
    proof (cases "encode_settings (core_current core1)")
      case (Inl e')
      then show ?thesis
        by (intro rejected) (use def load encode_error [of _ e'] in auto)
    next
      case (Inr current_record)
      note current = Inr and def = def [unfolded Inr sum.case]
      show ?thesis
      proof (cases "encode_settings x")
        case (Inl e')
        then show ?thesis
          by (intro rejected) (use def load encode_error [of _ e'] in auto)
      next
        case (Inr r)
        note def = def [unfolded Inr sum.case]
        show ?thesis
        proof (cases "current_record = r")
          case True
          then show ?thesis
            by (intro same) (use def load Inr current in auto)
        next
          case False
          obtain e' s2 where wrote: "op_replace_record_atomic ops r s1 = (e', s2)"
            by (cases "op_replace_record_atomic ops r s1") auto
          have ends: "e' = e" "s2 = s'" "changed = (e = APP_ERROR_NONE)"
            "core' = (if e = APP_ERROR_NONE then core1\<lparr>core_current := x, core_record_present := True\<rparr>
              else if e = APP_ERROR_COMMIT_UNCERTAIN then invalidate_loaded_state core1 else core1)"
            using def False by (auto simp: wrote split: if_splits)
          show ?thesis
            by (rule written [OF Some load Inr wrote [unfolded ends(1,2)] ends(3,4)])
        qed
      qed
    qed
  qed
qed

lemma copy_bounded_text_length: "copy_bounded_text t n = Some u \<Longrightarrow> length u = n"
  by (auto simp: copy_bounded_text_def Let_def split: if_splits)

lemma reset_sized:
  "app_v2_device_settings_reset_noncredential (Some c) = (e, Some t) \<Longrightarrow> settings_sized c \<Longrightarrow>
     settings_sized t"
  by (auto simp: app_v2_device_settings_reset_noncredential_def Let_def settings_sized_def ascii_def
      split: if_splits)

locale settings_store =
  fixes ops :: "'s settings_core_ops" and stored :: "'s \<Rightarrow> u8 list option" and ready :: "'s \<Rightarrow> bool"
  assumes read_keeps: "op_read_record ops n s = (e, r, len, s') \<Longrightarrow> ready s \<Longrightarrow>
      ready s' \<and> stored s' = stored s"
    and read_found: "op_read_record ops n s = (APP_ERROR_NONE, r, len, s') \<Longrightarrow> ready s \<Longrightarrow>
      stored s = Some r"
    and read_missing: "op_read_record ops n s = (APP_ERROR_NOT_FOUND, r, len, s') \<Longrightarrow> ready s \<Longrightarrow>
      stored s = None"
    and replace_keeps: "op_replace_record_atomic ops r s = (e, s') \<Longrightarrow> ready s \<Longrightarrow> length r = 344 \<Longrightarrow>
      ready s'"
    and replace_done: "op_replace_record_atomic ops r s = (APP_ERROR_NONE, s') \<Longrightarrow> ready s \<Longrightarrow>
      length r = 344 \<Longrightarrow> stored s' = Some r"
    and replace_uncertain: "op_replace_record_atomic ops r s = (APP_ERROR_COMMIT_UNCERTAIN, s') \<Longrightarrow>
      ready s \<Longrightarrow> length r = 344 \<Longrightarrow> stored s' = stored s \<or> stored s' = Some r"
    and replace_failed: "op_replace_record_atomic ops r s = (e, s') \<Longrightarrow> ready s \<Longrightarrow> length r = 344 \<Longrightarrow>
      e \<noteq> APP_ERROR_NONE \<Longrightarrow> e \<noteq> APP_ERROR_COMMIT_UNCERTAIN \<Longrightarrow> stored s' = stored s"
begin

text \<open>The settings a store holds: those of its record, or the factory settings.\<close>

definition holds :: "'s \<Rightarrow> device_settings \<Rightarrow> bool" where
  "holds s x \<longleftrightarrow>
     (case stored s of
        None \<Rightarrow> x = app_v2_device_settings_init_unprovisioned
      | Some r \<Rightarrow> app_v2_device_settings_decode (Some r) = Inr (canonical x))"

text \<open>What the core knows while it is loaded is what the store holds.\<close>

definition coherent :: "'s settings_core \<Rightarrow> 's \<Rightarrow> bool" where
  "coherent core s \<longleftrightarrow> ready s \<and> core_ops core \<in> {None, Some ops} \<and>
     (core_loaded core \<longrightarrow>
        settings_sized (core_current core) \<and>
        app_v2_device_settings_validate (Some (core_current core)) = APP_V2_SETTINGS_OK \<and>
        core_record_present core = (stored s \<noteq> None) \<and> holds s (core_current core))"

lemma coherent_load:
  assumes "device_settings_core_load core s = (out, core', s')" and "coherent core s"
  shows "coherent core' s' \<and> stored s' = stored s \<and> core_ops core' = core_ops core \<and>
    (\<forall>x. out = Inr x \<longrightarrow> core_loaded core' \<and> x = core_current core')"
proof (cases "core_ops core = None \<or> core_loaded core")
  case True
  then show ?thesis
    using assms by (cases "core_ops core") (auto simp: device_settings_core_load_def)
next
  case False
  then have ops: "core_ops core = Some ops" and new: "\<not> core_loaded core"
    using assms(2) by (auto simp: coherent_def)
  obtain e r len t where read: "op_read_record ops APP_V2_SETTINGS_RECORD_BYTES s = (e, r, len, t)"
    by (cases "op_read_record ops APP_V2_SETTINGS_RECORD_BYTES s") auto
  have ready: "ready s" using assms(2) by (simp add: coherent_def)
  note keeps = read_keeps [OF read ready]
  show ?thesis
  proof (cases "e = APP_ERROR_NOT_FOUND")
    case True
    then show ?thesis
      using assms(1) keeps read_missing [OF read [unfolded True] ready] unprovisioned_sized unprovisioned_valid
      by (auto simp: device_settings_core_load_def ops new read coherent_def holds_def)
  next
    case other: False
    show ?thesis
    proof (cases "e = APP_ERROR_NONE \<and> len = APP_V2_SETTINGS_RECORD_BYTES \<and>
        (\<exists>x. app_v2_device_settings_decode (Some r) = Inr x)")
      case True
      then obtain x where ok: "e = APP_ERROR_NONE" "len = APP_V2_SETTINGS_RECORD_BYTES"
        and x: "app_v2_device_settings_decode (Some r) = Inr x" by auto
      have found: "stored s = Some r"
        using read_found [OF read [unfolded ok(1)] ready] .
      show ?thesis
        using assms(1) keeps found x decode_accepts(2,3) [OF x] decoded_canonical [OF x]
        by (auto simp: device_settings_core_load_def ops new read ok coherent_def holds_def)
    next
      case False
      with other have "core' = core \<and> s' = t \<and> (\<exists>e. out = Inl e)"
        using assms(1) by (auto simp: device_settings_core_load_def ops new read
            split: if_splits sum.splits)
      then show ?thesis
        using keeps new ops by (auto simp: coherent_def)
    qed
  qed
qed

lemma coherent_replace:
  assumes "device_settings_core_replace core x s = (e, changed, core', s')"
    and "coherent core s" and "settings_sized x"
  shows "coherent core' s' \<and> core_ops core' = core_ops core \<and>
    (e = APP_ERROR_NONE \<longrightarrow> (\<exists>r. encode_settings x = Inr r \<and> core_loaded core' \<and>
       (if changed then core_current core' = x \<and> stored s' = Some r
        else encode_settings (core_current core') = Inr r \<and> stored s' = stored s))) \<and>
    (e \<noteq> APP_ERROR_NONE \<longrightarrow> \<not> changed \<and> (e \<noteq> APP_ERROR_COMMIT_UNCERTAIN \<longrightarrow> stored s' = stored s))"
  using assms(1)
proof (cases rule: replace_cases)
  case (written y ops' r core1 s1)
  note load = coherent_load [OF written(2) assms(2)]
  have ops: "ops' = ops" "ready s1" and loaded: "core_loaded core1"
    using assms(2) written(1) load by (auto simp: coherent_def)
  note enc = encode_settings_Inr [OF written(3) assms(3)]
  note wrote = written(4) [unfolded ops]
  have ready: "ready s'"
    using replace_keeps [OF wrote ops(2)] enc by simp
  consider "e = APP_ERROR_NONE" | "e = APP_ERROR_COMMIT_UNCERTAIN"
    | "e \<noteq> APP_ERROR_NONE" "e \<noteq> APP_ERROR_COMMIT_UNCERTAIN" by blast
  then show ?thesis
  proof cases
    case 1
    then have "stored s' = Some r"
      using replace_done [OF wrote [unfolded 1] ops(2)] enc by simp
    then show ?thesis
      using 1 written load loaded enc ready assms(3) by (auto simp: coherent_def holds_def)
  next
    case 2
    then show ?thesis
      using written load ready by (auto simp: coherent_def invalidate_loaded_state_def)
  next
    case 3
    then have "stored s' = stored s1"
      using replace_failed [OF wrote ops(2)] enc by simp
    then show ?thesis
      using 3 written load loaded ready by (auto simp: coherent_def holds_def)
  qed
next
  case load_failed
  then show ?thesis
    using coherent_load [OF load_failed(1) assms(2)] by simp
next
  case uninitialized
  then show ?thesis
    using assms(2) by simp
next
  case (rejected y)
  then show ?thesis
    using coherent_load [OF rejected(1) assms(2)] by simp
next
  case (same y r)
  then show ?thesis
    using coherent_load [OF same(1) assms(2)] by auto
qed

lemma coherent_current_sized:
  "coherent core s \<Longrightarrow> core_loaded core \<Longrightarrow> settings_sized (core_current core)"
  by (simp add: coherent_def)

lemma coherent_set_station:
  assumes "device_settings_core_set_station core ssid pass s = (e, changed, core', s')"
    and "coherent core s"
  shows "coherent core' s' \<and> core_ops core' = core_ops core"
proof (cases "core_ops core = None \<or> ssid = None \<or> pass = None")
  case True
  then show ?thesis
    using assms by (auto simp: device_settings_core_set_station_def split: option.splits)
next
  case False
  then obtain ops i p where given: "core_ops core = Some ops" "ssid = Some i" "pass = Some p" by auto
  obtain out core1 s1 where load: "device_settings_core_load core s = (out, core1, s1)"
    by (cases "device_settings_core_load core s") auto
  note l = coherent_load [OF load assms(2)]
  show ?thesis
  proof (cases "\<exists>c it pt. out = Inr c \<and> copy_bounded_text i 33 = Some it \<and> copy_bounded_text p 64 = Some pt")
    case True
    then obtain c it pt where found: "out = Inr c" "copy_bounded_text i 33 = Some it"
      "copy_bounded_text p 64 = Some pt" by blast
    have "settings_sized (c\<lparr>station_ssid := it, station_passphrase := pt, station_configured := True\<rparr>)"
      using coherent_current_sized [of core1 s1] l found copy_bounded_text_length [OF found(2)]
        copy_bounded_text_length [OF found(3)] by (simp add: settings_sized_def)
    then show ?thesis
      using coherent_replace [of core1 _ s1 e changed core' s'] l assms(1)
      by (simp add: device_settings_core_set_station_def given load found)
  next
    case False
    then show ?thesis
      using assms(1) l by (auto simp: device_settings_core_set_station_def given load
          split: sum.splits option.splits)
  qed
qed

lemma coherent_set_access_point:
  assumes "device_settings_core_set_access_point_passphrase core pass s = (e, changed, core', s')"
    and "coherent core s"
  shows "coherent core' s' \<and> core_ops core' = core_ops core"
proof -
  obtain out core1 s1 where load: "device_settings_core_load core s = (out, core1, s1)"
    by (cases "device_settings_core_load core s") auto
  note l = coherent_load [OF load assms(2)]
  show ?thesis
  proof (cases "\<exists>ops p c pt. core_ops core = Some ops \<and> pass = Some p \<and>
      \<not> (length (c_text p) < 8 \<or> 63 < length (c_text p)) \<and> out = Inr c \<and> copy_bounded_text p 64 = Some pt")
    case True
    then obtain ops p c pt where found: "core_ops core = Some ops" "pass = Some p"
      "\<not> (length (c_text p) < 8 \<or> 63 < length (c_text p))" "out = Inr c"
      "copy_bounded_text p 64 = Some pt" by blast
    have "settings_sized (c\<lparr>ap_passphrase := pt\<rparr>)"
      using coherent_current_sized [of core1 s1] l found copy_bounded_text_length [OF found(5)]
      by (simp add: settings_sized_def)
    then show ?thesis
      using coherent_replace [of core1 _ s1 e changed core' s'] l assms(1)
      by (simp add: device_settings_core_set_access_point_passphrase_def found load limit_defs)
  next
    case False
    then have "core' = core \<and> s' = s \<or> core' = core1 \<and> s' = s1"
      using assms(1)
      by (cases "core_ops core"; cases pass; cases out; cases "copy_bounded_text (the pass) 64")
         (auto simp: device_settings_core_set_access_point_passphrase_def load limit_defs Let_def
           split: if_splits)
    then show ?thesis
      using assms(2) l by auto
  qed
qed

lemma coherent_reset:
  assumes "device_settings_core_reset_noncredential core c0 s = (e, out, changed, core', s')"
    and "coherent core s"
  shows "coherent core' s' \<and> core_ops core' = core_ops core"
proof (cases "core_ops core")
  case None
  then show ?thesis
    using assms by (auto simp: device_settings_core_reset_noncredential_def)
next
  case (Some ops)
  obtain got core1 s1 where load: "device_settings_core_load core s = (got, core1, s1)"
    by (cases "device_settings_core_load core s") auto
  note l = coherent_load [OF load assms(2)]
  show ?thesis
  proof (cases "\<exists>c t. got = Inr c \<and>
      app_v2_device_settings_reset_noncredential (Some c) = (APP_V2_SETTINGS_OK, Some t)")
    case True
    then obtain c t where found: "got = Inr c"
      "app_v2_device_settings_reset_noncredential (Some c) = (APP_V2_SETTINGS_OK, Some t)" by blast
    have "settings_sized c"
      using l found coherent_current_sized by auto
    then have t: "settings_sized t"
      using reset_sized [OF found(2)] by simp
    obtain e1 ch core2 s2 where rep: "device_settings_core_replace core1 t s1 = (e1, ch, core2, s2)"
      by (cases "device_settings_core_replace core1 t s1") auto
    have "core' = core2 \<and> s' = s2"
      using assms(1) by (simp add: device_settings_core_reset_noncredential_def Some load found rep)
    then show ?thesis
      using coherent_replace [OF rep _ t] l Some by simp
  next
    case False
    have "app_v2_device_settings_reset_noncredential (Some c) \<noteq> (x, None)" for c x
      by (simp add: app_v2_device_settings_reset_noncredential_def Let_def)
    with False have "core' = core1 \<and> s' = s1"
      using assms(1) by (auto simp: device_settings_core_reset_noncredential_def Some load Let_def
          map_candidate_none split: sum.splits prod.splits if_splits)
    then show ?thesis using l by simp
  qed
qed

lemma coherent_factory_reset:
  assumes "device_settings_core_factory_reset core s = (e, out, changed, core', s')"
    and "coherent core s"
  shows "coherent core' s' \<and> core_ops core' = core_ops core"
  using assms coherent_replace [OF _ assms(2) unprovisioned_sized]
  by (cases "core_ops core") (auto simp: device_settings_core_factory_reset_def split: prod.splits)

lemma coherent_init:
  "ready s \<Longrightarrow> coherent (zero_core\<lparr>core_ops := Some ops\<rparr>) s"
  by (simp add: coherent_def zero_core_def)

lemma coherent_zero: "ready s \<Longrightarrow> coherent zero_core s"
  by (simp add: coherent_def zero_core_def)

lemma coherent_frame:
  "coherent core s \<Longrightarrow> ready s' \<Longrightarrow> stored s' = stored s \<Longrightarrow> coherent core s'"
  by (simp add: coherent_def holds_def)

end

end
