(* ===== verification/Settings_Nvs.thy ===== *)
theory Settings_Nvs
  imports Settings_Core
begin

text \<open>
  The settings module of \<open>device_settings/device_settings.c\<close>: the settings cache on top of one
  record in the NVS flash partition, guarded by a mutex.

  NVS and the mutex are parameters of the model, a record of operations on a state \<open>'w\<close>; the
  namespace and the key are constants of the module and not repeated in every call.  What the
  code relies on is \<open>nvs_laws\<close>, stated over two views of that state: the record the partition
  holds, and a record that was set but not committed.  \<open>device_settings_*\<close> calls that hold the
  mutex run one after the other, so a call is one step of the module.
\<close>

datatype esp_err =
    ESP_OK
  | ESP_ERR_NVS_NOT_FOUND
  | ESP_ERR_NVS_NOT_ENOUGH_SPACE
  | ESP_ERR_NVS_INVALID_LENGTH
  | ESP_ERR_OTHER nat

record 'w nvs_ops =
  nvs_open :: "'w \<Rightarrow> esp_err \<times> nat \<times> 'w"
  nvs_close :: "nat \<Rightarrow> 'w \<Rightarrow> 'w"
  nvs_blob_size :: "nat \<Rightarrow> 'w \<Rightarrow> esp_err \<times> nat \<times> 'w"
  nvs_get_blob :: "nat \<Rightarrow> nat \<Rightarrow> 'w \<Rightarrow> esp_err \<times> u8 list \<times> nat \<times> 'w"
  nvs_set_blob :: "nat \<Rightarrow> u8 list \<Rightarrow> 'w \<Rightarrow> esp_err \<times> 'w"
  nvs_commit :: "nat \<Rightarrow> 'w \<Rightarrow> esp_err \<times> 'w"
  mutex_create :: "'w \<Rightarrow> bool \<times> 'w"
  mutex_take :: "'w \<Rightarrow> bool \<times> 'w"
  mutex_give :: "'w \<Rightarrow> bool \<times> 'w"
  mutex_delete :: "'w \<Rightarrow> 'w"

record 'w nvs_store =
  settings_handle :: nat
  settings_handle_open :: bool
  nvs_world :: 'w

fun map_nvs_error :: "esp_err \<Rightarrow> app_error" where
  "map_nvs_error ESP_OK = APP_ERROR_NONE"
| "map_nvs_error ESP_ERR_NVS_NOT_FOUND = APP_ERROR_NOT_FOUND"
| "map_nvs_error ESP_ERR_NVS_NOT_ENOUGH_SPACE = APP_ERROR_STORAGE_FULL"
| "map_nvs_error ESP_ERR_NVS_INVALID_LENGTH = APP_ERROR_STORAGE_CORRUPT"
| "map_nvs_error (ESP_ERR_OTHER n) = APP_ERROR_STORAGE_UNAVAILABLE"

lemma map_nvs_simps:
  "map_nvs_error e = APP_ERROR_NONE \<longleftrightarrow> e = ESP_OK"
  "map_nvs_error e = APP_ERROR_NOT_FOUND \<longleftrightarrow> e = ESP_ERR_NVS_NOT_FOUND"
  "map_nvs_error e \<noteq> APP_ERROR_COMMIT_UNCERTAIN"
  by (cases e; simp)+

section \<open>The record in the partition\<close>

definition open_settings_handle :: "'w nvs_ops \<Rightarrow> 'w nvs_store \<Rightarrow> app_error \<times> 'w nvs_store" where
  "open_settings_handle ops s =
     (if settings_handle_open s then (APP_ERROR_NONE, s)
      else (case nvs_open ops (nvs_world s) of
        (esp, handle, w) \<Rightarrow>
          (let result = map_nvs_error esp;
               s = s\<lparr>settings_handle := handle, nvs_world := w\<rparr>
           in (result, if result = APP_ERROR_NONE then s\<lparr>settings_handle_open := True\<rparr> else s))))"

definition close_settings_handle :: "'w nvs_ops \<Rightarrow> 'w nvs_store \<Rightarrow> 'w nvs_store" where
  "close_settings_handle ops s =
     (if settings_handle_open s
      then s\<lparr>nvs_world := nvs_close ops (settings_handle s) (nvs_world s), settings_handle := 0,
             settings_handle_open := False\<rparr>
      else s)"

definition reopen_settings_handle :: "'w nvs_ops \<Rightarrow> 'w nvs_store \<Rightarrow> app_error \<times> 'w nvs_store" where
  "reopen_settings_handle ops s = open_settings_handle ops (close_settings_handle ops s)"

definition nvs_read_record ::
    "'w nvs_ops \<Rightarrow> nat \<Rightarrow> 'w nvs_store \<Rightarrow> app_error \<times> u8 list \<times> nat \<times> 'w nvs_store" where
  "nvs_read_record ops capacity s =
     (if \<not> settings_handle_open s \<or> capacity < APP_V2_SETTINGS_RECORD_BYTES
      then (APP_ERROR_INVALID_ARGUMENT, zeros capacity, 0, s)
      else (case nvs_blob_size ops (settings_handle s) (nvs_world s) of
        (esp, required, w) \<Rightarrow>
          (let result = map_nvs_error esp; s = s\<lparr>nvs_world := w\<rparr>
           in if result \<noteq> APP_ERROR_NONE then (result, zeros capacity, 0, s)
              else if required \<noteq> APP_V2_SETTINGS_RECORD_BYTES \<or> capacity < required
              then (APP_ERROR_STORAGE_CORRUPT, zeros capacity, 0, s)
              else (case nvs_get_blob ops (settings_handle s) capacity (nvs_world s) of
                (esp, r, actual, w) \<Rightarrow>
                  (let result = map_nvs_error esp; s = s\<lparr>nvs_world := w\<rparr>
                   in if result \<noteq> APP_ERROR_NONE then (result, r, 0, s)
                      else if actual \<noteq> APP_V2_SETTINGS_RECORD_BYTES
                      then (APP_ERROR_STORAGE_CORRUPT, zeros capacity, 0, s)
                      else (APP_ERROR_NONE, r, actual, s))))))"

definition reconcile_failed_commit ::
    "'w nvs_ops \<Rightarrow> u8 list \<Rightarrow> app_error \<Rightarrow> 'w nvs_store \<Rightarrow> app_error \<times> 'w nvs_store" where
  "reconcile_failed_commit ops candidate commit_error s =
     (case reopen_settings_handle ops s of
        (reopened, s) \<Rightarrow>
          if reopened \<noteq> APP_ERROR_NONE then (APP_ERROR_COMMIT_UNCERTAIN, s)
          else (case nvs_read_record ops APP_V2_SETTINGS_RECORD_BYTES s of
            (read_result, persisted, persisted_length, s) \<Rightarrow>
              if read_result = APP_ERROR_NONE
              then (if persisted_length = APP_V2_SETTINGS_RECORD_BYTES \<and> persisted = candidate
                    then APP_ERROR_NONE else commit_error, s)
              else if read_result = APP_ERROR_NOT_FOUND then (commit_error, s)
              else (APP_ERROR_COMMIT_UNCERTAIN, s)))"

definition nvs_replace_record ::
    "'w nvs_ops \<Rightarrow> u8 list \<Rightarrow> 'w nvs_store \<Rightarrow> app_error \<times> 'w nvs_store" where
  "nvs_replace_record ops r s =
     (if \<not> settings_handle_open s \<or> length r \<noteq> APP_V2_SETTINGS_RECORD_BYTES
      then (APP_ERROR_INVALID_ARGUMENT, s)
      else (case nvs_set_blob ops (settings_handle s) r (nvs_world s) of
        (esp, w) \<Rightarrow>
          (let set_result = map_nvs_error esp; s = s\<lparr>nvs_world := w\<rparr>
           in if set_result \<noteq> APP_ERROR_NONE
              then (set_result, snd (reopen_settings_handle ops s))
              else (case nvs_commit ops (settings_handle s) (nvs_world s) of
                (esp, w) \<Rightarrow>
                  (let commit_result = map_nvs_error esp; s = s\<lparr>nvs_world := w\<rparr>
                   in if commit_result = APP_ERROR_NONE then (APP_ERROR_NONE, s)
                      else reconcile_failed_commit ops r commit_result s)))))"

definition settings_operations :: "'w nvs_ops \<Rightarrow> 'w nvs_store settings_core_ops" where
  "settings_operations ops =
     \<lparr>op_read_record = nvs_read_record ops, op_replace_record_atomic = nvs_replace_record ops\<rparr>"

section \<open>What the code relies on\<close>

text \<open>
  A read through an open handle sees a record that was set and not committed.  Closing the
  handle gives such a record up.  A failed set has stored nothing; a failed commit may or may
  not have stored the record.
\<close>

definition nvs_visible :: "('w \<Rightarrow> u8 list option) \<Rightarrow> ('w \<Rightarrow> u8 list option) \<Rightarrow> 'w \<Rightarrow> u8 list option" where
  "nvs_visible committed pending w = (if pending w = None then committed w else pending w)"

definition nvs_same :: "('w \<Rightarrow> u8 list option) \<Rightarrow> ('w \<Rightarrow> u8 list option) \<Rightarrow> 'w \<Rightarrow> 'w \<Rightarrow> bool" where
  "nvs_same committed pending w w' \<longleftrightarrow> committed w' = committed w \<and> pending w' = pending w"

definition nvs_read_laws where
  "nvs_read_laws ops committed pending \<longleftrightarrow>
     (\<forall>w e h w'. nvs_open ops w = (e, h, w') \<longrightarrow> nvs_same committed pending w w') \<and>
     (\<forall>h w e n w'. nvs_blob_size ops h w = (e, n, w') \<longrightarrow> nvs_same committed pending w w' \<and>
        (e = ESP_ERR_NVS_NOT_FOUND \<longrightarrow> nvs_visible committed pending w = None)) \<and>
     (\<forall>h cap w e r n w'. nvs_get_blob ops h cap w = (e, r, n, w') \<longrightarrow> nvs_same committed pending w w' \<and>
        (e = ESP_ERR_NVS_NOT_FOUND \<longrightarrow> nvs_visible committed pending w = None) \<and>
        (e = ESP_OK \<longrightarrow> nvs_visible committed pending w = Some r))"

definition nvs_write_laws where
  "nvs_write_laws ops committed pending \<longleftrightarrow>
     (\<forall>h w. committed (nvs_close ops h w) = committed w \<and> pending (nvs_close ops h w) = None) \<and>
     (\<forall>h r w e w'. nvs_set_blob ops h r w = (e, w') \<longrightarrow> committed w' = committed w \<and>
        (e = ESP_OK \<longrightarrow> pending w' = Some r)) \<and>
     (\<forall>h w e w'. nvs_commit ops h w = (e, w') \<longrightarrow>
        (if e = ESP_OK then committed w' = nvs_visible committed pending w \<and> pending w' = None
         else committed w' = committed w \<or> committed w' = nvs_visible committed pending w))"

definition mutex_laws where
  "mutex_laws ops committed pending \<longleftrightarrow>
     (\<forall>w b w'. mutex_create ops w = (b, w') \<longrightarrow> nvs_same committed pending w w') \<and>
     (\<forall>w b w'. mutex_take ops w = (b, w') \<longrightarrow> nvs_same committed pending w w') \<and>
     (\<forall>w b w'. mutex_give ops w = (b, w') \<longrightarrow> nvs_same committed pending w w') \<and>
     (\<forall>w. nvs_same committed pending w (mutex_delete ops w))"

locale nvs_flash =
  fixes ops :: "'w nvs_ops" and committed pending :: "'w \<Rightarrow> u8 list option"
  assumes reads: "nvs_read_laws ops committed pending"
    and writes: "nvs_write_laws ops committed pending"
    and mutex: "mutex_laws ops committed pending"
begin

abbreviation stored_record :: "'w nvs_store \<Rightarrow> u8 list option" where
  "stored_record s \<equiv> committed (nvs_world s)"

definition settled :: "'w nvs_store \<Rightarrow> bool" where
  "settled s \<longleftrightarrow> pending (nvs_world s) = None"

lemma open_keeps:
  "open_settings_handle ops s = (e, s') \<Longrightarrow>
     nvs_same committed pending (nvs_world s) (nvs_world s') \<and>
     (e = APP_ERROR_NONE \<longrightarrow> settings_handle_open s')"
  using reads unfolding nvs_read_laws_def
  by (auto simp: open_settings_handle_def Let_def nvs_same_def split: if_splits prod.splits)

lemma close_settles:
  "stored_record (close_settings_handle ops s) = stored_record s \<and>
   (settled s \<or> settings_handle_open s \<longrightarrow> settled (close_settings_handle ops s))"
  using writes by (simp add: close_settings_handle_def settled_def nvs_write_laws_def)

lemma reopen_settles:
  assumes "reopen_settings_handle ops s = (e, s')" and "settings_handle_open s"
  shows "stored_record s' = stored_record s \<and> settled s' \<and> (e = APP_ERROR_NONE \<longrightarrow> settings_handle_open s')"
  using open_keeps [OF assms(1) [unfolded reopen_settings_handle_def]] close_settles [of s] assms(2)
  by (simp add: nvs_same_def settled_def)

lemma read_record_spec:
  assumes "nvs_read_record ops n s = (e, r, len, s')" and "settled s"
  shows "settled s' \<and> stored_record s' = stored_record s \<and>
    (e = APP_ERROR_NONE \<longrightarrow> stored_record s = Some r \<and> len = APP_V2_SETTINGS_RECORD_BYTES) \<and>
    (e = APP_ERROR_NOT_FOUND \<longrightarrow> stored_record s = None)"
proof (cases "\<not> settings_handle_open s \<or> n < APP_V2_SETTINGS_RECORD_BYTES")
  case True
  then show ?thesis
    using assms by (auto simp: nvs_read_record_def)
next
  case False
  obtain e1 n1 w1 where size: "nvs_blob_size ops (settings_handle s) (nvs_world s) = (e1, n1, w1)"
    by (cases "nvs_blob_size ops (settings_handle s) (nvs_world s)") auto
  obtain e2 r2 n2 w2 where got: "nvs_get_blob ops (settings_handle s) n w1 = (e2, r2, n2, w2)"
    by (cases "nvs_get_blob ops (settings_handle s) n w1") auto
  have see: "nvs_visible committed pending (nvs_world s) = stored_record s"
    using assms(2) by (simp add: nvs_visible_def settled_def)
  have s1: "nvs_same committed pending (nvs_world s) w1"
    "e1 = ESP_ERR_NVS_NOT_FOUND \<longrightarrow> stored_record s = None"
    using reads size see unfolding nvs_read_laws_def by metis+
  have see1: "nvs_visible committed pending w1 = stored_record s"
    using s1(1) assms(2) by (simp add: nvs_visible_def nvs_same_def settled_def)
  have s2: "nvs_same committed pending w1 w2"
    "e2 = ESP_ERR_NVS_NOT_FOUND \<longrightarrow> stored_record s = None" "e2 = ESP_OK \<longrightarrow> stored_record s = Some r2"
    using reads got see1 unfolding nvs_read_laws_def by metis+
  show ?thesis
    using assms False s1 s2
    by (auto simp: nvs_read_record_def size got Let_def settled_def nvs_same_def map_nvs_simps
        split: if_splits)
qed

lemma reconcile_spec:
  assumes "reconcile_failed_commit ops r ce s = (e, s')" and "settings_handle_open s"
    and "stored_record s = old \<or> stored_record s = Some r"
    and "ce \<noteq> APP_ERROR_NONE" "ce \<noteq> APP_ERROR_COMMIT_UNCERTAIN"
  shows "settled s' \<and> (stored_record s' = old \<or> stored_record s' = Some r) \<and>
    (e = APP_ERROR_NONE \<longrightarrow> stored_record s' = Some r) \<and>
    (e \<noteq> APP_ERROR_NONE \<and> e \<noteq> APP_ERROR_COMMIT_UNCERTAIN \<longrightarrow> stored_record s' = old)"
proof -
  obtain e1 s1 where reopen: "reopen_settings_handle ops s = (e1, s1)"
    by (cases "reopen_settings_handle ops s") auto
  note r1 = reopen_settles [OF reopen assms(2)]
  obtain e2 p n s2 where read: "nvs_read_record ops APP_V2_SETTINGS_RECORD_BYTES s1 = (e2, p, n, s2)"
    by (cases "nvs_read_record ops APP_V2_SETTINGS_RECORD_BYTES s1") auto
  have r2: "settled s2 \<and> stored_record s2 = stored_record s1 \<and>
      (e2 = APP_ERROR_NONE \<longrightarrow> stored_record s1 = Some p \<and> n = APP_V2_SETTINGS_RECORD_BYTES) \<and>
      (e2 = APP_ERROR_NOT_FOUND \<longrightarrow> stored_record s1 = None)"
    using read_record_spec [OF read] r1 by blast
  show ?thesis
    using assms(1,3-5) r1 r2
    by (auto simp: reconcile_failed_commit_def reopen read split: if_splits)
qed

lemma replace_record_spec:
  assumes "nvs_replace_record ops r s = (e, s')" and "settled s"
  shows "settled s' \<and> (stored_record s' = stored_record s \<or> stored_record s' = Some r) \<and>
    (e = APP_ERROR_NONE \<longrightarrow> stored_record s' = Some r) \<and>
    (e \<noteq> APP_ERROR_NONE \<and> e \<noteq> APP_ERROR_COMMIT_UNCERTAIN \<longrightarrow> stored_record s' = stored_record s)"
proof (cases "\<not> settings_handle_open s \<or> length r \<noteq> APP_V2_SETTINGS_RECORD_BYTES")
  case True
  then show ?thesis
    using assms by (auto simp: nvs_replace_record_def)
next
  case False
  obtain e1 w1 where set1: "nvs_set_blob ops (settings_handle s) r (nvs_world s) = (e1, w1)"
    by (cases "nvs_set_blob ops (settings_handle s) r (nvs_world s)") auto
  have w1: "committed w1 = stored_record s" "e1 = ESP_OK \<longrightarrow> pending w1 = Some r"
    using writes set1 unfolding nvs_write_laws_def by metis+
  obtain e2 w2 where commit: "nvs_commit ops (settings_handle s) w1 = (e2, w2)"
    by (cases "nvs_commit ops (settings_handle s) w1") auto
  have w2: "if e2 = ESP_OK then committed w2 = nvs_visible committed pending w1 \<and> pending w2 = None
      else committed w2 = committed w1 \<or> committed w2 = nvs_visible committed pending w1"
    using writes commit unfolding nvs_write_laws_def by blast
  note def = assms(1) [unfolded nvs_replace_record_def]
  show ?thesis
  proof (cases "e1 = ESP_OK")
    case failed: False
    have "settled (snd (reopen_settings_handle ops (s\<lparr>nvs_world := w1\<rparr>))) \<and>
        stored_record (snd (reopen_settings_handle ops (s\<lparr>nvs_world := w1\<rparr>))) = stored_record s"
      using reopen_settles [of "s\<lparr>nvs_world := w1\<rparr>"] w1 False
      by (metis (no_types, lifting) nvs_store.select_convs(2,3) nvs_store.surjective
          nvs_store.update_convs(3) prod.collapse)
    then show ?thesis
      using def False failed by (auto simp: set1 map_nvs_simps)
  next
    case ok: True
    have seen: "nvs_visible committed pending w1 = Some r"
      using w1 ok by (simp add: nvs_visible_def)
    show ?thesis
    proof (cases "e2 = ESP_OK")
      case True
      then show ?thesis
        using def False ok w2 seen by (auto simp: set1 commit settled_def)
    next
      case bad: False
      then have "reconcile_failed_commit ops r (map_nvs_error e2) (s\<lparr>nvs_world := w2\<rparr>) = (e, s')"
        using def False ok by (simp add: set1 commit map_nvs_simps)
      then show ?thesis
        by (rule reconcile_spec) (use False bad w1 w2 seen in \<open>auto simp: map_nvs_simps\<close>)
    qed
  qed
qed

end

sublocale nvs_flash \<subseteq> store: settings_store "settings_operations ops" "\<lambda>s. committed (nvs_world s)" settled
  by unfold_locales
    (use read_record_spec replace_record_spec in \<open>fastforce simp: settings_operations_def\<close>)+

section \<open>The module\<close>

record 'w settings_module =
  settings_mutex :: bool
  settings_initialized :: bool
  settings_core :: "'w nvs_store settings_core"
  module_store :: "'w nvs_store"

text \<open>The statics of the module before the first call.\<close>

definition module_boot :: "'w \<Rightarrow> 'w settings_module" where
  "module_boot w =
     \<lparr>settings_mutex = False, settings_initialized = False, settings_core = zero_core,
      module_store = \<lparr>settings_handle = 0, settings_handle_open = False, nvs_world = w\<rparr>\<rparr>"

abbreviation module_world :: "'w settings_module \<Rightarrow> 'w" where
  "module_world m \<equiv> nvs_world (module_store m)"

definition set_world :: "'w \<Rightarrow> 'w settings_module \<Rightarrow> 'w settings_module" where
  "set_world w m = m\<lparr>module_store := module_store m\<lparr>nvs_world := w\<rparr>\<rparr>"

definition delete_mutex :: "'w nvs_ops \<Rightarrow> 'w settings_module \<Rightarrow> 'w settings_module" where
  "delete_mutex ops m = (set_world (mutex_delete ops (module_world m)) m)\<lparr>settings_mutex := False\<rparr>"

definition cleanup_partial_init :: "'w nvs_ops \<Rightarrow> 'w settings_module \<Rightarrow> 'w settings_module" where
  "cleanup_partial_init ops m =
     (let m = m\<lparr>settings_core := device_settings_core_deinit (settings_core m),
                settings_initialized := False,
                module_store := close_settings_handle ops (module_store m)\<rparr>
      in if settings_mutex m then delete_mutex ops m else m)"

definition take_mutex :: "'w nvs_ops \<Rightarrow> 'w settings_module \<Rightarrow> bool \<times> 'w settings_module" where
  "take_mutex ops m = (case mutex_take ops (module_world m) of (taken, w) \<Rightarrow> (taken, set_world w m))"

definition lock_settings :: "'w nvs_ops \<Rightarrow> 'w settings_module \<Rightarrow> app_error \<times> 'w settings_module" where
  "lock_settings ops m =
     (if \<not> settings_initialized m \<or> \<not> settings_mutex m then (APP_ERROR_CONFLICT, m)
      else (case take_mutex ops m of
        (taken, m) \<Rightarrow> (if taken then APP_ERROR_NONE else APP_ERROR_INTERNAL, m)))"

definition finish_locked ::
    "'w nvs_ops \<Rightarrow> app_error \<Rightarrow> 'w settings_module \<Rightarrow> app_error \<times> 'w settings_module" where
  "finish_locked ops result m =
     (case mutex_give ops (module_world m) of
        (given, w) \<Rightarrow>
          (if \<not> given \<and> result = APP_ERROR_NONE then APP_ERROR_INTERNAL else result, set_world w m))"

definition device_settings_init ::
    "'w nvs_ops \<Rightarrow> 'w settings_module \<Rightarrow> app_error \<times> 'w settings_module" where
  "device_settings_init ops m =
     (if settings_initialized m \<or> settings_mutex m \<or> settings_handle_open (module_store m)
      then (APP_ERROR_CONFLICT, m)
      else (case mutex_create ops (module_world m) of
        (created, w) \<Rightarrow>
          (let m = (set_world w m)\<lparr>settings_mutex := created\<rparr>
           in if \<not> created then (APP_ERROR_INTERNAL, m)
              else (case open_settings_handle ops (module_store m) of
                (result, store) \<Rightarrow>
                  (let m = m\<lparr>module_store := store\<rparr>
                   in if result \<noteq> APP_ERROR_NONE then (result, cleanup_partial_init ops m)
                      else (case device_settings_core_init (Some (settings_operations ops)) (settings_core m) of
                        (result, core) \<Rightarrow>
                          (let m = m\<lparr>settings_core := core\<rparr>
                           in if result \<noteq> APP_ERROR_NONE then (result, cleanup_partial_init ops m)
                              else (case device_settings_core_load (settings_core m) (module_store m) of
                                (loaded, core, store) \<Rightarrow>
                                  (let m = m\<lparr>settings_core := core, module_store := store\<rparr>
                                   in case loaded of
                                     Inl e \<Rightarrow> (e, cleanup_partial_init ops m)
                                   | Inr _ \<Rightarrow> (APP_ERROR_NONE, m\<lparr>settings_initialized := True\<rparr>))))))))))"

definition device_settings_deinit ::
    "'w nvs_ops \<Rightarrow> 'w settings_module \<Rightarrow> app_error \<times> 'w settings_module" where
  "device_settings_deinit ops m =
     (if \<not> settings_initialized m \<and> \<not> settings_mutex m \<and> \<not> settings_handle_open (module_store m)
      then (APP_ERROR_NONE, m)
      else if \<not> settings_mutex m then (APP_ERROR_INTERNAL, cleanup_partial_init ops m)
      else (case take_mutex ops m of
        (taken, m) \<Rightarrow>
          if \<not> taken then (APP_ERROR_INTERNAL, m)
          else (let m = m\<lparr>settings_core := device_settings_core_deinit (settings_core m),
                          settings_initialized := False,
                          module_store := close_settings_handle ops (module_store m)\<rparr>
                in case mutex_give ops (module_world m) of
                  (given, w) \<Rightarrow>
                    (if given then APP_ERROR_NONE else APP_ERROR_INTERNAL,
                     delete_mutex ops (set_world w m)))))"

text \<open>A call of the core under the mutex: lock, run, unlock.\<close>

definition locked_call ::
    "'w nvs_ops \<Rightarrow>
     ('w nvs_store settings_core \<Rightarrow> 'w nvs_store \<Rightarrow>
        app_error \<times> 'a \<times> 'w nvs_store settings_core \<times> 'w nvs_store) \<Rightarrow>
     'a \<Rightarrow> 'w settings_module \<Rightarrow> app_error \<times> 'a \<times> 'w settings_module" where
  "locked_call ops call cleared m =
     (case lock_settings ops m of
        (result, m) \<Rightarrow>
          if result \<noteq> APP_ERROR_NONE then (result, cleared, m)
          else (case call (settings_core m) (module_store m) of
            (result, out, core, store) \<Rightarrow>
              (case finish_locked ops result (m\<lparr>settings_core := core, module_store := store\<rparr>) of
                 (finished, m) \<Rightarrow>
                   (finished, if result \<noteq> APP_ERROR_NONE then cleared else out, m))))"

definition device_settings_read ::
    "'w nvs_ops \<Rightarrow> 'w settings_module \<Rightarrow> app_error \<times> device_settings \<times> 'w settings_module" where
  "device_settings_read ops m =
     locked_call ops
       (\<lambda>core store. case device_settings_core_load core store of
          (Inl e, core, store) \<Rightarrow> (e, zero_settings, core, store)
        | (Inr loaded, core, store) \<Rightarrow> (APP_ERROR_NONE, loaded, core, store))
       zero_settings m"

definition device_settings_replace ::
    "'w nvs_ops \<Rightarrow> device_settings option \<Rightarrow> 'w settings_module \<Rightarrow> app_error \<times> bool \<times> 'w settings_module" where
  "device_settings_replace ops settings m =
     (case settings of
        None \<Rightarrow> (APP_ERROR_INVALID_ARGUMENT, False, m)
      | Some x \<Rightarrow> locked_call ops (\<lambda>core store. device_settings_core_replace core x store) False m)"

definition device_settings_set_station ::
    "'w nvs_ops \<Rightarrow> u8 list option \<Rightarrow> u8 list option \<Rightarrow> 'w settings_module \<Rightarrow>
     app_error \<times> bool \<times> 'w settings_module" where
  "device_settings_set_station ops ssid passphrase m =
     (if ssid = None \<or> passphrase = None then (APP_ERROR_INVALID_ARGUMENT, False, m)
      else locked_call ops (\<lambda>core store. device_settings_core_set_station core ssid passphrase store)
             False m)"

definition device_settings_set_access_point_passphrase ::
    "'w nvs_ops \<Rightarrow> u8 list option \<Rightarrow> 'w settings_module \<Rightarrow> app_error \<times> bool \<times> 'w settings_module" where
  "device_settings_set_access_point_passphrase ops passphrase m =
     (if passphrase = None then (APP_ERROR_INVALID_ARGUMENT, False, m)
      else locked_call ops
             (\<lambda>core store. device_settings_core_set_access_point_passphrase core passphrase store) False m)"

definition device_settings_reset_noncredential ::
    "'w nvs_ops \<Rightarrow> 'w settings_module \<Rightarrow> app_error \<times> (device_settings \<times> bool) \<times> 'w settings_module" where
  "device_settings_reset_noncredential ops m =
     locked_call ops
       (\<lambda>core store. case device_settings_core_reset_noncredential core False store of
          (result, out, changed, core, store) \<Rightarrow> (result, (out, changed), core, store))
       (zero_settings, False) m"

definition device_settings_factory_reset ::
    "'w nvs_ops \<Rightarrow> 'w settings_module \<Rightarrow> app_error \<times> (device_settings \<times> bool) \<times> 'w settings_module" where
  "device_settings_factory_reset ops m =
     locked_call ops
       (\<lambda>core store. case device_settings_core_factory_reset core store of
          (result, out, changed, core, store) \<Rightarrow> (result, (out, changed), core, store))
       (zero_settings, False) m"

section \<open>Runs of the module\<close>

text \<open>One call of the interface; what the caller gets is the second argument.\<close>

inductive settings_step :: "'w nvs_ops \<Rightarrow> 'w settings_module \<Rightarrow> 'w settings_module \<Rightarrow> bool"
  for ops :: "'w nvs_ops" where
  init: "device_settings_init ops m = (e, m') \<Longrightarrow> settings_step ops m m'"
| deinit: "device_settings_deinit ops m = (e, m') \<Longrightarrow> settings_step ops m m'"
| read: "device_settings_read ops m = (e, out, m') \<Longrightarrow> settings_step ops m m'"
| replace: "device_settings_replace ops x m = (e, changed, m') \<Longrightarrow>
    (\<forall>s. x = Some s \<longrightarrow> settings_sized s) \<Longrightarrow> settings_step ops m m'"
| station: "device_settings_set_station ops ssid pass m = (e, changed, m') \<Longrightarrow> settings_step ops m m'"
| access_point: "device_settings_set_access_point_passphrase ops pass m = (e, changed, m') \<Longrightarrow>
    settings_step ops m m'"
| reset: "device_settings_reset_noncredential ops m = (e, outs, m') \<Longrightarrow> settings_step ops m m'"
| factory: "device_settings_factory_reset ops m = (e, outs, m') \<Longrightarrow> settings_step ops m m'"

abbreviation settings_run :: "'w nvs_ops \<Rightarrow> 'w settings_module \<Rightarrow> 'w settings_module \<Rightarrow> bool" where
  "settings_run ops \<equiv> (settings_step ops)\<^sup>*\<^sup>*"

context nvs_flash
begin

definition module_coherent :: "'w settings_module \<Rightarrow> bool" where
  "module_coherent m \<longleftrightarrow> store.coherent (settings_core m) (module_store m)"

lemma same_keeps:
  "nvs_same committed pending (module_world m) w \<Longrightarrow> module_coherent m \<Longrightarrow>
     module_coherent (set_world w m)"
  by (simp add: module_coherent_def set_world_def store.coherent_def store.holds_def nvs_same_def
      settled_def)

lemma mutex_keeps:
  "mutex_create ops w = (b, w') \<Longrightarrow> nvs_same committed pending w w'"
  "mutex_take ops w = (b, w') \<Longrightarrow> nvs_same committed pending w w'"
  "mutex_give ops w = (b, w') \<Longrightarrow> nvs_same committed pending w w'"
  "nvs_same committed pending w (mutex_delete ops w)"
  using mutex by (simp_all add: mutex_laws_def)

lemma settings_lock_keeps:
  "lock_settings ops m = (e, m') \<Longrightarrow> module_coherent m \<Longrightarrow>
     module_coherent m' \<and> committed (module_world m') = committed (module_world m) \<and>
     settings_core m' = settings_core m"
  using mutex_keeps(2) same_keeps
  by (auto simp: lock_settings_def take_mutex_def set_world_def nvs_same_def split: if_splits prod.splits)

lemma settings_finish_keeps:
  "finish_locked ops r m = (e, m') \<Longrightarrow> module_coherent m \<Longrightarrow>
     module_coherent m' \<and> committed (module_world m') = committed (module_world m) \<and>
     settings_core m' = settings_core m \<and> (e = APP_ERROR_NONE \<longrightarrow> r = APP_ERROR_NONE) \<and>
     (e = r \<or> e = APP_ERROR_INTERNAL)"
  using mutex_keeps(3) same_keeps
  by (auto simp: finish_locked_def set_world_def nvs_same_def split: if_splits prod.splits)

end

context nvs_flash
begin

lemma locked_call_spec:
  assumes "locked_call ops call cleared m = (e, out, m')" and "module_coherent m"
    and keeps: "\<And>core s r o1 core' s'. call core s = (r, o1, core', s') \<Longrightarrow>
      store.coherent core s \<Longrightarrow> store.coherent core' s'"
  shows "module_coherent m' \<and>
    (committed (module_world m') = committed (module_world m) \<and> e \<noteq> APP_ERROR_NONE \<or>
     (\<exists>r o1 s s'. call (settings_core m) s = (r, o1, settings_core m', s') \<and>
        store.coherent (settings_core m) s \<and> store.coherent (settings_core m') s' \<and>
        committed (nvs_world s) = committed (module_world m) \<and>
        committed (module_world m') = committed (nvs_world s') \<and>
        (e = r \<or> e = APP_ERROR_INTERNAL) \<and> (e = APP_ERROR_NONE \<longrightarrow> r = APP_ERROR_NONE \<and> out = o1)))"
proof -
  obtain e1 m1 where lock: "lock_settings ops m = (e1, m1)"
    by (cases "lock_settings ops m") auto
  note l = settings_lock_keeps [OF lock assms(2)]
  show ?thesis
  proof (cases "e1 = APP_ERROR_NONE")
    case False
    then show ?thesis
      using assms(1) l by (auto simp: locked_call_def lock)
  next
    case True
    obtain r o1 c1 s1 where call: "call (settings_core m1) (module_store m1) = (r, o1, c1, s1)"
      by (cases "call (settings_core m1) (module_store m1)") auto
    define m2 where "m2 = m1\<lparr>settings_core := c1, module_store := s1\<rparr>"
    obtain e2 m3 where finish: "finish_locked ops r m2 = (e2, m3)"
      by (cases "finish_locked ops r m2") auto
    have c: "store.coherent (settings_core m) (module_store m1)"
      using l unfolding module_coherent_def by metis
    have c1: "store.coherent c1 s1"
      by (rule keeps [OF call]) (use l module_coherent_def in metis)
    then have "module_coherent m2" by (simp add: module_coherent_def m2_def)
    note f = settings_finish_keeps [OF finish this]
    have ends: "e = e2" "m' = m3" "out = (if r \<noteq> APP_ERROR_NONE then cleared else o1)"
      using assms(1) by (auto simp: locked_call_def lock True call finish m2_def [symmetric])
    have "call (settings_core m) (module_store m1) = (r, o1, settings_core m', s1)"
      using call l f ends by (simp add: m2_def)
    moreover have "store.coherent (settings_core m') s1"
      using c1 f ends by (simp add: m2_def)
    ultimately show ?thesis
      using l f c ends by (auto simp: m2_def)
  qed
qed

lemma close_keeps:
  "settled s \<Longrightarrow> settled (close_settings_handle ops s) \<and>
     committed (nvs_world (close_settings_handle ops s)) = committed (nvs_world s)"
  using close_settles [of s] by simp

lemma delete_keeps: "module_coherent m \<Longrightarrow> module_coherent (delete_mutex ops m)"
  using same_keeps [OF mutex_keeps(4)] by (simp add: delete_mutex_def module_coherent_def set_world_def)

lemma module_settled: "module_coherent m \<Longrightarrow> settled (module_store m)"
  by (simp add: module_coherent_def store.coherent_def)

lemma closed_coherent:
  "settled (module_store m) \<Longrightarrow>
     module_coherent (m\<lparr>settings_core := device_settings_core_deinit (settings_core m),
       settings_initialized := b, module_store := close_settings_handle ops (module_store m)\<rparr>)"
  using close_keeps [of "module_store m"]
  by (simp add: module_coherent_def device_settings_core_deinit_def store.coherent_zero)

lemma cleanup_keeps: "settled (module_store m) \<Longrightarrow> module_coherent (cleanup_partial_init ops m)"
  using closed_coherent [of m False] by (simp add: cleanup_partial_init_def Let_def delete_keeps)

lemma deinit_keeps:
  assumes "device_settings_deinit ops m = (e, m')" and "module_coherent m"
  shows "module_coherent m'"
proof -
  obtain t w where take: "mutex_take ops (module_world m) = (t, w)"
    by (cases "mutex_take ops (module_world m)") auto
  define m1 where "m1 = (set_world w m)\<lparr>settings_core := device_settings_core_deinit (settings_core (set_world w m)),
      settings_initialized := False, module_store := close_settings_handle ops (module_store (set_world w m))\<rparr>"
  obtain g w2 where give: "mutex_give ops (module_world m1) = (g, w2)"
    by (cases "mutex_give ops (module_world m1)") auto
  have taken: "module_coherent (set_world w m)"
    by (rule same_keeps [OF mutex_keeps(2) [OF take] assms(2)])
  then have "module_coherent m1"
    unfolding m1_def by (intro closed_coherent module_settled)
  then have "module_coherent (delete_mutex ops (set_world w2 m1))"
    by (intro delete_keeps same_keeps [OF mutex_keeps(3) [OF give]])
  then show ?thesis
    using assms taken cleanup_keeps [OF module_settled [OF assms(2)]]
    by (auto simp: device_settings_deinit_def take_mutex_def take Let_def m1_def [symmetric] give
        split: if_splits)
qed

lemma init_keeps:
  assumes "device_settings_init ops m = (e, m')" and "module_coherent m"
  shows "module_coherent m'"
proof (cases "settings_initialized m \<or> settings_mutex m \<or> settings_handle_open (module_store m)")
  case True
  then show ?thesis using assms by (auto simp: device_settings_init_def)
next
  case False
  obtain c w where create: "mutex_create ops (module_world m) = (c, w)"
    by (cases "mutex_create ops (module_world m)") auto
  define m1 where "m1 = (set_world w m)\<lparr>settings_mutex := c\<rparr>"
  have m1: "module_coherent m1"
    using same_keeps [OF mutex_keeps(1) [OF create] assms(2)] by (simp add: m1_def module_coherent_def)
  obtain e2 s2 where opened: "open_settings_handle ops (module_store m1) = (e2, s2)"
    by (cases "open_settings_handle ops (module_store m1)") auto
  have s2: "settled s2"
    using open_keeps [OF opened] module_settled [OF m1] by (simp add: settled_def nvs_same_def)
  define core where "core = (zero_core :: 'w nvs_store settings_core)\<lparr>core_ops := Some (settings_operations ops)\<rparr>"
  obtain l c3 s3 where load: "device_settings_core_load core s2 = (l, c3, s3)"
    by (cases "device_settings_core_load core s2") auto
  have c3: "store.coherent c3 s3"
    using store.coherent_load [OF load] store.coherent_init [OF s2] by (simp add: core_def)
  then have s3: "settled s3" by (simp add: store.coherent_def)
  have "m' = m1 \<or> m' = cleanup_partial_init ops (m1\<lparr>module_store := s2\<rparr>) \<or>
      m' = cleanup_partial_init ops (m1\<lparr>settings_core := c3, module_store := s3\<rparr>) \<or>
      m' = m1\<lparr>settings_core := c3, module_store := s3, settings_initialized := True\<rparr>"
    using assms(1) False
    using opened load
    by (cases l; cases c) (auto simp: device_settings_init_def create Let_def m1_def
        device_settings_core_init_def core_def split: if_splits)
  moreover have "module_coherent (m1\<lparr>settings_core := c3, module_store := s3, settings_initialized := True\<rparr>)"
    using c3 by (simp add: module_coherent_def)
  ultimately show ?thesis
    using m1 s2 s3 by (auto intro: cleanup_keeps)
qed

end

context nvs_flash
begin

lemma read_call_coherent:
  "(case device_settings_core_load core s of
      (Inl e, core, store) \<Rightarrow> (e, zero_settings, core, store)
    | (Inr loaded, core, store) \<Rightarrow> (APP_ERROR_NONE, loaded, core, store)) = (r, o1, core', s') \<Longrightarrow>
   store.coherent core s \<Longrightarrow> store.coherent core' s'"
  by (cases "device_settings_core_load core s") (auto dest: store.coherent_load split: sum.splits)

lemma outs_call_coherent:
  assumes "\<And>r o1 ch core' s'. call core s = (r, o1, ch, core', s') \<Longrightarrow> store.coherent core s \<Longrightarrow>
      store.coherent core' s'"
    and "(case call core s of (result, out, changed, core, store) \<Rightarrow> (result, (out, changed), core, store)) =
      (r, o2, core', s')"
    and "store.coherent core s"
  shows "store.coherent core' s'"
  using assms by (cases "call core s") auto

lemma step_coherent:
  assumes "settings_step ops m m'" and "module_coherent m"
  shows "module_coherent m'"
  using assms
proof cases
  case init
  then show ?thesis using init_keeps assms(2) by blast
next
  case deinit
  then show ?thesis using deinit_keeps assms(2) by blast
next
  case (read e out)
  show ?thesis
    using locked_call_spec [OF read(1) [unfolded device_settings_read_def] assms(2)] read_call_coherent
    by blast
next
  case (replace x e changed)
  show ?thesis
  proof (cases x)
    case None
    then show ?thesis using replace(1) assms(2) by (simp add: device_settings_replace_def)
  next
    case (Some y)
    note call = replace(1) [unfolded device_settings_replace_def Some option.case]
    have "settings_sized y" using replace(2) Some by simp
    then show ?thesis
      using locked_call_spec [OF call assms(2)] store.coherent_replace by blast
  qed
next
  case (station ssid pass e changed)
  show ?thesis
  proof (cases "ssid = None \<or> pass = None")
    case True
    then show ?thesis using station assms(2) by (simp add: device_settings_set_station_def)
  next
    case False
    note call = station [unfolded device_settings_set_station_def if_not_P [OF False]]
    show ?thesis
      using locked_call_spec [OF call assms(2)] store.coherent_set_station by blast
  qed
next
  case (access_point pass e changed)
  show ?thesis
  proof (cases "pass = None")
    case True
    then show ?thesis using access_point assms(2)
      by (simp add: device_settings_set_access_point_passphrase_def)
  next
    case False
    note call = access_point [unfolded device_settings_set_access_point_passphrase_def if_not_P [OF False]]
    show ?thesis
      using locked_call_spec [OF call assms(2)] store.coherent_set_access_point by blast
  qed
next
  case (reset e outs)
  show ?thesis
    using locked_call_spec [OF reset(1) [unfolded device_settings_reset_noncredential_def] assms(2)]
      outs_call_coherent [where call = "\<lambda>core. device_settings_core_reset_noncredential core False"]
      store.coherent_reset by blast
next
  case (factory e outs)
  show ?thesis
    using locked_call_spec [OF factory(1) [unfolded device_settings_factory_reset_def] assms(2)]
      outs_call_coherent [where call = device_settings_core_factory_reset] store.coherent_factory_reset
    by blast
qed

lemma boot_coherent: "pending w = None \<Longrightarrow> module_coherent (module_boot w)"
  by (simp add: module_coherent_def module_boot_def store.coherent_zero settled_def)

lemma run_coherent:
  assumes "settings_run ops (module_boot w) m" and "pending w = None"
  shows "module_coherent m"
  using assms(1) by (induction rule: rtranclp_induct) (simp_all add: boot_coherent assms(2) step_coherent)

end

context nvs_flash
begin

lemma store_contract: "settings_store (settings_operations ops) (\<lambda>s. committed (nvs_world s)) settled"
  by (rule store.settings_store_axioms)

lemma read_is_stored:
  assumes "settings_run ops (module_boot w) m" and "pending w = None"
    and "device_settings_read ops m = (APP_ERROR_NONE, x, m')"
  shows "settings_sized x \<and> app_v2_device_settings_validate (Some x) = APP_V2_SETTINGS_OK \<and>
    store.holds (module_store m') x \<and> committed (module_world m') = committed (module_world m)"
proof -
  note m = run_coherent [OF assms(1,2)]
  from locked_call_spec [OF assms(3) [unfolded device_settings_read_def] m] read_call_coherent
  obtain o1 s s' where call: "(case device_settings_core_load (settings_core m) s of
        (Inl e, core, store) \<Rightarrow> (e, zero_settings, core, store)
      | (Inr loaded, core, store) \<Rightarrow> (APP_ERROR_NONE, loaded, core, store)) =
      (APP_ERROR_NONE, o1, settings_core m', s')"
    and o1: "x = o1" and s: "store.coherent (settings_core m) s" "committed (nvs_world s) = committed (module_world m)"
      "committed (module_world m') = committed (nvs_world s')"
    by (metis (no_types, lifting))
  obtain y where load: "device_settings_core_load (settings_core m) s = (Inr y, settings_core m', s')" "y = x"
    using call o1 by (cases "device_settings_core_load (settings_core m) s")
      (auto dest: load_error split: sum.splits)
  note l = store.coherent_load [OF load(1) s(1)]
  have "settings_sized x \<and> app_v2_device_settings_validate (Some x) = APP_V2_SETTINGS_OK \<and> store.holds s' x"
    using l load(2) by (auto simp: store.coherent_def)
  then show ?thesis
    using s l by (simp add: store.holds_def)
qed

lemma replace_stores:
  assumes "settings_run ops (module_boot w) m" and "pending w = None" and "settings_sized x"
    and "device_settings_replace ops (Some x) m = (e, changed, m')"
  shows "(e = APP_ERROR_NONE \<longrightarrow> store.holds (module_store m') x \<or>
        committed (module_world m') = None \<and> canonical x = canonical app_v2_device_settings_init_unprovisioned) \<and>
    (e \<notin> {APP_ERROR_NONE, APP_ERROR_COMMIT_UNCERTAIN, APP_ERROR_INTERNAL} \<longrightarrow>
       committed (module_world m') = committed (module_world m))"
proof -
  note m = run_coherent [OF assms(1,2)]
  note call = assms(4) [unfolded device_settings_replace_def option.case]
  have keep: "store.coherent c' t'"
    if "device_settings_core_replace c x t = (r, o1, c', t')" "store.coherent c t" for c t r o1 c' t'
    using store.coherent_replace [OF that assms(3)] by simp
  from locked_call_spec [OF call m] keep
  consider "committed (module_world m') = committed (module_world m)" "e \<noteq> APP_ERROR_NONE"
    | (ran) r o1 s s' where "device_settings_core_replace (settings_core m) x s = (r, o1, settings_core m', s')"
      "store.coherent (settings_core m) s" "store.coherent (settings_core m') s'"
      "committed (nvs_world s) = committed (module_world m)"
      "committed (module_world m') = committed (nvs_world s')" "e = r \<or> e = APP_ERROR_INTERNAL"
      "e = APP_ERROR_NONE \<longrightarrow> r = APP_ERROR_NONE"
    by blast
  then show ?thesis
  proof cases
    case 1
    then show ?thesis by simp
  next
    case ran
    note r = store.coherent_replace [OF ran(1,2) assms(3)]
    have "store.holds s' x \<or> committed (nvs_world s') = None \<and>
        canonical x = canonical app_v2_device_settings_init_unprovisioned" if ok: "r = APP_ERROR_NONE"
    proof -
      from r ok obtain rec where enc: "encode_settings x = Inr rec" and loaded: "core_loaded (settings_core m')"
        and ends: "if o1 then core_current (settings_core m') = x \<and> committed (nvs_world s') = Some rec
          else encode_settings (core_current (settings_core m')) = Inr rec"
        by (auto split: if_splits)
      note x = encode_settings_Inr [OF enc assms(3)]
      show ?thesis
      proof (cases o1)
        case True
        then show ?thesis using ends x by (simp add: store.holds_def)
      next
        case False
        have cur: "settings_sized (core_current (settings_core m'))" "store.holds s' (core_current (settings_core m'))"
          using ran(3) loaded by (simp_all add: store.coherent_def)
        have "canonical (core_current (settings_core m')) = canonical x"
          using encode_settings_Inr [OF _ cur(1)] ends False x by fastforce
        then show ?thesis
          using cur(2) by (auto simp: store.holds_def split: option.splits)
      qed
    qed
    then show ?thesis
      using ran r by (auto simp: store.holds_def)
  qed
qed

end

section \<open>A flash that works, for the witnesses\<close>

definition sample_nvs :: "(u8 list option \<times> u8 list option) nvs_ops" where
  "sample_nvs =
     \<lparr>nvs_open = (\<lambda>w. (ESP_OK, 1, w)), nvs_close = (\<lambda>h w. (fst w, None)),
      nvs_blob_size = (\<lambda>h w. case nvs_visible fst snd w of
         None \<Rightarrow> (ESP_ERR_NVS_NOT_FOUND, 0, w) | Some r \<Rightarrow> (ESP_OK, length r, w)),
      nvs_get_blob = (\<lambda>h n w. case nvs_visible fst snd w of
         None \<Rightarrow> (ESP_ERR_NVS_NOT_FOUND, [], 0, w) | Some r \<Rightarrow> (ESP_OK, r, length r, w)),
      nvs_set_blob = (\<lambda>h r w. (ESP_OK, fst w, Some r)),
      nvs_commit = (\<lambda>h w. (ESP_OK, nvs_visible fst snd w, None)),
      mutex_create = (\<lambda>w. (True, w)), mutex_take = (\<lambda>w. (True, w)), mutex_give = (\<lambda>w. (True, w)),
      mutex_delete = (\<lambda>w. w)\<rparr>"

lemma sample_nvs_sel:
  "mutex_take sample_nvs w = (True, w)" "mutex_give sample_nvs w = (True, w)"
  "nvs_set_blob sample_nvs h r w = (ESP_OK, fst w, Some r)"
  "nvs_commit sample_nvs h w = (ESP_OK, nvs_visible fst snd w, None)"
  by (simp_all add: sample_nvs_def)

interpretation sample_flash: nvs_flash sample_nvs fst snd
  by unfold_locales
    (auto simp: nvs_read_laws_def nvs_write_laws_def mutex_laws_def sample_nvs_def nvs_same_def
      nvs_visible_def split: option.splits if_splits)

text \<open>The module after its initialization on an empty flash.\<close>

definition sample_module :: "(u8 list option \<times> u8 list option) settings_module" where
  "sample_module = snd (device_settings_init sample_nvs (module_boot (None, None)))"

lemmas nvs_eval = device_settings_init_def module_boot_def sample_nvs_def set_world_def
  open_settings_handle_def device_settings_core_init_def settings_operations_def
  device_settings_core_load_def nvs_read_record_def nvs_visible_def zero_core_def limit_defs

lemma sample_module_eq:
  "sample_module =
     \<lparr>settings_mutex = True, settings_initialized = True,
      settings_core = \<lparr>core_ops = Some (settings_operations sample_nvs),
        core_current = app_v2_device_settings_init_unprovisioned, core_loaded = True,
        core_record_present = False\<rparr>,
      module_store = \<lparr>settings_handle = 1, settings_handle_open = True, nvs_world = (None, None)\<rparr>\<rparr>"
  by (simp add: sample_module_def nvs_eval)

lemma sample_run: "settings_run sample_nvs (module_boot (None, None)) sample_module"
  by (rule r_into_rtranclp, rule settings_step.init [of _ _ APP_ERROR_NONE])
     (simp add: sample_module_eq, simp add: nvs_eval)

section \<open>Properties of the module\<close>

lemma sample_flash_laws: "nvs_flash sample_nvs fst snd"
  by (rule sample_flash.nvs_flash_axioms)

text \<open>
  C20: Whatever calls were made since boot and however NVS failed in them, settings that
  \<open>device_settings_read\<close> delivers are well typed and valid, and they are exactly what the
  flash holds at that moment: the decoding of its record, or the factory settings while there
  is no record.  A cached copy is never stale, also not after a failed or uncertain commit.
\<close>
theorem settings_read_is_stored:
  assumes "nvs_flash ops committed pending" and "pending w = None"
    and "settings_run ops (module_boot w) m"
    and "device_settings_read ops m = (APP_ERROR_NONE, x, m')"
  shows "settings_sized x \<and> app_v2_device_settings_validate (Some x) = APP_V2_SETTINGS_OK \<and>
    (case committed (module_world m') of
       None \<Rightarrow> x = app_v2_device_settings_init_unprovisioned
     | Some r \<Rightarrow> app_v2_device_settings_decode (Some r) = Inr (canonical x))"
  using nvs_flash.read_is_stored [OF assms(1,3,2,4)]
  unfolding settings_store.holds_def [OF nvs_flash.store_contract [OF assms(1)]] by blast

lemma sample_read:
  "device_settings_read sample_nvs sample_module =
     (APP_ERROR_NONE, app_v2_device_settings_init_unprovisioned, sample_module)"
  by (simp add: device_settings_read_def locked_call_def lock_settings_def take_mutex_def
      finish_locked_def set_world_def device_settings_core_load_def sample_module_eq sample_nvs_sel)

lemma settings_read_is_stored_witness:
  "settings_sized app_v2_device_settings_init_unprovisioned \<and>
     app_v2_device_settings_validate (Some app_v2_device_settings_init_unprovisioned) = APP_V2_SETTINGS_OK \<and>
     (case fst (module_world sample_module) of
       None \<Rightarrow> app_v2_device_settings_init_unprovisioned = app_v2_device_settings_init_unprovisioned
     | Some r \<Rightarrow> app_v2_device_settings_decode (Some r) = Inr (canonical app_v2_device_settings_init_unprovisioned))"
  by (rule settings_read_is_stored [OF sample_flash_laws _ sample_run sample_read]) simp

text \<open>
  Replacing the settings either stores them or leaves the flash alone: after success the
  flash decodes to the new settings (or has no record and the new settings are the factory
  settings), and after every failure but an uncertain commit and a failed unlock the record is
  the one from before the call.
\<close>
theorem settings_replace_stores:
  assumes "nvs_flash ops committed pending" and "pending w = None"
    and "settings_run ops (module_boot w) m" and "settings_sized x"
    and "device_settings_replace ops (Some x) m = (e, changed, m')"
  shows "(e = APP_ERROR_NONE \<longrightarrow>
       (case committed (module_world m') of
          None \<Rightarrow> canonical x = canonical app_v2_device_settings_init_unprovisioned
        | Some r \<Rightarrow> app_v2_device_settings_decode (Some r) = Inr (canonical x))) \<and>
    (e \<notin> {APP_ERROR_NONE, APP_ERROR_COMMIT_UNCERTAIN, APP_ERROR_INTERNAL} \<longrightarrow>
       committed (module_world m') = committed (module_world m))"
  using nvs_flash.replace_stores [OF assms(1,3,2,4,5)]
  by (auto simp: settings_store.holds_def [OF nvs_flash.store_contract [OF assms(1)]] split: option.splits)

lemma sample_replace:
  "device_settings_replace sample_nvs (Some sample_settings) sample_module =
     (APP_ERROR_NONE, True, sample_module
        \<lparr>settings_core := settings_core sample_module
           \<lparr>core_current := sample_settings, core_record_present := True\<rparr>,
         module_store := module_store sample_module
           \<lparr>nvs_world := (Some (field_numbers sample_settings @ field_texts sample_settings), None)\<rparr>\<rparr>)"
proof -
  have enc: "encode_settings sample_settings = Inr (field_numbers sample_settings @ field_texts sample_settings)"
    using encode_valid [OF sample_sized sample_valid, of "zeros 344"] by (simp add: encode_settings_def limit_defs)
  obtain r0 where enc0: "encode_settings app_v2_device_settings_init_unprovisioned = Inr r0"
    using encode_valid [OF unprovisioned_sized unprovisioned_valid, of "zeros 344"]
    by (simp add: encode_settings_def limit_defs)
  have "canonical app_v2_device_settings_init_unprovisioned \<noteq> canonical sample_settings"
    by (auto simp: canonical_def sample_settings_def app_v2_device_settings_init_unprovisioned_def
        zero_settings_def dest: arg_cong [where f = provisioned])
  then have ne: "r0 \<noteq> field_numbers sample_settings @ field_texts sample_settings"
    using encode_settings_Inr [OF enc0 unprovisioned_sized] encode_settings_Inr [OF enc sample_sized] by auto
  have len: "length (field_numbers sample_settings @ field_texts sample_settings) = 344"
    by (rule length_layout [OF sample_sized valid_texts_terminated [OF sample_sized sample_valid]])
  show ?thesis
    by (simp add: device_settings_replace_def locked_call_def lock_settings_def take_mutex_def
        finish_locked_def set_world_def device_settings_core_replace_def device_settings_core_load_def
        sample_module_eq enc enc0 ne sample_nvs_sel)
      (simp add: settings_operations_def nvs_replace_record_def limit_defs len [simplified]
        sample_nvs_sel nvs_visible_def)
qed

lemma settings_replace_stores_witness:
  "\<exists>m'. device_settings_replace sample_nvs (Some sample_settings) sample_module = (APP_ERROR_NONE, True, m') \<and>
     (case fst (module_world m') of
        None \<Rightarrow> canonical sample_settings = canonical app_v2_device_settings_init_unprovisioned
      | Some r \<Rightarrow> app_v2_device_settings_decode (Some r) = Inr (canonical sample_settings))"
  using settings_replace_stores [OF sample_flash_laws _ sample_run sample_sized sample_replace] sample_replace
  by (simp add: sample_module_eq)

end
