(* ===== verification/App_Startup.thy ===== *)
theory App_Startup
  imports Settings_Codec Auth_Core
begin

text \<open>
  The startup sequence of \<open>app_core/app_core_sequence.c\<close>: the stages in their order, normal or
  setup mode, and the clean-up after a failure.

  The operations of the subsystems are parameters that may answer anything, depending on
  everything that was called before: an oracle maps the history of calls so far to the answer,
  and every call is recorded in the history together with its answer.  The flags of
  \<open>app_core_owned_t\<close>, one for each stage, are the set of stages whose flag is set.  The secrets
  are local to the sequence; the call that zeroes them is recorded, and the model does not use
  them after it.
\<close>

section \<open>Data\<close>

datatype nvs_result =
    APP_CORE_NVS_OK | APP_CORE_NVS_NO_FREE_PAGES | APP_CORE_NVS_NEW_VERSION_FOUND
  | APP_CORE_NVS_OTHER_FAILURE

datatype device_indicator =
    DEVICE_INDICATOR_BOOTING | DEVICE_INDICATOR_READY | DEVICE_INDICATOR_EXECUTING
  | DEVICE_INDICATOR_DEGRADED | DEVICE_INDICATOR_FATAL

datatype log_type =
    APP_CORE_LOG_STAGE | APP_CORE_LOG_SETUP_CODE | APP_CORE_LOG_PROVISIONING_REQUIRED
  | APP_CORE_LOG_CLEANUP_FAILED

record log_event =
  lg_type :: log_type
  lg_stage :: "string option"
  lg_primary_error :: app_error
  lg_cleanup_error :: app_error
  lg_cleanup_incomplete :: bool
  lg_operation_id :: u32
  lg_setup_code :: "u8 list option"

record wifi_configuration =
  wf_ap_ssid :: "u8 list"
  wf_ap_passphrase :: "u8 list"
  wf_station_configured :: bool
  wf_station_ssid :: "u8 list"
  wf_station_passphrase :: "u8 list"

record provisioning_bootstrap =
  pb_device_id :: "u8 list"
  pb_ap_ssid :: "u8 list"
  pb_ap_passphrase :: "u8 list"

datatype web_mode = WEB_SERVER_MODE_NORMAL | WEB_SERVER_MODE_SETUP

record web_configuration =
  wc_mode :: web_mode
  wc_login_enabled :: bool
  wc_password_record :: password_record
  wc_require_physical_confirmation :: bool
  wc_setup_device_name :: "u8 list"
  wc_setup_code :: "u8 list"
  wc_clears_setup_code :: bool

datatype stage =
    Stage_Nvs | Stage_Settings | Stage_Storage | Stage_Auth | Stage_Usb | Stage_Executor
  | Stage_Controls | Stage_Wifi | Stage_Http

datatype app_call =
    Set_Indicator device_indicator
  | Start stage
  | Start_Wifi wifi_configuration
  | Start_Http web_configuration
  | Settings_Read
  | Bootstrap_Derive
  | Setup_Code_Generate
  | Setup_Code_Publish "u8 list"
  | Setup_Code_Clear
  | Stop stage
  | Secure_Zero
  | Log log_event

datatype app_event = Did app_call app_error | Asked stage bool

type_synonym history = "app_event list"

record app_core_ops =
  op_nvs_init :: "history \<Rightarrow> nvs_result"
  op_call :: "app_call \<Rightarrow> history \<Rightarrow> app_error"
  op_settings_read :: "history \<Rightarrow> app_error \<times> device_settings"
  op_bootstrap_derive :: "history \<Rightarrow> app_error \<times> provisioning_bootstrap"
  op_setup_code_generate :: "history \<Rightarrow> app_error \<times> u8 list"
  op_owns_resources :: "stage \<Rightarrow> history \<Rightarrow> bool"

record startup =
  su_owned :: "stage set"
  su_setup_code_published :: bool
  su_history :: history

definition log_to :: "app_event \<Rightarrow> startup \<Rightarrow> startup" where
  "log_to e st = st\<lparr>su_history := su_history st @ [e]\<rparr>"

definition own :: "stage \<Rightarrow> startup \<Rightarrow> startup" where
  "own s st = st\<lparr>su_owned := insert s (su_owned st)\<rparr>"

definition call :: "app_core_ops \<Rightarrow> app_call \<Rightarrow> startup \<Rightarrow> app_error \<times> startup" where
  "call ops c st = (let r = op_call ops c (su_history st) in (r, log_to (Did c r) st))"

text \<open>A call without a result.\<close>

definition notify :: "app_call \<Rightarrow> startup \<Rightarrow> startup" where
  "notify c st = log_to (Did c APP_ERROR_NONE) st"

definition owns_resources :: "app_core_ops \<Rightarrow> stage \<Rightarrow> startup \<Rightarrow> bool \<times> startup" where
  "owns_resources ops s st =
     (let b = op_owns_resources ops s (su_history st) in (b, log_to (Asked s b) st))"

section \<open>Logging\<close>

definition log_stage :: "string \<Rightarrow> app_error \<Rightarrow> startup \<Rightarrow> startup" where
  "log_stage stage result st =
     notify (Log \<lparr>lg_type = APP_CORE_LOG_STAGE, lg_stage = Some stage, lg_primary_error = result,
       lg_cleanup_error = APP_ERROR_NONE, lg_cleanup_incomplete = False, lg_operation_id = 0,
       lg_setup_code = None\<rparr>) st"

definition log_simple :: "log_type \<Rightarrow> app_error \<Rightarrow> app_error \<Rightarrow> bool \<Rightarrow> startup \<Rightarrow> startup" where
  "log_simple type primary cleanup cleanup_incomplete st =
     notify (Log \<lparr>lg_type = type, lg_stage = None, lg_primary_error = primary,
       lg_cleanup_error = cleanup, lg_cleanup_incomplete = cleanup_incomplete, lg_operation_id = 0,
       lg_setup_code = None\<rparr>) st"

definition log_setup_code :: "u8 list \<Rightarrow> startup \<Rightarrow> startup" where
  "log_setup_code setup_code st =
     notify (Log \<lparr>lg_type = APP_CORE_LOG_SETUP_CODE, lg_stage = None,
       lg_primary_error = APP_ERROR_NONE, lg_cleanup_error = APP_ERROR_NONE,
       lg_cleanup_incomplete = False, lg_operation_id = 0, lg_setup_code = None\<rparr>) st"

fun app_core_map_nvs_result :: "nvs_result \<Rightarrow> app_error" where
  "app_core_map_nvs_result APP_CORE_NVS_OK = APP_ERROR_NONE"
| "app_core_map_nvs_result APP_CORE_NVS_NO_FREE_PAGES = APP_ERROR_STORAGE_CORRUPT"
| "app_core_map_nvs_result APP_CORE_NVS_NEW_VERSION_FOUND = APP_ERROR_STORAGE_CORRUPT"
| "app_core_map_nvs_result APP_CORE_NVS_OTHER_FAILURE = APP_ERROR_STORAGE_UNAVAILABLE"

section \<open>Clean-up\<close>

definition teardown_stage ::
    "app_core_ops \<Rightarrow> bool \<Rightarrow> stage \<Rightarrow> operation_result \<times> startup \<Rightarrow> operation_result \<times> startup" where
  "teardown_stage ops should_run s p =
     (case p of (result, st) \<Rightarrow>
        if \<not> should_run then (result, st)
        else (case call ops (Stop s) st of
          (cleanup, st) \<Rightarrow>
            (app_operation_record_cleanup result cleanup,
             if cleanup = APP_ERROR_NONE then st\<lparr>su_owned := su_owned st - {s}\<rparr> else st)))"

text \<open>A stage that is torn down when its flag is set, and one that may own resources without it.\<close>

definition teardown_owned ::
    "app_core_ops \<Rightarrow> stage \<Rightarrow> operation_result \<times> startup \<Rightarrow> operation_result \<times> startup" where
  "teardown_owned ops s p = teardown_stage ops (s \<in> su_owned (snd p)) s p"

definition teardown_or_asked ::
    "app_core_ops \<Rightarrow> stage \<Rightarrow> operation_result \<times> startup \<Rightarrow> operation_result \<times> startup" where
  "teardown_or_asked ops s p =
     (case p of (result, st) \<Rightarrow>
        if s \<in> su_owned st then teardown_stage ops True s (result, st)
        else (case owns_resources ops s st of
          (asked, st) \<Rightarrow> teardown_stage ops asked s (result, st)))"

definition cleanup_after_failure ::
    "app_core_ops \<Rightarrow> app_error \<Rightarrow> startup \<Rightarrow> operation_result \<times> startup" where
  "cleanup_after_failure ops primary_error st =
     (let result = app_operation_record_primary app_operation_success primary_error;
          st = (if su_setup_code_published st
                then (notify Setup_Code_Clear st)\<lparr>su_setup_code_published := False\<rparr> else st);
          p = teardown_or_asked ops Stage_Http (result, st);
          p = teardown_or_asked ops Stage_Wifi p;
          p = teardown_owned ops Stage_Controls p;
          p = teardown_owned ops Stage_Executor p;
          p = teardown_owned ops Stage_Usb p;
          p = teardown_owned ops Stage_Auth p;
          p = teardown_or_asked ops Stage_Storage p;
          p = teardown_owned ops Stage_Settings p;
          p = teardown_owned ops Stage_Nvs p
      in case call ops (Set_Indicator DEVICE_INDICATOR_FATAL) (snd p) of
        (indicator, st) \<Rightarrow> (app_operation_record_cleanup (fst p) indicator, st))"

definition finish_failure :: "app_core_ops \<Rightarrow> app_error \<Rightarrow> startup \<Rightarrow> app_error \<times> startup" where
  "finish_failure ops primary_error st =
     (case cleanup_after_failure ops primary_error st of
        (result, st) \<Rightarrow>
          (or_primary_error result,
           if or_cleanup_incomplete result
           then log_simple APP_CORE_LOG_CLEANUP_FAILED (or_primary_error result)
                  (or_cleanup_error result) (or_cleanup_incomplete result) st
           else st))"

definition fail_with_secrets :: "app_core_ops \<Rightarrow> app_error \<Rightarrow> startup \<Rightarrow> app_error \<times> startup" where
  "fail_with_secrets ops primary_error st =
     finish_failure ops primary_error (notify Secure_Zero st)"

section \<open>The two modes\<close>

definition zero_web :: web_configuration where
  "zero_web =
     \<lparr>wc_mode = WEB_SERVER_MODE_NORMAL, wc_login_enabled = False,
      wc_password_record = \<lparr>pr_salt = zeros 16, pr_hash = zeros 32, pr_iterations = 0\<rparr>,
      wc_require_physical_confirmation = False, wc_setup_device_name = zeros 33,
      wc_setup_code = zeros 9, wc_clears_setup_code = False\<rparr>"

definition configure_setup_server :: "device_settings \<Rightarrow> u8 list \<Rightarrow> web_configuration" where
  "configure_setup_server settings setup_code =
     zero_web\<lparr>wc_mode := WEB_SERVER_MODE_SETUP, wc_login_enabled := False,
              wc_clears_setup_code := True, wc_setup_device_name := device_name settings,
              wc_setup_code := setup_code\<rparr>"

definition configure_normal_server :: "device_settings \<Rightarrow> web_configuration" where
  "configure_normal_server settings =
     zero_web\<lparr>wc_mode := WEB_SERVER_MODE_NORMAL, wc_login_enabled := True,
              wc_require_physical_confirmation := require_serial_confirmation settings,
              wc_password_record := \<lparr>pr_salt = password_salt settings,
                pr_hash = password_verifier settings, pr_iterations = password_iterations settings\<rparr>\<rparr>"

text \<open>
  One stage: its operation, its log line, and its flag when it succeeded.  \<open>continue\<close> is the
  rest of the sequence, which runs when the stage did.
\<close>

definition run_stage ::
    "app_core_ops \<Rightarrow> app_call \<Rightarrow> string \<Rightarrow> (startup \<Rightarrow> startup) \<Rightarrow>
     (startup \<Rightarrow> app_error \<times> startup) \<Rightarrow> startup \<Rightarrow> app_error \<times> startup" where
  "run_stage ops c name set_flag continue st =
     (case call ops c st of
        (result, st) \<Rightarrow>
          let st = log_stage name result st
          in if result \<noteq> APP_ERROR_NONE then (result, st) else continue (set_flag st))"

definition start_network ::
    "app_core_ops \<Rightarrow> wifi_configuration \<Rightarrow> web_configuration \<Rightarrow> startup \<Rightarrow> app_error \<times> startup" where
  "start_network ops wifi web =
     run_stage ops (Start_Wifi wifi) ''wifi'' (own Stage_Wifi)
       (run_stage ops (Start_Http web) ''http'' (own Stage_Http) (\<lambda>st. (APP_ERROR_NONE, st)))"

definition start_normal_mode ::
    "app_core_ops \<Rightarrow> device_settings \<Rightarrow> startup \<Rightarrow> app_error \<times> startup" where
  "start_normal_mode ops settings =
     run_stage ops (Start Stage_Auth) ''authentication'' (own Stage_Auth)
     (run_stage ops (Start Stage_Usb) ''usb'' (own Stage_Usb)
     (run_stage ops (Start Stage_Executor) ''executor'' (own Stage_Executor)
     (run_stage ops (Start Stage_Controls) ''controls'' (own Stage_Controls)
     (start_network ops
       \<lparr>wf_ap_ssid = ap_ssid settings, wf_ap_passphrase = ap_passphrase settings,
        wf_station_configured = station_configured settings,
        wf_station_ssid = station_ssid settings,
        wf_station_passphrase = station_passphrase settings\<rparr>
       (configure_normal_server settings)))))"

text \<open>Setup mode after the authentication stage: derive, generate, publish, start the network.\<close>

definition start_setup_network ::
    "app_core_ops \<Rightarrow> device_settings \<Rightarrow> startup \<Rightarrow> app_error \<times> startup" where
  "start_setup_network ops settings st =
     (case op_bootstrap_derive ops (su_history st) of
        (result, bootstrap) \<Rightarrow>
          (let st = log_stage ''setup_bootstrap'' result (log_to (Did Bootstrap_Derive result) st)
           in if result \<noteq> APP_ERROR_NONE then (result, st)
              else (case op_setup_code_generate ops (su_history st) of
                (result, setup_code) \<Rightarrow>
                  (let st = log_stage ''setup_code'' result (log_to (Did Setup_Code_Generate result) st)
                   in if result \<noteq> APP_ERROR_NONE then (result, st)
                      else run_stage ops (Setup_Code_Publish setup_code) ''setup_code_console''
                        (\<lambda>st. st\<lparr>su_setup_code_published := True\<rparr>)
                        (\<lambda>st. start_network ops
                           \<lparr>wf_ap_ssid = pb_ap_ssid bootstrap,
                            wf_ap_passphrase = pb_ap_passphrase bootstrap,
                            wf_station_configured = station_configured settings,
                            wf_station_ssid = station_ssid settings,
                            wf_station_passphrase = station_passphrase settings\<rparr>
                           (configure_setup_server settings setup_code)
                           (log_setup_code setup_code st))
                        st))))"

definition start_setup_mode ::
    "app_core_ops \<Rightarrow> device_settings \<Rightarrow> startup \<Rightarrow> app_error \<times> startup" where
  "start_setup_mode ops settings st =
     run_stage ops (Start Stage_Auth) ''authentication'' (own Stage_Auth)
       (start_setup_network ops settings)
       (log_simple APP_CORE_LOG_PROVISIONING_REQUIRED APP_ERROR_AUTH_REQUIRED APP_ERROR_NONE False st)"

section \<open>The sequence\<close>

definition start_stages :: "app_core_ops \<Rightarrow> startup \<Rightarrow> app_error \<times> startup" where
  "start_stages ops st =
     (case call ops (Set_Indicator DEVICE_INDICATOR_BOOTING) st of
        (result, st) \<Rightarrow>
          if result \<noteq> APP_ERROR_NONE then (result, st)
          else (let result = app_core_map_nvs_result (op_nvs_init ops (su_history st));
                    st = log_stage ''nvs'' result (log_to (Did (Start Stage_Nvs) result) st)
                in if result \<noteq> APP_ERROR_NONE then (result, st)
                   else run_stage ops (Start Stage_Settings) ''settings_init'' (own Stage_Settings)
                     (\<lambda>st. case op_settings_read ops (su_history st) of
                        (result, settings) \<Rightarrow>
                          (let st = log_stage ''settings_read'' result (log_to (Did Settings_Read result) st)
                           in if result \<noteq> APP_ERROR_NONE then (result, st)
                              else run_stage ops (Start Stage_Storage) ''storage_mount''
                                (own Stage_Storage)
                                (\<lambda>st. if provisioned settings then start_normal_mode ops settings st
                                      else start_setup_mode ops settings st)
                                st))
                     (own Stage_Nvs st)))"

text \<open>
  \<open>app_core_sequence_start\<close>: every failure of a stage takes the same way out, so the stages are
  one definition and the exit another.
\<close>

definition app_core_sequence_start :: "app_core_ops option \<Rightarrow> app_error \<times> startup" where
  "app_core_sequence_start operations =
     (let st = \<lparr>su_owned = {}, su_setup_code_published = False, su_history = []\<rparr>
      in case operations of
        None \<Rightarrow> (APP_ERROR_INVALID_ARGUMENT, st)
      | Some ops \<Rightarrow>
          (case start_stages ops st of
             (result, st) \<Rightarrow>
               if result \<noteq> APP_ERROR_NONE then fail_with_secrets ops result st
               else (case call ops (Set_Indicator DEVICE_INDICATOR_READY) (notify Secure_Zero st) of
                 (result, st) \<Rightarrow>
                   if result \<noteq> APP_ERROR_NONE then finish_failure ops result st
                   else (APP_ERROR_NONE, st))))"

end
