(* ===== verification/Startup_Order.thy ===== *)
theory Startup_Order
  imports App_Startup "HOL-Library.Sublist"
begin

text \<open>
  What the startup sequence does, read from the history of its calls: the stages that started,
  in their order, the first failing answer, and the clean-up that follows a failure.
\<close>

section \<open>Reading a history\<close>

fun start_of :: "app_call \<Rightarrow> stage option" where
  "start_of (Start s) = Some s"
| "start_of (Start_Wifi c) = Some Stage_Wifi"
| "start_of (Start_Http c) = Some Stage_Http"
| "start_of _ = None"

fun started :: "app_event \<Rightarrow> stage list" where
  "started (Did c r) = (case start_of c of None \<Rightarrow> [] | Some s \<Rightarrow> if r = APP_ERROR_NONE then [s] else [])"
| "started (Asked s b) = []"

fun stopped :: "app_event \<Rightarrow> stage list" where
  "stopped (Did (Stop s) r) = [s]"
| "stopped _ = []"

definition started_stages :: "history \<Rightarrow> stage list" where
  "started_stages h = concat (map started h)"

definition stopped_stages :: "history \<Rightarrow> stage list" where
  "stopped_stages h = concat (map stopped h)"

lemma stages_simps [simp]:
  "started_stages [] = []" "started_stages (g @ h) = started_stages g @ started_stages h"
  "started_stages (e # h) = started e @ started_stages h"
  "stopped_stages [] = []" "stopped_stages (g @ h) = stopped_stages g @ stopped_stages h"
  "stopped_stages (e # h) = stopped e @ stopped_stages h"
  by (simp_all add: started_stages_def stopped_stages_def)

text \<open>The order of the stages in the two modes, and the order of the clean-up.\<close>

definition normal_order :: "stage list" where
  "normal_order = [Stage_Nvs, Stage_Settings, Stage_Storage, Stage_Auth, Stage_Usb, Stage_Executor,
     Stage_Controls, Stage_Wifi, Stage_Http]"

definition setup_order :: "stage list" where
  "setup_order = [Stage_Nvs, Stage_Settings, Stage_Storage, Stage_Auth, Stage_Wifi, Stage_Http]"

fun quiet_event :: "app_event \<Rightarrow> bool" where
  "quiet_event (Did c r) \<longleftrightarrow> r = APP_ERROR_NONE"
| "quiet_event (Asked s b) \<longleftrightarrow> True"

definition first_error :: "app_error \<Rightarrow> history \<Rightarrow> bool" where
  "first_error r h \<longleftrightarrow> (\<exists>pre c post. h = pre @ Did c r # post \<and> list_all quiet_event pre)"

text \<open>Events of the stages: no clean-up, no question for resources, and no secret in a log line.\<close>

fun stage_event :: "app_event \<Rightarrow> bool" where
  "stage_event (Did (Log e) r) \<longleftrightarrow> lg_setup_code e = None"
| "stage_event (Did (Stop s) r) \<longleftrightarrow> False"
| "stage_event (Did Secure_Zero r) \<longleftrightarrow> False"
| "stage_event (Did Setup_Code_Clear r) \<longleftrightarrow> False"
| "stage_event (Did c r) \<longleftrightarrow> True"
| "stage_event (Asked s b) \<longleftrightarrow> False"

definition published_in :: "history \<Rightarrow> bool" where
  "published_in h \<longleftrightarrow> (\<exists>c. Did (Setup_Code_Publish c) APP_ERROR_NONE \<in> set h)"

definition consistent :: "startup \<Rightarrow> bool" where
  "consistent st \<longleftrightarrow> set (started_stages (su_history st)) = su_owned st \<and>
     list_all stage_event (su_history st) \<and> su_setup_code_published st = published_in (su_history st)"

definition reached :: "stage list \<Rightarrow> startup \<Rightarrow> bool" where
  "reached done st \<longleftrightarrow> consistent st \<and> started_stages (su_history st) = done \<and>
     list_all quiet_event (su_history st)"

definition ended :: "stage list \<Rightarrow> app_error \<Rightarrow> startup \<Rightarrow> bool" where
  "ended order r st \<longleftrightarrow> consistent st \<and>
     (if r = APP_ERROR_NONE then reached order st
      else prefix (started_stages (su_history st)) order \<and> first_error r (su_history st))"

lemmas startup_simps = log_to_def own_def call_def notify_def log_stage_def log_simple_def
  log_setup_code_def Let_def

lemma stage_event_not_stopped: "list_all stage_event h \<Longrightarrow> stopped_stages h = []"
proof (induction h)
  case (Cons e h)
  then show ?case by (cases e; cases "case e of Did c r \<Rightarrow> c") auto
qed simp

section \<open>Stages\<close>

text \<open>A call that is logged, whatever it is.\<close>

lemma logged_call:
  assumes "reached done st" and "stage_event (Did c r)" and "start_of c = None"
    and "\<And>code. c = Setup_Code_Publish code \<Longrightarrow> r \<noteq> APP_ERROR_NONE"
  shows "r = APP_ERROR_NONE \<Longrightarrow> reached done (log_stage name r (log_to (Did c r) st))"
    and "r \<noteq> APP_ERROR_NONE \<Longrightarrow> prefix done order \<Longrightarrow>
      ended order r (log_stage name r (log_to (Did c r) st))"
  using assms
  by (auto simp: reached_def consistent_def ended_def startup_simps published_in_def first_error_def)

lemma started_call:
  assumes "reached done st" and "start_of c = Some s"
  shows "r = APP_ERROR_NONE \<Longrightarrow> reached (done @ [s]) (own s (log_stage name r (log_to (Did c r) st)))"
    and "r \<noteq> APP_ERROR_NONE \<Longrightarrow> prefix done order \<Longrightarrow>
      ended order r (log_stage name r (log_to (Did c r) st))"
  using assms
  by (cases c; auto simp: reached_def consistent_def ended_def startup_simps published_in_def first_error_def)+

lemma run_start:
  assumes "run_stage ops c name (own s) continue st = (r, out)" and "start_of c = Some s"
    and "reached done st" and "prefix (done @ [s]) order"
    and "\<And>st1. continue st1 = (r, out) \<Longrightarrow> reached (done @ [s]) st1 \<Longrightarrow> ended order r out"
  shows "ended order r out"
proof (cases "op_call ops c (su_history st) = APP_ERROR_NONE")
  case True
  then show ?thesis
    using assms(1,5) started_call(1) [OF assms(3,2)] by (simp add: run_stage_def call_def Let_def)
next
  case False
  have "prefix done order" using assms(4) by (meson append_prefixD)
  with False show ?thesis
    using assms(1) started_call(2) [OF assms(3,2)] by (auto simp: run_stage_def call_def Let_def)
qed

lemma run_publish:
  assumes "run_stage ops (Setup_Code_Publish code) name
      (\<lambda>st. st\<lparr>su_setup_code_published := True\<rparr>) continue st = (r, out)"
    and "reached done st" and "prefix done order"
    and "\<And>st1. continue st1 = (r, out) \<Longrightarrow> reached done st1 \<Longrightarrow> ended order r out"
  shows "ended order r out"
proof (cases "op_call ops (Setup_Code_Publish code) (su_history st) = APP_ERROR_NONE")
  case True
  let ?st = "log_stage name APP_ERROR_NONE (log_to (Did (Setup_Code_Publish code) APP_ERROR_NONE) st)"
  have "reached done (?st\<lparr>su_setup_code_published := True\<rparr>)"
    using assms(2) by (auto simp: reached_def consistent_def startup_simps published_in_def)
  with True show ?thesis
    using assms(1,4) by (simp add: run_stage_def call_def Let_def)
next
  case False
  then show ?thesis
    using assms(1,3) logged_call(2) [OF assms(2), of "Setup_Code_Publish code"]
    by (auto simp: run_stage_def call_def Let_def)
qed

lemma network_ends:
  assumes "start_network ops wifi web st = (r, out)" and "reached done st"
    and "order = done @ [Stage_Wifi, Stage_Http]"
  shows "ended order r out"
proof (rule run_start [OF assms(1) [unfolded start_network_def] _ assms(2)])
  fix st1
  assume http: "run_stage ops (Start_Http web) ''http'' (own Stage_Http) (\<lambda>st. (APP_ERROR_NONE, st)) st1 = (r, out)"
    and st1: "reached (done @ [Stage_Wifi]) st1"
  show "ended order r out"
    by (rule run_start [OF http _ st1]) (auto simp: assms(3) ended_def reached_def)
qed (simp_all add: assms(3))

lemma normal_ends:
  assumes "start_normal_mode ops settings st = (r, out)"
    and st: "reached [Stage_Nvs, Stage_Settings, Stage_Storage] st"
  shows "ended normal_order r out"
  by (rule run_start [OF assms(1) [unfolded start_normal_mode_def] _ st], simp,
      simp add: normal_order_def,
      (erule run_start, simp, assumption, simp add: normal_order_def)+,
      erule network_ends, assumption, simp add: normal_order_def)

lemma reached_log:
  "reached done st \<Longrightarrow> lg_setup_code e = None \<Longrightarrow> reached done (notify (Log e) st)"
  by (auto simp: reached_def consistent_def startup_simps published_in_def)

lemma setup_network_ends:
  assumes run: "start_setup_network ops settings st = (r, out)" and st: "reached done st"
    and order: "order = done @ [Stage_Wifi, Stage_Http]"
  shows "ended order r out"
proof -
  have p: "prefix done order" by (simp add: order)
  obtain b boot where derive: "op_bootstrap_derive ops (su_history st) = (b, boot)" by force
  define st2 where "st2 = log_stage ''setup_bootstrap'' b (log_to (Did Bootstrap_Derive b) st)"
  note l1 = logged_call [OF st, where c = Bootstrap_Derive and r = b and name = "''setup_bootstrap''",
      simplified, folded st2_def]
  obtain g code where gen: "op_setup_code_generate ops (su_history st2) = (g, code)" by force
  define st3 where "st3 = log_stage ''setup_code'' g (log_to (Did Setup_Code_Generate g) st2)"
  note run = run [unfolded start_setup_network_def derive Let_def prod.case]
  show ?thesis
  proof (cases "b = APP_ERROR_NONE")
    case False
    then show ?thesis using run l1(2) [OF _ p] by (auto simp: st2_def)
  next
    case True
    note l2 = logged_call [OF l1(1) [OF True], where c = Setup_Code_Generate and r = g
        and name = "''setup_code''", simplified, folded st3_def]
    note run = run [folded st2_def, unfolded gen prod.case, folded st3_def]
    show ?thesis
    proof (cases "g = APP_ERROR_NONE")
      case False
      then show ?thesis
        using run True l2(2) [OF _ p] by (auto simp: st3_def st2_def)
    next
      case ok: True
      have st3: "reached done st3"
        using l2(1) [OF ok] ok True by (simp add: st3_def st2_def)
      show ?thesis
      proof (rule run_publish [OF _ st3 p])
        show "run_stage ops (Setup_Code_Publish code) ''setup_code_console''
            (\<lambda>st. st\<lparr>su_setup_code_published := True\<rparr>)
            (\<lambda>st. start_network ops
               \<lparr>wf_ap_ssid = pb_ap_ssid boot, wf_ap_passphrase = pb_ap_passphrase boot,
                wf_station_configured = station_configured settings,
                wf_station_ssid = station_ssid settings,
                wf_station_passphrase = station_passphrase settings\<rparr>
               (configure_setup_server settings code) (log_setup_code code st)) st3 = (r, out)"
          using run True ok by simp
      next
        fix st1
        assume "start_network ops
               \<lparr>wf_ap_ssid = pb_ap_ssid boot, wf_ap_passphrase = pb_ap_passphrase boot,
                wf_station_configured = station_configured settings,
                wf_station_ssid = station_ssid settings,
                wf_station_passphrase = station_passphrase settings\<rparr>
               (configure_setup_server settings code) (log_setup_code code st1) = (r, out)"
          and "reached done st1"
        then show "ended order r out"
          by (elim network_ends) (simp_all add: log_setup_code_def reached_log order)
      qed
    qed
  qed
qed

lemma setup_ends:
  assumes "start_setup_mode ops settings st = (r, out)"
    and st: "reached [Stage_Nvs, Stage_Settings, Stage_Storage] st"
  shows "ended setup_order r out"
  by (rule run_start [OF assms(1) [unfolded start_setup_mode_def log_simple_def]], simp,
      rule reached_log [OF st], simp, simp add: setup_order_def,
      erule setup_network_ends, assumption, simp add: setup_order_def)

text \<open>A history only grows.\<close>

definition grows :: "(startup \<Rightarrow> app_error \<times> startup) \<Rightarrow> bool" where
  "grows f \<longleftrightarrow> (\<forall>st r out. f st = (r, out) \<longrightarrow> prefix (su_history st) (su_history out))"

lemma growsD: "grows f \<Longrightarrow> f st = (r, out) \<Longrightarrow> prefix (su_history st) (su_history out)"
  unfolding grows_def by blast

lemma grows_stage:
  assumes "grows k" and "\<And>st. su_history (set_flag st) = su_history st"
  shows "grows (run_stage ops c name set_flag k)"
  unfolding grows_def run_stage_def call_def Let_def
  using assms(2) by (auto simp: startup_simps split: if_splits dest!: growsD [OF assms(1)] append_prefixD)

lemma grows_network: "grows (start_network ops wifi web)"
  unfolding start_network_def by (intro grows_stage) (simp_all add: grows_def own_def)

lemma grows_normal: "grows (start_normal_mode ops settings)"
  unfolding start_normal_mode_def by (intro grows_stage grows_network) (simp_all add: own_def)

lemma grows_setup_network: "grows (start_setup_network ops settings)"
proof -
  have tail: "grows (run_stage ops (Setup_Code_Publish code) name (\<lambda>st. st\<lparr>su_setup_code_published := True\<rparr>)
      (\<lambda>st. start_network ops wifi web (log_setup_code code st)))" for code name wifi web
    by (rule grows_stage)
      (auto simp: grows_def startup_simps dest!: growsD [OF grows_network] append_prefixD)
  show ?thesis
    unfolding grows_def start_setup_network_def
    by (auto simp: Let_def log_to_def notify_def log_stage_def split: prod.splits if_splits
        dest!: growsD [OF tail] append_prefixD)
qed

lemma grows_setup: "grows (start_setup_mode ops settings)"
proof -
  have stage: "grows (run_stage ops (Start Stage_Auth) ''authentication'' (own Stage_Auth)
      (start_setup_network ops settings))"
    by (rule grows_stage [OF grows_setup_network]) (simp add: own_def)
  show ?thesis
    unfolding start_setup_mode_def grows_def
    by (auto simp: startup_simps dest!: growsD [OF stage] append_prefixD)
qed

text \<open>The stages before the mode is known, and the mode.\<close>

definition stages_ended :: "app_core_ops \<Rightarrow> app_error \<Rightarrow> startup \<Rightarrow> bool" where
  "stages_ended ops r st \<longleftrightarrow>
     (if r = APP_ERROR_NONE
      then \<exists>h settings. prefix h (su_history st) \<and> op_settings_read ops h = (APP_ERROR_NONE, settings) \<and>
        reached (if provisioned settings then normal_order else setup_order) st
      else \<exists>order \<in> {normal_order, setup_order}. ended order r st)"

lemma stages_ended_failed: "r \<noteq> APP_ERROR_NONE \<Longrightarrow> ended normal_order r st \<Longrightarrow> stages_ended ops r st"
  by (simp add: stages_ended_def)

lemma run_start_mode:
  assumes "run_stage ops c name (own s) continue st = (r, out)" and "start_of c = Some s"
    and "reached done st" and "prefix (done @ [s]) normal_order"
    and "\<And>st1. continue st1 = (r, out) \<Longrightarrow> reached (done @ [s]) st1 \<Longrightarrow>
      prefix (su_history st) (su_history st1) \<Longrightarrow> stages_ended ops r out"
  shows "stages_ended ops r out"
proof (cases "op_call ops c (su_history st) = APP_ERROR_NONE")
  case True
  then show ?thesis
    using assms(1,5) started_call(1) [OF assms(3,2)]
    by (simp add: run_stage_def call_def Let_def) (simp add: startup_simps)
next
  case False
  have "prefix done normal_order" using assms(4) by (meson append_prefixD)
  with False show ?thesis
    using assms(1) started_call(2) [OF assms(3,2)]
    by (auto simp: run_stage_def call_def Let_def intro: stages_ended_failed)
qed

lemma mode_ends:
  assumes "(if provisioned settings then start_normal_mode ops settings st
      else start_setup_mode ops settings st) = (r, out)"
    and "reached [Stage_Nvs, Stage_Settings, Stage_Storage] st"
    and "prefix h (su_history st)" and "op_settings_read ops h = (APP_ERROR_NONE, settings)"
  shows "stages_ended ops r out"
proof (cases "provisioned settings")
  case True
  with assms(1) have run: "start_normal_mode ops settings st = (r, out)" by simp
  have "ended normal_order r out" "prefix h (su_history out)"
    using normal_ends [OF run assms(2)] growsD [OF grows_normal run] assms(3)
    by (auto intro: prefix_order.trans)
  with True assms(4) show ?thesis
    by (auto simp: stages_ended_def ended_def split: if_splits)
next
  case False
  with assms(1) have run: "start_setup_mode ops settings st = (r, out)" by simp
  have "ended setup_order r out" "prefix h (su_history out)"
    using setup_ends [OF run assms(2)] growsD [OF grows_setup run] assms(3)
    by (auto intro: prefix_order.trans)
  with False assms(4) show ?thesis
    by (auto simp: stages_ended_def ended_def split: if_splits)
qed

lemma prefix_logged: "prefix h (su_history st) \<Longrightarrow> prefix h (su_history (log_stage n r (log_to e st)))"
  by (simp add: startup_simps)

text \<open>From the settings stage on.\<close>

lemma settings_end:
  assumes "run_stage ops (Start Stage_Settings) ''settings_init'' (own Stage_Settings)
      (\<lambda>st. case op_settings_read ops (su_history st) of
         (result, settings) \<Rightarrow>
           (let st = log_stage ''settings_read'' result (log_to (Did Settings_Read result) st)
            in if result \<noteq> APP_ERROR_NONE then (result, st)
               else run_stage ops (Start Stage_Storage) ''storage_mount'' (own Stage_Storage)
                 (\<lambda>st. if provisioned settings then start_normal_mode ops settings st
                       else start_setup_mode ops settings st) st)) st = (r, out)"
    and st: "reached [Stage_Nvs] st"
  shows "stages_ended ops r out"
proof (rule run_start_mode [OF assms(1) _ st], simp, simp add: normal_order_def)
  fix st1
  assume run: "(case op_settings_read ops (su_history st1) of
         (result, settings) \<Rightarrow>
           (let st = log_stage ''settings_read'' result (log_to (Did Settings_Read result) st1)
            in if result \<noteq> APP_ERROR_NONE then (result, st)
               else run_stage ops (Start Stage_Storage) ''storage_mount'' (own Stage_Storage)
                 (\<lambda>st. if provisioned settings then start_normal_mode ops settings st
                       else start_setup_mode ops settings st) st)) = (r, out)"
    and "reached ([Stage_Nvs] @ [Stage_Settings]) st1"
  then have st1: "reached [Stage_Nvs, Stage_Settings] st1" by simp
  obtain e settings where read: "op_settings_read ops (su_history st1) = (e, settings)" by force
  define st2 where "st2 = log_stage ''settings_read'' e (log_to (Did Settings_Read e) st1)"
  note l = logged_call [OF st1, where c = Settings_Read and r = e and name = "''settings_read''",
      simplified, folded st2_def]
  note run = run [unfolded read prod.case Let_def, folded st2_def]
  show "stages_ended ops r out"
  proof (cases "e = APP_ERROR_NONE")
    case False
    then show ?thesis
      using run l(2) [where order = normal_order] by (auto simp: normal_order_def intro: stages_ended_failed)
  next
    case True
    then have mount: "run_stage ops (Start Stage_Storage) ''storage_mount'' (own Stage_Storage)
        (\<lambda>st. if provisioned settings then start_normal_mode ops settings st
              else start_setup_mode ops settings st) st2 = (r, out)"
      and st2: "reached [Stage_Nvs, Stage_Settings] st2"
      using run l(1) by (simp_all add: st2_def)
    have h: "prefix (su_history st1) (su_history st2)" unfolding st2_def by (rule prefix_logged) simp
    show ?thesis
    proof (rule run_start_mode [OF mount _ st2], simp, simp add: normal_order_def)
      fix st3
      assume "(if provisioned settings then start_normal_mode ops settings st3
          else start_setup_mode ops settings st3) = (r, out)"
        and "reached ([Stage_Nvs, Stage_Settings] @ [Stage_Storage]) st3"
        and "prefix (su_history st2) (su_history st3)"
      then show "stages_ended ops r out"
        using mode_ends [of settings ops st3 r out "su_history st1"] read True h
        by (auto intro: prefix_order.trans)
    qed
  qed
qed

lemma stages_end:
  assumes run: "start_stages ops \<lparr>su_owned = {}, su_setup_code_published = False, su_history = []\<rparr> = (r, out)"
  shows "stages_ended ops r out"
proof -
  let ?st = "\<lparr>su_owned = {}, su_setup_code_published = False, su_history = []\<rparr>"
  have st: "reached [] ?st" by (simp add: reached_def consistent_def published_in_def)
  obtain b st1 where boot: "call ops (Set_Indicator DEVICE_INDICATOR_BOOTING) ?st = (b, st1)" by force
  note run = run [unfolded start_stages_def boot prod.case]
  show ?thesis
  proof (cases "b = APP_ERROR_NONE")
    case False
    then have "ended normal_order r out"
      using run boot by (auto simp: ended_def consistent_def first_error_def startup_simps published_in_def
          intro!: exI [of _ "[]"])
    then show ?thesis using False run by (auto intro: stages_ended_failed)
  next
    case True
    then have st1: "reached [] st1"
      using boot by (auto simp: reached_def consistent_def startup_simps published_in_def)
    define n where "n = app_core_map_nvs_result (op_nvs_init ops (su_history st1))"
    define st2 where "st2 = log_stage ''nvs'' n (log_to (Did (Start Stage_Nvs) n) st1)"
    note nvs = started_call [OF st1, where c = "Start Stage_Nvs" and r = n and name = "''nvs''",
        folded st2_def, simplified]
    note run = run [unfolded Let_def, folded n_def, folded st2_def]
    show ?thesis
    proof (cases "n = APP_ERROR_NONE")
      case False
      then show ?thesis
        using run True nvs(2) [where order = normal_order] by (auto intro: stages_ended_failed)
    next
      case ok: True
      have st2: "reached [Stage_Nvs] (own Stage_Nvs st2)" using nvs(1) ok by simp
      show ?thesis
        by (rule settings_end [OF _ st2], use run True ok in \<open>simp add: Let_def\<close>)
    qed
  qed
qed

end
