(* ===== verification/Startup_Rollback.thy ===== *)
theory Startup_Rollback
  imports Startup_Order
begin

text \<open>
  The clean-up of a failed startup: which stages it tears down and in which order, and the
  properties of the whole sequence.
\<close>

definition teardown_order :: "stage list" where
  "teardown_order = [Stage_Http, Stage_Wifi, Stage_Controls, Stage_Executor, Stage_Usb, Stage_Auth,
     Stage_Storage, Stage_Settings, Stage_Nvs]"

text \<open>
  \<open>tears ss f\<close>: \<open>f\<close> tears down, in the order \<open>ss\<close>, those of its stages that are owned or say
  that they own resources, and does nothing else.
\<close>

fun teardown_event :: "app_event \<Rightarrow> bool" where
  "teardown_event (Did (Stop s) r) \<longleftrightarrow> True"
| "teardown_event (Did c r) \<longleftrightarrow> False"
| "teardown_event (Asked s b) \<longleftrightarrow> True"

definition tears :: "stage list \<Rightarrow> (operation_result \<times> startup \<Rightarrow> operation_result \<times> startup) \<Rightarrow> bool" where
  "tears ss f \<longleftrightarrow>
     (\<forall>result st. \<exists>ev result' st'. f (result, st) = (result', st') \<and>
        su_history st' = su_history st @ ev \<and> list_all teardown_event ev \<and>
        (\<forall>t b. Asked t b \<in> set ev \<longrightarrow> t \<in> set ss) \<and>
        stopped_stages ev = filter (\<lambda>s. s \<in> su_owned st \<or> Asked s True \<in> set ev) ss \<and>
        su_owned st' - set ss = su_owned st - set ss \<and>
        or_primary_error result' = or_primary_error result)"

lemma record_cleanup_primary [simp]:
  "or_primary_error (app_operation_record_cleanup r e) = or_primary_error r"
  by (simp add: app_operation_record_cleanup_def)

lemma tears_owned: "tears [s] (teardown_owned ops s)"
  unfolding tears_def teardown_owned_def teardown_stage_def
  by (auto simp: call_def Let_def log_to_def split: if_splits)

lemma tears_asked: "tears [s] (teardown_or_asked ops s)"
  unfolding tears_def teardown_or_asked_def teardown_stage_def
  by (auto simp: call_def owns_resources_def Let_def log_to_def split: if_splits)

lemma tears_comp:
  assumes "tears ss f" and "tears ts g" and "set ss \<inter> set ts = {}"
  shows "tears (ss @ ts) (\<lambda>p. g (f p))"
  unfolding tears_def
proof (intro allI)
  fix result st
  obtain e1 r1 s1 where f: "f (result, st) = (r1, s1)" "su_history s1 = su_history st @ e1"
    "list_all teardown_event e1" "\<forall>t b. Asked t b \<in> set e1 \<longrightarrow> t \<in> set ss"
    "stopped_stages e1 = filter (\<lambda>s. s \<in> su_owned st \<or> Asked s True \<in> set e1) ss"
    "su_owned s1 - set ss = su_owned st - set ss" "or_primary_error r1 = or_primary_error result"
    using assms(1) unfolding tears_def by meson
  obtain e2 r2 s2 where g: "g (r1, s1) = (r2, s2)" "su_history s2 = su_history s1 @ e2"
    "list_all teardown_event e2" "\<forall>t b. Asked t b \<in> set e2 \<longrightarrow> t \<in> set ts"
    "stopped_stages e2 = filter (\<lambda>s. s \<in> su_owned s1 \<or> Asked s True \<in> set e2) ts"
    "su_owned s2 - set ts = su_owned s1 - set ts" "or_primary_error r2 = or_primary_error r1"
    using assms(2) unfolding tears_def by meson
  have "stopped_stages (e1 @ e2) =
      filter (\<lambda>s. s \<in> su_owned st \<or> Asked s True \<in> set (e1 @ e2)) (ss @ ts)"
    using f g assms(3) by (auto intro!: arg_cong2 [where f = append] filter_cong)
  moreover have "su_owned s2 - set (ss @ ts) = su_owned st - set (ss @ ts)"
    using f(6) g(6) by auto
  ultimately show "\<exists>ev result' st'. g (f (result, st)) = (result', st') \<and>
      su_history st' = su_history st @ ev \<and> list_all teardown_event ev \<and>
      (\<forall>t b. Asked t b \<in> set ev \<longrightarrow> t \<in> set (ss @ ts)) \<and>
      stopped_stages ev = filter (\<lambda>s. s \<in> su_owned st \<or> Asked s True \<in> set ev) (ss @ ts) \<and>
      su_owned st' - set (ss @ ts) = su_owned st - set (ss @ ts) \<and>
      or_primary_error result' = or_primary_error result"
    using f g by (intro exI [of _ "e1 @ e2"]) auto
qed

lemma tears_all:
  "tears teardown_order
     (\<lambda>p. teardown_owned ops Stage_Nvs (teardown_owned ops Stage_Settings
       (teardown_or_asked ops Stage_Storage (teardown_owned ops Stage_Auth
         (teardown_owned ops Stage_Usb (teardown_owned ops Stage_Executor
           (teardown_owned ops Stage_Controls (teardown_or_asked ops Stage_Wifi
             (teardown_or_asked ops Stage_Http p)))))))))"
proof -
  note t = tears_asked [of Stage_Http ops]
  note t = tears_comp [OF t tears_asked [of Stage_Wifi ops], simplified]
  note t = tears_comp [OF t tears_owned [of Stage_Controls ops], simplified]
  note t = tears_comp [OF t tears_owned [of Stage_Executor ops], simplified]
  note t = tears_comp [OF t tears_owned [of Stage_Usb ops], simplified]
  note t = tears_comp [OF t tears_owned [of Stage_Auth ops], simplified]
  note t = tears_comp [OF t tears_asked [of Stage_Storage ops], simplified]
  note t = tears_comp [OF t tears_owned [of Stage_Settings ops], simplified]
  note t = tears_comp [OF t tears_owned [of Stage_Nvs ops], simplified]
  show ?thesis using t by (simp add: teardown_order_def)
qed

text \<open>The whole clean-up, in terms of the events it appends.\<close>

lemma finish_failure_spec:
  assumes "finish_failure ops e st = (r, out)"
  shows "\<exists>pre ev post ind.
    su_history out = su_history st @ pre @ ev @ Did (Set_Indicator DEVICE_INDICATOR_FATAL) ind # post \<and>
    pre = (if su_setup_code_published st then [Did Setup_Code_Clear APP_ERROR_NONE] else []) \<and>
    list_all teardown_event ev \<and>
    stopped_stages ev = filter (\<lambda>s. s \<in> su_owned st \<or> Asked s True \<in> set ev) teardown_order \<and>
    (e \<noteq> APP_ERROR_NONE \<longrightarrow> r = e) \<and>
    (\<exists>l. post = [] \<or> post = [Did (Log l) APP_ERROR_NONE] \<and> lg_setup_code l = None)"
proof -
  let ?clear = "if su_setup_code_published st
    then (notify Setup_Code_Clear st)\<lparr>su_setup_code_published := False\<rparr> else st"
  let ?pre = "if su_setup_code_published st then [Did Setup_Code_Clear APP_ERROR_NONE] else []"
  define r0 where "r0 = app_operation_record_primary app_operation_success e"
  have clear: "su_history ?clear = su_history st @ ?pre" "su_owned ?clear = su_owned st"
    by (simp_all add: notify_def log_to_def)
  have "\<exists>ev r1 s1. teardown_owned ops Stage_Nvs (teardown_owned ops Stage_Settings
       (teardown_or_asked ops Stage_Storage (teardown_owned ops Stage_Auth
         (teardown_owned ops Stage_Usb (teardown_owned ops Stage_Executor
           (teardown_owned ops Stage_Controls (teardown_or_asked ops Stage_Wifi
             (teardown_or_asked ops Stage_Http (r0, ?clear))))))))) = (r1, s1) \<and>
      su_history s1 = su_history ?clear @ ev \<and> list_all teardown_event ev \<and>
      stopped_stages ev = filter (\<lambda>s. s \<in> su_owned ?clear \<or> Asked s True \<in> set ev) teardown_order \<and>
      or_primary_error r1 = or_primary_error r0"
    using tears_all [of ops] unfolding tears_def by meson
  then obtain ev r1 s1 where down: "teardown_owned ops Stage_Nvs (teardown_owned ops Stage_Settings
       (teardown_or_asked ops Stage_Storage (teardown_owned ops Stage_Auth
         (teardown_owned ops Stage_Usb (teardown_owned ops Stage_Executor
           (teardown_owned ops Stage_Controls (teardown_or_asked ops Stage_Wifi
             (teardown_or_asked ops Stage_Http (r0, ?clear))))))))) = (r1, s1)"
    "su_history s1 = su_history st @ ?pre @ ev" "list_all teardown_event ev"
    "stopped_stages ev = filter (\<lambda>s. s \<in> su_owned st \<or> Asked s True \<in> set ev) teardown_order"
    "or_primary_error r1 = or_primary_error r0"
    by (auto simp: clear)
  define ind where "ind = op_call ops (Set_Indicator DEVICE_INDICATOR_FATAL) (su_history s1)"
  have clean: "cleanup_after_failure ops e st =
      (app_operation_record_cleanup r1 ind, log_to (Did (Set_Indicator DEVICE_INDICATOR_FATAL) ind) s1)"
    unfolding cleanup_after_failure_def Let_def r0_def [symmetric] down(1)
    by (simp add: call_def ind_def Let_def)
  have "r = or_primary_error r0" and "su_history out = su_history s1 @
      Did (Set_Indicator DEVICE_INDICATOR_FATAL) ind # drop (Suc (length (su_history s1))) (su_history out)"
    and "\<exists>l. drop (Suc (length (su_history s1))) (su_history out) = [] \<or>
      drop (Suc (length (su_history s1))) (su_history out) = [Did (Log l) APP_ERROR_NONE] \<and>
      lg_setup_code l = None"
    using assms by (auto simp: finish_failure_def clean down(5) log_simple_def notify_def log_to_def)
  moreover have "e \<noteq> APP_ERROR_NONE \<longrightarrow> or_primary_error r0 = e"
    by (simp add: r0_def app_operation_record_primary_def app_operation_success_def)
  ultimately show ?thesis
    using down(2-4) by (intro exI [of _ ?pre] exI [of _ ev]
        exI [of _ "drop (Suc (length (su_history s1))) (su_history out)"] exI [of _ ind]) auto
qed

section \<open>The whole sequence\<close>

lemma teardown_events:
  assumes "list_all teardown_event ev"
  shows "started_stages ev = []" and "\<not> published_in ev" and "Did (Log l) a \<notin> set ev"
    and "Did Secure_Zero a \<notin> set ev"
proof -
  show "started_stages ev = []" using assms
  proof (induction ev)
    case (Cons e ev)
    then show ?case by (cases e; cases "case e of Did c r \<Rightarrow> c") auto
  qed simp
qed (use assms in \<open>auto simp: published_in_def list_all_iff\<close>)

lemma stage_events:
  assumes "list_all stage_event h"
  shows "Did (Log l) a \<in> set h \<Longrightarrow> lg_setup_code l = None" and "Asked s b \<notin> set h"
  using assms by (auto simp: list_all_iff)

definition no_code_logged :: "history \<Rightarrow> bool" where
  "no_code_logged h \<longleftrightarrow> (\<forall>l a. Did (Log l) a \<in> set h \<longrightarrow> lg_setup_code l = None)"

definition rolled_back :: "app_error \<Rightarrow> history \<Rightarrow> bool" where
  "rolled_back r h \<longleftrightarrow>
     stopped_stages h = filter (\<lambda>s. s \<in> set (started_stages h) \<or> Asked s True \<in> set h) teardown_order \<and>
     (\<exists>order \<in> {normal_order, setup_order}. prefix (started_stages h) order) \<and> first_error r h \<and>
     (\<exists>up down. h = up @ Did Secure_Zero APP_ERROR_NONE # down \<and> started_stages down = [] \<and>
        stopped_stages up = []) \<and>
     (published_in h \<longrightarrow> Did Setup_Code_Clear APP_ERROR_NONE \<in> set h) \<and>
     (\<exists>ind. Did (Set_Indicator DEVICE_INDICATOR_FATAL) ind \<in> set h)"

lemma first_error_append: "first_error r h \<Longrightarrow> first_error r (h @ h')"
  unfolding first_error_def by (metis append.assoc append_Cons)

text \<open>A failure after the stages: \<open>mid\<close> is what happened between the stages and the clean-up.\<close>

lemma failure_rolled_back:
  assumes st: "consistent st" and order: "prefix (started_stages (su_history st)) order"
    "order \<in> {normal_order, setup_order}"
    and mid: "mid = Did Secure_Zero APP_ERROR_NONE # after"
    "started_stages mid = []" "stopped_stages mid = []" "\<And>s b. Asked s b \<notin> set mid"
    "\<not> published_in mid" "no_code_logged mid"
    and err: "first_error r (su_history st @ mid)" "r \<noteq> APP_ERROR_NONE"
    and fin: "finish_failure ops r (st\<lparr>su_history := su_history st @ mid\<rparr>) = (r', out)"
  shows "r' = r \<and> rolled_back r (su_history out) \<and> no_code_logged (su_history out)"
proof -
  let ?h = "su_history st"
  have ev0: "list_all stage_event ?h" and own: "su_owned st = set (started_stages ?h)"
    and pub: "su_setup_code_published st = published_in ?h"
    using st by (auto simp: consistent_def)
  obtain pre ev post ind l where h: "su_history out =
      ?h @ mid @ pre @ ev @ Did (Set_Indicator DEVICE_INDICATOR_FATAL) ind # post"
    and pre: "pre = (if published_in ?h then [Did Setup_Code_Clear APP_ERROR_NONE] else [])"
    and ev: "list_all teardown_event ev"
    and stop: "stopped_stages ev = filter (\<lambda>s. s \<in> su_owned st \<or> Asked s True \<in> set ev) teardown_order"
    and r: "r' = r" and post: "post = [] \<or> post = [Did (Log l) APP_ERROR_NONE] \<and> lg_setup_code l = None"
    using finish_failure_spec [OF fin] err(2) pub by auto
  note t = teardown_events [OF ev] and s = stage_events [OF ev0]
  have rest: "started_stages (pre @ ev @ Did (Set_Indicator DEVICE_INDICATOR_FATAL) ind # post) = []"
    "stopped_stages pre = []" "stopped_stages post = []" "\<not> published_in pre" "\<not> published_in post"
    "\<And>s b. Asked s b \<notin> set pre \<union> set post"
    using post t(1) by (auto simp: pre published_in_def)
  have starts: "started_stages (su_history out) = started_stages ?h"
    using rest(1) mid(2) by (simp add: h)
  have asked: "Asked s True \<in> set (su_history out) \<longleftrightarrow> Asked s True \<in> set ev" for s
    using rest(6) mid(4) s(2) by (auto simp: h)
  have "stopped_stages (su_history out) = stopped_stages ev"
    using rest stage_event_not_stopped [OF ev0] mid(3) by (simp add: h)
  then have stops: "stopped_stages (su_history out) =
      filter (\<lambda>s. s \<in> set (started_stages (su_history out)) \<or> Asked s True \<in> set (su_history out)) teardown_order"
    by (simp add: stop own starts asked)
  have "published_in (su_history out) \<longleftrightarrow> published_in ?h"
    using rest(4,5) mid(5) t(2) by (auto simp: h published_in_def)
  moreover have "\<exists>up down. su_history out = up @ Did Secure_Zero APP_ERROR_NONE # down \<and>
      started_stages down = [] \<and> stopped_stages up = []"
    using mid(1,2) rest(1) stage_event_not_stopped [OF ev0]
    by (intro exI [of _ ?h] exI [of _ "after @ pre @ ev @ Did (Set_Indicator DEVICE_INDICATOR_FATAL) ind # post"])
       (simp add: h)
  moreover have "first_error r (su_history out)"
    using first_error_append [OF err(1)] by (simp add: h)
  ultimately have "rolled_back r (su_history out)"
    unfolding rolled_back_def using order starts stops by (auto simp: h pre)
  moreover have "no_code_logged (su_history out)"
    using mid(6) s(1) t(3) post by (auto simp: no_code_logged_def h pre)
  ultimately show ?thesis using r by simp
qed

definition all_started :: "app_core_ops \<Rightarrow> history \<Rightarrow> bool" where
  "all_started ops h \<longleftrightarrow>
     (\<exists>h0 settings. prefix h0 h \<and> op_settings_read ops h0 = (APP_ERROR_NONE, settings) \<and>
        started_stages h = (if provisioned settings then normal_order else setup_order)) \<and>
     stopped_stages h = [] \<and> list_all quiet_event h \<and>
     (\<exists>up. h = up @ [Did Secure_Zero APP_ERROR_NONE,
                     Did (Set_Indicator DEVICE_INDICATOR_READY) APP_ERROR_NONE])"

lemma ended_failed: "ended order r st \<Longrightarrow> r \<noteq> APP_ERROR_NONE \<Longrightarrow> consistent st \<and>
    prefix (started_stages (su_history st)) order \<and> first_error r (su_history st)"
  by (simp add: ended_def)

lemma reached_facts: "reached done st \<Longrightarrow> consistent st \<and> started_stages (su_history st) = done \<and>
    list_all quiet_event (su_history st) \<and> stopped_stages (su_history st) = [] \<and>
    no_code_logged (su_history st)"
  using stage_event_not_stopped stage_events(1)
  by (auto simp: reached_def consistent_def no_code_logged_def)

text \<open>
  C21: Startup is all or nothing.  When it succeeds, every stage of the mode that the stored
  settings call for was started, in the fixed order, none was torn down, and the secrets were
  cleared before the device shows that it is ready.  When it fails, it returns the first error,
  and exactly the stages that had started (and those of the network and the storage that say
  they still own resources) are torn down in the fixed reverse order, after the secrets were
  cleared, with a published setup code withdrawn and the indicator set to fatal.  In both cases
  no log line carries the setup code.
\<close>
theorem startup_all_or_nothing:
  assumes "app_core_sequence_start (Some ops) = (r, out)"
  shows "no_code_logged (su_history out) \<and>
    (if r = APP_ERROR_NONE then all_started ops (su_history out) else rolled_back r (su_history out))"
proof -
  obtain r0 st where stages: "start_stages ops
      \<lparr>su_owned = {}, su_setup_code_published = False, su_history = []\<rparr> = (r0, st)" by force
  note e = stages_end [OF stages]
  show ?thesis
  proof (cases "r0 = APP_ERROR_NONE")
    case False
    then obtain order where o: "order \<in> {normal_order, setup_order}" "ended order r0 st"
      using e by (auto simp: stages_ended_def)
    have "finish_failure ops r0 (st\<lparr>su_history := su_history st @ [Did Secure_Zero APP_ERROR_NONE]\<rparr>) = (r, out)"
      using assms False by (simp add: app_core_sequence_start_def stages fail_with_secrets_def notify_def log_to_def)
    then have "r = r0 \<and> rolled_back r0 (su_history out) \<and> no_code_logged (su_history out)"
      by (rule failure_rolled_back [rotated -1]) (use ended_failed [OF o(2) False] o(1) False first_error_append in
        \<open>auto simp: published_in_def no_code_logged_def\<close>)
    with False show ?thesis by simp
  next
    case True
    then obtain h settings where h: "prefix h (su_history st)" "op_settings_read ops h = (APP_ERROR_NONE, settings)"
      and all: "reached (if provisioned settings then normal_order else setup_order) st"
      using e by (auto simp: stages_ended_def)
    note facts = reached_facts [OF all]
    define i where "i = op_call ops (Set_Indicator DEVICE_INDICATOR_READY) (su_history st @ [Did Secure_Zero APP_ERROR_NONE])"
    let ?mid = "[Did Secure_Zero APP_ERROR_NONE, Did (Set_Indicator DEVICE_INDICATOR_READY) i]"
    have run: "(if i \<noteq> APP_ERROR_NONE then finish_failure ops i (st\<lparr>su_history := su_history st @ ?mid\<rparr>)
        else (APP_ERROR_NONE, st\<lparr>su_history := su_history st @ ?mid\<rparr>)) = (r, out)"
      using assms True by (auto simp: app_core_sequence_start_def stages call_def notify_def log_to_def i_def Let_def
          split: if_splits)
    show ?thesis
    proof (cases "i = APP_ERROR_NONE")
      case True
      then have out: "r = APP_ERROR_NONE" "su_history out = su_history st @ ?mid"
        using run by auto
      have "\<exists>h0 settings. prefix h0 (su_history out) \<and> op_settings_read ops h0 = (APP_ERROR_NONE, settings) \<and>
          started_stages (su_history out) = (if provisioned settings then normal_order else setup_order)"
        using h facts by (intro exI [of _ h] exI [of _ settings]) (simp add: out prefix_prefix)
      then have "all_started ops (su_history out)"
        unfolding all_started_def using facts True by (simp add: out)
      then show ?thesis
        using facts out by (simp add: no_code_logged_def)
    next
      case False
      have "first_error i (su_history st @ ?mid)"
        using facts by (auto simp: first_error_def
          intro!: exI [of _ "su_history st @ [Did Secure_Zero APP_ERROR_NONE]"])
      with False have "r = i \<and> rolled_back i (su_history out) \<and> no_code_logged (su_history out)"
        by (intro failure_rolled_back [where mid = ?mid and st = st and ops = ops and
              order = "if provisioned settings then normal_order else setup_order"])
          (use run facts in \<open>auto simp: published_in_def no_code_logged_def\<close>)
      with False show ?thesis by simp
    qed
  qed
qed

text \<open>A device whose USB stack does not come up.\<close>

definition sample_ops :: app_core_ops where
  "sample_ops =
     \<lparr>op_nvs_init = (\<lambda>h. APP_CORE_NVS_OK),
      op_call = (\<lambda>c h. if c = Start Stage_Usb then APP_ERROR_USB_NOT_READY else APP_ERROR_NONE),
      op_settings_read = (\<lambda>h. (APP_ERROR_NONE, zero_settings\<lparr>provisioned := True\<rparr>)),
      op_bootstrap_derive = (\<lambda>h. (APP_ERROR_INTERNAL, \<lparr>pb_device_id = [], pb_ap_ssid = [], pb_ap_passphrase = []\<rparr>)),
      op_setup_code_generate = (\<lambda>h. (APP_ERROR_INTERNAL, [])),
      op_owns_resources = (\<lambda>s h. False)\<rparr>"

lemma sample_startup: "fst (app_core_sequence_start (Some sample_ops)) = APP_ERROR_USB_NOT_READY"
proof -
  obtain st where "start_stages sample_ops
      \<lparr>su_owned = {}, su_setup_code_published = False, su_history = []\<rparr> = (APP_ERROR_USB_NOT_READY, st)"
    by (simp add: start_stages_def start_normal_mode_def run_stage_def call_def sample_ops_def Let_def
        zero_settings_def)
  then show ?thesis
    using finish_failure_spec [of sample_ops APP_ERROR_USB_NOT_READY "notify Secure_Zero st"]
    by (cases "finish_failure sample_ops APP_ERROR_USB_NOT_READY (notify Secure_Zero st)")
       (auto simp: app_core_sequence_start_def fail_with_secrets_def)
qed

lemma startup_all_or_nothing_witness:
  "rolled_back APP_ERROR_USB_NOT_READY (su_history (snd (app_core_sequence_start (Some sample_ops))))"
  using startup_all_or_nothing [of sample_ops "fst (app_core_sequence_start (Some sample_ops))"
    "snd (app_core_sequence_start (Some sample_ops))"] sample_startup by (metis app_error.distinct(17) prod.collapse)

end
