(* ===== verification/Factory_Reset.thy ===== *)
theory Factory_Reset
  imports Settings_Nvs
begin

text \<open>
  Factory reset: the durable PENDING marker (\<open>factory_reset_state/\<close>), the reset itself
  (\<open>device_controls/device_controls_reset.c\<close>) and its recovery at boot
  (\<open>factory_reset_recovery/factory_reset_recovery_engine.c\<close>).

  The tables of operations are records of functions on a state \<open>'w\<close>; a null table is \<open>None\<close>.
  The NVS calls of the marker are a table too.
\<close>

section \<open>The marker\<close>

datatype reset_state = FACTORY_RESET_STATE_NONE | FACTORY_RESET_STATE_PENDING

definition reset_state_value :: "reset_state \<Rightarrow> u8" where
  "reset_state_value s = (case s of FACTORY_RESET_STATE_NONE \<Rightarrow> 0 | FACTORY_RESET_STATE_PENDING \<Rightarrow> 1)"

record 'w reset_state_ops =
  rs_read_value :: "'w \<Rightarrow> app_error \<times> u8 \<times> 'w"
  rs_write_value :: "u8 \<Rightarrow> 'w \<Rightarrow> app_error \<times> 'w"
  rs_erase_value :: "'w \<Rightarrow> app_error \<times> 'w"

definition factory_reset_state_core_read ::
    "'w reset_state_ops option \<Rightarrow> 'w \<Rightarrow> app_error \<times> reset_state \<times> 'w" where
  "factory_reset_state_core_read operations w =
     (case operations of
        None \<Rightarrow> (APP_ERROR_INVALID_ARGUMENT, FACTORY_RESET_STATE_NONE, w)
      | Some ops \<Rightarrow>
          (case rs_read_value ops w of
             (result, stored, w) \<Rightarrow>
               if result = APP_ERROR_NOT_FOUND then (APP_ERROR_NONE, FACTORY_RESET_STATE_NONE, w)
               else if result \<noteq> APP_ERROR_NONE then (result, FACTORY_RESET_STATE_NONE, w)
               else if stored \<noteq> reset_state_value FACTORY_RESET_STATE_PENDING
               then (APP_ERROR_STORAGE_CORRUPT, FACTORY_RESET_STATE_NONE, w)
               else (APP_ERROR_NONE, FACTORY_RESET_STATE_PENDING, w)))"

definition factory_reset_state_core_mark_pending ::
    "'w reset_state_ops option \<Rightarrow> 'w \<Rightarrow> app_error \<times> 'w" where
  "factory_reset_state_core_mark_pending operations w =
     (case operations of
        None \<Rightarrow> (APP_ERROR_INVALID_ARGUMENT, w)
      | Some ops \<Rightarrow> rs_write_value ops (reset_state_value FACTORY_RESET_STATE_PENDING) w)"

definition factory_reset_state_core_clear :: "'w reset_state_ops option \<Rightarrow> 'w \<Rightarrow> app_error \<times> 'w" where
  "factory_reset_state_core_clear operations w =
     (case operations of
        None \<Rightarrow> (APP_ERROR_INVALID_ARGUMENT, w)
      | Some ops \<Rightarrow>
          (case rs_erase_value ops w of
             (result, w) \<Rightarrow> (if result = APP_ERROR_NOT_FOUND then APP_ERROR_NONE else result, w)))"

text \<open>The adapter on NVS: every operation opens the namespace for itself and closes it.\<close>

datatype nvs_mode = NVS_READONLY | NVS_READWRITE

record 'w nvs_u8_ops =
  u8_open :: "nvs_mode \<Rightarrow> 'w \<Rightarrow> esp_err \<times> nat \<times> 'w"
  u8_get :: "nat \<Rightarrow> 'w \<Rightarrow> esp_err \<times> u8 \<times> 'w"
  u8_set :: "nat \<Rightarrow> u8 \<Rightarrow> 'w \<Rightarrow> esp_err \<times> 'w"
  u8_erase_key :: "nat \<Rightarrow> 'w \<Rightarrow> esp_err \<times> 'w"
  u8_commit :: "nat \<Rightarrow> 'w \<Rightarrow> esp_err \<times> 'w"
  u8_close :: "nat \<Rightarrow> 'w \<Rightarrow> 'w"

definition open_reset_state :: "'w nvs_u8_ops \<Rightarrow> nvs_mode \<Rightarrow> 'w \<Rightarrow> app_error \<times> nat \<times> 'w" where
  "open_reset_state ops mode w =
     (case u8_open ops mode w of (e, handle, w) \<Rightarrow> (map_nvs_error e, handle, w))"

definition adapter_read_value :: "'w nvs_u8_ops \<Rightarrow> nat \<Rightarrow> 'w \<Rightarrow> app_error \<times> u8 \<times> 'w" where
  "adapter_read_value ops handle w =
     (case u8_get ops handle w of (e, v, w) \<Rightarrow> (map_nvs_error e, v, w))"

definition adapter_write_value :: "'w nvs_u8_ops \<Rightarrow> nat \<Rightarrow> u8 \<Rightarrow> 'w \<Rightarrow> app_error \<times> 'w" where
  "adapter_write_value ops handle v w =
     (case u8_set ops handle v w of
        (e, w) \<Rightarrow>
          if map_nvs_error e = APP_ERROR_NONE
          then (case u8_commit ops handle w of (e, w) \<Rightarrow> (map_nvs_error e, w))
          else (map_nvs_error e, w))"

definition adapter_erase_value :: "'w nvs_u8_ops \<Rightarrow> nat \<Rightarrow> 'w \<Rightarrow> app_error \<times> 'w" where
  "adapter_erase_value ops handle w =
     (case u8_erase_key ops handle w of
        (e, w) \<Rightarrow>
          if map_nvs_error e = APP_ERROR_NOT_FOUND then (APP_ERROR_NONE, w)
          else if map_nvs_error e = APP_ERROR_NONE
          then (case u8_commit ops handle w of (e, w) \<Rightarrow> (map_nvs_error e, w))
          else (map_nvs_error e, w))"

definition reset_state_operations :: "'w nvs_u8_ops \<Rightarrow> nat \<Rightarrow> 'w reset_state_ops" where
  "reset_state_operations ops handle =
     \<lparr>rs_read_value = adapter_read_value ops handle, rs_write_value = adapter_write_value ops handle,
      rs_erase_value = adapter_erase_value ops handle\<rparr>"

definition factory_reset_state_read :: "'w nvs_u8_ops \<Rightarrow> 'w \<Rightarrow> app_error \<times> reset_state \<times> 'w" where
  "factory_reset_state_read ops w =
     (case open_reset_state ops NVS_READONLY w of
        (result, handle, w) \<Rightarrow>
          if result = APP_ERROR_NOT_FOUND then (APP_ERROR_NONE, FACTORY_RESET_STATE_NONE, w)
          else if result \<noteq> APP_ERROR_NONE then (result, FACTORY_RESET_STATE_NONE, w)
          else (case factory_reset_state_core_read (Some (reset_state_operations ops handle)) w of
            (result, state, w) \<Rightarrow> (result, state, u8_close ops handle w)))"

definition factory_reset_state_mark_pending :: "'w nvs_u8_ops \<Rightarrow> 'w \<Rightarrow> app_error \<times> 'w" where
  "factory_reset_state_mark_pending ops w =
     (case open_reset_state ops NVS_READWRITE w of
        (result, handle, w) \<Rightarrow>
          if result \<noteq> APP_ERROR_NONE then (result, w)
          else (case factory_reset_state_core_mark_pending (Some (reset_state_operations ops handle)) w of
            (result, w) \<Rightarrow> (result, u8_close ops handle w)))"

definition factory_reset_state_clear :: "'w nvs_u8_ops \<Rightarrow> 'w \<Rightarrow> app_error \<times> 'w" where
  "factory_reset_state_clear ops w =
     (case open_reset_state ops NVS_READWRITE w of
        (result, handle, w) \<Rightarrow>
          if result \<noteq> APP_ERROR_NONE then (result, w)
          else (case factory_reset_state_core_clear (Some (reset_state_operations ops handle)) w of
            (result, w) \<Rightarrow> (result, u8_close ops handle w)))"

section \<open>Device actions\<close>

record 'w reset_ops =
  ro_reset_settings_noncredential :: "'w \<Rightarrow> app_error \<times> 'w"
  ro_mark_factory_reset_pending :: "'w \<Rightarrow> app_error \<times> 'w"
  ro_erase_all_settings :: "'w \<Rightarrow> app_error \<times> 'w"
  ro_invalidate_all_sessions :: "'w \<Rightarrow> app_error \<times> 'w"
  ro_delete_all_blobs :: "'w \<Rightarrow> app_error \<times> 'w"
  ro_cleanup_temporary_files :: "'w \<Rightarrow> app_error \<times> 'w"
  ro_clear_factory_reset_pending :: "'w \<Rightarrow> app_error \<times> 'w"
  ro_schedule_restart :: "u32 \<Rightarrow> 'w \<Rightarrow> app_error \<times> 'w"

record reset_settings_outcome =
  so_settings_applied :: bool
  so_sessions_invalidated :: bool
  so_restart_owned :: bool
  so_primary_error :: app_error
  so_restart_error :: app_error

record factory_reset_outcome =
  fo_durably_accepted :: bool
  fo_recovery_required :: bool
  fo_primary_error :: app_error

definition record_first_error :: "app_error \<Rightarrow> app_error \<Rightarrow> app_error" where
  "record_first_error candidate first_error =
     (if candidate \<noteq> APP_ERROR_NONE \<and> first_error = APP_ERROR_NONE then candidate else first_error)"

text \<open>One operation of a table whose error is recorded in \<open>first_error\<close>.\<close>

definition attempt ::
    "('w \<Rightarrow> app_error \<times> 'w) \<Rightarrow> app_error \<times> 'w \<Rightarrow> app_error \<times> 'w" where
  "attempt f p = (case p of (first_error, w) \<Rightarrow>
     case f w of (e, w) \<Rightarrow> (record_first_error e first_error, w))"

definition device_controls_reset_engine_restart ::
    "'w reset_ops option \<Rightarrow> u32 \<Rightarrow> 'w \<Rightarrow> app_error \<times> 'w" where
  "device_controls_reset_engine_restart operations delay_ms w =
     (case operations of
        None \<Rightarrow> (APP_ERROR_INVALID_ARGUMENT, w)
      | Some ops \<Rightarrow> ro_schedule_restart ops delay_ms w)"

definition device_controls_reset_engine_reset_settings ::
    "'w reset_ops option \<Rightarrow> u32 \<Rightarrow> 'w \<Rightarrow> reset_settings_outcome \<times> 'w" where
  "device_controls_reset_engine_reset_settings operations delay_ms w =
     (let failed = (\<lambda>e. \<lparr>so_settings_applied = False, so_sessions_invalidated = False,
            so_restart_owned = False, so_primary_error = e, so_restart_error = APP_ERROR_NONE\<rparr>)
      in case operations of
        None \<Rightarrow> (failed APP_ERROR_INVALID_ARGUMENT, w)
      | Some ops \<Rightarrow>
          (case ro_reset_settings_noncredential ops w of
             (settings_result, w) \<Rightarrow>
               if settings_result \<noteq> APP_ERROR_NONE then (failed settings_result, w)
               else (case ro_invalidate_all_sessions ops w of
                 (session_result, w) \<Rightarrow>
                   (case ro_schedule_restart ops delay_ms w of
                      (restart_result, w) \<Rightarrow>
                        (\<lparr>so_settings_applied = True,
                          so_sessions_invalidated = (session_result = APP_ERROR_NONE),
                          so_restart_owned = (restart_result = APP_ERROR_NONE),
                          so_primary_error = session_result, so_restart_error = restart_result\<rparr>, w)))))"

definition device_controls_reset_engine_factory_reset ::
    "'w reset_ops option \<Rightarrow> u32 \<Rightarrow> 'w \<Rightarrow> factory_reset_outcome \<times> 'w" where
  "device_controls_reset_engine_factory_reset operations delay_ms w =
     (let refused = (\<lambda>e. \<lparr>fo_durably_accepted = False, fo_recovery_required = False,
            fo_primary_error = e\<rparr>)
      in case operations of
        None \<Rightarrow> (refused APP_ERROR_INVALID_ARGUMENT, w)
      | Some ops \<Rightarrow>
          (case ro_mark_factory_reset_pending ops w of
             (marker_result, w) \<Rightarrow>
               if marker_result \<noteq> APP_ERROR_NONE then (refused marker_result, w)
               else let p = attempt (ro_erase_all_settings ops) (APP_ERROR_NONE, w);
                        p = (if fst p = APP_ERROR_NONE
                             then attempt (ro_cleanup_temporary_files ops)
                               (attempt (ro_delete_all_blobs ops)
                                 (attempt (ro_invalidate_all_sessions ops) p))
                             else p);
                        p = attempt (ro_schedule_restart ops delay_ms) p;
                        p = (if fst p = APP_ERROR_NONE
                             then attempt (ro_clear_factory_reset_pending ops) p else p)
                    in (\<lparr>fo_durably_accepted = True, fo_recovery_required = (fst p \<noteq> APP_ERROR_NONE),
                         fo_primary_error = fst p\<rparr>, snd p)))"

section \<open>Recovery at boot\<close>

record 'w recovery_ops =
  re_read_state :: "'w \<Rightarrow> app_error \<times> reset_state \<times> 'w"
  re_settings_init :: "'w \<Rightarrow> app_error \<times> 'w"
  re_erase_settings :: "'w \<Rightarrow> app_error \<times> 'w"
  re_settings_deinit :: "'w \<Rightarrow> app_error \<times> 'w"
  re_storage_mount :: "'w \<Rightarrow> app_error \<times> 'w"
  re_delete_blobs :: "'w \<Rightarrow> app_error \<times> 'w"
  re_cleanup_temporary_files :: "'w \<Rightarrow> app_error \<times> 'w"
  re_storage_unmount :: "'w \<Rightarrow> app_error \<times> 'w"
  re_clear_pending :: "'w \<Rightarrow> app_error \<times> 'w"

definition factory_reset_recovery_engine_run ::
    "'w recovery_ops option \<Rightarrow> 'w \<Rightarrow> app_error \<times> bool \<times> 'w" where
  "factory_reset_recovery_engine_run operations w =
     (case operations of
        None \<Rightarrow> (APP_ERROR_INVALID_ARGUMENT, False, w)
      | Some ops \<Rightarrow>
          (case re_read_state ops w of
             (result, state, w) \<Rightarrow>
               if result \<noteq> APP_ERROR_NONE \<or> state = FACTORY_RESET_STATE_NONE then (result, False, w)
               else (case re_settings_init ops w of
                 (result, w) \<Rightarrow>
                   if result \<noteq> APP_ERROR_NONE then (result, False, w)
                   else (case attempt (re_settings_deinit ops) (re_erase_settings ops w) of
                     (first_error, w) \<Rightarrow>
                       if first_error \<noteq> APP_ERROR_NONE then (first_error, False, w)
                       else (case re_storage_mount ops w of
                         (result, w) \<Rightarrow>
                           if result \<noteq> APP_ERROR_NONE then (result, False, w)
                           else (case attempt (re_storage_unmount ops)
                                   (attempt (re_cleanup_temporary_files ops)
                                     (attempt (re_delete_blobs ops) (APP_ERROR_NONE, w))) of
                             (first_error, w) \<Rightarrow>
                               if first_error \<noteq> APP_ERROR_NONE then (first_error, False, w)
                               else (case re_clear_pending ops w of
                                 (result, w) \<Rightarrow>
                                   if result \<noteq> APP_ERROR_NONE then (result, False, w)
                                   else (APP_ERROR_NONE, True, w))))))))"

end
