(* ===== verification/Reset_Journal.thy ===== *)
theory Reset_Journal
  imports Factory_Reset
begin

text \<open>
  The factory reset journal across power loss, for any table of operations.  What is durable is a
  view of the world: whether the marker is there, what the settings partition holds, and the
  files.  The reset and the recovery are run on a logged table, which collects every view a
  power loss in or between two operations can leave; the locales say what the operations promise
  and prove what all those views have in common.
\<close>

section \<open>Durable views\<close>

record ('s, 'f) reset_view =
  rv_pending :: bool
  rv_settings :: 's
  rv_files :: 'f

text \<open>
  The views a power loss can leave while a call takes the world from \<open>w\<close> to \<open>w'\<close>: the marker
  and the settings are a single entry of the flash each, so they are as before or as after, and
  files are in any state whatever once the call has reached the file system (\<open>fs\<close> is that part
  of the world).
\<close>

definition cut_views :: "('w \<Rightarrow> ('s, 'f) reset_view) \<Rightarrow> ('w \<Rightarrow> 'x) \<Rightarrow> 'w \<Rightarrow> 'w \<Rightarrow> ('s, 'f) reset_view set" where
  "cut_views vw fs w w' =
     {v. rv_pending v \<in> {rv_pending (vw w), rv_pending (vw w')} \<and>
         rv_settings v \<in> {rv_settings (vw w), rv_settings (vw w')} \<and>
         (fs w' = fs w \<longrightarrow> rv_files v = rv_files (vw w))}"

text \<open>A call on the world that logs them.\<close>

definition logged ::
    "('w \<Rightarrow> 'w \<Rightarrow> 'v set) \<Rightarrow> ('w \<Rightarrow> app_error \<times> 'w) \<Rightarrow> 'w \<times> 'v set \<Rightarrow> app_error \<times> 'w \<times> 'v set" where
  "logged cuts f W = (case W of (w, log) \<Rightarrow> case f w of (e, w') \<Rightarrow> (e, w', log \<union> cuts w w'))"

definition logged_reset_ops ::
    "('w \<Rightarrow> 'w \<Rightarrow> 'v set) \<Rightarrow> 'w reset_ops \<Rightarrow> ('w \<times> 'v set) reset_ops" where
  "logged_reset_ops cuts ops =
     \<lparr>ro_reset_settings_noncredential = logged cuts (ro_reset_settings_noncredential ops),
      ro_mark_factory_reset_pending = logged cuts (ro_mark_factory_reset_pending ops),
      ro_erase_all_settings = logged cuts (ro_erase_all_settings ops),
      ro_invalidate_all_sessions = logged cuts (ro_invalidate_all_sessions ops),
      ro_delete_all_blobs = logged cuts (ro_delete_all_blobs ops),
      ro_cleanup_temporary_files = logged cuts (ro_cleanup_temporary_files ops),
      ro_clear_factory_reset_pending = logged cuts (ro_clear_factory_reset_pending ops),
      ro_schedule_restart = (\<lambda>delay. logged cuts (ro_schedule_restart ops delay))\<rparr>"

definition logged_recovery_ops ::
    "('w \<Rightarrow> 'w \<Rightarrow> 'v set) \<Rightarrow> 'w recovery_ops \<Rightarrow> ('w \<times> 'v set) recovery_ops" where
  "logged_recovery_ops cuts ops =
     \<lparr>re_read_state = (\<lambda>(w, log). case re_read_state ops w of (e, state, w') \<Rightarrow> (e, state, w', log \<union> cuts w w')),
      re_settings_init = logged cuts (re_settings_init ops),
      re_erase_settings = logged cuts (re_erase_settings ops),
      re_settings_deinit = logged cuts (re_settings_deinit ops),
      re_storage_mount = logged cuts (re_storage_mount ops),
      re_delete_blobs = logged cuts (re_delete_blobs ops),
      re_cleanup_temporary_files = logged cuts (re_cleanup_temporary_files ops),
      re_storage_unmount = logged cuts (re_storage_unmount ops),
      re_clear_pending = logged cuts (re_clear_pending ops)\<rparr>"

text \<open>Logging does not change what runs.\<close>

lemma logged_eq: "logged cuts f W = (case f (fst W) of (e, w') \<Rightarrow> (e, w', snd W \<union> cuts (fst W) w'))"
  by (simp add: logged_def case_prod_beta)

lemma logged_attempt:
  "attempt (logged cuts f) (e0, W) =
     (fst (attempt f (e0, fst W)), snd (attempt f (e0, fst W)), snd W \<union> cuts (fst W) (snd (attempt f (e0, fst W))))"
  by (simp add: attempt_def logged_def case_prod_beta)

lemma logged_recovery_runs:
  "\<exists>log'. factory_reset_recovery_engine_run (Some (logged_recovery_ops cuts ops)) (w, log) =
     (case factory_reset_recovery_engine_run (Some ops) w of (r, recovered, w') \<Rightarrow> (r, recovered, w', log'))"
  by (simp add: factory_reset_recovery_engine_run_def logged_recovery_ops_def logged_eq attempt_def case_prod_beta)

lemma logged_reset_runs:
  "\<exists>log'. device_controls_reset_engine_factory_reset (Some (logged_reset_ops cuts ops)) delay (w, log) =
     (case device_controls_reset_engine_factory_reset (Some ops) delay w of (out, w') \<Rightarrow> (out, w', log'))"
  by (simp add: device_controls_reset_engine_factory_reset_def logged_reset_ops_def logged_eq attempt_def Let_def
      case_prod_beta)

section \<open>What the operations promise\<close>

text \<open>From a world that is \<open>ok\<close> a call reaches one that is, and \<open>R\<close> relates the two.\<close>

definition call_law ::
    "('w \<Rightarrow> bool) \<Rightarrow> ('w \<Rightarrow> app_error \<Rightarrow> 'w \<Rightarrow> bool) \<Rightarrow> ('w \<Rightarrow> app_error \<times> 'w) \<Rightarrow> bool" where
  "call_law ok R f \<longleftrightarrow> (\<forall>w e w'. ok w \<longrightarrow> f w = (e, w') \<longrightarrow> ok w' \<and> R w e w')"

lemma call_lawD: "call_law ok R f \<Longrightarrow> ok w \<Longrightarrow> f w = (e, w') \<Longrightarrow> ok w' \<and> R w e w'"
  by (simp add: call_law_def)

definition keeps_view :: "('w \<Rightarrow> ('s, 'f) reset_view) \<Rightarrow> ('w \<Rightarrow> 'x) \<Rightarrow> 'w \<Rightarrow> app_error \<Rightarrow> 'w \<Rightarrow> bool" where
  "keeps_view vw fs w e w' \<longleftrightarrow> vw w' = vw w \<and> fs w' = fs w"

definition moves_marker ::
    "('w \<Rightarrow> ('s, 'f) reset_view) \<Rightarrow> ('w \<Rightarrow> 'x) \<Rightarrow> bool \<Rightarrow> 'w \<Rightarrow> app_error \<Rightarrow> 'w \<Rightarrow> bool" where
  "moves_marker vw fs b w e w' \<longleftrightarrow> rv_settings (vw w') = rv_settings (vw w) \<and> fs w' = fs w \<and>
     rv_pending (vw w') \<in> {rv_pending (vw w), b} \<and> (e = APP_ERROR_NONE \<longrightarrow> rv_pending (vw w') = b)"

definition moves_settings ::
    "('w \<Rightarrow> ('s, 'f) reset_view) \<Rightarrow> ('w \<Rightarrow> 'x) \<Rightarrow> ('s \<Rightarrow> bool) \<Rightarrow> 'w \<Rightarrow> app_error \<Rightarrow> 'w \<Rightarrow> bool" where
  "moves_settings vw fs blank w e w' \<longleftrightarrow> rv_pending (vw w') = rv_pending (vw w) \<and> fs w' = fs w \<and>
     (e = APP_ERROR_NONE \<longrightarrow> blank (rv_settings (vw w')))"

definition moves_files ::
    "('w \<Rightarrow> ('s, 'f) reset_view) \<Rightarrow> ('f \<Rightarrow> 'f \<Rightarrow> bool) \<Rightarrow> 'w \<Rightarrow> app_error \<Rightarrow> 'w \<Rightarrow> bool" where
  "moves_files vw Q w e w' \<longleftrightarrow> rv_pending (vw w') = rv_pending (vw w) \<and>
     rv_settings (vw w') = rv_settings (vw w) \<and>
     (e = APP_ERROR_NONE \<longrightarrow> Q (rv_files (vw w)) (rv_files (vw w')))"

lemmas call_laws = keeps_view_def moves_marker_def moves_settings_def moves_files_def

locale journal =
  fixes vw :: "'w \<Rightarrow> ('s, 'f) reset_view" and fs :: "'w \<Rightarrow> 'x" and ok :: "'w \<Rightarrow> bool"
    and no_settings :: "'s \<Rightarrow> bool" and no_blobs no_debris :: "'f \<Rightarrow> bool"
  assumes same_files: "fs w' = fs w \<Longrightarrow> rv_files (vw w') = rv_files (vw w)"
begin

definition erased :: "('s, 'f) reset_view \<Rightarrow> bool" where
  "erased v \<longleftrightarrow> no_settings (rv_settings v) \<and> no_blobs (rv_files v) \<and> no_debris (rv_files v)"

text \<open>
  The journal invariant: without the marker the device is completely erased, or it is as its last
  ordinary use left it and no reset was accepted since (\<open>base\<close>, which is \<open>None\<close> after one).
\<close>

definition journal_inv :: "('s \<times> 'f) option \<Rightarrow> ('s, 'f) reset_view \<Rightarrow> bool" where
  "journal_inv base v \<longleftrightarrow> rv_pending v \<or> base = Some (rv_settings v, rv_files v) \<or> erased v"

abbreviation cuts :: "'w \<Rightarrow> 'w \<Rightarrow> ('s, 'f) reset_view set" where
  "cuts \<equiv> cut_views vw fs"

text \<open>Where a run of the engine is: what is erased so far, and what a power loss can have left.\<close>

definition under :: "('s \<times> 'f) option \<Rightarrow> bool \<Rightarrow> bool \<Rightarrow> bool \<Rightarrow> 'w \<times> ('s, 'f) reset_view set \<Rightarrow> bool" where
  "under base s b d W \<longleftrightarrow> ok (fst W) \<and> rv_pending (vw (fst W)) \<and>
     (s \<longrightarrow> no_settings (rv_settings (vw (fst W)))) \<and> (b \<longrightarrow> no_blobs (rv_files (vw (fst W)))) \<and>
     (d \<longrightarrow> no_debris (rv_files (vw (fst W)))) \<and> (\<forall>v \<in> snd W. journal_inv base v)"

lemma cuts_pending:
  "rv_pending (vw w) \<Longrightarrow> rv_pending (vw w') \<Longrightarrow> v \<in> cuts w w' \<Longrightarrow> journal_inv base v"
  by (auto simp: cut_views_def journal_inv_def)

lemma loggedD:
  assumes "logged cuts f W = (e, W')" and "call_law ok R f" and "ok (fst W)"
  shows "ok (fst W') \<and> R (fst W) e (fst W') \<and> snd W' = snd W \<union> cuts (fst W) (fst W')"
  using assms call_lawD [OF assms(2,3)] by (auto simp: logged_def split: prod.splits)

lemma keep_step:
  assumes "logged cuts f W = (e, W')" and "call_law ok (keeps_view vw fs) f" and "under base s b d W"
  shows "under base s b d W'"
proof -
  have "ok (fst W)" using assms(3) by (simp add: under_def)
  note l = loggedD [OF assms(1,2) this]
  have "v \<in> cuts (fst W) (fst W') \<Longrightarrow> journal_inv base v" for v
    using l assms(3) by (intro cuts_pending) (auto simp: under_def keeps_view_def)
  then show ?thesis using l assms(3) by (auto simp: under_def keeps_view_def)
qed

lemma settings_step:
  assumes "logged cuts f W = (e, W')" and "call_law ok (moves_settings vw fs no_settings) f"
    and "under base False False False W"
  shows "under base (e = APP_ERROR_NONE) False False W'"
proof -
  have "ok (fst W)" using assms(3) by (simp add: under_def)
  note l = loggedD [OF assms(1,2) this]
  have "v \<in> cuts (fst W) (fst W') \<Longrightarrow> journal_inv base v" for v
    using l assms(3) by (intro cuts_pending) (auto simp: under_def moves_settings_def)
  then show ?thesis using l assms(3) by (auto simp: under_def moves_settings_def)
qed

lemma files_step:
  assumes "logged cuts f W = (e, W')" and "call_law ok (moves_files vw Q) f" and "under base s b d W"
  shows "under base s False False W'"
    and "e = APP_ERROR_NONE \<Longrightarrow> Q (rv_files (vw (fst W))) (rv_files (vw (fst W')))"
proof -
  have "ok (fst W)" using assms(3) by (simp add: under_def)
  note l = loggedD [OF assms(1,2) this]
  have "v \<in> cuts (fst W) (fst W') \<Longrightarrow> journal_inv base v" for v
    using l assms(3) by (intro cuts_pending) (auto simp: under_def moves_files_def)
  then show "under base s False False W'"
    using l assms(3) by (auto simp: under_def moves_files_def)
  show "e = APP_ERROR_NONE \<Longrightarrow> Q (rv_files (vw (fst W))) (rv_files (vw (fst W')))"
    using l by (simp add: moves_files_def)
qed

text \<open>The blobs first, then the rest; the second keeps what the first achieved.\<close>

lemma erasure_steps:
  assumes "attempt (logged cuts f_debris) (attempt (logged cuts f_blobs) (e0, W)) = (e1, W')"
    and "call_law ok (moves_files vw (\<lambda>f f'. no_blobs f')) f_blobs"
    and "call_law ok (moves_files vw (\<lambda>f f'. no_debris f' \<and> (no_blobs f \<longrightarrow> no_blobs f'))) f_debris"
    and "under base True False False W"
  shows "under base True (e1 = APP_ERROR_NONE) (e1 = APP_ERROR_NONE) W'"
    and "e1 = APP_ERROR_NONE \<Longrightarrow> e0 = APP_ERROR_NONE"
proof -
  obtain eb Wb where b: "logged cuts f_blobs W = (eb, Wb)" by (metis prod.exhaust)
  obtain ed Wd where d: "logged cuts f_debris Wb = (ed, Wd)" by (metis prod.exhaust)
  note bs = files_step [OF b assms(2,4)]
  note ds = files_step [OF d assms(3) bs(1)]
  have ends: "W' = Wd" "e1 = APP_ERROR_NONE \<longrightarrow> e0 = APP_ERROR_NONE \<and> eb = APP_ERROR_NONE \<and> ed = APP_ERROR_NONE"
    using assms(1) b d by (auto simp: attempt_def record_first_error_def split: if_splits)
  show "under base True (e1 = APP_ERROR_NONE) (e1 = APP_ERROR_NONE) W'"
    using ds bs(2) ends by (auto simp: under_def)
  show "e1 = APP_ERROR_NONE \<Longrightarrow> e0 = APP_ERROR_NONE" using ends(2) by simp
qed

text \<open>What a run leaves: every view it went through is accounted for, the last one too.\<close>

definition sound :: "('s \<times> 'f) option \<Rightarrow> 'w \<times> ('s, 'f) reset_view set \<Rightarrow> bool" where
  "sound base W \<longleftrightarrow> ok (fst W) \<and> journal_inv base (vw (fst W)) \<and> (\<forall>v \<in> snd W. journal_inv base v)"

lemma under_sound: "under base s b d W \<Longrightarrow> sound base W"
  by (simp add: under_def sound_def journal_inv_def)

lemma clear_step:
  assumes "logged cuts f W = (e, W')" and "call_law ok (moves_marker vw fs False) f" and "under base True True True W"
  shows "sound base W'" and "erased (vw (fst W'))" and "e = APP_ERROR_NONE \<Longrightarrow> \<not> rv_pending (vw (fst W'))"
proof -
  have "ok (fst W)" using assms(3) by (simp add: under_def)
  note l = loggedD [OF assms(1,2) this]
  have files: "rv_files (vw (fst W')) = rv_files (vw (fst W))"
    by (rule same_files) (use l in \<open>simp add: moves_marker_def\<close>)
  have before: "erased (vw (fst W))" "\<forall>v \<in> snd W. journal_inv base v"
    using assms(3) by (simp_all add: under_def erased_def)
  have e: "erased v" if "v \<in> cuts (fst W) (fst W')" for v
    using that l before(1) by (auto simp: cut_views_def moves_marker_def erased_def)
  show er: "erased (vw (fst W'))"
    using l files before(1) by (simp add: moves_marker_def erased_def)
  have "journal_inv base v" if "v \<in> snd W'" for v
    using that l e before(2) unfolding journal_inv_def by blast
  then show "sound base W'"
    using l er by (simp add: sound_def journal_inv_def)
  show "e = APP_ERROR_NONE \<Longrightarrow> \<not> rv_pending (vw (fst W'))"
    using l by (simp add: moves_marker_def)
qed

lemma mark_step:
  assumes "logged cuts f W = (e, W')" and "call_law ok (moves_marker vw fs True) f" and "sound base W"
  shows "sound base W'" and "e = APP_ERROR_NONE \<Longrightarrow> under base False False False W'"
proof -
  have "ok (fst W)" using assms(3) by (simp add: sound_def)
  note l = loggedD [OF assms(1,2) this]
  have files: "rv_files (vw (fst W')) = rv_files (vw (fst W))"
    by (rule same_files) (use l in \<open>simp add: moves_marker_def\<close>)
  have keep: "journal_inv base v" if "rv_settings v = rv_settings (vw (fst W))"
    "rv_files v = rv_files (vw (fst W))" "rv_pending v \<in> {rv_pending (vw (fst W)), True}" for v
  proof -
    have "journal_inv base (vw (fst W))" using assms(3) by (simp add: sound_def)
    then show ?thesis using that unfolding journal_inv_def erased_def by fastforce
  qed
  have "journal_inv base v" if "v \<in> cuts (fst W) (fst W')" for v
    using that l by (intro keep) (auto simp: cut_views_def moves_marker_def)
  moreover have "journal_inv base (vw (fst W'))"
    using l files by (intro keep) (simp_all add: moves_marker_def)
  ultimately show sound: "sound base W'"
    using l assms(3) by (auto simp: sound_def)
  show "e = APP_ERROR_NONE \<Longrightarrow> under base False False False W'"
    using l sound by (auto simp: under_def sound_def moves_marker_def)
qed

end

text \<open>\<open>attempt\<close> runs a step and keeps the first error.\<close>

lemma attempt_eq: "attempt f (e0, w) = (e1, w') \<longleftrightarrow>
    (\<exists>e. f w = (e, w') \<and> e1 = (if e \<noteq> APP_ERROR_NONE \<and> e0 = APP_ERROR_NONE then e else e0))"
  by (auto simp: attempt_def record_first_error_def split: prod.splits)

section \<open>The reset\<close>

locale reset_journal = journal vw fs ok no_settings no_blobs no_debris
  for vw :: "'w \<Rightarrow> ('s, 'f) reset_view" and fs :: "'w \<Rightarrow> 'x" and ok :: "'w \<Rightarrow> bool"
    and no_settings :: "'s \<Rightarrow> bool" and no_blobs no_debris :: "'f \<Rightarrow> bool" +
  fixes ops :: "'w reset_ops"
  assumes marks: "call_law ok (moves_marker vw fs True) (ro_mark_factory_reset_pending ops)"
    and erases: "call_law ok (moves_settings vw fs no_settings) (ro_erase_all_settings ops)"
    and forgets: "call_law ok (keeps_view vw fs) (ro_invalidate_all_sessions ops)"
    and deletes: "call_law ok (moves_files vw (\<lambda>f f'. no_blobs f')) (ro_delete_all_blobs ops)"
    and cleans: "call_law ok (moves_files vw (\<lambda>f f'. no_debris f' \<and> (no_blobs f \<longrightarrow> no_blobs f')))
      (ro_cleanup_temporary_files ops)"
    and clears: "call_law ok (moves_marker vw fs False) (ro_clear_factory_reset_pending ops)"
    and restarts: "call_law ok (keeps_view vw fs) (ro_schedule_restart ops delay)"
begin

abbreviation lops :: "('w \<times> ('s, 'f) reset_view set) reset_ops" where
  "lops \<equiv> logged_reset_ops cuts ops"

lemma lops_sel:
  "ro_mark_factory_reset_pending lops = logged cuts (ro_mark_factory_reset_pending ops)"
  "ro_erase_all_settings lops = logged cuts (ro_erase_all_settings ops)"
  "ro_invalidate_all_sessions lops = logged cuts (ro_invalidate_all_sessions ops)"
  "ro_delete_all_blobs lops = logged cuts (ro_delete_all_blobs ops)"
  "ro_cleanup_temporary_files lops = logged cuts (ro_cleanup_temporary_files ops)"
  "ro_clear_factory_reset_pending lops = logged cuts (ro_clear_factory_reset_pending ops)"
  "ro_schedule_restart lops delay = logged cuts (ro_schedule_restart ops delay)"
  by (simp_all add: logged_reset_ops_def)

text \<open>From the durable marker to the scheduled restart.\<close>

lemma accepted_steps:
  assumes p1: "attempt (ro_erase_all_settings lops) (APP_ERROR_NONE, W) = (e1, W1)"
    and p2: "(if e1 = APP_ERROR_NONE
        then attempt (ro_cleanup_temporary_files lops) (attempt (ro_delete_all_blobs lops)
          (attempt (ro_invalidate_all_sessions lops) (e1, W1))) else (e1, W1)) = (e2, W2)"
    and p3: "attempt (ro_schedule_restart lops delay) (e2, W2) = (e3, W3)"
    and start: "under base False False False W"
  shows "under base False False False W3" and "e3 = APP_ERROR_NONE \<Longrightarrow> under base True True True W3"
proof -
  have "logged cuts (ro_erase_all_settings ops) W = (e1, W1)"
    using p1 by (auto simp: attempt_eq lops_sel split: if_splits)
  note s1 = settings_step [OF this erases start]
  have s2: "under base False False False W2 \<and> (e2 = APP_ERROR_NONE \<longrightarrow> under base True True True W2)"
  proof (cases "e1 = APP_ERROR_NONE")
    case False
    then show ?thesis using p2 s1 by auto
  next
    case True
    obtain ei Wi where inv: "logged cuts (ro_invalidate_all_sessions ops) W1 = (ei, Wi)" by (metis prod.exhaust)
    have "under base True False False W1" using s1 True by simp
    note i = keep_step [OF inv forgets this]
    have "attempt (logged cuts (ro_cleanup_temporary_files ops)) (attempt (logged cuts (ro_delete_all_blobs ops)) (ei, Wi)) = (e2, W2)"
      using p2 True inv by (auto simp: attempt_def record_first_error_def lops_sel split: if_splits)
    note er = erasure_steps [OF this deletes cleans i]
    show ?thesis using er(1) by (auto simp: under_def)
  qed
  obtain e where r: "logged cuts (ro_schedule_restart ops delay) W2 = (e, W3)"
    and e3: "e3 = APP_ERROR_NONE \<Longrightarrow> e2 = APP_ERROR_NONE"
    using p3 by (auto simp: attempt_eq lops_sel split: if_splits)
  show "under base False False False W3" by (rule keep_step [OF r restarts]) (use s2 in simp)
  show "e3 = APP_ERROR_NONE \<Longrightarrow> under base True True True W3"
    by (rule keep_step [OF r restarts]) (use s2 e3 in simp)
qed

lemma reset_sound:
  assumes "device_controls_reset_engine_factory_reset (Some lops) delay W = (out, W')" and "sound base W"
  shows "sound base W'"
    and "fo_durably_accepted out \<Longrightarrow> \<not> fo_recovery_required out \<Longrightarrow>
      erased (vw (fst W')) \<and> \<not> rv_pending (vw (fst W'))"
    and "fo_durably_accepted out \<Longrightarrow> journal_inv None (vw (fst W'))"
proof -
  obtain em W0 where mark: "ro_mark_factory_reset_pending lops W = (em, W0)" by (metis prod.exhaust)
  note m = mark_step [OF mark [unfolded lops_sel] marks assms(2)]
  define p1 where "p1 = attempt (ro_erase_all_settings lops) (APP_ERROR_NONE, W0)"
  define p2 where "p2 = (if fst p1 = APP_ERROR_NONE
    then attempt (ro_cleanup_temporary_files lops) (attempt (ro_delete_all_blobs lops)
      (attempt (ro_invalidate_all_sessions lops) p1)) else p1)"
  define p3 where "p3 = attempt (ro_schedule_restart lops delay) p2"
  define p4 where "p4 = (if fst p3 = APP_ERROR_NONE then attempt (ro_clear_factory_reset_pending lops) p3 else p3)"
  have out: "if em = APP_ERROR_NONE
      then fo_durably_accepted out \<and> fo_recovery_required out = (fst p4 \<noteq> APP_ERROR_NONE) \<and> W' = snd p4
      else \<not> fo_durably_accepted out \<and> W' = W0"
    using assms(1)
    by (cases "em = APP_ERROR_NONE")
      (simp_all only: device_controls_reset_engine_factory_reset_def mark Let_def prod.case option.case
        p1_def [symmetric] p2_def [symmetric] p3_def [symmetric] p4_def [symmetric] if_True if_False
        not_True_eq_False not_False_eq_True prod.inject, auto)
  have acc: "sound base (snd p4) \<and> journal_inv None (vw (fst (snd p4))) \<and>
      (fst p4 = APP_ERROR_NONE \<longrightarrow> erased (vw (fst (snd p4))) \<and> \<not> rv_pending (vw (fst (snd p4))))"
    if "em = APP_ERROR_NONE"
  proof -
    have h: "attempt (ro_erase_all_settings lops) (APP_ERROR_NONE, W0) = (fst p1, snd p1)"
      "(if fst p1 = APP_ERROR_NONE
        then attempt (ro_cleanup_temporary_files lops) (attempt (ro_delete_all_blobs lops)
          (attempt (ro_invalidate_all_sessions lops) (fst p1, snd p1))) else (fst p1, snd p1)) = (fst p2, snd p2)"
      "attempt (ro_schedule_restart lops delay) (fst p2, snd p2) = (fst p3, snd p3)"
      by (simp_all only: prod.collapse p1_def p2_def p3_def)
    note a = accepted_steps [OF h m(2) [OF that]]
    show ?thesis
    proof (cases "fst p3 = APP_ERROR_NONE")
      case False
      then show ?thesis using a(1) under_sound [OF a(1)] by (simp add: p4_def under_def journal_inv_def)
    next
      case True
      obtain e W4 where clear: "logged cuts (ro_clear_factory_reset_pending ops) (snd p3) = (e, W4)"
        by (metis prod.exhaust)
      note c = clear_step [OF clear clears a(2) [OF True]]
      have "p4 = (e, W4)"
        using True clear by (cases p3) (simp add: p4_def attempt_def record_first_error_def lops_sel)
      then show ?thesis using c by (simp add: journal_inv_def)
    qed
  qed
  show "sound base W'" using m(1) acc out by (cases "em = APP_ERROR_NONE") simp_all
  show "fo_durably_accepted out \<Longrightarrow> \<not> fo_recovery_required out \<Longrightarrow>
      erased (vw (fst W')) \<and> \<not> rv_pending (vw (fst W'))"
    using acc out by (cases "em = APP_ERROR_NONE") simp_all
  show "fo_durably_accepted out \<Longrightarrow> journal_inv None (vw (fst W'))"
    using acc out by (cases "em = APP_ERROR_NONE") simp_all
qed

end

section \<open>The recovery\<close>

locale recovery_journal = journal vw fs ok no_settings no_blobs no_debris
  for vw :: "'w \<Rightarrow> ('s, 'f) reset_view" and fs :: "'w \<Rightarrow> 'x" and ok :: "'w \<Rightarrow> bool"
    and no_settings :: "'s \<Rightarrow> bool" and no_blobs no_debris :: "'f \<Rightarrow> bool" +
  fixes rec_ops :: "'w recovery_ops"
  assumes reads: "ok w \<Longrightarrow> re_read_state rec_ops w = (e, state, w') \<Longrightarrow> ok w' \<and> keeps_view vw fs w e w' \<and>
        (e = APP_ERROR_NONE \<longrightarrow> rv_pending (vw w) = (state = FACTORY_RESET_STATE_PENDING))"
    and opens: "call_law ok (keeps_view vw fs) (re_settings_init rec_ops)"
    and erases: "call_law ok (moves_settings vw fs no_settings) (re_erase_settings rec_ops)"
    and closes: "call_law ok (keeps_view vw fs) (re_settings_deinit rec_ops)"
    and mounts: "call_law ok (moves_files vw (\<lambda>f f'. True)) (re_storage_mount rec_ops)"
    and deletes: "call_law ok (moves_files vw (\<lambda>f f'. no_blobs f')) (re_delete_blobs rec_ops)"
    and cleans: "call_law ok (moves_files vw (\<lambda>f f'. no_debris f' \<and> (no_blobs f \<longrightarrow> no_blobs f')))
      (re_cleanup_temporary_files rec_ops)"
    and unmounts: "call_law ok (keeps_view vw fs) (re_storage_unmount rec_ops)"
    and clears: "call_law ok (moves_marker vw fs False) (re_clear_pending rec_ops)"
begin

abbreviation lops :: "('w \<times> ('s, 'f) reset_view set) recovery_ops" where
  "lops \<equiv> logged_recovery_ops cuts rec_ops"

lemma lops_sel:
  "re_settings_init lops = logged cuts (re_settings_init rec_ops)"
  "re_erase_settings lops = logged cuts (re_erase_settings rec_ops)"
  "re_settings_deinit lops = logged cuts (re_settings_deinit rec_ops)"
  "re_storage_mount lops = logged cuts (re_storage_mount rec_ops)"
  "re_delete_blobs lops = logged cuts (re_delete_blobs rec_ops)"
  "re_cleanup_temporary_files lops = logged cuts (re_cleanup_temporary_files rec_ops)"
  "re_storage_unmount lops = logged cuts (re_storage_unmount rec_ops)"
  "re_clear_pending lops = logged cuts (re_clear_pending rec_ops)"
  by (simp_all add: logged_recovery_ops_def)

lemma read_step:
  assumes "re_read_state lops W = (e, state, W')" and "sound base W"
  shows "sound base W'" and "vw (fst W') = vw (fst W)"
    and "e = APP_ERROR_NONE \<Longrightarrow> rv_pending (vw (fst W)) = (state = FACTORY_RESET_STATE_PENDING)"
proof -
  obtain w' where w': "re_read_state rec_ops (fst W) = (e, state, w')" "fst W' = w'"
    "snd W' = snd W \<union> cuts (fst W) w'"
    using assms(1) by (cases W) (auto simp: logged_recovery_ops_def split: prod.splits)
  have "ok (fst W)" using assms(2) by (simp add: sound_def)
  note r = reads [OF this w'(1)]
  have "v = vw (fst W)" if "v \<in> cuts (fst W) w'" for v
    using that r by (cases v; cases "vw (fst W)") (auto simp: cut_views_def keeps_view_def)
  then show "sound base W'"
    using r w'(2,3) assms(2) by (auto simp: sound_def keeps_view_def)
  show "vw (fst W') = vw (fst W)" using r w'(2) by (simp add: keeps_view_def)
  show "e = APP_ERROR_NONE \<Longrightarrow> rv_pending (vw (fst W)) = (state = FACTORY_RESET_STATE_PENDING)"
    using r by simp
qed

text \<open>The first half of recovery: the settings are erased under the marker.\<close>

lemma recovery_settings:
  assumes "re_settings_init lops W = (r, W1)"
    and "attempt (re_settings_deinit lops) (re_erase_settings lops W1) = (e, W2)"
    and "under base False False False W"
  shows "under base False False False W1" and "under base (e = APP_ERROR_NONE) False False W2"
proof -
  show i: "under base False False False W1"
    by (rule keep_step [OF assms(1) [unfolded lops_sel] opens assms(3)])
  obtain es W1' where er: "logged cuts (re_erase_settings rec_ops) W1 = (es, W1')" by (metis prod.exhaust)
  obtain ed where d: "logged cuts (re_settings_deinit rec_ops) W1' = (ed, W2)"
    and e: "e = APP_ERROR_NONE \<Longrightarrow> es = APP_ERROR_NONE"
    using assms(2) er by (auto simp: attempt_eq lops_sel split: if_splits)
  have "under base (es = APP_ERROR_NONE) False False W2"
    by (rule keep_step [OF d closes settings_step [OF er erases i]])
  then show "under base (e = APP_ERROR_NONE) False False W2" using e by (auto simp: under_def)
qed

text \<open>The second half: the storage is mounted, emptied and unmounted.\<close>

lemma recovery_storage:
  assumes "re_storage_mount lops W = (r, W1)"
    and "attempt (re_storage_unmount lops) (attempt (re_cleanup_temporary_files lops)
      (attempt (re_delete_blobs lops) (APP_ERROR_NONE, W1))) = (e, W2)"
    and "under base True False False W"
  shows "under base True False False W1"
    and "under base True (e = APP_ERROR_NONE) (e = APP_ERROR_NONE) W2"
proof -
  show i: "under base True False False W1"
    by (rule files_step(1) [OF assms(1) [unfolded lops_sel] mounts assms(3)])
  obtain er W1' where er: "attempt (logged cuts (re_cleanup_temporary_files rec_ops))
      (attempt (logged cuts (re_delete_blobs rec_ops)) (APP_ERROR_NONE, W1)) = (er, W1')" by (metis prod.exhaust)
  obtain eu where u: "logged cuts (re_storage_unmount rec_ops) W1' = (eu, W2)"
    and e: "e = APP_ERROR_NONE \<Longrightarrow> er = APP_ERROR_NONE"
    using assms(2) er by (auto simp: attempt_eq lops_sel split: if_splits)
  have "under base True (er = APP_ERROR_NONE) (er = APP_ERROR_NONE) W2"
    by (rule keep_step [OF u unmounts erasure_steps(1) [OF er deletes cleans i]])
  then show "under base True (e = APP_ERROR_NONE) (e = APP_ERROR_NONE) W2" using e by (auto simp: under_def)
qed

text \<open>A run of recovery that found the marker.\<close>

lemma recovery_pending:
  assumes run: "factory_reset_recovery_engine_run (Some lops) W = (res, recovered, W')"
    and read: "re_read_state lops W = (APP_ERROR_NONE, FACTORY_RESET_STATE_PENDING, W0)" and "sound base W"
  shows "sound base W'" and "recovered = (res = APP_ERROR_NONE)"
    and "res = APP_ERROR_NONE \<Longrightarrow> erased (vw (fst W')) \<and> \<not> rv_pending (vw (fst W'))"
proof -
  note r = read_step [OF read assms(3)]
  have u0: "under base False False False W0"
    using r by (simp add: under_def sound_def)
  obtain r1 W1 where i: "re_settings_init lops W0 = (r1, W1)" by (metis prod.exhaust)
  obtain e2 W2 where s: "attempt (re_settings_deinit lops) (re_erase_settings lops W1) = (e2, W2)"
    by (metis prod.exhaust)
  obtain r3 W3 where m: "re_storage_mount lops W2 = (r3, W3)" by (metis prod.exhaust)
  obtain e4 W4 where b: "attempt (re_storage_unmount lops) (attempt (re_cleanup_temporary_files lops)
      (attempt (re_delete_blobs lops) (APP_ERROR_NONE, W3))) = (e4, W4)" by (metis prod.exhaust)
  obtain r5 W5 where c: "re_clear_pending lops W4 = (r5, W5)" by (metis prod.exhaust)
  note A = recovery_settings [OF i s u0]
  have B: "under base True False False W3" "under base True (e4 = APP_ERROR_NONE) (e4 = APP_ERROR_NONE) W4"
    if "e2 = APP_ERROR_NONE"
    using recovery_storage [OF m b] A(2) that by simp_all
  have C: "sound base W5" "erased (vw (fst W5))" "r5 = APP_ERROR_NONE \<longrightarrow> \<not> rv_pending (vw (fst W5))"
    if "e2 = APP_ERROR_NONE" "e4 = APP_ERROR_NONE"
    using clear_step [OF c [unfolded lops_sel] clears, of base] B(2) that by simp_all
  have out: "if r1 \<noteq> APP_ERROR_NONE then (res, recovered, W') = (r1, False, W1)
      else if e2 \<noteq> APP_ERROR_NONE then (res, recovered, W') = (e2, False, W2)
      else if r3 \<noteq> APP_ERROR_NONE then (res, recovered, W') = (r3, False, W3)
      else if e4 \<noteq> APP_ERROR_NONE then (res, recovered, W') = (e4, False, W4)
      else (res, recovered, W') = (r5, r5 = APP_ERROR_NONE, W5)"
    using run by (simp add: factory_reset_recovery_engine_run_def read i s m b c split: if_splits)
  show "sound base W'"
    using out under_sound [OF A(1)] under_sound [OF A(2)] under_sound [OF B(1)] under_sound [OF B(2)] C(1)
    by (simp split: if_splits)
  show "recovered = (res = APP_ERROR_NONE)"
    "res = APP_ERROR_NONE \<Longrightarrow> erased (vw (fst W')) \<and> \<not> rv_pending (vw (fst W'))"
    using out C(2,3) by (simp_all split: if_splits)
qed

lemma recovery_sound:
  assumes run: "factory_reset_recovery_engine_run (Some lops) W = (res, recovered, W')" and "sound base W"
  shows "sound base W'" and "recovered \<Longrightarrow> erased (vw (fst W'))"
    and "res = APP_ERROR_NONE \<Longrightarrow> \<not> rv_pending (vw (fst W')) \<and> (recovered \<or> vw (fst W') = vw (fst W))"
proof -
  obtain e st W0 where read: "re_read_state lops W = (e, st, W0)" by (metis prod.exhaust)
  note r = read_step [OF read assms(2)]
  have "sound base W' \<and> (recovered \<longrightarrow> erased (vw (fst W'))) \<and>
      (res = APP_ERROR_NONE \<longrightarrow> \<not> rv_pending (vw (fst W')) \<and> (recovered \<or> vw (fst W') = vw (fst W)))"
  proof (cases "e = APP_ERROR_NONE \<and> st = FACTORY_RESET_STATE_PENDING")
    case True
    then have "re_read_state lops W = (APP_ERROR_NONE, FACTORY_RESET_STATE_PENDING, W0)"
      using read by simp
    from recovery_pending [OF run this assms(2)] show ?thesis by auto
  next
    case False
    then have W': "res = e" "\<not> recovered" "W' = W0"
      using run read by (cases st; auto simp: factory_reset_recovery_engine_run_def split: if_splits)+
    moreover have "e = APP_ERROR_NONE \<longrightarrow> \<not> rv_pending (vw (fst W))" using r(3) False by (cases st) auto
    ultimately show ?thesis using r(1,2) by simp
  qed
  then show "sound base W'" "recovered \<Longrightarrow> erased (vw (fst W'))"
    "res = APP_ERROR_NONE \<Longrightarrow> \<not> rv_pending (vw (fst W')) \<and> (recovered \<or> vw (fst W') = vw (fst W))"
    by blast+
qed

end

end
