(* ===== verification/Reset_Marker.thy ===== *)
theory Reset_Marker
  imports Factory_Reset
begin

text \<open>
  What the marker of \<open>factory_reset_state/\<close> promises on a flash that does what NVS documents.
  NVS is a record of calls on a state; the laws speak of two views of that state, the value the
  flash holds under the key of the marker and the change that was made but not committed.
\<close>

section \<open>What NVS documents\<close>

text \<open>The value a read through an open handle sees; a staged \<open>Some None\<close> is an erased key.\<close>

definition u8_visible :: "('j \<Rightarrow> u8 option) \<Rightarrow> ('j \<Rightarrow> u8 option option) \<Rightarrow> 'j \<Rightarrow> u8 option" where
  "u8_visible stored staged j = (case staged j of None \<Rightarrow> stored j | Some m \<Rightarrow> m)"

definition u8_same :: "('j \<Rightarrow> u8 option) \<Rightarrow> ('j \<Rightarrow> u8 option option) \<Rightarrow> 'j \<Rightarrow> 'j \<Rightarrow> bool" where
  "u8_same stored staged j j' \<longleftrightarrow> stored j' = stored j \<and> staged j' = staged j"

definition u8_read_laws where
  "u8_read_laws ops stored staged \<longleftrightarrow>
     (\<forall>m j e h j'. u8_open ops m j = (e, h, j') \<longrightarrow> u8_same stored staged j j' \<and>
        (e = ESP_ERR_NVS_NOT_FOUND \<longrightarrow> stored j = None)) \<and>
     (\<forall>h j e x j'. u8_get ops h j = (e, x, j') \<longrightarrow> u8_same stored staged j j' \<and>
        (e = ESP_OK \<longrightarrow> u8_visible stored staged j = Some x) \<and>
        (e = ESP_ERR_NVS_NOT_FOUND \<longrightarrow> u8_visible stored staged j = None))"

definition u8_write_laws where
  "u8_write_laws ops stored staged \<longleftrightarrow>
     (\<forall>h x j e j'. u8_set ops h x j = (e, j') \<longrightarrow> stored j' = stored j \<and>
        (e = ESP_OK \<longrightarrow> staged j' = Some (Some x))) \<and>
     (\<forall>h j e j'. u8_erase_key ops h j = (e, j') \<longrightarrow> stored j' = stored j \<and>
        (e = ESP_OK \<longrightarrow> staged j' = Some None) \<and>
        (e = ESP_ERR_NVS_NOT_FOUND \<longrightarrow> u8_visible stored staged j = None)) \<and>
     (\<forall>h j e j'. u8_commit ops h j = (e, j') \<longrightarrow>
        e \<noteq> ESP_ERR_NVS_NOT_FOUND \<and>
        (if e = ESP_OK then stored j' = u8_visible stored staged j \<and> staged j' = None
         else stored j' = stored j \<or> stored j' = u8_visible stored staged j)) \<and>
     (\<forall>h j. stored (u8_close ops h j) = stored j \<and> staged (u8_close ops h j) = None)"

locale marker_flash =
  fixes ops :: "'j nvs_u8_ops" and stored :: "'j \<Rightarrow> u8 option" and staged :: "'j \<Rightarrow> u8 option option"
  assumes u8_reads: "u8_read_laws ops stored staged" and u8_writes: "u8_write_laws ops stored staged"
begin

lemma openD: "u8_open ops m j = (e, h, j') \<Longrightarrow> stored j' = stored j \<and> staged j' = staged j \<and>
    (e = ESP_ERR_NVS_NOT_FOUND \<longrightarrow> stored j = None)"
  using u8_reads unfolding u8_read_laws_def u8_same_def by blast

lemma getD: "u8_get ops h j = (e, x, j') \<Longrightarrow> staged j = None \<Longrightarrow> stored j' = stored j \<and>
    (e = ESP_OK \<longrightarrow> stored j = Some x) \<and> (e = ESP_ERR_NVS_NOT_FOUND \<longrightarrow> stored j = None)"
  using u8_reads unfolding u8_read_laws_def u8_same_def u8_visible_def by fastforce

lemma setD: "u8_set ops h x j = (e, j') \<Longrightarrow> stored j' = stored j \<and> (e = ESP_OK \<longrightarrow> staged j' = Some (Some x))"
  using u8_writes unfolding u8_write_laws_def by blast

lemma erase_keyD: "u8_erase_key ops h j = (e, j') \<Longrightarrow> staged j = None \<Longrightarrow> stored j' = stored j \<and>
    (e = ESP_OK \<longrightarrow> staged j' = Some None) \<and> (e = ESP_ERR_NVS_NOT_FOUND \<longrightarrow> stored j = None)"
  using u8_writes unfolding u8_write_laws_def u8_visible_def by fastforce

lemma commitD: "u8_commit ops h j = (e, j') \<Longrightarrow> staged j = Some m \<Longrightarrow>
    (stored j' = stored j \<or> stored j' = m) \<and> (e = ESP_OK \<longrightarrow> stored j' = m) \<and> e \<noteq> ESP_ERR_NVS_NOT_FOUND"
proof -
  assume c: "u8_commit ops h j = (e, j')" and s: "staged j = Some m"
  have "e \<noteq> ESP_ERR_NVS_NOT_FOUND \<and>
      (if e = ESP_OK then stored j' = u8_visible stored staged j \<and> staged j' = None
       else stored j' = stored j \<or> stored j' = u8_visible stored staged j)"
    using u8_writes c unfolding u8_write_laws_def by blast
  then show ?thesis
    using s by (auto simp: u8_visible_def split: if_splits)
qed

lemma closeD: "stored (u8_close ops h j) = stored j" "staged (u8_close ops h j) = None"
  using u8_writes unfolding u8_write_laws_def by blast+

section \<open>The marker\<close>

text \<open>A value staged by a call is committed or dropped by it, whatever fails.\<close>

lemma read_marker:
  assumes "factory_reset_state_read ops j = (e, state, j')" and "staged j = None"
  shows "stored j' = stored j \<and> staged j' = None \<and>
    (e = APP_ERROR_NONE \<longrightarrow> stored j = (case state of
       FACTORY_RESET_STATE_NONE \<Rightarrow> None | FACTORY_RESET_STATE_PENDING \<Rightarrow> Some 1))"
proof -
  obtain e1 h j1 where opened: "u8_open ops NVS_READONLY j = (e1, h, j1)" by (metis prod.exhaust)
  obtain e2 x j2 where got: "u8_get ops h j1 = (e2, x, j2)" by (metis prod.exhaust)
  note o1 = openD [OF opened]
  have "stored j2 = stored j \<and> (e2 = ESP_OK \<longrightarrow> stored j = Some x) \<and> (e2 = ESP_ERR_NVS_NOT_FOUND \<longrightarrow> stored j = None)"
    using getD [OF got] o1 assms(2) by simp
  then show ?thesis
    using assms o1 closeD
    by (auto simp: factory_reset_state_read_def open_reset_state_def opened map_nvs_simps
        factory_reset_state_core_read_def reset_state_operations_def adapter_read_value_def got
        reset_state_value_def split: if_splits)
qed

lemma mark_marker:
  assumes "factory_reset_state_mark_pending ops j = (e, j')" and "staged j = None"
  shows "(stored j' = stored j \<or> stored j' = Some 1) \<and> staged j' = None \<and>
    (e = APP_ERROR_NONE \<longrightarrow> stored j' = Some 1)"
proof -
  obtain e1 h j1 where opened: "u8_open ops NVS_READWRITE j = (e1, h, j1)" by (metis prod.exhaust)
  obtain e2 j2 where put: "u8_set ops h 1 j1 = (e2, j2)" by (metis prod.exhaust)
  obtain e3 j3 where commit: "u8_commit ops h j2 = (e3, j3)" by (metis prod.exhaust)
  show ?thesis
    using assms openD [OF opened] setD [OF put] commitD [OF commit] closeD
    by (auto simp: factory_reset_state_mark_pending_def open_reset_state_def opened map_nvs_simps
        factory_reset_state_core_mark_pending_def reset_state_operations_def adapter_write_value_def put commit
        reset_state_value_def split: if_splits)
qed

lemma clear_marker:
  assumes "factory_reset_state_clear ops j = (e, j')" and "staged j = None"
  shows "(stored j' = stored j \<or> stored j' = None) \<and> staged j' = None \<and>
    (e = APP_ERROR_NONE \<longrightarrow> stored j' = None)"
proof -
  obtain e1 h j1 where opened: "u8_open ops NVS_READWRITE j = (e1, h, j1)" by (metis prod.exhaust)
  obtain e2 j2 where erase: "u8_erase_key ops h j1 = (e2, j2)" by (metis prod.exhaust)
  obtain e3 j3 where commit: "u8_commit ops h j2 = (e3, j3)" by (metis prod.exhaust)
  note o1 = openD [OF opened]
  have er: "stored j2 = stored j1 \<and> (e2 = ESP_OK \<longrightarrow> staged j2 = Some None) \<and>
      (e2 = ESP_ERR_NVS_NOT_FOUND \<longrightarrow> stored j1 = None)"
    using erase_keyD [OF erase] o1 assms(2) by simp
  show ?thesis
    using assms o1 er commitD [OF commit] closeD
    by (auto simp: factory_reset_state_clear_def open_reset_state_def opened map_nvs_simps
        factory_reset_state_core_clear_def reset_state_operations_def adapter_erase_value_def erase commit
        split: if_splits)
qed

end

section \<open>A flash that works, for the witnesses\<close>

type_synonym sample_journal = "u8 option \<times> u8 option option"

definition sample_u8 :: "sample_journal nvs_u8_ops" where
  "sample_u8 = \<lparr>u8_open = (\<lambda>mode j. (ESP_OK, 1, j)),
     u8_get = (\<lambda>h j. case u8_visible fst snd j of
       None \<Rightarrow> (ESP_ERR_NVS_NOT_FOUND, 0, j) | Some x \<Rightarrow> (ESP_OK, x, j)),
     u8_set = (\<lambda>h x j. (ESP_OK, fst j, Some (Some x))),
     u8_erase_key = (\<lambda>h j. if u8_visible fst snd j = None then (ESP_ERR_NVS_NOT_FOUND, j)
       else (ESP_OK, fst j, Some None)),
     u8_commit = (\<lambda>h j. (ESP_OK, u8_visible fst snd j, None)), u8_close = (\<lambda>h j. (fst j, None))\<rparr>"

interpretation sample_marker: marker_flash sample_u8 fst snd
  by unfold_locales
    (auto simp: u8_read_laws_def u8_write_laws_def sample_u8_def u8_same_def u8_visible_def split: option.splits)

lemma sample_marker_laws: "marker_flash sample_u8 fst snd"
  by (rule sample_marker.marker_flash_axioms)

lemmas marker_defs = factory_reset_state_read_def factory_reset_state_mark_pending_def
  factory_reset_state_clear_def open_reset_state_def reset_state_operations_def
  factory_reset_state_core_read_def factory_reset_state_core_mark_pending_def
  factory_reset_state_core_clear_def adapter_read_value_def adapter_write_value_def
  adapter_erase_value_def reset_state_value_def sample_u8_def u8_visible_def

lemma sample_marker_runs:
  "factory_reset_state_mark_pending sample_u8 (None, None) = (APP_ERROR_NONE, (Some 1, None))"
  "factory_reset_state_read sample_u8 (Some 1, None) = (APP_ERROR_NONE, FACTORY_RESET_STATE_PENDING, (Some 1, None))"
  "factory_reset_state_clear sample_u8 (Some 1, None) = (APP_ERROR_NONE, (None, None))"
  by (simp_all add: marker_defs)

end
