(* ===== verification/Settings_Update.thy ===== *)
theory Settings_Update
  imports Settings_Record
begin

text \<open>
  The rules of a settings update and of a password change
  (\<open>app_contracts_v2/settings_contract_v2.c\<close>).  A string view is its bytes, without a terminator;
  \<open>None\<close> is a view with a null pointer.
\<close>

section \<open>Data\<close>

definition APP_V2_ADMIN_PASSWORD_MIN_BYTES :: nat where
  [limit_defs]: "APP_V2_ADMIN_PASSWORD_MIN_BYTES = 12"

definition APP_V2_ADMIN_PASSWORD_MAX_BYTES :: nat where
  [limit_defs]: "APP_V2_ADMIN_PASSWORD_MAX_BYTES = 128"

type_synonym string_view = "u8 list option"

text \<open>An optional view is \<open>None\<close> when it is not present.\<close>

record settings_response =
  sr_device_name :: "u8 list"
  sr_require_serial_confirmation :: bool
  sr_snapshot_retention_target :: u8
  sr_last_selected_package_id :: "u8 list option"
  sr_ap_ssid :: "u8 list"
  sr_station_configured :: bool
  sr_station_ssid :: "u8 list option"

record network_credentials =
  nc_ssid :: string_view
  nc_passphrase :: string_view

record settings_update_request =
  rq_has_device_name :: bool
  rq_device_name :: string_view
  rq_has_require_serial_confirmation :: bool
  rq_require_serial_confirmation :: bool
  rq_has_snapshot_retention_target :: bool
  rq_snapshot_retention_target :: u8
  rq_has_last_selected_package_id :: bool
  rq_last_selected_package_id :: "string_view option"
  rq_has_access_point :: bool
  rq_access_point :: network_credentials
  rq_has_station :: bool
  rq_remove_station :: bool
  rq_station :: network_credentials

datatype settings_update_result =
    APP_V2_SETTINGS_UPDATE_OK
  | APP_V2_SETTINGS_UPDATE_INVALID_ARGUMENT
  | APP_V2_SETTINGS_UPDATE_INVALID_CURRENT_SETTINGS
  | APP_V2_SETTINGS_UPDATE_EMPTY
  | APP_V2_SETTINGS_UPDATE_INVALID_DEVICE_NAME
  | APP_V2_SETTINGS_UPDATE_INVALID_SNAPSHOT_RETENTION_TARGET
  | APP_V2_SETTINGS_UPDATE_INVALID_LAST_SELECTED_PACKAGE_ID
  | APP_V2_SETTINGS_UPDATE_INVALID_ACCESS_POINT_SSID
  | APP_V2_SETTINGS_UPDATE_INVALID_ACCESS_POINT_PASSPHRASE
  | APP_V2_SETTINGS_UPDATE_INVALID_STATION_SSID
  | APP_V2_SETTINGS_UPDATE_INVALID_STATION_PASSPHRASE

datatype password_change_result =
    APP_V2_PASSWORD_CHANGE_OK
  | APP_V2_PASSWORD_CHANGE_INVALID_ARGUMENT
  | APP_V2_PASSWORD_CHANGE_INVALID_CURRENT_SETTINGS
  | APP_V2_PASSWORD_CHANGE_INVALID_NEW_PASSWORD

record password_material =
  pm_credential_version :: u16
  pm_password_algorithm_version :: u16
  pm_password_iterations :: u32
  pm_password_salt :: "u8 list"
  pm_password_verifier :: "u8 list"

section \<open>Views\<close>

text \<open>The UTF-8 validator of this file is the text of the one of \<open>device_settings_v2.c\<close>.\<close>

abbreviation view_utf8 :: "u8 list \<Rightarrow> bool" where
  "view_utf8 \<equiv> valid_utf8"

definition view_valid_text :: "string_view \<Rightarrow> nat \<Rightarrow> nat \<Rightarrow> bool" where
  "view_valid_text v minimum maximum =
     (case v of
        None \<Rightarrow> False
      | Some txt \<Rightarrow>
          if length txt < minimum \<or> maximum < length txt then False
          else list_all (\<lambda>c. c \<noteq> 0) txt \<and> view_utf8 txt)"

definition valid_uuid_v4 :: "string_view \<Rightarrow> bool" where
  "valid_uuid_v4 v =
     (case v of
        None \<Rightarrow> False
      | Some txt \<Rightarrow>
          length txt = 36 \<and> uuid_characters 0 txt \<and> txt ! 14 = 0x34 \<and>
          (txt ! 19 = 0x38 \<or> txt ! 19 = 0x39 \<or> txt ! 19 = 0x61 \<or> txt ! 19 = 0x62))"

definition copy_view :: "nat \<Rightarrow> string_view \<Rightarrow> u8 list option" where
  "copy_view destination_size source =
     (case source of
        None \<Rightarrow> None
      | Some txt \<Rightarrow>
          if destination_size = 0 \<or> destination_size \<le> length txt then None
          else Some (blit 0 txt (zeros destination_size)))"

definition view_of :: "u8 list \<Rightarrow> u8 list" where
  "view_of txt = c_text txt"

definition optional_view_of :: "u8 list \<Rightarrow> u8 list option" where
  "optional_view_of txt = (if length (c_text txt) = 0 then None else Some (c_text txt))"

section \<open>The response\<close>

definition empty_response :: settings_response where
  "empty_response = \<lparr>sr_device_name = [], sr_require_serial_confirmation = False,
     sr_snapshot_retention_target = 0, sr_last_selected_package_id = None, sr_ap_ssid = [],
     sr_station_configured = False, sr_station_ssid = None\<rparr>"

definition app_v2_settings_response_from_settings ::
    "device_settings option \<Rightarrow> settings_update_result \<times> settings_response" where
  "app_v2_settings_response_from_settings settings =
     (case settings of
        None \<Rightarrow> (APP_V2_SETTINGS_UPDATE_INVALID_ARGUMENT, empty_response)
      | Some s \<Rightarrow>
          if app_v2_device_settings_validate settings \<noteq> APP_V2_SETTINGS_OK \<or> \<not> provisioned s
          then (APP_V2_SETTINGS_UPDATE_INVALID_CURRENT_SETTINGS, empty_response)
          else (APP_V2_SETTINGS_UPDATE_OK,
            \<lparr>sr_device_name = view_of (device_name s),
             sr_require_serial_confirmation = require_serial_confirmation s,
             sr_snapshot_retention_target = snapshot_retention_target s,
             sr_last_selected_package_id = optional_view_of (last_selected_package_id s),
             sr_ap_ssid = view_of (ap_ssid s), sr_station_configured = station_configured s,
             sr_station_ssid = (if station_configured s then optional_view_of (station_ssid s) else None)\<rparr>))"

section \<open>The update\<close>

definition settings_update_request_is_empty :: "settings_update_request \<Rightarrow> bool" where
  "settings_update_request_is_empty request \<longleftrightarrow> \<not> rq_has_device_name request \<and>
     \<not> rq_has_require_serial_confirmation request \<and> \<not> rq_has_snapshot_retention_target request \<and>
     \<not> rq_has_last_selected_package_id request \<and> \<not> rq_has_access_point request \<and> \<not> rq_has_station request"

definition apply_device_name ::
    "settings_update_request \<Rightarrow> device_settings \<Rightarrow> settings_update_result \<times> device_settings" where
  "apply_device_name request candidate =
     (if \<not> rq_has_device_name request then (APP_V2_SETTINGS_UPDATE_OK, candidate)
      else if \<not> view_valid_text (rq_device_name request) 1 APP_V2_DEVICE_NAME_MAX_BYTES
      then (APP_V2_SETTINGS_UPDATE_INVALID_DEVICE_NAME, candidate)
      else (case copy_view 33 (rq_device_name request) of
          None \<Rightarrow> (APP_V2_SETTINGS_UPDATE_INVALID_DEVICE_NAME, candidate)
        | Some txt \<Rightarrow> (APP_V2_SETTINGS_UPDATE_OK, candidate\<lparr>device_name := txt\<rparr>)))"

definition apply_snapshot_retention_target ::
    "settings_update_request \<Rightarrow> device_settings \<Rightarrow> settings_update_result \<times> device_settings" where
  "apply_snapshot_retention_target request candidate =
     (if \<not> rq_has_snapshot_retention_target request then (APP_V2_SETTINGS_UPDATE_OK, candidate)
      else if APP_V2_SNAPSHOT_RETENTION_TARGET_MAX < unat (rq_snapshot_retention_target request)
      then (APP_V2_SETTINGS_UPDATE_INVALID_SNAPSHOT_RETENTION_TARGET, candidate)
      else (APP_V2_SETTINGS_UPDATE_OK,
        candidate\<lparr>snapshot_retention_target := rq_snapshot_retention_target request\<rparr>))"

definition apply_last_selected_package_id ::
    "settings_update_request \<Rightarrow> device_settings \<Rightarrow> settings_update_result \<times> device_settings" where
  "apply_last_selected_package_id request candidate =
     (if \<not> rq_has_last_selected_package_id request then (APP_V2_SETTINGS_UPDATE_OK, candidate)
      else (case rq_last_selected_package_id request of
          None \<Rightarrow> (APP_V2_SETTINGS_UPDATE_OK, candidate\<lparr>last_selected_package_id := zeros 37\<rparr>)
        | Some v \<Rightarrow>
            if \<not> valid_uuid_v4 v
            then (APP_V2_SETTINGS_UPDATE_INVALID_LAST_SELECTED_PACKAGE_ID, candidate)
            else (case copy_view 37 v of
                None \<Rightarrow> (APP_V2_SETTINGS_UPDATE_INVALID_LAST_SELECTED_PACKAGE_ID, candidate)
              | Some txt \<Rightarrow> (APP_V2_SETTINGS_UPDATE_OK, candidate\<lparr>last_selected_package_id := txt\<rparr>))))"

record settings_update_flags =
  uf_restart_required :: bool
  uf_reconnect_required :: bool

type_synonym network_step = "settings_update_result \<times> device_settings \<times> settings_update_flags"

definition apply_access_point ::
    "settings_update_request \<Rightarrow> device_settings \<Rightarrow> settings_update_flags \<Rightarrow> network_step" where
  "apply_access_point request candidate flags =
     (let ssid = nc_ssid (rq_access_point request); passphrase = nc_passphrase (rq_access_point request)
      in if \<not> rq_has_access_point request then (APP_V2_SETTINGS_UPDATE_OK, candidate, flags)
         else if \<not> view_valid_text ssid 1 APP_V2_WIFI_SSID_MAX_BYTES
         then (APP_V2_SETTINGS_UPDATE_INVALID_ACCESS_POINT_SSID, candidate, flags)
         else if \<not> view_valid_text passphrase APP_V2_WIFI_PASSPHRASE_MIN_BYTES APP_V2_WIFI_PASSPHRASE_MAX_BYTES
         then (APP_V2_SETTINGS_UPDATE_INVALID_ACCESS_POINT_PASSPHRASE, candidate, flags)
         else (case (copy_view 33 ssid, copy_view 64 passphrase) of
             (Some s, Some p) \<Rightarrow> (APP_V2_SETTINGS_UPDATE_OK, candidate\<lparr>ap_ssid := s, ap_passphrase := p\<rparr>,
               flags\<lparr>uf_restart_required := True, uf_reconnect_required := True\<rparr>)
           | (Some s, None) \<Rightarrow>
               (APP_V2_SETTINGS_UPDATE_INVALID_ACCESS_POINT_PASSPHRASE, candidate\<lparr>ap_ssid := s\<rparr>, flags)
           | (None, _) \<Rightarrow> (APP_V2_SETTINGS_UPDATE_INVALID_ACCESS_POINT_PASSPHRASE, candidate, flags)))"

definition apply_station ::
    "settings_update_request \<Rightarrow> device_settings \<Rightarrow> settings_update_flags \<Rightarrow> network_step" where
  "apply_station request candidate flags =
     (let ssid = nc_ssid (rq_station request); passphrase = nc_passphrase (rq_station request)
      in if \<not> rq_has_station request then (APP_V2_SETTINGS_UPDATE_OK, candidate, flags)
         else if rq_remove_station request
         then (APP_V2_SETTINGS_UPDATE_OK,
           candidate\<lparr>station_configured := False, station_ssid := zeros 33, station_passphrase := zeros 64\<rparr>,
           flags\<lparr>uf_restart_required := True\<rparr>)
         else if \<not> view_valid_text ssid 1 APP_V2_WIFI_SSID_MAX_BYTES
         then (APP_V2_SETTINGS_UPDATE_INVALID_STATION_SSID, candidate, flags)
         else if \<not> view_valid_text passphrase APP_V2_WIFI_PASSPHRASE_MIN_BYTES APP_V2_WIFI_PASSPHRASE_MAX_BYTES
         then (APP_V2_SETTINGS_UPDATE_INVALID_STATION_PASSPHRASE, candidate, flags)
         else (case (copy_view 33 ssid, copy_view 64 passphrase) of
             (Some s, Some p) \<Rightarrow> (APP_V2_SETTINGS_UPDATE_OK,
               candidate\<lparr>station_ssid := s, station_passphrase := p, station_configured := True\<rparr>,
               flags\<lparr>uf_restart_required := True\<rparr>)
           | (Some s, None) \<Rightarrow>
               (APP_V2_SETTINGS_UPDATE_INVALID_STATION_PASSPHRASE, candidate\<lparr>station_ssid := s\<rparr>, flags)
           | (None, _) \<Rightarrow> (APP_V2_SETTINGS_UPDATE_INVALID_STATION_PASSPHRASE, candidate, flags)))"

text \<open>The steps of an update, each only while the result is still good.\<close>

definition apply_fields ::
    "settings_update_request \<Rightarrow> device_settings \<Rightarrow> settings_update_result \<times> device_settings \<times> settings_update_flags" where
  "apply_fields request current =
     (let flags = \<lparr>uf_restart_required = False, uf_reconnect_required = False\<rparr>;
          (result, candidate) = apply_device_name request current;
          candidate = (if result = APP_V2_SETTINGS_UPDATE_OK \<and> rq_has_require_serial_confirmation request
            then candidate\<lparr>require_serial_confirmation := rq_require_serial_confirmation request\<rparr> else candidate);
          (result, candidate) = (if result = APP_V2_SETTINGS_UPDATE_OK
            then apply_snapshot_retention_target request candidate else (result, candidate));
          (result, candidate) = (if result = APP_V2_SETTINGS_UPDATE_OK
            then apply_last_selected_package_id request candidate else (result, candidate));
          (result, candidate, flags) = (if result = APP_V2_SETTINGS_UPDATE_OK
            then apply_access_point request candidate flags else (result, candidate, flags));
          (result, candidate, flags) = (if result = APP_V2_SETTINGS_UPDATE_OK
            then apply_station request candidate flags else (result, candidate, flags))
      in (result, candidate, flags))"

text \<open>The outputs: the candidate and the two flags, all zero unless the update was accepted.\<close>

definition app_v2_settings_prepare_update ::
    "device_settings option \<Rightarrow> settings_update_request option \<Rightarrow>
      settings_update_result \<times> device_settings \<times> bool \<times> bool" where
  "app_v2_settings_prepare_update current request =
     (case (current, request) of
        (Some cur, Some request) \<Rightarrow>
          if app_v2_device_settings_validate current \<noteq> APP_V2_SETTINGS_OK \<or> \<not> provisioned cur
          then (APP_V2_SETTINGS_UPDATE_INVALID_CURRENT_SETTINGS, zero_settings, False, False)
          else if settings_update_request_is_empty request
          then (APP_V2_SETTINGS_UPDATE_EMPTY, zero_settings, False, False)
          else (case apply_fields request cur of (result, candidate, flags) \<Rightarrow>
            if result \<noteq> APP_V2_SETTINGS_UPDATE_OK then (result, zero_settings, False, False)
            else if app_v2_device_settings_validate (Some candidate) \<noteq> APP_V2_SETTINGS_OK
            then (APP_V2_SETTINGS_UPDATE_INVALID_CURRENT_SETTINGS, zero_settings, False, False)
            else (APP_V2_SETTINGS_UPDATE_OK, candidate, uf_restart_required flags, uf_reconnect_required flags))
      | _ \<Rightarrow> (APP_V2_SETTINGS_UPDATE_INVALID_ARGUMENT, zero_settings, False, False))"

section \<open>The password\<close>

definition app_v2_password_change_validate ::
    "device_settings option \<Rightarrow> string_view \<Rightarrow> password_change_result" where
  "app_v2_password_change_validate current new_password =
     (case current of
        None \<Rightarrow> APP_V2_PASSWORD_CHANGE_INVALID_ARGUMENT
      | Some cur \<Rightarrow>
          if app_v2_device_settings_validate current \<noteq> APP_V2_SETTINGS_OK \<or> \<not> provisioned cur
          then APP_V2_PASSWORD_CHANGE_INVALID_CURRENT_SETTINGS
          else if \<not> view_valid_text new_password APP_V2_ADMIN_PASSWORD_MIN_BYTES APP_V2_ADMIN_PASSWORD_MAX_BYTES
          then APP_V2_PASSWORD_CHANGE_INVALID_NEW_PASSWORD
          else APP_V2_PASSWORD_CHANGE_OK)"

definition with_material :: "password_material \<Rightarrow> device_settings \<Rightarrow> device_settings" where
  "with_material material cur = cur\<lparr>credential_version := pm_credential_version material,
     password_algorithm_version := pm_password_algorithm_version material,
     password_iterations := pm_password_iterations material,
     password_salt := pm_password_salt material, password_verifier := pm_password_verifier material\<rparr>"

definition app_v2_password_change_prepare_candidate ::
    "device_settings option \<Rightarrow> password_material option \<Rightarrow> bool \<times> device_settings" where
  "app_v2_password_change_prepare_candidate current material =
     (case (current, material) of
        (Some cur, Some material) \<Rightarrow>
          let candidate = with_material material cur
          in if app_v2_device_settings_validate (Some candidate) \<noteq> APP_V2_SETTINGS_OK then (False, zero_settings)
             else (True, candidate)
      | _ \<Rightarrow> (False, zero_settings))"

section \<open>What an update does\<close>

text \<open>
  The specification of an update: the first field of the request that is refused, in the order
  the code looks at them, and the settings with every field of the request put in place.
\<close>

definition request_error :: "settings_update_request \<Rightarrow> settings_update_result" where
  "request_error rq =
     (let ap = rq_access_point rq; sta = rq_station rq;
          sets_station = (rq_has_station rq \<and> \<not> rq_remove_station rq)
      in if rq_has_device_name rq \<and> \<not> view_valid_text (rq_device_name rq) 1 32
         then APP_V2_SETTINGS_UPDATE_INVALID_DEVICE_NAME
         else if rq_has_snapshot_retention_target rq \<and> 100 < unat (rq_snapshot_retention_target rq)
         then APP_V2_SETTINGS_UPDATE_INVALID_SNAPSHOT_RETENTION_TARGET
         else if rq_has_last_selected_package_id rq \<and>
           (\<exists>v \<in> set_option (rq_last_selected_package_id rq). \<not> valid_uuid_v4 v)
         then APP_V2_SETTINGS_UPDATE_INVALID_LAST_SELECTED_PACKAGE_ID
         else if rq_has_access_point rq \<and> \<not> view_valid_text (nc_ssid ap) 1 32
         then APP_V2_SETTINGS_UPDATE_INVALID_ACCESS_POINT_SSID
         else if rq_has_access_point rq \<and> \<not> view_valid_text (nc_passphrase ap) 8 63
         then APP_V2_SETTINGS_UPDATE_INVALID_ACCESS_POINT_PASSPHRASE
         else if sets_station \<and> \<not> view_valid_text (nc_ssid sta) 1 32
         then APP_V2_SETTINGS_UPDATE_INVALID_STATION_SSID
         else if sets_station \<and> \<not> view_valid_text (nc_passphrase sta) 8 63
         then APP_V2_SETTINGS_UPDATE_INVALID_STATION_PASSPHRASE
         else APP_V2_SETTINGS_UPDATE_OK)"

definition put_text :: "bool \<Rightarrow> nat \<Rightarrow> string_view \<Rightarrow> u8 list \<Rightarrow> u8 list" where
  "put_text present n v old = (if present then padded n (the v) else old)"

definition with_name :: "settings_update_request \<Rightarrow> device_settings \<Rightarrow> device_settings" where
  "with_name rq s = s\<lparr>device_name := put_text (rq_has_device_name rq) 33 (rq_device_name rq) (device_name s)\<rparr>"

definition with_preferences :: "settings_update_request \<Rightarrow> device_settings \<Rightarrow> device_settings" where
  "with_preferences rq s = s
     \<lparr>require_serial_confirmation := (if rq_has_require_serial_confirmation rq
        then rq_require_serial_confirmation rq else require_serial_confirmation s),
      snapshot_retention_target := (if rq_has_snapshot_retention_target rq
        then rq_snapshot_retention_target rq else snapshot_retention_target s),
      last_selected_package_id := put_text (rq_has_last_selected_package_id rq) 37
        (case rq_last_selected_package_id rq of None \<Rightarrow> Some [] | Some v \<Rightarrow> v) (last_selected_package_id s)\<rparr>"

definition with_access_point :: "settings_update_request \<Rightarrow> device_settings \<Rightarrow> device_settings" where
  "with_access_point rq s = s
     \<lparr>ap_ssid := put_text (rq_has_access_point rq) 33 (nc_ssid (rq_access_point rq)) (ap_ssid s),
      ap_passphrase := put_text (rq_has_access_point rq) 64 (nc_passphrase (rq_access_point rq)) (ap_passphrase s)\<rparr>"

definition with_station :: "settings_update_request \<Rightarrow> device_settings \<Rightarrow> device_settings" where
  "with_station rq s =
     (if \<not> rq_has_station rq then s
      else if rq_remove_station rq
      then s\<lparr>station_configured := False, station_ssid := zeros 33, station_passphrase := zeros 64\<rparr>
      else s\<lparr>station_configured := True, station_ssid := padded 33 (the (nc_ssid (rq_station rq))),
             station_passphrase := padded 64 (the (nc_passphrase (rq_station rq)))\<rparr>)"

definition updated :: "settings_update_request \<Rightarrow> device_settings \<Rightarrow> device_settings" where
  "updated rq s = with_station rq (with_access_point rq (with_preferences rq (with_name rq s)))"

lemma copy_view_padded: "length t < n \<Longrightarrow> copy_view n (Some t) = Some (padded n t)"
  by (simp add: copy_view_def) (simp add: padded_def blit_def)

lemma view_valid_textE:
  assumes "view_valid_text v lo hi"
  obtains t where "v = Some t" and "0 \<notin> set t" and "lo \<le> length t" and "length t \<le> hi" and "valid_utf8 t"
  using assms by (auto simp: view_valid_text_def list_all_iff split: option.splits if_splits)

lemma copy_view_valid:
  "view_valid_text v lo hi \<Longrightarrow> hi < n \<Longrightarrow> copy_view n v = Some (padded n (the v))"
  by (erule view_valid_textE) (simp add: copy_view_padded)

lemma stored_view_valid:
  "view_valid_text v lo hi \<Longrightarrow> hi < n \<Longrightarrow> valid_text (padded n (the v)) n lo hi \<and> length (padded n (the v)) = n"
  by (erule view_valid_textE) (simp add: valid_text_padded)

lemma uuid_no_nul: "uuid_characters i cs \<Longrightarrow> 0 \<notin> set cs"
  by (induction i cs rule: uuid_characters.induct) (auto split: if_splits)

lemma valid_uuid_v4E:
  assumes "valid_uuid_v4 v"
  obtains t where "v = Some t" and "length t = 36" and "uuid_characters 0 t" and "t ! 14 = 0x34"
    and "t ! 19 = 0x38 \<or> t ! 19 = 0x39 \<or> t ! 19 = 0x61 \<or> t ! 19 = 0x62"
  using assms by (auto simp: valid_uuid_v4_def split: option.splits)

lemma stored_uuid_valid:
  assumes "valid_uuid_v4 v"
  shows "copy_view 37 v = Some (padded 37 (the v))" and "valid_uuid_or_empty (padded 37 (the v))"
    and "length (padded 37 (the v)) = 37"
proof -
  obtain t where t: "v = Some t" "length t = 36" "uuid_characters 0 t" "t ! 14 = 0x34"
    "t ! 19 = 0x38 \<or> t ! 19 = 0x39 \<or> t ! 19 = 0x61 \<or> t ! 19 = 0x62"
    by (rule valid_uuid_v4E [OF assms])
  show "copy_view 37 v = Some (padded 37 (the v))" "length (padded 37 (the v)) = 37"
    using t(1,2) by (simp_all add: copy_view_padded)
  have "bounded_length (padded 37 t) 37 = Some 36"
    using uuid_no_nul [OF t(3)] t(2) by simp
  moreover have "take 36 (padded 37 t) = t" "padded 37 t ! 14 = t ! 14" "padded 37 t ! 19 = t ! 19"
    using t(2) by (simp_all add: padded_def nth_append)
  ultimately show "valid_uuid_or_empty (padded 37 (the v))"
    using t by (simp add: valid_uuid_or_empty_def limit_defs)
qed

lemma apply_device_name_spec:
  "apply_device_name rq s =
     (if rq_has_device_name rq \<and> \<not> view_valid_text (rq_device_name rq) 1 32
      then (APP_V2_SETTINGS_UPDATE_INVALID_DEVICE_NAME, s) else (APP_V2_SETTINGS_UPDATE_OK, with_name rq s))"
  by (simp add: apply_device_name_def limit_defs copy_view_valid with_name_def put_text_def)

lemma apply_snapshot_spec:
  "apply_snapshot_retention_target rq s =
     (if rq_has_snapshot_retention_target rq \<and> 100 < unat (rq_snapshot_retention_target rq)
      then (APP_V2_SETTINGS_UPDATE_INVALID_SNAPSHOT_RETENTION_TARGET, s)
      else (APP_V2_SETTINGS_UPDATE_OK, s\<lparr>snapshot_retention_target := if rq_has_snapshot_retention_target rq
        then rq_snapshot_retention_target rq else snapshot_retention_target s\<rparr>))"
  by (simp add: apply_snapshot_retention_target_def limit_defs)

lemma apply_package_spec:
  "apply_last_selected_package_id rq s =
     (if rq_has_last_selected_package_id rq \<and>
         (\<exists>v \<in> set_option (rq_last_selected_package_id rq). \<not> valid_uuid_v4 v)
      then (APP_V2_SETTINGS_UPDATE_INVALID_LAST_SELECTED_PACKAGE_ID, s)
      else (APP_V2_SETTINGS_UPDATE_OK, s\<lparr>last_selected_package_id :=
        put_text (rq_has_last_selected_package_id rq) 37
          (case rq_last_selected_package_id rq of None \<Rightarrow> Some [] | Some v \<Rightarrow> v) (last_selected_package_id s)\<rparr>))"
  by (cases "rq_last_selected_package_id rq")
    (simp_all add: apply_last_selected_package_id_def put_text_def stored_uuid_valid padded_def)

lemma apply_access_point_spec:
  "apply_access_point rq s flags =
     (if rq_has_access_point rq \<and> \<not> view_valid_text (nc_ssid (rq_access_point rq)) 1 32
      then (APP_V2_SETTINGS_UPDATE_INVALID_ACCESS_POINT_SSID, s, flags)
      else if rq_has_access_point rq \<and> \<not> view_valid_text (nc_passphrase (rq_access_point rq)) 8 63
      then (APP_V2_SETTINGS_UPDATE_INVALID_ACCESS_POINT_PASSPHRASE, s, flags)
      else (APP_V2_SETTINGS_UPDATE_OK, with_access_point rq s,
        if rq_has_access_point rq then flags\<lparr>uf_restart_required := True, uf_reconnect_required := True\<rparr> else flags))"
  by (simp add: apply_access_point_def Let_def limit_defs copy_view_valid with_access_point_def put_text_def)

lemma apply_station_spec:
  "apply_station rq s flags =
     (if (rq_has_station rq \<and> \<not> rq_remove_station rq) \<and> \<not> view_valid_text (nc_ssid (rq_station rq)) 1 32
      then (APP_V2_SETTINGS_UPDATE_INVALID_STATION_SSID, s, flags)
      else if (rq_has_station rq \<and> \<not> rq_remove_station rq) \<and> \<not> view_valid_text (nc_passphrase (rq_station rq)) 8 63
      then (APP_V2_SETTINGS_UPDATE_INVALID_STATION_PASSPHRASE, s, flags)
      else (APP_V2_SETTINGS_UPDATE_OK, with_station rq s,
        if rq_has_station rq then flags\<lparr>uf_restart_required := True\<rparr> else flags))"
  by (simp add: apply_station_def Let_def limit_defs copy_view_valid with_station_def)

lemmas apply_specs = apply_device_name_spec apply_snapshot_spec apply_package_spec apply_access_point_spec apply_station_spec

lemma apply_fields_error:
  "request_error rq \<noteq> APP_V2_SETTINGS_UPDATE_OK \<Longrightarrow> fst (apply_fields rq s) = request_error rq"
  unfolding apply_fields_def apply_specs request_error_def Let_def by (auto split: if_splits)

lemma apply_fields_ok:
  assumes "request_error rq = APP_V2_SETTINGS_UPDATE_OK"
  shows "apply_fields rq s = (APP_V2_SETTINGS_UPDATE_OK, updated rq s,
    \<lparr>uf_restart_required = rq_has_access_point rq \<or> rq_has_station rq,
     uf_reconnect_required = rq_has_access_point rq\<rparr>)"
proof -
  have ok: "apply_device_name rq s = (APP_V2_SETTINGS_UPDATE_OK, with_name rq s)"
    "apply_snapshot_retention_target rq c = (APP_V2_SETTINGS_UPDATE_OK, c\<lparr>snapshot_retention_target :=
       if rq_has_snapshot_retention_target rq then rq_snapshot_retention_target rq else snapshot_retention_target c\<rparr>)"
    "fst (apply_last_selected_package_id rq c) = APP_V2_SETTINGS_UPDATE_OK"
    "apply_access_point rq c f = (APP_V2_SETTINGS_UPDATE_OK, with_access_point rq c,
        if rq_has_access_point rq then f\<lparr>uf_restart_required := True, uf_reconnect_required := True\<rparr> else f)"
    "apply_station rq c f = (APP_V2_SETTINGS_UPDATE_OK, with_station rq c,
        if rq_has_station rq then f\<lparr>uf_restart_required := True\<rparr> else f)" for c f
    using assms
    unfolding apply_specs request_error_def Let_def by (auto split: if_splits)
  have "apply_last_selected_package_id rq c = (APP_V2_SETTINGS_UPDATE_OK, c\<lparr>last_selected_package_id :=
        put_text (rq_has_last_selected_package_id rq) 37
          (case rq_last_selected_package_id rq of None \<Rightarrow> Some [] | Some v \<Rightarrow> v) (last_selected_package_id c)\<rparr>)" for c
    using ok(3) [of c] by (simp add: apply_package_spec split: if_splits)
  note ok = ok(1,2,4,5) this
  show ?thesis
    by (simp add: apply_fields_def ok Let_def updated_def with_preferences_def)
qed

section \<open>An accepted update leaves valid settings\<close>

lemma provisioned_valid:
  "provisioned s \<Longrightarrow> app_v2_device_settings_validate (Some s) = APP_V2_SETTINGS_OK \<longleftrightarrow>
     credential_version s = APP_V2_CREDENTIAL_VERSION \<and>
     password_algorithm_version s = APP_V2_PASSWORD_ALGORITHM_VERSION \<and>
     unat (snapshot_retention_target s) \<le> 100 \<and> valid_uuid_or_empty (last_selected_package_id s) \<and>
     valid_text (device_name s) 33 1 32 \<and> credential_bytes_present s \<and>
     valid_text (ap_ssid s) 33 1 32 \<and> valid_text (ap_passphrase s) 64 8 63 \<and> station_fields_valid s"
  by (auto simp: app_v2_device_settings_validate_def limit_defs not_less split: if_splits)

text \<open>Settings in good order, for a provisioned device.\<close>

definition settings_good :: "device_settings \<Rightarrow> bool" where
  "settings_good s \<longleftrightarrow> settings_sized s \<and> provisioned s \<and>
     app_v2_device_settings_validate (Some s) = APP_V2_SETTINGS_OK"

lemma request_okD:
  assumes "request_error rq = APP_V2_SETTINGS_UPDATE_OK"
  shows "rq_has_device_name rq \<Longrightarrow> view_valid_text (rq_device_name rq) 1 32"
    and "rq_has_snapshot_retention_target rq \<Longrightarrow> unat (rq_snapshot_retention_target rq) \<le> 100"
    and "rq_has_last_selected_package_id rq \<Longrightarrow> rq_last_selected_package_id rq = Some v \<Longrightarrow> valid_uuid_v4 v"
    and "rq_has_access_point rq \<Longrightarrow> view_valid_text (nc_ssid (rq_access_point rq)) 1 32 \<and>
      view_valid_text (nc_passphrase (rq_access_point rq)) 8 63"
    and "rq_has_station rq \<Longrightarrow> \<not> rq_remove_station rq \<Longrightarrow> view_valid_text (nc_ssid (rq_station rq)) 1 32 \<and>
      view_valid_text (nc_passphrase (rq_station rq)) 8 63"
  using assms unfolding request_error_def Let_def by (auto split: if_splits)

text \<open>Which fields the parts of the validation look at.\<close>

lemma validation_frame [simp]:
  "station_fields_valid (s\<lparr>device_name := a\<rparr>) = station_fields_valid s"
  "station_fields_valid (s\<lparr>require_serial_confirmation := b, snapshot_retention_target := c,
     last_selected_package_id := d\<rparr>) = station_fields_valid s"
  "station_fields_valid (s\<lparr>ap_ssid := a, ap_passphrase := d\<rparr>) = station_fields_valid s"
  "credential_bytes_present (s\<lparr>device_name := a\<rparr>) = credential_bytes_present s"
  "credential_bytes_present (s\<lparr>require_serial_confirmation := b, snapshot_retention_target := c,
     last_selected_package_id := d\<rparr>) = credential_bytes_present s"
  "credential_bytes_present (s\<lparr>ap_ssid := a, ap_passphrase := d\<rparr>) = credential_bytes_present s"
  "credential_bytes_present (s\<lparr>station_configured := b, station_ssid := a, station_passphrase := d\<rparr>)
     = credential_bytes_present s"
  by (simp_all add: station_fields_valid_def station_passphrase_valid_def credential_bytes_present_def
      cong: option.case_cong)

lemma good_iff:
  "settings_good s \<longleftrightarrow> settings_sized s \<and> provisioned s \<and>
     credential_version s = APP_V2_CREDENTIAL_VERSION \<and>
     password_algorithm_version s = APP_V2_PASSWORD_ALGORITHM_VERSION \<and>
     unat (snapshot_retention_target s) \<le> 100 \<and> valid_uuid_or_empty (last_selected_package_id s) \<and>
     valid_text (device_name s) 33 1 32 \<and> credential_bytes_present s \<and>
     valid_text (ap_ssid s) 33 1 32 \<and> valid_text (ap_passphrase s) 64 8 63 \<and> station_fields_valid s"
  using provisioned_valid [of s] by (auto simp: settings_good_def)

lemma with_name_good:
  assumes "settings_good s" and "request_error rq = APP_V2_SETTINGS_UPDATE_OK"
  shows "settings_good (with_name rq s)"
  using assms(1) stored_view_valid [OF request_okD(1) [OF assms(2)], of 33]
  by (simp add: good_iff with_name_def put_text_def settings_sized_def)

lemma with_preferences_good:
  assumes "settings_good s" and "request_error rq = APP_V2_SETTINGS_UPDATE_OK"
  shows "settings_good (with_preferences rq s)"
proof -
  have "valid_uuid_or_empty (last_selected_package_id (with_preferences rq s)) \<and>
      length (last_selected_package_id (with_preferences rq s)) = 37"
    using assms(1) stored_uuid_valid(2,3) [OF request_okD(3) [OF assms(2)]]
    by (cases "rq_last_selected_package_id rq")
      (simp_all add: good_iff with_preferences_def put_text_def settings_sized_def padded_def)
  then show ?thesis
    using assms(1) request_okD(2) [OF assms(2)]
    by (simp add: good_iff with_preferences_def settings_sized_def)
qed

lemma with_access_point_good:
  assumes "settings_good s" and "request_error rq = APP_V2_SETTINGS_UPDATE_OK"
  shows "settings_good (with_access_point rq s)"
  using assms(1) request_okD(4) [OF assms(2)]
    stored_view_valid [of "nc_ssid (rq_access_point rq)" 1 32 33]
    stored_view_valid [of "nc_passphrase (rq_access_point rq)" 8 63 64]
  by (simp add: good_iff with_access_point_def put_text_def settings_sized_def)

lemma stored_passphrase_valid:
  assumes "view_valid_text v 8 63"
  shows "station_passphrase_valid (s\<lparr>station_passphrase := padded 64 (the v)\<rparr>)"
proof -
  obtain t where t: "v = Some t" "0 \<notin> set t" "8 \<le> length t" "length t \<le> 63" "valid_utf8 t"
    by (rule view_valid_textE [OF assms])
  then have "bounded_length (padded 64 t) 64 = Some (length t)" "take (length t) (padded 64 t) = t"
    by (simp, simp add: padded_def)
  with t show ?thesis
    by (simp add: station_passphrase_valid_def limit_defs)
qed

lemma with_station_good:
  assumes "settings_good s" and "request_error rq = APP_V2_SETTINGS_UPDATE_OK"
  shows "settings_good (with_station rq s)"
proof (cases "rq_has_station rq \<and> \<not> rq_remove_station rq")
  case True
  then have v: "view_valid_text (nc_ssid (rq_station rq)) 1 32"
    "view_valid_text (nc_passphrase (rq_station rq)) 8 63"
    using request_okD(5) [OF assms(2)] by simp_all
  show ?thesis
    using assms(1) True stored_view_valid [OF v(1), of 33] stored_view_valid [OF v(2), of 64]
      stored_passphrase_valid [OF v(2)]
    by (simp add: good_iff with_station_def settings_sized_def
        station_fields_valid_def limit_defs)
next
  case False
  then show ?thesis
    using assms(1)
    by (cases "rq_has_station rq") (simp_all add: good_iff with_station_def settings_sized_def
        station_fields_valid_def [of "_ \<lparr>station_configured := False, station_ssid := _, station_passphrase := _\<rparr>"]
        valid_text_empty)
qed

lemmas with_good = with_name_good with_preferences_good with_access_point_good with_station_good

lemma updated_good:
  "settings_good s \<Longrightarrow> request_error rq = APP_V2_SETTINGS_UPDATE_OK \<Longrightarrow> settings_good (updated rq s)"
  unfolding updated_def by (intro with_good)

text \<open>The fields no update may touch.\<close>

definition credentials_of :: "device_settings \<Rightarrow> u16 \<times> u16 \<times> u32 \<times> u8 list \<times> u8 list \<times> u64" where
  "credentials_of s = (credential_version s, password_algorithm_version s, password_iterations s,
     password_salt s, password_verifier s, next_blob_id s)"

lemma updated_credentials [simp]: "credentials_of (updated rq s) = credentials_of s"
  by (simp add: credentials_of_def updated_def with_station_def with_access_point_def
      with_preferences_def with_name_def)

lemma prepare_update_cases:
  assumes "settings_good cur"
  shows "app_v2_settings_prepare_update (Some cur) (Some rq) =
      (if settings_update_request_is_empty rq then (APP_V2_SETTINGS_UPDATE_EMPTY, zero_settings, False, False)
       else if request_error rq \<noteq> APP_V2_SETTINGS_UPDATE_OK then (request_error rq, zero_settings, False, False)
       else (APP_V2_SETTINGS_UPDATE_OK, updated rq cur,
         rq_has_access_point rq \<or> rq_has_station rq, rq_has_access_point rq))"
  using assms updated_good [OF assms] apply_fields_error [of rq cur] apply_fields_ok [of rq cur]
  by (cases "request_error rq = APP_V2_SETTINGS_UPDATE_OK")
    (auto simp: app_v2_settings_prepare_update_def settings_good_def split: prod.splits)

lemma settings_update_accepted:
  "settings_good cur \<Longrightarrow> \<not> settings_update_request_is_empty rq \<Longrightarrow>
     request_error rq = APP_V2_SETTINGS_UPDATE_OK \<Longrightarrow>
     app_v2_settings_prepare_update (Some cur) (Some rq) =
       (APP_V2_SETTINGS_UPDATE_OK, updated rq cur, rq_has_access_point rq \<or> rq_has_station rq, rq_has_access_point rq)"
  by (simp add: prepare_update_cases)

lemma settings_update_refused:
  "settings_good cur \<and> (settings_update_request_is_empty rq \<or> request_error rq \<noteq> APP_V2_SETTINGS_UPDATE_OK) \<or>
     \<not> provisioned cur \<Longrightarrow>
     fst (app_v2_settings_prepare_update (Some cur) (Some rq)) \<noteq> APP_V2_SETTINGS_UPDATE_OK"
  using prepare_update_cases [of cur rq] by (auto simp: app_v2_settings_prepare_update_def)

text \<open>
  A settings update is exact.  On valid settings of a provisioned device it answers an empty
  request as empty, otherwise the first refused field in the order of the code with nothing
  prepared, and otherwise prepares the current settings with exactly the requested fields
  replaced; the prepared settings are well sized, valid and still provisioned, so the final
  check never refuses them, the credentials and the identifier counter are the old ones, and a
  restart is announced exactly for network changes, a reconnect exactly for the access point.
\<close>
theorem settings_update_exact:
  assumes "settings_good cur"
  shows "app_v2_settings_prepare_update (Some cur) (Some rq) =
      (if settings_update_request_is_empty rq then (APP_V2_SETTINGS_UPDATE_EMPTY, zero_settings, False, False)
       else if request_error rq \<noteq> APP_V2_SETTINGS_UPDATE_OK then (request_error rq, zero_settings, False, False)
       else (APP_V2_SETTINGS_UPDATE_OK, updated rq cur,
         rq_has_access_point rq \<or> rq_has_station rq, rq_has_access_point rq))
    \<and> (request_error rq = APP_V2_SETTINGS_UPDATE_OK \<longrightarrow> settings_good (updated rq cur))
    \<and> credentials_of (updated rq cur) = credentials_of cur"
  using prepare_update_cases [OF assms] updated_good [OF assms] by simp

definition rename_request :: settings_update_request where
  "rename_request =
     \<lparr>rq_has_device_name = True, rq_device_name = Some (ascii ''Desk''),
      rq_has_require_serial_confirmation = False, rq_require_serial_confirmation = False,
      rq_has_snapshot_retention_target = True, rq_snapshot_retention_target = 9,
      rq_has_last_selected_package_id = True, rq_last_selected_package_id = None,
      rq_has_access_point = False, rq_access_point = \<lparr>nc_ssid = None, nc_passphrase = None\<rparr>,
      rq_has_station = True, rq_remove_station = True,
      rq_station = \<lparr>nc_ssid = None, nc_passphrase = None\<rparr>\<rparr>"

lemma sample_good: "settings_good sample_settings"
  using sample_sized sample_valid by (simp add: settings_good_def) (simp add: sample_settings_def)

lemma settings_update_exact_witness:
  "app_v2_settings_prepare_update (Some sample_settings) (Some rename_request) =
      (APP_V2_SETTINGS_UPDATE_OK, updated rename_request sample_settings, True, False)"
proof -
  have "view_valid_text (Some (ascii ''Desk'')) 1 32"
    by (simp add: view_valid_text_def ascii_utf8 list_all_iff) (simp add: ascii_def)
  then have "request_error rename_request = APP_V2_SETTINGS_UPDATE_OK"
    by (simp add: request_error_def rename_request_def)
  then show ?thesis
    using settings_update_exact [OF sample_good, of rename_request]
    by (simp add: settings_update_request_is_empty_def) (simp add: rename_request_def)
qed

section \<open>What a password change does\<close>

text \<open>
  A candidate for a new password differs from the current settings in the password record only,
  and is prepared exactly when that record is one a provisioned device may have.
\<close>

definition material_good :: "password_material \<Rightarrow> bool" where
  "material_good m \<longleftrightarrow> pm_credential_version m = APP_V2_CREDENTIAL_VERSION \<and>
     pm_password_algorithm_version m = APP_V2_PASSWORD_ALGORITHM_VERSION \<and> pm_password_iterations m \<noteq> 0 \<and>
     length (pm_password_salt m) = 16 \<and> length (pm_password_verifier m) = 32 \<and>
     pm_password_salt m \<noteq> zeros 16 \<and> pm_password_verifier m \<noteq> zeros 32"

lemma prepare_candidate_spec:
  assumes "settings_good cur" and "length (pm_password_salt m) = 16" and "length (pm_password_verifier m) = 32"
  shows "app_v2_password_change_prepare_candidate (Some cur) (Some m) =
      (if material_good m then (True, with_material m cur) else (False, zero_settings))"
    and "material_good m \<Longrightarrow> settings_good (with_material m cur)"
proof -
  have p: "provisioned cur" "provisioned (with_material m cur)"
    using assms(1) by (simp_all add: settings_good_def with_material_def)
  have sta: "station_fields_valid (with_material m cur) = station_fields_valid cur"
    by (simp add: with_material_def station_fields_valid_def station_passphrase_valid_def cong: option.case_cong)
  have cred: "credential_bytes_present (with_material m cur) \<longleftrightarrow> pm_password_iterations m \<noteq> 0 \<and>
      pm_password_salt m \<noteq> zeros 16 \<and> pm_password_verifier m \<noteq> zeros 32"
    using assms(2,3) by (simp add: with_material_def credential_bytes_present_def bytes_are_zero_iff)
  have "app_v2_device_settings_validate (Some (with_material m cur)) = APP_V2_SETTINGS_OK \<longleftrightarrow> material_good m"
    using assms by (auto simp: provisioned_valid [OF p(2)] good_iff sta cred material_good_def)
      (simp_all add: with_material_def)
  note v = this
  from v show "app_v2_password_change_prepare_candidate (Some cur) (Some m) =
      (if material_good m then (True, with_material m cur) else (False, zero_settings))"
    by (simp add: app_v2_password_change_prepare_candidate_def)
  show "settings_good (with_material m cur)" if "material_good m"
    using assms(1) p v that
    by (simp add: settings_good_def settings_sized_def) (simp add: with_material_def material_good_def)
qed

end
