(* ===== verification/Web_Json.thy ===== *)
theory Web_Json
  imports Settings_Update Complex_Main
begin

text \<open>
  What the handlers of \<open>web_server/\<close> that read a JSON body share: a parsed document as a tree,
  the calls of cJSON as a parameter with its documented behaviour, and the body rules of
  \<open>parse_exact_body\<close>.

  A number is the rational value of the \<open>double\<close>, \<open>None\<close> for an infinity (the parser has no
  other non-finite number).  A member of an object has the key \<open>None\<close> where the \<open>string\<close>
  pointer is null.  Wiping and deleting a tree ends its life and leaves no trace in the model.
\<close>

section \<open>Documents\<close>

datatype json =
    JNull
  | JBool bool
  | JNumber "rat option"
  | JString "u8 list"
  | JArray "json list"
  | JObject "(u8 list option \<times> json) list"

type_synonym json_fields = "(u8 list option \<times> json) list"

text \<open>
  The calls of cJSON: parsing a buffer of a given length, with the number of bytes read; the
  member of an object under a name; the creation of
  the n-th new object of a call; adding a member, which fails when memory is
  short; printing without white space.
\<close>

record cjson =
  cj_parse :: "u8 list \<Rightarrow> nat \<Rightarrow> (json \<times> nat) option"
  cj_item :: "json_fields \<Rightarrow> u8 list \<Rightarrow> json option"
  cj_create :: "nat \<Rightarrow> bool"
  cj_add :: "json_fields \<Rightarrow> u8 list \<Rightarrow> json \<Rightarrow> json_fields option"
  cj_print :: "json_fields \<Rightarrow> u8 list option"

definition field_of :: "json_fields \<Rightarrow> u8 list \<Rightarrow> json option" where
  "field_of members key = map_of members (Some key)"

definition keys_present :: "json_fields \<Rightarrow> bool" where
  "keys_present members \<longleftrightarrow> None \<notin> set (map fst members)"

text \<open>The documented behaviour: a member is found by its name, and added at the end.\<close>

definition cjson_documented :: "cjson \<Rightarrow> bool" where
  "cjson_documented cj \<longleftrightarrow>
     (\<forall>members key. keys_present members \<longrightarrow> cj_item cj members key = field_of members key) \<and>
     (\<forall>members key v out. cj_add cj members key v = Some out \<longrightarrow> out = members @ [(Some key, v)])"

lemma cjson_item: "cjson_documented cj \<Longrightarrow> keys_present members \<Longrightarrow> cj_item cj members key = field_of members key"
  by (simp add: cjson_documented_def)

lemma cjson_add: "cjson_documented cj \<Longrightarrow> cj_add cj members key v = Some out \<Longrightarrow> out = members @ [(Some key, v)]"
  by (simp add: cjson_documented_def)

section \<open>Bodies\<close>

text \<open>
  The body is the buffer of the caller, its length the capacity; the empty list stands for a
  null pointer or no capacity.
\<close>

definition NUL_ESCAPE :: "u8 list" where
  "NUL_ESCAPE = [0x5c, 0x75, 0x30, 0x30, 0x30, 0x30]"

definition bounded_body_length :: "u8 list \<Rightarrow> nat option" where
  "bounded_body_length body =
     (case bounded_length body (length body) of
        None \<Rightarrow> None
      | Some index \<Rightarrow> if 0 < index then Some index else None)"

definition contains_embedded_nul_escape :: "u8 list \<Rightarrow> nat \<Rightarrow> bool" where
  "contains_embedded_nul_escape body len =
     (if len < length NUL_ESCAPE then False
      else list_ex (\<lambda>index. slice index (length NUL_ESCAPE) body = NUL_ESCAPE)
             [0 ..< len - length NUL_ESCAPE + 1])"

text \<open>The document, when it is an object, and the body after the call.\<close>

definition parse_exact_body :: "cjson \<Rightarrow> u8 list \<Rightarrow> json_fields option \<times> u8 list" where
  "parse_exact_body cj body =
     (let wiped = zeros (length body)
      in case bounded_body_length body of
           None \<Rightarrow> (None, wiped)
         | Some body_length \<Rightarrow>
             if contains_embedded_nul_escape body body_length then (None, wiped)
             else (case cj_parse cj body (body_length + 1) of
                 Some (JObject members, parse_end) \<Rightarrow>
                   (if parse_end \<noteq> body_length then None else Some members, wiped)
               | _ \<Rightarrow> (None, wiped)))"

text \<open>A string member as a view: its bytes up to the terminator.\<close>

definition string_view_from_item :: "json option \<Rightarrow> string_view option" where
  "string_view_from_item item =
     (case item of Some (JString s) \<Rightarrow> Some (Some (c_text s)) | _ \<Rightarrow> None)"

text \<open>The loops over the members of an object that accept each of the expected names once.\<close>

fun exact_fields :: "u8 list list \<Rightarrow> u8 list list \<Rightarrow> json_fields \<Rightarrow> bool" where
  "exact_fields names seen [] = True"
| "exact_fields names seen ((key, item) # rest) =
     (case key of
        None \<Rightarrow> False
      | Some k \<Rightarrow>
          if k \<in> set names then (if k \<in> set seen then False else exact_fields names (k # seen) rest)
          else False)"

lemma exact_fields_iff:
  "exact_fields names seen members \<longleftrightarrow>
     (\<exists>keys. map fst members = map Some keys \<and> distinct keys \<and> set keys \<subseteq> set names \<and>
        set keys \<inter> set seen = {})"
proof (induction names seen members rule: exact_fields.induct)
  case (2 names seen key item rest)
  show ?case
  proof (cases key)
    case (Some k)
    have "(\<exists>keys. key # map fst rest = map Some keys \<and> P keys) \<longleftrightarrow>
        (\<exists>ks. map fst rest = map Some ks \<and> P (k # ks))" for P
      by (auto simp: Some Cons_eq_map_conv)
    with 2 Some show ?thesis by auto
  qed (auto simp: Cons_eq_map_conv)
qed simp

lemma exact_fields_present: "exact_fields names seen members \<Longrightarrow> keys_present members"
  unfolding exact_fields_iff keys_present_def by (metis imageE list.set_map option.distinct(1))

lemma parse_exact_wiped [simp]: "snd (parse_exact_body cj body) = zeros (length body)"
  by (simp add: parse_exact_body_def Let_def split: option.splits json.splits prod.splits)

end
