(* ===== verification/Web_Settings.thy ===== *)
theory Web_Settings
  imports Web_Json
begin

text \<open>
  The settings handlers of \<open>web_server/web_settings.c\<close>: reading and updating the settings, and
  the password change of the web interface and of the console, over a table of operations on a
  state \<open>'w\<close>.  \<open>None\<close> is a table the checks of the handlers refuse, a null pointer or one with
  a missing entry.  Wiping local copies leaves no trace in the model; the wiped body is given
  back.
\<close>

section \<open>Operations and results\<close>

record 'w web_settings_ops =
  so_settings_read :: "'w \<Rightarrow> app_error \<times> device_settings \<times> 'w"
  so_settings_replace :: "device_settings \<Rightarrow> 'w \<Rightarrow> app_error \<times> bool \<times> 'w"
  so_password_verify :: "string_view \<Rightarrow> device_settings \<Rightarrow> 'w \<Rightarrow> app_error \<times> bool \<times> 'w"
  so_password_create :: "string_view \<Rightarrow> 'w \<Rightarrow> app_error \<times> password_material \<times> 'w"
  so_password_transition_begin :: "'w \<Rightarrow> app_error \<times> 'w"
  so_password_activate :: "device_settings \<Rightarrow> 'w \<Rightarrow> 'w"
  so_password_transition_end :: "'w \<Rightarrow> 'w"
  so_invalidate_all_sessions :: "'w \<Rightarrow> app_error \<times> 'w"

datatype web_settings_get_result =
    WEB_SETTINGS_GET_OK
  | WEB_SETTINGS_GET_BACKEND_UNAVAILABLE
  | WEB_SETTINGS_GET_INTERNAL

datatype web_settings_put_result =
    WEB_SETTINGS_PUT_OK
  | WEB_SETTINGS_PUT_INVALID_BODY
  | WEB_SETTINGS_PUT_EMPTY
  | WEB_SETTINGS_PUT_INVALID_DEVICE_NAME
  | WEB_SETTINGS_PUT_INVALID_SNAPSHOT_RETENTION_TARGET
  | WEB_SETTINGS_PUT_INVALID_LAST_SELECTED_PACKAGE_ID
  | WEB_SETTINGS_PUT_INVALID_ACCESS_POINT_SSID
  | WEB_SETTINGS_PUT_INVALID_ACCESS_POINT_PASSPHRASE
  | WEB_SETTINGS_PUT_INVALID_STATION_SSID
  | WEB_SETTINGS_PUT_INVALID_STATION_PASSPHRASE
  | WEB_SETTINGS_PUT_BACKEND_UNAVAILABLE
  | WEB_SETTINGS_PUT_INTERNAL

datatype web_change_password_result =
    WEB_CHANGE_PASSWORD_OK
  | WEB_CHANGE_PASSWORD_INVALID_BODY
  | WEB_CHANGE_PASSWORD_INVALID_NEW_PASSWORD
  | WEB_CHANGE_PASSWORD_INCORRECT_CURRENT_PASSWORD
  | WEB_CHANGE_PASSWORD_COMMITTED_SESSION_INVALIDATION_INCOMPLETE
  | WEB_CHANGE_PASSWORD_BACKEND_UNAVAILABLE
  | WEB_CHANGE_PASSWORD_INTERNAL

text \<open>An outcome is a result with the error of the backend behind it.\<close>

type_synonym web_settings_get_outcome = "web_settings_get_result \<times> app_error"
type_synonym web_settings_put_outcome = "web_settings_put_result \<times> app_error"
type_synonym web_change_password_outcome = "web_change_password_result \<times> app_error"

section \<open>The response\<close>

definition add_optional_string ::
    "cjson \<Rightarrow> u8 list \<Rightarrow> u8 list option \<Rightarrow> json_fields \<Rightarrow> json_fields option" where
  "add_optional_string cj key v doc =
     (case v of
        None \<Rightarrow> cj_add cj doc key JNull
      | Some txt \<Rightarrow> if 37 \<le> length txt then None else cj_add cj doc key (JString txt))"

definition add_view_string ::
    "cjson \<Rightarrow> u8 list \<Rightarrow> u8 list \<Rightarrow> json_fields \<Rightarrow> json_fields option" where
  "add_view_string cj key v doc =
     (if 33 \<le> length v then None else cj_add cj doc key (JString v))"

definition settings_response_populate ::
    "cjson \<Rightarrow> settings_response \<Rightarrow> json_fields \<Rightarrow> json_fields option" where
  "settings_response_populate cj response doc =
     do {
       doc \<leftarrow> add_view_string cj (ascii ''deviceName'') (sr_device_name response) doc;
       doc \<leftarrow> cj_add cj doc (ascii ''requireSerialConfirmation'')
         (JBool (sr_require_serial_confirmation response));
       doc \<leftarrow> cj_add cj doc (ascii ''snapshotRetentionTarget'')
         (JNumber (Some (of_nat (unat (sr_snapshot_retention_target response)))));
       doc \<leftarrow> add_optional_string cj (ascii ''lastSelectedPackageId'')
         (sr_last_selected_package_id response) doc;
       doc \<leftarrow> add_view_string cj (ascii ''apSsid'') (sr_ap_ssid response) doc;
       doc \<leftarrow> cj_add cj doc (ascii ''stationConfigured'') (JBool (sr_station_configured response));
       add_optional_string cj (ascii ''stationSsid'') (sr_station_ssid response) doc
     }"

text \<open>\<open>GET\<close>: the outcome, the document and the state.\<close>

definition web_settings_get_handle ::
    "cjson \<Rightarrow> 'w web_settings_ops option \<Rightarrow> 'w \<Rightarrow> web_settings_get_outcome \<times> u8 list option \<times> 'w" where
  "web_settings_get_handle cj ops w =
     (case ops of
        None \<Rightarrow> ((WEB_SETTINGS_GET_INTERNAL, APP_ERROR_NONE), None, w)
      | Some ops \<Rightarrow>
          (case so_settings_read ops w of (read_result, settings, w) \<Rightarrow>
            if read_result \<noteq> APP_ERROR_NONE
            then ((WEB_SETTINGS_GET_BACKEND_UNAVAILABLE, read_result), None, w)
            else (case app_v2_settings_response_from_settings (Some settings) of (result, response) \<Rightarrow>
              if result \<noteq> APP_V2_SETTINGS_UPDATE_OK
              then ((WEB_SETTINGS_GET_INTERNAL, APP_ERROR_NONE), None, w)
              else if \<not> cj_create cj 0 then ((WEB_SETTINGS_GET_INTERNAL, APP_ERROR_NONE), None, w)
              else (case settings_response_populate cj response [] of
                  None \<Rightarrow> ((WEB_SETTINGS_GET_INTERNAL, APP_ERROR_NONE), None, w)
                | Some doc \<Rightarrow>
                    (case cj_print cj doc of
                       None \<Rightarrow> ((WEB_SETTINGS_GET_INTERNAL, APP_ERROR_NONE), None, w)
                     | Some json \<Rightarrow> ((WEB_SETTINGS_GET_OK, APP_ERROR_NONE), Some json, w))))))"

section \<open>The update\<close>

definition SETTINGS_PUT_FIELDS :: "u8 list list" where
  "SETTINGS_PUT_FIELDS = map ascii [''deviceName'', ''requireSerialConfirmation'',
     ''snapshotRetentionTarget'', ''lastSelectedPackageId'', ''accessPoint'', ''station'']"

definition exact_settings_put_fields :: "json_fields \<Rightarrow> bool" where
  "exact_settings_put_fields doc = exact_fields SETTINGS_PUT_FIELDS [] doc"

text \<open>The loop of \<open>exact_credential_fields\<close>: the two members found and their count.\<close>

fun credential_fields ::
    "json_fields \<Rightarrow> json option \<Rightarrow> json option \<Rightarrow> nat \<Rightarrow> (json option \<times> json option \<times> nat) option" where
  "credential_fields [] ssid passphrase field_count = Some (ssid, passphrase, field_count)"
| "credential_fields ((key, item) # rest) ssid passphrase field_count =
     (case key of
        None \<Rightarrow> None
      | Some k \<Rightarrow>
          if k = ascii ''ssid'' \<and> ssid = None
          then credential_fields rest (Some item) passphrase (field_count + 1)
          else if k = ascii ''passphrase'' \<and> passphrase = None
          then credential_fields rest ssid (Some item) (field_count + 1)
          else None)"

definition exact_credential_fields :: "json \<Rightarrow> network_credentials option" where
  "exact_credential_fields object =
     (case object of
        JObject members \<Rightarrow>
          (case credential_fields members None None 0 of
             None \<Rightarrow> None
           | Some (ssid, passphrase, field_count) \<Rightarrow>
               if field_count \<noteq> 2 then None
               else (case (string_view_from_item ssid, string_view_from_item passphrase) of
                   (Some s, Some p) \<Rightarrow> Some \<lparr>nc_ssid = s, nc_passphrase = p\<rparr>
                 | _ \<Rightarrow> None))
      | _ \<Rightarrow> None)"

text \<open>The request after \<open>memset\<close>; the \<open>populate\<close> functions give \<open>None\<close> for a wrong type.\<close>

definition zero_request :: settings_update_request where
  "zero_request =
     \<lparr>rq_has_device_name = False, rq_device_name = None,
      rq_has_require_serial_confirmation = False, rq_require_serial_confirmation = False,
      rq_has_snapshot_retention_target = False, rq_snapshot_retention_target = 0,
      rq_has_last_selected_package_id = False, rq_last_selected_package_id = None,
      rq_has_access_point = False, rq_access_point = \<lparr>nc_ssid = None, nc_passphrase = None\<rparr>,
      rq_has_station = False, rq_remove_station = False,
      rq_station = \<lparr>nc_ssid = None, nc_passphrase = None\<rparr>\<rparr>"

type_synonym populate = "(u8 list \<Rightarrow> json option) \<Rightarrow> settings_update_request \<Rightarrow> settings_update_request option"

definition populate_device_name :: populate where
  "populate_device_name get request =
     (case get (ascii ''deviceName'') of
        None \<Rightarrow> Some request
      | Some item \<Rightarrow>
          map_option (\<lambda>v. request\<lparr>rq_has_device_name := True, rq_device_name := v\<rparr>)
            (string_view_from_item (Some item)))"

definition populate_require_confirmation :: populate where
  "populate_require_confirmation get request =
     (case get (ascii ''requireSerialConfirmation'') of
        None \<Rightarrow> Some request
      | Some (JBool b) \<Rightarrow> Some (request\<lparr>rq_has_require_serial_confirmation := True,
          rq_require_serial_confirmation := b\<rparr>)
      | Some _ \<Rightarrow> None)"

text \<open>A number as a byte: in range and equal to its conversion back.\<close>

definition retention_byte :: "rat option \<Rightarrow> u8 option" where
  "retention_byte v =
     (case v of
        None \<Rightarrow> None
      | Some r \<Rightarrow>
          if r < 0 \<or> 255 < r then None
          else (let candidate = (of_int \<lfloor>r\<rfloor> :: u8)
                in if of_nat (unat candidate) \<noteq> r then None else Some candidate))"

definition populate_snapshot_retention_target :: populate where
  "populate_snapshot_retention_target get request =
     (case get (ascii ''snapshotRetentionTarget'') of
        None \<Rightarrow> Some request
      | Some (JNumber v) \<Rightarrow>
          map_option (\<lambda>b. request\<lparr>rq_has_snapshot_retention_target := True,
            rq_snapshot_retention_target := b\<rparr>) (retention_byte v)
      | Some _ \<Rightarrow> None)"

definition populate_last_selected_package_id :: populate where
  "populate_last_selected_package_id get request =
     (case get (ascii ''lastSelectedPackageId'') of
        None \<Rightarrow> Some request
      | Some JNull \<Rightarrow> Some (request\<lparr>rq_has_last_selected_package_id := True,
          rq_last_selected_package_id := None\<rparr>)
      | Some (JString s) \<Rightarrow> Some (request\<lparr>rq_has_last_selected_package_id := True,
          rq_last_selected_package_id := Some (Some (c_text s))\<rparr>)
      | Some _ \<Rightarrow> None)"

definition populate_access_point :: populate where
  "populate_access_point get request =
     (case get (ascii ''accessPoint'') of
        None \<Rightarrow> Some request
      | Some item \<Rightarrow>
          map_option (\<lambda>c. request\<lparr>rq_access_point := c, rq_has_access_point := True\<rparr>)
            (exact_credential_fields item))"

definition populate_station :: populate where
  "populate_station get request =
     (case get (ascii ''station'') of
        None \<Rightarrow> Some request
      | Some JNull \<Rightarrow> Some (request\<lparr>rq_has_station := True, rq_remove_station := True\<rparr>)
      | Some item \<Rightarrow>
          map_option (\<lambda>c. request\<lparr>rq_has_station := True, rq_station := c, rq_remove_station := False\<rparr>)
            (exact_credential_fields item))"

definition populate_settings_update_request ::
    "cjson \<Rightarrow> json_fields \<Rightarrow> settings_update_request option" where
  "populate_settings_update_request cj doc =
     (let get = cj_item cj doc in
      do {
        request \<leftarrow> populate_device_name get zero_request;
        request \<leftarrow> populate_require_confirmation get request;
        request \<leftarrow> populate_snapshot_retention_target get request;
        request \<leftarrow> populate_last_selected_package_id get request;
        request \<leftarrow> populate_access_point get request;
        populate_station get request
      })"

fun map_prepare_update_result :: "settings_update_result \<Rightarrow> web_settings_put_result" where
  "map_prepare_update_result APP_V2_SETTINGS_UPDATE_EMPTY = WEB_SETTINGS_PUT_EMPTY"
| "map_prepare_update_result APP_V2_SETTINGS_UPDATE_INVALID_DEVICE_NAME =
     WEB_SETTINGS_PUT_INVALID_DEVICE_NAME"
| "map_prepare_update_result APP_V2_SETTINGS_UPDATE_INVALID_SNAPSHOT_RETENTION_TARGET =
     WEB_SETTINGS_PUT_INVALID_SNAPSHOT_RETENTION_TARGET"
| "map_prepare_update_result APP_V2_SETTINGS_UPDATE_INVALID_LAST_SELECTED_PACKAGE_ID =
     WEB_SETTINGS_PUT_INVALID_LAST_SELECTED_PACKAGE_ID"
| "map_prepare_update_result APP_V2_SETTINGS_UPDATE_INVALID_ACCESS_POINT_SSID =
     WEB_SETTINGS_PUT_INVALID_ACCESS_POINT_SSID"
| "map_prepare_update_result APP_V2_SETTINGS_UPDATE_INVALID_ACCESS_POINT_PASSPHRASE =
     WEB_SETTINGS_PUT_INVALID_ACCESS_POINT_PASSPHRASE"
| "map_prepare_update_result APP_V2_SETTINGS_UPDATE_INVALID_STATION_SSID =
     WEB_SETTINGS_PUT_INVALID_STATION_SSID"
| "map_prepare_update_result APP_V2_SETTINGS_UPDATE_INVALID_STATION_PASSPHRASE =
     WEB_SETTINGS_PUT_INVALID_STATION_PASSPHRASE"
| "map_prepare_update_result APP_V2_SETTINGS_UPDATE_OK = WEB_SETTINGS_PUT_INTERNAL"
| "map_prepare_update_result APP_V2_SETTINGS_UPDATE_INVALID_ARGUMENT = WEB_SETTINGS_PUT_INTERNAL"
| "map_prepare_update_result APP_V2_SETTINGS_UPDATE_INVALID_CURRENT_SETTINGS = WEB_SETTINGS_PUT_INTERNAL"

definition build_settings_put_response_json ::
    "cjson \<Rightarrow> device_settings \<Rightarrow> bool \<Rightarrow> bool \<Rightarrow> u8 list option" where
  "build_settings_put_response_json cj candidate restart_required reconnect_required =
     (case app_v2_settings_response_from_settings (Some candidate) of (result, response) \<Rightarrow>
        if result \<noteq> APP_V2_SETTINGS_UPDATE_OK \<or> \<not> cj_create cj 0 \<or> \<not> cj_create cj 1 then None
        else do {
          settings_fields \<leftarrow> settings_response_populate cj response [];
          doc \<leftarrow> cj_add cj [] (ascii ''settings'') (JObject settings_fields);
          doc \<leftarrow> cj_add cj doc (ascii ''restartRequired'') (JBool restart_required);
          doc \<leftarrow> cj_add cj doc (ascii ''reconnectRequired'') (JBool reconnect_required);
          cj_print cj doc
        })"

text \<open>\<open>PUT\<close> after the request is known: the outcome, the document and the state.\<close>

definition put_request ::
    "cjson \<Rightarrow> 'w web_settings_ops \<Rightarrow> settings_update_request \<Rightarrow> 'w \<Rightarrow>
      web_settings_put_outcome \<times> u8 list option \<times> 'w" where
  "put_request cj ops request w =
     (case so_settings_read ops w of (read_result, current, w) \<Rightarrow>
        if read_result \<noteq> APP_ERROR_NONE
        then ((WEB_SETTINGS_PUT_BACKEND_UNAVAILABLE, read_result), None, w)
        else (case app_v2_settings_prepare_update (Some current) (Some request) of
          (prepare_result, candidate, restart_required, reconnect_required) \<Rightarrow>
            if prepare_result \<noteq> APP_V2_SETTINGS_UPDATE_OK
            then ((map_prepare_update_result prepare_result, APP_ERROR_NONE), None, w)
            else (case so_settings_replace ops candidate w of (replace_result, changed, w) \<Rightarrow>
              if replace_result \<noteq> APP_ERROR_NONE
              then ((WEB_SETTINGS_PUT_BACKEND_UNAVAILABLE, replace_result), None, w)
              else (case build_settings_put_response_json cj candidate restart_required reconnect_required of
                  None \<Rightarrow> ((WEB_SETTINGS_PUT_INTERNAL, APP_ERROR_NONE), None, w)
                | Some json \<Rightarrow> ((WEB_SETTINGS_PUT_OK, APP_ERROR_NONE), Some json, w)))))"

text \<open>\<open>PUT\<close>: the outcome, the document, the body and the state.\<close>

definition web_settings_put_handle ::
    "cjson \<Rightarrow> u8 list \<Rightarrow> 'w web_settings_ops option \<Rightarrow> 'w \<Rightarrow>
      web_settings_put_outcome \<times> u8 list option \<times> u8 list \<times> 'w" where
  "web_settings_put_handle cj body ops w =
     (case ops of
        None \<Rightarrow> ((WEB_SETTINGS_PUT_INTERNAL, APP_ERROR_NONE), None, zeros (length body), w)
      | Some ops \<Rightarrow>
          if body = [] then ((WEB_SETTINGS_PUT_INTERNAL, APP_ERROR_NONE), None, body, w)
          else (case parse_exact_body cj body of
              (None, body) \<Rightarrow> ((WEB_SETTINGS_PUT_INVALID_BODY, APP_ERROR_NONE), None, body, w)
            | (Some doc, body) \<Rightarrow>
                if \<not> exact_settings_put_fields doc
                then ((WEB_SETTINGS_PUT_INVALID_BODY, APP_ERROR_NONE), None, body, w)
                else (case populate_settings_update_request cj doc of
                    None \<Rightarrow> ((WEB_SETTINGS_PUT_INVALID_BODY, APP_ERROR_NONE), None, body, w)
                  | Some request \<Rightarrow>
                      (case put_request cj ops request w of
                        (outcome, json, w) \<Rightarrow> (outcome, json, body, w)))))"

section \<open>The password change\<close>

definition CHANGE_PASSWORD_FIELDS :: "u8 list list" where
  "CHANGE_PASSWORD_FIELDS = map ascii [''currentPassword'', ''newPassword'']"

definition exact_change_password_fields :: "json_fields \<Rightarrow> bool" where
  "exact_change_password_fields doc \<longleftrightarrow>
     exact_fields CHANGE_PASSWORD_FIELDS [] doc \<and> length doc = 2"

definition change_password_views_from_root ::
    "cjson \<Rightarrow> json_fields option \<Rightarrow> (string_view \<times> string_view) option" where
  "change_password_views_from_root cj doc =
     (case doc of
        None \<Rightarrow> None
      | Some members \<Rightarrow>
          if \<not> exact_change_password_fields members then None
          else do {
            current_password \<leftarrow> string_view_from_item (cj_item cj members (ascii ''currentPassword''));
            new_password \<leftarrow> string_view_from_item (cj_item cj members (ascii ''newPassword''));
            Some (current_password, new_password)
          })"

text \<open>The steps give an outcome, what they produced and the state.\<close>

definition change_password_load_current_and_validate ::
    "'w web_settings_ops \<Rightarrow> string_view \<Rightarrow> 'w \<Rightarrow> web_change_password_outcome \<times> device_settings \<times> 'w" where
  "change_password_load_current_and_validate ops new_password w =
     (case so_settings_read ops w of (read_result, current, w) \<Rightarrow>
        if read_result \<noteq> APP_ERROR_NONE
        then ((WEB_CHANGE_PASSWORD_BACKEND_UNAVAILABLE, read_result), current, w)
        else if app_v2_password_change_validate (Some current) new_password \<noteq> APP_V2_PASSWORD_CHANGE_OK
        then ((WEB_CHANGE_PASSWORD_INVALID_NEW_PASSWORD, APP_ERROR_NONE), current, w)
        else ((WEB_CHANGE_PASSWORD_OK, APP_ERROR_NONE), current, w))"

definition change_password_verify_current ::
    "'w web_settings_ops \<Rightarrow> string_view \<Rightarrow> string_view \<Rightarrow> 'w \<Rightarrow>
      web_change_password_outcome \<times> device_settings \<times> 'w" where
  "change_password_verify_current ops current_password new_password w =
     (case change_password_load_current_and_validate ops new_password w of (loaded, current, w) \<Rightarrow>
        if fst loaded \<noteq> WEB_CHANGE_PASSWORD_OK then (loaded, current, w)
        else (case so_password_verify ops current_password current w of
          (verify_result, current_matches, w) \<Rightarrow>
            if verify_result \<noteq> APP_ERROR_NONE
            then ((WEB_CHANGE_PASSWORD_BACKEND_UNAVAILABLE, verify_result), current, w)
            else if \<not> current_matches
            then ((WEB_CHANGE_PASSWORD_INCORRECT_CURRENT_PASSWORD, APP_ERROR_NONE), current, w)
            else ((WEB_CHANGE_PASSWORD_OK, APP_ERROR_NONE), current, w)))"

definition change_password_build_candidate ::
    "'w web_settings_ops \<Rightarrow> string_view \<Rightarrow> device_settings \<Rightarrow> 'w \<Rightarrow>
      web_change_password_outcome \<times> device_settings \<times> 'w" where
  "change_password_build_candidate ops new_password current w =
     (case so_password_create ops new_password w of (create_result, material, w) \<Rightarrow>
        if create_result \<noteq> APP_ERROR_NONE
        then ((WEB_CHANGE_PASSWORD_BACKEND_UNAVAILABLE, create_result), zero_settings, w)
        else (case app_v2_password_change_prepare_candidate (Some current) (Some material) of
          (prepared, candidate) \<Rightarrow>
            if \<not> prepared then ((WEB_CHANGE_PASSWORD_INTERNAL, APP_ERROR_NONE), candidate, w)
            else ((WEB_CHANGE_PASSWORD_OK, APP_ERROR_NONE), candidate, w)))"

definition change_password_commit_candidate ::
    "'w web_settings_ops \<Rightarrow> device_settings \<Rightarrow> 'w \<Rightarrow> web_change_password_outcome \<times> 'w" where
  "change_password_commit_candidate ops candidate w =
     (case so_settings_replace ops candidate w of (replace_result, changed, w) \<Rightarrow>
        if replace_result \<noteq> APP_ERROR_NONE
        then ((WEB_CHANGE_PASSWORD_BACKEND_UNAVAILABLE, replace_result), w)
        else (let w = so_password_activate ops candidate w
              in case so_invalidate_all_sessions ops w of (invalidate_result, w) \<Rightarrow>
                if invalidate_result \<noteq> APP_ERROR_NONE
                then ((WEB_CHANGE_PASSWORD_COMMITTED_SESSION_INVALIDATION_INCOMPLETE, invalidate_result), w)
                else ((WEB_CHANGE_PASSWORD_OK, APP_ERROR_NONE), w)))"

text \<open>Building and committing the candidate for settings that were read.\<close>

definition change_password_finish ::
    "'w web_settings_ops \<Rightarrow> string_view \<Rightarrow> web_change_password_outcome \<times> device_settings \<times> 'w \<Rightarrow>
      web_change_password_outcome \<times> 'w" where
  "change_password_finish ops new_password loaded =
     (case loaded of (outcome, current, w) \<Rightarrow>
        if fst outcome \<noteq> WEB_CHANGE_PASSWORD_OK then (outcome, w)
        else (case change_password_build_candidate ops new_password current w of (outcome, candidate, w) \<Rightarrow>
          if fst outcome \<noteq> WEB_CHANGE_PASSWORD_OK then (outcome, w)
          else change_password_commit_candidate ops candidate w))"

text \<open>The transaction between \<open>begin\<close> and \<open>end\<close>; \<open>load\<close> reads and checks the settings.\<close>

definition password_transaction ::
    "'w web_settings_ops \<Rightarrow> string_view \<Rightarrow> ('w \<Rightarrow> web_change_password_outcome \<times> device_settings \<times> 'w) \<Rightarrow>
      'w \<Rightarrow> web_change_password_outcome \<times> 'w" where
  "password_transaction ops new_password load w =
     (case so_password_transition_begin ops w of (transition_result, w) \<Rightarrow>
        if transition_result \<noteq> APP_ERROR_NONE
        then ((WEB_CHANGE_PASSWORD_BACKEND_UNAVAILABLE, transition_result), w)
        else (case change_password_finish ops new_password (load w) of
          (outcome, w) \<Rightarrow> (outcome, so_password_transition_end ops w)))"

definition web_change_password_handle ::
    "cjson \<Rightarrow> u8 list \<Rightarrow> 'w web_settings_ops option \<Rightarrow> 'w \<Rightarrow>
      web_change_password_outcome \<times> u8 list \<times> 'w" where
  "web_change_password_handle cj body ops w =
     (case ops of
        None \<Rightarrow> ((WEB_CHANGE_PASSWORD_INTERNAL, APP_ERROR_NONE), zeros (length body), w)
      | Some ops \<Rightarrow>
          if body = [] then ((WEB_CHANGE_PASSWORD_INTERNAL, APP_ERROR_NONE), body, w)
          else (case parse_exact_body cj body of (doc, body) \<Rightarrow>
            (case change_password_views_from_root cj doc of
               None \<Rightarrow> ((WEB_CHANGE_PASSWORD_INVALID_BODY, APP_ERROR_NONE), body, w)
             | Some (current_password, new_password) \<Rightarrow>
                 (case password_transaction ops new_password
                     (change_password_verify_current ops current_password new_password) w of
                   (outcome, w) \<Rightarrow> (outcome, body, w)))))"

definition web_change_password_apply_without_verification ::
    "string_view \<Rightarrow> 'w web_settings_ops option \<Rightarrow> 'w \<Rightarrow> web_change_password_outcome \<times> 'w" where
  "web_change_password_apply_without_verification new_password ops w =
     (if ops = None \<or> new_password = None then ((WEB_CHANGE_PASSWORD_INTERNAL, APP_ERROR_NONE), w)
      else password_transaction (the ops) new_password
             (change_password_load_current_and_validate (the ops) new_password) w)"

section \<open>The backend the handlers rely on\<close>

text \<open>
  What the table promises: \<open>durable\<close> is the stored settings, \<open>others\<close> the verifier in RAM, the
  transition gate and the sessions, \<open>good\<close> what the backend keeps of its own state.  A failed
  replacement may have stored its argument only with the two codes that say so.
\<close>

locale settings_backend =
  fixes ops :: "'w web_settings_ops"
    and good :: "'w \<Rightarrow> bool"
    and durable :: "'w \<Rightarrow> device_settings option"
    and others :: "'w \<Rightarrow> 'r \<times> bool \<times> 's"
    and record_of :: "device_settings \<Rightarrow> 'r"
    and cleared :: 's
    and accepts :: "string_view \<Rightarrow> device_settings \<Rightarrow> bool"
    and made_for :: "string_view \<Rightarrow> password_material \<Rightarrow> bool"
  assumes read_law: "so_settings_read ops w = (e, s, w') \<Longrightarrow> good w \<Longrightarrow>
      good w' \<and> durable w' = durable w \<and> others w' = others w \<and>
      (e = APP_ERROR_NONE \<longrightarrow> settings_sized s \<and>
         app_v2_device_settings_validate (Some s) = APP_V2_SETTINGS_OK \<and> durable w = Some (canonical s))"
    and replace_law: "so_settings_replace ops s w = (e, changed, w') \<Longrightarrow> good w \<Longrightarrow> settings_sized s \<Longrightarrow>
      good w' \<and> others w' = others w \<and> (e = APP_ERROR_NONE \<longrightarrow> durable w' = Some (canonical s)) \<and>
      (e \<notin> {APP_ERROR_NONE, APP_ERROR_COMMIT_UNCERTAIN, APP_ERROR_INTERNAL} \<longrightarrow> durable w' = durable w)"
    and verify_law: "so_password_verify ops v s w = (e, matches, w') \<Longrightarrow>
      w' = w \<and> (e = APP_ERROR_NONE \<and> matches \<longrightarrow> accepts v s)"
    and create_law: "so_password_create ops v w = (e, m, w') \<Longrightarrow>
      w' = w \<and> length (pm_password_salt m) = 16 \<and> length (pm_password_verifier m) = 32 \<and>
      (e = APP_ERROR_NONE \<longrightarrow> made_for v m)"
    and begin_law: "so_password_transition_begin ops w = (e, w') \<Longrightarrow> good w \<Longrightarrow>
      (if fst (snd (others w)) then e \<noteq> APP_ERROR_NONE \<and> w' = w
       else e = APP_ERROR_NONE \<and> good w' \<and> durable w' = durable w \<and>
         others w' = (fst (others w), True, snd (snd (others w))))"
    and activate_law: "good w \<Longrightarrow> good (so_password_activate ops s w) \<and>
      durable (so_password_activate ops s w) = durable w \<and>
      others (so_password_activate ops s w) = (record_of s, snd (others w))"
    and end_law: "good w \<Longrightarrow> good (so_password_transition_end ops w) \<and>
      durable (so_password_transition_end ops w) = durable w \<and>
      others (so_password_transition_end ops w) = (fst (others w), False, snd (snd (others w)))"
    and invalidate_law: "so_invalidate_all_sessions ops w = (e, w') \<Longrightarrow> good w \<Longrightarrow>
      good w' \<and> durable w' = durable w \<and> fst (others w') = fst (others w) \<and>
      fst (snd (others w')) = fst (snd (others w)) \<and>
      (e = APP_ERROR_NONE \<longrightarrow> snd (snd (others w')) = cleared)"
begin

lemma load_spec:
  assumes "change_password_load_current_and_validate ops new w = (out, cur, w')" and "good w"
  shows "good w' \<and> durable w' = durable w \<and> others w' = others w \<and>
    fst out \<noteq> WEB_CHANGE_PASSWORD_COMMITTED_SESSION_INVALIDATION_INCOMPLETE \<and>
    (fst out = WEB_CHANGE_PASSWORD_OK \<longrightarrow> settings_good cur \<and> durable w = Some (canonical cur))"
proof -
  obtain e where r: "so_settings_read ops w = (e, cur, w')"
    using assms(1) by (cases "so_settings_read ops w")
      (auto simp: change_password_load_current_and_validate_def split: if_splits)
  note l = read_law [OF r assms(2)]
  have "app_v2_password_change_validate (Some cur) new = APP_V2_PASSWORD_CHANGE_OK \<Longrightarrow> provisioned cur"
    by (auto simp: app_v2_password_change_validate_def split: if_splits)
  then show ?thesis
    using assms(1) l unfolding change_password_load_current_and_validate_def r
    by (auto simp: settings_good_def split: if_splits)
qed

lemma verify_spec:
  assumes "change_password_verify_current ops old new w = (out, cur, w')" and "good w"
  shows "good w' \<and> durable w' = durable w \<and> others w' = others w \<and>
    fst out \<noteq> WEB_CHANGE_PASSWORD_COMMITTED_SESSION_INVALIDATION_INCOMPLETE \<and>
    (fst out = WEB_CHANGE_PASSWORD_OK \<longrightarrow> accepts old cur \<and> settings_good cur \<and> durable w = Some (canonical cur))"
proof -
  obtain out1 c1 w1 where l: "change_password_load_current_and_validate ops new w = (out1, c1, w1)"
    by (cases "change_password_load_current_and_validate ops new w") auto
  obtain e m w2 where v: "so_password_verify ops old c1 w1 = (e, m, w2)"
    by (cases "so_password_verify ops old c1 w1") auto
  show ?thesis
    using assms(1) load_spec [OF l assms(2)] verify_law [OF v]
    unfolding change_password_verify_current_def l by (auto simp: v split: if_splits)
qed

lemma commit_spec:
  assumes "change_password_commit_candidate ops s w = (out, w')" and "good w" and "settings_sized s"
  shows "good w' \<and> fst (snd (others w')) = fst (snd (others w)) \<and>
    (if fst out \<in> {WEB_CHANGE_PASSWORD_OK, WEB_CHANGE_PASSWORD_COMMITTED_SESSION_INVALIDATION_INCOMPLETE}
     then durable w' = Some (canonical s) \<and> fst (others w') = record_of s \<and>
       (fst out = WEB_CHANGE_PASSWORD_OK \<longrightarrow> snd (snd (others w')) = cleared)
     else others w' = others w \<and>
       (snd out \<notin> {APP_ERROR_COMMIT_UNCERTAIN, APP_ERROR_INTERNAL} \<longrightarrow> durable w' = durable w))"
proof -
  obtain e c w1 where r: "so_settings_replace ops s w = (e, c, w1)"
    by (cases "so_settings_replace ops s w") auto
  note rl = replace_law [OF r assms(2,3)]
  obtain e2 w2 where i: "so_invalidate_all_sessions ops (so_password_activate ops s w1) = (e2, w2)"
    by (cases "so_invalidate_all_sessions ops (so_password_activate ops s w1)") auto
  note a = activate_law [of w1 s]
  show ?thesis
    using assms(1) rl a invalidate_law [OF i]
    unfolding change_password_commit_candidate_def r by (auto simp: i split: if_splits)
qed

lemma transaction_spec:
  assumes "password_transaction ops new load w = (out, w')" and "good w"
    and load: "\<And>w out cur w1. load w = (out, cur, w1) \<Longrightarrow> good w \<Longrightarrow>
      good w1 \<and> durable w1 = durable w \<and> others w1 = others w \<and>
      fst out \<noteq> WEB_CHANGE_PASSWORD_COMMITTED_SESSION_INVALIDATION_INCOMPLETE \<and>
      (fst out = WEB_CHANGE_PASSWORD_OK \<longrightarrow> Q cur \<and> settings_good cur \<and> durable w = Some (canonical cur))"
  shows "good w' \<and> fst (snd (others w')) = fst (snd (others w)) \<and>
    (if fst out \<in> {WEB_CHANGE_PASSWORD_OK, WEB_CHANGE_PASSWORD_COMMITTED_SESSION_INVALIDATION_INCOMPLETE}
     then \<not> fst (snd (others w)) \<and> (\<exists>cur m. Q cur \<and> settings_good cur \<and> durable w = Some (canonical cur) \<and>
         made_for new m \<and> settings_good (with_material m cur) \<and>
         durable w' = Some (canonical (with_material m cur)) \<and> fst (others w') = record_of (with_material m cur)) \<and>
       (fst out = WEB_CHANGE_PASSWORD_OK \<longrightarrow> snd (snd (others w')) = cleared)
     else others w' = others w \<and>
       (snd out \<notin> {APP_ERROR_COMMIT_UNCERTAIN, APP_ERROR_INTERNAL} \<longrightarrow> durable w' = durable w))"
proof (cases "fst (snd (others w))")
  case True
  obtain e0 w1 where b0: "so_password_transition_begin ops w = (e0, w1)"
    by (cases "so_password_transition_begin ops w")
  note bl = begin_law [OF b0 assms(2), unfolded if_P [OF True]]
  with assms(1) have "out = (WEB_CHANGE_PASSWORD_BACKEND_UNAVAILABLE, e0)" "w' = w"
    by (simp_all add: password_transaction_def b0)
  then show ?thesis using assms(2) by simp
next
  case False
  obtain e0 w1 where b0: "so_password_transition_begin ops w = (e0, w1)"
    by (cases "so_password_transition_begin ops w")
  note bl = begin_law [OF b0 assms(2), unfolded if_not_P [OF False]]
  then have b: "so_password_transition_begin ops w = (APP_ERROR_NONE, w1)" using b0 by simp
  from bl have w1: "good w1" "durable w1 = durable w" "others w1 = (fst (others w), True, snd (snd (others w)))"
    by simp_all
  obtain out1 cur w2 where l: "load w1 = (out1, cur, w2)" by (cases "load w1") auto
  note ll = load [OF l w1(1)]
  obtain out3 w3 where f: "change_password_finish ops new (out1, cur, w2) = (out3, w3)"
    by (cases "change_password_finish ops new (out1, cur, w2)") auto
  have ends: "out = out3" "w' = so_password_transition_end ops w3"
    using assms(1) by (auto simp: password_transaction_def b l f)
  have fin: "good w3 \<and>
    (if fst out3 \<in> {WEB_CHANGE_PASSWORD_OK, WEB_CHANGE_PASSWORD_COMMITTED_SESSION_INVALIDATION_INCOMPLETE}
     then (\<exists>cur m. Q cur \<and> settings_good cur \<and> durable w1 = Some (canonical cur) \<and>
         made_for new m \<and> settings_good (with_material m cur) \<and>
         durable w3 = Some (canonical (with_material m cur)) \<and> fst (others w3) = record_of (with_material m cur)) \<and>
       (fst out3 = WEB_CHANGE_PASSWORD_OK \<longrightarrow> snd (snd (others w3)) = cleared)
     else others w3 = others w1 \<and>
       (snd out3 \<notin> {APP_ERROR_COMMIT_UNCERTAIN, APP_ERROR_INTERNAL} \<longrightarrow> durable w3 = durable w1))"
  proof (cases "fst out1 = WEB_CHANGE_PASSWORD_OK")
    case False
    then show ?thesis using f ll by (auto simp: change_password_finish_def)
  next
    case True
    then have cur: "Q cur" "settings_good cur" "durable w1 = Some (canonical cur)" using ll by simp_all
    obtain e m w4 where c: "so_password_create ops new w2 = (e, m, w4)"
      by (cases "so_password_create ops new w2") auto
    note cl = create_law [OF c]
    note pc = prepare_candidate_spec [OF cur(2), of m]
    show ?thesis
    proof (cases "e = APP_ERROR_NONE \<and> material_good m")
      case ok: True
      have com: "change_password_commit_candidate ops (with_material m cur) w2 = (out3, w3)"
        using f True ok cl pc by (simp add: change_password_finish_def change_password_build_candidate_def c)
      have g: "settings_good (with_material m cur)" using pc(2) cl ok by simp
      show ?thesis
        using commit_spec [OF com] ll cur g cl ok by (auto simp: settings_good_def)
    next
      case bad: False
      then show ?thesis
        using f True cl pc ll
        by (auto simp: change_password_finish_def change_password_build_candidate_def c split: if_splits)
    qed
  qed
  note e = end_law [of w3]
  show ?thesis
  proof (cases "fst out3 \<in> {WEB_CHANGE_PASSWORD_OK, WEB_CHANGE_PASSWORD_COMMITTED_SESSION_INVALIDATION_INCOMPLETE}")
    case True
    note fin [unfolded if_P [OF True]]
    then show ?thesis unfolding ends if_P [OF True] using e w1 False by simp
  next
    case no: False
    note fin [unfolded if_not_P [OF no]]
    then show ?thesis unfolding ends if_not_P [OF no] using e w1 False by (simp add: prod_eq_iff)
  qed
qed

end

context settings_backend
begin

text \<open>What an update leaves: the settings it read, or those with the request put in place.\<close>

lemma put_spec:
  assumes "put_request cj ops rq w = ((result, detail), json, w')" and "good w"
  shows "good w' \<and> others w' = others w \<and>
    (result = WEB_SETTINGS_PUT_OK \<longrightarrow> (\<exists>cur. settings_good cur \<and> durable w = Some (canonical cur) \<and>
       request_error rq = APP_V2_SETTINGS_UPDATE_OK \<and> durable w' = Some (canonical (updated rq cur)) \<and>
       json = build_settings_put_response_json cj (updated rq cur)
         (rq_has_access_point rq \<or> rq_has_station rq) (rq_has_access_point rq))) \<and>
    (result \<noteq> WEB_SETTINGS_PUT_OK \<longrightarrow> json = None) \<and>
    (result \<notin> {WEB_SETTINGS_PUT_OK, WEB_SETTINGS_PUT_INTERNAL} \<and>
       detail \<notin> {APP_ERROR_COMMIT_UNCERTAIN, APP_ERROR_INTERNAL} \<longrightarrow> durable w' = durable w)"
proof -
  obtain e cur w1 where r: "so_settings_read ops w = (e, cur, w1)" by (cases "so_settings_read ops w") auto
  note rl = read_law [OF r assms(2)]
  have bad: "map_prepare_update_result x \<noteq> WEB_SETTINGS_PUT_OK" for x by (cases x) simp_all
  show ?thesis
  proof (cases "e = APP_ERROR_NONE \<and> provisioned cur \<and> \<not> settings_update_request_is_empty rq \<and>
      request_error rq = APP_V2_SETTINGS_UPDATE_OK")
    case True
    then have g: "settings_good cur" using rl by (simp add: settings_good_def)
    note p = settings_update_accepted [OF g, of rq]
    obtain e2 c w2 where u: "so_settings_replace ops (updated rq cur) w1 = (e2, c, w2)"
      by (cases "so_settings_replace ops (updated rq cur) w1") auto
    have "settings_sized (updated rq cur)" using updated_good [OF g] True by (simp add: settings_good_def)
    note ul = replace_law [OF u _ this]
    have end1: "w' = w2" using assms(1) True p by (auto simp: put_request_def r u split: if_splits option.splits)
    have end2: "result = WEB_SETTINGS_PUT_OK \<and> e2 = APP_ERROR_NONE \<and> json = build_settings_put_response_json cj
          (updated rq cur) (rq_has_access_point rq \<or> rq_has_station rq) (rq_has_access_point rq) \<or>
        result = WEB_SETTINGS_PUT_INTERNAL \<and> json = None \<or>
        result = WEB_SETTINGS_PUT_BACKEND_UNAVAILABLE \<and> json = None \<and> e2 = detail \<and> e2 \<noteq> APP_ERROR_NONE"
      using assms(1) True p by (auto simp: put_request_def r u split: if_splits option.splits)
    show ?thesis
      using end2 ul rl g True unfolding end1 by (elim disjE) auto
  next
    case False
    then have refused: "e = APP_ERROR_NONE \<Longrightarrow>
        fst (app_v2_settings_prepare_update (Some cur) (Some rq)) \<noteq> APP_V2_SETTINGS_UPDATE_OK"
      using rl settings_update_refused [of cur rq] by (cases "provisioned cur") (auto simp: settings_good_def)
    have "w' = w1 \<and> json = None \<and> result \<noteq> WEB_SETTINGS_PUT_OK"
      using assms(1) refused bad by (auto simp: put_request_def r split: if_splits prod.splits)
    then show ?thesis using rl by simp
  qed
qed

end

end
