(* ===== verification/Web_Credentials.thy ===== *)
theory Web_Credentials
  imports Web_Settings Settings_Nvs App_Startup
begin

text \<open>
  The credentials of a running server: the verifier in RAM with its transition gate
  (\<open>web_server/web_server_password_record.c\<close>) and the operations behind the settings handlers
  (\<open>web_server/web_settings_production_ops.c\<close>), which join the settings module, the RAM verifier
  and the session table.

  A critical section of the spin lock is one step.  The functions of \<open>auth.c\<close> pass their
  arguments on to the authentication core.
\<close>

section \<open>The state of the server\<close>

record 'n web_state =
  ws_module :: "'n settings_module"
  ws_configuration :: web_configuration
  ws_password_transition_in_progress :: bool
  ws_auth :: auth_core

abbreviation ws_record :: "'n web_state \<Rightarrow> password_record" where
  "ws_record w \<equiv> wc_password_record (ws_configuration w)"

definition zero_configuration :: web_configuration where
  "zero_configuration =
     \<lparr>wc_mode = WEB_SERVER_MODE_NORMAL, wc_login_enabled = False,
      wc_password_record = \<lparr>pr_salt = zeros 16, pr_hash = zeros 32, pr_iterations = 0\<rparr>,
      wc_require_physical_confirmation = False, wc_setup_device_name = zeros 33,
      wc_setup_code = zeros 9, wc_clears_setup_code = False\<rparr>"

definition web_server_configuration_store :: "web_configuration \<Rightarrow> 'n web_state \<Rightarrow> 'n web_state" where
  "web_server_configuration_store configuration w =
     w\<lparr>ws_configuration := configuration, ws_password_transition_in_progress := False\<rparr>"

definition web_server_configuration_clear :: "'n web_state \<Rightarrow> 'n web_state" where
  "web_server_configuration_clear w =
     w\<lparr>ws_configuration := zero_configuration, ws_password_transition_in_progress := False\<rparr>"

definition web_server_password_record_snapshot :: "'n web_state \<Rightarrow> password_record" where
  "web_server_password_record_snapshot w = ws_record w"

definition web_server_password_record_snapshot_for_login :: "'n web_state \<Rightarrow> app_error + password_record" where
  "web_server_password_record_snapshot_for_login w =
     (if ws_password_transition_in_progress w then Inl APP_ERROR_AUTH_STATE_INCOMPLETE
      else Inr (ws_record w))"

definition web_server_password_record_replace :: "password_record \<Rightarrow> 'n web_state \<Rightarrow> 'n web_state" where
  "web_server_password_record_replace r w =
     w\<lparr>ws_configuration := (ws_configuration w)\<lparr>wc_password_record := r\<rparr>\<rparr>"

definition web_server_password_transition_begin :: "'n web_state \<Rightarrow> app_error \<times> 'n web_state" where
  "web_server_password_transition_begin w =
     (if ws_password_transition_in_progress w then (APP_ERROR_CONFLICT, w)
      else (APP_ERROR_NONE, w\<lparr>ws_password_transition_in_progress := True\<rparr>))"

definition web_server_password_transition_end :: "'n web_state \<Rightarrow> 'n web_state" where
  "web_server_password_transition_end w = w\<lparr>ws_password_transition_in_progress := False\<rparr>"

section \<open>The production operations\<close>

text \<open>The parameters: NVS, the key derivation, the random salt and the mutex of the session table.\<close>

record 'n web_port =
  wp_nvs :: "'n nvs_ops"
  wp_derive :: "string \<Rightarrow> u8 list \<Rightarrow> u32 \<Rightarrow> u8 list option"
  wp_salt :: "u8 list option"
  wp_logout :: auth_env

definition password_text :: "string_view \<Rightarrow> string option" where
  "password_text v = map_option (map (\<lambda>c. char_of (unat c))) v"

definition record_of_settings :: "device_settings \<Rightarrow> password_record" where
  "record_of_settings s =
     \<lparr>pr_salt = password_salt s, pr_hash = password_verifier s, pr_iterations = password_iterations s\<rparr>"

definition production_settings_read ::
    "'n web_port \<Rightarrow> 'n web_state \<Rightarrow> app_error \<times> device_settings \<times> 'n web_state" where
  "production_settings_read port w =
     (case device_settings_read (wp_nvs port) (ws_module w) of
        (result, settings, m) \<Rightarrow> (result, settings, w\<lparr>ws_module := m\<rparr>))"

definition production_settings_replace ::
    "'n web_port \<Rightarrow> device_settings \<Rightarrow> 'n web_state \<Rightarrow> app_error \<times> bool \<times> 'n web_state" where
  "production_settings_replace port settings w =
     (case device_settings_replace (wp_nvs port) (Some settings) (ws_module w) of
        (result, changed, m) \<Rightarrow> (result, changed, w\<lparr>ws_module := m\<rparr>))"

definition production_password_verify ::
    "'n web_port \<Rightarrow> string_view \<Rightarrow> device_settings \<Rightarrow> 'n web_state \<Rightarrow> app_error \<times> bool \<times> 'n web_state" where
  "production_password_verify port password settings w =
     (case auth_core_password_verify (wp_derive port) (password_text password) (record_of_settings settings) of
        Inl e \<Rightarrow> (e, False, w)
      | Inr matches \<Rightarrow> (APP_ERROR_NONE, matches, w))"

definition zero_material :: password_material where
  "zero_material = \<lparr>pm_credential_version = 0, pm_password_algorithm_version = 0,
     pm_password_iterations = 0, pm_password_salt = zeros 16, pm_password_verifier = zeros 32\<rparr>"

definition production_password_create ::
    "'n web_port \<Rightarrow> string_view \<Rightarrow> 'n web_state \<Rightarrow> app_error \<times> password_material \<times> 'n web_state" where
  "production_password_create port password w =
     (case auth_core_password_create (wp_derive port) (wp_salt port) (password_text password) of
        Inl e \<Rightarrow> (e, zero_material, w)
      | Inr r \<Rightarrow>
          if pr_iterations r \<noteq> AUTH_PBKDF2_ITERATIONS then (APP_ERROR_INTERNAL, zero_material, w)
          else (APP_ERROR_NONE,
            \<lparr>pm_credential_version = APP_V2_CREDENTIAL_VERSION,
             pm_password_algorithm_version = APP_V2_PASSWORD_ALGORITHM_VERSION,
             pm_password_iterations = pr_iterations r, pm_password_salt = pr_salt r,
             pm_password_verifier = pr_hash r\<rparr>, w))"

definition production_password_activate :: "device_settings \<Rightarrow> 'n web_state \<Rightarrow> 'n web_state" where
  "production_password_activate settings w =
     web_server_password_record_replace (record_of_settings settings) w"

definition production_invalidate_all_sessions ::
    "'n web_port \<Rightarrow> 'n web_state \<Rightarrow> app_error \<times> 'n web_state" where
  "production_invalidate_all_sessions port w =
     (case auth_core_session_logout_all (wp_logout port) (ws_auth w) of
        (result, core) \<Rightarrow> (result, w\<lparr>ws_auth := core\<rparr>))"

definition web_settings_production_ops :: "'n web_port \<Rightarrow> 'n web_state web_settings_ops" where
  "web_settings_production_ops port =
     \<lparr>so_settings_read = production_settings_read port,
      so_settings_replace = production_settings_replace port,
      so_password_verify = production_password_verify port,
      so_password_create = production_password_create port,
      so_password_transition_begin = web_server_password_transition_begin,
      so_password_activate = production_password_activate,
      so_password_transition_end = web_server_password_transition_end,
      so_invalidate_all_sessions = production_invalidate_all_sessions port\<rparr>"

section \<open>What the flash holds\<close>

text \<open>The settings a fresh read of the flash would give.\<close>

definition held_by :: "u8 list option \<Rightarrow> device_settings option" where
  "held_by stored =
     (case stored of
        None \<Rightarrow> Some app_v2_device_settings_init_unprovisioned
      | Some r \<Rightarrow> (case app_v2_device_settings_decode (Some r) of Inl e \<Rightarrow> None | Inr s \<Rightarrow> Some s))"

lemma canonical_unprovisioned [simp]:
  "canonical app_v2_device_settings_init_unprovisioned = app_v2_device_settings_init_unprovisioned"
proof -
  have "c_text (blit 0 (default_name @ [0]) (zeros 33)) = default_name"
    using default_name_text by (simp add: default_name_field c_text_padded)
  moreover have "c_text (zeros n) = []" "padded n [] = zeros n" for n
    by (cases n) (simp_all add: c_text_def padded_def)
  ultimately show ?thesis
    by (simp add: canonical_def app_v2_device_settings_init_unprovisioned_def zero_settings_def
        default_name_field)
qed

lemma held_by_iff:
  "held_by stored = Some (canonical x) \<longleftrightarrow>
     (case stored of
        None \<Rightarrow> canonical x = canonical app_v2_device_settings_init_unprovisioned
      | Some r \<Rightarrow> app_v2_device_settings_decode (Some r) = Inr (canonical x))"
  by (auto simp: held_by_def split: option.splits sum.splits)

section \<open>The server as a backend of the settings handlers\<close>

definition record_of_material :: "password_material \<Rightarrow> password_record" where
  "record_of_material m =
     \<lparr>pr_salt = pm_password_salt m, pr_hash = pm_password_verifier m, pr_iterations = pm_password_iterations m\<rparr>"

lemma record_of_with_material [simp]: "record_of_settings (with_material m s) = record_of_material m"
  by (simp add: record_of_settings_def record_of_material_def with_material_def)

lemma record_of_updated [simp]: "record_of_settings (updated rq s) = record_of_settings s"
  using updated_credentials [of rq s] by (simp add: record_of_settings_def credentials_of_def)

lemma record_of_canonical [simp]: "record_of_settings (canonical s) = record_of_settings s"
  by (simp add: record_of_settings_def canonical_def)

definition made_password :: "'n web_port \<Rightarrow> string_view \<Rightarrow> password_material \<Rightarrow> bool" where
  "made_password port v m \<longleftrightarrow>
     auth_core_password_create (wp_derive port) (wp_salt port) (password_text v) = Inr (record_of_material m)"

definition accepts_password :: "'n web_port \<Rightarrow> string_view \<Rightarrow> device_settings \<Rightarrow> bool" where
  "accepts_password port v s \<longleftrightarrow>
     auth_core_password_verify (wp_derive port) (password_text v) (record_of_settings s) = Inr True"

abbreviation no_sessions :: "session_entry list" where
  "no_sessions \<equiv> replicate APP_SESSION_TABLE_MAX zero_session"

definition rest_of :: "'n web_state \<Rightarrow> password_record \<times> bool \<times> session_entry list" where
  "rest_of w = (ws_record w, ws_password_transition_in_progress w, ac_sessions (ws_auth w))"

lemma auth_error: "auth_core_password_verify derive pw r = Inl e \<Longrightarrow> e \<noteq> APP_ERROR_NONE"
  "auth_core_password_create derive salt pw = Inl e \<Longrightarrow> e \<noteq> APP_ERROR_NONE"
  by (auto simp: auth_core_password_verify_def auth_core_password_create_def split: option.splits if_splits)

context nvs_flash
begin

lemma read_keeps_stored:
  assumes "settings_run ops (module_boot w) m" and "pending w = None"
    and "device_settings_read ops m = (e, x, m')"
  shows "committed (module_world m') = committed (module_world m)"
proof -
  define call where "call = (\<lambda>(core :: 'w nvs_store settings_core) (s :: 'w nvs_store). case device_settings_core_load core s of
        (Inl e, core, store) \<Rightarrow> (e, zero_settings, core, store)
      | (Inr loaded, core, store) \<Rightarrow> (APP_ERROR_NONE, loaded, core, store))"
  have "locked_call ops call zero_settings m = (e, x, m')"
    using assms(3) by (simp add: device_settings_read_def call_def)
  note spec = locked_call_spec [OF this run_coherent [OF assms(1,2)]]
  have "store.coherent core' s' \<and> committed (nvs_world s') = committed (nvs_world s)"
    if "call core s = (r, o1, core', s')" "store.coherent core s" for core s r o1 core' s'
  proof -
    note c = that
    obtain out where "device_settings_core_load core s = (out, core', s')"
      using c(1) by (cases "device_settings_core_load core s") (auto simp: call_def split: sum.splits)
    then show ?thesis using store.coherent_load c(2) by blast
  qed
  with spec show ?thesis by metis
qed

end

locale web_production = nvs_flash "wp_nvs port" committed pending
  for port :: "'n web_port" and committed :: "'n \<Rightarrow> u8 list option" and pending :: "'n \<Rightarrow> u8 list option" +
  fixes w0 :: 'n
  assumes boot: "pending w0 = None"
    and derive_sized: "wp_derive port pw salt n = Some h \<Longrightarrow> length h = 32"
    and salt_sized: "wp_salt port = Some s \<Longrightarrow> length s = 16"
begin

definition reached :: "'n web_state \<Rightarrow> bool" where
  "reached w \<longleftrightarrow> settings_run (wp_nvs port) (module_boot w0) (ws_module w)"

definition held :: "'n web_state \<Rightarrow> device_settings option" where
  "held w = held_by (committed (module_world (ws_module w)))"

lemma holds_held: "settings_store.holds (\<lambda>s. committed (nvs_world s)) (module_store m) x \<Longrightarrow>
    held_by (committed (module_world m)) = Some (canonical x)"
  unfolding settings_store.holds_def [OF store_contract] by (auto simp: held_by_def split: option.splits)

lemma read_production:
  assumes "production_settings_read port w = (e, s, w')" and "reached w"
  shows "reached w' \<and> held w' = held w \<and> rest_of w' = rest_of w \<and>
    (e = APP_ERROR_NONE \<longrightarrow> settings_sized s \<and>
       app_v2_device_settings_validate (Some s) = APP_V2_SETTINGS_OK \<and> held w = Some (canonical s))"
proof -
  obtain m where m: "device_settings_read (wp_nvs port) (ws_module w) = (e, s, m)" "w' = w\<lparr>ws_module := m\<rparr>"
    using assms(1) by (auto simp: production_settings_read_def split: prod.splits)
  note run = assms(2) [unfolded reached_def]
  have "settings_run (wp_nvs port) (module_boot w0) m"
    using run settings_step.read [OF m(1)] by (rule rtranclp.rtrancl_into_rtrancl)
  moreover have "committed (module_world m) = committed (module_world (ws_module w))"
    by (rule read_keeps_stored [OF run boot m(1)])
  moreover have "settings_sized s \<and> app_v2_device_settings_validate (Some s) = APP_V2_SETTINGS_OK \<and>
      held_by (committed (module_world m)) = Some (canonical s)" if "e = APP_ERROR_NONE"
    using read_is_stored [OF run boot m(1) [unfolded that]] holds_held by blast
  ultimately show ?thesis by (simp add: m(2) reached_def held_def rest_of_def)
qed

lemma replace_production:
  assumes "production_settings_replace port s w = (e, changed, w')" and "reached w" and "settings_sized s"
  shows "reached w' \<and> rest_of w' = rest_of w \<and> (e = APP_ERROR_NONE \<longrightarrow> held w' = Some (canonical s)) \<and>
    (e \<notin> {APP_ERROR_NONE, APP_ERROR_COMMIT_UNCERTAIN, APP_ERROR_INTERNAL} \<longrightarrow> held w' = held w)"
proof -
  obtain m where m: "device_settings_replace (wp_nvs port) (Some s) (ws_module w) = (e, changed, m)"
      "w' = w\<lparr>ws_module := m\<rparr>"
    using assms(1) by (auto simp: production_settings_replace_def split: prod.splits)
  note run = assms(2) [unfolded reached_def]
  have "settings_run (wp_nvs port) (module_boot w0) m"
    by (rule rtranclp.rtrancl_into_rtrancl [OF run], rule settings_step.replace [OF m(1)]) (use assms(3) in simp)
  moreover have "held_by (committed (module_world m)) = Some (canonical s)" if "e = APP_ERROR_NONE"
    using replace_stores [OF run boot assms(3) m(1)] that holds_held
    by (auto simp: held_by_def)
  ultimately show ?thesis
    using replace_stores [OF run boot assms(3) m(1)] by (simp add: m(2) reached_def held_def rest_of_def)
qed

sublocale backend: settings_backend "web_settings_production_ops port" reached held rest_of
  record_of_settings no_sessions "accepts_password port" "made_password port"
proof
  show "w' = w \<and> (e = APP_ERROR_NONE \<and> matches \<longrightarrow> accepts_password port v s)"
    if "so_password_verify (web_settings_production_ops port) v s w = (e, matches, w')" for v s w e matches w'
    using that auth_error(1)
    by (auto simp: web_settings_production_ops_def production_password_verify_def accepts_password_def split: sum.splits)
next
  fix v w e m w'
  assume c: "so_password_create (web_settings_production_ops port) v w = (e, m, w')"
  have sized: "length (pr_salt r) = 16 \<and> length (pr_hash r) = 32"
    if "auth_core_password_create (wp_derive port) (wp_salt port) (password_text v) = Inr r" for r
    using that derive_sized salt_sized
    by (auto simp: auth_core_password_create_def split: option.splits if_splits)
  show "w' = w \<and> length (pm_password_salt m) = 16 \<and> length (pm_password_verifier m) = 32 \<and>
      (e = APP_ERROR_NONE \<longrightarrow> made_password port v m)"
    using c sized auth_error(2)
    by (auto simp: web_settings_production_ops_def production_password_create_def made_password_def
        record_of_material_def zero_material_def split: sum.splits if_splits)
qed (auto simp: web_settings_production_ops_def web_server_password_transition_begin_def
    web_server_password_transition_end_def production_password_activate_def
    web_server_password_record_replace_def production_invalidate_all_sessions_def
    auth_core_session_logout_all_def reached_def held_def rest_of_def
    dest: read_production [unfolded reached_def held_def rest_of_def]
      replace_production [unfolded reached_def held_def rest_of_def] split: if_splits prod.splits)

end

section \<open>The handlers on the server\<close>

lemma parse_exact_wipedD: "parse_exact_body cj body = (doc, body') \<Longrightarrow> body' = zeros (length body)"
  using parse_exact_wiped [of cj body] by simp

context web_production
begin

lemma put_handled:
  assumes "web_settings_put_handle cj body (Some (web_settings_production_ops port)) w =
      ((result, detail), json, body', w')" and "reached w"
  shows "body' = zeros (length body) \<and> reached w' \<and> rest_of w' = rest_of w \<and>
    (result = WEB_SETTINGS_PUT_OK \<longrightarrow> (\<exists>doc rq cur.
       fst (parse_exact_body cj body) = Some doc \<and> exact_settings_put_fields doc \<and>
       populate_settings_update_request cj doc = Some rq \<and> settings_good cur \<and>
       held w = Some (canonical cur) \<and> held w' = Some (canonical (updated rq cur)))) \<and>
    (result \<notin> {WEB_SETTINGS_PUT_OK, WEB_SETTINGS_PUT_INTERNAL} \<and>
       detail \<notin> {APP_ERROR_COMMIT_UNCERTAIN, APP_ERROR_INTERNAL} \<longrightarrow> held w' = held w)"
proof -
  have wiped: "body' = zeros (length body)"
    using assms(1) by (auto simp: web_settings_put_handle_def dest: parse_exact_wipedD
        split: if_splits option.splits prod.splits)
  show ?thesis
  proof (cases "body \<noteq> [] \<and> (\<exists>doc rq. fst (parse_exact_body cj body) = Some doc \<and>
      exact_settings_put_fields doc \<and> populate_settings_update_request cj doc = Some rq)")
    case True
    then obtain doc rq where d: "body \<noteq> []" "fst (parse_exact_body cj body) = Some doc"
      "exact_settings_put_fields doc" "populate_settings_update_request cj doc = Some rq" by blast
    have "put_request cj (web_settings_production_ops port) rq w = ((result, detail), json, w')"
      using assms(1) d by (auto simp: web_settings_put_handle_def split: prod.splits)
    note p = backend.put_spec [OF this assms(2)]
    show ?thesis using p d wiped by blast
  next
    case False
    then have "w' = w \<and> result \<noteq> WEB_SETTINGS_PUT_OK"
      using assms(1) by (auto simp: web_settings_put_handle_def split: if_splits option.splits prod.splits)
    then show ?thesis using wiped assms(2) by simp
  qed
qed

text \<open>What a password transaction with the new password \<open>new\<close> leaves.\<close>

definition transaction_outcome where
  "transaction_outcome Q new result detail w w' \<longleftrightarrow>
     ws_password_transition_in_progress w' = ws_password_transition_in_progress w \<and>
     (if result \<in> {WEB_CHANGE_PASSWORD_OK, WEB_CHANGE_PASSWORD_COMMITTED_SESSION_INVALIDATION_INCOMPLETE}
      then \<not> ws_password_transition_in_progress w \<and>
        (\<exists>cur m. Q cur \<and> settings_good cur \<and> held w = Some (canonical cur) \<and> made_password port new m \<and>
           settings_good (with_material m cur) \<and> held w' = Some (canonical (with_material m cur)) \<and>
           ws_record w' = record_of_material m) \<and>
        (result = WEB_CHANGE_PASSWORD_OK \<longrightarrow> ac_sessions (ws_auth w') = no_sessions)
      else rest_of w' = rest_of w \<and>
        (detail \<notin> {APP_ERROR_COMMIT_UNCERTAIN, APP_ERROR_INTERNAL} \<longrightarrow> held w' = held w))"

lemma transaction_handled:
  assumes "password_transaction (web_settings_production_ops port) new load w = ((result, detail), w')"
    and "reached w"
    and "\<And>w out cur w1. load w = (out, cur, w1) \<Longrightarrow> reached w \<Longrightarrow>
      reached w1 \<and> held w1 = held w \<and> rest_of w1 = rest_of w \<and>
      fst out \<noteq> WEB_CHANGE_PASSWORD_COMMITTED_SESSION_INVALIDATION_INCOMPLETE \<and>
      (fst out = WEB_CHANGE_PASSWORD_OK \<longrightarrow> Q cur \<and> settings_good cur \<and> held w = Some (canonical cur))"
  shows "reached w' \<and> transaction_outcome Q new result detail w w'"
  using backend.transaction_spec [OF assms(1,2), of Q] assms(3)
  unfolding transaction_outcome_def by (simp add: rest_of_def split: if_split_asm) blast

lemma change_handled:
  assumes "web_change_password_handle cj body (Some (web_settings_production_ops port)) w =
      ((result, detail), body', w')" and "reached w"
  shows "body' = zeros (length body) \<and> reached w' \<and>
    (w' = w \<and> result \<in> {WEB_CHANGE_PASSWORD_INTERNAL, WEB_CHANGE_PASSWORD_INVALID_BODY} \<or>
     (\<exists>old new. change_password_views_from_root cj (fst (parse_exact_body cj body)) = Some (old, new) \<and>
        transaction_outcome (accepts_password port old) new result detail w w'))"
proof -
  have wiped: "body' = zeros (length body)"
    using assms(1) by (auto simp: web_change_password_handle_def dest: parse_exact_wipedD
        split: if_splits option.splits prod.splits)
  show ?thesis
  proof (cases "body \<noteq> [] \<and> change_password_views_from_root cj (fst (parse_exact_body cj body)) \<noteq> None")
    case True
    then obtain old new where v: "change_password_views_from_root cj (fst (parse_exact_body cj body)) = Some (old, new)"
      by (cases "change_password_views_from_root cj (fst (parse_exact_body cj body))") auto
    have "password_transaction (web_settings_production_ops port) new
        (change_password_verify_current (web_settings_production_ops port) old new) w = ((result, detail), w')"
      using assms(1) True v by (auto simp: web_change_password_handle_def split: prod.splits)
    from transaction_handled [OF this assms(2), of "accepts_password port old"] backend.verify_spec
    show ?thesis using v wiped by blast
  next
    case False
    then show ?thesis
      using assms wiped by (auto simp: web_change_password_handle_def split: if_splits option.splits prod.splits)
  qed
qed

lemma console_handled:
  assumes "web_change_password_apply_without_verification new (Some (web_settings_production_ops port)) w =
      ((result, detail), w')" and "reached w"
  shows "reached w' \<and> (w' = w \<and> result = WEB_CHANGE_PASSWORD_INTERNAL \<or>
     transaction_outcome (\<lambda>cur. True) new result detail w w')"
proof (cases "new = None")
  case True
  then show ?thesis using assms by (simp add: web_change_password_apply_without_verification_def)
next
  case False
  then have "password_transaction (web_settings_production_ops port) new
      (change_password_load_current_and_validate (web_settings_production_ops port) new) w = ((result, detail), w')"
    using assms(1) unfolding web_change_password_apply_without_verification_def by (auto split: if_splits)
  from transaction_handled [OF this assms(2), of "\<lambda>cur. True"] backend.load_spec
  show ?thesis by blast
qed

end

end
