(* ===== verification/Web_Sample.thy ===== *)
theory Web_Sample
  imports Web_Credentials
begin

text \<open>
  A server on a flash that works, with a key derivation that only looks at the length of the
  password: the instance of \<open>web_production\<close> behind the witnesses of the web handlers.
\<close>

section \<open>The settings module on a working flash\<close>

definition module_on :: "bool \<Rightarrow> device_settings \<Rightarrow> u8 list option \<Rightarrow> (u8 list option \<times> u8 list option) settings_module" where
  "module_on present current stored =
     \<lparr>settings_mutex = True, settings_initialized = True,
      settings_core = \<lparr>core_ops = Some (settings_operations sample_nvs), core_current = current,
        core_loaded = True, core_record_present = present\<rparr>,
      module_store = \<lparr>settings_handle = 1, settings_handle_open = True, nvs_world = (stored, None)\<rparr>\<rparr>"

definition record_bytes :: "device_settings \<Rightarrow> u8 list" where
  "record_bytes s = field_numbers s @ field_texts s"

abbreviation module_with :: "device_settings \<Rightarrow> (u8 list option \<times> u8 list option) settings_module" where
  "module_with s \<equiv> module_on True s (Some (record_bytes s))"

abbreviation storable :: "device_settings \<Rightarrow> bool" where
  "storable s \<equiv> settings_sized s \<and> app_v2_device_settings_validate (Some s) = APP_V2_SETTINGS_OK"

lemma storable_bytes:
  assumes "storable s"
  shows "encode_settings s = Inr (record_bytes s)" and "length (record_bytes s) = 344"
    and "app_v2_device_settings_decode (Some (record_bytes s)) = Inr (canonical s)"
proof -
  show "encode_settings s = Inr (record_bytes s)"
    using encode_valid [of s "zeros 344"] assms by (simp add: encode_settings_def limit_defs record_bytes_def)
  then show "length (record_bytes s) = 344"
    "app_v2_device_settings_decode (Some (record_bytes s)) = Inr (canonical s)"
    using encode_settings_Inr assms by blast+
qed

lemma read_module_on:
  "device_settings_read sample_nvs (module_on p s r) = (APP_ERROR_NONE, s, module_on p s r)"
  by (simp add: device_settings_read_def locked_call_def lock_settings_def take_mutex_def
      finish_locked_def set_world_def device_settings_core_load_def module_on_def sample_nvs_sel)

lemma replace_module_on:
  assumes "storable c" and "storable x" and "canonical c \<noteq> canonical x"
  shows "device_settings_replace sample_nvs (Some x) (module_on p c r) = (APP_ERROR_NONE, True, module_with x)"
proof -
  note c = storable_bytes [OF assms(1)] and x = storable_bytes [OF assms(2)]
  have ne: "record_bytes c \<noteq> record_bytes x" using c(3) x(3) assms(3) by auto
  show ?thesis
    by (simp add: device_settings_replace_def locked_call_def lock_settings_def take_mutex_def
        finish_locked_def set_world_def device_settings_core_replace_def device_settings_core_load_def
        module_on_def c x ne sample_nvs_sel)
      (simp add: settings_operations_def nvs_replace_record_def limit_defs x(2) sample_nvs_sel nvs_visible_def)
qed

lemma sample_module_on: "sample_module = module_on False app_v2_device_settings_init_unprovisioned None"
  by (simp add: sample_module_eq module_on_def)

lemma run_module_with:
  assumes "storable x" and "canonical x \<noteq> app_v2_device_settings_init_unprovisioned"
  shows "settings_run sample_nvs (module_boot (None, None)) (module_with x)"
proof -
  have "device_settings_replace sample_nvs (Some x) sample_module = (APP_ERROR_NONE, True, module_with x)"
    unfolding sample_module_on
    by (rule replace_module_on) (use assms unprovisioned_sized unprovisioned_valid in auto)
  then have "settings_step sample_nvs sample_module (module_with x)"
    by (rule settings_step.replace) (use assms in simp)
  with sample_run show ?thesis by (rule rtranclp.rtrancl_into_rtrancl)
qed

section \<open>The server\<close>

definition sample_port :: "(u8 list option \<times> u8 list option) web_port" where
  "sample_port =
     \<lparr>wp_nvs = sample_nvs, wp_derive = (\<lambda>pw salt n. Some (replicate 32 (of_nat (length pw)))),
      wp_salt = Some (replicate 16 7),
      wp_logout = \<lparr>ae_lock = True, ae_unlock = True, ae_now_us = 0, ae_random = (\<lambda>n. None)\<rparr>\<rparr>"

interpretation sample_web: web_production sample_port fst snd "(None, None)"
  using sample_flash_laws
  by (simp add: web_production_def web_production_axioms_def sample_port_def)

lemma sample_web_laws: "web_production sample_port fst snd (None, None)"
  by (rule sample_web.web_production_axioms)

text \<open>The record of a password of \<open>n\<close> characters, and the settings that hold it.\<close>

definition password_of_length :: "nat \<Rightarrow> password_material" where
  "password_of_length n =
     \<lparr>pm_credential_version = APP_V2_CREDENTIAL_VERSION,
      pm_password_algorithm_version = APP_V2_PASSWORD_ALGORITHM_VERSION,
      pm_password_iterations = AUTH_PBKDF2_ITERATIONS, pm_password_salt = replicate 16 7,
      pm_password_verifier = replicate 32 (of_nat n)\<rparr>"

definition sample_with :: "nat \<Rightarrow> device_settings" where
  "sample_with n = with_material (password_of_length n) sample_settings"

lemma sample_with_good: "0 < n \<Longrightarrow> n \<le> 128 \<Longrightarrow> settings_good (sample_with n)"
  unfolding sample_with_def
  by (rule prepare_candidate_spec(2) [OF sample_good])
    (simp_all add: password_of_length_def material_good_def limit_defs replicate_eq_replicate
      word_of_nat_eq_0_iff nat_dvd_not_less)

definition sample_server :: "nat \<Rightarrow> (u8 list option \<times> u8 list option) web_state" where
  "sample_server n =
     \<lparr>ws_module = module_with (sample_with n),
      ws_configuration = zero_configuration
        \<lparr>wc_login_enabled := True, wc_password_record := record_of_settings (sample_with n)\<rparr>,
      ws_password_transition_in_progress = False, ws_auth = auth_core_init\<rparr>"


lemma sample_run_with:
  assumes "0 < n" and "n \<le> 128"
  shows "settings_run (wp_nvs sample_port) (module_boot (None, None)) (ws_module (sample_server n))"
proof -
  have "canonical (sample_with n) \<noteq> app_v2_device_settings_init_unprovisioned"
    by (auto simp: canonical_def sample_with_def with_material_def sample_settings_def
        app_v2_device_settings_init_unprovisioned_def zero_settings_def dest: arg_cong [where f = provisioned])
  then show ?thesis
    using run_module_with sample_with_good [OF assms] by (simp add: sample_server_def sample_port_def settings_good_def)
qed

lemma sample_ops:
  "so_settings_read (web_settings_production_ops sample_port) w =
     (case device_settings_read sample_nvs (ws_module w) of (e, s, m) \<Rightarrow> (e, s, w\<lparr>ws_module := m\<rparr>))"
  "so_settings_replace (web_settings_production_ops sample_port) x w =
     (case device_settings_replace sample_nvs (Some x) (ws_module w) of (e, c, m) \<Rightarrow> (e, c, w\<lparr>ws_module := m\<rparr>))"
  "so_password_transition_begin (web_settings_production_ops sample_port) = web_server_password_transition_begin"
  "so_password_transition_end (web_settings_production_ops sample_port) = web_server_password_transition_end"
  "so_password_activate (web_settings_production_ops sample_port) = production_password_activate"
  "so_invalidate_all_sessions (web_settings_production_ops sample_port) w =
     (APP_ERROR_NONE, w\<lparr>ws_auth := (ws_auth w)\<lparr>ac_sessions := no_sessions\<rparr>\<rparr>)"
  by (simp_all add: web_settings_production_ops_def production_settings_read_def production_settings_replace_def
      production_invalidate_all_sessions_def auth_core_session_logout_all_def sample_port_def split: prod.splits)

lemma password_no_nul:
  assumes "0 \<notin> set (v :: u8 list)"
  shows "CHR 0x00 \<notin> set (map (\<lambda>c. char_of (unat c)) v)"
proof
  assume "CHR 0x00 \<in> set (map (\<lambda>c. char_of (unat c)) v)"
  then obtain c :: u8 where c: "c \<in> set v" "CHR 0x00 = char_of (unat c)" by auto
  then have "(of_char (CHR 0x00) :: nat) = of_char (char_of (unat c))" by (simp only:)
  moreover have "unat c < 2 ^ 8" using unsigned_less [of c] by simp
  ultimately have "unat c = 0" by (simp only: of_char_of take_bit_nat_eq_self) simp
  with c(1) assms show False by (simp add: unat_eq_0)
qed

lemma sample_create:
  assumes "12 \<le> length v" and "length v \<le> 128" and "0 \<notin> set v"
  shows "so_password_create (web_settings_production_ops sample_port) (Some v) w =
    (APP_ERROR_NONE, password_of_length (length v), w)"
proof -
  have "CHR 0x00 \<notin> set (map (\<lambda>c. char_of (unat c)) v)"
    by (rule password_no_nul [OF assms(3)])
  then show ?thesis
    using assms(1,2) by (simp add: web_settings_production_ops_def production_password_create_def sample_port_def
        password_text_def auth_core_password_create_def limit_defs password_of_length_def)
qed

end
