(* ===== verification/Web_Password.thy ===== *)
theory Web_Password
  imports Web_Sample
begin

text \<open>
  What the settings handlers guarantee on the running server: a settings update keeps the
  credentials, a password change is all or nothing for the stored record, the verifier in RAM
  and the sessions together, and where the two overlap.
\<close>

abbreviation held_settings :: "('n \<Rightarrow> u8 list option) \<Rightarrow> 'n web_state \<Rightarrow> device_settings option" where
  "held_settings committed w \<equiv> held_by (committed (module_world (ws_module w)))"

context web_production
begin

lemma backend_contract: "settings_backend (web_settings_production_ops port) reached held rest_of
    record_of_settings no_sessions (accepts_password port) (made_password port)"
  by (rule backend.settings_backend_axioms)

end

lemma map_prepare_not_ok [simp]: "map_prepare_update_result x \<noteq> WEB_SETTINGS_PUT_OK"
  by (cases x) simp_all

lemma transaction_at_port:
  assumes "web_production port committed pending w0"
    and "web_production.transaction_outcome port committed Q new result detail w w'"
  shows "ws_password_transition_in_progress w' = ws_password_transition_in_progress w \<and>
     (if result \<in> {WEB_CHANGE_PASSWORD_OK, WEB_CHANGE_PASSWORD_COMMITTED_SESSION_INVALIDATION_INCOMPLETE}
      then \<not> ws_password_transition_in_progress w \<and>
        (\<exists>cur m. Q cur \<and> held_settings committed w = Some (canonical cur) \<and> made_password port new m \<and>
           held_settings committed w' = Some (canonical (with_material m cur)) \<and>
           ws_record w' = record_of_material m) \<and>
        (result = WEB_CHANGE_PASSWORD_OK \<longrightarrow> ac_sessions (ws_auth w') = no_sessions)
      else rest_of w' = rest_of w \<and>
        (detail \<notin> {APP_ERROR_COMMIT_UNCERTAIN, APP_ERROR_INTERNAL} \<longrightarrow>
           held_settings committed w' = held_settings committed w))"
  using assms(2) unfolding web_production.transaction_outcome_def [OF assms(1)] web_production.held_def [OF assms(1)]
  by (simp split: if_splits) blast

text \<open>
  C26: A settings update through the web interface stores exactly the update and nothing else.
  On a running server, whatever NVS does, the body is wiped on every path, and the verifier in
  RAM, the transition gate and the sessions are untouched.  An accepted request read a body
  with known and distinct fields, found valid settings of a provisioned device in the flash,
  and left there those settings with exactly the requested fields replaced, the password record
  being the old one; a refused request, and one whose storage failed for sure, left the stored
  settings alone.
\<close>
theorem settings_put_stores_update:
  assumes "web_production port committed pending w0"
    and "settings_run (wp_nvs port) (module_boot w0) (ws_module w)"
    and "web_settings_put_handle cj body (Some (web_settings_production_ops port)) w =
      ((result, detail), json, body', w')"
  shows "body' = zeros (length body) \<and> rest_of w' = rest_of w \<and>
    (result = WEB_SETTINGS_PUT_OK \<longrightarrow> (\<exists>doc rq cur.
       fst (parse_exact_body cj body) = Some doc \<and> exact_settings_put_fields doc \<and>
       populate_settings_update_request cj doc = Some rq \<and> settings_good cur \<and>
       held_settings committed w = Some (canonical cur) \<and>
       held_settings committed w' = Some (canonical (updated rq cur)) \<and>
       record_of_settings (updated rq cur) = record_of_settings cur)) \<and>
    (result \<notin> {WEB_SETTINGS_PUT_OK, WEB_SETTINGS_PUT_INTERNAL} \<and>
       detail \<notin> {APP_ERROR_COMMIT_UNCERTAIN, APP_ERROR_INTERNAL} \<longrightarrow>
       held_settings committed w' = held_settings committed w)"
proof -
  have "web_production.reached port w0 w"
    using assms(2) by (simp add: web_production.reached_def [OF assms(1)])
  from web_production.put_handled [OF assms(1,3) this] show ?thesis
    unfolding web_production.held_def [OF assms(1)] by simp
qed

text \<open>A library that parses every body as the given document, for the witnesses.\<close>

definition sample_cjson :: "json_fields \<Rightarrow> cjson" where
  "sample_cjson doc =
     \<lparr>cj_parse = (\<lambda>body n. Some (JObject doc, n - 1)), cj_item = field_of, cj_create = (\<lambda>n. True),
      cj_add = (\<lambda>members key v. Some (members @ [(Some key, v)])), cj_print = (\<lambda>members. Some [0x7b, 0x7d])\<rparr>"

definition sample_body :: "u8 list" where
  "sample_body = [0x7b, 0x7d, 0]"

lemma sample_parse: "parse_exact_body (sample_cjson doc) sample_body = (Some doc, zeros 3)"
  by (simp add: parse_exact_body_def bounded_body_length_def sample_body_def sample_cjson_def
      contains_embedded_nul_escape_def NUL_ESCAPE_def numeral_3_eq_3)

lemma text_body_parses:
  assumes "0 \<notin> set t" and "t \<noteq> []" and "length t < 6" and "length t < n"
  shows "parse_exact_body (sample_cjson doc) (padded n t) = (Some doc, zeros n)"
proof -
  have len: "length (padded n t) = n" using assms(4) by (simp add: padded_def)
  have b: "bounded_body_length (padded n t) = Some (length t)"
    using assms by (simp add: bounded_body_length_def len)
  have "\<not> contains_embedded_nul_escape body (length t)" for body
    using assms(3) by (simp add: contains_embedded_nul_escape_def NUL_ESCAPE_def)
  then show ?thesis
    by (simp add: parse_exact_body_def b len) (simp add: sample_cjson_def)
qed

definition rename_doc :: json_fields where
  "rename_doc = [(Some (ascii ''deviceName''), JString (ascii ''Desk''))]"

definition only_rename :: settings_update_request where
  "only_rename = zero_request\<lparr>rq_has_device_name := True, rq_device_name := Some (ascii ''Desk'')\<rparr>"

lemma rename_populated:
  "exact_settings_put_fields rename_doc"
  "populate_settings_update_request (sample_cjson rename_doc) rename_doc = Some only_rename"
proof -
  show "exact_settings_put_fields rename_doc"
    by (simp add: exact_settings_put_fields_def rename_doc_def SETTINGS_PUT_FIELDS_def)
  have "field_of rename_doc (ascii ''deviceName'') = Some (JString (ascii ''Desk''))"
    by (simp add: field_of_def rename_doc_def)
  moreover have "field_of rename_doc (ascii k) = None" if "k \<in> {''requireSerialConfirmation'',
      ''snapshotRetentionTarget'', ''lastSelectedPackageId'', ''accessPoint'', ''station''}" for k
    using that by (auto simp: field_of_def rename_doc_def ascii_def)
  moreover have "c_text (ascii ''Desk'') = ascii ''Desk''"
    by (simp add: c_text_def ascii_def)
  ultimately show "populate_settings_update_request (sample_cjson rename_doc) rename_doc = Some only_rename"
    by (simp add: populate_settings_update_request_def sample_cjson_def populate_device_name_def
        populate_require_confirmation_def populate_snapshot_retention_target_def
        populate_last_selected_package_id_def populate_access_point_def populate_station_def
        string_view_from_item_def only_rename_def)
qed

lemma rename_accepted: "request_error only_rename = APP_V2_SETTINGS_UPDATE_OK"
proof -
  have "view_valid_text (Some (ascii ''Desk'')) 1 32"
    by (simp add: view_valid_text_def ascii_utf8 list_all_iff) (simp add: ascii_def)
  then show ?thesis by (simp add: request_error_def only_rename_def zero_request_def)
qed

lemma response_built:
  assumes "settings_good s"
  shows "build_settings_put_response_json (sample_cjson doc) s a b \<noteq> None"
proof -
  have "length (c_text (device_name s)) < 33" "length (c_text (ap_ssid s)) < 33"
    "length (c_text (last_selected_package_id s)) < 37" "length (c_text (station_ssid s)) < 33"
    using valid_texts_terminated [of s] assms
    by (simp_all add: settings_good_def texts_terminated_def text_field_def)
  then show ?thesis
    using assms by (simp add: build_settings_put_response_json_def app_v2_settings_response_from_settings_def
        settings_good_def sample_cjson_def settings_response_populate_def add_view_string_def
        add_optional_string_def view_of_def optional_view_of_def)
qed

lemma canonical_name: "device_name (canonical s) = padded 33 (c_text (device_name s))"
  by (simp add: canonical_def)

lemma rename_names:
  "device_name (updated only_rename s) = padded 33 (ascii ''Desk'')"
  "device_name (sample_with n) = padded 33 default_name"
  by (simp_all add: updated_def with_station_def with_access_point_def with_preferences_def with_name_def
      put_text_def only_rename_def zero_request_def sample_with_def with_material_def sample_settings_def
      app_v2_device_settings_init_unprovisioned_def zero_settings_def default_name_field)

lemma rename_request_facts:
  "\<not> settings_update_request_is_empty only_rename"
  "\<not> rq_has_access_point only_rename" "\<not> rq_has_station only_rename"
  by (simp_all add: settings_update_request_is_empty_def only_rename_def zero_request_def)

lemma rename_accepted_settings:
  "settings_good (updated only_rename (sample_with n))" if "settings_good (sample_with n)"
  using updated_good [OF that rename_accepted] .

lemma rename_changes_name: "canonical (sample_with n) \<noteq> canonical (updated only_rename (sample_with k))"
proof
  assume "canonical (sample_with n) = canonical (updated only_rename (sample_with k))"
  from arg_cong [OF this, where f = device_name]
  have "padded 33 (c_text (padded 33 default_name)) = padded 33 (c_text (padded 33 (ascii ''Desk'')))"
    by (simp only: canonical_name rename_names)
  moreover have "c_text (padded 33 default_name) = default_name"
    by (rule c_text_padded) (simp_all add: default_name_text)
  moreover have "c_text (padded 33 (ascii ''Desk'')) = ascii ''Desk''"
    by (rule c_text_padded) (simp_all add: ascii_def)
  ultimately show False by (simp add: padded_def ascii_def)
qed

lemma rename_put:
  "\<exists>json w'. web_settings_put_handle (sample_cjson rename_doc) sample_body
      (Some (web_settings_production_ops sample_port)) (sample_server 12) =
      ((WEB_SETTINGS_PUT_OK, APP_ERROR_NONE), json, zeros 3, w')"
proof -
  have g: "settings_good (sample_with 12)" "settings_good (updated only_rename (sample_with 12))"
    using sample_with_good [of 12] rename_accepted_settings by simp_all
  note rep = replace_module_on [OF _ _ rename_changes_name]
  obtain json where j: "build_settings_put_response_json (sample_cjson rename_doc)
      (updated only_rename (sample_with 12)) False False = Some json"
    using response_built [OF g(2), of rename_doc False False] by auto
  show ?thesis
    using g by (simp add: web_settings_put_handle_def sample_parse rename_populated put_request_def sample_ops
        sample_server_def read_module_on settings_update_accepted [OF g(1) rename_request_facts(1) rename_accepted]
        rename_request_facts j rep settings_good_def) (simp add: sample_body_def)
qed

lemma settings_put_stores_update_witness:
  "\<exists>json w' rq cur. web_settings_put_handle (sample_cjson rename_doc) sample_body
      (Some (web_settings_production_ops sample_port)) (sample_server 12) =
      ((WEB_SETTINGS_PUT_OK, APP_ERROR_NONE), json, zeros 3, w') \<and>
     rest_of w' = rest_of (sample_server 12) \<and>
     held_settings fst (sample_server 12) = Some (canonical cur) \<and>
     held_settings fst w' = Some (canonical (updated rq cur))"
proof -
  obtain json w' where put: "web_settings_put_handle (sample_cjson rename_doc) sample_body
      (Some (web_settings_production_ops sample_port)) (sample_server 12) =
      ((WEB_SETTINGS_PUT_OK, APP_ERROR_NONE), json, zeros 3, w')"
    using rename_put by blast
  from settings_put_stores_update [OF sample_web_laws sample_run_with [of 12] put] put
  show ?thesis by auto
qed

text \<open>
  C27: A password change through the web interface is coherent.  On a running server, whatever
  NVS, the key derivation and the random source do, the body is wiped and the transition gate
  ends as it was.  When the change is reported as made, the current password was accepted by
  the stored record, no other change was in progress, the flash holds the old settings with
  nothing but the password record replaced by one made from the new password, the verifier in
  RAM is that same record, and full success also means that no session is left; when it is not,
  the verifier, the gate and the sessions are as before, and so is the flash unless the error
  says that the storage is uncertain.
\<close>
theorem password_change_coherent:
  assumes "web_production port committed pending w0"
    and "settings_run (wp_nvs port) (module_boot w0) (ws_module w)"
    and "web_change_password_handle cj body (Some (web_settings_production_ops port)) w =
      ((result, detail), body', w')"
  shows "body' = zeros (length body) \<and>
    ws_password_transition_in_progress w' = ws_password_transition_in_progress w \<and>
    (if result \<in> {WEB_CHANGE_PASSWORD_OK, WEB_CHANGE_PASSWORD_COMMITTED_SESSION_INVALIDATION_INCOMPLETE}
     then \<not> ws_password_transition_in_progress w \<and>
       (\<exists>old new cur m. change_password_views_from_root cj (fst (parse_exact_body cj body)) = Some (old, new) \<and>
          accepts_password port old cur \<and> held_settings committed w = Some (canonical cur) \<and>
          made_password port new m \<and> held_settings committed w' = Some (canonical (with_material m cur)) \<and>
          ws_record w' = record_of_material m) \<and>
       (result = WEB_CHANGE_PASSWORD_OK \<longrightarrow> ac_sessions (ws_auth w') = no_sessions)
     else rest_of w' = rest_of w \<and>
       (detail \<notin> {APP_ERROR_COMMIT_UNCERTAIN, APP_ERROR_INTERNAL} \<longrightarrow>
          held_settings committed w' = held_settings committed w))"
proof -
  have "web_production.reached port w0 w"
    using assms(2) by (simp add: web_production.reached_def [OF assms(1)])
  from web_production.change_handled [OF assms(1,3) this] transaction_at_port [OF assms(1)]
  consider "w' = w" "result \<in> {WEB_CHANGE_PASSWORD_INTERNAL, WEB_CHANGE_PASSWORD_INVALID_BODY}"
      "body' = zeros (length body)"
    | old new where "body' = zeros (length body)"
      "change_password_views_from_root cj (fst (parse_exact_body cj body)) = Some (old, new)"
      "web_production.transaction_outcome port committed (accepts_password port old) new result detail w w'"
    by blast
  then show ?thesis
  proof cases
    case 1
    then show ?thesis by auto
  next
    case (2 old new)
    from transaction_at_port [OF assms(1) 2(3)] show ?thesis
      using 2(1,2) by (simp split: if_splits)
  qed
qed


text \<open>A password change on the sample server.\<close>

definition server_after :: "nat \<Rightarrow> (u8 list option \<times> u8 list option) web_state \<Rightarrow>
    (u8 list option \<times> u8 list option) web_state" where
  "server_after n w = w
     \<lparr>ws_module := module_with (sample_with n),
      ws_configuration := (ws_configuration w)\<lparr>wc_password_record := record_of_material (password_of_length n)\<rparr>,
      ws_auth := (ws_auth w)\<lparr>ac_sessions := no_sessions\<rparr>\<rparr>"

lemma sample_with_again: "with_material (password_of_length k) (sample_with n) = sample_with k"
  by (simp add: sample_with_def with_material_def)

lemma sample_with_distinct:
  assumes "n \<le> 128" and "k \<le> 128" and "n \<noteq> k"
  shows "canonical (sample_with n) \<noteq> canonical (sample_with k)"
proof
  assume "canonical (sample_with n) = canonical (sample_with k)"
  from arg_cong [OF this, where f = password_verifier]
  have "(of_nat n :: u8) = of_nat k"
    by (simp add: canonical_def sample_with_def with_material_def password_of_length_def replicate_eq_replicate)
  then have "unat (of_nat n :: u8) = unat (of_nat k :: u8)" by simp
  with assms show False by (simp add: unat_of_nat)
qed

lemma sample_finish:
  assumes "ws_module w = module_on p (sample_with n) r" and "0 < n" and "n \<le> 128"
    and "12 \<le> length v" and "length v \<le> 128" and "0 \<notin> set v" and "length v \<noteq> n"
  shows "change_password_finish (web_settings_production_ops sample_port) (Some v)
      ((WEB_CHANGE_PASSWORD_OK, APP_ERROR_NONE), sample_with n, w) =
    ((WEB_CHANGE_PASSWORD_OK, APP_ERROR_NONE), server_after (length v) w)"
proof -
  have g: "settings_good (sample_with n)" "settings_good (sample_with (length v))"
    using assms sample_with_good [of n] sample_with_good [of "length v"] by fastforce+
  have "v \<noteq> []" using assms(4) by auto
  then have m: "material_good (password_of_length (length v))"
    using assms nat_dvd_not_less [of "length v" 256]
    by (simp add: password_of_length_def material_good_def limit_defs replicate_eq_replicate word_of_nat_eq_0_iff)
  have p: "app_v2_password_change_prepare_candidate (Some (sample_with n)) (Some (password_of_length (length v))) =
      (True, sample_with (length v))"
    using prepare_candidate_spec(1) [OF g(1), of "password_of_length (length v)"] m
    by (simp add: sample_with_again) (simp add: password_of_length_def)
  note rep = replace_module_on [of "sample_with n" "sample_with (length v)"]
  show ?thesis
    using g assms sample_with_distinct [of n "length v"]
    by (simp add: change_password_finish_def change_password_build_candidate_def sample_create p
        change_password_commit_candidate_def sample_ops rep settings_good_def production_password_activate_def
        web_server_password_record_replace_def server_after_def)
      (simp add: sample_with_def)
qed

definition old_password :: "u8 list" where
  "old_password = ascii ''old password''"

definition new_password :: "u8 list" where
  "new_password = ascii ''new password!''"

lemma sample_passwords:
  "length old_password = 12" "length new_password = 13" "0 \<notin> set new_password" "0 \<notin> set old_password"
  "view_valid_text (Some new_password) 12 128"
proof -
  show n: "length old_password = 12" "length new_password = 13" "0 \<notin> set new_password" "0 \<notin> set old_password"
    by (simp_all add: old_password_def new_password_def ascii_def)
  have "valid_utf8 new_password" by (simp add: new_password_def ascii_utf8)
  moreover have "list_all (\<lambda>c. c \<noteq> 0) new_password"
    using n(3) by (auto simp: list_all_iff)
  ultimately show "view_valid_text (Some new_password) 12 128"
    by (simp add: view_valid_text_def n(2))
qed

lemma sample_load:
  assumes "ws_module w = module_on p (sample_with n) r" and "0 < n" and "n \<le> 128"
  shows "change_password_load_current_and_validate (web_settings_production_ops sample_port) (Some new_password) w =
    ((WEB_CHANGE_PASSWORD_OK, APP_ERROR_NONE), sample_with n, w)"
  using sample_with_good [OF assms(2,3)] sample_passwords(5) assms(1)
  by (simp add: change_password_load_current_and_validate_def sample_ops read_module_on
      app_v2_password_change_validate_def settings_good_def limit_defs)

definition change_doc :: json_fields where
  "change_doc = [(Some (ascii ''currentPassword''), JString old_password),
     (Some (ascii ''newPassword''), JString new_password)]"

lemma change_views:
  "change_password_views_from_root (sample_cjson change_doc) (Some change_doc) =
     Some (Some old_password, Some new_password)"
proof -
  have "c_text old_password = old_password" "c_text new_password = new_password"
    using sample_passwords(3,4) by (auto simp: c_text_def takeWhile_eq_all_conv)
  moreover have "ascii ''currentPassword'' \<noteq> ascii ''newPassword''"
    by (simp add: ascii_def)
  ultimately show ?thesis
    by (simp add: change_password_views_from_root_def exact_change_password_fields_def change_doc_def
        CHANGE_PASSWORD_FIELDS_def sample_cjson_def field_of_def string_view_from_item_def)
qed

lemma sample_verify:
  "so_password_verify (web_settings_production_ops sample_port) (Some old_password) (sample_with 12) w =
     (APP_ERROR_NONE, True, w)"
proof -
  have "CHR 0x00 \<notin> set (map (\<lambda>c. char_of (unat c)) old_password)"
    by (rule password_no_nul) (rule sample_passwords(4))
  moreover have "foldl (\<lambda>difference index. difference) a xs = a" for a :: u8 and xs :: "nat list"
    by (induction xs) simp_all
  ultimately show ?thesis
    using sample_passwords(1)
    by (simp add: web_settings_production_ops_def production_password_verify_def sample_port_def
        password_text_def auth_core_password_verify_def record_of_settings_def sample_with_def
        with_material_def password_of_length_def limit_defs auth_core_constant_time_equal_def upto_literals)
qed

lemma sample_transaction:
  assumes "ws_module w = module_with (sample_with 12)" and "\<not> ws_password_transition_in_progress w"
    and "\<And>v. ws_module v = module_with (sample_with 12) \<Longrightarrow>
      load v = ((WEB_CHANGE_PASSWORD_OK, APP_ERROR_NONE), sample_with 12, v)"
  shows "password_transaction (web_settings_production_ops sample_port) (Some new_password) load w =
    ((WEB_CHANGE_PASSWORD_OK, APP_ERROR_NONE), server_after 13 w)"
proof -
  define v where "v = w\<lparr>ws_password_transition_in_progress := True\<rparr>"
  have m: "ws_module v = module_with (sample_with 12)" using assms(1) by (simp add: v_def)
  have "web_server_password_transition_end (server_after 13 v) = server_after 13 w"
    using assms(2) by (simp add: v_def web_server_password_transition_end_def server_after_def)
  then show ?thesis
    using sample_finish [OF m, of new_password] sample_passwords assms(2) assms(3) [OF m]
    by (simp add: password_transaction_def sample_ops web_server_password_transition_begin_def flip: v_def)
qed

lemma sample_server_sel:
  "ws_module (sample_server n) = module_with (sample_with n)"
  "\<not> ws_password_transition_in_progress (sample_server n)"
  by (simp_all add: sample_server_def)

lemma sample_change:
  "web_change_password_handle (sample_cjson change_doc) sample_body
      (Some (web_settings_production_ops sample_port)) (sample_server 12) =
    ((WEB_CHANGE_PASSWORD_OK, APP_ERROR_NONE), zeros 3, server_after 13 (sample_server 12))"
proof -
  have "change_password_verify_current (web_settings_production_ops sample_port) (Some old_password)
      (Some new_password) v = ((WEB_CHANGE_PASSWORD_OK, APP_ERROR_NONE), sample_with 12, v)"
    if "ws_module v = module_with (sample_with 12)" for v
    using sample_load [OF that] by (simp add: change_password_verify_current_def sample_verify)
  from sample_transaction [OF sample_server_sel, of "change_password_verify_current
      (web_settings_production_ops sample_port) (Some old_password) (Some new_password)", OF this]
  show ?thesis
    by (simp add: web_change_password_handle_def sample_parse change_views) (simp add: sample_body_def)
qed

lemma sample_console:
  assumes "ws_module w = module_with (sample_with 12)" and "\<not> ws_password_transition_in_progress w"
  shows "web_change_password_apply_without_verification (Some new_password)
      (Some (web_settings_production_ops sample_port)) w =
    ((WEB_CHANGE_PASSWORD_OK, APP_ERROR_NONE), server_after 13 w)"
  using sample_load sample_transaction [OF assms, of "change_password_load_current_and_validate
      (web_settings_production_ops sample_port) (Some new_password)"]
  by (simp add: web_change_password_apply_without_verification_def)

lemma password_change_coherent_witness:
  "\<exists>cur m. accepts_password sample_port (Some old_password) cur \<and>
     held_settings fst (sample_server 12) = Some (canonical cur) \<and>
     made_password sample_port (Some new_password) m \<and>
     held_settings fst (server_after 13 (sample_server 12)) = Some (canonical (with_material m cur)) \<and>
     ws_record (server_after 13 (sample_server 12)) = record_of_material m"
  using password_change_coherent [OF sample_web_laws sample_run_with [of 12] sample_change]
  by (auto simp: sample_parse change_views)

section \<open>An update that overlaps a password change\<close>

text \<open>
  The update of the web interface runs on the task of the HTTP server, the password change of
  the console on its own task, and the update does not pass the transition gate.  These are the
  operations of an update when the console's change runs between its read and its replacement.
\<close>

definition overlapped_ops :: "'n web_port \<Rightarrow> string_view \<Rightarrow> 'n web_state web_settings_ops" where
  "overlapped_ops port new =
     (web_settings_production_ops port)
       \<lparr>so_settings_replace := (\<lambda>s w. so_settings_replace (web_settings_production_ops port) s
          (snd (web_change_password_apply_without_verification new (Some (web_settings_production_ops port)) w)))\<rparr>"

text \<open>
  C28: A settings update can undo a password change.  When the console changes the password
  between the read and the replacement of an update and both report success, the verifier in
  RAM is the one of the new password, but the flash holds the password record from before the
  change, so the next boot accepts the old password again.
\<close>
theorem update_can_undo_password_change:
  assumes "web_production port committed pending w0"
    and "settings_run (wp_nvs port) (module_boot w0) (ws_module w)"
    and "so_settings_read (web_settings_production_ops port) w = (APP_ERROR_NONE, cur, w1)"
    and "web_change_password_apply_without_verification new (Some (web_settings_production_ops port)) w1 =
      ((WEB_CHANGE_PASSWORD_OK, d), w2)"
    and "put_request cj (overlapped_ops port new) rq w = ((WEB_SETTINGS_PUT_OK, detail), json, w')"
  shows "\<exists>m s. made_password port new m \<and> ws_record w' = record_of_material m \<and>
    held_settings committed w' = Some s \<and> record_of_settings s = record_of_settings cur"
proof -
  have r: "web_production.reached port w0 w"
    using assms(2) by (simp add: web_production.reached_def [OF assms(1)])
  note backend = web_production.backend_contract [OF assms(1)]
  note rl = settings_backend.read_law [OF backend assms(3) r]
  note c = web_production.console_handled [OF assms(1,4) conjunct1 [OF rl]]
  have reached2: "web_production.reached port w0 w2" using c by simp
  have "web_production.transaction_outcome port committed (\<lambda>cur. True) new WEB_CHANGE_PASSWORD_OK d w1 w2"
    using c by auto
  from transaction_at_port [OF assms(1) this] obtain m where m: "made_password port new m"
    "ws_record w2 = record_of_material m" by auto
  obtain candidate f g where p: "app_v2_settings_prepare_update (Some cur) (Some rq) =
      (APP_V2_SETTINGS_UPDATE_OK, candidate, f, g)"
    and rep: "\<exists>ch. so_settings_replace (web_settings_production_ops port) candidate w2 = (APP_ERROR_NONE, ch, w')"
    using assms(3,4,5) by (auto simp: put_request_def overlapped_ops_def split: prod.splits if_splits option.splits)
  have "provisioned cur"
    using p by (auto simp: app_v2_settings_prepare_update_def split: if_splits)
  then have g: "settings_good cur" using rl by (simp add: settings_good_def)
  have u: "candidate = updated rq cur" "request_error rq = APP_V2_SETTINGS_UPDATE_OK"
    using p prepare_update_cases [OF g, of rq] by (auto split: if_splits)
  have "settings_sized candidate" using updated_good [OF g u(2)] u(1) by (simp add: settings_good_def)
  with rep obtain ch where "so_settings_replace (web_settings_production_ops port) candidate w2 = (APP_ERROR_NONE, ch, w')"
    by blast
  from settings_backend.replace_law [OF backend this reached2 \<open>settings_sized candidate\<close>]
  have "rest_of w' = rest_of w2" "held_settings committed w' = Some (canonical candidate)"
    unfolding web_production.held_def [OF assms(1)] by simp_all
  then show ?thesis
    using m u(1) by (auto simp: rest_of_def)
qed


lemma rename_overlapped:
  "\<exists>json w'. put_request (sample_cjson rename_doc) (overlapped_ops sample_port (Some new_password)) only_rename
      (sample_server 12) = ((WEB_SETTINGS_PUT_OK, APP_ERROR_NONE), json, w')"
proof -
  have g: "settings_good (sample_with 12)" "settings_good (sample_with 13)"
    "settings_good (updated only_rename (sample_with 12))"
    using sample_with_good rename_accepted_settings by simp_all
  obtain json where j: "build_settings_put_response_json (sample_cjson rename_doc)
      (updated only_rename (sample_with 12)) False False = Some json"
    using response_built [OF g(3), of rename_doc False False] by auto
  have read: "so_settings_read (overlapped_ops sample_port v) (sample_server 12) =
      (APP_ERROR_NONE, sample_with 12, sample_server 12)" for v
    by (simp add: overlapped_ops_def sample_ops) (simp add: sample_server_def read_module_on)
  have "fst (so_settings_replace (overlapped_ops sample_port (Some new_password))
      (updated only_rename (sample_with 12)) (sample_server 12)) = APP_ERROR_NONE"
    using replace_module_on [OF _ _ rename_changes_name [of 13 12]] g
    by (simp add: overlapped_ops_def sample_console [OF sample_server_sel] sample_ops server_after_def settings_good_def)
  then obtain ch w' where rep: "so_settings_replace (overlapped_ops sample_port (Some new_password))
      (updated only_rename (sample_with 12)) (sample_server 12) = (APP_ERROR_NONE, ch, w')"
    by (cases "so_settings_replace (overlapped_ops sample_port (Some new_password))
      (updated only_rename (sample_with 12)) (sample_server 12)") auto
  show ?thesis
    by (simp add: rep put_request_def read settings_update_accepted [OF g(1) rename_request_facts(1) rename_accepted]
        rename_request_facts j)
qed

lemma update_can_undo_password_change_witness:
  "\<exists>json w' m s. put_request (sample_cjson rename_doc) (overlapped_ops sample_port (Some new_password)) only_rename
      (sample_server 12) = ((WEB_SETTINGS_PUT_OK, APP_ERROR_NONE), json, w') \<and>
    made_password sample_port (Some new_password) m \<and> ws_record w' = record_of_material m \<and>
    held_settings fst w' = Some s \<and> record_of_settings s = record_of_settings (sample_with 12)"
proof -
  obtain json w' where put: "put_request (sample_cjson rename_doc) (overlapped_ops sample_port (Some new_password))
      only_rename (sample_server 12) = ((WEB_SETTINGS_PUT_OK, APP_ERROR_NONE), json, w')"
    using rename_overlapped by blast
  have read: "so_settings_read (web_settings_production_ops sample_port) (sample_server 12) =
      (APP_ERROR_NONE, sample_with 12, sample_server 12)"
    by (simp add: sample_ops) (simp add: sample_server_def read_module_on)
  from update_can_undo_password_change [OF sample_web_laws sample_run_with [of 12] read sample_console [OF sample_server_sel] put] put
  show ?thesis by auto
qed

end
