(* ===== verification/Device_Actions.thy ===== *)
theory Device_Actions
  imports Reset_Marker Storage_Access Web_Password
begin

text \<open>
  The device actions on the subsystems they act on: the rest of
  \<open>device_controls/device_controls.c\<close>, which owns the restart and joins the reset engine with the
  settings, the sessions, the repository and the marker.

  The actions work on a device: a running server (its settings module, verifier and sessions),
  the file system with the state of the repository, the flash of the marker and the restart.
  What the timer service answers comes from \<open>dp_timer\<close>, one answer for each attempt. Two calls
  that run at the same time meet in the critical sections of the restart only; other
  interleavings of the actions are compositions of these definitions. A directory scan that
  would not return is read as an internal error; with the laws of the file system every scan
  returns.
\<close>

section \<open>The device\<close>

record restart_state =
  rst_scheduled :: bool
  rst_in_progress :: bool
  rst_settings_restart_required :: bool
  rst_timers :: "64 word list"
  rst_reboots :: nat
  rst_attempts :: nat

record ('n, 'f, 'j) device_world =
  dv_server :: "'n web_state"
  dv_files :: 'f
  dv_scan :: scan_summary
  dv_journal :: 'j
  dv_restart :: restart_state

record ('n, 'f, 'j) device_port =
  dp_web :: "'n web_port"
  dp_fs :: "'f fs_ops"
  dp_sync_parent :: "string \<Rightarrow> 'f \<Rightarrow> errno option \<times> 'f"
  dp_realloc_ok :: "nat \<Rightarrow> bool"
  dp_journal :: "'j nvs_u8_ops"
  dp_timer :: "nat \<Rightarrow> bool \<times> bool"

text \<open>The subsystems of the device are independent of each other.\<close>

definition at_module ::
    "('n settings_module \<Rightarrow> 'r \<times> 'n settings_module) \<Rightarrow> ('n, 'f, 'j) device_world \<Rightarrow> 'r \<times> ('n, 'f, 'j) device_world" where
  "at_module f w = (case f (ws_module (dv_server w)) of
     (r, m) \<Rightarrow> (r, w\<lparr>dv_server := (dv_server w)\<lparr>ws_module := m\<rparr>\<rparr>))"

definition at_server :: "('n web_state \<Rightarrow> 'r \<times> 'n web_state) \<Rightarrow> ('n, 'f, 'j) device_world \<Rightarrow> 'r \<times> ('n, 'f, 'j) device_world" where
  "at_server f w = (case f (dv_server w) of (r, s) \<Rightarrow> (r, w\<lparr>dv_server := s\<rparr>))"

definition at_journal :: "('j \<Rightarrow> 'r \<times> 'j) \<Rightarrow> ('n, 'f, 'j) device_world \<Rightarrow> 'r \<times> ('n, 'f, 'j) device_world" where
  "at_journal f w = (case f (dv_journal w) of (r, j) \<Rightarrow> (r, w\<lparr>dv_journal := j\<rparr>))"

section \<open>The restart\<close>

definition DEVICE_CONTROLS_RESTART_DELAY_MS :: u32 where
  "DEVICE_CONTROLS_RESTART_DELAY_MS = 500"

text \<open>The first critical section: an answer, or the caller starts a timer.\<close>

definition restart_begin :: "restart_state \<Rightarrow> app_error option \<times> restart_state" where
  "restart_begin s =
     (if rst_scheduled s then (Some APP_ERROR_NONE, s)
      else if rst_in_progress s then (Some APP_ERROR_CONFLICT, s)
      else (None, s\<lparr>rst_in_progress := True\<rparr>))"

text \<open>
  The timer is created and started, or the device reboots at once; \<open>rst_reboots\<close> counts those
  calls of \<open>esp_restart\<close>, and what follows one is for the case that it returns.
\<close>

definition restart_finish :: "bool \<times> bool \<Rightarrow> u32 \<Rightarrow> restart_state \<Rightarrow> app_error \<times> restart_state" where
  "restart_finish answer delay_ms s =
     (case answer of (created, started) \<Rightarrow>
        let s = s\<lparr>rst_attempts := rst_attempts s + 1\<rparr>
        in if \<not> created \<or> \<not> started
           then (APP_ERROR_INTERNAL, s\<lparr>rst_in_progress := False, rst_reboots := rst_reboots s + 1\<rparr>)
           else (APP_ERROR_NONE, s\<lparr>rst_timers := rst_timers s @ [ucast delay_ms * 1000], rst_scheduled := True,
               rst_in_progress := False\<rparr>))"

definition adapter_reset_schedule_restart ::
    "('n, 'f, 'j) device_port \<Rightarrow> u32 \<Rightarrow> ('n, 'f, 'j) device_world \<Rightarrow> app_error \<times> ('n, 'f, 'j) device_world" where
  "adapter_reset_schedule_restart port delay_ms w =
     (case restart_begin (dv_restart w) of
        (Some result, s) \<Rightarrow> (result, w\<lparr>dv_restart := s\<rparr>)
      | (None, s) \<Rightarrow> (case restart_finish (dp_timer port (rst_attempts s)) delay_ms s of
          (result, s) \<Rightarrow> (result, w\<lparr>dv_restart := s\<rparr>)))"

definition mark_reset_settings_restart_required :: "('n, 'f, 'j) device_world \<Rightarrow> ('n, 'f, 'j) device_world" where
  "mark_reset_settings_restart_required w =
     w\<lparr>dv_restart := (dv_restart w)\<lparr>rst_settings_restart_required := True\<rparr>\<rparr>"

definition device_controls_reset_settings_restart_required :: "('n, 'f, 'j) device_world \<Rightarrow> bool" where
  "device_controls_reset_settings_restart_required w = rst_settings_restart_required (dv_restart w)"

section \<open>The table of the reset engine\<close>

definition adapter_reset_settings_noncredential ::
    "('n, 'f, 'j) device_port \<Rightarrow> ('n, 'f, 'j) device_world \<Rightarrow> app_error \<times> ('n, 'f, 'j) device_world" where
  "adapter_reset_settings_noncredential port w =
     (case at_module (\<lambda>m. case device_settings_reset_noncredential (wp_nvs (dp_web port)) m of
             (result, outs, m) \<Rightarrow> (result, m)) w of
        (result, w) \<Rightarrow>
          (result, if result = APP_ERROR_NONE then mark_reset_settings_restart_required w else w))"

definition adapter_reset_mark_pending ::
    "('n, 'f, 'j) device_port \<Rightarrow> ('n, 'f, 'j) device_world \<Rightarrow> app_error \<times> ('n, 'f, 'j) device_world" where
  "adapter_reset_mark_pending port = at_journal (factory_reset_state_mark_pending (dp_journal port))"

definition adapter_reset_clear_pending ::
    "('n, 'f, 'j) device_port \<Rightarrow> ('n, 'f, 'j) device_world \<Rightarrow> app_error \<times> ('n, 'f, 'j) device_world" where
  "adapter_reset_clear_pending port = at_journal (factory_reset_state_clear (dp_journal port))"

definition adapter_reset_erase_all_settings ::
    "('n, 'f, 'j) device_port \<Rightarrow> ('n, 'f, 'j) device_world \<Rightarrow> app_error \<times> ('n, 'f, 'j) device_world" where
  "adapter_reset_erase_all_settings port =
     at_module (\<lambda>m. case device_settings_factory_reset (wp_nvs (dp_web port)) m of (result, outs, m) \<Rightarrow> (result, m))"

definition adapter_reset_invalidate_all_sessions ::
    "('n, 'f, 'j) device_port \<Rightarrow> ('n, 'f, 'j) device_world \<Rightarrow> app_error \<times> ('n, 'f, 'j) device_world" where
  "adapter_reset_invalidate_all_sessions port = at_server (production_invalidate_all_sessions (dp_web port))"

definition adapter_reset_delete_all_blobs ::
    "('n, 'f, 'j) device_port \<Rightarrow> ('n, 'f, 'j) device_world \<Rightarrow> app_error \<times> ('n, 'f, 'j) device_world" where
  "adapter_reset_delete_all_blobs port w =
     (case storage_blob_delete_all (dp_fs port) (dp_sync_parent port) (dp_realloc_ok port) (dv_scan w) (dv_files w) of
        None \<Rightarrow> (APP_ERROR_INTERNAL, w)
      | Some (result, deleted_count, scan, f) \<Rightarrow> (result, w\<lparr>dv_scan := scan, dv_files := f\<rparr>))"

definition adapter_reset_cleanup_temporary_files ::
    "('n, 'f, 'j) device_port \<Rightarrow> ('n, 'f, 'j) device_world \<Rightarrow> app_error \<times> ('n, 'f, 'j) device_world" where
  "adapter_reset_cleanup_temporary_files port w =
     (case storage_blob_recover_startup (dp_fs port) (dp_sync_parent port) (dv_files w) of
        None \<Rightarrow> (APP_ERROR_INTERNAL, w)
      | Some (result, f) \<Rightarrow> (result, w\<lparr>dv_files := f\<rparr>))"

definition reset_operations ::
    "('n, 'f, 'j) device_port \<Rightarrow> ('n, 'f, 'j) device_world reset_ops" where
  "reset_operations port =
     \<lparr>ro_reset_settings_noncredential = adapter_reset_settings_noncredential port,
      ro_mark_factory_reset_pending = adapter_reset_mark_pending port,
      ro_erase_all_settings = adapter_reset_erase_all_settings port,
      ro_invalidate_all_sessions = adapter_reset_invalidate_all_sessions port,
      ro_delete_all_blobs = adapter_reset_delete_all_blobs port,
      ro_cleanup_temporary_files = adapter_reset_cleanup_temporary_files port,
      ro_clear_factory_reset_pending = adapter_reset_clear_pending port,
      ro_schedule_restart = adapter_reset_schedule_restart port\<rparr>"

definition device_controls_restart ::
    "('n, 'f, 'j) device_port \<Rightarrow> ('n, 'f, 'j) device_world \<Rightarrow> app_error \<times> ('n, 'f, 'j) device_world" where
  "device_controls_restart port =
     device_controls_reset_engine_restart (Some (reset_operations port)) DEVICE_CONTROLS_RESTART_DELAY_MS"

definition device_controls_reset_settings ::
    "('n, 'f, 'j) device_port \<Rightarrow> ('n, 'f, 'j) device_world \<Rightarrow> reset_settings_outcome \<times> ('n, 'f, 'j) device_world" where
  "device_controls_reset_settings port =
     device_controls_reset_engine_reset_settings (Some (reset_operations port)) DEVICE_CONTROLS_RESTART_DELAY_MS"

definition device_controls_factory_reset ::
    "('n, 'f, 'j) device_port \<Rightarrow> ('n, 'f, 'j) device_world \<Rightarrow> factory_reset_outcome \<times> ('n, 'f, 'j) device_world" where
  "device_controls_factory_reset port =
     device_controls_reset_engine_factory_reset (Some (reset_operations port)) DEVICE_CONTROLS_RESTART_DELAY_MS"

section \<open>A reset that reports success\<close>

lemma reset_completed:
  assumes "device_controls_reset_engine_factory_reset (Some ops) delay w = (out, w')"
    and "fo_durably_accepted out" and "fo_primary_error out = APP_ERROR_NONE"
  obtains w1 w2 w3 w4 w5 w6 where
    "ro_mark_factory_reset_pending ops w = (APP_ERROR_NONE, w1)"
    "ro_erase_all_settings ops w1 = (APP_ERROR_NONE, w2)"
    "ro_invalidate_all_sessions ops w2 = (APP_ERROR_NONE, w3)"
    "ro_delete_all_blobs ops w3 = (APP_ERROR_NONE, w4)"
    "ro_cleanup_temporary_files ops w4 = (APP_ERROR_NONE, w5)"
    "ro_schedule_restart ops delay w5 = (APP_ERROR_NONE, w6)"
    "ro_clear_factory_reset_pending ops w6 = (APP_ERROR_NONE, w')"
proof -
  obtain e1 w1 where mark: "ro_mark_factory_reset_pending ops w = (e1, w1)" by (metis prod.exhaust)
  obtain e2 w2 where erase: "ro_erase_all_settings ops w1 = (e2, w2)" by (metis prod.exhaust)
  obtain e3 w3 where sess: "ro_invalidate_all_sessions ops w2 = (e3, w3)" by (metis prod.exhaust)
  obtain e4 w4 where blobs: "ro_delete_all_blobs ops w3 = (e4, w4)" by (metis prod.exhaust)
  obtain e5 w5 where temp: "ro_cleanup_temporary_files ops w4 = (e5, w5)" by (metis prod.exhaust)
  obtain e6 w6 where restart: "ro_schedule_restart ops delay w5 = (e6, w6)" by (metis prod.exhaust)
  obtain x y where early: "ro_schedule_restart ops delay w2 = (x, y)" by (metis prod.exhaust)
  obtain e7 w7 where clear: "ro_clear_factory_reset_pending ops w6 = (e7, w7)" by (metis prod.exhaust)
  note steps = mark erase sess blobs temp restart early clear
  have e1: "e1 = APP_ERROR_NONE"
    using assms(1,2) by (auto simp: device_controls_reset_engine_factory_reset_def mark Let_def split: if_splits)
  have e2: "e2 = APP_ERROR_NONE"
    using assms(1,3) by (rule_tac ccontr)
      (simp add: device_controls_reset_engine_factory_reset_def steps e1 attempt_def record_first_error_def Let_def;
       auto split: if_splits)
  have "e3 = APP_ERROR_NONE \<and> e4 = APP_ERROR_NONE \<and> e5 = APP_ERROR_NONE \<and> e6 = APP_ERROR_NONE \<and>
      e7 = APP_ERROR_NONE \<and> w' = w7"
    using assms(1,3)
    by (auto simp: device_controls_reset_engine_factory_reset_def steps e1 e2 attempt_def record_first_error_def Let_def
        split: if_splits)
  then show ?thesis using that steps e1 e2 by metis
qed

section \<open>What the operations erase\<close>

lemma locked_call_project:
  assumes "locked_call ops f a m = (e, out, m')"
    and "\<And>core s. \<exists>r x y c t. f core s = (r, x, c, t) \<and> g core s = (r, y, c, t)"
  shows "\<exists>out'. locked_call ops g b m = (e, out', m')"
proof -
  obtain e1 m1 where lock: "lock_settings ops m = (e1, m1)" by (cases "lock_settings ops m")
  obtain r x y c t where call: "f (settings_core m1) (module_store m1) = (r, x, c, t)"
      "g (settings_core m1) (module_store m1) = (r, y, c, t)"
    using assms(2) by blast
  show ?thesis using assms(1)
    by (auto simp: locked_call_def lock call split: if_splits prod.splits)
qed

text \<open>The factory reset of the settings is the replacement by the factory settings.\<close>

lemma factory_replace_agree:
  "\<exists>r x y c t. (case device_settings_core_factory_reset core s of
      (result, out, changed, core, store) \<Rightarrow> (result, (out, changed), core, store)) = (r, x, c, t) \<and>
    device_settings_core_replace core app_v2_device_settings_init_unprovisioned s = (r, y, c, t)"
proof -
  obtain r ch c t where rep: "device_settings_core_replace core app_v2_device_settings_init_unprovisioned s = (r, ch, c, t)"
    by (metis prod.exhaust)
  show ?thesis
    using rep by (cases "core_ops core")
      (auto simp: device_settings_core_factory_reset_def device_settings_core_replace_def)
qed

lemma factory_is_replace:
  assumes "device_settings_factory_reset ops m = (e, outs, m')"
  shows "\<exists>changed. device_settings_replace ops (Some app_v2_device_settings_init_unprovisioned) m = (e, changed, m')"
  unfolding device_settings_replace_def option.case
  by (rule locked_call_project [OF assms [unfolded device_settings_factory_reset_def] factory_replace_agree])

lemma replace_is_factory:
  assumes "device_settings_replace ops (Some app_v2_device_settings_init_unprovisioned) m = (e, changed, m')"
  shows "\<exists>outs. device_settings_factory_reset ops m = (e, outs, m')"
  unfolding device_settings_factory_reset_def
  by (rule locked_call_project [OF assms [unfolded device_settings_replace_def option.case]])
    (metis factory_replace_agree)

lemma restart_completed:
  "adapter_reset_schedule_restart port delay w = (APP_ERROR_NONE, w') \<Longrightarrow>
     rst_scheduled (dv_restart w') \<and> w' = w\<lparr>dv_restart := dv_restart w'\<rparr>"
  by (cases w) (auto simp: adapter_reset_schedule_restart_def restart_begin_def restart_finish_def Let_def
      split: if_splits prod.splits)

text \<open>Syncing a directory changes no file.\<close>

definition keeps_files :: "('f \<Rightarrow> fs_view list) \<Rightarrow> (string \<Rightarrow> 'f \<Rightarrow> errno option \<times> 'f) \<Rightarrow> bool" where
  "keeps_files tr sync \<longleftrightarrow> (\<forall>p f. fv_node (fs_now tr (snd (sync p f))) = fv_node (fs_now tr f))"

lemma reset_operations_sel:
  "ro_reset_settings_noncredential (reset_operations port) = adapter_reset_settings_noncredential port"
  "ro_mark_factory_reset_pending (reset_operations port) = adapter_reset_mark_pending port"
  "ro_erase_all_settings (reset_operations port) = adapter_reset_erase_all_settings port"
  "ro_invalidate_all_sessions (reset_operations port) = adapter_reset_invalidate_all_sessions port"
  "ro_delete_all_blobs (reset_operations port) = adapter_reset_delete_all_blobs port"
  "ro_cleanup_temporary_files (reset_operations port) = adapter_reset_cleanup_temporary_files port"
  "ro_clear_factory_reset_pending (reset_operations port) = adapter_reset_clear_pending port"
  "ro_schedule_restart (reset_operations port) = adapter_reset_schedule_restart port"
  by (simp_all add: reset_operations_def)

lemma erase_settings_production:
  assumes "web_production (dp_web port) committed pending w0"
    and "settings_run (wp_nvs (dp_web port)) (module_boot w0) (ws_module (dv_server w))"
    and "adapter_reset_erase_all_settings port w = (APP_ERROR_NONE, w')"
  shows "held_settings committed (dv_server w') = Some app_v2_device_settings_init_unprovisioned \<and>
    settings_run (wp_nvs (dp_web port)) (module_boot w0) (ws_module (dv_server w')) \<and>
    (\<exists>m. w' = w\<lparr>dv_server := (dv_server w)\<lparr>ws_module := m\<rparr>\<rparr>)"
proof -
  obtain outs m where m: "device_settings_factory_reset (wp_nvs (dp_web port)) (ws_module (dv_server w)) =
      (APP_ERROR_NONE, outs, m)" "w' = w\<lparr>dv_server := (dv_server w)\<lparr>ws_module := m\<rparr>\<rparr>"
    using assms(3) by (auto simp: adapter_reset_erase_all_settings_def at_module_def split: prod.splits)
  from factory_is_replace [OF m(1)] obtain ch where
    rep: "production_settings_replace (dp_web port) app_v2_device_settings_init_unprovisioned (dv_server w) =
      (APP_ERROR_NONE, ch, (dv_server w)\<lparr>ws_module := m\<rparr>)"
    by (auto simp: production_settings_replace_def)
  from web_production.replace_production [OF assms(1) rep _ unprovisioned_sized] assms(2) show ?thesis
    by (auto simp: web_production.reached_def [OF assms(1)] web_production.held_def [OF assms(1)] m(2))
qed

lemma delete_all_production:
  assumes "posix_fs fs tr" and "keeps_files tr sync"
    and "storage_blob_delete_all fs sync realloc_ok scan f = Some (APP_ERROR_NONE, n, scan', f')"
  shows "\<not> is_blob (fv_node (fs_now tr f')) STORAGE_BLOB_DIRECTORY entry"
proof -
  obtain e k f1 where run: "storage_blob_delete_all_with_ops fs realloc_ok STORAGE_BLOB_DIRECTORY f = Some (e, k, f1)"
    and clean: "e = APP_ERROR_NONE \<Longrightarrow> \<not> is_blob (fv_node (fs_now tr f1)) STORAGE_BLOB_DIRECTORY entry"
    using delete_all_erases_the_blobs [OF assms(1), of realloc_ok STORAGE_BLOB_DIRECTORY f] by blast
  obtain synced f2 where s: "sync (STORAGE_BLOB_DIRECTORY @ ''/.'') f1 = (synced, f2)" by (metis prod.exhaust)
  have same: "fv_node (fs_now tr f2) = fv_node (fs_now tr f1)"
    using assms(2) s by (simp add: keeps_files_def) (metis snd_conv)
  show ?thesis
    using assms(3) clean same by (auto simp: storage_blob_delete_all_def run s Let_def split: if_splits)
qed

lemma recover_production:
  assumes "posix_fs fs tr" and "keeps_files tr sync"
    and "storage_blob_recover_startup fs sync f = Some (APP_ERROR_NONE, f')"
  shows "is_blob (fv_node (fs_now tr f')) STORAGE_BLOB_DIRECTORY = is_blob (fv_node (fs_now tr f)) STORAGE_BLOB_DIRECTORY \<and>
    staged_paths (fv_node (fs_now tr f')) STORAGE_BLOB_DIRECTORY = {}"
proof -
  have dir: "STORAGE_BLOB_DIRECTORY \<noteq> []" by (simp add: STORAGE_BLOB_DIRECTORY_def)
  obtain e k f1 where run: "storage_blob_recover_with_ops fs STORAGE_BLOB_DIRECTORY f = Some (e, k, f1)"
    and kept: "is_blob (fv_node (fs_now tr f1)) STORAGE_BLOB_DIRECTORY = is_blob (fv_node (fs_now tr f)) STORAGE_BLOB_DIRECTORY"
    and clean: "e = APP_ERROR_NONE \<Longrightarrow> staged_paths (fv_node (fs_now tr f1)) STORAGE_BLOB_DIRECTORY = {}"
    using recovery_removes_only_staged [OF assms(1) dir, of f] by blast
  obtain synced f2 where s: "sync (STORAGE_BLOB_DIRECTORY @ ''/.'') f1 = (synced, f2)" by (metis prod.exhaust)
  have same: "fv_node (fs_now tr f2) = fv_node (fs_now tr f1)"
    using assms(2) s by (simp add: keeps_files_def) (metis snd_conv)
  show ?thesis
    using assms(3) kept clean same by (auto simp: storage_blob_recover_startup_def run s split: if_splits)
qed

lemma reset_completed_facts:
  assumes "web_production (dp_web port) committed pending w0"
    and "settings_run (wp_nvs (dp_web port)) (module_boot w0) (ws_module (dv_server w))"
    and "posix_fs (dp_fs port) tr" and "keeps_files tr (dp_sync_parent port)"
    and "device_controls_factory_reset port w = (out, w')"
    and "fo_durably_accepted out" and "fo_primary_error out = APP_ERROR_NONE"
  shows "held_settings committed (dv_server w') = Some app_v2_device_settings_init_unprovisioned \<and>
    settings_run (wp_nvs (dp_web port)) (module_boot w0) (ws_module (dv_server w')) \<and>
    ac_sessions (ws_auth (dv_server w')) = no_sessions \<and>
    (\<forall>entry. \<not> is_blob (fv_node (fs_now tr (dv_files w'))) STORAGE_BLOB_DIRECTORY entry) \<and>
    staged_paths (fv_node (fs_now tr (dv_files w'))) STORAGE_BLOB_DIRECTORY = {} \<and>
    rst_scheduled (dv_restart w') \<and>
    (\<exists>j. factory_reset_state_clear (dp_journal port) j = (APP_ERROR_NONE, dv_journal w'))"
proof -
  obtain w1 w2 w3 w4 w5 w6 where mark: "adapter_reset_mark_pending port w = (APP_ERROR_NONE, w1)"
    and erase: "adapter_reset_erase_all_settings port w1 = (APP_ERROR_NONE, w2)"
    and sess: "adapter_reset_invalidate_all_sessions port w2 = (APP_ERROR_NONE, w3)"
    and blobs: "adapter_reset_delete_all_blobs port w3 = (APP_ERROR_NONE, w4)"
    and temp: "adapter_reset_cleanup_temporary_files port w4 = (APP_ERROR_NONE, w5)"
    and restart: "adapter_reset_schedule_restart port DEVICE_CONTROLS_RESTART_DELAY_MS w5 = (APP_ERROR_NONE, w6)"
    and clear: "adapter_reset_clear_pending port w6 = (APP_ERROR_NONE, w')"
    using reset_completed [OF assms(5) [unfolded device_controls_factory_reset_def] assms(6,7)]
    by (metis (no_types, lifting) reset_operations_sel)
  have "dv_server w1 = dv_server w"
    using mark by (auto simp: adapter_reset_mark_pending_def at_journal_def split: prod.splits)
  with assms(2) have run1: "settings_run (wp_nvs (dp_web port)) (module_boot w0) (ws_module (dv_server w1))" by simp
  note settings = erase_settings_production [OF assms(1) run1 erase]
  have sessions: "ws_module (dv_server w3) = ws_module (dv_server w2)" "ac_sessions (ws_auth (dv_server w3)) = no_sessions"
    using sess by (auto simp: adapter_reset_invalidate_all_sessions_def at_server_def
        production_invalidate_all_sessions_def auth_core_session_logout_all_def split: prod.splits if_splits)
  obtain n where deleted: "storage_blob_delete_all (dp_fs port) (dp_sync_parent port) (dp_realloc_ok port)
      (dv_scan w3) (dv_files w3) = Some (APP_ERROR_NONE, n, dv_scan w4, dv_files w4)" and w4: "dv_server w4 = dv_server w3"
    using blobs by (auto simp: adapter_reset_delete_all_blobs_def split: option.splits prod.splits)
  have recovered: "storage_blob_recover_startup (dp_fs port) (dp_sync_parent port) (dv_files w4) =
      Some (APP_ERROR_NONE, dv_files w5)" and w5: "dv_server w5 = dv_server w4"
    using temp by (auto simp: adapter_reset_cleanup_temporary_files_def split: option.splits prod.splits)
  note files = delete_all_production [OF assms(3,4) deleted] recover_production [OF assms(3,4) recovered]
  note owned = restart_completed [OF restart]
  have w6: "dv_server w6 = dv_server w5" "dv_files w6 = dv_files w5"
    using arg_cong [OF conjunct2 [OF owned], of dv_server] arg_cong [OF conjunct2 [OF owned], of dv_files] by simp_all
  have last: "dv_server w' = dv_server w6" "dv_files w' = dv_files w6" "dv_restart w' = dv_restart w6"
    "factory_reset_state_clear (dp_journal port) (dv_journal w6) = (APP_ERROR_NONE, dv_journal w')"
    using clear by (auto simp: adapter_reset_clear_pending_def at_journal_def split: prod.splits)
  show ?thesis
    using settings sessions files owned last(4) unfolding last(1,2,3) w6 w5 w4 by auto
qed

text \<open>the factory reset on the subsystems of the device. When it reports success, the
  flash holds the factory settings, no session is left, the repository directory has no blob and
  no staged upload, the restart is scheduled, and clearing the marker was the last step and
  succeeded.\<close>

theorem factory_reset_erases_everything:
  assumes "web_production (dp_web port) committed pending w0"
    and "settings_run (wp_nvs (dp_web port)) (module_boot w0) (ws_module (dv_server w))"
    and "posix_fs (dp_fs port) tr" and "keeps_files tr (dp_sync_parent port)"
    and "device_controls_factory_reset port w = (out, w')"
    and "fo_durably_accepted out" and "fo_primary_error out = APP_ERROR_NONE"
  shows "held_settings committed (dv_server w') = Some app_v2_device_settings_init_unprovisioned \<and>
    ac_sessions (ws_auth (dv_server w')) = no_sessions \<and>
    (\<forall>entry. \<not> is_blob (fv_node (fs_now tr (dv_files w'))) STORAGE_BLOB_DIRECTORY entry) \<and>
    staged_paths (fv_node (fs_now tr (dv_files w'))) STORAGE_BLOB_DIRECTORY = {} \<and>
    rst_scheduled (dv_restart w') \<and>
    (\<exists>j. factory_reset_state_clear (dp_journal port) j = (APP_ERROR_NONE, dv_journal w'))"
  using reset_completed_facts [OF assms] by blast

section \<open>A device for the witnesses\<close>

type_synonym sample_device = "(u8 list option \<times> u8 list option, disk_world, sample_journal) device_world"

definition sample_device_port :: "(u8 list option \<times> u8 list option, disk_world, sample_journal) device_port" where
  "sample_device_port =
     \<lparr>dp_web = sample_port, dp_fs = disk_ops, dp_sync_parent = (\<lambda>p f. (None, f)), dp_realloc_ok = (\<lambda>n. n \<le> 64),
      dp_journal = sample_u8, dp_timer = (\<lambda>n. (True, True))\<rparr>"

definition sample_files :: disk_world where
  "sample_files = disk_of
     [(STORAGE_BLOB_DIRECTORY, Directory),
      (STORAGE_BLOB_DIRECTORY @ ''/00000000000000000007.gz'', Regular [1, 2, 3]),
      (STORAGE_BLOB_DIRECTORY @ ''/00000000000000000008.gz.tmp'', Regular []),
      (STORAGE_BLOB_DIRECTORY @ ''/readme'', Regular [4])]"

definition idle_restart :: restart_state where
  "idle_restart = \<lparr>rst_scheduled = False, rst_in_progress = False, rst_settings_restart_required = False,
     rst_timers = [], rst_reboots = 0, rst_attempts = 0\<rparr>"

definition sample_device :: sample_device where
  "sample_device =
     \<lparr>dv_server = sample_server 12, dv_files = sample_files,
      dv_scan = scan_summary_zero\<lparr>ss_valid_count := 1\<rparr>,
      dv_journal = (None, None), dv_restart = idle_restart\<rparr>"

lemma sample_erasure:
  "(case storage_blob_delete_all disk_ops (\<lambda>p f. (None, f)) (\<lambda>n. n \<le> 64) (scan_summary_zero\<lparr>ss_valid_count := 1\<rparr>) sample_files of
      None \<Rightarrow> None | Some (e, n, s, f) \<Rightarrow>
        map_option (\<lambda>(r, f). (e, n, r)) (storage_blob_recover_startup disk_ops (\<lambda>p f. (None, f)) f)) =
     Some (APP_ERROR_NONE, 1, APP_ERROR_NONE)"
proof -
  have names: "blob_name 7 = ''00000000000000000007.gz''" by code_simp
  have path: "build_blob_path ''/data/repository'' 7 = Inr ''/data/repository/00000000000000000007.gz''"
    by (simp add: build_blob_path_Inr_iff names limit_defs)
  show ?thesis
    by (simp add: storage_blob_delete_all_def storage_blob_delete_all_with_ops_def delete_all_observer_def
        delete_all_visit_entry_def storage_blob_delete_with_ops_def stat_regular_blob_def
        path scan_eval disk_eval sample_files_def STORAGE_BLOB_DIRECTORY_def storage_blob_recover_startup_def
        storage_blob_recover_with_ops_def recover_loop.simps)
qed

lemma sample_not_fresh: "canonical (sample_with n) \<noteq> app_v2_device_settings_init_unprovisioned"
  by (auto simp: canonical_def sample_with_def with_material_def sample_settings_def
      app_v2_device_settings_init_unprovisioned_def zero_settings_def dest: arg_cong [where f = provisioned])

lemma reset_runs:
  assumes "ro_mark_factory_reset_pending ops w = (APP_ERROR_NONE, w1)"
    "ro_erase_all_settings ops w1 = (APP_ERROR_NONE, w2)"
    "ro_invalidate_all_sessions ops w2 = (APP_ERROR_NONE, w3)"
    "ro_delete_all_blobs ops w3 = (APP_ERROR_NONE, w4)"
    "ro_cleanup_temporary_files ops w4 = (APP_ERROR_NONE, w5)"
    "ro_schedule_restart ops delay w5 = (APP_ERROR_NONE, w6)"
    "ro_clear_factory_reset_pending ops w6 = (APP_ERROR_NONE, w')"
  shows "device_controls_reset_engine_factory_reset (Some ops) delay w =
    (\<lparr>fo_durably_accepted = True, fo_recovery_required = False, fo_primary_error = APP_ERROR_NONE\<rparr>, w')"
  by (simp add: device_controls_reset_engine_factory_reset_def assms attempt_def record_first_error_def)

lemma sample_device_fields:
  "dp_web sample_device_port = sample_port" "dp_fs sample_device_port = disk_ops"
  "dp_sync_parent sample_device_port = (\<lambda>p f. (None, f))" "dp_realloc_ok sample_device_port = (\<lambda>n. n \<le> 64)"
  "dp_journal sample_device_port = sample_u8" "dp_timer sample_device_port n = (True, True)"
  "dv_server sample_device = sample_server 12" "dv_files sample_device = sample_files"
  "dv_scan sample_device = scan_summary_zero\<lparr>ss_valid_count := 1\<rparr>"
  "dv_journal sample_device = (None, None)" "dv_restart sample_device = idle_restart"
  by (simp_all add: sample_device_port_def sample_device_def)

lemma sample_erase_step:
  assumes "device_settings_factory_reset sample_nvs (module_with (sample_with 12)) = (APP_ERROR_NONE, outs, m)"
    and "dv_server w = sample_server 12"
  shows "adapter_reset_erase_all_settings sample_device_port w =
    (APP_ERROR_NONE, w\<lparr>dv_server := (sample_server 12)\<lparr>ws_module := m\<rparr>\<rparr>)"
proof -
  have "ws_module (sample_server 12) = module_with (sample_with 12)" by (simp add: sample_server_def)
  moreover have "wp_nvs (dp_web sample_device_port) = sample_nvs" by (simp add: sample_device_fields sample_port_def)
  ultimately show ?thesis
    using assms by (simp add: adapter_reset_erase_all_settings_def at_module_def)
qed

lemma sample_logout:
  "adapter_reset_invalidate_all_sessions sample_device_port w =
    (APP_ERROR_NONE, w\<lparr>dv_server := (dv_server w)\<lparr>ws_auth := (ws_auth (dv_server w))\<lparr>ac_sessions := no_sessions\<rparr>\<rparr>\<rparr>)"
  by (simp add: adapter_reset_invalidate_all_sessions_def at_server_def production_invalidate_all_sessions_def
      auth_core_session_logout_all_def sample_device_port_def sample_port_def)

lemma sample_blobs_step:
  assumes "storage_blob_delete_all disk_ops (\<lambda>p f. (None, f)) (\<lambda>n. n \<le> 64) scan f = Some (e, n, s, f')"
    and "dv_scan w = scan" and "dv_files w = f"
  shows "adapter_reset_delete_all_blobs sample_device_port w = (e, w\<lparr>dv_scan := s, dv_files := f'\<rparr>)"
  using assms by (simp add: adapter_reset_delete_all_blobs_def sample_device_fields)

lemma sample_temp_step:
  assumes "storage_blob_recover_startup disk_ops (\<lambda>p f. (None, f)) f = Some (e, f')" and "dv_files w = f"
  shows "adapter_reset_cleanup_temporary_files sample_device_port w = (e, w\<lparr>dv_files := f'\<rparr>)"
  using assms by (simp add: adapter_reset_cleanup_temporary_files_def sample_device_fields)

lemma sample_reset:
  "\<exists>w'. device_controls_factory_reset sample_device_port sample_device =
      (\<lparr>fo_durably_accepted = True, fo_recovery_required = False, fo_primary_error = APP_ERROR_NONE\<rparr>, w') \<and>
    dv_server w' = (sample_server 12)\<lparr>ws_module := module_with app_v2_device_settings_init_unprovisioned,
      ws_auth := (ws_auth (sample_server 12))\<lparr>ac_sessions := no_sessions\<rparr>\<rparr>"
proof -
  have "device_settings_replace sample_nvs (Some app_v2_device_settings_init_unprovisioned) (module_with (sample_with 12)) =
      (APP_ERROR_NONE, True, module_with app_v2_device_settings_init_unprovisioned)"
    by (rule replace_module_on)
      (use sample_with_good [of 12] unprovisioned_sized unprovisioned_valid sample_not_fresh in \<open>auto simp: settings_good_def\<close>)
  then obtain outs where erase: "device_settings_factory_reset sample_nvs (module_with (sample_with 12)) =
      (APP_ERROR_NONE, outs, module_with app_v2_device_settings_init_unprovisioned)"
    using replace_is_factory by blast
  obtain s f f' where files: "storage_blob_delete_all disk_ops (\<lambda>p f. (None, f)) (\<lambda>n. n \<le> 64)
        (scan_summary_zero\<lparr>ss_valid_count := 1\<rparr>) sample_files = Some (APP_ERROR_NONE, 1, s, f)"
      "storage_blob_recover_startup disk_ops (\<lambda>p f. (None, f)) f = Some (APP_ERROR_NONE, f')"
    using sample_erasure by (auto split: option.splits prod.splits)
  let ?w = "sample_device\<lparr>dv_journal := (Some 1, None)\<rparr>"
  let ?server = "(sample_server 12)\<lparr>ws_module := module_with app_v2_device_settings_init_unprovisioned\<rparr>"
  let ?empty = "?server\<lparr>ws_auth := (ws_auth (sample_server 12))\<lparr>ac_sessions := no_sessions\<rparr>\<rparr>"
  let ?w5 = "?w\<lparr>dv_server := ?empty, dv_scan := s, dv_files := f'\<rparr>"
  let ?s = "idle_restart\<lparr>rst_attempts := 1, rst_timers := [500000], rst_scheduled := True, rst_in_progress := False\<rparr>"
  have steps: "adapter_reset_mark_pending sample_device_port sample_device = (APP_ERROR_NONE, ?w)"
    "adapter_reset_erase_all_settings sample_device_port ?w = (APP_ERROR_NONE, ?w\<lparr>dv_server := ?server\<rparr>)"
    "adapter_reset_invalidate_all_sessions sample_device_port (?w\<lparr>dv_server := ?server\<rparr>) =
       (APP_ERROR_NONE, ?w\<lparr>dv_server := ?empty\<rparr>)"
    "adapter_reset_schedule_restart sample_device_port DEVICE_CONTROLS_RESTART_DELAY_MS ?w5 =
       (APP_ERROR_NONE, ?w5\<lparr>dv_restart := ?s\<rparr>)"
    by (simp_all add: sample_device_fields files sample_erase_step [OF erase] sample_logout
        adapter_reset_mark_pending_def adapter_reset_clear_pending_def at_journal_def
        adapter_reset_delete_all_blobs_def adapter_reset_cleanup_temporary_files_def
        adapter_reset_schedule_restart_def restart_begin_def restart_finish_def
        idle_restart_def sample_marker_runs DEVICE_CONTROLS_RESTART_DELAY_MS_def Let_def)
  have blobs: "adapter_reset_delete_all_blobs sample_device_port (?w\<lparr>dv_server := ?empty\<rparr>) =
      (APP_ERROR_NONE, ?w\<lparr>dv_server := ?empty, dv_scan := s, dv_files := f\<rparr>)"
    by (rule sample_blobs_step [OF files(1)]) (simp_all add: sample_device_fields)
  have temp: "adapter_reset_cleanup_temporary_files sample_device_port
      (?w\<lparr>dv_server := ?empty, dv_scan := s, dv_files := f\<rparr>) = (APP_ERROR_NONE, ?w5)"
    using sample_temp_step [OF files(2), of "?w\<lparr>dv_server := ?empty, dv_scan := s, dv_files := f\<rparr>"] by simp
  let ?j = "(None, None) :: sample_journal"
  have clear: "adapter_reset_clear_pending sample_device_port (?w5\<lparr>dv_restart := ?s\<rparr>) =
       (APP_ERROR_NONE, ?w5\<lparr>dv_restart := ?s, dv_journal := ?j\<rparr>)"
    by (simp add: sample_device_fields adapter_reset_clear_pending_def at_journal_def sample_marker_runs)
  from reset_runs [of "reset_operations sample_device_port", unfolded reset_operations_sel,
      OF steps(1-3) blobs temp steps(4) clear]
  show ?thesis by (simp add: device_controls_factory_reset_def)
qed

lemma sample_device_laws:
  "web_production (dp_web sample_device_port) fst snd (None, None)"
    "settings_run (wp_nvs (dp_web sample_device_port)) (module_boot (None, None)) (ws_module (dv_server sample_device))"
    "posix_fs (dp_fs sample_device_port) disk_trace" "keeps_files disk_trace (dp_sync_parent sample_device_port)"
  using sample_web_laws sample_run_with [of 12] disk_posix
    by (simp_all add: sample_device_port_def sample_device_def keeps_files_def)

theorem factory_reset_erases_everything_witness:
  "\<exists>out w'. device_controls_factory_reset sample_device_port sample_device = (out, w') \<and>
    held_settings fst (dv_server w') = Some app_v2_device_settings_init_unprovisioned \<and>
    (\<forall>entry. \<not> is_blob (fv_node (fs_now disk_trace (dv_files w'))) STORAGE_BLOB_DIRECTORY entry)"
proof -
  obtain w' where run: "device_controls_factory_reset sample_device_port sample_device =
      (\<lparr>fo_durably_accepted = True, fo_recovery_required = False, fo_primary_error = APP_ERROR_NONE\<rparr>, w')"
    using sample_reset by blast
  from factory_reset_erases_everything [OF sample_device_laws run] run show ?thesis by simp
qed

section \<open>A settings update that overlaps a reset\<close>

text \<open>The operations of the settings handlers, on the device.\<close>

definition lift_server ::
    "('n web_state \<Rightarrow> 'a \<times> 'b \<times> 'n web_state) \<Rightarrow> ('n, 'f, 'j) device_world \<Rightarrow> 'a \<times> 'b \<times> ('n, 'f, 'j) device_world" where
  "lift_server f w = (case f (dv_server w) of (a, b, s) \<Rightarrow> (a, b, w\<lparr>dv_server := s\<rparr>))"

definition device_web_ops ::
    "('n, 'f, 'j) device_port \<Rightarrow> ('n, 'f, 'j) device_world web_settings_ops" where
  "device_web_ops port =
     (let ops = web_settings_production_ops (dp_web port)
      in \<lparr>so_settings_read = lift_server (so_settings_read ops),
          so_settings_replace = (\<lambda>s. lift_server (so_settings_replace ops s)),
          so_password_verify = (\<lambda>v s. lift_server (so_password_verify ops v s)),
          so_password_create = (\<lambda>v. lift_server (so_password_create ops v)),
          so_password_transition_begin = at_server (so_password_transition_begin ops),
          so_password_activate = (\<lambda>s w. w\<lparr>dv_server := so_password_activate ops s (dv_server w)\<rparr>),
          so_password_transition_end = (\<lambda>w. w\<lparr>dv_server := so_password_transition_end ops (dv_server w)\<rparr>),
          so_invalidate_all_sessions = at_server (so_invalidate_all_sessions ops)\<rparr>)"

text \<open>
  A factory reset runs on the worker task when a confirmation is required, an update on the task
  of the HTTP server. Here the whole reset runs between the read and the replacement of the update.
\<close>

definition reset_between ::
    "('n, 'f, 'j) device_port \<Rightarrow> ('n, 'f, 'j) device_world web_settings_ops" where
  "reset_between port = (device_web_ops port)
     \<lparr>so_settings_replace := (\<lambda>s w. so_settings_replace (device_web_ops port) s
        (snd (device_controls_factory_reset port w)))\<rparr>"

text \<open>C38: a settings update can undo a factory reset. When the reset runs between the read and
  the replacement of an update and both report success, the marker of the reset is cleared and the
  flash had held the factory settings, but in the end it holds the settings from before the
  reset with the update in them: the device is provisioned and accepts the old password after the
  restart, although its repository and sessions are erased.\<close>

theorem update_can_undo_factory_reset:
  assumes "web_production (dp_web port) committed pending w0"
    and "settings_run (wp_nvs (dp_web port)) (module_boot w0) (ws_module (dv_server w))"
    and "posix_fs (dp_fs port) tr" and "keeps_files tr (dp_sync_parent port)"
    and "so_settings_read (device_web_ops port) w = (APP_ERROR_NONE, cur, w1)"
    and "device_controls_factory_reset port w1 = (out, w2)"
    and "fo_durably_accepted out" and "fo_primary_error out = APP_ERROR_NONE"
    and "put_request cj (reset_between port) rq w = ((WEB_SETTINGS_PUT_OK, detail), json, w')"
  shows "held_settings committed (dv_server w2) = Some app_v2_device_settings_init_unprovisioned \<and>
    (\<exists>s. held_settings committed (dv_server w') = Some s \<and> provisioned s \<and>
       record_of_settings s = record_of_settings cur \<and> s = canonical (updated rq cur))"
proof -
  have read: "production_settings_read (dp_web port) (dv_server w) = (APP_ERROR_NONE, cur, dv_server w1)"
    "w1 = w\<lparr>dv_server := dv_server w1\<rparr>"
    using assms(5) by (auto simp: device_web_ops_def lift_server_def web_settings_production_ops_def Let_def split: prod.splits)
  have r: "web_production.reached (dp_web port) w0 (dv_server w)"
    using assms(2) by (simp add: web_production.reached_def [OF assms(1)])
  note rl = web_production.read_production [OF assms(1) read(1) r]
  have run1: "settings_run (wp_nvs (dp_web port)) (module_boot w0) (ws_module (dv_server w1))"
    using rl by (simp add: web_production.reached_def [OF assms(1)])
  note erased = reset_completed_facts [OF assms(1) run1 assms(3,4,6,7,8)]
  obtain candidate f g where p: "app_v2_settings_prepare_update (Some cur) (Some rq) =
      (APP_V2_SETTINGS_UPDATE_OK, candidate, f, g)"
    and rep: "\<exists>ch. production_settings_replace (dp_web port) candidate (dv_server w2) = (APP_ERROR_NONE, ch, dv_server w')"
    using assms(5,6,9)
    by (auto simp: put_request_def reset_between_def device_web_ops_def lift_server_def web_settings_production_ops_def
        Let_def split: prod.splits if_splits option.splits)
  have "provisioned cur"
    using p by (auto simp: app_v2_settings_prepare_update_def split: if_splits)
  then have g: "settings_good cur" using rl by (simp add: settings_good_def)
  have u: "candidate = updated rq cur" "request_error rq = APP_V2_SETTINGS_UPDATE_OK"
    using p prepare_update_cases [OF g, of rq] by (auto split: if_splits)
  note good = updated_good [OF g u(2)]
  have "web_production.reached (dp_web port) w0 (dv_server w2)"
    using erased by (simp add: web_production.reached_def [OF assms(1)])
  with rep web_production.replace_production [OF assms(1)] good
  have "held_settings committed (dv_server w') = Some (canonical candidate)"
    unfolding web_production.held_def [OF assms(1), symmetric] by (metis settings_good_def u(1))
  moreover have "provisioned (canonical (updated rq cur))"
    using good by (simp add: settings_good_def canonical_def)
  ultimately show ?thesis using erased u(1) by simp
qed

lemma sample_overlap:
  "\<exists>json w'. put_request (sample_cjson rename_doc) (reset_between sample_device_port) only_rename sample_device =
      ((WEB_SETTINGS_PUT_OK, APP_ERROR_NONE), json, w')"
proof -
  have g: "settings_good (sample_with 12)" "settings_good (updated only_rename (sample_with 12))"
    using sample_with_good [of 12] rename_accepted_settings by simp_all
  obtain json where j: "build_settings_put_response_json (sample_cjson rename_doc)
      (updated only_rename (sample_with 12)) False False = Some json"
    using response_built [OF g(2), of rename_doc False False] by auto
  have read: "so_settings_read (reset_between sample_device_port) sample_device = (APP_ERROR_NONE, sample_with 12, sample_device)"
    by (simp add: reset_between_def device_web_ops_def lift_server_def Let_def sample_device_fields sample_ops)
      (simp add: sample_server_def read_module_on sample_device_def)
  obtain w2 where reset: "device_controls_factory_reset sample_device_port sample_device =
      (\<lparr>fo_durably_accepted = True, fo_recovery_required = False, fo_primary_error = APP_ERROR_NONE\<rparr>, w2)"
    and w2: "ws_module (dv_server w2) = module_with app_v2_device_settings_init_unprovisioned"
    using sample_reset by fastforce
  have "canonical app_v2_device_settings_init_unprovisioned \<noteq> canonical (updated only_rename (sample_with 12))"
  proof
    assume "canonical app_v2_device_settings_init_unprovisioned = canonical (updated only_rename (sample_with 12))"
    from arg_cong [OF this, where f = provisioned] g(2) show False
      by (simp add: settings_good_def canonical_def app_v2_device_settings_init_unprovisioned_def zero_settings_def)
  qed
  then have "device_settings_replace sample_nvs (Some (updated only_rename (sample_with 12)))
      (module_with app_v2_device_settings_init_unprovisioned) =
      (APP_ERROR_NONE, True, module_with (updated only_rename (sample_with 12)))"
    using g(2) unprovisioned_sized unprovisioned_valid by (intro replace_module_on) (auto simp: settings_good_def)
  then have "\<exists>w'. so_settings_replace (reset_between sample_device_port) (updated only_rename (sample_with 12)) sample_device =
      (APP_ERROR_NONE, True, w')"
    by (simp add: reset_between_def device_web_ops_def lift_server_def Let_def sample_device_fields sample_ops reset w2)
  then obtain w' where rep: "so_settings_replace (reset_between sample_device_port)
      (updated only_rename (sample_with 12)) sample_device = (APP_ERROR_NONE, True, w')" by blast
  show ?thesis
    by (simp add: rep put_request_def read settings_update_accepted [OF g(1) rename_request_facts(1) rename_accepted]
        rename_request_facts j)
qed

theorem update_can_undo_factory_reset_witness:
  "\<exists>out w2 json w' s. device_controls_factory_reset sample_device_port sample_device = (out, w2) \<and>
    held_settings fst (dv_server w2) = Some app_v2_device_settings_init_unprovisioned \<and>
    put_request (sample_cjson rename_doc) (reset_between sample_device_port) only_rename sample_device =
      ((WEB_SETTINGS_PUT_OK, APP_ERROR_NONE), json, w') \<and>
    held_settings fst (dv_server w') = Some s \<and> provisioned s \<and>
    record_of_settings s = record_of_settings (sample_with 12)"
proof -
  obtain w2 where reset: "device_controls_factory_reset sample_device_port sample_device =
      (\<lparr>fo_durably_accepted = True, fo_recovery_required = False, fo_primary_error = APP_ERROR_NONE\<rparr>, w2)"
    using sample_reset by blast
  obtain json w' where put: "put_request (sample_cjson rename_doc) (reset_between sample_device_port) only_rename sample_device =
      ((WEB_SETTINGS_PUT_OK, APP_ERROR_NONE), json, w')" using sample_overlap by blast
  have read: "so_settings_read (device_web_ops sample_device_port) sample_device = (APP_ERROR_NONE, sample_with 12, sample_device)"
    by (simp add: device_web_ops_def lift_server_def Let_def sample_device_fields sample_ops)
      (simp add: sample_server_def read_module_on sample_device_def)
  from update_can_undo_factory_reset [OF sample_device_laws read reset _ _ put] reset put
  show ?thesis by simp
qed

end
