(* ===== verification/Factory_Recovery.thy ===== *)
theory Factory_Recovery
  imports Device_Actions Storage_Mount
begin

text \<open>
  The recovery of an interrupted factory reset at boot on the subsystems it acts on: the adapters
  of \<open>factory_reset_recovery/factory_reset_recovery.c\<close> and those of \<open>storage/storage_mount.c\<close>.

  At boot only the settings module, the storage, the repository and the marker exist. NVS, the
  mutex of the settings, the LittleFS driver and the POSIX calls are parameters; LittleFS
  registers and unregisters a partition on a state of its own. As in \<open>Device_Actions\<close>, a
  directory scan that would not return is read as an internal error.
\<close>

section \<open>The world at boot\<close>

record ('n, 'd, 'f, 'j) recovery_world =
  rw_module :: "'n settings_module"
  rw_mounts :: mount_state
  rw_driver :: 'd
  rw_files :: 'f
  rw_scan :: scan_summary
  rw_journal :: 'j

record ('n, 'd, 'f, 'j) recovery_port =
  rp_nvs :: "'n nvs_ops"
  rp_register :: "string \<Rightarrow> string \<Rightarrow> 'd \<Rightarrow> esp_err \<times> 'd"
  rp_unregister :: "string \<Rightarrow> 'd \<Rightarrow> esp_err \<times> 'd"
  rp_fs :: "'f fs_ops"
  rp_sync_parent :: "string \<Rightarrow> 'f \<Rightarrow> errno option \<times> 'f"
  rp_read_persisted :: "'f \<Rightarrow> (app_error + u64) \<times> 'f"
  rp_realloc_ok :: "nat \<Rightarrow> bool"
  rp_journal :: "'j nvs_u8_ops"

section \<open>Mounting the partitions\<close>

definition STORAGE_WEB_MOUNT :: string where
  "STORAGE_WEB_MOUNT = ''/web''"

definition STORAGE_DATA_MOUNT :: string where
  "STORAGE_DATA_MOUNT = ''/data''"

definition STORAGE_WEB_PARTITION :: string where
  "STORAGE_WEB_PARTITION = ''webfs''"

definition STORAGE_DATA_PARTITION :: string where
  "STORAGE_DATA_PARTITION = ''userdata''"

definition register_partition ::
    "('n, 'd, 'f, 'j) recovery_port \<Rightarrow> string \<Rightarrow> string \<Rightarrow> ('n, 'd, 'f, 'j) recovery_world \<Rightarrow>
     app_error \<times> ('n, 'd, 'f, 'j) recovery_world" where
  "register_partition port base_path partition_label w =
     (case rp_register port base_path partition_label (rw_driver w) of
        (e, d) \<Rightarrow> (if e = ESP_OK then APP_ERROR_NONE else APP_ERROR_STORAGE_UNAVAILABLE, w\<lparr>rw_driver := d\<rparr>))"

definition adapter_mount_web where
  "adapter_mount_web port = register_partition port STORAGE_WEB_MOUNT STORAGE_WEB_PARTITION"

definition adapter_mount_data where
  "adapter_mount_data port = register_partition port STORAGE_DATA_MOUNT STORAGE_DATA_PARTITION"

definition unregister_partition ::
    "('n, 'd, 'f, 'j) recovery_port \<Rightarrow> string \<Rightarrow> ('n, 'd, 'f, 'j) recovery_world \<Rightarrow>
     app_error \<times> ('n, 'd, 'f, 'j) recovery_world" where
  "unregister_partition port partition_label w =
     (case rp_unregister port partition_label (rw_driver w) of
        (e, d) \<Rightarrow> (if e = ESP_OK then APP_ERROR_NONE else APP_ERROR_IO, w\<lparr>rw_driver := d\<rparr>))"

definition adapter_unmount_web where
  "adapter_unmount_web port = unregister_partition port STORAGE_WEB_PARTITION"

definition adapter_unmount_data where
  "adapter_unmount_data port = unregister_partition port STORAGE_DATA_PARTITION"

definition adapter_prepare_directories ::
    "('n, 'd, 'f, 'j) recovery_port \<Rightarrow> ('n, 'd, 'f, 'j) recovery_world \<Rightarrow>
     app_error \<times> ('n, 'd, 'f, 'j) recovery_world" where
  "adapter_prepare_directories port w =
     (case storage_prepare_directories (rp_fs port) (rp_sync_parent port) (rp_read_persisted port)
             (rp_realloc_ok port) (rw_scan w) (rw_files w) of
        None \<Rightarrow> (APP_ERROR_INTERNAL, w)
      | Some (result, scan, f) \<Rightarrow> (result, w\<lparr>rw_scan := scan, rw_files := f\<rparr>))"

definition storage_mount_operations ::
    "('n, 'd, 'f, 'j) recovery_port \<Rightarrow> ('n, 'd, 'f, 'j) recovery_world mount_ops" where
  "storage_mount_operations port =
     \<lparr>mo_mount_web = adapter_mount_web port, mo_mount_data = adapter_mount_data port,
      mo_unmount_web = adapter_unmount_web port, mo_unmount_data = adapter_unmount_data port,
      mo_prepare_directories = adapter_prepare_directories port\<rparr>"

definition storage_mount_all ::
    "('n, 'd, 'f, 'j) recovery_port \<Rightarrow> ('n, 'd, 'f, 'j) recovery_world \<Rightarrow>
     app_error \<times> ('n, 'd, 'f, 'j) recovery_world" where
  "storage_mount_all port w =
     (case storage_mount_core_mount (storage_mount_operations port) (rw_mounts w) w of
        (result, mounts, w) \<Rightarrow> (result, w\<lparr>rw_mounts := mounts\<rparr>))"

definition storage_unmount_all ::
    "('n, 'd, 'f, 'j) recovery_port \<Rightarrow> ('n, 'd, 'f, 'j) recovery_world \<Rightarrow>
     app_error \<times> ('n, 'd, 'f, 'j) recovery_world" where
  "storage_unmount_all port w =
     (case storage_mount_core_unmount (storage_mount_operations port) (rw_mounts w) w of
        (result, mounts, w) \<Rightarrow> (result, w\<lparr>rw_mounts := mounts\<rparr>))"

section \<open>The table of the recovery engine\<close>

definition boot_module ::
    "('n settings_module \<Rightarrow> app_error \<times> 'n settings_module) \<Rightarrow> ('n, 'd, 'f, 'j) recovery_world \<Rightarrow>
     app_error \<times> ('n, 'd, 'f, 'j) recovery_world" where
  "boot_module f w = (case f (rw_module w) of (r, m) \<Rightarrow> (r, w\<lparr>rw_module := m\<rparr>))"

definition adapter_read_state ::
    "('n, 'd, 'f, 'j) recovery_port \<Rightarrow> ('n, 'd, 'f, 'j) recovery_world \<Rightarrow>
     app_error \<times> reset_state \<times> ('n, 'd, 'f, 'j) recovery_world" where
  "adapter_read_state port w =
     (case factory_reset_state_read (rp_journal port) (rw_journal w) of
        (result, state, j) \<Rightarrow> (result, state, w\<lparr>rw_journal := j\<rparr>))"

definition adapter_settings_init where
  "adapter_settings_init port = boot_module (device_settings_init (rp_nvs port))"

definition adapter_erase_settings where
  "adapter_erase_settings port =
     boot_module (\<lambda>m. case device_settings_factory_reset (rp_nvs port) m of (result, outs, m) \<Rightarrow> (result, m))"

definition adapter_settings_deinit where
  "adapter_settings_deinit port = boot_module (device_settings_deinit (rp_nvs port))"

definition adapter_storage_mount where
  "adapter_storage_mount port = storage_mount_all port"

definition adapter_delete_blobs ::
    "('n, 'd, 'f, 'j) recovery_port \<Rightarrow> ('n, 'd, 'f, 'j) recovery_world \<Rightarrow>
     app_error \<times> ('n, 'd, 'f, 'j) recovery_world" where
  "adapter_delete_blobs port w =
     (case storage_blob_delete_all (rp_fs port) (rp_sync_parent port) (rp_realloc_ok port) (rw_scan w) (rw_files w) of
        None \<Rightarrow> (APP_ERROR_INTERNAL, w)
      | Some (result, deleted_count, scan, f) \<Rightarrow> (result, w\<lparr>rw_scan := scan, rw_files := f\<rparr>))"

definition adapter_cleanup_temporary_files ::
    "('n, 'd, 'f, 'j) recovery_port \<Rightarrow> ('n, 'd, 'f, 'j) recovery_world \<Rightarrow>
     app_error \<times> ('n, 'd, 'f, 'j) recovery_world" where
  "adapter_cleanup_temporary_files port w =
     (case storage_blob_recover_startup (rp_fs port) (rp_sync_parent port) (rw_files w) of
        None \<Rightarrow> (APP_ERROR_INTERNAL, w)
      | Some (result, f) \<Rightarrow> (result, w\<lparr>rw_files := f\<rparr>))"

definition adapter_storage_unmount where
  "adapter_storage_unmount port = storage_unmount_all port"

definition adapter_clear_pending ::
    "('n, 'd, 'f, 'j) recovery_port \<Rightarrow> ('n, 'd, 'f, 'j) recovery_world \<Rightarrow>
     app_error \<times> ('n, 'd, 'f, 'j) recovery_world" where
  "adapter_clear_pending port w =
     (case factory_reset_state_clear (rp_journal port) (rw_journal w) of
        (result, j) \<Rightarrow> (result, w\<lparr>rw_journal := j\<rparr>))"

definition recovery_operations ::
    "('n, 'd, 'f, 'j) recovery_port \<Rightarrow> ('n, 'd, 'f, 'j) recovery_world recovery_ops" where
  "recovery_operations port =
     \<lparr>re_read_state = adapter_read_state port, re_settings_init = adapter_settings_init port,
      re_erase_settings = adapter_erase_settings port, re_settings_deinit = adapter_settings_deinit port,
      re_storage_mount = adapter_storage_mount port, re_delete_blobs = adapter_delete_blobs port,
      re_cleanup_temporary_files = adapter_cleanup_temporary_files port,
      re_storage_unmount = adapter_storage_unmount port, re_clear_pending = adapter_clear_pending port\<rparr>"

definition factory_reset_recovery_run_if_pending ::
    "('n, 'd, 'f, 'j) recovery_port \<Rightarrow> ('n, 'd, 'f, 'j) recovery_world \<Rightarrow>
     app_error \<times> bool \<times> ('n, 'd, 'f, 'j) recovery_world" where
  "factory_reset_recovery_run_if_pending port =
     factory_reset_recovery_engine_run (Some (recovery_operations port))"

section \<open>What the mounts leave alone\<close>

text \<open>Whatever part of the world no call of the driver changes, the core does not change either.\<close>

lemma unmount_result_keeps:
  assumes "\<And>w. g (snd (mo_unmount_data ops w)) = g w" "\<And>w. g (snd (mo_unmount_web ops w)) = g w"
    and "storage_mount_core_unmount_result ops state w = (r, state', w')"
  shows "g w' = g w"
  using assms(3) assms(1) [of w] assms(2) [of w] assms(2) [of "snd (mo_unmount_data ops w)"]
  by (auto simp: storage_mount_core_unmount_result_def unmount_data_step_def unmount_web_step_def
      split: if_splits prod.splits)

lemma mount_result_keeps:
  assumes "\<And>w. g (snd (mo_unmount_data ops w)) = g w" "\<And>w. g (snd (mo_unmount_web ops w)) = g w"
    "\<And>w. g (snd (mo_mount_web ops w)) = g w" "\<And>w. g (snd (mo_mount_data ops w)) = g w"
    "\<And>w. g (snd (mo_prepare_directories ops w)) = g w"
    and "storage_mount_core_mount_result ops state w = (r, state', w')"
  shows "g w' = g w"
proof -
  obtain e1 w1 where m1: "mo_mount_web ops w = (e1, w1)" by fastforce
  obtain e2 w2 where m2: "mo_mount_data ops w1 = (e2, w2)" by fastforce
  obtain e3 w3 where m3: "mo_prepare_directories ops w2 = (e3, w3)" by fastforce
  obtain c w4 where m4: "mo_unmount_web ops w2 = (c, w4)" by fastforce
  have g: "g w1 = g w" "g w2 = g w" "g w3 = g w" "g w4 = g w"
    using assms(3) [of w] assms(4) [of w1] assms(5) [of w2] assms(2) [of w2] by (simp_all add: m1 m2 m3 m4)
  have "g w5 = g w" if "storage_mount_core_unmount_result ops s w3 = (q, s', w5)" for s q s' w5
    using unmount_result_keeps [OF assms(1,2) that] g by simp
  then show ?thesis
    using assms(6) g
    by (auto simp: storage_mount_core_mount_result_def m1 m2 m3 m4 Let_def mount_data_failed_def
        prepare_failed_def split: if_splits prod.splits)
qed

lemmas mount_adapters = storage_mount_operations_def adapter_mount_web_def adapter_mount_data_def
  adapter_unmount_web_def adapter_unmount_data_def register_partition_def unregister_partition_def
  adapter_prepare_directories_def

lemma storage_mount_all_keeps:
  assumes "storage_mount_all port w = (e, w')"
  shows "rw_module w' = rw_module w \<and> rw_journal w' = rw_journal w"
proof -
  obtain r s w1 where run: "storage_mount_core_mount_result (storage_mount_operations port) (rw_mounts w) w = (r, s, w1)"
    by (metis prod.exhaust)
  have "(\<lambda>w. (rw_module w, rw_journal w)) w1 = (\<lambda>w. (rw_module w, rw_journal w)) w"
    by (rule mount_result_keeps [OF _ _ _ _ _ run]) (auto simp: mount_adapters split: prod.splits option.splits)
  then show ?thesis
    using assms run by (auto simp: storage_mount_all_def storage_mount_core_mount_def)
qed

lemma storage_unmount_all_keeps:
  assumes "storage_unmount_all port w = (e, w')"
  shows "rw_module w' = rw_module w \<and> rw_journal w' = rw_journal w \<and> rw_files w' = rw_files w"
proof -
  obtain r s w1 where run: "storage_mount_core_unmount_result (storage_mount_operations port) (rw_mounts w) w = (r, s, w1)"
    by (metis prod.exhaust)
  have "(\<lambda>w. (rw_module w, rw_journal w, rw_files w)) w1 = (\<lambda>w. (rw_module w, rw_journal w, rw_files w)) w"
    by (rule unmount_result_keeps [OF _ _ run]) (auto simp: mount_adapters split: prod.splits)
  then show ?thesis
    using assms run by (auto simp: storage_unmount_all_def storage_mount_core_unmount_def)
qed

section \<open>What the settings module leaves alone\<close>

context nvs_flash
begin

lemma close_stored: "committed (nvs_world (close_settings_handle ops s)) = committed (nvs_world s)"
  using close_settles by simp

lemma delete_stored: "committed (module_world (delete_mutex ops m)) = committed (module_world m)"
  using mutex_keeps(4) by (simp add: delete_mutex_def set_world_def nvs_same_def)

lemma cleanup_stored: "committed (module_world (cleanup_partial_init ops m)) = committed (module_world m)"
  by (simp add: cleanup_partial_init_def Let_def delete_stored close_stored)

lemma deinit_stored:
  assumes "device_settings_deinit ops m = (e, m')"
  shows "committed (module_world m') = committed (module_world m)"
proof -
  obtain t w where take: "mutex_take ops (module_world m) = (t, w)"
    by (cases "mutex_take ops (module_world m)") auto
  have "committed w = committed (module_world m)"
    using mutex_keeps(2) [OF take] by (simp add: nvs_same_def)
  then show ?thesis
    using assms
    by (auto simp: device_settings_deinit_def take_mutex_def take Let_def cleanup_stored delete_stored
        set_world_def close_stored nvs_same_def dest!: mutex_keeps(3) split: if_splits prod.splits)
qed

lemma init_stored:
  assumes "device_settings_init ops m = (e, m')" and "module_coherent m"
  shows "committed (module_world m') = committed (module_world m)"
proof (cases "settings_initialized m \<or> settings_mutex m \<or> settings_handle_open (module_store m)")
  case True
  then show ?thesis using assms by (auto simp: device_settings_init_def)
next
  case False
  obtain c w where create: "mutex_create ops (module_world m) = (c, w)"
    by (cases "mutex_create ops (module_world m)") auto
  define m1 where "m1 = (set_world w m)\<lparr>settings_mutex := c\<rparr>"
  have m1: "module_coherent m1" "committed (module_world m1) = committed (module_world m)"
    using same_keeps [OF mutex_keeps(1) [OF create] assms(2)] mutex_keeps(1) [OF create]
    by (simp_all add: m1_def module_coherent_def nvs_same_def set_world_def)
  obtain e2 s2 where opened: "open_settings_handle ops (module_store m1) = (e2, s2)"
    by (cases "open_settings_handle ops (module_store m1)") auto
  have s2: "settled s2" "committed (nvs_world s2) = committed (module_world m)"
    using open_keeps [OF opened] module_settled [OF m1(1)] m1(2) by (simp_all add: settled_def nvs_same_def)
  define core where "core = (zero_core :: 'w nvs_store settings_core)\<lparr>core_ops := Some (settings_operations ops)\<rparr>"
  obtain l c3 s3 where load: "device_settings_core_load core s2 = (l, c3, s3)"
    by (cases "device_settings_core_load core s2") auto
  have "store.coherent c3 s3 \<and> committed (nvs_world s3) = committed (nvs_world s2)"
    using store.coherent_load [OF load] store.coherent_init [OF s2(1)] by (simp add: core_def)
  then have s3: "committed (nvs_world s3) = committed (module_world m)"
    using s2(2) by simp
  have "m' = m1 \<or> m' = cleanup_partial_init ops (m1\<lparr>module_store := s2\<rparr>) \<or>
      m' = cleanup_partial_init ops (m1\<lparr>settings_core := c3, module_store := s3\<rparr>) \<or>
      m' = m1\<lparr>settings_core := c3, module_store := s3, settings_initialized := True\<rparr>"
    using assms(1) False
    using opened load
    by (cases l; cases c) (auto simp: device_settings_init_def create Let_def m1_def
        device_settings_core_init_def core_def split: if_splits)
  then show ?thesis
    using m1(2) s2(2) s3 by (auto simp: cleanup_stored)
qed

text \<open>A factory reset that reports success leaves the factory settings.\<close>

lemma factory_stored:
  assumes "settings_run ops (module_boot w) m" and "pending w = None"
    and "device_settings_factory_reset ops m = (APP_ERROR_NONE, outs, m')"
  shows "held_by (committed (module_world m')) = Some app_v2_device_settings_init_unprovisioned"
proof -
  obtain ch where rep: "device_settings_replace ops (Some app_v2_device_settings_init_unprovisioned) m =
      (APP_ERROR_NONE, ch, m')"
    using factory_is_replace [OF assms(3)] by blast
  from replace_stores [OF assms(1,2) unprovisioned_sized rep]
  show ?thesis
    by (auto simp: store.holds_def held_by_def split: option.splits)
qed

lemma factory_run:
  "settings_run ops (module_boot w) m \<Longrightarrow> device_settings_factory_reset ops m = (e, outs, m') \<Longrightarrow>
   settings_run ops (module_boot w) m'"
  by (rule rtranclp.rtrancl_into_rtrancl) (auto intro: settings_step.factory)

end

end
