(* ===== verification/Reset_Life.thy ===== *)
theory Reset_Life
  imports Reset_Journal Factory_Recovery
begin

text \<open>
  Factory resets and power losses on the device: the tables of \<open>device_controls.c\<close> and of
  \<open>factory_reset_recovery.c\<close> keep the promises of \<open>Reset_Journal\<close> on every flash and file
  system that do what they document, and the life of the device under resets, recoveries,
  ordinary use and power losses is a step relation on what is durable.
\<close>

section \<open>What is durable\<close>

text \<open>
  How to read the durable state: the record of the settings and the one set but not committed,
  the file system, the value of the marker and its uncommitted change.
\<close>

record ('n, 'f, 'j) flash_reading =
  fl_committed :: "'n \<Rightarrow> u8 list option"
  fl_pending :: "'n \<Rightarrow> u8 list option"
  fl_trace :: "'f \<Rightarrow> fs_view list"
  fl_stored :: "'j \<Rightarrow> u8 option"
  fl_staged :: "'j \<Rightarrow> u8 option option"

type_synonym durable_view = "(u8 list option, string \<Rightarrow> fs_node option) reset_view"

definition device_view :: "('n, 'f, 'j) flash_reading \<Rightarrow> ('n, 'f, 'j) device_world \<Rightarrow> durable_view" where
  "device_view fl w =
     \<lparr>rv_pending = (fl_stored fl (dv_journal w) \<noteq> None),
      rv_settings = fl_committed fl (module_world (ws_module (dv_server w))),
      rv_files = fv_node (fs_now (fl_trace fl) (dv_files w))\<rparr>"

definition boot_view :: "('n, 'f, 'j) flash_reading \<Rightarrow> ('n, 'd, 'f, 'j) recovery_world \<Rightarrow> durable_view" where
  "boot_view fl w =
     \<lparr>rv_pending = (fl_stored fl (rw_journal w) \<noteq> None),
      rv_settings = fl_committed fl (module_world (rw_module w)),
      rv_files = fv_node (fs_now (fl_trace fl) (rw_files w))\<rparr>"

definition factory_settings :: "u8 list option \<Rightarrow> bool" where
  "factory_settings stored \<longleftrightarrow> held_by stored = Some app_v2_device_settings_init_unprovisioned"

definition no_blobs :: "(string \<Rightarrow> fs_node option) \<Rightarrow> bool" where
  "no_blobs nodes \<longleftrightarrow> (\<forall>entry. \<not> is_blob nodes STORAGE_BLOB_DIRECTORY entry)"

definition no_uploads :: "(string \<Rightarrow> fs_node option) \<Rightarrow> bool" where
  "no_uploads nodes \<longleftrightarrow> staged_paths nodes STORAGE_BLOB_DIRECTORY = {}"

definition erased_view :: "durable_view \<Rightarrow> bool" where
  "erased_view v \<longleftrightarrow> factory_settings (rv_settings v) \<and> no_blobs (rv_files v) \<and> no_uploads (rv_files v)"

text \<open>The documented behaviour of the flash and the file system, read this way.\<close>

definition flash_laws where
  "flash_laws fl nvs fs sync marker \<longleftrightarrow>
     nvs_flash nvs (fl_committed fl) (fl_pending fl) \<and>
     posix_fs fs (fl_trace fl) \<and> keeps_files (fl_trace fl) sync \<and>
     marker_flash marker (fl_stored fl) (fl_staged fl)"

text \<open>
  A settings module that was used since a boot, and a marker with no change under way. At boot
  the module has made no step yet.
\<close>

definition module_ok where
  "module_ok fl nvs m \<longleftrightarrow> (\<exists>n. fl_pending fl n = None \<and> settings_run nvs (module_boot n) m)"

definition device_ok :: "('n, 'f, 'j) flash_reading \<Rightarrow> ('n, 'f, 'j) device_port \<Rightarrow> ('n, 'f, 'j) device_world \<Rightarrow> bool" where
  "device_ok fl port w \<longleftrightarrow> module_ok fl (wp_nvs (dp_web port)) (ws_module (dv_server w)) \<and>
     fl_staged fl (dv_journal w) = None"

definition boot_ok :: "('n, 'f, 'j) flash_reading \<Rightarrow> ('n, 'd, 'f, 'j) recovery_port \<Rightarrow> ('n, 'd, 'f, 'j) recovery_world \<Rightarrow> bool" where
  "boot_ok fl rport w \<longleftrightarrow> module_ok fl (rp_nvs rport) (rw_module w) \<and> fl_staged fl (rw_journal w) = None"

section \<open>The reset keeps its promises\<close>

locale reset_device =
  fixes fl :: "('n, 'f, 'j) flash_reading" and port :: "('n, 'f, 'j) device_port"
  assumes laws: "flash_laws fl (wp_nvs (dp_web port)) (dp_fs port) (dp_sync_parent port) (dp_journal port)"
begin

lemma parts: "nvs_flash (wp_nvs (dp_web port)) (fl_committed fl) (fl_pending fl)"
  "posix_fs (dp_fs port) (fl_trace fl)" "keeps_files (fl_trace fl) (dp_sync_parent port)"
  "marker_flash (dp_journal port) (fl_stored fl) (fl_staged fl)"
  using laws by (simp_all add: flash_laws_def)

lemma mark_law: "call_law (device_ok fl port) (moves_marker (device_view fl) dv_files True) (adapter_reset_mark_pending port)"
  using marker_flash.mark_marker [OF parts(4)]
  by (fastforce simp: call_law_def device_ok_def moves_marker_def device_view_def adapter_reset_mark_pending_def
      at_journal_def split: prod.splits)

lemma clear_law: "call_law (device_ok fl port) (moves_marker (device_view fl) dv_files False) (adapter_reset_clear_pending port)"
  using marker_flash.clear_marker [OF parts(4)]
  by (fastforce simp: call_law_def device_ok_def moves_marker_def device_view_def adapter_reset_clear_pending_def
      at_journal_def split: prod.splits)

lemma erase_law: "call_law (device_ok fl port) (moves_settings (device_view fl) dv_files factory_settings)
    (adapter_reset_erase_all_settings port)"
  using nvs_flash.factory_stored [OF parts(1)] nvs_flash.factory_run [OF parts(1)]
  by (fastforce simp: call_law_def device_ok_def module_ok_def moves_settings_def device_view_def factory_settings_def
      adapter_reset_erase_all_settings_def at_module_def split: prod.splits)

lemma logout_law: "call_law (device_ok fl port) (keeps_view (device_view fl) dv_files)
    (adapter_reset_invalidate_all_sessions port)"
  by (auto simp: call_law_def device_ok_def keeps_view_def device_view_def adapter_reset_invalidate_all_sessions_def
      at_server_def production_invalidate_all_sessions_def split: prod.splits)

lemma delete_law: "call_law (device_ok fl port) (moves_files (device_view fl) (\<lambda>f f'. no_blobs f'))
    (adapter_reset_delete_all_blobs port)"
  using delete_all_production [OF parts(2,3)]
  by (fastforce simp: call_law_def device_ok_def moves_files_def device_view_def no_blobs_def
      adapter_reset_delete_all_blobs_def split: option.splits prod.splits)

lemma clean_law: "call_law (device_ok fl port)
    (moves_files (device_view fl) (\<lambda>f f'. no_uploads f' \<and> (no_blobs f \<longrightarrow> no_blobs f')))
    (adapter_reset_cleanup_temporary_files port)"
  using recover_production [OF parts(2,3)]
  by (fastforce simp: call_law_def device_ok_def moves_files_def device_view_def no_blobs_def no_uploads_def
      adapter_reset_cleanup_temporary_files_def split: option.splits prod.splits)

lemma restart_law: "call_law (device_ok fl port) (keeps_view (device_view fl) dv_files)
    (adapter_reset_schedule_restart port delay)"
  by (auto simp: call_law_def device_ok_def keeps_view_def device_view_def adapter_reset_schedule_restart_def
      split: option.splits prod.splits)

end

sublocale reset_device \<subseteq> reset: reset_journal "device_view fl" dv_files "device_ok fl port"
  factory_settings no_blobs no_uploads "reset_operations port"
  by unfold_locales
    (simp_all add: reset_operations_sel mark_law clear_law erase_law logout_law delete_law clean_law restart_law
      device_view_def)

section \<open>The recovery keeps its promises\<close>

locale recovery_device =
  fixes fl :: "('n, 'f, 'j) flash_reading" and rport :: "('n, 'd, 'f, 'j) recovery_port"
  assumes laws: "flash_laws fl (rp_nvs rport) (rp_fs rport) (rp_sync_parent rport) (rp_journal rport)"
begin

lemma parts: "nvs_flash (rp_nvs rport) (fl_committed fl) (fl_pending fl)"
  "posix_fs (rp_fs rport) (fl_trace fl)" "keeps_files (fl_trace fl) (rp_sync_parent rport)"
  "marker_flash (rp_journal rport) (fl_stored fl) (fl_staged fl)"
  using laws by (simp_all add: flash_laws_def)

lemma read_law:
  assumes "boot_ok fl rport w" and "adapter_read_state rport w = (e, state, w')"
  shows "boot_ok fl rport w' \<and> keeps_view (boot_view fl) rw_files w e w' \<and>
    (e = APP_ERROR_NONE \<longrightarrow> rv_pending (boot_view fl w) = (state = FACTORY_RESET_STATE_PENDING))"
proof -
  obtain j where j: "factory_reset_state_read (rp_journal rport) (rw_journal w) = (e, state, j)"
    "w' = w\<lparr>rw_journal := j\<rparr>"
    using assms(2) by (auto simp: adapter_read_state_def split: prod.splits)
  have "fl_staged fl (rw_journal w) = None" using assms(1) by (simp add: boot_ok_def)
  from marker_flash.read_marker [OF parts(4) j(1) this] show ?thesis
    using assms(1) j(2) by (cases state) (auto simp: boot_ok_def keeps_view_def boot_view_def)
qed

lemma module_coherent:
  "module_ok fl (rp_nvs rport) m \<Longrightarrow> nvs_flash.module_coherent (rp_nvs rport) (fl_committed fl) (fl_pending fl) m"
  using nvs_flash.run_coherent [OF parts(1)] by (auto simp: module_ok_def)

lemma open_law: "call_law (boot_ok fl rport) (keeps_view (boot_view fl) rw_files) (adapter_settings_init rport)"
proof -
  have "module_ok fl (rp_nvs rport) m' \<and> fl_committed fl (module_world m') = fl_committed fl (module_world m)"
    if "device_settings_init (rp_nvs rport) m = (e, m')" "module_ok fl (rp_nvs rport) m" for m e m'
    using nvs_flash.init_stored [OF parts(1) that(1) module_coherent [OF that(2)]] that(2)
      settings_step.init [OF that(1)]
    by (auto simp: module_ok_def intro: rtranclp.rtrancl_into_rtrancl)
  then show ?thesis
    by (fastforce simp: call_law_def boot_ok_def keeps_view_def boot_view_def adapter_settings_init_def
        boot_module_def split: prod.splits)
qed

lemma close_law: "call_law (boot_ok fl rport) (keeps_view (boot_view fl) rw_files) (adapter_settings_deinit rport)"
proof -
  have "module_ok fl (rp_nvs rport) m' \<and> fl_committed fl (module_world m') = fl_committed fl (module_world m)"
    if "device_settings_deinit (rp_nvs rport) m = (e, m')" "module_ok fl (rp_nvs rport) m" for m e m'
    using nvs_flash.deinit_stored [OF parts(1) that(1)] that(2) settings_step.deinit [OF that(1)]
    by (auto simp: module_ok_def intro: rtranclp.rtrancl_into_rtrancl)
  then show ?thesis
    by (fastforce simp: call_law_def boot_ok_def keeps_view_def boot_view_def adapter_settings_deinit_def
        boot_module_def split: prod.splits)
qed

lemma erase_law: "call_law (boot_ok fl rport) (moves_settings (boot_view fl) rw_files factory_settings)
    (adapter_erase_settings rport)"
  using nvs_flash.factory_stored [OF parts(1)] nvs_flash.factory_run [OF parts(1)]
  by (fastforce simp: call_law_def boot_ok_def module_ok_def moves_settings_def boot_view_def factory_settings_def
      adapter_erase_settings_def boot_module_def split: prod.splits)

lemma mount_law: "call_law (boot_ok fl rport) (moves_files (boot_view fl) (\<lambda>f f'. True)) (adapter_storage_mount rport)"
  by (auto simp: call_law_def boot_ok_def moves_files_def boot_view_def adapter_storage_mount_def
      dest: storage_mount_all_keeps)

lemma unmount_law: "call_law (boot_ok fl rport) (keeps_view (boot_view fl) rw_files) (adapter_storage_unmount rport)"
  by (auto simp: call_law_def boot_ok_def keeps_view_def boot_view_def adapter_storage_unmount_def
      dest: storage_unmount_all_keeps)

lemma delete_law: "call_law (boot_ok fl rport) (moves_files (boot_view fl) (\<lambda>f f'. no_blobs f'))
    (adapter_delete_blobs rport)"
  using delete_all_production [OF parts(2,3)]
  by (fastforce simp: call_law_def boot_ok_def moves_files_def boot_view_def no_blobs_def
      adapter_delete_blobs_def split: option.splits prod.splits)

lemma clean_law: "call_law (boot_ok fl rport)
    (moves_files (boot_view fl) (\<lambda>f f'. no_uploads f' \<and> (no_blobs f \<longrightarrow> no_blobs f')))
    (adapter_cleanup_temporary_files rport)"
  using recover_production [OF parts(2,3)]
  by (fastforce simp: call_law_def boot_ok_def moves_files_def boot_view_def no_blobs_def no_uploads_def
      adapter_cleanup_temporary_files_def split: option.splits prod.splits)

lemma clear_law: "call_law (boot_ok fl rport) (moves_marker (boot_view fl) rw_files False) (adapter_clear_pending rport)"
  using marker_flash.clear_marker [OF parts(4)]
  by (fastforce simp: call_law_def boot_ok_def moves_marker_def boot_view_def adapter_clear_pending_def
      split: prod.splits)

end

lemma recovery_operations_sel:
  "re_read_state (recovery_operations port) = adapter_read_state port"
  "re_settings_init (recovery_operations port) = adapter_settings_init port"
  "re_erase_settings (recovery_operations port) = adapter_erase_settings port"
  "re_settings_deinit (recovery_operations port) = adapter_settings_deinit port"
  "re_storage_mount (recovery_operations port) = adapter_storage_mount port"
  "re_delete_blobs (recovery_operations port) = adapter_delete_blobs port"
  "re_cleanup_temporary_files (recovery_operations port) = adapter_cleanup_temporary_files port"
  "re_storage_unmount (recovery_operations port) = adapter_storage_unmount port"
  "re_clear_pending (recovery_operations port) = adapter_clear_pending port"
  by (simp_all add: recovery_operations_def)

sublocale recovery_device \<subseteq> recovery: recovery_journal "boot_view fl" rw_files "boot_ok fl rport"
  factory_settings no_blobs no_uploads "recovery_operations rport"
  by unfold_locales
    (simp_all add: recovery_operations_sel read_law open_law erase_law close_law mount_law delete_law clean_law
      unmount_law clear_law, simp_all add: boot_view_def)

section \<open>The life of a device\<close>

text \<open>Every view a power loss can leave during a reset or a recovery, its end included.\<close>

definition reset_cuts ::
    "('n, 'f, 'j) flash_reading \<Rightarrow> ('n, 'f, 'j) device_port \<Rightarrow> ('n, 'f, 'j) device_world \<Rightarrow> durable_view set" where
  "reset_cuts fl port w =
     (let ops = logged_reset_ops (cut_views (device_view fl) dv_files) (reset_operations port)
      in case device_controls_reset_engine_factory_reset (Some ops) DEVICE_CONTROLS_RESTART_DELAY_MS (w, {}) of
        (out, w', seen) \<Rightarrow> seen)"

definition recovery_cuts ::
    "('n, 'f, 'j) flash_reading \<Rightarrow> ('n, 'd, 'f, 'j) recovery_port \<Rightarrow> ('n, 'd, 'f, 'j) recovery_world \<Rightarrow> durable_view set" where
  "recovery_cuts fl rport w =
     (let ops = logged_recovery_ops (cut_views (boot_view fl) rw_files) (recovery_operations rport)
      in case factory_reset_recovery_engine_run (Some ops) (w, {}) of (res, completed, w', seen) \<Rightarrow> seen)"

text \<open>
  The first component is what the last ordinary use left, or \<open>None\<close> after a reset that was
  reported accepted. Ordinary use, also while a marker waits for the next boot, changes settings
  and files in any way; it does not overlap a reset.
\<close>

type_synonym life_state = "(u8 list option \<times> (string \<Rightarrow> fs_node option)) option \<times> durable_view"

inductive device_life ::
    "('n, 'f, 'j) flash_reading \<Rightarrow> ('n, 'f, 'j) device_port \<Rightarrow> ('n, 'd, 'f, 'j) recovery_port \<Rightarrow>
     life_state \<Rightarrow> life_state \<Rightarrow> bool"
  for fl :: "('n, 'f, 'j) flash_reading" and port :: "('n, 'f, 'j) device_port"
    and rport :: "('n, 'd, 'f, 'j) recovery_port" where
  cut_reset: "device_ok fl port w \<Longrightarrow> v \<in> reset_cuts fl port w \<Longrightarrow>
    device_life fl port rport (base, device_view fl w) (base, v)"
| accepted_reset: "device_ok fl port w \<Longrightarrow> device_controls_factory_reset port w = (out, w') \<Longrightarrow>
    fo_durably_accepted out \<Longrightarrow> device_life fl port rport (base, device_view fl w) (None, device_view fl w')"
| recovery: "boot_ok fl rport w \<Longrightarrow> v \<in> recovery_cuts fl rport w \<Longrightarrow>
    device_life fl port rport (base, boot_view fl w) (base, v)"
| use: "device_life fl port rport (base, v) (Some (s, f), v\<lparr>rv_settings := s, rv_files := f\<rparr>)"

text \<open>The journal invariant on a pair.\<close>

definition life_inv :: "life_state \<Rightarrow> bool" where
  "life_inv x \<longleftrightarrow> (case x of (base, v) \<Rightarrow>
     rv_pending v \<or> base = Some (rv_settings v, rv_files v) \<or> erased_view v)"

context reset_device
begin

lemma erased_is: "reset.erased = erased_view"
  by (simp add: fun_eq_iff reset.erased_def erased_view_def)

lemma inv_is: "reset.journal_inv base v = life_inv (base, v)"
  by (simp add: reset.journal_inv_def life_inv_def erased_is)

lemma started: "device_ok fl port w \<Longrightarrow> life_inv (base, device_view fl w) \<Longrightarrow> reset.sound base (w, {})"
  by (simp add: reset.sound_def inv_is)

lemma reset_cuts_inv:
  assumes "device_ok fl port w" "life_inv (base, device_view fl w)" "v \<in> reset_cuts fl port w"
  shows "life_inv (base, v)"
proof -
  obtain out W where run: "device_controls_reset_engine_factory_reset
      (Some (logged_reset_ops (cut_views (device_view fl) dv_files) (reset_operations port)))
      DEVICE_CONTROLS_RESTART_DELAY_MS (w, {}) = (out, W)"
    by (metis prod.exhaust)
  have "v \<in> snd W"
    using assms(3) run by (cases W) (simp add: reset_cuts_def Let_def)
  with reset.reset_sound(1) [OF run started [OF assms(1,2)]] show ?thesis
    by (simp add: reset.sound_def inv_is)
qed

lemma accepted_inv:
  assumes "device_ok fl port w" "life_inv (base, device_view fl w)"
    and "device_controls_factory_reset port w = (out, w')" "fo_durably_accepted out"
  shows "life_inv (None, device_view fl w')"
proof -
  from logged_reset_runs [of "cut_views (device_view fl) dv_files" "reset_operations port"
      DEVICE_CONTROLS_RESTART_DELAY_MS w "{}"]
  obtain seen where run: "device_controls_reset_engine_factory_reset
      (Some (logged_reset_ops (cut_views (device_view fl) dv_files) (reset_operations port)))
      DEVICE_CONTROLS_RESTART_DELAY_MS (w, {}) = (out, w', seen)"
    using assms(3) by (auto simp: device_controls_factory_reset_def)
  from reset.reset_sound(3) [OF run started [OF assms(1,2)] assms(4)] show ?thesis
    by (simp add: inv_is)
qed

end

context recovery_device
begin

lemma erased_is: "recovery.erased = erased_view"
  by (simp add: fun_eq_iff recovery.erased_def erased_view_def)

lemma inv_is: "recovery.journal_inv base v = life_inv (base, v)"
  by (simp add: recovery.journal_inv_def life_inv_def erased_is)

lemma started: "boot_ok fl rport w \<Longrightarrow> life_inv (base, boot_view fl w) \<Longrightarrow> recovery.sound base (w, {})"
  by (simp add: recovery.sound_def inv_is)

lemma recovery_cuts_inv:
  assumes "boot_ok fl rport w" "life_inv (base, boot_view fl w)" "v \<in> recovery_cuts fl rport w"
  shows "life_inv (base, v)"
proof -
  obtain res completed W where run: "factory_reset_recovery_engine_run
      (Some (logged_recovery_ops (cut_views (boot_view fl) rw_files) (recovery_operations rport))) (w, {}) =
      (res, completed, W)"
    by (metis prod.exhaust)
  have "v \<in> snd W"
    using assms(3) run by (cases W) (simp add: recovery_cuts_def Let_def)
  with recovery.recovery_sound(1) [OF run started [OF assms(1,2)]] show ?thesis
    by (simp add: recovery.sound_def inv_is)
qed

lemma recovered_view:
  assumes "boot_ok fl rport w" "life_inv (base, boot_view fl w)"
    and "factory_reset_recovery_run_if_pending rport w = (APP_ERROR_NONE, completed, w')"
  shows "\<not> rv_pending (boot_view fl w') \<and>
    (if completed then erased_view (boot_view fl w') else boot_view fl w' = boot_view fl w)"
proof -
  from logged_recovery_runs [of "cut_views (boot_view fl) rw_files" "recovery_operations rport" w "{}"]
  obtain seen where run: "factory_reset_recovery_engine_run
      (Some (logged_recovery_ops (cut_views (boot_view fl) rw_files) (recovery_operations rport))) (w, {}) =
      (APP_ERROR_NONE, completed, w', seen)"
    using assms(3) by (auto simp: factory_reset_recovery_run_if_pending_def)
  note r = recovery.recovery_sound [OF run started [OF assms(1,2)]]
  show ?thesis
    using r(2) r(3) [OF refl] by (auto simp: erased_is)
qed

end

lemma life_step_inv:
  assumes "reset_device fl port" "recovery_device fl rport" "device_life fl port rport x y" "life_inv x"
  shows "life_inv y"
  using assms(3,4)
proof cases
  case cut_reset
  then show ?thesis using reset_device.reset_cuts_inv [OF assms(1)] assms(4) by blast
next
  case accepted_reset
  then show ?thesis using reset_device.accepted_inv [OF assms(1)] assms(4) by blast
next
  case recovery
  then show ?thesis using recovery_device.recovery_cuts_inv [OF assms(2)] assms(4) by blast
qed (simp add: life_inv_def)

lemma life_inv_run:
  assumes "reset_device fl port" "recovery_device fl rport" "(device_life fl port rport)\<^sup>*\<^sup>* x y" "life_inv x"
  shows "life_inv y"
  using assms(3,4) by (induction rule: rtranclp_induct) (auto intro: life_step_inv [OF assms(1,2)])

section \<open>Factory reset survives power loss\<close>

text \<open>
  C22: a device with the resets of \<open>device_controls.c\<close> and the recovery of
  \<open>factory_reset_recovery.c\<close>, on any flash and file system that do what they document. Whatever
  resets, recoveries, ordinary use and power losses it has seen, in every order and at any moment
  of an operation: when recovery at boot reports success the marker is gone. If it recovered, the
  settings are the factory settings and no blob and no staged upload is left. If it did not, it
  changed nothing, and either the device is erased that completely, or no reset was accepted
  since its last ordinary use and it is exactly as that use left it.
\<close>

theorem factory_reset_survives_power_loss:
  assumes "flash_laws fl (wp_nvs (dp_web port)) (dp_fs port) (dp_sync_parent port) (dp_journal port)"
    and "flash_laws fl (rp_nvs rport) (rp_fs rport) (rp_sync_parent rport) (rp_journal rport)"
    and "(device_life fl port rport)\<^sup>*\<^sup>* (Some (rv_settings v, rv_files v), v) (base, boot_view fl w)"
    and "boot_ok fl rport w"
    and "factory_reset_recovery_run_if_pending rport w = (APP_ERROR_NONE, completed, w')"
  shows "\<not> rv_pending (boot_view fl w') \<and>
    (if completed then erased_view (boot_view fl w')
     else boot_view fl w' = boot_view fl w \<and>
       (erased_view (boot_view fl w') \<or> base = Some (rv_settings (boot_view fl w'), rv_files (boot_view fl w'))))"
proof -
  have d: "reset_device fl port" "recovery_device fl rport"
    using assms(1,2) by (simp_all add: reset_device_def recovery_device_def)
  have i: "life_inv (base, boot_view fl w)"
    by (rule life_inv_run [OF d assms(3)]) (simp add: life_inv_def)
  note r = recovery_device.recovered_view [OF d(2) assms(4) i assms(5)]
  then show ?thesis
    using i by (auto simp: life_inv_def)
qed

section \<open>A device that loses power\<close>

definition sample_reading :: "(u8 list option \<times> u8 list option, disk_world, sample_journal) flash_reading" where
  "sample_reading = \<lparr>fl_committed = fst, fl_pending = snd, fl_trace = disk_trace, fl_stored = fst, fl_staged = snd\<rparr>"

definition sample_recovery_port ::
    "(u8 list option \<times> u8 list option, unit, disk_world, sample_journal) recovery_port" where
  "sample_recovery_port =
     \<lparr>rp_nvs = sample_nvs, rp_register = (\<lambda>base label d. (ESP_OK, d)), rp_unregister = (\<lambda>label d. (ESP_OK, d)),
      rp_fs = disk_ops, rp_sync_parent = (\<lambda>p f. (None, f)), rp_read_persisted = (\<lambda>f. (Inr 0, f)),
      rp_realloc_ok = (\<lambda>n. n \<le> 64), rp_journal = sample_u8\<rparr>"

lemma sample_flash_reading:
  "flash_laws sample_reading sample_nvs disk_ops (\<lambda>p f. (None, f)) sample_u8"
  using sample_flash_laws disk_posix sample_marker_laws
  by (simp add: flash_laws_def sample_reading_def keeps_files_def)

interpretation sample_reset: reset_device sample_reading sample_device_port
  using sample_flash_reading by unfold_locales (simp add: sample_device_port_def sample_port_def)

interpretation sample_recovery: recovery_device sample_reading sample_recovery_port
  using sample_flash_reading by unfold_locales (simp add: sample_recovery_port_def)

text \<open>
  The provisioned device with one blob and one staged upload, cut right after the marker of its
  reset was stored, and the world its next boot finds.
\<close>

definition cut_boot :: "(u8 list option \<times> u8 list option, unit, disk_world, sample_journal) recovery_world" where
  "cut_boot = \<lparr>rw_module = module_boot (Some (record_bytes (sample_with 12)), None),
     rw_mounts = \<lparr>ms_web_mounted = False, ms_data_mounted = False\<rparr>, rw_driver = (), rw_files = sample_files,
     rw_scan = scan_summary_zero, rw_journal = (Some 1, None)\<rparr>"

lemma mark_is_cut:
  assumes "adapter_reset_mark_pending port w = (e, w1)"
  shows "cut_views (device_view fl) dv_files w w1 \<subseteq> reset_cuts fl port w"
  by (auto simp: reset_cuts_def device_controls_reset_engine_factory_reset_def logged_reset_ops_def logged_eq
      attempt_def Let_def case_prod_beta reset_operations_sel assms)

lemma cut_life:
  "device_life sample_reading sample_device_port sample_recovery_port
     (base, device_view sample_reading sample_device) (base, boot_view sample_reading cut_boot)"
proof (rule device_life.cut_reset)
  show "device_ok sample_reading sample_device_port sample_device"
    using sample_run_with [of 12]
    by (auto simp: device_ok_def module_ok_def sample_reading_def sample_device_fields sample_server_def intro: exI [of _ "(None, None)"])
  have mark: "adapter_reset_mark_pending sample_device_port sample_device =
      (APP_ERROR_NONE, sample_device\<lparr>dv_journal := (Some 1, None)\<rparr>)"
    by (simp add: adapter_reset_mark_pending_def at_journal_def sample_device_fields sample_marker_runs)
  show "boot_view sample_reading cut_boot \<in> reset_cuts sample_reading sample_device_port sample_device"
    by (rule subsetD [OF mark_is_cut [OF mark]])
      (simp add: cut_views_def device_view_def boot_view_def cut_boot_def sample_reading_def sample_device_fields
        sample_server_def module_boot_def module_on_def)
qed

text \<open>The boot of that device, step by step.\<close>

lemma sample_boot_init:
  assumes "storable x"
  shows "device_settings_init sample_nvs (module_boot (Some (record_bytes x), None)) =
    (APP_ERROR_NONE, module_on True (canonical x) (Some (record_bytes x)))"
  using storable_bytes [OF assms] by (simp add: nvs_eval module_on_def)

lemma sample_boot_deinit:
  "\<exists>m. device_settings_deinit sample_nvs (module_on p c r) = (APP_ERROR_NONE, m)"
  by (simp add: device_settings_deinit_def module_on_def take_mutex_def set_world_def sample_nvs_def Let_def)

lemma sample_boot_erase:
  "\<exists>outs. device_settings_factory_reset sample_nvs (module_on True (canonical (sample_with 12)) r) =
    (APP_ERROR_NONE, outs, module_with app_v2_device_settings_init_unprovisioned)"
proof -
  have g: "storable (sample_with 12)" using sample_with_good [of 12] by (simp add: settings_good_def)
  note dec = storable_bytes(3) [OF g]
  have "storable (canonical (sample_with 12))"
    using decode_accepts [OF dec] by simp
  moreover have "canonical (canonical (sample_with 12)) \<noteq> canonical app_v2_device_settings_init_unprovisioned"
    using decoded_canonical [OF dec] sample_not_fresh [of 12] by simp
  ultimately have "device_settings_replace sample_nvs (Some app_v2_device_settings_init_unprovisioned)
      (module_on True (canonical (sample_with 12)) r) =
      (APP_ERROR_NONE, True, module_with app_v2_device_settings_init_unprovisioned)"
    using unprovisioned_sized unprovisioned_valid by (intro replace_module_on) simp_all
  then show ?thesis by (rule replace_is_factory)
qed

lemma sample_boot_storage:
  "(case storage_prepare_directories disk_ops (\<lambda>p f. (None, f)) (\<lambda>f. (Inr 0, f)) (\<lambda>n. n \<le> 64) scan_summary_zero sample_files of
      None \<Rightarrow> None | Some (e, s, f) \<Rightarrow>
        (case storage_blob_delete_all disk_ops (\<lambda>p f. (None, f)) (\<lambda>n. n \<le> 64) s f of
          None \<Rightarrow> None | Some (e', n, s, f) \<Rightarrow>
            map_option (\<lambda>(r, f). (e, e', n, r)) (storage_blob_recover_startup disk_ops (\<lambda>p f. (None, f)) f))) =
     Some (APP_ERROR_NONE, APP_ERROR_NONE, 1, APP_ERROR_NONE)"
proof -
  have names: "blob_name 7 = ''00000000000000000007.gz''" by code_simp
  have path: "build_blob_path ''/data/repository'' 7 = Inr ''/data/repository/00000000000000000007.gz''"
    by (simp add: build_blob_path_Inr_iff names limit_defs)
  show ?thesis
    by (simp add: storage_prepare_directories_def storage_blob_prepare_directory_with_ops_def
        storage_blob_scan_startup_def storage_blob_delete_all_def storage_blob_delete_all_with_ops_def
        delete_all_observer_def delete_all_visit_entry_def storage_blob_delete_with_ops_def stat_regular_blob_def
        path scan_eval disk_eval sample_files_def STORAGE_BLOB_DIRECTORY_def storage_blob_recover_startup_def
        storage_blob_recover_with_ops_def recover_loop.simps)
qed

lemma recovery_runs:
  assumes "re_read_state ops w = (APP_ERROR_NONE, FACTORY_RESET_STATE_PENDING, w0)"
    "re_settings_init ops w0 = (APP_ERROR_NONE, w1)" "re_erase_settings ops w1 = (APP_ERROR_NONE, w2)"
    "re_settings_deinit ops w2 = (APP_ERROR_NONE, w3)" "re_storage_mount ops w3 = (APP_ERROR_NONE, w4)"
    "re_delete_blobs ops w4 = (APP_ERROR_NONE, w5)" "re_cleanup_temporary_files ops w5 = (APP_ERROR_NONE, w6)"
    "re_storage_unmount ops w6 = (APP_ERROR_NONE, w7)" "re_clear_pending ops w7 = (APP_ERROR_NONE, w')"
  shows "factory_reset_recovery_engine_run (Some ops) w = (APP_ERROR_NONE, True, w')"
  by (simp add: factory_reset_recovery_engine_run_def assms attempt_def record_first_error_def)

lemma sample_recovery_fields:
  "rp_nvs sample_recovery_port = sample_nvs" "rp_fs sample_recovery_port = disk_ops"
  "rp_register sample_recovery_port base label d = (ESP_OK, d)" "rp_unregister sample_recovery_port label d = (ESP_OK, d)"
  "rp_sync_parent sample_recovery_port = (\<lambda>p f. (None, f))" "rp_read_persisted sample_recovery_port = (\<lambda>f. (Inr 0, f))"
  "rp_realloc_ok sample_recovery_port = (\<lambda>n. n \<le> 64)" "rp_journal sample_recovery_port = sample_u8"
  by (simp_all add: sample_recovery_port_def)

lemma cut_boot_recovers:
  "\<exists>w'. factory_reset_recovery_run_if_pending sample_recovery_port cut_boot = (APP_ERROR_NONE, True, w')"
proof -
  let ?x = "sample_with 12"
  let ?u = "module_with app_v2_device_settings_init_unprovisioned"
  have x: "storable ?x" using sample_with_good [of 12] by (simp add: settings_good_def)
  obtain outs where erase: "device_settings_factory_reset sample_nvs
      (module_on True (canonical ?x) (Some (record_bytes ?x))) = (APP_ERROR_NONE, outs, ?u)"
    using sample_boot_erase by blast
  obtain m where deinit: "device_settings_deinit sample_nvs ?u = (APP_ERROR_NONE, m)"
    using sample_boot_deinit by blast
  obtain s1 f1 s2 f2 f3 where files: "storage_prepare_directories disk_ops (\<lambda>p f. (None, f)) (\<lambda>f. (Inr 0, f))
        (\<lambda>n. n \<le> 64) scan_summary_zero sample_files = Some (APP_ERROR_NONE, s1, f1)"
      "storage_blob_delete_all disk_ops (\<lambda>p f. (None, f)) (\<lambda>n. n \<le> 64) s1 f1 = Some (APP_ERROR_NONE, 1, s2, f2)"
      "storage_blob_recover_startup disk_ops (\<lambda>p f. (None, f)) f2 = Some (APP_ERROR_NONE, f3)"
    using sample_boot_storage by (auto split: option.splits prod.splits)
  let ?both = "\<lparr>ms_web_mounted = True, ms_data_mounted = True\<rparr>"
  let ?none = "\<lparr>ms_web_mounted = False, ms_data_mounted = False\<rparr>"
  let ?w3 = "cut_boot\<lparr>rw_module := m\<rparr>"
  let ?w4 = "?w3\<lparr>rw_scan := s1, rw_files := f1, rw_mounts := ?both\<rparr>"
  let ?w6 = "?w4\<lparr>rw_scan := s2, rw_files := f3\<rparr>"
  have steps: "adapter_read_state sample_recovery_port cut_boot = (APP_ERROR_NONE, FACTORY_RESET_STATE_PENDING, cut_boot)"
    "adapter_settings_init sample_recovery_port cut_boot =
       (APP_ERROR_NONE, cut_boot\<lparr>rw_module := module_on True (canonical ?x) (Some (record_bytes ?x))\<rparr>)"
    "adapter_erase_settings sample_recovery_port
       (cut_boot\<lparr>rw_module := module_on True (canonical ?x) (Some (record_bytes ?x))\<rparr>) =
       (APP_ERROR_NONE, cut_boot\<lparr>rw_module := ?u\<rparr>)"
    "adapter_settings_deinit sample_recovery_port (cut_boot\<lparr>rw_module := ?u\<rparr>) = (APP_ERROR_NONE, ?w3)"
    "adapter_storage_mount sample_recovery_port ?w3 = (APP_ERROR_NONE, ?w4)"
    "adapter_delete_blobs sample_recovery_port ?w4 = (APP_ERROR_NONE, ?w4\<lparr>rw_scan := s2, rw_files := f2\<rparr>)"
    "adapter_cleanup_temporary_files sample_recovery_port (?w4\<lparr>rw_scan := s2, rw_files := f2\<rparr>) = (APP_ERROR_NONE, ?w6)"
    "adapter_storage_unmount sample_recovery_port ?w6 = (APP_ERROR_NONE, ?w6\<lparr>rw_mounts := ?none\<rparr>)"
    "adapter_clear_pending sample_recovery_port (?w6\<lparr>rw_mounts := ?none\<rparr>) =
       (APP_ERROR_NONE, ?w6\<lparr>rw_mounts := ?none, rw_journal := (None, None)\<rparr>)"
    by (simp_all add: adapter_read_state_def adapter_settings_init_def adapter_erase_settings_def
        adapter_settings_deinit_def adapter_storage_mount_def adapter_delete_blobs_def
        adapter_cleanup_temporary_files_def adapter_storage_unmount_def adapter_clear_pending_def boot_module_def
        sample_recovery_fields cut_boot_def sample_marker_runs sample_boot_init [OF x] erase deinit files
        storage_mount_all_def storage_unmount_all_def storage_mount_core_mount_def storage_mount_core_unmount_def
        storage_mount_core_mount_result_def storage_mount_core_unmount_result_def unmount_data_step_def
        unmount_web_step_def mount_adapters operation_result_defs Let_def)
  from recovery_runs [of "recovery_operations sample_recovery_port", unfolded recovery_operations_sel, OF steps]
  show ?thesis by (simp add: factory_reset_recovery_run_if_pending_def)
qed

theorem factory_reset_survives_power_loss_witness:
  "\<exists>w'. factory_reset_recovery_run_if_pending sample_recovery_port cut_boot = (APP_ERROR_NONE, True, w') \<and>
    \<not> rv_pending (boot_view sample_reading w') \<and> erased_view (boot_view sample_reading w')"
proof -
  obtain w' where run: "factory_reset_recovery_run_if_pending sample_recovery_port cut_boot = (APP_ERROR_NONE, True, w')"
    using cut_boot_recovers by blast
  let ?v = "device_view sample_reading sample_device"
  have life: "(device_life sample_reading sample_device_port sample_recovery_port)\<^sup>*\<^sup>*
      (Some (rv_settings ?v, rv_files ?v), ?v)
      (Some (rv_settings ?v, rv_files ?v), boot_view sample_reading cut_boot)"
    by (rule r_into_rtranclp, rule cut_life)
  have ok: "boot_ok sample_reading sample_recovery_port cut_boot"
    by (auto simp: boot_ok_def module_ok_def cut_boot_def sample_reading_def)
  from factory_reset_survives_power_loss [OF sample_reset.laws sample_recovery.laws life ok run] run
  show ?thesis by simp
qed

end
