(* ===== verification/Web_Static.thy ===== *)
theory Web_Static
  imports Storage_Atomic
begin

text \<open>
  The static files of the web interface: the normalisation of a request URI
  (\<open>web_server/web_static_path.c\<close>), content negotiation (\<open>web_content.c\<close>), and the opening and
  streaming of a file (\<open>web_server_adapter_static_stream.c\<close>).  What \<open>fopen\<close>, \<open>fread\<close> and the HTTP
  server answer are functions of the calls made before.
\<close>

section \<open>Request paths\<close>

definition allowed_character :: "char \<Rightarrow> bool" where
  "allowed_character c \<longleftrightarrow> (97 \<le> byte c \<and> byte c \<le> 122) \<or> (65 \<le> byte c \<and> byte c \<le> 90) \<or>
     (48 \<le> byte c \<and> byte c \<le> 57) \<or> c = CHR ''/'' \<or> c = CHR ''-'' \<or> c = CHR ''_'' \<or> c = CHR ''.''"

text \<open>\<open>strstr\<close> and \<open>strncmp\<close> with the length of the literal.\<close>

definition starts_with :: "string \<Rightarrow> string \<Rightarrow> bool" where
  "starts_with p s \<longleftrightarrow> take (length p) s = p"

fun occurs :: "string \<Rightarrow> string \<Rightarrow> bool" where
  "occurs p [] = (p = [])"
| "occurs p (c # s) = (starts_with p (c # s) \<or> occurs p s)"

fun normalize_loop :: "nat \<Rightarrow> string \<Rightarrow> string \<Rightarrow> string option" where
  "normalize_loop cap [] acc = Some acc"
| "normalize_loop cap (c # uri) acc =
     (if c = CHR ''?'' then Some acc
      else if \<not> allowed_character c \<or> cap \<le> length acc + 1 then None
      else normalize_loop cap uri (acc @ [c]))"

definition web_static_uri_normalize :: "string option \<Rightarrow> nat \<Rightarrow> string option" where
  "web_static_uri_normalize uri normalized_size =
     (case uri of
        None \<Rightarrow> None
      | Some uri \<Rightarrow>
          if normalized_size < 2 \<or> \<not> starts_with ''/'' uri then None
          else if starts_with ''/api/'' uri \<or> uri = ''/api'' \<or> starts_with ''/api?'' uri then None
          else (case normalize_loop normalized_size uri [] of
              None \<Rightarrow> None
            | Some normalized \<Rightarrow>
                if normalized = [] \<or> occurs ''..'' normalized then None else Some normalized))"

section \<open>Content types and encodings\<close>

definition is_space :: "char \<Rightarrow> bool" where
  "is_space c \<longleftrightarrow> c = CHR '' '' \<or> c = CHR 0x09"

definition ascii_lower :: "char \<Rightarrow> char" where
  "ascii_lower c = (if 65 \<le> byte c \<and> byte c \<le> 90 then char_of (byte c - 65 + 97) else c)"

definition token_equal_ignore_case :: "string \<Rightarrow> string \<Rightarrow> bool" where
  "token_equal_ignore_case left right \<longleftrightarrow>
     length right = length left \<and> map ascii_lower left = map ascii_lower right"

abbreviation skip_spaces :: "string \<Rightarrow> string" where
  "skip_spaces \<equiv> dropWhile is_space"

definition q_value_is_zero :: "string \<Rightarrow> bool" where
  "q_value_is_zero cursor =
     (case skip_spaces cursor of
        [] \<Rightarrow> False
      | c # cursor \<Rightarrow>
          if c \<noteq> CHR ''0'' then False
          else (case skip_spaces (dropWhile (\<lambda>c. c = CHR ''0'' \<or> c = CHR ''.'') cursor) of
              [] \<Rightarrow> True
            | c # _ \<Rightarrow> c = CHR '';''))"

function quality_is_zero :: "string \<Rightarrow> bool" where
  "quality_is_zero cursor =
     (if cursor = [] then False
      else let cursor = dropWhile (\<lambda>c. is_space c \<or> c = CHR '';'') cursor
        in if 2 \<le> length cursor \<and> ascii_lower (cursor ! 0) = CHR ''q'' \<and> cursor ! 1 = CHR ''=''
           then q_value_is_zero (drop 2 cursor)
           else quality_is_zero (dropWhile (\<lambda>c. c \<noteq> CHR '';'') cursor))"
  by pat_completeness auto

text \<open>Each of the two skips consumes a character: the first a separator, or the second another one.\<close>

lemma two_skips_shorter:
  assumes "cursor \<noteq> []" and "\<And>c. Q c \<or> P c"
  shows "length (dropWhile P (dropWhile Q cursor)) < length cursor"
proof (cases cursor)
  case (Cons c s)
  have "length (dropWhile P (dropWhile Q s)) \<le> length s" "length (dropWhile P s) \<le> length s"
    using length_dropWhile_le order_trans by blast+
  then show ?thesis using Cons assms(2) [of c] by auto
qed (use assms(1) in simp)

termination quality_is_zero
  by (relation "measure length") (auto intro!: two_skips_shorter)

function accept_gzip_loop :: "string \<Rightarrow> bool" where
  "accept_gzip_loop cursor =
     (if cursor = [] then False
      else let cursor = dropWhile (\<lambda>c. is_space c \<or> c = CHR '','') cursor;
               item = takeWhile (\<lambda>c. c \<noteq> CHR '','') cursor;
               token = takeWhile (\<lambda>c. c \<noteq> CHR '';'' \<and> \<not> is_space c) item
        in if token_equal_ignore_case token ''gzip''
           then \<not> quality_is_zero (drop (length token) item)
           else accept_gzip_loop (tl (dropWhile (\<lambda>c. c \<noteq> CHR '','') cursor)))"
  by pat_completeness auto

termination accept_gzip_loop
proof (relation "measure length", goal_cases)
  case (2 cursor cursor1 item token)
  have "length (dropWhile (\<lambda>c. c \<noteq> CHR '','') (dropWhile (\<lambda>c. is_space c \<or> c = CHR '','') cursor)) < length cursor"
    by (rule two_skips_shorter) (use 2 in auto)
  then show ?case using 2 by simp
qed simp

declare quality_is_zero.simps [simp del] accept_gzip_loop.simps [simp del]

definition web_accept_encoding_gzip :: "string option \<Rightarrow> bool" where
  "web_accept_encoding_gzip header = (case header of None \<Rightarrow> False | Some h \<Rightarrow> accept_gzip_loop h)"

text \<open>\<open>strrchr\<close>: the text from the last \<open>c\<close> on.\<close>

definition strrchr :: "char \<Rightarrow> string \<Rightarrow> string option" where
  "strrchr c s = (if c \<in> set s then Some (c # rev (takeWhile (\<lambda>d. d \<noteq> c) (rev s))) else None)"

definition web_content_type :: "string option \<Rightarrow> string" where
  "web_content_type path =
     (case path of
        None \<Rightarrow> ''application/octet-stream''
      | Some path \<Rightarrow>
          (case strrchr CHR ''.'' path of
             None \<Rightarrow> ''application/octet-stream''
           | Some extension \<Rightarrow>
               if extension = ''.html'' then ''text/html; charset=utf-8''
               else if extension = ''.js'' then ''text/javascript; charset=utf-8''
               else if extension = ''.css'' then ''text/css; charset=utf-8''
               else if extension = ''.svg'' then ''image/svg+xml''
               else if extension = ''.json'' then ''application/json''
               else if extension = ''.png'' then ''image/png''
               else ''application/octet-stream''))"

section \<open>Opening a static file\<close>

record static_file =
  sf_handle :: "nat option"
  sf_compressed :: bool
  sf_path :: string
  sf_content_type :: string
  sf_cache_control :: string

definition no_static_file :: static_file where
  "no_static_file = \<lparr>sf_handle = None, sf_compressed = False, sf_path = [], sf_content_type = [],
     sf_cache_control = []\<rparr>"

text \<open>
  \<open>open_file\<close> answers a path after the paths tried before; the list of tried paths is passed on.
  A result of \<open>snprintf\<close> is fitted into the \<open>APP_PATH_MAX_BYTES\<close> of the path.
\<close>

definition web_adapter_open_static_file ::
    "(string list \<Rightarrow> string \<Rightarrow> nat option) \<Rightarrow> string option \<Rightarrow> bool \<Rightarrow> string \<Rightarrow> string list \<Rightarrow>
      app_error \<times> static_file \<times> string list" where
  "web_adapter_open_static_file open_file uri accept_gzip mount tried =
     (case web_static_uri_normalize uri APP_PATH_MAX_BYTES of
        None \<Rightarrow> (APP_ERROR_INVALID_ARGUMENT, no_static_file, tried)
      | Some normalized \<Rightarrow>
          let relative = (if normalized = ''/'' then ''/index.html'' else normalized)
          in case fitted APP_PATH_MAX_BYTES (mount @ relative) of
              None \<Rightarrow> (APP_ERROR_INVALID_ARGUMENT, no_static_file, tried)
            | Some base_path \<Rightarrow>
                (case (case (if accept_gzip then fitted APP_PATH_MAX_BYTES (base_path @ ''.gz'') else None) of
                     None \<Rightarrow> (None, base_path, tried)
                   | Some path \<Rightarrow> (open_file tried path, path, tried @ [path])) of
                  (handle, path, tried) \<Rightarrow>
                    (case (if handle = None then (open_file tried base_path, False, base_path, tried @ [base_path])
                           else (handle, True, path, tried)) of
                       (handle, compressed, path, tried) \<Rightarrow>
                         if handle = None then (APP_ERROR_NOT_FOUND, no_static_file, tried)
                         else (APP_ERROR_NONE,
                           \<lparr>sf_handle = handle, sf_compressed = compressed, sf_path = path,
                             sf_content_type = web_content_type (Some base_path),
                             sf_cache_control = (if relative = ''/index.html'' then ''no-cache''
                               else ''public, max-age=31536000, immutable'')\<rparr>, tried))))"

section \<open>Streaming a file\<close>

definition WEB_ADAPTER_STATIC_CHUNK_BYTES :: nat where
  [limit_defs]: "WEB_ADAPTER_STATIC_CHUNK_BYTES = 1024"

text \<open>A read answers the bytes and whether the end was reached, or fails.\<close>

datatype stream_event =
    Read_Event "(u8 list \<times> bool) option"
  | Send_Event "u8 list" bool
  | Close_Event bool

record stream_ops =
  st_read :: "stream_event list \<Rightarrow> (u8 list \<times> bool) option"
  st_send_chunk :: "stream_event list \<Rightarrow> u8 list \<Rightarrow> bool"
  st_close :: "stream_event list \<Rightarrow> bool"

definition send_chunk :: "stream_ops \<Rightarrow> u8 list \<Rightarrow> stream_event list \<Rightarrow> bool \<times> stream_event list" where
  "send_chunk ops bytes evs = (let ok = st_send_chunk ops evs bytes in (ok, evs @ [Send_Event bytes ok]))"

partial_function (option) stream_loop ::
    "stream_ops \<Rightarrow> stream_event list \<Rightarrow> (app_error \<times> stream_event list) option" where
  "stream_loop ops evs =
     (let answer = st_read ops evs; evs = evs @ [Read_Event answer]
      in case answer of
          None \<Rightarrow> Some (APP_ERROR_IO, evs)
        | Some (bytes, eof) \<Rightarrow>
            if WEB_ADAPTER_STATIC_CHUNK_BYTES < length bytes \<or> (bytes = [] \<and> \<not> eof)
            then Some (APP_ERROR_IO, evs)
            else (case (if bytes = [] then (True, evs) else send_chunk ops bytes evs) of
                (sent, evs) \<Rightarrow>
                  if \<not> sent then Some (APP_ERROR_IO, evs)
                  else if eof then Some (APP_ERROR_NONE, evs)
                  else stream_loop ops evs))"

definition web_adapter_stream_file ::
    "stream_ops \<Rightarrow> nat option \<Rightarrow> stream_event list \<Rightarrow> (app_error \<times> stream_event list) option" where
  "web_adapter_stream_file ops handle evs =
     (if handle = None then Some (APP_ERROR_INVALID_ARGUMENT, evs)
      else (case stream_loop ops evs of
          None \<Rightarrow> None
        | Some (result, evs) \<Rightarrow>
            let closed = st_close ops evs; evs = evs @ [Close_Event closed];
                result = (if \<not> closed \<and> result = APP_ERROR_NONE then APP_ERROR_IO else result)
            in if result = APP_ERROR_NONE
               then (case send_chunk ops [] evs of
                   (sent, evs) \<Rightarrow> Some (if sent then APP_ERROR_NONE else APP_ERROR_IO, evs))
               else Some (result, evs)))"

section \<open>Paths stay below the mount\<close>

text \<open>
  The directories and the file a POSIX path walks through: the components between slashes,
  where \<open>.\<close> and the empty component stay and \<open>..\<close> goes up.
\<close>

fun split_at :: "char \<Rightarrow> string \<Rightarrow> string list" where
  "split_at sep [] = [[]]"
| "split_at sep (c # s) = (if c = sep then [] # split_at sep s
     else (case split_at sep s of [] \<Rightarrow> [[c]] | k # ks \<Rightarrow> (c # k) # ks))"

abbreviation components :: "string \<Rightarrow> string list" where
  "components \<equiv> split_at CHR ''/''"

fun walk :: "string list \<Rightarrow> string list \<Rightarrow> string list" where
  "walk place [] = place"
| "walk place (k # ks) = walk
     (if k = [] \<or> k = ''.'' then place else if k = ''..'' then butlast place else place @ [k]) ks"

definition resolved :: "string \<Rightarrow> string list" where
  "resolved path = walk [] (components path)"

text \<open>A path is below a directory when it resolves to something in it, without leaving it on the way.\<close>

definition below :: "string \<Rightarrow> string \<Rightarrow> bool" where
  "below mount path \<longleftrightarrow> (\<exists>rest. resolved path = resolved mount @ rest \<and>
     (\<exists>relative. path = mount @ CHR ''/'' # relative \<and> ''..'' \<notin> set (components relative)))"

lemma split_at_not_Nil [simp]: "split_at sep s \<noteq> []"
  by (induction s) (auto split: list.splits)

lemma components_slash: "components (s @ CHR ''/'' # t) = components s @ components t"
proof (induction s)
  case (Cons c s)
  then show ?case by (cases "components s") auto
qed simp

lemma walk_append: "walk place (ks @ ls) = walk (walk place ks) ls"
  by (induction ks arbitrary: place) simp_all

lemma walk_down: "''..'' \<notin> set ks \<Longrightarrow> \<exists>rest. walk place ks = place @ rest"
proof (induction ks arbitrary: place)
  case (Cons k ks)
  from Cons.prems have k: "k \<noteq> ''..''" "''..'' \<notin> set ks" by auto
  have "\<exists>rest. walk (place @ [k]) ks = place @ rest"
    using Cons.IH [OF k(2), of "place @ [k]"] by auto
  then show ?case using Cons.IH [OF k(2)] k(1) by simp
qed simp

lemma component_infix: "k \<in> set (components s) \<Longrightarrow> \<exists>a b. s = a @ k @ b"
proof (induction s arbitrary: k)
  case (Cons c s)
  obtain l ls where ls: "components s = l # ls" by (cases "components s") auto
  have pre: "\<exists>b. s = l @ b"
    using ls
  proof (induction s arbitrary: l ls)
    case (Cons d t)
    then show ?case by (cases "components t") (auto split: if_splits)
  qed simp
  have tail: "\<exists>a b. c # s = a @ k @ b" if "k \<in> set (components s)"
    using Cons.IH [OF that] by (metis append_Cons)
  show ?case
  proof (cases "c = CHR ''/''")
    case True
    then consider "k = []" | "k \<in> set (components s)" using Cons.prems by auto
    then show ?thesis
    proof cases
      case 1
      then have "c # s = [] @ k @ (c # s)" by simp
      then show ?thesis by blast
    qed (rule tail)
  next
    case False
    then consider "k = c # l" | "k \<in> set ls" using Cons.prems ls by auto
    then show ?thesis
    proof cases
      case 1
      then show ?thesis using pre by (metis append_Cons append_Nil)
    qed (use tail ls in simp)
  qed
qed simp

lemma starts_with_iff: "starts_with p s \<longleftrightarrow> (\<exists>b. s = p @ b)"
  unfolding starts_with_def by (metis append_eq_conv_conj append_take_drop_id)

lemma occurs_iff: "occurs p s \<longleftrightarrow> (\<exists>a b. s = a @ p @ b)"
proof (induction s)
  case (Cons c s)
  have "starts_with p (c # s) \<longleftrightarrow> (\<exists>b. c # s = p @ b)"
    by (rule starts_with_iff)
  then show ?case using Cons.IH by (simp add: Cons_eq_append_conv) blast
qed auto

lemma below_mount:
  assumes no: "''..'' \<notin> set (components relative)"
  shows "below mount (mount @ CHR ''/'' # relative)"
proof -
  have "\<exists>rest. resolved (mount @ CHR ''/'' # relative) = resolved mount @ rest"
    unfolding resolved_def components_slash walk_append by (rule walk_down [OF no])
  then show ?thesis using no by (auto simp: below_def)
qed

lemma no_climb: "\<not> occurs ''..'' s \<Longrightarrow> ''..'' \<notin> set (components s)"
  using component_infix occurs_iff by blast

text \<open>A suffix extends the last component; \<open>.gz\<close> cannot make it \<open>..\<close>, not even after a final dot.\<close>

lemma components_suffix:
  "CHR ''/'' \<notin> set t \<Longrightarrow> components (s @ t) = butlast (components s) @ [last (components s) @ t]"
proof (induction s)
  case Nil
  then show ?case by (induction t) auto
next
  case (Cons c s)
  then show ?case by (cases "components s") auto
qed

lemma no_climb_gz:
  assumes "''..'' \<notin> set (components s)"
  shows "''..'' \<notin> set (components (s @ ''.gz''))"
proof -
  have "length (last (components s) @ ''.gz'') \<noteq> length ''..''" by simp
  then show ?thesis using assms in_set_butlastD [of "''..''" "components s"]
    by (subst components_suffix) (auto dest: arg_cong [where f = length])
qed

lemma normalize_loop_text:
  "normalize_loop cap uri acc = Some s \<Longrightarrow>
    s = acc @ takeWhile (\<lambda>c. c \<noteq> CHR ''?'') uri \<and> (length acc < cap \<longrightarrow> length s < cap) \<and>
    (list_all allowed_character acc \<longrightarrow> list_all allowed_character s)"
  by (induction cap uri acc rule: normalize_loop.induct) (auto split: if_splits)

lemma normalizeD:
  assumes "web_static_uri_normalize (Some uri) cap = Some s"
  shows "s = takeWhile (\<lambda>c. c \<noteq> CHR ''?'') uri" and "\<not> occurs ''..'' s" and "length s < cap"
    and "list_all allowed_character s" and "\<exists>r. s = CHR ''/'' # r" and "s \<noteq> ''/api''"
    and "\<not> starts_with ''/api/'' s"
proof -
  have n: "normalize_loop cap uri [] = Some s" "starts_with ''/'' uri" "\<not> occurs ''..'' s" "s \<noteq> []" "2 \<le> cap"
    and api: "\<not> starts_with ''/api/'' uri" "uri \<noteq> ''/api''" "\<not> starts_with ''/api?'' uri"
    using assms by (auto simp: web_static_uri_normalize_def split: if_splits option.splits)
  note t = normalize_loop_text [OF n(1)]
  show s: "s = takeWhile (\<lambda>c. c \<noteq> CHR ''?'') uri" using t by simp
  show "\<not> occurs ''..'' s" "length s < cap" "list_all allowed_character s" using t n(3,5) by auto
  show "\<exists>r. s = CHR ''/'' # r" using s n(2) by (cases uri) (auto simp: starts_with_def)
  have split: "uri = s @ dropWhile (\<lambda>c. c \<noteq> CHR ''?'') uri" by (simp add: s)
  show "\<not> starts_with ''/api/'' s"
    using api(1) split unfolding starts_with_iff by (metis append.assoc)
  show "s \<noteq> ''/api''"
  proof
    assume a: "s = ''/api''"
    show False
    proof (cases "dropWhile (\<lambda>c. c \<noteq> CHR ''?'') uri")
      case Nil
      then have "uri = s" using split by (metis append_Nil2)
      then show False using a api(2) by simp
    next
      case (Cons d r)
      then have "d = CHR ''?''" using dropWhile_eq_Cons_conv [of "\<lambda>c. c \<noteq> CHR ''?''"] by auto
      then show False using split a api(3) Cons by (simp add: starts_with_def)
    qed
  qed
qed

lemma normalized_below:
  assumes "web_static_uri_normalize (Some uri) cap = Some s"
  shows "below mount (mount @ s)" and "below mount (mount @ s @ ''.gz'')"
proof -
  obtain r where r: "s = CHR ''/'' # r" using normalizeD(5) [OF assms] by blast
  have "\<not> occurs ''..'' r" using normalizeD(2) [OF assms] r by simp
  then have "''..'' \<notin> set (components r)" by (rule no_climb)
  from below_mount [OF this] below_mount [OF no_climb_gz [OF this]]
  show "below mount (mount @ s)" "below mount (mount @ s @ ''.gz'')" using r by simp_all
qed

lemma index_below: "below mount (mount @ ''/index.html'')" "below mount (mount @ ''/index.html.gz'')"
  using below_mount [of "''index.html''"] below_mount [of "''index.html.gz''"] by simp_all

text \<open>The paths one request tries.\<close>

lemma open_static_tries:
  assumes "web_adapter_open_static_file open_file uri accept_gzip mount tried = (result, file, tried')"
  obtains "result = APP_ERROR_INVALID_ARGUMENT" "file = no_static_file" "tried' = tried"
  | (opened) u s relative paths where "uri = Some u" "web_static_uri_normalize uri APP_PATH_MAX_BYTES = Some s"
      "relative = (if s = ''/'' then ''/index.html'' else s)" "length (mount @ relative) < APP_PATH_MAX_BYTES"
      "paths \<in> {[mount @ relative], [mount @ relative @ ''.gz'']} \<or>
        paths = [mount @ relative @ ''.gz'', mount @ relative]"
      "tl paths \<noteq> [] \<or> hd paths = mount @ relative @ ''.gz'' \<Longrightarrow>
        accept_gzip \<and> length (mount @ relative @ ''.gz'') < APP_PATH_MAX_BYTES"
      "tried' = tried @ paths"
      "result = (if open_file (tried @ butlast paths) (last paths) = None then APP_ERROR_NOT_FOUND else APP_ERROR_NONE)"
      "result = APP_ERROR_NONE \<Longrightarrow> sf_path file = last paths \<and>
        sf_handle file = open_file (tried @ butlast paths) (last paths) \<and>
        sf_compressed file = (last paths = mount @ relative @ ''.gz'') \<and>
        sf_content_type file = web_content_type (Some (mount @ relative))"
      "result \<noteq> APP_ERROR_NONE \<Longrightarrow> file = no_static_file"
proof (cases "web_static_uri_normalize uri APP_PATH_MAX_BYTES")
  case None
  then show thesis using assms that(1) by (simp add: web_adapter_open_static_file_def)
next
  case (Some s)
  then obtain u where u: "uri = Some u" by (auto simp: web_static_uri_normalize_def split: option.splits)
  define relative where "relative = (if s = ''/'' then ''/index.html'' else s)"
  define gz where "gz = (mount @ relative) @ ''.gz''"
  have ne: "gz \<noteq> mount @ relative" by (simp add: gz_def)
  note [simp] = web_adapter_open_static_file_def Some relative_def [symmetric] gz_def [symmetric]
  show thesis
  proof (cases "length (mount @ relative) < APP_PATH_MAX_BYTES")
    case False
    then show thesis using assms that(1) by (simp add: Let_def fitted_def)
  next
    case True
    then have f: "fitted APP_PATH_MAX_BYTES (mount @ relative) = Some (mount @ relative)" by simp
    define gzip where "gzip = (accept_gzip \<and> length gz < APP_PATH_MAX_BYTES)"
    have g: "(if accept_gzip then fitted APP_PATH_MAX_BYTES gz else None) = (if gzip then Some gz else None)"
      by (auto simp: gzip_def fitted_def)
    define paths where "paths = (if gzip then if open_file tried gz = None then [gz, mount @ relative] else [gz]
      else [mount @ relative])"
    show thesis
      by (rule opened [OF u Some relative_def True, of paths])
        (use assms ne f g in \<open>auto simp: Let_def paths_def gzip_def gz_def split: if_splits option.splits\<close>)
  qed
qed

text \<open>
  C24: A static request opens nothing outside the mount.  Whatever URI a client sends, every path
  tried fits its buffer and resolves to a place below the mount without going up on the way, a
  request under \<open>/api\<close> opens nothing, and the file that is served is the one whose path is
  reported: the requested one, or its \<open>.gz\<close> companion when the client accepts it.
\<close>

theorem static_paths_confined:
  assumes "web_adapter_open_static_file open_file (Some uri) accept_gzip mount tried = (result, file, tried')"
  shows "\<exists>paths. tried' = tried @ paths \<and>
    (\<forall>p \<in> set paths. below mount p \<and> length p < APP_PATH_MAX_BYTES) \<and>
    (starts_with ''/api/'' uri \<or> uri = ''/api'' \<or> starts_with ''/api?'' uri \<longrightarrow> paths = []) \<and>
    (if result = APP_ERROR_NONE
     then sf_path file = last paths \<and> sf_handle file \<noteq> None \<and>
       sf_handle file = open_file (tried @ butlast paths) (last paths) \<and>
       (\<exists>s. web_static_uri_normalize (Some uri) APP_PATH_MAX_BYTES = Some s \<and>
         sf_path file = mount @ (if s = ''/'' then ''/index.html'' else s) @
           (if sf_compressed file then ''.gz'' else '''')) \<and>
       (sf_compressed file \<longrightarrow> accept_gzip)
     else file = no_static_file)"
  using assms
proof (cases rule: open_static_tries)
  case 1
  then show ?thesis by simp
next
  case (opened u s relative paths)
  have n: "web_static_uri_normalize (Some uri) APP_PATH_MAX_BYTES = Some s" using opened(1,2) by simp
  have b: "below mount (mount @ relative)" "below mount (mount @ relative @ ''.gz'')"
    using normalized_below [OF n, of mount] index_below [of mount] opened(3) by auto
  have api: "\<not> (starts_with ''/api/'' uri \<or> uri = ''/api'' \<or> starts_with ''/api?'' uri)"
    using n by (auto simp: web_static_uri_normalize_def split: if_splits)
  have paths: "\<forall>p \<in> set paths. below mount p \<and> length p < APP_PATH_MAX_BYTES"
    using opened(4,5,6) b by auto
  show ?thesis
  proof (cases "result = APP_ERROR_NONE")
    case True
    have "sf_handle file \<noteq> None" using True opened(8,9) by (auto split: if_splits)
    moreover have "last paths = mount @ relative @ (if sf_compressed file then ''.gz'' else '''')"
      "sf_compressed file \<longrightarrow> accept_gzip"
      using opened(5,6,9) True by auto
    ultimately show ?thesis using True opened(3,7,9) n api paths by auto
  qed (use opened(7,10) api paths in auto)
qed

theorem static_paths_confined_witness:
  "\<exists>file. web_adapter_open_static_file (\<lambda>tried p. if p = ''/web/app.js'' then Some 7 else None)
      (Some ''/app.js?v=1'') True ''/web'' [] = (APP_ERROR_NONE, file, [''/web/app.js.gz'', ''/web/app.js'']) \<and>
    sf_handle file = Some 7 \<and> below ''/web'' ''/web/app.js''"
proof -
  have r: "web_adapter_open_static_file (\<lambda>tried p. if p = ''/web/app.js'' then Some 7 else None)
      (Some ''/app.js?v=1'') True ''/web'' [] = (APP_ERROR_NONE, \<lparr>sf_handle = Some 7, sf_compressed = False,
        sf_path = ''/web/app.js'', sf_content_type = ''text/javascript; charset=utf-8'',
        sf_cache_control = ''public, max-age=31536000, immutable''\<rparr>, [''/web/app.js.gz'', ''/web/app.js''])"
    by (simp add: web_adapter_open_static_file_def web_static_uri_normalize_def starts_with_def
        allowed_character_def APP_PATH_MAX_BYTES_def fitted_def web_content_type_def strrchr_def Let_def)
  from static_paths_confined [OF r] show ?thesis by (simp add: r)
qed

section \<open>A file reaches the client completely or visibly cut\<close>

definition bytes_read :: "stream_event list \<Rightarrow> u8 list" where
  "bytes_read evs = concat (map (\<lambda>e. case e of Read_Event (Some (bytes, eof)) \<Rightarrow> bytes | _ \<Rightarrow> []) evs)"

definition bytes_sent :: "stream_event list \<Rightarrow> u8 list" where
  "bytes_sent evs = concat (map (\<lambda>e. case e of Send_Event bytes ok \<Rightarrow> if ok then bytes else [] | _ \<Rightarrow> []) evs)"

text \<open>The empty chunk that tells the client that the response is complete.\<close>

definition response_ended :: "stream_event list \<Rightarrow> bool" where
  "response_ended evs \<longleftrightarrow> Send_Event [] True \<in> set evs"

definition is_close :: "stream_event \<Rightarrow> bool" where
  "is_close e = (case e of Close_Event ok \<Rightarrow> True | _ \<Rightarrow> False)"

text \<open>\<open>fread\<close> delivers the content in order and reports its end nowhere else.\<close>

definition reads_file :: "stream_ops \<Rightarrow> u8 list \<Rightarrow> bool" where
  "reads_file ops content \<longleftrightarrow> (\<forall>evs bytes eof. st_read ops evs = Some (bytes, eof) \<longrightarrow>
     (\<exists>rest. content = bytes_read evs @ bytes @ rest \<and> (eof \<longrightarrow> rest = [])))"

lemma bytes_append [simp]:
  "bytes_read (a @ b) = bytes_read a @ bytes_read b" "bytes_sent (a @ b) = bytes_sent a @ bytes_sent b"
  by (simp_all add: bytes_read_def bytes_sent_def)

lemma bytes_events [simp]:
  "bytes_read [] = []" "bytes_sent [] = []"
  "bytes_read (Read_Event (Some (bytes, eof)) # evs) = bytes @ bytes_read evs"
  "bytes_read (Read_Event None # evs) = bytes_read evs" "bytes_read (Send_Event bytes ok # evs) = bytes_read evs"
  "bytes_sent (Read_Event r # evs) = bytes_sent evs" "bytes_sent (Close_Event ok # evs) = bytes_sent evs"
  "bytes_sent (Send_Event bytes ok # evs) = (if ok then bytes else []) @ bytes_sent evs"
  by (simp_all add: bytes_read_def bytes_sent_def)

text \<open>What a run of the loop adds: no close, no final chunk, and a prefix of the content.\<close>

definition streamed :: "u8 list \<Rightarrow> stream_event list \<Rightarrow> app_error \<Rightarrow> stream_event list \<Rightarrow> bool" where
  "streamed content evs e new \<longleftrightarrow> \<not> list_ex is_close new \<and> \<not> response_ended new \<and>
     (\<exists>rest. content = bytes_sent (evs @ new) @ rest \<and> (e = APP_ERROR_NONE \<longrightarrow> rest = []))"

lemma streamed_stop:
  "streamed content evs e (a # new)" if "content = bytes_sent (evs @ a # new) @ rest"
    "e = APP_ERROR_NONE \<longrightarrow> rest = []" "\<not> list_ex is_close (a # new)" "\<not> response_ended (a # new)"
  using that by (auto simp: streamed_def)

lemma streamed_step:
  "streamed content (evs @ a) e new \<Longrightarrow> \<not> list_ex is_close a \<Longrightarrow> \<not> response_ended a \<Longrightarrow>
    streamed content evs e (a @ new)"
  by (auto simp: streamed_def response_ended_def)

lemma stream_loop_ends:
  assumes "reads_file ops content" and "bytes_sent evs = bytes_read evs"
    and "\<exists>rest. content = bytes_read evs @ rest"
  shows "\<exists>e new. stream_loop ops evs = Some (e, evs @ new) \<and> streamed content evs e new"
  using assms(2,3)
proof (induction "length content - length (bytes_read evs)" arbitrary: evs rule: less_induct)
  case less
  show ?case
  proof (cases "st_read ops evs")
    case None
    then show ?thesis using less.prems
      by (subst stream_loop.simps) (auto simp: Let_def streamed_def is_close_def response_ended_def)
  next
    case (Some answer)
    obtain bytes eof where a: "answer = (bytes, eof)" by force
    obtain rest where rest: "content = bytes_read evs @ bytes @ rest" "eof \<longrightarrow> rest = []"
      using assms(1) Some a by (fastforce simp: reads_file_def)
    define r where "r = Read_Event (Some (bytes, eof))"
    define ok where "ok = st_send_chunk ops (evs @ [r]) bytes"
    define evs' where "evs' = evs @ [r] @ (if bytes = [] then [] else [Send_Event bytes ok])"
    have loop: "stream_loop ops evs =
        (if 1024 < length bytes \<or> (bytes = [] \<and> \<not> eof) then Some (APP_ERROR_IO, evs @ [r])
         else if bytes \<noteq> [] \<and> \<not> ok then Some (APP_ERROR_IO, evs')
         else if eof then Some (APP_ERROR_NONE, evs') else stream_loop ops evs')"
      by (subst stream_loop.simps)
        (simp add: Some a Let_def send_chunk_def r_def ok_def evs'_def WEB_ADAPTER_STATIC_CHUNK_BYTES_def)
    have quiet: "\<not> list_ex is_close ([r] @ (if bytes = [] then [] else [Send_Event bytes ok]))"
      "\<not> response_ended ([r] @ (if bytes = [] then [] else [Send_Event bytes ok]))"
      by (simp_all add: r_def is_close_def response_ended_def)
    consider (read) "1024 < length bytes \<or> (bytes = [] \<and> \<not> eof)"
      | (send) "\<not> (1024 < length bytes \<or> (bytes = [] \<and> \<not> eof))" "bytes \<noteq> [] \<and> \<not> ok"
      | (eof) "\<not> (1024 < length bytes \<or> (bytes = [] \<and> \<not> eof))" "bytes \<noteq> [] \<longrightarrow> ok" eof
      | (more) "\<not> (1024 < length bytes \<or> (bytes = [] \<and> \<not> eof))" "bytes \<noteq> []" ok "\<not> eof"
      by blast
    then show ?thesis
    proof cases
      case read
      have "streamed content evs APP_ERROR_IO [r]"
        using rest less.prems(1) by (auto simp: streamed_def r_def is_close_def response_ended_def)
      then show ?thesis using loop read by auto
    next
      case send
      have "streamed content evs APP_ERROR_IO [r, Send_Event bytes ok]"
        using rest less.prems(1) send quiet by (auto simp: streamed_def r_def)
      then show ?thesis using loop send by (auto simp: evs'_def)
    next
      case eof
      have "streamed content evs APP_ERROR_NONE ([r] @ (if bytes = [] then [] else [Send_Event bytes ok]))"
        using rest less.prems(1) eof quiet by (auto simp: streamed_def r_def)
      then show ?thesis using loop eof by (auto simp: evs'_def)
    next
      case more
      have e: "evs' = evs @ [r, Send_Event bytes ok]" using more by (simp add: evs'_def)
      have b: "bytes_sent evs' = bytes_read evs'" "bytes_read evs' = bytes_read evs @ bytes"
        using e less.prems(1) more by (simp_all add: r_def)
      have "\<exists>e new. stream_loop ops evs' = Some (e, evs' @ new) \<and> streamed content evs' e new"
        by (rule less.hyps) (use b rest more in auto)
      then obtain e new where n: "stream_loop ops evs' = Some (e, evs' @ new)" "streamed content evs' e new"
        by blast
      have "streamed content evs e ([r, Send_Event bytes ok] @ new)"
        by (rule streamed_step) (use n(2) e quiet more in auto)
      then show ?thesis using loop more n(1) e by auto
    qed
  qed
qed

text \<open>
  Streaming a file ends, closes it exactly once, and is honest: success means that the
  client received exactly the content followed by the end of the response; on any failure it
  received a prefix and no end, so the cut is visible.
\<close>

theorem static_stream_complete:
  assumes "reads_file ops content"
  shows "\<exists>e evs. web_adapter_stream_file ops (Some handle) [] = Some (e, evs) \<and>
    length (filter is_close evs) = 1 \<and>
    (if e = APP_ERROR_NONE then bytes_sent evs = content \<and> last evs = Send_Event [] True
     else \<not> response_ended evs \<and> (\<exists>rest. content = bytes_sent evs @ rest))"
proof -
  obtain e new where l: "stream_loop ops [] = Some (e, new)" "streamed content [] e new"
    using stream_loop_ends [OF assms, of "[]"] by (auto simp: bytes_read_def bytes_sent_def)
  have new: "filter is_close new = []" "Send_Event [] True \<notin> set new"
    using l(2) by (auto simp: streamed_def list_ex_iff filter_empty_conv response_ended_def)
  have simps: "is_close (Close_Event b)" "\<not> is_close (Send_Event x b)" for b x by (simp_all add: is_close_def)
  show ?thesis
    using l(2) new simps
    by (auto simp: web_adapter_stream_file_def l(1) Let_def send_chunk_def streamed_def response_ended_def)
qed

definition two_chunks :: stream_ops where
  "two_chunks = \<lparr>st_read = (\<lambda>evs. if bytes_read evs = [] then Some ([1, 2], False)
       else if bytes_read evs = [1, 2] then Some ([3], True) else None),
     st_send_chunk = (\<lambda>evs bytes. True), st_close = (\<lambda>evs. True)\<rparr>"

theorem static_stream_complete_witness:
  "reads_file two_chunks [1, 2, 3] \<and>
    (\<exists>e evs. web_adapter_stream_file two_chunks (Some 7) [] = Some (e, evs) \<and> length (filter is_close evs) = 1)"
proof -
  have r: "reads_file two_chunks [1, 2, 3]"
    by (auto simp: reads_file_def two_chunks_def split: if_splits)
  show ?thesis using r static_stream_complete [OF r, of 7] by blast
qed

end
