(* ===== verification/Web_Cookie.thy ===== *)
theory Web_Cookie
  imports Web_Static Auth_Core
begin

text \<open>
  The session cookie (\<open>web_server/web_cookie.c\<close>): its extraction from a \<open>Cookie\<close> header and the
  \<open>Set-Cookie\<close> header of a login.  Cursors into the header are the rest of the text they see.
\<close>

section \<open>The code\<close>

definition valid_token :: "string \<Rightarrow> bool" where
  "valid_token token \<longleftrightarrow> length token = AUTH_TOKEN_HEX_BYTES - 1 \<and>
     list_all (\<lambda>c. (48 \<le> byte c \<and> byte c \<le> 57) \<or> (97 \<le> byte c \<and> byte c \<le> 102)) token"

definition cookie_prefix :: string where
  "cookie_prefix = ''MKSESSION=''"

text \<open>The trailing blanks of a segment are cut.\<close>

definition trimmed :: "string \<Rightarrow> string" where
  "trimmed segment = rev (dropWhile is_space (rev segment))"

text \<open>The one match, if any, or \<open>None\<close> for a second one.\<close>

function cookie_loop :: "string \<Rightarrow> string option \<Rightarrow> string option option" where
  "cookie_loop cursor found =
     (if cursor = [] then Some found
      else let cursor = dropWhile (\<lambda>c. is_space c \<or> c = CHR '';'') cursor;
               segment = trimmed (takeWhile (\<lambda>c. c \<noteq> CHR '';'') cursor);
               rest = dropWhile (\<lambda>c. c \<noteq> CHR '';'') cursor
        in if starts_with cookie_prefix segment \<and> found \<noteq> None then None
           else let found = (if starts_with cookie_prefix segment
                  then Some (drop (length cookie_prefix) segment) else found)
             in if rest = [] then Some found else cookie_loop (tl rest) found)"
  by pat_completeness auto

termination cookie_loop
proof (relation "measure (length \<circ> fst)", goal_cases)
  case (2 cursor found cursor1 segment rest found1)
  have "length (dropWhile (\<lambda>c. c \<noteq> CHR '';'') (dropWhile (\<lambda>c. is_space c \<or> c = CHR '';'') cursor)) < length cursor"
    by (rule two_skips_shorter) (use 2 in auto)
  then show ?case using 2 by simp
qed simp

declare cookie_loop.simps [simp del]

definition web_cookie_extract_session :: "string option \<Rightarrow> nat \<Rightarrow> app_error \<times> string" where
  "web_cookie_extract_session cookie token_size =
     (case cookie of
        None \<Rightarrow> (APP_ERROR_INVALID_ARGUMENT, [])
      | Some cookie \<Rightarrow>
          if token_size < AUTH_TOKEN_HEX_BYTES then (APP_ERROR_INVALID_ARGUMENT, [])
          else (case cookie_loop cookie None of
              None \<Rightarrow> (APP_ERROR_AUTH_REQUIRED, [])
            | Some None \<Rightarrow> (APP_ERROR_AUTH_REQUIRED, [])
            | Some (Some token) \<Rightarrow>
                if \<not> valid_token token \<or> token_size \<le> length token then (APP_ERROR_AUTH_REQUIRED, [])
                else (APP_ERROR_NONE, token)))"

definition web_cookie_build_session_header :: "string option \<Rightarrow> nat \<Rightarrow> app_error \<times> string" where
  "web_cookie_build_session_header session_token out_header_size =
     (case session_token of
        None \<Rightarrow> (APP_ERROR_INVALID_ARGUMENT, [])
      | Some token \<Rightarrow>
          if out_header_size = 0 \<or> \<not> valid_token token then (APP_ERROR_INVALID_ARGUMENT, [])
          else (case fitted out_header_size
                  (''MKSESSION='' @ token @ ''; HttpOnly; SameSite=Strict; Path=/'') of
              None \<Rightarrow> (APP_ERROR_INTERNAL, [])
            | Some header \<Rightarrow> (APP_ERROR_NONE, header)))"

section \<open>The cookies of a header\<close>

text \<open>
  A header is a list of pairs between semicolons, with blanks around them; the sessions it
  carries are the values of all pairs with the name of the cookie.
\<close>

definition session_values :: "string \<Rightarrow> string list" where
  "session_values cookie = map (drop (length cookie_prefix))
     (filter (starts_with cookie_prefix) (map (\<lambda>s. trimmed (dropWhile is_space s)) (split_at CHR '';'' cookie)))"

lemma split_at_append: "split_at sep (s @ sep # t) = split_at sep s @ split_at sep t"
proof (induction s)
  case (Cons c s)
  then show ?case by (cases "split_at sep s") auto
qed simp

lemma split_at_single: "sep \<notin> set s \<Longrightarrow> split_at sep s = [s]"
  by (induction s) auto

lemma split_at_first:
  "split_at sep s = takeWhile (\<lambda>c. c \<noteq> sep) s #
    (case dropWhile (\<lambda>c. c \<noteq> sep) s of [] \<Rightarrow> [] | _ # rest \<Rightarrow> split_at sep rest)"
  by (induction s) auto

lemma not_in_empty [simp]: "\<not> starts_with cookie_prefix []" "trimmed [] = []"
  by (simp_all add: starts_with_def cookie_prefix_def trimmed_def)

lemma session_values_skip:
  "session_values (dropWhile (\<lambda>c. is_space c \<or> c = CHR '';'') cursor) = session_values cursor"
proof (induction cursor)
  case (Cons c s)
  have "is_space c \<Longrightarrow> session_values (c # s) = session_values s"
    by (cases "split_at CHR '';'' s") (auto simp: session_values_def is_space_def)
  moreover have "session_values (CHR '';'' # s) = session_values s"
    by (simp add: session_values_def)
  ultimately show ?case using Cons.IH by auto
qed simp

lemma session_values_first:
  assumes "\<And>c s. cursor = c # s \<Longrightarrow> \<not> is_space c \<and> c \<noteq> CHR '';''"
  shows "session_values cursor =
    (let segment = trimmed (takeWhile (\<lambda>c. c \<noteq> CHR '';'') cursor);
         rest = dropWhile (\<lambda>c. c \<noteq> CHR '';'') cursor
     in (if starts_with cookie_prefix segment then [drop (length cookie_prefix) segment] else []) @
        (if rest = [] then [] else session_values (tl rest)))"
proof -
  have skip: "dropWhile is_space (takeWhile (\<lambda>c. c \<noteq> CHR '';'') cursor) = takeWhile (\<lambda>c. c \<noteq> CHR '';'') cursor"
    using assms by (cases cursor) auto
  define rest where "rest = dropWhile (\<lambda>c. c \<noteq> CHR '';'') cursor"
  show ?thesis
    unfolding session_values_def split_at_first [of _ cursor] rest_def [symmetric] Let_def
    by (cases rest) (simp_all add: skip)
qed

text \<open>The loop finds the values, and stops at a second one.\<close>

lemma cookie_loop_values:
  "cookie_loop cursor found = (case (case found of None \<Rightarrow> [] | Some v \<Rightarrow> [v]) @ session_values cursor of
      [] \<Rightarrow> Some None | [v] \<Rightarrow> Some (Some v) | _ \<Rightarrow> None)"
proof (induction cursor found rule: cookie_loop.induct)
  case (1 cursor found)
  show ?case
  proof (cases "cursor = []")
    case True
    then show ?thesis by (cases found) (simp_all add: session_values_def cookie_loop.simps [of "[]"])
  next
    case False
    define cursor1 where "cursor1 = dropWhile (\<lambda>c. is_space c \<or> c = CHR '';'') cursor"
    define segment where "segment = trimmed (takeWhile (\<lambda>c. c \<noteq> CHR '';'') cursor1)"
    define rest where "rest = dropWhile (\<lambda>c. c \<noteq> CHR '';'') cursor1"
    have start: "\<not> is_space c \<and> c \<noteq> CHR '';''" if "cursor1 = c # s" for c s
      using that unfolding cursor1_def by (auto simp: dropWhile_eq_Cons_conv)
    have vals: "session_values cursor =
        (if starts_with cookie_prefix segment then [drop (length cookie_prefix) segment] else []) @
        (if rest = [] then [] else session_values (tl rest))"
      using session_values_skip [of cursor, folded cursor1_def] session_values_first [of cursor1, OF start]
      unfolding segment_def rest_def Let_def by (rule trans [OF sym])
    define next_found where "next_found = (if starts_with cookie_prefix segment
      then Some (drop (length cookie_prefix) segment) else found)"
    have IH: "cookie_loop (tl rest) next_found =
        (case (case next_found of None \<Rightarrow> [] | Some v \<Rightarrow> [v]) @ session_values (tl rest) of
          [] \<Rightarrow> Some None | [v] \<Rightarrow> Some (Some v) | _ \<Rightarrow> None)"
      if "\<not> (starts_with cookie_prefix segment \<and> found \<noteq> None)" "rest \<noteq> []"
      by (rule 1 [OF False cursor1_def segment_def rest_def that(1) next_found_def that(2)])
    have loop: "cookie_loop cursor found =
        (if starts_with cookie_prefix segment \<and> found \<noteq> None then None
         else if rest = [] then Some next_found else cookie_loop (tl rest) next_found)"
      using False by (cases found; subst cookie_loop.simps)
        (simp_all add: cursor1_def segment_def rest_def next_found_def Let_def del: dropWhile_eq_Nil_conv)
    show ?thesis
      unfolding loop vals
      using IH by (cases found; cases "rest = []"; cases "starts_with cookie_prefix segment")
        (simp_all add: next_found_def)
  qed
qed

lemma extract_session_values:
  "web_cookie_extract_session (Some cookie) token_size =
    (if token_size < AUTH_TOKEN_HEX_BYTES then (APP_ERROR_INVALID_ARGUMENT, [])
     else case session_values cookie of
         [token] \<Rightarrow> if valid_token token then (APP_ERROR_NONE, token) else (APP_ERROR_AUTH_REQUIRED, [])
       | _ \<Rightarrow> (APP_ERROR_AUTH_REQUIRED, []))"
  by (auto simp: web_cookie_extract_session_def cookie_loop_values valid_token_def AUTH_TOKEN_HEX_BYTES_def
      APP_SESSION_TOKEN_BYTES_def split: list.splits)

section \<open>The cookie comes back\<close>

text \<open>The name and value a browser stores from a \<open>Set-Cookie\<close> header, and the header it sends.\<close>

definition stored_pair :: "string \<Rightarrow> string" where
  "stored_pair header = takeWhile (\<lambda>c. c \<noteq> CHR '';'') header"

fun cookie_header :: "string list \<Rightarrow> string" where
  "cookie_header [] = []"
| "cookie_header [p] = p"
| "cookie_header (p # q # ps) = p @ '';'' @ '' '' @ cookie_header (q # ps)"

text \<open>A pair of another cookie: no semicolon, no blanks around it, not the name of the session.\<close>

definition other_pair :: "string \<Rightarrow> bool" where
  "other_pair p \<longleftrightarrow> p \<noteq> [] \<and> CHR '';'' \<notin> set p \<and> \<not> is_space (hd p) \<and> \<not> is_space (last p) \<and>
     \<not> starts_with cookie_prefix p"

lemma valid_token_chars:
  assumes "valid_token t" and "c \<in> set t" shows "c \<noteq> CHR '';''" and "\<not> is_space c"
  using assms by (auto simp: valid_token_def is_space_def list_all_iff)

lemma trimmed_plain:
  assumes "p \<noteq> []" and "\<not> is_space (hd p)" and "\<not> is_space (last p)"
  shows "trimmed (dropWhile is_space p) = p"
proof -
  have "dropWhile is_space p = p" using assms(1,2) by (cases p) auto
  moreover have "dropWhile is_space (rev p) = rev p"
    using assms(1,3) by (cases "rev p") (auto simp: last_rev [symmetric, of "rev p"] hd_rev [symmetric])
  ultimately show ?thesis by (simp add: trimmed_def)
qed

definition pair_value :: "string \<Rightarrow> string list" where
  "pair_value p = (if starts_with cookie_prefix p then [drop (length cookie_prefix) p] else [])"

definition plain_pair :: "string \<Rightarrow> bool" where
  "plain_pair p \<longleftrightarrow> p \<noteq> [] \<and> CHR '';'' \<notin> set p \<and> \<not> is_space (hd p) \<and> \<not> is_space (last p)"

lemma session_values_plain:
  assumes "plain_pair p"
  shows "session_values p = pair_value p" and "session_values (CHR '' '' # p) = pair_value p"
    and "session_values (p @ CHR '';'' # s) = pair_value p @ session_values s"
  using assms trimmed_plain [of p]
  by (simp_all add: session_values_def plain_pair_def pair_value_def split_at_single split_at_append is_space_def)

lemma session_values_blank: "session_values (CHR '' '' # s) = session_values s"
  by (cases "split_at CHR '';'' s") (simp_all add: session_values_def is_space_def)

lemma session_values_header:
  "list_all plain_pair ps \<Longrightarrow> session_values (cookie_header ps) = concat (map pair_value ps)"
  by (induction ps rule: cookie_header.induct)
    (simp_all add: session_values_plain session_values_blank session_values_def [of "[]"])

text \<open>
  The session cookie round trip.  The header that a login sets makes a browser send back a
  pair from which the same token is extracted, whatever other cookies it sends along.
\<close>

theorem session_cookie_round_trip:
  assumes "web_cookie_build_session_header (Some token) header_size = (APP_ERROR_NONE, header)"
    and "list_all other_pair before" and "list_all other_pair after"
    and "AUTH_TOKEN_HEX_BYTES \<le> token_size"
  shows "web_cookie_extract_session (Some (cookie_header (before @ [stored_pair header] @ after))) token_size
    = (APP_ERROR_NONE, token)"
proof -
  have t: "valid_token token" and h: "header = cookie_prefix @ token @ ''; HttpOnly; SameSite=Strict; Path=/''"
    using assms(1) by (auto simp: web_cookie_build_session_header_def cookie_prefix_def fitted_def split: if_splits)
  have tne: "token \<noteq> []" using t by (auto simp: valid_token_def AUTH_TOKEN_HEX_BYTES_def APP_SESSION_TOKEN_BYTES_def)
  have "\<forall>c \<in> set (cookie_prefix @ token). c \<noteq> CHR '';''"
    using valid_token_chars(1) [OF t] by (auto simp: cookie_prefix_def)
  then have p: "stored_pair header = cookie_prefix @ token"
    by (simp add: stored_pair_def h takeWhile_append)
  have "plain_pair (cookie_prefix @ token)"
    using valid_token_chars [OF t] tne by (auto simp: plain_pair_def cookie_prefix_def is_space_def)
  moreover have "pair_value (cookie_prefix @ token) = [token]"
    by (simp add: pair_value_def starts_with_def)
  moreover have others: "list_all plain_pair ps" "concat (map pair_value ps) = []" if "list_all other_pair ps" for ps
    using that by (induction ps) (simp_all add: other_pair_def plain_pair_def pair_value_def)
  ultimately have "session_values (cookie_header (before @ [stored_pair header] @ after)) = [token]"
    using others [OF assms(2)] others [OF assms(3)] by (subst session_values_header) (simp_all add: p del: concat_eq_Nil_conv)
  then show ?thesis using assms(4) t by (simp add: extract_session_values)
qed

definition sample_token :: string where
  "sample_token = replicate 64 CHR ''a''"

theorem session_cookie_round_trip_witness:
  "web_cookie_extract_session (Some (cookie_header ([''theme=dark''] @
     [stored_pair (''MKSESSION='' @ sample_token @ ''; HttpOnly; SameSite=Strict; Path=/'')] @ []))) 65
   = (APP_ERROR_NONE, sample_token)"
  by (rule session_cookie_round_trip [where header_size = 160])
    (simp_all add: web_cookie_build_session_header_def valid_token_def sample_token_def fitted_def other_pair_def
      is_space_def starts_with_def cookie_prefix_def AUTH_TOKEN_HEX_BYTES_def APP_SESSION_TOKEN_BYTES_def list_all_length)

end
