(* ===== verification/Web_Api.thy ===== *)
theory Web_Api
  imports Web_Cookie Storage_Names
begin

text \<open>
  The request vocabulary of the API (\<open>web_server/web_api_core.c\<close>): routes and their rules, media
  types, request identifiers, blob identifiers in paths, and the HTTP status of an error.
\<close>

section \<open>Routes\<close>

definition WEB_API_REQUEST_ID_MAX_BYTES :: nat where
  [limit_defs]: "WEB_API_REQUEST_ID_MAX_BYTES = 64"

definition WEB_API_BLOB_ID_DIGITS :: nat where
  [limit_defs]: "WEB_API_BLOB_ID_DIGITS = 20"

datatype web_api_method = WEB_API_METHOD_GET | WEB_API_METHOD_POST | WEB_API_METHOD_PUT | WEB_API_METHOD_DELETE

datatype web_api_route =
    WEB_API_ROUTE_UNKNOWN
  | WEB_API_ROUTE_AUTH_SESSION
  | WEB_API_ROUTE_AUTH_LOGIN
  | WEB_API_ROUTE_AUTH_LOGOUT
  | WEB_API_ROUTE_STATUS
  | WEB_API_ROUTE_LIMITS
  | WEB_API_ROUTE_BLOB_COLLECTION
  | WEB_API_ROUTE_BLOB_ITEM
  | WEB_API_ROUTE_SEND
  | WEB_API_ROUTE_SETTINGS
  | WEB_API_ROUTE_SETTINGS_CHANGE_PASSWORD
  | WEB_API_ROUTE_DEVICE_RESTART
  | WEB_API_ROUTE_DEVICE_RESET_SETTINGS
  | WEB_API_ROUTE_DEVICE_FACTORY_RESET
  | WEB_API_ROUTE_DIAGNOSTICS_FULL
  | WEB_API_ROUTE_SETUP

section \<open>Media types and identifiers\<close>

definition isspace :: "char \<Rightarrow> bool" where
  "isspace c \<longleftrightarrow> byte c = 32 \<or> (9 \<le> byte c \<and> byte c \<le> 13)"

definition isalnum :: "char \<Rightarrow> bool" where
  "isalnum c \<longleftrightarrow> (48 \<le> byte c \<and> byte c \<le> 57) \<or> (65 \<le> byte c \<and> byte c \<le> 90) \<or> (97 \<le> byte c \<and> byte c \<le> 122)"

definition token_equals_ci :: "string \<Rightarrow> string \<Rightarrow> bool" where
  "token_equals_ci start expected \<longleftrightarrow>
     length expected = length start \<and> map ascii_lower start = map ascii_lower expected"

definition right_trim :: "string \<Rightarrow> string" where
  "right_trim s = rev (dropWhile isspace (rev s))"

definition web_api_content_type_is_json :: "string option \<Rightarrow> bool" where
  "web_api_content_type_is_json content_type =
     (case content_type of
        None \<Rightarrow> False
      | Some text \<Rightarrow>
          let text = dropWhile isspace text;
              media = takeWhile (\<lambda>c. c \<noteq> CHR '';'') text;
              separator = dropWhile (\<lambda>c. c \<noteq> CHR '';'') text
          in if \<not> token_equals_ci (right_trim media) ''application/json'' then False
             else if separator = [] then True
             else token_equals_ci (dropWhile isspace (tl separator)) ''charset=utf-8'')"

definition web_api_content_type_is_gzip :: "string option \<Rightarrow> bool" where
  "web_api_content_type_is_gzip content_type =
     (case content_type of
        None \<Rightarrow> False
      | Some text \<Rightarrow>
          let text = dropWhile isspace text
          in if CHR '';'' \<in> set text then False else token_equals_ci (right_trim text) ''application/gzip'')"

definition web_api_request_id_is_valid :: "string option \<Rightarrow> bool" where
  "web_api_request_id_is_valid request_id =
     (case request_id of
        None \<Rightarrow> False
      | Some text \<Rightarrow> length text \<noteq> 0 \<and> length text \<le> WEB_API_REQUEST_ID_MAX_BYTES \<and>
          list_all (\<lambda>c. isalnum c \<or> c = CHR ''-'' \<or> c = CHR ''_'' \<or> c = CHR ''.'' \<or> c = CHR '':'') text)"

section \<open>Paths\<close>

definition WEB_API_BLOB_ITEM_PREFIX :: string where
  "WEB_API_BLOB_ITEM_PREFIX = ''/api/v1/blob/''"

definition suspicious :: "string \<Rightarrow> bool" where
  "suspicious uri \<longleftrightarrow> CHR ''?'' \<in> set uri \<or> CHR ''#'' \<in> set uri \<or> CHR 0x25 \<in> set uri \<or>
     occurs ''//'' uri \<or> occurs ''..'' uri"

text \<open>The digit loop is that of the repository's file names.\<close>

definition web_api_parse_blob_id :: "string option \<Rightarrow> app_error \<times> u64" where
  "web_api_parse_blob_id uri =
     (case uri of
        None \<Rightarrow> (APP_ERROR_INVALID_ARGUMENT, 0)
      | Some uri \<Rightarrow>
          if \<not> starts_with WEB_API_BLOB_ITEM_PREFIX uri \<or> suspicious uri then (APP_ERROR_INVALID_ARGUMENT, 0)
          else let digits = drop (length WEB_API_BLOB_ITEM_PREFIX) uri
            in if length digits = 0 \<or> WEB_API_BLOB_ID_DIGITS < length digits \<or> digits ! 0 = CHR ''0''
               then (APP_ERROR_INVALID_ARGUMENT, 0)
               else (case blob_id_digits digits 0 of
                   None \<Rightarrow> (APP_ERROR_INVALID_ARGUMENT, 0)
                 | Some blob_id \<Rightarrow> (APP_ERROR_NONE, blob_id)))"

definition routes :: "(string \<times> web_api_route) list" where
  "routes =
     [(''/api/v1/auth/session'', WEB_API_ROUTE_AUTH_SESSION),
      (''/api/v1/auth/login'', WEB_API_ROUTE_AUTH_LOGIN),
      (''/api/v1/auth/logout'', WEB_API_ROUTE_AUTH_LOGOUT),
      (''/api/v1/status'', WEB_API_ROUTE_STATUS),
      (''/api/v1/limits'', WEB_API_ROUTE_LIMITS),
      (''/api/v1/blob'', WEB_API_ROUTE_BLOB_COLLECTION),
      (''/api/v1/send'', WEB_API_ROUTE_SEND),
      (''/api/v1/settings'', WEB_API_ROUTE_SETTINGS),
      (''/api/v1/settings/change-password'', WEB_API_ROUTE_SETTINGS_CHANGE_PASSWORD),
      (''/api/v1/device/restart'', WEB_API_ROUTE_DEVICE_RESTART),
      (''/api/v1/device/reset-settings'', WEB_API_ROUTE_DEVICE_RESET_SETTINGS),
      (''/api/v1/device/factory-reset'', WEB_API_ROUTE_DEVICE_FACTORY_RESET),
      (''/api/v1/diagnostics'', WEB_API_ROUTE_DIAGNOSTICS_FULL),
      (''/api/v1/setup'', WEB_API_ROUTE_SETUP)]"

definition web_api_parse_path :: "string option \<Rightarrow> app_error \<times> web_api_route" where
  "web_api_parse_path uri =
     (case uri of
        None \<Rightarrow> (APP_ERROR_INVALID_ARGUMENT, WEB_API_ROUTE_UNKNOWN)
      | Some text \<Rightarrow>
          if \<not> starts_with ''/'' text \<or> suspicious text then (APP_ERROR_INVALID_ARGUMENT, WEB_API_ROUTE_UNKNOWN)
          else (case map_of routes text of
              Some route \<Rightarrow> (APP_ERROR_NONE, route)
            | None \<Rightarrow>
                if starts_with WEB_API_BLOB_ITEM_PREFIX text
                then (case web_api_parse_blob_id uri of (result, blob_id) \<Rightarrow>
                    if result \<noteq> APP_ERROR_NONE then (result, WEB_API_ROUTE_UNKNOWN)
                    else (APP_ERROR_NONE, WEB_API_ROUTE_BLOB_ITEM))
                else (APP_ERROR_NOT_FOUND, WEB_API_ROUTE_UNKNOWN)))"

section \<open>Rules of the routes\<close>

fun web_api_route_allows_method :: "web_api_route \<Rightarrow> web_api_method \<Rightarrow> bool" where
  "web_api_route_allows_method WEB_API_ROUTE_AUTH_SESSION m = (m = WEB_API_METHOD_GET)"
| "web_api_route_allows_method WEB_API_ROUTE_DIAGNOSTICS_FULL m = (m = WEB_API_METHOD_GET)"
| "web_api_route_allows_method WEB_API_ROUTE_STATUS m = (m = WEB_API_METHOD_GET)"
| "web_api_route_allows_method WEB_API_ROUTE_LIMITS m = (m = WEB_API_METHOD_GET)"
| "web_api_route_allows_method WEB_API_ROUTE_AUTH_LOGIN m = (m = WEB_API_METHOD_POST)"
| "web_api_route_allows_method WEB_API_ROUTE_AUTH_LOGOUT m = (m = WEB_API_METHOD_POST)"
| "web_api_route_allows_method WEB_API_ROUTE_BLOB_COLLECTION m = (m = WEB_API_METHOD_GET \<or> m = WEB_API_METHOD_POST)"
| "web_api_route_allows_method WEB_API_ROUTE_BLOB_ITEM m = (m = WEB_API_METHOD_GET \<or> m = WEB_API_METHOD_DELETE)"
| "web_api_route_allows_method WEB_API_ROUTE_SEND m =
     (m = WEB_API_METHOD_GET \<or> m = WEB_API_METHOD_POST \<or> m = WEB_API_METHOD_DELETE)"
| "web_api_route_allows_method WEB_API_ROUTE_SETTINGS m = (m = WEB_API_METHOD_GET \<or> m = WEB_API_METHOD_PUT)"
| "web_api_route_allows_method WEB_API_ROUTE_SETTINGS_CHANGE_PASSWORD m = (m = WEB_API_METHOD_POST)"
| "web_api_route_allows_method WEB_API_ROUTE_DEVICE_RESTART m = (m = WEB_API_METHOD_POST)"
| "web_api_route_allows_method WEB_API_ROUTE_DEVICE_RESET_SETTINGS m = (m = WEB_API_METHOD_POST)"
| "web_api_route_allows_method WEB_API_ROUTE_DEVICE_FACTORY_RESET m = (m = WEB_API_METHOD_POST)"
| "web_api_route_allows_method WEB_API_ROUTE_SETUP m = (m = WEB_API_METHOD_GET \<or> m = WEB_API_METHOD_POST)"
| "web_api_route_allows_method WEB_API_ROUTE_UNKNOWN m = False"

definition web_api_route_requires_body :: "web_api_route \<Rightarrow> web_api_method \<Rightarrow> bool" where
  "web_api_route_requires_body route m =
     (if m = WEB_API_METHOD_GET \<or> route = WEB_API_ROUTE_DEVICE_RESTART then False
      else if route = WEB_API_ROUTE_SEND then m = WEB_API_METHOD_POST
      else route \<in> {WEB_API_ROUTE_BLOB_COLLECTION, WEB_API_ROUTE_SETTINGS,
        WEB_API_ROUTE_SETTINGS_CHANGE_PASSWORD, WEB_API_ROUTE_DEVICE_RESET_SETTINGS,
        WEB_API_ROUTE_DEVICE_FACTORY_RESET, WEB_API_ROUTE_SETUP, WEB_API_ROUTE_AUTH_LOGIN})"

definition web_api_route_requires_session :: "web_api_route \<Rightarrow> bool" where
  "web_api_route_requires_session route \<longleftrightarrow> route \<noteq> WEB_API_ROUTE_UNKNOWN \<and>
     route \<noteq> WEB_API_ROUTE_SETUP \<and> route \<noteq> WEB_API_ROUTE_AUTH_LOGIN"

definition web_api_physical_confirmation_required :: "web_api_route \<Rightarrow> bool \<Rightarrow> bool" where
  "web_api_physical_confirmation_required route confirmation_enabled =
     (if \<not> confirmation_enabled then False
      else route \<in> {WEB_API_ROUTE_SETTINGS_CHANGE_PASSWORD, WEB_API_ROUTE_DEVICE_RESTART,
        WEB_API_ROUTE_DEVICE_RESET_SETTINGS, WEB_API_ROUTE_DEVICE_FACTORY_RESET})"

definition web_api_route_requires_physical_confirmation :: "web_api_route \<Rightarrow> bool" where
  "web_api_route_requires_physical_confirmation route = web_api_physical_confirmation_required route True"

fun web_api_http_status_for_error :: "app_error \<Rightarrow> nat" where
  "web_api_http_status_for_error APP_ERROR_NONE = 200"
| "web_api_http_status_for_error APP_ERROR_INVALID_ARGUMENT = 422"
| "web_api_http_status_for_error APP_ERROR_MACRO_SYNTAX = 422"
| "web_api_http_status_for_error APP_ERROR_MACRO_LIMIT = 422"
| "web_api_http_status_for_error APP_ERROR_NOT_FOUND = 404"
| "web_api_http_status_for_error APP_ERROR_CONFLICT = 409"
| "web_api_http_status_for_error APP_ERROR_AUTH_STATE_INCOMPLETE = 409"
| "web_api_http_status_for_error APP_ERROR_RESET_SETTINGS_INCOMPLETE = 409"
| "web_api_http_status_for_error APP_ERROR_EXECUTOR_BUSY = 409"
| "web_api_http_status_for_error APP_ERROR_EXECUTION_CANCELLED = 409"
| "web_api_http_status_for_error APP_ERROR_STORAGE_FULL = 507"
| "web_api_http_status_for_error APP_ERROR_STORAGE_UNAVAILABLE = 503"
| "web_api_http_status_for_error APP_ERROR_STORAGE_CORRUPT = 503"
| "web_api_http_status_for_error APP_ERROR_USB_NOT_READY = 503"
| "web_api_http_status_for_error APP_ERROR_TIMEOUT = 503"
| "web_api_http_status_for_error APP_ERROR_RESET_RECOVERY_REQUIRED = 503"
| "web_api_http_status_for_error APP_ERROR_COMMIT_UNCERTAIN = 503"
| "web_api_http_status_for_error APP_ERROR_AUTH_REQUIRED = 401"
| "web_api_http_status_for_error APP_ERROR_AUTH_FAILED = 401"
| "web_api_http_status_for_error APP_ERROR_RATE_LIMITED = 429"
| "web_api_http_status_for_error APP_ERROR_IO = 500"
| "web_api_http_status_for_error APP_ERROR_INTERNAL = 500"

lemma error_status: "e \<noteq> APP_ERROR_NONE \<Longrightarrow> 400 \<le> web_api_http_status_for_error e \<and> web_api_http_status_for_error e \<le> 599"
  by (cases e) simp_all

section \<open>Blob paths\<close>

lemma digits_not_suspicious:
  assumes "list_all is_digit ds" shows "\<not> suspicious (WEB_API_BLOB_ITEM_PREFIX @ ds)"
proof -
  have c: "c \<noteq> CHR ''?'' \<and> c \<noteq> CHR ''#'' \<and> c \<noteq> CHR 0x25 \<and> c \<noteq> CHR ''/'' \<and> c \<noteq> CHR ''.''" if "is_digit c" for c
    using that by (auto simp: is_digit_def)
  have no: "\<not> occurs (d # p) ds" if "\<not> is_digit d" for d p
    using assms that by (induction ds) (auto simp: starts_with_def)
  have nd: "\<not> is_digit (CHR ''/'')" "\<not> is_digit (CHR ''.'')" by (simp_all add: is_digit_def)
  show ?thesis
    using assms c no [OF nd(1)] no [OF nd(2)]
    by (cases ds) (auto simp: suspicious_def WEB_API_BLOB_ITEM_PREFIX_def starts_with_def list_all_iff)
qed

lemma decimal_first: "0 < n \<Longrightarrow> decimal n ! 0 \<noteq> CHR ''0''"
proof (induction n rule: decimal.induct)
  case (1 n)
  show ?case
  proof (cases "n < 10")
    case True
    have "digit_char n \<noteq> CHR ''0''"
    proof
      assume "digit_char n = CHR ''0''"
      then show False using digit_char_value [OF True] 1(2) by simp
    qed
    then show ?thesis using True by (simp add: decimal.simps)
  next
    case False
    then have "decimal (n div 10) ! 0 \<noteq> CHR ''0''" using 1 by simp
    moreover have "decimal (n div 10) \<noteq> []" by (subst decimal.simps) simp
    ultimately show ?thesis using False by (subst decimal.simps) (simp add: nth_append)
  qed
qed

lemma decimal_read:
  "list_all is_digit ds \<Longrightarrow> ds \<noteq> [] \<Longrightarrow> ds ! 0 \<noteq> CHR ''0'' \<Longrightarrow> decimal (read_decimal 0 ds) = ds"
proof (induction ds rule: rev_induct)
  case (snoc d ds)
  have d: "is_digit d" "digit_value d < 10" using snoc.prems(1) digit_value_less by auto
  show ?case
  proof (cases ds)
    case Nil
    then show ?thesis using d by (simp add: decimal.simps)
  next
    case (Cons c cs)
    then have IH: "decimal (read_decimal 0 ds) = ds" using snoc by simp
    have "is_digit c" "c \<noteq> CHR ''0''" using snoc.prems(1,3) Cons by simp_all
    then have "digit_value c \<noteq> 0"
      using digit_value_inject [of c "CHR ''0''"] by (auto simp: is_digit_def)
    then have "1 \<le> digit_value c" by simp
    then have "1 \<le> read_decimal 0 ds"
      using read_decimal_grows [of "digit_value c" cs] Cons by simp
    then have "\<not> read_decimal 0 (ds @ [d]) < 10" by simp
    moreover have "read_decimal 0 (ds @ [d]) div 10 = read_decimal 0 ds"
      "read_decimal 0 (ds @ [d]) mod 10 = digit_value d"
      using d by simp_all
    ultimately show ?thesis using IH d by (subst decimal.simps) simp
  qed
qed simp

lemma u64_decimal_length: "length (decimal (unat (v :: u64))) \<le> 20"
proof -
  have "unat v < 2 ^ 64" using unsigned_less [of v] by simp
  then have "unat v < 10 ^ Suc 19" by simp
  from decimal_length [OF this] show ?thesis by simp
qed

text \<open>
  Blob paths and blob identifiers correspond one to one: the path of an identifier is
  parsed back to it, and a path is accepted only when it is the prefix followed by the decimal
  of a 64-bit identifier, without leading zeros, other characters or an overflow.
\<close>

theorem blob_path_round_trip:
  "web_api_parse_blob_id (Some uri) = (APP_ERROR_NONE, v) \<longleftrightarrow>
    v \<noteq> 0 \<and> uri = WEB_API_BLOB_ITEM_PREFIX @ decimal (unat v)"
proof
  assume a: "web_api_parse_blob_id (Some uri) = (APP_ERROR_NONE, v)"
  define ds where "ds = drop (length WEB_API_BLOB_ITEM_PREFIX) uri"
  have h: "starts_with WEB_API_BLOB_ITEM_PREFIX uri" "ds \<noteq> []" "ds ! 0 \<noteq> CHR ''0''"
    and b: "blob_id_digits ds 0 = Some v"
    using a by (auto simp: web_api_parse_blob_id_def ds_def Let_def split: if_splits option.splits)
  have u: "uri = WEB_API_BLOB_ITEM_PREFIX @ ds"
    using h(1) by (auto simp: starts_with_iff ds_def)
  have d: "list_all is_digit ds" "read_decimal 0 ds < 2 ^ 64" "v = of_nat (read_decimal 0 ds)"
    using b by (auto simp: blob_id_digits_spec split: if_splits)
  have v: "unat v = read_decimal 0 ds" using d(2,3) by (simp add: unat_of_nat)
  have "ds ! 0 \<in> set ds" using h(2) by simp
  then have "decimal (unat v) = ds" using decimal_read [OF d(1) h(2,3)] v by simp
  moreover have "v \<noteq> 0"
  proof
    assume "v = 0"
    then have "ds = ''0''" using calculation digit_char_of_value [of "CHR ''0''"]
      by (simp add: decimal.simps is_digit_def)
    then show False using h(3) by simp
  qed
  ultimately show "v \<noteq> 0 \<and> uri = WEB_API_BLOB_ITEM_PREFIX @ decimal (unat v)" using u by simp
next
  assume a: "v \<noteq> 0 \<and> uri = WEB_API_BLOB_ITEM_PREFIX @ decimal (unat v)"
  then have "0 < unat v" by (simp add: unat_gt_0)
  moreover have "decimal (unat v) \<noteq> []" by (subst decimal.simps) simp
  moreover have "unat v < 2 ^ 64" using unsigned_less [of v] by simp
  ultimately show "web_api_parse_blob_id (Some uri) = (APP_ERROR_NONE, v)"
    using a decimal_digits [of "unat v"] decimal_first [of "unat v"] u64_decimal_length [of v]
      digits_not_suspicious [of "decimal (unat v)"]
    by (simp add: web_api_parse_blob_id_def starts_with_def WEB_API_BLOB_ID_DIGITS_def blob_id_digits_spec Let_def)
qed

end
