(* ===== verification/Web_Policy.thy ===== *)
theory Web_Policy
  imports Web_Api
begin

text \<open>
  The request policy (\<open>web_server/web_request_policy.c\<close>): body limit and media type, session,
  request identifier and physical confirmation, in this order.  The operations behind it work on
  a state \<open>'w\<close>.
\<close>

section \<open>Data\<close>

datatype policy_failure =
    WEB_REQUEST_POLICY_FAILURE_NONE
  | WEB_REQUEST_POLICY_FAILURE_CONTENT_TYPE
  | WEB_REQUEST_POLICY_FAILURE_BODY_LIMIT
  | WEB_REQUEST_POLICY_FAILURE_COOKIE
  | WEB_REQUEST_POLICY_FAILURE_SESSION
  | WEB_REQUEST_POLICY_FAILURE_REQUEST_ID
  | WEB_REQUEST_POLICY_FAILURE_PHYSICAL_CONFIRMATION

text \<open>A header is read into a buffer of the given size; \<open>confirm\<close> may be missing.\<close>

record 'w policy_ops =
  po_get_header :: "string \<Rightarrow> nat \<Rightarrow> 'w \<Rightarrow> app_error \<times> string \<times> 'w"
  po_validate_session :: "string \<Rightarrow> 'w \<Rightarrow> app_error \<times> 'w"
  po_generate_request_id :: "nat \<Rightarrow> 'w \<Rightarrow> app_error \<times> string \<times> 'w"
  po_confirm :: "('w \<Rightarrow> app_error \<times> 'w) option"

record policy_input =
  pi_route :: web_api_route
  pi_method :: web_api_method
  pi_content_length :: nat
  pi_body_limit :: nat

record policy_result =
  po_session_token :: string
  po_request_id :: string

definition WEB_POLICY_HEADER_BYTES :: nat where
  [limit_defs]: "WEB_POLICY_HEADER_BYTES = 256"

definition cleared_result :: policy_result where
  "cleared_result = \<lparr>po_session_token = [], po_request_id = []\<rparr>"

type_synonym 'w policy_outcome = "app_error \<times> policy_result \<times> policy_failure \<times> 'w"

definition policy_fail :: "policy_failure \<Rightarrow> app_error \<Rightarrow> 'w \<Rightarrow> 'w policy_outcome" where
  "policy_fail failure error w = (error, cleared_result, failure, w)"

definition policy_pass :: "policy_result \<Rightarrow> 'w \<Rightarrow> 'w policy_outcome" where
  "policy_pass result w = (APP_ERROR_NONE, result, WEB_REQUEST_POLICY_FAILURE_NONE, w)"

section \<open>The steps\<close>

definition read_required_header :: "'w policy_ops \<Rightarrow> string \<Rightarrow> nat \<Rightarrow> 'w \<Rightarrow> app_error \<times> string \<times> 'w" where
  "read_required_header ops name buffer_size w =
     (case po_get_header ops name buffer_size w of (result, buffer, w) \<Rightarrow>
        (if result = APP_ERROR_NONE \<and> buffer \<noteq> [] then APP_ERROR_NONE else APP_ERROR_AUTH_REQUIRED, buffer, w))"

definition establish_request_id :: "'w policy_ops \<Rightarrow> policy_result \<Rightarrow> 'w \<Rightarrow> 'w policy_outcome" where
  "establish_request_id ops out w =
     (case po_get_header ops ''X-Request-ID'' (WEB_API_REQUEST_ID_MAX_BYTES + 1) w of (header_result, supplied, w) \<Rightarrow>
        if header_result = APP_ERROR_NONE
        then if \<not> web_api_request_id_is_valid (Some supplied)
             then policy_fail WEB_REQUEST_POLICY_FAILURE_REQUEST_ID APP_ERROR_INVALID_ARGUMENT w
             else policy_pass (out\<lparr>po_request_id := supplied\<rparr>) w
        else if header_result \<noteq> APP_ERROR_AUTH_REQUIRED
        then policy_fail WEB_REQUEST_POLICY_FAILURE_REQUEST_ID header_result w
        else (case po_generate_request_id ops (WEB_API_REQUEST_ID_MAX_BYTES + 1) w of
            (generate_result, request_id, w) \<Rightarrow>
              if generate_result \<noteq> APP_ERROR_NONE \<or> \<not> web_api_request_id_is_valid (Some request_id)
              then policy_fail WEB_REQUEST_POLICY_FAILURE_REQUEST_ID
                (if generate_result = APP_ERROR_NONE then APP_ERROR_INTERNAL else generate_result) w
              else policy_pass (out\<lparr>po_request_id := request_id\<rparr>) w))"

definition content_type_valid_for_route :: "policy_input \<Rightarrow> string \<Rightarrow> bool" where
  "content_type_valid_for_route inp content_type =
     (if pi_route inp = WEB_API_ROUTE_BLOB_COLLECTION \<and> pi_method inp = WEB_API_METHOD_POST
      then web_api_content_type_is_gzip (Some content_type)
      else web_api_content_type_is_json (Some content_type))"

definition enforce_body_content_type ::
    "policy_input \<Rightarrow> 'w policy_ops \<Rightarrow> policy_result \<Rightarrow> 'w \<Rightarrow> 'w policy_outcome" where
  "enforce_body_content_type inp ops out w =
     (if pi_body_limit inp < pi_content_length inp
      then policy_fail WEB_REQUEST_POLICY_FAILURE_BODY_LIMIT APP_ERROR_INVALID_ARGUMENT w
      else if web_api_route_requires_body (pi_route inp) (pi_method inp) \<or> 0 < pi_content_length inp
      then (case po_get_header ops ''Content-Type'' WEB_POLICY_HEADER_BYTES w of (result, content_type, w) \<Rightarrow>
          if result \<noteq> APP_ERROR_NONE \<or> \<not> content_type_valid_for_route inp content_type
          then policy_fail WEB_REQUEST_POLICY_FAILURE_CONTENT_TYPE APP_ERROR_INVALID_ARGUMENT w
          else policy_pass out w)
      else policy_pass out w)"

definition enforce_session :: "policy_input \<Rightarrow> 'w policy_ops \<Rightarrow> policy_result \<Rightarrow> 'w \<Rightarrow> 'w policy_outcome" where
  "enforce_session inp ops out w =
     (if \<not> web_api_route_requires_session (pi_route inp) then policy_pass out w
      else (case read_required_header ops ''Cookie'' WEB_POLICY_HEADER_BYTES w of (header_result, cookie, w) \<Rightarrow>
          case (if header_result = APP_ERROR_NONE
                then web_cookie_extract_session (Some cookie) AUTH_TOKEN_HEX_BYTES else (header_result, [])) of
            (cookie_result, token) \<Rightarrow>
              if cookie_result \<noteq> APP_ERROR_NONE
              then policy_fail WEB_REQUEST_POLICY_FAILURE_COOKIE APP_ERROR_AUTH_REQUIRED w
              else (case po_validate_session ops token w of (validation, w) \<Rightarrow>
                  if validation \<noteq> APP_ERROR_NONE
                  then policy_fail WEB_REQUEST_POLICY_FAILURE_SESSION validation w
                  else policy_pass (out\<lparr>po_session_token := token\<rparr>) w)))"

definition enforce_physical_confirmation ::
    "policy_input \<Rightarrow> 'w policy_ops \<Rightarrow> policy_result \<Rightarrow> 'w \<Rightarrow> 'w policy_outcome" where
  "enforce_physical_confirmation inp ops out w =
     (if \<not> web_api_route_requires_physical_confirmation (pi_route inp) then policy_pass out w
      else (case po_confirm ops of
          None \<Rightarrow> policy_fail WEB_REQUEST_POLICY_FAILURE_PHYSICAL_CONFIRMATION APP_ERROR_INTERNAL w
        | Some confirm \<Rightarrow>
            (case confirm w of (result, w) \<Rightarrow>
               if result \<noteq> APP_ERROR_NONE
               then policy_fail WEB_REQUEST_POLICY_FAILURE_PHYSICAL_CONFIRMATION result w
               else policy_pass out w)))"

text \<open>A step runs after the steps before it passed.\<close>

definition after_pass :: "(policy_result \<Rightarrow> 'w \<Rightarrow> 'w policy_outcome) \<Rightarrow> 'w policy_outcome \<Rightarrow> 'w policy_outcome" where
  "after_pass step p = (case p of (result, out, failure, w) \<Rightarrow>
     if result \<noteq> APP_ERROR_NONE then p else step out w)"

definition web_request_policy_evaluate :: "policy_input \<Rightarrow> 'w policy_ops \<Rightarrow> 'w \<Rightarrow> 'w policy_outcome" where
  "web_request_policy_evaluate inp ops w =
     (if pi_route inp = WEB_API_ROUTE_UNKNOWN \<or> pi_body_limit inp = 0
      then (APP_ERROR_INVALID_ARGUMENT, cleared_result, WEB_REQUEST_POLICY_FAILURE_NONE, w)
      else after_pass (enforce_physical_confirmation inp ops)
        (after_pass (establish_request_id ops)
          (after_pass (enforce_session inp ops)
            (enforce_body_content_type inp ops cleared_result w))))"

fun web_request_policy_http_status :: "policy_failure \<Rightarrow> app_error \<Rightarrow> nat" where
  "web_request_policy_http_status WEB_REQUEST_POLICY_FAILURE_CONTENT_TYPE error = 415"
| "web_request_policy_http_status WEB_REQUEST_POLICY_FAILURE_BODY_LIMIT error = 413"
| "web_request_policy_http_status WEB_REQUEST_POLICY_FAILURE_PHYSICAL_CONFIRMATION error = 403"
| "web_request_policy_http_status WEB_REQUEST_POLICY_FAILURE_COOKIE error = 401"
| "web_request_policy_http_status WEB_REQUEST_POLICY_FAILURE_SESSION error = 401"
| "web_request_policy_http_status WEB_REQUEST_POLICY_FAILURE_REQUEST_ID error =
     (if error = APP_ERROR_INTERNAL then 500 else 400)"
| "web_request_policy_http_status WEB_REQUEST_POLICY_FAILURE_NONE error = web_api_http_status_for_error error"

section \<open>What a step establishes\<close>

lemmas policy_cases = policy_fail_def policy_pass_def

lemma after_pass_NoneE:
  assumes "after_pass step p = (APP_ERROR_NONE, out, failure, w)"
  obtains out0 failure0 w0 where "p = (APP_ERROR_NONE, out0, failure0, w0)"
    "step out0 w0 = (APP_ERROR_NONE, out, failure, w)"
  using assms by (cases p) (auto simp: after_pass_def split: if_splits)

lemma body_step:
  assumes "enforce_body_content_type inp ops out w = (APP_ERROR_NONE, out', failure, w')"
  shows "pi_content_length inp \<le> pi_body_limit inp" and "out' = out"
  using assms by (auto simp: enforce_body_content_type_def policy_cases split: if_splits prod.splits)

lemma session_step:
  assumes "enforce_session inp ops out w = (APP_ERROR_NONE, out', failure, w')"
    and "web_api_route_requires_session (pi_route inp)"
  obtains w1 cookie where "po_get_header ops ''Cookie'' WEB_POLICY_HEADER_BYTES w = (APP_ERROR_NONE, cookie, w1)"
    "session_values cookie = [po_session_token out']" "valid_token (po_session_token out')"
    "po_validate_session ops (po_session_token out') w1 = (APP_ERROR_NONE, w')"
  using assms
  by (auto simp: enforce_session_def read_required_header_def extract_session_values policy_cases
      split: prod.splits if_splits list.splits)

lemma session_step_open:
  "enforce_session inp ops out w = (APP_ERROR_NONE, out', failure, w') \<Longrightarrow>
    \<not> web_api_route_requires_session (pi_route inp) \<Longrightarrow> out' = out \<and> w' = w"
  by (simp add: enforce_session_def policy_cases)

lemma request_id_step:
  assumes "establish_request_id ops out w = (APP_ERROR_NONE, out', failure, w')"
  shows "po_session_token out' = po_session_token out" and "web_api_request_id_is_valid (Some (po_request_id out'))"
  using assms by (auto simp: establish_request_id_def policy_cases split: prod.splits if_splits)

lemma confirmation_step:
  assumes "enforce_physical_confirmation inp ops out w = (APP_ERROR_NONE, out', failure, w')"
  shows "out' = out" and "if web_api_route_requires_physical_confirmation (pi_route inp)
    then \<exists>confirm. po_confirm ops = Some confirm \<and> confirm w = (APP_ERROR_NONE, w') else w' = w"
  using assms by (auto simp: enforce_physical_confirmation_def policy_cases split: prod.splits if_splits option.splits)

end
