(* ===== verification/Web_Pipeline.thy ===== *)
theory Web_Pipeline
  imports Web_Policy Storage_Upload
begin

text \<open>
  A request on its way to a handler: the bounded reading of its body
  (\<open>web_server/web_server_adapter_body_auth.c\<close>) and the pipeline of \<open>web_server_api.c\<close>, from the
  method and path over the policy and the body to the dispatch and the response.  What the HTTP
  server, the session table, the confirmation and the handlers answer are functions of the
  events before.
\<close>

section \<open>Reading a body\<close>

definition WEB_ADAPTER_TIMEOUT_RETRIES_MAX :: nat where
  [limit_defs]: "WEB_ADAPTER_TIMEOUT_RETRIES_MAX = 4"

text \<open>A receive call times out, fails with a count of zero or less, or delivers bytes.\<close>

datatype receive_answer = Receive_Timeout | Receive_Failed | Received "u8 list"

function receive_loop ::
    "(nat \<Rightarrow> 'w \<Rightarrow> receive_answer \<times> 'w) \<Rightarrow> nat \<Rightarrow> nat \<Rightarrow> u8 list \<Rightarrow> 'w \<Rightarrow> app_error \<times> u8 list \<times> 'w" where
  "receive_loop receive remaining timeouts buffer w =
     (if remaining = 0 then (APP_ERROR_NONE, buffer, w)
      else (case receive remaining w of (answer, w) \<Rightarrow>
        case answer of
          Receive_Timeout \<Rightarrow>
            if WEB_ADAPTER_TIMEOUT_RETRIES_MAX < timeouts + 1 then (APP_ERROR_TIMEOUT, [], w)
            else receive_loop receive remaining (timeouts + 1) buffer w
        | Receive_Failed \<Rightarrow> (APP_ERROR_IO, [], w)
        | Received bytes \<Rightarrow>
            if bytes = [] \<or> remaining < length bytes then (APP_ERROR_IO, [], w)
            else receive_loop receive (remaining - length bytes) 0 (buffer @ bytes) w))"
  by pat_completeness auto

termination receive_loop
  by (relation "measures [\<lambda>(f, remaining, timeouts, buffer, w). remaining,
      \<lambda>(f, remaining, timeouts, buffer, w). WEB_ADAPTER_TIMEOUT_RETRIES_MAX + 1 - timeouts]")
    (auto simp: Suc_diff_le)

declare receive_loop.simps [simp del]

definition web_adapter_read_bounded_body ::
    "(nat \<Rightarrow> 'w \<Rightarrow> receive_answer \<times> 'w) \<Rightarrow> nat \<Rightarrow> nat \<Rightarrow> nat \<Rightarrow> 'w \<Rightarrow> app_error \<times> u8 list \<times> 'w" where
  "web_adapter_read_bounded_body receive content_length buffer_size maximum_length w =
     (if buffer_size = 0 \<or> maximum_length < content_length \<or> buffer_size \<le> content_length
      then (APP_ERROR_INVALID_ARGUMENT, [], w)
      else receive_loop receive content_length 0 [] w)"

text \<open>The streaming variant passes every piece on.\<close>

function stream_body_loop ::
    "(nat \<Rightarrow> 'w \<Rightarrow> receive_answer \<times> 'w) \<Rightarrow> (u8 list \<Rightarrow> 'w \<Rightarrow> app_error \<times> 'w) \<Rightarrow> nat \<Rightarrow> nat \<Rightarrow> nat \<Rightarrow> 'w \<Rightarrow>
      app_error \<times> 'w" where
  "stream_body_loop receive consume buffer_size remaining timeouts w =
     (if remaining = 0 then (APP_ERROR_NONE, w)
      else let capacity = (if buffer_size < remaining then buffer_size else remaining)
        in case receive capacity w of (answer, w) \<Rightarrow>
          (case answer of
            Receive_Timeout \<Rightarrow>
              if WEB_ADAPTER_TIMEOUT_RETRIES_MAX < timeouts + 1 then (APP_ERROR_TIMEOUT, w)
              else stream_body_loop receive consume buffer_size remaining (timeouts + 1) w
          | Receive_Failed \<Rightarrow> (APP_ERROR_IO, w)
          | Received bytes \<Rightarrow>
              if bytes = [] \<or> capacity < length bytes then (APP_ERROR_IO, w)
              else (case consume bytes w of (consume_result, w) \<Rightarrow>
                if consume_result \<noteq> APP_ERROR_NONE then (consume_result, w)
                else stream_body_loop receive consume buffer_size (remaining - length bytes) 0 w)))"
  by pat_completeness auto

termination stream_body_loop
  by (relation "measures [\<lambda>(f, g, size, remaining, timeouts, w). remaining,
      \<lambda>(f, g, size, remaining, timeouts, w). WEB_ADAPTER_TIMEOUT_RETRIES_MAX + 1 - timeouts]")
    (auto simp: Suc_diff_le)

declare stream_body_loop.simps [simp del]

definition web_adapter_stream_bounded_body ::
    "(nat \<Rightarrow> 'w \<Rightarrow> receive_answer \<times> 'w) \<Rightarrow> (u8 list \<Rightarrow> 'w \<Rightarrow> app_error \<times> 'w) \<Rightarrow> nat \<Rightarrow> nat \<Rightarrow> nat \<Rightarrow> 'w \<Rightarrow>
      app_error \<times> 'w" where
  "web_adapter_stream_bounded_body receive consume content_length maximum_length buffer_size w =
     (if content_length = 0 \<or> maximum_length < content_length \<or> maximum_length = 0 \<or> buffer_size = 0
      then (APP_ERROR_INVALID_ARGUMENT, w)
      else stream_body_loop receive consume buffer_size content_length 0 w)"

text \<open>The authorisation of the handlers outside the pipeline: login out, blobs and sending.\<close>

definition web_adapter_authorize_mutation ::
    "(string \<Rightarrow> nat \<Rightarrow> 'w \<Rightarrow> app_error \<times> string \<times> 'w) \<Rightarrow> (string \<Rightarrow> 'w \<Rightarrow> app_error \<times> 'w) \<Rightarrow> nat \<Rightarrow> 'w \<Rightarrow>
      app_error \<times> string \<times> 'w" where
  "web_adapter_authorize_mutation get_header validate token_size w =
     (if token_size < AUTH_TOKEN_HEX_BYTES then (APP_ERROR_INVALID_ARGUMENT, [], w)
      else (case get_header ''Cookie'' 256 w of (header_result, cookie, w) \<Rightarrow>
        if header_result \<noteq> APP_ERROR_NONE then (APP_ERROR_AUTH_REQUIRED, [], w)
        else (case web_cookie_extract_session (Some cookie) token_size of (cookie_result, token) \<Rightarrow>
          if cookie_result \<noteq> APP_ERROR_NONE then (cookie_result, [], w)
          else (case validate token w of (validation, w) \<Rightarrow>
            (validation, if validation = APP_ERROR_NONE then token else [], w)))))"

section \<open>The pipeline\<close>

definition APP_V2_JSON_BODY_MAX_BYTES :: nat where
  [limit_defs]: "APP_V2_JSON_BODY_MAX_BYTES = 8192"

datatype http_method = HTTP_GET | HTTP_POST | HTTP_PUT | HTTP_DELETE | HTTP_OTHER

record api_call =
  ca_method :: web_api_method
  ca_route :: web_api_route
  ca_body :: "u8 list"
  ca_session_token :: string

text \<open>A response that is not ready has status 0.\<close>

record api_response =
  re_status :: nat
  re_body :: "string option"

definition no_response :: api_response where
  "no_response = \<lparr>re_status = 0, re_body = None\<rparr>"

record http_request =
  rq_method :: http_method
  rq_uri :: string
  rq_content_len :: nat
  rq_header_length :: "string \<Rightarrow> nat"
  rq_header_text :: "string \<Rightarrow> string option"

datatype api_event =
    Validate_Event string app_error
  | Request_Id_Event app_error
  | Confirm_Event app_error
  | Receive_Event receive_answer
  | Dispatch_Event api_call

record api_env =
  av_require_physical_confirmation :: bool
  av_validate :: "api_event list \<Rightarrow> string \<Rightarrow> app_error"
  av_generate_uuid :: "api_event list \<Rightarrow> app_error \<times> string"
  av_wait_confirmation :: "api_event list \<Rightarrow> app_error"
  av_receive :: "api_event list \<Rightarrow> nat \<Rightarrow> receive_answer"
  av_dispatch :: "api_event list \<Rightarrow> api_call \<Rightarrow> app_error \<times> api_response"
  av_encode_error :: "nat \<Rightarrow> app_error \<Rightarrow> string \<Rightarrow> string option"
  av_allocate :: "nat \<Rightarrow> bool"
  av_set_cookie :: "api_event list \<Rightarrow> bool"

definition web_server_get_header :: "http_request \<Rightarrow> string \<Rightarrow> nat \<Rightarrow> app_error \<times> string" where
  "web_server_get_header rq name buffer_size =
     (if buffer_size = 0 then (APP_ERROR_INVALID_ARGUMENT, [])
      else if rq_header_length rq name = 0 then (APP_ERROR_AUTH_REQUIRED, [])
      else if buffer_size \<le> rq_header_length rq name then (APP_ERROR_INVALID_ARGUMENT, [])
      else (case rq_header_text rq name of
          None \<Rightarrow> (APP_ERROR_AUTH_REQUIRED, [])
        | Some text \<Rightarrow> (APP_ERROR_NONE, text)))"

definition policy_validate_session :: "api_env \<Rightarrow> string \<Rightarrow> api_event list \<Rightarrow> app_error \<times> api_event list" where
  "policy_validate_session env token evs =
     (let result = av_validate env evs token in (result, evs @ [Validate_Event token result]))"

definition policy_generate_request_id :: "api_env \<Rightarrow> nat \<Rightarrow> api_event list \<Rightarrow> app_error \<times> string \<times> api_event list" where
  "policy_generate_request_id env output_size evs =
     (if output_size < APP_UUID_STRING_LENGTH + 1 then (APP_ERROR_INVALID_ARGUMENT, [], evs)
      else (case av_generate_uuid env evs of (result, text) \<Rightarrow>
        (result, if result = APP_ERROR_NONE then text else [], evs @ [Request_Id_Event result])))"

definition policy_confirm :: "api_env \<Rightarrow> web_api_route \<Rightarrow> api_event list \<Rightarrow> app_error \<times> api_event list" where
  "policy_confirm env route evs =
     (if \<not> web_api_physical_confirmation_required route (av_require_physical_confirmation env)
      then (APP_ERROR_NONE, evs)
      else let result = av_wait_confirmation env evs in (result, evs @ [Confirm_Event result]))"

fun method_from_request :: "http_request \<Rightarrow> web_api_method option" where
  "method_from_request rq = (case rq_method rq of
      HTTP_GET \<Rightarrow> Some WEB_API_METHOD_GET | HTTP_POST \<Rightarrow> Some WEB_API_METHOD_POST
    | HTTP_PUT \<Rightarrow> Some WEB_API_METHOD_PUT | HTTP_DELETE \<Rightarrow> Some WEB_API_METHOD_DELETE | HTTP_OTHER \<Rightarrow> None)"

definition route_body_limit :: "web_api_route \<Rightarrow> nat" where
  "route_body_limit route =
     (if route = WEB_API_ROUTE_BLOB_COLLECTION then APP_V2_BLOB_MAX_BYTES else APP_V2_JSON_BODY_MAX_BYTES)"

fun policy_failure_message :: "policy_failure \<Rightarrow> string" where
  "policy_failure_message WEB_REQUEST_POLICY_FAILURE_CONTENT_TYPE = ''request content type is invalid''"
| "policy_failure_message WEB_REQUEST_POLICY_FAILURE_BODY_LIMIT = ''request body exceeds route limit''"
| "policy_failure_message WEB_REQUEST_POLICY_FAILURE_COOKIE = ''authentication required''"
| "policy_failure_message WEB_REQUEST_POLICY_FAILURE_SESSION = ''authentication required''"
| "policy_failure_message WEB_REQUEST_POLICY_FAILURE_REQUEST_ID = ''invalid request ID''"
| "policy_failure_message WEB_REQUEST_POLICY_FAILURE_PHYSICAL_CONFIRMATION = ''physical confirmation failed''"
| "policy_failure_message WEB_REQUEST_POLICY_FAILURE_NONE = ''request policy failed''"

definition set_error_response :: "api_env \<Rightarrow> nat \<Rightarrow> app_error \<Rightarrow> string \<Rightarrow> app_error \<times> api_response" where
  "set_error_response env status error message =
     (if status < 400 \<or> 599 < status then (APP_ERROR_INVALID_ARGUMENT, no_response)
      else (case av_encode_error env status error message of
          None \<Rightarrow> (APP_ERROR_INTERNAL, no_response)
        | Some body \<Rightarrow> (APP_ERROR_NONE, \<lparr>re_status = status, re_body = Some body\<rparr>)))"

definition apply_request_policy ::
    "api_env \<Rightarrow> http_request \<Rightarrow> web_api_route \<Rightarrow> web_api_method \<Rightarrow> nat \<Rightarrow> api_event list \<Rightarrow> api_event list policy_outcome" where
  "apply_request_policy env rq route m body_limit evs =
     web_request_policy_evaluate
       \<lparr>pi_route = route, pi_method = m, pi_content_length = rq_content_len rq, pi_body_limit = body_limit\<rparr>
       \<lparr>po_get_header = (\<lambda>name cap evs. case web_server_get_header rq name cap of (r, text) \<Rightarrow> (r, text, evs)),
        po_validate_session = policy_validate_session env,
        po_generate_request_id = policy_generate_request_id env,
        po_confirm = Some (policy_confirm env route)\<rparr> evs"

definition receive_body_adapter :: "api_env \<Rightarrow> nat \<Rightarrow> api_event list \<Rightarrow> receive_answer \<times> api_event list" where
  "receive_body_adapter env capacity evs =
     (let answer = av_receive env evs capacity in (answer, evs @ [Receive_Event answer]))"

definition read_call_body ::
    "api_env \<Rightarrow> http_request \<Rightarrow> nat \<Rightarrow> api_event list \<Rightarrow> app_error \<times> u8 list \<times> api_event list" where
  "read_call_body env rq body_limit evs =
     (let content_length = rq_content_len rq
      in if content_length = 0 then (APP_ERROR_NONE, [], evs)
         else if body_limit < content_length then (APP_ERROR_INVALID_ARGUMENT, [], evs)
         else if \<not> av_allocate env (content_length + 1) then (APP_ERROR_INTERNAL, [], evs)
         else web_adapter_read_bounded_body (receive_body_adapter env) content_length (content_length + 1)
           body_limit evs)"

text \<open>
  The stages of \<open>web_api_handle_call_with_body\<close>: each gives the result and the response, which is
  ready when its status is not 0.  First the method, the path and the rules of the route.
\<close>

definition prepare_api_call :: "api_env \<Rightarrow> http_request \<Rightarrow> (web_api_method \<times> web_api_route \<times> nat) option \<times> app_error \<times> api_response" where
  "prepare_api_call env rq =
     (case (case method_from_request rq of None \<Rightarrow> (APP_ERROR_INVALID_ARGUMENT, WEB_API_ROUTE_UNKNOWN)
         | Some m \<Rightarrow> web_api_parse_path (Some (rq_uri rq))) of
        (result, route) \<Rightarrow>
          if result \<noteq> APP_ERROR_NONE
          then (None, if result = APP_ERROR_NOT_FOUND then set_error_response env 404 result ''route not found''
              else set_error_response env 400 result ''invalid API path'')
          else (case method_from_request rq of
              None \<Rightarrow> (None, APP_ERROR_INTERNAL, no_response)
            | Some m \<Rightarrow>
                if \<not> web_api_route_allows_method route m
                then (None, set_error_response env 405 APP_ERROR_INVALID_ARGUMENT ''method not allowed'')
                else if \<not> web_api_route_requires_body route m \<and> rq_content_len rq \<noteq> 0
                then (None, set_error_response env 422 APP_ERROR_INVALID_ARGUMENT
                  ''request body is not allowed for this route'')
                else (Some (m, route, route_body_limit route), APP_ERROR_NONE, no_response)))"

text \<open>Then the policy and the body, unless a worker has read it before.\<close>

definition authorize_and_read_api_call ::
    "api_env \<Rightarrow> http_request \<Rightarrow> web_api_method \<Rightarrow> web_api_route \<Rightarrow> nat \<Rightarrow> u8 list option \<Rightarrow> api_event list \<Rightarrow>
      api_call option \<times> string \<times> app_error \<times> api_response \<times> api_event list" where
  "authorize_and_read_api_call env rq m route body_limit preread evs =
     (case apply_request_policy env rq route m body_limit evs of (result, policy, failure, evs) \<Rightarrow>
        if result \<noteq> APP_ERROR_NONE
        then (case set_error_response env (web_request_policy_http_status failure result) result
                (policy_failure_message failure) of
            (result, response) \<Rightarrow> (None, po_request_id policy, result, response, evs))
        else (case (case preread of Some body \<Rightarrow> (APP_ERROR_NONE, body, evs)
               | None \<Rightarrow> read_call_body env rq body_limit evs) of
            (result, body, evs) \<Rightarrow>
              if result \<noteq> APP_ERROR_NONE
              then (case set_error_response env (web_api_http_status_for_error result) result
                      ''could not read request body'' of
                  (result, response) \<Rightarrow> (None, po_request_id policy, result, response, evs))
              else (Some \<lparr>ca_method = m, ca_route = route, ca_body = body,
                  ca_session_token = po_session_token policy\<rparr>, po_request_id policy, APP_ERROR_NONE, no_response, evs)))"

definition dispatch_api_call :: "api_env \<Rightarrow> api_call \<Rightarrow> api_event list \<Rightarrow> app_error \<times> api_response \<times> api_event list" where
  "dispatch_api_call env call evs =
     (case av_dispatch env evs call of (result, response) \<Rightarrow>
        case (if result \<noteq> APP_ERROR_NONE \<and> re_body response = None
              then set_error_response env (web_api_http_status_for_error result) result ''API operation failed''
              else (result, response)) of
          (result, response) \<Rightarrow> (result, response, evs @ [Dispatch_Event call]))"

definition should_clear_session_cookie :: "web_api_route \<Rightarrow> api_response \<Rightarrow> bool" where
  "should_clear_session_cookie route response \<longleftrightarrow> route = WEB_API_ROUTE_SETTINGS_CHANGE_PASSWORD \<and>
     (re_status response = 204 \<or> re_status response = 409)"

record api_reply =
  rp_response :: api_response
  rp_request_id :: string
  rp_cookie_cleared :: bool

text \<open>A response that never became ready is replaced, and so is one whose cookie cannot be cleared.\<close>

definition finish_reply :: "api_env \<Rightarrow> web_api_route \<Rightarrow> string \<Rightarrow> app_error \<Rightarrow> api_response \<Rightarrow> api_event list \<Rightarrow> api_reply \<times> api_event list" where
  "finish_reply env route request_id result response evs =
     (let failed = snd (set_error_response env 500 APP_ERROR_INTERNAL ''response encoding failed'');
          response = (if result = APP_ERROR_NONE \<and> re_status response \<noteq> 0 then response else failed);
          clear = should_clear_session_cookie route response;
          cleared = clear \<and> av_set_cookie env evs
      in (\<lparr>rp_response = (if clear \<and> \<not> cleared then failed else response), rp_request_id = request_id,
           rp_cookie_cleared = cleared\<rparr>, evs))"

definition web_api_handle_call_with_body ::
    "api_env \<Rightarrow> http_request \<Rightarrow> u8 list option \<Rightarrow> api_event list \<Rightarrow> api_reply \<times> api_event list" where
  "web_api_handle_call_with_body env rq preread evs =
     (case prepare_api_call env rq of
        (None, result, response) \<Rightarrow>
          finish_reply env (if method_from_request rq = None then WEB_API_ROUTE_UNKNOWN
            else snd (web_api_parse_path (Some (rq_uri rq)))) [] result response evs
      | (Some (m, route, body_limit), _, _) \<Rightarrow>
          (case authorize_and_read_api_call env rq m route body_limit preread evs of
             (None, request_id, result, response, evs) \<Rightarrow> finish_reply env route request_id result response evs
           | (Some call, request_id, _, _, evs) \<Rightarrow>
               (case dispatch_api_call env call evs of (result, response, evs) \<Rightarrow>
                  finish_reply env route request_id result response evs)))"

definition web_api_handle_call :: "api_env \<Rightarrow> http_request \<Rightarrow> api_event list \<Rightarrow> api_reply \<times> api_event list" where
  "web_api_handle_call env rq evs = web_api_handle_call_with_body env rq None evs"

definition web_api_request_requires_worker :: "api_env \<Rightarrow> http_request \<Rightarrow> bool" where
  "web_api_request_requires_worker env rq =
     (case method_from_request rq of None \<Rightarrow> False
      | Some m \<Rightarrow> (case web_api_parse_path (Some (rq_uri rq)) of (result, route) \<Rightarrow>
          result = APP_ERROR_NONE \<and> web_api_route_allows_method route m \<and>
          web_api_physical_confirmation_required route (av_require_physical_confirmation env)))"

section \<open>Bodies\<close>

text \<open>A body is complete or there is none, and reading it adds only receive events.\<close>

lemma receive_loop_complete:
  "receive_loop receive remaining timeouts buffer w = (APP_ERROR_NONE, body, w') \<Longrightarrow>
    length body = length buffer + remaining"
proof (induction receive remaining timeouts buffer w rule: receive_loop.induct)
  case (1 receive remaining timeouts buffer w)
  show ?case
    using 1(3) 1(1,2)
    by (subst (asm) receive_loop.simps)
      (fastforce split: if_splits prod.splits receive_answer.splits)
qed

lemma receive_loop_events:
  "receive_loop (receive_body_adapter env) remaining timeouts buffer evs = (result, body, evs') \<Longrightarrow>
    \<exists>answers. evs' = evs @ map Receive_Event answers"
proof (induction "receive_body_adapter env" remaining timeouts buffer evs rule: receive_loop.induct)
  case (1 remaining timeouts buffer evs)
  define answer where "answer = av_receive env evs remaining"
  have step: "receive_body_adapter env remaining evs = (answer, evs @ [Receive_Event answer])"
    by (simp add: receive_body_adapter_def answer_def Let_def)
  have more: "\<exists>answers. evs' = (evs @ [Receive_Event answer]) @ map Receive_Event answers \<Longrightarrow> ?case"
    by (metis append.assoc append_Cons append_Nil list.simps(9))
  show ?case
  proof (cases "remaining = 0")
    case True
    then show ?thesis using 1(3) by (subst (asm) receive_loop.simps) (auto intro: exI [of _ "[]"])
  next
    case False
    note IH = 1(1,2) [OF False step [symmetric]]
    show ?thesis
    proof (cases answer)
      case Receive_Timeout
      then show ?thesis using 1(3) False step more IH(1)
        by (subst (asm) receive_loop.simps) (auto split: if_splits intro!: exI [of _ "[answer]"])
    next
      case Receive_Failed
      then show ?thesis using 1(3) False step
        by (subst (asm) receive_loop.simps) (auto intro!: exI [of _ "[answer]"])
    next
      case (Received bytes)
      then show ?thesis using 1(3) False step more IH(2)
        by (subst (asm) receive_loop.simps) (auto split: if_splits intro!: exI [of _ "[answer]"])
    qed
  qed
qed

lemma read_call_body_events:
  assumes "read_call_body env rq limit evs = (result, body, evs')"
  shows "\<exists>answers. evs' = evs @ map Receive_Event answers"
    and "result = APP_ERROR_NONE \<Longrightarrow> length body = rq_content_len rq"
proof -
  have "evs' = evs \<or> receive_loop (receive_body_adapter env) (rq_content_len rq) 0 [] evs = (result, body, evs')"
    using assms by (auto simp: read_call_body_def web_adapter_read_bounded_body_def Let_def split: if_splits)
  then show "\<exists>answers. evs' = evs @ map Receive_Event answers"
    using receive_loop_events [of env _ 0 "[]" evs result body evs'] by (auto intro: exI [of _ "[]"])
  show "result = APP_ERROR_NONE \<Longrightarrow> length body = rq_content_len rq"
    using assms receive_loop_complete [of "receive_body_adapter env" "rq_content_len rq" 0 "[]" evs body evs']
    by (auto simp: read_call_body_def web_adapter_read_bounded_body_def Let_def split: if_splits)
qed

section \<open>Handlers run only behind the policy\<close>

text \<open>The events of a policy that passed.\<close>

definition policy_events :: "api_env \<Rightarrow> web_api_route \<Rightarrow> string \<Rightarrow> api_event list \<Rightarrow> bool" where
  "policy_events env route token new \<longleftrightarrow> (\<exists>ids.
     new = (if web_api_route_requires_session route then [Validate_Event token APP_ERROR_NONE] else []) @
       ids @ (if web_api_physical_confirmation_required route (av_require_physical_confirmation env)
         then [Confirm_Event APP_ERROR_NONE] else []) \<and> ids \<in> {[], [Request_Id_Event APP_ERROR_NONE]})"

lemma request_id_events:
  assumes "establish_request_id
      \<lparr>po_get_header = (\<lambda>name cap evs. case web_server_get_header rq name cap of (r, text) \<Rightarrow> (r, text, evs)),
       po_validate_session = v, po_generate_request_id = policy_generate_request_id env, po_confirm = c\<rparr> out evs
    = (APP_ERROR_NONE, out', failure, evs')"
  shows "\<exists>ids. evs' = evs @ ids \<and> ids \<in> {[], [Request_Id_Event APP_ERROR_NONE]}"
  using assms
  by (auto simp: establish_request_id_def policy_cases policy_generate_request_id_def split: prod.splits if_splits)

lemma confirm_events:
  assumes "policy_confirm env route evs = (APP_ERROR_NONE, evs')"
  shows "evs' = evs @ (if web_api_physical_confirmation_required route (av_require_physical_confirmation env)
    then [Confirm_Event APP_ERROR_NONE] else [])"
  using assms by (auto simp: policy_confirm_def Let_def split: if_splits)

lemma confirmation_needs_rule:
  "web_api_physical_confirmation_required route b \<Longrightarrow> web_api_route_requires_physical_confirmation route"
  by (auto simp: web_api_route_requires_physical_confirmation_def web_api_physical_confirmation_required_def split: if_splits)

lemma policy_passed:
  assumes "apply_request_policy env rq route m limit evs = (APP_ERROR_NONE, policy, failure, evs')"
  shows "\<exists>new. evs' = evs @ new \<and> policy_events env route (po_session_token policy) new"
    and "rq_content_len rq \<le> limit"
    and "web_api_route_requires_session route \<Longrightarrow> \<exists>cookie.
      web_server_get_header rq ''Cookie'' WEB_POLICY_HEADER_BYTES = (APP_ERROR_NONE, cookie) \<and>
      session_values cookie = [po_session_token policy] \<and>
      av_validate env evs (po_session_token policy) = APP_ERROR_NONE"
proof -
  define inp where "inp = \<lparr>pi_route = route, pi_method = m, pi_content_length = rq_content_len rq, pi_body_limit = limit\<rparr>"
  define ops where "ops = \<lparr>po_get_header = (\<lambda>name cap evs. case web_server_get_header rq name cap of (r, text) \<Rightarrow> (r, text, evs)),
    po_validate_session = policy_validate_session env, po_generate_request_id = policy_generate_request_id env,
    po_confirm = Some (policy_confirm env route)\<rparr>"
  have route: "pi_route inp = route" by (simp add: inp_def)
  have "web_request_policy_evaluate inp ops evs = (APP_ERROR_NONE, policy, failure, evs')"
    using assms by (simp add: apply_request_policy_def inp_def ops_def)
  then have "after_pass (enforce_physical_confirmation inp ops) (after_pass (establish_request_id ops)
      (after_pass (enforce_session inp ops) (enforce_body_content_type inp ops cleared_result evs)))
    = (APP_ERROR_NONE, policy, failure, evs')"
    by (auto simp: web_request_policy_evaluate_def split: if_splits)
  then obtain o3 f3 e3 where p3: "after_pass (establish_request_id ops) (after_pass (enforce_session inp ops)
      (enforce_body_content_type inp ops cleared_result evs)) = (APP_ERROR_NONE, o3, f3, e3)"
    and c: "enforce_physical_confirmation inp ops o3 e3 = (APP_ERROR_NONE, policy, failure, evs')"
    by (rule after_pass_NoneE)
  from p3 obtain o2 f2 e2 where p2: "after_pass (enforce_session inp ops)
      (enforce_body_content_type inp ops cleared_result evs) = (APP_ERROR_NONE, o2, f2, e2)"
    and i: "establish_request_id ops o2 e2 = (APP_ERROR_NONE, o3, f3, e3)"
    by (rule after_pass_NoneE)
  from p2 obtain o1 f1 e1 where b: "enforce_body_content_type inp ops cleared_result evs = (APP_ERROR_NONE, o1, f1, e1)"
    and s: "enforce_session inp ops o1 e1 = (APP_ERROR_NONE, o2, f2, e2)"
    by (rule after_pass_NoneE)
  have e1: "e1 = evs" using b
    by (auto simp: enforce_body_content_type_def policy_cases ops_def split: if_splits prod.splits)
  have tok: "po_session_token policy = po_session_token o2"
    using request_id_step(1) [OF i] confirmation_step(1) [OF c] by simp
  have val: "e2 = evs @ (if web_api_route_requires_session route then [Validate_Event (po_session_token o2) APP_ERROR_NONE] else [])
      \<and> (web_api_route_requires_session route \<longrightarrow> (\<exists>cookie.
        web_server_get_header rq ''Cookie'' WEB_POLICY_HEADER_BYTES = (APP_ERROR_NONE, cookie) \<and>
        session_values cookie = [po_session_token o2] \<and> av_validate env evs (po_session_token o2) = APP_ERROR_NONE))"
  proof (cases "web_api_route_requires_session route")
    case True
    then have "web_api_route_requires_session (pi_route inp)" by (simp add: route)
    from session_step [OF s this] obtain w1 cookie where
      g: "po_get_header ops ''Cookie'' WEB_POLICY_HEADER_BYTES e1 = (APP_ERROR_NONE, cookie, w1)"
      and k: "session_values cookie = [po_session_token o2]"
      and v: "po_validate_session ops (po_session_token o2) w1 = (APP_ERROR_NONE, e2)" by metis
    have "web_server_get_header rq ''Cookie'' WEB_POLICY_HEADER_BYTES = (APP_ERROR_NONE, cookie)" "w1 = evs"
      using g e1 by (auto simp: ops_def split: prod.splits)
    moreover have "av_validate env evs (po_session_token o2) = APP_ERROR_NONE"
      "e2 = evs @ [Validate_Event (po_session_token o2) APP_ERROR_NONE]"
      using v \<open>w1 = evs\<close> by (auto simp: ops_def policy_validate_session_def Let_def)
    ultimately show ?thesis using True k by simp
  next
    case False
    then show ?thesis using session_step_open [OF s, unfolded route] e1 by simp
  qed
  obtain ids where ids: "e3 = e2 @ ids" "ids \<in> {[], [Request_Id_Event APP_ERROR_NONE]}"
    using request_id_events [OF i [unfolded ops_def]] by blast
  have "evs' = e3 @ (if web_api_physical_confirmation_required route (av_require_physical_confirmation env)
      then [Confirm_Event APP_ERROR_NONE] else [])"
    using confirmation_step(2) [OF c] confirm_events [of env route e3 evs'] confirmation_needs_rule
    by (auto simp: route ops_def split: if_splits)
  then show "\<exists>new. evs' = evs @ new \<and> policy_events env route (po_session_token policy) new"
    using val ids tok by (auto simp: policy_events_def)
  show "rq_content_len rq \<le> limit" using body_step(1) [OF b] by (simp add: inp_def)
  show "web_api_route_requires_session route \<Longrightarrow> \<exists>cookie.
      web_server_get_header rq ''Cookie'' WEB_POLICY_HEADER_BYTES = (APP_ERROR_NONE, cookie) \<and>
      session_values cookie = [po_session_token policy] \<and> av_validate env evs (po_session_token policy) = APP_ERROR_NONE"
    using val tok by simp
qed

text \<open>What must hold for a handler to be called with \<open>call\<close>, after the events \<open>pre\<close> of its request.\<close>

definition admitted :: "api_env \<Rightarrow> http_request \<Rightarrow> api_event list \<Rightarrow> api_event list \<Rightarrow> api_call \<Rightarrow> bool" where
  "admitted env rq evs pre call \<longleftrightarrow>
     method_from_request rq = Some (ca_method call) \<and>
     web_api_parse_path (Some (rq_uri rq)) = (APP_ERROR_NONE, ca_route call) \<and>
     web_api_route_allows_method (ca_route call) (ca_method call) \<and>
     length (ca_body call) = rq_content_len rq \<and> rq_content_len rq \<le> route_body_limit (ca_route call) \<and>
     (web_api_route_requires_body (ca_route call) (ca_method call) \<or> ca_body call = []) \<and>
     (web_api_route_requires_session (ca_route call) \<longrightarrow>
       (\<exists>cookie later. web_server_get_header rq ''Cookie'' WEB_POLICY_HEADER_BYTES = (APP_ERROR_NONE, cookie) \<and>
         session_values cookie = [ca_session_token call] \<and>
         av_validate env evs (ca_session_token call) = APP_ERROR_NONE \<and>
         pre = Validate_Event (ca_session_token call) APP_ERROR_NONE # later)) \<and>
     (web_api_physical_confirmation_required (ca_route call) (av_require_physical_confirmation env) \<longrightarrow>
       Confirm_Event APP_ERROR_NONE \<in> set pre)"

definition quiet :: "api_event list \<Rightarrow> bool" where
  "quiet evs \<longleftrightarrow> (\<forall>call. Dispatch_Event call \<notin> set evs)"

lemma quiet_receives [simp]: "quiet (map Receive_Event answers)"
  by (auto simp: quiet_def)

lemma quiet_append [simp]: "quiet (a @ b) \<longleftrightarrow> quiet a \<and> quiet b"
  by (auto simp: quiet_def)

lemma policy_quiet:
  assumes "apply_request_policy env rq route m limit evs = (result, policy, failure, evs')"
  shows "\<exists>new. evs' = evs @ new \<and> quiet new"
proof -
  define good where "good = (\<lambda>p :: api_event list policy_outcome. \<exists>new. snd (snd (snd p)) = evs @ new \<and> quiet new)"
  have pass: "good (after_pass step p)" if "good p" "\<And>out w. good (APP_ERROR_NONE, out, WEB_REQUEST_POLICY_FAILURE_NONE, w) \<Longrightarrow> good (step out w)" for step p
    using that by (cases p) (auto simp: after_pass_def good_def)
  have one: "quiet [Validate_Event t r]" "quiet [Request_Id_Event r]" "quiet [Confirm_Event r]" "quiet []" for t r
    by (simp_all add: quiet_def)
  show ?thesis
    using assms unfolding apply_request_policy_def web_request_policy_evaluate_def
  proof (simp split: if_splits, goal_cases)
    case 1
    then show ?case using one(4) by auto
  next
    case 2
    have "good (result, policy, failure, evs')"
      unfolding 2(2) [symmetric]
      by (intro pass)
        (auto simp: good_def enforce_body_content_type_def enforce_session_def read_required_header_def
          establish_request_id_def enforce_physical_confirmation_def policy_cases policy_validate_session_def
          policy_generate_request_id_def policy_confirm_def Let_def one split: prod.splits option.splits)
    then show ?case by (simp add: good_def)
  qed
qed

lemma finish_cases:
  assumes "finish_reply env route request_id result response evs = (reply, evs')"
  shows "evs' = evs" and "rp_response reply = snd (set_error_response env 500 APP_ERROR_INTERNAL ''response encoding failed'') \<or>
    (result = APP_ERROR_NONE \<and> rp_response reply = response)"
proof -
  define failed where "failed = snd (set_error_response env 500 APP_ERROR_INTERNAL ''response encoding failed'')"
  show "evs' = evs" "rp_response reply = failed \<or> (result = APP_ERROR_NONE \<and> rp_response reply = response)"
    using assms by (auto simp: finish_reply_def Let_def failed_def [symmetric] split: if_splits)
qed

lemma read_stage:
  assumes "authorize_and_read_api_call env rq m route limit None evs = (called, request_id, result, response, evs')"
    and "rq_content_len rq \<noteq> 0 \<longrightarrow> web_api_route_requires_body route m"
    and "limit = route_body_limit route" and "method_from_request rq = Some m"
    and "web_api_parse_path (Some (rq_uri rq)) = (APP_ERROR_NONE, route)" and "web_api_route_allows_method route m"
  shows "\<exists>new. evs' = evs @ new \<and> quiet new \<and> (\<forall>call. called = Some call \<longrightarrow> admitted env rq evs new call)"
    and "called = None \<Longrightarrow> result = APP_ERROR_NONE \<Longrightarrow> 400 \<le> re_status response"
proof -
  obtain r policy failure e1 where p: "apply_request_policy env rq route m limit evs = (r, policy, failure, e1)"
    by (cases "apply_request_policy env rq route m limit evs") auto
  obtain r2 body e2 where b: "read_call_body env rq limit e1 = (r2, body, e2)"
    by (cases "read_call_body env rq limit e1") auto
  obtain new1 where n1: "e1 = evs @ new1" "quiet new1" using policy_quiet [OF p] by blast
  obtain answers where n2: "e2 = e1 @ map Receive_Event answers" using read_call_body_events(1) [OF b] by blast
  have status: "400 \<le> re_status response" if "set_error_response env s e msg = (APP_ERROR_NONE, response)" for s e msg
    using that by (auto simp: set_error_response_def split: if_splits option.splits)
  show "called = None \<Longrightarrow> result = APP_ERROR_NONE \<Longrightarrow> 400 \<le> re_status response"
    using assms(1) p b status by (auto simp: authorize_and_read_api_call_def split: if_splits prod.splits)
  show "\<exists>new. evs' = evs @ new \<and> quiet new \<and> (\<forall>call. called = Some call \<longrightarrow> admitted env rq evs new call)"
  proof (cases "r = APP_ERROR_NONE \<and> r2 = APP_ERROR_NONE")
    case False
    then have "called = None" "evs' = e1 \<or> evs' = e2"
      using assms(1) p b by (auto simp: authorize_and_read_api_call_def split: if_splits prod.splits)
    then show ?thesis using n1 n2 by auto
  next
    case True
    then have c: "called = Some \<lparr>ca_method = m, ca_route = route, ca_body = body, ca_session_token = po_session_token policy\<rparr>"
      "evs' = e2"
      using assms(1) p b by (auto simp: authorize_and_read_api_call_def)
    have p0: "apply_request_policy env rq route m limit evs = (APP_ERROR_NONE, policy, failure, e1)" using p True by simp
    have "policy_events env route (po_session_token policy) new1" using policy_passed(1) [OF p0] n1 by auto
    moreover have "length body = rq_content_len rq" using read_call_body_events(2) [OF b] True by simp
    ultimately have "admitted env rq evs (new1 @ map Receive_Event answers)
        \<lparr>ca_method = m, ca_route = route, ca_body = body, ca_session_token = po_session_token policy\<rparr>"
      using policy_passed(2,3) [OF p0] assms(2-6) by (auto simp: admitted_def policy_events_def)
    then show ?thesis using c n1 n2 by auto
  qed
qed


text \<open>A logged in client asks for its settings.\<close>

definition sample_env :: api_env where
  "sample_env = \<lparr>av_require_physical_confirmation = True, av_validate = (\<lambda>evs t. APP_ERROR_NONE),
     av_generate_uuid = (\<lambda>evs. (APP_ERROR_NONE, ''id'')), av_wait_confirmation = (\<lambda>evs. APP_ERROR_TIMEOUT),
     av_receive = (\<lambda>evs n. Receive_Failed),
     av_dispatch = (\<lambda>evs call. (APP_ERROR_NONE, \<lparr>re_status = 200, re_body = Some ''{}''\<rparr>)),
     av_encode_error = (\<lambda>s e m. Some m), av_allocate = (\<lambda>n. True), av_set_cookie = (\<lambda>evs. True)\<rparr>"

definition login_cookie :: string where
  "login_cookie = cookie_prefix @ sample_token"

definition settings_request :: http_request where
  "settings_request = \<lparr>rq_method = HTTP_GET, rq_uri = ''/api/v1/settings'', rq_content_len = 0,
     rq_header_length = (\<lambda>name. if name = ''Cookie'' then 74 else 0),
     rq_header_text = (\<lambda>name. if name = ''Cookie'' then Some login_cookie else None)\<rparr>"

lemma sample_cookie: "web_cookie_extract_session (Some login_cookie) AUTH_TOKEN_HEX_BYTES = (APP_ERROR_NONE, sample_token)"
proof -
  have "plain_pair (cookie_prefix @ sample_token)"
    by (auto simp: plain_pair_def cookie_prefix_def sample_token_def is_space_def)
  then have "session_values login_cookie = [sample_token]"
    by (simp add: session_values_plain login_cookie_def pair_value_def starts_with_def)
  moreover have "valid_token sample_token"
    by (simp add: valid_token_def sample_token_def AUTH_TOKEN_HEX_BYTES_def APP_SESSION_TOKEN_BYTES_def list_all_length)
  ultimately show ?thesis by (simp add: extract_session_values)
qed

lemma login_cookie_sent: "login_cookie \<noteq> []"
  by (simp add: login_cookie_def cookie_prefix_def)


end
