(* ===== verification/Web_Login.thy ===== *)
theory Web_Login
  imports Web_Password Web_Pipeline Auth_Lifecycle
begin

text \<open>
  Logging in: \<open>web_server/web_server_login.c\<close> with the body of \<open>web_server/web_auth_routes.c\<close>, on
  the server state of \<open>Web_Credentials\<close>.  The handler is split where the code takes the copy of
  the verifier, before the key derivation that runs without any lock.

  The parameters of one login are the socket, the pieces of the body, whether memory and
  headers could be had, cJSON, and the environment of each call of the authentication core.  A
  reply is its status with the error code, or the cookie and the document of an accepted login;
  \<open>Login_Send_Failed\<close> is \<open>ESP_FAIL\<close>.  The texts of the errors are left out.
\<close>

section \<open>The parts of the handler\<close>

record login_env =
  le_socket :: bool
  le_peer :: "u32 option"
  le_receive :: "receive_answer list \<Rightarrow> nat \<Rightarrow> receive_answer"
  le_allocate :: bool
  le_retry_header :: bool
  le_cookie_header :: bool
  le_cjson :: cjson
  le_allowed :: auth_env
  le_failure :: auth_env
  le_success :: auth_env
  le_create :: auth_env
  le_remaining :: auth_env
  le_forget :: auth_env

datatype login_reply =
    Login_Send_Failed
  | Login_Error nat app_error
  | Login_Limited u32
  | Login_Accepted string "u8 list"

definition LOGIN_COOKIE_BYTES :: nat where
  [limit_defs]: "LOGIN_COOKIE_BYTES = 160"

definition LOGIN_CONTENT_TYPE_MAX_BYTES :: nat where
  [limit_defs]: "LOGIN_CONTENT_TYPE_MAX_BYTES = 64"

definition login_source_ipv4 :: "login_env \<Rightarrow> app_error + u32" where
  "login_source_ipv4 env =
     (if \<not> le_socket env then Inl APP_ERROR_INTERNAL
      else (case le_peer env of None \<Rightarrow> Inl APP_ERROR_INTERNAL | Some source \<Rightarrow> Inr source))"

text \<open>\<open>None\<close> is to proceed.\<close>

definition enforce_login_rate_limit ::
    "login_env \<Rightarrow> u32 \<Rightarrow> 'n web_state \<Rightarrow> login_reply option \<times> 'n web_state" where
  "enforce_login_rate_limit env source_ipv4 w =
     (case auth_core_login_attempt_allowed (le_allowed env) (ws_auth w) source_ipv4 of
       (allowed, retry_after, core) \<Rightarrow>
         (if allowed = APP_ERROR_RATE_LIMITED
          then if \<not> le_retry_header env then Some Login_Send_Failed else Some (Login_Limited retry_after)
          else if allowed \<noteq> APP_ERROR_NONE then Some (Login_Error 500 allowed)
          else None, w\<lparr>ws_auth := core\<rparr>))"

definition login_failure :: "login_env \<Rightarrow> u32 \<Rightarrow> 'n web_state \<Rightarrow> login_reply \<times> 'n web_state" where
  "login_failure env source_ipv4 w =
     (case auth_core_login_record_failure (le_failure env) (ws_auth w) source_ipv4 of
       (failure_result, core) \<Rightarrow>
         (if failure_result = APP_ERROR_RATE_LIMITED then Login_Error 429 failure_result
          else if failure_result \<noteq> APP_ERROR_NONE then Login_Error 500 failure_result
          else Login_Error 401 APP_ERROR_AUTH_FAILED, w\<lparr>ws_auth := core\<rparr>))"

definition send_login_error_and_forget_session ::
    "login_env \<Rightarrow> session_view \<Rightarrow> 'n web_state \<Rightarrow> login_reply \<times> 'n web_state" where
  "send_login_error_and_forget_session env session w =
     (case auth_core_session_logout (le_forget env) (ws_auth w) (Some (sv_session_token session)) of
       (logout_result, core) \<Rightarrow>
         (Login_Error 500 (if logout_result = APP_ERROR_NONE then APP_ERROR_INTERNAL else logout_result),
          w\<lparr>ws_auth := core\<rparr>))"

definition web_auth_session_response_json :: "cjson \<Rightarrow> u32 \<Rightarrow> u32 \<Rightarrow> app_error + u8 list" where
  "web_auth_session_response_json cj idle absolute =
     (if \<not> cj_create cj 0 then Inl APP_ERROR_INTERNAL
      else (case (do {
          doc \<leftarrow> cj_add cj [] (ascii ''authenticated'') (JBool True);
          doc \<leftarrow> cj_add cj doc (ascii ''idleExpiresInSeconds'') (JNumber (Some (of_nat (unat idle))));
          doc \<leftarrow> cj_add cj doc (ascii ''absoluteExpiresInSeconds'') (JNumber (Some (of_nat (unat absolute))));
          cj_print cj doc
        }) of None \<Rightarrow> Inl APP_ERROR_INTERNAL | Some json \<Rightarrow> Inr json))"

definition send_login_accepted ::
    "login_env \<Rightarrow> session_view \<Rightarrow> u32 \<Rightarrow> u32 \<Rightarrow> 'n web_state \<Rightarrow> login_reply \<times> 'n web_state" where
  "send_login_accepted env session idle absolute w =
     (case web_cookie_build_session_header (Some (sv_session_token session)) LOGIN_COOKIE_BYTES of
       (result, cookie) \<Rightarrow>
         if result \<noteq> APP_ERROR_NONE \<or> \<not> le_cookie_header env
         then send_login_error_and_forget_session env session w
         else (case web_auth_session_response_json (le_cjson env) idle absolute of
             Inl e \<Rightarrow> send_login_error_and_forget_session env session w
           | Inr json \<Rightarrow> (Login_Accepted cookie json, w)))"

definition exact_login_fields :: "json_fields \<Rightarrow> bool" where
  "exact_login_fields doc \<longleftrightarrow> exact_fields [ascii ''adminPassword''] [] doc \<and> length doc = 1"

text \<open>The password of a body, and the body after the call.\<close>

definition web_auth_login_parse :: "cjson \<Rightarrow> u8 list \<Rightarrow> nat \<Rightarrow> u8 list option \<times> u8 list" where
  "web_auth_login_parse cj body out_password_capacity =
     (if body = [] \<or> out_password_capacity = 0 then (None, zeros (length body))
      else (case parse_exact_body cj body of
          (None, body) \<Rightarrow> (None, body)
        | (Some doc, body) \<Rightarrow>
            if \<not> exact_login_fields doc then (None, body)
            else (case string_view_from_item (cj_item cj doc (ascii ''adminPassword'')) of
                Some (Some password) \<Rightarrow>
                  (if length password < out_password_capacity then Some password else None, body)
              | _ \<Rightarrow> (None, body))))"

section \<open>The handler\<close>

definition receive_login_body :: "login_env \<Rightarrow> nat \<Rightarrow> receive_answer list \<Rightarrow> receive_answer \<times> receive_answer list" where
  "receive_login_body env capacity answers =
     (let answer = le_receive env answers capacity in (answer, answers @ [answer]))"

text \<open>The buffer of the body: what was read, and zeros up to the capacity.\<close>

definition read_login_password :: "login_env \<Rightarrow> nat \<Rightarrow> login_reply + u8 list" where
  "read_login_password env content_length =
     (if content_length = 0 then Inl (Login_Error 400 APP_ERROR_INVALID_ARGUMENT)
      else if APP_V2_JSON_BODY_MAX_BYTES < content_length then Inl (Login_Error 413 APP_ERROR_INVALID_ARGUMENT)
      else if \<not> le_allocate env then Inl (Login_Error 500 APP_ERROR_INTERNAL)
      else (case web_adapter_read_bounded_body (receive_login_body env) content_length
                   (APP_V2_JSON_BODY_MAX_BYTES + 1) APP_V2_JSON_BODY_MAX_BYTES [] of
        (body_result, received, answers) \<Rightarrow>
          if body_result \<noteq> APP_ERROR_NONE then Inl (Login_Error 400 body_result)
          else (case web_auth_login_parse (le_cjson env)
                  (received @ zeros (APP_V2_JSON_BODY_MAX_BYTES + 1 - length received)) (AUTH_PASSWORD_MAX_BYTES + 1) of
              (None, body) \<Rightarrow> Inl (Login_Error 400 APP_ERROR_INVALID_ARGUMENT)
            | (Some password, body) \<Rightarrow> Inr password)))"

text \<open>Up to the copy of the verifier: the source, the password and the copy.\<close>

definition login_admit ::
    "login_env \<Rightarrow> http_request \<Rightarrow> 'n web_state \<Rightarrow> (login_reply + u32 \<times> u8 list \<times> password_record) \<times> 'n web_state" where
  "login_admit env rq w =
     (if \<not> wc_login_enabled (ws_configuration w) then (Inl (Login_Error 503 APP_ERROR_AUTH_REQUIRED), w)
      else (case login_source_ipv4 env of
          Inl e \<Rightarrow> (Inl (Login_Error 500 e), w)
        | Inr source_ipv4 \<Rightarrow>
            (case enforce_login_rate_limit env source_ipv4 w of
               (Some throttle, w) \<Rightarrow> (Inl throttle, w)
             | (None, w) \<Rightarrow>
                 (case web_server_get_header rq ''Content-Type'' LOGIN_CONTENT_TYPE_MAX_BYTES of
                   (header_result, content_type) \<Rightarrow>
                     if header_result \<noteq> APP_ERROR_NONE \<or> \<not> web_api_content_type_is_json (Some content_type)
                     then (Inl (Login_Error 415 APP_ERROR_INVALID_ARGUMENT), w)
                     else (case read_login_password env (rq_content_len rq) of
                         Inl reply \<Rightarrow> (Inl reply, w)
                       | Inr password \<Rightarrow>
                           (case web_server_password_record_snapshot_for_login w of
                              Inl e \<Rightarrow> (Inl (Login_Error 503 e), w)
                            | Inr password_record \<Rightarrow> (Inr (source_ipv4, password, password_record), w)))))))"

text \<open>From the key derivation on.\<close>

definition login_complete ::
    "'n web_port \<Rightarrow> login_env \<Rightarrow> u32 \<times> u8 list \<times> password_record \<Rightarrow> 'n web_state \<Rightarrow> login_reply \<times> 'n web_state" where
  "login_complete port env ticket w =
     (case ticket of (source_ipv4, password, password_record) \<Rightarrow>
        (case auth_core_password_verify (wp_derive port) (password_text (Some password)) password_record of
           Inl e \<Rightarrow> (Login_Error 500 e, w)
         | Inr password_matches \<Rightarrow>
             if \<not> password_matches then login_failure env source_ipv4 w
             else (case auth_core_login_record_success (le_success env) (ws_auth w) source_ipv4 of
               (success_result, core) \<Rightarrow>
                 (let w = w\<lparr>ws_auth := core\<rparr> in
                  if success_result \<noteq> APP_ERROR_NONE then (Login_Error 500 success_result, w)
                  else (case auth_core_session_create (le_create env) (ws_auth w) of
                      (Inl e, core) \<Rightarrow> (Login_Error 500 e, w\<lparr>ws_auth := core\<rparr>)
                    | (Inr session, core) \<Rightarrow>
                        (let w = w\<lparr>ws_auth := core\<rparr>
                         in case auth_core_session_remaining (le_remaining env) (ws_auth w)
                                  (Some (sv_session_token session)) of
                              (Inl e, core) \<Rightarrow> send_login_error_and_forget_session env session (w\<lparr>ws_auth := core\<rparr>)
                            | (Inr (idle, absolute), core) \<Rightarrow>
                                send_login_accepted env session idle absolute (w\<lparr>ws_auth := core\<rparr>)))))))"

definition login_handler ::
    "'n web_port \<Rightarrow> login_env \<Rightarrow> http_request \<Rightarrow> 'n web_state \<Rightarrow> login_reply \<times> 'n web_state" where
  "login_handler port env rq w =
     (case login_admit env rq w of
        (Inl reply, w) \<Rightarrow> (reply, w)
      | (Inr ticket, w) \<Rightarrow> login_complete port env ticket w)"

section \<open>What an accepted login rests on\<close>

lemma created_session:
  assumes "auth_core_session_create env core = (Inr view, core')" and "sessions_ok (ac_sessions core)"
    and "env_ok env"
  shows "\<exists>e \<in> set (ac_sessions core'). se_active e \<and> se_view e = view"
proof -
  have "session_create_section env core = Inr (view, core')"
    using assms(1) by (auto simp: auth_core_session_create_def split: if_splits sum.splits prod.splits)
  from this assms(2,3) show ?thesis
  proof (rule create_section)
    fix i e
    assume "i < length (ac_sessions core)" "se_active e" "se_view e = view"
      "ac_sessions core' = (purge_expired_sessions (ac_sessions core) (ae_now_us env))[i := e]"
    then show ?thesis by (auto simp: purge_expired_sessions_def intro!: bexI [of _ e] set_update_memI)
  qed
qed

lemma remaining_sessions [simp]:
  "ac_sessions (snd (auth_core_session_remaining env core token)) = ac_sessions core"
  by (auto simp: auth_core_session_remaining_def auth_core_read_now_def Let_def split: prod.splits)

lemma success_sessions [simp]:
  "ac_sessions (snd (auth_core_login_record_success env core source)) = ac_sessions core"
  by (auto simp: auth_core_login_record_success_def split: option.splits)

lemma forget_not_accepted [simp]:
  "send_login_error_and_forget_session env session w \<noteq> (Login_Accepted cookie json, w')"
  by (simp add: send_login_error_and_forget_session_def split: prod.splits)

lemma admit_cases:
  assumes "login_admit env rq w = (Inr (source, password, r), w')"
  shows "wc_login_enabled (ws_configuration w)" and "login_source_ipv4 env = Inr source"
    and "fst (auth_core_login_attempt_allowed (le_allowed env) (ws_auth w) source) = APP_ERROR_NONE"
    and "read_login_password env (rq_content_len rq) = Inr password"
    and "\<not> ws_password_transition_in_progress w" and "r = ws_record w"
    and "w' = w\<lparr>ws_auth := snd (snd (auth_core_login_attempt_allowed (le_allowed env) (ws_auth w) source))\<rparr>"
  using assms
  by (auto simp: login_admit_def enforce_login_rate_limit_def web_server_password_record_snapshot_for_login_def
      split: if_splits sum.splits prod.splits option.splits)

lemma complete_accepted:
  assumes "login_complete port env (source, password, r) w = (Login_Accepted cookie json, w')"
  obtains view core where
    "auth_core_password_verify (wp_derive port) (password_text (Some password)) r = Inr True"
    "auth_core_session_create (le_create env)
       (snd (auth_core_login_record_success (le_success env) (ws_auth w) source)) = (Inr view, core)"
    "ac_sessions (ws_auth w') = ac_sessions core" "w' = w\<lparr>ws_auth := ws_auth w'\<rparr>"
    "web_cookie_build_session_header (Some (sv_session_token view)) LOGIN_COOKIE_BYTES = (APP_ERROR_NONE, cookie)"
proof -
  obtain r1 core1 where s: "auth_core_login_record_success (le_success env) (ws_auth w) source = (r1, core1)"
    by (cases "auth_core_login_record_success (le_success env) (ws_auth w) source")
  obtain c core2 where c: "auth_core_session_create (le_create env) core1 = (c, core2)"
    by (cases "auth_core_session_create (le_create env) core1")
  have nf: "\<not> login_failure env source w = (Login_Accepted cookie json, w')"
    by (auto simp: login_failure_def split: prod.splits)
  have v: "auth_core_password_verify (wp_derive port) (password_text (Some password)) r = Inr True"
    using assms nf by (auto simp: login_complete_def split: sum.splits if_splits)
  then obtain view where view: "c = Inr view" "r1 = APP_ERROR_NONE"
    using assms by (cases c) (auto simp: login_complete_def Let_def s c split: if_splits)
  obtain m core3 where m: "auth_core_session_remaining (le_remaining env) core2 (Some (sv_session_token view)) = (m, core3)"
    by (cases "auth_core_session_remaining (le_remaining env) core2 (Some (sv_session_token view))")
  then obtain idle absolute where rem: "m = Inr (idle, absolute)"
    using assms v view
    by (cases m) (auto simp: login_complete_def Let_def s c)
  have acc: "send_login_accepted env view idle absolute (w\<lparr>ws_auth := core3\<rparr>) = (Login_Accepted cookie json, w')"
    using assms v view rem by (simp add: login_complete_def Let_def s c m)
  then have ends: "w' = w\<lparr>ws_auth := core3\<rparr>"
    "web_cookie_build_session_header (Some (sv_session_token view)) LOGIN_COOKIE_BYTES = (APP_ERROR_NONE, cookie)"
    by (auto simp: send_login_accepted_def split: prod.splits if_splits sum.splits)
  have "ac_sessions core3 = ac_sessions core2"
    using remaining_sessions [of "le_remaining env" core2 "Some (sv_session_token view)"] by (simp add: m)
  show thesis
    by (rule that [OF v, of view core2]) (use c s view ends \<open>ac_sessions core3 = ac_sessions core2\<close> in simp_all)
qed

lemma attempt_core_ok:
  "core_ok core \<Longrightarrow> env_ok env \<Longrightarrow> core_ok (snd (snd (auth_core_login_attempt_allowed env core source)))"
  using attempt.keeps [of env core source] by (simp split: prod.splits)

end
