(* ===== verification/Web_Login_Safety.thy ===== *)
theory Web_Login_Safety
  imports Web_Login
begin

text \<open>
  Logging in is safe on its own: a session is handed out for the current password only.  It is
  not when a password change runs while the key is being derived: the session opened with the
  old password outlives the change.
\<close>

lemma attempt_sessions [simp]:
  "ac_sessions (snd (snd (auth_core_login_attempt_allowed env core source))) = ac_sessions core"
  by (auto simp: auth_core_login_attempt_allowed_def auth_core_read_now_def Let_def split: prod.splits option.splits)

lemma failure_sessions [simp]:
  "ac_sessions (snd (auth_core_login_record_failure env core source)) = ac_sessions core"
  by (auto simp: auth_core_login_record_failure_def auth_core_read_now_def Let_def split: prod.splits option.splits)

lemma admit_frame: "login_admit env rq w = (out, w') \<Longrightarrow> w' = w\<lparr>ws_auth := ws_auth w'\<rparr>"
  by (auto simp: login_admit_def enforce_login_rate_limit_def split: if_splits sum.splits prod.splits option.splits)

lemma forget_frame: "send_login_error_and_forget_session env session w = (out, w') \<Longrightarrow> w' = w\<lparr>ws_auth := ws_auth w'\<rparr>"
  by (auto simp: send_login_error_and_forget_session_def split: prod.splits)

lemma accepted_frame: "send_login_accepted env session i a w = (out, w') \<Longrightarrow> w' = w\<lparr>ws_auth := ws_auth w'\<rparr>"
  by (auto simp: send_login_accepted_def dest: forget_frame split: if_splits prod.splits sum.splits)

lemma failure_frame: "login_failure env source w = (out, w') \<Longrightarrow> w' = w\<lparr>ws_auth := ws_auth w'\<rparr>"
  by (auto simp: login_failure_def split: if_splits prod.splits)

lemma update_twice: "w' = w\<lparr>ws_auth := a\<rparr>\<lparr>ws_auth := ws_auth w'\<rparr> \<Longrightarrow> w' = w\<lparr>ws_auth := ws_auth w'\<rparr>"
  by simp

lemma complete_frame: "login_complete port env t w = (out, w') \<Longrightarrow> w' = w\<lparr>ws_auth := ws_auth w'\<rparr>"
  unfolding login_complete_def Let_def
  by (auto dest: failure_frame accepted_frame [THEN update_twice] forget_frame [THEN update_twice]
      split: if_splits prod.splits sum.splits)

lemma handler_frame:
  assumes "login_handler port env rq w = (out, w')"
  shows "w' = w\<lparr>ws_auth := ws_auth w'\<rparr>"
proof (cases "login_admit env rq w")
  case (Pair a w1)
  note f = admit_frame [OF Pair]
  show ?thesis
  proof (cases a)
    case (Inl reply)
    then show ?thesis using assms f by (simp add: login_handler_def Pair)
  next
    case (Inr t)
    then have "login_complete port env t w1 = (out, w')"
      using assms by (simp add: login_handler_def Pair)
    from complete_frame [OF this] have "w' = w1\<lparr>ws_auth := ws_auth w'\<rparr>" .
    then show ?thesis using f by (metis update_twice)
  qed
qed

lemma forget_no_401 [simp]: "send_login_error_and_forget_session env session w \<noteq> (Login_Error 401 e, w')"
  by (simp add: send_login_error_and_forget_session_def split: prod.splits)

lemma complete_401:
  assumes "login_complete port env (source, password, r) w = (Login_Error 401 e, w')"
  shows "auth_core_password_verify (wp_derive port) (password_text (Some password)) r = Inr False \<and>
    login_failure env source w = (Login_Error 401 e, w')"
  using assms unfolding login_complete_def Let_def
  by (auto simp: send_login_accepted_def split: if_splits prod.splits sum.splits)

lemma admit_no_401: "login_admit env rq w \<noteq> (Inl (Login_Error 401 e), w')"
  by (auto simp: login_admit_def enforce_login_rate_limit_def read_login_password_def
      split: if_splits sum.splits prod.splits option.splits)

text \<open>
  C29: Logging in needs the current password.  Whatever the sockets, the body, memory and the
  authentication core do, a login changes nothing but the authentication state.  When it is
  accepted, logins are enabled, the source is not locked out, no password change is in
  progress, the password of the body was accepted by the verifier in RAM, and the cookie handed
  out names an active session.  A login refused as wrong had a password that the verifier
  refused; it opened no session and was counted against its source.
\<close>
theorem login_requires_password:
  assumes "core_ok (ws_auth w)" and "env_ok (le_allowed env)" and "env_ok (le_success env)"
    and "env_ok (le_create env)" and "login_handler port env rq w = (reply, w')"
  shows "w' = w\<lparr>ws_auth := ws_auth w'\<rparr> \<and>
    (\<forall>cookie json. reply = Login_Accepted cookie json \<longrightarrow>
       wc_login_enabled (ws_configuration w) \<and> \<not> ws_password_transition_in_progress w \<and>
       (\<exists>source password. login_source_ipv4 env = Inr source \<and>
          fst (auth_core_login_attempt_allowed (le_allowed env) (ws_auth w) source) = APP_ERROR_NONE \<and>
          read_login_password env (rq_content_len rq) = Inr password \<and>
          auth_core_password_verify (wp_derive port) (password_text (Some password)) (ws_record w) = Inr True) \<and>
       (\<exists>e \<in> set (ac_sessions (ws_auth w')). se_active e \<and>
          web_cookie_build_session_header (Some (token_of e)) LOGIN_COOKIE_BYTES = (APP_ERROR_NONE, cookie))) \<and>
    (\<forall>e. reply = Login_Error 401 e \<longrightarrow> ac_sessions (ws_auth w') = ac_sessions (ws_auth w) \<and>
       (\<exists>source password. login_source_ipv4 env = Inr source \<and> read_login_password env (rq_content_len rq) = Inr password \<and>
          auth_core_password_verify (wp_derive port) (password_text (Some password)) (ws_record w) = Inr False \<and>
          auth_core_login_record_failure (le_failure env)
            (snd (snd (auth_core_login_attempt_allowed (le_allowed env) (ws_auth w) source))) source =
            (APP_ERROR_NONE, ws_auth w')))"
proof (cases "login_admit env rq w")
  case (Pair a w1)
  show ?thesis
  proof (cases a)
    case (Inl r)
    then have "reply = r" "w' = w1" using assms(5) by (simp_all add: login_handler_def Pair)
    moreover have "r \<noteq> Login_Error 401 e" "r \<noteq> Login_Accepted c j" for e c j
      using admit_no_401 [of env rq w e w1] Inl Pair
      by (auto simp: login_admit_def enforce_login_rate_limit_def read_login_password_def
          split: if_splits sum.splits prod.splits option.splits)
    ultimately show ?thesis using handler_frame [OF assms(5)] by simp
  next
    case (Inr t)
    obtain source password r where t: "t = (source, password, r)" by (cases t)
    note admit = admit_cases [OF Pair [unfolded Inr t]]
    have run: "login_complete port env (source, password, r) w1 = (reply, w')"
      using assms(5) by (simp add: login_handler_def Pair Inr t)
    let ?core = "snd (auth_core_login_record_success (le_success env) (ws_auth w1) source)"
    have "core_ok ?core"
      using success.keeps [of "le_success env" "ws_auth w1" source] attempt_core_ok [OF assms(1,2), of source] assms(3)
      by (simp add: admit(7))
    then have ok: "sessions_ok (ac_sessions ?core)" by (simp add: core_ok_def)
    have accepted: "auth_core_password_verify (wp_derive port) (password_text (Some password)) r = Inr True \<and>
        (\<exists>e \<in> set (ac_sessions (ws_auth w')). se_active e \<and>
          web_cookie_build_session_header (Some (token_of e)) LOGIN_COOKIE_BYTES = (APP_ERROR_NONE, cookie))"
      if acc: "reply = Login_Accepted cookie json" for cookie json
    proof -
      obtain view core where c: "auth_core_password_verify (wp_derive port) (password_text (Some password)) r = Inr True"
        "auth_core_session_create (le_create env) ?core = (Inr view, core)"
        "ac_sessions (ws_auth w') = ac_sessions core"
        "web_cookie_build_session_header (Some (sv_session_token view)) LOGIN_COOKIE_BYTES = (APP_ERROR_NONE, cookie)"
        using run unfolding acc by (rule complete_accepted)
      from created_session [OF c(2) ok assms(4)] c show ?thesis by auto
    qed
    have wrong: "auth_core_password_verify (wp_derive port) (password_text (Some password)) r = Inr False \<and>
        auth_core_login_record_failure (le_failure env) (ws_auth w1) source = (APP_ERROR_NONE, ws_auth w')"
      if "reply = Login_Error 401 e" for e
      using complete_401 [OF run [unfolded that]]
      by (auto simp: login_failure_def split: prod.splits if_splits)
    have "ac_sessions (ws_auth w') = ac_sessions (ws_auth w)" if "reply = Login_Error 401 e" for e
      using wrong [OF that] failure_sessions [of "le_failure env" "ws_auth w1" source]
      by (simp add: admit(7))
    with accepted wrong admit handler_frame [OF assms(5)] show ?thesis
      by (auto simp: admit(7))
  qed
qed

text \<open>
  C30: A login can outlive a password change.  When the console changes the password after a
  login took its copy of the verifier and before it opened its session, and the login is
  accepted, then the change ended every session and put the new password in place, and yet the
  session of the login is active afterwards, although its password was compared with the old
  verifier only.
\<close>
theorem login_can_outlive_password_change:
  assumes "web_production port committed pending w0"
    and "settings_run (wp_nvs port) (module_boot w0) (ws_module w)"
    and "core_ok (ws_auth w2)" and "env_ok (le_success env)" and "env_ok (le_create env)"
    and "login_admit env rq w = (Inr (source, password, r), w1)"
    and "web_change_password_apply_without_verification new (Some (web_settings_production_ops port)) w1 =
      ((WEB_CHANGE_PASSWORD_OK, d), w2)"
    and "login_complete port env (source, password, r) w2 = (Login_Accepted cookie json, w3)"
  shows "ac_sessions (ws_auth w2) = no_sessions \<and>
    (\<exists>m. made_password port new m \<and> ws_record w3 = record_of_material m) \<and>
    auth_core_password_verify (wp_derive port) (password_text (Some password)) (ws_record w) = Inr True \<and>
    (\<exists>e \<in> set (ac_sessions (ws_auth w3)). se_active e \<and>
       web_cookie_build_session_header (Some (token_of e)) LOGIN_COOKIE_BYTES = (APP_ERROR_NONE, cookie))"
proof -
  note admit = admit_cases [OF assms(6)]
  have "web_production.reached port w0 w1"
    using assms(2) by (simp add: web_production.reached_def [OF assms(1)] admit(7))
  from web_production.console_handled [OF assms(1,7) this]
  have "web_production.transaction_outcome port committed (\<lambda>cur. True) new WEB_CHANGE_PASSWORD_OK d w1 w2"
    by auto
  from transaction_at_port [OF assms(1) this]
  have change: "ac_sessions (ws_auth w2) = no_sessions"
    "\<exists>m. made_password port new m \<and> ws_record w2 = record_of_material m" by auto
  let ?core = "snd (auth_core_login_record_success (le_success env) (ws_auth w2) source)"
  have ok: "sessions_ok (ac_sessions ?core)"
    using success.keeps [of "le_success env" "ws_auth w2" source] assms(3,4) by (simp add: core_ok_def)
  obtain view core where c: "auth_core_password_verify (wp_derive port) (password_text (Some password)) r = Inr True"
    "auth_core_session_create (le_create env) ?core = (Inr view, core)"
    "ac_sessions (ws_auth w3) = ac_sessions core" "w3 = w2\<lparr>ws_auth := ws_auth w3\<rparr>"
    "web_cookie_build_session_header (Some (sv_session_token view)) LOGIN_COOKIE_BYTES = (APP_ERROR_NONE, cookie)"
    using assms(8) by (rule complete_accepted)
  have "ws_record w3 = ws_record w2" using c(4) by (metis web_state.select_convs(2) web_state.surjective web_state.update_convs(4))
  with change c created_session [OF c(2) ok assms(5)] admit(6) show ?thesis by auto
qed

section \<open>A login on the sample server\<close>

definition login_doc :: json_fields where
  "login_doc = [(Some (ascii ''adminPassword''), JString old_password)]"

definition login_env_at_1 :: login_env where
  "login_env_at_1 =
     \<lparr>le_socket = True, le_peer = Some 7, le_receive = (\<lambda>answers n. Received [0x7b, 0x7d]), le_allocate = True,
      le_retry_header = True, le_cookie_header = True, le_cjson = sample_cjson login_doc, le_allowed = env_at 1,
      le_failure = env_at 1, le_success = env_at 1, le_create = env_at 1, le_remaining = env_at 1,
      le_forget = env_at 1\<rparr>"

lemma login_env_at_1_sel:
  "le_success login_env_at_1 = env_at 1" "le_create login_env_at_1 = env_at 1" "le_remaining login_env_at_1 = env_at 1"
  "le_allowed login_env_at_1 = env_at 1"
  by (simp_all add: login_env_at_1_def)

definition post_request :: http_request where
  "post_request =
     \<lparr>rq_method = HTTP_POST, rq_uri = ''/api/login'', rq_content_len = 2, rq_header_length = (\<lambda>name. 16),
      rq_header_text = (\<lambda>name. Some ''application/json'')\<rparr>"

definition sample_core :: auth_core where
  "sample_core = snd (snd (auth_core_login_attempt_allowed (env_at 1) auth_core_init 7))"

lemma sample_core_runs:
  "fst (auth_core_login_attempt_allowed (env_at 1) auth_core_init 7) = APP_ERROR_NONE"
  "fst (auth_core_login_record_success (env_at 1) sample_core 7) = APP_ERROR_NONE"
  "fst (auth_core_session_create (env_at 1) (snd (auth_core_login_record_success (env_at 1) sample_core 7))) =
    Inr \<lparr>sv_session_token = replicate 64 (CHR ''0''), sv_expires_at_us = 86400000001,
      sv_absolute_expires_at_us = 604800000001\<rparr>"
  "fst (auth_core_session_remaining (env_at 1) (snd (auth_core_session_create (env_at 1)
      (snd (auth_core_login_record_success (env_at 1) sample_core 7)))) (Some (replicate 64 (CHR ''0'')))) =
    Inr (86400, 604800)"
  "fst (web_cookie_build_session_header (Some (replicate 64 (CHR ''0''))) LOGIN_COOKIE_BYTES) = APP_ERROR_NONE"
  by code_simp+

lemma sample_core_ok: "core_ok sample_core"
  using attempt_core_ok [OF init_ok env_at_ok] by (simp add: sample_core_def)

lemma sample_header:
  "web_server_get_header post_request ''Content-Type'' LOGIN_CONTENT_TYPE_MAX_BYTES =
    (APP_ERROR_NONE, ''application/json'')"
  "web_api_content_type_is_json (Some ''application/json'')"
  by code_simp+

lemma sample_password_read:
  "read_login_password login_env_at_1 (rq_content_len post_request) = Inr old_password"
proof -
  have "c_text old_password = old_password"
    using sample_passwords(4) by (auto simp: c_text_def takeWhile_eq_all_conv)
  then have view: "string_view_from_item (field_of login_doc (ascii ''adminPassword'')) = Some (Some old_password)"
    by (simp add: login_doc_def field_of_def string_view_from_item_def)
  have fields: "exact_login_fields login_doc"
    by (simp add: exact_login_fields_def login_doc_def)
  have "[0x7b, 0x7d] @ zeros (8193 - 2) = padded 8193 [0x7b, 0x7d]" by (simp add: padded_def)
  moreover have "receive_loop (receive_login_body login_env_at_1) 2 0 [] [] =
      (APP_ERROR_NONE, [0x7b, 0x7d], [Received [0x7b, 0x7d]])"
    by (simp add: receive_loop.simps receive_login_body_def login_env_at_1_def Let_def)
  moreover have "padded 8193 [0x7b, 0x7d] \<noteq> []" by (simp add: padded_def)
  ultimately show ?thesis
    using text_body_parses [of "[0x7b, 0x7d]" 8193 login_doc] fields view sample_passwords(1)
    by (simp add: read_login_password_def post_request_def web_adapter_read_bounded_body_def limit_defs
        web_auth_login_parse_def login_env_at_1_def) (simp add: sample_cjson_def)
qed

abbreviation login_ticket :: "u32 \<times> u8 list \<times> password_record" where
  "login_ticket \<equiv> (7, old_password, record_of_settings (sample_with 12))"

lemma sample_admit:
  "login_admit login_env_at_1 post_request (sample_server 12) =
    (Inr login_ticket, (sample_server 12)\<lparr>ws_auth := sample_core\<rparr>)"
proof -
  obtain retry where "auth_core_login_attempt_allowed (env_at 1) auth_core_init 7 = (APP_ERROR_NONE, retry, sample_core)"
    using sample_core_runs(1) by (metis prod.collapse sample_core_def)
  then have "enforce_login_rate_limit login_env_at_1 7 (sample_server 12) =
      (None, (sample_server 12)\<lparr>ws_auth := sample_core\<rparr>)"
    by (simp add: enforce_login_rate_limit_def login_env_at_1_def sample_server_def)
  moreover have "login_source_ipv4 login_env_at_1 = Inr 7"
    by (simp add: login_source_ipv4_def login_env_at_1_def)
  ultimately show ?thesis
    by (simp add: login_admit_def sample_header sample_password_read)
      (simp add: sample_server_def web_server_password_record_snapshot_for_login_def)
qed

lemma sample_complete:
  assumes "ws_auth w = sample_core"
  shows "\<exists>cookie json core. login_complete sample_port login_env_at_1 login_ticket w =
    (Login_Accepted cookie json, w\<lparr>ws_auth := core\<rparr>)"
proof -
  let ?core = "snd (auth_core_login_record_success (env_at 1) sample_core 7)"
  let ?view = "\<lparr>sv_session_token = replicate 64 (CHR ''0''), sv_expires_at_us = 86400000001,
      sv_absolute_expires_at_us = 604800000001\<rparr>"
  let ?token = "replicate 64 (CHR ''0'')"
  have verify: "auth_core_password_verify (wp_derive sample_port) (password_text (Some old_password))
      (record_of_settings (sample_with 12)) = Inr True"
    using sample_verify [of "sample_server 12"]
    by (simp add: web_settings_production_ops_def production_password_verify_def split: sum.splits)
  obtain c1 where c1: "auth_core_login_record_success (env_at 1) sample_core 7 = (APP_ERROR_NONE, c1)" "c1 = ?core"
    using sample_core_runs(2) by (metis prod.collapse)
  obtain c2 where c2: "auth_core_session_create (env_at 1) c1 = (Inr ?view, c2)"
    using sample_core_runs(3) c1(2) by (metis prod.collapse)
  obtain c3 where c3: "auth_core_session_remaining (env_at 1) c2 (Some ?token) = (Inr (86400, 604800), c3)"
    using sample_core_runs(4) c1(2) c2 by (metis prod.collapse snd_conv)
  obtain cookie where cookie: "web_cookie_build_session_header (Some ?token) LOGIN_COOKIE_BYTES = (APP_ERROR_NONE, cookie)"
    using sample_core_runs(5) by (metis prod.collapse)
  obtain json where json: "send_login_accepted login_env_at_1 ?view 86400 604800 v = (Login_Accepted cookie json, v)"
    for v :: "(u8 list option \<times> u8 list option) web_state"
    by (simp add: send_login_accepted_def cookie login_env_at_1_def web_auth_session_response_json_def sample_cjson_def)
  have "login_complete sample_port login_env_at_1 login_ticket w = (Login_Accepted cookie json, w\<lparr>ws_auth := c3\<rparr>)"
    using c2 c3 by (simp add: login_complete_def verify assms login_env_at_1_sel c1(1) json)
  then show ?thesis by blast
qed

lemma sample_login_accepted:
  "\<exists>cookie json w'. login_handler sample_port login_env_at_1 post_request (sample_server 12) =
    (Login_Accepted cookie json, w')"
  using sample_complete [of "(sample_server 12)\<lparr>ws_auth := sample_core\<rparr>"]
  by (auto simp: login_handler_def sample_admit)

lemma login_requires_password_witness:
  "\<exists>cookie json w' source password. login_handler sample_port login_env_at_1 post_request (sample_server 12) =
      (Login_Accepted cookie json, w') \<and>
    login_source_ipv4 login_env_at_1 = Inr source \<and>
    read_login_password login_env_at_1 (rq_content_len post_request) = Inr password \<and>
    auth_core_password_verify (wp_derive sample_port) (password_text (Some password))
      (ws_record (sample_server 12)) = Inr True"
proof -
  obtain cookie json w' where run: "login_handler sample_port login_env_at_1 post_request (sample_server 12) =
      (Login_Accepted cookie json, w')"
    using sample_login_accepted by blast
  have "core_ok (ws_auth (sample_server 12))"
    using init_ok by (simp add: sample_server_def)
  from login_requires_password [OF this _ _ _ run] env_at_ok run show ?thesis
    by (auto simp: login_env_at_1_sel)
qed

lemma login_can_outlive_password_change_witness:
  "\<exists>w1 w2 w3 cookie json m. login_admit login_env_at_1 post_request (sample_server 12) = (Inr login_ticket, w1) \<and>
    web_change_password_apply_without_verification (Some new_password)
      (Some (web_settings_production_ops sample_port)) w1 = ((WEB_CHANGE_PASSWORD_OK, APP_ERROR_NONE), w2) \<and>
    login_complete sample_port login_env_at_1 login_ticket w2 = (Login_Accepted cookie json, w3) \<and>
    made_password sample_port (Some new_password) m \<and> ws_record w3 = record_of_material m \<and>
    (\<exists>e \<in> set (ac_sessions (ws_auth w3)). se_active e)"
proof -
  let ?w1 = "(sample_server 12)\<lparr>ws_auth := sample_core\<rparr>"
  have none: "sample_core\<lparr>ac_sessions := no_sessions\<rparr> = sample_core"
    using attempt_sessions [of "env_at 1" auth_core_init 7] by (simp add: sample_core_def auth_core_init_def)
  have change: "web_change_password_apply_without_verification (Some new_password)
      (Some (web_settings_production_ops sample_port)) ?w1 =
      ((WEB_CHANGE_PASSWORD_OK, APP_ERROR_NONE), server_after 13 ?w1)"
    by (rule sample_console) (simp_all add: sample_server_def)
  have core: "ws_auth (server_after 13 ?w1) = sample_core"
    by (simp add: server_after_def none)
  obtain cookie json w3 where last: "login_complete sample_port login_env_at_1 login_ticket (server_after 13 ?w1) =
      (Login_Accepted cookie json, w3)"
    using sample_complete [OF core] by blast
  have ok: "core_ok (ws_auth (server_after 13 ?w1))" "env_ok (le_success login_env_at_1)" "env_ok (le_create login_env_at_1)"
    using sample_core_ok env_at_ok by (simp_all add: core login_env_at_1_sel)
  from login_can_outlive_password_change [OF sample_web_laws sample_run_with [of 12] ok sample_admit change last]
    sample_admit change last show ?thesis by auto
qed

end
