(* ===== verification/Setup_Contract.thy ===== *)
theory Setup_Contract
  imports Settings_Update Auth_Sessions
begin

text \<open>
  The first setup of a device (\<open>app_contracts_v2/setup_contract_v2.c\<close>): the one-time setup code
  and the settings of a device that is provisioned with it.

  A code buffer is its nine bytes.  The source of random numbers is a function of the number of
  the call, \<open>None\<close> when it fails.  Every caller passes the address of a session, so only the
  parameters of \<open>app_v2_setup_prepare_candidate\<close> are options.  The validators of text and UTF-8 are, text for text, those of
  \<open>settings_contract_v2.c\<close>.
\<close>

section \<open>The data\<close>

definition APP_V2_SETUP_CODE_DIGITS :: nat where
  [limit_defs]: "APP_V2_SETUP_CODE_DIGITS = 8"

definition APP_V2_SETUP_CODE_BUFFER_BYTES :: nat where
  [limit_defs]: "APP_V2_SETUP_CODE_BUFFER_BYTES = 9"

definition APP_V2_SETUP_CODE_SPACE :: u32 where
  [limit_defs]: "APP_V2_SETUP_CODE_SPACE = 100000000"

definition APP_V2_SETUP_RANDOM_ATTEMPTS_MAX :: nat where
  [limit_defs]: "APP_V2_SETUP_RANDOM_ATTEMPTS_MAX = 32"

datatype setup_result =
    APP_V2_SETUP_OK
  | APP_V2_SETUP_INVALID_ARGUMENT
  | APP_V2_SETUP_RANDOM_FAILURE
  | APP_V2_SETUP_MALFORMED_CODE
  | APP_V2_SETUP_CODE_MISMATCH
  | APP_V2_SETUP_CODE_CONSUMED
  | APP_V2_SETUP_ALREADY_PROVISIONED
  | APP_V2_SETUP_INVALID_CURRENT_SETTINGS
  | APP_V2_SETUP_INVALID_DEVICE_NAME
  | APP_V2_SETUP_INVALID_AP_SSID
  | APP_V2_SETUP_INVALID_AP_PASSPHRASE
  | APP_V2_SETUP_INVALID_ADMIN_PASSWORD
  | APP_V2_SETUP_INVALID_PASSWORD_MATERIAL

record setup_session =
  sc_code :: "u8 list"
  sc_consumed :: bool

record setup_request =
  sq_setup_code :: string_view
  sq_device_name :: string_view
  sq_ap_ssid :: string_view
  sq_ap_passphrase :: string_view
  sq_admin_password :: string_view
  sq_require_serial_confirmation :: bool

record setup_state_response =
  st_provisioned :: bool
  st_device_name :: "u8 list"

record setup_accepted =
  sa_accepted :: bool
  sa_connection_will_close :: bool
  sa_reprovisioning_required :: bool
  sa_restart_required :: bool

definition zero_setup_session :: setup_session where
  "zero_setup_session = \<lparr>sc_code = zeros APP_V2_SETUP_CODE_BUFFER_BYTES, sc_consumed = False\<rparr>"

section \<open>The code\<close>

definition valid_setup_code :: "string_view \<Rightarrow> bool" where
  "valid_setup_code code =
     (case code of
        None \<Rightarrow> False
      | Some txt \<Rightarrow>
          if length txt \<noteq> APP_V2_SETUP_CODE_DIGITS then False
          else list_all (\<lambda>c. \<not> (c < 0x30 \<or> 0x39 < c)) txt)"

definition constant_time_code_equal :: "u8 list \<Rightarrow> u8 list \<Rightarrow> bool" where
  "constant_time_code_equal expected supplied \<longleftrightarrow>
     foldl (\<lambda>difference index. difference OR (expected ! index XOR supplied ! index)) (0 :: u8)
       [0 ..< APP_V2_SETUP_CODE_DIGITS] = 0"

fun format_digits :: "nat \<Rightarrow> u32 \<Rightarrow> u8 list \<Rightarrow> u8 list" where
  "format_digits 0 v text_bytes = text_bytes"
| "format_digits (Suc index) v text_bytes =
     format_digits index (v div 10) (text_bytes[index := ucast (0x30 + v mod 10)])"

definition format_setup_code :: "u32 \<Rightarrow> u8 list \<Rightarrow> u8 list" where
  "format_setup_code v text_bytes =
     (format_digits APP_V2_SETUP_CODE_DIGITS v text_bytes)[APP_V2_SETUP_CODE_DIGITS := 0]"

definition accepted_space :: u64 where
  "accepted_space =
     (let source_space = 0xffffffff + 1
      in source_space - source_space mod ucast APP_V2_SETUP_CODE_SPACE)"

fun generate_loop :: "(nat \<Rightarrow> u32 option) \<Rightarrow> nat \<Rightarrow> nat \<Rightarrow> setup_result \<times> setup_session" where
  "generate_loop random_u32 0 attempt = (APP_V2_SETUP_RANDOM_FAILURE, zero_setup_session)"
| "generate_loop random_u32 (Suc left) attempt =
     (case random_u32 attempt of
        None \<Rightarrow> (APP_V2_SETUP_RANDOM_FAILURE, zero_setup_session)
      | Some random_value \<Rightarrow>
          if accepted_space \<le> ucast random_value then generate_loop random_u32 left (attempt + 1)
          else (APP_V2_SETUP_OK,
            \<lparr>sc_code = format_setup_code (random_value mod APP_V2_SETUP_CODE_SPACE) (sc_code zero_setup_session),
             sc_consumed = False\<rparr>))"

definition app_v2_setup_session_generate :: "(nat \<Rightarrow> u32 option) option \<Rightarrow> setup_result \<times> setup_session" where
  "app_v2_setup_session_generate operations =
     (case operations of
        None \<Rightarrow> (APP_V2_SETUP_INVALID_ARGUMENT, zero_setup_session)
      | Some random_u32 \<Rightarrow> generate_loop random_u32 APP_V2_SETUP_RANDOM_ATTEMPTS_MAX 0)"

definition app_v2_setup_session_init :: "string_view \<Rightarrow> setup_result \<times> setup_session" where
  "app_v2_setup_session_init code =
     (if \<not> valid_setup_code code then (APP_V2_SETUP_MALFORMED_CODE, zero_setup_session)
      else (APP_V2_SETUP_OK, \<lparr>sc_code = blit 0 (the code) (sc_code zero_setup_session), sc_consumed = False\<rparr>))"

definition app_v2_setup_session_consume :: "setup_session \<Rightarrow> setup_result \<times> setup_session" where
  "app_v2_setup_session_consume session =
     (if sc_consumed session then (APP_V2_SETUP_CODE_CONSUMED, session)
      else (APP_V2_SETUP_OK, \<lparr>sc_code = zeros APP_V2_SETUP_CODE_BUFFER_BYTES, sc_consumed = True\<rparr>))"

section \<open>The settings\<close>

definition app_v2_setup_state_from_settings :: "device_settings option \<Rightarrow> setup_result \<times> setup_state_response" where
  "app_v2_setup_state_from_settings settings =
     (let cleared = \<lparr>st_provisioned = False, st_device_name = []\<rparr>
      in case settings of
           None \<Rightarrow> (APP_V2_SETUP_INVALID_ARGUMENT, cleared)
         | Some s \<Rightarrow>
             if app_v2_device_settings_validate settings \<noteq> APP_V2_SETTINGS_OK
             then (APP_V2_SETUP_INVALID_CURRENT_SETTINGS, cleared)
             else if provisioned s then (APP_V2_SETUP_ALREADY_PROVISIONED, cleared)
             else (APP_V2_SETUP_OK, \<lparr>st_provisioned = False, st_device_name = view_of (device_name s)\<rparr>))"

definition password_material_valid :: "password_material \<Rightarrow> bool" where
  "password_material_valid material \<longleftrightarrow>
     pm_credential_version material = APP_V2_CREDENTIAL_VERSION \<and>
     pm_password_algorithm_version material = APP_V2_PASSWORD_ALGORITHM_VERSION \<and>
     0 < pm_password_iterations material \<and> \<not> bytes_are_zero (pm_password_salt material) \<and>
     \<not> bytes_are_zero (pm_password_verifier material)"

definition app_v2_setup_prepare_candidate ::
    "setup_session option \<Rightarrow> setup_request option \<Rightarrow> device_settings option \<Rightarrow> password_material option \<Rightarrow>
      setup_result \<times> device_settings" where
  "app_v2_setup_prepare_candidate session request current material =
     (case (session, request, current, material) of
        (Some session, Some request, Some cur, Some material) \<Rightarrow>
          if app_v2_device_settings_validate current \<noteq> APP_V2_SETTINGS_OK
          then (APP_V2_SETUP_INVALID_CURRENT_SETTINGS, zero_settings)
          else if provisioned cur then (APP_V2_SETUP_ALREADY_PROVISIONED, zero_settings)
          else if sc_consumed session then (APP_V2_SETUP_CODE_CONSUMED, zero_settings)
          else if \<not> valid_setup_code (sq_setup_code request) then (APP_V2_SETUP_MALFORMED_CODE, zero_settings)
          else if \<not> constant_time_code_equal (sc_code session) (the (sq_setup_code request))
          then (APP_V2_SETUP_CODE_MISMATCH, zero_settings)
          else if \<not> view_valid_text (sq_device_name request) 1 APP_V2_DEVICE_NAME_MAX_BYTES
          then (APP_V2_SETUP_INVALID_DEVICE_NAME, zero_settings)
          else if \<not> view_valid_text (sq_ap_ssid request) 1 APP_V2_WIFI_SSID_MAX_BYTES
          then (APP_V2_SETUP_INVALID_AP_SSID, zero_settings)
          else if \<not> view_valid_text (sq_ap_passphrase request) APP_V2_WIFI_PASSPHRASE_MIN_BYTES
                      APP_V2_WIFI_PASSPHRASE_MAX_BYTES
          then (APP_V2_SETUP_INVALID_AP_PASSPHRASE, zero_settings)
          else if \<not> view_valid_text (sq_admin_password request) APP_V2_ADMIN_PASSWORD_MIN_BYTES
                      APP_V2_ADMIN_PASSWORD_MAX_BYTES
          then (APP_V2_SETUP_INVALID_ADMIN_PASSWORD, zero_settings)
          else if \<not> password_material_valid material then (APP_V2_SETUP_INVALID_PASSWORD_MATERIAL, zero_settings)
          else (let candidate = cur\<lparr>provisioned := True,
                  credential_version := pm_credential_version material,
                  password_algorithm_version := pm_password_algorithm_version material,
                  password_iterations := pm_password_iterations material,
                  password_salt := pm_password_salt material,
                  password_verifier := pm_password_verifier material,
                  require_serial_confirmation := sq_require_serial_confirmation request\<rparr>
                in case (copy_view 33 (sq_device_name request), copy_view 33 (sq_ap_ssid request),
                         copy_view 64 (sq_ap_passphrase request)) of
                  (Some name, Some ssid, Some passphrase) \<Rightarrow>
                    let candidate = candidate\<lparr>device_name := name, ap_ssid := ssid, ap_passphrase := passphrase\<rparr>
                    in if app_v2_device_settings_validate (Some candidate) \<noteq> APP_V2_SETTINGS_OK
                       then (APP_V2_SETUP_INVALID_CURRENT_SETTINGS, zero_settings)
                       else (APP_V2_SETUP_OK, candidate)
                | _ \<Rightarrow> (APP_V2_SETUP_INVALID_ARGUMENT, zero_settings))
      | _ \<Rightarrow> (APP_V2_SETUP_INVALID_ARGUMENT, zero_settings))"

definition app_v2_setup_accepted_response_init :: setup_accepted where
  "app_v2_setup_accepted_response_init =
     \<lparr>sa_accepted = True, sa_connection_will_close = True, sa_reprovisioning_required = False,
      sa_restart_required = True\<rparr>"

section \<open>Every code is equally likely\<close>

text \<open>The last \<open>k\<close> decimal digits of a number, as text.\<close>

fun digits_text :: "nat \<Rightarrow> nat \<Rightarrow> u8 list" where
  "digits_text 0 n = []"
| "digits_text (Suc k) n = digits_text k (n div 10) @ [of_nat (48 + n mod 10)]"

lemma digits_text_length [simp]: "length (digits_text k n) = k"
  by (induction k arbitrary: n) simp_all

lemma format_digits_text:
  "k \<le> length buf \<Longrightarrow> format_digits k v buf = digits_text k (unat v) @ drop k buf"
proof (induction k arbitrary: v buf)
  case (Suc k)
  have "(ucast (0x30 + v mod 10) :: u8) = of_nat (48 + unat v mod 10)"
  proof -
    have "unat v mod 10 < 10" by simp
    then have "unat (0x30 + v mod 10) = 48 + unat v mod 10"
      by (subst unat_add_lem [THEN iffD1]) (simp_all add: unat_mod)
    moreover have "(ucast (0x30 + v mod 10) :: u8) = of_nat (unat (0x30 + v mod 10))"
      by (simp add: word_eq_iff_unsigned)
    ultimately show ?thesis by (simp only:)
  qed
  moreover have "drop k (buf[k := d]) = d # drop (Suc k) buf" for d
    using Suc.prems by (simp add: drop_update_swap flip: Cons_nth_drop_Suc)
  ultimately show ?case
    using Suc by (simp add: unat_div)
qed simp

lemma format_setup_code_text:
  "length buf = 9 \<Longrightarrow> format_setup_code v buf = digits_text 8 (unat v) @ [0]"
proof -
  assume len: "length buf = 9"
  then have "length (drop 8 buf) = 1" by simp
  then obtain c where "drop 8 buf = [c]" by (metis One_nat_def length_0_conv length_Suc_conv)
  then show ?thesis
    using len by (simp add: format_setup_code_def format_digits_text limit_defs list_update_append)
qed

lemma digits_text_inject:
  "m < 10 ^ k \<Longrightarrow> n < 10 ^ k \<Longrightarrow> digits_text k m = digits_text k n \<Longrightarrow> m = n"
proof (induction k arbitrary: m n)
  case (Suc k)
  have byte: "unat (of_nat (48 + i mod 10) :: u8) = 48 + i mod 10" for i
  proof -
    have "i mod 10 < 10" by simp
    then show ?thesis by (subst unat_of_nat) (simp del: of_nat_add)
  qed
  have "digits_text k (m div 10) = digits_text k (n div 10)"
    "(of_nat (48 + m mod 10) :: u8) = of_nat (48 + n mod 10)"
    using Suc.prems(3) by simp_all
  then have "m div 10 = n div 10" "m mod 10 = n mod 10"
    using Suc.IH [of "m div 10" "n div 10"] Suc.prems byte [of m] byte [of n] by (simp_all add: less_mult_imp_div_less)
  then show ?case by (metis mult_div_mod_eq)
qed simp

lemma digits_text_surj:
  "list_all (\<lambda>c. \<not> (c < 0x30 \<or> 0x39 < c)) code \<Longrightarrow> \<exists>n < 10 ^ length code. code = digits_text (length code) n"
proof (induction code rule: rev_induct)
  case (snoc c code)
  then obtain n where n: "n < 10 ^ length code" "code = digits_text (length code) n" by auto
  define d where "d = unat c - 48"
  have "48 \<le> unat c" "unat c \<le> 57"
    using snoc.prems by (auto simp: word_less_nat_alt not_less)
  then have d: "d < 10" "c = of_nat (48 + d)" by (simp_all add: d_def)
  have "n * 10 + d < 10 ^ length (code @ [c])" using n(1) d(1) by simp
  moreover have "code @ [c] = digits_text (length (code @ [c])) (n * 10 + d)"
    using n(2) d by simp
  ultimately show ?case by blast
qed simp

definition session_of :: "u32 \<Rightarrow> setup_session" where
  "session_of v = \<lparr>sc_code = digits_text 8 (unat v mod 100000000) @ [0], sc_consumed = False\<rparr>"

lemma accepted_iff: "accepted_space \<le> ucast (v :: u32) \<longleftrightarrow> \<not> unat v < 4200000000"
proof -
  have "unat accepted_space = 4200000000" by (simp add: accepted_space_def limit_defs)
  moreover have "unat v < 2 ^ LENGTH(32)" by (rule unsigned_less)
  ultimately show ?thesis
    by (simp add: word_le_nat_alt unsigned_ucast_eq take_bit_nat_eq_self not_less)
qed

lemma session_formatted:
  "\<lparr>sc_code = format_setup_code (v mod APP_V2_SETUP_CODE_SPACE) (sc_code zero_setup_session), sc_consumed = False\<rparr> =
    session_of v"
  by (simp add: session_of_def zero_setup_session_def format_setup_code_text limit_defs unat_mod)

lemma generate_loop_ok:
  "generate_loop random left attempt = (APP_V2_SETUP_OK, s) \<longleftrightarrow>
     (\<exists>k < left. \<exists>v. random (attempt + k) = Some v \<and> unat v < 4200000000 \<and> s = session_of v \<and>
        (\<forall>j < k. \<exists>u. random (attempt + j) = Some u \<and> \<not> unat u < 4200000000))"
proof (induction left arbitrary: attempt)
  case (Suc left)
  show ?case
  proof (cases "random attempt")
    case (Some v)
    show ?thesis
    proof (cases "unat v < 4200000000")
      case True
      have "(\<exists>k < Suc left. \<exists>u. random (attempt + k) = Some u \<and> unat u < 4200000000 \<and> s = session_of u \<and>
          (\<forall>j < k. \<exists>u. random (attempt + j) = Some u \<and> \<not> unat u < 4200000000)) \<longleftrightarrow> s = session_of v"
        using Some True by (subst Ex_less_Suc2) auto
      then show ?thesis using Some True by (auto simp: accepted_iff session_formatted)
    next
      case False
      have "(\<forall>j < Suc k. \<exists>u. random (attempt + j) = Some u \<and> \<not> unat u < 4200000000) \<longleftrightarrow>
          (\<forall>j < k. \<exists>u. random (Suc (attempt + j)) = Some u \<and> \<not> unat u < 4200000000)" for k
        using Some False by (subst All_less_Suc2) simp
      then show ?thesis using Suc.IH [of "attempt + 1"] Some False
        by (subst Ex_less_Suc2) (simp add: accepted_iff)
    qed
  next
    case None
    then show ?thesis by (subst Ex_less_Suc2) (auto simp: All_less_Suc2)
  qed
qed simp

lemma generate_ok:
  "app_v2_setup_session_generate (Some random) = (APP_V2_SETUP_OK, s) \<longleftrightarrow>
     (\<exists>k < 32. \<exists>v. random k = Some v \<and> unat v < 4200000000 \<and> s = session_of v \<and>
        (\<forall>j < k. \<exists>u. random j = Some u \<and> \<not> unat u < 4200000000))"
  using generate_loop_ok [of random 32 0 s] by (simp add: app_v2_setup_session_generate_def limit_defs)

lemma generate_word:
  "app_v2_setup_session_generate (Some (\<lambda>_. Some v)) = (APP_V2_SETUP_OK, s) \<longleftrightarrow>
     unat v < 4200000000 \<and> s = session_of v"
  unfolding generate_ok by (auto intro: exI [of _ 0])

lemma words_of_code:
  assumes "n < 100000000"
  shows "card {v :: u32. unat v < 4200000000 \<and> unat v mod 100000000 = n} = 42"
proof -
  define f :: "nat \<Rightarrow> u32" where "f k = of_nat (k * 100000000 + n)" for k
  have f: "unat (f k) = k * 100000000 + n" if "k < 42" for k
    using assms that by (simp add: f_def unat_of_nat del: of_nat_add of_nat_mult)
  have "{v :: u32. unat v < 4200000000 \<and> unat v mod 100000000 = n} = f ` {0 ..< 42}"
  proof (intro equalityI subsetI)
    fix v :: u32
    assume "v \<in> {v. unat v < 4200000000 \<and> unat v mod 100000000 = n}"
    then have v: "unat v < 4200000000" "unat v mod 100000000 = n" by simp_all
    then have "unat v div 100000000 < 42" by (simp add: less_mult_imp_div_less)
    moreover have "v = f (unat v div 100000000)"
      unfolding f_def using v(2) by (metis div_mult_mod_eq of_nat_unat ucast_id)
    ultimately show "v \<in> f ` {0 ..< 42}" by auto
  next
    fix v
    assume "v \<in> f ` {0 ..< 42}"
    then obtain k where "k < 42" "v = f k" by auto
    then show "v \<in> {v. unat v < 4200000000 \<and> unat v mod 100000000 = n}"
      using f [of k] assms by simp
  qed
  moreover have "inj_on f {0 ..< 42}"
    using f by (auto simp: inj_on_def) (metis add_right_cancel f mult_cancel2 zero_neq_numeral)
  ultimately show ?thesis by (simp add: card_image)
qed

text \<open>
  The setup code is drawn without bias.  The code of a session comes from the first of at
  most 32 random words that is accepted, every word before it was delivered and rejected, and
  every code of eight digits comes from exactly 42 of the words a call can deliver.
\<close>
theorem setup_code_unbiased:
  assumes "valid_setup_code (Some code)"
  shows "card {v. app_v2_setup_session_generate (Some (\<lambda>_. Some v)) =
      (APP_V2_SETUP_OK, \<lparr>sc_code = code @ [0], sc_consumed = False\<rparr>)} = 42 \<and>
    (app_v2_setup_session_generate (Some random) = (APP_V2_SETUP_OK, s) \<longleftrightarrow>
      (\<exists>k < 32. \<exists>v. random k = Some v \<and>
         app_v2_setup_session_generate (Some (\<lambda>_. Some v)) = (APP_V2_SETUP_OK, s) \<and>
         (\<forall>j < k. \<exists>u. random j = Some u \<and>
            fst (app_v2_setup_session_generate (Some (\<lambda>_. Some u))) \<noteq> APP_V2_SETUP_OK)))"
proof -
  have code: "length code = 8" "list_all (\<lambda>c. \<not> (c < 0x30 \<or> 0x39 < c)) code"
    using assms by (auto simp: valid_setup_code_def limit_defs split: if_splits)
  obtain n where n: "n < 100000000" "code = digits_text 8 n"
    using digits_text_surj [OF code(2)] code(1) by auto
  have "\<lparr>sc_code = code @ [0], sc_consumed = False\<rparr> = session_of v \<longleftrightarrow> unat v mod 100000000 = n" for v :: u32
    using digits_text_inject [of n 8 "unat v mod 100000000"] n by (auto simp: session_of_def)
  then have card: "card {v. app_v2_setup_session_generate (Some (\<lambda>_. Some v)) =
      (APP_V2_SETUP_OK, \<lparr>sc_code = code @ [0], sc_consumed = False\<rparr>)} = 42"
    using words_of_code [OF n(1)] by (simp add: generate_word)
  have refused: "fst (app_v2_setup_session_generate (Some (\<lambda>_. Some u))) \<noteq> APP_V2_SETUP_OK \<longleftrightarrow>
      \<not> unat u < 4200000000" for u
  proof -
    have "fst g = APP_V2_SETUP_OK \<longleftrightarrow> (\<exists>s. g = (APP_V2_SETUP_OK, s))" for g :: "setup_result \<times> setup_session"
      by (cases g) auto
    then show ?thesis by (simp add: generate_word)
  qed
  show ?thesis
    by (intro conjI card) (simp only: generate_word refused generate_ok [of random] conj_assoc)
qed

lemma setup_code_unbiased_witness:
  "card {v. app_v2_setup_session_generate (Some (\<lambda>_. Some v)) =
      (APP_V2_SETUP_OK, \<lparr>sc_code = ascii ''00000042'' @ [0], sc_consumed = False\<rparr>)} = 42"
proof -
  have "valid_setup_code (Some (ascii ''00000042''))" by code_simp
  from setup_code_unbiased [OF this] show ?thesis by blast
qed

section \<open>What a setup does\<close>

lemma code_equal_iff:
  assumes "length code = 8" and "8 \<le> length buf"
  shows "constant_time_code_equal buf code \<longleftrightarrow> take 8 buf = code"
proof -
  have "constant_time_code_equal buf code \<longleftrightarrow> (\<forall>i < 8. buf ! i = code ! i)"
    unfolding constant_time_code_equal_def limit_defs or_fold_zero by (auto simp: xor_zero_iff)
  then show ?thesis
    using assms by (auto simp: list_eq_iff_nth_eq)
qed

text \<open>The first thing a setup is refused for, in the order of the code.\<close>

definition setup_refusal :: "setup_session \<Rightarrow> setup_request \<Rightarrow> device_settings \<Rightarrow> setup_result" where
  "setup_refusal session rq cur =
     (if provisioned cur then APP_V2_SETUP_ALREADY_PROVISIONED
      else if sc_consumed session then APP_V2_SETUP_CODE_CONSUMED
      else if \<not> valid_setup_code (sq_setup_code rq) then APP_V2_SETUP_MALFORMED_CODE
      else if Some (take 8 (sc_code session)) \<noteq> sq_setup_code rq then APP_V2_SETUP_CODE_MISMATCH
      else if \<not> view_valid_text (sq_device_name rq) 1 32 then APP_V2_SETUP_INVALID_DEVICE_NAME
      else if \<not> view_valid_text (sq_ap_ssid rq) 1 32 then APP_V2_SETUP_INVALID_AP_SSID
      else if \<not> view_valid_text (sq_ap_passphrase rq) 8 63 then APP_V2_SETUP_INVALID_AP_PASSPHRASE
      else if \<not> view_valid_text (sq_admin_password rq) 12 128 then APP_V2_SETUP_INVALID_ADMIN_PASSWORD
      else APP_V2_SETUP_OK)"

definition provisioned_with :: "setup_request \<Rightarrow> password_material \<Rightarrow> device_settings \<Rightarrow> device_settings" where
  "provisioned_with rq m cur = (with_material m cur)
     \<lparr>provisioned := True, require_serial_confirmation := sq_require_serial_confirmation rq,
      device_name := padded 33 (the (sq_device_name rq)), ap_ssid := padded 33 (the (sq_ap_ssid rq)),
      ap_passphrase := padded 64 (the (sq_ap_passphrase rq))\<rparr>"

lemma setup_refusal_ok:
  assumes "setup_refusal session rq cur = APP_V2_SETUP_OK"
  shows "\<not> provisioned cur" and "\<not> sc_consumed session" and "valid_setup_code (sq_setup_code rq)"
    and "sq_setup_code rq = Some (take 8 (sc_code session))"
    and "view_valid_text (sq_device_name rq) 1 32" and "view_valid_text (sq_ap_ssid rq) 1 32"
    and "view_valid_text (sq_ap_passphrase rq) 8 63" and "view_valid_text (sq_admin_password rq) 12 128"
  using assms by (auto simp: setup_refusal_def split: if_splits)

lemma unprovisioned_valid_fields:
  assumes "app_v2_device_settings_validate (Some s) = APP_V2_SETTINGS_OK" and "\<not> provisioned s"
  shows "unat (snapshot_retention_target s) \<le> 100" and "valid_uuid_or_empty (last_selected_package_id s)"
    and "station_fields_valid s"
  using assms by (auto simp: app_v2_device_settings_validate_def limit_defs not_less split: if_splits)

lemma provisioned_with_good:
  assumes "settings_sized cur" and "app_v2_device_settings_validate (Some cur) = APP_V2_SETTINGS_OK"
    and "setup_refusal session rq cur = APP_V2_SETUP_OK" and "material_good m"
  shows "settings_good (provisioned_with rq m cur)"
proof -
  note ok = setup_refusal_ok [OF assms(3)]
  note u = unprovisioned_valid_fields [OF assms(2) ok(1)]
  have sta: "station_fields_valid (provisioned_with rq m cur) = station_fields_valid cur"
    by (simp add: provisioned_with_def with_material_def station_fields_valid_def station_passphrase_valid_def
        cong: option.case_cong)
  have cred: "credential_bytes_present (provisioned_with rq m cur)"
    using assms(4) by (simp add: provisioned_with_def with_material_def credential_bytes_present_def
        bytes_are_zero_iff material_good_def)
  show ?thesis
    unfolding good_iff
    using assms(1,4) u stored_view_valid [OF ok(5), of 33] stored_view_valid [OF ok(6), of 33]
      stored_view_valid [OF ok(7), of 64]
    by (simp add: sta cred) (simp add: provisioned_with_def with_material_def settings_sized_def material_good_def)
qed

lemma material_valid_iff:
  "length (pm_password_salt m) = 16 \<Longrightarrow> length (pm_password_verifier m) = 32 \<Longrightarrow>
     password_material_valid m \<longleftrightarrow> material_good m"
  by (auto simp: password_material_valid_def material_good_def bytes_are_zero_iff word_gt_0)

lemma setup_prepare_spec:
  assumes "settings_sized cur" and "app_v2_device_settings_validate (Some cur) = APP_V2_SETTINGS_OK"
    and "length (pm_password_salt m) = 16" and "length (pm_password_verifier m) = 32"
    and "length (sc_code session) = 9"
  shows "app_v2_setup_prepare_candidate (Some session) (Some rq) (Some cur) (Some m) =
    (if setup_refusal session rq cur \<noteq> APP_V2_SETUP_OK then (setup_refusal session rq cur, zero_settings)
     else if \<not> material_good m then (APP_V2_SETUP_INVALID_PASSWORD_MATERIAL, zero_settings)
     else (APP_V2_SETUP_OK, provisioned_with rq m cur))"
proof (cases "setup_refusal session rq cur = APP_V2_SETUP_OK")
  case True
  note ok = setup_refusal_ok [OF True]
  have copies: "copy_view 33 (sq_device_name rq) = Some (padded 33 (the (sq_device_name rq)))"
    "copy_view 33 (sq_ap_ssid rq) = Some (padded 33 (the (sq_ap_ssid rq)))"
    "copy_view 64 (sq_ap_passphrase rq) = Some (padded 64 (the (sq_ap_passphrase rq)))"
    using copy_view_valid [OF ok(5), of 33] copy_view_valid [OF ok(6), of 33] copy_view_valid [OF ok(7), of 64]
    by simp_all
  have same: "constant_time_code_equal (sc_code session) (the (sq_setup_code rq))"
    using assms(5) by (subst code_equal_iff) (simp_all add: ok(4))
  have "cur\<lparr>provisioned := True, credential_version := pm_credential_version m,
      password_algorithm_version := pm_password_algorithm_version m,
      password_iterations := pm_password_iterations m, password_salt := pm_password_salt m,
      password_verifier := pm_password_verifier m, require_serial_confirmation := sq_require_serial_confirmation rq,
      device_name := padded 33 (the (sq_device_name rq)), ap_ssid := padded 33 (the (sq_ap_ssid rq)),
      ap_passphrase := padded 64 (the (sq_ap_passphrase rq))\<rparr> = provisioned_with rq m cur"
    by (simp add: provisioned_with_def with_material_def)
  note candidate = this
  show ?thesis
    using ok same copies provisioned_with_good [OF assms(1,2) True] assms(2) material_valid_iff [OF assms(3,4)]
    by (simp add: app_v2_setup_prepare_candidate_def limit_defs True Let_def candidate settings_good_def)
next
  case False
  have "constant_time_code_equal (sc_code session) (the (sq_setup_code rq)) \<longleftrightarrow>
      Some (take 8 (sc_code session)) = sq_setup_code rq" if "valid_setup_code (sq_setup_code rq)"
    using that assms(5) code_equal_iff [of "the (sq_setup_code rq)" "sc_code session"]
    by (auto simp: valid_setup_code_def limit_defs split: option.splits if_splits)
  then show ?thesis
    using False assms(2)
    by (auto simp: app_v2_setup_prepare_candidate_def setup_refusal_def limit_defs split: if_splits)
qed

end
