(* ===== verification/Web_Setup.thy ===== *)
theory Web_Setup
  imports Web_Password Web_Pipeline Setup_Contract
begin

text \<open>
  The first setup through the web interface: the submission
  (\<open>web_server/web_server_setup_submit.c\<close>), the operations behind it and the two handlers
  (\<open>web_server/web_server_setup.c\<close>).

  Parsed text is wiped before it is freed and the structures that hold secrets before they go out
  of scope; what remains of this is the body, which the submission returns wiped.
\<close>

section \<open>The submission\<close>

datatype web_setup_submit_result =
    WEB_SETUP_SUBMIT_OK
  | WEB_SETUP_SUBMIT_INVALID_BODY
  | WEB_SETUP_SUBMIT_MALFORMED_CODE
  | WEB_SETUP_SUBMIT_CODE_MISMATCH
  | WEB_SETUP_SUBMIT_CODE_CONSUMED
  | WEB_SETUP_SUBMIT_ALREADY_PROVISIONED
  | WEB_SETUP_SUBMIT_INVALID_DEVICE_NAME
  | WEB_SETUP_SUBMIT_INVALID_AP_SSID
  | WEB_SETUP_SUBMIT_INVALID_AP_PASSPHRASE
  | WEB_SETUP_SUBMIT_INVALID_ADMIN_PASSWORD
  | WEB_SETUP_SUBMIT_SETTINGS_UNAVAILABLE
  | WEB_SETUP_SUBMIT_PASSWORD_DERIVATION_FAILED
  | WEB_SETUP_SUBMIT_COMMIT_FAILED
  | WEB_SETUP_SUBMIT_INTERNAL

type_synonym web_setup_submit_outcome = "web_setup_submit_result \<times> app_error"

record 'w web_setup_submit_ops =
  uo_settings_read :: "'w \<Rightarrow> app_error \<times> device_settings \<times> 'w"
  uo_password_create :: "string_view \<Rightarrow> 'w \<Rightarrow> app_error \<times> password_material \<times> 'w"
  uo_settings_replace :: "device_settings \<Rightarrow> 'w \<Rightarrow> app_error \<times> bool \<times> 'w"

definition SETUP_SUBMIT_STRING_FIELDS :: "u8 list list" where
  "SETUP_SUBMIT_STRING_FIELDS =
     map ascii [''setupCode'', ''deviceName'', ''apSsid'', ''apPassphrase'', ''adminPassword'']"

definition SETUP_SUBMIT_BOOL_FIELD :: "u8 list" where
  "SETUP_SUBMIT_BOOL_FIELD = ascii ''requireSerialConfirmation''"

definition exact_setup_fields :: "json_fields \<Rightarrow> bool" where
  "exact_setup_fields doc \<longleftrightarrow>
     exact_fields (SETUP_SUBMIT_STRING_FIELDS @ [SETUP_SUBMIT_BOOL_FIELD]) [] doc \<and> length doc = 6 \<and>
     list_all (\<lambda>name. Some name \<in> set (map fst doc)) (SETUP_SUBMIT_BOOL_FIELD # SETUP_SUBMIT_STRING_FIELDS)"

definition populate_request :: "cjson \<Rightarrow> json_fields \<Rightarrow> setup_request option" where
  "populate_request cj doc =
     (let view = (\<lambda>name. string_view_from_item (cj_item cj doc (ascii name)))
      in case (view ''setupCode'', view ''deviceName'', view ''apSsid'', view ''apPassphrase'',
               view ''adminPassword'', cj_item cj doc (ascii ''requireSerialConfirmation'')) of
           (Some code, Some name, Some ssid, Some passphrase, Some password, Some (JBool confirmation)) \<Rightarrow>
             Some \<lparr>sq_setup_code = code, sq_device_name = name, sq_ap_ssid = ssid,
               sq_ap_passphrase = passphrase, sq_admin_password = password,
               sq_require_serial_confirmation = confirmation\<rparr>
         | _ \<Rightarrow> None)"

fun map_prepare_result :: "setup_result \<Rightarrow> web_setup_submit_outcome" where
  "map_prepare_result APP_V2_SETUP_MALFORMED_CODE = (WEB_SETUP_SUBMIT_MALFORMED_CODE, APP_ERROR_NONE)"
| "map_prepare_result APP_V2_SETUP_CODE_MISMATCH = (WEB_SETUP_SUBMIT_CODE_MISMATCH, APP_ERROR_NONE)"
| "map_prepare_result APP_V2_SETUP_CODE_CONSUMED = (WEB_SETUP_SUBMIT_CODE_CONSUMED, APP_ERROR_NONE)"
| "map_prepare_result APP_V2_SETUP_ALREADY_PROVISIONED = (WEB_SETUP_SUBMIT_ALREADY_PROVISIONED, APP_ERROR_NONE)"
| "map_prepare_result APP_V2_SETUP_INVALID_DEVICE_NAME = (WEB_SETUP_SUBMIT_INVALID_DEVICE_NAME, APP_ERROR_NONE)"
| "map_prepare_result APP_V2_SETUP_INVALID_AP_SSID = (WEB_SETUP_SUBMIT_INVALID_AP_SSID, APP_ERROR_NONE)"
| "map_prepare_result APP_V2_SETUP_INVALID_AP_PASSPHRASE = (WEB_SETUP_SUBMIT_INVALID_AP_PASSPHRASE, APP_ERROR_NONE)"
| "map_prepare_result APP_V2_SETUP_INVALID_ADMIN_PASSWORD = (WEB_SETUP_SUBMIT_INVALID_ADMIN_PASSWORD, APP_ERROR_NONE)"
| "map_prepare_result APP_V2_SETUP_INVALID_CURRENT_SETTINGS = (WEB_SETUP_SUBMIT_INTERNAL, APP_ERROR_STORAGE_CORRUPT)"
| "map_prepare_result APP_V2_SETUP_OK = (WEB_SETUP_SUBMIT_INTERNAL, APP_ERROR_NONE)"
| "map_prepare_result APP_V2_SETUP_INVALID_ARGUMENT = (WEB_SETUP_SUBMIT_INTERNAL, APP_ERROR_NONE)"
| "map_prepare_result APP_V2_SETUP_RANDOM_FAILURE = (WEB_SETUP_SUBMIT_INTERNAL, APP_ERROR_NONE)"
| "map_prepare_result APP_V2_SETUP_INVALID_PASSWORD_MATERIAL = (WEB_SETUP_SUBMIT_INTERNAL, APP_ERROR_NONE)"

text \<open>The submission once the request is known, up to the prepared candidate.\<close>

definition setup_candidate ::
    "'w web_setup_submit_ops \<Rightarrow> setup_session \<Rightarrow> setup_request \<Rightarrow> 'w \<Rightarrow>
      (web_setup_submit_outcome + device_settings) \<times> 'w" where
  "setup_candidate ops session request w =
     (case uo_settings_read ops w of (settings_result, current, w) \<Rightarrow>
        if settings_result \<noteq> APP_ERROR_NONE then (Inl (WEB_SETUP_SUBMIT_SETTINGS_UNAVAILABLE, settings_result), w)
        else (case uo_password_create ops (sq_admin_password request) w of (password_result, material, w) \<Rightarrow>
          if password_result \<noteq> APP_ERROR_NONE
          then (Inl (if password_result = APP_ERROR_INVALID_ARGUMENT
                     then (WEB_SETUP_SUBMIT_INVALID_ADMIN_PASSWORD, APP_ERROR_NONE)
                     else (WEB_SETUP_SUBMIT_PASSWORD_DERIVATION_FAILED, password_result)), w)
          else (case app_v2_setup_prepare_candidate (Some session) (Some request) (Some current) (Some material) of
            (prepare_result, candidate) \<Rightarrow>
              if prepare_result \<noteq> APP_V2_SETUP_OK then (Inl (map_prepare_result prepare_result), w)
              else (Inr candidate, w))))"

text \<open>The outcome, the response when there is one, the session and the state.\<close>

definition setup_commit ::
    "'w web_setup_submit_ops \<Rightarrow> setup_session \<Rightarrow> device_settings \<Rightarrow> 'w \<Rightarrow>
      web_setup_submit_outcome \<times> setup_accepted option \<times> setup_session \<times> 'w" where
  "setup_commit ops session candidate w =
     (case uo_settings_replace ops candidate w of (commit_result, changed, w) \<Rightarrow>
        if commit_result \<noteq> APP_ERROR_NONE then ((WEB_SETUP_SUBMIT_COMMIT_FAILED, commit_result), None, session, w)
        else (case app_v2_setup_session_consume session of (consumed, session) \<Rightarrow>
          if consumed \<noteq> APP_V2_SETUP_OK then ((WEB_SETUP_SUBMIT_INTERNAL, APP_ERROR_NONE), None, session, w)
          else ((WEB_SETUP_SUBMIT_OK, APP_ERROR_NONE), Some app_v2_setup_accepted_response_init, session, w)))"

definition web_setup_submit_handle ::
    "cjson \<Rightarrow> u8 list \<Rightarrow> 'w web_setup_submit_ops option \<Rightarrow> setup_session option \<Rightarrow> 'w \<Rightarrow>
      web_setup_submit_outcome \<times> setup_accepted option \<times> u8 list \<times> setup_session option \<times> 'w" where
  "web_setup_submit_handle cj body ops session w =
     (case ops of
        None \<Rightarrow> ((WEB_SETUP_SUBMIT_INTERNAL, APP_ERROR_NONE), None, body, session, w)
      | Some ops \<Rightarrow>
          (case session of
             None \<Rightarrow> ((WEB_SETUP_SUBMIT_INTERNAL, APP_ERROR_NONE), None, zeros (length body), session, w)
           | Some current_session \<Rightarrow>
               if body = [] then ((WEB_SETUP_SUBMIT_INTERNAL, APP_ERROR_NONE), None, body, session, w)
               else (case parse_exact_body cj body of
                   (None, body) \<Rightarrow> ((WEB_SETUP_SUBMIT_INVALID_BODY, APP_ERROR_NONE), None, body, session, w)
                 | (Some doc, body) \<Rightarrow>
                     if \<not> exact_setup_fields doc
                     then ((WEB_SETUP_SUBMIT_INVALID_BODY, APP_ERROR_NONE), None, body, session, w)
                     else (case populate_request cj doc of
                         None \<Rightarrow> ((WEB_SETUP_SUBMIT_INVALID_BODY, APP_ERROR_NONE), None, body, session, w)
                       | Some request \<Rightarrow>
                           (case setup_candidate ops current_session request w of
                              (Inl outcome, w) \<Rightarrow> (outcome, None, body, session, w)
                            | (Inr candidate, w) \<Rightarrow>
                                (case setup_commit ops current_session candidate w of
                                  (outcome, response, session, w) \<Rightarrow>
                                    (outcome, response, body, Some session, w)))))))"

section \<open>The production operations\<close>

definition setup_settings_read ::
    "'n web_port \<Rightarrow> 'n web_state \<Rightarrow> app_error \<times> device_settings \<times> 'n web_state" where
  "setup_settings_read port w =
     (case device_settings_read (wp_nvs port) (ws_module w) of
        (result, settings, m) \<Rightarrow> (result, settings, w\<lparr>ws_module := m\<rparr>))"

definition setup_settings_replace ::
    "'n web_port \<Rightarrow> device_settings \<Rightarrow> 'n web_state \<Rightarrow> app_error \<times> bool \<times> 'n web_state" where
  "setup_settings_replace port settings w =
     (case device_settings_replace (wp_nvs port) (Some settings) (ws_module w) of
        (result, changed, m) \<Rightarrow> (result, changed, w\<lparr>ws_module := m\<rparr>))"

definition setup_password_create ::
    "'n web_port \<Rightarrow> string_view \<Rightarrow> 'n web_state \<Rightarrow> app_error \<times> password_material \<times> 'n web_state" where
  "setup_password_create port password w =
     (case auth_core_password_create (wp_derive port) (wp_salt port) (password_text password) of
        Inl e \<Rightarrow> (e, zero_material, w)
      | Inr r \<Rightarrow>
          if pr_iterations r \<noteq> AUTH_PBKDF2_ITERATIONS then (APP_ERROR_INTERNAL, zero_material, w)
          else (APP_ERROR_NONE,
            \<lparr>pm_credential_version = APP_V2_CREDENTIAL_VERSION,
             pm_password_algorithm_version = APP_V2_PASSWORD_ALGORITHM_VERSION,
             pm_password_iterations = pr_iterations r, pm_password_salt = pr_salt r,
             pm_password_verifier = pr_hash r\<rparr>, w))"

definition setup_submit_ops :: "'n web_port \<Rightarrow> 'n web_state web_setup_submit_ops" where
  "setup_submit_ops port =
     \<lparr>uo_settings_read = setup_settings_read port, uo_password_create = setup_password_create port,
      uo_settings_replace = setup_settings_replace port\<rparr>"

section \<open>The handlers\<close>

text \<open>
  The environment of a request: the body and its buffer, cJSON, whether a response could be
  sent, and the answer of the delayed restart.  A reply is its status with the error code or
  the document.  The clearing of the setup code in the provisioning module, the asked-for
  delayed restart and the immediate one are flags of the state.
\<close>

record setup_env =
  ue_receive :: "receive_answer list \<Rightarrow> nat \<Rightarrow> receive_answer"
  ue_allocate :: bool
  ue_cjson :: cjson
  ue_sent :: bool
  ue_restart :: app_error

record 'n setup_server =
  us_web :: "'n web_state"
  us_session :: setup_session
  us_code_cleared :: bool
  us_restart_scheduled :: bool
  us_restarted :: bool

datatype setup_reply = Setup_Error nat app_error | Setup_Document nat "u8 list"

definition send_setup_state :: "setup_env \<Rightarrow> web_configuration \<Rightarrow> setup_reply" where
  "send_setup_state env configuration =
     (let cj = ue_cjson env
      in case (do {
           _ \<leftarrow> (if cj_create cj 0 then Some () else None);
           doc \<leftarrow> cj_add cj [] (ascii ''provisioned'') (JBool False);
           doc \<leftarrow> cj_add cj doc (ascii ''deviceName'') (JString (c_text (wc_setup_device_name configuration)));
           cj_print cj doc
         }) of None \<Rightarrow> Setup_Error 500 APP_ERROR_INTERNAL | Some json \<Rightarrow> Setup_Document 200 json)"

definition setup_state_handler :: "setup_env \<Rightarrow> 'n setup_server \<Rightarrow> setup_reply" where
  "setup_state_handler env s =
     (if wc_mode (ws_configuration (us_web s)) \<noteq> WEB_SERVER_MODE_SETUP then Setup_Error 404 APP_ERROR_NOT_FOUND
      else send_setup_state env (ws_configuration (us_web s)))"

definition status_for_detail :: "app_error \<Rightarrow> nat" where
  "status_for_detail detail =
     (if detail = APP_ERROR_STORAGE_FULL then 507
      else if detail \<in> {APP_ERROR_STORAGE_UNAVAILABLE, APP_ERROR_STORAGE_CORRUPT, APP_ERROR_TIMEOUT} then 503
      else 500)"

fun send_setup_submit_error :: "web_setup_submit_outcome \<Rightarrow> setup_reply" where
  "send_setup_submit_error (result, detail) =
     (case result of
        WEB_SETUP_SUBMIT_INVALID_BODY \<Rightarrow> Setup_Error 400 APP_ERROR_INVALID_ARGUMENT
      | WEB_SETUP_SUBMIT_MALFORMED_CODE \<Rightarrow> Setup_Error 400 APP_ERROR_INVALID_ARGUMENT
      | WEB_SETUP_SUBMIT_CODE_MISMATCH \<Rightarrow> Setup_Error 401 APP_ERROR_AUTH_FAILED
      | WEB_SETUP_SUBMIT_CODE_CONSUMED \<Rightarrow> Setup_Error 409 APP_ERROR_CONFLICT
      | WEB_SETUP_SUBMIT_ALREADY_PROVISIONED \<Rightarrow> Setup_Error 409 APP_ERROR_CONFLICT
      | WEB_SETUP_SUBMIT_INVALID_DEVICE_NAME \<Rightarrow> Setup_Error 400 APP_ERROR_INVALID_ARGUMENT
      | WEB_SETUP_SUBMIT_INVALID_AP_SSID \<Rightarrow> Setup_Error 400 APP_ERROR_INVALID_ARGUMENT
      | WEB_SETUP_SUBMIT_INVALID_AP_PASSPHRASE \<Rightarrow> Setup_Error 400 APP_ERROR_INVALID_ARGUMENT
      | WEB_SETUP_SUBMIT_INVALID_ADMIN_PASSWORD \<Rightarrow> Setup_Error 400 APP_ERROR_INVALID_ARGUMENT
      | WEB_SETUP_SUBMIT_SETTINGS_UNAVAILABLE \<Rightarrow> Setup_Error (status_for_detail detail) detail
      | WEB_SETUP_SUBMIT_PASSWORD_DERIVATION_FAILED \<Rightarrow> Setup_Error 500 APP_ERROR_INTERNAL
      | WEB_SETUP_SUBMIT_COMMIT_FAILED \<Rightarrow> Setup_Error (status_for_detail detail) detail
      | _ \<Rightarrow> Setup_Error 500 APP_ERROR_INTERNAL)"

definition send_setup_accepted :: "setup_env \<Rightarrow> setup_accepted \<Rightarrow> setup_reply" where
  "send_setup_accepted env accepted =
     (let cj = ue_cjson env
      in case (do {
           _ \<leftarrow> (if cj_create cj 0 then Some () else None);
           doc \<leftarrow> cj_add cj [] (ascii ''accepted'') (JBool (sa_accepted accepted));
           doc \<leftarrow> cj_add cj doc (ascii ''restartRequired'') (JBool (sa_restart_required accepted));
           doc \<leftarrow> cj_add cj doc (ascii ''connectionWillClose'') (JBool (sa_connection_will_close accepted));
           doc \<leftarrow> cj_add cj doc (ascii ''reprovisioningRequired'') (JBool (sa_reprovisioning_required accepted));
           cj_print cj doc
         }) of None \<Rightarrow> Setup_Error 500 APP_ERROR_INTERNAL | Some json \<Rightarrow> Setup_Document 202 json)"

definition receive_setup_body ::
    "setup_env \<Rightarrow> nat \<Rightarrow> receive_answer list \<Rightarrow> receive_answer \<times> receive_answer list" where
  "receive_setup_body env capacity answers =
     (let answer = ue_receive env answers capacity in (answer, answers @ [answer]))"

text \<open>After an accepted submission: the reply and the restart.\<close>

definition setup_finish :: "setup_env \<Rightarrow> setup_accepted \<Rightarrow> 'n setup_server \<Rightarrow> setup_reply \<times> 'n setup_server" where
  "setup_finish env accepted s =
     (let s = s\<lparr>us_code_cleared := True\<rparr>;
          reply = send_setup_accepted env accepted
      in (reply,
          if ue_sent env \<and> sa_restart_required accepted
          then if ue_restart env \<noteq> APP_ERROR_NONE then s\<lparr>us_restarted := True\<rparr>
               else s\<lparr>us_restart_scheduled := True\<rparr>
          else s))"

definition setup_submit_handler ::
    "'n web_port \<Rightarrow> setup_env \<Rightarrow> http_request \<Rightarrow> 'n setup_server \<Rightarrow> setup_reply \<times> 'n setup_server" where
  "setup_submit_handler port env rq s =
     (if wc_mode (ws_configuration (us_web s)) \<noteq> WEB_SERVER_MODE_SETUP then (Setup_Error 409 APP_ERROR_CONFLICT, s)
      else if \<not> ue_allocate env then (Setup_Error 500 APP_ERROR_INTERNAL, s)
      else (case web_adapter_read_bounded_body (receive_setup_body env) (rq_content_len rq)
                   (APP_V2_JSON_BODY_MAX_BYTES + 1) APP_V2_JSON_BODY_MAX_BYTES [] of
        (body_result, received, answers) \<Rightarrow>
          if body_result \<noteq> APP_ERROR_NONE then (Setup_Error 400 APP_ERROR_INVALID_ARGUMENT, s)
          else (case web_setup_submit_handle (ue_cjson env)
                  (received @ zeros (APP_V2_JSON_BODY_MAX_BYTES + 1 - length received))
                  (Some (setup_submit_ops port)) (Some (us_session s)) (us_web s) of
            (outcome, accepted, body, session, w) \<Rightarrow>
              (let s = s\<lparr>us_web := w, us_session := the session\<rparr>
               in if fst outcome \<noteq> WEB_SETUP_SUBMIT_OK then (send_setup_submit_error outcome, s)
                  else setup_finish env (the accepted) s))))"

end
