(* ===== verification/Web_Setup_Safety.thy ===== *)
theory Web_Setup_Safety
  imports Web_Setup Web_Login_Safety
begin

text \<open>
  What the first setup guarantees: it needs the code of the running device, the device is
  provisioned with exactly the data of the request, the code is given up only when the new
  settings are stored, and it serves once.  And what it does not: a device whose response got
  lost stays in setup mode.
\<close>

section \<open>The submission on the server\<close>

lemma setup_ops_production:
  "setup_settings_read = production_settings_read" "setup_settings_replace = production_settings_replace"
  "setup_password_create = production_password_create"
  by (intro ext; simp add: setup_settings_read_def production_settings_read_def setup_settings_replace_def
      production_settings_replace_def setup_password_create_def production_password_create_def)+

lemma map_prepare_result_not_ok [simp]:
  "map_prepare_result x = (r, d) \<Longrightarrow> r \<notin> {WEB_SETUP_SUBMIT_OK, WEB_SETUP_SUBMIT_COMMIT_FAILED}"
  by (cases x) auto

context web_production
begin

lemma setup_create_law:
  assumes "setup_password_create port v w = (e, m, w')"
  shows "w' = w \<and> length (pm_password_salt m) = 16 \<and> length (pm_password_verifier m) = 32 \<and>
    (e = APP_ERROR_NONE \<longrightarrow> made_password port v m)"
proof -
  have "so_password_create (web_settings_production_ops port) v w = (e, m, w')"
    using assms by (simp add: setup_ops_production web_settings_production_ops_def)
  then show ?thesis by (rule backend.create_law)
qed

lemma candidate_handled:
  assumes "setup_candidate (setup_submit_ops port) session rq w = (out, w')" and "reached w"
    and "length (sc_code session) = 9"
  shows "reached w' \<and> held w' = held w \<and> rest_of w' = rest_of w \<and>
    (case out of
       Inl (r, d) \<Rightarrow> r \<notin> {WEB_SETUP_SUBMIT_OK, WEB_SETUP_SUBMIT_COMMIT_FAILED}
     | Inr candidate \<Rightarrow> \<exists>cur m. held w = Some (canonical cur) \<and> made_password port (sq_admin_password rq) m \<and>
         setup_refusal session rq cur = APP_V2_SETUP_OK \<and> candidate = provisioned_with rq m cur \<and>
         settings_good candidate)"
proof -
  obtain e cur w1 where read: "setup_settings_read port w = (e, cur, w1)"
    by (cases "setup_settings_read port w") auto
  note r = read_production [OF read [unfolded setup_ops_production] assms(2)]
  obtain e2 m w2 where create: "setup_password_create port (sq_admin_password rq) w1 = (e2, m, w2)"
    by (cases "setup_password_create port (sq_admin_password rq) w1") auto
  note c = setup_create_law [OF create]
  show ?thesis
  proof (cases "e = APP_ERROR_NONE \<and> e2 = APP_ERROR_NONE")
    case True
    then have cur: "settings_sized cur" "app_v2_device_settings_validate (Some cur) = APP_V2_SETTINGS_OK"
      "held w = Some (canonical cur)" using r by simp_all
    have sized: "length (pm_password_salt m) = 16" "length (pm_password_verifier m) = 32" using c by simp_all
    note p = setup_prepare_spec [OF cur(1,2) sized assms(3), of rq]
    have out: "out = (case app_v2_setup_prepare_candidate (Some session) (Some rq) (Some cur) (Some m) of
        (x, candidate) \<Rightarrow> if x \<noteq> APP_V2_SETUP_OK then Inl (map_prepare_result x) else Inr candidate)"
      and w': "w' = w1"
      using assms(1) True c
      by (auto simp: setup_candidate_def setup_submit_ops_def read create split: prod.splits if_splits)
    show ?thesis
    proof (cases "setup_refusal session rq cur = APP_V2_SETUP_OK \<and> material_good m")
      case good: True
      then have "out = Inr (provisioned_with rq m cur)" by (simp add: out p)
      moreover have "settings_good (provisioned_with rq m cur)"
        using provisioned_with_good [OF cur(1,2)] good by blast
      ultimately show ?thesis using r c w' good cur(3) True by auto
    next
      case False
      then have "out = Inl (map_prepare_result (if setup_refusal session rq cur \<noteq> APP_V2_SETUP_OK
          then setup_refusal session rq cur else APP_V2_SETUP_INVALID_PASSWORD_MATERIAL))"
        by (cases "setup_refusal session rq cur = APP_V2_SETUP_OK") (simp_all add: out p)
      then obtain x where "out = Inl (map_prepare_result x)" by blast
      then show ?thesis using r w' map_prepare_result_not_ok by (auto split: prod.splits)
    qed
  next
    case False
    then show ?thesis
      using assms(1) r c
      by (auto simp: setup_candidate_def setup_submit_ops_def read create split: if_splits)
  qed
qed

lemma commit_handled:
  assumes "setup_commit (setup_submit_ops port) session candidate w = ((result, detail), response, session', w')"
    and "reached w" and "settings_good candidate" and "\<not> sc_consumed session"
  shows "reached w' \<and> rest_of w' = rest_of w \<and>
    (if result = WEB_SETUP_SUBMIT_OK
     then held w' = Some (canonical candidate) \<and> session' = \<lparr>sc_code = zeros 9, sc_consumed = True\<rparr> \<and>
       response = Some app_v2_setup_accepted_response_init
     else result = WEB_SETUP_SUBMIT_COMMIT_FAILED \<and> session' = session \<and>
       (detail \<notin> {APP_ERROR_COMMIT_UNCERTAIN, APP_ERROR_INTERNAL} \<longrightarrow> held w' = held w))"
proof -
  obtain e changed w1 where rep: "setup_settings_replace port candidate w = (e, changed, w1)"
    by (cases "setup_settings_replace port candidate w") auto
  have "settings_sized candidate" using assms(3) by (simp add: settings_good_def)
  note r = replace_production [OF rep [unfolded setup_ops_production] assms(2) this]
  show ?thesis
    using assms(1,4) r
    by (auto simp: setup_commit_def setup_submit_ops_def rep app_v2_setup_session_consume_def limit_defs
        split: if_splits)
qed

lemma submission_handled:
  assumes "web_setup_submit_handle cj body (Some (setup_submit_ops port)) (Some session) w =
      ((result, detail), response, body', session', w')"
    and "reached w" and "length (sc_code session) = 9"
  shows "body' = zeros (length body) \<and> reached w' \<and> rest_of w' = rest_of w \<and>
    (if result = WEB_SETUP_SUBMIT_OK
     then (\<exists>doc rq cur m. fst (parse_exact_body cj body) = Some doc \<and> exact_setup_fields doc \<and>
         populate_request cj doc = Some rq \<and> setup_refusal session rq cur = APP_V2_SETUP_OK \<and>
         made_password port (sq_admin_password rq) m \<and> held w = Some (canonical cur) \<and>
         held w' = Some (canonical (provisioned_with rq m cur)) \<and> settings_good (provisioned_with rq m cur)) \<and>
       session' = Some \<lparr>sc_code = zeros 9, sc_consumed = True\<rparr> \<and>
       response = Some app_v2_setup_accepted_response_init
     else session' = Some session \<and>
       (result \<noteq> WEB_SETUP_SUBMIT_COMMIT_FAILED \<or> detail \<notin> {APP_ERROR_COMMIT_UNCERTAIN, APP_ERROR_INTERNAL} \<longrightarrow>
          held w' = held w))"
proof (cases "body \<noteq> [] \<and> (\<exists>doc rq. fst (parse_exact_body cj body) = Some doc \<and> exact_setup_fields doc \<and>
    populate_request cj doc = Some rq)")
  case True
  then obtain doc rq where d: "body \<noteq> []" "parse_exact_body cj body = (Some doc, zeros (length body))"
    "exact_setup_fields doc" "populate_request cj doc = Some rq"
    by (metis parse_exact_wiped prod.collapse)
  obtain out w1 where c: "setup_candidate (setup_submit_ops port) session rq w = (out, w1)"
    by (cases "setup_candidate (setup_submit_ops port) session rq w")
  note h = candidate_handled [OF c assms(2,3)]
  show ?thesis
  proof (cases out)
    case (Inl o1)
    then show ?thesis using assms(1) d c h by (auto simp: web_setup_submit_handle_def)
  next
    case (Inr candidate)
    then obtain cur m where cm: "held w = Some (canonical cur)" "made_password port (sq_admin_password rq) m"
      "setup_refusal session rq cur = APP_V2_SETUP_OK" "candidate = provisioned_with rq m cur"
      "settings_good candidate" using h by auto
    obtain s2 where s2: "setup_commit (setup_submit_ops port) session candidate w1 =
        ((result, detail), response, s2, w')" "session' = Some s2" "body' = zeros (length body)"
      using assms(1) d c Inr by (auto simp: web_setup_submit_handle_def split: prod.splits)
    note k = commit_handled [OF s2(1) conjunct1 [OF h] cm(5) setup_refusal_ok(2) [OF cm(3)]]
    show ?thesis
    proof (cases "result = WEB_SETUP_SUBMIT_OK")
      case True
      then show ?thesis using k h cm d s2 by auto
    next
      case False
      then show ?thesis using k h s2 by auto
    qed
  qed
next
  case False
  have wiped: "snd (parse_exact_body cj body) = zeros (length body)" by simp
  from False show ?thesis
    using assms(1,2) wiped
    by (cases "parse_exact_body cj body") (auto simp: web_setup_submit_handle_def split: if_splits option.splits)
qed

end

section \<open>What a submission leaves alone\<close>

lemma submission_cases:
  assumes "web_setup_submit_handle cj body (Some ops) (Some session) w = (outcome, response, body', session', w')"
  obtains (refused) "w' = w" "session' = Some session" "fst outcome \<in> {WEB_SETUP_SUBMIT_INTERNAL, WEB_SETUP_SUBMIT_INVALID_BODY}"
  | (unprepared) rq where "setup_candidate ops session rq w = (Inl outcome, w')" "session' = Some session"
  | (prepared) rq candidate w1 s2 where "setup_candidate ops session rq w = (Inr candidate, w1)"
      "setup_commit ops session candidate w1 = (outcome, response, s2, w')" "session' = Some s2"
proof (cases "body = []")
  case True
  then show ?thesis using assms refused by (auto simp: web_setup_submit_handle_def)
next
  case False
  show ?thesis
  proof (cases "\<exists>doc rq. fst (parse_exact_body cj body) = Some doc \<and> exact_setup_fields doc \<and>
      populate_request cj doc = Some rq")
    case True
    then obtain doc b rq where d: "parse_exact_body cj body = (Some doc, b)" "exact_setup_fields doc"
      "populate_request cj doc = Some rq" by (metis prod.collapse)
    obtain out w1 where c: "setup_candidate ops session rq w = (out, w1)"
      by (cases "setup_candidate ops session rq w")
    show ?thesis
    proof (cases out)
      case (Inl o1)
      then show ?thesis using assms False d c unprepared by (auto simp: web_setup_submit_handle_def)
    next
      case (Inr candidate)
      then show ?thesis using assms False d c prepared
        by (auto simp: web_setup_submit_handle_def split: prod.splits)
    qed
  next
    case none: False
    then show ?thesis using assms False refused
      by (cases "parse_exact_body cj body") (auto simp: web_setup_submit_handle_def split: option.splits if_splits)
  qed
qed

lemma setup_candidate_frame:
  "setup_candidate (setup_submit_ops port) session rq w = (out, w') \<Longrightarrow> w' = w\<lparr>ws_module := ws_module w'\<rparr>"
  by (auto simp: setup_candidate_def setup_submit_ops_def setup_settings_read_def setup_password_create_def
      split: prod.splits sum.splits if_splits)

lemma setup_commit_frame:
  "setup_commit (setup_submit_ops port) session candidate w = (outcome, response, session', w') \<Longrightarrow>
     w' = w\<lparr>ws_module := ws_module w'\<rparr>"
  by (auto simp: setup_commit_def setup_submit_ops_def setup_settings_replace_def split: prod.splits if_splits)

lemma module_update_twice:
  "w' = w\<lparr>ws_module := a\<rparr>\<lparr>ws_module := ws_module w'\<rparr> \<Longrightarrow> w' = w\<lparr>ws_module := ws_module w'\<rparr>"
  by simp

lemma submission_frame:
  assumes "web_setup_submit_handle cj body (Some (setup_submit_ops port)) (Some session) w =
      (outcome, response, body', session', w')"
  shows "w' = w\<lparr>ws_module := ws_module w'\<rparr>"
  using assms
proof (cases rule: submission_cases)
  case (prepared rq candidate w1 s2)
  note f = setup_candidate_frame [OF prepared(1)] setup_commit_frame [OF prepared(2)]
  then show ?thesis by (metis module_update_twice)
qed (auto dest: setup_candidate_frame)

text \<open>For any operations at all: an accepted submission had a fresh code and consumes it.\<close>

lemma prepared_fresh: "setup_candidate ops session rq w = (Inr candidate, w') \<Longrightarrow> \<not> sc_consumed session"
  by (auto simp: setup_candidate_def app_v2_setup_prepare_candidate_def split: prod.splits if_splits)

lemma unprepared_not_ok: "setup_candidate ops session rq w = (Inl outcome, w') \<Longrightarrow> fst outcome \<noteq> WEB_SETUP_SUBMIT_OK"
  using map_prepare_result_not_ok
  by (cases outcome) (fastforce simp: setup_candidate_def split: prod.splits if_splits)

lemma accepted_consumes:
  assumes "web_setup_submit_handle cj body (Some ops) (Some session) w = ((result, detail), response, body', session', w')"
  shows "if result = WEB_SETUP_SUBMIT_OK
    then \<not> sc_consumed session \<and> session' = Some \<lparr>sc_code = zeros 9, sc_consumed = True\<rparr> \<and>
      response = Some app_v2_setup_accepted_response_init
    else session' = Some session"
  using assms
proof (cases rule: submission_cases)
  case (prepared rq candidate w1 s2)
  show ?thesis
    using prepared(2,3) prepared_fresh [OF prepared(1)]
    by (auto simp: setup_commit_def app_v2_setup_session_consume_def limit_defs split: prod.splits if_splits)
qed (auto dest: unprepared_not_ok)

section \<open>A device is provisioned once, with the code\<close>

text \<open>
  C31: A setup submission is exact.  On a running server, whatever NVS, memory and the library
  do, the body is wiped and nothing but the settings module changes.  An accepted submission
  read a document of exactly the six fields whose code is the one of the session, found the
  flash without a provisioned device, and leaves there those settings with the data of the
  request and a password record made from its password, valid for a provisioned device; the
  code is wiped and consumed.  A submission that is not accepted keeps the code for another try
  and leaves the flash as it was, unless a failed commit was reported as one that may have
  happened.
\<close>
theorem setup_submission_exact:
  assumes "web_production port committed pending w0"
    and "settings_run (wp_nvs port) (module_boot w0) (ws_module w)"
    and "length (sc_code session) = 9"
    and "web_setup_submit_handle cj body (Some (setup_submit_ops port)) (Some session) w =
      ((result, detail), response, body', session', w')"
  shows "body' = zeros (length body) \<and> w' = w\<lparr>ws_module := ws_module w'\<rparr> \<and>
    (if result = WEB_SETUP_SUBMIT_OK
     then (\<exists>doc rq cur m. fst (parse_exact_body cj body) = Some doc \<and> exact_setup_fields doc \<and>
         populate_request cj doc = Some rq \<and> setup_refusal session rq cur = APP_V2_SETUP_OK \<and>
         made_password port (sq_admin_password rq) m \<and> held_settings committed w = Some (canonical cur) \<and>
         held_settings committed w' = Some (canonical (provisioned_with rq m cur)) \<and>
         settings_good (provisioned_with rq m cur)) \<and>
       session' = Some \<lparr>sc_code = zeros 9, sc_consumed = True\<rparr>
     else session' = Some session \<and>
       (result \<noteq> WEB_SETUP_SUBMIT_COMMIT_FAILED \<or> detail \<notin> {APP_ERROR_COMMIT_UNCERTAIN, APP_ERROR_INTERNAL} \<longrightarrow>
          held_settings committed w' = held_settings committed w))"
proof -
  have "web_production.reached port w0 w"
    using assms(2) by (simp add: web_production.reached_def [OF assms(1)])
  from web_production.submission_handled [OF assms(1,4) this assms(3)] submission_frame [OF assms(4)]
  show ?thesis unfolding web_production.held_def [OF assms(1)] by (simp split: if_splits)
qed

text \<open>A sequence of submissions to one session: their results in order.\<close>

fun submit_all :: "'w web_setup_submit_ops \<Rightarrow> (cjson \<times> u8 list) list \<Rightarrow> setup_session \<Rightarrow> 'w \<Rightarrow>
    web_setup_submit_result list \<times> setup_session \<times> 'w" where
  "submit_all ops [] session w = ([], session, w)"
| "submit_all ops ((cj, body) # requests) session w =
     (case web_setup_submit_handle cj body (Some ops) (Some session) w of
        (outcome, response, body, session', w) \<Rightarrow>
          (case submit_all ops requests (the session') w of
             (results, session, w) \<Rightarrow> (fst outcome # results, session, w)))"

lemma consumed_refuses:
  assumes "sc_consumed session" and "submit_all ops requests session w = (results, session', w')"
  shows "WEB_SETUP_SUBMIT_OK \<notin> set results"
  using assms
proof (induction requests arbitrary: session w results session' w')
  case (Cons request requests)
  obtain cj body where request: "request = (cj, body)" by (cases request)
  obtain r d response b s w1 where h: "web_setup_submit_handle cj body (Some ops) (Some session) w =
      ((r, d), response, b, s, w1)" by (metis prod.exhaust)
  obtain rs s2 w2 where t: "submit_all ops requests (the s) w1 = (rs, s2, w2)" by (metis prod.exhaust)
  note a = accepted_consumes [OF h]
  have r: "r \<noteq> WEB_SETUP_SUBMIT_OK" "s = Some session" using a Cons.prems(1) by (auto split: if_splits)
  have "WEB_SETUP_SUBMIT_OK \<notin> set rs"
    by (rule Cons.IH [OF Cons.prems(1)]) (use t r(2) in simp)
  moreover have "submit_all ops requests session w1 = (rs, s2, w2)" using t r(2) by simp
  ultimately show ?case using Cons.prems(2) r by (auto simp: request h)
qed simp

text \<open>
  C32: A setup code serves once.  Whatever the operations answer, of all the submissions made to
  one session at most one is accepted, and none after it.
\<close>
theorem setup_code_serves_once:
  "length (filter (\<lambda>r. r = WEB_SETUP_SUBMIT_OK) (fst (submit_all ops requests session w))) \<le> 1"
proof (induction requests arbitrary: session w)
  case (Cons request requests)
  obtain cj body where request: "request = (cj, body)" by (cases request)
  obtain r d response b s w1 where h: "web_setup_submit_handle cj body (Some ops) (Some session) w =
      ((r, d), response, b, s, w1)" by (metis prod.exhaust)
  obtain rs s2 w2 where t: "submit_all ops requests (the s) w1 = (rs, s2, w2)" by (metis prod.exhaust)
  note a = accepted_consumes [OF h]
  show ?case
  proof (cases "r = WEB_SETUP_SUBMIT_OK")
    case True
    then have "sc_consumed (the s)" using a by simp
    from consumed_refuses [OF this t] True show ?thesis by (auto simp: request h t filter_empty_conv)
  next
    case False
    then show ?thesis using Cons.IH [of "the s" w1] by (simp add: request h t)
  qed
qed simp

section \<open>The handler\<close>

lemma submit_error_reply: "\<exists>status e. send_setup_submit_error outcome = Setup_Error status e"
  by (cases outcome; cases "fst outcome") auto

lemma setup_handler_cases:
  assumes "setup_submit_handler port env rq s = (reply, s')"
  obtains (kept) status e where "s' = s" "reply = Setup_Error status e"
  | (refused) cj body outcome response b session w status e where
      "web_setup_submit_handle cj body (Some (setup_submit_ops port)) (Some (us_session s)) (us_web s) =
        (outcome, response, b, session, w)"
      "fst outcome \<noteq> WEB_SETUP_SUBMIT_OK" "s' = s\<lparr>us_web := w, us_session := the session\<rparr>"
      "reply = Setup_Error status e"
  | (accepted) cj body detail response b session w where
      "web_setup_submit_handle cj body (Some (setup_submit_ops port)) (Some (us_session s)) (us_web s) =
        ((WEB_SETUP_SUBMIT_OK, detail), response, b, session, w)"
      "wc_mode (ws_configuration (us_web s)) = WEB_SERVER_MODE_SETUP"
      "setup_finish env (the response) (s\<lparr>us_web := w, us_session := the session\<rparr>) = (reply, s')"
proof (cases "wc_mode (ws_configuration (us_web s)) = WEB_SERVER_MODE_SETUP \<and> ue_allocate env")
  case True
  obtain r received answers where body: "web_adapter_read_bounded_body (receive_setup_body env) (rq_content_len rq)
      8193 8192 [] = (r, received, answers)"
    by (metis prod.exhaust)
  let ?body = "received @ zeros (8193 - length received)"
  obtain result detail response b session w where h: "web_setup_submit_handle (ue_cjson env) ?body
      (Some (setup_submit_ops port)) (Some (us_session s)) (us_web s) = ((result, detail), response, b, session, w)"
    by (metis prod.exhaust)
  show ?thesis
  proof (cases "r = APP_ERROR_NONE")
    case read: True
    show ?thesis
    proof (cases "result = WEB_SETUP_SUBMIT_OK")
      case ok: True
      then show ?thesis using assms True read h accepted by (simp add: setup_submit_handler_def limit_defs body)
    next
      case False
      then have "s' = s\<lparr>us_web := w, us_session := the session\<rparr>" "reply = send_setup_submit_error (result, detail)"
        using assms True read h by (simp_all add: setup_submit_handler_def limit_defs body)
      then show ?thesis using refused [OF h] False submit_error_reply [of "(result, detail)"] by auto
    qed
  next
    case False
    then show ?thesis using assms True kept by (auto simp: setup_submit_handler_def limit_defs body)
  qed
next
  case False
  have "s' = s \<and> (\<exists>status e. reply = Setup_Error status e)"
  proof (cases "wc_mode (ws_configuration (us_web s)) = WEB_SERVER_MODE_SETUP")
    case True
    then show ?thesis using False assms by (auto simp: setup_submit_handler_def)
  next
    case False
    then show ?thesis using assms by (auto simp: setup_submit_handler_def)
  qed
  then show ?thesis using kept by blast
qed

text \<open>
  C33: A lost response strands the device in setup mode.  When a submission was accepted and the
  response could not be sent, the flash holds the settings of a provisioned device and the setup
  code is used up, but no restart is asked for, the server stays in setup mode, and every
  further submission is answered with an error and asks for no restart either.
\<close>
theorem lost_setup_response_strands_device:
  assumes "web_production port committed pending w0"
    and "settings_run (wp_nvs port) (module_boot w0) (ws_module (us_web s))"
    and "length (sc_code (us_session s)) = 9" and "\<not> sc_consumed (us_session s)"
    and "setup_submit_handler port env rq s = (reply, s1)" and "sc_consumed (us_session s1)" and "\<not> ue_sent env"
    and "setup_submit_handler port later_env later_rq s1 = (later_reply, s2)"
  shows "(\<exists>x. held_settings committed (us_web s1) = Some x \<and> provisioned x) \<and>
    wc_mode (ws_configuration (us_web s2)) = WEB_SERVER_MODE_SETUP \<and>
    us_restart_scheduled s2 = us_restart_scheduled s \<and> us_restarted s2 = us_restarted s \<and>
    (\<exists>status e. later_reply = Setup_Error status e)"
  using assms(5)
proof (cases rule: setup_handler_cases)
  case (accepted cj body detail response b session w)
  note exact = setup_submission_exact [OF assms(1,2,3) accepted(1)]
  have w: "w = (us_web s)\<lparr>ws_module := ws_module w\<rparr>" using exact by simp
  from exact obtain rq1 cur m where x: "held_settings committed w = Some (canonical (provisioned_with rq1 m cur))"
    by auto
  have s1: "us_web s1 = w" "us_restart_scheduled s1 = us_restart_scheduled s" "us_restarted s1 = us_restarted s"
    using accepted(3) assms(7) by (auto simp: setup_finish_def Let_def)
  have mode: "wc_mode (ws_configuration (us_web s1)) = WEB_SERVER_MODE_SETUP"
    using accepted(2) w unfolding s1(1) by (metis web_state.select_convs(2) web_state.surjective web_state.update_convs(1))
  have later: "wc_mode (ws_configuration (us_web s2)) = WEB_SERVER_MODE_SETUP \<and>
      us_restart_scheduled s2 = us_restart_scheduled s1 \<and> us_restarted s2 = us_restarted s1 \<and>
      (\<exists>status e. later_reply = Setup_Error status e)"
    using assms(8)
  proof (cases rule: setup_handler_cases)
    case (kept status e)
    then show ?thesis using mode by simp
  next
    case (refused cj2 body2 outcome2 response2 b2 session2 w2 status e)
    have "w2 = (us_web s1)\<lparr>ws_module := ws_module w2\<rparr>" by (rule submission_frame [OF refused(1)])
    then have "ws_configuration w2 = ws_configuration (us_web s1)"
      by (metis web_state.select_convs(2) web_state.surjective web_state.update_convs(1))
    then show ?thesis using refused mode by simp
  next
    case accepted2: (accepted cj2 body2 detail2 response2 b2 session2 w2)
    then show ?thesis using accepted_consumes [OF accepted2(1)] assms(6) by simp
  qed
  have "provisioned (canonical (provisioned_with rq1 m cur))"
    by (simp add: canonical_def provisioned_with_def)
  then show ?thesis using x later s1 by auto
next
  case (refused cj body outcome response b session w status e)
  have "session = Some (us_session s)"
    using accepted_consumes [of cj body "setup_submit_ops port" "us_session s" "us_web s" "fst outcome" "snd outcome"]
      refused(1,2) by simp
  then show ?thesis using refused(3) assms(4,6) by simp
qed (use assms(4,6) in simp)

section \<open>A setup of a fresh device\<close>

definition setup_doc :: json_fields where
  "setup_doc = [(Some (ascii ''setupCode''), JString (ascii ''00000042'')),
     (Some (ascii ''deviceName''), JString (ascii ''Desk'')), (Some (ascii ''apSsid''), JString (ascii ''Net'')),
     (Some (ascii ''apPassphrase''), JString (ascii ''passphrase'')),
     (Some (ascii ''adminPassword''), JString old_password),
     (Some (ascii ''requireSerialConfirmation''), JBool True)]"

definition setup_rq :: setup_request where
  "setup_rq = \<lparr>sq_setup_code = Some (ascii ''00000042''), sq_device_name = Some (ascii ''Desk''),
     sq_ap_ssid = Some (ascii ''Net''), sq_ap_passphrase = Some (ascii ''passphrase''),
     sq_admin_password = Some old_password, sq_require_serial_confirmation = True\<rparr>"

definition fresh_session :: setup_session where
  "fresh_session = \<lparr>sc_code = ascii ''00000042'' @ [0], sc_consumed = False\<rparr>"

definition fresh_server :: "(u8 list option \<times> u8 list option) web_state" where
  "fresh_server = \<lparr>ws_module = sample_module, ws_configuration = zero_configuration\<lparr>wc_mode := WEB_SERVER_MODE_SETUP\<rparr>,
     ws_password_transition_in_progress = False, ws_auth = auth_core_init\<rparr>"

lemma setup_doc_fields:
  "field_of setup_doc (ascii ''setupCode'') = Some (JString (ascii ''00000042''))"
  "field_of setup_doc (ascii ''deviceName'') = Some (JString (ascii ''Desk''))"
  "field_of setup_doc (ascii ''apSsid'') = Some (JString (ascii ''Net''))"
  "field_of setup_doc (ascii ''apPassphrase'') = Some (JString (ascii ''passphrase''))"
  "field_of setup_doc (ascii ''adminPassword'') = Some (JString old_password)"
  "field_of setup_doc (ascii ''requireSerialConfirmation'') = Some (JBool True)"
  by (simp_all add: field_of_def setup_doc_def) (simp_all add: ascii_def)

lemma setup_doc_read:
  "exact_setup_fields setup_doc"
  "populate_request (sample_cjson setup_doc) setup_doc = Some setup_rq"
proof -
  show "exact_setup_fields setup_doc"
    by (simp add: exact_setup_fields_def setup_doc_def SETUP_SUBMIT_STRING_FIELDS_def SETUP_SUBMIT_BOOL_FIELD_def ascii_def)
  have "c_text old_password = old_password"
    using sample_passwords(4) by (auto simp: c_text_def takeWhile_eq_all_conv)
  moreover have "c_text (ascii t) = ascii t" if "t \<in> {''00000042'', ''Desk'', ''Net'', ''passphrase''}" for t
    using that by (auto simp: c_text_def ascii_def)
  ultimately show "populate_request (sample_cjson setup_doc) setup_doc = Some setup_rq"
    by (simp add: populate_request_def sample_cjson_def setup_doc_fields setup_rq_def string_view_from_item_def)
qed

lemma fresh_not_refused: "setup_refusal fresh_session setup_rq app_v2_device_settings_init_unprovisioned = APP_V2_SETUP_OK"
proof -
  have "valid_setup_code (Some (ascii ''00000042''))" "take 8 (sc_code fresh_session) = ascii ''00000042''"
    by code_simp+
  moreover have "view_valid_text (Some (ascii ''Desk'')) 1 32" "view_valid_text (Some (ascii ''Net'')) 1 32"
    "view_valid_text (Some (ascii ''passphrase'')) 8 63" "view_valid_text (Some old_password) 12 128"
    by code_simp+
  ultimately show ?thesis
    by (simp add: setup_refusal_def setup_rq_def fresh_session_def app_v2_device_settings_init_unprovisioned_def
        zero_settings_def)
qed

abbreviation fresh_settings :: device_settings where
  "fresh_settings \<equiv> provisioned_with setup_rq (password_of_length 12) app_v2_device_settings_init_unprovisioned"

lemma fresh_material: "material_good (password_of_length 12)"
  by (simp add: password_of_length_def material_good_def limit_defs replicate_eq_replicate)

lemma fresh_good: "settings_good fresh_settings"
  by (rule provisioned_with_good [OF unprovisioned_sized unprovisioned_valid fresh_not_refused fresh_material])

lemma fresh_submission:
  assumes "2 < n"
  shows "web_setup_submit_handle (sample_cjson setup_doc) (padded n [0x7b, 0x7d])
      (Some (setup_submit_ops sample_port)) (Some fresh_session) fresh_server =
    ((WEB_SETUP_SUBMIT_OK, APP_ERROR_NONE), Some app_v2_setup_accepted_response_init, zeros n,
     Some \<lparr>sc_code = zeros 9, sc_consumed = True\<rparr>, fresh_server\<lparr>ws_module := module_with fresh_settings\<rparr>)"
proof -
  have parse: "parse_exact_body (sample_cjson setup_doc) (padded n [0x7b, 0x7d]) = (Some setup_doc, zeros n)"
    by (rule text_body_parses) (use assms in simp_all)
  have read: "setup_settings_read sample_port fresh_server =
      (APP_ERROR_NONE, app_v2_device_settings_init_unprovisioned, fresh_server)"
    by (simp add: setup_settings_read_def sample_port_def fresh_server_def sample_module_on read_module_on)
  have create: "setup_password_create sample_port (Some old_password) fresh_server =
      (APP_ERROR_NONE, password_of_length 12, fresh_server)"
    using sample_create [of old_password fresh_server] sample_passwords
    by (simp add: setup_ops_production web_settings_production_ops_def)
  have "app_v2_setup_prepare_candidate (Some fresh_session) (Some setup_rq)
      (Some app_v2_device_settings_init_unprovisioned) (Some (password_of_length 12)) = (APP_V2_SETUP_OK, fresh_settings)"
    by (subst setup_prepare_spec [OF unprovisioned_sized unprovisioned_valid])
      (use fresh_material fresh_not_refused in \<open>auto simp: material_good_def fresh_session_def ascii_def\<close>)
  then have candidate: "setup_candidate (setup_submit_ops sample_port) fresh_session setup_rq fresh_server =
      (Inr fresh_settings, fresh_server)"
    using read create by (simp add: setup_candidate_def setup_submit_ops_def) (simp add: setup_rq_def)
  have distinct: "canonical app_v2_device_settings_init_unprovisioned \<noteq> canonical fresh_settings"
    by (auto simp: canonical_def provisioned_with_def app_v2_device_settings_init_unprovisioned_def
        zero_settings_def dest: arg_cong [where f = provisioned])
  have "device_settings_replace sample_nvs (Some fresh_settings) sample_module =
      (APP_ERROR_NONE, True, module_with fresh_settings)"
    unfolding sample_module_on
    by (rule replace_module_on [OF _ _ distinct]) (use fresh_good unprovisioned_sized unprovisioned_valid in \<open>simp_all add: settings_good_def\<close>)
  then have replaced: "setup_settings_replace sample_port fresh_settings fresh_server =
      (APP_ERROR_NONE, True, fresh_server\<lparr>ws_module := module_with fresh_settings\<rparr>)"
    by (simp add: setup_settings_replace_def sample_port_def fresh_server_def)
  have "setup_commit (setup_submit_ops sample_port) fresh_session fresh_settings fresh_server =
      ((WEB_SETUP_SUBMIT_OK, APP_ERROR_NONE), Some app_v2_setup_accepted_response_init,
       \<lparr>sc_code = zeros 9, sc_consumed = True\<rparr>, fresh_server\<lparr>ws_module := module_with fresh_settings\<rparr>)"
    using replaced by (simp add: setup_commit_def setup_submit_ops_def app_v2_setup_session_consume_def limit_defs)
      (simp add: fresh_session_def)
  then show ?thesis
    by (simp add: web_setup_submit_handle_def parse setup_doc_read candidate) (simp add: padded_def)
qed

lemma fresh_run: "settings_run (wp_nvs sample_port) (module_boot (None, None)) (ws_module fresh_server)"
  using sample_run by (simp add: sample_port_def fresh_server_def)

lemma setup_submission_exact_witness:
  "\<exists>cur m. fst (web_setup_submit_handle (sample_cjson setup_doc) (padded 3 [0x7b, 0x7d])
      (Some (setup_submit_ops sample_port)) (Some fresh_session) fresh_server) = (WEB_SETUP_SUBMIT_OK, APP_ERROR_NONE) \<and>
    setup_refusal fresh_session setup_rq cur = APP_V2_SETUP_OK \<and>
    made_password sample_port (Some old_password) m \<and>
    held_settings fst (fresh_server\<lparr>ws_module := module_with fresh_settings\<rparr>) =
      Some (canonical (provisioned_with setup_rq m cur))"
proof -
  have "length (sc_code fresh_session) = 9" by (simp add: fresh_session_def ascii_def)
  from setup_submission_exact [OF sample_web_laws fresh_run this fresh_submission [of 3]]
  obtain doc rq cur m where "fst (parse_exact_body (sample_cjson setup_doc) (padded 3 [0x7b, 0x7d])) = Some doc"
    "populate_request (sample_cjson setup_doc) doc = Some rq" "setup_refusal fresh_session rq cur = APP_V2_SETUP_OK"
    "made_password sample_port (sq_admin_password rq) m"
    "held_settings fst (fresh_server\<lparr>ws_module := module_with fresh_settings\<rparr>) = Some (canonical (provisioned_with rq m cur))"
    by auto
  note x = this
  have "parse_exact_body (sample_cjson setup_doc) (padded 3 [0x7b, 0x7d]) = (Some setup_doc, zeros 3)"
    by (rule text_body_parses) simp_all
  then have "rq = setup_rq" using x(1,2) setup_doc_read(2) by auto
  moreover have "sq_admin_password setup_rq = Some old_password" by (simp add: setup_rq_def)
  ultimately show ?thesis
    using x(3,4,5) fresh_submission [of 3] by auto
qed

definition lossy_env :: setup_env where
  "lossy_env = \<lparr>ue_receive = (\<lambda>answers n. Received [0x7b, 0x7d]), ue_allocate = True,
     ue_cjson = sample_cjson setup_doc, ue_sent = False, ue_restart = APP_ERROR_NONE\<rparr>"

definition fresh_setup :: "(u8 list option \<times> u8 list option) setup_server" where
  "fresh_setup = \<lparr>us_web = fresh_server, us_session = fresh_session, us_code_cleared = False,
     us_restart_scheduled = False, us_restarted = False\<rparr>"

lemma lossy_submission:
  "\<exists>reply s1. setup_submit_handler sample_port lossy_env post_request fresh_setup = (reply, s1) \<and>
     sc_consumed (us_session s1)"
proof -
  have "receive_loop (receive_setup_body lossy_env) 2 0 [] [] =
      (APP_ERROR_NONE, [0x7b, 0x7d], [Received [0x7b, 0x7d]])"
    by (simp add: receive_loop.simps receive_setup_body_def lossy_env_def Let_def)
  moreover have "[0x7b, 0x7d] @ zeros (8193 - 2) = padded 8193 [0x7b, 0x7d]" by (simp add: padded_def)
  moreover have "wc_mode (ws_configuration (us_web fresh_setup)) = WEB_SERVER_MODE_SETUP" "ue_allocate lossy_env"
    "rq_content_len post_request = 2" "ue_cjson lossy_env = sample_cjson setup_doc"
    by (simp_all add: fresh_setup_def fresh_server_def lossy_env_def post_request_def)
  moreover have "web_setup_submit_handle (sample_cjson setup_doc) (padded 8193 [0x7b, 0x7d])
      (Some (setup_submit_ops sample_port)) (Some (us_session fresh_setup)) (us_web fresh_setup) =
      ((WEB_SETUP_SUBMIT_OK, APP_ERROR_NONE), Some app_v2_setup_accepted_response_init, zeros 8193,
       Some \<lparr>sc_code = zeros 9, sc_consumed = True\<rparr>, fresh_server\<lparr>ws_module := module_with fresh_settings\<rparr>)"
    using fresh_submission [of 8193] by (simp add: fresh_setup_def)
  ultimately show ?thesis
    by (simp add: setup_submit_handler_def web_adapter_read_bounded_body_def limit_defs setup_finish_def Let_def)
qed

lemma lost_setup_response_strands_device_witness:
  "\<exists>reply s1. setup_submit_handler sample_port lossy_env post_request fresh_setup = (reply, s1) \<and>
     (\<exists>x. held_settings fst (us_web s1) = Some x \<and> provisioned x) \<and>
     \<not> us_restart_scheduled (snd (setup_submit_handler sample_port lossy_env post_request s1))"
proof -
  obtain reply s1 where one: "setup_submit_handler sample_port lossy_env post_request fresh_setup = (reply, s1)"
    "sc_consumed (us_session s1)" using lossy_submission by blast
  obtain reply2 s2 where two: "setup_submit_handler sample_port lossy_env post_request s1 = (reply2, s2)"
    by (metis prod.exhaust)
  have "settings_run (wp_nvs sample_port) (module_boot (None, None)) (ws_module (us_web fresh_setup))"
    "length (sc_code (us_session fresh_setup)) = 9" "\<not> sc_consumed (us_session fresh_setup)" "\<not> ue_sent lossy_env"
    "\<not> us_restart_scheduled fresh_setup"
    using fresh_run by (simp_all add: fresh_setup_def fresh_session_def ascii_def lossy_env_def)
  with lost_setup_response_strands_device [OF sample_web_laws _ _ _ one(1) one(2) _ two] one two show ?thesis by auto
qed

end
