(* ===== verification/Controls_Engine.thy ===== *)
theory Controls_Engine
  imports Factory_Reset App_Startup
begin

text \<open>
  The status indicator and the life of the controls task: the engine of
  \<open>device_controls/device_controls_logic.c\<close> over a table of operations.

  The table is a record of functions on a state \<open>'w\<close>, passed to every function of the engine;
  the engine only remembers whether it was set up with it.  \<open>record_first_error\<close> is, text for
  text, the one of \<open>device_controls_reset.c\<close>.
\<close>

section \<open>The engine\<close>

datatype controls_failure =
    DEVICE_CONTROLS_FAILURE_GENERIC
  | DEVICE_CONTROLS_FAILURE_INDICATOR
  | DEVICE_CONTROLS_FAILURE_CONFIRMATION
  | DEVICE_CONTROLS_FAILURE_GPIO_CONFIGURATION
  | DEVICE_CONTROLS_FAILURE_TASK_START
  | DEVICE_CONTROLS_FAILURE_TASK_STOP

datatype controls_resource =
    DEVICE_CONTROLS_RESOURCE_CONFIRM_SIGNAL
  | DEVICE_CONTROLS_RESOURCE_STOPPED_SIGNAL
  | DEVICE_CONTROLS_RESOURCE_STATUS_PIN

record controls_health =
  dh_last_error :: app_error
  dh_cleanup_error :: app_error
  dh_last_confirmation_error :: app_error
  dh_task_running :: bool
  dh_indicator_output_failed :: bool
  dh_confirmation_signal_failed :: bool
  dh_gpio_configuration_failed :: bool
  dh_task_start_failed :: bool
  dh_task_stop_failed :: bool

record 'w controls_ops =
  co_lock :: "'w \<Rightarrow> bool \<times> 'w"
  co_unlock :: "'w \<Rightarrow> bool \<times> 'w"
  co_signal_stopped :: "'w \<Rightarrow> bool \<times> 'w"
  co_write_indicator :: "bool \<Rightarrow> 'w \<Rightarrow> app_error \<times> 'w"
  co_request_stop :: "'w \<Rightarrow> 'w"
  co_clear_stop_request :: "'w \<Rightarrow> 'w"
  co_wait_stopped :: "u32 \<Rightarrow> 'w \<Rightarrow> app_error \<times> 'w"
  co_set_safe_output :: "'w \<Rightarrow> app_error \<times> 'w"
  co_reset_pin :: "'w \<Rightarrow> app_error \<times> 'w"
  co_delete_confirmation_signal :: "'w \<Rightarrow> 'w"
  co_delete_stopped_signal :: "'w \<Rightarrow> 'w"

record controls_engine =
  ce_operations_set :: bool
  ce_indicator_state :: device_indicator
  ce_health :: controls_health
  ce_initialized :: bool
  ce_task_stop_confirmed :: bool
  ce_confirmation_signal_owned :: bool
  ce_stopped_signal_owned :: bool
  ce_status_pin_owned :: bool

definition zero_controls_health :: controls_health where
  "zero_controls_health =
     \<lparr>dh_last_error = APP_ERROR_NONE, dh_cleanup_error = APP_ERROR_NONE,
      dh_last_confirmation_error = APP_ERROR_NONE, dh_task_running = False,
      dh_indicator_output_failed = False, dh_confirmation_signal_failed = False,
      dh_gpio_configuration_failed = False, dh_task_start_failed = False, dh_task_stop_failed = False\<rparr>"

definition zero_controls_engine :: controls_engine where
  "zero_controls_engine =
     \<lparr>ce_operations_set = False, ce_indicator_state = DEVICE_INDICATOR_BOOTING,
      ce_health = zero_controls_health, ce_initialized = False, ce_task_stop_confirmed = False,
      ce_confirmation_signal_owned = False, ce_stopped_signal_owned = False, ce_status_pin_owned = False\<rparr>"

text \<open>The blink patterns.\<close>

fun device_controls_indicator_on :: "device_indicator \<Rightarrow> u32 \<Rightarrow> bool" where
  "device_controls_indicator_on DEVICE_INDICATOR_READY elapsed_ms = True"
| "device_controls_indicator_on DEVICE_INDICATOR_BOOTING elapsed_ms = (elapsed_ms mod 1000 < 250)"
| "device_controls_indicator_on DEVICE_INDICATOR_EXECUTING elapsed_ms = (elapsed_ms mod 200 < 100)"
| "device_controls_indicator_on DEVICE_INDICATOR_DEGRADED elapsed_ms =
     (let position = elapsed_ms mod 2000 in position < 250 \<or> 500 \<le> position \<and> position < 750)"
| "device_controls_indicator_on DEVICE_INDICATOR_FATAL elapsed_ms = (elapsed_ms mod 500 < 250)"

section \<open>Updates under the lock\<close>

text \<open>An update of the engine between lock and unlock: it is kept when the unlock fails.\<close>

definition under_lock ::
    "'w controls_ops \<Rightarrow> (controls_engine \<Rightarrow> controls_engine) \<Rightarrow> controls_engine \<Rightarrow> 'w \<Rightarrow>
      app_error \<times> controls_engine \<times> 'w" where
  "under_lock ops f engine w =
     (case co_lock ops w of (locked, w) \<Rightarrow>
        if \<not> locked then (APP_ERROR_INTERNAL, engine, w)
        else (case co_unlock ops w of (unlocked, w) \<Rightarrow>
          (if unlocked then APP_ERROR_NONE else APP_ERROR_INTERNAL, f engine, w)))"

fun set_failure_flag :: "controls_failure \<Rightarrow> app_error \<Rightarrow> controls_health \<Rightarrow> controls_health" where
  "set_failure_flag DEVICE_CONTROLS_FAILURE_INDICATOR error health = health\<lparr>dh_indicator_output_failed := True\<rparr>"
| "set_failure_flag DEVICE_CONTROLS_FAILURE_CONFIRMATION error health =
     health\<lparr>dh_confirmation_signal_failed := True, dh_last_confirmation_error := error\<rparr>"
| "set_failure_flag DEVICE_CONTROLS_FAILURE_GPIO_CONFIGURATION error health =
     health\<lparr>dh_gpio_configuration_failed := True\<rparr>"
| "set_failure_flag DEVICE_CONTROLS_FAILURE_TASK_START error health = health\<lparr>dh_task_start_failed := True\<rparr>"
| "set_failure_flag DEVICE_CONTROLS_FAILURE_TASK_STOP error health = health\<lparr>dh_task_stop_failed := True\<rparr>"
| "set_failure_flag DEVICE_CONTROLS_FAILURE_GENERIC error health = health"

definition device_controls_engine_record_failure ::
    "'w controls_ops \<Rightarrow> app_error \<Rightarrow> controls_failure \<Rightarrow> bool \<Rightarrow> controls_engine \<Rightarrow> 'w \<Rightarrow>
      app_error \<times> controls_engine \<times> 'w" where
  "device_controls_engine_record_failure ops error failure cleanup_failure engine w =
     (if \<not> ce_initialized engine \<or> error = APP_ERROR_NONE then (APP_ERROR_INVALID_ARGUMENT, engine, w)
      else (case under_lock ops (\<lambda>engine.
               let health = (ce_health engine)\<lparr>dh_last_error := error\<rparr>;
                   health = (if cleanup_failure \<and> dh_cleanup_error health = APP_ERROR_NONE
                             then health\<lparr>dh_cleanup_error := error\<rparr> else health)
               in engine\<lparr>ce_health := set_failure_flag failure error health\<rparr>) engine w of
        (result, engine, w) \<Rightarrow> (if result \<noteq> APP_ERROR_NONE then result else error, engine, w)))"

definition set_task_running ::
    "'w controls_ops \<Rightarrow> bool \<Rightarrow> controls_engine \<Rightarrow> 'w \<Rightarrow> app_error \<times> controls_engine \<times> 'w" where
  "set_task_running ops running =
     under_lock ops (\<lambda>engine. engine\<lparr>ce_health := (ce_health engine)\<lparr>dh_task_running := running\<rparr>\<rparr>)"

text \<open>The output is the fatal state of the caller when the lock fails.\<close>

definition get_indicator_state ::
    "'w controls_ops \<Rightarrow> controls_engine \<Rightarrow> 'w \<Rightarrow> app_error \<times> device_indicator \<times> 'w" where
  "get_indicator_state ops engine w =
     (case under_lock ops (\<lambda>engine. engine) engine w of
        (result, engine, w) \<Rightarrow> (result, ce_indicator_state engine, w))"

definition device_controls_engine_set_indicator ::
    "'w controls_ops \<Rightarrow> device_indicator \<Rightarrow> controls_engine \<Rightarrow> 'w \<Rightarrow> app_error \<times> controls_engine \<times> 'w" where
  "device_controls_engine_set_indicator ops state engine w =
     (if \<not> ce_initialized engine then (APP_ERROR_CONFLICT, engine, w)
      else under_lock ops (\<lambda>engine. engine\<lparr>ce_indicator_state := state\<rparr>) engine w)"

definition record_runtime_failure ::
    "'w controls_ops \<Rightarrow> app_error \<Rightarrow> controls_failure \<Rightarrow> controls_engine \<Rightarrow> 'w \<Rightarrow>
      app_error \<times> controls_engine \<times> 'w" where
  "record_runtime_failure ops error failure engine w =
     (case device_controls_engine_record_failure ops error failure False engine w of (health_result, engine, w) \<Rightarrow>
        (case device_controls_engine_set_indicator ops DEVICE_INDICATOR_FATAL engine w of
          (indicator_result, engine, w) \<Rightarrow>
            (if health_result \<noteq> error then health_result
             else if indicator_result \<noteq> APP_ERROR_NONE then indicator_result else error, engine, w)))"

definition stop_task :: "'w controls_ops \<Rightarrow> controls_engine \<Rightarrow> 'w \<Rightarrow> app_error \<times> controls_engine \<times> 'w" where
  "stop_task ops engine w =
     (case set_task_running ops False engine w of (result, engine, w) \<Rightarrow>
        (case co_signal_stopped ops w of (signalled, w) \<Rightarrow>
          if signalled then (result, engine, w)
          else (case device_controls_engine_record_failure ops APP_ERROR_INTERNAL
                       DEVICE_CONTROLS_FAILURE_TASK_STOP True engine w of
              (health_result, engine, w) \<Rightarrow> (record_first_error health_result result, engine, w))))"

section \<open>Setting up and polling\<close>

definition device_controls_engine_init :: controls_engine where
  "device_controls_engine_init =
     zero_controls_engine\<lparr>ce_operations_set := True, ce_indicator_state := DEVICE_INDICATOR_BOOTING,
       ce_initialized := True, ce_task_stop_confirmed := True\<rparr>"

definition device_controls_engine_acquire_resource ::
    "controls_resource \<Rightarrow> controls_engine \<Rightarrow> app_error \<times> controls_engine" where
  "device_controls_engine_acquire_resource resource engine =
     (if \<not> ce_initialized engine then (APP_ERROR_CONFLICT, engine)
      else (APP_ERROR_NONE,
        case resource of
          DEVICE_CONTROLS_RESOURCE_CONFIRM_SIGNAL \<Rightarrow> engine\<lparr>ce_confirmation_signal_owned := True\<rparr>
        | DEVICE_CONTROLS_RESOURCE_STOPPED_SIGNAL \<Rightarrow> engine\<lparr>ce_stopped_signal_owned := True\<rparr>
        | DEVICE_CONTROLS_RESOURCE_STATUS_PIN \<Rightarrow> engine\<lparr>ce_status_pin_owned := True\<rparr>))"

definition device_controls_engine_task_started ::
    "'w controls_ops \<Rightarrow> controls_engine \<Rightarrow> 'w \<Rightarrow> app_error \<times> controls_engine \<times> 'w" where
  "device_controls_engine_task_started ops engine w =
     (if \<not> ce_initialized engine then (APP_ERROR_CONFLICT, engine, w)
      else set_task_running ops True (engine\<lparr>ce_task_stop_confirmed := False\<rparr>) w)"

text \<open>The error and whether to go on.\<close>

definition device_controls_engine_poll ::
    "'w controls_ops \<Rightarrow> bool \<Rightarrow> u32 \<Rightarrow> controls_engine \<Rightarrow> 'w \<Rightarrow> (app_error \<times> bool) \<times> controls_engine \<times> 'w" where
  "device_controls_engine_poll ops stop_requested elapsed_ms engine w =
     (if \<not> ce_initialized engine then ((APP_ERROR_CONFLICT, False), engine, w)
      else if stop_requested then (case stop_task ops engine w of (e, engine, w) \<Rightarrow> ((e, False), engine, w))
      else (case get_indicator_state ops engine w of (indicator_state_result, indicator, w) \<Rightarrow>
        if indicator_state_result \<noteq> APP_ERROR_NONE then ((indicator_state_result, False), engine, w)
        else (case co_write_indicator ops (device_controls_indicator_on indicator elapsed_ms) w of (write, w) \<Rightarrow>
          if write \<noteq> APP_ERROR_NONE
          then (case record_runtime_failure ops write DEVICE_CONTROLS_FAILURE_INDICATOR engine w of
              (failure, engine, w) \<Rightarrow> ((failure, True), engine, w))
          else ((APP_ERROR_NONE, True), engine, w))))"

section \<open>Health\<close>

definition device_controls_engine_get_health ::
    "'w controls_ops \<Rightarrow> controls_engine \<Rightarrow> 'w \<Rightarrow> controls_health \<times> 'w" where
  "device_controls_engine_get_health ops engine w =
     (if \<not> ce_operations_set engine then (ce_health engine, w)
      else (case co_lock ops w of (locked, w) \<Rightarrow>
        if \<not> locked then (zero_controls_health\<lparr>dh_last_error := APP_ERROR_INTERNAL\<rparr>, w)
        else (case co_unlock ops w of (unlocked, w) \<Rightarrow>
          (if unlocked then ce_health engine
           else (ce_health engine)\<lparr>dh_last_error := APP_ERROR_INTERNAL\<rparr>, w))))"

definition device_controls_health_derive_state :: "controls_health \<Rightarrow> subsystem_health_state" where
  "device_controls_health_derive_state health =
     (if dh_last_error health \<noteq> APP_ERROR_NONE \<or> dh_cleanup_error health \<noteq> APP_ERROR_NONE \<or>
         dh_last_confirmation_error health \<noteq> APP_ERROR_NONE \<or> dh_indicator_output_failed health \<or>
         dh_confirmation_signal_failed health \<or> dh_gpio_configuration_failed health \<or>
         dh_task_start_failed health \<or> dh_task_stop_failed health then SUBSYSTEM_HEALTH_FAILED
      else if \<not> dh_task_running health then SUBSYSTEM_HEALTH_UNAVAILABLE
      else SUBSYSTEM_HEALTH_HEALTHY)"

section \<open>Tearing down\<close>

definition device_controls_engine_owns_resources :: "controls_engine \<Rightarrow> bool" where
  "device_controls_engine_owns_resources engine \<longleftrightarrow> ce_confirmation_signal_owned engine \<or>
     ce_stopped_signal_owned engine \<or> ce_status_pin_owned engine"

definition cleanup_pin ::
    "'w controls_ops \<Rightarrow> controls_engine \<Rightarrow> 'w \<Rightarrow> app_error \<times> controls_engine \<times> 'w" where
  "cleanup_pin ops engine w =
     (if \<not> ce_status_pin_owned engine then (APP_ERROR_NONE, engine, w)
      else (case co_reset_pin ops w of (result, w) \<Rightarrow>
        (result, if result = APP_ERROR_NONE then engine\<lparr>ce_status_pin_owned := False\<rparr> else engine, w)))"

definition record_cleanup_failure ::
    "'w controls_ops \<Rightarrow> app_error \<Rightarrow> controls_failure \<Rightarrow> app_error \<Rightarrow> controls_engine \<Rightarrow> 'w \<Rightarrow>
      app_error \<times> controls_engine \<times> 'w" where
  "record_cleanup_failure ops error failure first_error engine w =
     (let first_error = record_first_error error first_error
      in if error = APP_ERROR_NONE then (first_error, engine, w)
         else (case device_controls_engine_record_failure ops error failure True engine w of
             (health_result, engine, w) \<Rightarrow> (record_first_error health_result first_error, engine, w)))"

definition cleanup_resources ::
    "'w controls_ops \<Rightarrow> controls_engine \<Rightarrow> 'w \<Rightarrow> app_error \<times> controls_engine \<times> 'w" where
  "cleanup_resources ops engine w =
     (case (if ce_status_pin_owned engine
            then (case co_set_safe_output ops w of (safe, w) \<Rightarrow>
              record_cleanup_failure ops safe DEVICE_CONTROLS_FAILURE_INDICATOR APP_ERROR_NONE engine w)
            else (APP_ERROR_NONE, engine, w)) of
        (first_error, engine, w) \<Rightarrow>
          (case cleanup_pin ops engine w of (result, engine, w) \<Rightarrow>
            (case record_cleanup_failure ops result DEVICE_CONTROLS_FAILURE_GENERIC first_error engine w of
              (first_error, engine, w) \<Rightarrow>
                let (engine, w) = (if ce_confirmation_signal_owned engine
                      then (engine\<lparr>ce_confirmation_signal_owned := False\<rparr>, co_delete_confirmation_signal ops w)
                      else (engine, w));
                    (engine, w) = (if ce_stopped_signal_owned engine
                      then (engine\<lparr>ce_stopped_signal_owned := False\<rparr>, co_delete_stopped_signal ops w)
                      else (engine, w))
                in (first_error, engine, w))))"

definition record_stop_wait_failure ::
    "'w controls_ops \<Rightarrow> app_error \<Rightarrow> controls_engine \<Rightarrow> 'w \<Rightarrow> app_error \<times> controls_engine \<times> 'w" where
  "record_stop_wait_failure ops wait_error engine w =
     (case device_controls_engine_record_failure ops wait_error DEVICE_CONTROLS_FAILURE_TASK_STOP True engine w of
        (health_result, engine, w) \<Rightarrow>
          if health_result \<noteq> wait_error then (health_result, engine, w)
          else (case device_controls_engine_get_health ops engine w of (health, w) \<Rightarrow>
            (if dh_cleanup_error health \<noteq> APP_ERROR_NONE then dh_cleanup_error health else wait_error, engine, w)))"

definition finalize_deinit ::
    "'w controls_ops \<Rightarrow> app_error \<Rightarrow> controls_engine \<Rightarrow> 'w \<Rightarrow> app_error \<times> controls_engine \<times> 'w" where
  "finalize_deinit ops cleanup_error engine w =
     (if device_controls_engine_owns_resources engine then (cleanup_error, engine, w)
      else (case under_lock ops (\<lambda>engine. engine\<lparr>ce_indicator_state := DEVICE_INDICATOR_BOOTING\<rparr>)
                   (engine\<lparr>ce_initialized := False\<rparr>) (co_clear_stop_request ops w) of
        (result, engine, w) \<Rightarrow> (if cleanup_error \<noteq> APP_ERROR_NONE then cleanup_error else result, engine, w)))"

definition device_controls_engine_deinit ::
    "'w controls_ops \<Rightarrow> u32 \<Rightarrow> controls_engine \<Rightarrow> 'w \<Rightarrow> app_error \<times> controls_engine \<times> 'w" where
  "device_controls_engine_deinit ops timeout_ms engine w =
     (if timeout_ms = 0 then (APP_ERROR_INVALID_ARGUMENT, engine, w)
      else if \<not> ce_initialized engine \<and> \<not> device_controls_engine_owns_resources engine
      then (APP_ERROR_NONE, engine, w)
      else (let release = (\<lambda>engine w. case cleanup_resources ops engine w of
                  (cleanup_error, engine, w) \<Rightarrow> finalize_deinit ops cleanup_error engine w)
            in if ce_task_stop_confirmed engine then release engine w
               else (case co_wait_stopped ops timeout_ms (co_request_stop ops w) of (wait, w) \<Rightarrow>
                 if wait \<noteq> APP_ERROR_NONE then record_stop_wait_failure ops wait engine w
                 else (case set_task_running ops False (engine\<lparr>ce_task_stop_confirmed := True\<rparr>) w of
                   (running_result, engine, w) \<Rightarrow>
                     if running_result \<noteq> APP_ERROR_NONE
                     then device_controls_engine_record_failure ops running_result
                            DEVICE_CONTROLS_FAILURE_TASK_STOP True engine w
                     else release engine w))))"

end
