(* ===== verification/Device_Controls.thy ===== *)
theory Device_Controls
  imports Controls_Engine Macro_Executor Web_Api
begin

text \<open>
  The controls of the device: the adapter of \<open>device_controls/device_controls.c\<close> that runs the
  engine on GPIO, FreeRTOS semaphores and a task, the confirmation signal, and the \<open>confirm\<close>
  command of the console (\<open>serial_console/serial_console_confirmation.c\<close>).

  A binary semaphore is \<open>None\<close> before it is created and after it is deleted, else whether it is
  given; giving one that is given fails, taking one that is not given waits for another task.
  The critical sections cannot fail.  What the hardware and the system answer comes from
  \<open>hw_answers\<close>, one arbitrary answer for each call, in their order.  \<open>hw_task_alive\<close> is not a
  variable of the program: it says whether the task may still run.  A step of the task is one
  round of its loop.
\<close>

section \<open>The hardware and the system\<close>

record controls_hw =
  hw_confirmation :: "bool option"
  hw_stopped :: "bool option"
  hw_stop_requested :: bool
  hw_task_handle :: bool
  hw_requested_indicator :: device_indicator
  hw_task_alive :: bool
  hw_answers :: "nat \<Rightarrow> bool"
  hw_calls :: nat

definition hw_ask :: "controls_hw \<Rightarrow> bool \<times> controls_hw" where
  "hw_ask hw = (hw_answers hw (hw_calls hw), hw\<lparr>hw_calls := hw_calls hw + 1\<rparr>)"

definition hw_result :: "controls_hw \<Rightarrow> app_error \<times> controls_hw" where
  "hw_result hw = (case hw_ask hw of (ok, hw) \<Rightarrow> (if ok then APP_ERROR_NONE else APP_ERROR_INTERNAL, hw))"

definition adapter_signal_stopped :: "controls_hw \<Rightarrow> bool \<times> controls_hw" where
  "adapter_signal_stopped hw = (hw_stopped hw = Some False, hw\<lparr>hw_stopped := map_option (\<lambda>_. True) (hw_stopped hw)\<rparr>)"

definition adapter_request_stop :: "controls_hw \<Rightarrow> controls_hw" where
  "adapter_request_stop hw = hw\<lparr>hw_stop_requested := True\<rparr>"

definition adapter_clear_stop_request :: "controls_hw \<Rightarrow> controls_hw" where
  "adapter_clear_stop_request hw = hw\<lparr>hw_stop_requested := False\<rparr>"

text \<open>While the caller waits, the task may see the request, report that it stops, and end.\<close>

definition adapter_wait_stopped :: "u32 \<Rightarrow> controls_hw \<Rightarrow> app_error \<times> controls_hw" where
  "adapter_wait_stopped timeout_ms hw =
     (if hw_stopped hw = None \<or> timeout_ms = 0 then (APP_ERROR_INVALID_ARGUMENT, hw)
      else if hw_stopped hw = Some True then (APP_ERROR_NONE, hw\<lparr>hw_stopped := Some False\<rparr>)
      else (case hw_ask hw of (ends, hw) \<Rightarrow>
        if ends \<and> hw_task_alive hw then (APP_ERROR_NONE, hw\<lparr>hw_task_alive := False\<rparr>)
        else (APP_ERROR_TIMEOUT, hw)))"

definition adapter_delete_confirmation_signal :: "controls_hw \<Rightarrow> controls_hw" where
  "adapter_delete_confirmation_signal hw = hw\<lparr>hw_confirmation := None\<rparr>"

definition adapter_delete_stopped_signal :: "controls_hw \<Rightarrow> controls_hw" where
  "adapter_delete_stopped_signal hw = hw\<lparr>hw_stopped := None\<rparr>"

definition controls_operations :: "controls_hw controls_ops" where
  "controls_operations =
     \<lparr>co_lock = (\<lambda>hw. (True, hw)), co_unlock = (\<lambda>hw. (True, hw)), co_signal_stopped = adapter_signal_stopped,
      co_write_indicator = (\<lambda>enabled. hw_result), co_request_stop = adapter_request_stop,
      co_clear_stop_request = adapter_clear_stop_request, co_wait_stopped = adapter_wait_stopped,
      co_set_safe_output = hw_result, co_reset_pin = hw_result,
      co_delete_confirmation_signal = adapter_delete_confirmation_signal,
      co_delete_stopped_signal = adapter_delete_stopped_signal\<rparr>"

section \<open>The controls\<close>

record device_controls =
  dc_engine :: controls_engine
  dc_hw :: controls_hw

definition CONTROLS_SHUTDOWN_WAIT_MS :: u32 where
  "CONTROLS_SHUTDOWN_WAIT_MS = 2000"

text \<open>An engine call on the controls.\<close>

definition on_engine ::
    "(controls_engine \<Rightarrow> controls_hw \<Rightarrow> 'r \<times> controls_engine \<times> controls_hw) \<Rightarrow> device_controls \<Rightarrow>
      'r \<times> device_controls" where
  "on_engine f d = (case f (dc_engine d) (dc_hw d) of
     (r, engine, hw) \<Rightarrow> (r, d\<lparr>dc_engine := engine, dc_hw := hw\<rparr>))"

text \<open>One round of the task, at \<open>elapsed_ms\<close>: the result is whether it goes on.\<close>

definition controls_task_round :: "u32 \<Rightarrow> device_controls \<Rightarrow> bool \<times> device_controls" where
  "controls_task_round elapsed_ms d =
     (case on_engine (device_controls_engine_poll controls_operations (hw_stop_requested (dc_hw d)) elapsed_ms) d of
        ((error, continue_running), d) \<Rightarrow>
          (continue_running,
           if continue_running then d else d\<lparr>dc_hw := (dc_hw d)\<lparr>hw_task_alive := False\<rparr>\<rparr>))"

definition record_init_failure ::
    "app_error \<Rightarrow> controls_failure \<Rightarrow> device_controls \<Rightarrow> app_error \<times> device_controls" where
  "record_init_failure primary failure d =
     (case on_engine (device_controls_engine_record_failure controls_operations primary failure False) d of
        (recorded, d) \<Rightarrow>
          (case on_engine (device_controls_engine_deinit controls_operations CONTROLS_SHUTDOWN_WAIT_MS) d of
            (cleanup, d) \<Rightarrow> (primary, d)))"

definition acquire_resource :: "controls_resource \<Rightarrow> device_controls \<Rightarrow> app_error \<times> device_controls" where
  "acquire_resource resource d =
     (case device_controls_engine_acquire_resource resource (dc_engine d) of
        (result, engine) \<Rightarrow> (result, d\<lparr>dc_engine := engine\<rparr>))"

definition on_hw :: "(controls_hw \<Rightarrow> 'r \<times> controls_hw) \<Rightarrow> device_controls \<Rightarrow> 'r \<times> device_controls" where
  "on_hw f d = (case f (dc_hw d) of (r, hw) \<Rightarrow> (r, d\<lparr>dc_hw := hw\<rparr>))"

definition configure_output_pin :: "device_controls \<Rightarrow> app_error \<times> device_controls" where
  "configure_output_pin d =
     (case acquire_resource DEVICE_CONTROLS_RESOURCE_STATUS_PIN d of
        (result, d) \<Rightarrow> if result \<noteq> APP_ERROR_NONE then (result, d) else on_hw hw_result d)"

definition create_confirmation :: "device_controls \<Rightarrow> app_error \<times> device_controls" where
  "create_confirmation d =
     (case on_hw hw_ask d of (created, d) \<Rightarrow>
        if \<not> created then (APP_ERROR_INTERNAL, d)
        else (case acquire_resource DEVICE_CONTROLS_RESOURCE_CONFIRM_SIGNAL
                     (d\<lparr>dc_hw := (dc_hw d)\<lparr>hw_confirmation := Some False\<rparr>\<rparr>) of
            (result, d) \<Rightarrow>
              (result, if result \<noteq> APP_ERROR_NONE then d\<lparr>dc_hw := (dc_hw d)\<lparr>hw_confirmation := None\<rparr>\<rparr> else d)))"

definition create_stopped :: "device_controls \<Rightarrow> app_error \<times> device_controls" where
  "create_stopped d =
     (case on_hw hw_ask d of (created, d) \<Rightarrow>
        if \<not> created then (APP_ERROR_INTERNAL, d)
        else (case acquire_resource DEVICE_CONTROLS_RESOURCE_STOPPED_SIGNAL
                     (d\<lparr>dc_hw := (dc_hw d)\<lparr>hw_stopped := Some False\<rparr>\<rparr>) of
            (result, d) \<Rightarrow>
              (result, if result \<noteq> APP_ERROR_NONE then d\<lparr>dc_hw := (dc_hw d)\<lparr>hw_stopped := None\<rparr>\<rparr> else d)))"

definition create_signals :: "device_controls \<Rightarrow> app_error \<times> device_controls" where
  "create_signals d =
     (case create_confirmation d of
        (result, d) \<Rightarrow> if result \<noteq> APP_ERROR_NONE then (result, d) else create_stopped d)"

definition create_task :: "device_controls \<Rightarrow> app_error \<times> device_controls" where
  "create_task d =
     (case on_hw hw_ask d of (created, d) \<Rightarrow>
        if created
        then (APP_ERROR_NONE, d\<lparr>dc_hw := (dc_hw d)\<lparr>hw_task_handle := True, hw_task_alive := True\<rparr>\<rparr>)
        else (APP_ERROR_INTERNAL, d\<lparr>dc_hw := (dc_hw d)\<lparr>hw_task_handle := False\<rparr>\<rparr>))"

text \<open>A step of the initialisation: its failure is recorded and everything is cleaned up.\<close>

definition init_step ::
    "controls_failure \<Rightarrow> (device_controls \<Rightarrow> app_error \<times> device_controls) \<Rightarrow>
      (device_controls \<Rightarrow> app_error \<times> device_controls) \<Rightarrow> device_controls \<Rightarrow> app_error \<times> device_controls" where
  "init_step failure step rest d =
     (case step d of (result, d) \<Rightarrow>
        if result \<noteq> APP_ERROR_NONE then record_init_failure result failure d else rest d)"

definition device_controls_init :: "bool \<Rightarrow> device_controls \<Rightarrow> app_error \<times> device_controls" where
  "device_controls_init configuration_valid d =
     (if hw_task_handle (dc_hw d) \<or> hw_confirmation (dc_hw d) \<noteq> None \<or> hw_stopped (dc_hw d) \<noteq> None \<or>
         ce_initialized (dc_engine d) \<or> device_controls_engine_owns_resources (dc_engine d)
      then (APP_ERROR_CONFLICT, d)
      else (let d = d\<lparr>dc_engine := device_controls_engine_init\<rparr>
            in if \<not> configuration_valid
               then record_init_failure APP_ERROR_INVALID_ARGUMENT DEVICE_CONTROLS_FAILURE_GPIO_CONFIGURATION d
               else init_step DEVICE_CONTROLS_FAILURE_GPIO_CONFIGURATION configure_output_pin
                     (init_step DEVICE_CONTROLS_FAILURE_INDICATOR (on_hw hw_result)
                       (init_step DEVICE_CONTROLS_FAILURE_GENERIC create_signals
                         (init_step DEVICE_CONTROLS_FAILURE_GENERIC
                           (\<lambda>d. on_engine (device_controls_engine_set_indicator controls_operations
                              (hw_requested_indicator (dc_hw d))) d)
                           (init_step DEVICE_CONTROLS_FAILURE_TASK_START create_task
                             (init_step DEVICE_CONTROLS_FAILURE_TASK_START
                               (on_engine (device_controls_engine_task_started controls_operations))
                               (\<lambda>d. (APP_ERROR_NONE, d))))))) d))"

definition device_controls_deinit :: "device_controls \<Rightarrow> app_error \<times> device_controls" where
  "device_controls_deinit d =
     (if \<not> ce_initialized (dc_engine d) \<and> \<not> device_controls_engine_owns_resources (dc_engine d) \<and>
         \<not> hw_task_handle (dc_hw d) \<and> hw_confirmation (dc_hw d) = None \<and> hw_stopped (dc_hw d) = None
      then (APP_ERROR_NONE, d)
      else (case on_engine (device_controls_engine_deinit controls_operations CONTROLS_SHUTDOWN_WAIT_MS) d of
        (result, d) \<Rightarrow>
          (result, if ce_task_stop_confirmed (dc_engine d)
                   then d\<lparr>dc_hw := (dc_hw d)\<lparr>hw_task_handle := False\<rparr>\<rparr> else d)))"

definition device_controls_set_indicator :: "device_indicator \<Rightarrow> device_controls \<Rightarrow> device_controls" where
  "device_controls_set_indicator state d =
     (let d = d\<lparr>dc_hw := (dc_hw d)\<lparr>hw_requested_indicator := state\<rparr>\<rparr>
      in if ce_initialized (dc_engine d)
         then snd (on_engine (device_controls_engine_set_indicator controls_operations state) d) else d)"

definition device_controls_get_health :: "device_controls \<Rightarrow> controls_health" where
  "device_controls_get_health d =
     fst (device_controls_engine_get_health controls_operations (dc_engine d) (dc_hw d))"

section \<open>Confirmation\<close>

text \<open>\<open>meanwhile\<close>: whether another task gives the signal before the time is over.\<close>

definition device_controls_wait_for_confirmation ::
    "u32 \<Rightarrow> bool \<Rightarrow> device_controls \<Rightarrow> app_error \<times> device_controls" where
  "device_controls_wait_for_confirmation timeout_ms meanwhile d =
     (if hw_confirmation (dc_hw d) = None \<or> timeout_ms = 0 then (APP_ERROR_INVALID_ARGUMENT, d)
      else if \<not> dh_task_running (device_controls_get_health d) \<or> hw_stop_requested (dc_hw d)
      then (APP_ERROR_CONFLICT, d)
      else (if hw_confirmation (dc_hw d) = Some True \<or> meanwhile then APP_ERROR_NONE else APP_ERROR_TIMEOUT,
            d\<lparr>dc_hw := (dc_hw d)\<lparr>hw_confirmation := Some False\<rparr>\<rparr>))"

definition device_controls_signal_confirmation :: "device_controls \<Rightarrow> app_error \<times> device_controls" where
  "device_controls_signal_confirmation d =
     (if hw_confirmation (dc_hw d) = None then (APP_ERROR_CONFLICT, d)
      else if \<not> dh_task_running (device_controls_get_health d) \<or> hw_stop_requested (dc_hw d)
      then (APP_ERROR_CONFLICT, d)
      else (if hw_confirmation (dc_hw d) = Some False then APP_ERROR_NONE else APP_ERROR_INTERNAL,
            d\<lparr>dc_hw := (dc_hw d)\<lparr>hw_confirmation := Some True\<rparr>\<rparr>))"

text \<open>The confirmation of a request policy (\<open>web_server/web_server_api.c\<close>).\<close>

definition APP_PHYSICAL_CONFIRM_TIMEOUT_MS :: u32 where
  "APP_PHYSICAL_CONFIRM_TIMEOUT_MS = 60000"

definition policy_confirm_controls :: "bool \<Rightarrow> web_api_route \<Rightarrow> bool \<Rightarrow> device_controls \<Rightarrow> app_error \<times> device_controls" where
  "policy_confirm_controls require_physical_confirmation route meanwhile d =
     (if \<not> web_api_physical_confirmation_required route require_physical_confirmation then (APP_ERROR_NONE, d)
      else device_controls_wait_for_confirmation APP_PHYSICAL_CONFIRM_TIMEOUT_MS meanwhile d)"

record 'w confirmation_ops =
  cf_confirm_send :: "'w \<Rightarrow> app_error \<times> 'w"
  cf_confirm_device_action :: "'w \<Rightarrow> app_error \<times> 'w"

definition serial_console_route_confirmation :: "'w confirmation_ops option \<Rightarrow> 'w \<Rightarrow> app_error \<times> 'w" where
  "serial_console_route_confirmation ops w =
     (case ops of
        None \<Rightarrow> (APP_ERROR_INVALID_ARGUMENT, w)
      | Some ops \<Rightarrow>
          (case cf_confirm_send ops w of (send_result, w) \<Rightarrow>
            if send_result = APP_ERROR_NONE \<or> send_result = APP_ERROR_CONFLICT then (APP_ERROR_NONE, w)
            else if send_result \<noteq> APP_ERROR_NOT_FOUND then (send_result, w)
            else cf_confirm_device_action ops w))"

definition confirm_send_adapter ::
    "executor_ops \<Rightarrow> executor_engine \<times> device_controls \<Rightarrow> app_error \<times> executor_engine \<times> device_controls" where
  "confirm_send_adapter ops w =
     (case macro_executor_engine_confirm ops (fst w) of (result, en) \<Rightarrow> (result, en, snd w))"

definition confirm_device_action_adapter ::
    "executor_engine \<times> device_controls \<Rightarrow> app_error \<times> executor_engine \<times> device_controls" where
  "confirm_device_action_adapter w =
     (case device_controls_signal_confirmation (snd w) of (result, d) \<Rightarrow> (result, fst w, d))"

text \<open>The exit status of the command is whether the confirmation was sent.\<close>

definition command_confirm ::
    "executor_ops \<Rightarrow> executor_engine \<times> device_controls \<Rightarrow> app_error \<times> executor_engine \<times> device_controls" where
  "command_confirm ops =
     serial_console_route_confirmation
       (Some \<lparr>cf_confirm_send = confirm_send_adapter ops, cf_confirm_device_action = confirm_device_action_adapter\<rparr>)"

end
