(* ===== verification/Controls_Safety.thy ===== *)
theory Controls_Safety
  imports Device_Controls Web_Policy
begin

text \<open>
  What the controls guarantee: their signals exist as long as the task may run, a teardown
  releases everything or keeps what it needs to be tried again, and what a confirmation given
  to nobody does.
\<close>

section \<open>The engine on the controls\<close>

lemma under_lock_controls [simp]: "under_lock controls_operations f engine hw = (APP_ERROR_NONE, f engine, hw)"
  by (simp add: under_lock_def controls_operations_def)

lemma controls_calls [simp]:
  "co_set_safe_output controls_operations = hw_result" "co_reset_pin controls_operations = hw_result"
  "co_write_indicator controls_operations b = hw_result"
  "co_signal_stopped controls_operations = adapter_signal_stopped"
  "co_request_stop controls_operations = adapter_request_stop"
  "co_clear_stop_request controls_operations = adapter_clear_stop_request"
  "co_wait_stopped controls_operations = adapter_wait_stopped"
  "co_delete_confirmation_signal controls_operations = adapter_delete_confirmation_signal"
  "co_delete_stopped_signal controls_operations = adapter_delete_stopped_signal"
  by (simp_all add: controls_operations_def)

text \<open>What a failure record leaves of an engine: everything but its health.\<close>

definition skeleton :: "controls_engine \<Rightarrow> controls_engine" where
  "skeleton engine = engine\<lparr>ce_health := zero_controls_health, ce_indicator_state := DEVICE_INDICATOR_BOOTING\<rparr>"

lemma skeleton_fields:
  "ce_operations_set (skeleton e) = ce_operations_set e" "ce_initialized (skeleton e) = ce_initialized e"
  "ce_task_stop_confirmed (skeleton e) = ce_task_stop_confirmed e"
  "ce_confirmation_signal_owned (skeleton e) = ce_confirmation_signal_owned e"
  "ce_stopped_signal_owned (skeleton e) = ce_stopped_signal_owned e"
  "ce_status_pin_owned (skeleton e) = ce_status_pin_owned e"
  by (simp_all add: skeleton_def)

lemma skeleton_eqD:
  assumes "skeleton e = skeleton e'"
  shows "ce_operations_set e = ce_operations_set e'" "ce_initialized e = ce_initialized e'"
    "ce_task_stop_confirmed e = ce_task_stop_confirmed e'"
    "ce_confirmation_signal_owned e = ce_confirmation_signal_owned e'"
    "ce_stopped_signal_owned e = ce_stopped_signal_owned e'"
    "ce_status_pin_owned e = ce_status_pin_owned e'"
  using assms by (metis skeleton_fields)+

lemma skeleton_update [simp]:
  "skeleton (e\<lparr>ce_health := h\<rparr>) = skeleton e" "skeleton (e\<lparr>ce_indicator_state := i\<rparr>) = skeleton e"
  by (simp_all add: skeleton_def)

lemma record_failure_controls:
  "device_controls_engine_record_failure controls_operations error failure cleanup engine hw = (r, engine', hw') \<Longrightarrow>
     skeleton engine' = skeleton engine \<and> hw' = hw \<and> r \<noteq> APP_ERROR_NONE"
  by (auto simp: device_controls_engine_record_failure_def Let_def split: if_splits)

lemma set_running_controls:
  "set_task_running controls_operations b engine hw = (r, engine', hw') \<Longrightarrow>
     skeleton engine' = skeleton engine \<and> hw' = hw \<and> r = APP_ERROR_NONE"
  by (auto simp: set_task_running_def)

lemma set_indicator_controls:
  "device_controls_engine_set_indicator controls_operations i engine hw = (r, engine', hw') \<Longrightarrow>
     skeleton engine' = skeleton engine \<and> hw' = hw \<and> (r = APP_ERROR_NONE \<longleftrightarrow> ce_initialized engine)"
  by (auto simp: device_controls_engine_set_indicator_def split: if_splits)

lemma record_cleanup_controls:
  assumes "record_cleanup_failure controls_operations error failure first engine hw = (r, engine', hw')"
  shows "skeleton engine' = skeleton engine \<and> hw' = hw \<and> (r = APP_ERROR_NONE \<longleftrightarrow> error = APP_ERROR_NONE \<and> first = APP_ERROR_NONE)"
proof (cases "error = APP_ERROR_NONE")
  case True
  then show ?thesis using assms by (auto simp: record_cleanup_failure_def record_first_error_def)
next
  case False
  obtain r1 e1 h1 where rec: "device_controls_engine_record_failure controls_operations error failure True engine hw =
      (r1, e1, h1)" by (metis prod.exhaust)
  note f = record_failure_controls [OF rec]
  have "(r, engine', hw') = (record_first_error r1 (record_first_error error first), e1, h1)"
    using assms False by (simp add: record_cleanup_failure_def rec)
  then show ?thesis using f False by (simp add: record_first_error_def)
qed

text \<open>Only the number of calls made of the system is new.\<close>

definition only_calls :: "controls_hw \<Rightarrow> controls_hw \<Rightarrow> bool" where
  "only_calls hw hw' \<longleftrightarrow> (\<exists>n. hw' = hw\<lparr>hw_calls := n\<rparr>)"

lemma hw_result_controls: "hw_result hw = (r, hw') \<Longrightarrow> only_calls hw hw'"
  by (auto simp: hw_result_def hw_ask_def only_calls_def)

lemma hw_ask_controls: "hw_ask hw = (b, hw') \<Longrightarrow> only_calls hw hw'"
  by (auto simp: hw_ask_def only_calls_def)

lemma only_calls_refl [simp]: "only_calls hw hw"
  by (auto simp: only_calls_def intro: exI [of _ "hw_calls hw"])

lemma only_calls_trans: "only_calls hw h1 \<Longrightarrow> only_calls h1 h2 \<Longrightarrow> only_calls hw h2"
  by (auto simp: only_calls_def)

lemma only_calls_fields:
  assumes "only_calls hw hw'"
  shows "hw_confirmation hw' = hw_confirmation hw" "hw_stopped hw' = hw_stopped hw"
    "hw_stop_requested hw' = hw_stop_requested hw" "hw_task_handle hw' = hw_task_handle hw"
    "hw_task_alive hw' = hw_task_alive hw" "hw_requested_indicator hw' = hw_requested_indicator hw"
  using assms by (auto simp: only_calls_def)

lemma cleanup_controls:
  assumes "cleanup_resources controls_operations engine hw = (r, engine', hw')"
  shows "ce_operations_set engine' = ce_operations_set engine" and "ce_initialized engine' = ce_initialized engine"
    and "ce_task_stop_confirmed engine' = ce_task_stop_confirmed engine"
    and "\<not> ce_confirmation_signal_owned engine'" and "\<not> ce_stopped_signal_owned engine'"
    and "ce_status_pin_owned engine' \<longrightarrow> ce_status_pin_owned engine \<and> r \<noteq> APP_ERROR_NONE"
    and "hw_confirmation hw' = (if ce_confirmation_signal_owned engine then None else hw_confirmation hw)"
    and "hw_stopped hw' = (if ce_stopped_signal_owned engine then None else hw_stopped hw)"
    and "hw_task_handle hw' = hw_task_handle hw" and "hw_task_alive hw' = hw_task_alive hw"
proof -
  obtain e1 g1 h1 where safe: "(if ce_status_pin_owned engine
        then (case co_set_safe_output controls_operations hw of (safe, w) \<Rightarrow>
          record_cleanup_failure controls_operations safe DEVICE_CONTROLS_FAILURE_INDICATOR APP_ERROR_NONE engine w)
        else (APP_ERROR_NONE, engine, hw)) = (e1, g1, h1)" by (metis prod.exhaust)
  have s1: "skeleton g1 = skeleton engine \<and> only_calls hw h1"
    using safe by (auto dest!: record_cleanup_controls hw_result_controls split: if_splits prod.splits)
  obtain e2 g2 h2 where pin: "cleanup_pin controls_operations g1 h1 = (e2, g2, h2)" by (metis prod.exhaust)
  have s2: "g2 = g1 \<and> (ce_status_pin_owned g1 \<longrightarrow> e2 \<noteq> APP_ERROR_NONE) \<or> g2 = g1\<lparr>ce_status_pin_owned := False\<rparr>"
    "only_calls h1 h2"
    using pin by (auto simp: cleanup_pin_def dest: hw_result_controls split: if_splits prod.splits)
  obtain e3 g3 h3 where rec: "record_cleanup_failure controls_operations e2 DEVICE_CONTROLS_FAILURE_GENERIC e1 g2 h2 =
      (e3, g3, h3)" by (metis prod.exhaust)
  note s3 = record_cleanup_controls [OF rec]
  have hw: "only_calls hw h3" using s1 s2(2) s3 by (metis only_calls_trans)
  note f = only_calls_fields [OF hw]
  have fin: "(r, engine', hw') = (e3, g3\<lparr>ce_confirmation_signal_owned := False, ce_stopped_signal_owned := False\<rparr>,
      h3\<lparr>hw_confirmation := if ce_confirmation_signal_owned g3 then None else hw_confirmation h3,
         hw_stopped := if ce_stopped_signal_owned g3 then None else hw_stopped h3\<rparr>)"
    using assms unfolding cleanup_resources_def safe
    by (simp add: pin rec Let_def)
      (auto simp: adapter_delete_confirmation_signal_def adapter_delete_stopped_signal_def)
  have g: "skeleton g3 = skeleton g2" using s3 by simp
  note k3 = skeleton_eqD [OF g] and k1 = skeleton_eqD [OF conjunct1 [OF s1]]
  have g3: "ce_operations_set g3 = ce_operations_set engine" "ce_initialized g3 = ce_initialized engine"
    "ce_task_stop_confirmed g3 = ce_task_stop_confirmed engine"
    "ce_confirmation_signal_owned g3 = ce_confirmation_signal_owned engine"
    "ce_stopped_signal_owned g3 = ce_stopped_signal_owned engine"
    "ce_status_pin_owned g3 \<longrightarrow> ce_status_pin_owned engine \<and> e3 \<noteq> APP_ERROR_NONE"
  proof -
    have g2: "ce_operations_set g2 = ce_operations_set g1" "ce_initialized g2 = ce_initialized g1"
      "ce_task_stop_confirmed g2 = ce_task_stop_confirmed g1"
      "ce_confirmation_signal_owned g2 = ce_confirmation_signal_owned g1"
      "ce_stopped_signal_owned g2 = ce_stopped_signal_owned g1"
      "ce_status_pin_owned g2 \<longrightarrow> ce_status_pin_owned g1 \<and> e2 \<noteq> APP_ERROR_NONE"
      using s2(1) by auto
    have "e2 \<noteq> APP_ERROR_NONE \<longrightarrow> e3 \<noteq> APP_ERROR_NONE" using s3 by simp
    then show "ce_operations_set g3 = ce_operations_set engine" "ce_initialized g3 = ce_initialized engine"
      "ce_task_stop_confirmed g3 = ce_task_stop_confirmed engine"
      "ce_confirmation_signal_owned g3 = ce_confirmation_signal_owned engine"
      "ce_stopped_signal_owned g3 = ce_stopped_signal_owned engine"
      "ce_status_pin_owned g3 \<longrightarrow> ce_status_pin_owned engine \<and> e3 \<noteq> APP_ERROR_NONE"
      using g2 unfolding k3 k1 by simp_all
  qed
  have r: "r = e3" and engine': "engine' = g3\<lparr>ce_confirmation_signal_owned := False, ce_stopped_signal_owned := False\<rparr>"
    and hw': "hw' = h3\<lparr>hw_confirmation := if ce_confirmation_signal_owned g3 then None else hw_confirmation h3,
         hw_stopped := if ce_stopped_signal_owned g3 then None else hw_stopped h3\<rparr>"
    using fin by simp_all
  show "ce_operations_set engine' = ce_operations_set engine" "ce_initialized engine' = ce_initialized engine"
    "ce_task_stop_confirmed engine' = ce_task_stop_confirmed engine"
    "\<not> ce_confirmation_signal_owned engine'" "\<not> ce_stopped_signal_owned engine'"
    "ce_status_pin_owned engine' \<longrightarrow> ce_status_pin_owned engine \<and> r \<noteq> APP_ERROR_NONE"
    "hw_confirmation hw' = (if ce_confirmation_signal_owned engine then None else hw_confirmation hw)"
    "hw_stopped hw' = (if ce_stopped_signal_owned engine then None else hw_stopped hw)"
    "hw_task_handle hw' = hw_task_handle hw" "hw_task_alive hw' = hw_task_alive hw"
    unfolding r engine' hw' using g3 f by simp_all
qed

section \<open>Tearing down\<close>

definition controls_pre :: "controls_engine \<Rightarrow> controls_hw \<Rightarrow> bool" where
  "controls_pre e hw \<longleftrightarrow>
     (hw_confirmation hw \<noteq> None \<longleftrightarrow> ce_confirmation_signal_owned e) \<and>
     (hw_stopped hw \<noteq> None \<longleftrightarrow> ce_stopped_signal_owned e) \<and>
     (device_controls_engine_owns_resources e \<longrightarrow> ce_initialized e) \<and>
     (ce_initialized e \<longrightarrow> ce_operations_set e) \<and>
     (ce_initialized e \<and> \<not> ce_task_stop_confirmed e \<longrightarrow> hw_confirmation hw \<noteq> None \<and> hw_stopped hw \<noteq> None) \<and>
     (hw_task_alive hw \<longrightarrow> ce_initialized e \<and> \<not> ce_task_stop_confirmed e \<and> hw_stopped hw = Some False)"

lemma health_controls [simp]:
  "device_controls_engine_get_health controls_operations engine hw = (ce_health engine, hw)"
  by (simp add: device_controls_engine_get_health_def controls_operations_def)

lemma stop_wait_failure_controls:
  assumes "record_stop_wait_failure controls_operations wait engine hw = (r, engine', hw')" and "wait \<noteq> APP_ERROR_NONE"
  shows "skeleton engine' = skeleton engine \<and> hw' = hw \<and> r \<noteq> APP_ERROR_NONE"
proof -
  obtain r1 e1 h1 where rec: "device_controls_engine_record_failure controls_operations wait
      DEVICE_CONTROLS_FAILURE_TASK_STOP True engine hw = (r1, e1, h1)" by (metis prod.exhaust)
  show ?thesis
    using assms record_failure_controls [OF rec]
    by (auto simp: record_stop_wait_failure_def rec split: if_splits)
qed

lemma finalize_controls:
  "finalize_deinit controls_operations r e hw =
     (if device_controls_engine_owns_resources e then (r, e, hw)
      else (r, e\<lparr>ce_initialized := False, ce_indicator_state := DEVICE_INDICATOR_BOOTING\<rparr>,
            hw\<lparr>hw_stop_requested := False\<rparr>))"
  by (auto simp: finalize_deinit_def adapter_clear_stop_request_def)

text \<open>What is left after the resources were released: at most the pin, when it resisted.\<close>

definition torn_down :: "app_error \<Rightarrow> controls_engine \<Rightarrow> controls_hw \<Rightarrow> bool" where
  "torn_down r e hw \<longleftrightarrow> \<not> ce_confirmation_signal_owned e \<and> \<not> ce_stopped_signal_owned e \<and>
     hw_confirmation hw = None \<and> hw_stopped hw = None \<and> \<not> hw_task_alive hw \<and>
     (ce_initialized e \<longleftrightarrow> ce_status_pin_owned e) \<and> (ce_initialized e \<longrightarrow> ce_operations_set e) \<and>
     ce_task_stop_confirmed e \<and> (ce_status_pin_owned e \<longrightarrow> r \<noteq> APP_ERROR_NONE)"

lemma release_controls:
  assumes "(case cleanup_resources controls_operations engine hw of
      (cleanup_error, engine, w) \<Rightarrow> finalize_deinit controls_operations cleanup_error engine w) = (r, engine', hw')"
    and "ce_task_stop_confirmed engine" and "\<not> hw_task_alive hw" and "ce_initialized engine"
    and "ce_operations_set engine" and "hw_confirmation hw \<noteq> None \<longleftrightarrow> ce_confirmation_signal_owned engine"
    and "hw_stopped hw \<noteq> None \<longleftrightarrow> ce_stopped_signal_owned engine"
  shows "torn_down r engine' hw' \<and> hw_task_handle hw' = hw_task_handle hw"
proof -
  obtain r1 e1 h1 where c: "cleanup_resources controls_operations engine hw = (r1, e1, h1)" by (metis prod.exhaust)
  note f = cleanup_controls [OF c]
  have n: "hw_confirmation h1 = None" "hw_stopped h1 = None"
    using f(7,8) assms(6,7) by auto
  show ?thesis
    using assms(1-5) f n
    by (auto simp: c finalize_controls torn_down_def device_controls_engine_owns_resources_def split: if_splits)
qed

lemma deinit_controls:
  assumes "device_controls_engine_deinit controls_operations CONTROLS_SHUTDOWN_WAIT_MS engine hw = (r, engine', hw')"
    and "controls_pre engine hw"
  obtains (idle) "\<not> ce_initialized engine" "\<not> device_controls_engine_owns_resources engine" "engine' = engine"
      "hw' = hw" "r = APP_ERROR_NONE"
  | (kept) "ce_initialized engine" "\<not> ce_task_stop_confirmed engine" "r \<noteq> APP_ERROR_NONE"
      "skeleton engine' = skeleton engine" "only_calls (adapter_request_stop hw) hw'"
      "hw_stopped hw \<noteq> Some True"
  | (released) "ce_initialized engine" "torn_down r engine' hw'" "hw_task_handle hw' = hw_task_handle hw"
proof (cases "ce_initialized engine")
  case False
  then have none: "\<not> device_controls_engine_owns_resources engine" using assms(2) by (auto simp: controls_pre_def)
  then have "(r, engine', hw') = (APP_ERROR_NONE, engine, hw)"
    using False assms(1) by (auto simp: device_controls_engine_deinit_def CONTROLS_SHUTDOWN_WAIT_MS_def)
  then show ?thesis by (intro idle [OF False none]) simp_all
next
  case True
  note pre = assms(2) [unfolded controls_pre_def]
  show ?thesis
  proof (cases "ce_task_stop_confirmed engine")
    case stopped: True
    have "(case cleanup_resources controls_operations engine hw of
        (cleanup_error, engine, w) \<Rightarrow> finalize_deinit controls_operations cleanup_error engine w) = (r, engine', hw')"
      using assms(1) True stopped by (simp add: device_controls_engine_deinit_def CONTROLS_SHUTDOWN_WAIT_MS_def)
    moreover have "\<not> hw_task_alive hw" "ce_operations_set engine"
      "(hw_confirmation hw \<noteq> None) = ce_confirmation_signal_owned engine"
      "(hw_stopped hw \<noteq> None) = ce_stopped_signal_owned engine" using pre True stopped by simp_all
    ultimately have "torn_down r engine' hw' \<and> hw_task_handle hw' = hw_task_handle hw"
      using stopped True by (intro release_controls)
    then show ?thesis using True released by blast
  next
    case running: False
    obtain wait h1 where wait: "adapter_wait_stopped CONTROLS_SHUTDOWN_WAIT_MS (adapter_request_stop hw) = (wait, h1)"
      by (metis prod.exhaust)
    show ?thesis
    proof (cases "wait = APP_ERROR_NONE")
      case False
      have calls: "only_calls (adapter_request_stop hw) h1"
        using wait False by (auto simp: adapter_wait_stopped_def dest: hw_ask_controls split: if_splits prod.splits)
      have "record_stop_wait_failure controls_operations wait engine h1 = (r, engine', hw')"
        using assms(1) True running False wait
        by (simp add: device_controls_engine_deinit_def CONTROLS_SHUTDOWN_WAIT_MS_def)
      note s = stop_wait_failure_controls [OF this False]
      have "hw_stopped hw \<noteq> Some True"
        using wait False by (auto simp: adapter_wait_stopped_def adapter_request_stop_def CONTROLS_SHUTDOWN_WAIT_MS_def)
      then show ?thesis by (intro kept) (use s calls True running in simp_all)
    next
      case ended: True
      have h1: "\<not> hw_task_alive h1" "hw_task_handle h1 = hw_task_handle hw" "hw_confirmation h1 = hw_confirmation hw"
        "hw_stopped h1 \<noteq> None \<longleftrightarrow> hw_stopped hw \<noteq> None"
        using wait ended pre
        by (auto simp: adapter_wait_stopped_def adapter_request_stop_def hw_ask_def split: if_splits)
      define e1 where "e1 = engine\<lparr>ce_task_stop_confirmed := True\<rparr>\<lparr>ce_health := (ce_health engine)\<lparr>dh_task_running := False\<rparr>\<rparr>"
      have e1: "ce_task_stop_confirmed e1" "ce_initialized e1" "ce_operations_set e1"
        "ce_confirmation_signal_owned e1 = ce_confirmation_signal_owned engine"
        "ce_stopped_signal_owned e1 = ce_stopped_signal_owned engine"
        using True pre by (simp_all add: e1_def)
      have "(case cleanup_resources controls_operations e1 h1 of
          (cleanup_error, engine, w) \<Rightarrow> finalize_deinit controls_operations cleanup_error engine w) = (r, engine', hw')"
        using assms(1) True running ended wait
        by (simp add: device_controls_engine_deinit_def CONTROLS_SHUTDOWN_WAIT_MS_def set_task_running_def e1_def)
      moreover have "(hw_confirmation h1 \<noteq> None) = ce_confirmation_signal_owned e1"
        "(hw_stopped h1 \<noteq> None) = ce_stopped_signal_owned e1" using pre unfolding e1(4,5) h1(3,4) by simp_all
      ultimately have "torn_down r engine' hw' \<and> hw_task_handle hw' = hw_task_handle h1"
        using e1(1,2,3) h1(1) by (intro release_controls)
      then show ?thesis using True released h1(2) by simp
    qed
  qed
qed

section \<open>The life of the controls\<close>

definition controls_ok :: "device_controls \<Rightarrow> bool" where
  "controls_ok d \<longleftrightarrow> controls_pre (dc_engine d) (dc_hw d) \<and>
     (hw_task_handle (dc_hw d) \<longleftrightarrow> ce_initialized (dc_engine d) \<and> \<not> ce_task_stop_confirmed (dc_engine d))"

text \<open>During the initialisation, before the task.\<close>

definition setting_up :: "device_controls \<Rightarrow> bool" where
  "setting_up d \<longleftrightarrow> controls_pre (dc_engine d) (dc_hw d) \<and> ce_initialized (dc_engine d) \<and>
     ce_task_stop_confirmed (dc_engine d) \<and> \<not> hw_task_handle (dc_hw d)"

lemma pre_same:
  assumes "controls_pre e hw" and "skeleton e' = skeleton e" and "only_calls hw hw'"
  shows "controls_pre e' hw'"
  using assms(1) unfolding controls_pre_def device_controls_engine_owns_resources_def
    skeleton_eqD [OF assms(2)] only_calls_fields [OF assms(3)] .

lemma torn_down_ok:
  assumes "torn_down r e hw" and "\<not> hw_task_handle hw"
  shows "controls_ok (d\<lparr>dc_engine := e, dc_hw := hw\<rparr>)"
  using assms by (auto simp: controls_ok_def controls_pre_def torn_down_def device_controls_engine_owns_resources_def)

lemma init_failure_ok:
  assumes "record_init_failure primary failure d = (r, d')" and "setting_up d"
  shows "r = primary \<and> controls_ok d'"
proof -
  obtain r1 e1 h1 where rec: "device_controls_engine_record_failure controls_operations primary failure False
      (dc_engine d) (dc_hw d) = (r1, e1, h1)" by (metis prod.exhaust)
  note s = record_failure_controls [OF rec]
  have up: "controls_pre e1 (dc_hw d)" "ce_initialized e1" "ce_task_stop_confirmed e1" "\<not> hw_task_handle (dc_hw d)"
    using assms(2) pre_same [of "dc_engine d" "dc_hw d" e1 "dc_hw d"] s skeleton_eqD [of e1 "dc_engine d"]
    by (simp_all add: setting_up_def)
  obtain r2 e2 h2 where de: "device_controls_engine_deinit controls_operations CONTROLS_SHUTDOWN_WAIT_MS e1 (dc_hw d) =
      (r2, e2, h2)" by (metis prod.exhaust)
  have run: "r = primary" "d' = d\<lparr>dc_engine := e2, dc_hw := h2\<rparr>"
    using assms(1) s by (simp_all add: record_init_failure_def on_engine_def rec de)
  from de up(1) have "controls_ok (d\<lparr>dc_engine := e2, dc_hw := h2\<rparr>)"
  proof (cases rule: deinit_controls)
    case released
    then show ?thesis using up(4) by (intro torn_down_ok) simp_all
  qed (use up in simp_all)
  then show ?thesis using run by simp
qed

text \<open>How an initialisation that was not refused ends.\<close>

definition init_ends :: "app_error \<Rightarrow> device_controls \<Rightarrow> bool" where
  "init_ends r d \<longleftrightarrow> r \<noteq> APP_ERROR_CONFLICT \<and> controls_ok d"

lemma init_step_keeps:
  assumes "init_step failure step rest d = (r, d')"
    and "\<And>e d1. step d = (e, d1) \<Longrightarrow> e \<noteq> APP_ERROR_NONE \<Longrightarrow> e \<noteq> APP_ERROR_CONFLICT \<and> setting_up d1"
    and "\<And>d1. step d = (APP_ERROR_NONE, d1) \<Longrightarrow> rest d1 = (r, d') \<Longrightarrow> init_ends r d'"
  shows "init_ends r d'"
proof -
  obtain e d1 where s: "step d = (e, d1)" by (cases "step d")
  show ?thesis
  proof (cases "e = APP_ERROR_NONE")
    case True
    then show ?thesis using assms s by (simp add: init_step_def)
  next
    case False
    then have "record_init_failure e failure d1 = (r, d')" using assms(1) s by (simp add: init_step_def)
    with init_failure_ok [OF this] assms(2) [OF s False] show ?thesis by (simp add: init_ends_def)
  qed
qed

text \<open>The steps of the initialisation.\<close>

lemma setting_up_hw:
  assumes "on_hw f d = (r, d')" and "\<And>r hw hw'. f hw = (r, hw') \<Longrightarrow> only_calls hw hw'" and "setting_up d"
  shows "setting_up d'"
proof -
  obtain hw' where f: "f (dc_hw d) = (r, hw')" "d' = d\<lparr>dc_hw := hw'\<rparr>"
    using assms(1) by (auto simp: on_hw_def split: prod.splits)
  note calls = assms(2) [OF f(1)]
  from assms(3) pre_same [OF _ refl calls, of "dc_engine d"] only_calls_fields [OF calls] show ?thesis
    by (simp add: setting_up_def f(2))
qed

lemma hw_result_no_conflict: "on_hw hw_result d = (r, d') \<Longrightarrow> r \<noteq> APP_ERROR_CONFLICT"
  by (auto simp: on_hw_def hw_result_def split: prod.splits if_splits)

lemma configure_keeps:
  assumes "configure_output_pin d = (r, d')" and "setting_up d"
  shows "r \<noteq> APP_ERROR_CONFLICT \<and> setting_up d'"
proof -
  let ?d = "d\<lparr>dc_engine := (dc_engine d)\<lparr>ce_status_pin_owned := True\<rparr>\<rparr>"
  have a: "on_hw hw_result ?d = (r, d')"
    using assms by (simp add: configure_output_pin_def acquire_resource_def
        device_controls_engine_acquire_resource_def setting_up_def)
  have b: "setting_up ?d"
    using assms(2) by (auto simp: setting_up_def controls_pre_def device_controls_engine_owns_resources_def)
  show ?thesis using setting_up_hw [OF a hw_result_controls b] hw_result_no_conflict [OF a] by simp
qed

lemma create_confirmation_keeps:
  assumes "create_confirmation d = (r, d')" and "setting_up d"
  shows "r \<noteq> APP_ERROR_CONFLICT \<and> setting_up d'"
proof -
  obtain b d1 where a: "on_hw hw_ask d = (b, d1)" by (cases "on_hw hw_ask d")
  have "setting_up d1" by (rule setting_up_hw [OF a hw_ask_controls assms(2)])
  then show ?thesis
    using assms(1) by (auto simp: create_confirmation_def a acquire_resource_def setting_up_def controls_pre_def
        device_controls_engine_acquire_resource_def device_controls_engine_owns_resources_def split: if_splits)
qed

lemma create_stopped_keeps:
  assumes "create_stopped d = (r, d')" and "setting_up d"
  shows "r \<noteq> APP_ERROR_CONFLICT \<and> setting_up d' \<and> (r = APP_ERROR_NONE \<longrightarrow> hw_stopped (dc_hw d') = Some False \<and>
    hw_confirmation (dc_hw d') = hw_confirmation (dc_hw d))"
proof -
  obtain b d1 where a: "on_hw hw_ask d = (b, d1)" by (cases "on_hw hw_ask d")
  have s: "setting_up d1" by (rule setting_up_hw [OF a hw_ask_controls assms(2)])
  have "hw_confirmation (dc_hw d1) = hw_confirmation (dc_hw d)"
    using a by (auto simp: on_hw_def hw_ask_def)
  then show ?thesis
    using assms(1) s by (auto simp: create_stopped_def a acquire_resource_def setting_up_def controls_pre_def
        device_controls_engine_acquire_resource_def device_controls_engine_owns_resources_def split: if_splits)
qed

lemma create_signals_keeps:
  assumes "create_signals d = (r, d')" and "setting_up d"
  shows "r \<noteq> APP_ERROR_CONFLICT \<and> setting_up d' \<and> (r = APP_ERROR_NONE \<longrightarrow> hw_stopped (dc_hw d') = Some False \<and>
    hw_confirmation (dc_hw d') \<noteq> None)"
proof -
  obtain r1 d1 where c: "create_confirmation d = (r1, d1)" by (cases "create_confirmation d")
  note s = create_confirmation_keeps [OF c assms(2)]
  have "r1 = APP_ERROR_NONE \<Longrightarrow> hw_confirmation (dc_hw d1) \<noteq> None"
    using c by (auto simp: create_confirmation_def acquire_resource_def on_hw_def hw_ask_def
        device_controls_engine_acquire_resource_def split: if_splits prod.splits)
  then show ?thesis
    using assms(1) s create_stopped_keeps [of d1 r d', OF _ conjunct2 [OF s]] by (auto simp: create_signals_def c split: if_splits)
qed

lemma set_indicator_keeps:
  assumes "on_engine (device_controls_engine_set_indicator controls_operations i) d = (r, d')" and "setting_up d"
  shows "r \<noteq> APP_ERROR_CONFLICT \<and> setting_up d' \<and> dc_hw d' = dc_hw d"
proof -
  obtain e' hw' where f: "device_controls_engine_set_indicator controls_operations i (dc_engine d) (dc_hw d) = (r, e', hw')"
      "d' = d\<lparr>dc_engine := e', dc_hw := hw'\<rparr>"
    using assms(1) by (auto simp: on_engine_def split: prod.splits)
  note k = set_indicator_controls [OF f(1)]
  then show ?thesis
    using assms(2) pre_same [of "dc_engine d" "dc_hw d" e' "dc_hw d"] skeleton_eqD [of e' "dc_engine d"]
    by (simp add: setting_up_def f(2))
qed

definition ready_for_task :: "device_controls \<Rightarrow> bool" where
  "ready_for_task d \<longleftrightarrow> setting_up d \<and> hw_stopped (dc_hw d) = Some False \<and> hw_confirmation (dc_hw d) \<noteq> None"

text \<open>The last two steps: the task is created and marked as running.\<close>

lemma create_task_keeps:
  assumes "create_task d = (r, d')" and "ready_for_task d"
  shows "if r = APP_ERROR_NONE
    then \<exists>h. d' = d\<lparr>dc_hw := h\<lparr>hw_task_handle := True, hw_task_alive := True\<rparr>\<rparr> \<and> only_calls (dc_hw d) h
    else r \<noteq> APP_ERROR_CONFLICT \<and> setting_up d'"
proof -
  obtain b d1 where a: "on_hw hw_ask d = (b, d1)" by (cases "on_hw hw_ask d")
  have "setting_up d" using assms(2) by (simp add: ready_for_task_def)
  note s = setting_up_hw [OF a hw_ask_controls this]
  obtain h where d1: "d1 = d\<lparr>dc_hw := h\<rparr>" "only_calls (dc_hw d) h"
    using a by (auto simp: on_hw_def dest: hw_ask_controls split: prod.splits)
  show ?thesis
  proof (cases b)
    case True
    then show ?thesis using assms(1) d1 by (auto simp: create_task_def a)
  next
    case False
    then have "d' = d1\<lparr>dc_hw := (dc_hw d1)\<lparr>hw_task_handle := False\<rparr>\<rparr>" "r = APP_ERROR_INTERNAL"
      using assms(1) by (auto simp: create_task_def a)
    then show ?thesis using s by (simp add: setting_up_def controls_pre_def)
  qed
qed

lemma task_started_keeps:
  assumes "on_engine (device_controls_engine_task_started controls_operations)
      (d\<lparr>dc_hw := h\<lparr>hw_task_handle := True, hw_task_alive := True\<rparr>\<rparr>) = (r, d')"
    and "ready_for_task d" and "only_calls (dc_hw d) h"
  shows "r = APP_ERROR_NONE \<and> controls_ok d'"
proof -
  have up: "ce_initialized (dc_engine d)" "ce_operations_set (dc_engine d)"
    "ce_confirmation_signal_owned (dc_engine d)" "ce_stopped_signal_owned (dc_engine d)"
    "hw_stopped h = Some False" "hw_confirmation h \<noteq> None"
    using assms(2) only_calls_fields [OF assms(3)]
    by (auto simp: ready_for_task_def setting_up_def controls_pre_def)
  have "r = APP_ERROR_NONE" "dc_hw d' = h\<lparr>hw_task_handle := True, hw_task_alive := True\<rparr>"
    "skeleton (dc_engine d') = skeleton (dc_engine d\<lparr>ce_task_stop_confirmed := False\<rparr>)"
    using assms(1) up(1) by (auto simp: on_engine_def device_controls_engine_task_started_def set_task_running_def)
  then show ?thesis
    using up skeleton_eqD [of "dc_engine d'" "dc_engine d\<lparr>ce_task_stop_confirmed := False\<rparr>"]
    by (simp add: controls_ok_def controls_pre_def)
qed

text \<open>The initialisation from one of its steps on.\<close>

abbreviation init_task where
  "init_task \<equiv> init_step DEVICE_CONTROLS_FAILURE_TASK_START create_task
     (init_step DEVICE_CONTROLS_FAILURE_TASK_START (on_engine (device_controls_engine_task_started controls_operations))
       (\<lambda>d. (APP_ERROR_NONE, d)))"

abbreviation init_indicator where
  "init_indicator \<equiv> init_step DEVICE_CONTROLS_FAILURE_GENERIC
     (\<lambda>d. on_engine (device_controls_engine_set_indicator controls_operations (hw_requested_indicator (dc_hw d))) d)
     init_task"

abbreviation init_signals where
  "init_signals \<equiv> init_step DEVICE_CONTROLS_FAILURE_GENERIC create_signals init_indicator"

lemma init_task_ok:
  assumes "init_task d = (r, d')" and "ready_for_task d"
  shows "init_ends r d'"
proof (rule init_step_keeps [OF assms(1)])
  fix e d1
  assume "create_task d = (e, d1)" "e \<noteq> APP_ERROR_NONE"
  then show "e \<noteq> APP_ERROR_CONFLICT \<and> setting_up d1" using create_task_keeps [of d e d1] assms(2) by simp
next
  fix d1
  assume c: "create_task d = (APP_ERROR_NONE, d1)"
    and rest: "init_step DEVICE_CONTROLS_FAILURE_TASK_START
      (on_engine (device_controls_engine_task_started controls_operations)) (\<lambda>d. (APP_ERROR_NONE, d)) d1 = (r, d')"
  obtain h where d1: "d1 = d\<lparr>dc_hw := h\<lparr>hw_task_handle := True, hw_task_alive := True\<rparr>\<rparr>" "only_calls (dc_hw d) h"
    using create_task_keeps [OF c assms(2)] by auto
  obtain r2 d2 where t: "on_engine (device_controls_engine_task_started controls_operations) d1 = (r2, d2)"
    by (metis prod.exhaust)
  from task_started_keeps [OF t [unfolded d1(1)] assms(2) d1(2)] show "init_ends r d'"
    using rest by (simp add: init_step_def t init_ends_def)
qed

lemma init_indicator_ok:
  assumes "init_indicator d = (r, d')" and "ready_for_task d"
  shows "init_ends r d'"
proof (rule init_step_keeps [OF assms(1)])
  note up = conjunct1 [OF assms(2) [unfolded ready_for_task_def]]
  show "e \<noteq> APP_ERROR_CONFLICT \<and> setting_up d1" if "on_engine (device_controls_engine_set_indicator controls_operations
      (hw_requested_indicator (dc_hw d))) d = (e, d1)" for e d1
    using set_indicator_keeps [OF that up] by simp
  show "init_ends r d'" if i: "on_engine (device_controls_engine_set_indicator controls_operations
      (hw_requested_indicator (dc_hw d))) d = (APP_ERROR_NONE, d1)" and rest: "init_task d1 = (r, d')" for d1
    using set_indicator_keeps [OF i up] assms(2) by (intro init_task_ok [OF rest]) (simp add: ready_for_task_def)
qed

lemma init_signals_ok:
  assumes "init_signals d = (r, d')" and "setting_up d"
  shows "init_ends r d'"
proof (rule init_step_keeps [OF assms(1)])
  show "e \<noteq> APP_ERROR_CONFLICT \<and> setting_up d1" if "create_signals d = (e, d1)" for e d1
    using create_signals_keeps [OF that assms(2)] by simp
  show "init_ends r d'" if g: "create_signals d = (APP_ERROR_NONE, d1)" and rest: "init_indicator d1 = (r, d')" for d1
    using create_signals_keeps [OF g assms(2)] by (intro init_indicator_ok [OF rest]) (simp add: ready_for_task_def)
qed

lemma init_output_ok:
  assumes "init_step DEVICE_CONTROLS_FAILURE_GPIO_CONFIGURATION configure_output_pin
      (init_step DEVICE_CONTROLS_FAILURE_INDICATOR (on_hw hw_result) init_signals) d = (r, d')" and "setting_up d"
  shows "init_ends r d'"
proof (rule init_step_keeps [OF assms(1)])
  show "e \<noteq> APP_ERROR_CONFLICT \<and> setting_up d1" if "configure_output_pin d = (e, d1)" for e d1
    by (rule configure_keeps [OF that assms(2)])
  show "init_ends r d'" if c: "configure_output_pin d = (APP_ERROR_NONE, d1)"
    and rest: "init_step DEVICE_CONTROLS_FAILURE_INDICATOR (on_hw hw_result) init_signals d1 = (r, d')" for d1
  proof (rule init_step_keeps [OF rest])
    note up = conjunct2 [OF configure_keeps [OF c assms(2)]]
    show "e \<noteq> APP_ERROR_CONFLICT \<and> setting_up d2" if "on_hw hw_result d1 = (e, d2)" for e d2
      using setting_up_hw [OF that hw_result_controls up] hw_result_no_conflict [OF that] by simp
    show "init_ends r d'" if "on_hw hw_result d1 = (APP_ERROR_NONE, d2)" and last: "init_signals d2 = (r, d')" for d2
      by (rule init_signals_ok [OF last setting_up_hw [OF that(1) hw_result_controls up]])
  qed
qed

lemma device_controls_init_ok:
  assumes "device_controls_init valid d = (r, d')" and "controls_ok d"
  shows "controls_ok d' \<and> (r = APP_ERROR_CONFLICT \<longleftrightarrow> ce_initialized (dc_engine d)) \<and>
    (r = APP_ERROR_CONFLICT \<longrightarrow> d' = d)"
proof (cases "ce_initialized (dc_engine d)")
  case True
  then show ?thesis using assms by (auto simp: device_controls_init_def)
next
  case False
  let ?d = "d\<lparr>dc_engine := device_controls_engine_init\<rparr>"
  have free: "\<not> hw_task_handle (dc_hw d)" "hw_confirmation (dc_hw d) = None" "hw_stopped (dc_hw d) = None"
    "\<not> device_controls_engine_owns_resources (dc_engine d)" "\<not> hw_task_alive (dc_hw d)"
    using False assms(2) by (auto simp: controls_ok_def controls_pre_def device_controls_engine_owns_resources_def)
  then have up: "setting_up ?d"
    by (auto simp: setting_up_def controls_pre_def device_controls_engine_init_def
        zero_controls_engine_def device_controls_engine_owns_resources_def)
  have "init_ends r d'"
  proof (cases valid)
    case invalid: False
    then have "record_init_failure APP_ERROR_INVALID_ARGUMENT DEVICE_CONTROLS_FAILURE_GPIO_CONFIGURATION ?d = (r, d')"
      using assms(1) False free by (simp add: device_controls_init_def)
    from init_failure_ok [OF this up] show ?thesis by (simp add: init_ends_def)
  next
    case True
    have "init_step DEVICE_CONTROLS_FAILURE_GPIO_CONFIGURATION configure_output_pin
      (init_step DEVICE_CONTROLS_FAILURE_INDICATOR (on_hw hw_result) init_signals) ?d = (r, d')"
      using assms(1) False free True by (simp add: device_controls_init_def)
    then show ?thesis by (rule init_output_ok [OF _ up])
  qed
  then show ?thesis using False by (simp add: init_ends_def)
qed

section \<open>The other operations\<close>

lemma controls_same:
  assumes "controls_ok d" and "skeleton e = skeleton (dc_engine d)" and "hw_task_handle hw = hw_task_handle (dc_hw d)"
    and "hw_confirmation hw = None \<longleftrightarrow> hw_confirmation (dc_hw d) = None"
    and "hw_stopped hw = hw_stopped (dc_hw d)" and "hw_task_alive hw \<longrightarrow> hw_task_alive (dc_hw d)"
  shows "controls_ok (d\<lparr>dc_engine := e, dc_hw := hw\<rparr>)"
  using assms(1,3-6) skeleton_eqD [OF assms(2)]
  by (simp add: controls_ok_def controls_pre_def device_controls_engine_owns_resources_def del: not_None_eq)

text \<open>A teardown of controls that are well formed.\<close>

lemma device_controls_deinit_ok:
  assumes "device_controls_deinit d = (r, d')" and "controls_ok d"
  shows "controls_ok d' \<and> (r = APP_ERROR_NONE \<longrightarrow> \<not> ce_initialized (dc_engine d') \<and>
    \<not> device_controls_engine_owns_resources (dc_engine d') \<and> \<not> hw_task_handle (dc_hw d') \<and>
    hw_confirmation (dc_hw d') = None \<and> hw_stopped (dc_hw d') = None \<and> \<not> hw_task_alive (dc_hw d'))"
proof -
  note ok = assms(2) [unfolded controls_ok_def]
  obtain r1 e1 h1 where de: "device_controls_engine_deinit controls_operations CONTROLS_SHUTDOWN_WAIT_MS
      (dc_engine d) (dc_hw d) = (r1, e1, h1)" by (metis prod.exhaust)
  show ?thesis
  proof (cases "ce_initialized (dc_engine d)")
    case False
    then have "r = APP_ERROR_NONE" "d' = d"
      using assms(1) ok by (auto simp: device_controls_deinit_def controls_pre_def device_controls_engine_owns_resources_def)
    then show ?thesis using False assms(2) ok by (auto simp: controls_pre_def device_controls_engine_owns_resources_def)
  next
    case True
    have run: "r = r1" "d' = (let d = d\<lparr>dc_engine := e1, dc_hw := h1\<rparr> in
        if ce_task_stop_confirmed e1 then d\<lparr>dc_hw := (dc_hw d)\<lparr>hw_task_handle := False\<rparr>\<rparr> else d)"
      using assms(1) True by (simp_all add: device_controls_deinit_def on_engine_def de)
    from de conjunct1 [OF ok] show ?thesis
    proof (cases rule: deinit_controls)
      case kept
      note same = skeleton_eqD [OF kept(4)]
      have "d' = d\<lparr>dc_engine := e1, dc_hw := h1\<rparr>" using run(2) kept(2) same by simp
      moreover have "controls_ok (d\<lparr>dc_engine := e1, dc_hw := h1\<rparr>)"
        using only_calls_fields [OF kept(5)]
        by (intro controls_same [OF assms(2) kept(4)]) (simp_all add: adapter_request_stop_def)
      ultimately show ?thesis using kept(3) run(1) by simp
    next
      case released
      have "d' = d\<lparr>dc_engine := e1, dc_hw := h1\<lparr>hw_task_handle := False\<rparr>\<rparr>"
        using run(2) released(2) by (simp add: torn_down_def)
      moreover have t: "torn_down r1 e1 (h1\<lparr>hw_task_handle := False\<rparr>)" using released(2) by (simp add: torn_down_def)
      ultimately show ?thesis using torn_down_ok [OF t] run(1) t
        by (auto simp: torn_down_def device_controls_engine_owns_resources_def)
    qed (use True in simp_all)
  qed
qed

lemma device_controls_set_indicator_ok:
  assumes "controls_ok d"
  shows "controls_ok (device_controls_set_indicator state d)"
proof -
  let ?d = "d\<lparr>dc_hw := (dc_hw d)\<lparr>hw_requested_indicator := state\<rparr>\<rparr>"
  obtain r e hw where s: "device_controls_engine_set_indicator controls_operations state (dc_engine ?d) (dc_hw ?d) =
      (r, e, hw)" by (metis prod.exhaust)
  note k = set_indicator_controls [OF s]
  have "controls_ok (d\<lparr>dc_engine := e, dc_hw := hw\<rparr>)"
    using k by (intro controls_same [OF assms]) simp_all
  moreover have "controls_ok (d\<lparr>dc_engine := dc_engine d, dc_hw := (dc_hw d)\<lparr>hw_requested_indicator := state\<rparr>\<rparr>)"
    by (rule controls_same [OF assms refl]) simp_all
  ultimately show ?thesis
    using s by (simp add: device_controls_set_indicator_def on_engine_def Let_def)
qed

lemma confirmation_set_ok:
  assumes "controls_ok d" and "hw_confirmation (dc_hw d) \<noteq> None"
  shows "controls_ok (d\<lparr>dc_hw := (dc_hw d)\<lparr>hw_confirmation := Some b\<rparr>\<rparr>)"
proof -
  have "controls_ok (d\<lparr>dc_engine := dc_engine d, dc_hw := (dc_hw d)\<lparr>hw_confirmation := Some b\<rparr>\<rparr>)"
    using assms(2) by (intro controls_same [OF assms(1) refl]) simp_all
  then show ?thesis by simp
qed

lemma signal_confirmation_ok:
  assumes "device_controls_signal_confirmation d = (r, d')" and "controls_ok d"
  shows "controls_ok d'"
proof -
  consider "d' = d" | "hw_confirmation (dc_hw d) \<noteq> None" "d' = d\<lparr>dc_hw := (dc_hw d)\<lparr>hw_confirmation := Some True\<rparr>\<rparr>"
    using assms(1) unfolding device_controls_signal_confirmation_def by (metis prod.inject)
  then show ?thesis using assms(2) confirmation_set_ok by cases simp_all
qed

lemma wait_for_confirmation_ok:
  assumes "device_controls_wait_for_confirmation t m d = (r, d')" and "controls_ok d"
  shows "controls_ok d'"
proof -
  consider "d' = d" | "hw_confirmation (dc_hw d) \<noteq> None" "d' = d\<lparr>dc_hw := (dc_hw d)\<lparr>hw_confirmation := Some False\<rparr>\<rparr>"
    using assms(1) unfolding device_controls_wait_for_confirmation_def by (metis prod.inject)
  then show ?thesis using assms(2) confirmation_set_ok by cases simp_all
qed

text \<open>A round of the task: it goes on, or has told that it stops.\<close>

lemma runtime_failure_controls:
  assumes "record_runtime_failure controls_operations error failure engine hw = (r, engine', hw')"
  shows "skeleton engine' = skeleton engine \<and> hw' = hw"
proof -
  obtain r1 e1 h1 where rec: "device_controls_engine_record_failure controls_operations error failure False engine hw =
      (r1, e1, h1)" by (metis prod.exhaust)
  obtain r2 e2 h2 where ind: "device_controls_engine_set_indicator controls_operations DEVICE_INDICATOR_FATAL e1 hw =
      (r2, e2, h2)" by (metis prod.exhaust)
  show ?thesis using assms record_failure_controls [OF rec] set_indicator_controls [OF ind]
    by (auto simp: record_runtime_failure_def rec ind split: if_splits)
qed

lemma stop_task_controls:
  assumes "stop_task controls_operations engine hw = (r, engine', hw')"
  shows "skeleton engine' = skeleton engine \<and> hw' = hw\<lparr>hw_stopped := map_option (\<lambda>_. True) (hw_stopped hw)\<rparr>"
proof -
  obtain r1 e1 h1 where run: "set_task_running controls_operations False engine hw = (r1, e1, h1)" by (metis prod.exhaust)
  obtain r2 e2 h2 where rec: "device_controls_engine_record_failure controls_operations APP_ERROR_INTERNAL
      DEVICE_CONTROLS_FAILURE_TASK_STOP True e1 (hw\<lparr>hw_stopped := map_option (\<lambda>_. True) (hw_stopped hw)\<rparr>) = (r2, e2, h2)"
    by (metis prod.exhaust)
  show ?thesis using assms set_running_controls [OF run] record_failure_controls [OF rec]
    by (auto simp: stop_task_def run adapter_signal_stopped_def rec split: if_splits)
qed

lemma poll_controls:
  assumes "device_controls_engine_poll controls_operations stop elapsed engine hw = ((error, go), engine', hw')"
    and "ce_initialized engine"
  shows "skeleton engine' = skeleton engine \<and> go = (\<not> stop) \<and>
    (if stop then hw' = hw\<lparr>hw_stopped := map_option (\<lambda>_. True) (hw_stopped hw)\<rparr> else only_calls hw hw')"
proof (cases stop)
  case True
  obtain r1 e1 h1 where s: "stop_task controls_operations engine hw = (r1, e1, h1)" by (metis prod.exhaust)
  show ?thesis using assms True stop_task_controls [OF s] by (auto simp: device_controls_engine_poll_def s)
next
  case False
  obtain wr h1 where h: "hw_result hw = (wr, h1)" by (cases "hw_result hw")
  obtain r2 e2 h2 where f: "record_runtime_failure controls_operations wr DEVICE_CONTROLS_FAILURE_INDICATOR engine h1 =
      (r2, e2, h2)" by (metis prod.exhaust)
  show ?thesis
    using assms False runtime_failure_controls [OF f] hw_result_controls [OF h]
    by (auto simp: device_controls_engine_poll_def get_indicator_state_def h f split: if_splits)
qed

lemma controls_task_round_ok:
  assumes "controls_task_round elapsed d = (go, d')" and "controls_ok d" and "hw_task_alive (dc_hw d)"
  shows "controls_ok d' \<and> hw_task_alive (dc_hw d') = go \<and> go = (\<not> hw_stop_requested (dc_hw d))"
proof -
  obtain error go' e hw where p: "device_controls_engine_poll controls_operations (hw_stop_requested (dc_hw d)) elapsed
      (dc_engine d) (dc_hw d) = ((error, go'), e, hw)" by (metis prod.exhaust)
  have up: "ce_initialized (dc_engine d)" "hw_stopped (dc_hw d) = Some False"
    using assms(2,3) by (auto simp: controls_ok_def controls_pre_def)
  note k = poll_controls [OF p up(1)]
  have run: "go = go'" "d' = (if go' then d\<lparr>dc_engine := e, dc_hw := hw\<rparr>
      else d\<lparr>dc_engine := e, dc_hw := hw\<lparr>hw_task_alive := False\<rparr>\<rparr>)"
    using assms(1) by (auto simp: controls_task_round_def on_engine_def p split: if_splits)
  show ?thesis
  proof (cases "hw_stop_requested (dc_hw d)")
    case True
    with k have hw: "hw = (dc_hw d)\<lparr>hw_stopped := Some True\<rparr>" "\<not> go'" using up(2) by auto
    have "controls_ok (d\<lparr>dc_engine := e, dc_hw := hw\<lparr>hw_task_alive := False\<rparr>\<rparr>)"
      using assms(2) up skeleton_eqD [OF conjunct1 [OF k]] unfolding hw(1)
      by (simp add: controls_ok_def controls_pre_def device_controls_engine_owns_resources_def del: not_None_eq)
    then show ?thesis using run hw True by simp
  next
    case False
    with k have hw: "only_calls (dc_hw d) hw" go' by auto
    have "controls_ok (d\<lparr>dc_engine := e, dc_hw := hw\<rparr>)"
      using k only_calls_fields [OF hw(1)] by (intro controls_same [OF assms(2)]) simp_all
    then show ?thesis using run hw(2) False only_calls_fields [OF hw(1)] assms(3) by simp
  qed
qed

section \<open>The life of the controls\<close>

definition initial_controls :: "(nat \<Rightarrow> bool) \<Rightarrow> device_controls" where
  "initial_controls answers =
     \<lparr>dc_engine = zero_controls_engine,
      dc_hw = \<lparr>hw_confirmation = None, hw_stopped = None, hw_stop_requested = False, hw_task_handle = False,
        hw_requested_indicator = DEVICE_INDICATOR_BOOTING, hw_task_alive = False, hw_answers = answers,
        hw_calls = 0\<rparr>\<rparr>"

inductive controls_step :: "device_controls \<Rightarrow> device_controls \<Rightarrow> bool" where
  step_init: "device_controls_init valid d = (r, d') \<Longrightarrow> controls_step d d'"
| step_deinit: "device_controls_deinit d = (r, d') \<Longrightarrow> controls_step d d'"
| step_indicator: "controls_step d (device_controls_set_indicator state d)"
| step_round: "hw_task_alive (dc_hw d) \<Longrightarrow> controls_task_round elapsed_ms d = (go, d') \<Longrightarrow> controls_step d d'"
| step_wait: "device_controls_wait_for_confirmation timeout_ms meanwhile d = (r, d') \<Longrightarrow> controls_step d d'"
| step_signal: "device_controls_signal_confirmation d = (r, d') \<Longrightarrow> controls_step d d'"

inductive controls_reachable :: "device_controls \<Rightarrow> bool" where
  reach_start: "controls_reachable (initial_controls answers)"
| reach_step: "controls_reachable d \<Longrightarrow> controls_step d d' \<Longrightarrow> controls_reachable d'"

lemma controls_step_ok:
  assumes "controls_step d d'" and "controls_ok d"
  shows "controls_ok d'"
  using assms
proof (cases rule: controls_step.cases)
  case step_init then show ?thesis using assms(2) device_controls_init_ok by blast
next
  case step_deinit then show ?thesis using assms(2) device_controls_deinit_ok by blast
next
  case step_indicator then show ?thesis using assms(2) device_controls_set_indicator_ok by blast
next
  case step_round then show ?thesis using assms(2) controls_task_round_ok by blast
next
  case step_wait then show ?thesis using assms(2) wait_for_confirmation_ok by blast
next
  case step_signal then show ?thesis using assms(2) signal_confirmation_ok by blast
qed

lemma reachable_ok: "controls_reachable d \<Longrightarrow> controls_ok d"
proof (induction rule: controls_reachable.induct)
  case reach_start
  show ?case by (simp add: controls_ok_def controls_pre_def initial_controls_def zero_controls_engine_def
        device_controls_engine_owns_resources_def)
qed (rule controls_step_ok)

text \<open>C34: the controls through any life of initialisations, teardowns, rounds of the task,
  confirmations and indicator changes, whatever the hardware and the system answer: while the
  task may run, both semaphores it and the confirmations use exist, the engine is initialized and
  an initialization is refused without a change, so there is never a second task; and a teardown
  that reports success leaves no task, no semaphore and no pin, and the next initialization is
  not refused as a conflict for what the teardown left.\<close>

theorem controls_reachable_safe:
  assumes "controls_reachable d" and "device_controls_deinit d = (r, d')"
  shows "(hw_task_alive (dc_hw d) \<longrightarrow> hw_confirmation (dc_hw d) \<noteq> None \<and> hw_stopped (dc_hw d) \<noteq> None \<and>
      hw_task_handle (dc_hw d) \<and> device_controls_init valid d = (APP_ERROR_CONFLICT, d)) \<and>
    (r = APP_ERROR_NONE \<longrightarrow> \<not> hw_task_alive (dc_hw d') \<and> \<not> hw_task_handle (dc_hw d') \<and>
      hw_confirmation (dc_hw d') = None \<and> hw_stopped (dc_hw d') = None \<and>
      \<not> device_controls_engine_owns_resources (dc_engine d') \<and>
      fst (device_controls_init valid d') \<noteq> APP_ERROR_CONFLICT)"
proof -
  have ok: "controls_ok d" by (rule reachable_ok [OF assms(1)])
  note left = device_controls_deinit_ok [OF assms(2) ok]
  have running: "hw_task_alive (dc_hw d) \<Longrightarrow> ce_initialized (dc_engine d) \<and> hw_confirmation (dc_hw d) \<noteq> None \<and>
      hw_stopped (dc_hw d) \<noteq> None \<and> hw_task_handle (dc_hw d)"
    using ok by (auto simp: controls_ok_def controls_pre_def)
  have refused: "device_controls_init valid d = (APP_ERROR_CONFLICT, d)" if "ce_initialized (dc_engine d)"
    using that by (simp add: device_controls_init_def)
  have "fst (device_controls_init valid d') \<noteq> APP_ERROR_CONFLICT" if "\<not> ce_initialized (dc_engine d')"
    using that device_controls_init_ok [OF surjective_pairing conjunct1 [OF left], of valid] by simp
  then show ?thesis using running refused left by blast
qed

lemma last_round_tells:
  assumes "controls_task_round elapsed d = (go, d')" and "controls_ok d" and "hw_task_alive (dc_hw d)"
    and "hw_stop_requested (dc_hw d)"
  shows "hw_stopped (dc_hw d') = Some True \<and> ce_initialized (dc_engine d')"
proof -
  obtain error go' e hw where p: "device_controls_engine_poll controls_operations (hw_stop_requested (dc_hw d)) elapsed
      (dc_engine d) (dc_hw d) = ((error, go'), e, hw)" by (metis prod.exhaust)
  have up: "ce_initialized (dc_engine d)" "hw_stopped (dc_hw d) = Some False"
    using assms(2,3) by (auto simp: controls_ok_def controls_pre_def)
  note k = poll_controls [OF p up(1)]
  have "d' = d\<lparr>dc_engine := e, dc_hw := hw\<lparr>hw_task_alive := False\<rparr>\<rparr>"
    using assms(1) k assms(4) by (auto simp: controls_task_round_def on_engine_def p [simplified assms(4)] split: if_splits)
  then show ?thesis using k up assms(4) skeleton_eqD [OF conjunct1 [OF k]] by simp
qed

definition ready_answers :: "nat \<Rightarrow> bool" where
  "ready_answers n = True"

definition running_controls :: device_controls where
  "running_controls = snd (device_controls_init True (initial_controls ready_answers))"

lemma running_reachable: "controls_reachable running_controls"
  unfolding running_controls_def
  by (rule reach_step [OF reach_start [of ready_answers]], rule step_init [of True _ _ ], rule surjective_pairing)

theorem controls_reachable_safe_witness:
  "hw_task_alive (dc_hw running_controls) \<and>
   device_controls_init True running_controls = (APP_ERROR_CONFLICT, running_controls) \<and>
   fst (device_controls_deinit running_controls) = APP_ERROR_NONE \<and>
   hw_confirmation (dc_hw (snd (device_controls_deinit running_controls))) = None"
proof -
  have alive: "hw_task_alive (dc_hw running_controls)" "fst (device_controls_deinit running_controls) = APP_ERROR_NONE"
    by code_simp+
  show ?thesis
    using controls_reachable_safe [OF running_reachable surjective_pairing, of True] alive by simp
qed

text \<open>C35: a teardown that timed out because the task was busy can be finished: the request it
  left makes the next round of the task its last one, and then a teardown always gets past the
  task. It leaves no task and no semaphore, and if it reports success the pin is released too.
  The engine is initialized afterwards exactly if the pin is still owned, for another try. The
  converse is not claimed: a teardown whose write of the safe level failed reports an error even
  if the pin was released after it.\<close>

theorem timed_out_teardown_can_be_finished:
  assumes "controls_reachable d" and "hw_task_alive (dc_hw d)" and "hw_stop_requested (dc_hw d)"
    and "controls_task_round elapsed_ms d = (go, d1)" and "device_controls_deinit d1 = (r, d2)"
  shows "\<not> go \<and> \<not> hw_task_alive (dc_hw d1) \<and> hw_confirmation (dc_hw d2) = None \<and> hw_stopped (dc_hw d2) = None \<and>
    \<not> hw_task_handle (dc_hw d2) \<and> (ce_status_pin_owned (dc_engine d2) \<longrightarrow> r \<noteq> APP_ERROR_NONE) \<and>
    (ce_initialized (dc_engine d2) \<longleftrightarrow> ce_status_pin_owned (dc_engine d2)) \<and> controls_reachable d2"
proof -
  have ok: "controls_ok d" by (rule reachable_ok [OF assms(1)])
  note last = controls_task_round_ok [OF assms(4) ok assms(2)]
  have told: "hw_stopped (dc_hw d1) = Some True \<and> ce_initialized (dc_engine d1)"
    by (rule last_round_tells [OF assms(4) ok assms(2,3)])
  obtain r1 e1 h1 where de: "device_controls_engine_deinit controls_operations CONTROLS_SHUTDOWN_WAIT_MS
      (dc_engine d1) (dc_hw d1) = (r1, e1, h1)" by (metis prod.exhaust)
  have run: "r = r1" "d2 = (let d = d1\<lparr>dc_engine := e1, dc_hw := h1\<rparr> in
      if ce_task_stop_confirmed e1 then d\<lparr>dc_hw := (dc_hw d)\<lparr>hw_task_handle := False\<rparr>\<rparr> else d)"
    using assms(5) told by (simp_all add: device_controls_deinit_def on_engine_def de)
  have "torn_down r1 e1 h1"
    using told by (cases rule: deinit_controls [OF de]) (use last in \<open>auto simp: controls_ok_def\<close>)
  then have "hw_confirmation (dc_hw d2) = None \<and> hw_stopped (dc_hw d2) = None \<and>
    \<not> hw_task_handle (dc_hw d2) \<and> (ce_status_pin_owned (dc_engine d2) \<longrightarrow> r \<noteq> APP_ERROR_NONE) \<and>
    (ce_initialized (dc_engine d2) \<longleftrightarrow> ce_status_pin_owned (dc_engine d2))"
    unfolding run by (simp add: torn_down_def)
  moreover have "controls_reachable d2"
    using assms reach_step [OF reach_step [OF assms(1) step_round] step_deinit] by blast
  ultimately show ?thesis using last assms(3) by simp
qed

definition slow_answers :: "nat \<Rightarrow> bool" where
  "slow_answers n \<longleftrightarrow> n \<noteq> 5"

definition slow_controls :: device_controls where
  "slow_controls = snd (device_controls_init True (initial_controls slow_answers))"

definition timed_out_controls :: device_controls where
  "timed_out_controls = snd (device_controls_deinit slow_controls)"

lemma timed_out_reachable: "controls_reachable timed_out_controls"
  unfolding timed_out_controls_def slow_controls_def
  by (rule reach_step [OF reach_step [OF reach_start [of slow_answers] step_init [OF surjective_pairing]]
      step_deinit [OF surjective_pairing]])

theorem timed_out_teardown_can_be_finished_witness:
  "fst (device_controls_deinit slow_controls) = APP_ERROR_TIMEOUT \<and>
   (let d1 = snd (controls_task_round 40 timed_out_controls); (r, d2) = device_controls_deinit d1
    in hw_stopped (dc_hw d2) = None \<and> \<not> hw_task_alive (dc_hw d1) \<and> r = APP_ERROR_NONE)"
proof -
  have at: "fst (device_controls_deinit slow_controls) = APP_ERROR_TIMEOUT" "hw_task_alive (dc_hw timed_out_controls)"
    "hw_stop_requested (dc_hw timed_out_controls)"
    "fst (device_controls_deinit (snd (controls_task_round 40 timed_out_controls))) = APP_ERROR_NONE"
    by code_simp+
  note timed_out_teardown_can_be_finished [OF timed_out_reachable at(2,3) surjective_pairing surjective_pairing]
  with at(1,4) show ?thesis by (simp add: Let_def case_prod_beta)
qed

section \<open>A confirmation given to nobody\<close>

text \<open>Nobody asks for a confirmation and nobody gives one: the task runs, the indicator changes.\<close>

inductive idle_step :: "device_controls \<Rightarrow> device_controls \<Rightarrow> bool" where
  idle_indicator: "idle_step d (device_controls_set_indicator state d)"
| idle_round: "hw_task_alive (dc_hw d) \<Longrightarrow> controls_task_round elapsed_ms d = (go, d') \<Longrightarrow> idle_step d d'"

definition takes_confirmations :: "bool option \<Rightarrow> device_controls \<Rightarrow> bool" where
  "takes_confirmations given d \<longleftrightarrow> controls_ok d \<and> dh_task_running (device_controls_get_health d) \<and>
     \<not> hw_stop_requested (dc_hw d) \<and> hw_confirmation (dc_hw d) = given"

lemma get_health_controls [simp]: "device_controls_get_health d = ce_health (dc_engine d)"
  by (simp add: device_controls_get_health_def)

lemma failure_keeps_running:
  assumes "record_runtime_failure controls_operations error failure engine hw = (r, engine', hw')"
  shows "dh_task_running (ce_health engine') = dh_task_running (ce_health engine)"
proof -
  have flag: "dh_task_running (set_failure_flag f e h) = dh_task_running h" for f e h by (cases f) simp_all
  show ?thesis
    using assms by (auto simp: record_runtime_failure_def device_controls_engine_record_failure_def Let_def flag
        device_controls_engine_set_indicator_def split: if_splits)
qed

lemma poll_keeps_running:
  assumes "device_controls_engine_poll controls_operations False elapsed engine hw = (x, engine', hw')"
  shows "dh_task_running (ce_health engine') = dh_task_running (ce_health engine)"
proof -
  obtain wr h1 where h: "hw_result hw = (wr, h1)" by (cases "hw_result hw")
  obtain r2 e2 h2 where f: "record_runtime_failure controls_operations wr DEVICE_CONTROLS_FAILURE_INDICATOR engine h1 =
      (r2, e2, h2)" by (metis prod.exhaust)
  show ?thesis using assms failure_keeps_running [OF f]
    by (auto simp: device_controls_engine_poll_def get_indicator_state_def h f split: if_splits)
qed

lemma idle_step_keeps:
  assumes "idle_step d d'" and "takes_confirmations given d"
  shows "takes_confirmations given d'"
  using assms(1)
proof cases
  case (idle_indicator state)
  then show ?thesis using assms(2) device_controls_set_indicator_ok [of d state]
    by (simp add: takes_confirmations_def device_controls_set_indicator_def on_engine_def
        device_controls_engine_set_indicator_def Let_def)
next
  case (idle_round elapsed_ms go)
  have still: "\<not> hw_stop_requested (dc_hw d)" "controls_ok d" using assms(2) by (simp_all add: takes_confirmations_def)
  obtain error go' e hw where p: "device_controls_engine_poll controls_operations False elapsed_ms
      (dc_engine d) (dc_hw d) = ((error, go'), e, hw)" by (metis prod.exhaust)
  have "ce_initialized (dc_engine d)" using still(2) idle_round(1) by (simp add: controls_ok_def controls_pre_def)
  note k = poll_controls [OF p this]
  have "d' = d\<lparr>dc_engine := e, dc_hw := hw\<rparr>"
    using idle_round(2) k still by (auto simp: controls_task_round_def on_engine_def p)
  then show ?thesis
    using assms(2) poll_keeps_running [OF p] k only_calls_fields [of "dc_hw d" hw]
      controls_task_round_ok [OF idle_round(2) still(2) idle_round(1)]
    by (simp add: takes_confirmations_def)
qed

lemma idle_steps_keep: "idle_step\<^sup>*\<^sup>* d d' \<Longrightarrow> takes_confirmations given d \<Longrightarrow> takes_confirmations given d'"
  by (induction rule: rtranclp_induct) (auto dest: idle_step_keeps)

text \<open>C36: a confirmation that nobody asked for authorizes the next destructive request. The
  \<open>confirm\<close> command given while no send and no administrative request waits is answered as
  sent and kept in the semaphore, which a request does not empty before it waits; however long the
  controls then idle, the next request that needs a physical confirmation passes this check at
  once without anybody confirming it, while without the earlier command it is refused with
  a timeout.\<close>

theorem stale_confirmation_authorizes:
  assumes "controls_reachable d" and "dh_task_running (device_controls_get_health d)"
    and "\<not> hw_stop_requested (dc_hw d)" and "hw_confirmation (dc_hw d) = Some False"
    and "macro_executor_engine_confirm eops en = (APP_ERROR_NOT_FOUND, en')"
    and "command_confirm eops (en, d) = (r, en1, d1)" and "idle_step\<^sup>*\<^sup>* d1 d2" and "idle_step\<^sup>*\<^sup>* d d3"
    and "po_confirm ops = Some (policy_confirm_controls True (pi_route inp) False)"
    and "web_api_route_requires_physical_confirmation (pi_route inp)"
  shows "r = APP_ERROR_NONE \<and>
    (\<exists>d4. enforce_physical_confirmation inp ops out d2 = policy_pass out d4) \<and>
    (\<exists>d4. enforce_physical_confirmation inp ops out d3 =
      policy_fail WEB_REQUEST_POLICY_FAILURE_PHYSICAL_CONFIRMATION APP_ERROR_TIMEOUT d4)"
proof -
  have now: "takes_confirmations (Some False) d"
    using assms(1-4) reachable_ok by (simp add: takes_confirmations_def)
  then have sent: "r = APP_ERROR_NONE" "d1 = d\<lparr>dc_hw := (dc_hw d)\<lparr>hw_confirmation := Some True\<rparr>\<rparr>"
    using assms(5,6) by (auto simp: command_confirm_def serial_console_route_confirmation_def
        confirm_send_adapter_def confirm_device_action_adapter_def device_controls_signal_confirmation_def
        takes_confirmations_def)
  have "takes_confirmations (Some True) d1"
    using now confirmation_set_ok [of d True] by (simp add: takes_confirmations_def sent(2))
  note late = idle_steps_keep [OF assms(7) this] and early = idle_steps_keep [OF assms(8) now]
  have asked: "web_api_physical_confirmation_required (pi_route inp) True"
    using assms(10) by (simp add: web_api_route_requires_physical_confirmation_def)
  show ?thesis
    using late early sent(1) asked assms(9,10)
    by (auto simp: enforce_physical_confirmation_def policy_confirm_controls_def takes_confirmations_def
        device_controls_wait_for_confirmation_def APP_PHYSICAL_CONFIRM_TIMEOUT_MS_def)
qed

definition silent_executor :: executor_ops where
  "silent_executor =
     \<lparr>op_lock = (\<lambda>evs. True), op_unlock = (\<lambda>evs. True), op_queue_send = (\<lambda>evs rq. True),
      op_now_ms = (\<lambda>evs. 0), op_wait_ms = (\<lambda>evs ms. APP_ERROR_NONE), op_usb_ready = (\<lambda>evs. True),
      op_usb_press = (\<lambda>evs m ks. APP_ERROR_NONE), op_usb_release_all = (\<lambda>evs. APP_ERROR_NONE),
      op_external = (\<lambda>evs. [])\<rparr>"

definition factory_reset_input :: policy_input where
  "factory_reset_input = \<lparr>pi_route = WEB_API_ROUTE_DEVICE_FACTORY_RESET, pi_method = WEB_API_METHOD_POST,
     pi_content_length = 0, pi_body_limit = 4096\<rparr>"

definition controls_policy :: "device_controls policy_ops" where
  "controls_policy =
     \<lparr>po_get_header = (\<lambda>name size d. (APP_ERROR_NONE, [], d)), po_validate_session = (\<lambda>token d. (APP_ERROR_NONE, d)),
      po_generate_request_id = (\<lambda>size d. (APP_ERROR_NONE, [], d)),
      po_confirm = Some (policy_confirm_controls True WEB_API_ROUTE_DEVICE_FACTORY_RESET False)\<rparr>"

theorem stale_confirmation_authorizes_witness:
  "case command_confirm silent_executor (macro_executor_engine_init, running_controls) of (r, en1, d1) \<Rightarrow>
     r = APP_ERROR_NONE \<and>
     (\<exists>d4. enforce_physical_confirmation factory_reset_input controls_policy cleared_result
        (snd (controls_task_round 20 d1)) = policy_pass cleared_result d4)"
proof -
  obtain en' where nobody: "macro_executor_engine_confirm silent_executor macro_executor_engine_init =
      (APP_ERROR_NOT_FOUND, en')"
  proof -
    have "fst (macro_executor_engine_confirm silent_executor macro_executor_engine_init) = APP_ERROR_NOT_FOUND"
      by code_simp
    then show ?thesis by (metis prod.collapse that)
  qed
  obtain r en1 d1 where sent: "command_confirm silent_executor (macro_executor_engine_init, running_controls) = (r, en1, d1)"
    by (metis prod.exhaust)
  have now: "dh_task_running (device_controls_get_health running_controls)"
    "\<not> hw_stop_requested (dc_hw running_controls)" "hw_confirmation (dc_hw running_controls) = Some False"
    "hw_task_alive (dc_hw (snd (snd (command_confirm silent_executor (macro_executor_engine_init, running_controls)))))"
    by code_simp+
  have idle: "idle_step\<^sup>*\<^sup>* d1 (snd (controls_task_round 20 d1))"
    using now(4) by (intro r_into_rtranclp idle_round [OF _ surjective_pairing]) (simp add: sent)
  have asks: "po_confirm controls_policy = Some (policy_confirm_controls True (pi_route factory_reset_input) False)"
    "web_api_route_requires_physical_confirmation (pi_route factory_reset_input)"
    by (simp add: controls_policy_def factory_reset_input_def) code_simp
  from stale_confirmation_authorizes [OF running_reachable now(1-3) nobody sent idle rtranclp.rtrancl_refl asks]
  show ?thesis by (simp add: sent)
qed

end
