(* ===== verification/Web_Device_Actions.thy ===== *)
theory Web_Device_Actions
  imports Device_Actions
begin

text \<open>
  The device actions of the web interface: restart, reset of the settings and factory reset
  (\<open>web_server/web_device_actions.c\<close>), their operations on the device
  (\<open>web_server/web_api_administration.c\<close>), and the guard in front of every handler of a
  provisioned device (\<open>web_server/web_server_lifecycle.c\<close>).

  \<open>None\<close> is a table the checks refuse, a null pointer or one with a missing entry; an empty body
  is a null pointer or no capacity. Parsed text is wiped before it is freed, of which the model
  keeps the wiped body.
\<close>

section \<open>Operations and results\<close>

record 'w web_device_actions_ops =
  ao_settings_read :: "'w \<Rightarrow> app_error \<times> device_settings \<times> 'w"
  ao_password_verify :: "string_view \<Rightarrow> device_settings \<Rightarrow> 'w \<Rightarrow> app_error \<times> bool \<times> 'w"
  ao_restart :: "'w \<Rightarrow> app_error \<times> 'w"
  ao_reset_settings :: "'w \<Rightarrow> reset_settings_outcome \<times> 'w"
  ao_factory_reset :: "'w \<Rightarrow> factory_reset_outcome \<times> 'w"

datatype web_device_restart_result =
    WEB_DEVICE_RESTART_OK
  | WEB_DEVICE_RESTART_BACKEND_UNAVAILABLE
  | WEB_DEVICE_RESTART_INTERNAL

datatype web_device_reset_settings_result =
    WEB_DEVICE_RESET_SETTINGS_OK
  | WEB_DEVICE_RESET_SETTINGS_INVALID_BODY
  | WEB_DEVICE_RESET_SETTINGS_INVALID_CONFIRMATION
  | WEB_DEVICE_RESET_SETTINGS_BACKEND_UNAVAILABLE
  | WEB_DEVICE_RESET_SETTINGS_REBOOT_RECOVERY_REQUIRED
  | WEB_DEVICE_RESET_SETTINGS_COMMITTED_RESTART_INCOMPLETE
  | WEB_DEVICE_RESET_SETTINGS_INTERNAL

datatype web_device_factory_reset_result =
    WEB_DEVICE_FACTORY_RESET_OK
  | WEB_DEVICE_FACTORY_RESET_INVALID_BODY
  | WEB_DEVICE_FACTORY_RESET_INVALID_CONFIRMATION
  | WEB_DEVICE_FACTORY_RESET_INCORRECT_PASSWORD
  | WEB_DEVICE_FACTORY_RESET_BACKEND_UNAVAILABLE
  | WEB_DEVICE_FACTORY_RESET_RECOVERY_REQUIRED
  | WEB_DEVICE_FACTORY_RESET_INTERNAL

text \<open>An outcome is a result with its error; the reset of the settings has one for the restart too.\<close>

type_synonym web_device_restart_outcome = "web_device_restart_result \<times> app_error"
type_synonym web_device_reset_settings_outcome = "web_device_reset_settings_result \<times> app_error \<times> app_error"
type_synonym web_device_factory_reset_outcome = "web_device_factory_reset_result \<times> app_error"

section \<open>Bodies\<close>

definition RESET_SETTINGS_CONFIRMATION :: "u8 list" where
  "RESET_SETTINGS_CONFIRMATION = ascii ''RESET SETTINGS''"

definition FACTORY_RESET_CONFIRMATION :: "u8 list" where
  "FACTORY_RESET_CONFIRMATION = ascii ''FACTORY RESET''"

definition string_field :: "cjson \<Rightarrow> json_fields \<Rightarrow> u8 list \<Rightarrow> u8 list option" where
  "string_field cj doc key =
     (case cj_item cj doc key of Some (JString s) \<Rightarrow> Some (c_text s) | _ \<Rightarrow> None)"

definition confirmation_matches :: "u8 list \<Rightarrow> u8 list \<Rightarrow> bool" where
  "confirmation_matches supplied expected \<longleftrightarrow> length supplied = length expected \<and> supplied = expected"

definition exact_reset_settings_fields :: "json_fields \<Rightarrow> bool" where
  "exact_reset_settings_fields doc \<longleftrightarrow>
     list_all (\<lambda>(key, item). key = Some (ascii ''confirmation'')) doc \<and> length doc = 1"

definition FACTORY_RESET_FIELDS :: "u8 list list" where
  "FACTORY_RESET_FIELDS = map ascii [''adminPassword'', ''confirmation'']"

definition exact_factory_reset_fields :: "json_fields \<Rightarrow> bool" where
  "exact_factory_reset_fields doc \<longleftrightarrow> exact_fields FACTORY_RESET_FIELDS [] doc \<and> length doc = 2 \<and>
     list_all (\<lambda>name. Some name \<in> set (map fst doc)) FACTORY_RESET_FIELDS"

section \<open>The handlers\<close>

definition web_device_restart_handle ::
    "'w web_device_actions_ops option \<Rightarrow> 'w \<Rightarrow> web_device_restart_outcome \<times> 'w" where
  "web_device_restart_handle ops w =
     (case ops of
        None \<Rightarrow> ((WEB_DEVICE_RESTART_INTERNAL, APP_ERROR_NONE), w)
      | Some ops \<Rightarrow> (case ao_restart ops w of (result, w) \<Rightarrow>
          (if result \<noteq> APP_ERROR_NONE then (WEB_DEVICE_RESTART_BACKEND_UNAVAILABLE, result)
           else (WEB_DEVICE_RESTART_OK, APP_ERROR_NONE), w)))"

definition reset_settings_backend_outcome :: "reset_settings_outcome \<Rightarrow> web_device_reset_settings_outcome" where
  "reset_settings_backend_outcome reset =
     (let internal = (WEB_DEVICE_RESET_SETTINGS_INTERNAL, APP_ERROR_INTERNAL, APP_ERROR_NONE)
      in if \<not> so_settings_applied reset
         then (if so_sessions_invalidated reset \<or> so_restart_owned reset \<or>
                  so_primary_error reset = APP_ERROR_NONE \<or> so_restart_error reset \<noteq> APP_ERROR_NONE then internal
               else (WEB_DEVICE_RESET_SETTINGS_BACKEND_UNAVAILABLE, so_primary_error reset, APP_ERROR_NONE))
         else if \<not> so_restart_owned reset
         then (if so_restart_error reset = APP_ERROR_NONE \<or>
                  (so_sessions_invalidated reset \<and> so_primary_error reset \<noteq> APP_ERROR_NONE) \<or>
                  (\<not> so_sessions_invalidated reset \<and> so_primary_error reset = APP_ERROR_NONE) then internal
               else (WEB_DEVICE_RESET_SETTINGS_COMMITTED_RESTART_INCOMPLETE, so_primary_error reset,
                     so_restart_error reset))
         else if so_restart_error reset \<noteq> APP_ERROR_NONE then internal
         else if \<not> so_sessions_invalidated reset
         then (if so_primary_error reset = APP_ERROR_NONE then internal
               else (WEB_DEVICE_RESET_SETTINGS_REBOOT_RECOVERY_REQUIRED, so_primary_error reset, APP_ERROR_NONE))
         else if so_primary_error reset \<noteq> APP_ERROR_NONE then internal
         else (WEB_DEVICE_RESET_SETTINGS_OK, APP_ERROR_NONE, APP_ERROR_NONE))"

definition web_device_reset_settings_handle ::
    "cjson \<Rightarrow> u8 list \<Rightarrow> 'w web_device_actions_ops option \<Rightarrow> 'w \<Rightarrow>
      web_device_reset_settings_outcome \<times> u8 list \<times> 'w" where
  "web_device_reset_settings_handle cj body ops w =
     (let refuse = (\<lambda>result. (result, APP_ERROR_NONE, APP_ERROR_NONE))
      in if ops = None \<or> body = [] then (refuse WEB_DEVICE_RESET_SETTINGS_INTERNAL, zeros (length body), w)
         else (case parse_exact_body cj body of
             (None, body) \<Rightarrow> (refuse WEB_DEVICE_RESET_SETTINGS_INVALID_BODY, body, w)
           | (Some doc, body) \<Rightarrow>
               if \<not> exact_reset_settings_fields doc
               then (refuse WEB_DEVICE_RESET_SETTINGS_INVALID_BODY, body, w)
               else (case string_field cj doc (ascii ''confirmation'') of
                   None \<Rightarrow> (refuse WEB_DEVICE_RESET_SETTINGS_INVALID_BODY, body, w)
                 | Some confirmation \<Rightarrow>
                     if \<not> confirmation_matches confirmation RESET_SETTINGS_CONFIRMATION
                     then (refuse WEB_DEVICE_RESET_SETTINGS_INVALID_CONFIRMATION, body, w)
                     else (case ao_reset_settings (the ops) w of
                         (reset, w) \<Rightarrow> (reset_settings_backend_outcome reset, body, w)))))"

definition factory_reset_backend_outcome :: "factory_reset_outcome \<Rightarrow> web_device_factory_reset_outcome" where
  "factory_reset_backend_outcome reset =
     (let internal = (WEB_DEVICE_FACTORY_RESET_INTERNAL, APP_ERROR_INTERNAL)
      in if \<not> fo_durably_accepted reset
         then (if fo_recovery_required reset \<or> fo_primary_error reset = APP_ERROR_NONE then internal
               else (WEB_DEVICE_FACTORY_RESET_BACKEND_UNAVAILABLE, fo_primary_error reset))
         else if fo_recovery_required reset
         then (if fo_primary_error reset = APP_ERROR_NONE then internal
               else (WEB_DEVICE_FACTORY_RESET_RECOVERY_REQUIRED, fo_primary_error reset))
         else if fo_primary_error reset \<noteq> APP_ERROR_NONE then internal
         else (WEB_DEVICE_FACTORY_RESET_OK, APP_ERROR_NONE))"

text \<open>The reset behind the password, once the body is known.\<close>

definition authorized_factory_reset ::
    "'w web_device_actions_ops \<Rightarrow> u8 list \<Rightarrow> 'w \<Rightarrow> web_device_factory_reset_outcome \<times> 'w" where
  "authorized_factory_reset ops password w =
     (case ao_settings_read ops w of (read_result, current, w) \<Rightarrow>
        if read_result \<noteq> APP_ERROR_NONE then ((WEB_DEVICE_FACTORY_RESET_BACKEND_UNAVAILABLE, read_result), w)
        else (case ao_password_verify ops (Some password) current w of (verify_result, password_matches, w) \<Rightarrow>
          if verify_result \<noteq> APP_ERROR_NONE
          then ((WEB_DEVICE_FACTORY_RESET_BACKEND_UNAVAILABLE, verify_result), w)
          else if \<not> password_matches then ((WEB_DEVICE_FACTORY_RESET_INCORRECT_PASSWORD, APP_ERROR_NONE), w)
          else (case ao_factory_reset ops w of (reset, w) \<Rightarrow> (factory_reset_backend_outcome reset, w))))"

definition web_device_factory_reset_handle ::
    "cjson \<Rightarrow> u8 list \<Rightarrow> 'w web_device_actions_ops option \<Rightarrow> 'w \<Rightarrow>
      web_device_factory_reset_outcome \<times> u8 list \<times> 'w" where
  "web_device_factory_reset_handle cj body ops w =
     (let refuse = (\<lambda>result. (result, APP_ERROR_NONE))
      in if ops = None \<or> body = [] then (refuse WEB_DEVICE_FACTORY_RESET_INTERNAL, zeros (length body), w)
         else (case parse_exact_body cj body of
             (None, body) \<Rightarrow> (refuse WEB_DEVICE_FACTORY_RESET_INVALID_BODY, body, w)
           | (Some doc, body) \<Rightarrow>
               if \<not> exact_factory_reset_fields doc
               then (refuse WEB_DEVICE_FACTORY_RESET_INVALID_BODY, body, w)
               else (case (string_field cj doc (ascii ''confirmation''), string_field cj doc (ascii ''adminPassword'')) of
                   (Some confirmation, Some password) \<Rightarrow>
                     if \<not> confirmation_matches confirmation FACTORY_RESET_CONFIRMATION
                     then (refuse WEB_DEVICE_FACTORY_RESET_INVALID_CONFIRMATION, body, w)
                     else (case authorized_factory_reset (the ops) password w of
                         (outcome, w) \<Rightarrow> (outcome, body, w))
                 | _ \<Rightarrow> (refuse WEB_DEVICE_FACTORY_RESET_INVALID_BODY, body, w))))"

section \<open>The responses\<close>

definition web_device_restart_accepted_json :: "cjson \<Rightarrow> app_error \<times> u8 list option" where
  "web_device_restart_accepted_json cj =
     (case (if \<not> cj_create cj 0 then None else do {
        doc \<leftarrow> cj_add cj [] (ascii ''accepted'') (JBool True);
        doc \<leftarrow> cj_add cj doc (ascii ''connectionWillClose'') (JBool True);
        doc \<leftarrow> cj_add cj doc (ascii ''reprovisioningRequired'') (JBool False);
        cj_print cj doc
      }) of None \<Rightarrow> (APP_ERROR_INTERNAL, None) | Some json \<Rightarrow> (APP_ERROR_NONE, Some json))"

definition web_device_reset_accepted_json :: "cjson \<Rightarrow> bool \<Rightarrow> bool \<Rightarrow> app_error \<times> u8 list option" where
  "web_device_reset_accepted_json cj reprovisioning_required repository_blobs_preserved =
     (case (if \<not> cj_create cj 0 then None else do {
        doc \<leftarrow> cj_add cj [] (ascii ''accepted'') (JBool True);
        doc \<leftarrow> cj_add cj doc (ascii ''connectionWillClose'') (JBool True);
        doc \<leftarrow> cj_add cj doc (ascii ''reprovisioningRequired'') (JBool reprovisioning_required);
        doc \<leftarrow> cj_add cj doc (ascii ''repositoryBlobsPreserved'') (JBool repository_blobs_preserved);
        cj_print cj doc
      }) of None \<Rightarrow> (APP_ERROR_INTERNAL, None) | Some json \<Rightarrow> (APP_ERROR_NONE, Some json))"

section \<open>The device behind the handlers\<close>

definition device_actions_ops ::
    "('n, 'f, 'j) device_port \<Rightarrow> ('n, 'f, 'j) device_world web_device_actions_ops" where
  "device_actions_ops port =
     \<lparr>ao_settings_read = so_settings_read (device_web_ops port),
      ao_password_verify = so_password_verify (device_web_ops port),
      ao_restart = device_controls_restart port,
      ao_reset_settings = device_controls_reset_settings port,
      ao_factory_reset = device_controls_factory_reset port\<rparr>"

text \<open>The guard: an error response, or what the handler gives.\<close>

definition WEB_HTTP_STATUS_SERVICE_UNAVAILABLE :: nat where
  "WEB_HTTP_STATUS_SERVICE_UNAVAILABLE = 503"

definition reset_guarded_request ::
    "('n, 'f, 'j) device_port \<Rightarrow> (('n, 'f, 'j) device_world \<Rightarrow> 'r \<times> ('n, 'f, 'j) device_world) \<Rightarrow>
      ('n, 'f, 'j) device_world \<Rightarrow> ((nat \<times> app_error) + 'r) \<times> ('n, 'f, 'j) device_world" where
  "reset_guarded_request port handler w =
     (let unavailable = (\<lambda>code. Inl (WEB_HTTP_STATUS_SERVICE_UNAVAILABLE, code))
      in if device_controls_reset_settings_restart_required w
         then (unavailable APP_ERROR_RESET_SETTINGS_INCOMPLETE, w)
         else (case factory_reset_state_read (dp_journal port) (dv_journal w) of (reset_result, reset_state, j) \<Rightarrow>
           let w = w\<lparr>dv_journal := j\<rparr>
           in if reset_result \<noteq> APP_ERROR_NONE then (unavailable reset_result, w)
              else if reset_state = FACTORY_RESET_STATE_PENDING
              then (unavailable APP_ERROR_RESET_RECOVERY_REQUIRED, w)
              else (case handler w of (r, w) \<Rightarrow> (Inr r, w))))"

section \<open>Only an authorized request erases\<close>

text \<open>The engine reports consistently, so the checks of its report never strike.\<close>

lemma factory_report_consistent:
  assumes "device_controls_factory_reset port w = (out, w')"
  shows "fo_recovery_required out \<longleftrightarrow> fo_durably_accepted out \<and> fo_primary_error out \<noteq> APP_ERROR_NONE"
    and "\<not> fo_durably_accepted out \<Longrightarrow> fo_primary_error out \<noteq> APP_ERROR_NONE"
  using assms by (auto simp: device_controls_factory_reset_def device_controls_reset_engine_factory_reset_def Let_def
      split: prod.splits if_splits)

lemma factory_outcome_not_internal:
  assumes "device_controls_factory_reset port w = (out, w')"
  shows "fst (factory_reset_backend_outcome out) \<noteq> WEB_DEVICE_FACTORY_RESET_INTERNAL"
    and "fst (factory_reset_backend_outcome out) = WEB_DEVICE_FACTORY_RESET_OK \<Longrightarrow>
      fo_durably_accepted out \<and> fo_primary_error out = APP_ERROR_NONE"
  using factory_report_consistent [OF assms]
  by (auto simp: factory_reset_backend_outcome_def Let_def split: if_splits)

text \<open>A device on which nothing was erased and nothing begun.\<close>

definition untouched ::
    "('n \<Rightarrow> u8 list option) \<Rightarrow> ('n, 'f, 'j) device_world \<Rightarrow> ('n, 'f, 'j) device_world \<Rightarrow> bool" where
  "untouched committed w w' \<longleftrightarrow>
     held_settings committed (dv_server w') = held_settings committed (dv_server w) \<and>
     rest_of (dv_server w') = rest_of (dv_server w) \<and> dv_files w' = dv_files w \<and> dv_scan w' = dv_scan w \<and>
     dv_journal w' = dv_journal w \<and> dv_restart w' = dv_restart w"

lemma untouched_refl [simp]: "untouched committed w w"
  by (simp add: untouched_def)

lemma device_read:
  assumes "web_production (dp_web port) committed pending w0"
    and "settings_run (wp_nvs (dp_web port)) (module_boot w0) (ws_module (dv_server w))"
    and "ao_settings_read (device_actions_ops port) w = (e, cur, w1)"
  shows "untouched committed w w1 \<and>
    settings_run (wp_nvs (dp_web port)) (module_boot w0) (ws_module (dv_server w1)) \<and>
    (e = APP_ERROR_NONE \<longrightarrow> held_settings committed (dv_server w) = Some (canonical cur))"
proof -
  have read: "production_settings_read (dp_web port) (dv_server w) = (e, cur, dv_server w1)"
    "w1 = w\<lparr>dv_server := dv_server w1\<rparr>"
    using assms(3) by (auto simp: device_actions_ops_def device_web_ops_def lift_server_def
        web_settings_production_ops_def Let_def split: prod.splits)
  have r: "web_production.reached (dp_web port) w0 (dv_server w)"
    using assms(2) by (simp add: web_production.reached_def [OF assms(1)])
  have same: "dv_files w1 = dv_files w" "dv_scan w1 = dv_scan w" "dv_journal w1 = dv_journal w" "dv_restart w1 = dv_restart w"
    using arg_cong [OF read(2), of dv_files] arg_cong [OF read(2), of dv_scan] arg_cong [OF read(2), of dv_journal]
      arg_cong [OF read(2), of dv_restart] by simp_all
  show ?thesis
    using web_production.read_production [OF assms(1) read(1) r]
    by (simp add: untouched_def web_production.held_def [OF assms(1)] web_production.reached_def [OF assms(1)] same)
qed

lemma device_verify:
  assumes "ao_password_verify (device_actions_ops port) v cur w = (e, matches, w')"
  shows "w' = w \<and> (e = APP_ERROR_NONE \<and> matches \<longrightarrow> accepts_password (dp_web port) v cur)"
proof -
  have "production_password_verify (dp_web port) v cur (dv_server w) = (e, matches, dv_server w')"
    "w' = w\<lparr>dv_server := dv_server w'\<rparr>"
    using assms by (auto simp: device_actions_ops_def device_web_ops_def lift_server_def
        web_settings_production_ops_def Let_def split: prod.splits)
  then have "dv_server w' = dv_server w" "e = APP_ERROR_NONE \<and> matches \<longrightarrow> accepts_password (dp_web port) v cur"
    by (auto simp: production_password_verify_def accepts_password_def dest: auth_error(1) split: sum.splits)
  with \<open>w' = _\<close> show ?thesis by (metis device_world.surjective device_world.update_convs(1))
qed

text \<open>The authorized part of the handler.\<close>

lemma authorized_at_device:
  assumes "web_production (dp_web port) committed pending w0"
    and "settings_run (wp_nvs (dp_web port)) (module_boot w0) (ws_module (dv_server w))"
    and "authorized_factory_reset (device_actions_ops port) password w = (outcome, w')"
  obtains (refused) "untouched committed w w'" "fst outcome \<noteq> WEB_DEVICE_FACTORY_RESET_INTERNAL"
      "fst outcome \<noteq> WEB_DEVICE_FACTORY_RESET_OK" "fst outcome \<noteq> WEB_DEVICE_FACTORY_RESET_RECOVERY_REQUIRED"
  | (authorized) cur out w1 where "held_settings committed (dv_server w) = Some (canonical cur)"
      "accepts_password (dp_web port) (Some password) cur" "untouched committed w w1"
      "settings_run (wp_nvs (dp_web port)) (module_boot w0) (ws_module (dv_server w1))"
      "device_controls_factory_reset port w1 = (out, w')" "outcome = factory_reset_backend_outcome out"
proof -
  obtain e cur w1 where read: "ao_settings_read (device_actions_ops port) w = (e, cur, w1)" by (metis prod.exhaust)
  note r = device_read [OF assms(1,2) read]
  obtain e2 matches w2 where verify: "ao_password_verify (device_actions_ops port) (Some password) cur w1 = (e2, matches, w2)"
    by (metis prod.exhaust)
  note v = device_verify [OF verify]
  obtain out w3 where reset: "device_controls_factory_reset port w1 = (out, w3)" by (metis prod.exhaust)
  have "ao_factory_reset (device_actions_ops port) w1 = (out, w3)" "w2 = w1"
    using reset v by (simp_all add: device_actions_ops_def)
  then have run: "(outcome, w') =
      (if e \<noteq> APP_ERROR_NONE then ((WEB_DEVICE_FACTORY_RESET_BACKEND_UNAVAILABLE, e), w1)
       else if e2 \<noteq> APP_ERROR_NONE then ((WEB_DEVICE_FACTORY_RESET_BACKEND_UNAVAILABLE, e2), w1)
       else if \<not> matches then ((WEB_DEVICE_FACTORY_RESET_INCORRECT_PASSWORD, APP_ERROR_NONE), w1)
       else (factory_reset_backend_outcome out, w3))"
    using assms(3) by (auto simp: authorized_factory_reset_def read verify split: if_splits)
  show ?thesis
  proof (cases "e = APP_ERROR_NONE \<and> e2 = APP_ERROR_NONE \<and> matches")
    case True
    then show ?thesis using run r v reset by (intro authorized) auto
  next
    case False
    then show ?thesis using run r by (intro refused) (auto split: if_splits)
  qed
qed

text \<open>C37: a factory reset requested through the web interface. The body is wiped on every path.
  Either the device is untouched (its settings, verifier, sessions, repository, marker and restart)
  and the request is refused, or the body was an object with exactly the phrase and a password that
  the stored credential accepts, and the answer is the report of the reset; an accepted answer
  means that the flash holds the factory settings, no session, no blob and no staged upload is
  left and the restart is scheduled. The handler never ends in its internal error.\<close>

theorem factory_reset_request_authorized:
  assumes "web_production (dp_web port) committed pending w0"
    and "settings_run (wp_nvs (dp_web port)) (module_boot w0) (ws_module (dv_server w))"
    and "posix_fs (dp_fs port) tr" and "keeps_files tr (dp_sync_parent port)"
    and "web_device_factory_reset_handle cj body (Some (device_actions_ops port)) w = ((result, detail), body', w')"
    and "body \<noteq> []"
  shows "body' = zeros (length body) \<and> result \<noteq> WEB_DEVICE_FACTORY_RESET_INTERNAL \<and>
    (untouched committed w w' \<and> result \<notin> {WEB_DEVICE_FACTORY_RESET_OK, WEB_DEVICE_FACTORY_RESET_RECOVERY_REQUIRED} \<or>
     (\<exists>doc password cur. fst (parse_exact_body cj body) = Some doc \<and> exact_factory_reset_fields doc \<and>
        string_field cj doc (ascii ''confirmation'') = Some FACTORY_RESET_CONFIRMATION \<and>
        string_field cj doc (ascii ''adminPassword'') = Some password \<and>
        held_settings committed (dv_server w) = Some (canonical cur) \<and>
        accepts_password (dp_web port) (Some password) cur)) \<and>
    (result = WEB_DEVICE_FACTORY_RESET_OK \<longrightarrow>
       held_settings committed (dv_server w') = Some app_v2_device_settings_init_unprovisioned \<and>
       ac_sessions (ws_auth (dv_server w')) = no_sessions \<and>
       (\<forall>entry. \<not> is_blob (fv_node (fs_now tr (dv_files w'))) STORAGE_BLOB_DIRECTORY entry) \<and>
       staged_paths (fv_node (fs_now tr (dv_files w'))) STORAGE_BLOB_DIRECTORY = {} \<and> rst_scheduled (dv_restart w'))"
proof (cases "\<exists>doc password. fst (parse_exact_body cj body) = Some doc \<and> exact_factory_reset_fields doc \<and>
        string_field cj doc (ascii ''confirmation'') = Some FACTORY_RESET_CONFIRMATION \<and>
        string_field cj doc (ascii ''adminPassword'') = Some password")
  case False
  then have "body' = zeros (length body) \<and> w' = w \<and> result \<in> {WEB_DEVICE_FACTORY_RESET_INVALID_BODY,
      WEB_DEVICE_FACTORY_RESET_INVALID_CONFIRMATION}"
    using assms(5,6)
    by (auto simp: web_device_factory_reset_handle_def confirmation_matches_def Let_def
        dest: parse_exact_wipedD split: option.splits prod.splits if_splits)
  then show ?thesis by auto
next
  case True
  then obtain doc password where asked: "fst (parse_exact_body cj body) = Some doc" "exact_factory_reset_fields doc"
      "string_field cj doc (ascii ''confirmation'') = Some FACTORY_RESET_CONFIRMATION"
      "string_field cj doc (ascii ''adminPassword'') = Some password" by blast
  have "parse_exact_body cj body = (Some doc, zeros (length body))"
    using asked(1) parse_exact_wiped [of cj body] by (metis prod.collapse)
  then have "body' = zeros (length body)"
    and run: "authorized_factory_reset (device_actions_ops port) password w = ((result, detail), w')"
    using assms(5,6) asked by (auto simp: web_device_factory_reset_handle_def confirmation_matches_def Let_def
        split: prod.splits)
  from assms(1,2) run show ?thesis
  proof (cases rule: authorized_at_device)
    case refused
    then show ?thesis using \<open>body' = _\<close> by simp
  next
    case (authorized cur out w1)
    note report = factory_outcome_not_internal [OF authorized(5)] authorized(6) [symmetric]
    have "result = WEB_DEVICE_FACTORY_RESET_OK \<Longrightarrow> fo_durably_accepted out \<and> fo_primary_error out = APP_ERROR_NONE"
      using report by simp
    with reset_completed_facts [OF assms(1) authorized(4) assms(3,4) authorized(5)]
    show ?thesis using \<open>body' = _\<close> asked authorized(1,2) report by auto
  qed
qed

definition reset_password_doc :: json_fields where
  "reset_password_doc =
     [(Some (ascii ''confirmation''), JString FACTORY_RESET_CONFIRMATION),
      (Some (ascii ''adminPassword''), JString old_password)]"

lemma reset_doc_fields:
  "exact_factory_reset_fields reset_password_doc"
  "string_field (sample_cjson doc) reset_password_doc (ascii ''confirmation'') = Some FACTORY_RESET_CONFIRMATION"
  "string_field (sample_cjson doc) reset_password_doc (ascii ''adminPassword'') = Some old_password"
proof -
  have texts: "c_text old_password = old_password" "c_text FACTORY_RESET_CONFIRMATION = FACTORY_RESET_CONFIRMATION"
    using sample_passwords(4) by (auto simp: c_text_def takeWhile_eq_all_conv FACTORY_RESET_CONFIRMATION_def ascii_def)
  have ne: "ascii ''confirmation'' \<noteq> ascii ''adminPassword''" by (simp add: ascii_def)
  show "exact_factory_reset_fields reset_password_doc"
    using ne by (simp add: exact_factory_reset_fields_def reset_password_doc_def FACTORY_RESET_FIELDS_def)
  show "string_field (sample_cjson doc) reset_password_doc (ascii ''confirmation'') = Some FACTORY_RESET_CONFIRMATION"
    "string_field (sample_cjson doc) reset_password_doc (ascii ''adminPassword'') = Some old_password"
    using ne texts by (simp_all add: string_field_def sample_cjson_def field_of_def reset_password_doc_def)
qed

theorem factory_reset_request_authorized_witness:
  "\<exists>w'. web_device_factory_reset_handle (sample_cjson reset_password_doc) sample_body
      (Some (device_actions_ops sample_device_port)) sample_device =
      ((WEB_DEVICE_FACTORY_RESET_OK, APP_ERROR_NONE), zeros 3, w') \<and>
    held_settings fst (dv_server w') = Some app_v2_device_settings_init_unprovisioned \<and> rst_scheduled (dv_restart w')"
proof -
  obtain w' where reset: "device_controls_factory_reset sample_device_port sample_device =
      (\<lparr>fo_durably_accepted = True, fo_recovery_required = False, fo_primary_error = APP_ERROR_NONE\<rparr>, w')"
    using sample_reset by blast
  have "ao_settings_read (device_actions_ops sample_device_port) sample_device = (APP_ERROR_NONE, sample_with 12, sample_device)"
    by (simp add: device_actions_ops_def device_web_ops_def lift_server_def Let_def sample_device_fields sample_ops)
      (simp add: sample_server_def read_module_on sample_device_def)
  moreover have "ao_password_verify (device_actions_ops sample_device_port) (Some old_password) (sample_with 12) sample_device =
      (APP_ERROR_NONE, True, sample_device)"
    by (simp add: device_actions_ops_def device_web_ops_def lift_server_def Let_def sample_device_fields sample_verify)
  moreover have "ao_factory_reset (device_actions_ops sample_device_port) = device_controls_factory_reset sample_device_port"
    by (simp add: device_actions_ops_def)
  ultimately have "authorized_factory_reset (device_actions_ops sample_device_port) old_password sample_device =
      ((WEB_DEVICE_FACTORY_RESET_OK, APP_ERROR_NONE), w')"
    by (simp add: authorized_factory_reset_def reset factory_reset_backend_outcome_def)
  then have run: "web_device_factory_reset_handle (sample_cjson reset_password_doc) sample_body
      (Some (device_actions_ops sample_device_port)) sample_device =
      ((WEB_DEVICE_FACTORY_RESET_OK, APP_ERROR_NONE), zeros 3, w')"
    by (simp add: web_device_factory_reset_handle_def sample_parse [unfolded sample_body_def] reset_doc_fields confirmation_matches_def
        sample_body_def)
  have "sample_body \<noteq> []" by (simp add: sample_body_def)
  from factory_reset_request_authorized [OF sample_device_laws run this] run show ?thesis by simp
qed

text \<open>After a reset of the settings was applied, no handler runs until the device restarts.\<close>

lemma reset_settings_latches:
  assumes "device_controls_reset_settings port w = (out, w')" and "so_settings_applied out"
  shows "reset_guarded_request port handler w' =
    (Inl (WEB_HTTP_STATUS_SERVICE_UNAVAILABLE, APP_ERROR_RESET_SETTINGS_INCOMPLETE), w')"
proof -
  obtain e w1 where r: "adapter_reset_settings_noncredential port w = (e, w1)" by (metis prod.exhaust)
  obtain e2 w2 where s: "adapter_reset_invalidate_all_sessions port w1 = (e2, w2)" by (metis prod.exhaust)
  obtain e3 w3 where t: "adapter_reset_schedule_restart port DEVICE_CONTROLS_RESTART_DELAY_MS w2 = (e3, w3)"
    by (metis prod.exhaust)
  have ok: "e = APP_ERROR_NONE" "w' = w3"
    using assms by (auto simp: device_controls_reset_settings_def device_controls_reset_engine_reset_settings_def
        reset_operations_sel r s t Let_def split: if_splits)
  have "rst_settings_restart_required (dv_restart w1)"
    using r ok(1) by (auto simp: adapter_reset_settings_noncredential_def mark_reset_settings_restart_required_def
        split: prod.splits)
  then have "rst_settings_restart_required (dv_restart w2)"
    using s by (auto simp: adapter_reset_invalidate_all_sessions_def at_server_def split: prod.splits)
  then have "rst_settings_restart_required (dv_restart w3)"
    using t by (auto simp: adapter_reset_schedule_restart_def restart_begin_def restart_finish_def Let_def
        split: prod.splits if_splits)
  then show ?thesis
    by (simp add: reset_guarded_request_def device_controls_reset_settings_restart_required_def ok(2))
qed

end
