(* ===== verification/Wifi_Ap.thy ===== *)
theory Wifi_Ap
  imports Startup_Rollback Settings_Nvs C_Text Subsystem_Health
begin

text \<open>
  The access point and the station: \<open>wifi_ap/wifi_ap_state.c\<close> and \<open>wifi_ap_station.c\<close> with the
  functions of \<open>wifi_ap.c\<close> that they are bound to, and the Wi-Fi stage of \<open>app_core.c\<close>.

  The engine is written over the operations \<open>wifi_ap.c\<close> gives it, with the static variables of that
  file as one record.  What the driver answers is a function of the calls made so far, and so are
  the events it delivers after a call; nothing is assumed of either.  Handling an event is one step:
  the status is read and written in two critical sections, between which no other task is let in.
\<close>

section \<open>Configuration and state\<close>

definition WIFI_AP_SSID_MAX_BYTES :: nat where
  [limit_defs]: "WIFI_AP_SSID_MAX_BYTES = 32"
definition WIFI_AP_PASSPHRASE_MIN_BYTES :: nat where
  [limit_defs]: "WIFI_AP_PASSPHRASE_MIN_BYTES = 12"
definition WIFI_AP_PASSPHRASE_MAX_BYTES :: nat where
  [limit_defs]: "WIFI_AP_PASSPHRASE_MAX_BYTES = 63"
definition WIFI_AP_MAX_CLIENTS :: nat where
  [limit_defs]: "WIFI_AP_MAX_CLIENTS = 4"
definition WIFI_AP_DEFAULT_CHANNEL :: u8 where
  "WIFI_AP_DEFAULT_CHANNEL = 1"
definition WIFI_STA_IP_STRING_BYTES :: nat where
  [limit_defs]: "WIFI_STA_IP_STRING_BYTES = 16"
definition WIFI_STATION_MAX_ATTEMPTS :: nat where
  [limit_defs]: "WIFI_STATION_MAX_ATTEMPTS = 3"

datatype wifi_ap_state = WIFI_AP_STOPPED | WIFI_AP_STARTING | WIFI_AP_READY | WIFI_AP_ERROR

record wifi_ap_status =
  ws_state :: wifi_ap_state
  ws_client_count :: nat
  ws_last_error :: app_error
  ws_cleanup_error :: app_error

datatype wifi_station_state =
    WIFI_STATION_DISABLED | WIFI_STATION_CONNECTING | WIFI_STATION_CONNECTED | WIFI_STATION_FAILED

record wifi_station_status =
  ss_state :: wifi_station_state
  ss_last_error :: app_error
  ss_attempt_count :: nat

record wifi_runtime_config =
  rc_ssid :: "u8 list"
  rc_ssid_length :: nat
  rc_passphrase :: "u8 list"
  rc_channel :: u8
  rc_maximum_clients :: nat
  rc_wpa2_wpa3_psk :: bool
  rc_pmf_required :: bool

text \<open>What \<open>esp_wifi_set_config\<close> is given for the access point.\<close>

record esp_ap_config =
  ap_config_ssid :: "u8 list"
  ap_config_ssid_len :: u8
  ap_config_password :: "u8 list"
  ap_config_channel :: u8
  ap_config_max_connection :: nat
  ap_config_wpa2_wpa3 :: bool
  ap_config_pmf_required :: bool

datatype wifi_call =
    Netif_Init | Event_Loop_Create | Netif_Create_Ap | Wifi_Init | Handler_Register | Set_Mode_Ap
  | Set_Config_Ap esp_ap_config | Wifi_Start | Wifi_Stop | Handler_Unregister | Wifi_Deinit
  | Netif_Destroy | Netif_Create_Sta | Register_Disconnected | Register_Got_Ip | Semaphore_Create
  | Wifi_Disconnect | Delay | Set_Mode_Apsta | Set_Config_Sta "u8 list" "u8 list" | Wifi_Connect
  | Wait_Outcome u32

datatype wifi_event =
    WIFI_EVENT_AP_START | WIFI_EVENT_AP_STOP | WIFI_EVENT_AP_STACONNECTED | WIFI_EVENT_AP_STADISCONNECTED
  | WIFI_EVENT_STA_DISCONNECTED "int option" | IP_EVENT_STA_GOT_IP "u32 option" | WIFI_EVENT_OTHER

type_synonym wifi_history = "(wifi_call \<times> esp_err) list"

record esp_wifi =
  ew_call :: "wifi_call \<Rightarrow> wifi_history \<Rightarrow> esp_err"
  ew_events :: "wifi_history \<Rightarrow> wifi_event list"

abbreviation ESP_ERR_INVALID_STATE :: esp_err where
  "ESP_ERR_INVALID_STATE \<equiv> ESP_ERR_OTHER 0x103"
abbreviation ESP_ERR_WIFI_NOT_STARTED :: esp_err where
  "ESP_ERR_WIFI_NOT_STARTED \<equiv> ESP_ERR_OTHER 0x3002"

text \<open>The static variables of \<open>wifi_ap.c\<close>, the engine among them, and the calls made so far.\<close>

record wifi_ap =
  wa_status :: wifi_ap_status
  wa_ap_netif :: bool
  wa_engine_initialized :: bool
  wa_netif_created :: bool
  wa_wifi_initialized :: bool
  wa_handler_registered :: bool
  wa_wifi_started :: bool
  wa_station :: wifi_station_status
  wa_sta_netif_created :: bool
  wa_sta_semaphore :: bool
  wa_sta_signalled :: bool
  wa_sta_got_ip :: bool
  wa_sta_ip_addr :: u32
  wa_history :: wifi_history

definition wifi_ap_boot :: wifi_ap where
  "wifi_ap_boot =
     \<lparr>wa_status = \<lparr>ws_state = WIFI_AP_STOPPED, ws_client_count = 0, ws_last_error = APP_ERROR_NONE,
        ws_cleanup_error = APP_ERROR_NONE\<rparr>,
      wa_ap_netif = False, wa_engine_initialized = False, wa_netif_created = False,
      wa_wifi_initialized = False, wa_handler_registered = False, wa_wifi_started = False,
      wa_station = \<lparr>ss_state = WIFI_STATION_DISABLED, ss_last_error = APP_ERROR_NONE, ss_attempt_count = 0\<rparr>,
      wa_sta_netif_created = False, wa_sta_semaphore = False, wa_sta_signalled = False,
      wa_sta_got_ip = False, wa_sta_ip_addr = 0, wa_history = []\<rparr>"

section \<open>Events\<close>

datatype ap_event =
    WIFI_AP_EVENT_STARTED | WIFI_AP_EVENT_STOPPED | WIFI_AP_EVENT_CLIENT_CONNECTED
  | WIFI_AP_EVENT_CLIENT_DISCONNECTED | WIFI_AP_EVENT_UNKNOWN

definition serving :: "wifi_ap_status \<Rightarrow> bool" where
  "serving st \<longleftrightarrow> ws_state st = WIFI_AP_STARTING \<or> ws_state st = WIFI_AP_READY"

fun status_after :: "ap_event \<Rightarrow> wifi_ap_status \<Rightarrow> wifi_ap_status" where
  "status_after WIFI_AP_EVENT_STARTED current =
     (if ws_state current = WIFI_AP_STARTING
      then current\<lparr>ws_state := WIFI_AP_READY, ws_last_error := APP_ERROR_NONE,
                   ws_cleanup_error := APP_ERROR_NONE\<rparr>
      else current)"
| "status_after WIFI_AP_EVENT_STOPPED current =
     current\<lparr>ws_state := WIFI_AP_STOPPED, ws_client_count := 0\<rparr>"
| "status_after WIFI_AP_EVENT_CLIENT_CONNECTED current =
     (if serving current \<and> ws_client_count current < WIFI_AP_MAX_CLIENTS
      then current\<lparr>ws_client_count := ws_client_count current + 1\<rparr> else current)"
| "status_after WIFI_AP_EVENT_CLIENT_DISCONNECTED current =
     (if serving current \<and> 0 < ws_client_count current
      then current\<lparr>ws_client_count := ws_client_count current - 1\<rparr> else current)"
| "status_after WIFI_AP_EVENT_UNKNOWN current = current"

definition wifi_ap_engine_handle_event :: "ap_event \<Rightarrow> wifi_ap \<Rightarrow> wifi_ap" where
  "wifi_ap_engine_handle_event event s =
     (if \<not> wa_engine_initialized s then s else s\<lparr>wa_status := status_after event (wa_status s)\<rparr>)"

fun ap_event_of :: "wifi_event \<Rightarrow> ap_event" where
  "ap_event_of WIFI_EVENT_AP_START = WIFI_AP_EVENT_STARTED"
| "ap_event_of WIFI_EVENT_AP_STOP = WIFI_AP_EVENT_STOPPED"
| "ap_event_of WIFI_EVENT_AP_STACONNECTED = WIFI_AP_EVENT_CLIENT_CONNECTED"
| "ap_event_of WIFI_EVENT_AP_STADISCONNECTED = WIFI_AP_EVENT_CLIENT_DISCONNECTED"
| "ap_event_of e = WIFI_AP_EVENT_UNKNOWN"

text \<open>\<open>station_event\<close>: the outcome of an attempt, signalled when the semaphore exists.\<close>

fun station_event :: "wifi_event \<Rightarrow> wifi_ap \<Rightarrow> wifi_ap" where
  "station_event (WIFI_EVENT_STA_DISCONNECTED reason) s =
     s\<lparr>wa_sta_signalled := wa_sta_signalled s \<or> wa_sta_semaphore s\<rparr>"
| "station_event (IP_EVENT_STA_GOT_IP ip) s =
     s\<lparr>wa_sta_got_ip := True, wa_sta_ip_addr := (case ip of None \<Rightarrow> 0 | Some a \<Rightarrow> a),
       wa_sta_signalled := wa_sta_signalled s \<or> wa_sta_semaphore s\<rparr>"
| "station_event e s = s"

definition deliver :: "wifi_event \<Rightarrow> wifi_ap \<Rightarrow> wifi_ap" where
  "deliver e s = station_event e (wifi_ap_engine_handle_event (ap_event_of e) s)"

text \<open>A call of the driver and the events that the event task handles before the next one.\<close>

definition esp_call :: "esp_wifi \<Rightarrow> wifi_call \<Rightarrow> wifi_ap \<Rightarrow> esp_err \<times> wifi_ap" where
  "esp_call esp c s =
     (let r = ew_call esp c (wa_history s); h = wa_history s @ [(c, r)]
      in (r, fold deliver (ew_events esp h) (s\<lparr>wa_history := h\<rparr>)))"

definition adapter_call :: "esp_wifi \<Rightarrow> wifi_call \<Rightarrow> wifi_ap \<Rightarrow> app_error \<times> wifi_ap" where
  "adapter_call esp c s =
     (case esp_call esp c s of (r, s) \<Rightarrow> (if r = ESP_OK then APP_ERROR_NONE else APP_ERROR_INTERNAL, s))"

section \<open>The operations of \<open>wifi_ap.c\<close>\<close>

datatype event_loop_result =
    WIFI_AP_EVENT_LOOP_CREATED | WIFI_AP_EVENT_LOOP_ALREADY_EXISTS | WIFI_AP_EVENT_LOOP_FAILED

definition adapter_event_loop_create :: "esp_wifi \<Rightarrow> wifi_ap \<Rightarrow> event_loop_result \<times> wifi_ap" where
  "adapter_event_loop_create esp s =
     (case esp_call esp Event_Loop_Create s of (r, s) \<Rightarrow>
        (if r = ESP_OK then WIFI_AP_EVENT_LOOP_CREATED
         else if r = ESP_ERR_INVALID_STATE then WIFI_AP_EVENT_LOOP_ALREADY_EXISTS
         else WIFI_AP_EVENT_LOOP_FAILED, s))"

text \<open>The network interface is a pointer in the code: here whether it is not \<open>NULL\<close>.\<close>

definition adapter_netif_create :: "esp_wifi \<Rightarrow> wifi_ap \<Rightarrow> app_error \<times> wifi_ap" where
  "adapter_netif_create esp s =
     (case adapter_call esp Netif_Create_Ap s of (r, s) \<Rightarrow> (r, s\<lparr>wa_ap_netif := r = APP_ERROR_NONE\<rparr>))"

definition adapter_set_config ::
    "esp_wifi \<Rightarrow> wifi_runtime_config \<Rightarrow> wifi_ap \<Rightarrow> app_error \<times> wifi_ap" where
  "adapter_set_config esp c s =
     (if WIFI_AP_SSID_MAX_BYTES < rc_ssid_length c \<or> \<not> rc_wpa2_wpa3_psk c \<or> \<not> rc_pmf_required c
      then (APP_ERROR_INVALID_ARGUMENT, s)
      else adapter_call esp (Set_Config_Ap
        \<lparr>ap_config_ssid = blit 0 (take (rc_ssid_length c) (rc_ssid c)) (zeros 32),
         ap_config_ssid_len = of_nat (rc_ssid_length c),
         ap_config_password = blit 0 (c_text (rc_passphrase c)) (zeros 64),
         ap_config_channel = rc_channel c, ap_config_max_connection = rc_maximum_clients c,
         ap_config_wpa2_wpa3 = True, ap_config_pmf_required = True\<rparr>) s)"

definition adapter_wifi_stop :: "esp_wifi \<Rightarrow> wifi_ap \<Rightarrow> app_error \<times> wifi_ap" where
  "adapter_wifi_stop esp s =
     (case esp_call esp Wifi_Stop s of (r, s) \<Rightarrow>
        (if r = ESP_OK \<or> r = ESP_ERR_WIFI_NOT_STARTED then APP_ERROR_NONE else APP_ERROR_INTERNAL, s))"

definition adapter_netif_destroy :: "esp_wifi \<Rightarrow> wifi_ap \<Rightarrow> app_error \<times> wifi_ap" where
  "adapter_netif_destroy esp s =
     (APP_ERROR_NONE,
      if wa_ap_netif s then (snd (esp_call esp Netif_Destroy s))\<lparr>wa_ap_netif := False\<rparr> else s)"

section \<open>The engine\<close>

definition ap_publish_status ::
    "wifi_ap_state \<Rightarrow> nat \<Rightarrow> app_error \<Rightarrow> app_error \<Rightarrow> wifi_ap \<Rightarrow> wifi_ap" where
  "ap_publish_status state clients error cleanup_error s =
     s\<lparr>wa_status := \<lparr>ws_state = state, ws_client_count = clients, ws_last_error = error,
       ws_cleanup_error = cleanup_error\<rparr>\<rparr>"

definition make_configuration ::
    "u8 list option \<Rightarrow> u8 list option \<Rightarrow> app_error + wifi_runtime_config" where
  "make_configuration ssid passphrase =
     (case (ssid, passphrase) of
        (Some ssid, Some passphrase) \<Rightarrow>
          (case (bounded_length ssid (Suc WIFI_AP_SSID_MAX_BYTES),
                 bounded_length passphrase (Suc WIFI_AP_PASSPHRASE_MAX_BYTES)) of
             (Some ssid_length, Some passphrase_length) \<Rightarrow>
               if ssid_length = 0 \<or> passphrase_length < WIFI_AP_PASSPHRASE_MIN_BYTES
               then Inl APP_ERROR_INVALID_ARGUMENT
               else Inr \<lparr>rc_ssid = blit 0 (take ssid_length ssid) (zeros 33),
                         rc_ssid_length = ssid_length,
                         rc_passphrase = blit 0 (take passphrase_length passphrase) (zeros 64),
                         rc_channel = WIFI_AP_DEFAULT_CHANNEL,
                         rc_maximum_clients = WIFI_AP_MAX_CLIENTS,
                         rc_wpa2_wpa3_psk = True, rc_pmf_required = True\<rparr>
           | _ \<Rightarrow> Inl APP_ERROR_INVALID_ARGUMENT)
      | _ \<Rightarrow> Inl APP_ERROR_INVALID_ARGUMENT)"

text \<open>One step of the clean-up: a resource that is held is given back, and the flag cleared on success.\<close>

definition cleanup_step ::
    "(wifi_ap \<Rightarrow> bool) \<Rightarrow> (wifi_ap \<Rightarrow> app_error \<times> wifi_ap) \<Rightarrow> (wifi_ap \<Rightarrow> wifi_ap) \<Rightarrow>
      app_error \<times> wifi_ap \<Rightarrow> app_error \<times> wifi_ap" where
  "cleanup_step held release clear p =
     (case p of (first, s) \<Rightarrow>
        if \<not> held s then (first, s)
        else (case release s of (result, s) \<Rightarrow>
          (if result \<noteq> APP_ERROR_NONE \<and> first = APP_ERROR_NONE then result else first,
           if result = APP_ERROR_NONE then clear s else s)))"

definition ap_cleanup_resources :: "esp_wifi \<Rightarrow> wifi_ap \<Rightarrow> app_error \<times> wifi_ap" where
  "ap_cleanup_resources esp s =
     cleanup_step wa_netif_created (adapter_netif_destroy esp) (\<lambda>s. s\<lparr>wa_netif_created := False\<rparr>)
     (cleanup_step wa_wifi_initialized (adapter_call esp Wifi_Deinit) (\<lambda>s. s\<lparr>wa_wifi_initialized := False\<rparr>)
     (cleanup_step wa_handler_registered (adapter_call esp Handler_Unregister)
        (\<lambda>s. s\<lparr>wa_handler_registered := False\<rparr>)
     (cleanup_step wa_wifi_started (adapter_wifi_stop esp) (\<lambda>s. s\<lparr>wa_wifi_started := False\<rparr>)
        (APP_ERROR_NONE, s))))"

definition fail_start :: "esp_wifi \<Rightarrow> app_error \<Rightarrow> wifi_ap \<Rightarrow> app_error \<times> wifi_ap" where
  "fail_start esp original s =
     (case ap_cleanup_resources esp s of (cleanup_error, s) \<Rightarrow>
        (original, ap_publish_status WIFI_AP_ERROR 0 original cleanup_error s))"

definition wifi_ap_engine_owns_resources :: "wifi_ap \<Rightarrow> bool" where
  "wifi_ap_engine_owns_resources s \<longleftrightarrow>
     wa_netif_created s \<or> wa_wifi_initialized s \<or> wa_handler_registered s \<or> wa_wifi_started s"

text \<open>A step of the start: its operation, and the way out when it fails.\<close>

definition start_step ::
    "esp_wifi \<Rightarrow> (wifi_ap \<Rightarrow> app_error \<times> wifi_ap) \<Rightarrow> (wifi_ap \<Rightarrow> app_error \<times> wifi_ap) \<Rightarrow>
      wifi_ap \<Rightarrow> app_error \<times> wifi_ap" where
  "start_step esp operation continue s =
     (case operation s of (result, s) \<Rightarrow>
        if result \<noteq> APP_ERROR_NONE then fail_start esp result s else continue s)"

definition start_resources :: "esp_wifi \<Rightarrow> wifi_runtime_config \<Rightarrow> wifi_ap \<Rightarrow> app_error \<times> wifi_ap" where
  "start_resources esp configuration =
     start_step esp (adapter_call esp Netif_Init)
     (start_step esp (\<lambda>s. case adapter_event_loop_create esp s of (r, s) \<Rightarrow>
        (if r = WIFI_AP_EVENT_LOOP_FAILED then APP_ERROR_INTERNAL else APP_ERROR_NONE, s))
     (start_step esp (adapter_netif_create esp)
     (\<lambda>s. start_step esp (adapter_call esp Wifi_Init)
     (\<lambda>s. start_step esp (adapter_call esp Handler_Register)
     (\<lambda>s. start_step esp (adapter_call esp Set_Mode_Ap)
     (start_step esp (adapter_set_config esp configuration)
     (\<lambda>s. start_step esp (adapter_call esp Wifi_Start) (\<lambda>s. (APP_ERROR_NONE, s))
            (s\<lparr>wa_wifi_started := True\<rparr>)))
        (s\<lparr>wa_handler_registered := True\<rparr>))
        (s\<lparr>wa_wifi_initialized := True\<rparr>))
        (s\<lparr>wa_netif_created := True\<rparr>))))"

definition wifi_ap_engine_start ::
    "esp_wifi \<Rightarrow> u8 list option \<Rightarrow> u8 list option \<Rightarrow> wifi_ap \<Rightarrow> app_error \<times> wifi_ap" where
  "wifi_ap_engine_start esp ssid passphrase s =
     (if \<not> wa_engine_initialized s then (APP_ERROR_INVALID_ARGUMENT, s)
      else if ws_state (wa_status s) \<noteq> WIFI_AP_STOPPED \<or> wifi_ap_engine_owns_resources s
      then (APP_ERROR_CONFLICT, s)
      else (case make_configuration ssid passphrase of
        Inl e \<Rightarrow> (e, s)
      | Inr configuration \<Rightarrow>
          start_resources esp configuration
            (ap_publish_status WIFI_AP_STARTING 0 APP_ERROR_NONE APP_ERROR_NONE s)))"

definition wifi_ap_engine_stop :: "esp_wifi \<Rightarrow> wifi_ap \<Rightarrow> app_error \<times> wifi_ap" where
  "wifi_ap_engine_stop esp s =
     (if \<not> wa_engine_initialized s then (APP_ERROR_INVALID_ARGUMENT, s)
      else (let current = wa_status s
        in if ws_state current = WIFI_AP_STOPPED \<and> \<not> wifi_ap_engine_owns_resources s
           then (APP_ERROR_NONE, s)
           else (case ap_cleanup_resources esp s of (cleanup_error, s) \<Rightarrow>
             if cleanup_error = APP_ERROR_NONE
             then (APP_ERROR_NONE, ap_publish_status WIFI_AP_STOPPED 0 APP_ERROR_NONE APP_ERROR_NONE s)
             else (let original = (if ws_last_error current \<noteq> APP_ERROR_NONE
                                   then ws_last_error current else cleanup_error)
                   in (cleanup_error, ap_publish_status WIFI_AP_ERROR 0 original cleanup_error s)))))"

text \<open>The operation table is complete, so its check and \<open>wifi_ap_engine_init\<close> always succeed.\<close>

definition ensure_engine :: "wifi_ap \<Rightarrow> wifi_ap" where
  "ensure_engine s =
     (if wa_engine_initialized s then s
      else ap_publish_status WIFI_AP_STOPPED 0 APP_ERROR_NONE APP_ERROR_NONE
        (s\<lparr>wa_engine_initialized := True, wa_netif_created := False, wa_wifi_initialized := False,
           wa_handler_registered := False, wa_wifi_started := False\<rparr>))"

definition wifi_ap_start ::
    "esp_wifi \<Rightarrow> u8 list option \<Rightarrow> u8 list option \<Rightarrow> wifi_ap \<Rightarrow> app_error \<times> wifi_ap" where
  "wifi_ap_start esp ssid passphrase s = wifi_ap_engine_start esp ssid passphrase (ensure_engine s)"

definition wifi_ap_stop :: "esp_wifi \<Rightarrow> wifi_ap \<Rightarrow> app_error \<times> wifi_ap" where
  "wifi_ap_stop esp s = wifi_ap_engine_stop esp (ensure_engine s)"

definition wifi_ap_owns_resources :: "wifi_ap \<Rightarrow> bool" where
  "wifi_ap_owns_resources s \<longleftrightarrow> wa_engine_initialized s \<and> wifi_ap_engine_owns_resources s"

definition wifi_ap_health_derive_state :: "wifi_ap_status \<Rightarrow> subsystem_health_state" where
  "wifi_ap_health_derive_state st =
     (if ws_last_error st \<noteq> APP_ERROR_NONE \<or> ws_cleanup_error st \<noteq> APP_ERROR_NONE \<or>
         ws_state st = WIFI_AP_ERROR
      then SUBSYSTEM_HEALTH_FAILED
      else if ws_state st = WIFI_AP_STOPPED then SUBSYSTEM_HEALTH_UNAVAILABLE
      else if ws_state st = WIFI_AP_STARTING then SUBSYSTEM_HEALTH_RECOVERING
      else SUBSYSTEM_HEALTH_HEALTHY)"

section \<open>The station\<close>

definition ensure_station_netif :: "esp_wifi \<Rightarrow> wifi_ap \<Rightarrow> app_error \<times> wifi_ap" where
  "ensure_station_netif esp s =
     (if wa_sta_netif_created s then (APP_ERROR_NONE, s)
      else (case esp_call esp Netif_Init s of (r, s) \<Rightarrow>
        if r \<noteq> ESP_OK then (APP_ERROR_INTERNAL, s)
        else (case esp_call esp Event_Loop_Create s of (r, s) \<Rightarrow>
          if r \<noteq> ESP_OK \<and> r \<noteq> ESP_ERR_INVALID_STATE then (APP_ERROR_INTERNAL, s)
          else (case esp_call esp Netif_Create_Sta s of (r, s) \<Rightarrow>
            if r \<noteq> ESP_OK then (APP_ERROR_INTERNAL, s)
            else (case esp_call esp Register_Disconnected s of (r, s) \<Rightarrow>
              if r \<noteq> ESP_OK then (APP_ERROR_INTERNAL, s)
              else (case esp_call esp Register_Got_Ip s of (r, s) \<Rightarrow>
                if r \<noteq> ESP_OK then (APP_ERROR_INTERNAL, s)
                else (APP_ERROR_NONE, s\<lparr>wa_sta_netif_created := True\<rparr>)))))))"

definition dotted_quad :: "u32 \<Rightarrow> string" where
  "dotted_quad address =
     decimal (unat (address AND 0xFF)) @ ''.'' @
     decimal (unat (drop_bit 8 address AND 0xFF)) @ ''.'' @
     decimal (unat (drop_bit 16 address AND 0xFF)) @ ''.'' @
     decimal (unat (drop_bit 24 address AND 0xFF))"

text \<open>One attempt; the text it leaves in \<open>out_ip\<close> is the second component.\<close>

definition attempt_station_connect_once ::
    "esp_wifi \<Rightarrow> u8 list \<Rightarrow> u8 list \<Rightarrow> u32 \<Rightarrow> nat \<Rightarrow> wifi_ap \<Rightarrow> (app_error + string) \<times> wifi_ap" where
  "attempt_station_connect_once esp ssid password timeout_ms out_ip_size s =
     (let s = snd (esp_call esp Delay (snd (esp_call esp Wifi_Disconnect s)));
          s = s\<lparr>wa_sta_signalled := False, wa_sta_got_ip := False\<rparr>
      in case esp_call esp Set_Mode_Apsta s of (r, s) \<Rightarrow>
         if r \<noteq> ESP_OK then (Inl APP_ERROR_INTERNAL, s)
         else (case esp_call esp (Set_Config_Sta (blit 0 (c_text ssid) (zeros 32))
                 (blit 0 (c_text password) (zeros 64))) s of (r, s) \<Rightarrow>
           if r \<noteq> ESP_OK then (Inl APP_ERROR_INTERNAL, s)
           else (case esp_call esp Wifi_Connect s of (r, s) \<Rightarrow>
             if r \<noteq> ESP_OK then (Inl APP_ERROR_INTERNAL, s)
             else (let s = snd (esp_call esp (Wait_Outcome timeout_ms) s)
               in if \<not> wa_sta_signalled s then (Inl APP_ERROR_TIMEOUT, s)
                  else (let s = s\<lparr>wa_sta_signalled := False\<rparr>
                    in if \<not> wa_sta_got_ip s then (Inl APP_ERROR_INTERNAL, s)
                       else (case fitted out_ip_size (dotted_quad (wa_sta_ip_addr s)) of
                         None \<Rightarrow> (Inl APP_ERROR_INTERNAL, s)
                       | Some ip \<Rightarrow> (Inr ip, s)))))))"

definition publish :: "wifi_station_state \<Rightarrow> app_error \<Rightarrow> nat \<Rightarrow> wifi_ap \<Rightarrow> wifi_ap" where
  "publish state error attempts s =
     s\<lparr>wa_station := \<lparr>ss_state = state, ss_last_error = error, ss_attempt_count = attempts\<rparr>\<rparr>"

text \<open>The loop of \<open>wifi_ap_station_connect\<close>, from the attempt \<open>attempt\<close> on; \<open>left\<close> are still allowed.\<close>

fun station_attempts ::
    "(wifi_ap \<Rightarrow> (app_error + string) \<times> wifi_ap) \<Rightarrow> nat \<Rightarrow> nat \<Rightarrow> app_error \<Rightarrow> wifi_ap \<Rightarrow>
      (app_error + string) \<times> wifi_ap" where
  "station_attempts connect_attempt 0 attempt last_error s =
     (Inl last_error, publish WIFI_STATION_FAILED last_error WIFI_STATION_MAX_ATTEMPTS s)"
| "station_attempts connect_attempt (Suc left) attempt last_error s =
     (case connect_attempt (publish WIFI_STATION_CONNECTING APP_ERROR_NONE attempt s) of
        (Inr ip, s) \<Rightarrow> (Inr ip, publish WIFI_STATION_CONNECTED APP_ERROR_NONE attempt s)
      | (Inl e, s) \<Rightarrow> station_attempts connect_attempt left (attempt + 1) e s)"

definition wifi_ap_station_connect ::
    "(wifi_ap \<Rightarrow> (app_error + string) \<times> wifi_ap) \<Rightarrow> wifi_ap \<Rightarrow> (app_error + string) \<times> wifi_ap" where
  "wifi_ap_station_connect connect_attempt s =
     station_attempts connect_attempt WIFI_STATION_MAX_ATTEMPTS 1 APP_ERROR_NONE s"

definition wifi_ap_connect_station ::
    "esp_wifi \<Rightarrow> u8 list option \<Rightarrow> u8 list option \<Rightarrow> u32 \<Rightarrow> nat \<Rightarrow> wifi_ap \<Rightarrow>
      (app_error + string) \<times> wifi_ap" where
  "wifi_ap_connect_station esp ssid password timeout_ms out_ip_size s =
     (case (ssid, password) of
        (Some ssid, Some password) \<Rightarrow>
          if out_ip_size < WIFI_STA_IP_STRING_BYTES \<or> length (c_text ssid) = 0 \<or>
             32 \<le> length (c_text ssid) \<or> 64 \<le> length (c_text password)
          then (Inl APP_ERROR_INVALID_ARGUMENT, s)
          else (case ensure_station_netif esp s of (netif_result, s) \<Rightarrow>
            if netif_result \<noteq> APP_ERROR_NONE then (Inl netif_result, s)
            else (case (if wa_sta_semaphore s then (True, s)
                        else (case esp_call esp Semaphore_Create s of
                          (r, s) \<Rightarrow> (r = ESP_OK, s\<lparr>wa_sta_semaphore := r = ESP_OK\<rparr>))) of
              (exists, s) \<Rightarrow>
                if \<not> exists then (Inl APP_ERROR_INTERNAL, s)
                else wifi_ap_station_connect
                  (attempt_station_connect_once esp ssid password timeout_ms out_ip_size) s))
      | _ \<Rightarrow> (Inl APP_ERROR_INVALID_ARGUMENT, s))"

text \<open>The Wi-Fi stage of a boot, \<open>adapter_wifi_start\<close> of \<open>app_core.c\<close>.\<close>

definition WIFI_STATION_BOOT_TIMEOUT_MS :: u32 where
  "WIFI_STATION_BOOT_TIMEOUT_MS = 15000"

definition app_core_wifi_start :: "esp_wifi \<Rightarrow> wifi_configuration \<Rightarrow> wifi_ap \<Rightarrow> app_error \<times> wifi_ap" where
  "app_core_wifi_start esp c s =
     (case wifi_ap_start esp (Some (wf_ap_ssid c)) (Some (wf_ap_passphrase c)) s of
        (result, s) \<Rightarrow>
          if result \<noteq> APP_ERROR_NONE then (result, s)
          else if \<not> wf_station_configured c then (APP_ERROR_NONE, s)
          else (APP_ERROR_NONE, snd (wifi_ap_connect_station esp (Some (wf_station_ssid c))
            (Some (wf_station_passphrase c)) WIFI_STATION_BOOT_TIMEOUT_MS WIFI_STA_IP_STRING_BYTES s)))"

end
