(* ===== verification/Wifi_Ap_Safety.thy ===== *)
theory Wifi_Ap_Safety
  imports Wifi_Ap
begin

text \<open>
  What the access point holds: the resources that the calls of its driver acquired and did not give
  back, read off the history of the calls, against the flags and the status of the engine.
\<close>

section \<open>The resources a history of calls leaves held\<close>

datatype wifi_resource = Ap_Netif | Driver | Event_Handler | Radio

lemma wifi_resource_UNIV: "UNIV = {Ap_Netif, Driver, Event_Handler, Radio}"
  using wifi_resource.exhaust by auto

text \<open>A radio counts as held from the call that starts it on, whatever that call answered.\<close>

fun held_after :: "wifi_call \<times> esp_err \<Rightarrow> wifi_resource set \<Rightarrow> wifi_resource set" where
  "held_after (Netif_Create_Ap, r) H = (if r = ESP_OK then insert Ap_Netif H else H)"
| "held_after (Wifi_Init, r) H = (if r = ESP_OK then insert Driver H else H)"
| "held_after (Handler_Register, r) H = (if r = ESP_OK then insert Event_Handler H else H)"
| "held_after (Wifi_Start, r) H = insert Radio H"
| "held_after (Wifi_Stop, r) H = (if r = ESP_OK \<or> r = ESP_ERR_WIFI_NOT_STARTED then H - {Radio} else H)"
| "held_after (Handler_Unregister, r) H = (if r = ESP_OK then H - {Event_Handler} else H)"
| "held_after (Wifi_Deinit, r) H = (if r = ESP_OK then H - {Driver} else H)"
| "held_after (Netif_Destroy, r) H = H - {Ap_Netif}"
| "held_after (c, r) H = H"

definition held_resources :: "wifi_history \<Rightarrow> wifi_resource set" where
  "held_resources h = fold held_after h {}"

lemma held_simps [simp]: "held_resources [] = {}" "held_resources (h @ [e]) = held_after e (held_resources h)"
  by (simp_all add: held_resources_def)

definition owned :: "wifi_ap \<Rightarrow> wifi_resource set" where
  "owned s = {r. case r of Ap_Netif \<Rightarrow> wa_netif_created s | Driver \<Rightarrow> wa_wifi_initialized s
     | Event_Handler \<Rightarrow> wa_handler_registered s | Radio \<Rightarrow> wa_wifi_started s}"

lemma owned_iff [simp]:
  "Ap_Netif \<in> owned s \<longleftrightarrow> wa_netif_created s" "Driver \<in> owned s \<longleftrightarrow> wa_wifi_initialized s"
  "Event_Handler \<in> owned s \<longleftrightarrow> wa_handler_registered s" "Radio \<in> owned s \<longleftrightarrow> wa_wifi_started s"
  by (simp_all add: owned_def)

lemma owned_eq_iff:
  "owned s = H \<longleftrightarrow> (wa_netif_created s \<longleftrightarrow> Ap_Netif \<in> H) \<and> (wa_wifi_initialized s \<longleftrightarrow> Driver \<in> H) \<and>
     (wa_handler_registered s \<longleftrightarrow> Event_Handler \<in> H) \<and> (wa_wifi_started s \<longleftrightarrow> Radio \<in> H)"
  (is "_ \<longleftrightarrow> ?rhs")
proof
  assume ?rhs
  then have "r \<in> owned s \<longleftrightarrow> r \<in> H" for r by (cases r) simp_all
  then show "owned s = H" by blast
qed auto

lemma owns_resources_owned: "wifi_ap_engine_owns_resources s \<longleftrightarrow> owned s \<noteq> {}"
  by (auto simp: wifi_ap_engine_owns_resources_def owned_eq_iff)

section \<open>What an event and a call keep\<close>

definition status_ok :: "wifi_ap_status \<Rightarrow> bool" where
  "status_ok st \<longleftrightarrow> ws_client_count st \<le> 4 \<and> (\<not> serving st \<longrightarrow> ws_client_count st = 0)"

lemma status_after_ok:
  assumes "status_ok st"
  shows "status_ok (status_after e st)" and "serving (status_after e st) \<Longrightarrow> serving st"
  using assms by (cases e; auto simp: status_ok_def serving_def limit_defs split: if_splits)+

text \<open>Everything but the status and the station.\<close>

definition engine_part :: "wifi_ap \<Rightarrow> bool \<times> bool \<times> wifi_resource set \<times> wifi_history" where
  "engine_part s = (wa_ap_netif s, wa_engine_initialized s, owned s, wa_history s)"

definition keeps :: "wifi_ap \<Rightarrow> wifi_ap \<Rightarrow> bool" where
  "keeps s s' \<longleftrightarrow> (status_ok (wa_status s) \<longrightarrow> status_ok (wa_status s') \<and>
     (serving (wa_status s') \<longrightarrow> serving (wa_status s)))"

lemma keeps_refl [simp]: "keeps s s"
  by (simp add: keeps_def)

lemma keeps_trans: "keeps s s' \<Longrightarrow> keeps s' s'' \<Longrightarrow> keeps s s''"
  by (auto simp: keeps_def)

lemma deliver_keeps: "engine_part (deliver e s) = engine_part s \<and> keeps s (deliver e s)"
proof -
  have station: "engine_part (station_event e t) = engine_part t \<and> wa_status (station_event e t) = wa_status t" for t
    by (cases e) (auto simp: engine_part_def owned_eq_iff)
  show ?thesis
    using status_after_ok [of "wa_status s"] station
    by (simp add: deliver_def wifi_ap_engine_handle_event_def engine_part_def owned_eq_iff keeps_def)
qed

lemma fold_deliver_keeps: "engine_part (fold deliver es s) = engine_part s \<and> keeps s (fold deliver es s)"
  by (induction es arbitrary: s) (use deliver_keeps keeps_trans in \<open>auto, blast\<close>)

lemma esp_call_spec:
  assumes "esp_call esp c s = (r, s')"
  shows "engine_part s' = (wa_ap_netif s, wa_engine_initialized s, owned s, wa_history s @ [(c, r)])"
    and "keeps s s'"
  using assms fold_deliver_keeps [of "ew_events esp (wa_history s @ [(c, r)])"
      "s\<lparr>wa_history := wa_history s @ [(c, r)]\<rparr>"]
  by (auto simp: esp_call_def Let_def engine_part_def owned_eq_iff keeps_def)

section \<open>The invariant of the engine\<close>

definition sound :: "wifi_ap \<Rightarrow> bool" where
  "sound s \<longleftrightarrow> owned s = held_resources (wa_history s) \<and> wa_ap_netif s = wa_netif_created s \<and>
     status_ok (wa_status s)"

definition good :: "wifi_ap \<Rightarrow> bool" where
  "good s \<longleftrightarrow> sound s \<and> wa_engine_initialized s"

lemma sound_call:
  assumes "esp_call esp c s = (r, s')" and "wa_ap_netif s = wa_netif_created s"
    and "status_ok (wa_status s)"
    and "owned s = held_after (c, r) (held_resources (wa_history s))"
  shows "sound s' \<and> owned s' = owned s \<and> wa_engine_initialized s' = wa_engine_initialized s"
  using esp_call_spec [OF assms(1)] assms(2-) by (simp add: sound_def engine_part_def keeps_def owned_eq_iff)

text \<open>A call that acquires or gives back nothing.\<close>

fun neutral :: "wifi_call \<Rightarrow> bool" where
  "neutral c \<longleftrightarrow> c \<notin> {Netif_Create_Ap, Wifi_Init, Handler_Register, Wifi_Start, Wifi_Stop,
     Handler_Unregister, Wifi_Deinit, Netif_Destroy}"

lemma neutral_sound:
  assumes "sound s" and "neutral c" and "esp_call esp c s = (r, s')"
  shows "sound s' \<and> owned s' = owned s \<and> wa_engine_initialized s' = wa_engine_initialized s"
  using assms(1,2) by (intro sound_call [OF assms(3)]) (cases c; simp add: sound_def)+

lemma neutral_call:
  assumes "good s" and "neutral c" and "esp_call esp c s = (r, s')"
  shows "good s' \<and> owned s' = owned s"
  using neutral_sound [OF _ assms(2,3)] assms(1) by (simp add: good_def)

lemma adapter_call_cases:
  assumes "adapter_call esp c s = (e, s')"
  obtains r where "esp_call esp c s = (r, s')" "e = (if r = ESP_OK then APP_ERROR_NONE else APP_ERROR_INTERNAL)"
  using assms by (auto simp: adapter_call_def split: prod.splits)

lemma neutral_adapter:
  assumes "good s" and "neutral c" and "adapter_call esp c s = (e, s')"
  shows "good s' \<and> owned s' = owned s"
  using adapter_call_cases [OF assms(3)] neutral_call [OF assms(1,2)] by metis

text \<open>What an operation that acquires a resource leaves, with and without the flag set.\<close>

definition acquires :: "wifi_resource \<Rightarrow> (wifi_ap \<Rightarrow> wifi_ap) \<Rightarrow> wifi_ap \<Rightarrow> app_error \<times> wifi_ap \<Rightarrow> bool" where
  "acquires X flag s p \<longleftrightarrow> (case p of (e, s') \<Rightarrow>
     if e = APP_ERROR_NONE then good (flag s') \<and> owned (flag s') = insert X (owned s)
     else good s' \<and> owned s' = owned s)"

lemma flags_after:
  assumes "esp_call esp c s = (r, s')"
  shows "wa_netif_created s' = wa_netif_created s" "wa_wifi_initialized s' = wa_wifi_initialized s"
    "wa_handler_registered s' = wa_handler_registered s" "wa_wifi_started s' = wa_wifi_started s"
    "wa_ap_netif s' = wa_ap_netif s" "wa_engine_initialized s' = wa_engine_initialized s"
    "wa_history s' = wa_history s @ [(c, r)]"
    "status_ok (wa_status s) \<Longrightarrow> status_ok (wa_status s')"
  using esp_call_spec [OF assms] by (auto simp: engine_part_def owned_eq_iff keeps_def)

lemma acquires_netif:
  assumes "good s" and "\<not> wa_netif_created s"
  shows "acquires Ap_Netif (\<lambda>s. s\<lparr>wa_netif_created := True\<rparr>) s (adapter_netif_create esp s)"
proof -
  obtain r s1 where call: "esp_call esp Netif_Create_Ap s = (r, s1)" by force
  show ?thesis
    using assms flags_after [OF call]
    by (cases "r = ESP_OK") (simp_all add: acquires_def adapter_netif_create_def adapter_call_def call good_def sound_def owned_eq_iff)
qed

lemma acquires_driver:
  assumes "good s"
  shows "acquires Driver (\<lambda>s. s\<lparr>wa_wifi_initialized := True\<rparr>) s (adapter_call esp Wifi_Init s)"
proof -
  obtain r s1 where call: "esp_call esp Wifi_Init s = (r, s1)" by force
  show ?thesis
    using assms flags_after [OF call]
    by (cases "r = ESP_OK") (simp_all add: acquires_def adapter_call_def call good_def sound_def owned_eq_iff)
qed

lemma acquires_handler:
  assumes "good s"
  shows "acquires Event_Handler (\<lambda>s. s\<lparr>wa_handler_registered := True\<rparr>) s (adapter_call esp Handler_Register s)"
proof -
  obtain r s1 where call: "esp_call esp Handler_Register s = (r, s1)" by force
  show ?thesis
    using assms flags_after [OF call]
    by (cases "r = ESP_OK") (simp_all add: acquires_def adapter_call_def call good_def sound_def owned_eq_iff)
qed

lemma start_radio:
  assumes "good s" and "adapter_call esp Wifi_Start (s\<lparr>wa_wifi_started := True\<rparr>) = (e, s')"
  shows "good s' \<and> owned s' = insert Radio (owned s)"
proof -
  obtain r where call: "esp_call esp Wifi_Start (s\<lparr>wa_wifi_started := True\<rparr>) = (r, s')"
    using adapter_call_cases [OF assms(2)] by blast
  show ?thesis
    using assms(1) flags_after [OF call] by (simp add: good_def sound_def owned_eq_iff)
qed

section \<open>Giving back\<close>

definition releases :: "wifi_resource \<Rightarrow> (wifi_ap \<Rightarrow> wifi_ap) \<Rightarrow> wifi_ap \<Rightarrow> app_error \<times> wifi_ap \<Rightarrow> bool" where
  "releases X clear s p \<longleftrightarrow> (case p of (e, s') \<Rightarrow>
     if e = APP_ERROR_NONE then good (clear s') \<and> owned (clear s') = owned s - {X}
     else good s' \<and> owned s' = owned s)"

lemma releases_netif:
  assumes "good s" and "Ap_Netif \<in> owned s"
  shows "releases Ap_Netif (\<lambda>s. s\<lparr>wa_netif_created := False\<rparr>) s (adapter_netif_destroy esp s)"
proof -
  obtain r s1 where call: "esp_call esp Netif_Destroy s = (r, s1)" by force
  show ?thesis
    using assms flags_after [OF call]
    by (simp_all add: releases_def adapter_netif_destroy_def call good_def sound_def owned_eq_iff)
qed

lemma releases_driver:
  assumes "good s"
  shows "releases Driver (\<lambda>s. s\<lparr>wa_wifi_initialized := False\<rparr>) s (adapter_call esp Wifi_Deinit s)"
proof -
  obtain r s1 where call: "esp_call esp Wifi_Deinit s = (r, s1)" by force
  show ?thesis
    using assms flags_after [OF call]
    by (cases "r = ESP_OK") (simp_all add: releases_def adapter_call_def call good_def sound_def owned_eq_iff)
qed

lemma releases_handler:
  assumes "good s"
  shows "releases Event_Handler (\<lambda>s. s\<lparr>wa_handler_registered := False\<rparr>) s (adapter_call esp Handler_Unregister s)"
proof -
  obtain r s1 where call: "esp_call esp Handler_Unregister s = (r, s1)" by force
  show ?thesis
    using assms flags_after [OF call]
    by (cases "r = ESP_OK") (simp_all add: releases_def adapter_call_def call good_def sound_def owned_eq_iff)
qed

lemma releases_radio:
  assumes "good s"
  shows "releases Radio (\<lambda>s. s\<lparr>wa_wifi_started := False\<rparr>) s (adapter_wifi_stop esp s)"
proof -
  obtain r s1 where call: "esp_call esp Wifi_Stop s = (r, s1)" by force
  show ?thesis
    using assms flags_after [OF call]
    by (cases "r = ESP_OK \<or> r = ESP_ERR_WIFI_NOT_STARTED")
       (simp_all add: releases_def adapter_wifi_stop_def call good_def sound_def owned_eq_iff)
qed

text \<open>
  The clean-up so far: the resources of \<open>done\<close> were tried, only they may have been given back,
  and an error is recorded exactly when one of them is still held.
\<close>

definition cleaned :: "wifi_resource set \<Rightarrow> wifi_ap \<Rightarrow> app_error \<times> wifi_ap \<Rightarrow> bool" where
  "cleaned tried s0 p \<longleftrightarrow> (case p of (e, s) \<Rightarrow>
     good s \<and> owned s \<subseteq> owned s0 \<and> owned s0 - tried \<subseteq> owned s \<and>
     (e = APP_ERROR_NONE \<longleftrightarrow> owned s \<inter> tried = {}))"

lemma cleaned_step:
  assumes "cleaned tried s0 p" and "X \<notin> tried" and "\<And>s. flag s \<longleftrightarrow> X \<in> owned s"
    and "\<And>s. good s \<Longrightarrow> X \<in> owned s \<Longrightarrow> releases X clear s (release s)"
  shows "cleaned (insert X tried) s0 (cleanup_step flag release clear p)"
proof -
  obtain e s where p: "p = (e, s)" by force
  have s: "good s" "owned s \<subseteq> owned s0" "owned s0 - tried \<subseteq> owned s"
    "e = APP_ERROR_NONE \<longleftrightarrow> owned s \<inter> tried = {}"
    using assms(1) by (simp_all add: cleaned_def p)
  show ?thesis
  proof (cases "X \<in> owned s")
    case False
    then show ?thesis
      using s by (auto simp: cleaned_def cleanup_step_def p assms(3))
  next
    case True
    obtain r s1 where release: "release s = (r, s1)" by force
    have "releases X clear s (r, s1)" using assms(4) [OF s(1) True] by (simp add: release)
    then show ?thesis
      using s True assms(2)
      by (cases "r = APP_ERROR_NONE")
         (auto simp: cleaned_def cleanup_step_def p assms(3) release releases_def)
  qed
qed

lemma cleanup_spec:
  assumes "good s" and "ap_cleanup_resources esp s = (e, s')"
  shows "good s' \<and> owned s' \<subseteq> owned s \<and> (e = APP_ERROR_NONE \<longleftrightarrow> owned s' = {})"
proof -
  have "cleaned {} s (APP_ERROR_NONE, s)" using assms(1) by (simp add: cleaned_def)
  then have "cleaned {Ap_Netif, Driver, Event_Handler, Radio} s (ap_cleanup_resources esp s)"
    unfolding ap_cleanup_resources_def
    by (intro cleaned_step releases_netif releases_driver releases_handler releases_radio) simp_all
  then show ?thesis
    using assms(2) by (auto simp: cleaned_def wifi_resource_UNIV [symmetric])
qed

section \<open>Start and stop\<close>

definition all_held :: "wifi_resource set" where
  "all_held = {Ap_Netif, Driver, Event_Handler, Radio}"

lemma good_publish:
  "good s \<Longrightarrow> good (ap_publish_status state 0 e c s) \<and> owned (ap_publish_status state 0 e c s) = owned s"
  by (simp add: good_def sound_def ap_publish_status_def status_ok_def owned_eq_iff)

text \<open>A failed start: its own error is published, and the clean-up failed when something is still held.\<close>

definition start_failed :: "app_error \<Rightarrow> wifi_ap \<Rightarrow> bool" where
  "start_failed e s \<longleftrightarrow> e \<noteq> APP_ERROR_NONE \<and> ws_state (wa_status s) = WIFI_AP_ERROR \<and>
     ws_last_error (wa_status s) = e \<and> (ws_cleanup_error (wa_status s) = APP_ERROR_NONE \<longleftrightarrow> owned s = {})"

definition start_ended :: "app_error \<times> wifi_ap \<Rightarrow> bool" where
  "start_ended p \<longleftrightarrow> (case p of (e, s) \<Rightarrow>
     good s \<and> (if e = APP_ERROR_NONE then owned s = all_held else start_failed e s))"

lemma fail_start_ended:
  assumes "good s" and "e \<noteq> APP_ERROR_NONE"
  shows "start_ended (fail_start esp e s)"
proof -
  obtain c s1 where clean: "ap_cleanup_resources esp s = (c, s1)" by force
  note spec = cleanup_spec [OF assms(1) clean]
  show ?thesis
    using spec good_publish [of s1 WIFI_AP_ERROR e c] assms(2)
    by (simp add: fail_start_def clean start_ended_def start_failed_def) (simp add: ap_publish_status_def)
qed

lemma start_step_ended:
  assumes "\<And>e s1. operation s = (e, s1) \<Longrightarrow> e \<noteq> APP_ERROR_NONE \<Longrightarrow> good s1"
    and "\<And>s1. operation s = (APP_ERROR_NONE, s1) \<Longrightarrow> start_ended (continue s1)"
  shows "start_ended (start_step esp operation continue s)"
  using assms fail_start_ended by (cases "operation s") (auto simp: start_step_def)

lemma set_config_good:
  assumes "good s" and "adapter_set_config esp c s = (e, s1)"
  shows "good s1 \<and> owned s1 = owned s"
proof (cases "e = APP_ERROR_INVALID_ARGUMENT \<and> s1 = s")
  case False
  then obtain c' where "neutral c'" "adapter_call esp c' s = (e, s1)"
    using assms(2) by (auto simp: adapter_set_config_def split: if_splits)
  then show ?thesis by (rule neutral_adapter [OF assms(1)])
qed (use assms(1) in simp)

lemma event_loop_good:
  assumes "good s" and "adapter_event_loop_create esp s = (e, s1)"
  shows "good s1 \<and> owned s1 = owned s"
  using neutral_call [OF assms(1), where c = Event_Loop_Create and esp = esp] assms(2)
  by (cases "esp_call esp Event_Loop_Create s") (simp add: adapter_event_loop_create_def)

lemma start_step_same:
  assumes "good s" and "\<And>e s1. operation s = (e, s1) \<Longrightarrow> good s1 \<and> owned s1 = owned s"
    and "\<And>s1. good s1 \<Longrightarrow> owned s1 = owned s \<Longrightarrow> start_ended (continue s1)"
  shows "start_ended (start_step esp operation continue s)"
  by (rule start_step_ended) (use assms(2,3) in blast)+

lemma start_step_acquire:
  assumes "acquires X flag s (operation s)"
    and "\<And>s1. good (flag s1) \<Longrightarrow> owned (flag s1) = insert X (owned s) \<Longrightarrow> start_ended (continue s1)"
  shows "start_ended (start_step esp operation continue s)"
  by (rule start_step_ended) (use assms in \<open>auto simp: acquires_def\<close>)

lemma radio_ended:
  assumes "good s" and "owned s = {Ap_Netif, Driver, Event_Handler}"
  shows "start_ended (start_step esp (adapter_call esp Wifi_Start) (\<lambda>s. (APP_ERROR_NONE, s))
    (s\<lparr>wa_wifi_started := True\<rparr>))"
proof (rule start_step_ended)
  show "good s1" if "adapter_call esp Wifi_Start (s\<lparr>wa_wifi_started := True\<rparr>) = (e, s1)" for e s1
    using start_radio [OF assms(1) that] by simp
  show "start_ended (APP_ERROR_NONE, s1)"
    if "adapter_call esp Wifi_Start (s\<lparr>wa_wifi_started := True\<rparr>) = (APP_ERROR_NONE, s1)" for s1
    using start_radio [OF assms(1) that] assms(2) by (auto simp: start_ended_def all_held_def)
qed

lemma configured_ended:
  assumes "good s" and "owned s = {Ap_Netif, Driver, Event_Handler}"
  shows "start_ended (start_step esp (adapter_set_config esp configuration)
    (\<lambda>s. start_step esp (adapter_call esp Wifi_Start) (\<lambda>s. (APP_ERROR_NONE, s))
      (s\<lparr>wa_wifi_started := True\<rparr>)) s)"
  by (rule start_step_same [OF assms(1)])
     (use set_config_good [OF assms(1)] radio_ended assms(2) in auto)

lemma mode_ended:
  assumes "good s" and "owned s = {Ap_Netif, Driver, Event_Handler}"
  shows "start_ended (start_step esp (adapter_call esp Set_Mode_Ap)
    (start_step esp (adapter_set_config esp configuration)
      (\<lambda>s. start_step esp (adapter_call esp Wifi_Start) (\<lambda>s. (APP_ERROR_NONE, s))
        (s\<lparr>wa_wifi_started := True\<rparr>))) s)"
proof (rule start_step_same [OF assms(1)])
  show "good s1 \<and> owned s1 = owned s" if "adapter_call esp Set_Mode_Ap s = (e, s1)" for e s1
    using neutral_adapter [OF assms(1) _ that] by simp
qed (use configured_ended assms(2) in simp)

lemma driver_ended:
  assumes "good s" and "owned s = {Ap_Netif}"
  shows "start_ended (start_step esp (adapter_call esp Wifi_Init)
     (\<lambda>s. start_step esp (adapter_call esp Handler_Register)
     (\<lambda>s. start_step esp (adapter_call esp Set_Mode_Ap)
     (start_step esp (adapter_set_config esp configuration)
     (\<lambda>s. start_step esp (adapter_call esp Wifi_Start) (\<lambda>s. (APP_ERROR_NONE, s))
            (s\<lparr>wa_wifi_started := True\<rparr>)))
        (s\<lparr>wa_handler_registered := True\<rparr>))
        (s\<lparr>wa_wifi_initialized := True\<rparr>)) s)"
  by (intro start_step_acquire [OF acquires_driver] start_step_acquire [OF acquires_handler] mode_ended)
     (auto simp: assms)

lemma start_resources_ended:
  assumes "good s" and none: "owned s = {}"
  shows "start_ended (start_resources esp configuration s)"
  unfolding start_resources_def
proof (rule start_step_same [OF assms(1)])
  show "good s1 \<and> owned s1 = owned s" if "adapter_call esp Netif_Init s = (e, s1)" for e s1
    using neutral_adapter [OF assms(1) _ that] by simp
next
  fix s1 assume s1: "good s1" "owned s1 = owned s"
  show "start_ended (start_step esp (\<lambda>s. case adapter_event_loop_create esp s of (r, s) \<Rightarrow>
        (if r = WIFI_AP_EVENT_LOOP_FAILED then APP_ERROR_INTERNAL else APP_ERROR_NONE, s))
     (start_step esp (adapter_netif_create esp)
     (\<lambda>s. start_step esp (adapter_call esp Wifi_Init)
     (\<lambda>s. start_step esp (adapter_call esp Handler_Register)
     (\<lambda>s. start_step esp (adapter_call esp Set_Mode_Ap)
     (start_step esp (adapter_set_config esp configuration)
     (\<lambda>s. start_step esp (adapter_call esp Wifi_Start) (\<lambda>s. (APP_ERROR_NONE, s))
            (s\<lparr>wa_wifi_started := True\<rparr>)))
        (s\<lparr>wa_handler_registered := True\<rparr>))
        (s\<lparr>wa_wifi_initialized := True\<rparr>))
        (s\<lparr>wa_netif_created := True\<rparr>))) s1)"
  proof (rule start_step_same [OF s1(1)])
    show "good s2 \<and> owned s2 = owned s1" if "(case adapter_event_loop_create esp s1 of (r, s) \<Rightarrow>
        (if r = WIFI_AP_EVENT_LOOP_FAILED then APP_ERROR_INTERNAL else APP_ERROR_NONE, s)) = (e, s2)" for e s2
      using that event_loop_good [OF s1(1)] by (auto split: prod.splits)
  next
    fix s2 assume s2: "good s2" "owned s2 = owned s1"
    then have "\<not> wa_netif_created s2" using s1 none by (metis empty_iff owned_iff(1))
    then show "start_ended (start_step esp (adapter_netif_create esp)
     (\<lambda>s. start_step esp (adapter_call esp Wifi_Init)
     (\<lambda>s. start_step esp (adapter_call esp Handler_Register)
     (\<lambda>s. start_step esp (adapter_call esp Set_Mode_Ap)
     (start_step esp (adapter_set_config esp configuration)
     (\<lambda>s. start_step esp (adapter_call esp Wifi_Start) (\<lambda>s. (APP_ERROR_NONE, s))
            (s\<lparr>wa_wifi_started := True\<rparr>)))
        (s\<lparr>wa_handler_registered := True\<rparr>))
        (s\<lparr>wa_wifi_initialized := True\<rparr>))
        (s\<lparr>wa_netif_created := True\<rparr>)) s2)"
      by (intro start_step_acquire [OF acquires_netif] driver_ended) (simp_all add: s2 s1 none)
  qed
qed

section \<open>Reachable states\<close>

definition ap_invariant :: "wifi_ap \<Rightarrow> bool" where
  "ap_invariant s \<longleftrightarrow> sound s \<and> (\<not> wa_engine_initialized s \<longrightarrow> owned s = {}) \<and>
     (serving (wa_status s) \<longrightarrow> owned s = all_held)"

lemma boot_invariant: "ap_invariant wifi_ap_boot"
  by (simp add: ap_invariant_def wifi_ap_boot_def sound_def status_ok_def serving_def owned_eq_iff)

lemma all_held_nonempty [simp]: "all_held \<noteq> {}"
  by (simp add: all_held_def)

lemma ensure_engine_fresh:
  assumes "ap_invariant s" and "\<not> wa_engine_initialized s"
  shows "ap_invariant (ensure_engine s) \<and> owned (ensure_engine s) = {} \<and>
    \<not> serving (wa_status s) \<and> \<not> serving (wa_status (ensure_engine s))"
proof -
  have s: "sound s" "owned s = {}" "\<not> serving (wa_status s)"
    using assms by (auto simp: ap_invariant_def)
  have "owned (ensure_engine s) = {}" "\<not> serving (wa_status (ensure_engine s))"
    using assms(2) by (simp_all add: ensure_engine_def owned_eq_iff ap_publish_status_def serving_def)
  then show ?thesis
    using s assms(2)
    by (simp add: ap_invariant_def sound_def) (simp add: ensure_engine_def ap_publish_status_def status_ok_def owned_eq_iff)
qed

lemma ensure_engine_invariant:
  assumes "ap_invariant s"
  shows "ap_invariant (ensure_engine s)" "wa_engine_initialized (ensure_engine s)"
    "owned (ensure_engine s) = owned s" "wa_history (ensure_engine s) = wa_history s"
proof -
  show "ap_invariant (ensure_engine s)" "owned (ensure_engine s) = owned s"
    using assms ensure_engine_fresh [OF assms]
    by (cases "wa_engine_initialized s"; simp add: ensure_engine_def ap_invariant_def)+
  show "wa_engine_initialized (ensure_engine s)" "wa_history (ensure_engine s) = wa_history s"
    by (simp_all add: ensure_engine_def ap_publish_status_def)
qed

lemma start_ended_invariant:
  assumes "start_ended (e, s)"
  shows "ap_invariant s"
proof (cases "e = APP_ERROR_NONE")
  case True
  with assms show ?thesis by (simp add: start_ended_def ap_invariant_def good_def)
next
  case False
  with assms have "good s" "\<not> serving (wa_status s)"
    by (simp_all add: start_ended_def start_failed_def serving_def)
  then show ?thesis by (simp add: ap_invariant_def good_def)
qed

lemma make_configuration_error: "make_configuration ssid passphrase = Inl e \<Longrightarrow> e = APP_ERROR_INVALID_ARGUMENT"
  by (auto simp: make_configuration_def split: option.splits if_splits)

lemma wifi_ap_start_spec:
  assumes "ap_invariant s" and "wifi_ap_start esp ssid passphrase s = (e, s')"
  shows "ap_invariant s' \<and>
    (if e = APP_ERROR_NONE then owned s' = all_held
     else e \<in> {APP_ERROR_CONFLICT, APP_ERROR_INVALID_ARGUMENT} \<and> wa_history s' = wa_history s \<and> owned s' = owned s \<or>
       start_failed e s')"
proof -
  note s1 = ensure_engine_invariant [OF assms(1)]
  let ?s = "ap_publish_status WIFI_AP_STARTING 0 APP_ERROR_NONE APP_ERROR_NONE (ensure_engine s)"
  note start = assms(2) [unfolded wifi_ap_start_def wifi_ap_engine_start_def]
  consider (refused) "s' = ensure_engine s" "e \<in> {APP_ERROR_CONFLICT, APP_ERROR_INVALID_ARGUMENT}"
    | (ran) c where "owned (ensure_engine s) = {}" "start_resources esp c ?s = (e, s')"
    using start s1(2) make_configuration_error
    by (cases "make_configuration ssid passphrase") (auto simp: owns_resources_owned split: if_splits)
  then show ?thesis
  proof cases
    case refused
    then show ?thesis using s1 by auto
  next
    case ran
    have "good ?s" "owned ?s = {}"
      using s1(1,2) ran(1) good_publish by (simp_all add: ap_invariant_def good_def)
    then have ended: "start_ended (e, s')" using start_resources_ended ran(2) by metis
    note start_ended_invariant [OF ended]
    with ended show ?thesis by (simp add: start_ended_def split: if_splits)
  qed
qed

lemma wifi_ap_stop_spec:
  assumes "ap_invariant s" and "wifi_ap_stop esp s = (e, s')"
  shows "ap_invariant s' \<and> owned s' \<subseteq> owned s \<and> (e = APP_ERROR_NONE \<longleftrightarrow> owned s' = {}) \<and>
    ws_state (wa_status s') = (if e = APP_ERROR_NONE then WIFI_AP_STOPPED else WIFI_AP_ERROR)"
proof -
  note s1 = ensure_engine_invariant [OF assms(1)]
  obtain c s2 where clean: "ap_cleanup_resources esp (ensure_engine s) = (c, s2)" by force
  have "good (ensure_engine s)" using s1(1,2) by (simp add: ap_invariant_def good_def)
  note spec = cleanup_spec [OF this clean]
  have publish: "ap_invariant (ap_publish_status state 0 e c s2)" if "\<not> serving (wa_status (ap_publish_status state 0 e c s2))" for state e c
    using good_publish [of s2 state e c] spec that by (simp add: ap_invariant_def good_def)
  note run = assms(2) [unfolded wifi_ap_stop_def wifi_ap_engine_stop_def Let_def clean prod.case]
  show ?thesis
  proof (cases "ws_state (wa_status (ensure_engine s)) = WIFI_AP_STOPPED \<and> owned (ensure_engine s) = {}")
    case True
    then show ?thesis using run s1 by (auto simp: owns_resources_owned)
  next
    case False
    then have "\<exists>state e0 c0. s' = ap_publish_status state 0 e0 c0 s2 \<and> e = c \<and>
        state = (if c = APP_ERROR_NONE then WIFI_AP_STOPPED else WIFI_AP_ERROR)"
      using run s1(2) by (auto simp: owns_resources_owned split: if_splits)
    then obtain e0 c0 where s': "e = c" "s' = ap_publish_status (if c = APP_ERROR_NONE then WIFI_AP_STOPPED else WIFI_AP_ERROR) 0 e0 c0 s2"
      by blast
    have "ap_invariant s'" unfolding s' by (rule publish) (simp add: ap_publish_status_def serving_def)
    moreover have "owned s' = owned s2" using spec good_publish s' by simp
    ultimately show ?thesis using spec s' s1(3) by (simp add: ap_publish_status_def)
  qed
qed

text \<open>Steps that leave the engine alone: the station, and the events.\<close>

definition mild :: "wifi_ap \<Rightarrow> wifi_ap \<Rightarrow> bool" where
  "mild s s' \<longleftrightarrow> (sound s \<longrightarrow> sound s' \<and> owned s' = owned s \<and>
     wa_engine_initialized s' = wa_engine_initialized s \<and>
     (serving (wa_status s') \<longrightarrow> serving (wa_status s)))"

lemma mild_refl: "mild s s"
  by (simp add: mild_def)

lemma mild_trans: "mild s s1 \<Longrightarrow> mild s1 s2 \<Longrightarrow> mild s s2"
  by (auto simp: mild_def)

lemma mild_invariant: "ap_invariant s \<Longrightarrow> mild s s' \<Longrightarrow> ap_invariant s'"
  by (auto simp: ap_invariant_def mild_def)

lemma mild_deliver: "mild s (deliver e s)"
  using deliver_keeps [of e s]
  by (auto simp: mild_def sound_def engine_part_def keeps_def owned_eq_iff)

lemma mild_call: "neutral c \<Longrightarrow> mild s (snd (esp_call esp c s))"
  using neutral_sound [of s c esp "fst (esp_call esp c s)" "snd (esp_call esp c s)"]
    esp_call_spec(2) [of esp c s "fst (esp_call esp c s)" "snd (esp_call esp c s)"]
  by (auto simp: mild_def keeps_def sound_def)

lemma mild_bind:
  assumes "neutral c" and "\<And>r s'. mild s' (snd (k r s'))"
  shows "mild s (snd (case esp_call esp c s of (r, s') \<Rightarrow> k r s'))"
  using mild_trans [OF mild_call [OF assms(1), of s esp]] assms(2) by (auto split: prod.splits)

lemma mild_station [simp]:
  "mild s (s\<lparr>wa_station := a\<rparr>)" "mild s (s\<lparr>wa_sta_netif_created := b\<rparr>)"
  "mild s (s\<lparr>wa_sta_semaphore := b\<rparr>)" "mild s (s\<lparr>wa_sta_signalled := b\<rparr>)"
  "mild s (s\<lparr>wa_sta_signalled := b, wa_sta_got_ip := c\<rparr>)"
  by (simp_all add: mild_def sound_def owned_eq_iff)

lemma mild_if: "(b \<Longrightarrow> mild s (snd x)) \<Longrightarrow> (\<not> b \<Longrightarrow> mild s (snd y)) \<Longrightarrow> mild s (snd (if b then x else y))"
  by simp

lemma mild_netif: "mild s (snd (ensure_station_netif esp s))"
  unfolding ensure_station_netif_def
  by (intro mild_if mild_bind) (simp_all add: mild_refl)

lemma mild_attempt: "mild s (snd (attempt_station_connect_once esp ssid password timeout_ms bytes s))"
proof -
  let ?s1 = "snd (esp_call esp Delay (snd (esp_call esp Wifi_Disconnect s)))"
  let ?s2 = "?s1\<lparr>wa_sta_signalled := False, wa_sta_got_ip := False\<rparr>"
  have "mild s ?s1" by (rule mild_trans [OF mild_call mild_call]) simp_all
  then have s2: "mild s ?s2" by (rule mild_trans) simp
  have wait: "mild s3 (snd (let s = snd (esp_call esp (Wait_Outcome timeout_ms) s3)
      in if \<not> wa_sta_signalled s then (Inl APP_ERROR_TIMEOUT, s)
         else (let s = s\<lparr>wa_sta_signalled := False\<rparr>
           in if \<not> wa_sta_got_ip s then (Inl APP_ERROR_INTERNAL, s)
              else (case fitted bytes (dotted_quad (wa_sta_ip_addr s)) of
                None \<Rightarrow> (Inl APP_ERROR_INTERNAL, s) | Some ip \<Rightarrow> (Inr ip, s)))))" for s3
    using mild_call [of "Wait_Outcome timeout_ms" s3 esp] mild_station(4)
    by (auto simp: Let_def mild_trans split: option.splits)
  show ?thesis
    unfolding attempt_station_connect_once_def Let_def [of ?s1] Let_def [of ?s2]
    by (rule mild_trans [OF s2]) (intro mild_bind mild_if wait; simp add: mild_refl)
qed

lemma mild_attempts:
  assumes "\<And>s. mild s (snd (connect s))"
  shows "mild s (snd (station_attempts connect left attempt e s))"
proof (induction left arbitrary: attempt e s)
  case (Suc left)
  let ?s = "publish WIFI_STATION_CONNECTING APP_ERROR_NONE attempt s"
  obtain r s1 where run: "connect ?s = (r, s1)" by force
  have publish: "mild t (publish state e n t)" for t state e n by (simp add: publish_def)
  moreover have "mild ?s s1" using assms [of ?s] run by simp
  ultimately have s1: "mild s s1" using mild_trans by blast
  show ?case
    using mild_trans [OF s1 Suc.IH] mild_trans [OF s1 publish] by (cases r) (simp_all add: run)
qed (simp add: publish_def)

lemma mild_connect: "mild s (snd (wifi_ap_connect_station esp ssid password timeout_ms bytes s))"
proof (cases ssid; cases password)
  fix a b assume given: "ssid = Some a" "password = Some b"
  obtain e s1 where netif: "ensure_station_netif esp s = (e, s1)" by force
  have s1: "mild s s1" using mild_netif [of s esp] netif by simp
  obtain ok s2 where semaphore: "(if wa_sta_semaphore s1 then (True, s1)
      else (case esp_call esp Semaphore_Create s1 of
        (r, s) \<Rightarrow> (r = ESP_OK, s\<lparr>wa_sta_semaphore := r = ESP_OK\<rparr>))) = (ok, s2)" by force
  have "mild s1 (snd (if wa_sta_semaphore s1 then (True, s1)
      else (case esp_call esp Semaphore_Create s1 of
        (r, s) \<Rightarrow> (r = ESP_OK, s\<lparr>wa_sta_semaphore := r = ESP_OK\<rparr>))))"
    by (intro mild_if mild_bind) (simp_all add: mild_refl)
  then have s2: "mild s s2" using mild_trans [OF s1] by (simp add: semaphore)
  have "mild s2 (snd (wifi_ap_station_connect (attempt_station_connect_once esp a b timeout_ms bytes) s2))"
    unfolding wifi_ap_station_connect_def by (rule mild_attempts) (rule mild_attempt)
  then show ?thesis
    using mild_trans [OF s2] s1 s2
    by (simp add: wifi_ap_connect_station_def given netif semaphore mild_refl)
qed (simp_all add: wifi_ap_connect_station_def mild_refl)

text \<open>From boot on: starts, stops, joins of a network, and events at any time between them.\<close>

inductive ap_reachable :: "esp_wifi \<Rightarrow> wifi_ap \<Rightarrow> bool" for esp :: esp_wifi where
  boot: "ap_reachable esp wifi_ap_boot"
| start: "ap_reachable esp s \<Longrightarrow> wifi_ap_start esp ssid passphrase s = (e, s') \<Longrightarrow> ap_reachable esp s'"
| stop: "ap_reachable esp s \<Longrightarrow> wifi_ap_stop esp s = (e, s') \<Longrightarrow> ap_reachable esp s'"
| join: "ap_reachable esp s \<Longrightarrow>
    ap_reachable esp (snd (wifi_ap_connect_station esp ssid password timeout_ms bytes s))"
| event: "ap_reachable esp s \<Longrightarrow> ap_reachable esp (deliver e s)"

lemma reachable_invariant: "ap_reachable esp s \<Longrightarrow> ap_invariant s"
  by (induction rule: ap_reachable.induct)
     (use boot_invariant wifi_ap_start_spec wifi_ap_stop_spec mild_connect mild_deliver mild_invariant in blast)+

lemma owns_resources_held:
  assumes "ap_invariant s"
  shows "wifi_ap_owns_resources s \<longleftrightarrow> held_resources (wa_history s) \<noteq> {}"
  using assms by (auto simp: ap_invariant_def sound_def wifi_ap_owns_resources_def owns_resources_owned)

text \<open>
  C40: The access point never loses track of what it holds.  After any starts, stops, joins of a
  network and events, whatever the driver answers: the resources the driver was made to give out
  and has not taken back are what \<open>wifi_ap_owns_resources\<close> reports, all four of them while the
  status says starting or ready, and the clients counted are at most four, and none when it says
  stopped or failed.  A start that succeeds holds everything; one that was refused called nothing;
  any other failure publishes its own error, and a clean-up error exactly when something is still
  held.  A stop succeeds exactly when nothing is left, takes nothing new, and then shows stopped.
\<close>
theorem access_point_safe:
  assumes "ap_reachable esp s"
  shows "(wifi_ap_owns_resources s \<longleftrightarrow> held_resources (wa_history s) \<noteq> {}) \<and>
    (ws_state (wa_status s) \<in> {WIFI_AP_STARTING, WIFI_AP_READY} \<longrightarrow> held_resources (wa_history s) = all_held) \<and>
    ws_client_count (wa_status s) \<le> WIFI_AP_MAX_CLIENTS \<and>
    (ws_state (wa_status s) \<in> {WIFI_AP_STOPPED, WIFI_AP_ERROR} \<longrightarrow> ws_client_count (wa_status s) = 0) \<and>
    (\<forall>ssid passphrase e s'. wifi_ap_start esp ssid passphrase s = (e, s') \<longrightarrow>
       (if e = APP_ERROR_NONE then held_resources (wa_history s') = all_held
        else e \<in> {APP_ERROR_CONFLICT, APP_ERROR_INVALID_ARGUMENT} \<and> wa_history s' = wa_history s \<or>
          ws_state (wa_status s') = WIFI_AP_ERROR \<and> ws_last_error (wa_status s') = e \<and>
          (ws_cleanup_error (wa_status s') = APP_ERROR_NONE \<longleftrightarrow> held_resources (wa_history s') = {}))) \<and>
    (\<forall>e s'. wifi_ap_stop esp s = (e, s') \<longrightarrow>
       held_resources (wa_history s') \<subseteq> held_resources (wa_history s) \<and>
       (e = APP_ERROR_NONE \<longleftrightarrow> held_resources (wa_history s') = {}) \<and>
       ws_state (wa_status s') = (if e = APP_ERROR_NONE then WIFI_AP_STOPPED else WIFI_AP_ERROR))"
proof (intro conjI allI impI)
  have s: "ap_invariant s" by (rule reachable_invariant [OF assms])
  then have h: "held_resources (wa_history s) = owned s" and ok: "status_ok (wa_status s)"
    by (simp_all add: ap_invariant_def sound_def)
  show "wifi_ap_owns_resources s \<longleftrightarrow> held_resources (wa_history s) \<noteq> {}" by (rule owns_resources_held [OF s])
  show "held_resources (wa_history s) = all_held" if "ws_state (wa_status s) \<in> {WIFI_AP_STARTING, WIFI_AP_READY}"
    using s that h by (auto simp: ap_invariant_def serving_def)
  show "ws_client_count (wa_status s) \<le> WIFI_AP_MAX_CLIENTS"
    using ok by (simp add: status_ok_def limit_defs)
  show "ws_client_count (wa_status s) = 0" if "ws_state (wa_status s) \<in> {WIFI_AP_STOPPED, WIFI_AP_ERROR}"
    using ok that by (auto simp: status_ok_def serving_def)
  fix e s'
  show "if e = APP_ERROR_NONE then held_resources (wa_history s') = all_held
    else e \<in> {APP_ERROR_CONFLICT, APP_ERROR_INVALID_ARGUMENT} \<and> wa_history s' = wa_history s \<or>
      ws_state (wa_status s') = WIFI_AP_ERROR \<and> ws_last_error (wa_status s') = e \<and>
      (ws_cleanup_error (wa_status s') = APP_ERROR_NONE \<longleftrightarrow> held_resources (wa_history s') = {})"
    if "wifi_ap_start esp ssid passphrase s = (e, s')" for ssid passphrase
    using wifi_ap_start_spec [OF s that] by (auto simp: ap_invariant_def sound_def start_failed_def split: if_splits)
  assume stop: "wifi_ap_stop esp s = (e, s')"
  have h': "held_resources (wa_history s') = owned s'"
    using wifi_ap_stop_spec [OF s stop] by (simp add: ap_invariant_def sound_def)
  show "held_resources (wa_history s') \<subseteq> held_resources (wa_history s)" "e = APP_ERROR_NONE \<longleftrightarrow> held_resources (wa_history s') = {}"
    "ws_state (wa_status s') = (if e = APP_ERROR_NONE then WIFI_AP_STOPPED else WIFI_AP_ERROR)"
    using wifi_ap_stop_spec [OF s stop] h h' by simp_all
qed

text \<open>
  The driver of the witnesses always succeeds and starts the network as soon as the radio is on,
  with one client.
\<close>

definition sample_esp :: esp_wifi where
  "sample_esp =
     \<lparr>ew_call = (\<lambda>c h. ESP_OK),
      ew_events = (\<lambda>h. if last h = (Wifi_Start, ESP_OK) then [WIFI_EVENT_AP_START, WIFI_EVENT_AP_STACONNECTED] else [])\<rparr>"

definition sample_ap :: wifi_ap where
  "sample_ap = snd (wifi_ap_start sample_esp (Some (padded 33 (ascii ''Keys'')))
     (Some (padded 64 (ascii ''quite long enough''))) wifi_ap_boot)"

lemma sample_ap_running:
  "ws_state (wa_status sample_ap) = WIFI_AP_READY \<and> ws_client_count (wa_status sample_ap) = 1"
  by code_simp

lemma sample_ap_reachable: "ap_reachable sample_esp sample_ap"
  unfolding sample_ap_def by (rule ap_reachable.start [OF ap_reachable.boot]) (rule prod.collapse [symmetric])

lemma access_point_safe_witness:
  "held_resources (wa_history sample_ap) = all_held \<and> held_resources (wa_history (snd (wifi_ap_stop sample_esp sample_ap))) \<subseteq> all_held"
  using access_point_safe [OF sample_ap_reachable] sample_ap_running
  by (metis insertCI prod.collapse)

section \<open>Joining a network\<close>

lemma station_attempts_ends:
  assumes "station_attempts connect left attempt e0 s = (r, s')" and "attempt + left = 4" and "1 \<le> attempt"
  shows "(case r of Inr ip \<Rightarrow> ss_state (wa_station s') = WIFI_STATION_CONNECTED
      | Inl e \<Rightarrow> ss_state (wa_station s') = WIFI_STATION_FAILED \<and> ss_last_error (wa_station s') = e) \<and>
    ss_attempt_count (wa_station s') \<in> {1..3}"
  using assms
proof (induction left arbitrary: attempt e0 s)
  case 0
  then show ?case by (auto simp: publish_def limit_defs)
next
  case (Suc left)
  obtain r1 s1 where run: "connect (publish WIFI_STATION_CONNECTING APP_ERROR_NONE attempt s) = (r1, s1)" by force
  show ?case
  proof (cases r1)
    case (Inl e)
    with Suc.prems(1) run have "station_attempts connect left (attempt + 1) e s1 = (r, s')" by simp
    from Suc.IH [OF this] Suc.prems(2,3) show ?thesis by simp
  next
    case (Inr ip)
    with Suc.prems run show ?thesis by (auto simp: publish_def)
  qed
qed

text \<open>A join ends connected or failed, with the error it returns, after one to three attempts.\<close>

lemma station_connect_ends:
  assumes "wifi_ap_station_connect connect s = (r, s')"
  shows "(case r of Inr ip \<Rightarrow> ss_state (wa_station s') = WIFI_STATION_CONNECTED
      | Inl e \<Rightarrow> ss_state (wa_station s') = WIFI_STATION_FAILED \<and> ss_last_error (wa_station s') = e) \<and>
    ss_attempt_count (wa_station s') \<in> {1..3}"
  using station_attempts_ends assms [unfolded wifi_ap_station_connect_def] by (simp add: limit_defs)

text \<open>A station network whose name has 32 bytes, which the settings accept, is never tried.\<close>

lemma longest_ssid_refused:
  assumes "length (c_text ssid) = 32"
  shows "wifi_ap_connect_station esp (Some ssid) (Some password) t n s = (Inl APP_ERROR_INVALID_ARGUMENT, s)"
  using assms by (simp add: wifi_ap_connect_station_def)

section \<open>Short pass phrases\<close>

lemma make_configuration_short:
  assumes "length (c_text passphrase) < 12"
  shows "make_configuration ssid (Some passphrase) = Inl APP_ERROR_INVALID_ARGUMENT"
  using assms by (auto simp: make_configuration_def bounded_length_eq limit_defs split: option.splits)

lemma short_passphrase_refused:
  assumes "length (c_text (wf_ap_passphrase c)) < 12"
  shows "fst (app_core_wifi_start esp c wifi_ap_boot) = APP_ERROR_INVALID_ARGUMENT"
  using make_configuration_short [OF assms]
  by (simp add: app_core_wifi_start_def wifi_ap_start_def wifi_ap_engine_start_def ensure_engine_def
      wifi_ap_boot_def ap_publish_status_def wifi_ap_engine_owns_resources_def)

lemma run_stage_NONE:
  assumes "run_stage ops c name flag continue st = (APP_ERROR_NONE, out)"
  obtains st1 h where "op_call ops c h = APP_ERROR_NONE" and "continue st1 = (APP_ERROR_NONE, out)"
  using assms by (auto simp: run_stage_def call_def Let_def split: if_splits)

lemma normal_mode_starts_wifi:
  assumes "start_normal_mode ops x st = (APP_ERROR_NONE, out)"
  shows "\<exists>c h. wf_ap_passphrase c = ap_passphrase x \<and> op_call ops (Start_Wifi c) h = APP_ERROR_NONE"
proof -
  have network: thesis if "start_network ops c web st = (APP_ERROR_NONE, out)"
    "\<And>h. op_call ops (Start_Wifi c) h = APP_ERROR_NONE \<Longrightarrow> thesis" for c web st thesis
    using run_stage_NONE [OF that(1) [unfolded start_network_def]] that(2) by blast
  show ?thesis
    using assms unfolding start_normal_mode_def
    by (elim run_stage_NONE network) (auto intro!: exI)
qed

lemma provisioned_boot_starts_wifi:
  assumes "start_stages ops st = (APP_ERROR_NONE, out)" and "provisioned x"
    and "\<And>h y. op_settings_read ops h = (APP_ERROR_NONE, y) \<Longrightarrow> y = x"
  shows "\<exists>c h. wf_ap_passphrase c = ap_passphrase x \<and> op_call ops (Start_Wifi c) h = APP_ERROR_NONE"
proof -
  obtain st1 where "run_stage ops (Start Stage_Settings) ''settings_init'' (own Stage_Settings)
      (\<lambda>st. case op_settings_read ops (su_history st) of
         (result, settings) \<Rightarrow>
           (let st = log_stage ''settings_read'' result (log_to (Did Settings_Read result) st)
            in if result \<noteq> APP_ERROR_NONE then (result, st)
               else run_stage ops (Start Stage_Storage) ''storage_mount'' (own Stage_Storage)
                 (\<lambda>st. if provisioned settings then start_normal_mode ops settings st
                       else start_setup_mode ops settings st) st)) st1 = (APP_ERROR_NONE, out)"
    using assms(1) by (auto simp: start_stages_def Let_def split: prod.splits if_splits)
  then obtain st2 where read: "(case op_settings_read ops (su_history st2) of
         (result, settings) \<Rightarrow>
           (let st = log_stage ''settings_read'' result (log_to (Did Settings_Read result) st2)
            in if result \<noteq> APP_ERROR_NONE then (result, st)
               else run_stage ops (Start Stage_Storage) ''storage_mount'' (own Stage_Storage)
                 (\<lambda>st. if provisioned settings then start_normal_mode ops settings st
                       else start_setup_mode ops settings st) st)) = (APP_ERROR_NONE, out)"
    by (rule run_stage_NONE)
  then obtain y st3 where y: "op_settings_read ops (su_history st2) = (APP_ERROR_NONE, y)"
    and mount: "run_stage ops (Start Stage_Storage) ''storage_mount'' (own Stage_Storage)
      (\<lambda>st. if provisioned y then start_normal_mode ops y st else start_setup_mode ops y st) st3 =
      (APP_ERROR_NONE, out)"
    by (auto simp: Let_def split: prod.splits if_splits)
  have "y = x" by (rule assms(3) [OF y])
  with mount assms(2) show ?thesis
    using normal_mode_starts_wifi by (elim run_stage_NONE) simp
qed

lemma boot_succeeds_stages:
  assumes "app_core_sequence_start (Some ops) = (APP_ERROR_NONE, out)"
  obtains st where "start_stages ops
    \<lparr>su_owned = {}, su_setup_code_published = False, su_history = []\<rparr> = (APP_ERROR_NONE, st)"
proof -
  obtain r st where stages: "start_stages ops
    \<lparr>su_owned = {}, su_setup_code_published = False, su_history = []\<rparr> = (r, st)" by force
  have "r = APP_ERROR_NONE"
  proof (rule ccontr)
    assume r: "r \<noteq> APP_ERROR_NONE"
    then have "finish_failure ops r (notify Secure_Zero st) = (APP_ERROR_NONE, out)"
      using assms by (simp add: app_core_sequence_start_def stages fail_with_secrets_def)
    from finish_failure_spec [OF this] r show False by auto
  qed
  with stages that show thesis by blast
qed

lemma passphrase_change_valid:
  assumes "app_v2_device_settings_validate (Some y) = APP_V2_SETTINGS_OK" and "provisioned y"
    and "0 \<notin> set p" "valid_utf8 p" "8 \<le> length p" "length p \<le> 63"
  shows "app_v2_device_settings_validate (Some (y\<lparr>ap_passphrase := padded 64 p\<rparr>)) = APP_V2_SETTINGS_OK"
proof -
  have "valid_text (padded 64 p) 64 8 63"
    using assms(3-) c_text_take [of "padded 64 p"] by (simp add: valid_text_def c_text_padded)
  moreover have "station_fields_valid (y\<lparr>ap_passphrase := padded 64 p\<rparr>) = station_fields_valid y"
    by (simp add: station_fields_valid_def station_passphrase_valid_def cong: option.case_cong)
  ultimately show ?thesis
    using assms(1,2)
    by (simp add: app_v2_device_settings_validate_def limit_defs credential_bytes_absent_def
        credential_bytes_present_def split: if_splits)
qed

text \<open>
  C39: A pass phrase of 8 to 11 bytes for the access point, which every way of changing the settings
  accepts, keeps a provisioned device from ever starting again.  Take valid settings of a device in
  use and change their pass phrase to such a text: the result is valid settings, and whatever the
  driver and the other stages do, a boot that reads them fails, because the access point refuses a
  pass phrase of fewer than 12 bytes.
\<close>
theorem short_passphrase_never_boots:
  assumes "app_v2_device_settings_validate (Some y) = APP_V2_SETTINGS_OK" and "provisioned y"
    and "0 \<notin> set p" "valid_utf8 p" "8 \<le> length p" "length p < 12"
    and x: "x = y\<lparr>ap_passphrase := padded 64 p\<rparr>"
    and "\<And>h z. op_settings_read ops h = (APP_ERROR_NONE, z) \<Longrightarrow> z = x"
    and wifi: "\<And>c h. op_call ops (Start_Wifi c) h = fst (app_core_wifi_start esp c wifi_ap_boot)"
  shows "app_v2_device_settings_validate (Some x) = APP_V2_SETTINGS_OK \<and>
    fst (app_core_sequence_start (Some ops)) \<noteq> APP_ERROR_NONE"
proof
  show "app_v2_device_settings_validate (Some x) = APP_V2_SETTINGS_OK"
    unfolding x using assms(1-6) by (intro passphrase_change_valid) simp_all
  show "fst (app_core_sequence_start (Some ops)) \<noteq> APP_ERROR_NONE"
  proof
    assume "fst (app_core_sequence_start (Some ops)) = APP_ERROR_NONE"
    then obtain out where "app_core_sequence_start (Some ops) = (APP_ERROR_NONE, out)"
      by (metis prod.collapse)
    then obtain st where "start_stages ops
        \<lparr>su_owned = {}, su_setup_code_published = False, su_history = []\<rparr> = (APP_ERROR_NONE, st)"
      by (rule boot_succeeds_stages)
    then obtain c h where c: "wf_ap_passphrase c = ap_passphrase x" "op_call ops (Start_Wifi c) h = APP_ERROR_NONE"
      using provisioned_boot_starts_wifi [OF _ _ assms(8)] assms(2) x by fastforce
    have "length (c_text (wf_ap_passphrase c)) < 12"
      using assms(3,6) by (simp add: c(1) x c_text_padded)
    from short_passphrase_refused [OF this, of esp] c(2) show False by (simp add: wifi)
  qed
qed

text \<open>A device whose every other stage succeeds.\<close>

definition short_ops :: "device_settings \<Rightarrow> app_core_ops" where
  "short_ops x =
     \<lparr>op_nvs_init = (\<lambda>h. APP_CORE_NVS_OK),
      op_call = (\<lambda>c h. case c of Start_Wifi w \<Rightarrow> fst (app_core_wifi_start sample_esp w wifi_ap_boot) | _ \<Rightarrow> APP_ERROR_NONE),
      op_settings_read = (\<lambda>h. (APP_ERROR_NONE, x)),
      op_bootstrap_derive = (\<lambda>h. (APP_ERROR_INTERNAL, \<lparr>pb_device_id = [], pb_ap_ssid = [], pb_ap_passphrase = []\<rparr>)),
      op_setup_code_generate = (\<lambda>h. (APP_ERROR_INTERNAL, [])),
      op_owns_resources = (\<lambda>s h. False)\<rparr>"

lemma short_passphrase_never_boots_witness:
  "app_v2_device_settings_validate (Some (sample_settings\<lparr>ap_passphrase := padded 64 (ascii ''password'')\<rparr>)) =
     APP_V2_SETTINGS_OK \<and>
   fst (app_core_sequence_start (Some (short_ops (sample_settings\<lparr>ap_passphrase := padded 64 (ascii ''password'')\<rparr>)))) \<noteq>
     APP_ERROR_NONE"
proof (rule short_passphrase_never_boots [OF sample_valid])
  show "0 \<notin> set (ascii ''password'')" "valid_utf8 (ascii ''password'')" by code_simp+
qed (simp_all add: sample_settings_def short_ops_def ascii_def)

end
