(* ===== verification/Spec2Isabelle.thy ===== *)
theory Spec2Isabelle
  imports Macro_Roundtrip App_Crc32 Subsystem_Health Executor_Timing Usb_Typing Auth_Throttle Storage_Upload Storage_Mount Settings_Nvs Startup_Rollback Reset_Life Web_Pipeline Web_Login_Safety Web_Setup_Safety
    Controls_Safety Web_Device_Actions Wifi_Ap_Safety
begin

text \<open>
  A verification library of the ESP32 macro keyboard firmware.

  The device is a USB keyboard that types stored macros.  A macro is a text the firmware
  compiles to a plan of key presses and delays; the executor types the plan over USB after an
  optional confirmation; a web interface behind a login manages an encrypted repository of
  blobs and the device settings; a startup sequence brings the subsystems up and a factory
  reset erases the device.  The firmware is written as host-testable cores, whose calls of the
  operating system go through tables of function pointers, and thin adapters that fill those
  tables.  The library models the cores under \<open>src/firmware/components\<close> and some adapters.

  \<^bold>\<open>Conventions\<close> (\<open>App_Prelude\<close>, \<open>App_Error\<close>).  Machine integers keep their width as words where
  they wrap or are stored; \<open>size_t\<close> counts are natural numbers, bounded by the code far below
  their range.  A \<open>char\<close> buffer is the list of its bytes, a C string the bytes before its NUL,
  a pointer that may be null an option.  A function that fails returns the error code the C
  function returns, next to or instead of its outputs.  A table of function pointers is a
  record of functions: on an abstract state \<open>'w\<close> with laws that state documented behaviour
  (\<open>Storage_Fs\<close>, \<open>Settings_Nvs\<close>), or an oracle over the history of calls that may answer
  anything (\<open>Macro_Executor\<close>, \<open>Usb_Keyboard\<close>, \<open>App_Startup\<close>).  Locks that the code takes
  around a section are operations that may fail; sections run one after the other.

  \<^bold>\<open>Macro language.\<close>  \<open>Macro_Keymap\<close> (\<open>macro_parser/macro_keymap_us.c\<close>): characters and named
  keys to usages.  \<open>Macro_Parser\<close> (\<open>macro_parser_v2.c\<close>): tokens, directives, chords, delays,
  error locations.  \<open>Macro_Compile\<close>: plans are well formed and within every limit, rejected
  sources are reported at a place of the source, and the compiler refines a token-by-token
  specification.  \<open>Macro_Roundtrip\<close>: text escaped as the language asks for compiles to key
  presses that a host with the US layout reads back as that text.

  \<^bold>\<open>Support.\<close>  \<open>App_Uuid\<close>, \<open>App_Crc32\<close> (table against bit-serial register), \<open>Subsystem_Health\<close>,
  \<open>C_Text\<close> (decimal text), \<open>C_Bytes\<close> (buffers, little-endian numbers as the locale \<open>le_codec\<close>).

  \<^bold>\<open>Executor.\<close>  \<open>Macro_Executor\<close> (\<open>macro_executor_engine.c\<close>): submission, execution,
  confirmation, cancellation, publication.  \<open>Executor_Safety\<close>: every press is released, the
  engine comes to rest or is latched unavailable.  \<open>Executor_Confirm\<close>: nothing is typed before
  the confirmation.  \<open>Executor_Timing\<close>: delays, deadlines across the wrap of the clock,
  termination under a clock of ticks, whose waits round to whole ticks and which notifications cut
  short.  Waiting loops are \<open>partial_function\<close>s on \<open>option\<close>, and
  their termination is a theorem.

  \<^bold>\<open>USB.\<close>  \<open>Usb_Keyboard\<close> (\<open>usb_keyboard_state.c\<close>): reports and waits.  \<open>Usb_Typing\<close> composes
  compiler, executor and keyboard: the host receives exactly the text.

  \<^bold>\<open>Authentication.\<close>  \<open>Auth_Core\<close> (\<open>auth_core_*.c\<close>), \<open>Auth_Rate_Limit\<close>, \<open>Auth_Sessions\<close>
  (sessions refine a map from tokens), \<open>Auth_Lockout\<close> (the table of the rate limiter),
  \<open>Auth_Lifecycle\<close> (reachable states, failing locks; locale \<open>locked_operation\<close>), \<open>Auth_Throttle\<close>
  (five failures lock a source out for five minutes, whatever calls come between and after).

  \<^bold>\<open>Storage.\<close>  \<open>Storage_Names\<close> (file names, locale \<open>name_codec\<close>), \<open>Storage_Fs\<close> (the POSIX calls and
  their laws over the trace of file systems, which makes every intermediate state of a call
  visible and so covers power loss), \<open>Storage_Sample\<close> (an executable disk that satisfies the
  laws), \<open>Storage_Scan\<close> and \<open>Storage_Repository\<close> (scan, recovery), \<open>Storage_Access\<close> (read, delete,
  delete all), \<open>Storage_Atomic\<close> and \<open>Storage_Upload\<close> (old or new content at every moment),
  \<open>Storage_Mount\<close> (mount flags).

  \<^bold>\<open>Settings.\<close>  \<open>Settings_Codec\<close> (\<open>app_contracts_v2/device_settings_v2.c\<close>): validation and the
  344-byte record.  \<open>Settings_Record\<close>: round trips, what the decoder accepts.  \<open>Settings_Core\<close>
  (\<open>device_settings_core.c\<close>): the write-through cache; the locale \<open>settings_store\<close> is the
  contract of the record store behind it.  \<open>Settings_Nvs\<close> (\<open>device_settings.c\<close>): the NVS store
  with its reconciliation of failed commits fulfils that contract (a \<open>sublocale\<close> of
  \<open>nvs_flash\<close>), so settings that are read are those the flash holds.

  \<^bold>\<open>Startup.\<close>  \<open>App_Startup\<close> (\<open>app_core_sequence.c\<close>), \<open>Startup_Order\<close> and \<open>Startup_Rollback\<close>: all
  stages or none, in order, with the secrets cleared.

  \<^bold>\<open>Factory reset.\<close>  \<open>Factory_Reset\<close> (the NVS marker of \<open>factory_reset_state/\<close>, the reset of
  \<open>device_controls_reset.c\<close>, the recovery of \<open>factory_reset_recovery_engine.c\<close>).  \<open>Reset_Marker\<close>: the
  marker on a flash that does what NVS documents (locale \<open>marker_flash\<close>).  \<open>Reset_Journal\<close> runs both
  engines on a table that logs every durable view a power loss can leave, states what the
  operations promise as the locales \<open>reset_journal\<close> and \<open>recovery_journal\<close>, and proves the journal
  invariant of all those views.  \<open>Factory_Recovery\<close> is the table of \<open>factory_reset_recovery.c\<close> with
  the mounts of \<open>storage_mount.c\<close>.  \<open>Reset_Life\<close> proves the promises of that table and of the one in
  \<open>device_controls.c\<close> from the laws of NVS and POSIX (two \<open>sublocale\<close>s) and closes the invariant
  under resets, recoveries, ordinary use and power losses at any moment.

  \<^bold>\<open>Controls.\<close>  \<open>Controls_Engine\<close> (\<open>device_controls_logic.c\<close>): the status indicator, the task, its
  health and its teardown.  \<open>Device_Controls\<close> (\<open>device_controls.c\<close>): the engine on GPIO, two
  semaphores and a task, the confirmation signal, and the \<open>confirm\<close> command of the console.
  \<open>Controls_Safety\<close>: the life of the controls as a step relation with its invariant, teardowns
  that are tried again, and what a confirmation given to nobody does.

  \<^bold>\<open>Access point.\<close>  \<open>Wifi_Ap\<close> (\<open>wifi_ap_state.c\<close>, \<open>wifi_ap_station.c\<close>, \<open>wifi_ap.c\<close>, and the Wi-Fi stage
  of \<open>app_core.c\<close>): start, stop and events of the access point and the join of a network, over a
  driver that answers and delivers events as it likes.  \<open>Wifi_Ap_Safety\<close>: what the access point
  holds in every reachable state, and the pass phrases with which a device no longer starts.

  \<^bold>\<open>Requests.\<close>  \<open>Web_Static\<close> (paths and content of static files), \<open>Web_Cookie\<close>, \<open>Web_Api\<close>
  (\<open>web_api_core.c\<close>: routes and their rules), \<open>Web_Policy\<close> (\<open>web_request_policy.c\<close>) and
  \<open>Web_Pipeline\<close> (\<open>web_server_api.c\<close>): from a request to at most one handler, as an event history
  of what the server asked its environment.

  \<^bold>\<open>Handlers.\<close>  \<open>Web_Json\<close> (parsed documents, the calls of cJSON with their documented
  behaviour), \<open>Settings_Update\<close> (\<open>settings_contract_v2.c\<close>), \<open>Web_Settings\<close> (\<open>web_settings.c\<close>, the
  locale \<open>settings_backend\<close> is the contract of the operations behind it), \<open>Web_Credentials\<close> (the
  verifier in RAM and the production operations, which fulfil that contract in the locale
  \<open>web_production\<close>), \<open>Web_Sample\<close> (a server for the witnesses), \<open>Web_Password\<close> (settings update and
  password change end to end).  \<open>Web_Login\<close> and \<open>Web_Login_Safety\<close>: the login handler with its
  rate limit.  \<open>Setup_Contract\<close>, \<open>Web_Setup\<close>, \<open>Web_Setup_Safety\<close>: the setup code and the first setup.
  \<open>Device_Actions\<close> (the restart and the table of the reset engine in \<open>device_controls.c\<close>, on the
  settings, sessions, repository and marker) and \<open>Web_Device_Actions\<close> (\<open>web_device_actions.c\<close>, the
  guard of \<open>web_server_lifecycle.c\<close>): what a request for a reset erases, and when.

  \<^bold>\<open>Interleavings.\<close>  The device runs the HTTP server, a worker for requests that wait for a
  confirmation, the console and the executor as tasks.  A critical section is one step; where two
  tasks meet outside of one, a property composes the steps in the order that matters: a password
  change inside a settings update or a login, a factory reset inside a settings update, a
  confirmation before a request.

  \<^bold>\<open>Bounds.\<close>  Loops whose end depends on the environment are \<open>partial_function\<close>s on \<open>option\<close> with
  theorems that they return (a clock that advances, a directory that ends); all other loops
  are structural or carry a measure.  No definition has fuel.

  \<^bold>\<open>Not modelled.\<close>  The adapters that only call ESP-IDF, FreeRTOS, TinyUSB, mbedTLS, cJSON or
  esp_http_server (most of \<open>auth.c\<close>, \<open>app_core.c\<close>, \<open>macro_executor.c\<close>, \<open>storage_fs_ops.c\<close>, the
  registration of routes and commands); the send, blob and diagnostics endpoints, whose logic is
  that of the executor and the repository behind them; the older setup core
  (\<open>web_setup_core.c\<close>, \<open>web_setup_json.c\<close>), which the setup submission has replaced; the web
  application, scripts and tests.  Concurrency finer than critical sections, and the memory of C
  below buffers, are not part of the model.
\<close>

end
